(* ===== verification/Prelude.thy ===== *)
theory Prelude
  imports Main "HOL-Library.Word"
begin

unbundle bit_operations_syntax

text \<open>
  Shared vocabulary of the development: the Rust result type and its combinators, bytes and
  byte strings, little and big endian integers, fixed size chunks of a list, the first index of
  an element, and the collections of rewrite rules the component theories fill.
\<close>

named_theorems str_simps \<open>evaluation of the string operations on literals\<close>
named_theorems wire_simps \<open>encoders and decoders of the wire formats\<close>
named_theorems step_simps \<open>unfolding of the step functions of the state machines\<close>

section \<open>Results\<close>

datatype ('a, 'e) result = Ok 'a | Err 'e

fun and_then :: "('a, 'e) result \<Rightarrow> ('a \<Rightarrow> ('b, 'e) result) \<Rightarrow> ('b, 'e) result" where
  "and_then (Ok x) f = f x"
| "and_then (Err e) f = Err e"

fun map_err :: "('e \<Rightarrow> 'f) \<Rightarrow> ('a, 'e) result \<Rightarrow> ('a, 'f) result" where
  "map_err f (Ok x) = Ok x"
| "map_err f (Err e) = Err (f e)"

fun ok :: "('a, 'e) result \<Rightarrow> 'a option" where
  "ok (Ok x) = Some x"
| "ok (Err e) = None"

fun ok_or :: "'e \<Rightarrow> 'a option \<Rightarrow> ('a, 'e) result" where
  "ok_or e (Some x) = Ok x"
| "ok_or e None = Err e"

fun is_ok :: "('a, 'e) result \<Rightarrow> bool" where
  "is_ok (Ok x) = True"
| "is_ok (Err e) = False"

fun unwrap_or :: "'a \<Rightarrow> 'a option \<Rightarrow> 'a" where
  "unwrap_or d (Some x) = x"
| "unwrap_or d None = d"

lemma and_then_eq_Ok [simp]:
  "and_then r f = Ok y \<longleftrightarrow> (\<exists>x. r = Ok x \<and> f x = Ok y)"
  by (cases r) auto

lemma ok_or_eq_Ok [simp]: "ok_or e m = Ok x \<longleftrightarrow> m = Some x"
  by (cases m) auto

lemma ok_or_eq_Err [simp]: "ok_or e m = Err e' \<longleftrightarrow> m = None \<and> e' = e"
  by (cases m) auto

lemma map_err_eq_Ok [simp]: "map_err f r = Ok x \<longleftrightarrow> r = Ok x"
  by (cases r) auto

lemma map_err_eq_Err [simp]: "map_err f r = Err e \<longleftrightarrow> (\<exists>e'. r = Err e' \<and> e = f e')"
  by (cases r) auto

lemma ok_eq_Some [simp]: "ok r = Some x \<longleftrightarrow> r = Ok x"
  by (cases r) auto

lemma is_ok_iff: "is_ok r \<longleftrightarrow> (\<exists>x. r = Ok x)"
  by (cases r) auto

text \<open>Indexing that returns nothing out of range, as \<open>slice.get\<close> does.\<close>

definition get_at :: "'a list \<Rightarrow> nat \<Rightarrow> 'a option" where
  "get_at xs i = (if i < length xs then Some (xs ! i) else None)"

lemma get_at_Cons [simp]:
  "get_at [] i = None"
  "get_at (x # xs) 0 = Some x"
  "get_at (x # xs) (Suc i) = get_at xs i"
  by (simp_all add: get_at_def)

lemma get_at_Cons_numeral [simp]:
  "get_at (x # xs) (numeral k) = get_at xs (pred_numeral k)"
  by (simp add: get_at_def numeral_eq_Suc)

lemma get_at_Cons_one [simp]: "get_at (x # xs) 1 = get_at xs 0"
  by (simp add: get_at_def)

text \<open>The sub-slice \<open>xs[a..b]\<close>; the callers check the bounds first.\<close>

definition slice :: "nat \<Rightarrow> nat \<Rightarrow> 'a list \<Rightarrow> 'a list" where
  "slice a b xs = take (b - a) (drop a xs)"

lemma length_slice [simp]: "b \<le> length xs \<Longrightarrow> length (slice a b xs) = b - a"
  by (simp add: slice_def)

section \<open>Chunks\<close>

text \<open>\<open>slice.chunks(n)\<close>: consecutive pieces of length \<open>n\<close>, the last one possibly shorter.\<close>

function chunks :: "nat \<Rightarrow> 'a list \<Rightarrow> 'a list list" where
  "chunks n xs = (if n = 0 \<or> xs = [] then [] else take n xs # chunks n (drop n xs))"
  by pat_completeness auto
termination
  by (relation "measure (\<lambda>(n, xs). length xs)") auto

declare chunks.simps [simp del]

lemma chunks_Nil [simp]: "chunks n [] = []"
  by (subst chunks.simps) simp

lemma chunks_step: "0 < n \<Longrightarrow> xs \<noteq> [] \<Longrightarrow> chunks n xs = take n xs # chunks n (drop n xs)"
  by (subst chunks.simps) simp

lemma concat_chunks [simp]: "0 < n \<Longrightarrow> concat (chunks n xs) = xs"
proof (induction n xs rule: chunks.induct)
  case (1 n xs)
  then show ?case by (cases "xs = []") (simp_all add: chunks_step)
qed

lemma chunks_bound: "c \<in> set (chunks n xs) \<Longrightarrow> 0 < length c \<and> length c \<le> n"
proof (induction n xs rule: chunks.induct)
  case (1 n xs)
  show ?case
  proof (cases "n = 0 \<or> xs = []")
    case True
    then show ?thesis using 1(2) by (subst (asm) chunks.simps) simp
  next
    case False
    then have "c = take n xs \<or> c \<in> set (chunks n (drop n xs))"
      using 1(2) by (simp add: chunks_step)
    then show ?thesis using False 1(1) by (auto simp: min_def)
  qed
qed

section \<open>Bytes\<close>

type_synonym byte = "8 word"
type_synonym bytes = "8 word list"

definition byte_of :: "char \<Rightarrow> byte" where
  "byte_of c = of_nat (of_char c)"

definition char_of_byte :: "byte \<Rightarrow> char" where
  "char_of_byte b = char_of (unat b)"

lemma char_of_byte_of [simp]: "char_of_byte (byte_of c) = c"
proof -
  have "(of_char c :: nat) mod 256 = of_char c"
    by (rule of_char_mod_256)
  then have "(of_char c :: nat) < 2 ^ 8"
    using mod_less_divisor [of 256 "of_char c :: nat"] by simp
  then have "unat (of_nat (of_char c) :: byte) = of_char c"
    by (simp add: unsigned_of_nat take_bit_nat_eq_self)
  then show ?thesis by (simp add: char_of_byte_def byte_of_def)
qed

lemma byte_of_char_of_byte [simp]: "byte_of (char_of_byte b) = b"
proof -
  have "unat b < 256" using unsigned_less [of b] by simp
  then have "(of_char (char_of (unat b)) :: nat) = unat b"
    by simp
  then show ?thesis by (simp add: char_of_byte_def byte_of_def)
qed

lemma inj_char_of_byte: "inj char_of_byte"
  by (rule inj_on_inverseI [where g = byte_of]) simp

abbreviation as_bytes :: "string \<Rightarrow> bytes" where
  "as_bytes \<equiv> map byte_of"

abbreviation of_bytes :: "bytes \<Rightarrow> string" where
  "of_bytes \<equiv> map char_of_byte"

lemma of_bytes_as_bytes [simp]: "of_bytes (as_bytes s) = s"
  by (induction s) simp_all

lemma as_bytes_of_bytes [simp]: "as_bytes (of_bytes s) = s"
  by (induction s) simp_all

section \<open>Endianness\<close>

definition le16 :: "16 word \<Rightarrow> bytes" where
  "le16 w = [ucast w, ucast (drop_bit 8 w)]"

definition from_le16 :: "byte \<Rightarrow> byte \<Rightarrow> 16 word" where
  "from_le16 a b = ucast a OR push_bit 8 (ucast b)"

definition le32 :: "32 word \<Rightarrow> bytes" where
  "le32 w = [ucast w, ucast (drop_bit 8 w), ucast (drop_bit 16 w), ucast (drop_bit 24 w)]"

definition from_le32 :: "byte \<Rightarrow> byte \<Rightarrow> byte \<Rightarrow> byte \<Rightarrow> 32 word" where
  "from_le32 a b c d =
     ucast a OR push_bit 8 (ucast b) OR push_bit 16 (ucast c) OR push_bit 24 (ucast d)"

definition be32 :: "32 word \<Rightarrow> bytes" where
  "be32 w = [ucast (drop_bit 24 w), ucast (drop_bit 16 w), ucast (drop_bit 8 w), ucast w]"

definition from_be32 :: "byte \<Rightarrow> byte \<Rightarrow> byte \<Rightarrow> byte \<Rightarrow> 32 word" where
  "from_be32 a b c d = from_le32 d c b a"

lemma ucast_ucast_8_16 [simp]:
  "from_le16 (ucast w) (ucast (drop_bit 8 w)) = w"
  unfolding from_le16_def
  by (rule bit_word_eqI) (auto simp: bit_simps)

lemma from_le32_le32 [simp]:
  "from_le32 (ucast w) (ucast (drop_bit 8 w)) (ucast (drop_bit 16 w)) (ucast (drop_bit 24 w)) = w"
proof (rule bit_word_eqI)
  fix n assume n: "n < LENGTH(32)"
  show "bit (from_le32 (ucast w) (ucast (drop_bit 8 w)) (ucast (drop_bit 16 w))
          (ucast (drop_bit 24 w))) n = bit w n"
    using n by (cases "n < 8"; cases "n < 16"; cases "n < 24") (auto simp: from_le32_def bit_simps)
qed

lemma byte_bit_out:
  "\<not> bit (a :: byte) (8 + n)" "\<not> bit (a :: byte) (16 + n)" "\<not> bit (a :: byte) (24 + n)"
  using bit_imp_le_length [of a "8 + n"] bit_imp_le_length [of a "16 + n"]
    bit_imp_le_length [of a "24 + n"] by auto

lemma le16_from_le16 [simp]: "le16 (from_le16 a b) = [a, b]"
  unfolding le16_def from_le16_def
  by (auto intro!: bit_word_eqI simp: bit_simps byte_bit_out)

lemma le32_from_le32 [simp]: "le32 (from_le32 a b c d) = [a, b, c, d]"
  unfolding le32_def from_le32_def
  by (auto intro!: bit_word_eqI simp: bit_simps byte_bit_out)

lemma be32_le32: "be32 w = rev (le32 w)"
  by (simp add: be32_def le32_def)

lemma be32_from_be32 [simp]: "be32 (from_be32 a b c d) = [a, b, c, d]"
  by (simp add: be32_le32 from_be32_def)

lemma from_be32_be32 [simp]:
  "from_be32 (ucast (drop_bit 24 w)) (ucast (drop_bit 16 w)) (ucast (drop_bit 8 w)) (ucast w) = w"
  by (simp add: from_be32_def)

lemma length_le [simp]: "length (le16 x) = 2" "length (le32 y) = 4" "length (be32 y) = 4"
  by (simp_all add: le16_def le32_def be32_def)

section \<open>First index of an element\<close>

fun index_of :: "('a \<Rightarrow> bool) \<Rightarrow> 'a list \<Rightarrow> nat option" where
  "index_of P [] = None"
| "index_of P (x # xs) = (if P x then Some 0 else map_option Suc (index_of P xs))"

lemma index_of_None: "index_of P xs = None \<longleftrightarrow> (\<forall>x\<in>set xs. \<not> P x)"
  by (induction xs) auto

lemma index_of_Some:
  "index_of P xs = Some i \<Longrightarrow> i < length xs \<and> P (xs ! i) \<and> (\<forall>j<i. \<not> P (xs ! j))"
proof (induction xs arbitrary: i)
  case (Cons x xs)
  show ?case
  proof (cases "P x")
    case False
    then obtain k where "index_of P xs = Some k" "i = Suc k" using Cons.prems by auto
    then show ?thesis using Cons.IH [of k] False by (auto simp: less_Suc_eq_0_disj)
  qed (use Cons.prems in auto)
qed simp

section \<open>Named laws shared by the codecs\<close>

text \<open>
  The contract of a wire format: decoding an encoding gives the value back. A value that is
  encodable is determined by its encoding, so two values with one wire form are equal.
\<close>

locale wire_codec =
  fixes enc :: "'a \<Rightarrow> 'w" and dec :: "'w \<Rightarrow> 'a option" and valid :: "'a \<Rightarrow> bool"
  assumes dec_enc: "valid x \<Longrightarrow> dec (enc x) = Some x"
begin

lemma enc_inj: "valid x \<Longrightarrow> valid y \<Longrightarrow> enc x = enc y \<Longrightarrow> x = y"
proof -
  assume v: "valid x" "valid y" and e: "enc x = enc y"
  have "Some x = Some y"
    unfolding dec_enc [OF v(1), symmetric] dec_enc [OF v(2), symmetric] e ..
  then show "x = y" by simp
qed

lemma enc_eq_iff: "valid x \<Longrightarrow> valid y \<Longrightarrow> enc x = enc y \<longleftrightarrow> x = y"
  by (rule iffI, rule enc_inj) simp_all

lemma dec_total_on_enc: "valid x \<Longrightarrow> dec (enc x) \<noteq> None"
  using dec_enc by simp

end

text \<open>
  The contract of a state machine driven by one event at a time: every event keeps the
  invariant. Then so does every sequence of events.
\<close>

locale event_machine =
  fixes step :: "'e \<Rightarrow> 's \<Rightarrow> 's" and inv :: "'s \<Rightarrow> bool"
  assumes step_inv: "inv s \<Longrightarrow> inv (step e s)"
begin

lemma run_inv: "inv s \<Longrightarrow> inv (fold step es s)"
  by (induction es arbitrary: s) (simp_all add: step_inv)

lemma run_prefix_inv: "inv s \<Longrightarrow> inv (fold step (take n es) s)"
  by (rule run_inv)

end

end
