(* ===== verification/Rust_Str.thy ===== *)
theory Rust_Str
  imports Prelude
begin

text \<open>
  The operations of Rust's \<open>str\<close> the program uses. A \<open>str\<close> is the list of its UTF-8 bytes, so
  \<open>length\<close> is \<open>str::len\<close>. \<open>strip_prefix\<close>, \<open>split\<close>, \<open>splitn\<close>, \<open>split_once\<close>, \<open>lines\<close>, \<open>trim\<close>,
  \<open>str::parse\<close> for the unsigned integers and the decimal and hexadecimal formatters, with the
  round trips between printing and parsing.
\<close>

section \<open>Prefixes\<close>

fun strip_prefix :: "'a list \<Rightarrow> 'a list \<Rightarrow> 'a list option" where
  "strip_prefix [] s = Some s"
| "strip_prefix (p # ps) [] = None"
| "strip_prefix (p # ps) (c # s) = (if p = c then strip_prefix ps s else None)"

lemma strip_prefix_Some: "strip_prefix p s = Some r \<longleftrightarrow> s = p @ r"
  by (induction p s rule: strip_prefix.induct) auto

lemma strip_prefix_append [simp]: "strip_prefix p (p @ r) = Some r"
  by (simp add: strip_prefix_Some)

definition starts_with :: "'a list \<Rightarrow> 'a list \<Rightarrow> bool" where
  "starts_with p s \<longleftrightarrow> strip_prefix p s \<noteq> None"

lemma starts_with_iff: "starts_with p s \<longleftrightarrow> (\<exists>r. s = p @ r)"
  unfolding starts_with_def by (auto simp flip: strip_prefix_Some)

lemma starts_with_simps [simp]:
  "starts_with [] s"
  "\<not> starts_with (p # ps) []"
  "starts_with (p # ps) (c # s) \<longleftrightarrow> p = c \<and> starts_with ps s"
  by (simp_all add: starts_with_def)

lemma starts_with_append [simp]: "starts_with p (p @ r)"
  by (simp add: starts_with_def)

definition ends_with :: "'a list \<Rightarrow> 'a list \<Rightarrow> bool" where
  "ends_with p s \<longleftrightarrow> starts_with (rev p) (rev s)"

definition strip_suffix :: "'a list \<Rightarrow> 'a list \<Rightarrow> 'a list option" where
  "strip_suffix p s = map_option rev (strip_prefix (rev p) (rev s))"

lemma strip_suffix_Some: "strip_suffix p s = Some r \<longleftrightarrow> s = r @ p"
  unfolding strip_suffix_def
  by (auto simp: strip_prefix_Some) (metis rev_append rev_rev_ident)

fun contains_str :: "'a list \<Rightarrow> 'a list \<Rightarrow> bool" where
  "contains_str p [] = (p = [])"
| "contains_str p (c # s) = (starts_with p (c # s) \<or> contains_str p s)"

section \<open>Splitting at a character\<close>

fun split_once :: "'a \<Rightarrow> 'a list \<Rightarrow> ('a list \<times> 'a list) option" where
  "split_once c [] = None"
| "split_once c (x # xs) =
     (if x = c then Some ([], xs)
      else map_option (\<lambda>(a, b). (x # a, b)) (split_once c xs))"

lemma split_once_Some:
  "split_once c s = Some (a, b) \<longleftrightarrow> s = a @ c # b \<and> c \<notin> set a"
  by (induction s arbitrary: a b) (auto simp: Cons_eq_append_conv)

lemma split_once_None: "split_once c s = None \<longleftrightarrow> c \<notin> set s"
  by (induction s) auto

lemma split_once_append [simp]:
  "c \<notin> set a \<Longrightarrow> split_once c (a @ c # b) = Some (a, b)"
  by (simp add: split_once_Some)

fun split_on :: "'a \<Rightarrow> 'a list \<Rightarrow> 'a list list" where
  "split_on c [] = [[]]"
| "split_on c (x # xs) =
     (if x = c then [] # split_on c xs
      else case split_on c xs of [] \<Rightarrow> [[x]] | y # ys \<Rightarrow> (x # y) # ys)"

lemma split_on_not_Nil [simp]: "split_on c s \<noteq> []"
  by (induction s) (auto split: list.splits)

lemma split_on_free: "c \<notin> set s \<Longrightarrow> split_on c s = [s]"
  by (induction s) auto

lemma split_on_append [simp]:
  "c \<notin> set a \<Longrightarrow> split_on c (a @ c # b) = a # split_on c b"
  by (induction a) auto

lemma split_on_parts_free: "p \<in> set (split_on c s) \<Longrightarrow> c \<notin> set p"
  by (induction s arbitrary: p) (auto split: list.splits if_splits)

fun join :: "'a list \<Rightarrow> 'a list list \<Rightarrow> 'a list" where
  "join sep [] = []"
| "join sep [x] = x"
| "join sep (x # y # ys) = x @ sep @ join sep (y # ys)"

lemma join_Cons: "ys \<noteq> [] \<Longrightarrow> join sep (x # ys) = x @ sep @ join sep ys"
  by (cases ys) simp_all

lemma split_on_join:
  "ps \<noteq> [] \<Longrightarrow> \<forall>p\<in>set ps. c \<notin> set p \<Longrightarrow> split_on c (join [c] ps) = ps"
  by (induction "[c]" ps rule: join.induct) (simp_all add: split_on_free)

lemma join_split_on [simp]: "join [c] (split_on c s) = s"
proof (induction s)
  case (Cons x xs)
  then show ?case
    by (cases "split_on c xs" rule: list.exhaust)
      (auto simp: join_Cons split: list.splits, metis append_Cons join.simps(2) join_Cons)
qed simp

function splitn :: "nat \<Rightarrow> 'a \<Rightarrow> 'a list \<Rightarrow> 'a list list" where
  "splitn n c s =
     (if n = 0 then [] else if n = 1 then [s]
      else case split_once c s of None \<Rightarrow> [s] | Some (a, b) \<Rightarrow> a # splitn (n - 1) c b)"
  by pat_completeness auto
termination
  by (relation "measure (\<lambda>(n, c, s). n)") auto

declare splitn.simps [simp del]

lemma splitn_last [str_simps]: "splitn 1 c s = [s]" "splitn (Suc 0) c s = [s]"
  by (simp_all add: splitn.simps)

lemma splitn_step [str_simps]:
  "1 < n \<Longrightarrow> splitn n c s =
     (case split_once c s of None \<Rightarrow> [s] | Some (a, b) \<Rightarrow> a # splitn (n - 1) c b)"
  by (subst splitn.simps) simp

lemma splitn_join:
  "ps \<noteq> [] \<Longrightarrow> length ps \<le> n \<Longrightarrow> \<forall>p\<in>set ps. c \<notin> set p \<Longrightarrow> splitn n c (join [c] ps) = ps"
proof (induction "[c]" ps arbitrary: n rule: join.induct)
  case (2 x)
  then have "split_once c x = None" by (simp add: split_once_None)
  then show ?case using 2 by (cases "n = 1") (simp_all add: splitn_last splitn_step)
next
  case (3 x y ys)
  then show ?case by (simp add: splitn_step)
qed simp

section \<open>Lines\<close>

text \<open>\<open>str::lines\<close>: split after each newline; a final empty line is dropped, and one carriage
  return before a newline belongs to the line ending.\<close>

definition chop_cr :: "string \<Rightarrow> string" where
  "chop_cr s = (if s \<noteq> [] \<and> last s = CHR 0x0D then butlast s else s)"

fun lines_of :: "string list \<Rightarrow> string list" where
  "lines_of [] = []"
| "lines_of [l] = (if l = [] then [] else [l])"
| "lines_of (l # m # ms) = chop_cr l # lines_of (m # ms)"

definition lines :: "string \<Rightarrow> string list" where
  "lines s = lines_of (split_on CHR 0x0A s)"

section \<open>Trimming\<close>

text \<open>The UTF-8 encodings of the characters with the Unicode property \<open>White_Space\<close>.\<close>

definition ws_seqs :: "string list" where
  "ws_seqs =
     [[CHR 0x09], [CHR 0x0A], [CHR 0x0B], [CHR 0x0C], [CHR 0x0D], [CHR 0x20],
      [CHR 0xC2, CHR 0x85], [CHR 0xC2, CHR 0xA0], [CHR 0xE1, CHR 0x9A, CHR 0x80],
      [CHR 0xE2, CHR 0x80, CHR 0x80], [CHR 0xE2, CHR 0x80, CHR 0x81],
      [CHR 0xE2, CHR 0x80, CHR 0x82], [CHR 0xE2, CHR 0x80, CHR 0x83],
      [CHR 0xE2, CHR 0x80, CHR 0x84], [CHR 0xE2, CHR 0x80, CHR 0x85],
      [CHR 0xE2, CHR 0x80, CHR 0x86], [CHR 0xE2, CHR 0x80, CHR 0x87],
      [CHR 0xE2, CHR 0x80, CHR 0x88], [CHR 0xE2, CHR 0x80, CHR 0x89],
      [CHR 0xE2, CHR 0x80, CHR 0x8A], [CHR 0xE2, CHR 0x80, CHR 0xA8],
      [CHR 0xE2, CHR 0x80, CHR 0xA9], [CHR 0xE2, CHR 0x80, CHR 0xAF],
      [CHR 0xE2, CHR 0x81, CHR 0x9F], [CHR 0xE3, CHR 0x80, CHR 0x80]]"

fun strip_any :: "'a list list \<Rightarrow> 'a list \<Rightarrow> 'a list option" where
  "strip_any [] s = None"
| "strip_any (p # ps) s =
     (case strip_prefix p s of Some r \<Rightarrow> Some r | None \<Rightarrow> strip_any ps s)"

function trim_front :: "'a list list \<Rightarrow> 'a list \<Rightarrow> 'a list" where
  "trim_front ps s =
     (case strip_any ps s of
        None \<Rightarrow> s
      | Some r \<Rightarrow> if length r < length s then trim_front ps r else s)"
  by pat_completeness auto
termination
  by (relation "measure (\<lambda>(ps, s). length s)") auto

declare trim_front.simps [simp del]

definition trim_start :: "string \<Rightarrow> string" where
  "trim_start s = trim_front ws_seqs s"

definition trim_end :: "string \<Rightarrow> string" where
  "trim_end s = rev (trim_front (map rev ws_seqs) (rev s))"

definition trim :: "string \<Rightarrow> string" where
  "trim s = trim_end (trim_start s)"

definition graphic :: "char \<Rightarrow> bool" where
  "graphic c \<longleftrightarrow> 33 \<le> (of_char c :: nat) \<and> (of_char c :: nat) \<le> 126"

lemma graphic_Char [simp]:
  "graphic (Char b0 b1 b2 b3 b4 b5 b6 b7) \<longleftrightarrow>
     33 \<le> (of_char (Char b0 b1 b2 b3 b4 b5 b6 b7) :: nat) \<and>
     (of_char (Char b0 b1 b2 b3 b4 b5 b6 b7) :: nat) \<le> 126"
  by (simp add: graphic_def)

lemma trim_front_Nil [simp]: "trim_front ps [] = []"
  by (subst trim_front.simps) (auto split: option.split)

lemma trim_Nil [simp]: "trim [] = []"
  by (simp add: trim_def trim_start_def trim_end_def)

lemma strip_any_other_head:
  "\<forall>p\<in>set ps. p \<noteq> [] \<and> hd p \<noteq> c \<Longrightarrow> strip_any ps (c # s) = None"
proof (induction ps)
  case (Cons p ps)
  then show ?case by (cases p) simp_all
qed simp

lemma ws_seqs_not_graphic:
  "\<forall>p\<in>set ws_seqs. p \<noteq> [] \<and> \<not> graphic (hd p) \<and> \<not> graphic (last p)"
  by (simp add: ws_seqs_def graphic_def)

lemma strip_any_ws_graphic:
  assumes "graphic c"
  shows "strip_any ws_seqs (c # s) = None" "strip_any (map rev ws_seqs) (c # s) = None"
  using ws_seqs_not_graphic assms
  by (auto intro!: strip_any_other_head simp: hd_rev)

lemma trim_start_graphic [simp]: "graphic c \<Longrightarrow> trim_start (c # s) = c # s"
  by (simp add: trim_start_def trim_front.simps strip_any_ws_graphic)

lemma trim_end_graphic [simp]: "graphic c \<Longrightarrow> trim_end (s @ [c]) = s @ [c]"
  by (simp add: trim_end_def trim_front.simps strip_any_ws_graphic)

lemma trim_graphic:
  "s \<noteq> [] \<Longrightarrow> graphic (hd s) \<Longrightarrow> graphic (last s) \<Longrightarrow> trim s = s"
  unfolding trim_def
  by (metis append_butlast_last_id list.collapse trim_end_graphic trim_start_graphic)

lemma trim_blank_Cons [str_simps]:
  "trim (CHR 0x09 # s) = trim s" "trim (CHR 0x20 # s) = trim s"
  "trim (CHR 0x0A # s) = trim s" "trim (CHR 0x0D # s) = trim s"
  by (simp_all add: trim_def trim_start_def trim_front.simps [of _ "_ # _"] ws_seqs_def)

text \<open>A graphic character is a barrier to trimming: the text on its other side is untouched.\<close>

lemma strip_prefix_barrier:
  "c \<notin> set p \<Longrightarrow> strip_prefix p (x @ c # y) = map_option (\<lambda>r. r @ c # y) (strip_prefix p x)"
  by (induction p x rule: strip_prefix.induct) (auto split: if_splits)

lemma strip_any_barrier:
  "\<forall>p\<in>set ps. c \<notin> set p \<Longrightarrow>
     strip_any ps (x @ c # y) = map_option (\<lambda>r. r @ c # y) (strip_any ps x)"
  by (induction ps) (auto simp: strip_prefix_barrier split: option.split)

lemma trim_front_barrier:
  assumes "\<forall>p\<in>set ps. c \<notin> set p"
  shows "trim_front ps (x @ c # y) = trim_front ps x @ c # y"
proof (induction ps x rule: trim_front.induct [of "\<lambda>qs x. qs = ps \<longrightarrow> trim_front qs (x @ c # y) = trim_front qs x @ c # y", rule_format])
  case (1 qs s)
  show ?case
  proof (cases "strip_any ps s")
    case None
    then show ?thesis
      using 1(2) by (simp add: trim_front.simps [of ps s] trim_front.simps [of ps "s @ c # y"]
          strip_any_barrier [OF assms])
  next
    case (Some r)
    have "length r < length s \<Longrightarrow> trim_front ps (r @ c # y) = trim_front ps r @ c # y"
      using 1(1) [of r] 1(2) Some by simp
    then show ?thesis
      using 1(2) Some by (simp add: trim_front.simps [of ps s] trim_front.simps [of ps "s @ c # y"]
          strip_any_barrier [OF assms])
  qed
qed simp

lemma ws_seqs_no_graphic: "graphic c \<Longrightarrow> \<forall>p\<in>set ws_seqs. c \<notin> set p"
  by (auto simp: ws_seqs_def graphic_def)

lemma trim_start_barrier: "graphic c \<Longrightarrow> trim_start (x @ c # y) = trim_start x @ c # y"
  unfolding trim_start_def by (rule trim_front_barrier) (rule ws_seqs_no_graphic)

lemma trim_end_barrier: "graphic c \<Longrightarrow> trim_end (x @ c # y) = x @ c # trim_end y"
proof -
  assume c: "graphic c"
  then have "\<forall>p\<in>set (map rev ws_seqs). c \<notin> set p"
    using ws_seqs_no_graphic by auto
  then show ?thesis
    unfolding trim_end_def by (simp add: trim_front_barrier)
qed

lemma trim_barrier: "graphic c \<Longrightarrow> trim (x @ c # y) = trim_start x @ c # trim_end y"
  by (simp add: trim_def trim_start_barrier trim_end_barrier)

lemma trim_front_suffix: "\<exists>t. x = t @ trim_front ps x"
proof (induction ps x rule: trim_front.induct)
  case (1 ps s)
  have sfx: "\<exists>t. s = t @ r" if "strip_any ps s = Some r" for r
    using that by (induction ps) (auto simp: strip_prefix_Some split: option.splits)
  show ?case
  proof (cases "strip_any ps s")
    case None
    then show ?thesis by (simp add: trim_front.simps [of ps s])
  next
    case (Some r)
    then show ?thesis
      using 1 [OF Some] sfx [OF Some]
      by (auto simp: trim_front.simps [of ps s]) (metis append_assoc)
  qed
qed

lemma trim_end_prefix: "\<exists>t. s = trim_end s @ t"
proof -
  obtain t where "rev s = t @ trim_front (map rev ws_seqs) (rev s)" using trim_front_suffix by blast
  then have "s = rev (trim_front (map rev ws_seqs) (rev s)) @ rev t"
    by (metis rev_append rev_rev_ident)
  then show ?thesis unfolding trim_end_def by blast
qed

lemma trim_infix: "\<exists>a b. s = a @ trim s @ b"
proof -
  obtain a where a: "s = a @ trim_start s" unfolding trim_start_def using trim_front_suffix by blast
  obtain b where "trim_start s = trim s @ b" unfolding trim_def using trim_end_prefix by blast
  then show ?thesis using a by metis
qed

section \<open>Unsigned integers\<close>

datatype int_error = IntEmpty | InvalidDigit | PosOverflow

definition int_error_str :: "int_error \<Rightarrow> string" where
  "int_error_str e = (case e of
     IntEmpty \<Rightarrow> ''cannot parse integer from empty string''
   | InvalidDigit \<Rightarrow> ''invalid digit found in string''
   | PosOverflow \<Rightarrow> ''number too large to fit in target type'')"

definition is_digit :: "char \<Rightarrow> bool" where
  "is_digit c \<longleftrightarrow> 48 \<le> (of_char c :: nat) \<and> (of_char c :: nat) \<le> 57"

definition digit_val :: "char \<Rightarrow> nat" where
  "digit_val c = of_char c - 48"

fun parse_digits :: "nat \<Rightarrow> nat \<Rightarrow> string \<Rightarrow> (nat, int_error) result" where
  "parse_digits mx acc [] = Ok acc"
| "parse_digits mx acc (c # s) =
     (if \<not> is_digit c then Err InvalidDigit
      else if mx < acc * 10 + digit_val c then Err PosOverflow
      else parse_digits mx (acc * 10 + digit_val c) s)"

definition parse_uint :: "nat \<Rightarrow> string \<Rightarrow> (nat, int_error) result" where
  "parse_uint mx s =
     (if s = [] then Err IntEmpty
      else if s = ''+'' \<or> s = ''-'' then Err InvalidDigit
      else if hd s = CHR ''+'' then parse_digits mx 0 (tl s)
      else parse_digits mx 0 s)"

definition parse_u8 :: "string \<Rightarrow> (byte, int_error) result" where
  "parse_u8 s = and_then (parse_uint 255 s) (\<lambda>n. Ok (of_nat n))"

definition parse_u32 :: "string \<Rightarrow> (32 word, int_error) result" where
  "parse_u32 s = and_then (parse_uint 4294967295 s) (\<lambda>n. Ok (of_nat n))"

definition digit_char :: "nat \<Rightarrow> char" where
  "digit_char d = char_of (48 + d)"

fun show_nat :: "nat \<Rightarrow> string" where
  "show_nat n = (if n < 10 then [digit_char n] else show_nat (n div 10) @ [digit_char (n mod 10)])"

declare show_nat.simps [simp del]

abbreviation show_word :: "'a::len word \<Rightarrow> string" where
  "show_word w \<equiv> show_nat (unat w)"

lemma digit_char [simp]:
  "d < 10 \<Longrightarrow> is_digit (digit_char d)" "d < 10 \<Longrightarrow> digit_val (digit_char d) = d"
  by (simp_all add: is_digit_def digit_val_def digit_char_def)

lemma parse_digits_append:
  "parse_digits mx acc (s @ t) = and_then (parse_digits mx acc s) (\<lambda>a. parse_digits mx a t)"
  by (induction s arbitrary: acc) simp_all

lemma parse_digits_show:
  "n \<le> mx \<Longrightarrow> parse_digits mx 0 (show_nat n) = Ok n"
proof (induction n rule: show_nat.induct)
  case (1 n)
  show ?case
  proof (cases "n < 10")
    case True
    then show ?thesis using 1(2) by (subst show_nat.simps) simp
  next
    case False
    then have "parse_digits mx 0 (show_nat (n div 10)) = Ok (n div 10)"
      using 1 by simp
    then show ?thesis using False 1(2)
      by (subst show_nat.simps) (simp add: parse_digits_append del: and_then_eq_Ok)
  qed
qed

lemma show_nat_digits: "c \<in> set (show_nat n) \<Longrightarrow> is_digit c"
proof (induction n rule: show_nat.induct)
  case (1 n)
  have "c \<in> set (if n < 10 then [digit_char n] else show_nat (n div 10) @ [digit_char (n mod 10)])"
    using 1(2) by (subst (asm) show_nat.simps)
  then show ?case using 1(1) by (auto split: if_splits)
qed

lemma show_nat_not_Nil [simp]: "show_nat n \<noteq> []"
  by (subst show_nat.simps) simp

lemma is_digit_graphic: "is_digit c \<Longrightarrow> graphic c"
  by (simp add: is_digit_def graphic_def)

lemma show_nat_graphic: "c \<in> set (show_nat n) \<Longrightarrow> graphic c"
  by (rule is_digit_graphic) (rule show_nat_digits)

lemma show_nat_no_colon [simp]: "CHR '':'' \<notin> set (show_nat n)"
  by (auto dest!: show_nat_digits simp: is_digit_def)

lemma parse_uint_show: "n \<le> mx \<Longrightarrow> parse_uint mx (show_nat n) = Ok n"
proof -
  assume n: "n \<le> mx"
  have d: "is_digit (hd (show_nat n))"
    by (rule show_nat_digits [of _ n]) simp
  have "show_nat n \<noteq> ''+''" "show_nat n \<noteq> ''-''" "hd (show_nat n) \<noteq> CHR ''+''"
    using d by (auto simp: is_digit_def)
  then show ?thesis using n by (simp add: parse_uint_def parse_digits_show)
qed

lemma unat_lt2p_word: "unat (w :: 'a::len word) < 2 ^ LENGTH('a)"
  by (rule unsigned_less)

lemma parse_u8_show [simp]: "parse_u8 (show_word w) = Ok w"
proof -
  have "unat w \<le> 255" using unat_lt2p_word [of w] by simp
  then show ?thesis by (simp add: parse_u8_def parse_uint_show)
qed

lemma parse_u32_show [simp]: "parse_u32 (show_word w) = Ok w"
proof -
  have "unat w \<le> 4294967295" using unat_lt2p_word [of w] by simp
  then show ?thesis by (simp add: parse_u32_def parse_uint_show)
qed

lemma parse_digits_bound: "parse_digits mx acc s = Ok n \<Longrightarrow> acc \<le> mx \<Longrightarrow> n \<le> mx"
  by (induction s arbitrary: acc) (force split: if_splits)+

lemma parse_uint_bound: "parse_uint mx s = Ok n \<Longrightarrow> n \<le> mx"
  by (auto simp: parse_uint_def dest: parse_digits_bound split: if_splits)

section \<open>Hexadecimal\<close>

definition hex_char :: "nat \<Rightarrow> char" where
  "hex_char d = (if d < 10 then char_of (48 + d) else char_of (87 + d))"

text \<open>The format \<open>{:02x}\<close> of a byte and \<open>{:0nx}\<close> of a number of at most \<open>n\<close> hex digits.\<close>

definition hex2 :: "byte \<Rightarrow> string" where
  "hex2 b = [hex_char (unat b div 16), hex_char (unat b mod 16)]"

definition hex_bytes :: "bytes \<Rightarrow> string" where
  "hex_bytes bs = concat (map hex2 bs)"

text \<open>The unpadded format \<open>{:x}\<close>.\<close>

fun show_hex :: "nat \<Rightarrow> string" where
  "show_hex n = (if n < 16 then [hex_char n] else show_hex (n div 16) @ [hex_char (n mod 16)])"

declare show_hex.simps [simp del]

definition hex4 :: "16 word \<Rightarrow> string" where
  "hex4 w = hex_bytes (rev (le16 w))"

section \<open>ASCII case\<close>

definition ascii_lower :: "char \<Rightarrow> char" where
  "ascii_lower c = (if 65 \<le> (of_char c :: nat) \<and> (of_char c :: nat) \<le> 90
                    then char_of ((of_char c :: nat) + 32) else c)"

lemma ascii_lower_Char [simp]:
  "ascii_lower (Char b0 b1 b2 b3 b4 b5 b6 b7) =
     (let n = (of_char (Char b0 b1 b2 b3 b4 b5 b6 b7) :: nat)
      in if 65 \<le> n \<and> n \<le> 90 then char_of (n + 32) else Char b0 b1 b2 b3 b4 b5 b6 b7)"
  by (simp add: ascii_lower_def Let_def)

section \<open>Paths\<close>

text \<open>Joining a relative path to a directory.\<close>

definition join_path :: "string \<Rightarrow> string \<Rightarrow> string" where
  "join_path a b = (if a = [] \<or> ends_with ''/'' a then a @ b else a @ ''/'' @ b)"

end
