(* ===== verification/Utf8.thy ===== *)
theory Utf8
  imports Rust_Str
begin

text \<open>
  UTF-8 on byte strings: the length of the character a string starts with,
  \<open>String::from_utf8_lossy\<close> (each maximal invalid piece becomes U+FFFD) and
  \<open>str::is_char_boundary\<close>.
\<close>

abbreviation cp :: "char \<Rightarrow> nat" where
  "cp c \<equiv> of_char c"

definition cont_byte :: "char \<Rightarrow> bool" where
  "cont_byte c \<longleftrightarrow> 128 \<le> cp c \<and> cp c < 192"

definition nth_in :: "string \<Rightarrow> nat \<Rightarrow> nat \<Rightarrow> nat \<Rightarrow> bool" where
  "nth_in s i lo hi \<longleftrightarrow> i < length s \<and> lo \<le> cp (s ! i) \<and> cp (s ! i) \<le> hi"

text \<open>The validity and the length of the first piece of a non-empty string.\<close>

definition utf8_head :: "string \<Rightarrow> bool \<times> nat" where
  "utf8_head s =
     (let b = cp (hd s) in
      if b < 128 then (True, 1)
      else if 194 \<le> b \<and> b \<le> 223 then (if nth_in s 1 128 191 then (True, 2) else (False, 1))
      else if 224 \<le> b \<and> b \<le> 239 then
        (if \<not> nth_in s 1 (if b = 224 then 160 else 128) (if b = 237 then 159 else 191) then (False, 1)
         else if \<not> nth_in s 2 128 191 then (False, 2) else (True, 3))
      else if 240 \<le> b \<and> b \<le> 244 then
        (if \<not> nth_in s 1 (if b = 240 then 144 else 128) (if b = 244 then 143 else 191) then (False, 1)
         else if \<not> nth_in s 2 128 191 then (False, 2)
         else if \<not> nth_in s 3 128 191 then (False, 3) else (True, 4))
      else (False, 1))"

lemma utf8_head_pos: "0 < snd (utf8_head s)"
  by (simp add: utf8_head_def Let_def)

lemma utf8_head_pos': "(v, n) = utf8_head s \<Longrightarrow> 0 < n"
  using utf8_head_pos [of s] by (cases "utf8_head s") simp

definition replacement :: string where
  "replacement = [CHR 0xEF, CHR 0xBF, CHR 0xBD]"

function from_utf8_lossy :: "string \<Rightarrow> string" where
  "from_utf8_lossy s =
     (if s = [] then []
      else case utf8_head s of (valid, n) \<Rightarrow>
        (if valid then take n s else replacement) @ from_utf8_lossy (drop n s))"
  by pat_completeness auto
termination
  by (relation "measure length") (auto dest: utf8_head_pos')

declare from_utf8_lossy.simps [simp del]

function utf8_valid :: "string \<Rightarrow> bool" where
  "utf8_valid s =
     (if s = [] then True
      else case utf8_head s of (valid, n) \<Rightarrow> valid \<and> utf8_valid (drop n s))"
  by pat_completeness auto
termination
  by (relation "measure length") (auto dest: utf8_head_pos')

declare utf8_valid.simps [simp del]

lemma from_utf8_lossy_Nil [simp]: "from_utf8_lossy [] = []"
  by (subst from_utf8_lossy.simps) simp

lemma utf8_valid_Nil [simp]: "utf8_valid []"
  by (subst utf8_valid.simps) simp

lemma from_utf8_lossy_valid: "utf8_valid s \<Longrightarrow> from_utf8_lossy s = s"
proof (induction s rule: from_utf8_lossy.induct)
  case (1 s)
  then show ?case
    by (subst from_utf8_lossy.simps) (auto simp: utf8_valid.simps [of s] split: prod.splits if_splits)
qed

definition ascii :: "string \<Rightarrow> bool" where
  "ascii s \<longleftrightarrow> (\<forall>c\<in>set s. cp c < 128)"

lemma utf8_head_ascii: "cp c < 128 \<Longrightarrow> utf8_head (c # s) = (True, 1)"
  by (simp add: utf8_head_def)

lemma utf8_valid_ascii_Cons [simp]: "cp c < 128 \<Longrightarrow> utf8_valid (c # s) = utf8_valid s"
  by (subst utf8_valid.simps) (simp add: utf8_head_ascii)

lemma from_utf8_lossy_ascii_Cons [simp]:
  "cp c < 128 \<Longrightarrow> from_utf8_lossy (c # s) = c # from_utf8_lossy s"
  by (subst from_utf8_lossy.simps) (simp add: utf8_head_ascii)

lemma utf8_valid_ascii_append: "ascii s \<Longrightarrow> utf8_valid (s @ t) = utf8_valid t"
  by (induction s) (simp_all add: ascii_def)

lemma utf8_valid_ascii: "ascii s \<Longrightarrow> utf8_valid s"
  using utf8_valid_ascii_append [of s "[]"] by simp

lemma ascii_simps [simp]: "ascii []" "ascii (c # s) \<longleftrightarrow> cp c < 128 \<and> ascii s"
  "ascii (s @ t) \<longleftrightarrow> ascii s \<and> ascii t"
  by (auto simp: ascii_def)

lemma from_utf8_lossy_ascii: "ascii s \<Longrightarrow> from_utf8_lossy s = s"
  by (rule from_utf8_lossy_valid) (rule utf8_valid_ascii)

definition is_char_boundary :: "string \<Rightarrow> nat \<Rightarrow> bool" where
  "is_char_boundary s i \<longleftrightarrow>
     i = 0 \<or> i = length s \<or> (i < length s \<and> \<not> cont_byte (s ! i))"

section \<open>Cutting at character boundaries\<close>

lemma nth_in_take: "i < k \<Longrightarrow> nth_in (take k s) i lo hi = nth_in s i lo hi"
  by (auto simp: nth_in_def)

text \<open>The bytes inside a character are continuation bytes.\<close>

lemma nth_in_cont: "nth_in s i lo hi \<Longrightarrow> 128 \<le> lo \<Longrightarrow> hi < 192 \<Longrightarrow> i < length s \<and> cont_byte (s ! i)"
  by (simp add: nth_in_def cont_byte_def)

lemma utf8_head_cont:
  assumes "utf8_head s = (True, n)" "s \<noteq> []" "0 < i" "i < n"
  shows "i < length s \<and> cont_byte (s ! i)"
proof -
  have i: "i = 1 \<or> i = 2 \<or> i = 3"
    using assms by (auto simp: utf8_head_def Let_def split: if_splits)
  show ?thesis
    using assms(1,4) i by (auto simp: utf8_head_def Let_def split: if_splits dest!: nth_in_cont)
qed

lemma utf8_head_length: "utf8_head s = (True, n) \<Longrightarrow> s \<noteq> [] \<Longrightarrow> n \<le> length s"
  using utf8_head_cont [of s n "n - 1"] by (cases "n \<le> 1"; cases s) (auto simp: Suc_le_eq)

lemma utf8_head_take:
  "utf8_head s = (True, n) \<Longrightarrow> n \<le> k \<Longrightarrow> s \<noteq> [] \<Longrightarrow> utf8_head (take k s) = (True, n)"
  by (cases k) (auto simp: utf8_head_def Let_def nth_in_take hd_take split: if_splits)

lemma utf8_valid_take:
  "utf8_valid s \<Longrightarrow> is_char_boundary s k \<Longrightarrow> utf8_valid (take k s)"
proof (induction s arbitrary: k rule: utf8_valid.induct)
  case (1 s)
  show ?case
  proof (cases "s = [] \<or> k = 0")
    case False
    obtain n where h: "utf8_head s = (True, n)"
      using "1.prems"(1) False by (subst (asm) utf8_valid.simps) (auto split: prod.splits)
    have v: "utf8_valid (drop n s)"
      using "1.prems"(1) False h by (subst (asm) utf8_valid.simps) simp
    have n: "0 < n" "n \<le> length s"
      using utf8_head_pos [of s] utf8_head_length [OF h] h False by simp_all
    have "\<not> k < n"
      using utf8_head_cont [OF h, of k] "1.prems"(2) False n by (auto simp: is_char_boundary_def)
    then have k: "n \<le> k" by simp
    have "is_char_boundary (drop n s) (k - n)"
      using "1.prems"(2) k n by (auto simp: is_char_boundary_def)
    then have "utf8_valid (take (k - n) (drop n s))"
      using "1.IH" [OF _ h [symmetric] v] False by simp
    moreover have "drop n (take k s) = take (k - n) (drop n s)" by (simp add: drop_take)
    ultimately show ?thesis
      using False utf8_head_take [OF h k] by (subst utf8_valid.simps) simp
  qed auto
qed

lemma nth_in_append: "nth_in s i lo hi \<Longrightarrow> nth_in (s @ t) i lo hi"
  by (simp add: nth_in_def nth_append)

lemma utf8_head_append:
  "utf8_head s = (True, n) \<Longrightarrow> s \<noteq> [] \<Longrightarrow> utf8_head (s @ t) = (True, n)"
  by (simp add: utf8_head_def Let_def nth_in_append split: if_splits)

lemma utf8_valid_append: "utf8_valid s \<Longrightarrow> utf8_valid (s @ t) = utf8_valid t"
proof (induction s rule: utf8_valid.induct)
  case (1 s)
  show ?case
  proof (cases "s = []")
    case False
    obtain n where h: "utf8_head s = (True, n)" and v: "utf8_valid (drop n s)"
      using "1.prems" False by (subst (asm) utf8_valid.simps) (auto split: prod.splits)
    have "utf8_valid (s @ t) = utf8_valid (drop n s @ t)"
      using False utf8_head_append [OF h False, of t] utf8_head_length [OF h False]
      by (subst utf8_valid.simps) simp
    then show ?thesis using "1.IH" [OF False h [symmetric] v] by simp
  qed simp
qed

lemma utf8_valid_strip:
  assumes "utf8_valid (a @ t @ b)" "ascii a" "ascii b"
  shows "utf8_valid t"
proof -
  have "utf8_valid (t @ b)" using assms by (simp add: utf8_valid_ascii_append)
  moreover have "is_char_boundary (t @ b) (length t)"
    using assms(3) by (cases b) (simp_all add: is_char_boundary_def cont_byte_def)
  ultimately show ?thesis using utf8_valid_take [of "t @ b" "length t"] by simp
qed

section \<open>Trimming with a predicate\<close>

text \<open>\<open>trim_matches\<close> with a predicate on ASCII characters.\<close>

definition trim_matches :: "(char \<Rightarrow> bool) \<Rightarrow> string \<Rightarrow> string" where
  "trim_matches P s = rev (dropWhile P (rev (dropWhile P s)))"

lemma trim_matches_Nil [simp]: "trim_matches P [] = []"
  by (simp add: trim_matches_def)

lemma trim_matches_id:
  "s \<noteq> [] \<Longrightarrow> \<not> P (hd s) \<Longrightarrow> \<not> P (last s) \<Longrightarrow> trim_matches P s = s"
proof -
  assume s: "s \<noteq> []" "\<not> P (hd s)" "\<not> P (last s)"
  have "dropWhile P s = s" using s by (cases s) simp_all
  moreover have "dropWhile P (rev s) = rev s" using s by (cases "rev s") (auto simp: hd_rev [symmetric])
  ultimately show ?thesis by (simp add: trim_matches_def)
qed

section \<open>Typographic characters\<close>

text \<open>The typographic characters of the messages, in UTF-8.\<close>

abbreviation em_dash :: string where "em_dash \<equiv> [CHR 0xE2, CHR 0x80, CHR 0x94]"
abbreviation ellipsis :: string where "ellipsis \<equiv> [CHR 0xE2, CHR 0x80, CHR 0xA6]"
abbreviation mid_dot :: string where "mid_dot \<equiv> [CHR 0xC2, CHR 0xB7]"
abbreviation right_arrow :: string where "right_arrow \<equiv> [CHR 0xE2, CHR 0x86, CHR 0x92]"
abbreviation check_mark :: string where "check_mark \<equiv> [CHR 0xE2, CHR 0x9C, CHR 0x93]"
abbreviation light_bar :: string where "light_bar \<equiv> [CHR 0xE2, CHR 0x94, CHR 0x82]"
abbreviation full_dot :: string where "full_dot \<equiv> [CHR 0xE2, CHR 0x97, CHR 0x8F]"
abbreviation open_dot :: string where "open_dot \<equiv> [CHR 0xE2, CHR 0x97, CHR 0x8B]"
abbreviation warning_sign :: string where "warning_sign \<equiv> [CHR 0xE2, CHR 0x9A, CHR 0xA0]"
abbreviation degree_sign :: string where "degree_sign \<equiv> [CHR 0xC2, CHR 0xB0]"
abbreviation en_dash :: string where "en_dash \<equiv> [CHR 0xE2, CHR 0x80, CHR 0x93]"

text \<open>Text on a terminal: an escape sequence before it, and one that ends it.\<close>

definition styled :: "string \<Rightarrow> string \<Rightarrow> string" where
  "styled code s = [CHR 0x1B] @ ''['' @ code @ ''m'' @ s @ [CHR 0x1B] @ ''[0m''"

abbreviation red :: "string \<Rightarrow> string" where "red \<equiv> styled ''31''"
abbreviation green :: "string \<Rightarrow> string" where "green \<equiv> styled ''32''"
abbreviation yellow :: "string \<Rightarrow> string" where "yellow \<equiv> styled ''33''"
abbreviation bold :: "string \<Rightarrow> string" where "bold \<equiv> styled ''1''"

text \<open>A word between quotation marks.\<close>

abbreviation quoted :: "string \<Rightarrow> string" where "quoted s \<equiv> [CHR 0x27] @ s @ [CHR 0x27]"

text \<open>The formats \<open>{:<n}\<close> and \<open>{:>n}\<close> of an ASCII text.\<close>

definition pad_right :: "nat \<Rightarrow> string \<Rightarrow> string" where
  "pad_right n s = s @ replicate (n - length s) CHR '' ''"

definition pad_left :: "nat \<Rightarrow> string \<Rightarrow> string" where
  "pad_left n s = replicate (n - length s) CHR '' '' @ s"

end
