(* ===== verification/Protocol.thy ===== *)
theory Protocol
  imports Rust_Str
begin

text \<open>
  The constants of the wire protocol between the host and the device
  (\<open>immurok-common/src/protocol.rs\<close>): command, response and notification codes, field lengths,
  timing and the names of the files and sockets. Each has the width the source gives it;
  \<open>usize\<close> and the \<open>u64\<close> second counts are natural numbers.
\<close>

definition SERVICE_UUID_STR :: string where [simp]: "SERVICE_UUID_STR = ''45529919-7668-48f9-b9fe-e4eabe6595d9''"
definition CMD_CHAR_UUID_STR :: string where [simp]: "CMD_CHAR_UUID_STR = ''8a537e1f-3992-4b2c-8b77-8d4e778186e1''"
definition RSP_CHAR_UUID_STR :: string where [simp]: "RSP_CHAR_UUID_STR = ''76a1660d-8cf6-44d1-b3fc-70486028e289''"
definition OTA_SERVICE_UUID_STR :: string where [simp]: "OTA_SERVICE_UUID_STR = ''d29005de-1391-4a54-8168-bf4e3c080430''"
definition OTA_CHAR_UUID_STR :: string where [simp]: "OTA_CHAR_UUID_STR = ''c75f4c30-9a2d-4445-92e0-0e034c53d092''"
definition FW_REVISION_UUID :: "16 word" where [simp]: "FW_REVISION_UUID = 0x2A26"
definition DEVICE_NAME_PREFIX :: string where [simp]: "DEVICE_NAME_PREFIX = ''immurok''"
definition CMD_GET_STATUS :: byte where [simp]: "CMD_GET_STATUS = 0x01"
definition CMD_ENROLL_START :: byte where [simp]: "CMD_ENROLL_START = 0x10"
definition CMD_ENROLL_CANCEL :: byte where [simp]: "CMD_ENROLL_CANCEL = 0x11"
definition CMD_DELETE_FP :: byte where [simp]: "CMD_DELETE_FP = 0x12"
definition CMD_FP_LIST :: byte where [simp]: "CMD_FP_LIST = 0x13"
definition CMD_FP_MATCH_ACK :: byte where [simp]: "CMD_FP_MATCH_ACK = 0x22"
definition CMD_PAIR_INIT :: byte where [simp]: "CMD_PAIR_INIT = 0x30"
definition CMD_PAIR_CONFIRM :: byte where [simp]: "CMD_PAIR_CONFIRM = 0x31"
definition CMD_PAIR_STATUS :: byte where [simp]: "CMD_PAIR_STATUS = 0x32"
definition CMD_AUTH_REQUEST :: byte where [simp]: "CMD_AUTH_REQUEST = 0x33"
definition CMD_PAIR_BUTTON :: byte where [simp]: "CMD_PAIR_BUTTON = 0x34"
definition CMD_FACTORY_RESET :: byte where [simp]: "CMD_FACTORY_RESET = 0x36"
definition CMD_GATE_CANCEL :: byte where [simp]: "CMD_GATE_CANCEL = 0x37"
definition CMD_CHALLENGE :: byte where [simp]: "CMD_CHALLENGE = 0x38"
definition CMD_SLOT_STATUS :: byte where [simp]: "CMD_SLOT_STATUS = 0x39"
definition CMD_SLOT_CLEAR :: byte where [simp]: "CMD_SLOT_CLEAR = 0x3C"
definition CMD_KEY_COUNT :: byte where [simp]: "CMD_KEY_COUNT = 0x60"
definition CMD_KEY_READ :: byte where [simp]: "CMD_KEY_READ = 0x61"
definition CMD_KEY_WRITE :: byte where [simp]: "CMD_KEY_WRITE = 0x62"
definition CMD_KEY_DELETE :: byte where [simp]: "CMD_KEY_DELETE = 0x63"
definition CMD_KEY_COMMIT :: byte where [simp]: "CMD_KEY_COMMIT = 0x64"
definition CMD_KEY_SIGN :: byte where [simp]: "CMD_KEY_SIGN = 0x65"
definition CMD_KEY_GETPUB :: byte where [simp]: "CMD_KEY_GETPUB = 0x66"
definition CMD_KEY_GENERATE :: byte where [simp]: "CMD_KEY_GENERATE = 0x67"
definition CMD_KEY_RESULT :: byte where [simp]: "CMD_KEY_RESULT = 0x68"
definition CMD_KEY_OTP_GET :: byte where [simp]: "CMD_KEY_OTP_GET = 0x69"
definition RSP_OK :: byte where [simp]: "RSP_OK = 0x00"
definition RSP_ERR_TIMEOUT :: byte where [simp]: "RSP_ERR_TIMEOUT = 0x06"
definition RSP_ERR_FP_NOT_MATCH :: byte where [simp]: "RSP_ERR_FP_NOT_MATCH = 0x07"
definition RSP_FP_GATE_APPROVED :: byte where [simp]: "RSP_FP_GATE_APPROVED = 0x10"
definition RSP_WAIT_FP :: byte where [simp]: "RSP_WAIT_FP = 0x11"
definition RSP_BUSY :: byte where [simp]: "RSP_BUSY = 0xFD"
definition RSP_INVALID_PARAM :: byte where [simp]: "RSP_INVALID_PARAM = 0xFE"
definition RSP_ERROR :: byte where [simp]: "RSP_ERROR = 0xFF"
definition RSP_PAIR_WAIT_BUTTON :: byte where [simp]: "RSP_PAIR_WAIT_BUTTON = 0xF0"
definition RSP_PAIR_NEEDS_RESET :: byte where [simp]: "RSP_PAIR_NEEDS_RESET = 0xF1"
definition RSP_ERR_NOT_PAIRED :: byte where [simp]: "RSP_ERR_NOT_PAIRED = 0xF2"
definition RSP_ERR_LOW_BATTERY :: byte where [simp]: "RSP_ERR_LOW_BATTERY = 0xF4"
definition PAIR_BUTTON_TIMEOUT :: byte where [simp]: "PAIR_BUTTON_TIMEOUT = 0x00"
definition PAIR_BUTTON_CONFIRMED :: byte where [simp]: "PAIR_BUTTON_CONFIRMED = 0x01"
definition PAIR_BUTTON_CANCELLED :: byte where [simp]: "PAIR_BUTTON_CANCELLED = 0x02"
definition PAIR_BUTTON_FP_OK :: byte where [simp]: "PAIR_BUTTON_FP_OK = 0x03"
definition NOTIFY_FP_MATCH_SIGNED :: byte where [simp]: "NOTIFY_FP_MATCH_SIGNED = 0x21"
definition NOTIFY_LOCK_REQUEST :: byte where [simp]: "NOTIFY_LOCK_REQUEST = 0x23"
definition NOTIFY_ENROLL_PROGRESS :: byte where [simp]: "NOTIFY_ENROLL_PROGRESS = 0x11"
definition NOTIFY_ENROLL_KEEPALIVE :: byte where [simp]: "NOTIFY_ENROLL_KEEPALIVE = 0x12"
definition NOTIFY_CONN_PARAM_UPDATE :: byte where [simp]: "NOTIFY_CONN_PARAM_UPDATE = 0xF0"
definition KEY_CAT_SSH :: byte where [simp]: "KEY_CAT_SSH = 0"
definition KEY_CAT_OTP :: byte where [simp]: "KEY_CAT_OTP = 1"
definition KEY_CAT_API :: byte where [simp]: "KEY_CAT_API = 2"
definition KEY_MAX_SSH :: byte where [simp]: "KEY_MAX_SSH = 32"
definition KEY_MAX_OTP :: byte where [simp]: "KEY_MAX_OTP = 128"
definition KEY_MAX_API :: byte where [simp]: "KEY_MAX_API = 50"
definition NAME_LEN_SSH :: nat where [simp]: "NAME_LEN_SSH = 16"
definition NAME_LEN_OTP :: nat where [simp]: "NAME_LEN_OTP = 30"
definition NAME_LEN_API :: nat where [simp]: "NAME_LEN_API = 32"
definition SERVICE_LEN_OTP :: nat where [simp]: "SERVICE_LEN_OTP = 30"
definition SECRET_LEN_OTP :: nat where [simp]: "SECRET_LEN_OTP = 32"
definition VALUE_LEN_API :: nat where [simp]: "VALUE_LEN_API = 128"
definition ENROLL_WAITING :: byte where [simp]: "ENROLL_WAITING = 0x00"
definition ENROLL_CAPTURED :: byte where [simp]: "ENROLL_CAPTURED = 0x01"
definition ENROLL_PROCESSING :: byte where [simp]: "ENROLL_PROCESSING = 0x02"
definition ENROLL_LIFT_FINGER :: byte where [simp]: "ENROLL_LIFT_FINGER = 0x03"
definition ENROLL_COMPLETE :: byte where [simp]: "ENROLL_COMPLETE = 0x04"
definition ENROLL_OVERLAP :: byte where [simp]: "ENROLL_OVERLAP = 0x06"
definition ENROLL_FAILED :: byte where [simp]: "ENROLL_FAILED = 0xFF"
definition MAX_PACKET_SIZE :: nat where [simp]: "MAX_PACKET_SIZE = 64"
definition MAX_PAYLOAD_SIZE :: nat where [simp]: "MAX_PAYLOAD_SIZE = 62"
definition BLE_COMMAND_TIMEOUT_SECS :: nat where [simp]: "BLE_COMMAND_TIMEOUT_SECS = 5"
definition BLE_RECONNECT_INTERVAL_SECS :: nat where [simp]: "BLE_RECONNECT_INTERVAL_SECS = 1"
definition BLE_CONNECTING_TIMEOUT_SECS :: nat where [simp]: "BLE_CONNECTING_TIMEOUT_SECS = 10"
definition BLE_RECONNECT_BACKOFF_MAX_SECS :: nat where [simp]: "BLE_RECONNECT_BACKOFF_MAX_SECS = 30"
definition BLE_SESSION_STABLE_SECS :: nat where [simp]: "BLE_SESSION_STABLE_SECS = 10"
definition BLE_ACTIVE_RECONNECT_INTERVAL_SECS :: nat where [simp]: "BLE_ACTIVE_RECONNECT_INTERVAL_SECS = 8"
definition BLE_ACTIVE_RECONNECT_MAX_SECS :: nat where [simp]: "BLE_ACTIVE_RECONNECT_MAX_SECS = 60"
definition BLE_RESUME_BURST_INTERVAL_SECS :: nat where [simp]: "BLE_RESUME_BURST_INTERVAL_SECS = 2"
definition BLE_RESUME_BURST_ATTEMPTS :: "32 word" where [simp]: "BLE_RESUME_BURST_ATTEMPTS = 15"
definition BLE_FP_GATE_TIMEOUT_SECS :: nat where [simp]: "BLE_FP_GATE_TIMEOUT_SECS = 30"
definition BLE_AUTH_TIMEOUT_SECS :: nat where [simp]: "BLE_AUTH_TIMEOUT_SECS = 30"
definition BLE_PAIR_BUTTON_TIMEOUT_SECS :: nat where [simp]: "BLE_PAIR_BUTTON_TIMEOUT_SECS = 35"
definition PRE_AUTH_DURATION_SECS :: nat where [simp]: "PRE_AUTH_DURATION_SECS = 3"
definition LOCK_SUPPRESS_WINDOW_SECS :: nat where [simp]: "LOCK_SUPPRESS_WINDOW_SECS = 3"
definition FP_GATE_MAX_FAILURES :: byte where [simp]: "FP_GATE_MAX_FAILURES = 3"
definition MAX_FINGERPRINT_SLOTS :: byte where [simp]: "MAX_FINGERPRINT_SLOTS = 5"
definition SLOT_1 :: byte where [simp]: "SLOT_1 = 1"
definition SLOT_2 :: byte where [simp]: "SLOT_2 = 2"
definition SWITCH_FINGER_SLOT :: byte where [simp]: "SWITCH_FINGER_SLOT = 5"
definition TOTAL_FINGERPRINT_SLOTS :: byte where [simp]: "TOTAL_FINGERPRINT_SLOTS = 6"
definition COMPRESSED_PUBKEY_LEN :: nat where [simp]: "COMPRESSED_PUBKEY_LEN = 33"
definition SHARED_KEY_LEN :: nat where [simp]: "SHARED_KEY_LEN = 32"
definition HMAC_TRUNCATED_LEN :: nat where [simp]: "HMAC_TRUNCATED_LEN = 8"
definition HKDF_SALT :: string where [simp]: "HKDF_SALT = ''immurok-pairing-salt''"
definition HKDF_INFO :: string where [simp]: "HKDF_INFO = ''immurok-shared-key''"
definition OTA_IMAGE_B_BLOCKS :: "32 word" where [simp]: "OTA_IMAGE_B_BLOCKS = 54"
definition OTA_READ_POLL_INTERVAL_MS :: nat where [simp]: "OTA_READ_POLL_INTERVAL_MS = 200"
definition OTA_ERASE_TIMEOUT_SECS :: nat where [simp]: "OTA_ERASE_TIMEOUT_SECS = 15"
definition IMMUROK_DIR :: string where [simp]: "IMMUROK_DIR = ''.immurok''"
definition PAIRING_FILE :: string where [simp]: "PAIRING_FILE = ''pairing.json''"
definition SETTINGS_FILE :: string where [simp]: "SETTINGS_FILE = ''settings.json''"
definition LOG_FILE :: string where [simp]: "LOG_FILE = ''logs.txt''"
definition SSH_KEYS_FILE :: string where [simp]: "SSH_KEYS_FILE = ''ssh_keys.json''"
definition KEY_NAMES_FILE :: string where [simp]: "KEY_NAMES_FILE = ''key_names.json''"
definition KEYSTORE_DIGESTS_FILE :: string where [simp]: "KEYSTORE_DIGESTS_FILE = ''keystore_digests.json''"
definition PAM_SOCKET_NAME :: string where [simp]: "PAM_SOCKET_NAME = ''pam.sock''"
definition DAEMON_LOG_FILE :: string where [simp]: "DAEMON_LOG_FILE = ''daemon.log''"
definition SYSTEM_RUNTIME_DIR :: string where [simp]: "SYSTEM_RUNTIME_DIR = ''/run/immurok''"
definition SYSTEM_STATE_DIR :: string where [simp]: "SYSTEM_STATE_DIR = ''/var/lib/immurok''"
definition SYSTEM_LOG_DIR :: string where [simp]: "SYSTEM_LOG_DIR = ''/var/log/immurok''"
definition AGENT_SOCKET_NAME :: string where [simp]: "AGENT_SOCKET_NAME = ''agent.sock''"

text \<open>Instants and durations are natural numbers of nanoseconds.\<close>

type_synonym instant = nat

definition from_secs :: "nat \<Rightarrow> nat" where
  "from_secs n = n * 1000000000"

definition from_millis :: "nat \<Rightarrow> nat" where
  "from_millis n = n * 1000000"

lemma from_secs_mono [simp]: "from_secs a \<le> from_secs b \<longleftrightarrow> a \<le> b"
  by (simp add: from_secs_def)

lemma from_secs_pos [simp]: "0 < from_secs a \<longleftrightarrow> 0 < a"
  by (simp add: from_secs_def)

end
