(* ===== verification/Session.thy ===== *)
theory Session
  imports Utf8 Protocol
begin

text \<open>
  Who may talk to the daemon (\<open>immurok-daemon/src/session.rs\<close>). What the operating system answers
  is the record \<open>host\<close>: the clock, the output of \<open>loginctl\<close>, the file \<open>owner\<close> of the state
  directory, the user database and \<open>/proc\<close>. Unicode lower-casing is its field \<open>lower\<close>.
\<close>

text \<open>A finished process gives its success flag and the bytes of its standard output.\<close>

datatype cmd_output = ExecFailed | Exited bool string

record host =
  now :: instant
  lower :: "string \<Rightarrow> string"
  show_user :: "32 word \<Rightarrow> string \<Rightarrow> cmd_output"
  show_session :: "string \<Rightarrow> string \<Rightarrow> cmd_output"
  loginctl :: "string \<Rightarrow> string \<Rightarrow> cmd_output"
  owner_file :: "string option"
  passwd :: "string \<Rightarrow> 32 word option"
  proc_status :: "32 word \<Rightarrow> string option"

text \<open>What the program relies on of \<open>str::to_lowercase\<close>: on ASCII strings it is the ASCII one.\<close>

definition lower_law :: "host \<Rightarrow> bool" where
  "lower_law h \<longleftrightarrow> (\<forall>s. ascii s \<longrightarrow> lower h s = map ascii_lower s)"

definition parse_user_state :: "string \<Rightarrow> bool" where
  "parse_user_state out \<longleftrightarrow> trim out = ''active''"

definition uid_is_active :: "host \<Rightarrow> 32 word \<Rightarrow> bool option" where
  "uid_is_active h uid = (case show_user h uid ''State'' of
     ExecFailed \<Rightarrow> None
   | Exited success out \<Rightarrow>
       if \<not> success then Some False
       else Some (parse_user_state (from_utf8_lossy out)))"

definition read_owner :: "string option \<Rightarrow> 32 word option" where
  "read_owner file = Option.bind file (\<lambda>s. if utf8_valid s then ok (parse_u32 (trim s)) else None)"

definition owner_uid :: "host \<Rightarrow> 32 word option" where
  "owner_uid h = read_owner (owner_file h)"

definition parse_session_id :: "string \<Rightarrow> string option" where
  "parse_session_id out = (let i = trim out in if i = [] then None else Some i)"

definition graphical_session_id :: "host \<Rightarrow> 32 word \<Rightarrow> string option" where
  "graphical_session_id h uid = (case show_user h uid ''Display'' of
     ExecFailed \<Rightarrow> None
   | Exited success out \<Rightarrow>
       if \<not> success then None else parse_session_id (from_utf8_lossy out))"

definition parse_locked_hint :: "string \<Rightarrow> bool option" where
  "parse_locked_hint out =
     (let t = trim out in if t = ''yes'' then Some True else if t = ''no'' then Some False else None)"

definition session_locked :: "host \<Rightarrow> string \<Rightarrow> bool option" where
  "session_locked h sid = (case show_session h sid ''LockedHint'' of
     ExecFailed \<Rightarrow> None
   | Exited success out \<Rightarrow>
       if \<not> success then None else parse_locked_hint (from_utf8_lossy out))"

text \<open>\<open>record_owner\<close> never overwrites; the write is assumed to succeed.\<close>

definition record_owner :: "32 word \<Rightarrow> host \<Rightarrow> host" where
  "record_owner uid h =
     (case owner_file h of
        Some _ \<Rightarrow> h
      | None \<Rightarrow> h\<lparr> owner_file := Some (show_word uid @ [CHR 0x0A]) \<rparr>)"

definition uid_of_user :: "host \<Rightarrow> string \<Rightarrow> 32 word option" where
  "uid_of_user h name = (if CHR 0x00 \<in> set name then None else passwd h name)"

section \<open>Properties\<close>

lemma trim_newline_end:
  assumes "s \<noteq> []" "graphic (hd s)" "graphic (last s)"
  shows "trim (s @ [CHR 0x0A]) = s"
proof -
  obtain c t where s: "s = c # t" using assms(1) by (cases s) auto
  have "trim_start (s @ [CHR 0x0A]) = s @ [CHR 0x0A]"
    using assms(2) by (simp add: s)
  moreover have "trim_end (s @ [CHR 0x0A]) = trim_end s"
    by (simp add: trim_end_def trim_front.simps [of _ "CHR 0x0A # _"] ws_seqs_def)
  moreover have "trim_end s = s"
    using trim_end_graphic [OF assms(3), of "butlast s"] assms(1) by simp
  ultimately show ?thesis by (simp add: trim_def)
qed

lemma is_digit_ascii: "is_digit c \<Longrightarrow> cp c < 128"
  by (simp add: is_digit_def)

lemma ascii_show_nat [simp]: "ascii (show_nat n)"
  by (auto simp: ascii_def intro: is_digit_ascii show_nat_digits)

lemma record_owner_reads_back:
  "owner_file h = None \<Longrightarrow> owner_uid (record_owner uid h) = Some uid"
proof -
  have "trim (show_word uid @ [CHR 0x0A]) = show_word uid"
    by (rule trim_newline_end) (rule show_nat_not_Nil, rule show_nat_graphic [of _ "unat uid"], simp,
      rule show_nat_graphic [of _ "unat uid"], simp)
  moreover have "utf8_valid (show_word uid @ [CHR 0x0A])"
    by (rule utf8_valid_ascii) simp
  ultimately show "owner_file h = None \<Longrightarrow> owner_uid (record_owner uid h) = Some uid"
    by (simp add: owner_uid_def record_owner_def read_owner_def)
qed

lemma record_owner_keeps: "owner_file h = Some f \<Longrightarrow> record_owner uid h = h"
  by (simp add: record_owner_def)

end
