(* ===== verification/Types_Common.thy ===== *)
theory Types_Common
  imports Protocol
begin

text \<open>
  The data types shared by the daemon and its clients
  (\<open>immurok-common/src/types.rs\<close>): the pairing record, the device status, key categories,
  enrollment events, the pairing progress with its wire names, and the fingerprint bitmap.
\<close>

record pairing_data =
  device_uuid :: string
  shared_key :: bytes
  paired_at :: string

text \<open>\<open>hex_key\<close>: the 32 byte key as a hex string; the hex decoder is the parameter \<open>hexd\<close>.\<close>

definition hex_key_deserialize :: "(string \<Rightarrow> (bytes, string) result) \<Rightarrow> string \<Rightarrow> (bytes, string) result" where
  "hex_key_deserialize hexd s =
     and_then (hexd s) (\<lambda>b. if length b \<noteq> 32 then Err ''expected 32 bytes'' else Ok b)"

record pending_match =
  page_id :: "16 word"
  pm_hmac :: bytes

record device_status =
  fp_bitmap :: byte
  dev_paired :: bool
  battery :: byte
  fw_version :: string
  pending_match :: "pending_match option"

definition default_device_status :: device_status where
  "default_device_status =
     \<lparr> fp_bitmap = 0, dev_paired = False, battery = 0, fw_version = [], pending_match = None \<rparr>"

section \<open>Key categories\<close>

datatype key_category = Ssh | Otp | Api

definition key_category_from_u8 :: "byte \<Rightarrow> key_category option" where
  "key_category_from_u8 v =
     (if v = 0 then Some Ssh else if v = 1 then Some Otp else if v = 2 then Some Api else None)"

definition key_category_code :: "key_category \<Rightarrow> byte" where
  "key_category_code c = (case c of Ssh \<Rightarrow> 0 | Otp \<Rightarrow> 1 | Api \<Rightarrow> 2)"

definition key_category_from_str :: "(string \<Rightarrow> string) \<Rightarrow> string \<Rightarrow> key_category option" where
  "key_category_from_str lower s =
     (let l = lower s in
      if l = ''ssh'' then Some Ssh else if l = ''otp'' then Some Otp
      else if l = ''api'' then Some Api else None)"

interpretation key_category_codec:
  wire_codec key_category_code key_category_from_u8 "\<lambda>_. True"
  by unfold_locales (simp add: key_category_code_def key_category_from_u8_def split: key_category.split)

section \<open>Enrollment events\<close>

datatype enroll_event =
    EWaiting
  | ECaptured byte byte
  | EProcessing
  | ELiftFinger
  | EOverlap
  | EComplete
  | EFailed

definition enroll_from_notification :: "byte \<Rightarrow> byte \<Rightarrow> byte \<Rightarrow> enroll_event" where
  "enroll_from_notification status current tot =
     (if status = 0x00 then EWaiting
      else if status = 0x01 then ECaptured current tot
      else if status = 0x02 then EProcessing
      else if status = 0x03 then ELiftFinger
      else if status = 0x04 then EComplete
      else if status = 0x06 then EOverlap
      else EFailed)"

section \<open>Pairing progress\<close>

datatype pair_progress = PIdle | PWaitFp | PWaitButton | PEcdh | PDone | PFailed

definition progress_as_wire :: "pair_progress \<Rightarrow> string" where
  "progress_as_wire p = (case p of
     PIdle \<Rightarrow> ''IDLE'' | PWaitFp \<Rightarrow> ''WAIT_FP'' | PWaitButton \<Rightarrow> ''WAIT_BUTTON''
   | PEcdh \<Rightarrow> ''ECDH'' | PDone \<Rightarrow> ''DONE'' | PFailed \<Rightarrow> ''FAILED'')"

definition progress_from_wire :: "string \<Rightarrow> pair_progress option" where
  "progress_from_wire s =
     (if s = ''IDLE'' then Some PIdle
      else if s = ''WAIT_FP'' then Some PWaitFp
      else if s = ''WAIT_BUTTON'' then Some PWaitButton
      else if s = ''ECDH'' then Some PEcdh
      else if s = ''DONE'' then Some PDone
      else if s = ''FAILED'' then Some PFailed
      else None)"

interpretation progress_codec:
  wire_codec progress_as_wire progress_from_wire "\<lambda>_. True"
  by unfold_locales (simp add: progress_as_wire_def progress_from_wire_def split: pair_progress.split)

lemma progress_from_wire_sound: "progress_from_wire s = Some p \<Longrightarrow> progress_as_wire p = s"
  by (auto simp: progress_from_wire_def progress_as_wire_def split: if_splits)

section \<open>The fingerprint bitmap\<close>

definition u8_range :: "byte \<Rightarrow> byte list" where
  "u8_range n = map of_nat [0..<unat n]"

definition bit_set :: "byte \<Rightarrow> byte \<Rightarrow> bool" where
  "bit_set bitmap i \<longleftrightarrow> bitmap AND push_bit (unat i) 1 \<noteq> 0"

definition fp_bitmap_slots :: "byte \<Rightarrow> byte list" where
  "fp_bitmap_slots bitmap = filter (bit_set bitmap) (u8_range TOTAL_FINGERPRINT_SLOTS)"

definition fp_bitmap_display :: "byte \<Rightarrow> string" where
  "fp_bitmap_display bitmap =
     join '' '' (map (\<lambda>i. if bit_set bitmap i
                      then ''['' @ [CHR 0xE2, CHR 0x96, CHR 0xA0] @ '']'' else ''[ ]'')
                   (u8_range TOTAL_FINGERPRINT_SLOTS))"

lemma bit_set_iff: "bit_set bitmap i \<longleftrightarrow> bit bitmap (unat i)"
proof
  assume "bit_set bitmap i"
  then obtain n where "bit (bitmap AND push_bit (unat i) 1) n"
    unfolding bit_set_def by (metis bit_0_eq bit_eqI bot_apply bot_bool_def)
  then show "bit bitmap (unat i)" by (auto simp: bit_simps)
next
  assume b: "bit bitmap (unat i)"
  then have "bit (bitmap AND push_bit (unat i) 1) (unat i)"
    using bit_imp_le_length [OF b] by (simp add: bit_simps)
  then show "bit_set bitmap i" unfolding bit_set_def by (metis bit_0_eq bot_apply bot_bool_def)
qed

lemma set_u8_range: "set (u8_range n) = {i. i < n}"
proof -
  have "\<exists>k<unat n. i = of_nat k" if "i < n" for i :: byte
    using that by (intro exI [of _ "unat i"]) (simp add: word_less_nat_alt)
  moreover have "(of_nat k :: byte) < n" if "k < unat n" for k
    using that unat_lt2p_word [of n]
    by (simp add: word_less_nat_alt unsigned_of_nat take_bit_nat_eq_self)
  ultimately show ?thesis by (fastforce simp: u8_range_def)
qed

lemma distinct_u8_range: "distinct (u8_range n)"
proof -
  have "inj_on (of_nat :: nat \<Rightarrow> byte) {0..<unat n}"
    using unat_lt2p_word [of n]
    by (intro inj_on_inverseI [where g = unat]) (simp add: unsigned_of_nat take_bit_nat_eq_self)
  then show ?thesis by (simp add: u8_range_def distinct_map)
qed

lemma fp_bitmap_slots_set: "set (fp_bitmap_slots b) = {i. i < 6 \<and> bit b (unat i)}"
  by (auto simp: fp_bitmap_slots_def set_u8_range bit_set_iff)

lemma fp_bitmap_slots_distinct: "distinct (fp_bitmap_slots b)"
  by (simp add: fp_bitmap_slots_def distinct_u8_range)

end
