(* ===== verification/Coordinator.thy ===== *)
theory Coordinator
  imports Session Types_Common
begin

text \<open>
  The coordinator of the daemon (\<open>immurok-daemon/src/coordinator.rs\<close>) with the settings
  (\<open>settings.rs\<close>) and the two monitors that write its flags (\<open>screen.rs\<close>, \<open>suspend.rs\<close>). The
  record has the fields of the struct; a oneshot sender is the number of its channel, a
  \<open>Notify\<close> is its stored permit. What a call sends out (replies on channels, lines to the session
  agent, broadcasts, \<open>loginctl\<close> calls) is appended to \<open>effects\<close>.
\<close>

record settings =
  unlock_sudo :: bool
  unlock_polkit :: bool
  unlock_screen :: bool
  lock_screen :: bool
  ssh_takeover :: bool

definition default_settings :: settings where
  "default_settings =
     \<lparr> unlock_sudo = True, unlock_polkit = True, unlock_screen = True,
       lock_screen = False, ssh_takeover = False \<rparr>"

record pre_auth =
  deadline :: instant
  services :: "string list"

datatype gate_event = Mismatch byte | Approved

datatype coord_effect =
    Reply nat bool
  | UiLine string
  | UiCancel
  | FpMatch "16 word"
  | EnrollSent enroll_event
  | Gate gate_event
  | Loginctl string string
  | SavePairing pairing_data
  | ClearPairing

record coordinator =
  pairing :: "pairing_data option"
  settings :: settings
  device_status :: "device_status option"
  is_device_verified :: bool
  device_reports_unpaired :: bool
  challenge_verified :: bool
  is_connected :: bool
  screen_locked :: bool
  fp_bitmap_stale :: bool
  last_enroll_event :: "(byte \<times> byte \<times> byte) option"
  pair_progress :: pair_progress
  pending_pam :: "nat option"
  pre_auth :: "pre_auth option"
  last_auth_flow :: "instant option"
  ui_out :: "nat option"
  agent_claims :: "32 word \<Rightarrow> (instant \<times> string) option"
  auth_dialog_cancel :: bool
  gate_cancel :: bool
  gate_active :: bool
  resume_notify :: bool
  is_suspending :: bool
  effects :: "coord_effect list"

definition coordinator_new :: coordinator where
  "coordinator_new =
     \<lparr> pairing = None, settings = default_settings, device_status = None,
       is_device_verified = False, device_reports_unpaired = False, challenge_verified = False,
       is_connected = False, screen_locked = False, fp_bitmap_stale = False,
       last_enroll_event = None, pair_progress = PIdle, pending_pam = None, pre_auth = None,
       last_auth_flow = None, ui_out = None, agent_claims = Map.empty,
       auth_dialog_cancel = False, gate_cancel = False, gate_active = False,
       resume_notify = False, is_suspending = False, effects = [] \<rparr>"

definition emit :: "coord_effect \<Rightarrow> coordinator \<Rightarrow> coordinator" where
  "emit e c = c\<lparr> effects := effects c @ [e] \<rparr>"

definition UNLOCK_FOLLOWUP_SERVICES :: "string list" where
  "UNLOCK_FOLLOWUP_SERVICES = [''polkit-1'', ''login'', ''gdm-password'']"

section \<open>Pairing progress\<close>

definition set_pair_progress :: "pair_progress \<Rightarrow> coordinator \<Rightarrow> coordinator" where
  "set_pair_progress p c = c\<lparr> pair_progress := p \<rparr>"

definition try_begin_pairing :: "coordinator \<Rightarrow> bool \<times> coordinator" where
  "try_begin_pairing c =
     (if pair_progress c \<in> {PWaitFp, PWaitButton, PEcdh} then (False, c)
      else (True, c\<lparr> pair_progress := PIdle \<rparr>))"

section \<open>The pre-authorisation window\<close>

definition set_pre_auth :: "host \<Rightarrow> nat \<Rightarrow> string list \<Rightarrow> coordinator \<Rightarrow> coordinator" where
  "set_pre_auth h duration svcs c =
     c\<lparr> pre_auth := Some \<lparr> deadline = now h + duration, services = map (lower h) svcs \<rparr> \<rparr>"

definition consume_pre_auth :: "host \<Rightarrow> string \<Rightarrow> coordinator \<Rightarrow> bool" where
  "consume_pre_auth h service c = (case pre_auth c of
     None \<Rightarrow> False
   | Some entry \<Rightarrow> now h < deadline entry \<and> lower h service \<in> set (services entry))"

section \<open>The pending PAM request\<close>

definition try_set_pending_pam :: "nat \<Rightarrow> coordinator \<Rightarrow> bool \<times> coordinator" where
  "try_set_pending_pam sender c =
     (if pending_pam c \<noteq> None then (False, c) else (True, c\<lparr> pending_pam := Some sender \<rparr>))"

definition approve_pending_pam :: "coordinator \<Rightarrow> bool \<times> coordinator" where
  "approve_pending_pam c = (case pending_pam c of
     Some sender \<Rightarrow> (True, emit (Reply sender True) (c\<lparr> pending_pam := None \<rparr>))
   | None \<Rightarrow> (False, c))"

definition deny_pending_pam :: "coordinator \<Rightarrow> coordinator" where
  "deny_pending_pam c = (case pending_pam c of
     Some sender \<Rightarrow> emit (Reply sender False) (c\<lparr> pending_pam := None \<rparr>)
   | None \<Rightarrow> c)"

section \<open>Screen control and fingerprint routing\<close>

definition target_session :: "host \<Rightarrow> string option" where
  "target_session h = Option.bind (owner_uid h) (graphical_session_id h)"

definition loginctl_ok :: "host \<Rightarrow> string \<Rightarrow> string \<Rightarrow> bool" where
  "loginctl_ok h verb sid = (case loginctl h verb sid of ExecFailed \<Rightarrow> False | Exited success _ \<Rightarrow> success)"

definition do_unlock_screen :: "host \<Rightarrow> coordinator \<Rightarrow> coordinator" where
  "do_unlock_screen h c = (case target_session h of
     None \<Rightarrow> c
   | Some sid \<Rightarrow>
       (let c' = emit (Loginctl ''unlock-session'' sid) c in
        if loginctl_ok h ''unlock-session'' sid
        then set_pre_auth h (from_secs PRE_AUTH_DURATION_SECS) UNLOCK_FOLLOWUP_SERVICES c'
        else c'))"

definition on_fp_match :: "host \<Rightarrow> 16 word \<Rightarrow> coordinator \<Rightarrow> coordinator" where
  "on_fp_match h pid c0 =
     (let c = emit (FpMatch pid) c0; (approved, c1) = approve_pending_pam c in
      if approved then
        let c2 = c1\<lparr> last_auth_flow := Some (now h) \<rparr> in
        if screen_locked c2
        then set_pre_auth h (from_secs PRE_AUTH_DURATION_SECS) UNLOCK_FOLLOWUP_SERVICES c2
        else c2
      else if screen_locked c1 \<and> unlock_screen (settings c1)
      then do_unlock_screen h (c1\<lparr> last_auth_flow := Some (now h) \<rparr>)
      else c1)"

definition do_lock_screen :: "host \<Rightarrow> coordinator \<Rightarrow> coordinator" where
  "do_lock_screen h c = (case target_session h of
     None \<Rightarrow> c
   | Some sid \<Rightarrow> emit (Loginctl ''lock-session'' sid) c)"

text \<open>\<open>Instant::elapsed\<close> saturates at zero, as natural subtraction does.\<close>

definition handle_lock_request :: "host \<Rightarrow> coordinator \<Rightarrow> coordinator" where
  "handle_lock_request h c =
     (if \<not> lock_screen (settings c) then c
      else if screen_locked c then c
      else if (case last_auth_flow c of
                 Some t0 \<Rightarrow> now h - t0 < from_secs LOCK_SUPPRESS_WINDOW_SECS | None \<Rightarrow> False)
      then c
      else do_lock_screen h (c\<lparr> pre_auth := None \<rparr>))"

section \<open>Agent claims, the session agent and the gate\<close>

definition AGENT_CLAIM_TTL_SECS :: nat where
  "AGENT_CLAIM_TTL_SECS = 3600"

definition record_agent_claim :: "host \<Rightarrow> 32 word \<Rightarrow> string \<Rightarrow> coordinator \<Rightarrow> coordinator" where
  "record_agent_claim h pid command c =
     c\<lparr> agent_claims :=
         (\<lambda>p. if proc_status h p \<noteq> None then agent_claims c p else None)(pid \<mapsto> (now h, command)) \<rparr>"

definition agent_claim :: "host \<Rightarrow> 32 word \<Rightarrow> coordinator \<Rightarrow> string option" where
  "agent_claim h pid c = (case agent_claims c pid of
     None \<Rightarrow> None
   | Some (at, cmd) \<Rightarrow> if now h - at < from_secs AGENT_CLAIM_TTL_SECS then Some cmd else None)"

definition push_ui :: "string \<Rightarrow> coordinator \<Rightarrow> bool \<times> coordinator" where
  "push_ui line c = (case ui_out c of Some _ \<Rightarrow> (True, emit (UiLine line) c) | None \<Rightarrow> (False, c))"

definition emit_fp_gate_event :: "gate_event \<Rightarrow> coordinator \<Rightarrow> coordinator" where
  "emit_fp_gate_event ev c = emit (Gate ev) c"

definition cancel_active_gate :: "coordinator \<Rightarrow> bool \<times> coordinator" where
  "cancel_active_gate c =
     (if gate_active c then (True, c\<lparr> gate_cancel := True \<rparr>) else (False, c))"

section \<open>The monitors\<close>

definition refresh :: "host \<Rightarrow> coordinator \<Rightarrow> coordinator" where
  "refresh h c = (case owner_uid h of
     None \<Rightarrow> c
   | Some uid \<Rightarrow> (case graphical_session_id h uid of
       None \<Rightarrow> c
     | Some sid \<Rightarrow> (case session_locked h sid of
         None \<Rightarrow> c
       | Some locked \<Rightarrow> c\<lparr> screen_locked := locked \<rparr>)))"

definition monitor_backoff :: "nat \<Rightarrow> nat" where
  "monitor_backoff b = min (b * 2) (from_secs 300)"

definition on_prepare_for_sleep :: "bool \<Rightarrow> coordinator \<Rightarrow> coordinator" where
  "on_prepare_for_sleep going c =
     (if going then c\<lparr> is_suspending := True \<rparr>
      else c\<lparr> is_suspending := False, resume_notify := True \<rparr>)"

section \<open>The pending slot as an exclusive resource\<close>

text \<open>
  The contract the two handlers that wait for a touch rely on: one holder at a time, a claim on a
  held slot changes nothing, a release empties it.
\<close>

locale exclusive_slot =
  fixes claim :: "nat \<Rightarrow> 's \<Rightarrow> bool \<times> 's"
    and release :: "'s \<Rightarrow> 's"
    and holder :: "'s \<Rightarrow> nat option"
  assumes claim_free: "holder s = None \<Longrightarrow> fst (claim x s) \<and> holder (snd (claim x s)) = Some x"
    and claim_held: "holder s = Some y \<Longrightarrow> claim x s = (False, s)"
    and release_frees: "holder (release s) = None"
begin

lemma claim_iff: "fst (claim x s) \<longleftrightarrow> holder s = None"
  by (cases "holder s") (simp_all add: claim_free claim_held)

lemma holder_after_claim: "holder (snd (claim x s)) = Some (case holder s of None \<Rightarrow> x | Some y \<Rightarrow> y)"
  by (cases "holder s") (simp_all add: claim_free claim_held)

lemma second_claim_fails: "claim y (snd (claim x s)) = (False, snd (claim x s))"
  by (rule claim_held) (rule holder_after_claim)

lemma claims_first_wins:
  "holder s = None \<Longrightarrow> holder (fold (\<lambda>x s. snd (claim x s)) (x # xs) s) = Some x"
proof (induction xs arbitrary: s rule: rev_induct)
  case (snoc y ys)
  then show ?case by (simp add: holder_after_claim)
qed (simp add: claim_free)

lemma release_then_claim: "fst (claim x (release s))"
  by (simp add: claim_iff release_frees)

end

lemma pending_after_deny [simp]: "pending_pam (deny_pending_pam c) = None"
  by (simp add: deny_pending_pam_def emit_def split: option.split)

interpretation pam_slot: exclusive_slot try_set_pending_pam deny_pending_pam pending_pam
  by unfold_locales (simp_all add: try_set_pending_pam_def)

section \<open>Facts about the operations\<close>

lemma emit_simps [simp]:
  "pairing (emit e c) = pairing c" "settings (emit e c) = settings c"
  "device_status (emit e c) = device_status c" "is_device_verified (emit e c) = is_device_verified c"
  "challenge_verified (emit e c) = challenge_verified c" "is_connected (emit e c) = is_connected c"
  "screen_locked (emit e c) = screen_locked c" "pending_pam (emit e c) = pending_pam c"
  "pre_auth (emit e c) = pre_auth c" "last_auth_flow (emit e c) = last_auth_flow c"
  "ui_out (emit e c) = ui_out c" "auth_dialog_cancel (emit e c) = auth_dialog_cancel c"
  "gate_cancel (emit e c) = gate_cancel c" "gate_active (emit e c) = gate_active c"
  "pair_progress (emit e c) = pair_progress c" "fp_bitmap_stale (emit e c) = fp_bitmap_stale c"
  "last_enroll_event (emit e c) = last_enroll_event c"
  "device_reports_unpaired (emit e c) = device_reports_unpaired c"
  "agent_claims (emit e c) = agent_claims c" "is_suspending (emit e c) = is_suspending c"
  "effects (emit e c) = effects c @ [e]"
  by (simp_all add: emit_def)

lemmas coordinator_ops = set_pre_auth_def push_ui_def try_set_pending_pam_def
  approve_pending_pam_def deny_pending_pam_def do_unlock_screen_def do_lock_screen_def

lemma approve_pending_simps [simp]:
  "pending_pam c = Some ch \<Longrightarrow>
     approve_pending_pam c = (True, emit (Reply ch True) (c\<lparr> pending_pam := None \<rparr>))"
  "pending_pam c = None \<Longrightarrow> approve_pending_pam c = (False, c)"
  by (simp_all add: approve_pending_pam_def)

lemma on_fp_match_pending:
  "pending_pam c = Some ch \<Longrightarrow>
     pending_pam (on_fp_match h p c) = None \<and>
     last_auth_flow (on_fp_match h p c) = Some (now h) \<and>
     effects (on_fp_match h p c) = effects c @ [FpMatch p, Reply ch True]"
  by (simp add: on_fp_match_def set_pre_auth_def Let_def)

lemma on_fp_match_unlock:
  "pending_pam c = None \<Longrightarrow> screen_locked c \<Longrightarrow> unlock_screen (settings c) \<Longrightarrow>
     on_fp_match h p c = do_unlock_screen h ((emit (FpMatch p) c)\<lparr> last_auth_flow := Some (now h) \<rparr>)"
  by (simp add: on_fp_match_def)

lemma on_fp_match_ignored:
  "pending_pam c = None \<Longrightarrow> \<not> (screen_locked c \<and> unlock_screen (settings c)) \<Longrightarrow>
     on_fp_match h p c = emit (FpMatch p) c"
  by (auto simp: on_fp_match_def)

lemma do_unlock_pre_auth:
  "pre_auth (do_unlock_screen h c) =
     (case target_session h of
        Some sid \<Rightarrow> if loginctl_ok h ''unlock-session'' sid
          then Some \<lparr> deadline = now h + from_secs 3, services = map (lower h) UNLOCK_FOLLOWUP_SERVICES \<rparr>
          else pre_auth c
      | None \<Rightarrow> pre_auth c)"
  by (simp add: do_unlock_screen_def set_pre_auth_def Let_def split: option.split)

lemma on_fp_match_pre_auth:
  "pre_auth (on_fp_match h p c) = pre_auth c \<or>
   (screen_locked c \<and> pre_auth (on_fp_match h p c) =
      Some \<lparr> deadline = now h + from_secs 3, services = map (lower h) UNLOCK_FOLLOWUP_SERVICES \<rparr>)"
proof (cases "pending_pam c")
  case (Some ch)
  then show ?thesis by (simp add: on_fp_match_def set_pre_auth_def Let_def)
next
  case None
  then show ?thesis
    by (cases "screen_locked c \<and> unlock_screen (settings c)")
      (auto simp: on_fp_match_unlock on_fp_match_ignored do_unlock_pre_auth split: option.split)
qed

lemma followup_lower:
  "lower_law h \<Longrightarrow> map (lower h) UNLOCK_FOLLOWUP_SERVICES = UNLOCK_FOLLOWUP_SERVICES"
  by (simp add: lower_law_def UNLOCK_FOLLOWUP_SERVICES_def)

section \<open>Properties\<close>

text \<open>
  Fact: a fingerprint match is routed to exactly one of three places. A pending request is approved
  on its own channel and the slot is freed. Otherwise, on a locked screen with unlocking enabled,
  the owner's session is unlocked. Otherwise the match is only broadcast and no state changes.
\<close>

theorem fp_match_routes:
  "(case pending_pam c of
      Some ch \<Rightarrow> pending_pam (on_fp_match h p c) = None \<and>
        effects (on_fp_match h p c) = effects c @ [FpMatch p, Reply ch True]
    | None \<Rightarrow>
        if screen_locked c \<and> unlock_screen (settings c)
        then pending_pam (on_fp_match h p c) = None \<and>
          effects (on_fp_match h p c) = effects c @ FpMatch p #
            (case target_session h of Some sid \<Rightarrow> [Loginctl ''unlock-session'' sid] | None \<Rightarrow> [])
        else on_fp_match h p c = emit (FpMatch p) c)"
proof (cases "pending_pam c")
  case (Some ch)
  then show ?thesis by (simp add: on_fp_match_pending)
next
  case None
  show ?thesis
  proof (cases "screen_locked c \<and> unlock_screen (settings c)")
    case True
    then show ?thesis
      using None by (simp add: on_fp_match_unlock do_unlock_screen_def set_pre_auth_def Let_def
          split: option.split)
  next
    case False
    show ?thesis
      unfolding on_fp_match_ignored [OF None False] option.case(1) None if_not_P [OF False] ..
  qed
qed

text \<open>
  Fact: whatever a fingerprint match arms, it is never a window for \<open>sudo\<close>. If no window was open
  and after the match some service is let through without a touch, then the screen was locked, the
  service is one of the three unlock services, and the window is at most three seconds old.
\<close>

theorem unlock_window_excludes_sudo:
  assumes "lower_law h" "pre_auth c = None"
    and "consume_pre_auth h' service (on_fp_match h p c)"
  shows "screen_locked c \<and> now h' < now h + from_secs 3 \<and>
    lower h' service \<in> {''polkit-1'', ''login'', ''gdm-password''} \<and> lower h' service \<noteq> ''sudo''"
  using on_fp_match_pre_auth [of h p c, unfolded followup_lower [OF assms(1)]] assms(2,3)
  by (auto simp: consume_pre_auth_def UNLOCK_FOLLOWUP_SERVICES_def)

definition sample_host :: host where
  "sample_host =
     \<lparr> now = 0, lower = map ascii_lower,
       show_user = (\<lambda>uid prop. if uid = 1000
          then Exited True (if prop = ''Display'' then ''2'' @ [CHR 0x0A] else ''active'' @ [CHR 0x0A])
          else Exited False []),
       show_session = (\<lambda>sid prop. Exited True (''yes'' @ [CHR 0x0A])),
       loginctl = (\<lambda>verb sid. Exited True []),
       owner_file = Some (''1000'' @ [CHR 0x0A]),
       passwd = [''alice'' \<mapsto> 1000, ''polkitd'' \<mapsto> 990],
       proc_status = Map.empty \<rparr>"

lemma sample_host_lower [simp]: "lower_law sample_host"
  by (simp add: lower_law_def sample_host_def)

lemma sample_host_trims:
  "trim (''1000'' @ [CHR 0x0A]) = ''1000''" "trim (''2'' @ [CHR 0x0A]) = ''2''"
  "trim (''active'' @ [CHR 0x0A]) = ''active''" "trim (''yes'' @ [CHR 0x0A]) = ''yes''"
  by (rule trim_newline_end; simp)+

lemma sample_host_owner [simp]: "owner_uid sample_host = Some 1000"
  using sample_host_trims(1)
  by (simp add: owner_uid_def read_owner_def sample_host_def parse_u32_def parse_uint_def
      is_digit_def digit_val_def)

lemma sample_host_session [simp]: "target_session sample_host = Some ''2''"
proof -
  have "graphical_session_id sample_host 1000 = Some ''2''"
    using sample_host_trims(2)
    by (simp add: graphical_session_id_def parse_session_id_def sample_host_def)
  then show ?thesis by (simp add: target_session_def)
qed

lemma sample_host_simps [simp]:
  "now sample_host = 0" "lower sample_host = map ascii_lower" "loginctl_ok sample_host v s"
  "passwd sample_host = [''alice'' \<mapsto> 1000, ''polkitd'' \<mapsto> 990]"
  by (simp_all add: sample_host_def loginctl_ok_def)

theorem unlock_window_excludes_sudo_witness:
  "let c = coordinator_new\<lparr> screen_locked := True \<rparr>
   in consume_pre_auth sample_host ''polkit-1'' (on_fp_match sample_host 1 c) \<and>
      lower sample_host ''polkit-1'' \<in> {''polkit-1'', ''login'', ''gdm-password''}"
proof -
  let ?c = "coordinator_new\<lparr> screen_locked := True \<rparr>"
  have "consume_pre_auth sample_host ''polkit-1'' (on_fp_match sample_host 1 ?c)"
    by (simp add: coordinator_new_def default_settings_def on_fp_match_def do_unlock_screen_def
        set_pre_auth_def consume_pre_auth_def UNLOCK_FOLLOWUP_SERVICES_def from_secs_def)
  moreover from this have "lower sample_host ''polkit-1'' \<in> {''polkit-1'', ''login'', ''gdm-password''}"
    using unlock_window_excludes_sudo [of sample_host ?c sample_host "''polkit-1''" 1]
    by (simp add: coordinator_new_def)
  ultimately show ?thesis by (simp add: Let_def)
qed

text \<open>
  Fact: a long-press lock request acts only when the feature is on, the screen is not locked and no
  authentication flow succeeded in the last three seconds. It then closes any open pre-auth
  window and locks the owner's session; in every other case nothing changes.
\<close>

theorem lock_request_guards:
  "handle_lock_request h c =
     (if lock_screen (settings c) \<and> \<not> screen_locked c \<and>
         (\<forall>t. last_auth_flow c = Some t \<longrightarrow> t + from_secs 3 \<le> now h)
      then (case target_session h of
              Some sid \<Rightarrow> emit (Loginctl ''lock-session'' sid) (c\<lparr> pre_auth := None \<rparr>)
            | None \<Rightarrow> c\<lparr> pre_auth := None \<rparr>)
      else c)"
  by (cases "last_auth_flow c")
    (auto simp: handle_lock_request_def do_lock_screen_def from_secs_def)

theorem lock_request_guards_witness:
  "pre_auth (handle_lock_request (sample_host\<lparr> now := from_secs 10 \<rparr>)
      (coordinator_new\<lparr> settings := default_settings\<lparr> lock_screen := True \<rparr>,
         last_auth_flow := Some (from_secs 6),
         pre_auth := Some \<lparr> deadline = from_secs 11, services = [''login''] \<rparr> \<rparr>)) = None"
  by (subst lock_request_guards)
    (simp add: coordinator_new_def default_settings_def from_secs_def split: option.split)

text \<open>
  Claiming the pairing slot leaves the progress at \<open>Idle\<close>, so a second claim that comes before the
  worker has reported any progress succeeds as well.
\<close>

lemma try_begin_pairing_twice:
  "fst (try_begin_pairing c) \<Longrightarrow> fst (try_begin_pairing (snd (try_begin_pairing c)))"
  by (simp add: try_begin_pairing_def split: if_splits)

end
