(* ===== verification/Dual_Host.thy ===== *)
theory Dual_Host
  imports Types_Common
begin

text \<open>
  Decoding of the dual-host protocol (\<open>immurok-common/src/dual_host.rs\<close>): the slot status frame
  and its text form, the choice of the clear path, and the classification of the answers to
  \<open>SLOT_CLEAR\<close> and of the button notifications.
\<close>

datatype slot_status = Supported byte byte | Unsupported

definition is_second_host :: "slot_status \<Rightarrow> bool" where
  "is_second_host st = (case st of
     Supported bitmap active \<Rightarrow>
       (let active_bit = push_bit (unat (active - 1)) (1 :: byte)
        in bitmap \<noteq> 0 \<and> bitmap AND active_bit = 0)
   | Unsupported \<Rightarrow> False)"

definition parse_slot_status :: "bytes \<Rightarrow> slot_status" where
  "parse_slot_status frame =
     (if length frame < 4 \<or> frame ! 0 \<noteq> CMD_SLOT_STATUS \<or> frame ! 1 \<noteq> RSP_OK then Unsupported
      else let active = frame ! 3 in
        if active \<noteq> SLOT_1 \<and> active \<noteq> SLOT_2 then Unsupported
        else Supported (frame ! 2 AND 0x03) active)"

definition parse_slot_status_line :: "string \<Rightarrow> slot_status option" where
  "parse_slot_status_line line =
     (let parts = split_on CHR '':'' (trim line) in
      if get_at parts 0 \<noteq> Some ''OK'' then None
      else case get_at parts 1 of
        None \<Rightarrow> None
      | Some bitmap_str \<Rightarrow>
          if bitmap_str = ''UNSUPPORTED'' then Some Unsupported
          else Option.bind (ok (parse_u8 bitmap_str)) (\<lambda>bitmap.
               Option.bind (get_at parts 2) (\<lambda>a.
               Option.bind (ok (parse_u8 a)) (\<lambda>active.
                 if active \<noteq> SLOT_1 \<and> active \<noteq> SLOT_2 then None
                 else Some (Supported (bitmap AND 0x03) active)))))"

definition parse_slot_owner :: "string \<Rightarrow> byte option" where
  "parse_slot_owner line =
     Option.bind (get_at (split_on CHR '':'' (trim line)) 3) (\<lambda>f.
     Option.bind (ok (parse_u8 f)) (\<lambda>ownr.
       if ownr = SLOT_1 \<or> ownr = SLOT_2 then Some ownr else None))"

datatype clear_path = Own | Other byte | InvalidSlot | ClearUnsupported

definition resolve_clear_path :: "byte option \<Rightarrow> slot_status \<Rightarrow> clear_path" where
  "resolve_clear_path target status = (case target of
     None \<Rightarrow> Own
   | Some slot \<Rightarrow>
       if slot \<noteq> SLOT_1 \<and> slot \<noteq> SLOT_2 then InvalidSlot
       else case status of
         Supported b active \<Rightarrow> if slot = active then Own else Other slot
       | Unsupported \<Rightarrow> ClearUnsupported)"

datatype slot_clear_ack = AckCleared | AckSlotUnpaired | AckRefused | AckUnrecognised

definition classify_slot_clear_ack :: "byte \<Rightarrow> bytes \<Rightarrow> slot_clear_ack" where
  "classify_slot_clear_ack fst_byte rest =
     (if fst_byte \<noteq> CMD_SLOT_CLEAR then AckUnrecognised
      else case rest of
        [] \<Rightarrow> AckUnrecognised
      | b # _ \<Rightarrow> if b = RSP_OK then AckCleared
                 else if b = RSP_ERR_NOT_PAIRED then AckSlotUnpaired
                 else AckRefused)"

datatype unpair_outcome =
    UnpairCleared
  | UnpairUnconfirmed
  | UnpairLocalOnly
  | UnpairSlotUnpaired
  | UnpairRefused
  | UnpairFailed

definition classify_unpair_response :: "string \<Rightarrow> unpair_outcome" where
  "classify_unpair_response line =
     (let parts = split_on CHR '':'' (trim line); a = get_at parts 0; b = get_at parts 1 in
      if a = Some ''OK'' \<and> b = Some ''CLEARED'' then UnpairCleared
      else if a = Some ''OK'' \<and> b = Some ''CLEARED_UNCONFIRMED'' then UnpairUnconfirmed
      else if a = Some ''OK'' \<and> b = Some ''CLEARED_LOCAL_ONLY'' then UnpairLocalOnly
      else if a = Some ''OK'' \<and> b = Some ''CLEARED_SLOT_UNPAIRED'' then UnpairSlotUnpaired
      else if a = Some ''ERROR'' \<and> b = Some ''SLOT_CLEAR_REFUSED'' then UnpairRefused
      else UnpairFailed)"

datatype pair_button_event = Confirmed | FingerprintOk | Terminal byte | Ignore

definition classify_pair_button :: "byte \<Rightarrow> pair_button_event" where
  "classify_pair_button status =
     (if status = PAIR_BUTTON_CONFIRMED then Confirmed
      else if status = PAIR_BUTTON_FP_OK then FingerprintOk
      else if status = PAIR_BUTTON_TIMEOUT \<or> status = PAIR_BUTTON_CANCELLED then Terminal status
      else Ignore)"

section \<open>Properties of the decoders\<close>

lemma parse_slot_status_cases:
  "parse_slot_status frame = Supported b a \<longleftrightarrow>
     (\<exists>m rest. frame = 0x39 # 0x00 # m # a # rest \<and> (a = 1 \<or> a = 2) \<and> b = m AND 0x03)"
proof
  assume "parse_slot_status frame = Supported b a"
  then show "\<exists>m rest. frame = 0x39 # 0x00 # m # a # rest \<and> (a = 1 \<or> a = 2) \<and> b = m AND 0x03"
    by (cases frame; cases "tl frame"; cases "tl (tl frame)"; cases "tl (tl (tl frame))")
      (auto simp: parse_slot_status_def Let_def split: if_splits)
qed (auto simp: parse_slot_status_def Let_def)

text \<open>The daemon's text for a slot status, as \<open>handle_slot_status\<close> writes it.\<close>

definition slot_status_line :: "slot_status \<Rightarrow> byte option \<Rightarrow> string" where
  "slot_status_line st mine = (case st of
     Supported bitmap active \<Rightarrow>
       join '':'' [''OK'', show_word bitmap, show_word active, show_word (case mine of None \<Rightarrow> 0 | Some m \<Rightarrow> m)]
   | Unsupported \<Rightarrow> ''OK:UNSUPPORTED'')"

lemma join_graphic_ends:
  assumes "x \<noteq> []" "graphic (hd x)" "y \<noteq> [] \<Longrightarrow> graphic (last y)"
  shows "trim (join '':'' (x # zs @ [y])) = join '':'' (x # zs @ [y])"
proof (rule trim_graphic)
  have c: "join '':'' (x # zs @ [y]) = x @ '':'' @ join '':'' (zs @ [y])"
    by (simp add: join_Cons)
  have l: "join '':'' (ws @ [y]) = [] \<and> y = [] \<or>
      join '':'' (ws @ [y]) \<noteq> [] \<and> graphic (last (join '':'' (ws @ [y])))" for ws
  proof (induction ws)
    case Nil
    then show ?case using assms(3) by auto
  next
    case (Cons w ws)
    then show ?case by (auto simp: join_Cons graphic_def)
  qed
  show "join '':'' (x # zs @ [y]) \<noteq> []" using assms(1) c by simp
  show "graphic (hd (join '':'' (x # zs @ [y])))" using assms c by simp
  show "graphic (last (join '':'' (x # zs @ [y])))"
    using l [of zs] unfolding c by (auto simp: graphic_def)
qed

lemma show_nat_last_graphic: "graphic (last (show_nat n))"
  by (rule show_nat_graphic [of _ n]) simp

lemma slot_status_line_parts:
  "split_on CHR '':'' (trim (slot_status_line (Supported b a) mine)) =
     [''OK'', show_word b, show_word a, show_word (case mine of None \<Rightarrow> 0 | Some m \<Rightarrow> m)]"
proof -
  let ?m = "show_word (case mine of None \<Rightarrow> 0 | Some m \<Rightarrow> m)"
  have "trim (join '':'' (''OK'' # [show_word b, show_word a] @ [?m])) =
      join '':'' (''OK'' # [show_word b, show_word a] @ [?m])"
    by (rule join_graphic_ends) (simp_all add: show_nat_last_graphic)
  then show ?thesis
    by (simp only: slot_status_line_def slot_status.case append.simps) (rule split_on_join, simp_all)
qed

definition wf_slot_status :: "slot_status \<Rightarrow> bool" where
  "wf_slot_status st = (case st of
     Supported b a \<Rightarrow> b AND 0x03 = b \<and> (a = SLOT_1 \<or> a = SLOT_2) | Unsupported \<Rightarrow> True)"

lemma parse_slot_status_wf: "wf_slot_status (parse_slot_status frame)"
proof (cases "parse_slot_status frame")
  case (Supported b a)
  then show ?thesis
    unfolding Supported using Supported [unfolded parse_slot_status_cases]
    by (auto simp: wf_slot_status_def and.assoc)
qed (simp add: wf_slot_status_def)

lemma slot_status_line_roundtrip:
  "wf_slot_status st \<Longrightarrow> parse_slot_status_line (slot_status_line st mine) = Some st"
proof (cases st)
  case (Supported b a)
  assume w: "wf_slot_status st"
  have "show_word b \<noteq> ''UNSUPPORTED''"
    by (rule notI) (use show_nat_digits [of "CHR ''U''" "unat b"] in \<open>simp add: is_digit_def\<close>)
  then show ?thesis
    using w by (auto simp: Supported parse_slot_status_line_def slot_status_line_parts wf_slot_status_def)
next
  case Unsupported
  have "trim ''OK:UNSUPPORTED'' = ''OK:UNSUPPORTED''"
    by (rule trim_graphic) (simp_all add: graphic_def)
  then show ?thesis
    by (simp add: Unsupported slot_status_line_def parse_slot_status_line_def)
qed

interpretation slot_line_codec:
  wire_codec "\<lambda>st. slot_status_line st mine" parse_slot_status_line wf_slot_status
  by unfold_locales (rule slot_status_line_roundtrip)

lemma slot_owner_roundtrip:
  "parse_slot_owner (slot_status_line (Supported b a) mine) =
     (case mine of Some m \<Rightarrow> if m = SLOT_1 \<or> m = SLOT_2 then Some m else None | None \<Rightarrow> None)"
  by (simp add: parse_slot_owner_def slot_status_line_parts split: option.split)

end
