(* ===== verification/Socket_Proto.thy ===== *)
theory Socket_Proto
  imports Dual_Host
begin

text \<open>
  The text protocol of the daemon's socket (\<open>immurok-common/src/socket_proto.rs\<close>): the requests,
  the parser of a request line with its errors, the responses and their serializer. The lines a
  client sends are \<open>request_line\<close>, one row of the protocol table in the file's header each. The
  hex decoder of the \<open>hex\<close> crate is the parameter \<open>hexd\<close>.
\<close>

datatype parse_error =
    Empty
  | UnknownCommand string
  | MissingField string string
  | InvalidField string string string

definition parse_error_str :: "parse_error \<Rightarrow> string" where
  "parse_error_str e = (case e of
     Empty \<Rightarrow> ''empty input''
   | UnknownCommand cmd \<Rightarrow> ''unknown command: '' @ cmd
   | MissingField cmd fld \<Rightarrow> cmd @ '': missing field '' @ [CHR 0x27] @ fld @ [CHR 0x27]
   | InvalidField cmd fld d \<Rightarrow> cmd @ '': invalid field '' @ [CHR 0x27] @ fld @ [CHR 0x27] @ '': '' @ d)"

datatype request =
    Auth string string
  | Status
  | FpList
  | FpEnroll byte
  | FpEnrollCancel
  | FpDelete byte
  | FpVerify
  | FpStatus
  | FpLastMatch
  | GateCancel
  | PairStatus
  | PairStart
  | SlotStatus
  | SlotClear "byte option"
  | FactoryReset
  | PairProgress
  | SetUnlockSudo bool
  | SetUnlockPolkit bool
  | SetUnlockScreen bool
  | SetLockScreen bool
  | SetSshTakeover bool
  | GetSettings
  | GetInfo
  | OtaStart "32 word" string
  | OtaData bytes
  | OtaFinish

definition MAX_REQUEST_BYTES :: nat where
  "MAX_REQUEST_BYTES = 64 * 1024"

datatype response =
    ROk string
  | RDeny string
  | RRetry byte
  | RError string
  | RStatus (connected: bool) (rname: string) (rbattery: byte) (rversion: string) (device_unpaired: bool)

section \<open>Field parsers\<close>

definition require :: "string list \<Rightarrow> nat \<Rightarrow> string \<Rightarrow> string \<Rightarrow> (string, parse_error) result" where
  "require parts idx command fld = ok_or (MissingField command fld) (get_at parts idx)"

definition parse_u8_field :: "string list \<Rightarrow> nat \<Rightarrow> string \<Rightarrow> string \<Rightarrow> (byte, parse_error) result" where
  "parse_u8_field parts idx command fld =
     and_then (require parts idx command fld) (\<lambda>s.
       map_err (\<lambda>e. InvalidField command fld (int_error_str e)) (parse_u8 s))"

definition parse_u32_field :: "string list \<Rightarrow> nat \<Rightarrow> string \<Rightarrow> string \<Rightarrow> (32 word, parse_error) result" where
  "parse_u32_field parts idx command fld =
     and_then (require parts idx command fld) (\<lambda>s.
       map_err (\<lambda>e. InvalidField command fld (int_error_str e)) (parse_u32 s))"

definition parse_bool_field :: "string list \<Rightarrow> nat \<Rightarrow> string \<Rightarrow> string \<Rightarrow> (bool, parse_error) result" where
  "parse_bool_field parts idx command fld =
     and_then (require parts idx command fld) (\<lambda>s.
       if s = ''1'' then Ok True
       else if s = ''0'' then Ok False
       else Err (InvalidField command fld
              (''expected '' @ [CHR 0x27] @ ''1'' @ [CHR 0x27] @ '' or '' @ [CHR 0x27] @ ''0'' @
               [CHR 0x27] @ '', got '' @ [CHR 0x27] @ s @ [CHR 0x27])))"

section \<open>The parser, one definition per command word\<close>

definition parse_auth :: "string list \<Rightarrow> (request, parse_error) result" where
  "parse_auth parts =
     and_then (require parts 1 ''AUTH'' ''user'') (\<lambda>user.
     and_then (require parts 2 ''AUTH'' ''service'') (\<lambda>service. Ok (Auth user service)))"

definition parse_fp :: "string list \<Rightarrow> (request, parse_error) result" where
  "parse_fp parts =
     and_then (require parts 1 ''FP'' ''subcommand'') (\<lambda>sub.
       if sub = ''LIST'' then Ok FpList
       else if sub = ''ENROLL'' then
         and_then (parse_u8_field parts 2 ''FP:ENROLL'' ''slot'') (\<lambda>slot. Ok (FpEnroll slot))
       else if sub = ''ENROLL_CANCEL'' then Ok FpEnrollCancel
       else if sub = ''DELETE'' then
         and_then (parse_u8_field parts 2 ''FP:DELETE'' ''slot'') (\<lambda>slot. Ok (FpDelete slot))
       else if sub = ''VERIFY'' then Ok FpVerify
       else if sub = ''STATUS'' then Ok FpStatus
       else if sub = ''LAST_MATCH'' then Ok FpLastMatch
       else Err (UnknownCommand (''FP:'' @ sub)))"

definition parse_gate :: "string list \<Rightarrow> (request, parse_error) result" where
  "parse_gate parts =
     and_then (require parts 1 ''GATE'' ''subcommand'') (\<lambda>sub.
       if sub = ''CANCEL'' then Ok GateCancel
       else Err (UnknownCommand (''GATE:'' @ sub)))"

definition parse_pair :: "string list \<Rightarrow> (request, parse_error) result" where
  "parse_pair parts =
     and_then (require parts 1 ''PAIR'' ''subcommand'') (\<lambda>sub.
       if sub = ''STATUS'' then Ok PairStatus
       else if sub = ''START'' then Ok PairStart
       else if sub = ''PROGRESS'' then Ok PairProgress
       else if sub = ''RESET'' then Ok (SlotClear None)
       else if sub = ''FACTORY_RESET'' then Ok FactoryReset
       else Err (UnknownCommand (''PAIR:'' @ sub)))"

definition parse_slot :: "string list \<Rightarrow> (request, parse_error) result" where
  "parse_slot parts =
     and_then (require parts 1 ''SLOT'' ''subcommand'') (\<lambda>sub.
       if sub = ''STATUS'' then Ok SlotStatus
       else if sub = ''CLEAR'' then
         (case get_at parts 2 of
            None \<Rightarrow> Ok (SlotClear None)
          | Some _ \<Rightarrow> and_then (parse_u8_field parts 2 ''SLOT:CLEAR'' ''slot'')
                       (\<lambda>slot. Ok (SlotClear (Some slot))))
       else Err (UnknownCommand (''SLOT:'' @ sub)))"

definition parse_set :: "string list \<Rightarrow> (request, parse_error) result" where
  "parse_set parts =
     and_then (require parts 1 ''SET'' ''subcommand'') (\<lambda>sub.
       if sub = ''UNLOCK_SUDO'' then
         and_then (parse_bool_field parts 2 ''SET:UNLOCK_SUDO'' ''value'') (\<lambda>v. Ok (SetUnlockSudo v))
       else if sub = ''UNLOCK_POLKIT'' then
         and_then (parse_bool_field parts 2 ''SET:UNLOCK_POLKIT'' ''value'') (\<lambda>v. Ok (SetUnlockPolkit v))
       else if sub = ''UNLOCK_SCREEN'' then
         and_then (parse_bool_field parts 2 ''SET:UNLOCK_SCREEN'' ''value'') (\<lambda>v. Ok (SetUnlockScreen v))
       else if sub = ''LOCK_SCREEN'' then
         and_then (parse_bool_field parts 2 ''SET:LOCK_SCREEN'' ''value'') (\<lambda>v. Ok (SetLockScreen v))
       else if sub = ''SSH_TAKEOVER'' then
         and_then (parse_bool_field parts 2 ''SET:SSH_TAKEOVER'' ''value'') (\<lambda>v. Ok (SetSshTakeover v))
       else Err (UnknownCommand (''SET:'' @ sub)))"

definition parse_get :: "string list \<Rightarrow> (request, parse_error) result" where
  "parse_get parts =
     and_then (require parts 1 ''GET'' ''subcommand'') (\<lambda>sub.
       if sub = ''SETTINGS'' then Ok GetSettings
       else if sub = ''INFO'' then Ok GetInfo
       else Err (UnknownCommand (''GET:'' @ sub)))"

definition parse_ota :: "(string \<Rightarrow> (bytes, string) result) \<Rightarrow> string list \<Rightarrow> (request, parse_error) result" where
  "parse_ota hexd parts =
     and_then (require parts 1 ''OTA'' ''subcommand'') (\<lambda>sub.
       if sub = ''START'' then
         and_then (parse_u32_field parts 2 ''OTA:START'' ''size'') (\<lambda>size.
         and_then (require parts 3 ''OTA:START'' ''version'') (\<lambda>version. Ok (OtaStart size version)))
       else if sub = ''DATA'' then
         and_then (require parts 2 ''OTA:DATA'' ''hex_bytes'') (\<lambda>hex.
         and_then (map_err (InvalidField ''OTA:DATA'' ''hex_bytes'') (hexd hex)) (\<lambda>data.
           Ok (OtaData data)))
       else if sub = ''FINISH'' then Ok OtaFinish
       else Err (UnknownCommand (''OTA:'' @ sub)))"

definition parse_command :: "(string \<Rightarrow> (bytes, string) result) \<Rightarrow> string list \<Rightarrow> (request, parse_error) result" where
  "parse_command hexd parts =
     (let cmd = parts ! 0 in
        if cmd = ''AUTH'' then parse_auth parts
        else if cmd = ''STATUS'' then Ok Status
        else if cmd = ''FP'' then parse_fp parts
        else if cmd = ''GATE'' then parse_gate parts
        else if cmd = ''PAIR'' then parse_pair parts
        else if cmd = ''SLOT'' then parse_slot parts
        else if cmd = ''SET'' then parse_set parts
        else if cmd = ''GET'' then parse_get parts
        else if cmd = ''OTA'' then parse_ota hexd parts
        else Err (UnknownCommand cmd))"

definition parse_request :: "(string \<Rightarrow> (bytes, string) result) \<Rightarrow> string \<Rightarrow> (request, parse_error) result" where
  "parse_request hexd line0 =
     (let line = trim line0 in
      if line = [] then Err Empty
      else parse_command hexd (splitn 10 CHR '':'' line))"

lemmas parse_command_defs = parse_auth_def parse_fp_def parse_gate_def parse_pair_def
  parse_slot_def parse_set_def parse_get_def parse_ota_def

lemmas parse_field_defs = require_def parse_u8_field_def parse_u32_field_def parse_bool_field_def

section \<open>Responses\<close>

definition flag01 :: "bool \<Rightarrow> string" where
  "flag01 b = (if b then ''1'' else ''0'')"

definition serialize_response :: "response \<Rightarrow> string" where
  "serialize_response resp = (case resp of
     ROk msg \<Rightarrow> ''OK:'' @ msg
   | RDeny msg \<Rightarrow> ''DENY:'' @ msg
   | RRetry n \<Rightarrow> ''RETRY:'' @ show_word n
   | RError msg \<Rightarrow> ''ERROR:'' @ msg
   | RStatus c n b v u \<Rightarrow>
       ''STATUS:'' @ flag01 c @ '':'' @ n @ '':'' @ show_word b @ '':'' @ v @ '':'' @ flag01 u)"

section \<open>The lines the clients send\<close>

definition request_parts :: "(bytes \<Rightarrow> string) \<Rightarrow> request \<Rightarrow> string list" where
  "request_parts hexe r = (case r of
     Auth u s \<Rightarrow> [''AUTH'', u, s]
   | Status \<Rightarrow> [''STATUS'']
   | FpList \<Rightarrow> [''FP'', ''LIST'']
   | FpEnroll n \<Rightarrow> [''FP'', ''ENROLL'', show_word n]
   | FpEnrollCancel \<Rightarrow> [''FP'', ''ENROLL_CANCEL'']
   | FpDelete n \<Rightarrow> [''FP'', ''DELETE'', show_word n]
   | FpVerify \<Rightarrow> [''FP'', ''VERIFY'']
   | FpStatus \<Rightarrow> [''FP'', ''STATUS'']
   | FpLastMatch \<Rightarrow> [''FP'', ''LAST_MATCH'']
   | GateCancel \<Rightarrow> [''GATE'', ''CANCEL'']
   | PairStatus \<Rightarrow> [''PAIR'', ''STATUS'']
   | PairStart \<Rightarrow> [''PAIR'', ''START'']
   | SlotStatus \<Rightarrow> [''SLOT'', ''STATUS'']
   | SlotClear None \<Rightarrow> [''SLOT'', ''CLEAR'']
   | SlotClear (Some n) \<Rightarrow> [''SLOT'', ''CLEAR'', show_word n]
   | FactoryReset \<Rightarrow> [''PAIR'', ''FACTORY_RESET'']
   | PairProgress \<Rightarrow> [''PAIR'', ''PROGRESS'']
   | SetUnlockSudo b \<Rightarrow> [''SET'', ''UNLOCK_SUDO'', flag01 b]
   | SetUnlockPolkit b \<Rightarrow> [''SET'', ''UNLOCK_POLKIT'', flag01 b]
   | SetUnlockScreen b \<Rightarrow> [''SET'', ''UNLOCK_SCREEN'', flag01 b]
   | SetLockScreen b \<Rightarrow> [''SET'', ''LOCK_SCREEN'', flag01 b]
   | SetSshTakeover b \<Rightarrow> [''SET'', ''SSH_TAKEOVER'', flag01 b]
   | GetSettings \<Rightarrow> [''GET'', ''SETTINGS'']
   | GetInfo \<Rightarrow> [''GET'', ''INFO'']
   | OtaStart n v \<Rightarrow> [''OTA'', ''START'', show_word n, v]
   | OtaData d \<Rightarrow> [''OTA'', ''DATA'', hexe d]
   | OtaFinish \<Rightarrow> [''OTA'', ''FINISH''])"

definition request_line :: "(bytes \<Rightarrow> string) \<Rightarrow> request \<Rightarrow> string" where
  "request_line hexe r = join '':'' (request_parts hexe r)"

text \<open>
  The fields a client may put on a line: no colon in any, and nothing the trimming of the line
  could remove at the end of the last one.
\<close>

definition inner_field :: "string \<Rightarrow> bool" where
  "inner_field s \<longleftrightarrow> CHR '':'' \<notin> set s"

definition last_field :: "string \<Rightarrow> bool" where
  "last_field s \<longleftrightarrow> CHR '':'' \<notin> set s \<and> (s \<noteq> [] \<longrightarrow> graphic (last s))"

definition wf_request :: "(bytes \<Rightarrow> string) \<Rightarrow> request \<Rightarrow> bool" where
  "wf_request hexe r = (case r of
     Auth u s \<Rightarrow> inner_field u \<and> last_field s
   | OtaStart n v \<Rightarrow> last_field v
   | OtaData d \<Rightarrow> last_field (hexe d)
   | _ \<Rightarrow> True)"

section \<open>The parser inverts the lines\<close>

lemma join_snoc_cases:
  "ps \<noteq> [] \<Longrightarrow> (join '':'' (ps @ [y]) = join '':'' ps @ '':'' @ y)"
  by (induction "'':''" ps rule: join.induct) (simp_all add: join_Cons)

lemma trim_join:
  assumes "hd ps \<noteq> []" "graphic (hd (hd ps))" "last_field (last ps)" "ps \<noteq> []"
  shows "trim (join '':'' ps) = join '':'' ps"
proof (cases "butlast ps = []")
  case True
  then obtain x where x: "ps = [x]" using assms(4) by (metis append_butlast_last_id append_Nil)
  then show ?thesis using assms by (simp add: trim_graphic last_field_def)
next
  case False
  define qs y where "qs = tl (butlast ps)" and "y = last ps"
  have "ps = hd ps # qs @ [y]"
    using False assms(4) unfolding qs_def y_def
    by (metis append_Cons append_butlast_last_id hd_append2 list.collapse)
  then show ?thesis
    using join_graphic_ends [of "hd ps" y qs] assms by (simp add: last_field_def y_def)
qed

lemma last_field_show [simp]: "last_field (show_nat n)"
  by (simp add: last_field_def show_nat_last_graphic)

lemma last_field_flag [simp]: "last_field (flag01 b)"
  by (simp add: last_field_def flag01_def graphic_def)

lemma last_field_inner: "last_field s \<Longrightarrow> CHR '':'' \<notin> set s"
  by (simp add: last_field_def)

text \<open>The shape of the parts of a line, as one predicate that evaluates on a literal list.\<close>

fun wf_parts :: "string list \<Rightarrow> bool" where
  "wf_parts [] = False"
| "wf_parts [y] = last_field y"
| "wf_parts (x # y # ys) = (inner_field x \<and> wf_parts (y # ys))"

lemma wf_parts_shape:
  "wf_parts ps \<Longrightarrow> ps \<noteq> [] \<and> last_field (last ps) \<and> (\<forall>p\<in>set ps. CHR '':'' \<notin> set p)"
  by (induction ps rule: wf_parts.induct) (auto simp: last_field_inner inner_field_def)

lemma inner_field_lits [simp]:
  "inner_field []" "inner_field (c # s) \<longleftrightarrow> c \<noteq> CHR '':'' \<and> inner_field s"
  "inner_field (show_nat n)"
  by (auto simp: inner_field_def)

lemma last_field_lits [simp]:
  "last_field []" "last_field [c] \<longleftrightarrow> c \<noteq> CHR '':'' \<and> graphic c"
  "last_field (c # d # s) \<longleftrightarrow> c \<noteq> CHR '':'' \<and> last_field (d # s)"
  by (auto simp: last_field_def)

lemma request_parts_wf:
  "wf_request hexe r \<Longrightarrow> wf_parts (request_parts hexe r)"
  by (cases r) (auto simp: request_parts_def wf_request_def split: option.split)

lemma request_parts_head:
  "hd (request_parts hexe r) \<noteq> [] \<and> graphic (hd (hd (request_parts hexe r)))
   \<and> length (request_parts hexe r) \<le> 10"
  by (cases r) (auto simp: request_parts_def split: option.split)

lemma request_parts_shape:
  assumes "wf_request hexe r"
  shows "request_parts hexe r \<noteq> []" "length (request_parts hexe r) \<le> 10"
    "hd (request_parts hexe r) \<noteq> []" "graphic (hd (hd (request_parts hexe r)))"
    "last_field (last (request_parts hexe r))"
    "\<forall>p\<in>set (request_parts hexe r). CHR '':'' \<notin> set p"
  using request_parts_head [of hexe r] wf_parts_shape [OF request_parts_wf [OF assms]] by simp_all

lemma splitn_request_line:
  assumes "wf_request hexe r"
  shows "splitn 10 CHR '':'' (trim (request_line hexe r)) = request_parts hexe r"
  unfolding request_line_def
  by (simp add: trim_join splitn_join request_parts_shape [OF assms])

lemma join_not_Nil: "ps \<noteq> [] \<Longrightarrow> hd ps \<noteq> [] \<Longrightarrow> join sep ps \<noteq> []"
  by (cases "(sep, ps)" rule: join.cases) simp_all

lemma trim_request_line_not_Nil:
  assumes "wf_request hexe r"
  shows "trim (request_line hexe r) \<noteq> []"
  unfolding request_line_def
  by (simp add: trim_join join_not_Nil request_parts_shape [OF assms])

lemma parse_bool_flag:
  "get_at parts i = Some (flag01 b) \<Longrightarrow> parse_bool_field parts i c f = Ok b"
  by (simp add: parse_bool_field_def require_def flag01_def)

lemma parse_command_parts:
  assumes "wf_request hexe r" "\<And>d. r = OtaData d \<Longrightarrow> hexd (hexe d) = Ok d"
  shows "parse_command hexd (request_parts hexe r) = Ok r"
  using assms
  by (cases r)
    (simp_all add: parse_command_def request_parts_def parse_command_defs parse_field_defs flag01_def
      split: option.split)

lemma parse_request_of_line:
  assumes "wf_request hexe r" "\<And>d. hexd (hexe d) = Ok d"
  shows "parse_request hexd (request_line hexe r) = Ok r"
  using parse_command_parts [OF assms(1), of hexd] assms trim_request_line_not_Nil [OF assms(1)]
  by (simp add: parse_request_def splitn_request_line)

section \<open>What reaches the destructive commands\<close>

lemma parse_command_auth: "parse_auth parts \<noteq> Ok FactoryReset"
  by (simp add: parse_auth_def)

lemma parse_fp_not_reset: "parse_fp parts \<noteq> Ok FactoryReset"
  by (auto simp: parse_fp_def split: if_splits)

lemma parse_gate_not_reset: "parse_gate parts \<noteq> Ok FactoryReset"
  by (auto simp: parse_gate_def split: if_splits)

lemma parse_slot_not_reset: "parse_slot parts \<noteq> Ok FactoryReset"
  by (auto simp: parse_slot_def split: if_splits option.splits)

lemma parse_set_not_reset: "parse_set parts \<noteq> Ok FactoryReset"
  by (auto simp: parse_set_def split: if_splits)

lemma parse_get_not_reset: "parse_get parts \<noteq> Ok FactoryReset"
  by (auto simp: parse_get_def split: if_splits)

lemma parse_ota_not_reset: "parse_ota hexd parts \<noteq> Ok FactoryReset"
  by (auto simp: parse_ota_def split: if_splits)

lemma parse_pair_reset:
  "parse_pair parts = Ok FactoryReset \<longleftrightarrow> get_at parts 1 = Some ''FACTORY_RESET''"
  by (auto simp: parse_pair_def require_def split: if_splits)

lemma parse_request_factory_reset:
  "parse_request hexd line = Ok FactoryReset \<longleftrightarrow>
     trim line \<noteq> [] \<and> (let parts = splitn 10 CHR '':'' (trim line)
       in parts ! 0 = ''PAIR'' \<and> get_at parts 1 = Some ''FACTORY_RESET'')"
  by (simp add: parse_request_def parse_command_def Let_def parse_command_auth parse_fp_not_reset
      parse_gate_not_reset parse_slot_not_reset parse_set_not_reset parse_get_not_reset
      parse_ota_not_reset parse_pair_reset)

lemma parse_request_auth:
  "parse_request hexd line = Ok (Auth u s) \<longleftrightarrow>
     trim line \<noteq> [] \<and> (let parts = splitn 10 CHR '':'' (trim line)
       in parts ! 0 = ''AUTH'' \<and> get_at parts 1 = Some u \<and> get_at parts 2 = Some s)"
proof -
  have "parse_fp p \<noteq> Ok (Auth u s)" "parse_gate p \<noteq> Ok (Auth u s)" "parse_pair p \<noteq> Ok (Auth u s)"
    "parse_slot p \<noteq> Ok (Auth u s)" "parse_set p \<noteq> Ok (Auth u s)" "parse_get p \<noteq> Ok (Auth u s)"
    "parse_ota hexd p \<noteq> Ok (Auth u s)" for p
    by (auto simp: parse_command_defs split: if_splits option.splits)
  moreover have "parse_auth p = Ok (Auth u s) \<longleftrightarrow> get_at p 1 = Some u \<and> get_at p 2 = Some s" for p
    by (auto simp: parse_auth_def require_def)
  ultimately show ?thesis by (simp add: parse_request_def parse_command_def Let_def)
qed

end
