(* ===== verification/Socket_Auth.thy ===== *)
theory Socket_Auth
  imports Coordinator Socket_Proto
begin

text \<open>
  The front of the socket server (\<open>immurok-daemon/src/socket.rs\<close>): extraction of the request line
  from the first chunk, the tier of a command and its authorisation, the routing of
  \<open>handle_client\<close>, and the two handlers that grant something for a touch, \<open>handle_auth\<close> and
  \<open>handle_agent_approve\<close>. While one of these waits in its \<open>select!\<close> other tasks run: \<open>env\<close> is what
  they make of the state, with the events of the four branches in the order they become ready.
\<close>

section \<open>The request line\<close>

datatype request_error = TooLong | TrailingData

definition wire_code :: "request_error \<Rightarrow> string" where
  "wire_code e = (case e of TooLong \<Rightarrow> ''TOO_LONG'' | TrailingData \<Rightarrow> ''PROTOCOL'')"

definition blank :: "char \<Rightarrow> bool" where
  "blank c \<longleftrightarrow> c = CHR 0x00 \<or> c = CHR 0x0A \<or> c = CHR 0x0D \<or> c = CHR '' ''"

definition split_request_chunk :: "string \<Rightarrow> (string, request_error) result" where
  "split_request_chunk chunk =
     (if MAX_REQUEST_BYTES \<le> length chunk then Err TooLong
      else let raw = from_utf8_lossy chunk; strip = trim_matches blank in
        case split_once CHR 0x0A raw of
          Some (l, rest) \<Rightarrow> if strip rest \<noteq> [] then Err TrailingData else Ok (strip l)
        | None \<Rightarrow> Ok (strip raw))"

section \<open>Authorisation\<close>

datatype tier = TAuth | TPublic | TManage

definition tier_of :: "string \<Rightarrow> tier" where
  "tier_of line =
     (if starts_with ''AUTH:'' line then TAuth
      else if line \<in> {''STATUS'', ''GET:INFO'', ''GET:SETTINGS'', ''PAIR:STATUS''} then TPublic
      else TManage)"

definition polkitd_uid :: "host \<Rightarrow> 32 word option" where
  "polkitd_uid h = passwd h ''polkitd''"

definition authorize :: "host \<Rightarrow> tier \<Rightarrow> 32 word \<Rightarrow> bool" where
  "authorize h t uid =
     (if uid = 0 then True
      else case t of
        TPublic \<Rightarrow> True
      | TAuth \<Rightarrow> polkitd_uid h = Some uid
      | TManage \<Rightarrow> (case uid_is_active h uid of
          Some True \<Rightarrow> True
        | Some False \<Rightarrow> False
        | None \<Rightarrow> owner_uid h = Some uid))"

section \<open>Routing of a connection\<close>

datatype route =
    Rejected response
  | SessionAgent
  | LogStream
  | OtaSession string
  | KeyCommand string
  | AgentApprove string
  | ListKeys string
  | GetKey string
  | Dispatch request

definition route_line :: "(string \<Rightarrow> (bytes, string) result) \<Rightarrow> string \<Rightarrow> route" where
  "route_line hexd line =
     (if line = ''SUBSCRIBE:SESSION'' then SessionAgent
      else if line = ''SUBSCRIBE:LOG'' then LogStream
      else if starts_with ''OTA:'' line then OtaSession line
      else if starts_with ''KEY:'' line then KeyCommand line
      else case strip_prefix ''AGENT_APPROVE:'' line of Some cmd \<Rightarrow> AgentApprove cmd
      | None \<Rightarrow> (case strip_prefix ''LIST:'' line of Some cat \<Rightarrow> ListKeys cat
      | None \<Rightarrow>
         (let keyget = (case strip_prefix ''GET:'' line of
            Some rest \<Rightarrow> if starts_with ''ssh:'' rest \<or> starts_with ''otp:'' rest
                              \<or> starts_with ''api:'' rest then Some rest else None
          | None \<Rightarrow> None) in
          case keyget of Some rest \<Rightarrow> GetKey rest
          | None \<Rightarrow> (case parse_request hexd line of
              Ok r \<Rightarrow> Dispatch r
            | Err e \<Rightarrow> Rejected (RError (''PARSE_ERROR:'' @ parse_error_str e))))))"

definition route_request ::
    "(string \<Rightarrow> (bytes, string) result) \<Rightarrow> host \<Rightarrow> 32 word \<Rightarrow> string \<Rightarrow> route" where
  "route_request hexd h uid chunk = (case split_request_chunk chunk of
     Err e \<Rightarrow> Rejected (RError (wire_code e))
   | Ok line \<Rightarrow>
       if \<not> authorize h (tier_of line) uid then Rejected (RDeny ''NOT_AUTHORIZED'')
       else route_line hexd line)"

section \<open>Classification of the caller, for the log\<close>

fun ppid_of_lines :: "string list \<Rightarrow> 32 word option" where
  "ppid_of_lines [] = None"
| "ppid_of_lines (l # ls) = (case strip_prefix ''PPid:'' l of
     Some rest \<Rightarrow> ok (parse_u32 (trim rest))
   | None \<Rightarrow> ppid_of_lines ls)"

definition read_ppid :: "host \<Rightarrow> 32 word \<Rightarrow> 32 word option" where
  "read_ppid h pid = Option.bind (proc_status h pid) (\<lambda>s. ppid_of_lines (lines s))"

fun classify_claim_steps :: "nat \<Rightarrow> host \<Rightarrow> coordinator \<Rightarrow> 32 word \<Rightarrow> string option" where
  "classify_claim_steps 0 h c pid = None"
| "classify_claim_steps (Suc n) h c pid = (case agent_claim h pid c of
     Some cmd \<Rightarrow> Some cmd
   | None \<Rightarrow> (case read_ppid h pid of
       Some p \<Rightarrow> if p > 1 then classify_claim_steps n h c p else None
     | None \<Rightarrow> None))"

definition classify_agent_claim :: "host \<Rightarrow> coordinator \<Rightarrow> 32 word \<Rightarrow> string option" where
  "classify_agent_claim h c start = classify_claim_steps 12 h c start"

section \<open>AUTH\<close>

definition is_service_allowed :: "host \<Rightarrow> settings \<Rightarrow> string \<Rightarrow> bool" where
  "is_service_allowed h st service =
     (let s = lower h service in
      if contains_str ''gdm'' s \<or> contains_str ''login'' s then unlock_screen st
      else if s = ''polkit-1'' then unlock_polkit st
      else unlock_sudo st)"

definition is_graphical :: "host \<Rightarrow> string \<Rightarrow> bool" where
  "is_graphical h service =
     (let s = lower h service in contains_str ''gdm'' s \<or> contains_str ''login'' s \<or> s = ''polkit-1'')"

text \<open>The branches of the \<open>select!\<close>; a socket read is the end of the connection or data.\<close>

datatype auth_event =
    BleResult "(bool, string) result"
  | PendingResult "bool option"
  | UiCancelled
  | SocketClosed
  | SocketData
  | Sleep35

type_synonym auth_env = "coordinator \<Rightarrow> auth_event list \<times> coordinator"

definition auth_begin ::
    "host \<Rightarrow> nat \<Rightarrow> string \<Rightarrow> string \<Rightarrow> coordinator \<Rightarrow> (bool, response) result \<times> coordinator" where
  "auth_begin h ch user service c =
     (if (case owner_uid h of Some ownr \<Rightarrow> uid_of_user h user \<noteq> Some ownr | None \<Rightarrow> False)
      then (Err (RDeny ''NOT_OWNER''), c)
      else if \<not> is_service_allowed h (settings c) service then (Err (RDeny ''SERVICE_DISABLED''), c)
      else if consume_pre_auth h service c then (Err (ROk ''PRE_AUTH''), c)
      else if \<not> is_connected c then (Err (RDeny ''NOT_CONNECTED''), c)
      else if \<not> is_device_verified c then (Err (RDeny ''NOT_VERIFIED''), c)
      else
        let (showing, c1) =
              (if is_graphical h service then push_ui ''UI:DIALOG:AUTH'' c else (False, c));
            (claimed, c2) = try_set_pending_pam ch c1
        in if \<not> claimed
           then (Err (RError ''BUSY''), if showing then snd (push_ui ''UI:DISMISS'' c2) else c2)
           else (Ok showing, c2))"

fun auth_wait :: "bool \<Rightarrow> auth_event list \<Rightarrow> auth_event option" where
  "auth_wait showing [] = None"
| "auth_wait showing (UiCancelled # es) = (if showing then Some UiCancelled else auth_wait showing es)"
| "auth_wait showing (Sleep35 # es) = auth_wait showing es"
| "auth_wait showing (e # es) = Some e"

definition auth_result :: "auth_event \<Rightarrow> coordinator \<Rightarrow> bool \<times> coordinator" where
  "auth_result e c = (case e of
     BleResult (Ok b) \<Rightarrow> (b, c)
   | BleResult (Err m) \<Rightarrow> (False, c)
   | PendingResult r \<Rightarrow> (unwrap_or False r, c)
   | UiCancelled \<Rightarrow> (False, c\<lparr> auth_dialog_cancel := True \<rparr>)
   | SocketClosed \<Rightarrow> (False, c\<lparr> auth_dialog_cancel := True \<rparr>)
   | SocketData \<Rightarrow> (False, c\<lparr> auth_dialog_cancel := True \<rparr>)
   | Sleep35 \<Rightarrow> (False, c))"

definition dismiss_if :: "bool \<Rightarrow> coordinator \<Rightarrow> coordinator" where
  "dismiss_if showing c = (if showing then snd (push_ui ''UI:DISMISS'' c) else c)"

definition auth_finish :: "bool \<Rightarrow> auth_event \<Rightarrow> coordinator \<Rightarrow> response \<times> coordinator" where
  "auth_finish showing e c =
     (let (approved, c1) = auth_result e c; c2 = deny_pending_pam (dismiss_if showing c1)
      in (if approved then ROk ''AUTHENTICATED'' else RDeny ''FP_DENIED'', c2))"

definition handle_auth ::
    "host \<Rightarrow> nat \<Rightarrow> string \<Rightarrow> string \<Rightarrow> auth_env \<Rightarrow> coordinator \<Rightarrow> response option \<times> coordinator" where
  "handle_auth h ch user service env c = (case auth_begin h ch user service c of
     (Err r, c1) \<Rightarrow> (Some r, c1)
   | (Ok showing, c1) \<Rightarrow> (case env c1 of (es, c2) \<Rightarrow> (case auth_wait showing es of
       None \<Rightarrow> (None, c2)
     | Some e \<Rightarrow> (case auth_finish showing e c2 of (r, c3) \<Rightarrow> (Some r, c3)))))"

section \<open>AGENT_APPROVE\<close>

definition SUDO_SERVICES :: "string list" where
  "SUDO_SERVICES = [''sudo'', ''sudo_local'', ''sudo-i'']"

definition agent_begin ::
    "host \<Rightarrow> nat \<Rightarrow> 32 word option \<Rightarrow> string \<Rightarrow> coordinator \<Rightarrow> (bool, response) result \<times> coordinator" where
  "agent_begin h ch peer cmd c0 =
     (let c = (case peer of Some pid \<Rightarrow> record_agent_claim h pid cmd c0 | None \<Rightarrow> c0) in
      if cmd = [] then (Err (RError ''EMPTY_COMMAND''), c)
      else if \<not> is_connected c then (Err (RError ''NOT_CONNECTED''), c)
      else if \<not> is_device_verified c then (Err (RError ''NOT_VERIFIED''), c)
      else
        let (claimed, c1) = try_set_pending_pam ch c in
        if \<not> claimed then (Err (RError ''BUSY''), c1)
        else let (showing, c2) = push_ui (''UI:DIALOG:AGENT:30:'' @ cmd) c1 in (Ok showing, c2))"

fun agent_wait :: "bool \<Rightarrow> auth_event list \<Rightarrow> auth_event option" where
  "agent_wait showing [] = None"
| "agent_wait showing (UiCancelled # es) = (if showing then Some UiCancelled else agent_wait showing es)"
| "agent_wait showing (e # es) = Some e"

definition agent_result :: "auth_event \<Rightarrow> coordinator \<Rightarrow> bool \<times> bool \<times> coordinator" where
  "agent_result e c = (case e of
     BleResult (Ok b) \<Rightarrow> (b, False, c)
   | BleResult (Err m) \<Rightarrow> (False, False, c)
   | PendingResult r \<Rightarrow> (unwrap_or False r, False, c)
   | SocketClosed \<Rightarrow> (False, False, c\<lparr> auth_dialog_cancel := True \<rparr>)
   | SocketData \<Rightarrow> (False, True, c\<lparr> auth_dialog_cancel := True \<rparr>)
   | UiCancelled \<Rightarrow> (False, False, c\<lparr> auth_dialog_cancel := True \<rparr>)
   | Sleep35 \<Rightarrow> (False, False, c\<lparr> auth_dialog_cancel := True \<rparr>))"

definition agent_finish :: "host \<Rightarrow> bool \<Rightarrow> auth_event \<Rightarrow> coordinator \<Rightarrow> response \<times> coordinator" where
  "agent_finish h showing e c =
     (let (approved, proto, c1) = agent_result e c; c2 = deny_pending_pam (dismiss_if showing c1)
      in if proto then (RError ''PROTOCOL'', c2)
         else if approved then (ROk ''APPROVED'', set_pre_auth h (from_secs 10) SUDO_SERVICES c2)
         else (RDeny ''REJECTED'', c2))"

text \<open>The window is armed after the wait, at the time \<open>h'\<close>.\<close>

definition handle_agent_approve ::
    "host \<Rightarrow> host \<Rightarrow> nat \<Rightarrow> 32 word option \<Rightarrow> string \<Rightarrow> auth_env \<Rightarrow> coordinator \<Rightarrow>
      response option \<times> coordinator" where
  "handle_agent_approve h h' ch peer cmd env c = (case agent_begin h ch peer cmd c of
     (Err r, c1) \<Rightarrow> (Some r, c1)
   | (Ok showing, c1) \<Rightarrow> (case env c1 of (es, c2) \<Rightarrow> (case agent_wait showing es of
       None \<Rightarrow> (None, c2)
     | Some e \<Rightarrow> (case agent_finish h' showing e c2 of (r, c3) \<Rightarrow> (Some r, c3)))))"

section \<open>Facts about the request line\<close>

lemma trim_auth_line: "\<exists>r'. trim (''AUTH:'' @ r) = ''AUTH:'' @ r'"
  using trim_barrier [of "CHR '':''" "''AUTH''" r] by simp

lemma splitn_command:
  "\<exists>rest. splitn 10 CHR '':'' (cmd @ CHR '':'' # r) = cmd # rest" if "CHR '':'' \<notin> set cmd"
  using that by (simp add: splitn_step)

lemma parse_auth_line:
  "parse_request hexd (''AUTH:'' @ r) = Ok req \<Longrightarrow> \<exists>u s. req = Auth u s"
proof -
  assume p: "parse_request hexd (''AUTH:'' @ r) = Ok req"
  obtain r' where t: "trim (''AUTH:'' @ r) = ''AUTH'' @ CHR '':'' # r'"
    using trim_auth_line [of r] by auto
  obtain rest where "splitn 10 CHR '':'' (''AUTH'' @ CHR '':'' # r') = ''AUTH'' # rest"
    using splitn_command [of "''AUTH''" r'] by auto
  then show ?thesis
    using p by (auto simp: parse_request_def t [simplified] parse_command_def parse_auth_def Let_def)
qed

lemma parse_public_lines:
  "line \<in> {''STATUS'', ''GET:INFO'', ''GET:SETTINGS'', ''PAIR:STATUS''} \<Longrightarrow>
     parse_request hexd line = Ok req \<Longrightarrow> req \<in> {Status, GetInfo, GetSettings, PairStatus}"
proof -
  assume l: "line \<in> {''STATUS'', ''GET:INFO'', ''GET:SETTINGS'', ''PAIR:STATUS''}"
    and p: "parse_request hexd line = Ok req"
  have "trim line = line"
    using l by (intro trim_graphic) auto
  then show ?thesis
    using l p by (auto simp: parse_request_def parse_command_def str_simps
        parse_get_def parse_pair_def require_def)
qed

lemma route_line_auth_or_rejected:
  "starts_with ''AUTH:'' line \<Longrightarrow>
     (\<exists>r. route_line hexd line = Rejected r) \<or> (\<exists>u s. route_line hexd line = Dispatch (Auth u s))"
  using parse_auth_line [of hexd]
  by (fastforce simp: route_line_def starts_with_iff split: result.splits)

lemma route_line_public_or_rejected:
  assumes "line \<in> {''STATUS'', ''GET:INFO'', ''GET:SETTINGS'', ''PAIR:STATUS''}"
  shows "(\<exists>r. route_line hexd line = Rejected r) \<or>
    (\<exists>req \<in> {Status, GetInfo, GetSettings, PairStatus}. route_line hexd line = Dispatch req)"
proof (cases "parse_request hexd line")
  case (Ok req)
  have "route_line hexd line = Dispatch req"
    using assms Ok by (elim insertE emptyE; simp add: route_line_def starts_with_def)
  then show ?thesis using parse_public_lines [OF assms Ok] by blast
next
  case (Err e)
  then show ?thesis
    using assms by (elim insertE emptyE; simp add: route_line_def starts_with_def)
qed

definition may_manage :: "host \<Rightarrow> 32 word \<Rightarrow> bool" where
  "may_manage h uid \<longleftrightarrow>
     uid = 0 \<or> uid_is_active h uid = Some True \<or> (uid_is_active h uid = None \<and> owner_uid h = Some uid)"

lemma authorize_manage: "authorize h TManage uid \<longleftrightarrow> may_manage h uid"
  by (auto simp: authorize_def may_manage_def split: option.splits bool.splits)

lemma authorize_auth: "authorize h TAuth uid \<longleftrightarrow> uid = 0 \<or> polkitd_uid h = Some uid"
  by (simp add: authorize_def)

definition public_route :: "route \<Rightarrow> bool" where
  "public_route r \<longleftrightarrow>
     r \<in> {Dispatch Status, Dispatch GetInfo, Dispatch GetSettings, Dispatch PairStatus}"

section \<open>Properties\<close>

text \<open>
  C5: only the machine's own user reaches the device or the stored secrets. A connection that gets
  past the front of the server to anything but the four status requests or AUTH belongs to root, to
  a user with an active session, or, when logind cannot answer, to the recorded owner.
\<close>

theorem manage_routes_authorised:
  assumes "route_request hexd h uid chunk = r"
    and "\<not> (\<exists>resp. r = Rejected resp)" "\<not> public_route r" "\<not> (\<exists>u s. r = Dispatch (Auth u s))"
  shows "may_manage h uid"
proof -
  obtain line where l: "split_request_chunk chunk = Ok line"
    and a: "authorize h (tier_of line) uid" and r: "r = route_line hexd line"
    using assms(1,2) by (auto simp: route_request_def split: result.splits if_splits)
  have "tier_of line = TManage"
  proof (cases "tier_of line")
    case TAuth
    then show ?thesis
      using route_line_auth_or_rejected [of line hexd] assms r
      by (auto simp: tier_of_def split: if_splits)
  next
    case TPublic
    then have "line \<in> {''STATUS'', ''GET:INFO'', ''GET:SETTINGS'', ''PAIR:STATUS''}"
      by (auto simp: tier_of_def split: if_splits)
    from route_line_public_or_rejected [OF this, of hexd] show ?thesis
      using assms r by (auto simp: public_route_def)
  qed
  then show ?thesis using a by (simp add: authorize_manage)
qed

lemma split_plain_line:
  assumes "ascii line" "line \<noteq> []" "\<not> blank (hd line)" "\<not> blank (last line)"
    "CHR 0x0A \<notin> set line" "length line < MAX_REQUEST_BYTES"
  shows "split_request_chunk line = Ok line"
proof -
  have "split_once CHR 0x0A line = None" using assms(5) by (simp add: split_once_None)
  then show ?thesis
    using assms by (simp add: split_request_chunk_def from_utf8_lossy_ascii trim_matches_id)
qed

lemma split_plain_line_nl:
  assumes "ascii line" "line \<noteq> []" "\<not> blank (hd line)" "\<not> blank (last line)"
    "CHR 0x0A \<notin> set line" "Suc (length line) < MAX_REQUEST_BYTES"
  shows "split_request_chunk (line @ [CHR 0x0A]) = Ok line"
proof -
  have "ascii (line @ [CHR 0x0A])" using assms(1) by simp
  then show ?thesis
    using assms by (simp add: split_request_chunk_def from_utf8_lossy_ascii trim_matches_id)
qed

lemma sample_host_active [simp]: "uid_is_active sample_host 1000 = Some True"
  using sample_host_trims(3)
  by (simp add: uid_is_active_def parse_user_state_def sample_host_def)

lemma sample_max [simp]: "MAX_REQUEST_BYTES = 65536"
  by (simp add: MAX_REQUEST_BYTES_def)

lemma route_factory_reset_sample:
  "route_request hexd sample_host 1000 (''PAIR:FACTORY_RESET'' @ [CHR 0x0A]) = Dispatch FactoryReset"
proof -
  have "trim ''PAIR:FACTORY_RESET'' = ''PAIR:FACTORY_RESET''" by (rule trim_graphic) simp_all
  then have "parse_request hexd ''PAIR:FACTORY_RESET'' = Ok FactoryReset"
    by (simp add: parse_request_def parse_command_def parse_pair_def require_def str_simps)
  moreover have "split_request_chunk (''PAIR:FACTORY_RESET'' @ [CHR 0x0A]) = Ok ''PAIR:FACTORY_RESET''"
    by (rule split_plain_line_nl) (simp_all add: blank_def)
  ultimately show ?thesis
    by (simp add: route_request_def tier_of_def authorize_def route_line_def starts_with_def)
qed

theorem manage_routes_authorised_witness:
  "may_manage sample_host 1000"
  using manage_routes_authorised [OF route_factory_reset_sample] by (simp add: public_route_def)

text \<open>
  Fact: an AUTH request whose line does not begin with white space is served to root and polkitd
  only. The proviso is needed: see \<open>auth_tier_bypass\<close>.
\<close>

theorem auth_needs_root_or_polkitd:
  assumes "split_request_chunk chunk = Ok line" "trim_start line = line"
    and "route_request hexd h uid chunk = Dispatch (Auth u s)"
  shows "uid = 0 \<or> polkitd_uid h = Some uid"
proof -
  have a: "authorize h (tier_of line) uid" and d: "route_line hexd line = Dispatch (Auth u s)"
    using assms by (auto simp: route_request_def split: if_splits)
  then have "parse_request hexd line = Ok (Auth u s)"
    by (auto simp: route_line_def Let_def split: if_splits option.splits result.splits)
  then have n: "trim line \<noteq> []"
    and p: "splitn 10 CHR '':'' (trim line) ! 0 = ''AUTH''" "get_at (splitn 10 CHR '':'' (trim line)) 1 = Some u"
    by (simp_all add: parse_request_auth Let_def)
  then obtain b where "trim line = ''AUTH'' @ CHR '':'' # b"
    by (auto simp: splitn_step split_once_Some split: option.splits prod.splits)
  moreover obtain t where "line = trim line @ t"
    using trim_end_prefix [of line] assms(2) by (auto simp: trim_def)
  ultimately have "line = ''AUTH:'' @ (b @ t)" by simp
  then have "tier_of line = TAuth" by (simp add: tier_of_def)
  then show ?thesis using a by (simp add: authorize_auth)
qed

lemma parse_auth_alice: "parse_request hexd ''AUTH:alice:sudo'' = Ok (Auth ''alice'' ''sudo'')"
proof -
  have "trim ''AUTH:alice:sudo'' = ''AUTH:alice:sudo''" by (rule trim_graphic) simp_all
  then show ?thesis
    by (simp add: parse_request_def parse_command_def parse_auth_def require_def str_simps)
qed

theorem auth_needs_root_or_polkitd_witness:
  "polkitd_uid sample_host = Some 990"
proof -
  have s: "split_request_chunk ''AUTH:alice:sudo'' = Ok ''AUTH:alice:sudo''"
    by (rule split_plain_line) (simp_all add: blank_def)
  have "route_request (\<lambda>_. Err []) sample_host 990 ''AUTH:alice:sudo'' = Dispatch (Auth ''alice'' ''sudo'')"
    by (simp add: route_request_def s tier_of_def authorize_def polkitd_uid_def route_line_def
        starts_with_def parse_auth_alice)
  from auth_needs_root_or_polkitd [OF s _ this] show ?thesis
    by (simp add: trim_start_graphic)
qed

lemma trim_ws_append: "w \<in> set ws_seqs \<Longrightarrow> trim (w @ s) = trim s"
proof -
  assume w: "w \<in> set ws_seqs"
  then have "strip_any ws_seqs (w @ s) = Some s" by (auto simp: ws_seqs_def)
  moreover have "w \<noteq> []" using w by (auto simp: ws_seqs_def)
  ultimately have "trim_front ws_seqs (w @ s) = trim_front ws_seqs s" by (subst trim_front.simps) simp
  then show ?thesis by (simp add: trim_def trim_start_def)
qed

text \<open>
  C8: the tier is read off the untrimmed line while the parser trims it. A line that begins with white
  space is judged as a management command and still parsed: whenever the rest of it is an AUTH request,
  a user with an active session who is neither root nor polkitd, and whom the tier of AUTH refuses,
  reaches \<open>handle_auth\<close> with it.
\<close>

theorem auth_tier_bypass:
  assumes "split_request_chunk chunk = Ok (w @ line)" "w \<in> set ws_seqs" "parse_request hexd line = Ok (Auth user service)"
    and "uid_is_active h uid = Some True" "uid \<noteq> 0" "polkitd_uid h \<noteq> Some uid"
  shows "route_request hexd h uid chunk = Dispatch (Auth user service) \<and> \<not> authorize h TAuth uid"
proof -
  have parsed: "parse_request hexd (w @ line) = Ok (Auth user service)"
    using assms(2,3) by (simp add: parse_request_def trim_ws_append)
  obtain b t where w: "w @ line = b # t" "\<not> graphic b"
    using ws_seqs_not_graphic assms(2) by (cases w) auto
  have other: "b \<noteq> CHR ''A''" "b \<noteq> CHR ''S''" "b \<noteq> CHR ''G''" "b \<noteq> CHR ''P''" "b \<noteq> CHR ''O''" "b \<noteq> CHR ''K''" "b \<noteq> CHR ''L''"
    using w(2) by auto
  then have "tier_of (w @ line) = TManage" by (simp add: tier_of_def starts_with_def w(1))
  moreover have "route_line hexd (w @ line) = Dispatch (Auth user service)"
    using other parsed by (simp add: route_line_def starts_with_def w(1))
  ultimately show ?thesis using assms by (simp add: route_request_def authorize_def)
qed

theorem auth_tier_bypass_witness:
  "route_request (\<lambda>_. Err []) sample_host 1000 (CHR 0x09 # ''AUTH:alice:sudo'') = Dispatch (Auth ''alice'' ''sudo'')"
proof -
  have "split_request_chunk (CHR 0x09 # ''AUTH:alice:sudo'') = Ok ([CHR 0x09] @ ''AUTH:alice:sudo'')"
    by (subst split_plain_line) (simp_all add: blank_def)
  moreover have "[CHR 0x09] \<in> set ws_seqs" by (simp add: ws_seqs_def)
  ultimately show ?thesis
    using auth_tier_bypass [OF _ _ parse_auth_alice, of "CHR 0x09 # ''AUTH:alice:sudo''" "[CHR 0x09]" sample_host 1000]
    by (simp add: polkitd_uid_def)
qed

section \<open>AUTH and AGENT_APPROVE\<close>

lemma push_ui_simps [simp]:
  "pending_pam (snd (push_ui l c)) = pending_pam c" "pre_auth (snd (push_ui l c)) = pre_auth c"
  "settings (snd (push_ui l c)) = settings c" "is_connected (snd (push_ui l c)) = is_connected c"
  by (simp_all add: push_ui_def split: option.split)

lemma dismiss_if_simps [simp]:
  "pending_pam (dismiss_if b c) = pending_pam c" "pre_auth (dismiss_if b c) = pre_auth c"
  by (simp_all add: dismiss_if_def)

lemma deny_pending_simps [simp]:
  "pre_auth (deny_pending_pam c) = pre_auth c"
  by (simp add: deny_pending_pam_def split: option.split)

lemma auth_wait_event:
  "auth_wait showing es = Some e \<Longrightarrow> e \<in> set es \<and> e \<noteq> Sleep35 \<and> (e = UiCancelled \<longrightarrow> showing)"
  by (induction showing es rule: auth_wait.induct) (auto split: if_splits)

lemma auth_result_true:
  "fst (auth_result e c) \<longleftrightarrow> e = BleResult (Ok True) \<or> e = PendingResult (Some True)"
  by (cases e rule: auth_event.exhaust)
    (auto simp: auth_result_def split: result.splits, (metis option.exhaust unwrap_or.simps)+)

lemma auth_finish_ok:
  "fst (auth_finish showing e c) = ROk m \<longleftrightarrow>
     m = ''AUTHENTICATED'' \<and> (e = BleResult (Ok True) \<or> e = PendingResult (Some True))"
  using auth_result_true [of e c]
  by (cases "auth_result e c") (auto simp: auth_finish_def)

definition owner_check :: "host \<Rightarrow> string \<Rightarrow> bool" where
  "owner_check h user \<longleftrightarrow> (\<forall>ownr. owner_uid h = Some ownr \<longrightarrow> uid_of_user h user = Some ownr)"

lemma auth_begin_reply:
  "auth_begin h ch user service c = (Err (ROk m), c') \<longleftrightarrow>
     m = ''PRE_AUTH'' \<and> c' = c \<and> owner_check h user \<and> is_service_allowed h (settings c) service \<and>
     consume_pre_auth h service c"
  by (auto simp: auth_begin_def owner_check_def Let_def split: option.splits if_splits prod.splits)

lemma auth_begin_parks:
  assumes "auth_begin h ch user service c = (Ok showing, c')"
  shows "owner_check h user" "is_service_allowed h (settings c) service"
    "\<not> consume_pre_auth h service c" "is_connected c" "is_device_verified c"
    "pending_pam c = None" "pending_pam c' = Some ch"
  using assms
  by (auto simp: auth_begin_def owner_check_def Let_def push_ui_def try_set_pending_pam_def
      split: option.splits if_splits prod.splits)

lemma auth_begin_refuses:
  assumes "auth_begin h ch user service c = (Err r, c')"
  shows "pending_pam c' = pending_pam c" "pre_auth c' = pre_auth c"
  using assms
  by (auto simp: auth_begin_def Let_def push_ui_def try_set_pending_pam_def
      split: option.splits if_splits prod.splits)

text \<open>
  C6: \<open>handle_auth\<close> answers OK only for the owner, for a service the settings allow, and either
  inside an open pre-auth window for that service or after a wait on a connected and verified
  device that ended with a positive answer of the device or of its own pending channel.
\<close>

theorem handle_auth_grants:
  assumes "handle_auth h ch user service env c = (Some (ROk m), c')"
  shows "owner_check h user \<and> is_service_allowed h (settings c) service \<and>
    (m = ''PRE_AUTH'' \<and> c' = c \<and> consume_pre_auth h service c \<or>
     m = ''AUTHENTICATED'' \<and> is_connected c \<and> is_device_verified c \<and> pending_pam c = None \<and>
     (\<exists>c1 es c2 e. pending_pam c1 = Some ch \<and> env c1 = (es, c2) \<and> e \<in> set es \<and>
        (e = BleResult (Ok True) \<or> e = PendingResult (Some True)) \<and> pending_pam c' = None))"
proof (cases "auth_begin h ch user service c")
  case (Pair b c1)
  show ?thesis
  proof (cases b)
    case (Err r)
    then have "auth_begin h ch user service c = (Err (ROk m), c')"
      using assms Pair by (simp add: handle_auth_def)
    then show ?thesis by (simp add: auth_begin_reply)
  next
    case (Ok showing)
    obtain es c2 where e: "env c1 = (es, c2)" by (cases "env c1")
    then obtain ev where w: "auth_wait showing es = Some ev"
      and f: "auth_finish showing ev c2 = (ROk m, c')"
      using assms Pair Ok by (auto simp: handle_auth_def split: option.splits prod.splits)
    have m: "m = ''AUTHENTICATED'' \<and> (ev = BleResult (Ok True) \<or> ev = PendingResult (Some True))"
      using f auth_finish_ok [of showing ev c2 m] by simp
    have "pending_pam c' = None"
      using f by (auto simp: auth_finish_def split: prod.splits)
    then show ?thesis
      using auth_begin_parks [OF Pair [unfolded Ok]] m auth_wait_event [OF w] e by metis
  qed
qed

definition ready_coordinator :: coordinator where
  "ready_coordinator = coordinator_new\<lparr> is_connected := True, is_device_verified := True \<rparr>"

lemma sample_host_owner_check [simp]: "owner_check sample_host ''alice''"
  by (simp add: owner_check_def uid_of_user_def)

lemma auth_begin_sample:
  "auth_begin sample_host 7 ''alice'' ''sudo'' ready_coordinator =
     (Ok False, ready_coordinator\<lparr> pending_pam := Some 7 \<rparr>)"
  by (simp add: auth_begin_def uid_of_user_def is_service_allowed_def is_graphical_def
      consume_pre_auth_def ready_coordinator_def coordinator_new_def default_settings_def
      try_set_pending_pam_def)

theorem handle_auth_grants_witness:
  "is_service_allowed sample_host (settings ready_coordinator) ''sudo''"
proof -
  let ?env = "\<lambda>c. ([BleResult (Ok True)], c) :: auth_event list \<times> coordinator"
  have "handle_auth sample_host 7 ''alice'' ''sudo'' ?env ready_coordinator =
      (Some (ROk ''AUTHENTICATED''), snd (auth_finish False (BleResult (Ok True))
         (ready_coordinator\<lparr> pending_pam := Some 7 \<rparr>)))"
    by (simp add: handle_auth_def auth_begin_sample auth_finish_def auth_result_def)
  from handle_auth_grants [OF this] show ?thesis by simp
qed

text \<open>
  Fact: the pending slot is exclusive and is given back. A request that waits took the slot while it
  was free, a request that is refused leaves it as it was, and whichever branch ends the wait, the
  slot is empty afterwards.
\<close>

theorem auth_slot_discipline:
  "case auth_begin h ch user service c of
     (Err r, c1) \<Rightarrow> pending_pam c1 = pending_pam c
   | (Ok showing, c1) \<Rightarrow> pending_pam c = None \<and> pending_pam c1 = Some ch \<and>
       pending_pam (snd (auth_finish showing e c2)) = None"
proof (cases "auth_begin h ch user service c")
  case (Pair b c1)
  show ?thesis
  proof (cases b)
    case (Ok showing)
    then show ?thesis
      using auth_begin_parks [OF Pair [unfolded Ok]]
      by (simp add: Pair auth_finish_def split: prod.split)
  next
    case (Err r)
    then show ?thesis using auth_begin_refuses [OF Pair [unfolded Err]] by (simp add: Pair)
  qed
qed

lemma agent_wait_event:
  "agent_wait showing es = Some e \<Longrightarrow> e \<in> set es"
  by (induction showing es rule: agent_wait.induct) (auto split: if_splits)

lemma agent_result_simps [simp]:
  "pre_auth (snd (snd (agent_result e c))) = pre_auth c"
  by (simp add: agent_result_def split: auth_event.split result.split)

lemma agent_result_true:
  "fst (agent_result e c) \<longleftrightarrow> e = BleResult (Ok True) \<or> e = PendingResult (Some True)"
  by (cases e rule: auth_event.exhaust)
    (auto simp: agent_result_def split: result.splits, (metis option.exhaust unwrap_or.simps)+)

lemma agent_result_proto: "fst (snd (agent_result e c)) \<longleftrightarrow> e = SocketData"
  by (simp add: agent_result_def split: auth_event.split result.split)

lemma agent_begin_pre_auth: "pre_auth (snd (agent_begin h ch peer cmd c)) = pre_auth c"
  by (auto simp: agent_begin_def record_agent_claim_def try_set_pending_pam_def push_ui_def Let_def
      split: option.split prod.split)

text \<open>
  C7: an agent approval arms the ten second window for the sudo services exactly when the touch was
  approved; on every other end of the wait the pre-auth window is the one the wait left behind.
\<close>

theorem agent_approve_arms_only_on_approval:
  "agent_finish h showing e c = (r, c') \<Longrightarrow>
     (if e = BleResult (Ok True) \<or> e = PendingResult (Some True)
      then r = ROk ''APPROVED'' \<and>
        pre_auth c' = Some \<lparr> deadline = now h + from_secs 10, services = map (lower h) SUDO_SERVICES \<rparr>
      else (r = RDeny ''REJECTED'' \<or> r = RError ''PROTOCOL'') \<and> pre_auth c' = pre_auth c)"
  using agent_result_true [of e c] agent_result_proto [of e c] agent_result_simps [of e c]
  by (cases "agent_result e c") (auto simp: agent_finish_def set_pre_auth_def Let_def split: if_splits)

theorem agent_approve_arms_only_on_approval_witness:
  "pre_auth (snd (agent_finish sample_host False SocketData ready_coordinator)) = None"
  using agent_approve_arms_only_on_approval [of sample_host False SocketData ready_coordinator,
      OF prod.collapse [symmetric]]
  by (simp add: ready_coordinator_def coordinator_new_def)

end
