(* ===== verification/Security.thy ===== *)
theory Security
  imports Types_Common
begin

text \<open>
  The security module (\<open>immurok-common/src/security.rs\<close>): the key derivation, the HMACs of the
  protocol and the pairing file. The algorithms of the crates \<open>hmac\<close>, \<open>sha2\<close>, \<open>hkdf\<close> and \<open>p256\<close> are
  the fields of the record \<open>crypto\<close>, the JSON encoding of \<open>serde_json\<close> a pair of functions; the
  calls into the file system may fail at every step.
\<close>

record crypto =
  hmac :: "bytes \<Rightarrow> bytes \<Rightarrow> bytes"
  hkdf :: "bytes \<Rightarrow> bytes \<Rightarrow> bytes \<Rightarrow> bytes option"
  public_key :: "bytes \<Rightarrow> bytes"
  diffie_hellman :: "bytes \<Rightarrow> bytes \<Rightarrow> (bytes, string) result"

text \<open>Documented lengths: an HMAC-SHA256 has 32 bytes, a compressed P-256 point has 33.\<close>

definition crypto_law :: "crypto \<Rightarrow> bool" where
  "crypto_law cr \<longleftrightarrow> (\<forall>k d. length (hmac cr k d) = 32) \<and> (\<forall>s. length (public_key cr s) = 33)"

datatype security_error =
    InvalidPeerKey string
  | HkdfError
  | IoError
  | JsonError

definition generate_p256_keypair :: "crypto \<Rightarrow> bytes \<Rightarrow> bytes \<times> bytes" where
  "generate_p256_keypair cr rnd = (rnd, public_key cr rnd)"

definition ecdh_shared_secret :: "crypto \<Rightarrow> bytes \<Rightarrow> bytes \<Rightarrow> (bytes, security_error) result" where
  "ecdh_shared_secret cr secret peer = map_err InvalidPeerKey (diffie_hellman cr secret peer)"

definition derive_shared_key :: "crypto \<Rightarrow> bytes \<Rightarrow> (bytes, security_error) result" where
  "derive_shared_key cr secret =
     ok_or HkdfError (hkdf cr (as_bytes HKDF_SALT) secret (as_bytes HKDF_INFO))"

definition hmac_truncated :: "crypto \<Rightarrow> bytes \<Rightarrow> bytes \<Rightarrow> bytes" where
  "hmac_truncated cr key d = take HMAC_TRUNCATED_LEN (hmac cr key d)"

definition compute_fp_match_hmac :: "crypto \<Rightarrow> bytes \<Rightarrow> 16 word \<Rightarrow> bytes" where
  "compute_fp_match_hmac cr key pid = hmac_truncated cr key (0x21 # le16 pid)"

definition verify_fp_match_signed :: "crypto \<Rightarrow> bytes \<Rightarrow> 16 word \<Rightarrow> bytes \<Rightarrow> bool" where
  "verify_fp_match_signed cr key pid received \<longleftrightarrow> hmac_truncated cr key (0x21 # le16 pid) = received"

definition compute_challenge_response :: "crypto \<Rightarrow> bytes \<Rightarrow> bytes \<Rightarrow> bytes" where
  "compute_challenge_response cr key nonce = hmac_truncated cr key nonce"

definition verify_challenge_response :: "crypto \<Rightarrow> bytes \<Rightarrow> bytes \<Rightarrow> bytes \<Rightarrow> bool" where
  "verify_challenge_response cr key nonce received \<longleftrightarrow>
     compute_challenge_response cr key nonce = received"

definition compute_reset_hmac :: "crypto \<Rightarrow> bytes \<Rightarrow> bytes" where
  "compute_reset_hmac cr key = hmac cr key (as_bytes ''factory-reset'')"

lemma hmac_truncated_length: "crypto_law cr \<Longrightarrow> length (hmac_truncated cr k d) = 8"
  by (simp add: crypto_law_def hmac_truncated_def)

lemma verify_own_hmac [simp]:
  "verify_fp_match_signed cr k p (compute_fp_match_hmac cr k p)"
  "verify_challenge_response cr k n (compute_challenge_response cr k n)"
  by (simp_all add: verify_fp_match_signed_def compute_fp_match_hmac_def verify_challenge_response_def)

section \<open>The pairing file\<close>

text \<open>
  A file is its contents and its permission bits. \<open>pf_main\<close> is \<open>pairing.json\<close>, \<open>pf_tmp\<close> the
  temporary file beside it. \<open>fails n\<close> says that the n-th system call of the operation fails, and
  \<open>part\<close> is how much of the text a failing write still wrote.
\<close>

type_synonym stored_file = "string \<times> nat"

record pairing_fs =
  pf_main :: "stored_file option"
  pf_tmp :: "stored_file option"

definition save_pairing ::
    "(nat \<Rightarrow> bool) \<Rightarrow> nat \<Rightarrow> (pairing_data \<Rightarrow> string) \<Rightarrow> pairing_data \<Rightarrow> pairing_fs \<Rightarrow>
      (unit, security_error) result \<times> pairing_fs" where
  "save_pairing fails part enc d fs =
     (let json = enc d; mode = (case pf_tmp fs of Some (_, m) \<Rightarrow> m | None \<Rightarrow> 384) in
      if fails 0 \<or> fails 1 then (Err IoError, fs)
      else if fails 2 then (Err IoError, fs\<lparr> pf_tmp := Some (take part json, mode) \<rparr>)
      else if fails 3 \<or> fails 4 then (Err IoError, fs\<lparr> pf_tmp := Some (json, mode) \<rparr>)
      else let fs' = fs\<lparr> pf_main := Some (json, mode), pf_tmp := None \<rparr> in
        if fails 5 then (Err IoError, fs')
        else (Ok (), fs'\<lparr> pf_main := Some (json, 384) \<rparr>))"

definition load_pairing ::
    "(string \<Rightarrow> pairing_data option) \<Rightarrow> pairing_fs \<Rightarrow> pairing_data option" where
  "load_pairing dec fs = (case pf_main fs of None \<Rightarrow> None | Some (s, _) \<Rightarrow> dec s)"

definition clear_pairing :: "pairing_fs \<Rightarrow> bool \<times> pairing_fs" where
  "clear_pairing fs = (case pf_main fs of
     Some _ \<Rightarrow> (True, fs\<lparr> pf_main := None \<rparr>) | None \<Rightarrow> (False, fs))"

text \<open>
  Fact: saving the pairing is atomic. Whatever system call fails, the pairing file afterwards holds
  either the old record or the complete new one; on success the new one, readable by the owner
  only, and loading it gives the record back.
\<close>

theorem save_pairing_atomic:
  assumes "dec (enc d) = Some d" "save_pairing fails part enc d fs = (r, fs')"
  shows "(load_pairing dec fs' = load_pairing dec fs \<or> load_pairing dec fs' = Some d) \<and>
    (is_ok r \<longrightarrow> load_pairing dec fs' = Some d \<and> map_option snd (pf_main fs') = Some 384)"
  using assms(2)
  by (auto simp: save_pairing_def load_pairing_def Let_def assms(1) split: if_splits)

definition sample_pairing :: pairing_data where
  "sample_pairing = \<lparr> device_uuid = ''02ab'', shared_key = replicate 32 7, paired_at = ''17Z'' \<rparr>"

theorem save_pairing_atomic_witness:
  "load_pairing (\<lambda>_. Some sample_pairing)
     (snd (save_pairing (\<lambda>n. False) 0 (\<lambda>_. ''{}'') sample_pairing \<lparr> pf_main = None, pf_tmp = None \<rparr>))
   = Some sample_pairing"
  using save_pairing_atomic [of "\<lambda>_. Some sample_pairing" "\<lambda>_. ''{}''" sample_pairing "\<lambda>n. False" 0
      "\<lparr> pf_main = None, pf_tmp = None \<rparr>", OF refl prod.collapse [symmetric]]
  by (simp add: save_pairing_def)

lemma clear_then_load: "load_pairing dec (snd (clear_pairing fs)) = None"
  by (cases "pf_main fs") (simp_all add: clear_pairing_def load_pairing_def)

end
