(* ===== verification/Ble_Router.thy ===== *)
theory Ble_Router
  imports Coordinator Dual_Host Security
begin

text \<open>
  The per-connection state of the BLE worker and the routing of notifications
  (\<open>immurok-daemon/src/ble.rs\<close>). A oneshot channel is a cell: \<open>Unset\<close> when the state holds no
  sender, \<open>Armed\<close> while it does, \<open>Delivered\<close> once a value was sent, \<open>Lost\<close> when the sender was
  dropped. The helper subprocess is the list of the commands written to it and the list of the
  answers it will give; \<open>clock\<close> is the time of the connection's task.
\<close>

datatype 'a cell = Unset | Armed | Delivered 'a | Lost

definition send_cell :: "'a \<Rightarrow> 'a cell \<Rightarrow> 'a cell" where
  "send_cell v c = (case c of Armed \<Rightarrow> Delivered v | _ \<Rightarrow> c)"

definition drop_cell :: "'a cell \<Rightarrow> 'a cell" where
  "drop_cell c = (case c of Armed \<Rightarrow> Lost | _ \<Rightarrow> c)"

datatype helper_reply = HLine string | HClosed | HTimeout | StdinFailed string

datatype helper_cmd = CmdWrite bytes | OtaWrite bytes | OtaRead | Quit

record worker =
  pending_response :: "bytes cell"
  gate_pending :: bool
  gate_tx :: "(bool \<times> byte option) cell"
  auth_pending :: bool
  auth_tx :: "bool cell"
  auth_failures :: byte
  pair_fp_gate :: bool
  pair_button_pending :: bool
  pair_button_tx :: "byte cell"
  pair_button_fp_ok :: bool
  helper_log :: "helper_cmd list"
  helper_replies :: "helper_reply list"
  clock :: instant
  coord :: coordinator

definition worker_new :: "helper_reply list \<Rightarrow> coordinator \<Rightarrow> worker" where
  "worker_new replies c =
     \<lparr> pending_response = Unset, gate_pending = False, gate_tx = Unset, auth_pending = False,
       auth_tx = Unset, auth_failures = 0, pair_fp_gate = False, pair_button_pending = False,
       pair_button_tx = Unset, pair_button_fp_ok = False, helper_log = [],
       helper_replies = replies, clock = 0, coord = c \<rparr>"

definition upd_coord :: "(coordinator \<Rightarrow> coordinator) \<Rightarrow> worker \<Rightarrow> worker" where
  "upd_coord f w = w\<lparr> coord := f (coord w) \<rparr>"

section \<open>The helper\<close>

text \<open>One answer of the helper; when the list is exhausted the five second timeout fires.\<close>

definition next_reply :: "worker \<Rightarrow> helper_reply \<times> worker" where
  "next_reply w = (case helper_replies w of
     [] \<Rightarrow> (HTimeout, w) | r # rs \<Rightarrow> (r, w\<lparr> helper_replies := rs \<rparr>))"

definition wait_write_ok :: "helper_reply \<Rightarrow> (unit, string) result" where
  "wait_write_ok r = (case r of
     HLine line \<Rightarrow>
       if line = ''WRITE_OK'' then Ok ()
       else (case strip_prefix ''WRITE_ERR:'' line of
          Some err \<Rightarrow> Err (''write failed: '' @ err)
        | None \<Rightarrow> Err (''unexpected response: '' @ line))
   | HClosed \<Rightarrow> Err ''helper response channel closed''
   | HTimeout \<Rightarrow> Err ''write response timeout''
   | StdinFailed e \<Rightarrow> Err (''helper stdin write failed: '' @ e))"

definition wait_read_response ::
    "(string \<Rightarrow> (bytes, string) result) \<Rightarrow> helper_reply \<Rightarrow> (bytes, string) result" where
  "wait_read_response hexd r = (case r of
     HLine line \<Rightarrow>
       (case strip_prefix ''READ_OK:'' line of
          Some hex \<Rightarrow> map_err (\<lambda>e. ''hex decode error: '' @ e) (hexd hex)
        | None \<Rightarrow> (case strip_prefix ''READ_ERR:'' line of
            Some err \<Rightarrow> Err (''read failed: '' @ err)
          | None \<Rightarrow> Err (''unexpected response: '' @ line)))
   | HClosed \<Rightarrow> Err ''helper response channel closed''
   | HTimeout \<Rightarrow> Err ''read response timeout''
   | StdinFailed e \<Rightarrow> Err (''helper stdin write failed: '' @ e))"

definition helper_io :: "helper_cmd \<Rightarrow> worker \<Rightarrow> helper_reply \<times> worker" where
  "helper_io c w = next_reply (w\<lparr> helper_log := helper_log w @ [c] \<rparr>)"

definition cmd_write :: "bytes \<Rightarrow> worker \<Rightarrow> (unit, string) result \<times> worker" where
  "cmd_write d w = (case helper_io (CmdWrite d) w of (r, w') \<Rightarrow> (wait_write_ok r, w'))"

definition ota_write :: "bytes \<Rightarrow> worker \<Rightarrow> (unit, string) result \<times> worker" where
  "ota_write d w = (case helper_io (OtaWrite d) w of (r, w') \<Rightarrow> (wait_write_ok r, w'))"

definition ota_read ::
    "(string \<Rightarrow> (bytes, string) result) \<Rightarrow> worker \<Rightarrow> (bytes, string) result \<times> worker" where
  "ota_read hexd w = (case helper_io OtaRead w of (r, w') \<Rightarrow> (wait_read_response hexd r, w'))"

definition helper_quit :: "worker \<Rightarrow> worker" where
  "helper_quit w = w\<lparr> helper_log := helper_log w @ [Quit] \<rparr>"

text \<open>One line of the helper's output, as the reader task routes it.\<close>

datatype helper_route = ToNotify bytes | Disconnected | ToResponse string | Ignored

definition route_helper_line :: "(string \<Rightarrow> (bytes, string) result) \<Rightarrow> string \<Rightarrow> helper_route" where
  "route_helper_line hexd line =
     (let t = trim line in
      if t = [] then Ignored
      else case strip_prefix ''NOTIFY:'' t of
        Some hex \<Rightarrow> (case hexd hex of
            Ok d \<Rightarrow> if d \<noteq> [] then ToNotify d else Ignored
          | Err _ \<Rightarrow> Ignored)
      | None \<Rightarrow> if t = ''DISCONNECT'' then Disconnected else ToResponse t)"

section \<open>Fingerprint matches\<close>

definition send_ack :: "worker \<Rightarrow> worker" where
  "send_ack w = snd (cmd_write [CMD_FP_MATCH_ACK, 0x00] w)"

definition handle_fp_match_signed :: "crypto \<Rightarrow> host \<Rightarrow> bytes \<Rightarrow> worker \<Rightarrow> worker" where
  "handle_fp_match_signed cr h d w =
     (let pid = from_le16 (d ! 1) (d ! 2); mac = slice 3 11 d in
      if pair_fp_gate w then send_ack w
      else case pairing (coord w) of
        None \<Rightarrow> w
      | Some p \<Rightarrow>
          if \<not> verify_fp_match_signed cr (shared_key p) pid mac then w
          else let w' = send_ack w in
            if \<not> gate_pending w' \<and> \<not> auth_pending w' then upd_coord (on_fp_match h pid) w' else w')"

section \<open>Routing\<close>

definition on_enroll_progress :: "byte \<Rightarrow> byte \<Rightarrow> byte \<Rightarrow> coordinator \<Rightarrow> coordinator" where
  "on_enroll_progress status current tot c =
     (let ev = enroll_from_notification status current tot;
          c1 = (if ev = EComplete then c\<lparr> fp_bitmap_stale := True \<rparr> else c)
      in emit (EnrollSent ev) (c1\<lparr> last_enroll_event := Some (status, current, tot) \<rparr>))"

definition on_pair_button :: "bytes \<Rightarrow> worker \<Rightarrow> worker" where
  "on_pair_button d w =
     (if length d \<noteq> 2 then w
      else case classify_pair_button (d ! 1) of
        Confirmed \<Rightarrow>
          if pair_button_pending w then upd_coord (set_pair_progress PEcdh) w else w
      | FingerprintOk \<Rightarrow>
          if pair_button_pending w
          then upd_coord (set_pair_progress PWaitButton) (w\<lparr> pair_button_fp_ok := True \<rparr>) else w
      | Terminal s \<Rightarrow>
          if pair_button_pending w
          then w\<lparr> pair_button_tx := send_cell s (pair_button_tx w) \<rparr> else w
      | Ignore \<Rightarrow> w)"

definition saturating_sub :: "byte \<Rightarrow> byte \<Rightarrow> byte" where
  "saturating_sub a b = (if b \<le> a then a - b else 0)"

definition gate_mismatch :: "worker \<Rightarrow> worker" where
  "gate_mismatch w0 =
     (let w = w0\<lparr> auth_failures := auth_failures w0 + 1 \<rparr>;
          rem = saturating_sub FP_GATE_MAX_FAILURES (auth_failures w)
      in if rem = 0
         then w\<lparr> gate_tx := send_cell (False, Some RSP_ERR_FP_NOT_MATCH) (gate_tx w),
                 gate_pending := False \<rparr>
         else upd_coord (emit_fp_gate_event (Mismatch rem)) w)"

definition auth_mismatch :: "worker \<Rightarrow> worker" where
  "auth_mismatch w0 =
     (let w = w0\<lparr> auth_failures := auth_failures w0 + 1 \<rparr>;
          rem = saturating_sub FP_GATE_MAX_FAILURES (auth_failures w)
      in if rem = 0 then w\<lparr> auth_tx := send_cell False (auth_tx w), auth_pending := False \<rparr> else w)"

definition deliver_response :: "bytes \<Rightarrow> worker \<Rightarrow> worker" where
  "deliver_response d w = w\<lparr> pending_response := send_cell d (pending_response w) \<rparr>"

definition error_code :: "byte \<Rightarrow> bool" where
  "error_code b \<longleftrightarrow> b = RSP_ERR_TIMEOUT \<or> b = RSP_INVALID_PARAM \<or> b = RSP_ERROR"

definition route_notification :: "crypto \<Rightarrow> host \<Rightarrow> bytes \<Rightarrow> worker \<Rightarrow> worker" where
  "route_notification cr h d w =
     (if d = [] then w
      else let b = d ! 0; len = length d in
      if b = NOTIFY_FP_MATCH_SIGNED \<and> len = 11 then handle_fp_match_signed cr h d w
      else if b = NOTIFY_LOCK_REQUEST \<and> len = 1 then upd_coord (handle_lock_request h) w
      else if b = NOTIFY_ENROLL_KEEPALIVE \<and> len = 4 then w
      else if b = NOTIFY_ENROLL_PROGRESS \<and> len = 4
        then upd_coord (on_enroll_progress (d ! 1) (d ! 2) (d ! 3)) w
      else if b = NOTIFY_CONN_PARAM_UPDATE \<and> len = 6 then w
      else if b = CMD_PAIR_BUTTON then on_pair_button d w
      else if b = RSP_FP_GATE_APPROVED \<and> (gate_pending w \<or> pair_fp_gate w)
        then (if gate_pending w then upd_coord (emit_fp_gate_event Approved) w else w)
      else if b = RSP_ERR_FP_NOT_MATCH \<and> gate_pending w then gate_mismatch w
      else if b = RSP_ERR_FP_NOT_MATCH \<and> auth_pending w then auth_mismatch w
      else if b = RSP_OK \<and> gate_pending w
        then w\<lparr> gate_tx := send_cell (True, None) (gate_tx w), gate_pending := False \<rparr>
      else if b = RSP_OK \<and> auth_pending w
        then w\<lparr> auth_tx := send_cell True (auth_tx w), auth_pending := False \<rparr>
      else if gate_pending w \<and> error_code b
        then w\<lparr> gate_tx := send_cell (False, Some b) (gate_tx w), gate_pending := False \<rparr>
      else if auth_pending w \<and> error_code b
        then w\<lparr> auth_tx := send_cell False (auth_tx w), auth_pending := False \<rparr>
      else deliver_response d w)"

definition abort_pending :: "worker \<Rightarrow> worker" where
  "abort_pending w =
     w\<lparr> gate_tx := send_cell (False, Some RSP_ERROR) (gate_tx w), gate_pending := False,
        auth_tx := send_cell False (auth_tx w), auth_pending := False,
        pair_button_tx := send_cell PAIR_BUTTON_CANCELLED (pair_button_tx w),
        pair_button_pending := False, pair_button_fp_ok := False,
        pending_response := drop_cell (pending_response w) \<rparr>"

section \<open>What the operations leave alone\<close>

text \<open>The worker's own cells, flags and clock, without the helper and the coordinator.\<close>

definition local_state where
  "local_state w =
     (pending_response w, gate_pending w, gate_tx w, auth_pending w, auth_tx w, auth_failures w,
      pair_fp_gate w, pair_button_pending w, pair_button_tx w, pair_button_fp_ok w, clock w)"

lemma upd_coord_simps [simp]:
  "local_state (upd_coord f w) = local_state w" "coord (upd_coord f w) = f (coord w)"
  "gate_pending (upd_coord f w) = gate_pending w" "auth_pending (upd_coord f w) = auth_pending w"
  "pending_response (upd_coord f w) = pending_response w" "gate_tx (upd_coord f w) = gate_tx w"
  "auth_tx (upd_coord f w) = auth_tx w" "auth_failures (upd_coord f w) = auth_failures w"
  "pair_fp_gate (upd_coord f w) = pair_fp_gate w"
  "helper_log (upd_coord f w) = helper_log w" "helper_replies (upd_coord f w) = helper_replies w"
  by (simp_all add: upd_coord_def local_state_def)

lemma helper_io_simps [simp]:
  "local_state (snd (helper_io c w)) = local_state w" "coord (snd (helper_io c w)) = coord w"
  "helper_log (snd (helper_io c w)) = helper_log w @ [c]"
  by (simp_all add: helper_io_def next_reply_def local_state_def split: list.split)

lemma cmd_write_simps [simp]:
  "local_state (snd (cmd_write d w)) = local_state w" "coord (snd (cmd_write d w)) = coord w"
  "helper_log (snd (cmd_write d w)) = helper_log w @ [CmdWrite d]"
  by (simp_all add: cmd_write_def split_beta)

lemma send_ack_simps [simp]:
  "local_state (send_ack w) = local_state w" "coord (send_ack w) = coord w"
  "helper_log (send_ack w) = helper_log w @ [CmdWrite [0x22, 0]]"
  by (simp_all add: send_ack_def)

lemma local_stateD:
  "local_state w' = local_state w \<Longrightarrow>
     pending_response w' = pending_response w \<and> gate_pending w' = gate_pending w \<and>
     gate_tx w' = gate_tx w \<and> auth_pending w' = auth_pending w \<and> auth_tx w' = auth_tx w \<and>
     auth_failures w' = auth_failures w \<and> pair_fp_gate w' = pair_fp_gate w"
  by (simp add: local_state_def)

lemmas send_ack_fields [simp] = local_stateD [OF send_ack_simps(1), THEN conjunct1]
  local_stateD [OF send_ack_simps(1), THEN conjunct2, THEN conjunct1]
  local_stateD [OF send_ack_simps(1), THEN conjunct2, THEN conjunct2, THEN conjunct2, THEN conjunct1]

lemma fp_match_local [simp]: "local_state (handle_fp_match_signed cr h d w) = local_state w"
  by (simp add: handle_fp_match_signed_def Let_def split: option.split)

lemma on_pair_button_cells:
  "pending_response (on_pair_button d w) = pending_response w"
  "gate_pending (on_pair_button d w) = gate_pending w" "gate_tx (on_pair_button d w) = gate_tx w"
  "auth_pending (on_pair_button d w) = auth_pending w" "auth_tx (on_pair_button d w) = auth_tx w"
  "auth_failures (on_pair_button d w) = auth_failures w"
  by (simp_all add: on_pair_button_def split: pair_button_event.split)

lemma saturating_sub_3: "saturating_sub 3 b = 0 \<longleftrightarrow> 3 \<le> b"
  by (auto simp: saturating_sub_def)

lemma byte_lt_3: "(b :: byte) < 3 \<longleftrightarrow> b = 0 \<or> b = 1 \<or> b = 2"
proof -
  have "b < 3 \<longleftrightarrow> unat b < 3" by (simp add: word_less_nat_alt)
  also have "\<dots> \<longleftrightarrow> unat b = 0 \<or> unat b = 1 \<or> unat b = 2" by auto
  also have "\<dots> \<longleftrightarrow> b = 0 \<or> b = 1 \<or> b = 2"
    using word_unat_eq_iff [of b 0] word_unat_eq_iff [of b 1] word_unat_eq_iff [of b 2] by simp
  finally show ?thesis .
qed

section \<open>The failure counter\<close>

definition router_inv :: "worker \<Rightarrow> bool" where
  "router_inv w \<longleftrightarrow>
     (gate_pending w \<longrightarrow> gate_tx w = Armed \<and> auth_failures w < 3) \<and>
     (auth_pending w \<longrightarrow> auth_tx w = Armed \<and> auth_failures w < 3) \<and>
     \<not> (gate_pending w \<and> auth_pending w)"

lemma router_inv_local: "local_state w' = local_state w \<Longrightarrow> router_inv w \<Longrightarrow> router_inv w'"
  using local_stateD [of w' w] by (simp add: router_inv_def)

lemma gate_mismatch_inv: "router_inv w \<Longrightarrow> gate_pending w \<Longrightarrow> router_inv (gate_mismatch w)"
  by (auto simp: router_inv_def gate_mismatch_def Let_def byte_lt_3 saturating_sub_def upd_coord_def
      send_cell_def)

lemma auth_mismatch_inv: "router_inv w \<Longrightarrow> auth_pending w \<Longrightarrow> router_inv (auth_mismatch w)"
  by (auto simp: router_inv_def auth_mismatch_def Let_def byte_lt_3 saturating_sub_def send_cell_def)

lemma route_notification_inv:
  assumes "router_inv w"
  shows "router_inv (route_notification cr h d w)"
proof -
  have fp: "router_inv (handle_fp_match_signed cr h d w)"
    by (rule router_inv_local [OF fp_match_local assms])
  have up: "router_inv (upd_coord f w)" for f
    by (rule router_inv_local [OF upd_coord_simps(1) assms])
  have pb: "router_inv (on_pair_button d w)"
    using assms by (simp add: router_inv_def on_pair_button_cells)
  have g: "router_inv (w\<lparr> gate_tx := x, gate_pending := False \<rparr>)"
    "router_inv (w\<lparr> auth_tx := y, auth_pending := False \<rparr>)" "router_inv (deliver_response d w)" for x y
    using assms by (simp_all add: router_inv_def deliver_response_def)
  show ?thesis
    unfolding route_notification_def Let_def
    by (simp add: assms fp up pb g gate_mismatch_inv auth_mismatch_inv)
qed

interpretation router: event_machine "\<lambda>d. route_notification cr h d" router_inv for cr h
  by unfold_locales (rule route_notification_inv)

section \<open>Properties\<close>

text \<open>
  Fact: a frame that begins with the button code is always swallowed. Whatever its length or status,
  it never resolves the command response that pairing is waiting for, nor a fingerprint gate.
\<close>

theorem pair_button_never_response:
  "pending_response (route_notification cr h (CMD_PAIR_BUTTON # rest) w) = pending_response w \<and>
   gate_tx (route_notification cr h (CMD_PAIR_BUTTON # rest) w) = gate_tx w \<and>
   auth_tx (route_notification cr h (CMD_PAIR_BUTTON # rest) w) = auth_tx w"
  by (simp add: route_notification_def on_pair_button_cells)

lemma upd_coord_same [simp]: "upd_coord (\<lambda>c. c) w = w"
  by (simp add: upd_coord_def)

lemma lock_request_no_reply:
  "Reply ch b \<in> set (effects (handle_lock_request h c)) \<longleftrightarrow> Reply ch b \<in> set (effects c)"
  "FpMatch p \<in> set (effects (handle_lock_request h c)) \<longleftrightarrow> FpMatch p \<in> set (effects c)"
  by (simp_all add: handle_lock_request_def do_lock_screen_def split: option.split)

lemma enroll_progress_no_reply:
  "Reply ch b \<in> set (effects (on_enroll_progress s t u c)) \<longleftrightarrow> Reply ch b \<in> set (effects c)"
  "FpMatch p \<in> set (effects (on_enroll_progress s t u c)) \<longleftrightarrow> FpMatch p \<in> set (effects c)"
  by (simp_all add: on_enroll_progress_def Let_def)

lemma pair_button_no_reply:
  "effects (coord (on_pair_button d w)) = effects (coord w)"
  by (simp add: on_pair_button_def set_pair_progress_def upd_coord_def split: pair_button_event.split)

lemma mismatch_no_reply:
  "Reply ch b \<in> set (effects (coord (gate_mismatch w))) \<longleftrightarrow> Reply ch b \<in> set (effects (coord w))"
  "FpMatch p \<in> set (effects (coord (gate_mismatch w))) \<longleftrightarrow> FpMatch p \<in> set (effects (coord w))"
  "effects (coord (auth_mismatch w)) = effects (coord w)"
  by (simp_all add: gate_mismatch_def auth_mismatch_def Let_def emit_fp_gate_event_def)

lemmas route_effects = lock_request_no_reply enroll_progress_no_reply pair_button_no_reply
  mismatch_no_reply

lemma route_effects_only_match:
  assumes "length d \<noteq> 11 \<or> hd d \<noteq> 0x21"
  shows "Reply ch b \<in> set (effects (coord (route_notification cr h d w))) \<longleftrightarrow>
      Reply ch b \<in> set (effects (coord w))"
    "FpMatch p \<in> set (effects (coord (route_notification cr h d w))) \<longleftrightarrow>
      FpMatch p \<in> set (effects (coord w))"
  using assms
  by (auto simp: route_notification_def Let_def hd_conv_nth route_effects deliver_response_def
      emit_fp_gate_event_def)

text \<open>
  C9: nothing the device can send approves a pending request or counts as a fingerprint match
  except a signed match: an eleven byte frame whose MAC verifies under the stored shared key, with
  no gate, no AUTH wait and no pairing gate open. A frame with a wrong MAC changes nothing.
\<close>

theorem fp_match_needs_hmac:
  assumes "e = Reply ch True \<or> e = FpMatch p"
    and "e \<in> set (effects (coord (route_notification cr h d w)))" "e \<notin> set (effects (coord w))"
  shows "\<exists>k. pairing (coord w) = Some k \<and> length d = 11 \<and> hd d = 0x21 \<and>
    verify_fp_match_signed cr (shared_key k) (from_le16 (d ! 1) (d ! 2)) (slice 3 11 d) \<and>
    \<not> gate_pending w \<and> \<not> auth_pending w \<and> \<not> pair_fp_gate w"
proof -
  have d: "length d = 11" "hd d = 0x21"
    using assms route_effects_only_match(1) [of d ch True cr h w]
      route_effects_only_match(2) [of d p cr h w]
    by blast+
  then have r: "route_notification cr h d w = handle_fp_match_signed cr h d w"
    by (auto simp: route_notification_def Let_def hd_conv_nth)
  show ?thesis
    using assms(2,3) d unfolding r handle_fp_match_signed_def Let_def
    by (auto split: if_splits option.splits)
qed

definition sample_crypto :: crypto where
  "sample_crypto =
     \<lparr> hmac = (\<lambda>k d. take 32 (k @ replicate 32 (of_nat (length d)))), hkdf = (\<lambda>s i f. Some i),
       public_key = (\<lambda>s. replicate 33 2), diffie_hellman = (\<lambda>s p. Ok s) \<rparr>"

definition sample_match :: bytes where
  "sample_match = 0x21 # 1 # 0 # replicate 8 7"

lemma sample_match_verifies:
  "length sample_match = 11" "hd sample_match = 0x21"
  "verify_fp_match_signed sample_crypto (shared_key sample_pairing)
     (from_le16 (sample_match ! 1) (sample_match ! 2)) (slice 3 11 sample_match)"
  by (simp_all add: sample_match_def sample_crypto_def sample_pairing_def verify_fp_match_signed_def
      hmac_truncated_def slice_def eval_nat_numeral)

definition sample_worker :: worker where
  "sample_worker = worker_new [HLine ''WRITE_OK'']
     (coordinator_new\<lparr> pairing := Some sample_pairing, pending_pam := Some 4 \<rparr>)"

lemma sample_match_approves:
  "Reply 4 True \<in> set (effects (coord (route_notification sample_crypto sample_host sample_match sample_worker)))"
  "Reply 4 True \<notin> set (effects (coord sample_worker))"
proof -
  have "route_notification sample_crypto sample_host sample_match sample_worker =
      handle_fp_match_signed sample_crypto sample_host sample_match sample_worker"
    using sample_match_verifies by (auto simp: route_notification_def Let_def hd_conv_nth)
  then show "Reply 4 True \<in> set (effects (coord (route_notification sample_crypto sample_host sample_match sample_worker)))"
    using sample_match_verifies(3)
    by (simp add: handle_fp_match_signed_def Let_def sample_worker_def worker_new_def
        coordinator_new_def on_fp_match_pending)
qed (simp add: sample_worker_def worker_new_def coordinator_new_def)

theorem fp_match_needs_hmac_witness:
  "\<exists>k. pairing (coord sample_worker) = Some k"
  using fp_match_needs_hmac [OF _ sample_match_approves] by blast

text \<open>
  C16: a gate tolerates two mismatches and ends at the third, with the mismatch code as its result.
\<close>

theorem gate_three_strikes:
  assumes "gate_pending w" "gate_tx w = Armed" "auth_failures w = 0"
  shows "(let w2 = route_notification cr h [RSP_ERR_FP_NOT_MATCH]
              (route_notification cr h [RSP_ERR_FP_NOT_MATCH] w);
            w3 = route_notification cr h [RSP_ERR_FP_NOT_MATCH] w2
     in gate_pending w2 \<and> gate_tx w2 = Armed \<and> auth_failures w2 = 2 \<and>
        \<not> gate_pending w3 \<and> gate_tx w3 = Delivered (False, Some RSP_ERR_FP_NOT_MATCH))"
  using assms
  by (simp add: route_notification_def gate_mismatch_def Let_def saturating_sub_def upd_coord_def
      send_cell_def)

theorem gate_three_strikes_witness:
  "gate_pending (route_notification sample_crypto sample_host [RSP_ERR_FP_NOT_MATCH]
     (route_notification sample_crypto sample_host [RSP_ERR_FP_NOT_MATCH]
        (sample_worker\<lparr> gate_pending := True, gate_tx := Armed \<rparr>)))"
  using gate_three_strikes [of "sample_worker\<lparr> gate_pending := True, gate_tx := Armed \<rparr>"
      sample_crypto sample_host]
  by (simp add: sample_worker_def worker_new_def Let_def)

section \<open>Fields of the coordinator no notification writes\<close>

definition untouched where
  "untouched c = (pairing c, gate_active c, is_connected c, is_device_verified c, challenge_verified c,
     settings c, device_status c, ui_out c, agent_claims c, auth_dialog_cancel c)"

lemma untouched_ops [simp]:
  "untouched (emit e c) = untouched c" "untouched (set_pair_progress p c) = untouched c"
  "untouched (set_pre_auth h n ss c) = untouched c" "untouched (c\<lparr> pending_pam := x \<rparr>) = untouched c"
  "untouched (c\<lparr> last_auth_flow := y \<rparr>) = untouched c" "untouched (c\<lparr> pre_auth := z \<rparr>) = untouched c"
  "untouched (c\<lparr> fp_bitmap_stale := b \<rparr>) = untouched c"
  "untouched (c\<lparr> last_enroll_event := v \<rparr>) = untouched c"
  by (simp_all add: untouched_def set_pair_progress_def set_pre_auth_def)

lemma untouched_unlock [simp]: "untouched (do_unlock_screen h c) = untouched c"
  by (simp add: do_unlock_screen_def Let_def split: option.split)

lemma untouched_on_fp_match [simp]: "untouched (on_fp_match h p c) = untouched c"
proof (cases "pending_pam c")
  case (Some ch)
  then show ?thesis by (simp add: on_fp_match_def Let_def)
next
  case None
  then show ?thesis by (simp add: on_fp_match_def Let_def)
qed

lemma untouched_lock [simp]: "untouched (handle_lock_request h c) = untouched c"
  by (simp add: handle_lock_request_def do_lock_screen_def split: option.split)

lemma untouched_enroll [simp]: "untouched (on_enroll_progress s t u c) = untouched c"
  by (simp add: on_enroll_progress_def Let_def)

lemma untouched_fp_signed [simp]:
  "untouched (coord (handle_fp_match_signed cr h d w)) = untouched (coord w)"
  by (simp add: handle_fp_match_signed_def Let_def split: option.split)

lemma untouched_pair_button [simp]: "untouched (coord (on_pair_button d w)) = untouched (coord w)"
  by (simp add: on_pair_button_def split: pair_button_event.split)

lemma untouched_mismatch [simp]:
  "untouched (coord (gate_mismatch w)) = untouched (coord w)"
  "untouched (coord (auth_mismatch w)) = untouched (coord w)"
  by (simp_all add: gate_mismatch_def auth_mismatch_def Let_def emit_fp_gate_event_def)

lemma route_notification_untouched [simp]:
  "untouched (coord (route_notification cr h d w)) = untouched (coord w)"
  by (simp add: route_notification_def Let_def deliver_response_def emit_fp_gate_event_def)

text \<open>Where a delivered value comes from.\<close>

lemma local_state_cells:
  "local_state w' = local_state w \<Longrightarrow> pending_response w' = pending_response w"
  "local_state w' = local_state w \<Longrightarrow> gate_tx w' = gate_tx w"
  "local_state w' = local_state w \<Longrightarrow> auth_tx w' = auth_tx w"
  "local_state w' = local_state w \<Longrightarrow> gate_pending w' = gate_pending w"
  "local_state w' = local_state w \<Longrightarrow> auth_pending w' = auth_pending w"
  "local_state w' = local_state w \<Longrightarrow> clock w' = clock w"
  by (simp_all add: local_state_def)

lemmas fp_match_cells [simp] = local_state_cells [OF fp_match_local]

lemma route_pending_response:
  "pending_response (route_notification cr h d w) = Delivered v \<Longrightarrow>
     pending_response w = Delivered v \<or> (v = d \<and> d \<noteq> [])"
  by (auto simp: route_notification_def Let_def on_pair_button_cells gate_mismatch_def auth_mismatch_def
      deliver_response_def send_cell_def split: if_splits cell.splits)

lemma route_auth_true:
  "auth_tx (route_notification cr h d w) = Delivered True \<Longrightarrow>
     auth_tx w = Delivered True \<or> (d \<noteq> [] \<and> hd d = RSP_OK)"
  by (auto simp: route_notification_def Let_def on_pair_button_cells gate_mismatch_def auth_mismatch_def
      deliver_response_def send_cell_def hd_conv_nth split: if_splits cell.splits)

lemma route_gate_true:
  "gate_tx (route_notification cr h d w) = Delivered (True, e) \<Longrightarrow>
     gate_tx w = Delivered (True, e) \<or> (d \<noteq> [] \<and> hd d = RSP_OK)"
  by (auto simp: route_notification_def Let_def on_pair_button_cells gate_mismatch_def auth_mismatch_def
      deliver_response_def send_cell_def hd_conv_nth split: if_splits cell.splits)

lemma route_gate_pending: "gate_pending (route_notification cr h d w) \<Longrightarrow> gate_pending w"
  by (auto simp: route_notification_def Let_def on_pair_button_cells gate_mismatch_def auth_mismatch_def
      deliver_response_def split: if_splits)

end
