(* ===== verification/Ble_Worker.thy ===== *)
theory Ble_Worker
  imports Ble_Router
begin

text \<open>
  The waits of the BLE worker (\<open>immurok-daemon/src/ble.rs\<close>): \<open>send_command_inner\<close>, the fingerprint
  gate, AUTH_REQUEST, pairing and the OTA characteristic.

  A wait is a \<open>select!\<close> in a loop. Which branch is taken next is the next token of a list: \<open>Rx\<close> and
  \<open>RxButton\<close> poll a oneshot receiver, \<open>Deadline\<close> polls the timer and \<open>CancelPoll\<close> the cancel
  notification (a branch that is not ready is skipped), \<open>Notif\<close> is the next notification of the
  device, \<open>Elapse\<close> lets time pass and \<open>Env\<close> is a step of another task on the coordinator. When the
  list ends nothing else happens: every branch is polled once more and then the timer fires.
\<close>

datatype tok =
    Rx
  | RxButton
  | Notif bytes
  | Elapse nat
  | Deadline
  | CancelPoll
  | Env "coordinator \<Rightarrow> coordinator"

text \<open>What the worker takes from outside: the algorithms, the host, and the hex codec.\<close>

record world =
  wcrypto :: crypto
  whost :: host
  whexe :: "bytes \<Rightarrow> string"
  whexd :: "string \<Rightarrow> (bytes, string) result"

definition route :: "world \<Rightarrow> bytes \<Rightarrow> worker \<Rightarrow> worker" where
  "route W d w = route_notification (wcrypto W) ((whost W)\<lparr> now := clock w \<rparr>) d w"

text \<open>The state of a loop is its deadline and whether it was extended.\<close>

type_synonym timer = "nat \<times> bool"

fun select_loop ::
    "world \<Rightarrow> (tok \<Rightarrow> timer \<Rightarrow> worker \<Rightarrow> ('r \<times> worker) option) \<Rightarrow> (worker \<Rightarrow> timer \<Rightarrow> timer) \<Rightarrow>
      (worker \<Rightarrow> 'r \<times> worker) \<Rightarrow> tok list \<Rightarrow> timer \<Rightarrow> worker \<Rightarrow> 'r \<times> worker \<times> tok list" where
  "select_loop W branch after expire [] tm w =
     (case branch Rx tm w of Some (r, w') \<Rightarrow> (r, w', []) | None \<Rightarrow>
     (case branch RxButton tm w of Some (r, w') \<Rightarrow> (r, w', []) | None \<Rightarrow>
     (case branch CancelPoll tm w of Some (r, w') \<Rightarrow> (r, w', []) | None \<Rightarrow>
     (case expire w of (r, w') \<Rightarrow> (r, w', [])))))"
| "select_loop W branch after expire (Notif d # ts) tm w =
     (let w' = route W d w in select_loop W branch after expire ts (after w' tm) w')"
| "select_loop W branch after expire (Elapse n # ts) tm w =
     select_loop W branch after expire ts tm (w\<lparr> clock := clock w + n \<rparr>)"
| "select_loop W branch after expire (Env f # ts) tm w =
     select_loop W branch after expire ts tm (upd_coord f w)"
| "select_loop W branch after expire (Deadline # ts) tm w =
     (if fst tm \<le> clock w then (case expire w of (r, w') \<Rightarrow> (r, w', ts))
      else select_loop W branch after expire ts tm w)"
| "select_loop W branch after expire (t # ts) tm w =
     (case branch t tm w of
        Some (r, w') \<Rightarrow> (r, w', ts)
      | None \<Rightarrow> select_loop W branch after expire ts tm w)"

definition no_after :: "worker \<Rightarrow> timer \<Rightarrow> timer" where
  "no_after w tm = tm"

section \<open>Commands\<close>

definition packet :: "byte \<Rightarrow> bytes \<Rightarrow> bytes" where
  "packet cmd payload = cmd # of_nat (length payload) # payload"

definition hexcode :: "byte \<Rightarrow> string" where
  "hexcode b = ''0x'' @ hex2 b"

definition response_branch :: "string \<Rightarrow> tok \<Rightarrow> timer \<Rightarrow> worker \<Rightarrow> ((bytes, string) result \<times> worker) option" where
  "response_branch lost t tm w =
     (case t of
        Rx \<Rightarrow> (case pending_response w of
           Delivered v \<Rightarrow> Some (Ok v, w\<lparr> pending_response := Unset \<rparr>)
         | Lost \<Rightarrow> Some (Err lost, w\<lparr> pending_response := Unset \<rparr>)
         | _ \<Rightarrow> None)
      | _ \<Rightarrow> None)"

definition send_command_inner ::
    "world \<Rightarrow> byte \<Rightarrow> bytes \<Rightarrow> nat \<Rightarrow> tok list \<Rightarrow> worker \<Rightarrow> (bytes, string) result \<times> worker \<times> tok list" where
  "send_command_inner W cmd payload timeout_secs ts w0 =
     (case cmd_write (packet cmd payload) (w0\<lparr> pending_response := Armed \<rparr>) of
        (Err e, w) \<Rightarrow> (Err e, w, ts)
      | (Ok _, w) \<Rightarrow>
          select_loop W (response_branch (''response dropped: '' @ hexcode cmd)) no_after
            (\<lambda>w. (Err (''timeout: '' @ hexcode cmd), w\<lparr> pending_response := Unset \<rparr>))
            ts (clock w + from_secs timeout_secs, False) w)"

section \<open>The fingerprint gate\<close>

type_synonym ble_result = "(byte \<times> bytes, string) result"

definition set_gate_active :: "bool \<Rightarrow> worker \<Rightarrow> worker" where
  "set_gate_active b = upd_coord (\<lambda>c. c\<lparr> gate_active := b \<rparr>)"

definition gate_outcome :: "bool \<times> byte option \<Rightarrow> ble_result" where
  "gate_outcome r = (case r of
     (True, _) \<Rightarrow> Ok (RSP_OK, [RSP_OK])
   | (False, Some e) \<Rightarrow> Err (''FP-gate failed: '' @ hexcode e)
   | (False, None) \<Rightarrow> Err ''FP-gate failed'')"

definition gate_branch :: "tok \<Rightarrow> timer \<Rightarrow> worker \<Rightarrow> (ble_result \<times> worker) option" where
  "gate_branch t tm w =
     (case t of
        Rx \<Rightarrow> (case gate_tx w of
           Delivered r \<Rightarrow> Some (gate_outcome r, w\<lparr> gate_tx := Unset, gate_pending := False \<rparr>)
         | Lost \<Rightarrow> Some (gate_outcome (False, Some RSP_ERROR), w\<lparr> gate_tx := Unset, gate_pending := False \<rparr>)
         | _ \<Rightarrow> None)
      | CancelPoll \<Rightarrow>
        (if gate_cancel (coord w)
         then Some (Err ''FP-gate cancelled'',
           snd (cmd_write [CMD_GATE_CANCEL, 0x00]
             (upd_coord (\<lambda>c. c\<lparr> gate_cancel := False \<rparr>)
               (w\<lparr> gate_tx := Unset, gate_pending := False \<rparr>))))
         else None)
      | _ \<Rightarrow> None)"

definition gate_expire :: "worker \<Rightarrow> ble_result \<times> worker" where
  "gate_expire w = (Err ''FP-gate timeout'', w\<lparr> gate_tx := Unset, gate_pending := False \<rparr>)"

definition enter_gate :: "worker \<Rightarrow> worker" where
  "enter_gate w =
     set_gate_active True (w\<lparr> gate_pending := True, gate_tx := Armed, auth_failures := 0 \<rparr>)"

definition send_fp_gated_inner ::
    "world \<Rightarrow> byte \<Rightarrow> bytes \<Rightarrow> tok list \<Rightarrow> worker \<Rightarrow> ble_result \<times> worker \<times> tok list" where
  "send_fp_gated_inner W cmd payload ts w0 =
     (case send_command_inner W cmd payload BLE_COMMAND_TIMEOUT_SECS ts w0 of
        (Err e, w, ts') \<Rightarrow> (Err e, w, ts')
      | (Ok [], w, ts') \<Rightarrow> (Err ''empty response'', w, ts')
      | (Ok (status # rest), w, ts') \<Rightarrow>
          if status = RSP_OK then (Ok (RSP_OK, rest), w, ts')
          else if status \<noteq> RSP_WAIT_FP \<and> status \<noteq> RSP_FP_GATE_APPROVED
          then (Err (hexcode cmd @ '' failed: '' @ hexcode status), w, ts')
          else (case select_loop W gate_branch no_after gate_expire ts'
                     (clock w + from_secs BLE_FP_GATE_TIMEOUT_SECS, False) (enter_gate w) of
                  (r, w', ts'') \<Rightarrow> (r, set_gate_active False w', ts'')))"

section \<open>AUTH_REQUEST\<close>

definition auth_branch :: "tok \<Rightarrow> timer \<Rightarrow> worker \<Rightarrow> ((bool, string) result \<times> worker) option" where
  "auth_branch t tm w =
     (case t of
        Rx \<Rightarrow> (case auth_tx w of
           Delivered b \<Rightarrow> Some (Ok b, w\<lparr> auth_tx := Unset, auth_pending := False \<rparr>)
         | Lost \<Rightarrow> Some (Ok False, w\<lparr> auth_tx := Unset, auth_pending := False \<rparr>)
         | _ \<Rightarrow> None)
      | CancelPoll \<Rightarrow>
        (if auth_dialog_cancel (coord w)
         then Some (Ok False,
           snd (cmd_write [CMD_GATE_CANCEL, 0x00]
             (upd_coord (\<lambda>c. c\<lparr> auth_dialog_cancel := False \<rparr>)
               (w\<lparr> auth_tx := Unset, auth_pending := False \<rparr>))))
         else None)
      | _ \<Rightarrow> None)"

definition auth_expire :: "worker \<Rightarrow> (bool, string) result \<times> worker" where
  "auth_expire w = (Ok False, w\<lparr> auth_tx := Unset, auth_pending := False \<rparr>)"

definition enter_auth :: "worker \<Rightarrow> worker" where
  "enter_auth w = w\<lparr> auth_pending := True, auth_tx := Armed, auth_failures := 0 \<rparr>"

definition do_auth_request ::
    "world \<Rightarrow> tok list \<Rightarrow> worker \<Rightarrow> (bool, string) result \<times> worker \<times> tok list" where
  "do_auth_request W ts w0 =
     (case send_command_inner W CMD_AUTH_REQUEST [] BLE_COMMAND_TIMEOUT_SECS ts w0 of
        (Err e, w, ts') \<Rightarrow> (Err e, w, ts')
      | (Ok [], w, ts') \<Rightarrow> (Err ''empty response'', w, ts')
      | (Ok (status # rest), w, ts') \<Rightarrow>
          if status = RSP_OK then (Ok True, w, ts')
          else if status \<noteq> RSP_WAIT_FP
          then (Err (''AUTH_REQUEST failed: '' @ hexcode status), w, ts')
          else select_loop W auth_branch no_after auth_expire ts'
                 (clock w + from_secs BLE_AUTH_TIMEOUT_SECS, False) (enter_auth w))"

section \<open>Pairing\<close>

definition button_branch :: "tok \<Rightarrow> timer \<Rightarrow> worker \<Rightarrow> ((bytes, string) result \<times> worker) option" where
  "button_branch t tm w =
     (case t of
        Rx \<Rightarrow> (case pending_response w of
           Delivered v \<Rightarrow> Some (Ok v, w\<lparr> pending_response := Unset \<rparr>)
         | Lost \<Rightarrow> Some (Err ''pair: response channel dropped'', w\<lparr> pending_response := Unset \<rparr>)
         | _ \<Rightarrow> None)
      | RxButton \<Rightarrow> (case pair_button_tx w of
           Delivered s \<Rightarrow>
             Some (if s = PAIR_BUTTON_TIMEOUT
                   then Err ''pair timeout: button not pressed within 30s''
                   else if s = PAIR_BUTTON_CANCELLED
                   then Err ''pair cancelled (long-press on device)''
                   else Err (''unknown button status: '' @ hexcode s), w)
         | Lost \<Rightarrow> Some (Err ''pair: button channel dropped'', w)
         | _ \<Rightarrow> None)
      | _ \<Rightarrow> None)"

text \<open>The window is extended once, when the fingerprint half is reported.\<close>

definition button_after :: "worker \<Rightarrow> timer \<Rightarrow> timer" where
  "button_after w tm =
     (if pair_button_fp_ok w \<and> \<not> snd tm
      then (clock w + from_secs BLE_PAIR_BUTTON_TIMEOUT_SECS, True) else tm)"

definition wait_pair_button ::
    "world \<Rightarrow> tok list \<Rightarrow> worker \<Rightarrow> (bytes, string) result \<times> worker \<times> tok list" where
  "wait_pair_button W ts w0 =
     (let w = w0\<lparr> pair_button_pending := True, pair_button_tx := Armed,
                  pair_button_fp_ok := False, pending_response := Armed \<rparr> in
      case select_loop W button_branch button_after
             (\<lambda>w. (Err ''pair timeout: no button event'', w)) ts
             (clock w + from_secs BLE_PAIR_BUTTON_TIMEOUT_SECS, False) w of
        (r, w', ts') \<Rightarrow>
          (r, w'\<lparr> pair_button_pending := False, pair_button_tx := Unset, pair_button_fp_ok := False \<rparr>, ts'))"

text \<open>
  The old firmware's gate. A mismatch starts the inner wait again with a fresh channel; the
  counter was reset before the loop, so the third mismatch is the last.
\<close>

fun pair_gate_loop ::
    "nat \<Rightarrow> world \<Rightarrow> nat \<Rightarrow> tok list \<Rightarrow> worker \<Rightarrow> (bytes, string) result \<times> worker \<times> tok list" where
  "pair_gate_loop 0 W dl ts w = (Err ''too many FP mismatches'', w, ts)"
| "pair_gate_loop (Suc n) W dl ts w =
     (case select_loop W (response_branch ''pair FP-gate: channel dropped'') no_after
             (\<lambda>w. (Err ''pair FP-gate timeout'', w)) ts (dl, False)
             (w\<lparr> pending_response := Armed \<rparr>) of
        (Err e, w', ts') \<Rightarrow> (Err e, w', ts')
      | (Ok rsp, w', ts') \<Rightarrow>
          if rsp = [RSP_ERR_FP_NOT_MATCH] then
            (let w'' = w'\<lparr> auth_failures := auth_failures w' + 1 \<rparr> in
             if saturating_sub FP_GATE_MAX_FAILURES (auth_failures w'') = 0
             then (Err ''too many FP mismatches'', w'', ts')
             else pair_gate_loop n W dl ts' w'')
          else if rsp \<in> {[RSP_ERR_TIMEOUT], [RSP_ERROR], [RSP_BUSY]}
          then (Err (''pair FP-gate error: '' @ hexcode (hd rsp)), w', ts')
          else (Ok rsp, w', ts'))"

definition wait_pair_fp_gate ::
    "world \<Rightarrow> tok list \<Rightarrow> worker \<Rightarrow> (bytes, string) result \<times> worker \<times> tok list" where
  "wait_pair_fp_gate W ts w =
     (case pair_gate_loop 3 W (clock w + from_secs 30) ts (w\<lparr> pair_fp_gate := True, auth_failures := 0 \<rparr>) of
        (r, w', ts') \<Rightarrow> (r, w'\<lparr> pair_fp_gate := False \<rparr>, ts'))"

datatype pair_step = Retry | Finished ble_result

definition security_error_str :: "security_error \<Rightarrow> string" where
  "security_error_str e = (case e of
     InvalidPeerKey m \<Rightarrow> ''invalid peer public key: '' @ m
   | HkdfError \<Rightarrow> ''HKDF expansion failed''
   | IoError \<Rightarrow> ''I/O error''
   | JsonError \<Rightarrow> ''JSON error'')"

text \<open>From a valid device key to the stored pairing; \<open>rnd\<close> is the fresh secret, \<open>secs\<close> the time.\<close>

definition pair_confirm ::
    "world \<Rightarrow> bytes \<Rightarrow> nat \<Rightarrow> bytes \<Rightarrow> tok list \<Rightarrow> worker \<Rightarrow> ble_result \<times> worker \<times> tok list" where
  "pair_confirm W rnd secs device_pubkey ts w0 =
     (let (secret, app_pubkey) = generate_p256_keypair (wcrypto W) rnd in
      case send_command_inner W CMD_PAIR_CONFIRM app_pubkey 30 ts w0 of
        (Err e, w, ts') \<Rightarrow> (Err e, w, ts')
      | (Ok crsp, w, ts') \<Rightarrow>
          if length crsp < 2 \<or> crsp ! 0 \<noteq> CMD_PAIR_CONFIRM \<or> crsp ! 1 \<noteq> RSP_OK
          then (Err (''PAIR_CONFIRM failed: '' @ whexe W crsp), w, ts')
          else (case ecdh_shared_secret (wcrypto W) secret device_pubkey of
            Err e \<Rightarrow> (Err (''ECDH: '' @ security_error_str e), w, ts')
          | Ok shared \<Rightarrow> (case derive_shared_key (wcrypto W) shared of
              Err e \<Rightarrow> (Err (''HKDF: '' @ security_error_str e), w, ts')
            | Ok key \<Rightarrow>
                (let p = \<lparr> device_uuid = whexe W device_pubkey, shared_key = key,
                           paired_at = show_nat secs @ ''Z'' \<rparr> in
                 (Ok (RSP_OK, [RSP_OK]),
                  upd_coord (\<lambda>c. emit (SavePairing p) (c\<lparr> pairing := Some p,
                     device_reports_unpaired := False, is_device_verified := True \<rparr>)) w, ts')))))"

text \<open>The wait the device's first answer asks for.\<close>

definition pair_answer ::
    "world \<Rightarrow> bool \<Rightarrow> bytes \<Rightarrow> tok list \<Rightarrow> worker \<Rightarrow> (bytes, string) result \<times> worker \<times> tok list" where
  "pair_answer W second_host rsp ts w =
     (if rsp = [CMD_PAIR_INIT, RSP_PAIR_WAIT_BUTTON]
      then wait_pair_button W ts
             (upd_coord (set_pair_progress (if second_host then PWaitFp else PWaitButton)) w)
      else if rsp = [RSP_WAIT_FP] then wait_pair_fp_gate W ts w
      else (Ok rsp, w, ts))"

definition pair_validate ::
    "world \<Rightarrow> bytes \<Rightarrow> nat \<Rightarrow> bytes \<Rightarrow> tok list \<Rightarrow> worker \<Rightarrow> pair_step \<times> worker \<times> tok list" where
  "pair_validate W rnd secs rsp ts w =
     (if rsp = [0xE1] then (Retry, w, ts)
      else if length rsp < 1 + COMPRESSED_PUBKEY_LEN \<or> rsp ! 0 \<noteq> CMD_PAIR_INIT
      then (Finished (Err (''PAIR_INIT bad response: '' @ whexe W rsp)), w, ts)
      else (case pair_confirm W rnd secs (slice 1 34 rsp) ts w of
              (r, w', ts') \<Rightarrow> (Finished r, w', ts')))"

definition do_pair_step ::
    "world \<Rightarrow> bytes \<Rightarrow> nat \<Rightarrow> bool \<Rightarrow> tok list \<Rightarrow> worker \<Rightarrow> pair_step \<times> worker \<times> tok list" where
  "do_pair_step W rnd secs second_host ts0 w0 =
     (case send_command_inner W CMD_PAIR_INIT [] 30 ts0 w0 of
        (Err e, w, ts) \<Rightarrow> (Finished (Err e), w, ts)
      | (Ok rsp0, w, ts) \<Rightarrow>
          if rsp0 = [0xE1] then (Retry, w, ts)
          else if rsp0 = [CMD_PAIR_INIT, RSP_PAIR_NEEDS_RESET]
          then (Finished (Err ''device still has fingerprints; factory reset before re-pair''), w, ts)
          else (case pair_answer W second_host rsp0 ts w of
               (Err e, w', ts') \<Rightarrow> (Finished (Err e), w', ts')
             | (Ok rsp, w', ts') \<Rightarrow> pair_validate W rnd secs rsp ts' w'))"

fun do_pair_loop ::
    "nat \<Rightarrow> world \<Rightarrow> bytes \<Rightarrow> nat \<Rightarrow> bool \<Rightarrow> tok list \<Rightarrow> worker \<Rightarrow> ble_result \<times> worker \<times> tok list" where
  "do_pair_loop 0 W rnd secs sh ts w =
     (case do_pair_step W rnd secs sh ts w of
        (Finished r, w', ts') \<Rightarrow> (r, w', ts')
      | (Retry, w', ts') \<Rightarrow> (Err ''PAIR_INIT: conn param update incomplete'', w', ts'))"
| "do_pair_loop (Suc n) W rnd secs sh ts w =
     (case do_pair_step W rnd secs sh ts w of
        (Finished r, w', ts') \<Rightarrow> (r, w', ts')
      | (Retry, w', ts') \<Rightarrow>
          do_pair_loop n W rnd secs sh ts' (w'\<lparr> clock := clock w' + from_secs 5 \<rparr>))"

definition do_pair ::
    "world \<Rightarrow> bytes \<Rightarrow> nat \<Rightarrow> tok list \<Rightarrow> worker \<Rightarrow> ble_result \<times> worker \<times> tok list" where
  "do_pair W rnd secs ts0 w0 =
     (case send_command_inner W CMD_SLOT_STATUS [] BLE_COMMAND_TIMEOUT_SECS ts0 w0 of
        (r, w, ts) \<Rightarrow>
          (let frame = (case r of Ok f \<Rightarrow> f | Err _ \<Rightarrow> []);
               second_host = is_second_host (parse_slot_status frame)
           in do_pair_loop 3 W rnd secs second_host ts w))"

section \<open>The OTA characteristic\<close>

text \<open>
  The read poll ends when its deadline has passed; each round waits the poll interval first, so
  \<open>timeout_ms div OTA_READ_POLL_INTERVAL_MS\<close> rounds are enough. A round's read may itself take
  time, which only ends the loop earlier.
\<close>

fun ota_poll :: "nat \<Rightarrow> world \<Rightarrow> nat \<Rightarrow> worker \<Rightarrow> (bytes, string) result \<times> worker" where
  "ota_poll 0 W dl w = (Err ''OTA read timeout'', w)"
| "ota_poll (Suc n) W dl w0 =
     (let w = w0\<lparr> clock := clock w0 + from_millis OTA_READ_POLL_INTERVAL_MS \<rparr> in
      if dl \<le> clock w then (Err ''OTA read timeout'', w)
      else case ota_read (whexd W) w of
        (Ok d, w') \<Rightarrow> if d \<noteq> [] then (Ok d, w') else ota_poll n W dl w'
      | (Err _, w') \<Rightarrow> ota_poll n W dl w')"

definition ota_write_and_read :: "world \<Rightarrow> bytes \<Rightarrow> nat \<Rightarrow> worker \<Rightarrow> (bytes, string) result \<times> worker" where
  "ota_write_and_read W d timeout_ms w0 =
     (case ota_write d w0 of
        (Err e, w) \<Rightarrow> (Err e, w)
      | (Ok _, w) \<Rightarrow>
          ota_poll (Suc (timeout_ms div OTA_READ_POLL_INTERVAL_MS)) W (clock w + from_millis timeout_ms) w)"

definition ota_write_only :: "bytes \<Rightarrow> worker \<Rightarrow> (unit, string) result \<times> worker" where
  "ota_write_only d w = ota_write d w"

section \<open>Reasoning about a wait\<close>

text \<open>
  An invariant kept by the device's notifications, by the passing of time and by the steps of the
  other tasks holds at every poll; so what every branch and the expiry establish from it holds of
  the result.
\<close>

lemma select_loop_rule:
  assumes "select_loop W branch after expire ts tm w = (r, w', ts')" "I w"
    and "\<And>d w. I w \<Longrightarrow> Notif d \<in> set ts \<Longrightarrow> I (route W d w)"
    and "\<And>n w. I w \<Longrightarrow> I (w\<lparr> clock := clock w + n \<rparr>)"
    and "\<And>f w. I w \<Longrightarrow> Env f \<in> set ts \<Longrightarrow> I (upd_coord f w)"
    and "\<And>t tm w r w'. I w \<Longrightarrow> branch t tm w = Some (r, w') \<Longrightarrow> Q r w'"
    and "\<And>w. I w \<Longrightarrow> Q (fst (expire w)) (snd (expire w))"
  shows "Q r w'"
  using assms
proof (induction W branch after expire ts tm w rule: select_loop.induct)
  case (1 W branch after expire tm w)
  then show ?case by (auto split: option.splits prod.splits) (metis fst_conv snd_conv)+
next
  case (5 W branch after expire ts tm w)
  then show ?case by (auto split: if_splits prod.splits) (metis fst_conv snd_conv)+
qed (auto simp: Let_def split: option.splits prod.splits)

lemma select_loop_suffix:
  "select_loop W branch after expire ts tm w = (r, w', ts') \<Longrightarrow> set ts' \<subseteq> set ts"
proof (induction W branch after expire ts tm w rule: select_loop.induct)
  case (5 W branch after expire ts tm w)
  then show ?case by (auto split: if_splits prod.splits)
qed (auto simp: Let_def split: option.splits prod.splits)

text \<open>The other tasks keep a part \<open>g\<close> of the coordinator.\<close>

definition env_keeps :: "(coordinator \<Rightarrow> 'b) \<Rightarrow> tok list \<Rightarrow> bool" where
  "env_keeps g ts \<longleftrightarrow> (\<forall>f c. Env f \<in> set ts \<longrightarrow> g (f c) = g c)"

lemma env_keeps_subset: "env_keeps g ts \<Longrightarrow> set ts' \<subseteq> set ts \<Longrightarrow> env_keeps g ts'"
  by (auto simp: env_keeps_def)

lemma route_untouched [simp]: "untouched (coord (route W d w)) = untouched (coord w)"
  by (simp add: route_def)

text \<open>A part of the coordinator that only depends on what no notification writes.\<close>

definition stable :: "(coordinator \<Rightarrow> 'b) \<Rightarrow> bool" where
  "stable g \<longleftrightarrow> (\<forall>c c'. untouched c' = untouched c \<longrightarrow> g c' = g c)"

lemma stable_fields: "stable pairing" "stable gate_active" "stable auth_dialog_cancel"
  by (simp_all add: stable_def untouched_def)

lemma stable_route: "stable g \<Longrightarrow> g (coord (route W d w)) = g (coord w)"
  using route_untouched unfolding stable_def by blast

lemma untouchedD:
  "untouched c' = untouched c \<Longrightarrow> pairing c' = pairing c \<and> gate_active c' = gate_active c"
  by (simp add: untouched_def)

section \<open>Commands\<close>

lemma cmd_write_cells [simp]:
  "pending_response (snd (cmd_write d w)) = pending_response w" "gate_tx (snd (cmd_write d w)) = gate_tx w"
  "auth_tx (snd (cmd_write d w)) = auth_tx w" "gate_pending (snd (cmd_write d w)) = gate_pending w"
  "auth_pending (snd (cmd_write d w)) = auth_pending w" "clock (snd (cmd_write d w)) = clock w"
  using local_state_cells [OF cmd_write_simps(1)] by blast+

lemma send_command_cases:
  assumes "send_command_inner W cmd p n ts w0 = (r, w', ts')"
  obtains (wfail) e w where "cmd_write (packet cmd p) (w0\<lparr> pending_response := Armed \<rparr>) = (Err e, w)"
      "r = Err e" "w' = w" "ts' = ts"
    | (wait) w where "cmd_write (packet cmd p) (w0\<lparr> pending_response := Armed \<rparr>) = (Ok (), w)"
      "select_loop W (response_branch (''response dropped: '' @ hexcode cmd)) no_after
            (\<lambda>w. (Err (''timeout: '' @ hexcode cmd), w\<lparr> pending_response := Unset \<rparr>))
            ts (clock w + from_secs n, False) w = (r, w', ts')"
  using assms by (auto simp: send_command_inner_def split: prod.splits result.splits)

lemma send_command_suffix:
  "send_command_inner W cmd p n ts w = (r, w', ts') \<Longrightarrow> set ts' \<subseteq> set ts"
  by (erule send_command_cases) (auto dest: select_loop_suffix)

lemma response_branch_eq:
  "response_branch m t tm w = Some (r, w') \<Longrightarrow>
     t = Rx \<and> w' = w\<lparr> pending_response := Unset \<rparr> \<and>
     (pending_response w = Lost \<and> r = Err m \<or> (\<exists>v. pending_response w = Delivered v \<and> r = Ok v))"
  by (auto simp: response_branch_def split: tok.splits if_splits cell.splits)

text \<open>A response is one of the device's non-empty frames.\<close>

lemma send_command_ok:
  assumes "send_command_inner W cmd p n ts w0 = (Ok v, w', ts')"
  shows "v \<noteq> [] \<and> Notif v \<in> set ts"
  using assms
proof (cases rule: send_command_cases)
  case (wait w)
  let ?I = "\<lambda>w. \<forall>v. pending_response w = Delivered v \<longrightarrow> v \<noteq> [] \<and> Notif v \<in> set ts"
  have w: "pending_response w = Armed"
    using cmd_write_cells(1) [of "packet cmd p" "w0\<lparr> pending_response := Armed \<rparr>"] wait(1) by simp
  have "\<forall>u. (Ok v :: (bytes, string) result) = Ok u \<longrightarrow> u \<noteq> [] \<and> Notif u \<in> set ts"
  proof (rule select_loop_rule [OF wait(2), where I = ?I and Q = "\<lambda>r w'. \<forall>u. r = Ok u \<longrightarrow> u \<noteq> [] \<and> Notif u \<in> set ts"])
    show "?I w" using w by simp
    show "?I (route W d w)" if "?I w" "Notif d \<in> set ts" for d w
      using that by (auto simp: route_def dest!: route_pending_response)
  qed (auto dest!: response_branch_eq)
  then show ?thesis by simp
qed simp

lemma send_command_keeps:
  assumes "send_command_inner W cmd p n ts w0 = (r, w', ts')" "env_keeps g ts"
    and "stable g"
  shows "g (coord w') = g (coord w0)"
  using assms(1)
proof (cases rule: send_command_cases)
  case (wfail e w)
  then show ?thesis
    using cmd_write_simps(2) [of "packet cmd p" "w0\<lparr> pending_response := Armed \<rparr>"] by simp
next
  case (wait w)
  have w: "coord w = coord w0"
    using cmd_write_simps(2) [of "packet cmd p" "w0\<lparr> pending_response := Armed \<rparr>"] wait(1) by simp
  show ?thesis
  proof (rule select_loop_rule [OF wait(2), where I = "\<lambda>w. g (coord w) = g (coord w0)"
        and Q = "\<lambda>r w'. g (coord w') = g (coord w0)"])
    show "g (coord (route W d w)) = g (coord w0)" if "g (coord w) = g (coord w0)" for d w
      using that stable_route [OF assms(3)] by simp
    show "g (coord (upd_coord f w)) = g (coord w0)" if "g (coord w) = g (coord w0)" "Env f \<in> set ts" for f w
      using that assms(2) by (simp add: env_keeps_def)
  qed (use w in \<open>auto dest!: response_branch_eq\<close>)
qed

lemma send_command_gate_pending:
  assumes "send_command_inner W cmd p n ts w0 = (r, w', ts')" "\<not> gate_pending w0"
  shows "\<not> gate_pending w'"
  using assms(1)
proof (cases rule: send_command_cases)
  case (wfail e w)
  then show ?thesis
    using assms(2) cmd_write_cells(4) [of "packet cmd p" "w0\<lparr> pending_response := Armed \<rparr>"] by simp
next
  case (wait w)
  have "\<not> gate_pending w"
    using assms(2) cmd_write_cells(4) [of "packet cmd p" "w0\<lparr> pending_response := Armed \<rparr>"] wait(1) by simp
  then show ?thesis
    by (rule select_loop_rule [OF wait(2), where I = "\<lambda>w. \<not> gate_pending w" and Q = "\<lambda>r w'. \<not> gate_pending w'"])
      (auto simp: route_def dest!: response_branch_eq route_gate_pending)
qed

section \<open>The gate\<close>

lemma gate_outcome_ok: "gate_outcome r = Ok (s, d) \<Longrightarrow> s = RSP_OK \<and> d = [RSP_OK] \<and> fst r"
  by (cases r) (auto simp: gate_outcome_def split: bool.splits option.splits)

lemma gate_branch_eq:
  "gate_branch t tm w = Some (r, w') \<Longrightarrow>
     \<not> gate_pending w' \<and> gate_active (coord w') = gate_active (coord w) \<and>
     pairing (coord w') = pairing (coord w) \<and>
     (\<forall>s d. r = Ok (s, d) \<longrightarrow> s = RSP_OK \<and> (\<exists>e. gate_tx w = Delivered (True, e)))"
  by (auto simp: gate_branch_def dest!: gate_outcome_ok split: tok.splits if_splits cell.splits)

lemma gate_expire_eq:
  "\<not> gate_pending (snd (gate_expire w)) \<and> coord (snd (gate_expire w)) = coord w \<and>
   (\<exists>e. fst (gate_expire w) = Err e)"
  by (simp add: gate_expire_def)

text \<open>The three ways through a gated command.\<close>

lemma send_fp_gated_cases:
  assumes "send_fp_gated_inner W cmd p ts w0 = (r, w', ts')"
  obtains (failed) e where "r = Err e"
      "\<exists>r0. send_command_inner W cmd p BLE_COMMAND_TIMEOUT_SECS ts w0 = (r0, w', ts')"
    | (immediate) rest where "r = Ok (RSP_OK, rest)"
      "send_command_inner W cmd p BLE_COMMAND_TIMEOUT_SECS ts w0 = (Ok (RSP_OK # rest), w', ts')"
    | (gate) s rest w1 w2 ts1 where
      "send_command_inner W cmd p BLE_COMMAND_TIMEOUT_SECS ts w0 = (Ok (s # rest), w1, ts1)"
      "s = RSP_WAIT_FP \<or> s = RSP_FP_GATE_APPROVED" "w' = set_gate_active False w2"
      "select_loop W gate_branch no_after gate_expire ts1
         (clock w1 + from_secs BLE_FP_GATE_TIMEOUT_SECS, False) (enter_gate w1) = (r, w2, ts')"
  using assms
  by (auto simp: send_fp_gated_inner_def split: prod.splits result.splits list.splits if_splits)

lemma gate_wait_result:
  assumes "select_loop W gate_branch no_after gate_expire ts tm (enter_gate w1) = (r, w2, ts')"
  shows "\<not> gate_pending w2 \<and>
    (\<forall>s d. r = Ok (s, d) \<longrightarrow> s = RSP_OK \<and> (\<exists>f. Notif f \<in> set ts \<and> f \<noteq> [] \<and> hd f = RSP_OK))"
proof -
  let ?seen = "\<exists>f. Notif f \<in> set ts \<and> f \<noteq> [] \<and> hd f = RSP_OK"
  let ?I = "\<lambda>w. \<forall>e. gate_tx w = Delivered (True, e) \<longrightarrow> ?seen"
  show ?thesis
  proof (rule select_loop_rule [OF assms, where I = ?I
        and Q = "\<lambda>r w'. \<not> gate_pending w' \<and> (\<forall>s d. r = Ok (s, d) \<longrightarrow> s = RSP_OK \<and> ?seen)"])
    show "?I (enter_gate w1)" by (simp add: enter_gate_def set_gate_active_def)
    show "?I (route W d w)" if "?I w" "Notif d \<in> set ts" for d w
      using that by (auto simp: route_def dest!: route_gate_true)
    show "\<not> gate_pending w' \<and> (\<forall>s d. r = Ok (s, d) \<longrightarrow> s = RSP_OK \<and> ?seen)"
      if "?I w" "gate_branch t tm w = Some (r, w')" for t tm w r w'
      using that gate_branch_eq [OF that(2)] by blast
    show "\<not> gate_pending (snd (gate_expire w)) \<and>
        (\<forall>s d. fst (gate_expire w) = Ok (s, d) \<longrightarrow> s = RSP_OK \<and> ?seen)" for w
      using gate_expire_eq [of w] by auto
  qed auto
qed

lemma gated_ok_facts:
  assumes "send_fp_gated_inner W cmd p ts w = (Ok (s, d), w', ts')"
  shows "s = RSP_OK \<and> (\<exists>f. Notif f \<in> set ts \<and> f \<noteq> [] \<and> hd f = RSP_OK)"
  using assms
proof (cases rule: send_fp_gated_cases)
  case (immediate rest)
  then show ?thesis using send_command_ok [OF immediate(2)] by force
next
  case (gate st rest w1 w2 ts1)
  then show ?thesis
    using gate_wait_result [OF gate(4)] send_command_suffix [OF gate(1)] by blast
qed simp

text \<open>
  C11: a fingerprint-gated command succeeds only with status OK, and only if the device sent a frame
  that begins with OK after the command was issued. Any mismatch, device error, cancel, lost
  channel or timeout is an error.
\<close>

theorem gated_ok_only_from_device:
  assumes "send_fp_gated_inner W cmd p ts w = (Ok (s, d), w', ts')"
  shows "s = RSP_OK \<and> (\<exists>f. Notif f \<in> set ts \<and> f \<noteq> [] \<and> hd f = RSP_OK)"
  by (rule gated_ok_facts [OF assms])

definition sample_world :: world where
  "sample_world =
     \<lparr> wcrypto = sample_crypto, whost = sample_host, whexe = hex_bytes, whexd = (\<lambda>s. Err []) \<rparr>"

definition idle_worker :: worker where
  "idle_worker = worker_new [HLine ''WRITE_OK'', HLine ''WRITE_OK''] (coordinator_new\<lparr> is_connected := True \<rparr>)"

lemmas run_worker = send_command_inner_def cmd_write_def helper_io_def next_reply_def packet_def
  wait_write_ok_def idle_worker_def worker_new_def response_branch_def route_def sample_world_def
  route_notification_def deliver_response_def send_cell_def no_after_def upd_coord_def

lemma gated_sample:
  "fst (send_fp_gated_inner sample_world 0x12 [3]
     [Notif [0x11], Rx, Notif [0x07], Rx, Notif [0x00], Rx] idle_worker) = Ok (0, [0])"
  by (simp add: send_fp_gated_inner_def run_worker enter_gate_def set_gate_active_def gate_branch_def
      gate_mismatch_def saturating_sub_def gate_outcome_def Let_def)

theorem gated_ok_only_from_device_witness:
  "\<exists>f. Notif f \<in> set [Notif [0x11], Rx, Notif [0x07], Rx, Notif [0x00], Rx] \<and> f \<noteq> [] \<and> hd f = RSP_OK"
  using gated_sample gated_ok_only_from_device by (metis prod.collapse)

text \<open>
  Fact: a gated command leaves nothing armed. When the worker comes back from it, on whatever branch,
  no gate is pending and \<open>gate_active\<close> is clear, so that a later cancel is not stored for the next
  gate; the other tasks are only required not to write that flag.
\<close>

theorem gated_leaves_no_gate:
  assumes "send_fp_gated_inner W cmd p ts w = (r, w', ts')"
    and "\<not> gate_pending w" "\<not> gate_active (coord w)" "env_keeps gate_active ts"
  shows "\<not> gate_pending w' \<and> \<not> gate_active (coord w')"
proof -
  have keep: "\<not> gate_pending w1 \<and> \<not> gate_active (coord w1)"
    if "send_command_inner W cmd p BLE_COMMAND_TIMEOUT_SECS ts w = (r0, w1, ts1)" for r0 w1 ts1
    using send_command_gate_pending [OF that assms(2)] assms(3)
      send_command_keeps [OF that assms(4) stable_fields(2)] by simp
  show ?thesis
    using assms(1)
  proof (cases rule: send_fp_gated_cases)
    case (gate st rest w1 w2 ts1)
    then show ?thesis
      using gate_wait_result [OF gate(4)] by (simp add: set_gate_active_def)
  qed (use keep in blast)+
qed

theorem gated_leaves_no_gate_witness:
  "\<not> gate_active (coord (fst (snd (send_fp_gated_inner sample_world 0x12 [3]
     [Notif [0x11], Rx, Notif [0x07], Rx, Notif [0x00], Rx] idle_worker))))"
proof -
  have "\<not> gate_pending idle_worker" "\<not> gate_active (coord idle_worker)"
    "env_keeps gate_active [Notif [0x11], Rx, Notif [0x07], Rx, Notif [0x00], Rx]"
    by (simp_all add: idle_worker_def worker_new_def coordinator_new_def env_keeps_def)
  then show ?thesis using gated_leaves_no_gate by (metis prod.collapse)
qed

section \<open>AUTH_REQUEST\<close>

lemma auth_branch_eq:
  "auth_branch t tm w = Some (r, w') \<Longrightarrow>
     \<not> auth_pending w' \<and> (r = Ok True \<longrightarrow> auth_tx w = Delivered True)"
  by (auto simp: auth_branch_def split: tok.splits if_splits cell.splits)

text \<open>
  C10: the device answers an AUTH_REQUEST positively only by a frame that begins with OK. Mismatch,
  device error, cancel, disconnection and timeout all come back negative or as an error.
\<close>

theorem auth_request_needs_device_ok:
  assumes "do_auth_request W ts w = (Ok True, w', ts')"
  shows "\<exists>f. Notif f \<in> set ts \<and> f \<noteq> [] \<and> hd f = RSP_OK"
proof -
  obtain s rest w1 ts1 where
    c: "send_command_inner W CMD_AUTH_REQUEST [] BLE_COMMAND_TIMEOUT_SECS ts w = (Ok (s # rest), w1, ts1)"
    and d: "s = RSP_OK \<or> select_loop W auth_branch no_after auth_expire ts1
      (clock w1 + from_secs BLE_AUTH_TIMEOUT_SECS, False) (enter_auth w1) = (Ok True, w', ts')"
    using assms by (auto simp: do_auth_request_def split: prod.splits result.splits list.splits if_splits)
  from d show ?thesis
  proof
    assume "s = RSP_OK"
    then show ?thesis using send_command_ok [OF c] by force
  next
    assume l: "select_loop W auth_branch no_after auth_expire ts1
      (clock w1 + from_secs BLE_AUTH_TIMEOUT_SECS, False) (enter_auth w1) = (Ok True, w', ts')"
    let ?seen = "\<exists>f. Notif f \<in> set ts \<and> f \<noteq> [] \<and> hd f = RSP_OK"
    let ?I = "\<lambda>w. auth_tx w = Delivered True \<longrightarrow> ?seen"
    have "(Ok True :: (bool, string) result) = Ok True \<longrightarrow> ?seen"
    proof (rule select_loop_rule [OF l, where I = ?I and Q = "\<lambda>r w'. r = Ok True \<longrightarrow> ?seen"])
      show "?I (enter_auth w1)" by (simp add: enter_auth_def)
      show "?I (route W d w)" if "?I w" "Notif d \<in> set ts1" for d w
        using that send_command_suffix [OF c] by (auto simp: route_def dest!: route_auth_true)
      show "r = Ok True \<longrightarrow> ?seen" if "?I w" "auth_branch t tm w = Some (r, w')" for t tm w r w'
        using that auth_branch_eq [OF that(2)] by blast
    qed (auto simp: auth_expire_def)
    then show ?thesis by simp
  qed
qed

lemma auth_sample:
  "fst (do_auth_request sample_world [Notif [0x11], Rx, Notif [0x00], Rx] idle_worker) = Ok True"
  by (simp add: do_auth_request_def run_worker enter_auth_def auth_branch_def Let_def)

theorem auth_request_needs_device_ok_witness:
  "\<exists>f. Notif f \<in> set [Notif [0x11], Rx, Notif [0x00], Rx] \<and> f \<noteq> [] \<and> hd f = RSP_OK"
proof -
  obtain r w' ts' where e: "do_auth_request sample_world [Notif [0x11], Rx, Notif [0x00], Rx] idle_worker = (r, w', ts')"
    by (cases "do_auth_request sample_world [Notif [0x11], Rx, Notif [0x00], Rx] idle_worker")
  then have "r = Ok True" using auth_sample by simp
  from auth_request_needs_device_ok [OF e [unfolded this]] show ?thesis .
qed

definition three_writes :: worker where
  "three_writes = worker_new [HLine ''WRITE_OK'', HLine ''WRITE_OK'', HLine ''WRITE_OK''] coordinator_new"

text \<open>
  C14: a cancel of an AUTH request is stored when nobody waits for it: a caller that goes away before the
  device has answered AUTH_REQUEST leaves it behind. It survives every AUTH request that ends without
  waiting, and denies the first one that waits, of anybody, at its first poll of the cancel branch, whatever
  the device sends afterwards. The gate has the guard \<open>gate_active\<close> against exactly this, the AUTH wait has
  none.
\<close>

theorem stale_cancel_denies_next_auth:
  assumes "auth_dialog_cancel (coord w)" "env_keeps auth_dialog_cancel ts"
    and "send_command_inner W CMD_AUTH_REQUEST [] BLE_COMMAND_TIMEOUT_SECS ts w = (c, w1, ts1)"
  shows "if \<exists>rest. c = Ok (RSP_WAIT_FP # rest)
    then \<forall>later. ts1 = CancelPoll # later \<longrightarrow> fst (do_auth_request W ts w) = Ok False
    else auth_dialog_cancel (coord (fst (snd (do_auth_request W ts w))))"
proof -
  have "auth_dialog_cancel (coord w1) = auth_dialog_cancel (coord w)"
    by (rule send_command_keeps [OF assms(3,2) stable_fields(3)])
  then show ?thesis
    using assms(1,3)
    by (auto simp: do_auth_request_def auth_branch_def enter_auth_def split: result.split list.split)
qed

theorem stale_cancel_denies_next_auth_witness:
  "fst (do_auth_request sample_world [Notif [RSP_WAIT_FP], Rx, CancelPoll, Notif [RSP_OK], Rx]
     (three_writes\<lparr> coord := coordinator_new\<lparr> auth_dialog_cancel := True \<rparr> \<rparr>)) = Ok False"
proof -
  let ?w = "three_writes\<lparr> coord := coordinator_new\<lparr> auth_dialog_cancel := True \<rparr> \<rparr>"
  let ?ts = "[Notif [RSP_WAIT_FP], Rx, CancelPoll, Notif [RSP_OK], Rx]"
  have e: "env_keeps auth_dialog_cancel ?ts" by (simp add: env_keeps_def)
  obtain w1 where c: "send_command_inner sample_world CMD_AUTH_REQUEST [] BLE_COMMAND_TIMEOUT_SECS ?ts ?w =
      (Ok [RSP_WAIT_FP], w1, [CancelPoll, Notif [RSP_OK], Rx])"
    by (simp add: three_writes_def run_worker)
  show ?thesis using stale_cancel_denies_next_auth [OF _ e c] by simp
qed

section \<open>Pairing\<close>

text \<open>Two instances of the rule: what a wait keeps, and that its value is a device frame.\<close>

definition coord_free :: "(tok \<Rightarrow> timer \<Rightarrow> worker \<Rightarrow> ('r \<times> worker) option) \<Rightarrow> bool" where
  "coord_free branch \<longleftrightarrow> (\<forall>t tm w r w'. branch t tm w = Some (r, w') \<longrightarrow> coord w' = coord w)"

lemma coord_free_response: "coord_free (response_branch m)"
  by (auto simp: coord_free_def dest!: response_branch_eq)

lemma select_keeps:
  assumes "select_loop W branch after expire ts tm w = (r, w', ts')" "env_keeps g ts"
    and "stable g"
    and "coord_free branch" "\<And>w. coord (snd (expire w)) = coord w"
  shows "g (coord w') = g (coord w)"
proof (rule select_loop_rule [OF assms(1), where I = "\<lambda>v. g (coord v) = g (coord w)"
      and Q = "\<lambda>r w'. g (coord w') = g (coord w)"])
  show "g (coord (route W d v)) = g (coord w)" if "g (coord v) = g (coord w)" for d v
    using that stable_route [OF assms(3)] by simp
  show "g (coord (upd_coord f v)) = g (coord w)" if "g (coord v) = g (coord w)" "Env f \<in> set ts" for f v
    using that assms(2) by (simp add: env_keeps_def)
  show "g (coord w') = g (coord w)" if "g (coord v) = g (coord w)" "branch t tm v = Some (r, w')" for t tm v r w'
    using that assms(4) unfolding coord_free_def by metis
qed (simp_all add: assms(5))

lemma select_response:
  assumes "select_loop W branch after expire ts tm w = (Ok v :: (bytes, string) result, w', ts')" "pending_response w = Armed"
    and "\<And>t tm w u w'. branch t tm w = Some (Ok u, w') \<Longrightarrow> pending_response w = Delivered u"
    and "\<And>w. \<exists>e. fst (expire w) = Err e"
  shows "v \<noteq> [] \<and> Notif v \<in> set ts"
proof -
  let ?P = "\<lambda>u. u \<noteq> [] \<and> Notif u \<in> set ts"
  have "\<forall>u. Ok v = (Ok u :: (bytes, string) result) \<longrightarrow> ?P u"
  proof (rule select_loop_rule [OF assms(1), where I = "\<lambda>w. \<forall>v. pending_response w = Delivered v \<longrightarrow> ?P v"
        and Q = "\<lambda>r w'. \<forall>u. r = Ok u \<longrightarrow> ?P u"])
    show "\<forall>v. pending_response (route W d w) = Delivered v \<longrightarrow> ?P v"
      if "\<forall>v. pending_response w = Delivered v \<longrightarrow> ?P v" "Notif d \<in> set ts" for d w
      using that by (auto simp: route_def dest!: route_pending_response)
    show "\<forall>u. fst (expire w) = Ok u \<longrightarrow> ?P u" for w
      using assms(4) [of w] by auto
  qed (use assms(2,3) in auto)
  then show ?thesis by simp
qed

lemma button_branch_eq:
  "button_branch t tm w = Some (r, w') \<Longrightarrow>
     coord w' = coord w \<and> (\<forall>v. r = Ok v \<longrightarrow> pending_response w = Delivered v)"
  by (auto simp: button_branch_def split: tok.splits cell.splits if_splits)

lemma coord_free_button: "coord_free button_branch"
  by (auto simp: coord_free_def dest!: button_branch_eq)

lemma wait_pair_button_facts:
  assumes "wait_pair_button W ts w = (r, w', ts')"
  shows "set ts' \<subseteq> set ts" "env_keeps pairing ts \<Longrightarrow> pairing (coord w') = pairing (coord w)"
    "r = Ok v \<Longrightarrow> v \<noteq> [] \<and> Notif v \<in> set ts"
proof -
  let ?w = "w\<lparr> pair_button_pending := True, pair_button_tx := Armed,
               pair_button_fp_ok := False, pending_response := Armed \<rparr>"
  obtain w1 where l: "select_loop W button_branch button_after
       (\<lambda>w. (Err ''pair timeout: no button event'', w)) ts
       (clock ?w + from_secs BLE_PAIR_BUTTON_TIMEOUT_SECS, False) ?w = (r, w1, ts')"
    and w': "coord w' = coord w1"
    using assms by (auto simp: wait_pair_button_def Let_def split: prod.splits)
  show "set ts' \<subseteq> set ts" by (rule select_loop_suffix [OF l])
  show "pairing (coord w') = pairing (coord w)" if "env_keeps pairing ts"
    using select_keeps [OF l that stable_fields(1) coord_free_button] w' by simp
  show "v \<noteq> [] \<and> Notif v \<in> set ts" if "r = Ok v"
    by (rule select_response [OF l [unfolded that]]) (auto dest: button_branch_eq)
qed

lemma pair_gate_loop_facts:
  assumes "pair_gate_loop n W dl ts w = (r, w', ts')"
  shows "set ts' \<subseteq> set ts \<and> (env_keeps pairing ts \<longrightarrow> pairing (coord w') = pairing (coord w)) \<and>
    (\<forall>v. r = Ok v \<longrightarrow> v \<noteq> [] \<and> Notif v \<in> set ts)"
  using assms
proof (induction n W dl ts w rule: pair_gate_loop.induct)
  case (2 n W dl ts w)
  obtain r1 w1 ts1 where l: "select_loop W (response_branch ''pair FP-gate: channel dropped'') no_after
      (\<lambda>w. (Err ''pair FP-gate timeout'', w)) ts (dl, False) (w\<lparr> pending_response := Armed \<rparr>) = (r1, w1, ts1)"
    by (metis prod_cases3)
  have sub: "set ts1 \<subseteq> set ts" by (rule select_loop_suffix [OF l])
  have keep: "env_keeps pairing ts \<longrightarrow> pairing (coord w1) = pairing (coord w)"
    using select_keeps [OF l _ stable_fields(1) coord_free_response] by simp
  have resp: "v \<noteq> [] \<and> Notif v \<in> set ts" if "r1 = Ok v" for v
    by (rule select_response [OF l [unfolded that]]) (auto dest!: response_branch_eq)
  show ?case
  proof (cases "\<exists>x. r1 = Ok x \<and> x = [RSP_ERR_FP_NOT_MATCH] \<and>
      saturating_sub FP_GATE_MAX_FAILURES (auth_failures w1 + 1) \<noteq> 0")
    case True
    then have rec: "pair_gate_loop n W dl ts1 (w1\<lparr> auth_failures := auth_failures w1 + 1 \<rparr>) = (r, w', ts')"
      using 2(2) l by (auto simp: Let_def)
    have ih: "set ts' \<subseteq> set ts1 \<and> (env_keeps pairing ts1 \<longrightarrow> pairing (coord w') = pairing (coord w1)) \<and>
        (\<forall>v. r = Ok v \<longrightarrow> v \<noteq> [] \<and> Notif v \<in> set ts1)"
      using 2(1) [OF l [symmetric] _ refl refl refl _ rec] True by auto
    then show ?thesis using sub keep env_keeps_subset [of pairing ts ts1] by auto
  next
    case False
    then show ?thesis
      using 2(2) l sub keep resp by (auto simp: Let_def split: result.splits if_splits)
  qed
qed auto

lemma wait_pair_fp_gate_facts:
  assumes "wait_pair_fp_gate W ts w = (r, w', ts')"
  shows "set ts' \<subseteq> set ts" "env_keeps pairing ts \<Longrightarrow> pairing (coord w') = pairing (coord w)"
    "r = Ok v \<Longrightarrow> v \<noteq> [] \<and> Notif v \<in> set ts"
  using assms pair_gate_loop_facts
  by (fastforce simp: wait_pair_fp_gate_def split: prod.splits)+

text \<open>The device acknowledged PAIR_CONFIRM, and the pairing is in memory, handed over for saving, and counts as verified.\<close>

definition pairing_acknowledged :: "tok list \<Rightarrow> bool" where
  "pairing_acknowledged ts \<longleftrightarrow> (\<exists>rest. Notif (CMD_PAIR_CONFIRM # RSP_OK # rest) \<in> set ts)"

definition stored_pairing :: "worker \<Rightarrow> pairing_data \<Rightarrow> bool" where
  "stored_pairing w p \<longleftrightarrow> pairing (coord w) = Some p \<and> effects (coord w) \<noteq> [] \<and>
     last (effects (coord w)) = SavePairing p \<and> is_device_verified (coord w) \<and> \<not> device_reports_unpaired (coord w)"

lemma acknowledged_frame:
  assumes "Notif f \<in> set ts" "2 \<le> length f" "f ! 0 = CMD_PAIR_CONFIRM" "f ! 1 = RSP_OK"
  shows "pairing_acknowledged ts"
proof -
  obtain a b rest where "f = a # b # rest" using assms(2) by (cases f rule: remdups_adj.cases) auto
  then show ?thesis using assms by (auto simp: pairing_acknowledged_def)
qed

lemma pair_confirm_facts:
  assumes "pair_confirm W rnd secs pub ts w = (r, w', ts')" "env_keeps pairing ts"
  shows "set ts' \<subseteq> set ts" and "case r of
      Err e \<Rightarrow> pairing (coord w') = pairing (coord w)
    | Ok x \<Rightarrow> x = (RSP_OK, [RSP_OK]) \<and> pairing_acknowledged ts \<and> (\<exists>shared key.
        diffie_hellman (wcrypto W) rnd pub = Ok shared \<and>
        hkdf (wcrypto W) (as_bytes HKDF_SALT) shared (as_bytes HKDF_INFO) = Some key \<and>
        stored_pairing w' \<lparr> device_uuid = whexe W pub, shared_key = key, paired_at = show_nat secs @ ''Z'' \<rparr>)"
proof -
  obtain c w1 ts1 where cmd: "send_command_inner W CMD_PAIR_CONFIRM (public_key (wcrypto W) rnd) 30 ts w = (c, w1, ts1)"
    by (metis prod_cases3)
  have "pairing (coord w1) = pairing (coord w)"
    by (rule send_command_keeps [OF cmd assms(2) stable_fields(1)])
  then show "case r of
      Err e \<Rightarrow> pairing (coord w') = pairing (coord w)
    | Ok x \<Rightarrow> x = (RSP_OK, [RSP_OK]) \<and> pairing_acknowledged ts \<and> (\<exists>shared key.
        diffie_hellman (wcrypto W) rnd pub = Ok shared \<and>
        hkdf (wcrypto W) (as_bytes HKDF_SALT) shared (as_bytes HKDF_INFO) = Some key \<and>
        stored_pairing w' \<lparr> device_uuid = whexe W pub, shared_key = key, paired_at = show_nat secs @ ''Z'' \<rparr>)"
    using assms(1) cmd send_command_ok [of W CMD_PAIR_CONFIRM "public_key (wcrypto W) rnd" 30 ts w _ w1 ts1]
    by (auto simp: pair_confirm_def generate_p256_keypair_def ecdh_shared_secret_def derive_shared_key_def
        stored_pairing_def emit_def not_less Let_def intro: acknowledged_frame split: result.splits if_splits)
  show "set ts' \<subseteq> set ts"
    using assms(1) cmd send_command_suffix [OF cmd]
    by (auto simp: pair_confirm_def generate_p256_keypair_def Let_def split: result.splits if_splits)
qed

definition paired_with :: "world \<Rightarrow> bytes \<Rightarrow> nat \<Rightarrow> tok list \<Rightarrow> worker \<Rightarrow> bool" where
  "paired_with W rnd secs ts w' \<longleftrightarrow>
     (\<exists>frame shared key. Notif frame \<in> set ts \<and> hd frame = CMD_PAIR_INIT \<and> 34 \<le> length frame \<and>
        diffie_hellman (wcrypto W) rnd (slice 1 34 frame) = Ok shared \<and>
        hkdf (wcrypto W) (as_bytes HKDF_SALT) shared (as_bytes HKDF_INFO) = Some key \<and> pairing_acknowledged ts \<and>
        stored_pairing w' \<lparr> device_uuid = whexe W (slice 1 34 frame), shared_key = key,
          paired_at = show_nat secs @ ''Z'' \<rparr>)"

lemma pairing_set_progress [simp]: "pairing (set_pair_progress p c) = pairing c"
  by (simp add: set_pair_progress_def)

lemma pair_answer_facts:
  assumes "pair_answer W sh rsp0 ts w = (m, w', ts')" "env_keeps pairing ts"
    and "rsp0 \<noteq> [] \<and> Notif rsp0 \<in> set us" "set ts \<subseteq> set us"
  shows "set ts' \<subseteq> set ts" "pairing (coord w') = pairing (coord w)"
    "m = Ok v \<Longrightarrow> v \<noteq> [] \<and> Notif v \<in> set us"
  using assms wait_pair_button_facts wait_pair_fp_gate_facts
  by (fastforce simp: pair_answer_def split: if_splits)+

lemma pair_validate_facts:
  assumes "pair_validate W rnd secs rsp ts w = (st, w', ts')" "env_keeps pairing ts"
    and "rsp \<noteq> [] \<and> Notif rsp \<in> set us" "set ts \<subseteq> set us"
  shows "set ts' \<subseteq> set ts" and "case st of
      Finished (Ok x) \<Rightarrow> paired_with W rnd secs us w'
    | _ \<Rightarrow> pairing (coord w') = pairing (coord w)"
proof -
  obtain r w3 ts3 where pc: "pair_confirm W rnd secs (slice 1 34 rsp) ts w = (r, w3, ts3)"
    by (metis prod_cases3)
  note facts = pair_confirm_facts [OF pc assms(2)]
  show "set ts' \<subseteq> set ts"
    using assms(1) pc facts(1) by (auto simp: pair_validate_def split: if_splits)
  have "paired_with W rnd secs us w3" if "r = Ok x" "34 \<le> length rsp" "rsp ! 0 = CMD_PAIR_INIT" for x
  proof -
    have "hd rsp = CMD_PAIR_INIT" using that(3) assms(3) by (simp add: hd_conv_nth)
    moreover have "Notif rsp \<in> set us" using assms(3) by simp
    moreover have "pairing_acknowledged us" using facts(2) that(1) assms(4) by (auto simp: pairing_acknowledged_def)
    ultimately show ?thesis
      using facts(2) that(2) unfolding paired_with_def that(1) result.case by blast
  qed
  then show "case st of
      Finished (Ok x) \<Rightarrow> paired_with W rnd secs us w'
    | _ \<Rightarrow> pairing (coord w') = pairing (coord w)"
    using assms(1) pc facts(2) by (cases r) (auto simp: pair_validate_def split: if_splits)
qed

lemma do_pair_step_facts:
  assumes "do_pair_step W rnd secs sh ts w = (st, w', ts')" "env_keeps pairing ts"
  shows "set ts' \<subseteq> set ts" and "case st of
      Finished (Ok x) \<Rightarrow> paired_with W rnd secs ts w'
    | _ \<Rightarrow> pairing (coord w') = pairing (coord w)"
proof -
  obtain c w1 ts1 where cmd: "send_command_inner W CMD_PAIR_INIT [] 30 ts w = (c, w1, ts1)"
    by (metis prod_cases3)
  note keep1 = send_command_keeps [OF cmd assms(2) stable_fields(1)]
  note sub1 = send_command_suffix [OF cmd]
  note env1 = env_keeps_subset [OF assms(2) sub1]
  have "set ts' \<subseteq> set ts \<and> (case st of Finished (Ok x) \<Rightarrow> paired_with W rnd secs ts w'
      | _ \<Rightarrow> pairing (coord w') = pairing (coord w))"
  proof (cases "\<exists>rsp0. c = Ok rsp0 \<and> rsp0 \<noteq> [0xE1] \<and> rsp0 \<noteq> [CMD_PAIR_INIT, RSP_PAIR_NEEDS_RESET]")
    case False
    then show ?thesis
      using assms(1) cmd keep1 sub1 by (auto simp: do_pair_step_def split: result.splits if_splits)
  next
    case True
    then obtain rsp0 where c: "c = Ok rsp0" by blast
    obtain m w2 ts2 where m: "pair_answer W sh rsp0 ts1 w1 = (m, w2, ts2)" by (metis prod_cases3)
    note mid = pair_answer_facts [OF m env1 send_command_ok [OF cmd [unfolded c]] sub1]
    show ?thesis
    proof (cases m)
      case (Err e)
      then show ?thesis
        using assms(1) True cmd c m mid keep1 sub1 by (auto simp: do_pair_step_def)
    next
      case (Ok rsp)
      then have v: "pair_validate W rnd secs rsp ts2 w2 = (st, w', ts')"
        using assms(1) True cmd c m by (simp add: do_pair_step_def)
      show ?thesis
        using pair_validate_facts [OF v env_keeps_subset [OF env1 mid(1)] mid(3) [OF Ok] subset_trans [OF mid(1) sub1]] mid keep1 sub1
        by (auto split: pair_step.splits result.splits)
    qed
  qed
  then show "set ts' \<subseteq> set ts" and "case st of
      Finished (Ok x) \<Rightarrow> paired_with W rnd secs ts w'
    | _ \<Rightarrow> pairing (coord w') = pairing (coord w)"
    by simp_all
qed

lemma paired_with_mono: "paired_with W rnd secs ts w \<Longrightarrow> set ts \<subseteq> set us \<Longrightarrow> paired_with W rnd secs us w"
  unfolding paired_with_def pairing_acknowledged_def by blast

lemma do_pair_loop_facts:
  "do_pair_loop n W rnd secs sh ts w = (r, w', ts') \<Longrightarrow> env_keeps pairing ts \<Longrightarrow>
     (case r of Ok x \<Rightarrow> paired_with W rnd secs ts w'
      | Err e \<Rightarrow> pairing (coord w') = pairing (coord w))"
proof (induction n arbitrary: ts w)
  case 0
  then show ?case
    using do_pair_step_facts(2) [of W rnd secs sh ts w]
    by (fastforce split: prod.splits pair_step.splits result.splits)
next
  case (Suc n)
  obtain st w1 ts1 where s: "do_pair_step W rnd secs sh ts w = (st, w1, ts1)" by (metis prod_cases3)
  note facts = do_pair_step_facts [OF s Suc.prems(2)]
  show ?case
  proof (cases st)
    case Retry
    then show ?thesis
      using Suc.IH [of ts1 "w1\<lparr> clock := clock w1 + from_secs 5 \<rparr>"] Suc.prems s facts
        env_keeps_subset [OF Suc.prems(2) facts(1)] paired_with_mono [OF _ facts(1)]
      by (auto split: result.splits)
  next
    case (Finished x)
    then show ?thesis using Suc.prems s facts(2) by (auto split: result.splits)
  qed
qed

lemma do_pair_facts:
  assumes "do_pair W rnd secs ts w = (r, w', ts')" "env_keeps pairing ts"
  shows "case r of Ok x \<Rightarrow> paired_with W rnd secs ts w'
    | Err e \<Rightarrow> pairing (coord w') = pairing (coord w)"
proof -
  obtain c w1 ts1 where cmd: "send_command_inner W CMD_SLOT_STATUS [] BLE_COMMAND_TIMEOUT_SECS ts w = (c, w1, ts1)"
    by (metis prod_cases3)
  note sub = send_command_suffix [OF cmd]
  have keep: "pairing (coord w1) = pairing (coord w)"
    by (rule send_command_keeps [OF cmd assms(2) stable_fields(1)])
  obtain sh where l: "do_pair_loop 3 W rnd secs sh ts1 w1 = (r, w', ts')"
    using assms(1) cmd by (simp add: do_pair_def Let_def)
  from do_pair_loop_facts [OF l env_keeps_subset [OF assms(2) sub]] show ?thesis
    using keep paired_with_mono [OF _ sub] by (auto split: result.splits)
qed

text \<open>
  C13: pairing either stores the right key or nothing. On success the device sent a frame
  \<open>[0x30][pubkey:33]\<close> and acknowledged PAIR_CONFIRM with OK, and the key that is stored, and handed over
  to be saved, is HKDF of the Diffie-Hellman secret of our fresh secret and that public key, under the
  protocol's salt and info; on every failure the pairing record is the one from before, as long as the
  other tasks left it alone.
\<close>

theorem pairing_all_or_nothing:
  assumes "do_pair W rnd secs ts w = (r, w', ts')" "env_keeps pairing ts"
  shows "case r of Ok x \<Rightarrow> paired_with W rnd secs ts w'
    | Err e \<Rightarrow> pairing (coord w') = pairing (coord w)"
  by (rule do_pair_facts [OF assms])

definition sample_pair_run :: "tok list" where
  "sample_pair_run = [Notif [RSP_ERROR], Rx, Notif (CMD_PAIR_INIT # 2 # 2 # replicate 31 2), Rx, Notif [CMD_PAIR_CONFIRM, RSP_OK], Rx]"

theorem pairing_all_or_nothing_witness:
  "paired_with sample_world [1] 0 sample_pair_run (fst (snd (do_pair sample_world [1] 0 sample_pair_run three_writes)))"
proof -
  have ok: "is_ok (fst (do_pair sample_world [1] 0 sample_pair_run three_writes))"
    by (simp add: do_pair_def do_pair_step_def sample_pair_run_def three_writes_def run_worker Let_def numeral_3_eq_3
        pair_answer_def pair_validate_def pair_confirm_def generate_p256_keypair_def ecdh_shared_secret_def
        derive_shared_key_def sample_crypto_def parse_slot_status_def is_second_host_def)
  have "env_keeps pairing sample_pair_run" by (simp add: env_keeps_def sample_pair_run_def)
  obtain r w' ts' where e: "do_pair sample_world [1] 0 sample_pair_run three_writes = (r, w', ts')"
    by (metis prod_cases3)
  then show ?thesis
    using pairing_all_or_nothing [OF e \<open>env_keeps pairing sample_pair_run\<close>] ok by (cases r) simp_all
qed

section \<open>The OTA read poll\<close>

text \<open>More rounds than the timeout allows make no difference: the deadline ends the poll first.\<close>

lemma ota_write_cells [simp]: "clock (snd (ota_read h w)) = clock w"
  using local_state_cells(6) [OF helper_io_simps(1), of OtaRead w]
  by (simp add: ota_read_def split_beta)

lemma ota_poll_enough:
  "dl \<le> clock w + n * from_millis 200 \<Longrightarrow> 0 < n \<Longrightarrow> ota_poll (n + k) W dl w = ota_poll n W dl w"
proof (induction n arbitrary: w)
  case (Suc n)
  let ?w = "w\<lparr> clock := clock w + from_millis OTA_READ_POLL_INTERVAL_MS \<rparr>"
  show ?case
  proof (cases "dl \<le> clock ?w")
    case False
    then have "0 < n" using Suc.prems by (cases n) (simp_all add: from_millis_def)
    moreover have "dl \<le> clock (snd (ota_read (whexd W) ?w)) + n * from_millis 200"
      using Suc.prems by simp
    ultimately show ?thesis
      using Suc.IH [of "snd (ota_read (whexd W) ?w)"] False
      by (auto simp: Let_def split: prod.splits result.splits)
  qed (simp add: Let_def)
qed simp

end
