(* ===== verification/Keystore.thy ===== *)
theory Keystore
  imports Utf8 Types_Common
begin

text \<open>
  The key cache of the daemon (\<open>immurok-daemon/src/keystore.rs\<close>): cache entries, digests, the SSH
  public key blob and its fingerprint. The three cache files are the record \<open>key_cache\<close> with their
  decoded contents (a missing or unreadable file is the empty default); writing one may fail. The
  SHA-256 and base64 functions of the crates are parameters.
\<close>

record ssh_key =
  key_index :: byte
  key_name :: string
  public_key_blob :: bytes
  fingerprint :: string

record key_name_entry =
  entry_index :: byte
  category :: string
  entry_name :: string
  service :: string

record digest_entry =
  dcount :: byte
  dchecksum :: "32 word"

record key_cache =
  ssh_keys :: "ssh_key list"
  key_names :: "key_name_entry list"
  digests :: "string \<Rightarrow> digest_entry option"

definition empty_cache :: key_cache where
  "empty_cache = \<lparr> ssh_keys = [], key_names = [], digests = Map.empty \<rparr>"

text \<open>\<open>io f\<close> says whether writing the file \<open>f\<close> succeeds; a failed write leaves the old contents.\<close>

definition save_ssh_keys_to :: "(string \<Rightarrow> bool) \<Rightarrow> ssh_key list \<Rightarrow> key_cache \<Rightarrow> (unit, string) result \<times> key_cache" where
  "save_ssh_keys_to io ks kc =
     (if io SSH_KEYS_FILE then (Ok (), kc\<lparr> ssh_keys := ks \<rparr>) else (Err ''Write'', kc))"

definition save_key_names_to ::
    "(string \<Rightarrow> bool) \<Rightarrow> key_name_entry list \<Rightarrow> key_cache \<Rightarrow> (unit, string) result \<times> key_cache" where
  "save_key_names_to io ns kc =
     (if io KEY_NAMES_FILE then (Ok (), kc\<lparr> key_names := ns \<rparr>) else (Err ''Write'', kc))"

definition save_digests ::
    "(string \<Rightarrow> bool) \<Rightarrow> (string \<Rightarrow> digest_entry option) \<Rightarrow> key_cache \<Rightarrow> (unit, string) result \<times> key_cache" where
  "save_digests io d kc =
     (if io KEYSTORE_DIGESTS_FILE then (Ok (), kc\<lparr> digests := d \<rparr>) else (Err ''Write'', kc))"

section \<open>The SSH public key blob\<close>

definition ssh_string :: "bytes \<Rightarrow> bytes" where
  "ssh_string s = be32 (of_nat (length s)) @ s"

definition build_ssh_public_key_blob :: "bytes \<Rightarrow> bytes option" where
  "build_ssh_public_key_blob pubkey_be =
     (if length pubkey_be \<noteq> 64 then None
      else Some (be32 (of_nat (length ''ecdsa-sha2-nistp256'')) @ as_bytes ''ecdsa-sha2-nistp256'' @
                 be32 (of_nat (length ''nistp256'')) @ as_bytes ''nistp256'' @
                 be32 65 @ 0x04 # pubkey_be))"

fun trim_end_char :: "char \<Rightarrow> string \<Rightarrow> string" where
  "trim_end_char c s = rev (dropWhile (\<lambda>x. x = c) (rev s))"

definition compute_fingerprint :: "(bytes \<Rightarrow> bytes) \<Rightarrow> (bytes \<Rightarrow> string) \<Rightarrow> bytes \<Rightarrow> string" where
  "compute_fingerprint sha256 b64 blob = ''SHA256:'' @ trim_end_char CHR ''='' (b64 (sha256 blob))"

definition convert_endianness_64 :: "bytes \<Rightarrow> bytes" where
  "convert_endianness_64 le =
     (if length le \<noteq> 64 then le
      else map (\<lambda>i. le ! (31 - i)) [0..<32] @ map (\<lambda>i. le ! (63 - i)) [0..<32])"

section \<open>Properties\<close>

lemma map_nth_rev: "n \<le> length xs \<Longrightarrow> map (\<lambda>i. xs ! (n - 1 - i)) [0..<n] = rev (take n xs)"
  by (rule nth_equalityI) (simp_all add: rev_nth)

lemma convert_endianness_eq:
  "length le = 64 \<Longrightarrow> convert_endianness_64 le = rev (take 32 le) @ rev (drop 32 le)"
proof -
  assume l: "length le = 64"
  have a: "map (\<lambda>i. le ! (31 - i)) [0..<32] = rev (take 32 le)"
    using map_nth_rev [of 32 le] l by simp
  have "map (\<lambda>i. le ! (63 - i)) [0..<32] = map (\<lambda>i. drop 32 le ! (32 - 1 - i)) [0..<32]"
    using l by (intro map_cong) simp_all
  also have "\<dots> = rev (take 32 (drop 32 le))"
    by (rule map_nth_rev) (simp add: l)
  also have "\<dots> = rev (drop 32 le)" using l by simp
  finally show ?thesis using a l by (simp add: convert_endianness_64_def)
qed

lemma convert_endianness_length [simp]: "length (convert_endianness_64 le) = length le"
  by (simp add: convert_endianness_64_def)

text \<open>
  Fact: the conversion between the device's and SSH's byte order is an involution on every input, and
  reverses each 32 byte coordinate.
\<close>

theorem convert_endianness_involution:
  "convert_endianness_64 (convert_endianness_64 le) = le"
proof (cases "length le = 64")
  case True
  then show ?thesis
    by (simp add: convert_endianness_eq)
next
  case False
  then show ?thesis by (simp add: convert_endianness_64_def)
qed

lemma blob_as_strings:
  "length pk = 64 \<Longrightarrow> build_ssh_public_key_blob pk =
     Some (ssh_string (as_bytes ''ecdsa-sha2-nistp256'') @ ssh_string (as_bytes ''nistp256'') @
           ssh_string (0x04 # pk))"
  by (simp add: build_ssh_public_key_blob_def ssh_string_def)

lemma blob_length: "build_ssh_public_key_blob pk = Some blob \<Longrightarrow> length blob = 104"
  by (auto simp: build_ssh_public_key_blob_def split: if_splits)

lemma blob_inj:
  "build_ssh_public_key_blob a = Some blob \<Longrightarrow> build_ssh_public_key_blob b = Some blob \<Longrightarrow> a = b"
  by (auto simp: build_ssh_public_key_blob_def split: if_splits)

end
