(* ===== verification/Ble_Sync.thy ===== *)
theory Ble_Sync
  imports Ble_Worker Keystore
begin

text \<open>
  Synchronisation of the key cache with the device (\<open>sync_ssh_keys\<close> and the functions it calls in
  \<open>immurok-daemon/src/ble.rs\<close>), on top of the worker's command wait and the key cache.
\<close>

text \<open>A command that is answered used up a token of the wait.\<close>

lemma select_loop_shrinks:
  "select_loop W branch after expire ts tm w = (r, w', ts') \<Longrightarrow> length ts' \<le> length ts"
proof (induction W branch after expire ts tm w rule: select_loop.induct)
  case (5 W branch after expire ts tm w)
  then show ?case by (auto split: if_splits prod.splits)
qed (auto simp: Let_def split: option.splits prod.splits)

lemma response_branch_armed: "pending_response w = Armed \<Longrightarrow> response_branch m t tm w = None"
  by (simp add: response_branch_def split: tok.split)

lemma response_wait_consumes:
  "select_loop W (response_branch m) no_after expire ts tm w = (Ok v, w', ts') \<Longrightarrow>
     (\<forall>w. \<exists>e. fst (expire w) = Err e) \<Longrightarrow> pending_response w = Armed \<Longrightarrow> length ts' < length ts"
proof (induction ts arbitrary: tm w)
  case Nil
  have "\<exists>e. fst (expire w) = Err e" using Nil(2) by blast
  then show ?case using Nil(1,3) by (auto simp: response_branch_armed split: prod.splits)
next
  case (Cons t ts)
  show ?case
  proof (cases t)
    case (Notif d)
    then show ?thesis
      using Cons.prems select_loop_shrinks [of W "response_branch m" no_after expire ts _ "route W d w"]
      by (auto simp: Let_def less_Suc_eq_le)
  next
    case Deadline
    have "\<exists>e. fst (expire w) = Err e" using Cons.prems(2) by blast
    then show ?thesis
      using Deadline Cons.prems select_loop_shrinks [of W "response_branch m" no_after expire ts tm w]
      by (auto simp: less_Suc_eq_le split: if_splits prod.splits)
  next
    case (Elapse n)
    then show ?thesis
      using Cons.prems select_loop_shrinks [of W "response_branch m" no_after expire ts tm "w\<lparr> clock := clock w + n \<rparr>"]
      by (auto simp: less_Suc_eq_le)
  next
    case (Env f)
    then show ?thesis
      using Cons.prems select_loop_shrinks [of W "response_branch m" no_after expire ts tm "upd_coord f w"]
      by (auto simp: less_Suc_eq_le)
  next
    case Rx
    then show ?thesis
      using Cons.prems select_loop_shrinks [of W "response_branch m" no_after expire ts tm w]
      by (auto simp: less_Suc_eq_le response_branch_armed)
  next
    case RxButton
    then show ?thesis
      using Cons.prems select_loop_shrinks [of W "response_branch m" no_after expire ts tm w]
      by (auto simp: less_Suc_eq_le response_branch_armed)
  next
    case CancelPoll
    then show ?thesis
      using Cons.prems select_loop_shrinks [of W "response_branch m" no_after expire ts tm w]
      by (auto simp: less_Suc_eq_le response_branch_armed)
  qed
qed

lemma send_command_consumes:
  assumes "send_command_inner W cmd p n ts w = (Ok v, w', ts')"
  shows "length ts' < length ts"
  using assms
proof (cases rule: send_command_cases)
  case (wait w1)
  then show ?thesis
    using response_wait_consumes [OF wait(2)] cmd_write_cells(1) [of "packet cmd p" "w\<lparr> pending_response := Armed \<rparr>"]
    by simp
qed simp

section \<open>Reading from the device\<close>

definition digest_hit :: "digest_entry option \<Rightarrow> byte \<Rightarrow> 32 word \<Rightarrow> bool" where
  "digest_hit saved count checksum =
     (if checksum = 0 then False
      else case saved of Some s \<Rightarrow> dcount s = count \<and> dchecksum s = checksum | None \<Rightarrow> False)"

definition get_key_count_inner ::
    "world \<Rightarrow> byte \<Rightarrow> tok list \<Rightarrow> worker \<Rightarrow> (byte \<times> 32 word, string) result \<times> worker \<times> tok list" where
  "get_key_count_inner W cat ts w0 =
     (case send_command_inner W CMD_KEY_COUNT [cat] BLE_COMMAND_TIMEOUT_SECS ts w0 of
        (Err e, w, ts') \<Rightarrow> (Err e, w, ts')
      | (Ok rsp, w, ts') \<Rightarrow>
          if length rsp < 2 \<or> rsp ! 0 \<noteq> RSP_OK
          then (Err (''KEY_COUNT failed: ['' @ whexe W rsp @ '']''), w, ts')
          else (Ok (rsp ! 1, if 6 \<le> length rsp
                             then from_le32 (rsp ! 2) (rsp ! 3) (rsp ! 4) (rsp ! 5) else 0), w, ts'))"

text \<open>
  The chunk loop has no bound of its own: it goes on as long as the device answers with fewer bytes
  than it announced. Each round uses up an answer of the device, which is what makes the
  recursion end here.
\<close>

function read_key_entry_inner ::
    "world \<Rightarrow> byte \<Rightarrow> byte \<Rightarrow> bytes \<Rightarrow> tok list \<Rightarrow> worker \<Rightarrow> (bytes, string) result \<times> worker \<times> tok list" where
  "read_key_entry_inner W cat idx full ts w0 =
     (case send_command_inner W CMD_KEY_READ [cat, idx, of_nat (length full)] BLE_COMMAND_TIMEOUT_SECS ts w0 of
        (Err e, w, ts') \<Rightarrow> (Err e, w, ts')
      | (Ok rsp, w, ts') \<Rightarrow>
          if length rsp < 3 \<or> rsp ! 0 \<noteq> RSP_OK
          then (Err (''KEY_READ failed: ['' @ whexe W rsp @ '']''), w, ts')
          else let tot = unat (rsp ! 1); full' = full @ drop 3 rsp in
            if tot \<le> length full' then (Ok (take tot full'), w, ts')
            else read_key_entry_inner W cat idx full' ts' w)"
  by pat_completeness auto
termination
  by (relation "measure (\<lambda>(W, cat, idx, full, ts, w). length ts)")
    (auto dest: send_command_consumes [OF sym])

declare read_key_entry_inner.simps [simp del]

definition c_string :: "bytes \<Rightarrow> string" where
  "c_string bs = from_utf8_lossy (of_bytes (takeWhile (\<lambda>b. b \<noteq> 0) bs))"

definition ssh_entry_of ::
    "(bytes \<Rightarrow> bytes) \<Rightarrow> (bytes \<Rightarrow> string) \<Rightarrow> byte \<Rightarrow> bytes \<Rightarrow> ssh_key list" where
  "ssh_entry_of sha256 b64 idx d =
     (if length d < 80 then []
      else case build_ssh_public_key_blob (convert_endianness_64 (slice 16 80 d)) of
        Some blob \<Rightarrow> [\<lparr> key_index = idx, key_name = c_string (slice 0 16 d),
                       public_key_blob = blob, fingerprint = compute_fingerprint sha256 b64 blob \<rparr>]
      | None \<Rightarrow> [])"

fun read_ssh_entries ::
    "world \<Rightarrow> (bytes \<Rightarrow> bytes) \<Rightarrow> (bytes \<Rightarrow> string) \<Rightarrow> byte \<Rightarrow> byte list \<Rightarrow> tok list \<Rightarrow> worker \<Rightarrow>
      ssh_key list \<times> worker \<times> tok list" where
  "read_ssh_entries W sha256 b64 cat [] ts w = ([], w, ts)"
| "read_ssh_entries W sha256 b64 cat (idx # idxs) ts w =
     (case read_key_entry_inner W cat idx [] ts w of
        (r, w', ts') \<Rightarrow>
          (let here = (case r of Ok d \<Rightarrow> ssh_entry_of sha256 b64 idx d | Err _ \<Rightarrow> []) in
           case read_ssh_entries W sha256 b64 cat idxs ts' w' of
             (es, w'', ts'') \<Rightarrow> (here @ es, w'', ts'')))"

definition name_len :: "byte \<Rightarrow> nat" where
  "name_len cat = (if cat = KEY_CAT_OTP then NAME_LEN_OTP
                   else if cat = KEY_CAT_API then NAME_LEN_API else NAME_LEN_SSH)"

definition name_entry_of :: "byte \<Rightarrow> string \<Rightarrow> byte \<Rightarrow> bytes \<Rightarrow> key_name_entry list" where
  "name_entry_of cat cat_str idx d =
     (let n = name_len cat in
      if length d < n then []
      else [\<lparr> entry_index = idx, category = cat_str, entry_name = c_string (slice 0 n d),
             service = (if cat = KEY_CAT_OTP \<and> n + SERVICE_LEN_OTP \<le> length d
                        then c_string (slice n (n + SERVICE_LEN_OTP) d) else []) \<rparr>])"

fun read_name_entries ::
    "world \<Rightarrow> byte \<Rightarrow> string \<Rightarrow> byte list \<Rightarrow> tok list \<Rightarrow> worker \<Rightarrow>
      key_name_entry list \<times> worker \<times> tok list" where
  "read_name_entries W cat cat_str [] ts w = ([], w, ts)"
| "read_name_entries W cat cat_str (idx # idxs) ts w =
     (case read_key_entry_inner W cat idx [] ts w of
        (r, w', ts') \<Rightarrow>
          (let here = (case r of Ok d \<Rightarrow> name_entry_of cat cat_str idx d | Err _ \<Rightarrow> []) in
           case read_name_entries W cat cat_str idxs ts' w' of
             (es, w'', ts'') \<Rightarrow> (here @ es, w'', ts'')))"

section \<open>The synchronisation\<close>

type_synonym digest_map = "string \<Rightarrow> digest_entry option"

definition sync_ssh_part ::
    "world \<Rightarrow> (bytes \<Rightarrow> bytes) \<Rightarrow> (bytes \<Rightarrow> string) \<Rightarrow> (string \<Rightarrow> bool) \<Rightarrow> digest_map \<Rightarrow> tok list \<Rightarrow>
      worker \<Rightarrow> key_cache \<Rightarrow> (digest_map, string) result \<times> key_cache \<times> worker \<times> tok list" where
  "sync_ssh_part W sha256 b64 io saved ts w kc =
     (case get_key_count_inner W KEY_CAT_SSH ts w of
        (Err e, w1, ts1) \<Rightarrow> (Err e, kc, w1, ts1)
      | (Ok (n, c), w1, ts1) \<Rightarrow>
          if digest_hit (saved ''ssh'') n c then (Ok saved, kc, w1, ts1)
          else case read_ssh_entries W sha256 b64 KEY_CAT_SSH (u8_range n) ts1 w1 of
            (entries, w2, ts2) \<Rightarrow> (case save_ssh_keys_to io entries kc of
              (Err e, kc') \<Rightarrow> (Err e, kc', w2, ts2)
            | (Ok _, kc') \<Rightarrow>
                (Ok (saved(''ssh'' \<mapsto> \<lparr> dcount = n, dchecksum = c \<rparr>)), kc', w2, ts2)))"

definition name_entries ::
    "world \<Rightarrow> bool \<Rightarrow> byte \<Rightarrow> string \<Rightarrow> byte \<Rightarrow> tok list \<Rightarrow> worker \<Rightarrow> key_cache \<Rightarrow>
      key_name_entry list \<times> worker \<times> tok list" where
  "name_entries W hit cat cat_str n ts w kc =
     (if hit then (filter (\<lambda>e. category e = cat_str) (key_names kc), w, ts)
      else read_name_entries W cat cat_str (u8_range n) ts w)"

definition sync_names_part ::
    "world \<Rightarrow> (string \<Rightarrow> bool) \<Rightarrow> digest_map \<Rightarrow> digest_map \<Rightarrow> tok list \<Rightarrow>
      worker \<Rightarrow> key_cache \<Rightarrow> (digest_map, string) result \<times> key_cache \<times> worker \<times> tok list" where
  "sync_names_part W io saved fresh ts w kc =
     (case get_key_count_inner W KEY_CAT_OTP ts w of
        (Err e, w1, ts1) \<Rightarrow> (Err e, kc, w1, ts1)
      | (Ok (on, oc), w1, ts1) \<Rightarrow> (case get_key_count_inner W KEY_CAT_API ts1 w1 of
        (Err e, w2, ts2) \<Rightarrow> (Err e, kc, w2, ts2)
      | (Ok (an, ac), w2, ts2) \<Rightarrow>
          (let otp_hit = digest_hit (saved ''otp'') on oc; api_hit = digest_hit (saved ''api'') an ac in
           if otp_hit \<and> api_hit then (Ok fresh, kc, w2, ts2)
           else case name_entries W otp_hit KEY_CAT_OTP ''otp'' on ts2 w2 kc of (otp, w3, ts3) \<Rightarrow>
                (case name_entries W api_hit KEY_CAT_API ''api'' an ts3 w3 kc of (api, w4, ts4) \<Rightarrow>
                (case save_key_names_to io (otp @ api) kc of
                   (Err e, kc') \<Rightarrow> (Err e, kc', w4, ts4)
                 | (Ok _, kc') \<Rightarrow>
                     (Ok (fresh(''otp'' \<mapsto> \<lparr> dcount = on, dchecksum = oc \<rparr>,
                                ''api'' \<mapsto> \<lparr> dcount = an, dchecksum = ac \<rparr>)), kc', w4, ts4))))))"

definition sync_ssh_keys ::
    "world \<Rightarrow> (bytes \<Rightarrow> bytes) \<Rightarrow> (bytes \<Rightarrow> string) \<Rightarrow> (string \<Rightarrow> bool) \<Rightarrow> tok list \<Rightarrow>
      worker \<Rightarrow> key_cache \<Rightarrow> (unit, string) result \<times> key_cache \<times> worker \<times> tok list" where
  "sync_ssh_keys W sha256 b64 io ts w kc =
     (case sync_ssh_part W sha256 b64 io (digests kc) ts w kc of
        (Err e, kc1, w1, ts1) \<Rightarrow> (Err e, kc1, w1, ts1)
      | (Ok fresh, kc1, w1, ts1) \<Rightarrow>
          (case sync_names_part W io (digests kc) fresh ts1 w1 kc1 of
             (Err e, kc2, w2, ts2) \<Rightarrow> (Err e, kc2, w2, ts2)
           | (Ok fresh', kc2, w2, ts2) \<Rightarrow> (Ok (), snd (save_digests io fresh' kc2), w2, ts2)))"

section \<open>Properties\<close>

lemma digest_hit_zero [simp]: "\<not> digest_hit s n 0"
  by (simp add: digest_hit_def)

lemma digest_hit_same [simp]: "c \<noteq> 0 \<Longrightarrow> digest_hit (Some \<lparr> dcount = n, dchecksum = c \<rparr>) n c"
  by (simp add: digest_hit_def)

text \<open>A helper that no longer answers: every command fails and no wait begins.\<close>

lemma cmd_write_dead:
  "helper_replies w = [] \<Longrightarrow>
     \<exists>e w'. cmd_write d w = (Err e, w') \<and> helper_replies w' = []"
  by (simp add: cmd_write_def helper_io_def next_reply_def wait_write_ok_def)

lemma send_command_dead:
  assumes "helper_replies w = []"
  shows "\<exists>e w'. send_command_inner W cmd p n ts w = (Err e, w', ts) \<and> helper_replies w' = []"
  using cmd_write_dead [of "w\<lparr> pending_response := Armed \<rparr>" "packet cmd p"] assms
  by (auto simp: send_command_inner_def)

lemma read_key_entry_dead:
  assumes "helper_replies w = []"
  shows "\<exists>e w'. read_key_entry_inner W cat idx full ts w = (Err e, w', ts) \<and> helper_replies w' = []"
proof -
  obtain e w' where "send_command_inner W CMD_KEY_READ [cat, idx, of_nat (length full)]
      BLE_COMMAND_TIMEOUT_SECS ts w = (Err e, w', ts)" "helper_replies w' = []"
    using send_command_dead [OF assms] by blast
  then show ?thesis by (subst read_key_entry_inner.simps) simp
qed

lemma read_ssh_entries_dead:
  "helper_replies w = [] \<Longrightarrow> \<exists>w'. read_ssh_entries W sha256 b64 cat idxs ts w = ([], w', ts)"
proof (induction idxs arbitrary: w)
  case (Cons idx idxs)
  obtain e w' where "read_key_entry_inner W cat idx [] ts w = (Err e, w', ts)" "helper_replies w' = []"
    using read_key_entry_dead [OF Cons.prems] by blast
  then show ?case using Cons.IH [of w'] by auto
qed simp

text \<open>
  Fact: an unchanged digest skips the reads and leaves the cache as it is; a checksum of zero, which
  old firmware reports, never counts as unchanged.
\<close>

theorem digest_hit_skips_reads:
  assumes "get_key_count_inner W KEY_CAT_SSH ts w = (Ok (n, c), w1, ts1)"
    and "saved ''ssh'' = Some \<lparr> dcount = n, dchecksum = c \<rparr>"
  shows "if c \<noteq> 0
    then sync_ssh_part W sha256 b64 io saved ts w kc = (Ok saved, kc, w1, ts1)
    else \<not> digest_hit (saved ''ssh'') n c"
  using assms by (simp add: sync_ssh_part_def)

definition count_frame :: bytes where
  "count_frame = [0x00, 2, 5, 0, 0, 0]"

lemma count_sample:
  "\<exists>w1. get_key_count_inner sample_world KEY_CAT_SSH [Notif count_frame, Rx]
       (idle_worker\<lparr> helper_replies := [HLine ''WRITE_OK''] \<rparr>) = (Ok (2, 5), w1, []) \<and> helper_replies w1 = []"
  by (simp add: get_key_count_inner_def run_worker count_frame_def from_le32_def Let_def)

theorem digest_hit_skips_reads_witness:
  "\<exists>w1. sync_ssh_part sample_world id (\<lambda>_. []) (\<lambda>_. True) [''ssh'' \<mapsto> \<lparr> dcount = 2, dchecksum = 5 \<rparr>]
     [Notif count_frame, Rx] (idle_worker\<lparr> helper_replies := [HLine ''WRITE_OK''] \<rparr>) empty_cache =
     (Ok [''ssh'' \<mapsto> \<lparr> dcount = 2, dchecksum = 5 \<rparr>], empty_cache, w1, [])"
  using count_sample digest_hit_skips_reads [where n = 2 and c = 5] by fastforce

text \<open>
  Fact: reads that fail are skipped but the digest is recorded all the same. When the link stops
  answering after the count, the cache is replaced by an empty one and the device's digest is
  stored as current, so that the next synchronisation takes the cache for up to date.
\<close>

theorem failed_reads_recorded_as_synced:
  assumes "get_key_count_inner W KEY_CAT_SSH ts w = (Ok (n, c), w1, ts1)"
    and "helper_replies w1 = []" "c \<noteq> 0" "\<not> digest_hit (saved ''ssh'') n c" "io SSH_KEYS_FILE"
  shows "\<exists>fresh kc' w2. sync_ssh_part W sha256 b64 io saved ts w kc = (Ok fresh, kc', w2, ts1) \<and>
    ssh_keys kc' = [] \<and> digest_hit (fresh ''ssh'') n c"
  using read_ssh_entries_dead [OF assms(2), of W sha256 b64 0 "u8_range n" ts1] assms
  by (auto simp: sync_ssh_part_def save_ssh_keys_to_def)

theorem failed_reads_recorded_as_synced_witness:
  "\<exists>fresh kc' w2. sync_ssh_part sample_world id (\<lambda>_. []) (\<lambda>_. True) Map.empty
     [Notif count_frame, Rx] (idle_worker\<lparr> helper_replies := [HLine ''WRITE_OK''] \<rparr>) empty_cache =
       (Ok fresh, kc', w2, []) \<and> ssh_keys kc' = [] \<and> digest_hit (fresh ''ssh'') 2 5"
proof -
  obtain w1 where "get_key_count_inner sample_world KEY_CAT_SSH [Notif count_frame, Rx]
       (idle_worker\<lparr> helper_replies := [HLine ''WRITE_OK''] \<rparr>) = (Ok (2, 5), w1, [])" "helper_replies w1 = []"
    using count_sample by blast
  from failed_reads_recorded_as_synced [OF this] show ?thesis by (simp add: digest_hit_def)
qed

text \<open>An empty chunk makes no progress: the same request is sent again, without a bound.\<close>

lemma empty_chunk_repeats:
  "send_command_inner W CMD_KEY_READ [cat, idx, of_nat (length full)] BLE_COMMAND_TIMEOUT_SECS ts w
     = (Ok [RSP_OK, tot, off], w', ts') \<Longrightarrow> length full < unat tot \<Longrightarrow>
   read_key_entry_inner W cat idx full ts w = read_key_entry_inner W cat idx full ts' w'"
  by (subst read_key_entry_inner.simps) simp

end
