(* ===== verification/Ble_Session.thy ===== *)
theory Ble_Session
  imports Ble_Sync
begin

text \<open>
  A BLE connection as a whole (\<open>immurok-daemon/src/ble.rs\<close>): the commands of the other tasks, the
  start of a connection with GET_STATUS and the challenge, the main loop's events, the end of a
  session and the cadence of reconnection. Discovery over D-Bus and the start of the helper
  are in \<open>Ble_Discovery\<close>: a connection starts here once the helper reported READY.
\<close>

section \<open>Commands\<close>

datatype ble_command =
    SendCommand byte bytes
  | SendFpGated byte bytes
  | Pair
  | SyncKeys
  | AuthRequest
  | OtaWriteRead bytes nat
  | OtaWriteOnly bytes
  | Disconnect

datatype cmd_reply =
    BleReply ble_result
  | BoolReply "(bool, string) result"
  | BytesReply "(bytes, string) result"
  | UnitReply "(unit, string) result"
  | NoReply

text \<open>What a session takes beside the world: hash, base64, file writes, randomness and time.\<close>

record session_env =
  sw :: world
  sha256 :: "bytes \<Rightarrow> bytes"
  base64 :: "bytes \<Rightarrow> string"
  file_io :: "string \<Rightarrow> bool"
  random :: "nat \<Rightarrow> bytes"
  unix_secs :: nat

text \<open>An answer is split into its first byte and the rest; an empty answer would panic at \<open>data[1..]\<close>.\<close>

definition split_answer :: "(bytes, string) result \<Rightarrow> ble_result option" where
  "split_answer r = (case r of
     Ok [] \<Rightarrow> None
   | Ok (b # rest) \<Rightarrow> Some (Ok (b, rest))
   | Err e \<Rightarrow> Some (Err e))"

definition handle_ble_command ::
    "session_env \<Rightarrow> ble_command \<Rightarrow> tok list \<Rightarrow> worker \<times> key_cache \<Rightarrow>
      cmd_reply option \<times> (worker \<times> key_cache) \<times> tok list" where
  "handle_ble_command E cmd ts s = (case s of (w, kc) \<Rightarrow> (case cmd of
     SendCommand c payload \<Rightarrow>
       (case send_command_inner (sw E) c payload BLE_COMMAND_TIMEOUT_SECS ts w of
          (r, w', ts') \<Rightarrow> (map_option BleReply (split_answer r), (w', kc), ts'))
   | SendFpGated c payload \<Rightarrow>
       (case send_fp_gated_inner (sw E) c payload ts w of
          (r, w', ts') \<Rightarrow> (Some (BleReply r), (w', kc), ts'))
   | Pair \<Rightarrow>
       (case do_pair (sw E) (random E 0) (unix_secs E) ts w of
          (r, w', ts') \<Rightarrow> (Some (BleReply r),
            (upd_coord (set_pair_progress (if is_ok r then PDone else PFailed)) w', kc), ts'))
   | AuthRequest \<Rightarrow>
       (case do_auth_request (sw E) ts w of
          (r, w', ts') \<Rightarrow> (Some (BoolReply r), (w', kc), ts'))
   | OtaWriteRead d ms \<Rightarrow>
       (case ota_write_and_read (sw E) d ms w of
          (r, w') \<Rightarrow> (Some (BytesReply r), (w', kc), ts))
   | OtaWriteOnly d \<Rightarrow>
       (case ota_write_only d w of
          (r, w') \<Rightarrow> (Some (UnitReply r), (w', kc), ts))
   | SyncKeys \<Rightarrow>
       (case sync_ssh_keys (sw E) (sha256 E) (base64 E) (file_io E) ts w kc of
          (r, kc', w', ts') \<Rightarrow> (Some (UnitReply r), (w', kc'), ts'))
   | Disconnect \<Rightarrow> (Some NoReply, (abort_pending w, kc), ts)))"

section \<open>The start of a connection\<close>

definition byte_str :: "byte \<Rightarrow> string" where
  "byte_str b = show_word b"

definition firmware_string :: "bytes \<Rightarrow> string" where
  "firmware_string rsp =
     (let ver = byte_str (rsp ! 4) @ ''.'' @ byte_str (rsp ! 5) @ ''.'' @ byte_str (rsp ! 6) in
      if 8 \<le> length rsp then
        (let build = push_bit 8 (ucast (rsp ! 7)) OR ucast (unwrap_or 0 (get_at rsp 8)) :: 16 word
         in ver @ ''.'' @ show_hex (unat build))
      else if 7 \<le> length rsp then ver
      else [])"

definition status_of_response :: "bytes \<Rightarrow> device_status option" where
  "status_of_response rsp =
     (if 4 \<le> length rsp \<and> rsp ! 0 = RSP_OK
      then Some \<lparr> fp_bitmap = rsp ! 1, dev_paired = (rsp ! 2 \<noteq> 0), battery = rsp ! 3,
                  fw_version = firmware_string rsp, pending_match = None \<rparr>
      else None)"

text \<open>A connection has a new helper process and a new \<open>BleState\<close>.\<close>

definition session_begin :: "worker \<Rightarrow> worker" where
  "session_begin w = (worker_new (helper_replies w) ((coord w)\<lparr> is_connected := True,
     is_device_verified := False, challenge_verified := False \<rparr>))\<lparr> clock := clock w \<rparr>"

definition get_status ::
    "world \<Rightarrow> tok list \<Rightarrow> worker \<Rightarrow> bool option \<times> worker \<times> tok list" where
  "get_status W ts w0 =
     (case send_command_inner W CMD_GET_STATUS [] BLE_COMMAND_TIMEOUT_SECS ts w0 of
        (r, w, ts') \<Rightarrow> (case Option.bind (ok r) status_of_response of
          Some ds \<Rightarrow> (Some (dev_paired ds), upd_coord (\<lambda>c. c\<lparr> device_status := Some ds \<rparr>) w, ts')
        | None \<Rightarrow> (None, w, ts')))"

definition UNPAIRED_NOTE :: string where
  "UNPAIRED_NOTE = ''NOTIFY:Device is no longer paired with this computer '' @
     [CHR 0xE2, CHR 0x80, CHR 0x94] @ '' run '' @ [CHR 0x27] @ ''immurok-cli pair'' @ [CHR 0x27] @ '' to pair again''"

definition note_disowned :: "bool \<Rightarrow> coordinator \<Rightarrow> coordinator" where
  "note_disowned disowned c =
     (if disowned then snd (push_ui UNPAIRED_NOTE (c\<lparr> device_reports_unpaired := True \<rparr>))
      else c\<lparr> device_reports_unpaired := False \<rparr>)"

definition challenge_frame :: "bytes \<Rightarrow> bool" where
  "challenge_frame rsp \<longleftrightarrow> 9 \<le> length rsp \<and> rsp ! 0 = CMD_CHALLENGE"

definition set_verified :: "bool \<Rightarrow> worker \<Rightarrow> worker" where
  "set_verified proof_given = upd_coord (\<lambda>c. c\<lparr> is_device_verified := True,
     challenge_verified := (challenge_verified c \<or> proof_given) \<rparr>)"

definition check_challenge :: "world \<Rightarrow> bytes \<Rightarrow> bytes \<Rightarrow> bytes \<Rightarrow> worker \<Rightarrow> worker" where
  "check_challenge W key nonce rsp w =
     (if verify_challenge_response (wcrypto W) key nonce (slice 1 9 rsp) then set_verified True w else w)"

text \<open>
  The challenge with its one retry. The result is an error only when nothing at all is known of
  the device: no answer here and none to GET_STATUS.
\<close>

definition challenge ::
    "session_env \<Rightarrow> bytes \<Rightarrow> bool option \<Rightarrow> tok list \<Rightarrow> worker \<Rightarrow> (unit, string) result \<times> worker \<times> tok list" where
  "challenge E key reported ts w =
     (let W = sw E in
      case send_command_inner W CMD_CHALLENGE (random E 1) BLE_COMMAND_TIMEOUT_SECS ts w of
        (Ok rsp, w1, ts1) \<Rightarrow>
          if challenge_frame rsp then (Ok (), check_challenge W key (random E 1) rsp w1, ts1)
          else (case send_command_inner W CMD_CHALLENGE (random E 2) BLE_COMMAND_TIMEOUT_SECS ts1 w1 of
            (Ok rsp2, w2, ts2) \<Rightarrow>
              if challenge_frame rsp2
              then (Ok (), check_challenge W key (random E 2) rsp2 w2, ts2)
              else (Ok (), set_verified False w2, ts2)
          | (Err e, w2, ts2) \<Rightarrow> (Ok (), set_verified False w2, ts2))
      | (Err e, w1, ts1) \<Rightarrow>
          if reported \<noteq> None then (Ok (), set_verified False w1, ts1)
          else (Err (''no usable BLE link: '' @ e), w1, ts1))"

definition verify_device ::
    "session_env \<Rightarrow> bool option \<Rightarrow> tok list \<Rightarrow> worker \<Rightarrow> (unit, string) result \<times> worker \<times> tok list" where
  "verify_device E reported ts w =
     (let disowned = pairing (coord w) \<noteq> None \<and> reported = Some False;
          w' = upd_coord (note_disowned disowned) w
      in if disowned then (Ok (), w', ts)
         else case pairing (coord w') of
           Some p \<Rightarrow> challenge E (shared_key p) reported ts w'
         | None \<Rightarrow> (Ok (), set_verified False w', ts))"

definition connect_session ::
    "session_env \<Rightarrow> tok list \<Rightarrow> worker \<times> key_cache \<Rightarrow>
      (unit, string) result \<times> (worker \<times> key_cache) \<times> tok list" where
  "connect_session E ts s = (case s of (w0, kc) \<Rightarrow>
     (case get_status (sw E) ts (session_begin w0) of (reported, w1, ts1) \<Rightarrow>
     (case verify_device E reported ts1 w1 of
        (Err e, w2, ts2) \<Rightarrow> (Err e, (w2, kc), ts2)
      | (Ok _, w2, ts2) \<Rightarrow>
          if is_device_verified (coord w2)
          then (case sync_ssh_keys (sw E) (sha256 E) (base64 E) (file_io E) ts2 w2 kc of
                  (r, kc', w3, ts3) \<Rightarrow> (Ok (), (w3, kc'), ts3))
          else (Ok (), (w2, kc), ts2))))"

section \<open>The main loop and the end of a session\<close>

datatype session_event = Notification bytes | Command ble_command "tok list" | Gone | QueueClosed

datatype loop_result = Running "cmd_reply option" | Ended "(unit, string) result"

definition serve_event ::
    "session_env \<Rightarrow> session_event \<Rightarrow> worker \<times> key_cache \<Rightarrow> loop_result \<times> worker \<times> key_cache" where
  "serve_event E ev s = (case s of (w, kc) \<Rightarrow> (case ev of
     Notification d \<Rightarrow> (Running None, route (sw E) d w, kc)
   | Command cmd ts \<Rightarrow> (case handle_ble_command E cmd ts (w, kc) of
       (r, (w', kc'), ts') \<Rightarrow> (Running r, w', kc'))
   | Gone \<Rightarrow> (Ended (Err ''device disconnected''), helper_quit (abort_pending w), kc)
   | QueueClosed \<Rightarrow> (Ended (Ok ()), helper_quit w, kc)))"

definition session_ended :: "coordinator \<Rightarrow> coordinator" where
  "session_ended c = c\<lparr> is_connected := False, is_device_verified := False,
     challenge_verified := False, device_status := None \<rparr>"

text \<open>The wait before the next attempt and the backoff after it, in seconds.\<close>

definition next_backoff :: "nat \<Rightarrow> nat \<Rightarrow> nat \<times> nat" where
  "next_backoff elapsed_ns backoff =
     (let b = (if from_secs BLE_SESSION_STABLE_SECS \<le> elapsed_ns then BLE_RECONNECT_INTERVAL_SECS else backoff)
      in (b, min (b * 2) BLE_RECONNECT_BACKOFF_MAX_SECS))"

text \<open>The cadence of active connects: attempts left of a resume burst and the idle interval.\<close>

type_synonym cadence = "nat \<times> nat"

definition cadence_start :: cadence where
  "cadence_start = (0, BLE_ACTIVE_RECONNECT_INTERVAL_SECS)"

definition cadence_resume :: cadence where
  "cadence_resume = (unat BLE_RESUME_BURST_ATTEMPTS, BLE_ACTIVE_RECONNECT_INTERVAL_SECS)"

fun cadence_wait :: "cadence \<Rightarrow> nat \<times> cadence" where
  "cadence_wait (burst, idle) =
     (if 0 < burst then (BLE_RESUME_BURST_INTERVAL_SECS, (burst - 1, idle))
      else (idle, (0, min (idle * 2) BLE_ACTIVE_RECONNECT_MAX_SECS)))"

text \<open>One event of the driver: a failed attempt followed by its wait, or a resume kick.\<close>

datatype cadence_event = AttemptFailed | ResumeKick

fun cadence_step :: "cadence_event \<Rightarrow> cadence \<Rightarrow> cadence" where
  "cadence_step AttemptFailed s = snd (cadence_wait s)"
| "cadence_step ResumeKick s = cadence_resume"

section \<open>What a synchronisation keeps\<close>

lemma get_key_count_facts:
  assumes "get_key_count_inner W cat ts w = (r, w', ts')"
  shows "set ts' \<subseteq> set ts \<and> (stable g \<longrightarrow> env_keeps g ts \<longrightarrow> g (coord w') = g (coord w))"
proof -
  obtain c w1 ts1 where cmd: "send_command_inner W CMD_KEY_COUNT [cat] BLE_COMMAND_TIMEOUT_SECS ts w = (c, w1, ts1)"
    by (metis prod_cases3)
  then have "w' = w1" "ts' = ts1"
    using assms by (auto simp: get_key_count_inner_def split: result.splits if_splits)
  then show ?thesis using send_command_suffix [OF cmd] send_command_keeps [OF cmd] by blast
qed

lemma read_key_entry_facts:
  "read_key_entry_inner W cat idx full ts w = (r, w', ts') \<Longrightarrow>
     set ts' \<subseteq> set ts \<and> (stable g \<longrightarrow> env_keeps g ts \<longrightarrow> g (coord w') = g (coord w))"
proof (induction W cat idx full ts w rule: read_key_entry_inner.induct)
  case (1 W cat idx full ts w)
  obtain c w1 ts1 where cmd: "send_command_inner W CMD_KEY_READ [cat, idx, of_nat (length full)]
      BLE_COMMAND_TIMEOUT_SECS ts w = (c, w1, ts1)"
    by (metis prod_cases3)
  note facts = send_command_suffix [OF cmd] send_command_keeps [OF cmd]
  show ?case
  proof (cases "\<exists>rsp. c = Ok rsp \<and> \<not> (length rsp < 3 \<or> rsp ! 0 \<noteq> RSP_OK) \<and>
      length (full @ drop 3 rsp) < unat (rsp ! 1)")
    case True
    then obtain rsp where c: "c = Ok rsp" and rsp: "\<not> (length rsp < 3 \<or> rsp ! 0 \<noteq> RSP_OK)"
      and more: "\<not> unat (rsp ! 1) \<le> length (full @ drop 3 rsp)"
      by fastforce
    then have rec: "read_key_entry_inner W cat idx (full @ drop 3 rsp) ts1 w1 = (r, w', ts')"
      using 1(2) cmd by (subst (asm) read_key_entry_inner.simps) (simp add: Let_def)
    have ih: "set ts' \<subseteq> set ts1 \<and> (stable g \<longrightarrow> env_keeps g ts1 \<longrightarrow> g (coord w') = g (coord w1))"
      by (rule 1(1) [OF cmd [symmetric] c refl rsp refl refl more rec])
    then show ?thesis
      using facts env_keeps_subset [OF _ facts(1)] by (metis order_trans)
  next
    case False
    then have "w' = w1 \<and> ts' = ts1"
      using 1(2) cmd
      by (subst (asm) read_key_entry_inner.simps) (auto simp: Let_def split: result.splits if_splits)
    then show ?thesis using facts by blast
  qed
qed

lemma read_ssh_entries_facts:
  "read_ssh_entries W sha b64 cat idxs ts w = (es, w', ts') \<Longrightarrow>
     set ts' \<subseteq> set ts \<and> (stable g \<longrightarrow> env_keeps g ts \<longrightarrow> g (coord w') = g (coord w))"
proof (induction idxs arbitrary: ts w es)
  case (Cons idx idxs)
  obtain r w1 ts1 where e: "read_key_entry_inner W cat idx [] ts w = (r, w1, ts1)" by (metis prod_cases3)
  obtain es2 where r: "read_ssh_entries W sha b64 cat idxs ts1 w1 = (es2, w', ts')"
    using Cons.prems e by (auto simp: Let_def split: prod.splits)
  show ?case
    using Cons.IH [OF r] read_key_entry_facts [OF e, of g] env_keeps_subset [of g ts ts1]
    by (metis order_trans)
qed simp

lemma read_name_entries_facts:
  "read_name_entries W cat cs idxs ts w = (es, w', ts') \<Longrightarrow>
     set ts' \<subseteq> set ts \<and> (stable g \<longrightarrow> env_keeps g ts \<longrightarrow> g (coord w') = g (coord w))"
proof (induction idxs arbitrary: ts w es)
  case (Cons idx idxs)
  obtain r w1 ts1 where e: "read_key_entry_inner W cat idx [] ts w = (r, w1, ts1)" by (metis prod_cases3)
  obtain es2 where r: "read_name_entries W cat cs idxs ts1 w1 = (es2, w', ts')"
    using Cons.prems e by (auto simp: Let_def split: prod.splits)
  show ?case
    using Cons.IH [OF r] read_key_entry_facts [OF e, of g] env_keeps_subset [of g ts ts1]
    by (metis order_trans)
qed simp

text \<open>Composition of two steps that keep \<open>g\<close> and only use up tokens.\<close>

definition quiet :: "(coordinator \<Rightarrow> 'b) \<Rightarrow> tok list \<Rightarrow> worker \<Rightarrow> worker \<Rightarrow> tok list \<Rightarrow> bool" where
  "quiet g ts w w' ts' \<longleftrightarrow>
     set ts' \<subseteq> set ts \<and> (stable g \<longrightarrow> env_keeps g ts \<longrightarrow> g (coord w') = g (coord w))"

lemma quiet_refl [simp]: "quiet g ts w w ts"
  by (simp add: quiet_def)

lemma quiet_trans: "quiet g ts w w1 ts1 \<Longrightarrow> quiet g ts1 w1 w2 ts2 \<Longrightarrow> quiet g ts w w2 ts2"
  unfolding quiet_def using env_keeps_subset [of g ts ts1] by (metis order_trans)

lemmas quiet_steps = get_key_count_facts [folded quiet_def] read_ssh_entries_facts [folded quiet_def]
  read_name_entries_facts [folded quiet_def]

lemma name_entries_quiet:
  "name_entries W hit cat cs n ts w kc = (es, w', ts') \<Longrightarrow> quiet g ts w w' ts'"
  by (auto simp: name_entries_def intro: quiet_steps(3) split: if_splits)

lemma sync_ssh_part_quiet:
  assumes "sync_ssh_part W sha b64 io saved ts w kc = (r, kc', w', ts')"
  shows "quiet g ts w w' ts'"
proof -
  obtain c w1 ts1 where c: "get_key_count_inner W KEY_CAT_SSH ts w = (c, w1, ts1)" by (metis prod_cases3)
  note q1 = quiet_steps(1) [OF c, of g]
  show ?thesis
    using assms c q1 quiet_trans [OF q1 quiet_steps(2)]
    by (auto simp: sync_ssh_part_def split: result.splits prod.splits if_splits)
qed

lemma sync_names_part_quiet:
  assumes "sync_names_part W io saved fresh ts w kc = (r, kc', w', ts')"
  shows "quiet g ts w w' ts'"
proof -
  obtain c w1 ts1 where c: "get_key_count_inner W KEY_CAT_OTP ts w = (c, w1, ts1)" by (metis prod_cases3)
  obtain d w2 ts2 where d: "get_key_count_inner W KEY_CAT_API ts1 w1 = (d, w2, ts2)" by (metis prod_cases3)
  note q1 = quiet_steps(1) [OF c, of g] and q2 = quiet_trans [OF quiet_steps(1) [OF c, of g] quiet_steps(1) [OF d]]
  show ?thesis
    using assms c d q1 q2 quiet_trans [OF quiet_trans [OF q2 name_entries_quiet] name_entries_quiet]
    by (auto simp: sync_names_part_def Let_def split: result.splits prod.splits if_splits)
qed

lemma sync_ssh_keys_quiet:
  assumes "sync_ssh_keys W sha b64 io ts w kc = (r, kc', w', ts')"
  shows "quiet g ts w w' ts'"
proof -
  obtain c k1 w1 ts1 where c: "sync_ssh_part W sha b64 io (digests kc) ts w kc = (c, k1, w1, ts1)"
    by (metis prod_cases4)
  note q1 = sync_ssh_part_quiet [OF c, of g]
  show ?thesis
    using assms c q1 quiet_trans [OF q1 sync_names_part_quiet]
    by (auto simp: sync_ssh_keys_def split: result.splits prod.splits)
qed

section \<open>What a connection establishes\<close>

definition verification where
  "verification c = (pairing c, is_device_verified c, challenge_verified c)"

lemma stable_verification: "stable verification"
  by (simp add: stable_def verification_def untouched_def)

definition proven :: "session_env \<Rightarrow> pairing_data option \<Rightarrow> tok list \<Rightarrow> bool" where
  "proven E pd ts \<longleftrightarrow> (\<exists>p frame nonce. pd = Some p \<and> Notif frame \<in> set ts \<and> challenge_frame frame \<and>
     nonce \<in> {random E 1, random E 2} \<and>
     verify_challenge_response (wcrypto (sw E)) (shared_key p) nonce (slice 1 9 frame))"

lemma send_command_verification:
  assumes "send_command_inner W cmd p n ts w = (r, w', ts')" "env_keeps verification ts"
  shows "verification (coord w') = verification (coord w) \<and> set ts' \<subseteq> set ts \<and> env_keeps verification ts'"
  using send_command_keeps [OF assms stable_verification] send_command_suffix [OF assms(1)]
    env_keeps_subset [OF assms(2)] by blast

lemma verificationD:
  "verification c' = verification c \<Longrightarrow> pairing c' = pairing c \<and>
     is_device_verified c' = is_device_verified c \<and> challenge_verified c' = challenge_verified c"
  by (simp add: verification_def)

lemma check_challenge_facts:
  assumes "challenge_verified (coord (check_challenge W key nonce rsp w))" "\<not> challenge_verified (coord w)"
  shows "verify_challenge_response (wcrypto W) key nonce (slice 1 9 rsp)"
  using assms by (auto simp: check_challenge_def split: if_splits)

lemma check_challenge_pairing [simp]:
  "pairing (coord (check_challenge W key nonce rsp w)) = pairing (coord w)"
  "pairing (coord (set_verified b w)) = pairing (coord w)"
  "challenge_verified (coord (set_verified b w)) = (challenge_verified (coord w) \<or> b)"
  by (simp_all add: check_challenge_def set_verified_def)

lemma challenge_sound:
  assumes "challenge E (shared_key p) reported ts w = (r, w', ts')" "env_keeps verification ts"
    and "\<not> challenge_verified (coord w)" "challenge_verified (coord w')"
  shows "proven E (Some p) ts"
proof -
  obtain c w1 ts1 where c: "send_command_inner (sw E) CMD_CHALLENGE (random E 1) BLE_COMMAND_TIMEOUT_SECS ts w = (c, w1, ts1)"
    by (metis prod_cases3)
  note v1 = send_command_verification [OF c assms(2)]
  have n1: "\<not> challenge_verified (coord w1)" using v1 assms(3) verificationD by blast
  obtain d w2 ts2 where d: "send_command_inner (sw E) CMD_CHALLENGE (random E 2) BLE_COMMAND_TIMEOUT_SECS ts1 w1 = (d, w2, ts2)"
    by (metis prod_cases3)
  have n2: "\<not> challenge_verified (coord w2)"
    using send_command_verification [OF d] v1 n1 verificationD by blast
  have "\<exists>frame nonce. Notif frame \<in> set ts \<and> challenge_frame frame \<and> nonce \<in> {random E 1, random E 2} \<and>
      verify_challenge_response (wcrypto (sw E)) (shared_key p) nonce (slice 1 9 frame)"
    using assms(1,4) c d n1 n2 v1 send_command_ok [of "sw E" CMD_CHALLENGE] check_challenge_facts
    by (auto simp: challenge_def Let_def split: result.splits if_splits)
      (metis (no_types, lifting) send_command_ok subsetD check_challenge_facts insertI1 insertI2)+
  then show ?thesis unfolding proven_def by blast
qed

lemma session_begin_facts [simp]:
  "pairing (coord (session_begin w)) = pairing (coord w)"
  "\<not> challenge_verified (coord (session_begin w))"
  by (simp_all add: session_begin_def worker_new_def)

lemma get_status_facts:
  assumes "get_status W ts w = (rep, w', ts')" "env_keeps verification ts"
  shows "verification (coord w') = verification (coord w)" "set ts' \<subseteq> set ts"
  using send_command_verification [OF _ assms(2)] assms(1)
  by (auto simp: get_status_def verification_def split: prod.splits option.splits)

lemma note_disowned_facts [simp]:
  "pairing (note_disowned d c) = pairing c"
  "challenge_verified (note_disowned d c) = challenge_verified c"
  "is_device_verified (note_disowned d c) = is_device_verified c"
  "device_reports_unpaired (note_disowned d c) = d"
  by (simp_all add: note_disowned_def push_ui_def emit_def split: option.split)

lemma verify_device_sound:
  assumes "verify_device E rep ts w = (r, w', ts')" "env_keeps verification ts"
    and "\<not> challenge_verified (coord w)" "challenge_verified (coord w')"
  shows "proven E (pairing (coord w)) ts"
proof (cases "pairing (coord w)")
  case None
  then show ?thesis using assms by (auto simp: verify_device_def Let_def)
next
  case (Some p)
  then have "challenge E (shared_key p) rep ts (upd_coord (note_disowned False) w) = (r, w', ts')"
    using assms by (auto simp: verify_device_def Let_def split: if_splits)
  from challenge_sound [OF this assms(2) _ assms(4)] show ?thesis using assms(3) Some by simp
qed

lemma connect_parts:
  assumes "connect_session E ts (w, kc) = (r, (w', kc'), ts')" "env_keeps verification ts"
  obtains rep w1 ts1 r2 w2 ts2 where
    "get_status (sw E) ts (session_begin w) = (rep, w1, ts1)" "verify_device E rep ts1 w1 = (r2, w2, ts2)"
    "env_keeps verification ts2 \<longrightarrow> verification (coord w') = verification (coord w2)"
proof -
  obtain rep w1 ts1 where g: "get_status (sw E) ts (session_begin w) = (rep, w1, ts1)" by (metis prod_cases3)
  obtain r2 w2 ts2 where v: "verify_device E rep ts1 w1 = (r2, w2, ts2)" by (metis prod_cases3)
  have "env_keeps verification ts2 \<longrightarrow> verification (coord w') = verification (coord w2)"
    using assms(1) g v stable_verification
    by (auto simp: connect_session_def quiet_def dest!: sync_ssh_keys_quiet [where g = verification]
      split: result.splits if_splits prod.splits)
  from that [OF g v this] show ?thesis .
qed

lemma verify_device_suffix:
  assumes "verify_device E rep ts w = (r, w', ts')"
  shows "set ts' \<subseteq> set ts"
proof -
  have "set ts2 \<subseteq> set ts1" if "challenge E key rep ts1 w1 = (r2, w2, ts2)" for key ts1 w1 r2 w2 ts2
    using that
    by (auto simp: challenge_def Let_def split: result.splits prod.splits if_splits
        dest!: send_command_suffix)
  then show ?thesis using assms
    by (auto simp: verify_device_def Let_def split: if_splits option.splits)
qed

lemma verified_proven:
  assumes "connect_session E ts (w, kc) = (r, (w', kc'), ts')" "env_keeps verification ts"
    and "challenge_verified (coord w')"
  shows "proven E (pairing (coord w)) ts"
proof -
  obtain rep w1 ts1 r2 w2 ts2 where g: "get_status (sw E) ts (session_begin w) = (rep, w1, ts1)"
    and v: "verify_device E rep ts1 w1 = (r2, w2, ts2)"
    and k: "env_keeps verification ts2 \<longrightarrow> verification (coord w') = verification (coord w2)"
    using connect_parts [OF assms(1,2)] by metis
  note g1 = get_status_facts [OF g assms(2)]
  note env1 = env_keeps_subset [OF assms(2) g1(2)]
  have "challenge_verified (coord w2)"
    using k assms(3) env_keeps_subset [OF env1 verify_device_suffix [OF v]] by (simp add: verification_def)
  moreover have "pairing (coord w1) = pairing (coord w)" "\<not> challenge_verified (coord w1)"
    using g1(1) by (simp_all add: verification_def)
  ultimately have "proven E (pairing (coord w)) ts1"
    using verify_device_sound [OF v env1] by simp
  then show ?thesis using g1(2) unfolding proven_def by blast
qed

text \<open>
  C12: after a connection has been set up, \<open>challenge_verified\<close> means what its comment says. It is
  set only if the host is paired and the device sent, in this connection, a challenge frame whose
  eight bytes are the keyed MAC of one of the two nonces drawn for it. The optimistic fallbacks, the
  status and the key synchronisation never set it, whatever the device sends.
\<close>

theorem connect_challenge_sound:
  assumes "connect_session E ts (w, kc) = (r, (w', kc'), ts')" "env_keeps verification ts"
    and "challenge_verified (coord w')"
  shows "proven E (pairing (coord w)) ts"
  by (rule verified_proven [OF assms])

text \<open>
  Fact: a device that answers GET_STATUS with "not paired" while this host holds a pairing is never
  marked verified in that connection. No challenge is sent, the user is told, and the session goes
  on so that pairing again stays possible.
\<close>

theorem disowned_never_verified:
  assumes "get_status (sw E) ts (session_begin w) = (Some False, w1, ts1)"
    and "pairing (coord w) \<noteq> None" "env_keeps verification ts"
    and "connect_session E ts (w, kc) = (r, (w', kc'), ts')"
  shows "r = Ok () \<and> ts' = ts1 \<and> \<not> is_device_verified (coord w') \<and> \<not> challenge_verified (coord w') \<and>
    device_reports_unpaired (coord w')"
proof -
  have v1: "verification (coord w1) = verification (coord (session_begin w))"
    using get_status_facts(1) [OF assms(1,3)] .
  then have "pairing (coord w1) \<noteq> None" "\<not> is_device_verified (coord w1)" "\<not> challenge_verified (coord w1)"
    using assms(2) by (simp_all add: verification_def session_begin_def worker_new_def)
  then show ?thesis
    using assms(1,4) by (auto simp: connect_session_def verify_device_def Let_def)
qed

section \<open>Concrete connections\<close>

definition sample_env :: session_env where
  "sample_env = \<lparr> sw = sample_world, sha256 = (\<lambda>d. d), base64 = (\<lambda>d. []), file_io = (\<lambda>f. True),
     random = (\<lambda>n. replicate 8 (of_nat n)), unix_secs = 17 \<rparr>"

definition paired_worker :: worker where
  "paired_worker = worker_new [HLine ''WRITE_OK'', HLine ''WRITE_OK'', HLine ''WRITE_OK'', HLine ''WRITE_OK'', HLine ''WRITE_OK'']
     (coordinator_new\<lparr> pairing := Some sample_pairing \<rparr>)"

definition good_device :: "tok list" where
  "good_device = [Notif [0, 3, 1, 80], Rx, Notif [0x38, 7, 7, 7, 7, 7, 7, 7, 7], Rx]"

definition silent_device :: "tok list" where
  "silent_device = [Notif [0, 3, 1, 80], Rx, Notif [5], Rx, Notif [5], Rx]"

definition disowning_device :: "tok list" where
  "disowning_device = [Notif [0, 3, 0, 80], Rx]"

lemmas run_session = run_worker get_status_def session_begin_def status_of_response_def
  verify_device_def challenge_def challenge_frame_def check_challenge_def set_verified_def
  note_disowned_def sample_env_def paired_worker_def coordinator_new_def firmware_string_def

lemma challenge_sample [simp]:
  "verify_challenge_response sample_crypto (shared_key sample_pairing) n [7, 7, 7, 7, 7, 7, 7, 7]"
  by (simp add: sample_crypto_def sample_pairing_def verify_challenge_response_def
      compute_challenge_response_def hmac_truncated_def eval_nat_numeral)

lemma connect_verification:
  assumes "env_keeps verification ts" "get_status (sw E) ts (session_begin w) = (rep, w1, ts1)"
  shows "verification (coord (fst (fst (snd (connect_session E ts (w, kc)))))) =
    verification (coord (fst (snd (verify_device E rep ts1 w1))))"
proof -
  obtain r2 w2 ts2 where v: "verify_device E rep ts1 w1 = (r2, w2, ts2)" by (metis prod_cases3)
  obtain r w' kc' ts' where c: "connect_session E ts (w, kc) = (r, (w', kc'), ts')"
    by (metis surj_pair)
  have "env_keeps verification ts2"
    using env_keeps_subset [OF assms(1)] get_status_facts(2) [OF assms(2,1)] verify_device_suffix [OF v]
    by blast
  then have "verification (coord w') = verification (coord w2)"
    using connect_parts [OF c assms(1)] assms(2) v by (metis Pair_inject)
  then show ?thesis using c v by simp
qed

lemma good_run:
  "challenge_verified (coord (fst (fst (snd (connect_session sample_env good_device (paired_worker, empty_cache))))))"
proof -
  obtain rep w1 ts1 where g: "get_status (sw sample_env) good_device (session_begin paired_worker) = (rep, w1, ts1)"
    by (metis prod_cases3)
  have "env_keeps verification good_device" by (simp add: env_keeps_def good_device_def)
  moreover have "challenge_verified (coord (fst (snd (verify_device sample_env rep ts1 w1))))"
    using g by (simp add: good_device_def run_session Let_def slice_def, elim conjE, hypsubst)
      (simp add: run_session Let_def slice_def)
  ultimately show ?thesis using connect_verification [OF _ g] verificationD by blast
qed

theorem connect_challenge_sound_witness:
  "proven sample_env (Some sample_pairing) good_device"
proof -
  obtain r w' kc' ts' where c: "connect_session sample_env good_device (paired_worker, empty_cache) = (r, (w', kc'), ts')"
    by (metis surj_pair)
  have "env_keeps verification good_device" by (simp add: env_keeps_def good_device_def)
  moreover have "challenge_verified (coord w')" using good_run c by simp
  ultimately show ?thesis
    using connect_challenge_sound [OF c] by (simp add: paired_worker_def worker_new_def)
qed

lemma disowning_run:
  "fst (get_status (sw sample_env) disowning_device (session_begin paired_worker)) = Some False"
  by (simp add: disowning_device_def run_session Let_def)

theorem disowned_never_verified_witness:
  "\<not> is_device_verified (coord (fst (fst (snd
     (connect_session sample_env disowning_device (paired_worker, empty_cache))))))"
proof -
  obtain r w' kc' ts' where c: "connect_session sample_env disowning_device (paired_worker, empty_cache) = (r, (w', kc'), ts')"
    by (metis surj_pair)
  obtain rep w1 ts1 where g: "get_status (sw sample_env) disowning_device (session_begin paired_worker) = (rep, w1, ts1)"
    by (metis prod_cases3)
  have "rep = Some False" using disowning_run g by simp
  moreover have "env_keeps verification disowning_device" "pairing (coord paired_worker) \<noteq> None"
    by (simp_all add: env_keeps_def disowning_device_def paired_worker_def worker_new_def)
  ultimately show ?thesis using disowned_never_verified [of sample_env] g c by fastforce
qed

lemma unanswered_challenge:
  assumes "challenge E key (Some b) ts w = (r, w', ts')" "\<forall>f. Notif f \<in> set ts \<longrightarrow> \<not> challenge_frame f"
  shows "r = Ok () \<and> is_device_verified (coord w')"
proof -
  obtain c w1 ts1 where c: "send_command_inner (sw E) CMD_CHALLENGE (random E 1) BLE_COMMAND_TIMEOUT_SECS ts w = (c, w1, ts1)"
    by (metis prod_cases3)
  obtain d w2 ts2 where d: "send_command_inner (sw E) CMD_CHALLENGE (random E 2) BLE_COMMAND_TIMEOUT_SECS ts1 w1 = (d, w2, ts2)"
    by (metis prod_cases3)
  have "\<not> challenge_frame f" if "c = Ok f" for f
    using send_command_ok [OF c [unfolded that]] assms(2) by blast
  moreover have "\<not> challenge_frame f" if "d = Ok f" for f
    using send_command_ok [OF d [unfolded that]] send_command_suffix [OF c] assms(2) by blast
  ultimately show ?thesis
    using assms(1) c d by (auto simp: challenge_def Let_def set_verified_def split: result.splits)
qed

text \<open>
  C15: the compatibility fallback. A device that says it is paired and never sends a challenge frame is
  marked verified by the end of the connection, whatever else it sends, although it proved nothing; and
  from then on an AUTH_REQUEST is approved by its bare OK.
\<close>

theorem legacy_fallback_unauthenticated:
  assumes "connect_session E ts (w, kc) = (r, (w', kc'), ts')" "env_keeps verification ts"
    and "\<forall>f. Notif f \<in> set ts \<longrightarrow> \<not> challenge_frame f"
    and "fst (get_status (sw E) ts (session_begin w)) = Some True"
  shows "is_device_verified (coord w') \<and> \<not> challenge_verified (coord w') \<and>
    (\<forall>later rest w2 ts2. send_command_inner (sw E) CMD_AUTH_REQUEST [] BLE_COMMAND_TIMEOUT_SECS later w' =
        (Ok (RSP_OK # rest), w2, ts2) \<longrightarrow> fst (do_auth_request (sw E) later w') = Ok True)"
proof -
  obtain rep w1 ts1 where g: "get_status (sw E) ts (session_begin w) = (rep, w1, ts1)" by (metis prod_cases3)
  obtain r2 w2 ts2 where v: "verify_device E rep ts1 w1 = (r2, w2, ts2)" by (metis prod_cases3)
  have rep: "rep = Some True" using assms(4) g by simp
  have quiet: "\<forall>f. Notif f \<in> set ts1 \<longrightarrow> \<not> challenge_frame f"
    using assms(3) get_status_facts(2) [OF g assms(2)] by blast
  have "is_device_verified (coord w2)"
    using v rep unanswered_challenge [OF _ quiet, of E _ True "upd_coord (note_disowned False) w1"]
    by (auto simp: verify_device_def Let_def set_verified_def split: option.splits)
  then have "is_device_verified (coord w')"
    using connect_verification [OF assms(2) g, of kc] assms(1) v verificationD by fastforce
  moreover have "\<not> challenge_verified (coord w')"
  proof
    assume "challenge_verified (coord w')"
    then have "proven E (pairing (coord w)) ts" using verified_proven [OF assms(1,2)] by blast
    then show False using assms(3) by (auto simp: proven_def)
  qed
  ultimately show ?thesis by (simp add: do_auth_request_def)
qed

theorem legacy_fallback_unauthenticated_witness:
  "is_device_verified (coord (fst (fst (snd (connect_session sample_env silent_device (paired_worker, empty_cache))))))"
proof -
  obtain r w' kc' ts' where c: "connect_session sample_env silent_device (paired_worker, empty_cache) = (r, (w', kc'), ts')"
    by (metis surj_pair)
  have "env_keeps verification silent_device" "\<forall>f. Notif f \<in> set silent_device \<longrightarrow> \<not> challenge_frame f"
    by (auto simp: env_keeps_def silent_device_def challenge_frame_def)
  moreover have "fst (get_status (sw sample_env) silent_device (session_begin paired_worker)) = Some True"
    by (simp add: silent_device_def run_session Let_def)
  ultimately show ?thesis using legacy_fallback_unauthenticated [OF c] c by simp
qed

section \<open>Commands always come back\<close>

text \<open>
  Fact: the worker answers every command. The one expression of \<open>handle_ble_command\<close> that could panic,
  \<open>data[1..]\<close> on an empty response, is never reached with one, because the notification router never
  delivers an empty frame.
\<close>

theorem handle_ble_command_total:
  "fst (handle_ble_command E cmd ts (w, kc)) \<noteq> None"
proof (cases cmd)
  case (SendCommand c p)
  obtain r w' ts' where s: "send_command_inner (sw E) c p BLE_COMMAND_TIMEOUT_SECS ts w = (r, w', ts')"
    by (metis prod_cases3)
  have "split_answer r \<noteq> None"
    using s send_command_ok [of "sw E" c p] by (cases r) (auto simp: split_answer_def split: list.splits)
  then show ?thesis using SendCommand s by (simp add: handle_ble_command_def)
qed (auto simp: handle_ble_command_def split: prod.splits)

section \<open>The cadence of reconnection\<close>

definition cadence_inv :: "cadence \<Rightarrow> bool" where
  "cadence_inv s \<longleftrightarrow> fst s \<le> unat BLE_RESUME_BURST_ATTEMPTS \<and>
     BLE_ACTIVE_RECONNECT_INTERVAL_SECS \<le> snd s \<and> snd s \<le> BLE_ACTIVE_RECONNECT_MAX_SECS"

interpretation cadence: event_machine cadence_step cadence_inv
proof
  fix s :: cadence and e
  assume "cadence_inv s"
  then show "cadence_inv (cadence_step e s)"
    by (cases s; cases e) (auto simp: cadence_inv_def cadence_resume_def)
qed

text \<open>
  Fact: whatever the sequence of failed attempts and resume kicks, the driver waits at least the burst
  interval and at most the maximum between two active connects: it neither spins nor stops.
\<close>

theorem cadence_wait_bounds:
  "BLE_RESUME_BURST_INTERVAL_SECS \<le> fst (cadence_wait (fold cadence_step es cadence_start)) \<and>
   fst (cadence_wait (fold cadence_step es cadence_start)) \<le> BLE_ACTIVE_RECONNECT_MAX_SECS"
proof -
  have "cadence_inv (fold cadence_step es cadence_start)"
    by (rule cadence.run_inv) (simp add: cadence_inv_def cadence_start_def)
  then show ?thesis
    by (cases "fold cadence_step es cadence_start") (auto simp: cadence_inv_def)
qed

text \<open>The session backoff stays between its base and its ceiling, and a stable session resets it.\<close>

lemma next_backoff_bounds:
  "BLE_RECONNECT_INTERVAL_SECS \<le> b \<Longrightarrow> b \<le> BLE_RECONNECT_BACKOFF_MAX_SECS \<Longrightarrow>
     next_backoff e b = (wait, b') \<Longrightarrow>
     BLE_RECONNECT_INTERVAL_SECS \<le> wait \<and> wait \<le> BLE_RECONNECT_BACKOFF_MAX_SECS \<and>
     BLE_RECONNECT_INTERVAL_SECS \<le> b' \<and> b' \<le> BLE_RECONNECT_BACKOFF_MAX_SECS"
  by (auto simp: next_backoff_def Let_def split: if_splits)

end
