(* ===== verification/Ble_Link.thy ===== *)
theory Ble_Link
  imports Ble_Session Socket_Proto
begin

text \<open>
  The channel between the handlers and the BLE worker (the \<open>ble_*\<close> calls of \<open>coordinator.rs\<close>). A
  handler sees the coordinator and, behind the channel, the rest of the world \<open>'d\<close>; sending a
  command and awaiting its reply is one call of the link. The contract the handlers rely on is the
  locale \<open>ble_link\<close>; the BLE worker of \<open>Ble_Session\<close> is its instance.
\<close>

datatype delivery = ChannelClosed | ReplyDropped | Replied cmd_reply

type_synonym 'd sys = "coordinator \<times> 'd"
type_synonym 'd link = "ble_command \<Rightarrow> 'd sys \<Rightarrow> delivery \<times> 'd sys"

definition delivered :: "(cmd_reply \<Rightarrow> ('a, string) result option) \<Rightarrow> delivery \<Rightarrow> ('a, string) result" where
  "delivered pick dl = (case dl of
     ChannelClosed \<Rightarrow> Err ''BLE channel closed''
   | ReplyDropped \<Rightarrow> Err ''BLE reply dropped''
   | Replied r \<Rightarrow> unwrap_or (Err ''BLE reply dropped'') (pick r))"

definition pick_ble :: "cmd_reply \<Rightarrow> ble_result option" where
  "pick_ble r = (case r of BleReply b \<Rightarrow> Some b | _ \<Rightarrow> None)"

definition pick_bool :: "cmd_reply \<Rightarrow> (bool, string) result option" where
  "pick_bool r = (case r of BoolReply b \<Rightarrow> Some b | _ \<Rightarrow> None)"

definition pick_bytes :: "cmd_reply \<Rightarrow> (bytes, string) result option" where
  "pick_bytes r = (case r of BytesReply b \<Rightarrow> Some b | _ \<Rightarrow> None)"

definition pick_unit :: "cmd_reply \<Rightarrow> (unit, string) result option" where
  "pick_unit r = (case r of UnitReply b \<Rightarrow> Some b | _ \<Rightarrow> None)"

definition ble_send :: "'d link \<Rightarrow> byte \<Rightarrow> bytes \<Rightarrow> 'd sys \<Rightarrow> ble_result \<times> 'd sys" where
  "ble_send L cmd p s = (case L (SendCommand cmd p) s of (dl, s') \<Rightarrow> (delivered pick_ble dl, s'))"

definition ble_send_fp_gated :: "'d link \<Rightarrow> byte \<Rightarrow> bytes \<Rightarrow> 'd sys \<Rightarrow> ble_result \<times> 'd sys" where
  "ble_send_fp_gated L cmd p s = (case L (SendFpGated cmd p) s of (dl, s') \<Rightarrow> (delivered pick_ble dl, s'))"

definition ble_auth_request :: "'d link \<Rightarrow> 'd sys \<Rightarrow> (bool, string) result \<times> 'd sys" where
  "ble_auth_request L s = (case L AuthRequest s of (dl, s') \<Rightarrow> (delivered pick_bool dl, s'))"

definition link_ota_write_and_read ::
    "'d link \<Rightarrow> bytes \<Rightarrow> nat \<Rightarrow> 'd sys \<Rightarrow> (bytes, string) result \<times> 'd sys" where
  "link_ota_write_and_read L d ms s =
     (case L (OtaWriteRead d ms) s of (dl, s') \<Rightarrow> (delivered pick_bytes dl, s'))"

definition link_ota_write :: "'d link \<Rightarrow> bytes \<Rightarrow> 'd sys \<Rightarrow> (unit, string) result \<times> 'd sys" where
  "link_ota_write L d s = (case L (OtaWriteOnly d) s of (dl, s') \<Rightarrow> (delivered pick_unit dl, s'))"

definition sync_keys :: "'d link \<Rightarrow> 'd sys \<Rightarrow> (unit, string) result \<times> 'd sys" where
  "sync_keys L s = (case L SyncKeys s of (dl, s') \<Rightarrow> (delivered pick_unit dl, s'))"

definition cancel_active_gate :: "coordinator \<Rightarrow> bool \<times> coordinator" where
  "cancel_active_gate c = (if gate_active c then (True, c\<lparr> gate_cancel := True \<rparr>) else (False, c))"

section \<open>The contract\<close>

text \<open>
  What the handlers rely on: a gated command succeeds with status OK only, and no command but the
  pairing itself writes the pairing. \<open>good\<close> restricts what the other tasks may do meanwhile.
\<close>

locale ble_link =
  fixes L :: "'d link" and good :: "'d sys \<Rightarrow> bool"
  assumes gated_status:
      "good s \<Longrightarrow> L (SendFpGated op p) s = (Replied (BleReply (Ok (st, d))), s') \<Longrightarrow> st = RSP_OK"
    and call_keeps: "good s \<Longrightarrow> cmd \<noteq> Pair \<Longrightarrow> L cmd s = (dl, s') \<Longrightarrow>
      good s' \<and> pairing (fst s') = pairing (fst s)"
begin

lemma gated_ok:
  "good s \<Longrightarrow> ble_send_fp_gated L cmd p s = (Ok (st, d), s') \<Longrightarrow> st = RSP_OK"
  using gated_status [of s cmd p st d s']
  by (auto simp: ble_send_fp_gated_def delivered_def pick_ble_def
      split: prod.splits delivery.splits cmd_reply.splits)

lemma send_keeps:
  "good s \<Longrightarrow> ble_send L cmd p s = (r, s') \<Longrightarrow> good s' \<and> pairing (fst s') = pairing (fst s)"
  using call_keeps [of s "SendCommand cmd p"]
  by (auto simp: ble_send_def split: prod.splits)

lemma gated_keeps:
  "good s \<Longrightarrow> ble_send_fp_gated L cmd p s = (r, s') \<Longrightarrow> good s' \<and> pairing (fst s') = pairing (fst s)"
  using call_keeps [of s "SendFpGated cmd p"]
  by (auto simp: ble_send_fp_gated_def split: prod.splits)

lemma sync_keeps:
  "good s \<Longrightarrow> sync_keys L s = (r, s') \<Longrightarrow> good s' \<and> pairing (fst s') = pairing (fst s)"
  using call_keeps [of s SyncKeys]
  by (auto simp: sync_keys_def split: prod.splits)

end

section \<open>The worker as a link\<close>

type_synonym device = "worker \<times> key_cache \<times> tok list"

definition worker_link :: "session_env \<Rightarrow> device link" where
  "worker_link E cmd s = (case s of (c, w, kc, ts) \<Rightarrow>
     (case handle_ble_command E cmd ts (w\<lparr> coord := c \<rparr>, kc) of
        (r, (w', kc'), ts') \<Rightarrow>
          ((case r of None \<Rightarrow> ReplyDropped | Some v \<Rightarrow> Replied v), coord w', w', kc', ts')))"

definition link_good :: "device sys \<Rightarrow> bool" where
  "link_good s \<longleftrightarrow> (case s of (c, w, kc, ts) \<Rightarrow> env_keeps pairing ts)"

text \<open>A wait keeps the pairing when its branches and its expiry do.\<close>

lemma select_pairing:
  assumes "select_loop W branch after expire ts tm w = (r, w', ts')" "env_keeps pairing ts"
    and "\<And>t tm v r v'. branch t tm v = Some (r, v') \<Longrightarrow> pairing (coord v') = pairing (coord v)"
    and "\<And>v. pairing (coord (snd (expire v))) = pairing (coord v)"
  shows "pairing (coord w') = pairing (coord w)"
proof (rule select_loop_rule [OF assms(1), where I = "\<lambda>v. pairing (coord v) = pairing (coord w)"
      and Q = "\<lambda>r v. pairing (coord v) = pairing (coord w)"])
  show "pairing (coord (route W d v)) = pairing (coord w)" if "pairing (coord v) = pairing (coord w)" for d v
    using that stable_route [OF stable_fields(1)] by simp
  show "pairing (coord (upd_coord f v)) = pairing (coord w)"
    if "pairing (coord v) = pairing (coord w)" "Env f \<in> set ts" for f v
    using that assms(2) by (simp add: env_keeps_def)
qed (simp_all add: assms(3,4))

lemma gate_branch_pairing: "gate_branch t tm v = Some (r, v') \<Longrightarrow> pairing (coord v') = pairing (coord v)"
  by (auto simp: gate_branch_def split: tok.splits cell.splits if_splits)

lemma auth_branch_pairing: "auth_branch t tm v = Some (r, v') \<Longrightarrow> pairing (coord v') = pairing (coord v)"
  by (auto simp: auth_branch_def split: tok.splits cell.splits if_splits)

text \<open>A command keeps the pairing and leaves a suffix of the schedule.\<close>

definition harmless :: "tok list \<Rightarrow> worker \<Rightarrow> worker \<Rightarrow> tok list \<Rightarrow> bool" where
  "harmless ts w w' ts' \<longleftrightarrow> set ts' \<subseteq> set ts \<and> pairing (coord w') = pairing (coord w)"

lemma send_harmless:
  "send_command_inner W cmd p n ts w = (r, w', ts') \<Longrightarrow> env_keeps pairing ts \<Longrightarrow> harmless ts w w' ts'"
  using send_command_suffix [of W cmd p n ts w] send_command_keeps [of W cmd p n ts w]
    stable_fields(1) by (auto simp: harmless_def)

lemma wait_harmless:
  assumes "harmless ts w w1 ts1" "select_loop W branch after expire ts1 tm v = (r, w', ts')"
    and "env_keeps pairing ts" "pairing (coord v) = pairing (coord w1)"
    and "\<And>t tm v r v'. branch t tm v = Some (r, v') \<Longrightarrow> pairing (coord v') = pairing (coord v)"
    and "\<And>v. pairing (coord (snd (expire v))) = pairing (coord v)"
  shows "harmless ts w w' ts'"
proof -
  have "env_keeps pairing ts1" using assms(1,3) env_keeps_subset by (auto simp: harmless_def)
  from select_pairing [OF assms(2) this assms(5,6)] show ?thesis
    using assms(1,4) select_loop_suffix [OF assms(2)] by (auto simp: harmless_def)
qed

lemma gated_harmless:
  assumes "send_fp_gated_inner W cmd p ts w = (r, w', ts')" "env_keeps pairing ts"
  shows "harmless ts w w' ts'"
  using assms(1)
proof (cases rule: send_fp_gated_cases)
  case (gate s rest w1 w2 ts1)
  have "harmless ts w w2 ts'"
    by (rule wait_harmless [OF send_harmless [OF gate(1) assms(2)] gate(4) assms(2)])
      (simp_all add: gate_branch_pairing gate_expire_def enter_gate_def set_gate_active_def)
  then show ?thesis using gate(3) by (simp add: harmless_def set_gate_active_def)
qed (use send_harmless [OF _ assms(2)] in blast)+

lemma auth_harmless:
  assumes "do_auth_request W ts w = (r, w', ts')" "env_keeps pairing ts"
  shows "harmless ts w w' ts'"
proof -
  obtain c w1 ts1 where c: "send_command_inner W CMD_AUTH_REQUEST [] BLE_COMMAND_TIMEOUT_SECS ts w = (c, w1, ts1)"
    by (metis prod_cases3)
  note h = send_harmless [OF c assms(2)]
  show ?thesis
  proof (cases "\<exists>rest. c = Ok (RSP_WAIT_FP # rest)")
    case True
    then have l: "select_loop W auth_branch no_after auth_expire ts1
        (clock w1 + from_secs BLE_AUTH_TIMEOUT_SECS, False) (enter_auth w1) = (r, w', ts')"
      using assms(1) c by (auto simp: do_auth_request_def split: prod.splits)
    show ?thesis
      by (rule wait_harmless [OF h l assms(2)])
        (simp_all add: auth_branch_pairing auth_expire_def enter_auth_def)
  next
    case False
    then show ?thesis
      using assms(1) c h by (auto simp: do_auth_request_def split: result.splits list.splits if_splits)
  qed
qed

lemma helper_io_coord [simp]: "coord (snd (helper_io k w)) = coord w"
  by (simp add: helper_io_def next_reply_def split: list.split)

lemma ota_coord [simp]: "coord (snd (ota_write d w)) = coord w" "coord (snd (ota_read hexd w)) = coord w"
  by (simp_all add: ota_write_def ota_read_def split: prod.split) (metis helper_io_coord snd_conv)+

lemma ota_poll_coord [simp]: "coord (snd (ota_poll n W dl w)) = coord w"
proof (induction n arbitrary: w)
  case (Suc n)
  let ?w = "w\<lparr> clock := clock w + from_millis OTA_READ_POLL_INTERVAL_MS \<rparr>"
  obtain r w' where r: "ota_read (whexd W) ?w = (r, w')" by (cases "ota_read (whexd W) ?w")
  then have "coord w' = coord ?w" by (metis ota_coord(2) snd_conv)
  then show ?case using r Suc by (simp add: Let_def split: result.split)
qed simp

lemma ota_write_and_read_coord [simp]: "coord (snd (ota_write_and_read W d ms w)) = coord w"
proof -
  obtain r w' where r: "ota_write d w = (r, w')" by (cases "ota_write d w")
  then have "coord w' = coord w" by (metis ota_coord(1) snd_conv)
  then show ?thesis using r by (simp add: ota_write_and_read_def split: result.split del: ota_poll.simps)
qed

lemma abort_pending_coord [simp]: "coord (abort_pending w) = coord w"
  by (simp add: abort_pending_def)

lemma handle_harmless:
  assumes "handle_ble_command E cmd ts (w, kc) = (r, (w', kc'), ts')" "env_keeps pairing ts" "cmd \<noteq> Pair"
  shows "harmless ts w w' ts'"
proof (cases cmd)
  case (SendCommand x1 x2)
  then show ?thesis using assms send_harmless by (auto simp: handle_ble_command_def split: prod.splits)
next
  case (SendFpGated x1 x2)
  then show ?thesis using assms gated_harmless by (auto simp: handle_ble_command_def split: prod.splits)
next
  case SyncKeys
  obtain q k1 w1 ts1 where
    sy: "sync_ssh_keys (sw E) (sha256 E) (base64 E) (file_io E) ts w kc = (q, k1, w1, ts1)"
    by (metis prod_cases4)
  have "quiet pairing ts w w1 ts1" by (rule sync_ssh_keys_quiet [OF sy])
  then show ?thesis
    using assms SyncKeys sy stable_fields(1) by (simp add: handle_ble_command_def quiet_def harmless_def)
next
  case AuthRequest
  then show ?thesis using assms auth_harmless by (auto simp: handle_ble_command_def split: prod.splits)
next
  case (OtaWriteRead d ms)
  then show ?thesis
    using assms ota_write_and_read_coord [of "sw E" d ms w, THEN sym]
    by (auto simp del: ota_write_and_read_coord simp: handle_ble_command_def harmless_def split: prod.splits)
next
  case (OtaWriteOnly d)
  then show ?thesis
    using assms ota_coord(1) [of d w, THEN sym]
    by (auto simp del: ota_coord simp: handle_ble_command_def ota_write_only_def harmless_def split: prod.splits)
qed (use assms in \<open>auto simp: handle_ble_command_def harmless_def\<close>)

interpretation worker: ble_link "worker_link E" link_good for E
proof
  fix s :: "device sys" and op p st d s'
  assume "worker_link E (SendFpGated op p) s = (Replied (BleReply (Ok (st, d))), s')"
  then obtain w w' ts ts' where "send_fp_gated_inner (sw E) op p ts w = (Ok (st, d), w', ts')"
    by (auto simp: worker_link_def handle_ble_command_def split: prod.splits)
  then show "st = RSP_OK" using gated_ok_facts by blast
next
  fix s :: "device sys" and cmd dl s'
  assume g: "link_good s" and c: "cmd \<noteq> Pair" and l: "worker_link E cmd s = (dl, s')"
  obtain c0 w kc ts where s: "s = (c0, w, kc, ts)" by (metis prod_cases4)
  obtain r w' kc' ts' where h: "handle_ble_command E cmd ts (w\<lparr> coord := c0 \<rparr>, kc) = (r, (w', kc'), ts')"
    by (metis surj_pair)
  have "env_keeps pairing ts" using g s by (simp add: link_good_def)
  from handle_harmless [OF h this c] this show "link_good s' \<and> pairing (fst s') = pairing (fst s)"
    using l s h env_keeps_subset by (auto simp: worker_link_def link_good_def harmless_def)
qed

end
