(* ===== verification/Socket_Device.thy ===== *)
theory Socket_Device
  imports Ble_Link Socket_Auth
begin

text \<open>
  The request handlers of the socket server that talk to the device (\<open>immurok-daemon/src/socket.rs\<close>):
  status, fingerprints, gate cancel, pairing, slots, factory reset, settings, and the dispatch of a
  parsed request. A handler maps the coordinator and the world behind the link to its response and
  their new state.
\<close>

definition on_coord :: "(coordinator \<Rightarrow> coordinator) \<Rightarrow> 'd sys \<Rightarrow> 'd sys" where
  "on_coord f s = (f (fst s), snd s)"

lemma on_coord_simps [simp]: "fst (on_coord f s) = f (fst s)" "snd (on_coord f s) = snd s"
  by (simp_all add: on_coord_def)

section \<open>Status and fingerprints\<close>

definition handle_status :: "coordinator \<Rightarrow> response" where
  "handle_status c = (case device_status c of
     Some s \<Rightarrow> RStatus (is_connected c) ''immurok'' (battery s) (fw_version s) (device_reports_unpaired c)
   | None \<Rightarrow> RStatus (is_connected c) [] 0 [] (device_reports_unpaired c))"

definition store_bitmap :: "byte \<Rightarrow> coordinator \<Rightarrow> coordinator" where
  "store_bitmap b c = c\<lparr> device_status := map_option (\<lambda>s. s\<lparr> fp_bitmap := b \<rparr>) (device_status c),
     fp_bitmap_stale := False \<rparr>"

definition refresh_bitmap :: "'d link \<Rightarrow> 'd sys \<Rightarrow> 'd sys" where
  "refresh_bitmap L s = (case ble_send L CMD_FP_LIST [] s of
     (Ok (status, b # rest), s') \<Rightarrow> if status = RSP_OK then on_coord (store_bitmap b) s' else s'
   | (_, s') \<Rightarrow> s')"

definition handle_fp_list :: "'d link \<Rightarrow> 'd sys \<Rightarrow> response \<times> 'd sys" where
  "handle_fp_list L s =
     (if \<not> is_connected (fst s) then (RError ''NOT_CONNECTED'', s)
      else let s' = (if fp_bitmap_stale (fst s) \<or> device_status (fst s) = None then refresh_bitmap L s else s)
        in case device_status (fst s') of
          Some ds \<Rightarrow> (ROk (show_word (fp_bitmap ds)), s')
        | None \<Rightarrow> (RError ''NO_STATUS'', s'))"

text \<open>
  The race of a gated command with the caller's socket. \<open>PeerFirst\<close>: the socket was read before the
  command was ever queued. \<open>PeerLater\<close>: the command was queued and its reply is dropped, with the
  cancel permit in place when the worker runs it (a caller that leaves in the middle of the gate
  is an \<open>Env\<close> token of the worker).
\<close>

datatype gate_race = GateFirst | PeerFirst | PeerLater

definition post_gate_cancel :: "coordinator \<Rightarrow> coordinator" where
  "post_gate_cancel c = c\<lparr> gate_cancel := True \<rparr>"

definition gated_or_peer ::
    "'d link \<Rightarrow> gate_race \<Rightarrow> byte \<Rightarrow> bytes \<Rightarrow> 'd sys \<Rightarrow> ble_result \<times> 'd sys" where
  "gated_or_peer L race cmd p s = (case race of
     GateFirst \<Rightarrow> ble_send_fp_gated L cmd p s
   | PeerFirst \<Rightarrow> (Err ''cancelled'', on_coord post_gate_cancel s)
   | PeerLater \<Rightarrow> (Err ''cancelled'', snd (ble_send_fp_gated L cmd p (on_coord post_gate_cancel s))))"

definition handle_fp_enroll :: "'d link \<Rightarrow> gate_race \<Rightarrow> byte \<Rightarrow> 'd sys \<Rightarrow> response \<times> 'd sys" where
  "handle_fp_enroll L race slot s =
     (if slot > SWITCH_FINGER_SLOT then (RError ''INVALID_SLOT'', s)
      else if \<not> is_connected (fst s) then (RError ''NOT_CONNECTED'', s)
      else case gated_or_peer L race CMD_ENROLL_START [slot]
             (on_coord (\<lambda>c. c\<lparr> last_enroll_event := None \<rparr>) s) of
        (Ok _, s') \<Rightarrow> (ROk ''ENROLL_STARTED'', s')
      | (Err e, s') \<Rightarrow> (RError (''ENROLL_FAILED:'' @ e), s'))"

definition handle_fp_enroll_cancel :: "'d link \<Rightarrow> 'd sys \<Rightarrow> response \<times> 'd sys" where
  "handle_fp_enroll_cancel L s =
     (if \<not> is_connected (fst s) then (RError ''NOT_CONNECTED'', s)
      else case ble_send L CMD_ENROLL_CANCEL []
             (on_coord (\<lambda>c. snd (cancel_active_gate (c\<lparr> last_enroll_event := None \<rparr>))) s) of
        (Ok _, s') \<Rightarrow> (ROk ''ENROLL_CANCELLED'', s')
      | (Err e, s') \<Rightarrow> (RError (''BLE_SEND_FAILED:'' @ e), s'))"

definition handle_fp_delete :: "'d link \<Rightarrow> gate_race \<Rightarrow> byte \<Rightarrow> 'd sys \<Rightarrow> response \<times> 'd sys" where
  "handle_fp_delete L race slot s =
     (if \<not> is_connected (fst s) then (RError ''NOT_CONNECTED'', s)
      else case gated_or_peer L race CMD_DELETE_FP [slot] s of
        (Ok _, s') \<Rightarrow> (ROk ''DELETED'', on_coord (\<lambda>c. c\<lparr> fp_bitmap_stale := True \<rparr>) s')
      | (Err e, s') \<Rightarrow> (RError (''DELETE_FAILED:'' @ e), s'))"

definition handle_fp_verify :: "'d link \<Rightarrow> 'd sys \<Rightarrow> response \<times> 'd sys" where
  "handle_fp_verify L s =
     (if \<not> is_connected (fst s) then (RError ''NOT_CONNECTED'', s)
      else if \<not> is_device_verified (fst s) then (RError ''NOT_VERIFIED'', s)
      else case ble_send_fp_gated L CMD_AUTH_REQUEST [] s of
        (Ok (status, _), s') \<Rightarrow>
          (if status = RSP_OK \<or> status = RSP_FP_GATE_APPROVED then ROk ''MATCH''
           else if status = RSP_ERR_FP_NOT_MATCH then ROk ''NO_MATCH''
           else if status = RSP_ERR_TIMEOUT then ROk ''NO_MATCH''
           else RError (''VERIFY_FAILED:'' @ hexcode status), s')
      | (Err e, s') \<Rightarrow> (RError (''BLE_SEND_FAILED:'' @ e), s'))"

definition handle_fp_status :: "coordinator \<Rightarrow> response" where
  "handle_fp_status c = (case last_enroll_event c of
     Some (status, cur, tot) \<Rightarrow> ROk (show_word status @ '':'' @ show_word cur @ '':'' @ show_word tot)
   | None \<Rightarrow> ROk ''IDLE'')"

definition handle_fp_last_match :: "coordinator \<Rightarrow> response" where
  "handle_fp_last_match c = ROk ''-1''"

definition handle_gate_cancel :: "'d link \<Rightarrow> 'd sys \<Rightarrow> response \<times> 'd sys" where
  "handle_gate_cancel L s =
     (if \<not> is_connected (fst s) then (RError ''NOT_CONNECTED'', s)
      else if fst (cancel_active_gate (fst s))
      then (ROk ''GATE_CANCELLED'', on_coord (\<lambda>c. snd (cancel_active_gate c)) s)
      else case ble_send L CMD_GATE_CANCEL [] s of
        (Ok _, s') \<Rightarrow> (ROk ''GATE_CANCELLED'', s')
      | (Err e, s') \<Rightarrow> (RError (''BLE_SEND_FAILED:'' @ e), s'))"

section \<open>Pairing and slots\<close>

definition handle_pair_status :: "coordinator \<Rightarrow> response" where
  "handle_pair_status c = (case pairing c of Some _ \<Rightarrow> ROk ''PAIRED'' | None \<Rightarrow> ROk ''UNPAIRED'')"

definition handle_pair_start :: "'d link \<Rightarrow> 'd sys \<Rightarrow> response \<times> 'd sys" where
  "handle_pair_start L s =
     (if \<not> is_connected (fst s) then (RError ''NOT_CONNECTED'', s)
      else case try_begin_pairing (fst s) of
        (False, c) \<Rightarrow> (RError ''PAIRING_IN_PROGRESS'', (c, snd s))
      | (True, c) \<Rightarrow> (case L Pair (c, snd s) of
          (ChannelClosed, s') \<Rightarrow>
            (RError ''BLE_CHANNEL_CLOSED'', on_coord (set_pair_progress PFailed) s')
        | (Replied (BleReply (Ok _)), s') \<Rightarrow> (ROk ''PAIRED'', s')
        | (Replied (BleReply (Err e)), s') \<Rightarrow> (RError (''PAIRING_FAILED:'' @ e), s')
        | (_, s') \<Rightarrow> (RError ''PAIR_REPLY_DROPPED'', on_coord (set_pair_progress PFailed) s')))"

definition handle_pair_progress :: "coordinator \<Rightarrow> response" where
  "handle_pair_progress c = ROk (progress_as_wire (pair_progress c))"

definition clear_local_pairing :: "coordinator \<Rightarrow> coordinator" where
  "clear_local_pairing c = (emit ClearPairing c)\<lparr> pairing := None, is_device_verified := False,
     challenge_verified := False \<rparr>"

definition query_slot_status :: "'d link \<Rightarrow> 'd sys \<Rightarrow> (slot_status, string) result \<times> 'd sys" where
  "query_slot_status L s = (case ble_send L CMD_SLOT_STATUS [] s of
     (Ok (b, rest), s') \<Rightarrow> (Ok (parse_slot_status (b # rest)), s')
   | (Err e, s') \<Rightarrow> (Err e, s'))"

definition own_slot :: "byte \<Rightarrow> byte \<Rightarrow> coordinator \<Rightarrow> byte" where
  "own_slot bitmap active c =
     (let occupied = bitmap AND push_bit (unat (active - 1)) 1 \<noteq> 0
      in if occupied \<and> challenge_verified c \<and> pairing c \<noteq> None then active else 0)"

definition handle_slot_status :: "'d link \<Rightarrow> 'd sys \<Rightarrow> response \<times> 'd sys" where
  "handle_slot_status L s =
     (if \<not> is_connected (fst s) then (RError ''NOT_CONNECTED'', s)
      else case query_slot_status L s of
        (Ok (Supported bitmap active), s') \<Rightarrow>
          (ROk (show_word bitmap @ '':'' @ show_word active @ '':'' @
                show_word (own_slot bitmap active (fst s'))), s')
      | (Ok Unsupported, s') \<Rightarrow> (ROk ''UNSUPPORTED'', s')
      | (Err e, s') \<Rightarrow> (RError (''SLOT_STATUS_FAILED:'' @ e), s'))"

definition clear_own_slot :: "'d link \<Rightarrow> byte option \<Rightarrow> 'd sys \<Rightarrow> response \<times> 'd sys" where
  "clear_own_slot L target s =
     (case ble_send L CMD_SLOT_CLEAR (case target of Some t \<Rightarrow> [t] | None \<Rightarrow> []) s of
        (Ok (b, rest), s') \<Rightarrow> (case classify_slot_clear_ack b rest of
          AckCleared \<Rightarrow> (ROk ''CLEARED'', on_coord clear_local_pairing s')
        | AckSlotUnpaired \<Rightarrow> (ROk ''CLEARED_SLOT_UNPAIRED'', on_coord clear_local_pairing s')
        | AckRefused \<Rightarrow> (RError ''SLOT_CLEAR_REFUSED'', s')
        | AckUnrecognised \<Rightarrow> (ROk ''CLEARED_UNCONFIRMED'', on_coord clear_local_pairing s'))
      | (Err e, s') \<Rightarrow> (ROk ''CLEARED_UNCONFIRMED'', on_coord clear_local_pairing s'))"

definition clear_path_of :: "'d link \<Rightarrow> byte option \<Rightarrow> 'd sys \<Rightarrow> (clear_path, string) result \<times> 'd sys" where
  "clear_path_of L slot s = (case slot of
     None \<Rightarrow> (Ok (resolve_clear_path slot Unsupported), s)
   | Some _ \<Rightarrow> (case query_slot_status L s of
       (Ok st, s') \<Rightarrow> (Ok (resolve_clear_path slot st), s')
     | (Err e, s') \<Rightarrow> (Err e, s')))"

definition handle_slot_clear :: "'d link \<Rightarrow> byte option \<Rightarrow> 'd sys \<Rightarrow> response \<times> 'd sys" where
  "handle_slot_clear L slot s =
     (if \<not> is_connected (fst s)
      then (case slot of
         None \<Rightarrow> (ROk ''CLEARED_LOCAL_ONLY'', on_coord clear_local_pairing s)
       | Some _ \<Rightarrow> (RError ''NOT_CONNECTED'', s))
      else case clear_path_of L slot s of
        (Err e, s') \<Rightarrow> (RError (''SLOT_STATUS_FAILED:'' @ e), s')
      | (Ok path, s') \<Rightarrow> (case path of
          Own \<Rightarrow> clear_own_slot L slot s'
        | Other target \<Rightarrow> (case ble_send_fp_gated L CMD_SLOT_CLEAR [target] s' of
            (Ok _, s2) \<Rightarrow> (ROk ''CLEARED'', s2)
          | (Err e, s2) \<Rightarrow> (RError (''SLOT_CLEAR_FAILED:'' @ e), s2))
        | InvalidSlot \<Rightarrow> (RError ''INVALID_SLOT'', s')
        | ClearUnsupported \<Rightarrow> (RError ''DUAL_HOST_UNSUPPORTED'', s')))"

definition reset_payload :: "crypto \<Rightarrow> coordinator \<Rightarrow> bytes" where
  "reset_payload cr c = (case pairing c of Some p \<Rightarrow> compute_reset_hmac cr (shared_key p) | None \<Rightarrow> [])"

definition handle_factory_reset :: "crypto \<Rightarrow> 'd link \<Rightarrow> 'd sys \<Rightarrow> response \<times> 'd sys" where
  "handle_factory_reset cr L s =
     (if \<not> is_connected (fst s) then (RError ''NOT_CONNECTED'', s)
      else case ble_send_fp_gated L CMD_FACTORY_RESET (reset_payload cr (fst s)) s of
        (Ok (status, _), s') \<Rightarrow>
          if status = RSP_OK \<or> status = RSP_FP_GATE_APPROVED
          then (ROk ''RESET'', on_coord clear_local_pairing s')
          else (RError (''FACTORY_RESET_FAILED:'' @ hexcode status), s')
      | (Err e, s') \<Rightarrow> (RError (''FACTORY_RESET_FAILED:'' @ e), s'))"

section \<open>Settings and information\<close>

definition put_setting :: "string \<Rightarrow> bool \<Rightarrow> settings \<Rightarrow> settings option" where
  "put_setting key v st =
     (if key = ''unlock_sudo'' then Some (st\<lparr> unlock_sudo := v \<rparr>)
      else if key = ''unlock_polkit'' then Some (st\<lparr> unlock_polkit := v \<rparr>)
      else if key = ''unlock_screen'' then Some (st\<lparr> unlock_screen := v \<rparr>)
      else if key = ''lock_screen'' then Some (st\<lparr> lock_screen := v \<rparr>)
      else if key = ''ssh_takeover'' then Some (st\<lparr> ssh_takeover := v \<rparr>)
      else None)"

definition push_ssh_takeover :: "coordinator \<Rightarrow> coordinator" where
  "push_ssh_takeover c =
     snd (push_ui (''SSH_TAKEOVER:'' @ (if ssh_takeover (settings c) then ''ON'' else ''OFF'')) c)"

text \<open>\<open>saved\<close> is the outcome of writing the settings file; the settings in memory change either way.\<close>

definition handle_set_setting ::
    "(unit, string) result \<Rightarrow> string \<Rightarrow> bool \<Rightarrow> coordinator \<Rightarrow> response \<times> coordinator" where
  "handle_set_setting saved key v c = (case put_setting key v (settings c) of
     None \<Rightarrow> (RError ''UNKNOWN_KEY'', c)
   | Some st \<Rightarrow>
       (let c' = c\<lparr> settings := st \<rparr> in
        case saved of
          Err e \<Rightarrow> (RError (''SAVE_FAILED:'' @ e), c')
        | Ok _ \<Rightarrow> (ROk [], if key = ''ssh_takeover'' then push_ssh_takeover c' else c')))"

definition handle_get_settings :: "coordinator \<Rightarrow> response" where
  "handle_get_settings c = (let s = settings c in
     ROk (''sudo='' @ flag01 (unlock_sudo s) @ '':polkit='' @ flag01 (unlock_polkit s) @
          '':screen='' @ flag01 (unlock_screen s) @ '':lock='' @ flag01 (lock_screen s) @
          '':ssh='' @ flag01 (ssh_takeover s)))"

definition handle_get_info :: "32 word \<Rightarrow> string \<Rightarrow> coordinator \<Rightarrow> response" where
  "handle_get_info uid sock c =
     (let (fw, bat) = (case device_status c of Some s \<Rightarrow> (fw_version s, battery s) | None \<Rightarrow> (''-'', 0))
      in ROk (''fw='' @ fw @ '':model=IK-1:connected='' @ flag01 (is_connected c) @ '':battery='' @
              show_word bat @ '':uid='' @ show_word uid @ '':sock='' @ sock))"

section \<open>Dispatch\<close>

text \<open>What one connection brings beside its request.\<close>

record connection =
  on_host :: host
  peer_uid :: "32 word option"
  channel :: nat
  waits :: auth_env
  race :: gate_race
  settings_saved :: "(unit, string) result"
  daemon_uid :: "32 word"
  socket_path :: string

definition pure_handler :: "(coordinator \<Rightarrow> response) \<Rightarrow> host \<Rightarrow> 'd sys \<Rightarrow> response option \<times> host \<times> 'd sys" where
  "pure_handler f h s = (Some (f (fst s)), h, s)"

definition link_handler :: "('d sys \<Rightarrow> response \<times> 'd sys) \<Rightarrow> host \<Rightarrow> 'd sys \<Rightarrow> response option \<times> host \<times> 'd sys" where
  "link_handler f h s = (case f s of (r, s') \<Rightarrow> (Some r, h, s'))"

definition set_handler :: "connection \<Rightarrow> string \<Rightarrow> bool \<Rightarrow> 'd sys \<Rightarrow> response \<times> 'd sys" where
  "set_handler cn key v s = (case handle_set_setting (settings_saved cn) key v (fst s) of
     (r, c) \<Rightarrow> (r, c, snd s))"

definition pair_start_owner :: "connection \<Rightarrow> 'd link \<Rightarrow> 'd sys \<Rightarrow> response option \<times> host \<times> 'd sys" where
  "pair_start_owner cn L s = (case handle_pair_start L s of
     (ROk m, s') \<Rightarrow> (Some (ROk m), (case peer_uid cn of
        Some uid \<Rightarrow> record_owner uid (on_host cn) | None \<Rightarrow> on_host cn), s')
   | (r, s') \<Rightarrow> (Some r, on_host cn, s'))"

definition dispatch_request ::
    "crypto \<Rightarrow> connection \<Rightarrow> 'd link \<Rightarrow> request \<Rightarrow> 'd sys \<Rightarrow> response option \<times> host \<times> 'd sys" where
  "dispatch_request cr cn L rq s = (let h = on_host cn in case rq of
     Status \<Rightarrow> pure_handler handle_status h s
   | Auth user svc \<Rightarrow> (case handle_auth h (channel cn) user svc (waits cn) (fst s) of
       (r, c) \<Rightarrow> (r, h, c, snd s))
   | FpList \<Rightarrow> link_handler (handle_fp_list L) h s
   | FpEnroll slot \<Rightarrow> link_handler (handle_fp_enroll L (race cn) slot) h s
   | FpEnrollCancel \<Rightarrow> link_handler (handle_fp_enroll_cancel L) h s
   | FpDelete slot \<Rightarrow> link_handler (handle_fp_delete L (race cn) slot) h s
   | FpVerify \<Rightarrow> link_handler (handle_fp_verify L) h s
   | FpStatus \<Rightarrow> pure_handler handle_fp_status h s
   | FpLastMatch \<Rightarrow> pure_handler handle_fp_last_match h s
   | GateCancel \<Rightarrow> link_handler (handle_gate_cancel L) h s
   | PairStatus \<Rightarrow> pure_handler handle_pair_status h s
   | PairStart \<Rightarrow> pair_start_owner cn L s
   | PairProgress \<Rightarrow> pure_handler handle_pair_progress h s
   | SlotStatus \<Rightarrow> link_handler (handle_slot_status L) h s
   | SlotClear slot \<Rightarrow> link_handler (handle_slot_clear L slot) h s
   | FactoryReset \<Rightarrow> link_handler (handle_factory_reset cr L) h s
   | SetUnlockSudo v \<Rightarrow> link_handler (set_handler cn ''unlock_sudo'' v) h s
   | SetUnlockPolkit v \<Rightarrow> link_handler (set_handler cn ''unlock_polkit'' v) h s
   | SetUnlockScreen v \<Rightarrow> link_handler (set_handler cn ''unlock_screen'' v) h s
   | SetLockScreen v \<Rightarrow> link_handler (set_handler cn ''lock_screen'' v) h s
   | SetSshTakeover v \<Rightarrow> link_handler (set_handler cn ''ssh_takeover'' v) h s
   | GetSettings \<Rightarrow> pure_handler handle_get_settings h s
   | GetInfo \<Rightarrow> pure_handler (handle_get_info (daemon_uid cn) (socket_path cn)) h s
   | _ \<Rightarrow> (Some (RError ''OTA commands require OTA session''), h, s))"

section \<open>Consequences of the link's contract\<close>

text \<open>The local pairing after a clear.\<close>

lemma clear_local_simps [simp]:
  "pairing (clear_local_pairing c) = None" "\<not> is_device_verified (clear_local_pairing c)"
  "\<not> challenge_verified (clear_local_pairing c)"
  by (simp_all add: clear_local_pairing_def)

text \<open>
  What SLOT:CLEAR is to do: it concerns the own slot when it is bare, or names the slot that
  \<open>resolve_clear_path\<close> finds to be the own one; and a device refuses explicitly with a status that
  is neither OK nor that the slot is not paired.
\<close>

definition explicit_refusal :: "ble_result \<Rightarrow> bool" where
  "explicit_refusal r \<longleftrightarrow> (case r of
     Ok (b, code # _) \<Rightarrow> b = CMD_SLOT_CLEAR \<and> code \<noteq> RSP_OK \<and> code \<noteq> RSP_ERR_NOT_PAIRED
   | _ \<Rightarrow> False)"

definition own_clear_answer :: "'d link \<Rightarrow> byte option \<Rightarrow> 'd sys \<Rightarrow> ble_result option" where
  "own_clear_answer L slot s = (case clear_path_of L slot s of
     (Ok Own, s1) \<Rightarrow> Some (fst (ble_send L CMD_SLOT_CLEAR (case slot of Some t \<Rightarrow> [t] | None \<Rightarrow> []) s1))
   | _ \<Rightarrow> None)"

definition own_is_cleared :: "'d link \<Rightarrow> byte option \<Rightarrow> 'd sys \<Rightarrow> bool" where
  "own_is_cleared L slot s \<longleftrightarrow>
     (if is_connected (fst s) then (\<exists>a. own_clear_answer L slot s = Some a \<and> \<not> explicit_refusal a) else slot = None)"

definition wipe_confirmed :: "crypto \<Rightarrow> 'd link \<Rightarrow> 'd sys \<Rightarrow> bool" where
  "wipe_confirmed cr L s \<longleftrightarrow> is_connected (fst s) \<and>
     (\<exists>d. fst (ble_send_fp_gated L CMD_FACTORY_RESET (reset_payload cr (fst s)) s) = Ok (RSP_OK, d))"

context ble_link
begin

lemma verify_no_mismatch:
  assumes "good s"
  shows "fst (handle_fp_verify L s) \<noteq> ROk ''NO_MATCH''"
  using assms by (auto simp: handle_fp_verify_def split: prod.splits result.splits dest!: gated_ok [OF assms])

lemma query_keeps:
  assumes "good s" "query_slot_status L s = (r, s')"
  shows "good s' \<and> pairing (fst s') = pairing (fst s)"
  using assms(2) send_keeps [OF assms(1)] by (auto simp: query_slot_status_def split: prod.splits result.splits)

lemma path_keeps:
  assumes "good s" "clear_path_of L slot s = (r, s')"
  shows "good s' \<and> pairing (fst s') = pairing (fst s)"
  using assms query_keeps [OF assms(1)]
  by (auto simp: clear_path_of_def split: prod.splits result.splits option.splits)

lemma own_clear_outcome:
  assumes "good s" "clear_own_slot L t s = (r, s')"
  shows "if explicit_refusal (fst (ble_send L CMD_SLOT_CLEAR (case t of Some x \<Rightarrow> [x] | None \<Rightarrow> []) s))
    then r = RError ''SLOT_CLEAR_REFUSED'' \<and> pairing (fst s') = pairing (fst s)
    else r \<in> {ROk ''CLEARED'', ROk ''CLEARED_SLOT_UNPAIRED'', ROk ''CLEARED_UNCONFIRMED''} \<and>
      pairing (fst s') = None \<and> \<not> challenge_verified (fst s') \<and> \<not> is_device_verified (fst s')"
  using assms send_keeps [OF assms(1)]
  by (auto simp: clear_own_slot_def explicit_refusal_def classify_slot_clear_ack_def
      split: prod.splits result.splits slot_clear_ack.splits list.splits if_splits)

lemma slot_clear_outcome:
  assumes "good s" "handle_slot_clear L slot s = (r, s')"
  shows "if own_is_cleared L slot s
    then (\<exists>m. r = ROk m) \<and> pairing (fst s') = None \<and> \<not> challenge_verified (fst s') \<and> \<not> is_device_verified (fst s')
    else pairing (fst s') = pairing (fst s) \<and> (own_clear_answer L slot s \<noteq> None \<and> is_connected (fst s) \<longrightarrow> r = RError ''SLOT_CLEAR_REFUSED'')"
proof (cases "is_connected (fst s)")
  case False
  then show ?thesis using assms(2) by (auto simp: handle_slot_clear_def own_is_cleared_def split: option.splits)
next
  case True
  obtain path s1 where p: "clear_path_of L slot s = (path, s1)" by (cases "clear_path_of L slot s")
  note k1 = path_keeps [OF assms(1) p]
  show ?thesis
  proof (cases "path = Ok Own")
    case own: True
    then have "clear_own_slot L slot s1 = (r, s')"
      using assms(2) p True by (simp add: handle_slot_clear_def)
    from own_clear_outcome [OF _ this] k1 show ?thesis
      by (auto simp: own_is_cleared_def own_clear_answer_def p own True split: if_splits)
  next
    case False
    then have "pairing (fst s') = pairing (fst s1)"
      using assms(2) p True gated_keeps [of s1] k1
      by (auto simp: handle_slot_clear_def split: result.splits clear_path.splits prod.splits)
    moreover have "own_clear_answer L slot s = None"
      using False by (auto simp: own_clear_answer_def p split: result.split clear_path.split)
    ultimately show ?thesis using k1 True by (simp add: own_is_cleared_def)
  qed
qed

lemma reset_outcome:
  assumes "good s" "handle_factory_reset cr L s = (r, s')"
  shows "if wipe_confirmed cr L s
    then r = ROk ''RESET'' \<and> pairing (fst s') = None \<and> \<not> challenge_verified (fst s') \<and> \<not> is_device_verified (fst s')
    else (\<exists>m. r = RError m) \<and> pairing (fst s') = pairing (fst s)"
  using assms gated_keeps [OF assms(1)] gated_ok [OF assms(1)]
  by (auto simp: handle_factory_reset_def wipe_confirmed_def split: prod.splits result.splits if_splits)

end

section \<open>Concrete states\<close>

definition online :: coordinator where
  "online = coordinator_new\<lparr> is_connected := True, is_device_verified := True, pairing := Some sample_pairing \<rparr>"

definition sample_connection :: connection where
  "sample_connection = \<lparr> on_host = sample_host\<lparr> owner_file := None \<rparr>, peer_uid = Some 1000, channel = 7,
     waits = (\<lambda>c. ([], c)), race = GateFirst, settings_saved = Ok (), daemon_uid = 990, socket_path = ''s'' \<rparr>"

definition writes :: worker where
  "writes = worker_new [HLine ''WRITE_OK'', HLine ''WRITE_OK'', HLine ''WRITE_OK''] coordinator_new"

section \<open>Properties\<close>

text \<open>
  Fact: on the daemon's own worker, the Test button never answers "no match": a mismatch, a timeout or
  a cancel all arrive as errors of the gated command, and the two arms of \<open>handle_fp_verify\<close> for
  them are never taken.
\<close>

theorem fp_verify_never_no_match:
  assumes "link_good s"
  shows "fst (handle_fp_verify (worker_link E) s) \<noteq> ROk ''NO_MATCH''"
  by (rule worker.verify_no_mismatch) (rule assms)

theorem fp_verify_never_no_match_witness:
  "fst (handle_fp_verify (worker_link sample_env)
     (online, writes, empty_cache, [Notif [0x11], Rx, Notif [7], Rx])) \<noteq> ROk ''NO_MATCH''"
  by (rule fp_verify_never_no_match) (simp add: link_good_def env_keeps_def)

text \<open>
  C17: SLOT:CLEAR drops the local pairing exactly when it concerns the own slot and the device did not refuse
  explicitly (or is not there and the request is bare). Then the answer is a success and the proofs derived
  from the key are dropped with it; otherwise the pairing stays, and an explicit refusal is reported.
\<close>

theorem slot_clear_never_splits:
  assumes "link_good s" "handle_slot_clear (worker_link E) slot s = (r, s')"
  shows "if own_is_cleared (worker_link E) slot s
    then (\<exists>m. r = ROk m) \<and> pairing (fst s') = None \<and> \<not> challenge_verified (fst s') \<and> \<not> is_device_verified (fst s')
    else pairing (fst s') = pairing (fst s) \<and>
      (own_clear_answer (worker_link E) slot s \<noteq> None \<and> is_connected (fst s) \<longrightarrow> r = RError ''SLOT_CLEAR_REFUSED'')"
  by (rule worker.slot_clear_outcome [OF assms])

text \<open>One device acknowledges, another one refuses.\<close>

definition clear_answer :: "byte \<Rightarrow> tok list" where
  "clear_answer code = [Notif [CMD_SLOT_CLEAR, code], Rx]"

theorem slot_clear_never_splits_witness:
  "pairing (fst (snd (handle_slot_clear (worker_link sample_env) None (online, writes, empty_cache, clear_answer RSP_OK)))) = None \<and>
   pairing (fst (snd (handle_slot_clear (worker_link sample_env) None (online, writes, empty_cache, clear_answer 7)))) = Some sample_pairing"
proof -
  have a: "own_clear_answer (worker_link sample_env) None (online, writes, empty_cache, clear_answer code) =
      Some (Ok (CMD_SLOT_CLEAR, [code]))" for code
    by (simp add: own_clear_answer_def clear_path_of_def resolve_clear_path_def ble_send_def worker_link_def
        handle_ble_command_def run_session writes_def split_answer_def delivered_def pick_ble_def clear_answer_def online_def)
  have conn: "is_connected online" by (simp add: online_def)
  have "own_is_cleared (worker_link sample_env) None (online, writes, empty_cache, clear_answer RSP_OK)"
    "\<not> own_is_cleared (worker_link sample_env) None (online, writes, empty_cache, clear_answer 7)"
    by (simp_all add: own_is_cleared_def a explicit_refusal_def conn)
  moreover have "link_good (online, writes, empty_cache, clear_answer code)" for code
    by (simp add: link_good_def env_keeps_def clear_answer_def)
  ultimately show ?thesis
    using slot_clear_never_splits [OF _ surjective_pairing, of "(online, writes, empty_cache, clear_answer RSP_OK)" sample_env None]
      slot_clear_never_splits [OF _ surjective_pairing, of "(online, writes, empty_cache, clear_answer 7)" sample_env None]
    by (simp add: online_def)
qed

text \<open>
  C18: a factory reset drops the local pairing exactly when the device is connected and confirmed the wipe
  with OK. It then answers RESET and drops the proofs derived from the key; in every other case it answers an
  error and keeps the pairing.
\<close>

theorem factory_reset_only_confirmed:
  assumes "link_good s" "handle_factory_reset cr (worker_link E) s = (r, s')"
  shows "if wipe_confirmed cr (worker_link E) s
    then r = ROk ''RESET'' \<and> pairing (fst s') = None \<and> \<not> challenge_verified (fst s') \<and> \<not> is_device_verified (fst s')
    else (\<exists>m. r = RError m) \<and> pairing (fst s') = pairing (fst s)"
  by (rule worker.reset_outcome [OF assms])

theorem factory_reset_only_confirmed_witness:
  "pairing (fst (snd (handle_factory_reset sample_crypto (worker_link sample_env)
     (online, writes, empty_cache, [Notif [RSP_OK], Rx])))) = None"
proof -
  have "wipe_confirmed sample_crypto (worker_link sample_env) (online, writes, empty_cache, [Notif [RSP_OK], Rx])"
    by (simp add: wipe_confirmed_def ble_send_fp_gated_def worker_link_def handle_ble_command_def run_session writes_def
        send_fp_gated_inner_def enter_gate_def delivered_def pick_ble_def online_def Let_def)
  then show ?thesis
    using factory_reset_only_confirmed [OF _ surjective_pairing,
        of "(online, writes, empty_cache, [Notif [RSP_OK], Rx])" sample_crypto sample_env]
    by (simp add: link_good_def env_keeps_def)
qed

lemma own_slot_facts:
  "own_slot b a c \<noteq> 0 \<Longrightarrow> own_slot b a c = a \<and> challenge_verified c \<and> pairing c \<noteq> None \<and>
     b AND push_bit (unat (a - 1)) 1 \<noteq> 0"
  by (auto simp: own_slot_def Let_def split: if_splits)

lemma slot_status_text:
  assumes "is_connected (fst s)" "query_slot_status L s = (Ok st, s')"
  shows "serialize_response (fst (handle_slot_status L s)) = slot_status_line st
    (case st of Supported b a \<Rightarrow> Some (own_slot b a (fst s')) | Unsupported \<Rightarrow> None)"
  using assms
  by (cases st) (simp_all add: handle_slot_status_def serialize_response_def slot_status_line_def join_Cons)

lemma owner_unsupported: "parse_slot_owner (slot_status_line Unsupported None) = None"
proof -
  have "trim ''OK:UNSUPPORTED'' = ''OK:UNSUPPORTED''"
    by (rule trim_graphic) (simp_all add: graphic_def)
  then show ?thesis by (simp add: slot_status_line_def parse_slot_owner_def)
qed

text \<open>
  Fact: what the client decodes from the slot status line is what the device reported, and the slot
  the line calls the host's own is the one the device presents, is occupied, and its key has been
  proved in this connection.
\<close>

theorem slot_status_end_to_end:
  assumes "is_connected (fst s)" "query_slot_status L s = (Ok st, s')"
  shows "let line = serialize_response (fst (handle_slot_status L s)) in
    parse_slot_status_line line = Some st \<and>
    (\<forall>m. parse_slot_owner line = Some m \<longrightarrow> (\<exists>b. st = Supported b m \<and> challenge_verified (fst s') \<and>
       pairing (fst s') \<noteq> None \<and> b AND push_bit (unat (m - 1)) 1 \<noteq> 0))"
proof -
  have "wf_slot_status st"
    using assms(2) parse_slot_status_wf by (auto simp: query_slot_status_def split: prod.splits result.splits)
  note rt = slot_status_line_roundtrip [OF this]
  have "parse_slot_owner (serialize_response (fst (handle_slot_status L s))) = Some m \<Longrightarrow>
      \<exists>b. st = Supported b m \<and> challenge_verified (fst s') \<and> pairing (fst s') \<noteq> None \<and>
        b AND push_bit (unat (m - 1)) 1 \<noteq> 0" for m
  proof (cases st)
    case (Supported b a)
    assume "parse_slot_owner (serialize_response (fst (handle_slot_status L s))) = Some m"
    then have "own_slot b a (fst s') = m" "m \<noteq> 0"
      unfolding slot_status_text [OF assms] Supported
      by (auto simp: slot_owner_roundtrip split: if_splits)
    then show ?thesis using own_slot_facts [of b a "fst s'"] Supported by auto
  next
    case Unsupported
    assume "parse_slot_owner (serialize_response (fst (handle_slot_status L s))) = Some m"
    then show ?thesis
      unfolding slot_status_text [OF assms] Unsupported by (simp add: owner_unsupported)
  qed
  then show ?thesis
    unfolding Let_def slot_status_text [OF assms] using rt by blast
qed

definition slot_frame :: "tok list" where
  "slot_frame = [Notif [0x39, 0, 3, 1], Rx]"

theorem slot_status_end_to_end_witness:
  "parse_slot_status_line (serialize_response (fst (handle_slot_status (worker_link sample_env)
     (online, writes, empty_cache, slot_frame)))) = Some (Supported 3 1)"
proof -
  let ?s = "(online, writes, empty_cache, slot_frame)"
  obtain st s' where q: "query_slot_status (worker_link sample_env) ?s = (st, s')"
    by (cases "query_slot_status (worker_link sample_env) ?s")
  have "st = Ok (Supported 3 1)"
    using q by (simp add: query_slot_status_def ble_send_def worker_link_def handle_ble_command_def
        run_session writes_def slot_frame_def split_answer_def delivered_def pick_ble_def
        parse_slot_status_def)
  then show ?thesis
    using slot_status_end_to_end [of ?s "worker_link sample_env" "Supported 3 1" s'] q
    by (simp add: online_def Let_def)
qed

lemma offline [simp]:
  assumes "\<not> is_connected (fst s)"
  shows "handle_fp_list L s = (RError ''NOT_CONNECTED'', s)"
    "snd (snd (handle_fp_enroll L rc slot s)) = snd s"
    "handle_fp_enroll_cancel L s = (RError ''NOT_CONNECTED'', s)"
    "handle_fp_delete L rc slot s = (RError ''NOT_CONNECTED'', s)"
    "handle_fp_verify L s = (RError ''NOT_CONNECTED'', s)"
    "handle_gate_cancel L s = (RError ''NOT_CONNECTED'', s)"
    "handle_pair_start L s = (RError ''NOT_CONNECTED'', s)"
    "handle_slot_status L s = (RError ''NOT_CONNECTED'', s)"
    "handle_factory_reset cr L s = (RError ''NOT_CONNECTED'', s)"
    "snd (snd (handle_slot_clear L tg s)) = snd s"
  using assms
  by (simp_all add: handle_fp_list_def handle_fp_enroll_def handle_fp_enroll_cancel_def
      handle_fp_delete_def handle_fp_verify_def handle_gate_cancel_def handle_pair_start_def
      handle_slot_status_def handle_factory_reset_def handle_slot_clear_def split: option.split)

lemma set_handler_device [simp]: "snd (snd (set_handler cn k v s)) = snd s"
  by (simp add: set_handler_def split: prod.split)

lemma handler_device:
  "snd (snd (snd (pure_handler f h s))) = snd s"
  "snd (snd (snd (link_handler g h s))) = snd (snd (g s))"
  by (simp_all add: pure_handler_def link_handler_def split: prod.split)

text \<open>
  Fact: without a connection no request reaches the device. Whatever the request and whatever sits
  behind the link, the state behind it is unchanged.
\<close>

theorem offline_never_reaches_device:
  assumes "\<not> is_connected (fst s)"
  shows "snd (snd (snd (dispatch_request cr cn L rq s))) = snd s"
  using assms
  by (cases rq) (simp_all add: dispatch_request_def handler_device pair_start_owner_def Let_def split: prod.split)

theorem offline_never_reaches_device_witness:
  "snd (snd (snd (dispatch_request sample_crypto sample_connection (worker_link sample_env) FactoryReset
     (coordinator_new, writes, empty_cache, [])))) = (writes, empty_cache, [])"
  using offline_never_reaches_device [of "(coordinator_new, writes, empty_cache, [])"]
  by (simp add: coordinator_new_def)

lemma worker_pair_reply:
  assumes "worker_link E Pair s = (Replied (BleReply (Ok x)), s')" "link_good s"
  shows "pairing (fst s') \<noteq> None"
proof -
  obtain c0 w kc ts where s: "s = (c0, w, kc, ts)" by (metis prod_cases4)
  obtain r w' ts' where d: "do_pair (sw E) (random E 0) (unix_secs E) ts (w\<lparr> coord := c0 \<rparr>) = (r, w', ts')"
    by (metis prod_cases3)
  have k: "env_keeps pairing ts" using assms(2) s by (simp add: link_good_def)
  have "r = Ok x" "pairing (fst s') = pairing (coord w')"
    using assms(1) s d by (auto simp: worker_link_def handle_ble_command_def)
  then show ?thesis using do_pair_facts [OF d k] by (auto simp: paired_with_def stored_pairing_def)
qed

lemma dispatch_owner:
  assumes "dispatch_request cr cn L rq s = (r, h, s')" "h \<noteq> on_host cn"
  shows "rq = PairStart \<and> (\<exists>m uid. r = Some (ROk m) \<and> peer_uid cn = Some uid \<and>
     h = record_owner uid (on_host cn) \<and> handle_pair_start L s = (ROk m, s'))"
  using assms
  by (cases rq) (auto simp: dispatch_request_def pure_handler_def link_handler_def pair_start_owner_def
      Let_def split: prod.splits response.splits option.splits)

text \<open>
  Fact: who pairs the device owns it. A request changes the owner record only if it is PAIR:START, it
  succeeded, there was no owner before, and the recorded owner is the caller's uid; the pairing
  present afterwards is the one derived from the key exchange with the device.
\<close>

theorem owner_follows_pairing:
  assumes "dispatch_request cr cn (worker_link E) rq s = (r, h, s')" "link_good s" "h \<noteq> on_host cn"
  shows "rq = PairStart \<and> owner_file (on_host cn) = None \<and> pairing (fst s') \<noteq> None \<and>
    (\<exists>uid. peer_uid cn = Some uid \<and> owner_uid h = Some uid)"
proof -
  obtain m uid where d: "rq = PairStart" "peer_uid cn = Some uid" "h = record_owner uid (on_host cn)"
    "handle_pair_start (worker_link E) s = (ROk m, s')"
    using dispatch_owner [OF assms(1,3)] by blast
  have none: "owner_file (on_host cn) = None"
    using d(3) assms(3) record_owner_keeps by (metis not_None_eq)
  obtain b c where t: "try_begin_pairing (fst s) = (b, c)" by (cases "try_begin_pairing (fst s)")
  have "\<exists>x. worker_link E Pair (c, snd s) = (Replied (BleReply (Ok x)), s')"
    using d(4) t by (auto simp: handle_pair_start_def split: if_splits bool.splits prod.splits
        delivery.splits cmd_reply.splits result.splits)
  moreover have "link_good (c, snd s)" using assms(2) by (auto simp: link_good_def split: prod.splits)
  ultimately have "pairing (fst s') \<noteq> None" using worker_pair_reply by blast
  then show ?thesis using d none record_owner_reads_back by metis
qed

definition pairing_device :: "tok list" where
  "pairing_device = [Notif [0x39, 0, 0, 1], Rx,
     Notif [0x30, 2, 2, 2, 2, 2, 2, 2, 2, 2, 2, 2, 2, 2, 2, 2, 2, 2, 2, 2, 2, 2, 2, 2, 2, 2, 2, 2, 2, 2, 2, 2, 2, 2], Rx,
     Notif [0x31, 0], Rx]"

lemma pair_run:
  "fst (dispatch_request sample_crypto sample_connection (worker_link sample_env) PairStart
     (online, writes, empty_cache, pairing_device)) = Some (ROk ''PAIRED'')"
  by (simp add: dispatch_request_def pair_start_owner_def handle_pair_start_def online_def
      try_begin_pairing_def worker_link_def handle_ble_command_def do_pair_def do_pair_step_def
      pair_answer_def pair_validate_def pair_confirm_def run_session writes_def pairing_device_def
      generate_p256_keypair_def ecdh_shared_secret_def derive_shared_key_def sample_crypto_def
      slice_def parse_slot_status_def is_second_host_def numeral_3_eq_3 Let_def)

theorem owner_follows_pairing_witness:
  "owner_uid (fst (snd (dispatch_request sample_crypto sample_connection (worker_link sample_env) PairStart
     (online, writes, empty_cache, pairing_device)))) = Some 1000"
proof -
  let ?s = "(online, writes, empty_cache, pairing_device)"
  obtain r h s' where e: "dispatch_request sample_crypto sample_connection (worker_link sample_env) PairStart ?s = (r, h, s')"
    by (metis prod_cases3)
  have "r = Some (ROk ''PAIRED'')" using pair_run e by simp
  then have "h = record_owner 1000 (on_host sample_connection)"
    using e by (auto simp: dispatch_request_def pair_start_owner_def sample_connection_def
        split: prod.splits response.splits)
  then have "h \<noteq> on_host sample_connection"
    by (simp add: record_owner_def sample_connection_def sample_host_def)
  from owner_follows_pairing [OF e _ this] show ?thesis
    using e by (simp add: link_good_def env_keeps_def pairing_device_def sample_connection_def)
qed

text \<open>
  Fact: a caller that hangs up before its FP:ENROLL is queued cancels somebody else's command. The
  permit is stored although no gate is active, and the next gated command, here a delete the device
  and the user both approve, ends with "cancelled" at its first poll.
\<close>

theorem enroll_hangup_cancels_next_gate:
  "let s1 = snd (handle_fp_enroll (worker_link sample_env) PeerFirst 0 (online, d0))
   in gate_cancel (fst s1) \<and> \<not> gate_active (fst s1) \<and>
      fst (handle_fp_delete (worker_link sample_env) GateFirst 1
        (fst s1, writes, kc, Notif [RSP_WAIT_FP] # Rx # CancelPoll # Notif [RSP_OK] # ts)) =
      RError ''DELETE_FAILED:FP-gate cancelled''"
  by (simp add: handle_fp_enroll_def handle_fp_delete_def gated_or_peer_def post_gate_cancel_def
      online_def writes_def ble_send_fp_gated_def worker_link_def handle_ble_command_def
      send_fp_gated_inner_def run_worker sample_env_def coordinator_new_def enter_gate_def
      set_gate_active_def gate_branch_def delivered_def pick_ble_def Let_def)

end
