(* ===== verification/Socket_Keys.thy ===== *)
theory Socket_Keys
  imports Socket_Device
begin

text \<open>
  The key requests of the socket server (\<open>immurok-daemon/src/socket.rs\<close>): LIST, GET, the KEY:
  commands and the import in chunks. The cache files are the record \<open>key_cache\<close>; JSON, base64 and hex
  are parameters, as is the clock of the one-time passwords.
\<close>

record codecs =
  ssh_json :: "ssh_key list \<Rightarrow> (string, string) result"
  names_json :: "key_name_entry list \<Rightarrow> (string, string) result"
  b64 :: "bytes \<Rightarrow> string"
  hexd :: "string \<Rightarrow> (bytes, string) result"
  hexe :: "bytes \<Rightarrow> string"
  unix_time :: "nat \<Rightarrow> 32 word"

abbreviation nl :: string where
  "nl \<equiv> [CHR 0x0A]"

section \<open>Reads from the cache\<close>

definition key_cache_json :: "codecs \<Rightarrow> key_cache \<Rightarrow> string \<Rightarrow> string" where
  "key_cache_json cd kc kind =
     (let k = trim kind in
      if k \<noteq> ''ssh'' \<and> k \<noteq> ''names'' then ''ERROR:UNKNOWN_CACHE''
      else case (if k = ''ssh'' then ssh_json cd (ssh_keys kc) else names_json cd (key_names kc)) of
        Ok j \<Rightarrow> ''OK:'' @ j
      | Err e \<Rightarrow> ''ERROR:SERIALIZE:'' @ e)"

definition handle_list_keys :: "codecs \<Rightarrow> key_cache \<Rightarrow> string \<Rightarrow> string" where
  "handle_list_keys cd kc cat_arg =
     (let cat = trim cat_arg in
      if cat \<notin> {''ssh'', ''otp'', ''api''} then ''ERROR:UNKNOWN_CATEGORY'' @ nl
      else if cat = ''ssh'' then
        ''OK:'' @ show_nat (length (ssh_keys kc)) @ nl @
        concat (map (\<lambda>e. key_name e @ [CHR 0x09] @ ''ecdsa-sha2-nistp256 '' @ b64 cd (public_key_blob e) @ nl)
          (ssh_keys kc)) @ nl
      else (let filtered = filter (\<lambda>e. category e = cat) (key_names kc) in
        ''OK:'' @ show_nat (length filtered) @ nl @ concat (map (\<lambda>e. entry_name e @ nl) filtered) @ nl))"

definition handle_get_ssh :: "codecs \<Rightarrow> key_cache \<Rightarrow> string \<Rightarrow> string" where
  "handle_get_ssh cd kc name = (case find (\<lambda>e. key_name e = name) (ssh_keys kc) of
     None \<Rightarrow> ''ERROR:NOT_FOUND:'' @ name @ nl
   | Some e \<Rightarrow> ''OK:ecdsa-sha2-nistp256 '' @ b64 cd (public_key_blob e) @ '' '' @ key_name e @ nl)"

definition find_key_index :: "key_cache \<Rightarrow> string \<Rightarrow> string \<Rightarrow> byte option" where
  "find_key_index kc cat name =
     map_option entry_index (find (\<lambda>e. category e = cat \<and> entry_name e = name) (key_names kc))"

section \<open>API secrets\<close>

definition decode_api_secret :: "bytes \<Rightarrow> string \<Rightarrow> string" where
  "decode_api_secret entry name =
     (if length entry \<le> NAME_LEN_API then ''ERROR:INVALID_DATA:'' @ name @ nl
      else let trimmed = of_bytes (takeWhile (\<lambda>b. b \<noteq> 0) (drop NAME_LEN_API entry)) in
        if trimmed = [] then ''ERROR:EMPTY_SECRET:'' @ name @ nl
        else if utf8_valid trimmed then ''OK:'' @ trimmed @ nl
        else ''ERROR:NON_UTF8:'' @ name @ nl)"

text \<open>The chunk loop has no bound of its own: \<open>None\<close> is a loop that never ends.\<close>

partial_function (option) read_api ::
    "'d link \<Rightarrow> byte \<Rightarrow> bytes \<Rightarrow> 'd sys \<Rightarrow> ((bytes, string) result \<times> 'd sys) option" where
  "read_api L idx full s =
     (case ble_send L CMD_KEY_READ [KEY_CAT_API, idx, of_nat (length full)] s of
        (Err e, s') \<Rightarrow> Some (Err (''ERROR:READ_FAILED:'' @ e @ nl), s')
      | (Ok (status, p), s') \<Rightarrow>
          if status \<noteq> RSP_OK \<or> length p < 2
          then Some (Err (''ERROR:READ_FAILED:'' @ hexcode status @ nl), s')
          else let full' = full @ drop 2 p in
            if unat (p ! 0) \<le> length full' then Some (Ok (take (unat (p ! 0)) full'), s')
            else read_api L idx full' s')"

text \<open>The pending slot around an operation: BUSY when taken, released afterwards.\<close>

definition with_pending ::
    "nat \<Rightarrow> string \<Rightarrow> ('d sys \<Rightarrow> 'a \<times> 'd sys) \<Rightarrow> 'd sys \<Rightarrow> (string + 'a) \<times> 'd sys" where
  "with_pending ch busy f s = (case try_set_pending_pam ch (fst s) of
     (False, c) \<Rightarrow> (Inl busy, (c, snd s))
   | (True, c) \<Rightarrow> (case f (c, snd s) of (a, s') \<Rightarrow> (Inr a, on_coord deny_pending_pam s')))"

definition handle_get_api ::
    "nat \<Rightarrow> key_cache \<Rightarrow> 'd link \<Rightarrow> string \<Rightarrow> 'd sys \<Rightarrow> (string \<times> 'd sys) option" where
  "handle_get_api ch kc L name s = (case find_key_index kc ''api'' name of
     None \<Rightarrow> Some (''ERROR:NOT_FOUND:'' @ name @ nl, s)
   | Some idx \<Rightarrow>
       (case with_pending ch (''ERROR:BUSY'' @ nl) (ble_send_fp_gated L CMD_KEY_READ [KEY_CAT_API, idx, 0]) s of
          (Inl busy, s') \<Rightarrow> Some (busy, s')
        | (Inr (Err e), s') \<Rightarrow> Some (''ERROR:READ_FAILED:'' @ e @ nl, s')
        | (Inr (Ok (status, _)), s') \<Rightarrow>
            if status \<noteq> RSP_OK then Some (''ERROR:READ_FAILED:'' @ hexcode status @ nl, s')
            else map_option (\<lambda>(r, s2). ((case r of Ok full \<Rightarrow> decode_api_secret full name | Err e \<Rightarrow> e), s2))
                   (read_api L idx [] s')))"

section \<open>One-time passwords\<close>

definition is_ascii_digit :: "byte \<Rightarrow> bool" where
  "is_ascii_digit b \<longleftrightarrow> 48 \<le> b \<and> b \<le> 57"

definition format_otp_response :: "codecs \<Rightarrow> bytes \<Rightarrow> string" where
  "format_otp_response cd code =
     (if length code < 6 \<or> \<not> list_all is_ascii_digit (take 6 code)
      then ''ERROR:OTP_INVALID:'' @ hexe cd code @ nl
      else ''OK:'' @ from_utf8_lossy (of_bytes (take 6 code)) @ nl)"

definition otp_get_payload :: "byte \<Rightarrow> 32 word \<Rightarrow> bytes" where
  "otp_get_payload idx t = idx # le32 t"

definition otp_get_inner :: "codecs \<Rightarrow> 'd link \<Rightarrow> byte \<Rightarrow> 'd sys \<Rightarrow> string \<times> 'd sys" where
  "otp_get_inner cd L idx s =
     (case ble_send_fp_gated L CMD_KEY_OTP_GET (otp_get_payload idx (unix_time cd 0)) s of
        (Err e, s') \<Rightarrow> (''ERROR:OTP_FAILED:'' @ e @ nl, s')
      | (Ok (status, payload), s') \<Rightarrow>
          if status \<noteq> RSP_OK then (''ERROR:OTP_FAILED:'' @ hexcode status @ nl, s')
          else if 6 \<le> length payload then (format_otp_response cd payload, s')
          else (case ble_send L CMD_KEY_OTP_GET (otp_get_payload idx (unix_time cd 1)) s' of
              (Err e, s2) \<Rightarrow> (''ERROR:OTP_FAILED:'' @ e @ nl, s2)
            | (Ok (st2, p), s2) \<Rightarrow>
                if st2 = RSP_OK \<and> 6 \<le> length p then (format_otp_response cd p, s2)
                else (''ERROR:OTP_FAILED:'' @ hexcode st2 @ nl, s2)))"

definition reply_or_busy :: "(string + string) \<times> 'd sys \<Rightarrow> string \<times> 'd sys" where
  "reply_or_busy r = (case r of (Inl b, s) \<Rightarrow> (b, s) | (Inr a, s) \<Rightarrow> (a, s))"

definition handle_get_otp ::
    "nat \<Rightarrow> codecs \<Rightarrow> key_cache \<Rightarrow> 'd link \<Rightarrow> string \<Rightarrow> 'd sys \<Rightarrow> string \<times> 'd sys" where
  "handle_get_otp ch cd kc L name s = (case find_key_index kc ''otp'' name of
     None \<Rightarrow> (''ERROR:NOT_FOUND:'' @ name @ nl, s)
   | Some idx \<Rightarrow> reply_or_busy (with_pending ch (''ERROR:BUSY'' @ nl) (otp_get_inner cd L idx) s))"

definition handle_get_key ::
    "nat \<Rightarrow> codecs \<Rightarrow> key_cache \<Rightarrow> 'd link \<Rightarrow> string \<Rightarrow> 'd sys \<Rightarrow> (string \<times> 'd sys) option" where
  "handle_get_key ch cd kc L after_get s =
     (case splitn 2 CHR '':'' after_get of
        [cat, name] \<Rightarrow>
          if name = [] then Some (''ERROR:USAGE'' @ nl, s)
          else if \<not> is_connected (fst s) \<and> cat \<noteq> ''ssh'' then Some (''ERROR:NOT_CONNECTED'' @ nl, s)
          else if cat = ''ssh'' then Some (handle_get_ssh cd kc name, s)
          else if cat = ''api'' then handle_get_api ch kc L name s
          else if cat = ''otp'' then Some (handle_get_otp ch cd kc L name s)
          else Some (''ERROR:UNKNOWN_CATEGORY'' @ nl, s)
      | _ \<Rightarrow> Some (''ERROR:USAGE'' @ nl, s))"

section \<open>Import\<close>

definition fmt_write_status :: "string \<Rightarrow> byte \<Rightarrow> string" where
  "fmt_write_status prefix status =
     (if status = RSP_ERR_LOW_BATTERY
      then ''ERROR:LOW_BATTERY:'' @ prefix @ '' refused (device <5%, charge to retry)''
      else ''ERROR:'' @ prefix @ ''_FAILED:'' @ hexcode status)"

fun import_write ::
    "'d link \<Rightarrow> byte \<Rightarrow> nat \<Rightarrow> bytes \<Rightarrow> 'd sys \<Rightarrow> (unit, string) result \<times> 'd sys" where
  "import_write L cat off rest s =
     (if rest = [] then (Ok (), s)
      else case ble_send L CMD_KEY_WRITE (cat # 0xFF # of_nat off # take 59 rest) s of
        (Err e, s') \<Rightarrow> (Err (''ERROR:KEY_WRITE_FAILED:'' @ e), s')
      | (Ok (status, _), s') \<Rightarrow>
          if status = RSP_OK then import_write L cat (off + length (take 59 rest)) (drop 59 rest) s'
          else if status = RSP_ERR_LOW_BATTERY
          then (Err ''ERROR:LOW_BATTERY:KEY_WRITE refused (device <5%, charge to retry)'', s')
          else (Err (''ERROR:KEY_WRITE_FAILED:offset='' @ show_nat off @ '':'' @ hexcode status), s'))"

declare import_write.simps [simp del]

definition handle_key_import_inner ::
    "'d link \<Rightarrow> byte \<Rightarrow> bytes \<Rightarrow> string \<Rightarrow> byte \<Rightarrow> 'd sys \<Rightarrow> string \<times> 'd sys" where
  "handle_key_import_inner L cat key_data label max_count s =
     (case ble_send L CMD_KEY_COUNT [cat] s of
        (Err e, s1) \<Rightarrow> (''ERROR:KEY_COUNT_FAILED:'' @ e, s1)
      | (Ok (status, payload), s1) \<Rightarrow>
          if status \<noteq> RSP_OK \<or> payload = []
          then (''ERROR:KEY_COUNT_FAILED:'' @ hexcode status @ '':len='' @ show_nat (length payload), s1)
          else let n = hd payload in
            if n \<ge> max_count
            then (''ERROR:KEYSTORE_FULL:'' @ label @ '' at capacity ('' @ show_word n @ ''/'' @ show_word max_count @ '')'', s1)
            else (case import_write L cat 0 key_data s1 of
                (Err e, s2) \<Rightarrow> (e, s2)
              | (Ok _, s2) \<Rightarrow> (case ble_send_fp_gated L CMD_KEY_COMMIT [cat, 0xFF] s2 of
                  (Err e, s3) \<Rightarrow> (''ERROR:KEY_COMMIT_FAILED:'' @ e, s3)
                | (Ok (st3, _), s3) \<Rightarrow>
                    if st3 = RSP_OK \<or> st3 = RSP_FP_GATE_APPROVED
                    then (''OK:'' @ show_word n, snd (sync_keys L s3))
                    else (fmt_write_status ''KEY_COMMIT'' st3, s3))))"

section \<open>KEY commands\<close>

definition key_generate :: "codecs \<Rightarrow> 'd link \<Rightarrow> string \<Rightarrow> 'd sys \<Rightarrow> string \<times> 'd sys" where
  "key_generate cd L name_hex s =
     (case hexd cd name_hex of
        Err _ \<Rightarrow> (''ERROR:INVALID_NAME'', s)
      | Ok name \<Rightarrow>
          if length name \<noteq> 16 then (''ERROR:INVALID_NAME'', s)
          else (case ble_send_fp_gated L CMD_KEY_GENERATE (KEY_CAT_SSH # name) s of
              (Err e, s') \<Rightarrow> (''ERROR:'' @ e, s')
            | (Ok (status, d), s') \<Rightarrow>
                if status = RSP_OK
                then (''OK:'' @ show_word (if 3 \<le> length d then d ! 2 else 0), snd (sync_keys L s'))
                else (fmt_write_status ''GENERATE'' status, s')))"

definition key_category_arg :: "string \<Rightarrow> byte option" where
  "key_category_arg a =
     (if a = ''ssh'' \<or> a = ''0'' then Some KEY_CAT_SSH
      else if a = ''otp'' \<or> a = ''1'' then Some KEY_CAT_OTP
      else if a = ''api'' \<or> a = ''2'' then Some KEY_CAT_API
      else None)"

definition key_delete :: "'d link \<Rightarrow> string \<Rightarrow> string \<Rightarrow> 'd sys \<Rightarrow> string \<times> 'd sys" where
  "key_delete L cat_arg idx_arg s = (case key_category_arg cat_arg of
     None \<Rightarrow> (''ERROR:INVALID_CATEGORY'', s)
   | Some cat \<Rightarrow> (case parse_u8 idx_arg of
       Err _ \<Rightarrow> (''ERROR:INVALID_INDEX'', s)
     | Ok idx \<Rightarrow> (case ble_send_fp_gated L CMD_KEY_DELETE [cat, idx] s of
         (Err e, s') \<Rightarrow> (''ERROR:'' @ e, s')
       | (Ok (status, _), s') \<Rightarrow>
           if status = RSP_OK then (''OK:DELETED'', snd (sync_keys L s'))
           else (fmt_write_status ''KEY_DELETE'' status, s'))))"

text \<open>The length check of an import: \<open>min < length\<close> and at most \<open>max\<close>, or exactly 112 for SSH.\<close>

definition import_data :: "codecs \<Rightarrow> (nat \<Rightarrow> bool) \<Rightarrow> string \<Rightarrow> string \<Rightarrow> (bytes, string) result" where
  "import_data cd len_ok want hex = (case hexd cd hex of
     Err e \<Rightarrow> Err (''ERROR:INVALID_HEX:'' @ e)
   | Ok b \<Rightarrow> if len_ok (length b) then Ok b
            else Err (''ERROR:INVALID_DATA_LEN:expected '' @ want @ '', got '' @ show_nat (length b)))"

definition key_import ::
    "codecs \<Rightarrow> 'd link \<Rightarrow> (nat \<Rightarrow> bool) \<Rightarrow> string \<Rightarrow> byte \<Rightarrow> string \<Rightarrow> byte \<Rightarrow> string \<Rightarrow> 'd sys \<Rightarrow> string \<times> 'd sys" where
  "key_import cd L len_ok want cat label max_count hex s = (case import_data cd len_ok want hex of
     Err e \<Rightarrow> (e, s)
   | Ok d \<Rightarrow> handle_key_import_inner L cat d label max_count s)"

definition key_otp :: "nat \<Rightarrow> codecs \<Rightarrow> 'd link \<Rightarrow> string \<Rightarrow> 'd sys \<Rightarrow> string \<times> 'd sys" where
  "key_otp ch cd L idx_arg s = (case parse_u8 idx_arg of
     Err _ \<Rightarrow> (''ERROR:INVALID_INDEX'', s)
   | Ok idx \<Rightarrow> (case with_pending ch ''ERROR:BUSY'' (otp_get_inner cd L idx) s of
       (Inl busy, s') \<Rightarrow> (busy, s')
     | (Inr resp, s') \<Rightarrow> (trim_end resp, s')))"

definition handle_key_command ::
    "nat \<Rightarrow> codecs \<Rightarrow> key_cache \<Rightarrow> 'd link \<Rightarrow> string \<Rightarrow> 'd sys \<Rightarrow> string \<times> 'd sys" where
  "handle_key_command ch cd kc L line s =
     (let parts = splitn 4 CHR '':'' line; n = length parts; op = parts ! 1 in
      if n < 2 then (''ERROR:INVALID_FORMAT'', s)
      else if op = ''CACHE'' \<and> 3 \<le> n then (key_cache_json cd kc (parts ! 2), s)
      else if \<not> is_connected (fst s) then (''ERROR:NOT_CONNECTED'', s)
      else if \<not> is_device_verified (fst s) then (''ERROR:NOT_VERIFIED'', s)
      else if op = ''GENERATE'' \<and> 3 \<le> n then key_generate cd L (parts ! 2) s
      else if op = ''DELETE'' \<and> 4 \<le> n then key_delete L (parts ! 2) (parts ! 3) s
      else if op = ''IMPORT'' \<and> 3 \<le> n
      then key_import cd L (\<lambda>k. k = 112) ''112 bytes'' KEY_CAT_SSH ''SSH'' KEY_MAX_SSH (parts ! 2) s
      else if op = ''OTP_IMPORT'' \<and> 3 \<le> n
      then key_import cd L (\<lambda>k. NAME_LEN_OTP + SERVICE_LEN_OTP < k \<and> k \<le> NAME_LEN_OTP + SERVICE_LEN_OTP + SECRET_LEN_OTP)
             (show_nat (NAME_LEN_OTP + SERVICE_LEN_OTP + 1) @ ''..='' @
              show_nat (NAME_LEN_OTP + SERVICE_LEN_OTP + SECRET_LEN_OTP) @ '' bytes (name+service+secret)'')
             KEY_CAT_OTP ''OTP'' KEY_MAX_OTP (parts ! 2) s
      else if op = ''OTP'' \<and> 3 \<le> n then key_otp ch cd L (parts ! 2) s
      else if op = ''API_IMPORT'' \<and> 3 \<le> n
      then key_import cd L (\<lambda>k. NAME_LEN_API < k \<and> k \<le> NAME_LEN_API + VALUE_LEN_API)
             (show_nat (NAME_LEN_API + 1) @ ''..='' @ show_nat (NAME_LEN_API + VALUE_LEN_API) @ '' bytes (name+value)'')
             KEY_CAT_API ''API'' KEY_MAX_API (parts ! 2) s
      else (''ERROR:UNKNOWN_KEY_CMD'', s))"

section \<open>What an import puts on the wire\<close>

text \<open>
  A link that records the commands and acknowledges each of them: the count request with the number
  of keys \<open>n\<close>, everything else with OK.
\<close>

definition recorder :: "byte \<Rightarrow> ble_command list link" where
  "recorder n cmd s =
     (let s' = (fst s, snd s @ [cmd]) in case cmd of
        SendCommand c p \<Rightarrow> (Replied (BleReply (Ok (RSP_OK, [n]))), s')
      | SendFpGated c p \<Rightarrow> (Replied (BleReply (Ok (RSP_OK, [RSP_OK]))), s')
      | _ \<Rightarrow> (Replied (UnitReply (Ok ())), s'))"

text \<open>The reference: the data cut at 59 bytes, each piece with its offset.\<close>

definition write_frames :: "byte \<Rightarrow> bytes \<Rightarrow> bytes list" where
  "write_frames cat d = map (\<lambda>(i, piece). cat # 0xFF # of_nat (59 * i) # piece) (enumerate 0 (chunks 59 d))"

lemma recorder_send: "ble_send (recorder n) cmd p s = (Ok (RSP_OK, [n]), fst s, snd s @ [SendCommand cmd p])"
  by (simp add: ble_send_def recorder_def delivered_def pick_ble_def)

lemma recorder_gated:
  "ble_send_fp_gated (recorder n) cmd p s = (Ok (RSP_OK, [RSP_OK]), fst s, snd s @ [SendFpGated cmd p])"
  by (simp add: ble_send_fp_gated_def recorder_def delivered_def pick_ble_def)

lemma recorder_sync: "sync_keys (recorder n) s = (Ok (), fst s, snd s @ [SyncKeys])"
  by (simp add: sync_keys_def recorder_def delivered_def pick_unit_def)

lemma import_write_recorded:
  "import_write (recorder n) cat (59 * k) d s =
     (Ok (), fst s, snd s @ map (SendCommand CMD_KEY_WRITE)
        (map (\<lambda>(i, piece). cat # 0xFF # of_nat (59 * i) # piece) (enumerate k (chunks 59 d))))"
proof (induction "length d" arbitrary: d k s rule: less_induct)
  case less
  show ?case
  proof (cases "d = []")
    case True
    then show ?thesis by (simp add: import_write.simps)
  next
    case False
    have step: "import_write (recorder n) cat (59 * k) d s =
        import_write (recorder n) cat (59 * k + length (take 59 d)) (drop 59 d)
          (fst s, snd s @ [SendCommand CMD_KEY_WRITE (cat # 0xFF # of_nat (59 * k) # take 59 d)])"
      using False by (subst import_write.simps) (simp add: recorder_send)
    show ?thesis
    proof (cases "drop 59 d = []")
      case True
      then show ?thesis
        using False unfolding step by (simp add: import_write.simps [of _ _ _ "[]"] chunks_step)
    next
      case more: False
      then have "59 * k + length (take 59 d) = 59 * Suc k" by simp
      then show ?thesis
        using False less [of "drop 59 d" "Suc k"] unfolding step
        by (simp add: chunks_step add.commute [of "59 * k"])
    qed
  qed
qed

lemma chunks_enumerate_bound:
  "(i, p) \<in> set (enumerate k (chunks 59 d)) \<Longrightarrow> 59 * (i - k) < length d \<and> length p \<le> 59"
proof (induction "length d" arbitrary: d k rule: less_induct)
  case less
  show ?case
  proof (cases "d = []")
    case False
    note mem = less.prems [unfolded chunks_step [OF _ False, of 59, simplified], simplified]
    show ?thesis
    proof (cases "(i, p) = (k, take 59 d)")
      case True
      then show ?thesis using False by simp
    next
      case other: False
      then have m: "(i, p) \<in> set (enumerate (Suc k) (chunks 59 (drop 59 d)))" using mem by auto
      then have "drop 59 d \<noteq> []" by auto
      then have l: "length (drop 59 d) < length d" "59 < length d" by auto
      have "Suc k \<le> i" using m by (auto simp: in_set_enumerate_eq)
      then show ?thesis using less.hyps [OF l(1) m] l(2) by auto
    qed
  qed (use less.prems in simp)
qed

text \<open>
  Fact: an import puts exactly the key data on the wire. Against an acknowledging device with a free
  slot, the commands are the count, the data cut into frames, the gated commit and the cache
  synchronisation, in this order; the frames carry the data in order, none exceeds the 62 bytes of a
  BLE payload, and no offset is truncated by its byte for the three sizes the KEY commands accept.
\<close>

theorem import_wire_image:
  assumes "n < max_count" "length d \<le> 160"
  shows "handle_key_import_inner (recorder n) cat d label max_count (c, []) =
      (''OK:'' @ show_word n, c, SendCommand CMD_KEY_COUNT [cat] #
         map (SendCommand CMD_KEY_WRITE) (write_frames cat d) @ [SendFpGated CMD_KEY_COMMIT [cat, 0xFF], SyncKeys]) \<and>
    concat (map (drop 3) (write_frames cat d)) = d \<and>
    (\<forall>i<length (write_frames cat d). length (write_frames cat d ! i) \<le> 62 \<and>
       unat (write_frames cat d ! i ! 2) = 59 * i)"
proof -
  have "map (drop 3) (write_frames cat d) = map snd (enumerate 0 (chunks 59 d))"
    unfolding write_frames_def map_map by (rule map_cong) (auto simp: drop_Cons')
  then have data: "concat (map (drop 3) (write_frames cat d)) = d" by simp
  have "length (write_frames cat d ! i) \<le> 62 \<and> unat (write_frames cat d ! i ! 2) = 59 * i"
    if i: "i < length (write_frames cat d)" for i
  proof -
    have e: "enumerate 0 (chunks 59 d) ! i = (i, chunks 59 d ! i)" "i < length (chunks 59 d)"
      using i by (simp_all add: write_frames_def nth_enumerate_eq)
    then have "(i, chunks 59 d ! i) \<in> set (enumerate 0 (chunks 59 d))"
      by (metis i length_enumerate nth_mem)
    from chunks_enumerate_bound [OF this] have b: "59 * i < 256" "length (chunks 59 d ! i) \<le> 59"
      using assms(2) by auto
    have "write_frames cat d ! i = cat # 0xFF # of_nat (59 * i) # chunks 59 d ! i"
      using e by (simp add: write_frames_def)
    moreover have "unat (of_nat (59 * i) :: byte) = 59 * i"
      using b(1) by (simp only: unsigned_of_nat) (simp add: take_bit_nat_eq_self)
    ultimately show ?thesis using b(2) by (simp del: of_nat_mult of_nat_numeral)
  qed
  then show ?thesis
    using assms(1) data import_write_recorded [of n cat 0 d]
    by (simp add: handle_key_import_inner_def recorder_send recorder_gated recorder_sync write_frames_def)
qed

theorem import_wire_image_witness:
  "concat (map (drop 3) (write_frames 2 (replicate 160 7))) = replicate 160 7"
  using import_wire_image [of 3 50 "replicate 160 7" 2] by simp

section \<open>Answers of the reads\<close>

text \<open>
  Fact: an API secret stored by this program comes back unchanged: the entry is the name padded to 32
  bytes and the secret, padded with zeros up to 160 bytes.
\<close>

theorem api_secret_roundtrip:
  assumes "length name_field = NAME_LEN_API" "s \<noteq> []" "CHR 0x00 \<notin> set s" "utf8_valid s"
  shows "decode_api_secret (name_field @ as_bytes s @ replicate k 0) name = ''OK:'' @ s @ nl"
proof -
  have "takeWhile (\<lambda>b. b \<noteq> 0) (as_bytes s @ replicate k 0) = as_bytes s"
  proof -
    have "\<forall>b\<in>set (as_bytes s). b \<noteq> 0"
    proof
      fix b assume "b \<in> set (as_bytes s)"
      then obtain ch where "ch \<in> set s" "b = byte_of ch" by auto
      then show "b \<noteq> 0"
        using assms(3) char_of_byte_of [of ch] by (auto simp: char_of_byte_def char_of_def)
    qed
    then show ?thesis by (simp add: takeWhile_append)
  qed
  then show ?thesis using assms by (simp add: decode_api_secret_def Let_def del: map_map)
qed

theorem api_secret_roundtrip_witness:
  "decode_api_secret (replicate 32 65 @ as_bytes ''key'' @ replicate 125 0) ''n'' = ''OK:key'' @ nl"
  using api_secret_roundtrip [of "replicate 32 65" "''key''" 125 "''n''"] by (simp add: utf8_valid_ascii)

text \<open>
  Fact: a one-time password answer is six ASCII digits or an error. No other byte of the device gets
  into an OK line, whatever the link delivers.
\<close>

theorem otp_answer_is_six_digits:
  assumes "otp_get_inner cd L idx s = (r, s')"
  shows "(\<exists>code. length code = 6 \<and> list_all is_ascii_digit code \<and> r = ''OK:'' @ of_bytes code @ nl) \<or>
    starts_with ''ERROR:'' r"
proof -
  have f: "(\<exists>code. length code = 6 \<and> list_all is_ascii_digit code \<and> format_otp_response cd p = ''OK:'' @ of_bytes code @ nl) \<or>
      starts_with ''ERROR:'' (format_otp_response cd p)" for p
  proof (cases "length p < 6 \<or> \<not> list_all is_ascii_digit (take 6 p)")
    case False
    have "ascii (of_bytes (take 6 p))"
    proof -
      have "cp (char_of_byte b) < 128" if "is_ascii_digit b" for b
        using that by (simp add: is_ascii_digit_def word_le_nat_alt char_of_byte_def)
      then show ?thesis using False by (auto simp: ascii_def list_all_iff)
    qed
    then show ?thesis
      using False by (intro disjI1 exI [of _ "take 6 p"])
        (simp add: format_otp_response_def from_utf8_lossy_ascii)
  qed (simp add: format_otp_response_def starts_with_def)
  show ?thesis
    using assms f
    by (auto simp: otp_get_inner_def starts_with_def split: prod.splits result.splits if_splits)
qed

theorem otp_answer_is_six_digits_witness:
  "starts_with ''ERROR:'' (fst (otp_get_inner \<lparr> ssh_json = (\<lambda>_. Err []), names_json = (\<lambda>_. Err []),
      b64 = (\<lambda>_. []), hexd = (\<lambda>_. Err []), hexe = hex_bytes, unix_time = (\<lambda>_. 5) \<rparr> (recorder 3) 0 (coordinator_new, [])))"
proof -
  let ?cd = "\<lparr> ssh_json = (\<lambda>_. Err []), names_json = (\<lambda>_. Err []), b64 = (\<lambda>_. []),
      hexd = (\<lambda>_. Err []), hexe = hex_bytes, unix_time = (\<lambda>_. 5 :: 32 word) \<rparr> :: codecs"
  obtain r s' where e: "otp_get_inner ?cd (recorder 3) 0 (coordinator_new, []) = (r, s')"
    by (cases "otp_get_inner ?cd (recorder 3) 0 (coordinator_new, [])")
  from otp_answer_is_six_digits [OF e] show ?thesis
    using e by (auto simp: otp_get_inner_def recorder_send recorder_gated)
qed

section \<open>The chunk loop\<close>

lemma worker_send_consumes:
  assumes "ble_send (worker_link E) cmd p (c, w, kc, ts) = (Ok v, c', w', kc', ts')"
  shows "length ts' < length ts"
proof -
  obtain r w1 ts1 where sc: "send_command_inner (sw E) cmd p BLE_COMMAND_TIMEOUT_SECS ts (w\<lparr> coord := c \<rparr>) = (r, w1, ts1)"
    by (metis prod_cases3)
  have "ts' = ts1 \<and> (\<exists>u. r = Ok u)"
    using assms sc by (auto simp: ble_send_def worker_link_def handle_ble_command_def split_answer_def
        delivered_def pick_ble_def split: option.splits result.splits list.splits)
  then show ?thesis using sc send_command_consumes by blast
qed

lemma read_api_returns: "\<exists>r s'. read_api (worker_link E) idx full (c, w, kc, ts) = Some (r, s')"
proof (induction "length ts" arbitrary: full c w kc ts rule: less_induct)
  case less
  obtain r c' w' kc' ts' where b: "ble_send (worker_link E) CMD_KEY_READ [KEY_CAT_API, idx, of_nat (length full)]
      (c, w, kc, ts) = (r, c', w', kc', ts')"
    by (metis prod_cases5)
  show ?case
  proof (cases r)
    case (Ok v)
    obtain st p where v: "v = (st, p)" by (cases v)
    have "length ts' < length ts" using worker_send_consumes b Ok by blast
    from less [OF this, of "full @ drop 2 p" c' w' kc'] show ?thesis
      using b Ok v by (subst read_api.simps) (simp add: Let_def)
  next
    case (Err e)
    then show ?thesis using b by (subst read_api.simps) simp
  qed
qed

text \<open>
  Fact: GET:api always answers on the daemon's own worker. Its loop has no bound, but every round that
  goes on has used up a notification of the device, and after the last one the command times out.
\<close>

theorem get_api_returns_on_worker:
  "handle_get_api ch kc (worker_link E) name s \<noteq> None"
proof (cases "find_key_index kc ''api'' name")
  case (Some idx)
  let ?op = "ble_send_fp_gated (worker_link E) CMD_KEY_READ [KEY_CAT_API, idx, 0]"
  obtain q s1 where w: "with_pending ch (''ERROR:BUSY'' @ nl) ?op s = (q, s1)"
    by (cases "with_pending ch (''ERROR:BUSY'' @ nl) ?op s")
  obtain c1 v1 k1 t1 where s1: "s1 = (c1, v1, k1, t1)" by (metis prod_cases4)
  show ?thesis
    using w s1 Some read_api_returns [of E idx "[]" c1 v1 k1 t1]
    by (auto simp: handle_get_api_def split: sum.split result.split)
qed (simp add: handle_get_api_def)

definition empty_chunks :: "unit link" where
  "empty_chunks cmd s = (Replied (BleReply (Ok (RSP_OK, [5, 0]))), s)"

text \<open>
  Fact: the loop's bound is the device's goodwill alone. A device that announces five bytes and sends
  none keeps GET:api in its loop for ever: no number of rounds gives an answer.
\<close>

theorem empty_chunks_never_end: "read_api empty_chunks idx [] s = None"
proof -
  have "\<not> (empty_chunks = empty_chunks \<and> ([] :: bytes) = [])" if y: "read_api empty_chunks idx [] s = Some y" for y
  proof (rule read_api.raw_induct [where P = "\<lambda>L idx full s y. \<not> (L = empty_chunks \<and> full = [])", OF _ y])
    fix rec :: "unit link \<Rightarrow> byte \<Rightarrow> bytes \<Rightarrow> unit sys \<Rightarrow> ((bytes, string) result \<times> unit sys) option"
      and L idx full s r
    assume ih: "\<And>L idx full s r. rec L idx full s = Some r \<Longrightarrow> \<not> (L = empty_chunks \<and> full = [])"
      and body: "(case ble_send L CMD_KEY_READ [KEY_CAT_API, idx, of_nat (length full)] s of
          (Ok (status, p), s') \<Rightarrow>
            if status \<noteq> RSP_OK \<or> length p < 2
            then Some (Err (''ERROR:READ_FAILED:'' @ hexcode status @ nl), s')
            else let full' = full @ drop 2 p in
              if unat (p ! 0) \<le> length full' then Some (Ok (take (unat (p ! 0)) full'), s')
              else rec L idx full' s'
        | (Err e, s') \<Rightarrow> Some (Err (''ERROR:READ_FAILED:'' @ e @ nl), s')) = Some r"
    show "\<not> (L = empty_chunks \<and> full = [])"
      using body ih [of empty_chunks idx "[]" s r] by (auto simp: ble_send_def empty_chunks_def delivered_def pick_ble_def)
  qed
  then show ?thesis by (cases "read_api empty_chunks idx [] s") auto
qed

section \<open>The pending slot around a read\<close>

lemma deny_pending_empty [simp]: "pending_pam (deny_pending_pam c) = None"
  by (simp add: deny_pending_pam_def split: option.split)

lemma with_pending_slot:
  assumes "with_pending ch busy f s = (q, s')"
  shows "(if pending_pam (fst s) = None then (\<exists>a. q = Inr a) \<and> pending_pam (fst s') = None
     else q = Inl busy \<and> s' = s)"
  using assms by (cases s) (auto simp: with_pending_def try_set_pending_pam_def split: prod.splits)

text \<open>
  Fact: a one-time password is read only while no AUTH request waits. When one does, the answer is BUSY
  (or NOT_FOUND) and nothing is changed, sent to the device or denied; otherwise the slot is free
  again afterwards.
\<close>

theorem get_otp_respects_slot:
  assumes "handle_get_otp ch cd kc L name s = (r, s')"
  shows "(if pending_pam (fst s) = None then pending_pam (fst s') = None
     else s' = s \<and> r \<in> {''ERROR:BUSY'' @ nl, ''ERROR:NOT_FOUND:'' @ name @ nl})"
proof (cases "find_key_index kc ''otp'' name")
  case (Some idx)
  obtain q s1 where w: "with_pending ch (''ERROR:BUSY'' @ nl) (otp_get_inner cd L idx) s = (q, s1)"
    by (cases "with_pending ch (''ERROR:BUSY'' @ nl) (otp_get_inner cd L idx) s")
  then show ?thesis
    using with_pending_slot [OF w] assms Some
    by (auto simp: handle_get_otp_def reply_or_busy_def split: if_splits)
qed (use assms in \<open>auto simp: handle_get_otp_def\<close>)

definition sample_codecs :: codecs where
  "sample_codecs = \<lparr> ssh_json = (\<lambda>_. Err []), names_json = (\<lambda>_. Err []), b64 = (\<lambda>_. []),
     hexd = (\<lambda>_. Ok (replicate 16 65)), hexe = hex_bytes, unix_time = (\<lambda>_. 5) \<rparr>"

definition otp_cache :: key_cache where
  "otp_cache = empty_cache\<lparr> key_names := [\<lparr> entry_index = 0, category = ''otp'',
     entry_name = ''mail'', service = [] \<rparr>] \<rparr>"

theorem get_otp_respects_slot_witness:
  "snd (handle_get_otp 2 sample_codecs otp_cache (recorder 3) ''mail''
      (coordinator_new\<lparr> pending_pam := Some 1 \<rparr>, [])) = (coordinator_new\<lparr> pending_pam := Some 1 \<rparr>, [])"
proof -
  let ?s = "(coordinator_new\<lparr> pending_pam := Some 1 \<rparr>, [] :: ble_command list)"
  obtain r s' where e: "handle_get_otp 2 sample_codecs otp_cache (recorder 3) ''mail'' ?s = (r, s')"
    by (cases "handle_get_otp 2 sample_codecs otp_cache (recorder 3) ''mail'' ?s")
  from get_otp_respects_slot [OF this] have "s' = ?s" by simp
  then show ?thesis using e by simp
qed

text \<open>
  Fact: KEY:GENERATE reports the new key's index only when the device skips the fingerprint gate. After
  a real gate the worker hands back a bare OK without the device's data and the answer is index 0
  whatever slot the key went to.
\<close>

theorem generate_index_lost:
  "fst (key_generate sample_codecs (worker_link sample_env) h
      (online, writes, kc, [Notif [0, 0, 0, 5], Rx])) = ''OK:5'' \<and>
   fst (key_generate sample_codecs (worker_link sample_env) h
      (online, writes, kc, [Notif [0x11], Rx, Notif [0, 0, 0, 5], Rx])) = ''OK:0''"
  by (simp_all add: key_generate_def sample_codecs_def ble_send_fp_gated_def worker_link_def
      handle_ble_command_def send_fp_gated_inner_def run_session writes_def online_def enter_gate_def
      set_gate_active_def gate_branch_def gate_outcome_def delivered_def pick_ble_def Let_def
      show_nat.simps digit_char_def char_of_def bit_Suc_0_iff)

end
