(* ===== verification/Ssh_Agent.thy ===== *)
theory Ssh_Agent
  imports Socket_Device
begin

text \<open>
  The SSH agent (\<open>immurok-daemon/src/ssh_agent.rs\<close>): the wire helpers, the peer check, the list of
  identities and the signing request with its fingerprint gate and the chunked read of the
  signature. SHA-256 is a parameter; the spinner on the client's terminal is not modelled.
\<close>

definition SSH_AGENT_FAILURE :: byte where [simp]: "SSH_AGENT_FAILURE = 5"
definition SSH_AGENTC_REQUEST_IDENTITIES :: byte where [simp]: "SSH_AGENTC_REQUEST_IDENTITIES = 11"
definition SSH_AGENT_IDENTITIES_ANSWER :: byte where [simp]: "SSH_AGENT_IDENTITIES_ANSWER = 12"
definition SSH_AGENTC_SIGN_REQUEST :: byte where [simp]: "SSH_AGENTC_SIGN_REQUEST = 13"
definition SSH_AGENT_SIGN_RESPONSE :: byte where [simp]: "SSH_AGENT_SIGN_RESPONSE = 14"

section \<open>Wire format\<close>

definition append_u32_be :: "bytes \<Rightarrow> 32 word \<Rightarrow> bytes" where
  "append_u32_be buf v = buf @ be32 v"

definition append_ssh_string :: "bytes \<Rightarrow> bytes \<Rightarrow> bytes" where
  "append_ssh_string buf d = append_u32_be buf (of_nat (length d)) @ d"

definition append_ssh_string_str :: "bytes \<Rightarrow> string \<Rightarrow> bytes" where
  "append_ssh_string_str buf s = append_ssh_string buf (as_bytes s)"

definition append_ssh_mpint :: "bytes \<Rightarrow> bytes \<Rightarrow> bytes" where
  "append_ssh_mpint buf d =
     (if d = [] then append_u32_be buf 0
      else if d ! 0 AND 0x80 \<noteq> 0
      then append_u32_be buf (of_nat (length d) + 1) @ 0x00 # d
      else append_u32_be buf (of_nat (length d)) @ d)"

definition read_ssh_string :: "bytes \<Rightarrow> nat \<Rightarrow> (bytes \<times> nat) option" where
  "read_ssh_string d off =
     (if length d < off + 4 then None
      else let len = unat (from_be32 (d ! off) (d ! (off + 1)) (d ! (off + 2)) (d ! (off + 3))) in
        if length d < off + 4 + len then None
        else Some (slice (off + 4) (off + 4 + len) d, off + 4 + len))"

text \<open>
  One message from the stream: \<open>None\<close> when the stream ends before the header or the length is not
  acceptable, an error when it ends inside the body.
\<close>

definition read_agent_message :: "bytes \<Rightarrow> ((bytes \<times> bytes) option, string) result" where
  "read_agent_message st =
     (if length st < 4 then Ok None
      else let len = unat (from_be32 (st ! 0) (st ! 1) (st ! 2) (st ! 3)) in
        if len = 0 \<or> 256 * 1024 < len then Ok None
        else if length st < 4 + len then Err ''early eof''
        else Ok (Some (slice 4 (4 + len) st, drop (4 + len) st)))"

definition send_agent_message :: "bytes \<Rightarrow> bytes" where
  "send_agent_message body = be32 (of_nat (length body)) @ body"

section \<open>The peer\<close>

definition verify_peer_uid :: "host \<Rightarrow> 32 word \<Rightarrow> 'p \<Rightarrow> ('p, string) result" where
  "verify_peer_uid h uid pid =
     (if uid \<noteq> 0 \<and> \<not> (case uid_is_active h uid of Some a \<Rightarrow> a | None \<Rightarrow> owner_uid h = Some uid)
      then Err (''Rejected UID '' @ show_word uid @ '' (no active session)'') else Ok pid)"

section \<open>Identities\<close>

definition identities_body :: "ssh_key list \<Rightarrow> bytes" where
  "identities_body ks =
     foldl (\<lambda>b e. append_ssh_string_str (append_ssh_string b (public_key_blob e)) (key_name e))
       (append_u32_be [SSH_AGENT_IDENTITIES_ANSWER] (of_nat (length ks))) ks"

section \<open>Signing\<close>

text \<open>The wait for a reconnection: at most 50 polls, \<open>env i\<close> is what happens before the i-th.\<close>

fun wait_reconnect :: "nat \<Rightarrow> (nat \<Rightarrow> coordinator \<Rightarrow> coordinator) \<Rightarrow> nat \<Rightarrow> coordinator \<Rightarrow> coordinator" where
  "wait_reconnect 0 env i c = c"
| "wait_reconnect (Suc n) env i c =
     (let c' = env i c in if is_connected c' then c' else wait_reconnect n env (Suc i) c')"

text \<open>
  The end of the gated wait: its result, the 50 second deadline, or the client hanging up (before or
  after the command was queued).
\<close>

datatype sign_end = SignGate gate_race | SignDeadline

definition sign_gate ::
    "'d link \<Rightarrow> sign_end \<Rightarrow> bytes \<Rightarrow> 'd sys \<Rightarrow> ble_result option \<times> 'd sys" where
  "sign_gate L fin p s = (case fin of
     SignGate GateFirst \<Rightarrow> (case ble_send_fp_gated L CMD_KEY_SIGN p s of (r, s') \<Rightarrow> (Some r, s'))
   | SignGate rc \<Rightarrow> (None, snd (gated_or_peer L rc CMD_KEY_SIGN p s))
   | SignDeadline \<Rightarrow> (Some (Err ''KEY_SIGN timeout''), snd (ble_send_fp_gated L CMD_KEY_SIGN p s)))"

fun read_signature :: "nat \<Rightarrow> 'd link \<Rightarrow> bytes \<Rightarrow> 'd sys \<Rightarrow> (bytes \<times> bool) \<times> 'd sys" where
  "read_signature 0 L sig s = ((sig, False), s)"
| "read_signature (Suc n) L sig s =
     (case ble_send L CMD_KEY_RESULT [of_nat (length sig)] s of
        (Ok (st, d), s') \<Rightarrow>
          if st = RSP_OK \<and> 2 \<le> length d
          then let sig' = sig @ drop 2 d in
            if unat (d ! 0) \<le> length sig' then ((take (unat (d ! 0)) sig', True), s')
            else read_signature n L sig' s'
          else ((sig, False), s')
      | (Err e, s') \<Rightarrow> ((sig, False), s'))"

definition final_signature :: "bytes \<times> bool \<Rightarrow> bytes \<Rightarrow> bytes option" where
  "final_signature rd resp = (case rd of (sig, complete) \<Rightarrow>
     if complete \<and> length sig = 64 then Some sig
     else if length resp = 64 then Some resp else None)"

definition sign_body :: "bytes \<Rightarrow> bytes" where
  "sign_body sig =
     (let r = rev (slice 0 32 sig); s = rev (slice 32 64 sig);
          ecdsa_sig = append_ssh_mpint (append_ssh_mpint [] r) s;
          sig_blob = append_ssh_string (append_ssh_string_str [] ''ecdsa-sha2-nistp256'') ecdsa_sig
      in append_ssh_string [SSH_AGENT_SIGN_RESPONSE] sig_blob)"

definition sign_request_fields :: "bytes \<Rightarrow> (bytes \<times> bytes) option" where
  "sign_request_fields payload =
     Option.bind (read_ssh_string payload 0) (\<lambda>(blob, off).
     Option.bind (read_ssh_string payload off) (\<lambda>(d, _). Some (blob, d)))"

definition sign_with ::
    "(bytes \<Rightarrow> bytes) \<Rightarrow> 'd link \<Rightarrow> sign_end \<Rightarrow> byte \<Rightarrow> bytes \<Rightarrow> 'd sys \<Rightarrow> bytes option \<times> 'd sys" where
  "sign_with sha L fin idx d s =
     (case sign_gate L fin (KEY_CAT_SSH # idx # 0 # sha d) s of
        (None, s1) \<Rightarrow> (None, s1)
      | (Some (Err e), s1) \<Rightarrow> (Some [SSH_AGENT_FAILURE], s1)
      | (Some (Ok (status, resp)), s1) \<Rightarrow>
          if status \<noteq> RSP_OK \<and> status \<noteq> RSP_FP_GATE_APPROVED then (Some [SSH_AGENT_FAILURE], s1)
          else (case read_signature 4 L [] s1 of
            (rd, s2) \<Rightarrow> (case final_signature rd resp of
               Some sig \<Rightarrow> (Some (sign_body sig), s2)
             | None \<Rightarrow> (Some [SSH_AGENT_FAILURE], s2))))"

text \<open>The answer to a signing request; \<open>None\<close> when the client is gone.\<close>

definition handle_sign_request ::
    "(bytes \<Rightarrow> bytes) \<Rightarrow> key_cache \<Rightarrow> 'd link \<Rightarrow> (nat \<Rightarrow> coordinator \<Rightarrow> coordinator) \<Rightarrow> sign_end \<Rightarrow>
      bytes \<Rightarrow> 'd sys \<Rightarrow> bytes option \<times> 'd sys" where
  "handle_sign_request sha kc L env fin payload s =
     (case sign_request_fields payload of
        None \<Rightarrow> (Some [SSH_AGENT_FAILURE], s)
      | Some (blob, d) \<Rightarrow> (case find (\<lambda>k. public_key_blob k = blob) (ssh_keys kc) of
          None \<Rightarrow> (Some [SSH_AGENT_FAILURE], s)
        | Some e \<Rightarrow>
            (let c = (if is_connected (fst s) then fst s else wait_reconnect 50 env 0 (fst s));
                 s1 = (c, snd s) in
             if \<not> is_connected c then (Some [SSH_AGENT_FAILURE], s1)
             else if \<not> is_device_verified c then (Some [SSH_AGENT_FAILURE], s1)
             else sign_with sha L fin (key_index e) d s1)))"

definition handle_agent_message ::
    "(bytes \<Rightarrow> bytes) \<Rightarrow> key_cache \<Rightarrow> 'd link \<Rightarrow> (nat \<Rightarrow> coordinator \<Rightarrow> coordinator) \<Rightarrow> sign_end \<Rightarrow>
      bytes \<Rightarrow> 'd sys \<Rightarrow> bytes option \<times> 'd sys" where
  "handle_agent_message sha kc L env fin msg s =
     (case msg of
        [] \<Rightarrow> (Some [SSH_AGENT_FAILURE], s)
      | t # payload \<Rightarrow>
          if t = SSH_AGENTC_REQUEST_IDENTITIES then (Some (identities_body (ssh_keys kc)), s)
          else if t = SSH_AGENTC_SIGN_REQUEST then handle_sign_request sha kc L env fin payload s
          else (Some [SSH_AGENT_FAILURE], s))"

text \<open>
  The connection: message after message until the stream ends. The \<open>i\<close>-th message meets the key
  cache and the environment \<open>visit i\<close>; the wait of a signature swallows the bytes that arrive
  during it, the last component.
\<close>

type_synonym visit = "key_cache \<times> (nat \<Rightarrow> coordinator \<Rightarrow> coordinator) \<times> sign_end \<times> nat"

lemma read_agent_message_shorter:
  "read_agent_message st = Ok (Some (msg, rest)) \<Longrightarrow> length rest < length st"
  by (auto simp: read_agent_message_def Let_def split: if_splits)

function handle_agent_client ::
    "(bytes \<Rightarrow> bytes) \<Rightarrow> 'd link \<Rightarrow> (nat \<Rightarrow> visit) \<Rightarrow> nat \<Rightarrow> bytes \<Rightarrow> 'd sys \<Rightarrow> bytes list \<times> 'd sys" where
  "handle_agent_client sha L visit i st s = (case read_agent_message st of
     Ok (Some (msg, rest)) \<Rightarrow>
       (case visit i of (kc, env, fin, eaten) \<Rightarrow>
        (case handle_agent_message sha kc L env fin msg s of (r, s') \<Rightarrow>
          (let rest' = (if msg ! 0 = SSH_AGENTC_SIGN_REQUEST then drop eaten rest else rest) in
           case handle_agent_client sha L visit (Suc i) rest' s' of (rs, s'') \<Rightarrow>
             ((case r of Some b \<Rightarrow> send_agent_message b # rs | None \<Rightarrow> rs), s''))))
   | _ \<Rightarrow> ([], s))"
  by pat_completeness auto
termination
  by (relation "measure (\<lambda>(sha, L, v, i, st, s). length st)")
    (auto dest!: read_agent_message_shorter split: if_splits)

declare handle_agent_client.simps [simp del]

section \<open>Reading back what was written\<close>

lemma append_ssh_string_eq: "append_ssh_string buf d = buf @ ssh_string d"
  by (simp add: append_ssh_string_def append_u32_be_def ssh_string_def)

lemma be32_parts: "be32 w = [a, b, c, d] \<Longrightarrow> from_be32 a b c d = w"
  by (auto simp: be32_def)

lemma read_ssh_string_at:
  assumes "length d < 2 ^ 32"
  shows "read_ssh_string (pre @ ssh_string d @ rest) (length pre) = Some (d, length pre + 4 + length d)"
proof -
  obtain x0 x1 x2 x3 where x: "be32 (of_nat (length d)) = [x0, x1, x2, x3]"
    by (simp add: be32_def)
  have n: "unat (from_be32 x0 x1 x2 x3) = length d"
    using be32_parts [OF x] assms by (simp add: unsigned_of_nat take_bit_nat_eq_self)
  have e: "pre @ ssh_string d @ rest = pre @ x0 # x1 # x2 # x3 # d @ rest"
    using x by (simp add: ssh_string_def)
  have "(pre @ x0 # x1 # x2 # x3 # d @ rest) ! length pre = x0"
    "(pre @ x0 # x1 # x2 # x3 # d @ rest) ! (length pre + 1) = x1"
    "(pre @ x0 # x1 # x2 # x3 # d @ rest) ! (length pre + 2) = x2"
    "(pre @ x0 # x1 # x2 # x3 # d @ rest) ! (length pre + 3) = x3"
    by (simp_all add: nth_append)
  then show ?thesis
    using n unfolding e by (simp add: read_ssh_string_def slice_def)
qed

text \<open>What a client reads from the list of identities: the count, then pairs of strings.\<close>

fun read_pairs :: "nat \<Rightarrow> bytes \<Rightarrow> nat \<Rightarrow> (bytes \<times> bytes) list option" where
  "read_pairs 0 d off = Some []"
| "read_pairs (Suc n) d off =
     Option.bind (read_ssh_string d off) (\<lambda>(blob, o1).
     Option.bind (read_ssh_string d o1) (\<lambda>(name, o2).
     map_option ((#) (blob, name)) (read_pairs n d o2)))"

definition small_key :: "ssh_key \<Rightarrow> bool" where
  "small_key e \<longleftrightarrow> length (public_key_blob e) < 2 ^ 32 \<and> length (key_name e) < 2 ^ 32"

definition pair_bytes :: "ssh_key \<Rightarrow> bytes" where
  "pair_bytes e = ssh_string (public_key_blob e) @ ssh_string (as_bytes (key_name e))"

lemma identities_body_eq:
  "identities_body ks = SSH_AGENT_IDENTITIES_ANSWER # be32 (of_nat (length ks)) @ concat (map pair_bytes ks)"
proof -
  have "foldl (\<lambda>b e. append_ssh_string_str (append_ssh_string b (public_key_blob e)) (key_name e)) b ks =
      b @ concat (map pair_bytes ks)" for b
    by (induction ks arbitrary: b) (simp_all add: append_ssh_string_str_def append_ssh_string_eq pair_bytes_def)
  then show ?thesis by (simp add: identities_body_def append_u32_be_def)
qed

lemma ssh_string_length [simp]: "length (ssh_string d) = 4 + length d"
  by (simp add: ssh_string_def)

lemma read_pairs_concat:
  "\<forall>e\<in>set ks. small_key e \<Longrightarrow>
     read_pairs (length ks) (pre @ concat (map pair_bytes ks)) (length pre) =
     Some (map (\<lambda>e. (public_key_blob e, as_bytes (key_name e))) ks)"
proof (induction ks arbitrary: pre)
  case (Cons e ks)
  let ?b = "public_key_blob e" and ?n = "as_bytes (key_name e)"
  let ?d = "pre @ concat (map pair_bytes (e # ks))"
  have l: "length ?b < 2 ^ 32" "length ?n < 2 ^ 32"
    using Cons.prems by (simp_all add: small_key_def)
  have "read_ssh_string ?d (length pre) = Some (?b, length pre + 4 + length ?b)"
    using read_ssh_string_at [OF l(1), of pre "ssh_string ?n @ concat (map pair_bytes ks)"]
    by (simp add: pair_bytes_def)
  moreover have "read_ssh_string ?d (length pre + 4 + length ?b) =
      Some (?n, length pre + 4 + length ?b + 4 + length ?n)"
    using read_ssh_string_at [OF l(2), of "pre @ ssh_string ?b" "concat (map pair_bytes ks)"]
    by (simp add: pair_bytes_def add.assoc)
  moreover have "read_pairs (length ks) ?d (length pre + 4 + length ?b + 4 + length ?n) =
      Some (map (\<lambda>e. (public_key_blob e, as_bytes (key_name e))) ks)"
    using Cons.IH [of "pre @ pair_bytes e"] Cons.prems
    by (simp add: pair_bytes_def [of e] add.assoc)
  ultimately show ?case by simp
qed simp

text \<open>
  Fact: the list of identities decodes to the cached keys: a client that reads the count and then pairs
  of SSH strings gets every blob and name back, in order.
\<close>

theorem identities_answer_decodes:
  assumes "\<forall>e\<in>set ks. small_key e" "length ks < 2 ^ 32"
  shows "let b = identities_body ks in
    hd b = SSH_AGENT_IDENTITIES_ANSWER \<and> from_be32 (b ! 1) (b ! 2) (b ! 3) (b ! 4) = of_nat (length ks) \<and>
    read_pairs (length ks) b 5 = Some (map (\<lambda>e. (public_key_blob e, as_bytes (key_name e))) ks)"
proof -
  have "read_pairs (length ks) (identities_body ks) 5 = Some (map (\<lambda>e. (public_key_blob e, as_bytes (key_name e))) ks)"
    using read_pairs_concat [OF assms(1), of "12 # be32 (of_nat (length ks))"]
    by (simp add: identities_body_eq)
  then show ?thesis
    unfolding Let_def by (simp add: identities_body_eq be32_def nth_Cons')
qed

definition sample_ssh_key :: ssh_key where
  "sample_ssh_key = \<lparr> key_index = 3, key_name = ''work'', public_key_blob = [1, 2, 3], fingerprint = [] \<rparr>"

theorem identities_answer_decodes_witness:
  "read_pairs 1 (identities_body [sample_ssh_key]) 5 = Some [([1, 2, 3], as_bytes ''work'')]"
  using identities_answer_decodes [of "[sample_ssh_key]"]
  by (simp add: sample_ssh_key_def small_key_def Let_def del: read_pairs.simps)

text \<open>
  C19: a signature leaves the agent only after a gated KEY_SIGN of the named key. If the answer is a
  signature, the request named a cached key, the device was connected and verified, the gated command
  for this key and the hash of the data succeeded, and the body is built from 64 bytes.
\<close>

theorem signature_needs_gate:
  assumes "handle_sign_request sha kc L env fin payload s = (Some body, s')" "body \<noteq> [SSH_AGENT_FAILURE]"
  shows "\<exists>blob d e c sig. sign_request_fields payload = Some (blob, d) \<and> e \<in> set (ssh_keys kc) \<and>
    public_key_blob e = blob \<and> is_connected c \<and> is_device_verified c \<and>
    is_ok (fst (ble_send_fp_gated L CMD_KEY_SIGN (KEY_CAT_SSH # key_index e # 0 # sha d) (c, snd s))) \<and>
    length sig = 64 \<and> body = sign_body sig"
proof -
  obtain blob d where f: "sign_request_fields payload = Some (blob, d)"
    using assms by (cases "sign_request_fields payload") (auto simp: handle_sign_request_def)
  obtain e where e: "find (\<lambda>k. public_key_blob k = blob) (ssh_keys kc) = Some e"
    using assms f by (cases "find (\<lambda>k. public_key_blob k = blob) (ssh_keys kc)")
      (auto simp: handle_sign_request_def)
  define c where "c = (if is_connected (fst s) then fst s else wait_reconnect 50 env 0 (fst s))"
  have c: "is_connected c" "is_device_verified c" and
    w: "sign_with sha L fin (key_index e) d (c, snd s) = (Some body, s')"
    using assms f e by (auto simp: handle_sign_request_def Let_def c_def [symmetric] split: if_splits)
  have "is_ok (fst (ble_send_fp_gated L CMD_KEY_SIGN (KEY_CAT_SSH # key_index e # 0 # sha d) (c, snd s))) \<and>
      (\<exists>sig. length sig = 64 \<and> body = sign_body sig)"
    using w assms(2)
    by (auto simp: sign_with_def sign_gate_def final_signature_def gated_or_peer_def
        split: prod.splits option.splits result.splits sign_end.splits gate_race.splits if_splits)
  moreover have "e \<in> set (ssh_keys kc)" "public_key_blob e = blob"
    using e by (auto simp: find_Some_iff)
  ultimately show ?thesis using f c by blast
qed

definition sign_link :: "unit link" where
  "sign_link cmd s = (case cmd of
     SendFpGated c p \<Rightarrow> (Replied (BleReply (Ok (RSP_OK, [RSP_OK]))), s)
   | _ \<Rightarrow> (Replied (BleReply (Ok (RSP_OK, 64 # 0 # replicate 64 7))), s))"

definition sample_request :: bytes where
  "sample_request = ssh_string [1, 2, 3] @ ssh_string [9, 9]"

lemma sample_request_fields [simp]: "sign_request_fields sample_request = Some ([1, 2, 3], [9, 9])"
  using read_ssh_string_at [of "[1, 2, 3]" "[]" "ssh_string [9, 9]"]
    read_ssh_string_at [of "[9, 9]" "ssh_string [1, 2, 3]" "[]"]
  by (simp add: sign_request_fields_def sample_request_def)

lemma sample_read: "read_signature 4 sign_link [] s = ((replicate 64 7, True), s)"
proof -
  have "ble_send sign_link CMD_KEY_RESULT p s = (Ok (RSP_OK, 64 # 0 # replicate 64 7), s)" for p
    by (simp add: ble_send_def sign_link_def delivered_def pick_ble_def)
  moreover have "(4 :: nat) = Suc 3" by simp
  ultimately show ?thesis by (simp only: read_signature.simps) simp
qed

theorem signature_needs_gate_witness:
  "\<exists>e\<in>set [sample_ssh_key]. public_key_blob e = [1, 2, 3] \<and>
     is_ok (fst (ble_send_fp_gated sign_link CMD_KEY_SIGN (KEY_CAT_SSH # key_index e # 0 # replicate 32 1) (online, ())))"
proof -
  let ?kc = "empty_cache\<lparr> ssh_keys := [sample_ssh_key] \<rparr>"
  let ?run = "handle_sign_request (\<lambda>d. replicate 32 1) ?kc sign_link (\<lambda>i c. c) (SignGate GateFirst) sample_request (online, ())"
  obtain r s' where e: "?run = (r, s')" by (cases ?run)
  have "r = Some (sign_body (replicate 64 7))"
    using e by (simp add: handle_sign_request_def sample_ssh_key_def online_def coordinator_new_def
        sign_with_def sign_gate_def sample_read ble_send_fp_gated_def sign_link_def [of "SendFpGated c p" for c p]
        delivered_def pick_ble_def final_signature_def Let_def)
  moreover have "sign_body (replicate 64 7) \<noteq> [SSH_AGENT_FAILURE]"
    by (simp add: sign_body_def append_ssh_string_eq Let_def)
  ultimately show ?thesis
    using signature_needs_gate [of "\<lambda>d. replicate 32 1" ?kc sign_link "\<lambda>i c. c" "SignGate GateFirst"
        sample_request "(online, ())"] e
    by (auto simp: ble_send_fp_gated_def sign_link_def)
qed

section \<open>The signature on the wire\<close>

definition be_value :: "bytes \<Rightarrow> nat" where
  "be_value d = foldl (\<lambda>n b. 256 * n + unat b) 0 d"

definition mpint_content :: "bytes \<Rightarrow> bytes" where
  "mpint_content d = (if d \<noteq> [] \<and> hd d AND 0x80 \<noteq> 0 then 0 # d else d)"

lemma be_value_content [simp]: "be_value (mpint_content d) = be_value d"
  by (simp add: mpint_content_def be_value_def)

lemma append_ssh_mpint_eq: "append_ssh_mpint buf d = buf @ ssh_string (mpint_content d)"
  by (cases d) (simp_all add: append_ssh_mpint_def mpint_content_def append_u32_be_def ssh_string_def)

lemma mpint_hd: "d \<noteq> [] \<Longrightarrow> hd (mpint_content d) AND 0x80 = 0"
  by (simp add: mpint_content_def)

lemma mpint_content_length: "length (mpint_content d) \<le> Suc (length d)"
  by (simp add: mpint_content_def)

lemma read_first: "length d < 2 ^ 32 \<Longrightarrow> read_ssh_string (ssh_string d @ rest) 0 = Some (d, 4 + length d)"
  using read_ssh_string_at [of d "[]" rest] by simp

lemma read_last: "length d < 2 ^ 32 \<Longrightarrow>
    read_ssh_string (pre @ ssh_string d) (length pre) = Some (d, length pre + 4 + length d)"
  using read_ssh_string_at [of d pre "[]"] by simp

text \<open>
  Fact: the signature a client decodes is the device's. The body carries the algorithm and two
  non-negative integers whose values are the two scalars of the device, which it sends in little
  endian order.
\<close>

theorem sign_body_decodes:
  assumes "length sig = 64"
  shows "\<exists>blob ecdsa r s n. sign_body sig = SSH_AGENT_SIGN_RESPONSE # ssh_string blob \<and>
    read_ssh_string blob 0 = Some (as_bytes ''ecdsa-sha2-nistp256'', 23) \<and>
    read_ssh_string blob 23 = Some (ecdsa, length blob) \<and>
    read_ssh_string ecdsa 0 = Some (r, n) \<and> read_ssh_string ecdsa n = Some (s, length ecdsa) \<and>
    hd r AND 0x80 = 0 \<and> hd s AND 0x80 = 0 \<and>
    be_value r = be_value (rev (take 32 sig)) \<and> be_value s = be_value (rev (drop 32 sig))"
proof -
  let ?alg = "as_bytes ''ecdsa-sha2-nistp256''"
  define r where "r = mpint_content (rev (take 32 sig))"
  define s where "s = mpint_content (rev (drop 32 sig))"
  let ?ecdsa = "ssh_string r @ ssh_string s"
  let ?blob = "ssh_string ?alg @ ssh_string ?ecdsa"
  have l: "length r \<le> 33" "length s \<le> 33"
    using mpint_content_length [of "rev (take 32 sig)"] mpint_content_length [of "rev (drop 32 sig)"] assms
    by (simp_all add: r_def s_def)
  have sl: "slice 0 32 sig = take 32 sig" "slice 32 64 sig = drop 32 sig"
    using assms by (simp_all add: slice_def)
  have "sign_body sig = SSH_AGENT_SIGN_RESPONSE # ssh_string ?blob"
    by (simp add: sign_body_def append_ssh_string_eq append_ssh_string_str_def append_ssh_mpint_eq
        r_def s_def sl Let_def)
  moreover have "read_ssh_string ?blob 0 = Some (?alg, 23)"
    using read_first [of ?alg] by simp
  moreover have "read_ssh_string ?blob 23 = Some (?ecdsa, length ?blob)"
    using read_last [of ?ecdsa "ssh_string ?alg"] l by simp
  moreover have "read_ssh_string ?ecdsa 0 = Some (r, 4 + length r)"
    using read_first [of r] l by simp
  moreover have "read_ssh_string ?ecdsa (4 + length r) = Some (s, length ?ecdsa)"
    using read_last [of s "ssh_string r"] l by simp
  moreover have "hd r AND 0x80 = 0" "hd s AND 0x80 = 0"
  proof -
    have "rev (take 32 sig) \<noteq> []" "rev (drop 32 sig) \<noteq> []" using assms by auto
    from this [THEN mpint_hd] show "hd r AND 0x80 = 0" "hd s AND 0x80 = 0"
      by (simp_all add: r_def s_def)
  qed
  moreover have "be_value r = be_value (rev (take 32 sig))" "be_value s = be_value (rev (drop 32 sig))"
    by (simp_all add: r_def s_def)
  ultimately show ?thesis by blast
qed

theorem sign_body_decodes_witness:
  "\<exists>blob. sign_body (replicate 64 7) = SSH_AGENT_SIGN_RESPONSE # ssh_string blob \<and>
     read_ssh_string blob 0 = Some (as_bytes ''ecdsa-sha2-nistp256'', 23)"
  using sign_body_decodes [of "replicate 64 7"] by auto

text \<open>The canonical mpint of RFC 4251: no unnecessary leading zero byte.\<close>

definition canonical_content :: "bytes \<Rightarrow> bytes" where
  "canonical_content d = mpint_content (dropWhile (\<lambda>b. b = 0) d)"

lemma ssh_string_inj: "ssh_string a = ssh_string b \<longleftrightarrow> a = b"
  by (auto simp: ssh_string_def dest: arg_cong [of _ _ "drop 4"])

text \<open>
  Fact: the encoder keeps leading zero bytes, so a scalar whose first byte is zero is written in the
  form RFC 4251 forbids, unless that zero is the sign byte it would need anyway.
\<close>

theorem mpint_canonical_iff:
  assumes "d \<noteq> []"
  shows "append_ssh_mpint [] d = ssh_string (canonical_content d) \<longleftrightarrow>
    hd d \<noteq> 0 \<or> (\<exists>t. d = 0 # t \<and> t \<noteq> [] \<and> hd t AND 0x80 \<noteq> 0)"
proof (cases "hd d = 0")
  case False
  then have "dropWhile (\<lambda>b. b = 0) d = d" using assms by (cases d) simp_all
  then show ?thesis using False by (simp add: append_ssh_mpint_eq canonical_content_def)
next
  case True
  then obtain t where d: "d = 0 # t" using assms by (cases d) simp_all
  let ?t = "dropWhile (\<lambda>b. b = 0) t"
  have len: "length ?t \<le> length t" by (rule length_dropWhile_le)
  have "append_ssh_mpint [] d = ssh_string (canonical_content d) \<longleftrightarrow> mpint_content ?t = 0 # t"
    by (auto simp: d append_ssh_mpint_eq canonical_content_def ssh_string_inj mpint_content_def)
  also have "\<dots> \<longleftrightarrow> t \<noteq> [] \<and> hd t AND 0x80 \<noteq> 0"
  proof
    assume c: "mpint_content ?t = 0 # t"
    have "?t \<noteq> [] \<and> hd ?t AND 0x80 \<noteq> 0"
    proof (rule ccontr)
      assume "\<not> (?t \<noteq> [] \<and> hd ?t AND 0x80 \<noteq> 0)"
      then have "?t = 0 # t" using c by (auto simp: mpint_content_def split: if_splits)
      then have "length ?t = Suc (length t)" by simp
      then show False using len by linarith
    qed
    then have "0 # ?t = 0 # t" using c by (simp add: mpint_content_def)
    then show "t \<noteq> [] \<and> hd t AND 0x80 \<noteq> 0" using \<open>?t \<noteq> [] \<and> hd ?t AND 0x80 \<noteq> 0\<close> by simp
  next
    assume c: "t \<noteq> [] \<and> hd t AND 0x80 \<noteq> 0"
    then have "hd t \<noteq> 0" by auto
    then have "?t = t" using c by (cases t) simp_all
    then show "mpint_content ?t = 0 # t" using c by (simp add: mpint_content_def)
  qed
  finally show ?thesis using d by auto
qed

theorem mpint_canonical_iff_witness:
  "append_ssh_mpint [] [0, 5] \<noteq> ssh_string (canonical_content [0, 5])"
  using mpint_canonical_iff [of "[0, 5]"] by simp

end
