(* ===== verification/Ota.thy ===== *)
theory Ota
  imports Ble_Link
begin

text \<open>
  The OTA session of the daemon (\<open>immurok-daemon/src/ota.rs\<close>): the text commands of a client, each
  translated to a frame of the OTA characteristic and its answer back to a line. Base64 decoding is a
  parameter. Hexadecimal parsing follows \<open>u32::from_str_radix\<close>.
\<close>

section \<open>Hexadecimal numbers\<close>

definition hex_digit_val :: "char \<Rightarrow> nat option" where
  "hex_digit_val c = (let n = of_char c :: nat in
     if 48 \<le> n \<and> n \<le> 57 then Some (n - 48)
     else if 97 \<le> n \<and> n \<le> 102 then Some (n - 87)
     else if 65 \<le> n \<and> n \<le> 70 then Some (n - 55)
     else None)"

fun parse_hex_digits :: "nat \<Rightarrow> nat \<Rightarrow> string \<Rightarrow> (nat, int_error) result" where
  "parse_hex_digits mx acc [] = Ok acc"
| "parse_hex_digits mx acc (c # s) = (case hex_digit_val c of
     None \<Rightarrow> Err InvalidDigit
   | Some d \<Rightarrow> if mx < acc * 16 + d then Err PosOverflow else parse_hex_digits mx (acc * 16 + d) s)"

definition parse_hex_u32 :: "string \<Rightarrow> (32 word, int_error) result" where
  "parse_hex_u32 s =
     (if s = [] then Err IntEmpty
      else if s = ''+'' \<or> s = ''-'' then Err InvalidDigit
      else and_then (parse_hex_digits 4294967295 0 (if hd s = CHR ''+'' then tl s else s))
             (\<lambda>n. Ok (of_nat n)))"

text \<open>The format \<open>{:04x}\<close>.\<close>

definition show_hex4 :: "nat \<Rightarrow> string" where
  "show_hex4 n = replicate (4 - length (show_hex n)) CHR ''0'' @ show_hex n"

section \<open>Commands\<close>

definition OTA_CMD_TIMEOUT_MS :: nat where [simp]: "OTA_CMD_TIMEOUT_MS = 5000"
definition OTA_ERASE_TIMEOUT_MS :: nat where [simp]: "OTA_ERASE_TIMEOUT_MS = 15000"

definition LOW_BATTERY_LINE :: string where
  "LOW_BATTERY_LINE = ''ERROR:LOW_BATTERY:OTA refused (device <5%, charge to retry)''"

definition handle_ota_version :: "coordinator \<Rightarrow> string" where
  "handle_ota_version c = ''OK:'' @ (case device_status c of
     Some s \<Rightarrow> if fw_version s \<noteq> [] then fw_version s else ''unknown''
   | None \<Rightarrow> ''unknown'')"

definition connected_or :: "('d sys \<Rightarrow> string \<times> 'd sys) \<Rightarrow> 'd sys \<Rightarrow> string \<times> 'd sys" where
  "connected_or f s = (if \<not> is_connected (fst s) then (''ERROR:OTA_NOT_AVAILABLE'', s) else f s)"

definition handle_ota_info :: "'d link \<Rightarrow> 'd sys \<Rightarrow> string \<times> 'd sys" where
  "handle_ota_info L = connected_or (\<lambda>s.
     case link_ota_write_and_read L [0x84, 0x02, 0x00, 0x00] OTA_CMD_TIMEOUT_MS s of
       (Err e, s') \<Rightarrow> (''ERROR:'' @ e, s')
     | (Ok r, s') \<Rightarrow>
         if length r < 9 then (''ERROR:NO_RESPONSE'', s')
         else (''OK:'' @ hex2 (r ! 0) @ '':'' @ hex_bytes [r ! 4, r ! 3, r ! 2, r ! 1] @ '':'' @
               hex_bytes [r ! 6, r ! 5] @ '':'' @ hex_bytes [r ! 8, r ! 7], s'))"

definition handle_ota_erase :: "'d link \<Rightarrow> 'd sys \<Rightarrow> string \<times> 'd sys" where
  "handle_ota_erase L = connected_or (\<lambda>s.
     case link_ota_write_and_read L (0x81 # 0x04 # 0x00 # 0x00 # le16 (ucast OTA_IMAGE_B_BLOCKS))
            OTA_ERASE_TIMEOUT_MS s of
       (Err e, s') \<Rightarrow> (''ERROR:ERASE_TIMEOUT:'' @ e, s')
     | (Ok [], s') \<Rightarrow> (''ERROR:ERASE_TIMEOUT'', s')
     | (Ok (b # _), s') \<Rightarrow>
         (if b = 0 then ''OK'' else if b = RSP_ERR_LOW_BATTERY then LOW_BATTERY_LINE
          else ''ERROR:ERASE_FAILED:'' @ hex2 b, s'))"

text \<open>The base64 field may contain colons; everything from the field on is joined again.\<close>

definition joined_from :: "nat \<Rightarrow> string list \<Rightarrow> string" where
  "joined_from i parts = join '':'' (drop i parts)"

definition handle_ota_header ::
    "(string \<Rightarrow> bytes option) \<Rightarrow> 'd link \<Rightarrow> string list \<Rightarrow> 'd sys \<Rightarrow> string \<times> 'd sys" where
  "handle_ota_header b64d L parts s =
     (if length parts < 3 then (''ERROR:INVALID_FORMAT'', s)
      else connected_or (\<lambda>s. case b64d (joined_from 2 parts) of
          None \<Rightarrow> (''ERROR:INVALID_DATA'', s)
        | Some h \<Rightarrow>
            if length h \<noteq> 96 \<and> length h \<noteq> 128 then (''ERROR:INVALID_HEADER_SIZE'', s)
            else (case link_ota_write_and_read L (0x85 # of_nat (length h) # h) OTA_CMD_TIMEOUT_MS s of
                (Ok (b # _), s') \<Rightarrow> (if b = 0 then ''OK'' else ''ERROR:HEADER_REJECTED:'' @ hex2 b, s')
              | (_, s') \<Rightarrow> (''ERROR:HEADER_TIMEOUT'', s'))) s)"

text \<open>The block frame of WRITE and VERIFY: the address in units of 16 bytes, as 16 bits.\<close>

definition block_frame :: "byte \<Rightarrow> 32 word \<Rightarrow> bytes \<Rightarrow> bytes" where
  "block_frame op offset d = op # of_nat (length d) # le16 (ucast (offset div 16)) @ d"

definition block_args ::
    "(string \<Rightarrow> bytes option) \<Rightarrow> string list \<Rightarrow> (32 word \<times> bytes, string) result" where
  "block_args b64d parts = (case parse_hex_u32 (parts ! 2) of
     Err _ \<Rightarrow> Err ''ERROR:INVALID_OFFSET''
   | Ok offset \<Rightarrow> (case b64d (joined_from 3 parts) of
       None \<Rightarrow> Err ''ERROR:INVALID_DATA'' | Some d \<Rightarrow> Ok (offset, d)))"

definition handle_ota_write ::
    "(string \<Rightarrow> bytes option) \<Rightarrow> 'd link \<Rightarrow> string list \<Rightarrow> 'd sys \<Rightarrow> string \<times> 'd sys" where
  "handle_ota_write b64d L parts s =
     (if length parts < 4 then (''ERROR:INVALID_FORMAT'', s)
      else connected_or (\<lambda>s. case block_args b64d parts of
          Err e \<Rightarrow> (e, s)
        | Ok (offset, d) \<Rightarrow> (case link_ota_write L (block_frame 0x80 offset d) s of
            (Ok _, s') \<Rightarrow> (''OK'', s')
          | (Err _, s') \<Rightarrow> (''ERROR:WRITE_FAILED'', s'))) s)"

definition handle_ota_verify ::
    "(string \<Rightarrow> bytes option) \<Rightarrow> 'd link \<Rightarrow> string list \<Rightarrow> 'd sys \<Rightarrow> string \<times> 'd sys" where
  "handle_ota_verify b64d L parts s =
     (if length parts < 4 then (''ERROR:INVALID_FORMAT'', s)
      else connected_or (\<lambda>s. case block_args b64d parts of
          Err e \<Rightarrow> (e, s)
        | Ok (offset, d) \<Rightarrow>
            (case link_ota_write_and_read L (block_frame 0x82 offset d) OTA_CMD_TIMEOUT_MS s of
               (Ok (b # _), s') \<Rightarrow>
                 (if b = 0 then ''OK'' else if b = RSP_ERR_LOW_BATTERY then LOW_BATTERY_LINE
                  else ''ERROR:VERIFY_FAILED:'' @ hex2 b, s')
             | (_, s') \<Rightarrow> (''ERROR:VERIFY_TIMEOUT'', s'))) s)"

definition handle_ota_end :: "'d link \<Rightarrow> 'd sys \<Rightarrow> string \<times> 'd sys" where
  "handle_ota_end L = connected_or (\<lambda>s.
     case link_ota_write_and_read L [0x83, 0x02, 0x00, 0x00] OTA_CMD_TIMEOUT_MS s of
       (Ok (b # _), s') \<Rightarrow>
         (if b = 0xF1 then ''ERROR:SHA256_MISMATCH''
          else if b = 0xF2 then ''ERROR:HMAC_MISMATCH'' else ''OK'', s')
     | (_, s') \<Rightarrow> (''OK'', s'))"

definition process_ota_command ::
    "(string \<Rightarrow> bytes option) \<Rightarrow> 'd link \<Rightarrow> string \<Rightarrow> 'd sys \<Rightarrow> string \<times> 'd sys" where
  "process_ota_command b64d L line s =
     (let parts = splitn 5 CHR '':'' line; sub = parts ! 1 in
      if length parts < 2 \<or> parts ! 0 \<noteq> ''OTA'' then (''ERROR:INVALID_FORMAT'', s)
      else if sub = ''VERSION'' then (handle_ota_version (fst s), s)
      else if sub = ''INFO'' then handle_ota_info L s
      else if sub = ''ERASE'' then handle_ota_erase L s
      else if sub = ''HEADER'' then handle_ota_header b64d L parts s
      else if sub = ''WRITE'' then handle_ota_write b64d L parts s
      else if sub = ''VERIFY'' then handle_ota_verify b64d L parts s
      else if sub = ''END'' then handle_ota_end L s
      else (''ERROR:UNKNOWN_OTA_CMD'', s))"

text \<open>The session: one line after the other until OTA:END or the end of the input.\<close>

fun ota_session_loop ::
    "(string \<Rightarrow> bytes option) \<Rightarrow> 'd link \<Rightarrow> string list \<Rightarrow> 'd sys \<Rightarrow> string list \<times> 'd sys" where
  "ota_session_loop b64d L [] s = ([], s)"
| "ota_session_loop b64d L (line # ls) s =
     (let request = trim line in
      if request = [] then ota_session_loop b64d L ls s
      else case process_ota_command b64d L request s of
        (r, s') \<Rightarrow> if starts_with ''OTA:END'' request then ([r], s')
                   else (case ota_session_loop b64d L ls s' of (rs, s'') \<Rightarrow> (r # rs, s'')))"

definition handle_ota_session ::
    "(string \<Rightarrow> bytes option) \<Rightarrow> 'd link \<Rightarrow> string \<Rightarrow> string list \<Rightarrow> 'd sys \<Rightarrow> string list \<times> 'd sys" where
  "handle_ota_session b64d L first_line ls s =
     (case process_ota_command b64d L first_line s of
        (r, s') \<Rightarrow> if starts_with ''OTA:END'' first_line then ([r], s')
                   else (case ota_session_loop b64d L ls s' of (rs, s'') \<Rightarrow> (r # rs, s'')))"

section \<open>Round trips of the numbers\<close>

lemma hex_digit_val_char [simp]: "d < 16 \<Longrightarrow> hex_digit_val (hex_char d) = Some d"
  by (auto simp: hex_digit_val_def hex_char_def Let_def)

lemma parse_hex_append:
  "parse_hex_digits mx acc (s @ t) = and_then (parse_hex_digits mx acc s) (\<lambda>a. parse_hex_digits mx a t)"
  by (induction s arbitrary: acc) (simp_all split: option.split)

lemma parse_hex_show: "n \<le> mx \<Longrightarrow> parse_hex_digits mx 0 (show_hex n) = Ok n"
proof (induction n rule: show_hex.induct)
  case (1 n)
  show ?case
  proof (cases "n < 16")
    case True
    then show ?thesis using 1(2) by (subst show_hex.simps) simp
  next
    case False
    then have "parse_hex_digits mx 0 (show_hex (n div 16)) = Ok (n div 16)" using 1 by simp
    then show ?thesis using False 1(2)
      by (subst show_hex.simps) (simp add: parse_hex_append del: and_then_eq_Ok)
  qed
qed

lemma parse_hex_zeros: "parse_hex_digits mx 0 (replicate k CHR ''0'' @ s) = parse_hex_digits mx 0 s"
  by (induction k) (simp_all add: hex_digit_val_def)

lemma show_hex_chars: "c \<in> set (show_hex n) \<Longrightarrow> \<exists>d<16. c = hex_char d"
proof (induction n rule: show_hex.induct)
  case (1 n)
  have "c \<in> set (if n < 16 then [hex_char n] else show_hex (n div 16) @ [hex_char (n mod 16)])"
    using 1(2) by (subst (asm) show_hex.simps)
  moreover have "\<exists>d<16. hex_char (n mod 16) = hex_char d" by (rule exI [of _ "n mod 16"]) simp
  ultimately show ?case using 1(1) by (auto split: if_splits)
qed

lemma show_hex_not_Nil [simp]: "show_hex n \<noteq> []"
  by (subst show_hex.simps) simp

lemma hex_char_not [simp]: "d < 16 \<Longrightarrow> hex_char d \<noteq> CHR ''+'' \<and> hex_char d \<noteq> CHR '':'' \<and> hex_char d \<noteq> CHR ''-''"
  by (auto simp: hex_char_def of_char_eq_iff [symmetric, where 'a = nat] bit_Suc_0_iff)

lemma show_hex4_chars: "c \<in> set (show_hex4 n) \<Longrightarrow> \<exists>d<16. c = hex_char d"
proof -
  have "CHR ''0'' = hex_char 0" by (simp add: hex_char_def char_of_def bit_Suc_0_iff)
  then have "\<exists>d<16. CHR ''0'' = hex_char d" by (intro exI [of _ 0]) simp
  then show "c \<in> set (show_hex4 n) \<Longrightarrow> \<exists>d<16. c = hex_char d"
    using show_hex_chars [of c n] by (auto simp: show_hex4_def)
qed

lemma show_hex4_no_colon [simp]: "CHR '':'' \<notin> set (show_hex4 n)"
  using show_hex4_chars [of "CHR '':''" n] hex_char_not by metis

lemma parse_hex_u32_show [simp]:
  assumes "n < 2 ^ 32"
  shows "parse_hex_u32 (show_hex4 n) = Ok (of_nat n)"
proof -
  have ne: "show_hex4 n \<noteq> []" by (simp add: show_hex4_def)
  have plus: "CHR ''+'' \<notin> set (show_hex4 n)" "CHR ''-'' \<notin> set (show_hex4 n)"
    using show_hex4_chars hex_char_not by metis+
  have "hd (show_hex4 n) \<noteq> CHR ''+''" "show_hex4 n \<noteq> ''+''" "show_hex4 n \<noteq> ''-''"
    using ne plus by (metis list.set_sel(1)) (use plus in auto)
  moreover have "parse_hex_digits 4294967295 0 (show_hex4 n) = Ok n"
    using assms by (simp add: show_hex4_def parse_hex_zeros parse_hex_show)
  ultimately show ?thesis using ne by (simp add: parse_hex_u32_def)
qed

end
