(* ===== verification/Firmware.thy ===== *)
theory Firmware
  imports Rust_Str Prelude
begin

text \<open>
  The firmware modules of the common crate (\<open>immurok-common/src/fwupdate\<close>): versions, the update
  plan, the .imfw package with its preflight checks, and the manifest. JSON decoding is a parameter.
\<close>

section \<open>Versions\<close>

text \<open>The struct with its derived order, which compares the fields in turn.\<close>

datatype firmware_version = FirmwareVersion (major: "32 word") (minor: "32 word") (patch: "32 word")

instantiation firmware_version :: linorder
begin

definition less_eq_firmware_version :: "firmware_version \<Rightarrow> firmware_version \<Rightarrow> bool" where
  "less_eq_firmware_version v w \<longleftrightarrow> major v < major w \<or> major v = major w \<and>
     (minor v < minor w \<or> minor v = minor w \<and> patch v \<le> patch w)"

definition less_firmware_version :: "firmware_version \<Rightarrow> firmware_version \<Rightarrow> bool" where
  "less_firmware_version v w \<longleftrightarrow> v \<le> w \<and> \<not> w \<le> (v :: firmware_version)"

instance
  by standard (auto simp: less_eq_firmware_version_def less_firmware_version_def intro: firmware_version.expand)

end

definition fv_parse :: "string \<Rightarrow> firmware_version option" where
  "fv_parse s = (case split_on CHR ''.'' s of
     [a, b, c] \<Rightarrow>
       Option.bind (ok (parse_u32 a)) (\<lambda>x.
       Option.bind (ok (parse_u32 b)) (\<lambda>y.
       Option.bind (ok (parse_u32 c)) (\<lambda>z.
         Some (FirmwareVersion x y z))))
   | _ \<Rightarrow> None)"

definition fv_show :: "firmware_version \<Rightarrow> string" where
  "fv_show v = join ''.'' [show_word (major v), show_word (minor v), show_word (patch v)]"

definition normalize_semver :: "string \<Rightarrow> string" where
  "normalize_semver raw =
     (let parts = split_on CHR ''.'' raw in
      if length parts < 3 then raw else join ''.'' (take 3 parts))"

section \<open>The update plan\<close>

datatype update_plan = UpToDate | Direct | BridgeOnly | TwoHops | UnknownPlan

definition FALLBACK_MIN_DIRECT :: string where
  "FALLBACK_MIN_DIRECT = ''1.6.0''"

definition update_plan_of :: "string \<Rightarrow> string \<Rightarrow> string option \<Rightarrow> update_plan" where
  "update_plan_of device latest min_direct =
     (case (fv_parse device, fv_parse latest, fv_parse (unwrap_or FALLBACK_MIN_DIRECT min_direct)) of
        (Some dev, Some tgt, Some gate) \<Rightarrow>
          if tgt \<le> dev then UpToDate
          else if gate \<le> dev then Direct
          else if tgt = gate then BridgeOnly
          else TwoHops
      | _ \<Rightarrow> UnknownPlan)"

section \<open>The package\<close>

datatype imfw_error = Truncated | BadMagic | UnsupportedVersion byte | SizeMismatch | TooLarge

definition IMFW_MAGIC :: "32 word" where [simp]: "IMFW_MAGIC = 0x494D4657"
definition HEADER_SIZE_V1 :: nat where [simp]: "HEADER_SIZE_V1 = 96"
definition HEADER_SIZE_V2 :: nat where [simp]: "HEADER_SIZE_V2 = 128"
definition IMAGE_B_SIZE :: nat where [simp]: "IMAGE_B_SIZE = 216 * 1024"
definition CHUNK_SIZE :: nat where [simp]: "CHUNK_SIZE = 240"

record imfw_package =
  header :: bytes
  firmware :: bytes
  format_version :: byte
  hw_id :: "16 word"
  fw_size :: "32 word"
  sec_version :: "16 word option"

definition imfw_parse :: "bytes \<Rightarrow> (imfw_package, imfw_error) result" where
  "imfw_parse d =
     (if length d < HEADER_SIZE_V1 then Err Truncated
      else if from_le32 (d ! 0) (d ! 1) (d ! 2) (d ! 3) \<noteq> IMFW_MAGIC then Err BadMagic
      else let version = d ! 4 in
        if version \<noteq> 1 \<and> version \<noteq> 2 then Err (UnsupportedVersion version)
        else let header_size = (if version \<ge> 2 then HEADER_SIZE_V2 else HEADER_SIZE_V1) in
          if length d < header_size then Err Truncated
          else let size = from_le32 (d ! 8) (d ! 9) (d ! 10) (d ! 11); fw = drop header_size d in
            if IMAGE_B_SIZE < unat size \<or> IMAGE_B_SIZE < length fw then Err TooLarge
            else if size = 0 \<or> length fw < unat size then Err SizeMismatch
            else Ok \<lparr> header = take header_size d, firmware = fw, format_version = version,
                      hw_id = from_le16 (d ! 6) (d ! 7), fw_size = size,
                      sec_version = (if version \<ge> 2 then Some (from_le16 (d ! 12) (d ! 13)) else None) \<rparr>)"

section \<open>The manifest\<close>

record asset =
  version :: string
  asset_sec_version :: "32 word option"
  asset_format :: string
  url :: string
  asset_sha256 :: string
  asset_size :: "64 word option"
  asset_min_direct :: "string option"
  asset_notes :: "string option"

record manifest =
  schema :: "32 word"
  latest :: asset
  bridge :: "asset option"

datatype manifest_error = UnsupportedSchema "32 word" | ManifestParse string

definition manifest_decode :: "(string \<Rightarrow> (manifest, string) result) \<Rightarrow> string \<Rightarrow> (manifest, manifest_error) result" where
  "manifest_decode from_json json = (case from_json json of
     Err e \<Rightarrow> Err (ManifestParse e)
   | Ok m \<Rightarrow> if schema m \<noteq> 1 then Err (UnsupportedSchema (schema m)) else Ok m)"

section \<open>Properties\<close>

lemma show_nat_no_dot [simp]: "CHR ''.'' \<notin> set (show_nat n)"
  by (auto dest!: show_nat_digits simp: is_digit_def)

lemma fv_parse_show: "fv_parse (fv_show v) = Some v"
  by (simp add: fv_parse_def fv_show_def split_on_join split_on_free)

interpretation version_codec: wire_codec fv_show fv_parse "\<lambda>_. True"
  by unfold_locales (rule fv_parse_show)

text \<open>The device reports four segments; normalising gives the version of the first three.\<close>

lemma normalize_device_version:
  assumes "CHR ''.'' \<notin> set build"
  shows "fv_parse (normalize_semver (fv_show v @ ''.'' @ build)) = Some v"
proof -
  have "fv_show v @ ''.'' @ build =
      join ''.'' [show_word (major v), show_word (minor v), show_word (patch v), build]"
    by (simp add: fv_show_def join_Cons)
  moreover have "split_on CHR ''.'' (join ''.'' [show_word (major v), show_word (minor v), show_word (patch v), build]) =
      [show_word (major v), show_word (minor v), show_word (patch v), build]"
    by (rule split_on_join) (use assms in auto)
  ultimately have "normalize_semver (fv_show v @ ''.'' @ build) = fv_show v"
    by (simp add: normalize_semver_def fv_show_def Let_def)
  then show ?thesis by (simp add: fv_parse_show)
qed

definition plan_hops :: "update_plan \<Rightarrow> string \<Rightarrow> string \<Rightarrow> string list" where
  "plan_hops p rel br = (case p of
     Direct \<Rightarrow> [rel] | BridgeOnly \<Rightarrow> [br] | TwoHops \<Rightarrow> [br, rel] | _ \<Rightarrow> [])"



lemma imfw_parts:
  assumes "imfw_parse d = Ok pkg"
  shows "header pkg @ firmware pkg = d \<and> length (header pkg) \<in> {HEADER_SIZE_V1, HEADER_SIZE_V2} \<and>
    (length (header pkg) = HEADER_SIZE_V2 \<longleftrightarrow> format_version pkg = 2) \<and>
    0 < length (firmware pkg) \<and> length (firmware pkg) \<le> IMAGE_B_SIZE \<and>
    unat (fw_size pkg) \<le> length (firmware pkg) \<and> (sec_version pkg \<noteq> None \<longleftrightarrow> format_version pkg = 2)"
proof -
  have "\<not> (2 :: byte) \<le> 1" by (simp add: word_le_nat_alt)
  then show ?thesis
    using assms by (auto simp: imfw_parse_def Let_def unat_gt_0 [symmetric] split: if_splits)
qed

text \<open>
  Fact: the preflight lets a package through only if it can be written. Its parts are the file cut at
  the header, the header has one of the two sizes the daemon accepts, and the body is not empty, fits
  the image and is at least as long as the declared size.
\<close>

theorem imfw_preflight:
  assumes "imfw_parse d = Ok pkg"
  shows "header pkg @ firmware pkg = d \<and> length (header pkg) \<in> {HEADER_SIZE_V1, HEADER_SIZE_V2} \<and>
    (length (header pkg) = HEADER_SIZE_V2 \<longleftrightarrow> format_version pkg = 2) \<and>
    0 < length (firmware pkg) \<and> length (firmware pkg) \<le> IMAGE_B_SIZE \<and>
    unat (fw_size pkg) \<le> length (firmware pkg) \<and> (sec_version pkg \<noteq> None \<longleftrightarrow> format_version pkg = 2)"
  by (rule imfw_parts [OF assms])

definition sample_imfw :: bytes where
  "sample_imfw = le32 IMFW_MAGIC @ [2, 0, 1, 0] @ le32 500 @ [7, 0] @ replicate 114 0 @ replicate 500 9"

lemma sample_imfw_parse:
  "imfw_parse sample_imfw = Ok \<lparr> header = take 128 sample_imfw, firmware = replicate 500 9,
     format_version = 2, hw_id = 1, fw_size = 500, sec_version = Some 7 \<rparr>"
  by (simp add: imfw_parse_def sample_imfw_def le32_def from_le32_def from_le16_def nth_append Let_def)

theorem imfw_preflight_witness:
  "length (firmware (the (ok (imfw_parse sample_imfw)))) \<le> IMAGE_B_SIZE"
  using imfw_preflight [OF sample_imfw_parse] by (simp add: sample_imfw_parse)

end
