(* ===== verification/Ota_Push.thy ===== *)
theory Ota_Push
  imports Ota Firmware
begin

text \<open>
  The push engine of the client (\<open>immurok-client/src/fwupdate/push.rs\<close>) over a request channel, and
  what it makes the daemon's OTA session (\<open>Ota\<close>) write to the device. The channel is a state
  transformer \<open>'c\<close>; base64 is the parameter \<open>b64\<close>. Progress events are collected in a list.
\<close>

datatype fw_update_error =
    ManifestFetch string | ManifestSchema string | Download string | Sha256Mismatch
  | PackageInvalid string | Preflight string | Transfer string string | HeaderRejected string
  | SignatureRejected | ReconnectTimeout string | LowBattery | Store string

datatype push_event = Stage string | DeviceInfo string | Chunk nat nat

type_synonym 'c ota_channel = "string \<Rightarrow> 'c \<Rightarrow> (string, string) result \<times> 'c"
type_synonym 'c push_state = "'c \<times> push_event list"

definition push_is_ok :: "string \<Rightarrow> bool" where
  "push_is_ok resp = (let t = trim resp in t = ''OK'' \<or> starts_with ''OK:'' t)"

definition map_device_error :: "string \<Rightarrow> string \<Rightarrow> fw_update_error" where
  "map_device_error stage resp =
     (if contains_str ''LOW_BATTERY'' resp then LowBattery else Transfer stage resp)"

definition is_retryable :: "fw_update_error \<Rightarrow> bool" where
  "is_retryable e = (case e of Transfer _ _ \<Rightarrow> True | _ \<Rightarrow> False)"

text \<open>The \<open>?\<close> operator over the channel's state.\<close>

definition seq_op ::
    "('s \<Rightarrow> ('a, 'e) result \<times> 's) \<Rightarrow> ('a \<Rightarrow> 's \<Rightarrow> ('b, 'e) result \<times> 's) \<Rightarrow> 's \<Rightarrow> ('b, 'e) result \<times> 's" where
  "seq_op f g s = (case f s of (Ok a, s') \<Rightarrow> g a s' | (Err e, s') \<Rightarrow> (Err e, s'))"

lemma seq_op_Ok: "seq_op f g s = (Ok b, s') \<longleftrightarrow> (\<exists>a s1. f s = (Ok a, s1) \<and> g a s1 = (Ok b, s'))"
  by (auto simp: seq_op_def split: prod.splits result.splits)

definition progress :: "push_event \<Rightarrow> 'c push_state \<Rightarrow> 'c push_state" where
  "progress ev s = (fst s, snd s @ [ev])"

definition ask ::
    "'c ota_channel \<Rightarrow> string \<Rightarrow> string \<Rightarrow> 'c push_state \<Rightarrow> (string, fw_update_error) result \<times> 'c push_state" where
  "ask ch stage cmd s = (case ch cmd (fst s) of
     (Ok r, c) \<Rightarrow> (Ok r, (c, snd s)) | (Err e, c) \<Rightarrow> (Err (Transfer stage e), (c, snd s)))"

definition expect_ok ::
    "(string \<Rightarrow> fw_update_error) \<Rightarrow> string \<Rightarrow> 'c push_state \<Rightarrow> (unit, fw_update_error) result \<times> 'c push_state" where
  "expect_ok err r s = (if push_is_ok r then (Ok (), s) else (Err (err r), s))"

definition push_info :: "'c ota_channel \<Rightarrow> 'c push_state \<Rightarrow> (unit, fw_update_error) result \<times> 'c push_state" where
  "push_info ch s = seq_op (ask ch ''info'' ''OTA:INFO'') (\<lambda>r.
     seq_op (expect_ok (map_device_error ''info'') r) (\<lambda>_ s.
       (Ok (), case strip_prefix ''OK:'' (trim r) of Some p \<Rightarrow> progress (DeviceInfo p) s | None \<Rightarrow> s)))
     (progress (Stage ''info'') s)"

definition push_erase :: "'c ota_channel \<Rightarrow> 'c push_state \<Rightarrow> (unit, fw_update_error) result \<times> 'c push_state" where
  "push_erase ch s = seq_op (ask ch ''erase'' ''OTA:ERASE'')
     (expect_ok (map_device_error ''erase'')) (progress (Stage ''erase'') s)"

definition header_error :: "string \<Rightarrow> fw_update_error" where
  "header_error r = (if contains_str ''LOW_BATTERY'' r then LowBattery else HeaderRejected (trim r))"

definition push_header ::
    "(bytes \<Rightarrow> string) \<Rightarrow> 'c ota_channel \<Rightarrow> bytes \<Rightarrow> 'c push_state \<Rightarrow> (unit, fw_update_error) result \<times> 'c push_state" where
  "push_header b64 ch h s = seq_op (ask ch ''header'' (''OTA:HEADER:'' @ b64 h))
     (expect_ok header_error) (progress (Stage ''header'') s)"

definition write_cmd :: "(bytes \<Rightarrow> string) \<Rightarrow> bytes \<Rightarrow> nat \<Rightarrow> string" where
  "write_cmd b64 fw i =
     (let offset = i * CHUNK_SIZE; fin = min (offset + CHUNK_SIZE) (length fw)
      in ''OTA:WRITE:'' @ show_hex4 offset @ '':'' @ b64 (slice offset fin fw))"

fun push_chunks ::
    "(bytes \<Rightarrow> string) \<Rightarrow> 'c ota_channel \<Rightarrow> bytes \<Rightarrow> nat \<Rightarrow> nat list \<Rightarrow> 'c push_state \<Rightarrow>
      (unit, fw_update_error) result \<times> 'c push_state" where
  "push_chunks b64 ch fw n [] s = (Ok (), s)"
| "push_chunks b64 ch fw n (i # is) s =
     seq_op (ask ch ''write'' (write_cmd b64 fw i)) (\<lambda>r.
     seq_op (expect_ok (map_device_error ''write'') r) (\<lambda>_ s.
       push_chunks b64 ch fw n is (progress (Chunk (i + 1) n) s))) s"

definition push_write ::
    "(bytes \<Rightarrow> string) \<Rightarrow> 'c ota_channel \<Rightarrow> bytes \<Rightarrow> 'c push_state \<Rightarrow> (unit, fw_update_error) result \<times> 'c push_state" where
  "push_write b64 ch fw s =
     (let n = (length fw + CHUNK_SIZE - 1) div CHUNK_SIZE
      in push_chunks b64 ch fw n [0..<n] (progress (Stage ''write'') s))"

definition end_error :: "string \<Rightarrow> fw_update_error" where
  "end_error r =
     (if contains_str ''SHA256'' r then Sha256Mismatch
      else if contains_str ''HMAC'' r \<or> contains_str ''SIG'' r then SignatureRejected
      else map_device_error ''end'' r)"

definition push_end :: "'c ota_channel \<Rightarrow> 'c push_state \<Rightarrow> (unit, fw_update_error) result \<times> 'c push_state" where
  "push_end ch s = seq_op (ask ch ''end'' ''OTA:END'') (expect_ok end_error) (progress (Stage ''end'') s)"

definition push_once ::
    "(bytes \<Rightarrow> string) \<Rightarrow> 'c ota_channel \<Rightarrow> imfw_package \<Rightarrow> 'c push_state \<Rightarrow>
      (unit, fw_update_error) result \<times> 'c push_state" where
  "push_once b64 ch pkg =
     seq_op (push_info ch) (\<lambda>_. seq_op (push_erase ch) (\<lambda>_.
     seq_op (push_header b64 ch (header pkg)) (\<lambda>_.
     seq_op (push_write b64 ch (firmware pkg)) (\<lambda>_. push_end ch))))"

text \<open>
  One automatic retry on a fresh connection. \<open>connect\<close> opens a channel in the world \<open>'c\<close>, or fails.
\<close>

definition push_with_retry ::
    "(bytes \<Rightarrow> string) \<Rightarrow> ('c \<Rightarrow> ('c ota_channel, fw_update_error) result \<times> 'c) \<Rightarrow> imfw_package \<Rightarrow>
      'c push_state \<Rightarrow> (unit, fw_update_error) result \<times> 'c push_state" where
  "push_with_retry b64 connect pkg s =
     (let conn = (\<lambda>s. case connect (fst s) of (r, c) \<Rightarrow> (r, (c, snd s))) in
      seq_op conn (\<lambda>ch s. case push_once b64 ch pkg s of
        (Err e, s') \<Rightarrow> if is_retryable e
            then seq_op conn (\<lambda>ch2. push_once b64 ch2 pkg) (progress (Stage ''retry'') s')
            else (Err e, s')
      | (Ok _, s') \<Rightarrow> (Ok (), s')) s)"

section \<open>The daemon behind the channel\<close>

text \<open>\<open>DaemonClient::send\<close> on a connection with an open OTA session, line endings included.\<close>

definition daemon_channel :: "(string \<Rightarrow> bytes option) \<Rightarrow> 'd link \<Rightarrow> 'd sys ota_channel" where
  "daemon_channel b64d L req s = (case process_ota_command b64d L (trim (req @ [CHR 0x0A])) s of
     (r, s') \<Rightarrow> (Ok (trim (r @ [CHR 0x0A])), s'))"

text \<open>A device that records the frames written to it and answers each of them with success.\<close>

definition flash_link :: "bytes list link" where
  "flash_link cmd s = (case cmd of
     OtaWriteRead d _ \<Rightarrow> (Replied (BytesReply (Ok [0, 0, 0, 0, 0, 0, 0, 0, 0])), (fst s, snd s @ [d]))
   | OtaWriteOnly d \<Rightarrow> (Replied (UnitReply (Ok ())), (fst s, snd s @ [d]))
   | _ \<Rightarrow> (ChannelClosed, s))"

text \<open>
  What the frames do to the flash: a data frame programs its bytes at 16 times its address.
\<close>

definition program :: "bytes \<Rightarrow> bytes \<Rightarrow> bytes" where
  "program f flash =
     (if f ! 0 \<noteq> 0x80 then flash
      else let a = 16 * unat (from_le16 (f ! 2) (f ! 3)); n = unat (f ! 1)
           in take a flash @ take n (drop 4 f) @ drop (a + n) flash)"

text \<open>What is relied on of base64: it decodes what it encoded, and encodes to printable text without colon.\<close>

definition base64_law :: "(bytes \<Rightarrow> string) \<Rightarrow> (string \<Rightarrow> bytes option) \<Rightarrow> bool" where
  "base64_law enc dec \<longleftrightarrow>
     (\<forall>d. dec (enc d) = Some d \<and> (\<forall>c\<in>set (enc d). graphic c \<and> c \<noteq> CHR '':''))"

lemma base64_lawD:
  assumes "base64_law enc dec"
  shows "dec (enc d) = Some d" "CHR '':'' \<notin> set (enc d)" "c \<in> set (enc d) \<Longrightarrow> graphic c"
  using assms by (auto simp: base64_law_def)

lemma trim_line:
  assumes "s \<noteq> []" "\<forall>c\<in>set s. graphic c"
  shows "trim (s @ [CHR 0x0A]) = s" "trim s = s"
proof -
  obtain u c where s: "s = u @ [c]" using assms(1) by (metis rev_exhaust)
  then have c: "graphic c" using assms(2) by simp
  have nl: "trim_end [CHR 0x0A] = []"
    by (simp add: trim_end_def trim_front.simps [of _ "_ # _"] ws_seqs_def)
  show s': "trim s = s" using assms by (simp add: trim_graphic)
  have "trim (u @ c # [CHR 0x0A]) = trim_start u @ c # []" using c nl by (simp add: trim_barrier)
  moreover have "trim (u @ c # []) = trim_start u @ c # trim_end []" using c by (simp only: trim_barrier)
  ultimately show "trim (s @ [CHR 0x0A]) = s" using s s' by (simp add: trim_end_def)
qed

lemma hex_char_graphic: "d < 16 \<Longrightarrow> graphic (hex_char d)"
  by (auto simp: graphic_def hex_char_def)

lemma show_hex4_graphic: "c \<in> set (show_hex4 n) \<Longrightarrow> graphic c"
  using show_hex4_chars hex_char_graphic by blast

lemma splitn_fields:
  assumes "ps \<noteq> []" "length ps \<le> 5" "\<forall>p\<in>set ps. CHR '':'' \<notin> set p"
  shows "splitn 5 CHR '':'' (join '':'' ps) = ps"
  using splitn_join [OF assms] by simp

section \<open>One command, one frame\<close>

definition data_frame :: "bytes \<Rightarrow> nat \<Rightarrow> bytes" where
  "data_frame fw i = block_frame 0x80 (of_nat (i * 240)) (slice (i * 240) (min (i * 240 + 240) (length fw)) fw)"

lemma daemon_line:
  assumes "req \<noteq> []" "\<forall>c\<in>set req. graphic c"
  shows "daemon_channel b64d L req s = (case process_ota_command b64d L req s of
     (r, s') \<Rightarrow> (Ok (trim (r @ [CHR 0x0A])), s'))"
  by (simp only: daemon_channel_def trim_line(1) [OF assms])

lemma flash_write [simp]: "link_ota_write flash_link d s = (Ok (), (fst s, snd s @ [d]))"
  by (simp add: link_ota_write_def flash_link_def delivered_def pick_unit_def)

lemma flash_write_read [simp]:
  "link_ota_write_and_read flash_link d ms s = (Ok [0, 0, 0, 0, 0, 0, 0, 0, 0], (fst s, snd s @ [d]))"
  by (simp add: link_ota_write_and_read_def flash_link_def delivered_def pick_bytes_def)

lemma process_parts:
  "splitn 5 CHR '':'' req = [''OTA'', ''INFO''] \<Longrightarrow> process_ota_command b64d L req s = handle_ota_info L s"
  "splitn 5 CHR '':'' req = [''OTA'', ''ERASE''] \<Longrightarrow> process_ota_command b64d L req s = handle_ota_erase L s"
  "splitn 5 CHR '':'' req = [''OTA'', ''END''] \<Longrightarrow> process_ota_command b64d L req s = handle_ota_end L s"
  "splitn 5 CHR '':'' req = [''OTA'', ''HEADER'', x] \<Longrightarrow>
     process_ota_command b64d L req s = handle_ota_header b64d L [''OTA'', ''HEADER'', x] s"
  "splitn 5 CHR '':'' req = [''OTA'', ''WRITE'', x, y] \<Longrightarrow>
     process_ota_command b64d L req s = handle_ota_write b64d L [''OTA'', ''WRITE'', x, y] s"
  by (simp_all add: process_ota_command_def)

lemma ok_line [simp]: "trim [CHR ''O'', CHR ''K'', CHR 0x0A] = ''OK''"
  using trim_line(1) [of "''OK''"] by simp

lemma fixed_commands:
  assumes "is_connected c"
  shows "daemon_channel b64d flash_link ''OTA:INFO'' (c, fs) =
      (Ok ''OK:00:00000000:0000:0000'', (c, fs @ [[0x84, 0x02, 0x00, 0x00]]))"
    "daemon_channel b64d flash_link ''OTA:ERASE'' (c, fs) =
      (Ok ''OK'', (c, fs @ [0x81 # 0x04 # 0x00 # 0x00 # le16 (ucast OTA_IMAGE_B_BLOCKS)]))"
    "daemon_channel b64d flash_link ''OTA:END'' (c, fs) = (Ok ''OK'', (c, fs @ [[0x83, 0x02, 0x00, 0x00]]))"
proof -
  have parts: "splitn 5 CHR '':'' ''OTA:INFO'' = [''OTA'', ''INFO'']"
    "splitn 5 CHR '':'' ''OTA:ERASE'' = [''OTA'', ''ERASE'']"
    "splitn 5 CHR '':'' ''OTA:END'' = [''OTA'', ''END'']"
    by (simp_all add: splitn_step)
  have zero: "hex_bytes [0, 0, 0, 0] = ''00000000''" "hex_bytes [0, 0] = ''0000''" "hex2 0 = ''00''"
    by (simp_all add: hex_bytes_def hex2_def hex_char_def char_of_def bit_Suc_0_iff)
  have l: "trim (''OK:00:00000000:0000:0000'' @ [CHR 0x0A]) = ''OK:00:00000000:0000:0000''"
    by (rule trim_line(1)) auto
  have i: "handle_ota_info flash_link (c, fs) =
      (''OK:00:00000000:0000:0000'', (c, fs @ [[0x84, 0x02, 0x00, 0x00]]))"
    using assms by (simp add: handle_ota_info_def connected_or_def zero)
  have e: "handle_ota_erase flash_link (c, fs) =
      (''OK'', (c, fs @ [0x81 # 0x04 # 0x00 # 0x00 # le16 (ucast OTA_IMAGE_B_BLOCKS)]))"
    and n: "handle_ota_end flash_link (c, fs) = (''OK'', (c, fs @ [[0x83, 0x02, 0x00, 0x00]]))"
    using assms by (simp_all add: handle_ota_erase_def handle_ota_end_def connected_or_def)
  show "daemon_channel b64d flash_link ''OTA:INFO'' (c, fs) =
      (Ok ''OK:00:00000000:0000:0000'', (c, fs @ [[0x84, 0x02, 0x00, 0x00]]))"
    by (subst daemon_line) (simp_all only: process_parts(1) [OF parts(1)] i prod.case l, simp_all)
  show "daemon_channel b64d flash_link ''OTA:ERASE'' (c, fs) =
      (Ok ''OK'', (c, fs @ [0x81 # 0x04 # 0x00 # 0x00 # le16 (ucast OTA_IMAGE_B_BLOCKS)]))"
    by (subst daemon_line) (simp_all only: process_parts(2) [OF parts(2)] e prod.case, simp_all)
  show "daemon_channel b64d flash_link ''OTA:END'' (c, fs) = (Ok ''OK'', (c, fs @ [[0x83, 0x02, 0x00, 0x00]]))"
    by (subst daemon_line) (simp_all only: process_parts(3) [OF parts(3)] n prod.case, simp_all)
qed

lemma header_command:
  assumes "base64_law b64 b64d" "is_connected c" "length h = 96 \<or> length h = 128"
  shows "daemon_channel b64d flash_link (''OTA:HEADER:'' @ b64 h) (c, fs) =
    (Ok ''OK'', (c, fs @ [0x85 # of_nat (length h) # h]))"
proof -
  note b = base64_lawD [OF assms(1)]
  have req: "''OTA:HEADER:'' @ b64 h = join '':'' [''OTA'', ''HEADER'', b64 h]" by (simp add: join_Cons)
  have parts: "splitn 5 CHR '':'' (''OTA:HEADER:'' @ b64 h) = [''OTA'', ''HEADER'', b64 h]"
    unfolding req by (rule splitn_fields) (use b(2) in auto)
  have g: "\<forall>c\<in>set (''OTA:HEADER:'' @ b64 h). graphic c" using b(3) by auto
  have h: "handle_ota_header b64d flash_link [''OTA'', ''HEADER'', b64 h] (c, fs) =
      (''OK'', (c, fs @ [0x85 # of_nat (length h) # h]))"
    using assms(2,3) by (auto simp: handle_ota_header_def connected_or_def joined_from_def b(1))
  show ?thesis
    by (subst daemon_line [OF _ g]) (simp_all only: process_parts(4) [OF parts] h prod.case, simp_all)
qed

lemma write_command:
  assumes "base64_law b64 b64d" "is_connected c" "i * 240 < 2 ^ 32"
  shows "daemon_channel b64d flash_link (write_cmd b64 fw i) (c, fs) = (Ok ''OK'', (c, fs @ [data_frame fw i]))"
proof -
  note b = base64_lawD [OF assms(1)]
  let ?d = "slice (i * 240) (min (i * 240 + 240) (length fw)) fw"
  have req: "write_cmd b64 fw i = join '':'' [''OTA'', ''WRITE'', show_hex4 (i * 240), b64 ?d]"
    by (simp add: join_Cons write_cmd_def Let_def)
  have parts: "splitn 5 CHR '':'' (write_cmd b64 fw i) = [''OTA'', ''WRITE'', show_hex4 (i * 240), b64 ?d]"
    unfolding req by (rule splitn_fields) (use b(2) in auto)
  have g: "\<forall>c\<in>set (write_cmd b64 fw i). graphic c"
    using b(3) show_hex4_graphic by (auto simp: write_cmd_def Let_def)
  have ne: "write_cmd b64 fw i \<noteq> []" by (simp add: write_cmd_def Let_def)
  have p: "parse_hex_u32 (show_hex4 (i * 240)) = Ok (of_nat (i * 240))"
    by (rule parse_hex_u32_show [OF assms(3)])
  have w: "handle_ota_write b64d flash_link [''OTA'', ''WRITE'', show_hex4 (i * 240), b64 ?d] (c, fs) =
      (''OK'', (c, fs @ [data_frame fw i]))"
    using assms(2) by (simp add: handle_ota_write_def connected_or_def joined_from_def b(1)
        block_args_def p data_frame_def del: of_nat_mult)
  show ?thesis
    by (subst daemon_line [OF ne g]) (simp only: process_parts(5) [OF parts] w prod.case, simp)
qed

section \<open>A whole push\<close>

lemma ask_daemon:
  "daemon_channel b64d L cmd c = (Ok r, c') \<Longrightarrow>
    ask (daemon_channel b64d L) stage cmd (c, evs) = (Ok r, (c', evs))"
  by (simp add: ask_def)

lemma push_is_ok_OK [simp]: "push_is_ok ''OK''" "push_is_ok ''OK:00:00000000:0000:0000''"
proof -
  have "trim ''OK'' = ''OK''" "trim ''OK:00:00000000:0000:0000'' = ''OK:00:00000000:0000:0000''"
    by (rule trim_line(2); simp)+
  then show "push_is_ok ''OK''" "push_is_ok ''OK:00:00000000:0000:0000''"
    by (simp_all add: push_is_ok_def Let_def starts_with_def)
qed

lemma expect_OK [simp]: "expect_ok err ''OK'' s = (Ok (), s)"
  by (simp add: expect_ok_def)

lemma push_chunks_run:
  assumes "base64_law b64 b64d" "is_connected c"
  shows "\<forall>i\<in>set is. i * 240 < 2 ^ 32 \<Longrightarrow>
    push_chunks b64 (daemon_channel b64d flash_link) fw n is ((c, fs), evs) =
      (Ok (), ((c, fs @ map (data_frame fw) is), evs @ map (\<lambda>i. Chunk (i + 1) n) is))"
proof (induction "is" arbitrary: fs evs)
  case (Cons i "is")
  have "i * 240 < 2 ^ 32" using Cons.prems by simp
  from ask_daemon [OF write_command [OF assms this]] show ?case
    using Cons by (simp add: seq_op_def progress_def)
qed simp

definition push_frames :: "imfw_package \<Rightarrow> bytes list" where
  "push_frames pkg =
     [[0x84, 0x02, 0x00, 0x00], 0x81 # 0x04 # 0x00 # 0x00 # le16 (ucast OTA_IMAGE_B_BLOCKS),
      0x85 # of_nat (length (header pkg)) # header pkg] @
     map (data_frame (firmware pkg)) [0..<(length (firmware pkg) + 239) div 240] @
     [[0x83, 0x02, 0x00, 0x00]]"

lemma push_once_run:
  assumes "base64_law b64 b64d" "is_connected c" "length (header pkg) = 96 \<or> length (header pkg) = 128"
    and "length (firmware pkg) \<le> IMAGE_B_SIZE"
  shows "\<exists>evs'. push_once b64 (daemon_channel b64d flash_link) pkg ((c, fs), evs) =
    (Ok (), ((c, fs @ push_frames pkg), evs'))"
proof -
  let ?n = "(length (firmware pkg) + 239) div 240"
  have small: "\<forall>i\<in>set [0..<?n]. i * 240 < 2 ^ 32" using assms(4) by auto
  have t: "trim ''OK:00:00000000:0000:0000'' = ''OK:00:00000000:0000:0000''"
    by (rule trim_line(2)) simp_all
  have i: "push_info (daemon_channel b64d flash_link) ((c, fs), evs) =
      (Ok (), ((c, fs @ [[0x84, 0x02, 0x00, 0x00]]), evs @ [Stage ''info'', DeviceInfo ''00:00000000:0000:0000'']))"
    for fs evs
    by (simp only: push_info_def seq_op_def progress_def ask_daemon [OF fixed_commands(1) [OF assms(2)]]
        fst_conv snd_conv prod.case result.case expect_ok_def push_is_ok_OK if_True t) simp
  have e: "push_erase (daemon_channel b64d flash_link) ((c, fs), evs) =
      (Ok (), ((c, fs @ [0x81 # 0x04 # 0x00 # 0x00 # le16 (ucast OTA_IMAGE_B_BLOCKS)]), evs @ [Stage ''erase'']))"
    for fs evs
    by (simp only: push_erase_def seq_op_def progress_def ask_daemon [OF fixed_commands(2) [OF assms(2)]]
        fst_conv snd_conv prod.case result.case expect_OK)
  have h: "push_header b64 (daemon_channel b64d flash_link) (header pkg) ((c, fs), evs) =
      (Ok (), ((c, fs @ [0x85 # of_nat (length (header pkg)) # header pkg]), evs @ [Stage ''header'']))"
    for fs evs
    by (simp only: push_header_def seq_op_def progress_def ask_daemon [OF header_command [OF assms(1-3)]]
        fst_conv snd_conv prod.case result.case expect_OK)
  have w: "push_write b64 (daemon_channel b64d flash_link) (firmware pkg) ((c, fs), evs) =
      (Ok (), ((c, fs @ map (data_frame (firmware pkg)) [0..<?n]),
        (evs @ [Stage ''write'']) @ map (\<lambda>i. Chunk (i + 1) ?n) [0..<?n]))"
    for fs evs
    using push_chunks_run [OF assms(1,2) small, of "firmware pkg" ?n fs "evs @ [Stage ''write'']"]
    by (simp add: push_write_def Let_def progress_def add.commute [of 239])
  have n: "push_end (daemon_channel b64d flash_link) ((c, fs), evs) =
      (Ok (), ((c, fs @ [[0x83, 0x02, 0x00, 0x00]]), evs @ [Stage ''end'']))" for fs evs
    by (simp only: push_end_def seq_op_def progress_def ask_daemon [OF fixed_commands(3) [OF assms(2)]]
        fst_conv snd_conv prod.case result.case expect_OK)
  show ?thesis
    by (simp only: push_once_def seq_op_def i e h w n prod.case result.case push_frames_def) simp
qed

text \<open>Programming the data frames one after the other fills the image from its start.\<close>

lemma program_frame:
  assumes "i * 240 \<le> length fw" "length fw \<le> IMAGE_B_SIZE" "length fw \<le> length flash"
    and "take (i * 240) flash = take (i * 240) fw"
  shows "program (data_frame fw i) flash =
    take (min (Suc i * 240) (length fw)) fw @ drop (min (Suc i * 240) (length fw)) flash"
proof -
  let ?e = "min (i * 240 + 240) (length fw)"
  have i: "i \<le> 921" using assms(1,2) by simp
  then have u: "unat (of_nat (i * 240) :: 32 word) = i * 240"
    by (simp only: unsigned_of_nat) (simp add: take_bit_nat_eq_self)
  have "unat (ucast ((of_nat (i * 240) :: 32 word) div 16) :: 16 word) = 15 * i"
    using i by (simp add: unsigned_ucast_eq unat_div u take_bit_nat_eq_self del: of_nat_mult)
  then have a: "16 * unat (from_le16 (data_frame fw i ! 2) (data_frame fw i ! 3)) = i * 240"
    by (simp add: data_frame_def block_frame_def le16_def del: of_nat_mult)
  have n: "unat (data_frame fw i ! 1) = ?e - i * 240"
    using assms(1) by (simp add: data_frame_def block_frame_def le16_def unsigned_of_nat take_bit_nat_eq_self
        del: of_nat_diff)
  have d: "take (?e - i * 240) (drop 4 (data_frame fw i)) = slice (i * 240) ?e fw"
    by (simp add: data_frame_def block_frame_def le16_def slice_def)
  have "data_frame fw i ! 0 = 0x80" by (simp add: data_frame_def block_frame_def)
  then have "program (data_frame fw i) flash = take (i * 240) flash @ slice (i * 240) ?e fw @ drop ?e flash"
    using assms(1) a n d by (simp add: program_def Let_def mult.commute [of 240 i])
  moreover have "take ?e fw = take (i * 240) fw @ slice (i * 240) ?e fw"
    using take_add [of "i * 240" "?e - i * 240" fw] assms(1) by (simp add: slice_def)
  ultimately show ?thesis using assms(4) by (simp add: add.commute [of 240])
qed

lemma program_frames:
  assumes "length fw \<le> IMAGE_B_SIZE" "length fw \<le> length flash" "k \<le> (length fw + 239) div 240"
  shows "fold program (map (data_frame fw) [0..<k]) flash =
    take (min (k * 240) (length fw)) fw @ drop (min (k * 240) (length fw)) flash"
  using assms(3)
proof (induction k)
  case (Suc k)
  let ?f = "take (min (k * 240) (length fw)) fw @ drop (min (k * 240) (length fw)) flash"
  have le: "k * 240 \<le> length fw" using Suc.prems by linarith
  have "program (data_frame fw k) ?f =
      take (min (Suc k * 240) (length fw)) fw @ drop (min (Suc k * 240) (length fw)) ?f"
    using le assms(1,2) by (intro program_frame) auto
  also have "drop (min (Suc k * 240) (length fw)) ?f = drop (min (Suc k * 240) (length fw)) flash"
    using le by (simp add: min_def mult.commute [of 240 k] add.commute [of 240 "k * 240"])
  finally show ?case using Suc by simp
qed simp

lemma push_frames_program:
  assumes "length (firmware pkg) \<le> IMAGE_B_SIZE" "length (firmware pkg) \<le> length flash"
  shows "fold program (push_frames pkg) flash = firmware pkg @ drop (length (firmware pkg)) flash"
proof -
  let ?fw = "firmware pkg"
  have "(length ?fw + 239) div 240 * 240 \<ge> length ?fw" by linarith
  then have "fold program (map (data_frame ?fw) [0..<(length ?fw + 239) div 240]) flash =
      ?fw @ drop (length ?fw) flash"
    using program_frames [OF assms, of "(length ?fw + 239) div 240"] by (simp add: min_absorb2)
  then show ?thesis by (simp add: push_frames_def program_def)
qed

text \<open>
  C21: pushing a package that passed the preflight over the daemon's OTA session writes the firmware,
  and nothing but the firmware. Whatever the flash held before (a first attempt that broke off, say),
  after the frames of the push it holds the body of the package from its start and is unchanged behind
  it. The session asks for information, erases, sends the header, then the data, then ends. The
  address of a block survives the division by 16 and the cut to 16 bits, its length the cut to 8 bits.
\<close>

theorem push_writes_image:
  assumes "base64_law b64 b64d" "imfw_parse d = Ok pkg" "is_connected c"
    and "length (firmware pkg) \<le> length flash"
  shows "\<exists>evs' frames. push_once b64 (daemon_channel b64d flash_link) pkg ((c, fs), evs) =
      (Ok (), ((c, fs @ frames), evs')) \<and>
    fold program frames flash = firmware pkg @ drop (length (firmware pkg)) flash \<and>
    map hd frames = [0x84, 0x81, 0x85] @ replicate ((length (firmware pkg) + 239) div 240) 0x80 @ [0x83]"
proof -
  have p: "length (header pkg) = 96 \<or> length (header pkg) = 128" "length (firmware pkg) \<le> IMAGE_B_SIZE"
    using imfw_parts [OF assms(2)] by auto
  obtain evs' where "push_once b64 (daemon_channel b64d flash_link) pkg ((c, fs), evs) =
      (Ok (), ((c, fs @ push_frames pkg), evs'))"
    using push_once_run [OF assms(1,3) p] by blast
  moreover have "map hd (push_frames pkg) =
      [0x84, 0x81, 0x85] @ replicate ((length (firmware pkg) + 239) div 240) 0x80 @ [0x83]"
    by (simp add: push_frames_def data_frame_def block_frame_def comp_def map_replicate_const)
  ultimately show ?thesis
    using push_frames_program [OF p(2) assms(4)] by blast
qed

text \<open>Hexadecimal text is a codec of this kind.\<close>

fun unhex :: "string \<Rightarrow> bytes option" where
  "unhex [] = Some []"
| "unhex (a # b # s) = (case (hex_digit_val a, hex_digit_val b, unhex s) of
     (Some x, Some y, Some r) \<Rightarrow> Some (of_nat (16 * x + y) # r) | _ \<Rightarrow> None)"
| "unhex [c] = None"

lemma hex_codec: "base64_law hex_bytes unhex"
proof -
  have digit: "unat (b :: byte) div 16 < 16" for b using unat_lt2p_word [of b] by simp
  have byte: "(of_nat (16 * (unat b div 16) + unat b mod 16) :: byte) = b" for b
    by (simp only: mult_div_mod_eq) simp
  have "unhex (hex_bytes d) = Some d" for d
    by (induction d) (simp_all add: hex_bytes_def hex2_def digit byte del: of_nat_add of_nat_mult)
  moreover have "graphic c \<and> c \<noteq> CHR '':''" if h: "c \<in> set (hex_bytes d)" for c d
  proof -
    obtain b where "c \<in> set (hex2 b)" using h by (auto simp: hex_bytes_def)
    then have "c = hex_char (unat b div 16) \<or> c = hex_char (unat b mod 16)" by (auto simp: hex2_def)
    then obtain k where "k < 16" "c = hex_char k" using digit [of b] by (metis mod_less_divisor zero_less_numeral)
    then show ?thesis using hex_char_graphic [of k] hex_char_not [of k] by simp
  qed
  ultimately show ?thesis by (simp add: base64_law_def)
qed

definition ota_online :: coordinator where
  "ota_online = coordinator_new\<lparr> is_connected := True \<rparr>"

theorem push_writes_image_witness:
  "\<exists>evs' frames. push_once hex_bytes (daemon_channel unhex flash_link) (the (ok (imfw_parse sample_imfw)))
      ((ota_online, []), []) = (Ok (), ((ota_online, frames), evs')) \<and>
    fold program frames (replicate 600 1) = replicate 500 9 @ replicate 100 1"
  using push_writes_image [OF hex_codec sample_imfw_parse, of ota_online "replicate 600 1" "[]" "[]"]
  by (auto simp: sample_imfw_parse ota_online_def)

section \<open>The reference\<close>

text \<open>Send the commands in order until one is not acknowledged.\<close>

definition acked :: "(string, string) result \<Rightarrow> bool" where
  "acked r = (case r of Ok t \<Rightarrow> push_is_ok t | Err _ \<Rightarrow> False)"

fun send_all :: "'c ota_channel \<Rightarrow> string list \<Rightarrow> 'c \<Rightarrow> (string \<times> (string, string) result) list \<times> 'c" where
  "send_all ch [] c = ([], c)"
| "send_all ch (x # xs) c = (case ch x c of (r, c') \<Rightarrow>
     if acked r then (case send_all ch xs c' of (l, c'') \<Rightarrow> ((x, r) # l, c'')) else ([(x, r)], c'))"

definition push_commands :: "(bytes \<Rightarrow> string) \<Rightarrow> imfw_package \<Rightarrow> string list" where
  "push_commands b64 pkg =
     [''OTA:INFO''] @ [''OTA:ERASE''] @ [''OTA:HEADER:'' @ b64 (header pkg)] @
     map (write_cmd b64 (firmware pkg)) [0..<(length (firmware pkg) + CHUNK_SIZE - 1) div CHUNK_SIZE] @
     [''OTA:END'']"

definition push_error :: "string \<Rightarrow> (string, string) result \<Rightarrow> fw_update_error" where
  "push_error cmd r =
     (let stage = (if cmd = ''OTA:INFO'' then ''info'' else if cmd = ''OTA:ERASE'' then ''erase''
        else if cmd = ''OTA:END'' then ''end'' else if starts_with ''OTA:HEADER:'' cmd then ''header'' else ''write'')
      in case r of Err e \<Rightarrow> Transfer stage e
         | Ok t \<Rightarrow> if stage = ''end'' then end_error t else if stage = ''header'' then header_error t
                 else map_device_error stage t)"

definition verdict :: "(string \<times> (string, string) result) list \<Rightarrow> (unit, fw_update_error) result" where
  "verdict l = (if \<forall>(x, r)\<in>set l. acked r then Ok () else Err (push_error (fst (last l)) (snd (last l))))"

definition sends :: "'c ota_channel \<Rightarrow> string list \<Rightarrow> ('c push_state \<Rightarrow> (unit, fw_update_error) result \<times> 'c push_state) \<Rightarrow> bool" where
  "sends ch cmds op \<longleftrightarrow> (\<forall>c evs. \<exists>evs'. op (c, evs) =
     (verdict (fst (send_all ch cmds c)), (snd (send_all ch cmds c), evs')))"

lemma send_all_append:
  "send_all ch (xs @ ys) c = (case send_all ch xs c of (l, c') \<Rightarrow>
     if \<forall>(x, r)\<in>set l. acked r then (case send_all ch ys c' of (k, c'') \<Rightarrow> (l @ k, c'')) else (l, c'))"
  by (induction xs arbitrary: c) (auto split: prod.splits)

lemma sendsD:
  assumes "sends ch cmds op" "send_all ch cmds c = (l, c')"
  shows "\<exists>evs'. op (c, evs) = (verdict l, (c', evs'))"
  using assms unfolding sends_def by (metis fst_conv snd_conv)

lemma sendsI:
  assumes "\<And>c evs l c'. send_all ch cmds c = (l, c') \<Longrightarrow> \<exists>evs'. op (c, evs) = (verdict l, (c', evs'))"
  shows "sends ch cmds op"
  unfolding sends_def using assms by (metis prod.collapse)

lemma sends_Nil: "(\<And>s. op s = (Ok (), s)) \<Longrightarrow> sends ch [] op"
  by (simp add: sends_def verdict_def)

lemma verdict_acked: "(\<forall>(x, r)\<in>set l. acked r) \<Longrightarrow> verdict l = Ok ()"
  by (simp add: verdict_def)

lemma verdict_refused: "\<not> (\<forall>(x, r)\<in>set l. acked r) \<Longrightarrow> verdict l = Err (push_error (fst (last l)) (snd (last l)))"
  by (simp add: verdict_def)

lemma verdict_one: "verdict [(x, r)] = (if acked r then Ok () else Err (push_error x r))"
  by (simp add: verdict_def)

lemma verdict_append: "\<forall>(x, r)\<in>set l. acked r \<Longrightarrow> verdict (l @ k) = verdict k"
  by (cases "k = []") (auto simp: verdict_def)

lemma sends_append:
  assumes "sends ch xs f" "sends ch ys g"
  shows "sends ch (xs @ ys) (seq_op f (\<lambda>_. g))"
proof (rule sendsI)
  fix c evs m c'
  assume m: "send_all ch (xs @ ys) c = (m, c')"
  obtain l c1 where l: "send_all ch xs c = (l, c1)" by fastforce
  obtain evs1 where f: "f (c, evs) = (verdict l, (c1, evs1))" using sendsD [OF assms(1) l] by blast
  obtain k c2 where k: "send_all ch ys c1 = (k, c2)" by fastforce
  obtain evs2 where g: "g (c1, evs1) = (verdict k, (c2, evs2))" using sendsD [OF assms(2) k] by blast
  show "\<exists>evs'. seq_op f (\<lambda>_. g) (c, evs) = (verdict m, (c', evs'))"
  proof (cases "\<forall>(x, r)\<in>set l. acked r")
    case True
    then have "m = l @ k" "c' = c2" using m l k by (simp_all add: send_all_append split: if_splits)
    then show ?thesis using f g verdict_acked [OF True] verdict_append [OF True] by (simp add: seq_op_def)
  next
    case False
    then have "m = l" "c' = c1" using m l by (auto simp: send_all_append split: if_splits)
    then show ?thesis using f verdict_refused [OF False] by (simp add: seq_op_def)
  qed
qed

text \<open>One command with its error.\<close>

lemma sends_one:
  assumes "\<And>e. push_error cmd (Err e) = Transfer stage e"
    and "\<And>r. \<not> push_is_ok r \<Longrightarrow> push_error cmd (Ok r) = err r"
    and "\<And>s r. \<exists>evs'. after r s = (Ok (), (fst s, evs'))"
  shows "sends ch [cmd] (\<lambda>s. seq_op (ask ch stage cmd) (\<lambda>r. seq_op (expect_ok err r) (\<lambda>_. after r)) (progress ev s))"
  unfolding sends_def
proof (intro allI)
  fix c evs
  obtain r c1 where r: "ch cmd c = (r, c1)" by fastforce
  show "\<exists>evs'. seq_op (ask ch stage cmd) (\<lambda>r. seq_op (expect_ok err r) (\<lambda>_. after r)) (progress ev (c, evs)) =
      (verdict (fst (send_all ch [cmd] c)), (snd (send_all ch [cmd] c), evs'))"
  proof (cases r)
    case (Ok t)
    obtain evs' where "after t (c1, evs @ [ev]) = (Ok (), (c1, evs'))" using assms(3) [of t "(c1, evs @ [ev])"] by auto
    then show ?thesis
      using r Ok assms(2) [of t] by (auto simp: seq_op_def ask_def progress_def expect_ok_def acked_def verdict_def)
  qed (use r assms(1) in \<open>simp add: seq_op_def ask_def progress_def acked_def verdict_def\<close>)
qed

lemma expect_then_ok: "seq_op (expect_ok err r) (\<lambda>_ s. (Ok (), s)) = expect_ok err r"
  by (auto simp: seq_op_def expect_ok_def split: prod.splits result.splits)

lemma sends_simple:
  assumes "\<And>e. push_error cmd (Err e) = Transfer stage e"
    and "\<And>r. \<not> push_is_ok r \<Longrightarrow> push_error cmd (Ok r) = err r"
  shows "sends ch [cmd] (\<lambda>s. seq_op (ask ch stage cmd) (expect_ok err) (progress ev s))"
proof -
  have "sends ch [cmd] (\<lambda>s. seq_op (ask ch stage cmd)
      (\<lambda>r. seq_op (expect_ok err r) (\<lambda>_ s. (Ok (), s))) (progress ev s))"
    by (rule sends_one [OF assms]) (simp, metis prod.collapse)
  then show ?thesis by (simp only: expect_then_ok)
qed

lemma write_cmd_stage:
  "push_error (write_cmd b64 fw i) (Err e) = Transfer ''write'' e"
  "push_error (write_cmd b64 fw i) (Ok r) = map_device_error ''write'' r"
  by (simp_all add: push_error_def write_cmd_def Let_def starts_with_def)

lemma sends_chunks: "sends ch (map (write_cmd b64 fw) is) (push_chunks b64 ch fw n is)"
proof (induction "is")
  case (Cons i "is")
  have one: "sends ch [write_cmd b64 fw i]
      (seq_op (ask ch ''write'' (write_cmd b64 fw i)) (\<lambda>r. seq_op (expect_ok (map_device_error ''write'') r)
        (\<lambda>_ s. (Ok (), progress (Chunk (i + 1) n) s))))"
    by (rule sendsI) (auto simp: write_cmd_stage seq_op_def ask_def progress_def expect_ok_def acked_def verdict_one
        split: prod.splits result.splits if_splits)
  have eq: "push_chunks b64 ch fw n (i # is) =
      seq_op (seq_op (ask ch ''write'' (write_cmd b64 fw i)) (\<lambda>r. seq_op (expect_ok (map_device_error ''write'') r)
        (\<lambda>_ s. (Ok (), progress (Chunk (i + 1) n) s)))) (\<lambda>_. push_chunks b64 ch fw n is)"
    by (rule ext) (auto simp: seq_op_def split: prod.splits result.splits)
  show ?case using sends_append [OF one Cons] eq by simp
qed (simp add: sends_Nil)

lemma sends_push:
  "sends ch [''OTA:INFO''] (push_info ch)" "sends ch [''OTA:ERASE''] (push_erase ch)"
  "sends ch [''OTA:HEADER:'' @ b64 h] (push_header b64 ch h)" "sends ch [''OTA:END''] (push_end ch)"
  "sends ch (map (write_cmd b64 fw) [0..<(length fw + CHUNK_SIZE - 1) div CHUNK_SIZE]) (push_write b64 ch fw)"
proof -
  show "sends ch [''OTA:INFO''] (push_info ch)"
    unfolding push_info_def by (rule sends_one) (auto simp: push_error_def progress_def split: option.splits)
  show "sends ch [''OTA:ERASE''] (push_erase ch)"
    unfolding push_erase_def by (rule sends_simple) (auto simp: push_error_def)
  show "sends ch [''OTA:HEADER:'' @ b64 h] (push_header b64 ch h)"
    unfolding push_header_def by (rule sends_simple) (auto simp: push_error_def starts_with_def)
  show "sends ch [''OTA:END''] (push_end ch)"
    unfolding push_end_def by (rule sends_simple) (auto simp: push_error_def)
  show "sends ch (map (write_cmd b64 fw) [0..<(length fw + CHUNK_SIZE - 1) div CHUNK_SIZE]) (push_write b64 ch fw)"
    using sends_chunks [of ch b64 fw "[0..<(length fw + CHUNK_SIZE - 1) div CHUNK_SIZE]"
        "(length fw + CHUNK_SIZE - 1) div CHUNK_SIZE"]
    by (simp add: sends_def push_write_def progress_def Let_def)
qed

text \<open>
  Fact: the push is the plain protocol. Over any channel it sends the commands of the package in order
  and stops at the first one that is not acknowledged; it succeeds exactly when every command was,
  and otherwise fails with the error of the refused command, whose stage it names.
\<close>

theorem push_once_is_send_all:
  "\<exists>evs'. push_once b64 ch pkg (c, evs) =
     (case send_all ch (push_commands b64 pkg) c of (l, c') \<Rightarrow>
       (if map fst l = push_commands b64 pkg \<and> list_all (\<lambda>(x, r). acked r) l then Ok ()
        else Err (push_error (fst (last l)) (snd (last l))), (c', evs')))"
proof -
  have sn: "sends ch (push_commands b64 pkg) (push_once b64 ch pkg)"
    unfolding push_commands_def push_once_def by (intro sends_append sends_push)
  have all: "list_all (\<lambda>(x, r). acked r) l \<longleftrightarrow> (\<forall>(x, r)\<in>set l. acked r)" for l
    by (simp add: list_all_iff)
  have full: "map fst l = xs" if "send_all ch xs c = (l, c')" "\<forall>(x, r)\<in>set l. acked r" for xs l c c'
    using that by (induction xs arbitrary: l c) (auto split: prod.splits if_splits)
  obtain l c' where l: "send_all ch (push_commands b64 pkg) c = (l, c')" by (rule prod.exhaust)
  obtain evs' where "push_once b64 ch pkg (c, evs) = (verdict l, (c', evs'))"
    using sendsD [OF sn l] by blast
  then have "push_once b64 ch pkg (c, evs) =
      (if \<forall>(x, r)\<in>set l. acked r then Ok () else Err (push_error (fst (last l)) (snd (last l))), (c', evs'))"
    by (simp add: verdict_def)
  moreover have "(map fst l = push_commands b64 pkg \<and> list_all (\<lambda>(x, r). acked r) l) \<longleftrightarrow> (\<forall>(x, r)\<in>set l. acked r)"
    using full [OF l] unfolding all by blast
  ultimately show ?thesis unfolding l by (intro exI [of _ evs']) (simp only: prod.case)
qed

end
