(* ===== verification/Fw_Update.thy ===== *)
theory Fw_Update
  imports Ota_Push Socket_Device
begin

text \<open>
  The firmware update of the client (\<open>immurok-client/src/fwupdate\<close>): the store of its files
  (\<open>store.rs\<close>), planning and execution (\<open>mod.rs\<close>) and the checked download (\<open>http.rs\<close>). JSON, SHA-256
  and the network are parameters; the daemon and the network are one world \<open>'w\<close>.
\<close>

section \<open>The store\<close>

record last_check =
  checked_at :: "64 word"
  manifest_json :: string

record pending_hop =
  target_version :: string
  bridge_version :: string

record update_json =
  lc_enc :: "last_check \<Rightarrow> string"
  lc_dec :: "string \<Rightarrow> last_check option"
  hop_enc :: "pending_hop \<Rightarrow> string"
  hop_dec :: "string \<Rightarrow> pending_hop option"
  manifest_dec :: "string \<Rightarrow> (manifest, string) result"

text \<open>The files under \<open>~/.immurok/fwupdate\<close>: their texts and the packages.\<close>

record fw_store =
  last_check_file :: "string option"
  package_cache :: "string \<Rightarrow> bytes option"
  pending_file :: "string option"
  pending_package :: "bytes option"

definition CHECK_INTERVAL_SECS :: "64 word" where [simp]: "CHECK_INTERVAL_SECS = 86400"

text \<open>\<open>io f\<close> says whether the atomic write of the file \<open>f\<close> succeeds; a failed one leaves the old file.\<close>

type_synonym file_io = "string \<Rightarrow> bool"

definition store_error :: fw_update_error where
  "store_error = Store ''Write''"

definition load_last_check :: "update_json \<Rightarrow> fw_store \<Rightarrow> last_check option" where
  "load_last_check J st = Option.bind (last_check_file st) (lc_dec J)"

definition save_last_check :: "update_json \<Rightarrow> file_io \<Rightarrow> last_check \<Rightarrow> fw_store \<Rightarrow> fw_store" where
  "save_last_check J io lc st =
     (if io ''last-check.json'' then st\<lparr> last_check_file := Some (lc_enc J lc) \<rparr> else st)"

definition is_check_due :: "update_json \<Rightarrow> 64 word \<Rightarrow> fw_store \<Rightarrow> bool" where
  "is_check_due J unix st = (case load_last_check J st of
     Some lc \<Rightarrow> (if unix < checked_at lc then 0 else unix - checked_at lc) \<ge> CHECK_INTERVAL_SECS
   | None \<Rightarrow> True)"

definition cached_package :: "string \<Rightarrow> fw_store \<Rightarrow> bytes option" where
  "cached_package sha st = package_cache st sha"

definition store_package ::
    "file_io \<Rightarrow> string \<Rightarrow> bytes \<Rightarrow> fw_store \<Rightarrow> (unit, fw_update_error) result \<times> fw_store" where
  "store_package io sha d st =
     (if io ''cache'' then (Ok (), st\<lparr> package_cache := (package_cache st)(sha \<mapsto> d) \<rparr>)
      else (Err store_error, st))"

definition clear_pending :: "fw_store \<Rightarrow> fw_store" where
  "clear_pending st = st\<lparr> pending_file := None, pending_package := None \<rparr>"

definition load_pending :: "update_json \<Rightarrow> fw_store \<Rightarrow> pending_hop option \<times> fw_store" where
  "load_pending J st = (case pending_file st of
     None \<Rightarrow> (None, st)
   | Some txt \<Rightarrow> (case hop_dec J txt of Some h \<Rightarrow> (Some h, st) | None \<Rightarrow> (None, clear_pending st)))"

definition save_pending ::
    "update_json \<Rightarrow> file_io \<Rightarrow> pending_hop \<Rightarrow> bytes \<Rightarrow> fw_store \<Rightarrow> (unit, fw_update_error) result \<times> fw_store" where
  "save_pending J io hop package st =
     (if \<not> io ''pending-target.imfw'' then (Err store_error, st)
      else let st1 = st\<lparr> pending_package := Some package \<rparr> in
        if \<not> io ''pending.json'' then (Err store_error, st1)
        else (Ok (), st1\<lparr> pending_file := Some (hop_enc J hop) \<rparr>))"

section \<open>Planning\<close>

definition BATTERY_MIN_PERCENT :: byte where [simp]: "BATTERY_MIN_PERCENT = 30"
definition RECONNECT_TIMEOUT_SECS :: nat where [simp]: "RECONNECT_TIMEOUT_SECS = 60"

record client_status =
  cs_connected :: bool
  cs_battery :: byte
  cs_version :: string

text \<open>\<open>reply\<close> is the daemon's answer to STATUS, or the failure of the connection.\<close>

definition query_device_status :: "(string, string) result \<Rightarrow> (client_status, fw_update_error) result" where
  "query_device_status reply = (case reply of
     Err e \<Rightarrow> Err (Preflight e)
   | Ok resp \<Rightarrow>
       (let parts = split_on CHR '':'' resp in
        if parts ! 0 \<noteq> ''STATUS'' \<or> length parts < 5
        then Err (Preflight (''unexpected STATUS response: '' @ resp))
        else Ok \<lparr> cs_connected = (parts ! 1 = ''1''), cs_battery = unwrap_or 0 (ok (parse_u8 (parts ! 3))),
                  cs_version = parts ! 4 \<rparr>))"

datatype hop_source = Remote (hop_url: string) (hop_sha256: string) | PendingFile

record hop =
  hop_label :: string
  hop_version :: string
  hop_source :: hop_source

record prepared_update =
  prep_device :: string
  prep_target :: string
  prep_notes :: "string option"
  prep_hops :: "hop list"
  prep_resumed :: bool

definition asset_hop :: "string \<Rightarrow> asset \<Rightarrow> hop" where
  "asset_hop label a = \<lparr> hop_label = label, hop_version = version a, hop_source = Remote (url a) (asset_sha256 a) \<rparr>"

definition bridge_hop :: "manifest \<Rightarrow> string \<Rightarrow> (hop, fw_update_error) result" where
  "bridge_hop m label = (case bridge m of
     None \<Rightarrow> Err (ManifestSchema ''manifest has no bridge entry'') | Some b \<Rightarrow> Ok (asset_hop label b))"

definition hops_for :: "update_plan \<Rightarrow> manifest \<Rightarrow> (hop list, fw_update_error) result" where
  "hops_for plan m = (case plan of
     Direct \<Rightarrow> Ok [asset_hop ''final'' (latest m)]
   | BridgeOnly \<Rightarrow> and_then (bridge_hop m ''final'') (\<lambda>b. Ok [b])
   | TwoHops \<Rightarrow> and_then (bridge_hop m ''bridge'') (\<lambda>b. Ok [b, asset_hop ''final'' (latest m)])
   | _ \<Rightarrow> Ok [])"

definition manifest_error_str :: "manifest_error \<Rightarrow> string" where
  "manifest_error_str e = (case e of
     UnsupportedSchema n \<Rightarrow> ''unsupported manifest schema '' @ show_word n
   | ManifestParse m \<Rightarrow> ''manifest parse error: '' @ m)"

text \<open>\<open>body\<close> is the outcome of the HTTP request, made only when the cached copy is not used.\<close>

definition fetch_manifest_cached ::
    "update_json \<Rightarrow> file_io \<Rightarrow> (string, fw_update_error) result \<Rightarrow> bool \<Rightarrow> 64 word \<Rightarrow> fw_store \<Rightarrow>
      (manifest, fw_update_error) result \<times> fw_store" where
  "fetch_manifest_cached J io body force unix st =
     (let cached = (if \<not> force \<and> \<not> is_check_due J unix st
        then Option.bind (load_last_check J st) (\<lambda>lc. ok (manifest_decode (manifest_dec J) (manifest_json lc)))
        else None)
      in case cached of
        Some m \<Rightarrow> (Ok m, st)
      | None \<Rightarrow> (case body of
          Err e \<Rightarrow> (Err e, st)
        | Ok txt \<Rightarrow> (case manifest_decode (manifest_dec J) txt of
            Err e \<Rightarrow> (Err (ManifestSchema (manifest_error_str e)), st)
          | Ok m \<Rightarrow> (Ok m, save_last_check J io \<lparr> checked_at = unix, manifest_json = txt \<rparr> st))))"

text \<open>
  The resume detection of \<open>prepare\<close>: done, an update to resume, or nothing to resume (the pending
  state then dropped).
\<close>

datatype resume = Finished | Resume prepared_update | NoResume

definition resume_pending :: "update_json \<Rightarrow> string \<Rightarrow> fw_store \<Rightarrow> resume \<times> fw_store" where
  "resume_pending J device st = (case load_pending J st of
     (None, st1) \<Rightarrow> (NoResume, st1)
   | (Some p, st1) \<Rightarrow>
       (case (fv_parse device, fv_parse (target_version p), fv_parse (bridge_version p)) of
          (Some d, Some t, bri) \<Rightarrow>
            if t \<le> d then (Finished, clear_pending st1)
            else (case bri of
                Some b \<Rightarrow>
                  if d < b then (NoResume, clear_pending st1)
                  else if pending_package st1 \<noteq> None
                  then (Resume \<lparr> prep_device = device, prep_target = target_version p, prep_notes = None,
                          prep_hops = [\<lparr> hop_label = ''final'', hop_version = fv_show t, hop_source = PendingFile \<rparr>],
                          prep_resumed = True \<rparr>, st1)
                  else (NoResume, clear_pending st1)
              | None \<Rightarrow> (NoResume, clear_pending st1))
        | _ \<Rightarrow> (NoResume, clear_pending st1)))"

definition prepare ::
    "update_json \<Rightarrow> file_io \<Rightarrow> (string, string) result \<Rightarrow> (string, fw_update_error) result \<Rightarrow> bool \<Rightarrow> 64 word \<Rightarrow>
      fw_store \<Rightarrow> (prepared_update option, fw_update_error) result \<times> fw_store" where
  "prepare J io reply body force unix st = (case query_device_status reply of
     Err e \<Rightarrow> (Err e, st)
   | Ok ds \<Rightarrow>
       if \<not> cs_connected ds then (Err (Preflight ''device not connected''), st)
       else let device = normalize_semver (cs_version ds) in
         (case resume_pending J device st of
            (Finished, st1) \<Rightarrow> (Ok None, st1)
          | (Resume p, st1) \<Rightarrow> (Ok (Some p), st1)
          | (NoResume, st1) \<Rightarrow>
              (case fetch_manifest_cached J io body force unix st1 of
                 (Err e, st2) \<Rightarrow> (Err e, st2)
               | (Ok m, st2) \<Rightarrow>
                   (let plan = update_plan_of device (version (latest m)) (asset_min_direct (latest m)) in
                    if plan = UpToDate then (Ok None, st2)
                    else if plan = UnknownPlan
                    then (Err (Preflight (''cannot parse device firmware version '' @ [CHR 0x27] @ cs_version ds @ [CHR 0x27])), st2)
                    else (case hops_for plan m of
                        Err e \<Rightarrow> (Err e, st2)
                      | Ok hs \<Rightarrow> (Ok (Some \<lparr> prep_device = device,
                            prep_target = (if hs = [] then [] else hop_version (last hs)),
                            prep_notes = asset_notes (latest m), prep_hops = hs, prep_resumed = False \<rparr>), st2))))))"

section \<open>Execution\<close>

text \<open>
  The world behind the client: one STATUS request, one HTTP request, a connection for the OTA session,
  one OTA:VERSION request; and the digest, the text encoding and the number of polls after the first
  that fit before the deadline of a reconnection.
\<close>

record 'w fw_env =
  status_reply :: "'w \<Rightarrow> (string, string) result \<times> 'w"
  http_get :: "string \<Rightarrow> 'w \<Rightarrow> (bytes, fw_update_error) result \<times> 'w"
  ota_connect :: "'w \<Rightarrow> ('w ota_channel, fw_update_error) result \<times> 'w"
  version_reply :: "'w \<Rightarrow> (string, string) result \<times> 'w"
  fw_sha :: "bytes \<Rightarrow> bytes"
  fw_b64 :: "bytes \<Rightarrow> string"
  fw_polls :: nat

type_synonym 'w fw_state = "fw_store \<times> 'w"

definition eq_ignore_ascii_case :: "string \<Rightarrow> string \<Rightarrow> bool" where
  "eq_ignore_ascii_case a b \<longleftrightarrow> map ascii_lower a = map ascii_lower b"

definition sha256_hex :: "(bytes \<Rightarrow> bytes) \<Rightarrow> bytes \<Rightarrow> string" where
  "sha256_hex sha d = hex_bytes (sha d)"

definition download :: "'w fw_env \<Rightarrow> string \<Rightarrow> string \<Rightarrow> 'w \<Rightarrow> (bytes, fw_update_error) result \<times> 'w" where
  "download E u expected w = (case http_get E u w of
     (Err e, w') \<Rightarrow> (Err e, w')
   | (Ok d, w') \<Rightarrow> (if eq_ignore_ascii_case (sha256_hex (fw_sha E) d) expected then Ok d else Err Sha256Mismatch, w'))"

definition cached_verified :: "'w fw_env \<Rightarrow> string \<Rightarrow> fw_store \<Rightarrow> bytes option \<times> fw_store" where
  "cached_verified E digest st = (case cached_package digest st of
     Some d \<Rightarrow> if eq_ignore_ascii_case (sha256_hex (fw_sha E) d) digest then (Some d, st)
              else (None, st\<lparr> package_cache := (package_cache st)(digest := None) \<rparr>)
   | None \<Rightarrow> (None, st))"

definition hop_bytes ::
    "'w fw_env \<Rightarrow> file_io \<Rightarrow> hop_source \<Rightarrow> 'w fw_state \<Rightarrow> (bytes, fw_update_error) result \<times> 'w fw_state" where
  "hop_bytes E io src s = (case src of
     PendingFile \<Rightarrow> (ok_or (Store ''Read'') (pending_package (fst s)), s)
   | Remote u digest \<Rightarrow> (case cached_verified E digest (fst s) of
       (Some d, st) \<Rightarrow> (Ok d, (st, snd s))
     | (None, st) \<Rightarrow> (case download E u digest (snd s) of
         (Err e, w) \<Rightarrow> (Err e, (st, w))
       | (Ok d, w) \<Rightarrow> (case store_package io digest d st of
           (Err e, st') \<Rightarrow> (Err e, (st', w)) | (Ok _, st') \<Rightarrow> (Ok d, (st', w))))))"

definition imfw_error_str :: "imfw_error \<Rightarrow> string" where
  "imfw_error_str e = (case e of
     Truncated \<Rightarrow> ''file truncated'' | BadMagic \<Rightarrow> ''bad magic (not an .imfw package)''
   | UnsupportedVersion v \<Rightarrow> ''unsupported format version '' @ show_word v
   | SizeMismatch \<Rightarrow> ''payload shorter than declared fw_size''
   | TooLarge \<Rightarrow> ''firmware exceeds Image B size (216KB)'')"

fun fetch_packages ::
    "'w fw_env \<Rightarrow> file_io \<Rightarrow> hop list \<Rightarrow> 'w fw_state \<Rightarrow> (bytes list, fw_update_error) result \<times> 'w fw_state" where
  "fetch_packages E io [] s = (Ok [], s)"
| "fetch_packages E io (h # hs) s = seq_op (hop_bytes E io (hop_source h)) (\<lambda>d s. case imfw_parse d of
     Err e \<Rightarrow> (Err (PackageInvalid (imfw_error_str e)), s)
   | Ok _ \<Rightarrow> seq_op (fetch_packages E io hs) (\<lambda>ds s. (Ok (d # ds), s)) s) s"

definition poll_reached :: "firmware_version \<Rightarrow> (string, string) result \<Rightarrow> bool" where
  "poll_reached tgt r = (case r of
     Err _ \<Rightarrow> False
   | Ok resp \<Rightarrow> (case strip_prefix ''OK:'' (trim resp) of
       None \<Rightarrow> False
     | Some raw \<Rightarrow> (case fv_parse (normalize_semver (trim raw)) of None \<Rightarrow> False | Some v \<Rightarrow> tgt \<le> v)))"

fun wait_polls :: "'w fw_env \<Rightarrow> nat \<Rightarrow> firmware_version \<Rightarrow> 'w \<Rightarrow> bool \<times> 'w" where
  "wait_polls E 0 tgt w = (case version_reply E w of (r, w') \<Rightarrow> (poll_reached tgt r, w'))"
| "wait_polls E (Suc n) tgt w = (case version_reply E w of (r, w') \<Rightarrow>
     if poll_reached tgt r then (True, w') else wait_polls E n tgt w')"

definition wait_for_version :: "'w fw_env \<Rightarrow> string \<Rightarrow> 'w \<Rightarrow> (unit, fw_update_error) result \<times> 'w" where
  "wait_for_version E target w = (case fv_parse (normalize_semver target) of
     None \<Rightarrow> (Err (Preflight (''bad target version '' @ [CHR 0x27] @ target @ [CHR 0x27])), w)
   | Some tgt \<Rightarrow> (case wait_polls E (fw_polls E) tgt w of
       (reached, w') \<Rightarrow> (if reached then Ok () else Err (ReconnectTimeout target), w')))"

definition push_hop ::
    "'w fw_env \<Rightarrow> hop \<Rightarrow> bytes \<Rightarrow> 'w fw_state \<Rightarrow> (unit, fw_update_error) result \<times> 'w fw_state" where
  "push_hop E h d s = (case imfw_parse d of
     Err e \<Rightarrow> (Err (PackageInvalid (imfw_error_str e)), s)
   | Ok pkg \<Rightarrow> (case push_with_retry (fw_b64 E) (ota_connect E) pkg (snd s, []) of
       (Err e, w, _) \<Rightarrow> (Err e, (fst s, w))
     | (Ok _, w, _) \<Rightarrow> (case wait_for_version E (hop_version h) w of (r, w') \<Rightarrow> (r, (fst s, w')))))"

fun run_hops ::
    "update_json \<Rightarrow> 'w fw_env \<Rightarrow> file_io \<Rightarrow> (hop \<times> bytes) list \<Rightarrow> 'w fw_state \<Rightarrow>
      (unit, fw_update_error) result \<times> 'w fw_state" where
  "run_hops J E io [] s = (Ok (), (clear_pending (fst s), snd s))"
| "run_hops J E io ((h, d) # rest) s = seq_op (push_hop E h d) (\<lambda>_.
     seq_op (\<lambda>s. case rest of
         [] \<Rightarrow> (Ok (), s)
       | (h2, d2) # _ \<Rightarrow> (case save_pending J io
             \<lparr> target_version = hop_version h2, bridge_version = hop_version h \<rparr> d2 (fst s) of
           (r, st) \<Rightarrow> (r, (st, snd s))))
       (\<lambda>_. run_hops J E io rest)) s"

definition execute ::
    "update_json \<Rightarrow> 'w fw_env \<Rightarrow> file_io \<Rightarrow> prepared_update \<Rightarrow> 'w fw_state \<Rightarrow>
      (unit, fw_update_error) result \<times> 'w fw_state" where
  "execute J E io prep s = (case status_reply E (snd s) of (reply, w) \<Rightarrow>
     (case query_device_status reply of
        Err e \<Rightarrow> (Err e, (fst s, w))
      | Ok ds \<Rightarrow>
          if \<not> cs_connected ds then (Err (Preflight ''device not connected''), (fst s, w))
          else if cs_battery ds < BATTERY_MIN_PERCENT then (Err LowBattery, (fst s, w))
          else seq_op (fetch_packages E io (prep_hops prep)) (\<lambda>ds.
            run_hops J E io (zip (prep_hops prep) ds)) (fst s, w)))"

section \<open>Properties\<close>

lemma cached_verified_digest:
  "cached_verified E digest st = (Some d, st') \<Longrightarrow> eq_ignore_ascii_case (sha256_hex (fw_sha E) d) digest"
  by (auto simp: cached_verified_def split: option.splits if_splits)

lemma download_digest:
  "download E u digest w = (Ok d, w') \<Longrightarrow> eq_ignore_ascii_case (sha256_hex (fw_sha E) d) digest"
  by (auto simp: download_def split: prod.splits result.splits if_splits)

lemma hop_bytes_digest:
  assumes "hop_bytes E io src s = (Ok d, s')" "src = Remote u digest"
  shows "eq_ignore_ascii_case (sha256_hex (fw_sha E) d) digest"
  using assms
  by (auto simp: hop_bytes_def dest: cached_verified_digest download_digest
      split: prod.splits option.splits result.splits)

text \<open>
  A package may be pushed for a hop: it passed the preflight, and it has the digest the manifest names or, for
  a resumed update, is the package that was kept.
\<close>

definition package_checked :: "'w fw_env \<Rightarrow> fw_store \<Rightarrow> hop \<Rightarrow> bytes \<Rightarrow> bool" where
  "package_checked E st h d \<longleftrightarrow> is_ok (imfw_parse d) \<and> (case hop_source h of
     Remote _ digest \<Rightarrow> map ascii_lower (sha256_hex (fw_sha E) d) = map ascii_lower digest
   | PendingFile \<Rightarrow> pending_package st = Some d)"

lemma hop_bytes_keeps_pending:
  "hop_bytes E io src s = (r, s') \<Longrightarrow> pending_package (fst s') = pending_package (fst s)"
  by (auto simp: hop_bytes_def cached_verified_def store_package_def
      split: prod.splits option.splits result.splits if_splits hop_source.splits)

lemma fetch_packages_facts:
  "fetch_packages E io hs s = (Ok ds, s') \<Longrightarrow> list_all2 (package_checked E (fst s)) hs ds"
proof (induction hs arbitrary: s ds s')
  case (Cons h hs)
  obtain d s1 where d: "hop_bytes E io (hop_source h) s = (Ok d, s1)"
    and k: "(case imfw_parse d of Err e \<Rightarrow> (Err (PackageInvalid (imfw_error_str e)), s1)
      | Ok _ \<Rightarrow> seq_op (fetch_packages E io hs) (\<lambda>ds s. (Ok (d # ds), s)) s1) = (Ok ds, s')"
    using Cons.prems unfolding fetch_packages.simps seq_op_Ok by blast
  then obtain pkg where pkg: "imfw_parse d = Ok pkg" by (cases "imfw_parse d") auto
  then obtain ds1 where ds1: "fetch_packages E io hs s1 = (Ok ds1, s')" "ds = d # ds1"
    using k by (auto simp: seq_op_Ok)
  have "package_checked E (fst s) h d"
    using hop_bytes_digest [OF d] pkg d
    by (cases "hop_source h") (auto simp: package_checked_def eq_ignore_ascii_case_def hop_bytes_def ok_or_eq_Ok)
  moreover have "package_checked E (fst s1) = package_checked E (fst s)"
    using hop_bytes_keeps_pending [OF d] by (auto simp: package_checked_def fun_eq_iff split: hop_source.split)
  ultimately show ?case using Cons.IH [OF ds1(1)] ds1(2) by simp
qed simp

text \<open>Fetching does not open a connection to the device.\<close>

lemma fetch_without_device: "fetch_packages (E\<lparr> ota_connect := oc \<rparr>) io hs s = fetch_packages E io hs s"
proof -
  have same: "cached_verified (E\<lparr> ota_connect := oc \<rparr>) = cached_verified E" "download (E\<lparr> ota_connect := oc \<rparr>) = download E"
    by (intro ext, simp add: cached_verified_def download_def split: option.split prod.split result.split)+
  have "hop_bytes (E\<lparr> ota_connect := oc \<rparr>) = hop_bytes E" by (intro ext) (simp only: hop_bytes_def same)
  then show ?thesis by (induction hs arbitrary: s) (simp_all add: seq_op_def split: prod.split result.split)
qed

lemma resume_cases:
  assumes "resume_pending J device st = (q, st')"
  obtains (finished) "q = Finished" | (none) "q = NoResume"
  | (resumed) p d t b where "load_pending J st = (Some p, st')" "fv_parse device = Some d"
      "fv_parse (target_version p) = Some t" "fv_parse (bridge_version p) = Some b" "b \<le> d" "d < t"
      "pending_package st' \<noteq> None"
      "q = Resume \<lparr> prep_device = device, prep_target = target_version p, prep_notes = None,
        prep_hops = [\<lparr> hop_label = ''final'', hop_version = fv_show t, hop_source = PendingFile \<rparr>],
        prep_resumed = True \<rparr>"
proof -
  have "q = Finished \<or> q = NoResume \<or> (\<exists>p d t b. load_pending J st = (Some p, st') \<and> fv_parse device = Some d \<and>
      fv_parse (target_version p) = Some t \<and> fv_parse (bridge_version p) = Some b \<and> b \<le> d \<and> d < t \<and>
      pending_package st' \<noteq> None \<and>
      q = Resume \<lparr> prep_device = device, prep_target = target_version p, prep_notes = None,
        prep_hops = [\<lparr> hop_label = ''final'', hop_version = fv_show t, hop_source = PendingFile \<rparr>],
        prep_resumed = True \<rparr>)"
    using assms by (auto simp: resume_pending_def not_le not_less split: prod.splits option.splits if_splits)
  then show thesis using that by blast
qed

text \<open>
  C22: no unverified firmware reaches the device. Either the execution of an update never opens a connection
  to the device (it ends the same whatever the device would do), or it pushes, hop by hop, packages that were
  all in hand and checked before the first byte: each passed the preflight, and each has the digest the
  manifest names, from the cache or the network. Only the package of a resumed update is not digested again:
  it is the one the store kept.
\<close>

theorem packages_verified:
  "(\<forall>oc. execute J (E\<lparr> ota_connect := oc \<rparr>) io prep s = execute J E io prep s) \<or>
   (\<exists>ds s1. list_all2 (package_checked E (fst s)) (prep_hops prep) ds \<and>
      execute J E io prep s = run_hops J E io (zip (prep_hops prep) ds) s1)"
proof -
  obtain reply w where st: "status_reply E (snd s) = (reply, w)" by fastforce
  obtain r s1 where f: "fetch_packages E io (prep_hops prep) (fst s, w) = (r, s1)" by (metis surj_pair)
  show ?thesis
  proof (cases "\<exists>ds. r = Ok ds \<and> execute J E io prep s = run_hops J E io (zip (prep_hops prep) ds) s1")
    case True
    then obtain ds where "r = Ok ds" "execute J E io prep s = run_hops J E io (zip (prep_hops prep) ds) s1" by blast
    moreover have "list_all2 (package_checked E (fst s)) (prep_hops prep) ds"
      using fetch_packages_facts [of E io "prep_hops prep" "(fst s, w)"] f \<open>r = Ok ds\<close> by simp
    ultimately show ?thesis by blast
  next
    case False
    then have "\<forall>oc. execute J (E\<lparr> ota_connect := oc \<rparr>) io prep s = execute J E io prep s"
      using st f
      by (auto simp: execute_def fetch_without_device seq_op_def split: prod.splits result.splits if_splits)
    then show ?thesis by blast
  qed
qed

definition update_env :: "nat fw_env" where
  "update_env = \<lparr> status_reply = (\<lambda>n. (Ok ''STATUS:1:immurok:80:1.6.0:0'', n)),
     http_get = (\<lambda>u n. (Ok sample_imfw, n + 1)), ota_connect = (\<lambda>n. (Err LowBattery, n)),
     version_reply = (\<lambda>n. (Ok ''OK:1.6.4.12'', n)), fw_sha = (\<lambda>d. [1, 0xAB]), fw_b64 = hex_bytes, fw_polls = 60 \<rparr>"

definition empty_store :: fw_store where
  "empty_store = \<lparr> last_check_file = None, package_cache = Map.empty, pending_file = None, pending_package = None \<rparr>"

definition sample_hop :: hop where
  "sample_hop = \<lparr> hop_label = ''final'', hop_version = ''1.6.4'', hop_source = Remote ''u'' ''01AB'' \<rparr>"

lemma sample_fetch:
  "fetch_packages update_env (\<lambda>_. True) [sample_hop] (empty_store, 0) =
    (Ok [sample_imfw], (empty_store\<lparr> package_cache := [''01AB'' \<mapsto> sample_imfw] \<rparr>, 1))"
proof -
  have "eq_ignore_ascii_case (sha256_hex (fw_sha update_env) sample_imfw) ''01AB''"
    by (simp add: eq_ignore_ascii_case_def sha256_hex_def update_env_def hex_bytes_def hex2_def hex_char_def
        char_of_def bit_Suc_0_iff)
  then show ?thesis
    by (simp add: seq_op_def hop_bytes_def sample_hop_def cached_verified_def cached_package_def empty_store_def
        download_def store_package_def sample_imfw_parse) (simp add: update_env_def store_package_def sample_imfw_parse seq_op_def)
qed

text \<open>A run of the fetch: what is downloaded is stored and has the digest.\<close>

lemma sample_fetch_checked: "list_all2 (package_checked update_env empty_store) [sample_hop] [sample_imfw]"
  using fetch_packages_facts [OF sample_fetch] by simp

text \<open>
  Fact: power loss between the two hops of an update loses nothing. Once the final hop has been saved,
  the next preparation on a device that is at the bridge but below the target resumes with exactly the
  final hop, whatever the network answers and whatever the throttle says; the package it fetches is
  the saved one, without a download. A device that already has the target is left alone.
\<close>

theorem crash_between_hops_resumes:
  assumes "save_pending J io \<lparr> target_version = tv, bridge_version = bv \<rparr> d st = (Ok (), st')"
    and "\<And>h. hop_dec J (hop_enc J h) = Some h" "imfw_parse d = Ok pkg"
    and "query_device_status reply = Ok ds" "cs_connected ds"
    and "fv_parse (normalize_semver (cs_version ds)) = Some v" "fv_parse tv = Some t" "fv_parse bv = Some b" "b \<le> v"
  shows "if t \<le> v then prepare J io' reply body force unix st' = (Ok None, clear_pending st')
    else \<exists>p. prepare J io' reply body force unix st' = (Ok (Some p), st') \<and> prep_resumed p \<and>
      map hop_version (prep_hops p) = [fv_show t] \<and>
      fetch_packages E io' (prep_hops p) (st', w) = (Ok [d], (st', w))"
proof -
  have st': "st' = st\<lparr> pending_package := Some d, pending_file := Some (hop_enc J \<lparr> target_version = tv, bridge_version = bv \<rparr>) \<rparr>"
    using assms(1) by (auto simp: save_pending_def Let_def split: if_splits)
  have l: "load_pending J st' = (Some \<lparr> target_version = tv, bridge_version = bv \<rparr>, st')"
    by (simp add: load_pending_def st' assms(2))
  show ?thesis
  proof (cases "t \<le> v")
    case True
    then show ?thesis
      using assms(4-8) l by (simp add: prepare_def resume_pending_def Let_def)
  next
    case False
    let ?p = "\<lparr> prep_device = normalize_semver (cs_version ds), prep_target = tv, prep_notes = None,
        prep_hops = [\<lparr> hop_label = ''final'', hop_version = fv_show t, hop_source = PendingFile \<rparr>],
        prep_resumed = True \<rparr>"
    have "\<not> v < b" using assms(9) by simp
    then have "prepare J io' reply body force unix st' = (Ok (Some ?p), st')"
      using assms(4-8) l False by (simp add: prepare_def resume_pending_def Let_def) (simp add: st')
    moreover have "fetch_packages E io' (prep_hops ?p) (st', w) = (Ok [d], (st', w))"
      by (simp add: seq_op_def hop_bytes_def assms(3)) (simp add: st' assms(3) seq_op_def)
    ultimately show ?thesis using False by auto
  qed
qed

text \<open>A codec of the pending record, for the witness: the two versions separated by a line break.\<close>

definition sample_json :: update_json where
  "sample_json = \<lparr> lc_enc = manifest_json, lc_dec = (\<lambda>_. None),
     hop_enc = (\<lambda>h. show_nat (length (target_version h)) @ '' '' @ target_version h @ bridge_version h),
     hop_dec = (\<lambda>txt. case split_once CHR '' '' txt of None \<Rightarrow> None
       | Some (n, r) \<Rightarrow> (case parse_digits (length txt) 0 n of Err _ \<Rightarrow> None
         | Ok k \<Rightarrow> Some \<lparr> target_version = take k r, bridge_version = drop k r \<rparr>)),
     manifest_dec = (\<lambda>_. Err ''no manifest'') \<rparr>"

lemma sample_json_codec: "hop_dec sample_json (hop_enc sample_json h) = Some h"
proof -
  have "CHR '' '' \<notin> set (show_nat n)" for n by (auto dest!: show_nat_digits simp: is_digit_def)
  then have "split_once CHR '' '' (show_nat n @ '' '' @ r) = Some (show_nat n, r)" for n r
    using split_once_append [of "CHR '' ''" "show_nat n" r] by simp
  then show ?thesis by (simp add: sample_json_def parse_digits_show)
qed

theorem crash_between_hops_resumes_witness:
  "\<exists>p. prepare sample_json (\<lambda>_. False) (Ok ''STATUS:1:immurok:80:1.6.0.3:0'') (Err LowBattery) True 7
      (empty_store\<lparr> pending_package := Some sample_imfw, pending_file := Some ''5 1.6.41.6.0'' \<rparr>) =
      (Ok (Some p), empty_store\<lparr> pending_package := Some sample_imfw, pending_file := Some ''5 1.6.41.6.0'' \<rparr>) \<and>
    prep_resumed p \<and> map hop_version (prep_hops p) = [''1.6.4'']"
proof -
  let ?st = "empty_store\<lparr> pending_package := Some sample_imfw, pending_file := Some ''5 1.6.41.6.0'' \<rparr>"
  have "show_nat (length ''1.6.4'') = ''5''" by (simp add: show_nat.simps digit_char_def char_of_def bit_Suc_0_iff)
  then have n: "hop_enc sample_json \<lparr> target_version = ''1.6.4'', bridge_version = ''1.6.0'' \<rparr> = ''5 1.6.41.6.0''"
    by (simp add: sample_json_def)
  have sv: "save_pending sample_json (\<lambda>_. True) \<lparr> target_version = ''1.6.4'', bridge_version = ''1.6.0'' \<rparr>
      sample_imfw empty_store = (Ok (), ?st)"
    by (simp add: save_pending_def n)
  have u: "parse_u32 ''1'' = Ok 1" "parse_u32 ''6'' = Ok 6" "parse_u32 ''0'' = Ok 0" "parse_u32 ''4'' = Ok 4"
    by (simp_all add: parse_u32_def parse_uint_def is_digit_def digit_val_def)
  have v: "fv_parse ''1.6.4'' = Some (FirmwareVersion 1 6 4)" "fv_parse ''1.6.0'' = Some (FirmwareVersion 1 6 0)"
    "fv_parse (normalize_semver ''1.6.0.3'') = Some (FirmwareVersion 1 6 0)"
    by (simp_all add: fv_parse_def normalize_semver_def u Let_def)
  have b: "parse_u8 ''80'' = Ok 80"
    by (simp add: parse_u8_def parse_uint_def is_digit_def digit_val_def)
  have q: "query_device_status (Ok ''STATUS:1:immurok:80:1.6.0.3:0'') =
      Ok \<lparr> cs_connected = True, cs_battery = 80, cs_version = ''1.6.0.3'' \<rparr>"
    by (simp add: query_device_status_def b Let_def)
  have w: "fv_show (FirmwareVersion 1 6 4) = ''1.6.4''"
    by (simp add: fv_show_def show_nat.simps digit_char_def char_of_def bit_Suc_0_iff)
  have c: "cs_connected \<lparr> cs_connected = True, cs_battery = 80, cs_version = ''1.6.0.3'' \<rparr>" by simp
  have d: "fv_parse (normalize_semver (cs_version
      \<lparr> cs_connected = True, cs_battery = 80, cs_version = ''1.6.0.3'' \<rparr>)) = Some (FirmwareVersion 1 6 0)"
    by (simp only: client_status.simps v(3))
  have nle: "\<not> FirmwareVersion 1 6 4 \<le> FirmwareVersion 1 6 0" by (simp add: less_eq_firmware_version_def)
  from crash_between_hops_resumes [OF sv sample_json_codec sample_imfw_parse q c d v(1,2) order_refl,
      of "\<lambda>_. False" "Err LowBattery" True 7 update_env 0]
  show ?thesis unfolding if_not_P [OF nle] w by - (elim exE conjE, (intro exI conjI; assumption))
qed

text \<open>
  Fact: what the updater reads of STATUS is what the daemon knows: the connection, the battery and the
  firmware version survive the response line, provided the version has no colon.
\<close>

theorem status_reaches_updater:
  assumes "CHR '':'' \<notin> set (case device_status c of Some s \<Rightarrow> fw_version s | None \<Rightarrow> [])"
  shows "query_device_status (Ok (serialize_response (handle_status c))) = Ok
    \<lparr> cs_connected = is_connected c,
      cs_battery = (case device_status c of Some s \<Rightarrow> battery s | None \<Rightarrow> 0),
      cs_version = (case device_status c of Some s \<Rightarrow> fw_version s | None \<Rightarrow> []) \<rparr>"
proof -
  have r: "query_device_status (Ok (serialize_response (RStatus cn n b v u))) =
      Ok \<lparr> cs_connected = cn, cs_battery = b, cs_version = v \<rparr>"
    if "CHR '':'' \<notin> set n" "CHR '':'' \<notin> set v" for cn n b v u
  proof -
    let ?ps = "[''STATUS'', flag01 cn, n, show_word b, v, flag01 u]"
    have "serialize_response (RStatus cn n b v u) = join '':'' ?ps"
      by (simp add: serialize_response_def join_Cons)
    moreover have "split_on CHR '':'' (join '':'' ?ps) = ?ps"
      using that by (intro split_on_join) (auto simp: flag01_def)
    ultimately show ?thesis by (simp add: query_device_status_def Let_def flag01_def)
  qed
  show ?thesis
    using assms r by (auto simp: handle_status_def split: option.split)
qed

theorem status_reaches_updater_witness:
  "cs_connected (the (ok (query_device_status (Ok (serialize_response (handle_status online))))))"
  using status_reaches_updater [of online] by (simp add: online_def coordinator_new_def)

end
