(* ===== verification/Auth_Protocol.thy ===== *)
theory Auth_Protocol
  imports Socket_Auth
begin

text \<open>
  Authentication requests side by side: the tasks of \<open>handle_auth\<close>, \<open>handle_agent_approve\<close> and the
  gated key reads (\<open>socket.rs\<close>) over one coordinator (\<open>coordinator.rs\<close>), interleaved at their waits.
  A task is named by the channel of its request. A task that has left its \<open>select!\<close> and not yet taken
  the lock of the pending slot again is \<open>Decided\<close>: other tasks run in between.
\<close>

section \<open>Tasks and steps\<close>

datatype flow = AuthFlow | AgentFlow

datatype task =
    Fresh
  | Parked flow bool
  | Decided flow bool auth_event
  | Reading
  | Served response

type_synonym daemon = "coordinator \<times> (nat \<Rightarrow> task)"

datatype label =
    LAuth nat string string
  | LAgent nat "32 word option" string
  | LRead nat
  | LEvent nat auth_event
  | LFinish nat
  | LReadEnd nat
  | LMatch "16 word"

text \<open>The events that can end a wait: a value on the own channel was sent there by the coordinator.\<close>

definition wait_event :: "flow \<Rightarrow> bool \<Rightarrow> nat \<Rightarrow> auth_event \<Rightarrow> coordinator \<Rightarrow> bool" where
  "wait_event fl showing ch e c = (case e of
     PendingResult r \<Rightarrow> (case r of Some b \<Rightarrow> Reply ch b \<in> set (effects c) | None \<Rightarrow> False)
   | UiCancelled \<Rightarrow> showing
   | Sleep35 \<Rightarrow> fl = AgentFlow
   | _ \<Rightarrow> True)"

definition flow_finish :: "host \<Rightarrow> flow \<Rightarrow> bool \<Rightarrow> auth_event \<Rightarrow> coordinator \<Rightarrow> response \<times> coordinator" where
  "flow_finish h fl showing e c =
     (case fl of AuthFlow \<Rightarrow> auth_finish showing e c | AgentFlow \<Rightarrow> agent_finish h showing e c)"

definition begun :: "flow \<Rightarrow> nat \<Rightarrow> (bool, response) result \<times> coordinator \<Rightarrow> (nat \<Rightarrow> task) \<Rightarrow> daemon" where
  "begun fl ch res tk = (case res of
     (Err r, c) \<Rightarrow> (c, tk(ch := Served r)) | (Ok showing, c) \<Rightarrow> (c, tk(ch := Parked fl showing)))"

inductive step :: "host \<Rightarrow> daemon \<Rightarrow> label \<Rightarrow> daemon \<Rightarrow> bool" for h where
  auth: "tk ch = Fresh \<Longrightarrow>
    step h (c, tk) (LAuth ch user svc) (begun AuthFlow ch (auth_begin h ch user svc c) tk)"
| agent: "tk ch = Fresh \<Longrightarrow>
    step h (c, tk) (LAgent ch peer cmd) (begun AgentFlow ch (agent_begin h ch peer cmd c) tk)"
| read: "tk ch = Fresh \<Longrightarrow> try_set_pending_pam ch c = (True, c') \<Longrightarrow>
    step h (c, tk) (LRead ch) (c', tk(ch := Reading))"
| busy: "tk ch = Fresh \<Longrightarrow> try_set_pending_pam ch c = (False, c') \<Longrightarrow>
    step h (c, tk) (LRead ch) (c', tk(ch := Served (RError ''BUSY'')))"
| event: "tk ch = Parked fl showing \<Longrightarrow> wait_event fl showing ch e c \<Longrightarrow>
    step h (c, tk) (LEvent ch e) (c, tk(ch := Decided fl showing e))"
| finish: "tk ch = Decided fl showing e \<Longrightarrow> flow_finish h fl showing e c = (r, c') \<Longrightarrow>
    step h (c, tk) (LFinish ch) (c', tk(ch := Served r))"
| read_end: "tk ch = Reading \<Longrightarrow>
    step h (c, tk) (LReadEnd ch) (deny_pending_pam c, tk(ch := Served (ROk [])))"
| match: "step h (c, tk) (LMatch pid) (on_fp_match h pid c, tk)"

inductive_cases step_cases: "step h s l s'"

inductive run :: "host \<Rightarrow> daemon \<Rightarrow> label list \<Rightarrow> daemon \<Rightarrow> bool" for h s where
  none: "run h s [] s"
| more: "run h s tr t \<Longrightarrow> step h t l u \<Longrightarrow> run h s (tr @ [l]) u"

definition idle :: "coordinator \<Rightarrow> daemon" where
  "idle c = (c\<lparr> pending_pam := None, effects := [] \<rparr>, \<lambda>_. Fresh)"

section \<open>What the operations send\<close>

definition replies :: "coordinator \<Rightarrow> coord_effect list" where
  "replies c = filter (\<lambda>e. case e of Reply _ _ \<Rightarrow> True | _ \<Rightarrow> False) (effects c)"

definition touches :: "coordinator \<Rightarrow> nat" where
  "touches c = length (filter (\<lambda>e. case e of FpMatch _ \<Rightarrow> True | _ \<Rightarrow> False) (effects c))"

definition approvals :: "coordinator \<Rightarrow> nat" where
  "approvals c = length (filter (\<lambda>e. case e of Reply _ True \<Rightarrow> True | _ \<Rightarrow> False) (effects c))"

lemma reply_in_replies: "Reply ch b \<in> set (effects c) \<longleftrightarrow> Reply ch b \<in> set (replies c)"
  by (auto simp: replies_def)

text \<open>The operations that leave channels and touches alone.\<close>

definition silent :: "coordinator \<Rightarrow> coordinator \<Rightarrow> bool" where
  "silent c c' \<longleftrightarrow> replies c' = replies c \<and> touches c' = touches c \<and> approvals c' = approvals c"

lemma silent_refl [simp, intro]: "silent c c"
  by (simp add: silent_def)

lemma silent_trans [trans]: "silent a b \<Longrightarrow> silent b c \<Longrightarrow> silent a c"
  by (simp add: silent_def)

lemma silent_effects: "effects c' = effects c \<Longrightarrow> silent c c'"
  by (simp add: silent_def replies_def touches_def approvals_def)

lemma silent_emit [simp]:
  "silent c (emit (UiLine l) c)" "silent c (emit (Loginctl v s) c)"
  by (simp_all add: silent_def replies_def touches_def approvals_def emit_def)

lemma silent_push_ui [simp]: "silent c (snd (push_ui l c))"
  by (simp add: push_ui_def split: option.split)

lemma silent_dismiss [simp]: "silent c (dismiss_if showing c)"
  by (simp add: dismiss_if_def)

lemma pending_push_ui [simp]: "pending_pam (snd (push_ui l c)) = pending_pam c"
  by (simp add: push_ui_def emit_def split: option.split)

lemma pending_dismiss [simp]: "pending_pam (dismiss_if showing c) = pending_pam c"
  by (simp add: dismiss_if_def)

text \<open>What each operation does to the slot and to the channels.\<close>

definition denied_holder :: "coordinator \<Rightarrow> coord_effect list" where
  "denied_holder c = (case pending_pam c of Some ch \<Rightarrow> [Reply ch False] | None \<Rightarrow> [])"

lemma silent_fields:
  "silent c (c\<lparr> auth_dialog_cancel := b \<rparr>)" "silent c (c\<lparr> pending_pam := q \<rparr>)"
  "silent c (record_agent_claim h pid cmd c)" "silent c (set_pre_auth h d svcs c)"
  by (auto intro!: silent_effects simp: record_agent_claim_def set_pre_auth_def)

lemma auth_begin_slot:
  assumes "auth_begin h ch user svc c = (res, c')"
  shows "silent c c' \<and> (case res of Ok _ \<Rightarrow> pending_pam c = None \<and> pending_pam c' = Some ch
    | Err _ \<Rightarrow> pending_pam c' = pending_pam c)"
proof -
  define c1 where "c1 = (if is_graphical h svc then snd (push_ui ''UI:DIALOG:AUTH'' c) else c)"
  have c1: "silent c c1" "pending_pam c1 = pending_pam c" by (simp_all add: c1_def)
  have "c' = c \<or> c' = c1 \<or> c' = snd (push_ui ''UI:DISMISS'' c1) \<or> c' = c1\<lparr> pending_pam := Some ch \<rparr>"
    using assms
    by (auto simp: auth_begin_def c1_def Let_def try_set_pending_pam_def split: if_splits prod.splits)
  then have "silent c c'"
    using c1(1) silent_trans [OF c1(1) silent_push_ui] silent_trans [OF c1(1) silent_fields(2)] by auto
  then show ?thesis
    using auth_begin_parks(6,7) [of h ch user svc c] auth_begin_refuses(1) [of h ch user svc c] assms
    by (cases res) auto
qed

lemma agent_begin_slot:
  assumes "agent_begin h ch peer cmd c = (res, c')"
  shows "silent c c' \<and> (case res of Ok _ \<Rightarrow> pending_pam c = None \<and> pending_pam c' = Some ch
    | Err _ \<Rightarrow> pending_pam c' = pending_pam c)"
proof -
  define c0 where "c0 = (case peer of Some pid \<Rightarrow> record_agent_claim h pid cmd c | None \<Rightarrow> c)"
  have c0: "silent c c0" "pending_pam c0 = pending_pam c"
    by (auto simp: c0_def silent_fields split: option.split) (simp add: record_agent_claim_def)
  have f: "agent_begin h ch peer cmd c = (if cmd = [] then (Err (RError ''EMPTY_COMMAND''), c0)
      else if \<not> is_connected c0 then (Err (RError ''NOT_CONNECTED''), c0)
      else if \<not> is_device_verified c0 then (Err (RError ''NOT_VERIFIED''), c0)
      else if pending_pam c0 \<noteq> None then (Err (RError ''BUSY''), c0)
      else (Ok (fst (push_ui (''UI:DIALOG:AGENT:30:'' @ cmd) (c0\<lparr> pending_pam := Some ch \<rparr>))),
            snd (push_ui (''UI:DIALOG:AGENT:30:'' @ cmd) (c0\<lparr> pending_pam := Some ch \<rparr>))))"
    by (simp add: agent_begin_def c0_def Let_def try_set_pending_pam_def split: prod.split)
  have "silent c (snd (push_ui l (c0\<lparr> pending_pam := Some ch \<rparr>)))" for l
    using silent_trans [OF silent_trans [OF c0(1) silent_fields(2)] silent_push_ui] .
  then show ?thesis using assms c0 unfolding f by (auto split: if_splits)
qed

lemma result_slot:
  fixes c :: coordinator
  shows "silent c (snd (auth_result e c))" "pending_pam (snd (auth_result e c)) = pending_pam c"
  "silent c (snd (snd (agent_result e c)))" "pending_pam (snd (snd (agent_result e c))) = pending_pam c"
  by (auto simp: auth_result_def agent_result_def silent_fields split: auth_event.split result.split)

lemma deny_slot:
  "pending_pam (deny_pending_pam c) = None" "replies (deny_pending_pam c) = replies c @ denied_holder c"
  "touches (deny_pending_pam c) = touches c" "approvals (deny_pending_pam c) = approvals c"
  by (simp_all add: deny_pending_pam_def denied_holder_def replies_def touches_def approvals_def emit_def
      split: option.split)

lemma finish_slot:
  assumes "flow_finish h fl showing e c = (r, c')"
  shows "pending_pam c' = None \<and> replies c' = replies c @ denied_holder c \<and>
    touches c' = touches c \<and> approvals c' = approvals c"
proof -
  have "\<exists>c1. silent c c1 \<and> pending_pam c1 = pending_pam c \<and>
      (c' = deny_pending_pam (dismiss_if showing c1) \<or>
       (\<exists>d svcs. c' = set_pre_auth h d svcs (deny_pending_pam (dismiss_if showing c1))))"
  proof (cases fl)
    case AuthFlow
    then show ?thesis
      using assms result_slot(1,2) [where c = c and e = e]
      by (auto simp: flow_finish_def auth_finish_def Let_def split: prod.splits)
  next
    case AgentFlow
    then show ?thesis
      using assms result_slot(3,4) [where c = c and e = e]
      by (auto simp: flow_finish_def agent_finish_def Let_def split: prod.splits if_splits)
  qed
  then obtain c1 where c1: "silent c c1" "pending_pam c1 = pending_pam c"
    and c': "c' = deny_pending_pam (dismiss_if showing c1) \<or>
       (\<exists>d svcs. c' = set_pre_auth h d svcs (deny_pending_pam (dismiss_if showing c1)))" by blast
  let ?d = "dismiss_if showing c1"
  have d: "silent c ?d" "denied_holder ?d = denied_holder c"
    using silent_trans [OF c1(1) silent_dismiss] c1(2) by (simp_all add: denied_holder_def)
  have "silent (deny_pending_pam ?d) c' \<and> pending_pam c' = None"
    using c' silent_fields(4) by (auto simp: deny_slot set_pre_auth_def)
  then show ?thesis using d by (simp add: silent_def deny_slot)
qed

lemma match_slot:
  "pending_pam (on_fp_match h pid c) = None \<and> touches (on_fp_match h pid c) = Suc (touches c) \<and>
   (case pending_pam c of
      Some ch \<Rightarrow> replies (on_fp_match h pid c) = replies c @ [Reply ch True] \<and>
        approvals (on_fp_match h pid c) = Suc (approvals c)
    | None \<Rightarrow> replies (on_fp_match h pid c) = replies c \<and> approvals (on_fp_match h pid c) = approvals c)"
proof (cases "pending_pam c")
  case (Some ch)
  then show ?thesis
    using on_fp_match_pending [OF Some, of h pid] by (simp add: replies_def touches_def approvals_def)
next
  case None
  have e: "effects (do_unlock_screen h c1) = effects c1 \<or>
      (\<exists>s. effects (do_unlock_screen h c1) = effects c1 @ [Loginctl ''unlock-session'' s])"
    "pending_pam (do_unlock_screen h c1) = pending_pam c1" for c1
    by (auto simp: do_unlock_screen_def Let_def emit_def set_pre_auth_def split: option.split)
  show ?thesis
    using None e(1) [of "emit (FpMatch pid) c\<lparr> last_auth_flow := Some (now h) \<rparr>"]
    by (auto simp: on_fp_match_def e(2) replies_def touches_def approvals_def emit_def)
qed

section \<open>The invariant\<close>

definition answered :: "nat \<Rightarrow> coordinator \<Rightarrow> bool" where
  "answered ch c \<longleftrightarrow> (\<exists>b. Reply ch b \<in> set (replies c))"

definition channels :: "coordinator \<Rightarrow> nat list" where
  "channels c = map (\<lambda>e. case e of Reply ch _ \<Rightarrow> ch | _ \<Rightarrow> 0) (replies c)"

lemma answered_channels: "answered ch c \<longleftrightarrow> ch \<in> set (channels c)"
proof -
  have "(\<exists>b. Reply ch b \<in> set (filter (\<lambda>e. case e of Reply _ _ \<Rightarrow> True | _ \<Rightarrow> False) xs)) \<longleftrightarrow>
      ch \<in> set (map (\<lambda>e. case e of Reply ch _ \<Rightarrow> ch | _ \<Rightarrow> 0)
        (filter (\<lambda>e. case e of Reply _ _ \<Rightarrow> True | _ \<Rightarrow> False) xs))" for xs
  proof (induction xs)
    case (Cons x xs)
    then show ?case by (cases x) auto
  qed simp
  then show ?thesis by (simp only: answered_def channels_def replies_def)
qed

definition holds_slot :: "task \<Rightarrow> bool" where
  "holds_slot t \<longleftrightarrow> t \<noteq> Fresh \<and> (\<forall>r. t \<noteq> Served r)"

definition tasks_ok :: "daemon \<Rightarrow> bool" where
  "tasks_ok s \<longleftrightarrow> (case s of (c, tk) \<Rightarrow>
     (\<forall>ch. pending_pam c = Some ch \<longrightarrow> holds_slot (tk ch) \<and> \<not> answered ch c) \<and>
     (\<forall>ch fl sh. tk ch = Parked fl sh \<longrightarrow> pending_pam c = Some ch \<or> answered ch c) \<and>
     (\<forall>ch. tk ch = Fresh \<longrightarrow> \<not> answered ch c) \<and>
     distinct (channels c) \<and> approvals c \<le> touches c)"

lemma silent_simps:
  assumes "silent c c'"
  shows "answered ch c' \<longleftrightarrow> answered ch c" "channels c' = channels c" "approvals c' = approvals c" "touches c' = touches c"
  using assms by (simp_all add: silent_def answered_def channels_def)

lemma denied_simps:
  assumes "replies c' = replies c @ denied_holder c"
  shows "answered ch c' \<longleftrightarrow> answered ch c \<or> pending_pam c = Some ch"
    "channels c' = channels c @ (case pending_pam c of Some ch \<Rightarrow> [ch] | None \<Rightarrow> [])"
  using assms by (auto simp: answered_def channels_def denied_holder_def split: option.split)

lemma begun_ok:
  assumes "tasks_ok (c, tk)" "tk ch = Fresh" "silent c c'"
    and "case res of Ok _ \<Rightarrow> pending_pam c = None \<and> pending_pam c' = Some ch | Err _ \<Rightarrow> pending_pam c' = pending_pam c"
  shows "tasks_ok (begun fl ch (res, c') tk)"
proof -
  have "pending_pam c \<noteq> Some ch" using assms(1,2) by (auto simp: tasks_ok_def holds_slot_def)
  then show ?thesis
    using assms by (cases res) (auto simp: begun_def tasks_ok_def holds_slot_def silent_simps [OF assms(3)])
qed

lemma released_ok:
  assumes "tasks_ok (c, tk)" "pending_pam c' = None" "replies c' = replies c @ denied_holder c"
    and "touches c' = touches c" "approvals c' = approvals c" "tk ch \<noteq> Fresh"
  shows "tasks_ok (c', tk(ch := Served r))"
proof -
  note d = denied_simps [OF assms(3)]
  have "distinct (channels c')"
    using assms(1) by (auto simp: tasks_ok_def d(2) answered_channels split: option.split)
  moreover have "\<not> answered ch2 c'" if "ch2 \<noteq> ch" "tk ch2 = Fresh" for ch2
    using assms(1) that by (auto simp: tasks_ok_def d(1) holds_slot_def)
  moreover have "answered ch2 c'" if "tk ch2 = Parked fl sh" for ch2 fl sh
    using assms(1) that by (auto simp: tasks_ok_def d(1))
  ultimately show ?thesis
    using assms(1,2,4,5) by (auto simp: tasks_ok_def)
qed

lemma match_ok: "tasks_ok (c, tk) \<Longrightarrow> tasks_ok (on_fp_match h pid c, tk)"
proof -
  assume ok: "tasks_ok (c, tk)"
  show ?thesis
  proof (cases "pending_pam c")
    case (Some ch)
    then have m: "replies (on_fp_match h pid c) = replies c @ [Reply ch True]"
      "approvals (on_fp_match h pid c) = Suc (approvals c)" "touches (on_fp_match h pid c) = Suc (touches c)"
      "pending_pam (on_fp_match h pid c) = None"
      using match_slot [of h pid c] by simp_all
    have a: "answered q (on_fp_match h pid c) \<longleftrightarrow> answered q c \<or> q = ch" for q
      using m(1) by (auto simp: answered_def)
    have "distinct (channels (on_fp_match h pid c))"
      using ok Some m(1) by (auto simp: tasks_ok_def channels_def answered_channels)
    then show ?thesis
      using ok Some m by (auto simp: tasks_ok_def a holds_slot_def)
  next
    case None
    then have m: "replies (on_fp_match h pid c) = replies c"
      "approvals (on_fp_match h pid c) = approvals c" "touches (on_fp_match h pid c) = Suc (touches c)"
      "pending_pam (on_fp_match h pid c) = None"
      using match_slot [of h pid c] by simp_all
    then show ?thesis using ok None by (auto simp: tasks_ok_def answered_def channels_def)
  qed
qed

lemma step_ok:
  assumes "step h s l s'" "tasks_ok s"
  shows "tasks_ok s'"
  using assms
proof (cases rule: step.cases)
  case (auth tk ch c user svc)
  obtain res c' where b: "auth_begin h ch user svc c = (res, c')" by fastforce
  show ?thesis using auth assms(2) begun_ok [of c tk ch c' res] auth_begin_slot [OF b] b by auto
next
  case (agent tk ch c peer cmd)
  obtain res c' where b: "agent_begin h ch peer cmd c = (res, c')" by fastforce
  show ?thesis using agent assms(2) begun_ok [of c tk ch c' res] agent_begin_slot [OF b] b by auto
next
  case (read tk ch c c')
  have "silent c c'" "pending_pam c = None" "pending_pam c' = Some ch"
    using read by (auto simp: try_set_pending_pam_def silent_fields split: if_splits)
  then show ?thesis using read assms(2) by (auto simp: tasks_ok_def holds_slot_def silent_simps)
next
  case (busy tk ch c c')
  then have "c' = c" by (simp add: try_set_pending_pam_def split: if_splits)
  then show ?thesis using busy assms(2) by (auto simp: tasks_ok_def holds_slot_def)
next
  case (event tk ch fl showing e c)
  then show ?thesis using assms(2) by (auto simp: tasks_ok_def holds_slot_def)
next
  case (finish tk ch fl showing e c r c')
  then show ?thesis using assms(2) released_ok [of c tk c' ch r] finish_slot [of h fl showing e c r c'] by auto
next
  case (read_end tk ch c)
  then show ?thesis using assms(2) released_ok [of c tk "deny_pending_pam c" ch] by (simp add: deny_slot)
next
  case (match c tk pid)
  then show ?thesis using assms(2) match_ok by simp
qed

lemma run_ok: "run h (idle c0) tr s \<Longrightarrow> tasks_ok s"
proof (induction rule: run.induct)
  case none
  show ?case by (simp add: idle_def tasks_ok_def answered_def channels_def approvals_def touches_def replies_def)
qed (rule step_ok)

section \<open>Where an approval comes from\<close>

definition positive :: "response \<Rightarrow> bool" where
  "positive r \<longleftrightarrow> r = ROk ''AUTHENTICATED'' \<or> r = ROk ''APPROVED''"

definition origin :: "nat \<Rightarrow> label list \<Rightarrow> coordinator \<Rightarrow> bool" where
  "origin ch tr c \<longleftrightarrow> LEvent ch (BleResult (Ok True)) \<in> set tr \<or> Reply ch True \<in> set (replies c)"

definition traced :: "label list \<Rightarrow> daemon \<Rightarrow> bool" where
  "traced tr s \<longleftrightarrow> (case s of (c, tk) \<Rightarrow>
     (\<forall>ch fl sh e. tk ch = Decided fl sh e \<longrightarrow> LEvent ch e \<in> set tr \<and>
        (e = PendingResult (Some True) \<longrightarrow> Reply ch True \<in> set (replies c))) \<and>
     (\<forall>ch r. tk ch = Served r \<longrightarrow> positive r \<longrightarrow> origin ch tr c) \<and>
     touches c = length (filter (\<lambda>l. case l of LMatch _ \<Rightarrow> True | _ \<Rightarrow> False) tr))"

lemma begin_negative:
  shows "auth_begin h ch user svc c = (Err r, c') \<Longrightarrow> \<not> positive r"
    and "agent_begin h ch peer cmd c = (Err r, c') \<Longrightarrow> \<not> positive r"
proof -
  show "\<not> positive r" if "auth_begin h ch user svc c = (Err r, c')"
  proof (cases r)
    case (ROk m)
    then show ?thesis using that by (simp add: auth_begin_reply positive_def)
  qed (simp_all add: positive_def)
  show "\<not> positive r" if "agent_begin h ch peer cmd c = (Err r, c')"
    using that unfolding agent_begin_def Let_def
    by (simp add: positive_def split: if_splits prod.splits) (auto simp: positive_def)
qed

lemma finish_positive:
  assumes "flow_finish h fl sh e c = (r, c')" "positive r"
  shows "e = BleResult (Ok True) \<or> e = PendingResult (Some True)"
proof (cases fl)
  case AuthFlow
  then show ?thesis using assms auth_finish_ok [of sh e c] by (auto simp: flow_finish_def positive_def)
next
  case AgentFlow
  obtain b p c1 where a: "agent_result e c = (b, p, c1)" by (metis prod_cases3)
  have "b" using assms AgentFlow a by (cases b) (auto simp: flow_finish_def positive_def agent_finish_def Let_def split: if_splits)
  then show ?thesis using agent_result_true [of e c] a by simp
qed

lemma step_replies:
  assumes "step h s l s'"
  shows "set (replies (fst s)) \<subseteq> set (replies (fst s'))"
  using assms
proof (cases rule: step.cases)
  case (auth tk ch c user svc)
  obtain res c' where b: "auth_begin h ch user svc c = (res, c')" by fastforce
  show ?thesis using auth auth_begin_slot [OF b] b by (cases res) (auto simp: begun_def silent_def)
next
  case (agent tk ch c peer cmd)
  obtain res c' where b: "agent_begin h ch peer cmd c = (res, c')" by fastforce
  show ?thesis using agent agent_begin_slot [OF b] b by (cases res) (auto simp: begun_def silent_def)
next
  case (finish tk ch fl sh e c r c')
  then show ?thesis using finish_slot [of h fl sh e c r c'] by auto
next
  case (match c tk pid)
  then show ?thesis using match_slot [of h pid c] by (cases "pending_pam c") auto
next
  case (read_end tk ch c)
  then show ?thesis by (simp add: deny_slot)
qed (auto simp: try_set_pending_pam_def replies_def split: if_splits)

lemma origin_mono:
  "origin ch tr c \<Longrightarrow> set (replies c) \<subseteq> set (replies c') \<Longrightarrow> origin ch (tr @ [l]) c'"
  by (auto simp: origin_def)

lemma begun_traced:
  assumes "traced tr (c, tk)" "silent c c'" "\<And>r. res = Err r \<Longrightarrow> \<not> positive r" "\<forall>pid. l \<noteq> LMatch pid"
  shows "traced (tr @ [l]) (begun fl ch (res, c') tk)"
  using assms by (cases res) (auto simp: begun_def traced_def silent_def origin_def split: label.split)

lemma step_traced:
  assumes "step h s l s'" "traced tr s"
  shows "traced (tr @ [l]) s'"
  using assms(1)
proof (cases rule: step.cases)
  case (auth tk ch c user svc)
  obtain res c' where b: "auth_begin h ch user svc c = (res, c')" by fastforce
  have "traced (tr @ [l]) (begun AuthFlow ch (res, c') tk)"
    by (rule begun_traced [of _ c]) (use auth assms(2) auth_begin_slot [OF b] begin_negative(1) b in auto)
  then show ?thesis using auth b by simp
next
  case (agent tk ch c peer cmd)
  obtain res c' where b: "agent_begin h ch peer cmd c = (res, c')" by fastforce
  have "traced (tr @ [l]) (begun AgentFlow ch (res, c') tk)"
    by (rule begun_traced [of _ c]) (use agent assms(2) agent_begin_slot [OF b] begin_negative(2) b in auto)
  then show ?thesis using agent b by simp
next
  case (read tk ch c c')
  have "replies c' = replies c" "touches c' = touches c"
    using read by (auto simp: try_set_pending_pam_def replies_def touches_def split: if_splits)
  then show ?thesis using read assms(2) by (auto simp: traced_def origin_def)
next
  case (busy tk ch c c')
  then have "c' = c" by (simp add: try_set_pending_pam_def split: if_splits)
  then show ?thesis using busy assms(2) by (auto simp: traced_def origin_def positive_def)
next
  case (event tk ch fl sh e c)
  then show ?thesis
    using assms(2) by (auto simp: traced_def origin_def wait_event_def reply_in_replies)
next
  case (finish tk ch fl sh e c r c')
  have f: "touches c' = touches c" "set (replies c) \<subseteq> set (replies c')"
    using finish_slot [OF finish(5)] by auto
  have e: "LEvent ch e \<in> set tr" "e = PendingResult (Some True) \<Longrightarrow> Reply ch True \<in> set (replies c)"
    using assms(2) finish by (auto simp: traced_def)
  have "origin ch (tr @ [l]) c'" if "positive r"
    using finish_positive [OF finish(5) that] e f(2) by (auto simp: origin_def)
  then show ?thesis
    using finish assms(2) f origin_mono [OF _ f(2)] by (fastforce simp: traced_def)
next
  case (read_end tk ch c)
  have "set (replies c) \<subseteq> set (replies (deny_pending_pam c))" by (simp add: deny_slot)
  then show ?thesis
    using read_end assms(2) origin_mono by (fastforce simp: traced_def deny_slot positive_def)
next
  case (match c tk pid)
  have m: "touches (on_fp_match h pid c) = Suc (touches c)" "set (replies c) \<subseteq> set (replies (on_fp_match h pid c))"
    using match_slot [of h pid c] by (cases "pending_pam c"; auto)+
  then show ?thesis
    using match assms(2) origin_mono [OF _ m(2)] by (fastforce simp: traced_def)
qed

lemma run_traced: "run h (idle c0) tr s \<Longrightarrow> traced tr s"
proof (induction rule: run.induct)
  case none
  show ?case by (simp add: idle_def traced_def touches_def)
qed (rule step_traced)

lemma approvals_card: "finite {ch. Reply ch True \<in> set (replies c)} \<and>
  card {ch. Reply ch True \<in> set (replies c)} \<le> approvals c"
proof -
  have "finite {ch. Reply ch True \<in> set xs} \<and>
      card {ch. Reply ch True \<in> set xs} \<le> length (filter (\<lambda>e. case e of Reply _ True \<Rightarrow> True | _ \<Rightarrow> False) xs)" for xs
  proof (induction xs)
    case (Cons x xs)
    show ?case
    proof (cases "\<exists>q. x = Reply q True")
      case True
      then obtain q where x: "x = Reply q True" by blast
      have "{ch. Reply ch True \<in> set (x # xs)} = insert q {ch. Reply ch True \<in> set xs}" using x by auto
      then show ?thesis using Cons x card_insert_le_m1 by (simp add: card_insert_if)
    next
      case False
      then have "{ch. Reply ch True \<in> set (x # xs)} = {ch. Reply ch True \<in> set xs}" by auto
      then show ?thesis using Cons by simp
    qed
  qed simp
  then show ?thesis by (simp add: approvals_def reply_in_replies [symmetric])
qed

section \<open>Properties\<close>

text \<open>
  C2: the pending slot is never leaked and never orphans a request. However the requests interleave,
  the slot belongs to a task that has not been served; a request that is waiting either owns the slot
  or already has its answer in its channel; and no channel is answered twice.
\<close>

theorem slot_ownership:
  assumes "run h (idle c0) tr (c, tk)"
  shows "(\<forall>ch. pending_pam c = Some ch \<longrightarrow> tk ch \<noteq> Fresh \<and> (\<forall>r. tk ch \<noteq> Served r)) \<and>
    (\<forall>ch fl sh. tk ch = Parked fl sh \<longrightarrow> pending_pam c = Some ch \<or> (\<exists>b. Reply ch b \<in> set (effects c))) \<and>
    distinct (channels c)"
  using run_ok [OF assms] by (auto simp: tasks_ok_def holds_slot_def answered_def reply_in_replies)

text \<open>
  C1: one touch approves one waiting request. In every run, the logins answered AUTHENTICATED and the agent
  requests answered APPROVED without a positive answer of the device to their own AUTH_REQUEST are at most
  as many as the fingerprint matches, over all interleavings of logins, agent approvals and key reads. A
  login that is answered PRE_AUTH never waits and is not counted: the window of \<open>consume_pre_auth\<close> serves
  any number of them until it ends.
\<close>

theorem one_touch_one_approval:
  assumes "run h (idle c0) tr (c, tk)"
  shows "card {ch. (tk ch = Served (ROk ''AUTHENTICATED'') \<or> tk ch = Served (ROk ''APPROVED'')) \<and>
      LEvent ch (BleResult (Ok True)) \<notin> set tr}
    \<le> length (filter (\<lambda>l. case l of LMatch _ \<Rightarrow> True | _ \<Rightarrow> False) tr)"
proof -
  have t: "traced tr (c, tk)" using run_traced [OF assms] .
  have "{ch. (tk ch = Served (ROk ''AUTHENTICATED'') \<or> tk ch = Served (ROk ''APPROVED'')) \<and>
      LEvent ch (BleResult (Ok True)) \<notin> set tr} \<subseteq> {ch. Reply ch True \<in> set (replies c)}"
    using t by (auto simp: traced_def origin_def positive_def)
  then have "card {ch. (tk ch = Served (ROk ''AUTHENTICATED'') \<or> tk ch = Served (ROk ''APPROVED'')) \<and>
      LEvent ch (BleResult (Ok True)) \<notin> set tr} \<le> card {ch. Reply ch True \<in> set (replies c)}"
    using approvals_card by (intro card_mono) auto
  also have "\<dots> \<le> approvals c" using approvals_card by blast
  also have "\<dots> \<le> touches c" using run_ok [OF assms] by (simp add: tasks_ok_def)
  finally show ?thesis using t by (simp add: traced_def)
qed

lemma answered_steps:
  assumes "Reply ch True \<in> set (replies c)" "tk ch = Parked AuthFlow sh"
  shows "\<exists>c' tk'. run h (c, tk) [LEvent ch (PendingResult (Some True)), LFinish ch] (c', tk') \<and>
    tk' ch = Served (ROk ''AUTHENTICATED'')"
proof -
  let ?e = "PendingResult (Some True)"
  have ev: "step h (c, tk) (LEvent ch ?e) (c, tk(ch := Decided AuthFlow sh ?e))"
    using assms by (intro step.event) (simp_all add: wait_event_def reply_in_replies)
  obtain r c' where f: "auth_finish sh ?e c = (r, c')" by fastforce
  then have r: "r = ROk ''AUTHENTICATED''" using auth_finish_ok [of sh ?e c "''AUTHENTICATED''"] by simp
  have "step h (c, tk(ch := Decided AuthFlow sh ?e)) (LFinish ch) (c', tk(ch := Decided AuthFlow sh ?e, ch := Served r))"
    by (rule step.finish [where fl = AuthFlow and showing = sh and e = ?e]) (simp_all add: flow_finish_def f)
  from run.more [OF run.more [OF run.none ev] this] show ?thesis
    using r by (intro exI) (auto intro: exI)
qed

lemma run_append: "run h t tr2 u \<Longrightarrow> run h s tr1 t \<Longrightarrow> run h s (tr1 @ tr2) u"
  by (induction rule: run.induct) (simp_all add: run.more flip: append_assoc)

lemma parked_match_steps:
  assumes "pending_pam c = Some ch" "tk ch = Parked AuthFlow sh"
  shows "\<exists>c' tk'. run h (c, tk) [LMatch pid, LEvent ch (PendingResult (Some True)), LFinish ch] (c', tk') \<and>
    tk' ch = Served (ROk ''AUTHENTICATED'')"
proof -
  have "Reply ch True \<in> set (replies (on_fp_match h pid c))" using match_slot [of h pid c] assms(1) by simp
  from answered_steps [where tk = tk, OF this assms(2)] obtain c' tk' where
    "run h (on_fp_match h pid c, tk) [LEvent ch (PendingResult (Some True)), LFinish ch] (c', tk')"
    "tk' ch = Served (ROk ''AUTHENTICATED'')" by blast
  moreover have "run h (c, tk) [LMatch pid] (on_fp_match h pid c, tk)" using run.more [OF run.none step.match] by simp
  ultimately show ?thesis using run_append by fastforce
qed

lemma one_reply:
  assumes "distinct (channels c)" "Reply ch a \<in> set (replies c)" "Reply ch b \<in> set (replies c)"
  shows "a = b"
proof -
  have "inj_on (\<lambda>e. case e of Reply ch _ \<Rightarrow> ch | _ \<Rightarrow> 0) (set (replies c))"
    using assms(1) by (simp add: channels_def distinct_map)
  then have "Reply ch a = Reply ch b" using assms(2,3) by (elim inj_onD) simp_all
  then show ?thesis by simp
qed

lemma run_replies: "run h s tr t \<Longrightarrow> set (replies (fst s)) \<subseteq> set (replies (fst t))"
proof (induction rule: run.induct)
  case (more tr t l u)
  then show ?case using step_replies [OF more.hyps(2)] by blast
qed simp

lemma run_ok_from: "run h s tr t \<Longrightarrow> tasks_ok s \<Longrightarrow> tasks_ok t"
  by (induction rule: run.induct) (simp_all add: step_ok)

text \<open>
  C3: a touch is never lost on a waiting login. In every reachable state in which a login waits and has not
  been answered, let the finger match, and then let the other tasks do anything. As long as the login still
  waits, the only answer its channel can give is approval, and two steps of its own (taking the answer,
  ending the request) answer it AUTHENTICATED.
\<close>

theorem touch_reaches_waiting_login:
  assumes "run h (idle c0) tr (c, tk)" "tk ch = Parked AuthFlow sh" "\<forall>b. Reply ch b \<notin> set (effects c)"
    and "run h (on_fp_match h pid c, tk) others (c1, tk1)" "tk1 ch = Parked AuthFlow sh"
  shows "(\<forall>b. wait_event AuthFlow sh ch (PendingResult (Some b)) c1 \<longrightarrow> b) \<and>
    (\<exists>c2 tk2. run h (c1, tk1) [LEvent ch (PendingResult (Some True)), LFinish ch] (c2, tk2) \<and>
      tk2 ch = Served (ROk ''AUTHENTICATED''))"
proof -
  have "pending_pam c = Some ch"
    using run_ok [OF assms(1)] assms(2,3) unfolding tasks_ok_def answered_def reply_in_replies by blast
  then have "Reply ch True \<in> set (replies (on_fp_match h pid c))" using match_slot [of h pid c] by simp
  then have r: "Reply ch True \<in> set (replies c1)" using run_replies [OF assms(4)] by auto
  have "tasks_ok (c1, tk1)" using run_ok_from [OF assms(4) match_ok [OF run_ok [OF assms(1)]]] .
  then have "distinct (channels c1)" by (simp add: tasks_ok_def)
  then have only: "\<forall>b. wait_event AuthFlow sh ch (PendingResult (Some b)) c1 \<longrightarrow> b"
    using one_reply [OF _ r] by (auto simp: wait_event_def reply_in_replies)
  show ?thesis using only answered_steps [where tk = tk1, OF r assms(5)] by blast
qed

text \<open>
  C4: the end of one request can deny another. A request approved through its channel no longer owns
  the slot; when it takes the lock again to clear the slot, the request that claimed it meanwhile is
  sent a denial, and is answered FP_DENIED though no finger, device or user refused it.
\<close>

theorem finish_denies_stranger:
  assumes "tk a = Decided fl sh e" "pending_pam c = Some b" "tk b = Parked AuthFlow sh'" "a \<noteq> b"
    and "step h (c, tk) (LFinish a) (c1, tk1)"
  shows "\<exists>c2 tk2. run h (c1, tk1) [LEvent b (PendingResult (Some False)), LFinish b] (c2, tk2) \<and>
    tk2 b = Served (RDeny ''FP_DENIED'')"
proof -
  let ?e = "PendingResult (Some False)"
  obtain r where f: "flow_finish h fl sh e c = (r, c1)" and tk1: "tk1 = tk(a := Served r)"
    using assms(1,5) by (auto elim: step_cases)
  have "Reply b False \<in> set (effects c1)"
    using finish_slot [OF f] assms(2) by (simp add: reply_in_replies denied_holder_def)
  then have ev: "step h (c1, tk1) (LEvent b ?e) (c1, tk1(b := Decided AuthFlow sh' ?e))"
    using assms(3,4) tk1 by (intro step.event) (simp_all add: wait_event_def)
  obtain c2 where g: "auth_finish sh' ?e c1 = (RDeny ''FP_DENIED'', c2)"
    by (auto simp: auth_finish_def auth_result_def Let_def)
  have "step h (c1, tk1(b := Decided AuthFlow sh' ?e)) (LFinish b)
      (c2, tk1(b := Decided AuthFlow sh' ?e, b := Served (RDeny ''FP_DENIED'')))"
    by (rule step.finish [where fl = AuthFlow and showing = sh' and e = ?e]) (simp_all add: flow_finish_def g)
  from run.more [OF run.more [OF run.none ev] this]
  have "run h (c1, tk1) [LEvent b ?e, LFinish b] (c2, tk1(b := Served (RDeny ''FP_DENIED'')))" by simp
  then show ?thesis by (rule_tac x = c2 in exI) (rule exI, erule conjI, simp)
qed

section \<open>Concrete runs\<close>

definition sample_c :: "coord_effect list \<Rightarrow> instant option \<Rightarrow> nat option \<Rightarrow> coordinator" where
  "sample_c es t p = ready_coordinator\<lparr> effects := es, last_auth_flow := t, pending_pam := p \<rparr>"

lemma sample_begin:
  "auth_begin sample_host ch ''alice'' ''sudo'' (sample_c es t None) = (Ok False, sample_c es t (Some ch))"
  by (simp add: auth_begin_def uid_of_user_def is_service_allowed_def is_graphical_def sample_c_def
      consume_pre_auth_def ready_coordinator_def coordinator_new_def default_settings_def try_set_pending_pam_def)

lemma sample_idle: "idle ready_coordinator = (sample_c [] None None, \<lambda>_. Fresh)"
  by (simp add: idle_def sample_c_def ready_coordinator_def coordinator_new_def)

lemma sample_match:
  "on_fp_match sample_host 3 (sample_c es t (Some ch)) = sample_c (es @ [FpMatch 3, Reply ch True]) (Some 0) None"
  by (simp add: on_fp_match_def sample_c_def ready_coordinator_def coordinator_new_def emit_def Let_def
      approve_pending_pam_def)

lemma sample_auth:
  "tk ch = Fresh \<Longrightarrow> step sample_host (sample_c es t None, tk) (LAuth ch ''alice'' ''sudo'')
     (sample_c es t (Some ch), tk(ch := Parked AuthFlow False))"
  using step.auth [of tk ch sample_host "sample_c es t None" "''alice''" "''sudo''"]
  by (simp add: sample_begin begun_def)

abbreviation first_login :: "nat \<Rightarrow> task" where
  "first_login \<equiv> (\<lambda>_. Fresh)(1 := Parked AuthFlow False)"

lemma sample_run1: "run sample_host (idle ready_coordinator) [LAuth 1 ''alice'' ''sudo''] (sample_c [] None (Some 1), first_login)"
  using run.more [OF run.none sample_auth [of "\<lambda>_. Fresh" 1 "[]" None]] by (simp add: sample_idle)

abbreviation two_logins :: "nat \<Rightarrow> task" where
  "two_logins \<equiv> first_login(1 := Decided AuthFlow False (PendingResult (Some True)), 2 := Parked AuthFlow False)"

lemma sample_run2:
  "run sample_host (idle ready_coordinator)
     [LAuth 1 ''alice'' ''sudo'', LMatch 3, LEvent 1 (PendingResult (Some True)), LAuth 2 ''alice'' ''sudo'']
     (sample_c [FpMatch 3, Reply 1 True] (Some 0) (Some 2), two_logins)"
proof -
  let ?c = "sample_c [FpMatch 3, Reply 1 True] (Some 0) None"
  have m: "step sample_host (sample_c [] None (Some 1), first_login) (LMatch 3) (?c, first_login)"
    using step.match [of sample_host "sample_c [] None (Some 1)" first_login 3] by (simp add: sample_match)
  have "Reply 1 True \<in> set (effects ?c)" by (simp add: sample_c_def)
  then have e: "step sample_host (?c, first_login) (LEvent 1 (PendingResult (Some True)))
      (?c, first_login(1 := Decided AuthFlow False (PendingResult (Some True))))"
    by (intro step.event) (simp_all add: wait_event_def)
  from run.more [OF run.more [OF run.more [OF sample_run1 m] e] sample_auth] show ?thesis by simp
qed

theorem slot_ownership_witness:
  "two_logins 2 = Parked AuthFlow False \<and> distinct (channels (sample_c [FpMatch 3, Reply 1 True] (Some 0) (Some 2)))"
  using slot_ownership [OF sample_run2] by simp

theorem one_touch_one_approval_witness:
  "\<exists>tr c tk. run sample_host (idle ready_coordinator) tr (c, tk) \<and> tk 1 = Served (ROk ''AUTHENTICATED'') \<and>
    card {ch. (tk ch = Served (ROk ''AUTHENTICATED'') \<or> tk ch = Served (ROk ''APPROVED'')) \<and>
      LEvent ch (BleResult (Ok True)) \<notin> set tr} \<le> 1"
proof -
  obtain c tk where "run sample_host (sample_c [] None (Some 1), first_login)
      [LMatch 3, LEvent 1 (PendingResult (Some True)), LFinish 1] (c, tk)" "tk 1 = Served (ROk ''AUTHENTICATED'')"
    using parked_match_steps [of "sample_c [] None (Some 1)" 1 first_login False sample_host 3]
    by (auto simp: sample_c_def)
  then show ?thesis
    using run_append [OF _ sample_run1] one_touch_one_approval [OF run_append [OF _ sample_run1]]
    by (intro exI [of _ "[LAuth 1 ''alice'' ''sudo'', LMatch 3, LEvent 1 (PendingResult (Some True)), LFinish 1]"]
        exI [of _ c] exI [of _ tk]) fastforce
qed

theorem touch_reaches_waiting_login_witness:
  "\<exists>c' tk'. run sample_host (sample_c [FpMatch 3, Reply 1 True] (Some 0) (Some 2), first_login(2 := Parked AuthFlow False))
      [LEvent 1 (PendingResult (Some True)), LFinish 1] (c', tk') \<and> tk' 1 = Served (ROk ''AUTHENTICATED'')"
proof -
  have m: "on_fp_match sample_host 3 (sample_c [] None (Some 1)) = sample_c [FpMatch 3, Reply 1 True] (Some 0) None"
    using sample_match [where es = "[]" and t = None and ch = 1] by simp
  have "run sample_host (on_fp_match sample_host 3 (sample_c [] None (Some 1)), first_login) [LAuth 2 ''alice'' ''sudo'']
      (sample_c [FpMatch 3, Reply 1 True] (Some 0) (Some 2), first_login(2 := Parked AuthFlow False))"
    unfolding m using run.more [OF run.none sample_auth [of first_login 2]] by simp
  from touch_reaches_waiting_login [OF sample_run1 _ _ this, of 1 False] show ?thesis
    by (simp add: sample_c_def)
qed

text \<open>The whole run: the second login ends denied, and no event of its own was a refusal.\<close>

theorem finish_denies_stranger_witness:
  "\<exists>tr c tk. run sample_host (idle ready_coordinator) tr (c, tk) \<and> tk 2 = Served (RDeny ''FP_DENIED'') \<and>
    (\<forall>e. LEvent 2 e \<in> set tr \<longrightarrow> e = PendingResult (Some False))"
proof -
  let ?c = "sample_c [FpMatch 3, Reply 1 True] (Some 0) (Some 2)"
  obtain r c1 where f: "flow_finish sample_host AuthFlow False (PendingResult (Some True)) ?c = (r, c1)" by fastforce
  have st: "step sample_host (?c, two_logins) (LFinish 1) (c1, two_logins(1 := Served r))"
    by (rule step.finish [OF _ f]) simp
  obtain c2 tk2 where d: "run sample_host (c1, two_logins(1 := Served r))
      [LEvent 2 (PendingResult (Some False)), LFinish 2] (c2, tk2)" "tk2 2 = Served (RDeny ''FP_DENIED'')"
    using finish_denies_stranger [OF _ _ _ _ st, of AuthFlow False "PendingResult (Some True)" 2 False]
    by (auto simp: sample_c_def)
  show ?thesis
    using run_append [OF d(1) run.more [OF sample_run2 st]] d(2)
    by (intro exI [of _ "[LAuth 1 ''alice'' ''sudo'', LMatch 3, LEvent 1 (PendingResult (Some True)),
        LAuth 2 ''alice'' ''sudo'', LFinish 1, LEvent 2 (PendingResult (Some False)), LFinish 2]"]
        exI [of _ c2] exI [of _ tk2]) simp
qed

end
