(* ===== verification/Client_Parse.thy ===== *)
theory Client_Parse
  imports Socket_Device Utf8
begin

text \<open>
  The client library's reading of the daemon's answers (\<open>immurok-client/src/status.rs\<close>,
  \<open>fingerprint.rs\<close>, \<open>hosts.rs\<close>): status, settings, fingerprint bitmap, enrollment status, host
  slots and pairing progress, with the round trips from the daemon's handlers to the client's data.
\<close>

section \<open>Status and settings\<close>

record client_device_status =
  cds_connected :: bool
  cds_name :: string
  cds_battery :: byte
  cds_fw_version :: string
  cds_device_unpaired :: bool

definition parse_status_line :: "string \<Rightarrow> client_device_status option" where
  "parse_status_line line =
     (let parts = split_on CHR '':'' (trim line) in
      if get_at parts 0 \<noteq> Some ''STATUS'' \<or> length parts < 5 then None
      else Some \<lparr> cds_connected = (parts ! 1 = ''1''), cds_name = parts ! 2,
                  cds_battery = unwrap_or 0 (ok (parse_u8 (parts ! 3))), cds_fw_version = parts ! 4,
                  cds_device_unpaired = (get_at parts 5 = Some ''1'') \<rparr>)"

text \<open>The \<open>reply\<close> of the queries is the daemon's answer or the failure of the connection.\<close>

definition query_status :: "(string, string) result \<Rightarrow> (client_device_status, string) result" where
  "query_status reply =
     and_then reply (\<lambda>rsp. ok_or (''unexpected STATUS reply: '' @ rsp) (parse_status_line rsp))"

definition query_paired :: "(string, string) result \<Rightarrow> (bool, string) result" where
  "query_paired reply = and_then reply (\<lambda>rsp. Ok (get_at (split_on CHR '':'' rsp) 1 = Some ''PAIRED''))"

record client_settings =
  cst_unlock_sudo :: bool
  cst_unlock_polkit :: bool
  cst_unlock_screen :: bool
  cst_lock_screen :: bool
  cst_ssh_takeover :: bool

definition default_client_settings :: client_settings where
  "default_client_settings = \<lparr> cst_unlock_sudo = False, cst_unlock_polkit = False,
     cst_unlock_screen = False, cst_lock_screen = False, cst_ssh_takeover = False \<rparr>"

definition settings_field :: "string \<Rightarrow> client_settings \<Rightarrow> client_settings" where
  "settings_field part s = (case split_once CHR ''='' part of
     None \<Rightarrow> s
   | Some (k, v) \<Rightarrow>
       (let flag = (v = ''1'') in
        if k = ''sudo'' then s\<lparr> cst_unlock_sudo := flag \<rparr>
        else if k = ''polkit'' then s\<lparr> cst_unlock_polkit := flag \<rparr>
        else if k = ''screen'' then s\<lparr> cst_unlock_screen := flag \<rparr>
        else if k = ''lock'' then s\<lparr> cst_lock_screen := flag \<rparr>
        else if k = ''ssh'' then s\<lparr> cst_ssh_takeover := flag \<rparr>
        else s))"

definition parse_settings_line :: "string \<Rightarrow> client_settings option" where
  "parse_settings_line line = (case split_on CHR '':'' (trim line) of
     [] \<Rightarrow> None
   | p # parts \<Rightarrow> if p \<noteq> ''OK'' then None else Some (fold settings_field parts default_client_settings))"

definition query_settings :: "(string, string) result \<Rightarrow> (client_settings, string) result" where
  "query_settings reply =
     and_then reply (\<lambda>rsp. ok_or (''unexpected GET:SETTINGS reply: '' @ rsp) (parse_settings_line rsp))"

datatype setting_key = UnlockSudo | UnlockPolkit | UnlockScreen | LockScreen | SshTakeover

definition setting_wire :: "setting_key \<Rightarrow> string" where
  "setting_wire k = (case k of
     UnlockSudo \<Rightarrow> ''UNLOCK_SUDO'' | UnlockPolkit \<Rightarrow> ''UNLOCK_POLKIT''
   | UnlockScreen \<Rightarrow> ''UNLOCK_SCREEN'' | LockScreen \<Rightarrow> ''LOCK_SCREEN''
   | SshTakeover \<Rightarrow> ''SSH_TAKEOVER'')"

definition set_setting_cmd :: "setting_key \<Rightarrow> bool \<Rightarrow> string" where
  "set_setting_cmd k flag = ''SET:'' @ setting_wire k @ '':'' @ flag01 flag"

definition set_setting :: "(string, string) result \<Rightarrow> (unit, string) result" where
  "set_setting reply = and_then reply (\<lambda>rsp. if starts_with ''OK'' rsp then Ok () else Err rsp)"

section \<open>Fingerprint slots\<close>

abbreviation SWITCH_SLOT :: byte where "SWITCH_SLOT \<equiv> SWITCH_FINGER_SLOT"
abbreviation AUTH_SLOTS :: byte where "AUTH_SLOTS \<equiv> MAX_FINGERPRINT_SLOTS"

text \<open>\<open>FpSlots\<close> holds only the bitmap, so the type is a byte here.\<close>

type_synonym fp_slots = byte

definition is_enrolled :: "fp_slots \<Rightarrow> byte \<Rightarrow> bool" where
  "is_enrolled b slot \<longleftrightarrow> slot < TOTAL_FINGERPRINT_SLOTS \<and> b AND push_bit (unat slot) 1 \<noteq> 0"

definition auth_slots :: "fp_slots \<Rightarrow> byte list" where
  "auth_slots b = filter (is_enrolled b) (u8_range AUTH_SLOTS)"

definition auth_count :: "fp_slots \<Rightarrow> nat" where
  "auth_count b = length (auth_slots b)"

definition first_free_auth_slot :: "fp_slots \<Rightarrow> byte option" where
  "first_free_auth_slot b = List.find (\<lambda>s. \<not> is_enrolled b s) (u8_range AUTH_SLOTS)"

definition switch_enrolled :: "fp_slots \<Rightarrow> bool" where
  "switch_enrolled b \<longleftrightarrow> is_enrolled b SWITCH_SLOT"

definition any_finger :: "fp_slots \<Rightarrow> bool" where
  "any_finger b \<longleftrightarrow> b AND (push_bit (unat TOTAL_FINGERPRINT_SLOTS) 1 - 1) \<noteq> 0"

definition parse_fp_list :: "string \<Rightarrow> fp_slots option" where
  "parse_fp_list line = Option.bind (strip_prefix ''OK:'' (trim line)) (\<lambda>s. ok (parse_u8 s))"

datatype enroll_status =
    SIdle | SWaiting byte byte | SCaptured byte byte | SProcessing | SLiftFinger | SOverlap
  | SComplete | SFailed

definition parse_fp_status :: "string \<Rightarrow> enroll_status option" where
  "parse_fp_status line =
     (let parts = split_on CHR '':'' (trim line) in
      if get_at parts 0 \<noteq> Some ''OK'' then None
      else Option.bind (get_at parts 1) (\<lambda>snd_part.
        if snd_part = ''IDLE'' then Some SIdle
        else Option.bind (ok (parse_u8 snd_part)) (\<lambda>status.
          let current = unwrap_or 0 (Option.bind (get_at parts 2) (\<lambda>v. ok (parse_u8 v)));
              tot = unwrap_or 6 (Option.bind (get_at parts 3) (\<lambda>v. ok (parse_u8 v)))
          in Some (if status = ENROLL_WAITING then SWaiting current tot
                   else if status = ENROLL_CAPTURED then SCaptured current tot
                   else if status = ENROLL_PROCESSING then SProcessing
                   else if status = ENROLL_LIFT_FINGER then SLiftFinger
                   else if status = ENROLL_OVERLAP then SOverlap
                   else if status = ENROLL_COMPLETE then SComplete
                   else SFailed))))"

definition fp_list :: "(string, string) result \<Rightarrow> (fp_slots, string) result" where
  "fp_list reply = and_then reply (\<lambda>rsp. ok_or rsp (parse_fp_list rsp))"

definition fp_status :: "(string, string) result \<Rightarrow> (enroll_status, string) result" where
  "fp_status reply =
     and_then reply (\<lambda>rsp. ok_or (''unexpected FP:STATUS reply: '' @ rsp) (parse_fp_status rsp))"

definition enroll_start :: "(string, string) result \<Rightarrow> (unit, string) result" where
  "enroll_start reply = and_then reply (\<lambda>rsp. if rsp = ''OK:ENROLL_STARTED'' then Ok () else Err rsp)"

definition fp_delete :: "(string, string) result \<Rightarrow> (unit, string) result" where
  "fp_delete reply = and_then reply (\<lambda>rsp. if starts_with ''OK'' rsp then Ok () else Err rsp)"

definition fp_verify :: "(string, string) result \<Rightarrow> (bool, string) result" where
  "fp_verify reply = and_then reply (\<lambda>rsp.
     if rsp = ''OK:MATCH'' then Ok True else if rsp = ''OK:NO_MATCH'' then Ok False else Err rsp)"

section \<open>Host slots and pairing\<close>

record host_slots =
  hs_supported :: bool
  slot1 :: bool
  slot2 :: bool
  hs_active :: byte
  hs_mine :: "byte option"

definition default_host_slots :: host_slots where
  "default_host_slots = \<lparr> hs_supported = False, slot1 = False, slot2 = False, hs_active = 0, hs_mine = None \<rparr>"

definition slot_bound :: "host_slots \<Rightarrow> byte \<Rightarrow> bool" where
  "slot_bound h n = (if n = 1 then slot1 h else if n = 2 then slot2 h else False)"

definition both_bound :: "host_slots \<Rightarrow> bool" where
  "both_bound h \<longleftrightarrow> slot1 h \<and> slot2 h"

definition other_of :: "byte \<Rightarrow> byte" where
  "other_of n = (if n = 1 then 2 else 1)"

definition parse_host_slots :: "string \<Rightarrow> host_slots option" where
  "parse_host_slots line = map_option (\<lambda>st. case st of
       Unsupported \<Rightarrow> default_host_slots\<lparr> hs_supported := False \<rparr>
     | Supported bitmap active \<Rightarrow> \<lparr> hs_supported = True, slot1 = (bitmap AND 1 \<noteq> 0),
         slot2 = (bitmap AND 2 \<noteq> 0), hs_active = active, hs_mine = parse_slot_owner line \<rparr>)
     (parse_slot_status_line line)"

definition slot_status_query :: "(string, string) result \<Rightarrow> (host_slots, string) result" where
  "slot_status_query reply =
     and_then reply (\<lambda>rsp. ok_or (''unexpected SLOT:STATUS reply: '' @ rsp) (parse_host_slots rsp))"

definition ok_if_ok :: "string \<Rightarrow> (unit, string) result" where
  "ok_if_ok rsp = (if starts_with ''OK'' rsp then Ok () else Err rsp)"

definition pair_start_reply :: "(string, string) result \<Rightarrow> (unit, string) result" where
  "pair_start_reply reply = and_then reply (\<lambda>rsp. if rsp = ''OK:PAIRED'' then Ok () else Err rsp)"

definition parse_pair_progress :: "string \<Rightarrow> pair_progress option" where
  "parse_pair_progress line = Option.bind (strip_prefix ''OK:'' (trim line)) progress_from_wire"

section \<open>Lines of the daemon\<close>

text \<open>A line that starts and ends with a graphic character is untouched by the client's trimming.\<close>

lemma trim_ok_line: "s \<noteq> [] \<Longrightarrow> graphic (last s) \<Longrightarrow> trim (''OK:'' @ s) = ''OK:'' @ s"
  by (rule trim_graphic) (simp_all add: graphic_def)

lemma show_nat_not_word: "w \<noteq> [] \<Longrightarrow> \<not> is_digit (hd w) \<Longrightarrow> show_nat n \<noteq> w"
  using show_nat_digits [of "hd w" n] by (metis list.set_sel(1))

lemma progress_as_wire_graphic: "progress_as_wire p \<noteq> [] \<and> graphic (last (progress_as_wire p))"
  by (simp add: progress_as_wire_def graphic_def split: pair_progress.split)

lemma parse_pair_progress_reply [simp]:
  "parse_pair_progress (serialize_response (handle_pair_progress c)) = Some (pair_progress c)"
  using trim_ok_line [of "progress_as_wire (pair_progress c)"] progress_as_wire_graphic [of "pair_progress c"]
  by (simp add: parse_pair_progress_def serialize_response_def handle_pair_progress_def
      progress_codec.dec_enc)

lemma parse_fp_list_reply: "parse_fp_list (serialize_response (ROk (show_word b))) = Some b"
  using trim_ok_line [of "show_word b"] show_nat_last_graphic [of "unat b"]
  by (simp add: parse_fp_list_def serialize_response_def)

text \<open>The lines a client receives from the daemon, trimmed.\<close>

definition shown_line :: "response \<Rightarrow> (string, string) result" where
  "shown_line r = Ok (trim (serialize_response r))"

section \<open>The settings of the daemon, seen by the client\<close>

definition settings_view :: "settings \<Rightarrow> client_settings" where
  "settings_view s = \<lparr> cst_unlock_sudo = unlock_sudo s, cst_unlock_polkit = unlock_polkit s,
     cst_unlock_screen = unlock_screen s, cst_lock_screen = lock_screen s,
     cst_ssh_takeover = ssh_takeover s \<rparr>"

definition with_setting :: "setting_key \<Rightarrow> bool \<Rightarrow> client_settings \<Rightarrow> client_settings" where
  "with_setting k b s = (case k of
     UnlockSudo \<Rightarrow> s\<lparr> cst_unlock_sudo := b \<rparr> | UnlockPolkit \<Rightarrow> s\<lparr> cst_unlock_polkit := b \<rparr>
   | UnlockScreen \<Rightarrow> s\<lparr> cst_unlock_screen := b \<rparr> | LockScreen \<Rightarrow> s\<lparr> cst_lock_screen := b \<rparr>
   | SshTakeover \<Rightarrow> s\<lparr> cst_ssh_takeover := b \<rparr>)"

definition setting_request :: "setting_key \<Rightarrow> bool \<Rightarrow> request" where
  "setting_request k b = (case k of
     UnlockSudo \<Rightarrow> SetUnlockSudo b | UnlockPolkit \<Rightarrow> SetUnlockPolkit b
   | UnlockScreen \<Rightarrow> SetUnlockScreen b | LockScreen \<Rightarrow> SetLockScreen b
   | SshTakeover \<Rightarrow> SetSshTakeover b)"

definition setting_parts :: "settings \<Rightarrow> string list" where
  "setting_parts s = [''OK'', ''sudo='' @ flag01 (unlock_sudo s), ''polkit='' @ flag01 (unlock_polkit s),
     ''screen='' @ flag01 (unlock_screen s), ''lock='' @ flag01 (lock_screen s),
     ''ssh='' @ flag01 (ssh_takeover s)]"

lemma flag01_simps [simp]: "flag01 b = ''1'' \<longleftrightarrow> b" "CHR '':'' \<notin> set (flag01 b)" "flag01 b \<noteq> []"
  by (simp_all add: flag01_def)

lemma settings_line_parts:
  "split_on CHR '':'' (trim (serialize_response (handle_get_settings c))) = setting_parts (settings c)"
proof -
  let ?ps = "setting_parts (settings c)"
  have j: "serialize_response (handle_get_settings c) = join '':'' ?ps"
    by (simp add: serialize_response_def handle_get_settings_def setting_parts_def Let_def join_Cons)
  have w: "wf_parts ?ps"
    by (simp add: setting_parts_def inner_field_def) (simp add: flag01_def graphic_def last_field_def)
  have "trim (join '':'' ?ps) = join '':'' ?ps"
    by (rule trim_join) (use wf_parts_shape [OF w] in \<open>simp_all add: setting_parts_def graphic_def\<close>)
  moreover have "split_on CHR '':'' (join '':'' ?ps) = ?ps"
    using wf_parts_shape [OF w] by (intro split_on_join) simp_all
  ultimately show ?thesis unfolding j by simp
qed

lemma settings_read: "parse_settings_line (serialize_response (handle_get_settings c)) =
    Some (settings_view (settings c))"
  by (simp add: parse_settings_line_def settings_line_parts setting_parts_def settings_field_def
      settings_view_def default_client_settings_def)

lemma set_setting_line: "set_setting_cmd k b = request_line hexe (setting_request k b)"
  by (simp add: set_setting_cmd_def setting_wire_def request_line_def setting_request_def
      request_parts_def join_Cons split: setting_key.split)

lemma parse_set_setting: "parse_request hexd (set_setting_cmd k b) = Ok (setting_request k b)"
proof -
  let ?hexe = "\<lambda>_ :: bytes. ([] :: string)"
  have w: "wf_request ?hexe (setting_request k b)"
    by (simp add: setting_request_def wf_request_def split: setting_key.split)
  have d: "setting_request k b \<noteq> OtaData d" for d by (cases k) (simp_all add: setting_request_def)
  show ?thesis
    using parse_command_parts [OF w, of hexd] d trim_request_line_not_Nil [OF w]
    by (simp add: set_setting_line [where hexe = ?hexe] parse_request_def splitn_request_line [OF w])
qed

lemma push_ssh_keeps_settings [simp]: "settings (push_ssh_takeover c) = settings c"
  by (auto simp: push_ssh_takeover_def push_ui_def emit_def split: option.split)

lemma set_reply_ok: "set_setting (Ok (serialize_response (ROk m))) = Ok ()"
    "set_setting (Ok (serialize_response (RError e))) = Err (''ERROR:'' @ e)"
  by (simp_all add: set_setting_def serialize_response_def)

text \<open>
  Fact: a feature toggle of the client does what it says: the line it sends is understood by the daemon
  as the setting it names, and what the client reads afterwards is the old settings with exactly that
  one changed, even when the settings file could not be written; the client reports success exactly
  when it could.
\<close>

theorem set_setting_end_to_end:
  "\<exists>rq resp s'. parse_request hexd (set_setting_cmd k b) = Ok rq \<and>
     dispatch_request cr cn L rq s = (Some resp, on_host cn, s') \<and>
     parse_settings_line (serialize_response (handle_get_settings (fst s'))) =
       Some (with_setting k b (settings_view (settings (fst s)))) \<and>
     (set_setting (Ok (serialize_response resp)) = Ok () \<longleftrightarrow> is_ok (settings_saved cn))"
proof -
  note defs = dispatch_request_def setting_request_def set_handler_def link_handler_def Let_def
    handle_set_setting_def put_setting_def settings_read settings_view_def with_setting_def set_reply_ok
  show ?thesis
    unfolding parse_set_setting by (cases k; cases "settings_saved cn"; simp add: defs)
qed

section \<open>Status and enrollment, seen by the client\<close>

lemma status_line_parts:
  assumes "CHR '':'' \<notin> set n" "CHR '':'' \<notin> set v"
  shows "split_on CHR '':'' (trim (serialize_response (RStatus cn n b v u))) =
    [''STATUS'', flag01 cn, n, show_word b, v, flag01 u]"
proof -
  let ?ps = "[''STATUS'', flag01 cn, n, show_word b, v, flag01 u]"
  have j: "serialize_response (RStatus cn n b v u) = join '':'' ?ps"
    by (simp add: serialize_response_def join_Cons)
  have "trim (join '':'' ?ps) = join '':'' ?ps"
    by (rule trim_join) (simp_all add: graphic_def)
  moreover have "split_on CHR '':'' (join '':'' ?ps) = ?ps"
    using assms by (intro split_on_join) (simp_all add: flag01_def)
  ultimately show ?thesis unfolding j by simp
qed

text \<open>
  Fact: the client's status is the daemon's: connection, battery, firmware version and the device's own
  claim that it is unpaired survive the status line, for every version text without a colon.
\<close>

theorem status_reaches_client:
  assumes "CHR '':'' \<notin> set (case device_status c of Some s \<Rightarrow> fw_version s | None \<Rightarrow> [])"
  shows "query_status (Ok (serialize_response (handle_status c))) = Ok
    \<lparr> cds_connected = is_connected c,
      cds_name = (case device_status c of Some _ \<Rightarrow> ''immurok'' | None \<Rightarrow> []),
      cds_battery = (case device_status c of Some s \<Rightarrow> battery s | None \<Rightarrow> 0),
      cds_fw_version = (case device_status c of Some s \<Rightarrow> fw_version s | None \<Rightarrow> []),
      cds_device_unpaired = device_reports_unpaired c \<rparr>"
proof -
  have r: "parse_status_line (serialize_response (RStatus cn n b v u)) =
      Some \<lparr> cds_connected = cn, cds_name = n, cds_battery = b, cds_fw_version = v, cds_device_unpaired = u \<rparr>"
    if "CHR '':'' \<notin> set n" "CHR '':'' \<notin> set v" for cn n b v u
    by (simp add: parse_status_line_def status_line_parts [OF that])
  show ?thesis
    using assms by (auto simp: query_status_def handle_status_def r split: option.split)
qed

theorem status_reaches_client_witness:
  "cds_connected (the (ok (query_status (Ok (serialize_response (handle_status online))))))"
  using status_reaches_client [of online] by (simp add: online_def coordinator_new_def)

text \<open>What the daemon's decoding of a notification makes of the client's enrollment status.\<close>

definition event_of_status :: "enroll_status \<Rightarrow> enroll_event option" where
  "event_of_status st = (case st of
     SIdle \<Rightarrow> None
   | SWaiting _ _ \<Rightarrow> Some EWaiting
   | SCaptured cur tot \<Rightarrow> Some (ECaptured cur tot)
   | SProcessing \<Rightarrow> Some EProcessing
   | SLiftFinger \<Rightarrow> Some ELiftFinger
   | SOverlap \<Rightarrow> Some EOverlap
   | SComplete \<Rightarrow> Some EComplete
   | SFailed \<Rightarrow> Some EFailed)"

lemma fp_status_line_parts:
  "split_on CHR '':'' (trim (''OK:'' @ show_word a @ '':'' @ show_word b @ '':'' @ show_word d)) =
     [''OK'', show_word a, show_word b, show_word d]"
proof -
  let ?ps = "[''OK'', show_word a, show_word b, show_word d]"
  have j: "''OK:'' @ show_word a @ '':'' @ show_word b @ '':'' @ show_word d = join '':'' ?ps"
    by (simp add: join_Cons)
  have "trim (join '':'' ?ps) = join '':'' ?ps"
    by (rule trim_join) (simp_all add: graphic_def)
  moreover have "split_on CHR '':'' (join '':'' ?ps) = ?ps"
    by (intro split_on_join) simp_all
  ultimately show ?thesis unfolding j by simp
qed

lemma fp_status_read:
  "parse_fp_status (serialize_response (handle_fp_status c)) = Some (case last_enroll_event c of
     None \<Rightarrow> SIdle
   | Some (st, cur, tot) \<Rightarrow>
      (if st = 0 then SWaiting cur tot else if st = 1 then SCaptured cur tot else if st = 2 then SProcessing
       else if st = 3 then SLiftFinger else if st = 6 then SOverlap else if st = 4 then SComplete else SFailed))"
proof (cases "last_enroll_event c")
  case None
  have "trim ''OK:IDLE'' = ''OK:IDLE''" by (rule trim_graphic) (simp_all add: graphic_def)
  then show ?thesis
    using None by (simp add: parse_fp_status_def serialize_response_def handle_fp_status_def)
next
  case (Some e)
  obtain st cur tot where e: "e = (st, cur, tot)" by (cases e)
  have n: "show_word st \<noteq> ''IDLE''" by (rule show_nat_not_word) (simp_all add: is_digit_def)
  show ?thesis
    unfolding parse_fp_status_def
    using n fp_status_line_parts [of st cur tot] by (simp add: serialize_response_def handle_fp_status_def Some e)
qed

text \<open>
  Fact: daemon and clients agree on enrollment: what a client decodes from FP:STATUS stands for the same
  event as the daemon's own decoding of the last notification, unknown status codes included, and is
  idle exactly when there was none.
\<close>

theorem enroll_status_agrees:
  "\<exists>st. fp_status (Ok (serialize_response (handle_fp_status c))) = Ok st \<and>
     event_of_status st = map_option (\<lambda>(status, cur, tot). enroll_from_notification status cur tot)
       (last_enroll_event c)"
  by (cases "last_enroll_event c")
    (auto simp: fp_status_def fp_status_read event_of_status_def enroll_from_notification_def)

section \<open>The fingerprint slots\<close>

lemma is_enrolled_iff: "is_enrolled b i \<longleftrightarrow> i < 6 \<and> bit b (unat i)"
  using bit_set_iff [of b i] by (simp add: is_enrolled_def bit_set_def)

lemma auth_slots_set: "set (auth_slots b) = {i. i < 5 \<and> bit b (unat i)}"
  by (auto simp: auth_slots_def set_u8_range is_enrolled_iff elim: less_trans)

lemma any_finger_iff: "any_finger b \<longleftrightarrow> (\<exists>i<6. bit b i)"
proof -
  have m: "push_bit (unat TOTAL_FINGERPRINT_SLOTS) (1 :: byte) - 1 = mask 6" by (simp add: mask_eq_decr_exp)
  have "(b AND mask 6 \<noteq> 0) \<longleftrightarrow> (\<exists>n. bit (b AND mask 6) n)"
    by (metis bit_0_eq bit_eqI bot_apply bot_bool_def)
  then show ?thesis unfolding any_finger_def m by (auto simp: bit_simps)
qed

lemma find_range_Some:
  "List.find P (u8_range n) = Some s \<Longrightarrow> s < n \<and> P s \<and> (\<forall>t < s. \<not> P t)"
proof -
  assume f: "List.find P (u8_range n) = Some s"
  then obtain i where i: "i < unat n" "s = of_nat i" "P s" "\<forall>j<i. \<not> P (of_nat j)"
    by (auto simp: find_Some_iff u8_range_def)
  have u: "unat s = i"
    using i(1,2) unat_lt2p_word [of n] by (simp add: unsigned_of_nat take_bit_nat_eq_self)
  then have "\<not> P t" if "t < s" for t
    using i(4) [rule_format, of "unat t"] that by (simp add: word_less_nat_alt)
  then show ?thesis using i u by (simp add: word_less_nat_alt)
qed

lemma find_range_None: "List.find P (u8_range n) = None \<longleftrightarrow> (\<forall>s < n. \<not> P s)"
  by (auto simp: find_None_iff set_u8_range)

text \<open>
  Fact: the client's view of the fingerprint bitmap is the shared one: its enrolled slots are those of
  the daemon's list, "any finger" (which decides whether a touch is expected) holds exactly when one
  of the six slots is taken, and the slot offered for a new finger is the first free one of the five
  authentication slots, none being offered exactly when all five are taken.
\<close>

theorem fp_slots_agree:
  "filter (is_enrolled b) (u8_range TOTAL_FINGERPRINT_SLOTS) = fp_bitmap_slots b \<and>
   (any_finger b \<longleftrightarrow> fp_bitmap_slots b \<noteq> []) \<and>
   (case first_free_auth_slot b of
      None \<Rightarrow> auth_slots b = u8_range AUTH_SLOTS
    | Some s \<Rightarrow> s < AUTH_SLOTS \<and> \<not> is_enrolled b s \<and> {t. t < s} \<subseteq> set (auth_slots b))"
proof (intro conjI)
  show "filter (is_enrolled b) (u8_range TOTAL_FINGERPRINT_SLOTS) = fp_bitmap_slots b"
    unfolding fp_bitmap_slots_def by (rule filter_cong) (auto simp: set_u8_range is_enrolled_iff bit_set_iff)
  have "(\<exists>i<6. bit b i) \<longleftrightarrow> (\<exists>s < (6 :: byte). bit b (unat s))"
  proof
    assume "\<exists>i<6. bit b i"
    then obtain i where "i < 6" "bit b i" by blast
    then show "\<exists>s < (6 :: byte). bit b (unat s)"
      by (intro exI [of _ "of_nat i"])
        (simp add: word_less_nat_alt unsigned_of_nat take_bit_nat_eq_self)
  qed (auto simp: word_less_nat_alt)
  then show "any_finger b \<longleftrightarrow> fp_bitmap_slots b \<noteq> []"
    using fp_bitmap_slots_set [of b] by (auto simp: any_finger_iff simp flip: set_empty)
  show "case first_free_auth_slot b of
     None \<Rightarrow> auth_slots b = u8_range AUTH_SLOTS
   | Some s \<Rightarrow> s < AUTH_SLOTS \<and> \<not> is_enrolled b s \<and> {t. t < s} \<subseteq> set (auth_slots b)"
  proof (cases "first_free_auth_slot b")
    case None
    then have "\<forall>s < AUTH_SLOTS. is_enrolled b s" by (simp add: first_free_auth_slot_def find_range_None)
    then show ?thesis
      unfolding None by (simp add: auth_slots_def set_u8_range filter_id_conv)
  next
    case (Some s)
    then show ?thesis
      using find_range_Some [of "\<lambda>s. \<not> is_enrolled b s" AUTH_SLOTS s]
      by (auto simp: first_free_auth_slot_def auth_slots_set is_enrolled_iff elim: less_trans)
  qed
qed

section \<open>The host slots\<close>

lemma host_slots_read:
  assumes "wf_slot_status (Supported b a)"
  shows "parse_host_slots (slot_status_line (Supported b a) mine) =
    Some \<lparr> hs_supported = True, slot1 = bit b 0, slot2 = bit b 1, hs_active = a,
           hs_mine = (case mine of Some m \<Rightarrow> if m = SLOT_1 \<or> m = SLOT_2 then Some m else None | None \<Rightarrow> None) \<rparr>"
proof -
  have "b AND 1 \<noteq> 0 \<longleftrightarrow> bit b 0" "b AND 2 \<noteq> 0 \<longleftrightarrow> bit b 1"
    using bit_set_iff [of b 0] bit_set_iff [of b 1] by (simp_all add: bit_set_def)
  then show ?thesis
    by (simp add: parse_host_slots_def slot_status_line_roundtrip [OF assms] slot_owner_roundtrip
        split: option.split)
qed

end
