(* ===== verification/Enroll_Session.thy ===== *)
theory Enroll_Session
  imports Client_Parse
begin

text \<open>
  The enrollment driver of the clients (\<open>immurok-client/src/enroll_session.rs\<close>): one round of the
  poll loop, the loop, and the session around it with the device's start and cancel requests.
  Polls, bitmap, cancel flag, event callback and clock are functions on a world \<open>'w\<close>, as the code
  injects them. A loop that would never end has the value \<open>None\<close>; on a clock that runs it ends.
\<close>

definition POLL_INTERVAL :: nat where "POLL_INTERVAL = from_millis 150"
definition IDLE_BITMAP_CHECK :: nat where "IDLE_BITMAP_CHECK = from_secs 3"
definition ENROLL_TIMEOUT :: nat where "ENROLL_TIMEOUT = from_secs 360"

datatype enroll_progress =
    GateWaiting
  | Started
  | Step (next_step: byte) (captured: byte) (step_total: byte)
  | LiftFinger
  | Overlap
  | Processing
  | Complete
  | Failed string

datatype continue = Go | Stop
datatype outcome = OComplete | OFailed | OCancelled

record 'w enroll_env =
  en_poll :: "'w \<Rightarrow> (enroll_status, string) result \<times> 'w"
  en_bitmap :: "'w \<Rightarrow> (fp_slots, string) result \<times> 'w"
  en_stop :: "'w \<Rightarrow> bool \<times> 'w"
  en_tick :: "enroll_progress \<Rightarrow> 'w \<Rightarrow> continue \<times> 'w"
  en_now :: "'w \<Rightarrow> nat"
  en_sleep :: "nat \<Rightarrow> 'w \<Rightarrow> 'w"
  en_start :: "'w \<Rightarrow> (unit, string) result \<times> 'w"
  en_cancel :: "'w \<Rightarrow> 'w"

record enroll_loop =
  last_seen :: "enroll_status option"
  idle_since :: "nat option"

definition saturating_inc :: "byte \<Rightarrow> byte" where
  "saturating_inc b = (if b = 255 then 255 else b + 1)"

definition step_event :: "byte \<Rightarrow> byte \<Rightarrow> enroll_progress" where
  "step_event current tot = Step (min (saturating_inc current) (max tot 1)) current tot"

section \<open>One round\<close>

text \<open>
  A round yields the events of its \<open>tick\<close> calls, the outcome when it returns, and the loop's
  variables and world for the next one.
\<close>

type_synonym 'w enroll_round = "enroll_progress list \<times> outcome option \<times> enroll_loop \<times> 'w"

definition end_with :: "'w enroll_env \<Rightarrow> enroll_progress \<Rightarrow> outcome \<Rightarrow> enroll_loop \<Rightarrow> 'w \<Rightarrow> 'w enroll_round" where
  "end_with E ev r l w = ([ev], Some r, l, snd (en_tick E ev w))"

definition report :: "'w enroll_env \<Rightarrow> enroll_progress \<Rightarrow> enroll_loop \<Rightarrow> 'w \<Rightarrow> 'w enroll_round" where
  "report E ev l w = (case en_tick E ev w of
     (Stop, w1) \<Rightarrow> ([ev], Some OCancelled, l, w1) | (Go, w1) \<Rightarrow> ([ev], None, l, w1))"

definition idle_poll :: "'w enroll_env \<Rightarrow> byte \<Rightarrow> enroll_loop \<Rightarrow> 'w \<Rightarrow> 'w enroll_round" where
  "idle_poll E slot l w = (let t1 = en_now E w in case idle_since l of
     None \<Rightarrow> ([], None, l\<lparr> idle_since := Some t1 \<rparr>, w)
   | Some t \<Rightarrow>
       if IDLE_BITMAP_CHECK \<le> t1 - t then
         (let l1 = l\<lparr> idle_since := Some t1 \<rparr> in case en_bitmap E w of
            (Ok b, w1) \<Rightarrow> if is_enrolled b slot then end_with E Complete OComplete l1 w1 else ([], None, l1, w1)
          | (Err _, w1) \<Rightarrow> ([], None, l1, w1))
       else ([], None, l, w))"

definition status_poll :: "'w enroll_env \<Rightarrow> enroll_status \<Rightarrow> enroll_loop \<Rightarrow> 'w \<Rightarrow> 'w enroll_round" where
  "status_poll E st l0 w = (let l = l0\<lparr> idle_since := None \<rparr> in
     if last_seen l = Some st then ([], None, l, w)
     else let l1 = l\<lparr> last_seen := Some st \<rparr> in case st of
       SWaiting current tot \<Rightarrow> report E (step_event current tot) l1 w
     | SCaptured current tot \<Rightarrow> report E (step_event current tot) l1 w
     | SLiftFinger \<Rightarrow> report E LiftFinger l1 w
     | SOverlap \<Rightarrow> report E Overlap l1 w
     | SProcessing \<Rightarrow> report E Processing l1 w
     | SComplete \<Rightarrow> end_with E Complete OComplete l1 w
     | SFailed \<Rightarrow> end_with E (Failed ''Enrollment failed'') OFailed l1 w
     | SIdle \<Rightarrow> ([], None, l1, w))"

definition drive_round :: "'w enroll_env \<Rightarrow> byte \<Rightarrow> nat \<Rightarrow> enroll_loop \<Rightarrow> 'w \<Rightarrow> 'w enroll_round" where
  "drive_round E slot started l w =
     (if ENROLL_TIMEOUT < en_now E w - started then end_with E (Failed ''Enrollment timed out'') OFailed l w
      else case en_stop E w of
        (True, w1) \<Rightarrow> ([], Some OCancelled, l, w1)
      | (False, w1) \<Rightarrow> (case en_poll E (en_sleep E POLL_INTERVAL w1) of
          (Err e, w2) \<Rightarrow>
            if contains_str ''NOT_CONNECTED'' e then end_with E (Failed ''Device disconnected'') OFailed l w2
            else ([], None, l, w2)
        | (Ok st, w2) \<Rightarrow> if st = SIdle then idle_poll E slot l w2 else status_poll E st l w2))"

section \<open>The loop and the session\<close>

partial_function (option) drive_loop ::
    "'w enroll_env \<Rightarrow> byte \<Rightarrow> nat \<Rightarrow> enroll_loop \<Rightarrow> 'w \<Rightarrow> (enroll_progress list \<times> outcome \<times> 'w) option" where
  "drive_loop E slot started l w =
     (case drive_round E slot started l w of (evs, r, l1, w1) \<Rightarrow> (case r of
        Some out \<Rightarrow> Some (evs, out, w1)
      | None \<Rightarrow> Option.bind (drive_loop E slot started l1 w1)
                 (\<lambda>(evs', out, w2). Some (evs @ evs', out, w2))))"

definition drive :: "'w enroll_env \<Rightarrow> byte \<Rightarrow> 'w \<Rightarrow> (enroll_progress list \<times> outcome \<times> 'w) option" where
  "drive E slot w = (case en_stop E w of
     (True, w1) \<Rightarrow> Some ([], OCancelled, w1)
   | (False, w1) \<Rightarrow> (case en_tick E Started w1 of
       (Stop, w2) \<Rightarrow> Some ([Started], OCancelled, w2)
     | (Go, w2) \<Rightarrow> map_option (\<lambda>(evs, out, w3). (Started # evs, out, w3))
         (drive_loop E slot (en_now E w2) \<lparr> last_seen = None, idle_since = None \<rparr> w2)))"

text \<open>The result says whether \<open>FP:ENROLL\<close> was accepted and whether \<open>FP:ENROLL_CANCEL\<close> was sent.\<close>

record 'w enrollment =
  er_events :: "enroll_progress list"
  er_accepted :: bool
  er_cancelled :: bool
  er_world :: 'w

definition run_enrollment :: "'w enroll_env \<Rightarrow> byte \<Rightarrow> 'w \<Rightarrow> 'w enrollment option" where
  "run_enrollment E slot w = (case en_stop E w of
     (True, w1) \<Rightarrow> Some \<lparr> er_events = [], er_accepted = False, er_cancelled = False, er_world = w1 \<rparr>
   | (False, w1) \<Rightarrow> (case en_tick E GateWaiting w1 of
       (Stop, w2) \<Rightarrow> Some \<lparr> er_events = [GateWaiting], er_accepted = False, er_cancelled = False, er_world = w2 \<rparr>
     | (Go, w2) \<Rightarrow> (case en_start E w2 of
         (Err e, w3) \<Rightarrow> Some \<lparr> er_events = [GateWaiting, Failed e], er_accepted = False,
           er_cancelled = False, er_world = snd (en_tick E (Failed e) w3) \<rparr>
       | (Ok _, w3) \<Rightarrow> map_option (\<lambda>(evs, out, w4).
           \<lparr> er_events = GateWaiting # evs, er_accepted = True, er_cancelled = (out = OCancelled),
             er_world = (if out = OCancelled then en_cancel E w4 else w4) \<rparr>) (drive E slot w3))))"

section \<open>A clock that runs\<close>

definition clock_runs :: "'w enroll_env \<Rightarrow> bool" where
  "clock_runs E \<longleftrightarrow> (\<forall>w. en_now E w \<le> en_now E (snd (en_poll E w))) \<and>
     (\<forall>w. en_now E w \<le> en_now E (snd (en_bitmap E w))) \<and>
     (\<forall>w. en_now E w \<le> en_now E (snd (en_stop E w))) \<and>
     (\<forall>ev w. en_now E w \<le> en_now E (snd (en_tick E ev w))) \<and>
     (\<forall>d w. en_now E w + d \<le> en_now E (en_sleep E d w))"

lemma clock_runsD:
  assumes "clock_runs E"
  shows "en_poll E w = (p, w') \<Longrightarrow> en_now E w \<le> en_now E w'"
    "en_bitmap E w = (b, w') \<Longrightarrow> en_now E w \<le> en_now E w'"
    "en_stop E w = (s, w') \<Longrightarrow> en_now E w \<le> en_now E w'"
    "en_tick E ev w = (c, w') \<Longrightarrow> en_now E w \<le> en_now E w'"
    "en_now E w + d \<le> en_now E (en_sleep E d w)"
  using assms unfolding clock_runs_def by (metis snd_conv)+

lemma report_clock:
  assumes "clock_runs E"
  shows "en_now E w \<le> en_now E (snd (snd (snd (report E ev l w))))"
  using clock_runsD(4) [OF assms, of ev w]
  by (simp add: report_def split: prod.split continue.split)

lemma end_with_clock:
  assumes "clock_runs E"
  shows "en_now E w \<le> en_now E (snd (snd (snd (end_with E ev r l w))))"
  using assms by (simp add: end_with_def clock_runs_def)

lemma status_poll_clock:
  assumes "clock_runs E"
  shows "en_now E w \<le> en_now E (snd (snd (snd (status_poll E st l w))))"
  using report_clock [OF assms] end_with_clock [OF assms]
  by (simp add: status_poll_def Let_def split: enroll_status.split)

lemma idle_poll_clock:
  assumes "clock_runs E"
  shows "en_now E w \<le> en_now E (snd (snd (snd (idle_poll E slot l w))))"
proof (cases "en_bitmap E w")
  case (Pair b w1)
  have "en_now E w \<le> en_now E w1" by (rule clock_runsD(2) [OF assms Pair])
  then show ?thesis
    using end_with_clock [OF assms] Pair
    by (auto simp: idle_poll_def Let_def split: option.split result.split intro: order_trans)
qed

text \<open>Every round that goes on took at least one poll interval.\<close>

lemma drive_round_clock:
  assumes "clock_runs E" "drive_round E slot started l w = (evs, None, l1, w1)"
  shows "en_now E w + POLL_INTERVAL \<le> en_now E w1" "\<not> ENROLL_TIMEOUT < en_now E w - started"
proof -
  show nt: "\<not> ENROLL_TIMEOUT < en_now E w - started"
    using assms(2) by (auto simp: drive_round_def end_with_def)
  obtain b wa where s: "en_stop E w = (b, wa)" by (cases "en_stop E w")
  obtain p wb where p: "en_poll E (en_sleep E POLL_INTERVAL wa) = (p, wb)"
    by (cases "en_poll E (en_sleep E POLL_INTERVAL wa)")
  have t: "en_now E w + POLL_INTERVAL \<le> en_now E wb"
    using clock_runsD(3) [OF assms(1) s] clock_runsD(1) [OF assms(1) p]
      clock_runsD(5) [OF assms(1), of wa POLL_INTERVAL] by linarith
  have nb: "\<not> b" using assms(2) nt s by (auto simp: drive_round_def)
  show "en_now E w + POLL_INTERVAL \<le> en_now E w1"
  proof (cases p)
    case (Err e)
    then show ?thesis
      using assms(2) nt s p nb t by (auto simp: drive_round_def end_with_def split: if_splits)
  next
    case (Ok st)
    then show ?thesis
      using assms(2) nt s p nb t idle_poll_clock [OF assms(1), of wb slot l]
        status_poll_clock [OF assms(1), of wb st l]
      by (auto simp: drive_round_def split: if_splits)
  qed
qed

section \<open>How a run ends\<close>

definition terminal :: "enroll_progress \<Rightarrow> bool" where
  "terminal ev \<longleftrightarrow> ev = Complete \<or> (\<exists>m. ev = Failed m)"

lemma terminal_simps [simp]:
  "terminal Complete" "terminal (Failed m)" "\<not> terminal GateWaiting" "\<not> terminal Started"
  "\<not> terminal (Step n c t)" "\<not> terminal LiftFinger" "\<not> terminal Overlap" "\<not> terminal Processing"
  by (simp_all add: terminal_def)

definition well_ended :: "enroll_progress list \<Rightarrow> outcome \<Rightarrow> bool" where
  "well_ended evs out = (case out of
     OCancelled \<Rightarrow> list_all (\<lambda>e. \<not> terminal e) evs
   | OComplete \<Rightarrow> evs \<noteq> [] \<and> last evs = Complete \<and> list_all (\<lambda>e. \<not> terminal e) (butlast evs)
   | OFailed \<Rightarrow> evs \<noteq> [] \<and> (\<exists>m. last evs = Failed m) \<and> list_all (\<lambda>e. \<not> terminal e) (butlast evs))"

text \<open>A step event asks for a frame between one and the total, the one after the captured frames.\<close>

definition step_ok :: "enroll_progress \<Rightarrow> bool" where
  "step_ok ev = (case ev of
     Step n c t \<Rightarrow> 1 \<le> n \<and> n \<le> max t 1 \<and> (if c < t then n = c + 1 else n = max t 1)
   | _ \<Rightarrow> True)"

lemma unat_saturating_inc: "unat (saturating_inc b) = min 255 (unat b + 1)"
proof (cases "b = 255")
  case False
  then have "unat b \<noteq> 255" by (simp add: word_unat_eq_iff)
  then have "unat b < 255" using unat_lt2p_word [of b] by simp
  then show ?thesis using False by (simp add: saturating_inc_def unat_word_ariths)
qed (simp add: saturating_inc_def)

lemma unat_min_max: "unat (min a b) = min (unat a) (unat b)" "unat (max a b) = max (unat a) (unat b)"
  by (simp_all add: min_def max_def word_le_nat_alt)

lemma step_event_ok: "step_ok (step_event c t)"
proof -
  let ?n = "min (saturating_inc c) (max t 1)"
  have n: "unat ?n = min (min 255 (unat c + 1)) (max (unat t) 1)"
    by (simp add: unat_min_max unat_saturating_inc)
  have b: "unat c < 256" "unat t < 256" using unat_lt2p_word [of c] unat_lt2p_word [of t] by simp_all
  have "1 \<le> ?n" using n by (simp add: word_le_nat_alt)
  moreover have "?n \<le> max t 1" by simp
  moreover have "?n = c + 1" if "c < t"
  proof -
    have "unat c < unat t" using that by (simp add: word_less_nat_alt)
    then have "unat ?n = unat (c + 1)" using n b by (simp add: unat_word_ariths)
    then show ?thesis by (simp only: word_unat_eq_iff)
  qed
  moreover have "?n = max t 1" if "\<not> c < t"
  proof -
    have "unat t \<le> unat c" using that by (simp add: word_less_nat_alt)
    then have "min (min 255 (unat c + 1)) (max (unat t) 1) = max (unat t) 1" using b by linarith
    then have "unat ?n = unat (max t 1)" using n by (simp only: unat_min_max unat_1)
    then show ?thesis by (simp only: word_unat_eq_iff)
  qed
  ultimately show ?thesis by (simp add: step_ok_def step_event_def)
qed

lemma well_ended_Cons: "\<not> terminal e \<Longrightarrow> well_ended evs out \<Longrightarrow> well_ended (e # evs) out"
  by (cases out) (auto simp: well_ended_def)

lemma well_ended_append:
  "list_all (\<lambda>e. \<not> terminal e) pre \<Longrightarrow> well_ended evs out \<Longrightarrow> well_ended (pre @ evs) out"
  by (induction pre) (simp_all add: well_ended_Cons)

text \<open>What a round may yield.\<close>

definition round_ok :: "'w enroll_round \<Rightarrow> bool" where
  "round_ok x = (case x of (evs, r, l, w) \<Rightarrow> length evs \<le> 1 \<and> list_all step_ok evs \<and>
     (case r of Some out \<Rightarrow> well_ended evs out | None \<Rightarrow> list_all (\<lambda>e. \<not> terminal e) evs))"

lemma report_ok: "\<not> terminal ev \<Longrightarrow> step_ok ev \<Longrightarrow> round_ok (report E ev l w)"
  by (simp add: report_def round_ok_def well_ended_def split: prod.split continue.split)

lemma end_with_ok:
  "round_ok (end_with E Complete OComplete l w)" "round_ok (end_with E (Failed m) OFailed l w)"
  by (simp_all add: end_with_def round_ok_def well_ended_def step_ok_def)

lemma quiet_ok: "round_ok ([], None, l, w)" "round_ok ([], Some OCancelled, l, w)"
  by (simp_all add: round_ok_def well_ended_def)

lemma status_poll_ok: "round_ok (status_poll E st l w)"
proof -
  have "round_ok (report E (step_event c t) l' w)" for c t l'
    by (rule report_ok) (simp_all add: step_event_ok, simp add: step_event_def)
  moreover have "round_ok (report E ev l' w)" if "ev \<in> {LiftFinger, Overlap, Processing}" for ev l'
    by (rule report_ok) (use that in \<open>auto simp: step_ok_def\<close>)
  ultimately show ?thesis
    by (cases st) (simp_all add: status_poll_def quiet_ok end_with_ok Let_def)
qed

lemma idle_poll_ok: "round_ok (idle_poll E slot l w)"
  by (simp add: idle_poll_def Let_def quiet_ok end_with_ok split: option.split prod.split result.split)

lemma drive_round_ok: "round_ok (drive_round E slot started l w)"
  by (simp add: drive_round_def quiet_ok end_with_ok status_poll_ok idle_poll_ok
      split: prod.split result.split bool.split)

lemma drive_loop_ends:
  assumes "clock_runs E" "started + ENROLL_TIMEOUT < en_now E w + n * POLL_INTERVAL"
  shows "\<exists>evs out w'. drive_loop E slot started l w = Some (evs, out, w') \<and>
    length evs \<le> Suc n \<and> list_all step_ok evs \<and> well_ended evs out"
  using assms(2)
proof (induction n arbitrary: l w)
  case 0
  then have "ENROLL_TIMEOUT < en_now E w - started" by simp
  then show ?case
    using end_with_ok(2) [of E "''Enrollment timed out''" l w]
    by (subst drive_loop.simps) (simp add: drive_round_def end_with_def round_ok_def)
next
  case (Suc n)
  obtain evs r l1 w1 where r: "drive_round E slot started l w = (evs, r, l1, w1)"
    by (cases "drive_round E slot started l w")
  note ok = drive_round_ok [of E slot started l w, unfolded r round_ok_def, simplified]
  show ?case
  proof (cases r)
    case (Some out)
    then show ?thesis using ok by (subst drive_loop.simps) (simp add: r)
  next
    case None
    note r1 = r [unfolded None]
    have "started + ENROLL_TIMEOUT < en_now E w1 + n * POLL_INTERVAL"
      using drive_round_clock(1) [OF assms(1) r1] Suc.prems by simp
    then obtain evs2 out w2 where "drive_loop E slot started l1 w1 = Some (evs2, out, w2)"
        "length evs2 \<le> Suc n" "list_all step_ok evs2" "well_ended evs2 out"
      using Suc.IH [of w1 l1] by blast
    then show ?thesis
      using ok None by (subst drive_loop.simps) (simp add: r well_ended_append)
  qed
qed

lemma polls_suffice: "ENROLL_TIMEOUT < 2401 * POLL_INTERVAL"
  by (simp add: ENROLL_TIMEOUT_def POLL_INTERVAL_def from_secs_def from_millis_def)

lemma drive_ends:
  assumes "clock_runs E"
  shows "\<exists>evs out w'. drive E slot w = Some (evs, out, w') \<and>
    length evs \<le> 2403 \<and> list_all step_ok evs \<and> well_ended evs out"
proof -
  obtain b w1 c w2 where s: "en_stop E w = (b, w1)" "en_tick E Started w1 = (c, w2)"
    by (metis surj_pair)
  obtain evs out w' where
    "drive_loop E slot (en_now E w2) \<lparr> last_seen = None, idle_since = None \<rparr> w2 = Some (evs, out, w')"
    "length evs \<le> Suc 2401" "list_all step_ok evs" "well_ended evs out"
    using drive_loop_ends [OF assms, of "en_now E w2" w2 2401] polls_suffice by (metis add_less_cancel_left)
  then show ?thesis
    using s by (cases b; cases c) (auto simp: drive_def well_ended_def [of _ OCancelled] step_ok_def
      intro: well_ended_Cons)
qed

text \<open>
  C27: on a clock that runs, an enrollment always ends: whatever the daemon answers, \<open>run_enrollment\<close>
  returns within 2404 events, of which at most the last is terminal (complete, failed or timed out);
  every step shown lies between one and the total; and once FP:ENROLL was accepted the session either
  ends with its one terminal event and sends no cancel, or is cancelled: then there is no terminal event
  and the cancel was sent to the device.
\<close>

theorem enrollment_ends:
  assumes "clock_runs E"
  shows "\<exists>r. run_enrollment E slot w = Some r \<and> length (er_events r) \<le> 2404 \<and>
    list_all step_ok (er_events r) \<and> list_all (\<lambda>e. \<not> terminal e) (butlast (er_events r)) \<and>
    (er_accepted r \<longrightarrow> (er_cancelled r \<longleftrightarrow> \<not> terminal (last (er_events r))))"
proof -
  obtain b w1 c w2 p w3 where s: "en_stop E w = (b, w1)" "en_tick E GateWaiting w1 = (c, w2)"
      "en_start E w2 = (p, w3)"
    by (metis surj_pair)
  obtain evs out w' where d: "drive E slot w3 = Some (evs, out, w')" "length evs \<le> 2403"
      "list_all step_ok evs" "well_ended evs out"
    using drive_ends [OF assms] by blast
  have cancelled: "list_all (\<lambda>e. \<not> terminal e) (butlast (GateWaiting # evs)) \<and>
      (out = OCancelled \<longleftrightarrow> \<not> terminal (last (GateWaiting # evs)))"
    using d(4) by (cases out) (auto simp: well_ended_def list_all_iff dest: in_set_butlastD last_in_set)
  show ?thesis
    using s d cancelled by (cases b; cases c; cases p) (auto simp: run_enrollment_def step_ok_def)
qed

text \<open>A scripted daemon: the polls in order, then idle for ever; the clock moves only by sleeping.\<close>

definition scripted :: "(nat \<times> (enroll_status, string) result list) enroll_env" where
  "scripted = \<lparr> en_poll = (\<lambda>(t, ps). case ps of [] \<Rightarrow> (Ok SIdle, (t, [])) | p # ps' \<Rightarrow> (p, (t, ps'))),
     en_bitmap = (\<lambda>w. (Ok 0, w)), en_stop = (\<lambda>w. (False, w)), en_tick = (\<lambda>_ w. (Go, w)),
     en_now = fst, en_sleep = (\<lambda>d (t, ps). (t + d, ps)), en_start = (\<lambda>w. (Ok (), w)), en_cancel = id \<rparr>"

lemma scripted_simps [simp]:
  "en_poll scripted (t, []) = (Ok SIdle, (t, []))" "en_poll scripted (t, p # ps) = (p, (t, ps))"
  "en_bitmap scripted w = (Ok 0, w)" "en_stop scripted w = (False, w)" "en_tick scripted ev w = (Go, w)"
  "en_now scripted w = fst w" "en_sleep scripted d (t, qs) = (t + d, qs)" "en_start scripted w = (Ok (), w)"
  by (simp_all add: scripted_def)

lemma scripted_clock: "clock_runs scripted"
  by (auto simp: clock_runs_def scripted_def split: list.split)

lemma scripted_happy:
  "map_option er_events (run_enrollment scripted 1 (0, [Ok (SWaiting 0 6), Ok SLiftFinger, Ok SComplete])) =
     Some [GateWaiting, Started, Step 1 0 6, LiftFinger, Complete]"
proof -
  have lp: "drive_loop scripted 1 0 \<lparr> last_seen = None, idle_since = None \<rparr>
      (0, [Ok (SWaiting 0 6), Ok SLiftFinger, Ok SComplete]) =
      Some ([Step 1 0 6, LiftFinger, Complete], OComplete, (450000000, []))"
    by (simp add: drive_loop.simps [of scripted] drive_round_def status_poll_def report_def
        end_with_def Let_def step_event_def saturating_inc_def POLL_INTERVAL_def ENROLL_TIMEOUT_def
        from_millis_def from_secs_def)
  show ?thesis
    using lp by (simp add: run_enrollment_def drive_def)
qed

theorem enrollment_ends_witness:
  "\<exists>r. run_enrollment scripted 1 (0, []) = Some r \<and> length (er_events r) \<le> 2404 \<and>
     (er_accepted r \<longrightarrow> (er_cancelled r \<longleftrightarrow> \<not> terminal (last (er_events r))))"
  using enrollment_ends [OF scripted_clock, of 1 "(0, [])"] by blast

end
