(* ===== verification/Keys_Import.thy ===== *)
theory Keys_Import
  imports Socket_Keys Client_Parse Ota_Push
begin

text \<open>
  OTP and API entries on their way to the device (\<open>immurok-client/src/keys_import.rs\<close> and the write
  side of \<open>keys.rs\<close>): base32, percent decoding, otpauth URIs, import files, the field layout of an
  entry and the command that carries it. Unicode case mapping, JSON and hex are parameters.
\<close>

section \<open>Characters\<close>

function utf8_chars :: "string \<Rightarrow> string list" where
  "utf8_chars s = (if s = [] then [] else take (snd (utf8_head s)) s # utf8_chars (drop (snd (utf8_head s)) s))"
  by pat_completeness auto
termination
  by (relation "measure length") (auto simp: utf8_head_pos)

declare utf8_chars.simps [simp del]

lemma utf8_chars_Nil [simp]: "utf8_chars [] = []"
  by (simp add: utf8_chars.simps)

lemma utf8_chars_ascii_Cons [simp]: "cp c < 128 \<Longrightarrow> utf8_chars (c # s) = [c] # utf8_chars s"
  by (subst utf8_chars.simps) (simp add: utf8_head_ascii)

lemma concat_utf8_chars [simp]: "concat (utf8_chars s) = s"
  by (induction s rule: utf8_chars.induct) (subst utf8_chars.simps, simp)

definition ascii_upper :: "char \<Rightarrow> char" where
  "ascii_upper c = (if 97 \<le> cp c \<and> cp c \<le> 122 then char_of (cp c - 32) else c)"

definition eq_ignore_ascii_case :: "string \<Rightarrow> string \<Rightarrow> bool" where
  "eq_ignore_ascii_case a b \<longleftrightarrow> map ascii_lower a = map ascii_lower b"

definition to_hex_digit :: "char \<Rightarrow> nat option" where
  "to_hex_digit c =
     (if 48 \<le> cp c \<and> cp c \<le> 57 then Some (cp c - 48)
      else if 97 \<le> cp c \<and> cp c \<le> 102 then Some (cp c - 87)
      else if 65 \<le> cp c \<and> cp c \<le> 70 then Some (cp c - 55)
      else None)"

section \<open>Base32\<close>

definition base32_val :: "string \<Rightarrow> 32 word option" where
  "base32_val ch = (case ch of
     [c] \<Rightarrow> if 65 \<le> cp c \<and> cp c \<le> 90 then Some (of_nat (cp c) - 65)
           else if 50 \<le> cp c \<and> cp c \<le> 55 then Some (of_nat (cp c) - 50 + 26)
           else None
   | _ \<Rightarrow> None)"

definition base32_cleaned :: "string \<Rightarrow> string list" where
  "base32_cleaned s =
     map (map ascii_upper) (filter (\<lambda>c. c \<notin> set ws_seqs \<and> c \<noteq> ''='') (utf8_chars s))"

fun base32_loop :: "32 word \<Rightarrow> nat \<Rightarrow> string list \<Rightarrow> bytes option" where
  "base32_loop bits nbits [] = Some []"
| "base32_loop bits nbits (c # cs) = (case base32_val c of
     None \<Rightarrow> None
   | Some v \<Rightarrow>
       (let bits' = push_bit 5 bits OR v; n = nbits + 5 in
        if 8 \<le> n then map_option (\<lambda>out. ucast (drop_bit (n - 8) bits' AND 0xFF) # out)
                        (base32_loop bits' (n - 8) cs)
        else base32_loop bits' n cs))"

definition base32_decode :: "string \<Rightarrow> bytes option" where
  "base32_decode s = base32_loop 0 0 (base32_cleaned s)"

section \<open>Fields of an entry\<close>

fun cut_back :: "string \<Rightarrow> nat \<Rightarrow> nat" where
  "cut_back s 0 = 0"
| "cut_back s (Suc k) = (if is_char_boundary s (Suc k) then Suc k else cut_back s k)"

definition truncate_utf8 :: "string \<Rightarrow> nat \<Rightarrow> string" where
  "truncate_utf8 s mx = (if length s \<le> mx then s else take (cut_back s mx) s)"

definition split_otp_fields :: "string \<Rightarrow> string \<Rightarrow> string \<times> string" where
  "split_otp_fields issuer0 label0 =
     (let issuer = trim issuer0; label = trim label0;
          (svc, account) = (if issuer \<noteq> [] then (issuer, label)
            else case split_once CHR '':'' label of
              Some (sv, ac) \<Rightarrow> (trim sv, trim ac)
            | None \<Rightarrow> ([], label));
          (svc1, account1) = (if account = [] then ([], svc) else (svc, account))
      in (truncate_utf8 svc1 (SERVICE_LEN_OTP - 1), truncate_utf8 account1 (NAME_LEN_OTP - 1)))"

record otp_entry =
  otp_name :: string
  otp_service :: string
  otp_secret :: bytes

section \<open>otpauth URIs\<close>

fun url_bytes :: "string \<Rightarrow> string" where
  "url_bytes (c # a # b # s) =
     (if c = CHR ''%'' then
        (case (to_hex_digit a, to_hex_digit b) of
           (Some h, Some l) \<Rightarrow> char_of (h * 16 + l) # url_bytes s
         | _ \<Rightarrow> c # url_bytes (a # b # s))
      else c # url_bytes (a # b # s))"
| "url_bytes s = s"

definition url_decode :: "string \<Rightarrow> string" where
  "url_decode s = from_utf8_lossy (url_bytes s)"

record otp_query =
  oq_secret :: "string option"
  oq_issuer :: string
  oq_digits :: nat
  oq_period :: nat
  oq_algo :: string

definition parse_u64 :: "string \<Rightarrow> (nat, int_error) result" where
  "parse_u64 = parse_uint 18446744073709551615"

definition otp_query_pair :: "(string \<Rightarrow> string) \<Rightarrow> (string \<Rightarrow> string) \<Rightarrow> string \<Rightarrow> otp_query \<Rightarrow> otp_query" where
  "otp_query_pair lcase ucase pair q = (case split_once CHR ''='' pair of
     None \<Rightarrow> q
   | Some (k, v) \<Rightarrow>
       (let decoded = url_decode v; kl = lcase k in
        if kl = ''secret'' then q\<lparr> oq_secret := Some decoded \<rparr>
        else if kl = ''issuer'' then q\<lparr> oq_issuer := decoded \<rparr>
        else if kl = ''digits'' then q\<lparr> oq_digits := unwrap_or 6 (ok (parse_u64 decoded)) \<rparr>
        else if kl = ''period'' then q\<lparr> oq_period := unwrap_or 30 (ok (parse_u64 decoded)) \<rparr>
        else if kl = ''algorithm'' then q\<lparr> oq_algo := ucase decoded \<rparr>
        else q))"

definition otp_query_of :: "(string \<Rightarrow> string) \<Rightarrow> (string \<Rightarrow> string) \<Rightarrow> string \<Rightarrow> otp_query" where
  "otp_query_of lcase ucase query = fold (otp_query_pair lcase ucase) (split_on CHR ''&'' query)
     \<lparr> oq_secret = None, oq_issuer = [], oq_digits = 6, oq_period = 30, oq_algo = ''SHA1'' \<rparr>"

definition otp_labels :: "string \<Rightarrow> string \<Rightarrow> string \<times> string" where
  "otp_labels issuer path =
     (if issuer \<noteq> [] then (case split_once CHR '':'' path of
        Some (_, acc) \<Rightarrow> split_otp_fields issuer acc
      | None \<Rightarrow> split_otp_fields issuer path)
      else split_otp_fields [] path)"

definition parse_otpauth_uri :: "(string \<Rightarrow> string) \<Rightarrow> (string \<Rightarrow> string) \<Rightarrow> string \<Rightarrow> otp_entry option" where
  "parse_otpauth_uri lcase ucase uri =
     Option.bind (strip_prefix ''otpauth://'' (trim uri)) (\<lambda>rest.
     Option.bind (split_once CHR ''/'' rest) (\<lambda>(hst, after_host).
       if \<not> eq_ignore_ascii_case hst ''totp'' then None
       else let (path_raw, query_raw) = (case split_once CHR ''?'' after_host of
                  Some (p, q) \<Rightarrow> (p, q) | None \<Rightarrow> (after_host, []));
                path = url_decode path_raw; q = otp_query_of lcase ucase query_raw
         in if oq_digits q \<noteq> 6 \<or> oq_period q \<noteq> 30 \<or> oq_algo q \<noteq> ''SHA1'' then None
         else Option.bind (oq_secret q) (\<lambda>sec.
              Option.bind (base32_decode sec) (\<lambda>secret_bytes.
                if secret_bytes = [] then None
                else let (svc, nm) = otp_labels (oq_issuer q) path
                  in if nm = [] then None
                  else Some \<lparr> otp_name = nm, otp_service = svc, otp_secret = secret_bytes \<rparr>))))"

fun first_secret :: "string list \<Rightarrow> string option" where
  "first_secret [] = None"
| "first_secret (pair # ps) = (case split_once CHR ''='' pair of
     None \<Rightarrow> first_secret ps
   | Some (k, v) \<Rightarrow> if eq_ignore_ascii_case k ''secret'' then Some (url_decode v) else first_secret ps)"

definition otpauth_secret_field :: "string \<Rightarrow> string option" where
  "otpauth_secret_field uri = Option.bind (split_once CHR ''?'' uri)
     (\<lambda>(_, query_raw). first_secret (split_on CHR ''&'' query_raw))"

section \<open>Import files\<close>

fun find_from :: "string \<Rightarrow> string \<Rightarrow> string option" where
  "find_from needle [] = (if needle = [] then Some [] else None)"
| "find_from needle (c # s) = (if starts_with needle (c # s) then Some (c # s) else find_from needle s)"

definition parse_csv_otpauth :: "(string \<Rightarrow> string) \<Rightarrow> (string \<Rightarrow> string) \<Rightarrow> string \<Rightarrow> otp_entry list" where
  "parse_csv_otpauth lcase ucase content =
     List.map_filter (\<lambda>line. Option.bind (find_from ''otpauth://'' line) (parse_otpauth_uri lcase ucase))
       (filter (\<lambda>l. l \<noteq> []) (map trim (lines content)))"

text \<open>What the code uses of \<open>serde_json\<close>: an array of values, and the text or number of a field.\<close>

record 'j json_reader =
  json_array :: "string \<Rightarrow> 'j list option"
  get_str :: "'j \<Rightarrow> string \<Rightarrow> string option"
  get_u64 :: "'j \<Rightarrow> string \<Rightarrow> nat option"

definition andotp_entry :: "'j json_reader \<Rightarrow> (string \<Rightarrow> string) \<Rightarrow> 'j \<Rightarrow> otp_entry option" where
  "andotp_entry J ucase v =
     (let kind = ucase (unwrap_or ''TOTP'' (get_str J v ''type''));
          algo = ucase (unwrap_or ''SHA1'' (get_str J v ''algorithm''));
          digits = unwrap_or 6 (get_u64 J v ''digits''); period = unwrap_or 30 (get_u64 J v ''period'')
      in if kind \<noteq> ''TOTP'' \<or> algo \<noteq> ''SHA1'' \<or> digits \<noteq> 6 \<or> period \<noteq> 30 then None
      else case Option.bind (get_str J v ''secret'') base32_decode of
        None \<Rightarrow> None
      | Some [] \<Rightarrow> None
      | Some sec \<Rightarrow>
          (let issuer = unwrap_or [] (get_str J v ''issuer''); label = unwrap_or [] (get_str J v ''label'');
               (svc, nm) = split_otp_fields issuer label
           in if nm = [] then None else Some \<lparr> otp_name = nm, otp_service = svc, otp_secret = sec \<rparr>))"

text \<open>Each value is an entry or is counted as skipped.\<close>

definition parse_andotp_json :: "'j json_reader \<Rightarrow> (string \<Rightarrow> string) \<Rightarrow> string \<Rightarrow> (otp_entry list \<times> nat) option" where
  "parse_andotp_json J ucase data =
     map_option (\<lambda>arr. (List.map_filter (andotp_entry J ucase) arr,
                        length (filter (\<lambda>v. andotp_entry J ucase v = None) arr)))
       (json_array J data)"

definition path_file_name :: "string \<Rightarrow> string option" where
  "path_file_name p =
     (let cs = filter (\<lambda>c. c \<noteq> [] \<and> c \<noteq> ''.'') (split_on CHR ''/'' p)
      in if cs = [] \<or> last cs = ''..'' then None else Some (last cs))"

definition path_extension :: "string \<Rightarrow> string option" where
  "path_extension p = Option.bind (path_file_name p) (\<lambda>f.
     Option.bind (split_once CHR ''.'' (rev f)) (\<lambda>(ext, stem). if stem = [] then None else Some (rev ext)))"

definition parse_otp_import_file ::
    "'j json_reader \<Rightarrow> (string \<Rightarrow> string) \<Rightarrow> (string \<Rightarrow> string) \<Rightarrow> string \<Rightarrow> string \<Rightarrow> (otp_entry list \<times> nat, string) result" where
  "parse_otp_import_file J lcase ucase path_hint content =
     (let is_json = (case path_extension path_hint of Some e \<Rightarrow> eq_ignore_ascii_case e ''json'' | None \<Rightarrow> False)
      in and_then (if is_json then ok_or ''Unrecognized JSON format. Expected an andOTP backup (array of {secret, issuer, label, type, algorithm, digits, period}).''
                     (parse_andotp_json J ucase content)
                   else Ok (parse_csv_otpauth lcase ucase content, 0))
         (\<lambda>(entries, skipped).
            if entries = [] then Err (if 0 < skipped
              then ''All '' @ show_nat skipped @ '' entries skipped: only standard TOTP / HMAC-SHA1 / 6-digit / 30-second supported.''
              else ''No otpauth://totp entries found in the file.'')
            else Ok (entries, skipped)))"

section \<open>The entry layouts and the commands\<close>

definition pad_field :: "string \<Rightarrow> nat \<Rightarrow> bytes" where
  "pad_field txt n = (let t = as_bytes (truncate_utf8 txt (n - 1)) in t @ replicate (n - length t) 0)"

definition build_otp_entry_payload :: "otp_entry \<Rightarrow> bytes" where
  "build_otp_entry_payload e =
     pad_field (otp_name e) NAME_LEN_OTP @ pad_field (otp_service e) SERVICE_LEN_OTP @ otp_secret e"

datatype key_add_cat = AddOtp | AddApi

definition key_add_payload :: "key_add_cat \<Rightarrow> string \<Rightarrow> string \<Rightarrow> bytes \<Rightarrow> bytes" where
  "key_add_payload cat nm svc secret = (case cat of
     AddOtp \<Rightarrow> pad_field nm NAME_LEN_OTP @ pad_field svc SERVICE_LEN_OTP
   | AddApi \<Rightarrow> pad_field nm NAME_LEN_API) @ secret"

definition build_key_add_cmd :: "(bytes \<Rightarrow> string) \<Rightarrow> key_add_cat \<Rightarrow> string \<Rightarrow> string \<Rightarrow> bytes \<Rightarrow> string" where
  "build_key_add_cmd hx cat nm svc secret =
     ''KEY:'' @ (case cat of AddOtp \<Rightarrow> ''OTP_IMPORT'' | AddApi \<Rightarrow> ''API_IMPORT'') @ '':'' @
     hx (key_add_payload cat nm svc secret)"

text \<open>
  The checks of \<open>add_otp\<close> and \<open>add_api\<close>: the line they send, or the error they return instead.
\<close>

definition add_otp_cmd :: "(bytes \<Rightarrow> string) \<Rightarrow> otp_entry \<Rightarrow> (string, string) result" where
  "add_otp_cmd hx e =
     (if otp_secret e = [] then Err ''Secret cannot be empty.''
      else if SECRET_LEN_OTP < length (otp_secret e)
      then Err (''Secret too long: '' @ show_nat (length (otp_secret e)) @ '' bytes decoded (device limit '' @
                show_nat SECRET_LEN_OTP @ '').'')
      else Ok (''KEY:OTP_IMPORT:'' @ hx (build_otp_entry_payload e)))"

definition add_api_cmd :: "(bytes \<Rightarrow> string) \<Rightarrow> string \<Rightarrow> string \<Rightarrow> (string, string) result" where
  "add_api_cmd hx nm val =
     (if val = [] then Err ''Value cannot be empty.''
      else if VALUE_LEN_API < length val
      then Err (''Value too long: '' @ show_nat (length val) @ '' bytes (device limit '' @
                show_nat VALUE_LEN_API @ '').'')
      else Ok (build_key_add_cmd hx AddApi nm [] (as_bytes val)))"

definition parse_write_reply :: "string \<Rightarrow> (unit, string) result" where
  "parse_write_reply rsp0 = (let rsp = trim rsp0 in if starts_with ''OK'' rsp then Ok () else Err rsp)"

definition parse_secret_reply :: "string \<Rightarrow> (string, string) result" where
  "parse_secret_reply rsp = (case strip_prefix ''OK:'' (trim rsp) of Some v \<Rightarrow> Ok v | None \<Rightarrow> Err (trim rsp))"

definition capacity :: "key_category \<Rightarrow> byte" where
  "capacity cat = (case cat of Ssh \<Rightarrow> KEY_MAX_SSH | Otp \<Rightarrow> KEY_MAX_OTP | Api \<Rightarrow> KEY_MAX_API)"

definition category_wire :: "key_category \<Rightarrow> string" where
  "category_wire cat = (case cat of Ssh \<Rightarrow> ''ssh'' | Otp \<Rightarrow> ''otp'' | Api \<Rightarrow> ''api'')"

definition delete_key_cmd :: "key_category \<Rightarrow> byte \<Rightarrow> string" where
  "delete_key_cmd cat i = ''KEY:DELETE:'' @ category_wire cat @ '':'' @ show_word i"

lemma base32_example: "base32_decode ''jbsw y3dp ehpk 3pxp===='' = Some [72, 101, 108, 108, 111, 33, 0xde, 0xad, 0xbe, 0xef]"
  by (simp add: base32_decode_def base32_cleaned_def base32_val_def ascii_upper_def ws_seqs_def char_of_def bit_Suc_0_iff)

section \<open>Cutting at character boundaries\<close>

lemma cut_back_le: "cut_back s k \<le> k"
  by (induction k) auto

lemma cut_back_boundary: "is_char_boundary s (cut_back s k)"
  by (induction k) (auto simp: is_char_boundary_def)

lemma truncate_utf8_prefix: "\<exists>t. s = truncate_utf8 s mx @ t"
  unfolding truncate_utf8_def by (metis append_Nil2 append_take_drop_id)

lemma truncate_utf8_length: "length (truncate_utf8 s mx) \<le> mx"
  using cut_back_le [of s mx] by (simp add: truncate_utf8_def)

lemma truncate_utf8_subset: "set (truncate_utf8 s mx) \<subseteq> set s"
  by (auto simp: truncate_utf8_def dest: in_set_takeD)

lemma truncate_utf8_valid: "utf8_valid s \<Longrightarrow> utf8_valid (truncate_utf8 s mx)"
  using utf8_valid_take [OF _ cut_back_boundary] by (simp add: truncate_utf8_def)

section \<open>Padded fields\<close>

lemma pad_field_length: "0 < n \<Longrightarrow> length (pad_field t n) = n"
  using truncate_utf8_length [of t "n - 1"] by (simp add: pad_field_def Let_def)

lemma byte_of_zero: "byte_of c = 0 \<longleftrightarrow> c = CHR 0x00"
proof
  assume "byte_of c = 0"
  then have "c = char_of_byte 0" by (metis char_of_byte_of)
  then show "c = CHR 0x00" by (simp add: char_of_byte_def char_of_def)
qed (simp add: byte_of_def)

lemma takeWhile_padded:
  "CHR 0x00 \<notin> set s \<Longrightarrow> takeWhile (\<lambda>b. b \<noteq> 0) (as_bytes s @ replicate k 0 @ rest) = as_bytes s \<or> k = 0"
  by (induction s) (auto simp: byte_of_zero gr0_conv_Suc)

lemma c_string_pad_field:
  assumes "utf8_valid t" "CHR 0x00 \<notin> set t" "0 < n"
  shows "c_string (pad_field t n) = truncate_utf8 t (n - 1)"
proof -
  let ?t = "truncate_utf8 t (n - 1)"
  have "CHR 0x00 \<notin> set ?t" using assms(2) truncate_utf8_subset by blast
  moreover have "n - length ?t \<noteq> 0" using truncate_utf8_length [of t "n - 1"] assms(3) by simp
  ultimately have "takeWhile (\<lambda>b. b \<noteq> 0) (pad_field t n) = as_bytes ?t"
    using takeWhile_padded [of ?t "n - length ?t" "[]"] by (simp add: pad_field_def Let_def)
  then show ?thesis
    unfolding c_string_def by (simp add: from_utf8_lossy_valid truncate_utf8_valid assms(1) del: map_map)
qed

section \<open>Base32 against its bit string\<close>

text \<open>
  The reference: the bytes are the bit string of the digits, five bits each and most significant bit
  first, cut into whole bytes. The accumulator of the code is 32 bits wide and loses its old bits.
\<close>

definition bits_of :: "nat \<Rightarrow> 'a::len word \<Rightarrow> bool list" where
  "bits_of n w = map (bit w) (rev [0..<n])"

lemma length_bits_of [simp]: "length (bits_of n w) = n"
  by (simp add: bits_of_def)

lemma bits_of_0 [simp]: "bits_of 0 w = []"
  by (simp add: bits_of_def)

lemma bits_of_split: "m \<le> n \<Longrightarrow> bits_of n w = bits_of (n - m) (drop_bit m w) @ bits_of m w"
proof -
  assume "m \<le> n"
  then have u: "[0..<n] = [0..<m] @ map (\<lambda>i. i + m) [0..<n - m]"
    using upt_add_eq_append [of 0 m "n - m"] by (simp add: map_add_upt)
  show ?thesis unfolding bits_of_def u by (simp add: rev_map bit_drop_bit_eq add.commute comp_def)
qed

lemma bits_of_cong: "(\<And>i. i < n \<Longrightarrow> bit v i = bit w i) \<Longrightarrow> bits_of n v = bits_of n w"
  by (simp add: bits_of_def)

fun base32_vals :: "string list \<Rightarrow> 32 word list option" where
  "base32_vals [] = Some []"
| "base32_vals (c # cs) = (case base32_val c of
     None \<Rightarrow> None | Some v \<Rightarrow> map_option ((#) v) (base32_vals cs))"

lemma base32_val_nat: "base32_val c = Some v \<Longrightarrow> \<exists>m<32. v = of_nat m"
proof -
  assume v: "base32_val c = Some v"
  then obtain d where c: "c = [d]" by (auto simp: base32_val_def split: list.splits)
  show ?thesis
  proof (cases "65 \<le> cp d \<and> cp d \<le> 90")
    case True
    then show ?thesis using v unfolding c
      by (intro exI [of _ "cp d - 65"]) (auto simp: base32_val_def of_nat_diff)
  next
    case False
    then show ?thesis using v unfolding c
      by (intro exI [of _ "cp d - 24"]) (auto simp: base32_val_def of_nat_diff split: if_splits)
  qed
qed

lemma base32_val_bound: "base32_val c = Some v \<Longrightarrow> \<not> bit v i \<or> i < 5"
proof -
  assume "base32_val c = Some v"
  then obtain m :: nat where m: "m < 32" "v = of_nat m" using base32_val_nat by blast
  then have "take_bit 5 v = v" by (simp add: take_bit_of_nat take_bit_nat_eq_self del: take_bit_numeral_numeral)
  then show ?thesis by (metis bit_take_bit_iff)
qed

lemma bit_byte_mask: "i < 8 \<Longrightarrow> bit (0xFF :: 32 word) i \<and> bit (0xFF :: int) i \<and> bit (0xFF :: byte) i"
proof -
  assume "i < 8"
  then have "i = 0 \<or> i = 1 \<or> i = 2 \<or> i = 3 \<or> i = 4 \<or> i = 5 \<or> i = 6 \<or> i = 7" by arith
  then show ?thesis by (elim disjE) simp_all
qed

lemma base32_loop_None: "base32_loop bits n cs = None \<longleftrightarrow> base32_vals cs = None"
  by (induction cs arbitrary: bits n) (auto simp: Let_def split: option.split)

lemma base32_loop_bits:
  assumes "base32_loop bits n cs = Some out" "base32_vals cs = Some vs" "n < 8"
  shows "length out = (n + 5 * length vs) div 8 \<and>
    concat (map (bits_of 8) out) = take (8 * length out) (bits_of n bits @ concat (map (bits_of 5) vs))"
  using assms
proof (induction cs arbitrary: bits n out vs)
  case (Cons c cs)
  obtain v vs' where v: "base32_val c = Some v" "base32_vals cs = Some vs'" "vs = v # vs'"
    using Cons.prems(2) by (auto split: option.splits)
  define b where "b = push_bit 5 bits OR v"
  have bb: "bits_of (n + 5) b = bits_of n bits @ bits_of 5 v"
  proof -
    have "bits_of (n + 5) b = bits_of n (drop_bit 5 b) @ bits_of 5 b"
      using bits_of_split [of 5 "n + 5" b] by simp
    moreover have "bits_of n (drop_bit 5 b) = bits_of n bits"
      using base32_val_bound [OF v(1)] Cons.prems(3)
      by (intro bits_of_cong) (auto simp: b_def bit_simps)
    moreover have "bits_of 5 b = bits_of 5 v" by (rule bits_of_cong) (auto simp: b_def bit_simps)
    ultimately show ?thesis by simp
  qed
  show ?case
  proof (cases "8 \<le> n + 5")
    case False
    then have "base32_loop b (n + 5) cs = Some out"
      using Cons.prems(1) v(1) by (simp add: b_def Let_def)
    from Cons.IH [OF this v(2)] False show ?thesis
      by (simp add: v(3) bb algebra_simps)
  next
    case True
    define k where "k = n + 5 - 8"
    obtain out' where o: "base32_loop b k cs = Some out'"
        "out = ucast (drop_bit k b AND 0xFF) # out'"
      using Cons.prems(1) v(1) True by (auto simp: b_def k_def Let_def)
    have k: "k < 8" "n + 5 = 8 + k" using Cons.prems(3) True by (simp_all add: k_def)
    note ih = Cons.IH [OF o(1) v(2) k(1)]
    have "bits_of 8 (ucast (drop_bit k b AND 0xFF) :: byte) = bits_of 8 (drop_bit k b)"
      by (intro bits_of_cong) (auto simp: bit_simps bit_byte_mask)
    then have "bits_of n bits @ bits_of 5 v = bits_of 8 (ucast (drop_bit k b AND 0xFF) :: byte) @ bits_of k b"
      using bits_of_split [of k "8 + k" b] k(2) bb by simp
    then show ?thesis
      using ih k(2) by (simp add: v(3) o(2) flip: append_assoc)
  qed
qed simp

text \<open>
  C25: the base32 decoder is exact: it refuses a text exactly when some character is no base32 digit,
  and otherwise yields the whole bytes of the digits' bit string, although its 32 bit accumulator
  drops the bits that were shifted out.
\<close>

theorem base32_exact:
  "case base32_vals (base32_cleaned s) of
     None \<Rightarrow> base32_decode s = None
   | Some vs \<Rightarrow> \<exists>out. base32_decode s = Some out \<and> length out = 5 * length vs div 8 \<and>
       concat (map (bits_of 8) out) = take (8 * length out) (concat (map (bits_of 5) vs))"
proof (cases "base32_vals (base32_cleaned s)")
  case None
  then show ?thesis by (simp add: base32_decode_def base32_loop_None)
next
  case (Some vs)
  then obtain out where "base32_loop 0 0 (base32_cleaned s) = Some out"
    using base32_loop_None [of 0 0 "base32_cleaned s"] by auto
  then show ?thesis
    using base32_loop_bits [OF _ Some] Some by (auto simp: base32_decode_def)
qed

section \<open>From the form to the device\<close>

text \<open>The line of an import, as the daemon takes it apart.\<close>

lemma splitn_key_line:
  assumes "CHR '':'' \<notin> set verb" "CHR '':'' \<notin> set hex"
  shows "splitn 4 CHR '':'' (''KEY:'' @ verb @ '':'' @ hex) = [''KEY'', verb, hex]"
proof -
  have "''KEY:'' @ verb @ '':'' @ hex = join '':'' [''KEY'', verb, hex]" by (simp add: join_Cons)
  then show ?thesis using assms by (simp only:) (rule splitn_join, simp_all)
qed

lemma otp_payload_length: "length (build_otp_entry_payload e) = 60 + length (otp_secret e)"
  by (simp add: build_otp_entry_payload_def pad_field_length)

lemma add_otp_ok: "add_otp_cmd hx e = Ok line \<longleftrightarrow>
    0 < length (otp_secret e) \<and> length (otp_secret e) \<le> SECRET_LEN_OTP \<and>
    line = ''KEY:'' @ ''OTP_IMPORT'' @ '':'' @ hx (build_otp_entry_payload e)"
  by (auto simp: add_otp_cmd_def)

text \<open>
  C24: an OTP entry that the client accepts reaches the device complete: the daemon takes the line as
  an import of one entry, in which the device's own decoding finds the name and the issuer, cut to
  their field widths at a character boundary, and exactly the secret.
\<close>

theorem add_otp_reaches_device:
  assumes "add_otp_cmd (hexe cd) e = Ok line" "\<And>b. hexd cd (hexe cd b) = Ok b"
    "\<And>b. CHR '':'' \<notin> set (hexe cd b)" "is_connected (fst s)" "is_device_verified (fst s)"
    "utf8_valid (otp_name e)" "CHR 0x00 \<notin> set (otp_name e)"
    "utf8_valid (otp_service e)" "CHR 0x00 \<notin> set (otp_service e)"
  shows "\<exists>d. handle_key_command ch cd kc L line s = handle_key_import_inner L KEY_CAT_OTP d ''OTP'' KEY_MAX_OTP s \<and>
     name_entry_of KEY_CAT_OTP ''otp'' idx d = [\<lparr> entry_index = idx, category = ''otp'',
       entry_name = truncate_utf8 (otp_name e) 29, service = truncate_utf8 (otp_service e) 29 \<rparr>] \<and>
     drop 60 d = otp_secret e"
proof (intro exI conjI)
  let ?d = "build_otp_entry_payload e"
  note l = assms(1) [unfolded add_otp_ok]
  have sp: "splitn 4 CHR '':'' line = [''KEY'', ''OTP_IMPORT'', hexe cd ?d]"
    using l splitn_key_line [OF _ assms(3), of "''OTP_IMPORT''" ?d] by simp
  have "import_data cd (\<lambda>k. NAME_LEN_OTP + SERVICE_LEN_OTP < k \<and> k \<le> NAME_LEN_OTP + SERVICE_LEN_OTP + SECRET_LEN_OTP)
      want (hexe cd ?d) = Ok ?d" for want
    using l by (simp add: import_data_def assms(2) otp_payload_length)
  then show "handle_key_command ch cd kc L line s =
      handle_key_import_inner L KEY_CAT_OTP ?d ''OTP'' KEY_MAX_OTP s"
    using assms(4,5) by (simp add: handle_key_command_def sp Let_def key_import_def)
  have "slice 0 30 ?d = pad_field (otp_name e) 30" "slice 30 60 ?d = pad_field (otp_service e) 30"
    by (simp_all add: slice_def build_otp_entry_payload_def pad_field_length)
  then show "name_entry_of KEY_CAT_OTP ''otp'' idx ?d = [\<lparr> entry_index = idx, category = ''otp'',
       entry_name = truncate_utf8 (otp_name e) 29, service = truncate_utf8 (otp_service e) 29 \<rparr>]"
    using assms(6-9) by (simp add: name_entry_of_def name_len_def otp_payload_length c_string_pad_field Let_def)
  show "drop 60 ?d = otp_secret e"
    by (simp add: build_otp_entry_payload_def pad_field_length)
qed

text \<open>The hexadecimal codec, as the daemon's result type sees it.\<close>

definition hex_codecs :: codecs where
  "hex_codecs = sample_codecs\<lparr> hexd := (\<lambda>s. ok_or ''hex'' (unhex s)), hexe := hex_bytes \<rparr>"

lemma hex_codecs_laws:
  "hexd hex_codecs (hexe hex_codecs b) = Ok b" "CHR '':'' \<notin> set (hexe hex_codecs b)"
  using base64_lawD [OF hex_codec] hex_codec by (auto simp: hex_codecs_def base64_law_def)

definition sample_otp :: otp_entry where
  "sample_otp = \<lparr> otp_name = ''alice'', otp_service = ''GitHub'', otp_secret = [72, 101] \<rparr>"

theorem add_otp_reaches_device_witness:
  "\<exists>d. drop 60 d = [72, 101] \<and> name_entry_of KEY_CAT_OTP ''otp'' 0 d =
     [\<lparr> entry_index = 0, category = ''otp'', entry_name = ''alice'', service = ''GitHub'' \<rparr>]"
proof -
  let ?line = "''KEY:OTP_IMPORT:'' @ hexe hex_codecs (build_otp_entry_payload sample_otp)"
  let ?s = "(online\<lparr> is_device_verified := True \<rparr>, [] :: ble_command list)"
  have "add_otp_cmd (hexe hex_codecs) sample_otp = Ok ?line" by (simp add: add_otp_cmd_def sample_otp_def)
  from add_otp_reaches_device [OF this hex_codecs_laws(1) hex_codecs_laws(2), of ?s 1 empty_cache "recorder 3" 0]
  show ?thesis by (simp add: sample_otp_def online_def utf8_valid_ascii truncate_utf8_def) blast
qed

lemma trim_end_nl: "trim_end (s @ nl) = trim_end s"
  by (simp add: trim_end_def trim_front.simps [of _ "_ # _"] ws_seqs_def)

lemma secret_reply: "parse_secret_reply (''OK:'' @ v @ nl) = Ok (trim_end v)"
proof -
  have "trim (''OK'' @ CHR '':'' # v @ nl) = trim_start ''OK'' @ CHR '':'' # trim_end (v @ nl)"
    by (rule trim_barrier) (simp add: graphic_def)
  then show ?thesis by (simp add: parse_secret_reply_def trim_end_nl graphic_def)
qed

lemma add_api_ok: "add_api_cmd hx nm v = Ok line \<longleftrightarrow>
    0 < length v \<and> length v \<le> VALUE_LEN_API \<and>
    line = ''KEY:'' @ ''API_IMPORT'' @ '':'' @ hx (pad_field nm NAME_LEN_API @ as_bytes v)"
  by (auto simp: add_api_cmd_def build_key_add_cmd_def key_add_payload_def)

text \<open>
  Fact: an API value that the client accepts is stored and read back: the daemon takes the line as an
  import of one entry under the name cut to its field; from that entry, with whatever zeros the device
  appends, it answers GET with the value, which the client shows without its trailing white space.
\<close>

theorem add_api_reads_back:
  assumes "add_api_cmd (hexe cd) nm v = Ok line" "\<And>b. hexd cd (hexe cd b) = Ok b"
    "\<And>b. CHR '':'' \<notin> set (hexe cd b)" "is_connected (fst s)" "is_device_verified (fst s)"
    "utf8_valid nm" "CHR 0x00 \<notin> set nm" "utf8_valid v" "CHR 0x00 \<notin> set v"
  shows "\<exists>d. handle_key_command ch cd kc L line s = handle_key_import_inner L KEY_CAT_API d ''API'' KEY_MAX_API s \<and>
     name_entry_of KEY_CAT_API ''api'' idx d = [\<lparr> entry_index = idx, category = ''api'',
       entry_name = truncate_utf8 nm 31, service = [] \<rparr>] \<and>
     parse_secret_reply (decode_api_secret (d @ replicate k 0) nm) = Ok (trim_end v)"
proof (intro exI conjI)
  let ?d = "pad_field nm NAME_LEN_API @ as_bytes v"
  note l = assms(1) [unfolded add_api_ok]
  have len: "length ?d = 32 + length v" by (simp add: pad_field_length)
  have sp: "splitn 4 CHR '':'' line = [''KEY'', ''API_IMPORT'', hexe cd ?d]"
    using l splitn_key_line [OF _ assms(3), of "''API_IMPORT''" ?d] by simp
  have "import_data cd (\<lambda>k. NAME_LEN_API < k \<and> k \<le> NAME_LEN_API + VALUE_LEN_API) want (hexe cd ?d) = Ok ?d" for want
    using l len by (simp add: import_data_def assms(2))
  then show "handle_key_command ch cd kc L line s =
      handle_key_import_inner L KEY_CAT_API ?d ''API'' KEY_MAX_API s"
    using assms(4,5) by (simp add: handle_key_command_def sp Let_def key_import_def)
  have "slice 0 32 ?d = pad_field nm 32"
    by (simp add: slice_def pad_field_length)
  then show "name_entry_of KEY_CAT_API ''api'' idx ?d = [\<lparr> entry_index = idx, category = ''api'',
       entry_name = truncate_utf8 nm 31, service = [] \<rparr>]"
    using assms(6,7) len by (simp add: name_entry_of_def name_len_def c_string_pad_field Let_def)
  have "v \<noteq> []" using l by auto
  then have "decode_api_secret (pad_field nm NAME_LEN_API @ as_bytes v @ replicate k 0) nm = ''OK:'' @ v @ nl"
    using assms(8,9) by (intro api_secret_roundtrip) (simp_all add: pad_field_length)
  then show "parse_secret_reply (decode_api_secret (?d @ replicate k 0) nm) = Ok (trim_end v)"
    using secret_reply [of v] by simp
qed

theorem add_api_reads_back_witness:
  "\<exists>d. parse_secret_reply (decode_api_secret (d @ replicate 100 0) ''ai'') = Ok (trim_end ''sk-1'')"
proof -
  let ?line = "build_key_add_cmd (hexe hex_codecs) AddApi ''ai'' [] (as_bytes ''sk-1'')"
  let ?s = "(online\<lparr> is_device_verified := True \<rparr>, [] :: ble_command list)"
  have "add_api_cmd (hexe hex_codecs) ''ai'' ''sk-1'' = Ok ?line" by (simp add: add_api_cmd_def)
  from add_api_reads_back [OF this hex_codecs_laws(1) hex_codecs_laws(2), of ?s 1 empty_cache "recorder 3" 0 100]
  show ?thesis by (simp add: online_def utf8_valid_ascii del: replicate.simps) blast
qed

section \<open>Import files\<close>

definition entry_fits :: "otp_entry \<Rightarrow> bool" where
  "entry_fits e \<longleftrightarrow> otp_name e \<noteq> [] \<and> length (otp_name e) < NAME_LEN_OTP \<and>
     length (otp_service e) < SERVICE_LEN_OTP \<and> otp_secret e \<noteq> []"

lemma split_otp_fields_bounds:
  "split_otp_fields i l = (svc, nm) \<Longrightarrow> length svc < 30 \<and> length nm < 30"
proof -
  have "length (truncate_utf8 t 29) < 30" for t using truncate_utf8_length [of t 29] by simp
  then show "split_otp_fields i l = (svc, nm) \<Longrightarrow> length svc < 30 \<and> length nm < 30"
    by (auto simp: split_otp_fields_def Let_def split: prod.splits if_splits option.splits)
qed

lemma otp_labels_bounds: "otp_labels i p = (svc, nm) \<Longrightarrow> length svc < 30 \<and> length nm < 30"
  by (auto simp: otp_labels_def dest: split_otp_fields_bounds split: if_splits option.splits prod.splits)

lemma parse_otpauth_fits: "parse_otpauth_uri lc uc uri = Some e \<Longrightarrow> entry_fits e"
  by (auto simp: parse_otpauth_uri_def entry_fits_def Let_def bind_eq_Some_conv
      dest: otp_labels_bounds split: prod.splits if_splits)

lemma andotp_fits: "andotp_entry J uc v = Some e \<Longrightarrow> entry_fits e"
  by (auto simp: andotp_entry_def entry_fits_def Let_def dest: split_otp_fields_bounds
      split: prod.splits if_splits option.splits list.splits)

lemma set_map_filter: "set (List.map_filter f xs) = {y. \<exists>x\<in>set xs. f x = Some y}"
  by (force simp: List.map_filter_def)

text \<open>
  C26: what an import file yields can be written: a file is accepted only with at least one entry; every
  entry has a non-empty secret and a non-empty name, with name and issuer short enough for their fields
  and their terminating NUL, so that the layout cuts neither a second time; the length of the secret is
  not checked on import: an entry can be sent exactly when its secret has at most 32 bytes, and a longer
  one is refused before anything is sent.
\<close>

theorem import_entries_fit:
  assumes "parse_otp_import_file J lc uc path content = Ok (es, skipped)"
  shows "es \<noteq> [] \<and> list_all entry_fits es \<and>
    list_all (\<lambda>e. build_otp_entry_payload e =
      as_bytes (otp_name e) @ replicate (30 - length (otp_name e)) 0 @
      as_bytes (otp_service e) @ replicate (30 - length (otp_service e)) 0 @ otp_secret e) es \<and>
    list_all (\<lambda>e. is_ok (add_otp_cmd hx e) \<longleftrightarrow> length (otp_secret e) \<le> SECRET_LEN_OTP) es"
proof -
  have es: "es \<noteq> [] \<and> list_all entry_fits es"
    using assms parse_otpauth_fits andotp_fits
    by (auto simp: parse_otp_import_file_def parse_csv_otpauth_def parse_andotp_json_def list_all_iff
        set_map_filter bind_eq_Some_conv Let_def split: if_splits option.splits)
  have "build_otp_entry_payload e =
      as_bytes (otp_name e) @ replicate (30 - length (otp_name e)) 0 @
      as_bytes (otp_service e) @ replicate (30 - length (otp_service e)) 0 @ otp_secret e" if "entry_fits e" for e
    using that by (simp add: entry_fits_def build_otp_entry_payload_def pad_field_def truncate_utf8_def Let_def)
  moreover have "is_ok (add_otp_cmd hx e) \<longleftrightarrow> length (otp_secret e) \<le> SECRET_LEN_OTP" if "entry_fits e" for e
    using that by (simp add: entry_fits_def add_otp_cmd_def)
  ultimately show ?thesis using es by (simp add: list_all_iff)
qed

definition no_json :: "unit json_reader" where
  "no_json = \<lparr> json_array = (\<lambda>_. None), get_str = (\<lambda>_ _. None), get_u64 = (\<lambda>_ _. None) \<rparr>"

lemma sample_uri: "parse_otpauth_uri id id ''otpauth://totp/B?secret=JBSWY3DP'' =
    Some \<lparr> otp_name = ''B'', otp_service = [], otp_secret = [72, 101, 108, 108, 111] \<rparr>"
proof -
  have b: "base32_decode ''JBSWY3DP'' = Some [72, 101, 108, 108, 111]"
    by (simp add: base32_decode_def base32_cleaned_def base32_val_def ascii_upper_def ws_seqs_def
        char_of_def bit_Suc_0_iff)
  show ?thesis
    by (simp add: parse_otpauth_uri_def trim_graphic graphic_def eq_ignore_ascii_case_def url_decode_def
        otp_query_of_def otp_query_pair_def b otp_labels_def split_otp_fields_def truncate_utf8_def)
qed

theorem import_entries_fit_witness:
  "\<exists>es. parse_otp_import_file no_json id id ''x.csv'' ''otpauth://totp/B?secret=JBSWY3DP'' = Ok (es, 0) \<and>
     es \<noteq> [] \<and> list_all entry_fits es"
proof -
  have p: "parse_otp_import_file no_json id id ''x.csv'' ''otpauth://totp/B?secret=JBSWY3DP'' =
      Ok ([\<lparr> otp_name = ''B'', otp_service = [], otp_secret = [72, 101, 108, 108, 111] \<rparr>], 0)"
    by (simp add: parse_otp_import_file_def path_extension_def path_file_name_def eq_ignore_ascii_case_def
        parse_csv_otpauth_def lines_def trim_graphic graphic_def sample_uri List.map_filter_def)
  from import_entries_fit [OF p] show ?thesis using p by blast
qed

end
