(* ===== verification/Ssh_Config.thy ===== *)
theory Ssh_Config
  imports Utf8
begin

text \<open>
  The managed block in \<open>~/.ssh/config\<close> (\<open>immurok-common/src/ssh_config.rs\<close>): its text, finding and
  removing it, and the toggle's \<open>enable\<close> and \<open>disable\<close> on a home directory whose file operations may
  each fail. The invariant is a contract of \<open>event_machine\<close>, with the toggles as events.
\<close>

definition BLOCK_BEGIN :: string where
  "BLOCK_BEGIN = ''# >>> immurok managed '' @ [CHR 0xE2, CHR 0x80, CHR 0x94] @
     '' do not edit (toggle in immurok app) >>>''"

definition BLOCK_END :: string where
  "BLOCK_END = ''# <<< immurok managed <<<''"

abbreviation LF :: char where "LF \<equiv> CHR 0x0A"

definition block :: "string \<Rightarrow> string" where
  "block sock = BLOCK_BEGIN @ [LF] @ ''Host *'' @ [LF] @ ''    IdentityAgent '' @ sock @ [LF] @ BLOCK_END @ [LF]"

abbreviation trim_nl :: "string \<Rightarrow> string" where
  "trim_nl \<equiv> trim_matches (\<lambda>c. c = LF)"

definition strip_block :: "string \<Rightarrow> string" where
  "strip_block content =
     (let ls = lines content in
      case index_of (\<lambda>l. trim l = BLOCK_BEGIN) ls of
        None \<Rightarrow> content
      | Some b \<Rightarrow> (case index_of (\<lambda>l. trim l = BLOCK_END) (drop (b + 1) ls) of
          None \<Rightarrow> content
        | Some rel \<Rightarrow> trim_nl (join [LF] (take b ls @ drop (b + 1 + rel + 1) ls))))"

section \<open>The file\<close>

text \<open>
  \<open>config\<close> is the content of the file, if it exists; its permissions and those of the directory are
  flags. \<open>cfg_io\<close> says which file operations succeed.
\<close>

record ssh_home =
  config :: "string option"
  config_private :: bool
  dir_private :: bool

record cfg_io =
  mkdir_ok :: bool
  dir_chmod_ok :: bool
  readable :: bool
  tmp_write_ok :: bool
  tmp_chmod_ok :: bool
  rename_ok :: bool

datatype read_error = NotFound | Unreadable

definition read_config :: "cfg_io \<Rightarrow> ssh_home \<Rightarrow> (string, read_error) result" where
  "read_config io h = (case config h of
     None \<Rightarrow> Err NotFound
   | Some s \<Rightarrow> if readable io \<and> utf8_valid s then Ok s else Err Unreadable)"

definition write_atomic :: "cfg_io \<Rightarrow> string \<Rightarrow> ssh_home \<Rightarrow> bool \<times> ssh_home" where
  "write_atomic io content h =
     (if tmp_write_ok io \<and> tmp_chmod_ok io \<and> rename_ok io
      then (True, h\<lparr> config := Some content, config_private := True \<rparr>) else (False, h))"

definition managed_content :: "string \<Rightarrow> string \<Rightarrow> string" where
  "managed_content sock body = block sock @ (if body = [] then [] else [LF] @ body @ [LF])"

definition enable :: "cfg_io \<Rightarrow> string \<Rightarrow> ssh_home \<Rightarrow> bool \<times> ssh_home" where
  "enable io sock h =
     (if \<not> mkdir_ok io then (False, h)
      else if \<not> dir_chmod_ok io then (False, h)
      else let h1 = h\<lparr> dir_private := True \<rparr>;
               existing = (case read_config io h1 of Ok s \<Rightarrow> s | Err _ \<Rightarrow> [])
           in write_atomic io (managed_content sock (strip_block existing)) h1)"

definition disable :: "cfg_io \<Rightarrow> ssh_home \<Rightarrow> bool \<times> ssh_home" where
  "disable io h = (case read_config io h of
     Err NotFound \<Rightarrow> (True, h)
   | Err Unreadable \<Rightarrow> (False, h)
   | Ok existing \<Rightarrow>
       if \<not> contains_str BLOCK_BEGIN existing then (True, h)
       else let body = strip_block existing
            in write_atomic io (if body = [] then [] else body @ [LF]) h)"

definition is_enabled :: "cfg_io \<Rightarrow> ssh_home \<Rightarrow> bool" where
  "is_enabled io h = (case read_config io h of Ok s \<Rightarrow> contains_str BLOCK_BEGIN s | Err _ \<Rightarrow> False)"

text \<open>\<open>apply\<close> with the home directory and the agent socket resolved.\<close>

definition apply_toggle :: "cfg_io \<Rightarrow> string \<Rightarrow> bool \<Rightarrow> ssh_home \<Rightarrow> bool \<times> ssh_home" where
  "apply_toggle io sock en h = (if en then enable io sock h else disable io h)"

section \<open>Lines\<close>

lemma lines_Cons_line: "LF \<notin> set l \<Longrightarrow> lines (l @ LF # s) = chop_cr l # lines s"
  by (cases "split_on LF s") (simp_all add: lines_def)

lemma chop_cr_free: "CHR 0x0D \<notin> set l \<Longrightarrow> chop_cr l = l"
  by (metis chop_cr_def last_in_set)

lemma lines_of_nl: "ls \<noteq> [] \<Longrightarrow> lines_of (ls @ [[]]) = map chop_cr ls"
  by (induction ls rule: lines_of.induct) auto

lemma split_on_snoc: "split_on c (s @ [c]) = split_on c s @ [[]]"
  by (induction s) (auto split: list.splits)

lemma split_on_subset: "p \<in> set (split_on c s) \<Longrightarrow> set p \<subseteq> set s"
proof -
  assume "p \<in> set (split_on c s)"
  then obtain xs ys where "split_on c s = xs @ p # ys" by (meson split_list)
  then have "s = join [c] (xs @ p # ys)" by (metis join_split_on)
  moreover have "set p \<subseteq> set (join [c] (xs @ p # ys))"
    by (induction xs) (auto simp: join_Cons, cases ys, auto simp: join_Cons)
  ultimately show ?thesis by simp
qed

lemma lines_snoc:
  assumes "CHR 0x0D \<notin> set s"
  shows "lines (s @ [LF]) = split_on LF s"
proof -
  have "chop_cr p = p" if "p \<in> set (split_on LF s)" for p
    using split_on_subset [OF that] assms by (intro chop_cr_free) auto
  then show ?thesis by (simp add: lines_def split_on_snoc lines_of_nl map_idI)
qed

lemma contains_str_iff: "contains_str p s \<longleftrightarrow> (\<exists>a b. s = a @ p @ b)"
proof (induction s)
  case (Cons c s)
  then show ?case
    by (auto simp: starts_with_iff) (metis Cons_eq_append_conv append_assoc append_Cons)+
qed auto

text \<open>A text is clean when it is UTF-8, has no carriage return and nowhere the marker.\<close>

definition clean_text :: "string \<Rightarrow> bool" where
  "clean_text t \<longleftrightarrow> utf8_valid t \<and> CHR 0x0D \<notin> set t \<and> \<not> contains_str BLOCK_BEGIN t"

lemma trim_nl_infix: "\<exists>a b. t = a @ trim_nl t @ b \<and> ascii a \<and> ascii b"
proof -
  let ?P = "\<lambda>c. c = LF" and ?m = "dropWhile (\<lambda>c. c = LF) t"
  have asc: "ascii (takeWhile ?P x)" for x
    unfolding ascii_def using set_takeWhileD [of _ ?P x] by fastforce
  have "rev ?m = takeWhile ?P (rev ?m) @ dropWhile ?P (rev ?m)" by simp
  then have "?m = trim_nl t @ rev (takeWhile ?P (rev ?m))"
    unfolding trim_matches_def by (metis rev_append rev_rev_ident)
  then have "t = takeWhile ?P t @ trim_nl t @ rev (takeWhile ?P (rev ?m))"
    by (metis takeWhile_dropWhile_id)
  moreover have "ascii (rev (takeWhile ?P (rev ?m)))" using asc [of "rev ?m"] by (simp add: ascii_def)
  ultimately show ?thesis using asc by blast
qed

lemma clean_trim_nl: "clean_text t \<Longrightarrow> clean_text (trim_nl t)"
proof -
  assume t: "clean_text t"
  obtain a b where e: "t = a @ trim_nl t @ b" "ascii a" "ascii b" using trim_nl_infix by blast
  define u where "u = trim_nl t"
  have e': "t = a @ u @ b" using e(1) by (simp add: u_def)
  have "utf8_valid u" using utf8_valid_strip [of a u b] t e(2,3) e' by (simp add: clean_text_def)
  moreover have "\<not> contains_str BLOCK_BEGIN u"
  proof
    assume "contains_str BLOCK_BEGIN u"
    then obtain x y where "u = x @ BLOCK_BEGIN @ y" unfolding contains_str_iff by blast
    then have "t = (a @ x) @ BLOCK_BEGIN @ (y @ b)" using e' by simp
    then show False using t unfolding clean_text_def contains_str_iff by blast
  qed
  ultimately show "clean_text (trim_nl t)"
    using t e' unfolding u_def [symmetric] clean_text_def by auto
qed

lemma clean_line:
  assumes "clean_text t" "l \<in> set (split_on LF t)"
  shows "trim l \<noteq> BLOCK_BEGIN"
proof
  assume b: "trim l = BLOCK_BEGIN"
  have "\<exists>x y. t = x @ l @ y"
  proof -
    obtain xs ys where "split_on LF t = xs @ l # ys" using assms(2) by (meson split_list)
    then have "t = join [LF] (xs @ l # ys)" by (metis join_split_on)
    moreover have "\<exists>x y. join [LF] (xs @ l # ys) = x @ l @ y"
    proof (induction xs)
      case Nil
      then show ?case by (cases ys) (auto simp: join_Cons intro: exI [of _ "[]"])
    next
      case (Cons w xs)
      then obtain x y where "join [LF] (xs @ l # ys) = x @ l @ y" by blast
      then have "join [LF] ((w # xs) @ l # ys) = (w @ [LF] @ x) @ l @ y" by (simp add: join_Cons)
      then show ?case by blast
    qed
    ultimately show ?thesis by simp
  qed
  moreover obtain a c where "l = a @ BLOCK_BEGIN @ c" using trim_infix [of l] b by metis
  ultimately obtain x y where "t = (x @ a) @ BLOCK_BEGIN @ (c @ y)" by auto
  then show False using assms(1) unfolding clean_text_def contains_str_iff by blast
qed

lemma trim_nl_append_nl: "trim_nl (t @ [LF]) = trim_nl t" "trim_nl (LF # t) = trim_nl t"
proof -
  show "trim_nl (t @ [LF]) = trim_nl t"
  proof (cases "\<forall>c\<in>set t. c = LF")
    case True
    then have "dropWhile (\<lambda>c. c = LF) t = []" "dropWhile (\<lambda>c. c = LF) (t @ [LF]) = []" by simp_all
    then show ?thesis by (simp only: trim_matches_def)
  next
    case False
    then have "dropWhile (\<lambda>c. c = LF) (t @ [LF]) = dropWhile (\<lambda>c. c = LF) t @ [LF]"
      by (auto simp: dropWhile_append)
    then show ?thesis by (simp add: trim_matches_def)
  qed
  show "trim_nl (LF # t) = trim_nl t" by (simp add: trim_matches_def)
qed

lemma trim_nl_idem [simp]: "trim_nl (trim_nl t) = trim_nl t"
proof (cases "trim_nl t = []")
  case False
  have "\<not> P (hd (trim_matches P s)) \<and> \<not> P (last (trim_matches P s))" if "trim_matches P s \<noteq> []"
    for P and s :: string
  proof -
    let ?m = "dropWhile P s" and ?r = "dropWhile P (rev (dropWhile P s))"
    have r: "?r \<noteq> []" using that by (simp add: trim_matches_def)
    have "\<not> P (hd ?r)" using hd_dropWhile [OF r] .
    moreover have "?m \<noteq> []" using r by (metis dropWhile.simps(1) rev.simps(1))
    then have "\<not> P (hd ?m)" by (rule hd_dropWhile)
    moreover obtain u where "rev ?m = u @ ?r" by (metis takeWhile_dropWhile_id)
    then have "?m = rev ?r @ rev u" by (metis rev_append rev_rev_ident)
    then have "hd ?m = hd (rev ?r)" using r by (metis Nil_is_rev_conv hd_append2)
    ultimately show ?thesis using r by (simp add: trim_matches_def last_rev)
  qed
  from this [OF False] show ?thesis using False by (intro trim_matches_id) auto
qed simp

lemma lines_of_subset: "l \<in> set (lines_of ls) \<Longrightarrow> l \<in> set ls \<or> l \<in> chop_cr ` set ls"
  by (induction ls rule: lines_of.induct) (auto split: if_splits)

lemma strip_clean: "clean_text t \<Longrightarrow> strip_block t = t"
proof -
  assume t: "clean_text t"
  have "trim l \<noteq> BLOCK_BEGIN" if l: "l \<in> set (lines t)" for l
  proof -
    obtain p where p: "p \<in> set (split_on LF t)" "l = p \<or> l = chop_cr p"
      using lines_of_subset [of l "split_on LF t"] l by (auto simp: lines_def)
    have "CHR 0x0D \<notin> set p" using split_on_subset [OF p(1)] t by (auto simp: clean_text_def)
    then have "l = p" using p(2) chop_cr_free by auto
    then show ?thesis using clean_line [OF t p(1)] by simp
  qed
  then have "index_of (\<lambda>l. trim l = BLOCK_BEGIN) (lines t) = None" by (simp add: index_of_None)
  then show ?thesis by (simp add: strip_block_def)
qed

text \<open>A text without line ends, as a socket path is.\<close>

definition plain_path :: "string \<Rightarrow> bool" where
  "plain_path p \<longleftrightarrow> utf8_valid p \<and> LF \<notin> set p \<and> CHR 0x0D \<notin> set p"

lemma trim_markers:
  "trim BLOCK_BEGIN = BLOCK_BEGIN" "trim BLOCK_END = BLOCK_END" "trim ''Host *'' = ''Host *''"
  by (rule trim_graphic; simp add: BLOCK_BEGIN_def BLOCK_END_def graphic_def)+

lemma trim_agent_line: "trim (''    IdentityAgent '' @ p) \<noteq> BLOCK_END"
proof -
  have "trim (''    '' @ CHR ''I'' # ''dentityAgent '' @ p) = trim_start ''    '' @ CHR ''I'' # trim_end (''dentityAgent '' @ p)"
    by (rule trim_barrier) (simp add: graphic_def)
  moreover have "trim_start ''    '' = []"
    by (simp add: trim_start_def trim_front.simps [of _ "_ # _"] ws_seqs_def)
  ultimately show ?thesis by (simp add: BLOCK_END_def)
qed

lemma lines_plain:
  "\<forall>l\<in>set ls. plain_path l \<Longrightarrow> lines (concat (map (\<lambda>l. l @ [LF]) ls) @ rest) = ls @ lines rest"
  by (induction ls) (simp_all add: lines_Cons_line chop_cr_free plain_path_def)

lemma utf8_valid_dash [simp]: "utf8_valid (CHR 0xE2 # CHR 0x80 # CHR 0x94 # s) = utf8_valid s"
  by (subst utf8_valid.simps) (simp add: utf8_head_def nth_in_def)

lemma lines_block:
  assumes "plain_path sock"
  shows "lines (block sock @ rest) = [BLOCK_BEGIN, ''Host *'', ''    IdentityAgent '' @ sock, BLOCK_END] @ lines rest"
proof -
  have "\<forall>l\<in>set [BLOCK_BEGIN, ''Host *'', ''    IdentityAgent '' @ sock, BLOCK_END]. plain_path l"
    using assms by (simp add: BLOCK_BEGIN_def BLOCK_END_def plain_path_def)
  from lines_plain [OF this, of rest] show ?thesis by (simp add: block_def)
qed

lemma strip_managed:
  assumes "plain_path sock" "clean_text t"
  shows "strip_block (managed_content sock t) = trim_nl t"
proof -
  let ?rest = "if t = [] then [] else [LF] @ t @ [LF]"
  have rest: "trim_nl (join [LF] (lines ?rest)) = trim_nl t"
  proof (cases "t = []")
    case True
    then show ?thesis by (simp add: lines_def)
  next
    case False
    have "lines (LF # t @ [LF]) = [] # split_on LF t"
      using lines_Cons_line [of "[]" "t @ [LF]"] lines_snoc [of t] assms(2)
      by (simp add: clean_text_def chop_cr_def)
    then show ?thesis using False by (simp add: join_Cons trim_nl_append_nl)
  qed
  have h: "''Host *'' \<noteq> BLOCK_END" by (simp add: BLOCK_END_def)
  have "strip_block (managed_content sock t) = trim_nl (join [LF] (lines ?rest))"
    unfolding strip_block_def managed_content_def lines_block [OF assms(1)]
    using trim_markers trim_agent_line [of sock] h by (simp add: Let_def)
  then show ?thesis using rest by simp
qed

lemma contains_managed: "contains_str BLOCK_BEGIN (managed_content sock t)"
  unfolding contains_str_iff managed_content_def block_def by (metis append_Nil append_assoc)

section \<open>The toggles\<close>

text \<open>
  An event is a toggle with the operations that succeed during it; enabling carries the socket path.
  The state of the file after any number of them: absent, the user's text, or the block above it.
\<close>

type_synonym toggle = "cfg_io \<times> string option"

definition toggle_step :: "toggle \<Rightarrow> ssh_home \<Rightarrow> ssh_home" where
  "toggle_step t h = (case t of (io, Some sock) \<Rightarrow> snd (enable io sock h) | (io, None) \<Rightarrow> snd (disable io h))"

definition user_text :: "string \<Rightarrow> string \<Rightarrow> bool" where
  "user_text s t \<longleftrightarrow> clean_text t \<and> trim_nl t = trim_nl s"

definition toggled :: "string \<Rightarrow> ssh_home \<Rightarrow> bool" where
  "toggled s h \<longleftrightarrow> (case config h of
     None \<Rightarrow> trim_nl s = []
   | Some c \<Rightarrow> user_text s c \<or> (\<exists>sock t. plain_path sock \<and> user_text s t \<and> c = managed_content sock t))"

lemma toggled_block:
  "plain_path sock \<Longrightarrow> user_text s t \<Longrightarrow> config h = Some (managed_content sock t) \<Longrightarrow> toggled s h"
  unfolding toggled_def by (simp, blast)

lemma user_text_trim: "user_text s t \<Longrightarrow> user_text s (trim_nl t)"
  using clean_trim_nl [of t] by (simp add: user_text_def)

lemma user_text_norm:
  "user_text s t \<Longrightarrow> user_text s (if trim_nl t = [] then [] else trim_nl t @ [LF])"
proof -
  assume t: "user_text s t"
  then have c: "clean_text (trim_nl t)" using clean_trim_nl [of t] by (simp add: user_text_def)
  have "\<not> contains_str BLOCK_BEGIN (trim_nl t @ [LF])"
  proof
    assume "contains_str BLOCK_BEGIN (trim_nl t @ [LF])"
    then obtain a b where e: "trim_nl t @ [LF] = a @ BLOCK_BEGIN @ b" unfolding contains_str_iff by blast
    have "b \<noteq> []"
    proof
      assume "b = []"
      then have "last (trim_nl t @ [LF]) = last BLOCK_BEGIN" using e by (simp add: BLOCK_BEGIN_def)
      then show False by (simp add: BLOCK_BEGIN_def)
    qed
    then have "trim_nl t = a @ BLOCK_BEGIN @ butlast b"
      using arg_cong [OF e, of butlast] by (simp add: butlast_append BLOCK_BEGIN_def)
    then show False using c unfolding clean_text_def contains_str_iff by blast
  qed
  then show ?thesis
    using t c trim_nl_append_nl(1) [of "trim_nl t"]
    by (auto simp: user_text_def clean_text_def utf8_valid_append)
qed

lemma strip_user: "user_text s t \<Longrightarrow> strip_block t = t"
  by (simp add: user_text_def strip_clean)

lemma managed_valid: "plain_path sock \<Longrightarrow> utf8_valid t \<Longrightarrow> utf8_valid (managed_content sock t)"
  by (simp add: managed_content_def block_def BLOCK_BEGIN_def BLOCK_END_def plain_path_def utf8_valid_append)

lemma toggled_valid: "toggled s h \<Longrightarrow> config h = Some c \<Longrightarrow> utf8_valid c"
  by (auto simp: toggled_def user_text_def clean_text_def managed_valid)

lemma write_atomic_cases: "snd (write_atomic io c h) = h \<or> config (snd (write_atomic io c h)) = Some c"
  by (simp add: write_atomic_def)

lemma enable_toggled:
  assumes "toggled s h" "plain_path sock" "readable io"
  shows "toggled s (snd (enable io sock h))"
proof -
  let ?h = "h\<lparr> dir_private := True \<rparr>"
  have keep: "toggled s ?h" using assms(1) by (simp add: toggled_def)
  obtain body where b: "strip_block (case read_config io ?h of Ok s \<Rightarrow> s | Err _ \<Rightarrow> []) = body" "user_text s body"
  proof (cases "config h")
    case None
    have "strip_block [] = []" by (simp add: strip_block_def lines_def)
    moreover have "user_text s []"
      using assms(1) None by (simp add: toggled_def user_text_def clean_text_def BLOCK_BEGIN_def)
    ultimately show ?thesis using that None by (simp add: read_config_def)
  next
    case (Some c)
    then have r: "read_config io ?h = Ok c"
      using assms(3) toggled_valid [OF assms(1) Some] by (simp add: read_config_def)
    from assms(1) Some have "user_text s c \<or> (\<exists>sock t. plain_path sock \<and> user_text s t \<and> c = managed_content sock t)"
      by (simp add: toggled_def)
    then have "user_text s (strip_block c)"
      using strip_user strip_managed user_text_trim by (auto simp: user_text_def)
    then show ?thesis using that r by simp
  qed
  have "toggled s (snd (write_atomic io (managed_content sock body) ?h))"
    using write_atomic_cases [of io "managed_content sock body" ?h] keep toggled_block [OF assms(2) b(2)]
    by metis
  then show ?thesis using assms(1) b(1) by (simp add: enable_def Let_def)
qed

lemma disable_toggled:
  assumes "toggled s h"
  shows "toggled s (snd (disable io h))"
proof (cases "read_config io h")
  case (Err e)
  then show ?thesis using assms by (cases e) (simp_all add: disable_def)
next
  case (Ok c)
  then have cfg: "config h = Some c" by (auto simp: read_config_def split: option.splits if_splits)
  show ?thesis
  proof (cases "contains_str BLOCK_BEGIN c")
    case False
    then show ?thesis using assms Ok by (simp add: disable_def)
  next
    case True
    then obtain sock t where t: "plain_path sock" "user_text s t" "c = managed_content sock t"
      using assms cfg by (auto simp: toggled_def user_text_def clean_text_def)
    have "strip_block c = trim_nl t"
      using strip_managed [OF t(1)] t(2,3) by (simp add: user_text_def)
    then show ?thesis
      using Ok True user_text_norm [OF t(2)] assms write_atomic_cases
      by (auto simp: disable_def Let_def toggled_def write_atomic_def)
  qed
qed

text \<open>Toggles whose socket path is one line, with a file that can be read.\<close>

definition sane_toggle :: "toggle \<Rightarrow> bool" where
  "sane_toggle t \<longleftrightarrow> readable (fst t) \<and> (case snd t of Some sock \<Rightarrow> plain_path sock | None \<Rightarrow> True)"

interpretation ssh_toggles: event_machine "\<lambda>t h. if sane_toggle t then toggle_step t h else h" "toggled s"
  by unfold_locales
    (auto simp: toggle_step_def sane_toggle_def split: prod.splits option.splits
      intro: enable_toggled disable_toggled)

lemma fold_sane: "list_all sane_toggle ts \<Longrightarrow>
    fold (\<lambda>t h. if sane_toggle t then toggle_step t h else h) ts h = fold toggle_step ts h"
  by (induction ts arbitrary: h) simp_all

text \<open>What the toggle leaves of the user's text.\<close>

definition user_part :: "string option \<Rightarrow> string" where
  "user_part c = (case c of None \<Rightarrow> [] | Some s \<Rightarrow> trim_nl (strip_block s))"

lemma toggled_user_part: "toggled s h \<Longrightarrow> user_part (config h) = trim_nl s"
  by (auto simp: toggled_def user_part_def user_text_def strip_clean strip_managed split: option.splits)

text \<open>
  C30: the toggle keeps the user's part of a SSH configuration that it can read: when the file is UTF-8
  without carriage returns and without a line that looks like the program's own markers, then after any
  sequence of enabling and disabling, each with a readable file and a socket path of one line, and with
  any failures of the writing steps, the file outside the managed block is the user's text, up to the
  newlines at its two ends. (What happens to a file that cannot be read is the next fact.)
\<close>

theorem toggles_keep_user_text:
  assumes "clean_text s" "config h = Some s" "list_all sane_toggle ts"
  shows "user_part (config (fold toggle_step ts h)) = trim_nl s"
proof -
  have "toggled s h" using assms(1,2) by (simp add: toggled_def user_text_def)
  from ssh_toggles.run_inv [OF this, of ts] show ?thesis
    unfolding fold_sane [OF assms(3)] by (rule toggled_user_part)
qed

definition all_ok :: cfg_io where
  "all_ok = \<lparr> mkdir_ok = True, dir_chmod_ok = True, readable = True, tmp_write_ok = True,
     tmp_chmod_ok = True, rename_ok = True \<rparr>"

definition user_home :: "string \<Rightarrow> ssh_home" where
  "user_home s = \<lparr> config = Some s, config_private = False, dir_private = False \<rparr>"

theorem toggles_keep_user_text_witness:
  "user_part (config (fold toggle_step [(all_ok, Some ''/run/a''), (all_ok, Some ''/run/b''), (all_ok, None)]
     (user_home (''Host keep'' @ [LF])))) = ''Host keep''"
proof -
  have "clean_text (''Host keep'' @ [LF])"
    by (simp add: clean_text_def utf8_valid_ascii BLOCK_BEGIN_def)
  from toggles_keep_user_text [OF this, of "user_home (''Host keep'' @ [LF])"
      "[(all_ok, Some ''/run/a''), (all_ok, Some ''/run/b''), (all_ok, None)]"]
  show ?thesis
    by (simp add: user_home_def sane_toggle_def plain_path_def all_ok_def utf8_valid_ascii trim_matches_def)
qed

text \<open>
  Fact: enabling the takeover over a configuration that cannot be read, or that is not UTF-8, succeeds
  and replaces the whole file: the failed read counts as an empty file, so that the user's text is gone,
  and disabling afterwards does not bring it back.
\<close>

theorem enable_drops_unreadable:
  assumes "read_config io h = Err Unreadable" "mkdir_ok io" "dir_chmod_ok io" "tmp_write_ok io"
    "tmp_chmod_ok io" "rename_ok io" "plain_path sock"
  shows "fst (enable io sock h) \<and> config (snd (enable io sock h)) = Some (block sock) \<and>
    config (snd (disable all_ok (snd (enable io sock h)))) = Some []"
proof (intro conjI)
  have "read_config io (h\<lparr> dir_private := True \<rparr>) = Err Unreadable"
    using assms(1) by (simp add: read_config_def)
  moreover have "strip_block [] = []" by (simp add: strip_block_def lines_def)
  ultimately have e: "enable io sock h = (True, h\<lparr> dir_private := True, config := Some (block sock), config_private := True \<rparr>)"
    using assms by (simp add: enable_def Let_def write_atomic_def managed_content_def)
  then show "fst (enable io sock h)" "config (snd (enable io sock h)) = Some (block sock)" by simp_all
  have m: "block sock = managed_content sock []" by (simp add: managed_content_def)
  have c: "clean_text []" by (simp add: clean_text_def BLOCK_BEGIN_def)
  show "config (snd (disable all_ok (snd (enable io sock h)))) = Some []"
    using strip_managed [OF assms(7) c] managed_valid [OF assms(7), of "[]"] contains_managed [of sock "[]"]
    unfolding e m by (simp add: disable_def read_config_def all_ok_def Let_def write_atomic_def)
qed

theorem enable_drops_unreadable_witness:
  "config (snd (enable all_ok ''/run/a'' (user_home (''# caf'' @ [CHR 0xE9])))) = Some (block ''/run/a'')"
proof -
  have "read_config all_ok (user_home (''# caf'' @ [CHR 0xE9])) = Err Unreadable"
    by (simp add: read_config_def user_home_def) (subst utf8_valid.simps, simp add: utf8_head_def nth_in_def)
  then show ?thesis
    using enable_drops_unreadable [of all_ok "user_home (''# caf'' @ [CHR 0xE9])" "''/run/a''"]
    by (simp add: all_ok_def plain_path_def utf8_valid_ascii)
qed

end
