(* ===== verification/Imk.thy ===== *)
theory Imk
  imports Keys_Import Ssh_Config
begin

text \<open>
  The agent wrapper \<open>imk\<close> (\<open>immurok-cli/src/imk_main.rs\<close>): \<open>run\<close> with its flags, preflight and approval,
  \<open>list\<close> and \<open>get\<close>. The daemon's replies, the spawned process and git are parameters; a run yields
  its exit code, the requests it sent, the command it spawned and what it printed. The environment of
  the spawned command is not modelled.
\<close>

definition EXIT_REJECTED :: int where "EXIT_REJECTED = 77"
definition EXIT_USAGE :: int where "EXIT_USAGE = 64"
definition EXIT_CONFIG :: int where "EXIT_CONFIG = 78"
definition EXIT_GENERIC :: int where "EXIT_GENERIC = 1"

section \<open>The command line\<close>

fun parse_run_args :: "bool \<Rightarrow> string list \<Rightarrow> bool \<times> string list" where
  "parse_run_args flags [] = (False, [])"
| "parse_run_args flags (a # as) =
     (if flags \<and> a = ''--'' then parse_run_args False as
      else if flags \<and> a = ''--agent'' then (True, snd (parse_run_args flags as))
      else (fst (parse_run_args flags as), a # snd (parse_run_args flags as)))"

definition escape_char :: "char \<Rightarrow> string" where
  "escape_char c =
     (if c = CHR 0x0A then [CHR 0x5C, CHR ''n'']
      else if c = CHR 0x0D then [CHR 0x5C, CHR ''r'']
      else if c = CHR 0x00 then [CHR 0x5C, CHR ''0'']
      else [c])"

definition escaped_command :: "string list \<Rightarrow> string" where
  "escaped_command args = join '' '' (map (\<lambda>a. concat (map escape_char a)) args)"

definition APPROVE_OVERHEAD :: nat where
  "APPROVE_OVERHEAD = length ''AGENT_APPROVE:'' + 1"

definition prepare_agent_command :: "string list \<Rightarrow> (string, string) result" where
  "prepare_agent_command args = (let out = escaped_command args in
     if MAX_REQUEST_BYTES \<le> length out + APPROVE_OVERHEAD
     then Err (''command too long for agent approval ('' @ show_nat (length out) @ '' bytes, limit '' @
               show_nat (MAX_REQUEST_BYTES - APPROVE_OVERHEAD - 1) @
               ''); put it in a script file and wrap that instead'')
     else Ok out)"

definition approve_request :: "string \<Rightarrow> string" where
  "approve_request cmd = ''AGENT_APPROVE:'' @ cmd @ [LF]"

definition truncate_for_log :: "string \<Rightarrow> nat \<Rightarrow> string" where
  "truncate_for_log s mx =
     (if length (utf8_chars s) \<le> mx then s
      else concat (take mx (utf8_chars s)) @ [CHR 0xE2, CHR 0x80, CHR 0xA6])"

section \<open>The approval\<close>

datatype approval_result = AApproved | ARejected | AError string

definition parse_approval :: "string \<Rightarrow> approval_result" where
  "parse_approval response = (let resp = trim response in
     case strip_prefix ''OK:'' resp of
       Some rest \<Rightarrow> if rest = ''APPROVED'' then AApproved else AError (''unexpected OK payload: '' @ rest)
     | None \<Rightarrow> (case strip_prefix ''DENY:'' resp of
         Some rest \<Rightarrow> if rest = ''REJECTED'' then ARejected else AError (''denied: '' @ rest)
       | None \<Rightarrow> (case strip_prefix ''ERROR:'' resp of
           Some rest \<Rightarrow> AError rest
         | None \<Rightarrow> AError (''unexpected response: '' @ resp))))"

text \<open>\<open>reply\<close> is the line read from the daemon, or the failure to connect, send or read.\<close>

definition request_agent_approval :: "(string \<Rightarrow> (string, string) result) \<Rightarrow> string \<Rightarrow> approval_result" where
  "request_agent_approval reply cmd = (case reply (approve_request cmd) of
     Err e \<Rightarrow> AError e | Ok response \<Rightarrow> parse_approval response)"

section \<open>The preflight\<close>

datatype child_end = SpawnFailed | WaitFailed | ChildExited int | Signalled "int option"

record imk_env =
  daemon_reply :: "string \<Rightarrow> (string, string) result"
  git_remote_url :: "string \<Rightarrow> string option"
  child_status :: "string list \<Rightarrow> child_end"

definition first_line :: "string \<Rightarrow> string" where
  "first_line s = hd (split_on LF s)"

definition parse_usize :: "string \<Rightarrow> (nat, int_error) result" where
  "parse_usize = parse_u64"

definition ssh_count_zero :: "string \<Rightarrow> bool" where
  "ssh_count_zero resp = (case strip_prefix ''OK:'' (first_line resp) of
     Some n \<Rightarrow> unwrap_or 0 (ok (parse_usize (trim n))) = 0
   | None \<Rightarrow> False)"

definition remote_of :: "imk_env \<Rightarrow> string list \<Rightarrow> string" where
  "remote_of E args =
     (if args ! 1 = ''clone'' then unwrap_or [] (get_at args 2)
      else let name = (case get_at args 2 of
             Some a \<Rightarrow> if starts_with ''-'' a then ''origin'' else a
           | None \<Rightarrow> ''origin'') in unwrap_or [] (git_remote_url E name))"

definition is_ssh_url :: "string \<Rightarrow> bool" where
  "is_ssh_url u \<longleftrightarrow> starts_with ''git@'' u \<or> starts_with ''ssh://'' u \<or> starts_with ''git+ssh://'' u"

definition ssh_preflight_failure :: "imk_env \<Rightarrow> string list \<Rightarrow> string option" where
  "ssh_preflight_failure E args =
     (let bin = unwrap_or [] (path_file_name (hd args));
          strictly = bin \<in> {''ssh'', ''scp'', ''sftp'', ''rsync''};
          might = bin = ''git'' \<and> 1 < length args \<and>
                  args ! 1 \<in> {''push'', ''pull'', ''fetch'', ''clone'', ''ls-remote''}
      in if \<not> strictly \<and> \<not> might then None
         else if might \<and> \<not> strictly \<and> \<not> is_ssh_url (remote_of E args) then None
         else case daemon_reply E (''LIST:ssh'' @ [LF]) of
           Err _ \<Rightarrow> None
         | Ok resp \<Rightarrow> if ssh_count_zero resp
             then Some (''imk: device has no SSH keys but '' @ [CHR 0x27] @ bin @ [CHR 0x27] @
                    '' needs one. Generate / import one first:'' @ [LF] @
                    ''  immurok-cli key generate-ssh <name>'' @ [LF] @
                    ''  immurok-cli key import-ssh <name> <keyfile>'')
             else None)"

section \<open>The subcommands\<close>

datatype imk_effect = Asked string | Spawned "string list" | Printed string

definition child_exit :: "child_end \<Rightarrow> int" where
  "child_exit st = (case st of
     SpawnFailed \<Rightarrow> 127
   | WaitFailed \<Rightarrow> EXIT_GENERIC
   | ChildExited code \<Rightarrow> code
   | Signalled sig \<Rightarrow> 128 + unwrap_or 0 sig)"

definition spawn_command :: "imk_env \<Rightarrow> string list \<Rightarrow> int \<times> imk_effect list" where
  "spawn_command E args = (child_exit (child_status E args), [Spawned args])"

definition cmd_run :: "imk_env \<Rightarrow> string list \<Rightarrow> int \<times> imk_effect list" where
  "cmd_run E args =
     (let (is_agent, cmd_args) = parse_run_args True args in
      if cmd_args = [] then (EXIT_USAGE, [])
      else case ssh_preflight_failure E cmd_args of
        Some _ \<Rightarrow> (EXIT_CONFIG, [])
      | None \<Rightarrow> (case prepare_agent_command cmd_args of
          Err _ \<Rightarrow> (EXIT_USAGE, [])
        | Ok cmd \<Rightarrow>
            if is_agent then
              (case request_agent_approval (daemon_reply E) cmd of
                 AApproved \<Rightarrow> (case spawn_command E cmd_args of (code, effs) \<Rightarrow> (code, Asked cmd # effs))
               | ARejected \<Rightarrow> (EXIT_REJECTED, [Asked cmd])
               | AError _ \<Rightarrow> (EXIT_GENERIC, [Asked cmd]))
            else spawn_command E cmd_args))"

definition cmd_list :: "imk_env \<Rightarrow> string list \<Rightarrow> int \<times> imk_effect list" where
  "cmd_list E args = (case args of
     [] \<Rightarrow> (EXIT_USAGE, [])
   | cat # _ \<Rightarrow>
       if cat \<notin> {''ssh'', ''otp'', ''api''} then (EXIT_USAGE, [])
       else case daemon_reply E (''LIST:'' @ cat @ [LF]) of
         Err _ \<Rightarrow> (EXIT_GENERIC, [])
       | Ok resp \<Rightarrow>
           (let ls = split_on LF resp; hdr = hd ls in
            if starts_with ''ERROR:'' hdr then (EXIT_GENERIC, [])
            else case strip_prefix ''OK:'' hdr of
              None \<Rightarrow> (EXIT_GENERIC, [])
            | Some n \<Rightarrow>
                if unwrap_or 0 (ok (parse_usize (trim n))) = 0 then (0, [])
                else (0, map Printed (filter (\<lambda>l. l \<noteq> []) (tl ls)))))"

definition cmd_get :: "imk_env \<Rightarrow> string list \<Rightarrow> int \<times> imk_effect list" where
  "cmd_get E args = (case args of
     [] \<Rightarrow> (EXIT_USAGE, [])
   | reference # _ \<Rightarrow>
       (let body = unwrap_or reference (strip_prefix ''imk://'' reference);
            parts = splitn 2 CHR ''/'' body; cat = unwrap_or [] (get_at parts 0);
            name = unwrap_or [] (get_at parts 1)
        in if cat = [] \<or> name = [] then (EXIT_USAGE, [])
        else case daemon_reply E (''GET:'' @ cat @ '':'' @ name @ [LF]) of
          Err _ \<Rightarrow> (EXIT_GENERIC, [])
        | Ok resp \<Rightarrow>
            (let trimmed = trim_end_char LF resp in
             if starts_with ''ERROR:'' trimmed then (EXIT_GENERIC, [])
             else case strip_prefix ''OK:'' trimmed of
               None \<Rightarrow> (EXIT_GENERIC, [])
             | Some v \<Rightarrow> (0, [Printed v]))))"

definition imk_run :: "imk_env \<Rightarrow> string list \<Rightarrow> int \<times> imk_effect list" where
  "imk_run E args = (case args of
     [] \<Rightarrow> (EXIT_USAGE, [])
   | a # as \<Rightarrow>
       if a = ''run'' then cmd_run E as
       else if a = ''list'' then cmd_list E as
       else if a = ''get'' then cmd_get E as
       else if a \<in> {''version'', ''--version'', ''-v'', ''help'', ''--help'', ''-h''} then (0, [])
       else (EXIT_USAGE, []))"

section \<open>The approval line\<close>

lemma escape_char_no_control:
  "x \<in> set (escape_char c) \<Longrightarrow> x \<noteq> LF \<and> x \<noteq> CHR 0x0D \<and> x \<noteq> CHR 0x00"
  by (auto simp: escape_char_def split: if_splits)

lemma join_chars: "c \<in> set (join sep ps) \<Longrightarrow> c \<in> set sep \<or> (\<exists>p\<in>set ps. c \<in> set p)"
  by (induction sep ps rule: join.induct) auto

lemma escaped_no_control:
  "x \<in> set (escaped_command args) \<Longrightarrow> x \<noteq> LF \<and> x \<noteq> CHR 0x0D \<and> x \<noteq> CHR 0x00"
  unfolding escaped_command_def by (drule join_chars) (auto dest: escape_char_no_control)

lemma escape_ascii: "cp c < 128 \<Longrightarrow> ascii (escape_char c)"
  by (simp add: escape_char_def)

lemma escape_high: "128 \<le> cp c \<Longrightarrow> escape_char c = [c]"
  by (auto simp: escape_char_def)

lemma escape_valid: "utf8_valid s \<Longrightarrow> utf8_valid (concat (map escape_char s))"
proof (induction s rule: utf8_valid.induct)
  case (1 s)
  show ?case
  proof (cases s)
    case (Cons c u)
    obtain n where h: "utf8_head s = (True, n)" and v: "utf8_valid (drop n s)"
      using "1.prems" Cons by (subst (asm) utf8_valid.simps) (auto split: prod.splits)
    note ih = "1.IH" [OF _ h [symmetric] v]
    show ?thesis
    proof (cases "cp c < 128")
      case True
      then have "n = 1" using h Cons by (simp add: utf8_head_ascii)
      then show ?thesis using ih Cons True escape_ascii [OF True] by (simp add: utf8_valid_ascii_append)
    next
      case False
      have len: "n \<le> length s" using utf8_head_length [OF h] Cons by simp
      have "128 \<le> cp b" if b: "b \<in> set (take n s)" for b
      proof -
        obtain i where i: "i < n" "b = s ! i" using b len by (auto simp: in_set_conv_nth)
        show ?thesis
          using utf8_head_cont [OF h _ _ i(1)] i(2) False Cons by (cases "i = 0") (auto simp: cont_byte_def)
      qed
      then have "concat (map escape_char (take n s)) = take n s"
        using escape_high by (induction "take n s" arbitrary: s n) (auto simp: map_concat concat_map_singleton cong: map_cong)
      then have e: "concat (map escape_char s) = take n s @ concat (map escape_char (drop n s))"
        by (metis append_take_drop_id concat_append map_append)
      have t: "take n s \<noteq> []" using Cons utf8_head_pos [of s] h by simp
      have "utf8_head (take n s @ x) = (True, n)" for x
        using utf8_head_append [OF utf8_head_take [OF h order_refl] t] Cons by simp
      then show ?thesis
        unfolding e using ih Cons len t by (subst utf8_valid.simps) simp
    qed
  qed simp
qed

lemma join_valid: "\<forall>p\<in>set ps. utf8_valid p \<Longrightarrow> utf8_valid (join '' '' ps)"
  by (induction "'' ''" ps rule: join.induct) (simp_all add: utf8_valid_append)

lemma escaped_valid: "\<forall>a\<in>set args. utf8_valid a \<Longrightarrow> utf8_valid (escaped_command args)"
  unfolding escaped_command_def by (rule join_valid) (simp add: escape_valid)

lemma trim_matches_prefix:
  assumes "p \<noteq> []" "\<not> P (hd p)" "\<not> P (last p)"
  shows "trim_matches P (p @ s) = p @ rev (dropWhile P (rev s))"
proof -
  have "dropWhile P (p @ s) = p @ s" using assms(1,2) by (cases p) simp_all
  moreover have "dropWhile P (rev s @ rev p) = dropWhile P (rev s) @ rev p"
    using assms(1,3) by (cases "rev p") (auto simp: dropWhile_append hd_rev [symmetric] dropWhile_eq_Nil_conv)
  ultimately show ?thesis by (simp add: trim_matches_def)
qed

text \<open>
  C29: the command a user approves is the command line that runs: whatever arguments the wrapped command
  has, the request fits the daemon's buffer and is one line, and the daemon, for a caller it lets
  manage the device, takes it as the approval of exactly the escaped command line, without the spaces
  at its end.
\<close>

theorem agent_command_intact:
  assumes "prepare_agent_command args = Ok cmd" "\<forall>a\<in>set args. utf8_valid a" "authorize h TManage uid"
  shows "length (approve_request cmd) < MAX_REQUEST_BYTES \<and> LF \<notin> set cmd \<and>
    route_request hx h uid (approve_request cmd) =
      AgentApprove (rev (dropWhile (\<lambda>c. c = CHR '' '') (rev (escaped_command args))))"
proof -
  have cmd: "cmd = escaped_command args" and len: "length cmd + APPROVE_OVERHEAD < MAX_REQUEST_BYTES"
    using assms(1) by (auto simp: prepare_agent_command_def Let_def split: if_splits)
  have ctl: "x \<noteq> LF \<and> x \<noteq> CHR 0x0D \<and> x \<noteq> CHR 0x00" if "x \<in> set cmd" for x
    using escaped_no_control that cmd by blast
  have short: "length (approve_request cmd) < MAX_REQUEST_BYTES"
    using len by (simp add: approve_request_def APPROVE_OVERHEAD_def)
  have "utf8_valid (approve_request cmd)"
    using escaped_valid [OF assms(2)] by (simp add: approve_request_def cmd utf8_valid_append)
  then have raw: "from_utf8_lossy (approve_request cmd) = approve_request cmd" by (rule from_utf8_lossy_valid)
  have nolf: "LF \<notin> set (''AGENT_APPROVE:'' @ cmd)" using ctl by auto
  have once: "split_once LF (approve_request cmd) = Some (''AGENT_APPROVE:'' @ cmd, [])"
    unfolding approve_request_def using split_once_append [OF nolf, of "[]"] by simp
  have "dropWhile blank (rev cmd) = dropWhile (\<lambda>c. c = CHR '' '') (rev cmd)"
    using ctl by (intro dropWhile_cong refl) (auto simp: blank_def)
  then have strip: "trim_matches blank (''AGENT_APPROVE:'' @ cmd) =
      ''AGENT_APPROVE:'' @ rev (dropWhile (\<lambda>c. c = CHR '' '') (rev cmd))"
    using trim_matches_prefix [of "''AGENT_APPROVE:''" blank cmd] by (simp add: blank_def)
  have "split_request_chunk (approve_request cmd) =
      Ok (''AGENT_APPROVE:'' @ rev (dropWhile (\<lambda>c. c = CHR '' '') (rev cmd)))"
    using short strip by (simp add: split_request_chunk_def raw once Let_def)
  then have "route_request hx h uid (approve_request cmd) =
      AgentApprove (rev (dropWhile (\<lambda>c. c = CHR '' '') (rev cmd)))"
    using assms(3) by (simp add: route_request_def tier_of_def route_line_def)
  then show ?thesis using short ctl cmd by auto
qed

theorem agent_command_intact_witness:
  "route_request (\<lambda>_. Err []) sample_host 0 (approve_request ''sudo -n '') = AgentApprove ''sudo -n''"
proof -
  have p: "prepare_agent_command [''sudo'', ''-n ''] = Ok ''sudo -n ''"
    by (simp add: prepare_agent_command_def escaped_command_def escape_char_def APPROVE_OVERHEAD_def MAX_REQUEST_BYTES_def)
  have a: "authorize sample_host TManage 0" by (simp add: authorize_def)
  show ?thesis
    using agent_command_intact [OF p _ a, of "\<lambda>_. Err []"]
    by (simp add: utf8_valid_ascii escaped_command_def escape_char_def)
qed

section \<open>What runs\<close>

lemma parse_approval_Approved: "parse_approval r = AApproved \<longleftrightarrow> trim r = ''OK:APPROVED''"
proof -
  have "strip_prefix ''OK:'' (trim r) = Some ''APPROVED'' \<longleftrightarrow> trim r = ''OK:APPROVED''"
    by (simp add: strip_prefix_Some)
  then show ?thesis
    by (auto simp: parse_approval_def Let_def split: option.splits if_splits)
qed

text \<open>
  C28: under \<open>--agent\<close> nothing runs unapproved: \<open>imk run\<close> spawns at most one command, the one given to
  it, and with the flag only after the daemon answered OK:APPROVED to the request that carries this very
  command; on every other answer, and when it cannot ask, it exits with a failure and spawns nothing.
\<close>

theorem agent_runs_only_approved:
  assumes "fst (parse_run_args True args)" "cmd_run E args = (code, effs)"
  defines "cmd_args \<equiv> snd (parse_run_args True args)"
  shows "(\<forall>c. Spawned c \<in> set effs \<longrightarrow> c = cmd_args \<and> (\<exists>cmd r. prepare_agent_command cmd_args = Ok cmd \<and>
      daemon_reply E (approve_request cmd) = Ok r \<and> trim r = ''OK:APPROVED'' \<and> effs = [Asked cmd, Spawned cmd_args])) \<and>
    ((\<forall>c. Spawned c \<notin> set effs) \<longrightarrow> code \<in> {EXIT_USAGE, EXIT_CONFIG, EXIT_REJECTED, EXIT_GENERIC})"
proof (intro conjI)
  obtain f ca where p: "parse_run_args True args = (f, ca)" by (cases "parse_run_args True args")
  have f: f and ca: "cmd_args = ca" using assms(1) p by (simp_all add: cmd_args_def)
  note run = assms(2) [unfolded cmd_run_def p prod.case Let_def]
  have cases: "(effs = [] \<and> code \<in> {EXIT_USAGE, EXIT_CONFIG}) \<or>
    (\<exists>cmd. prepare_agent_command ca = Ok cmd \<and>
      (effs = [Asked cmd] \<and> code \<in> {EXIT_REJECTED, EXIT_GENERIC} \<or>
       effs = [Asked cmd, Spawned ca] \<and> request_agent_approval (daemon_reply E) cmd = AApproved))"
    using run f by (auto simp: spawn_command_def split: if_splits option.splits result.splits approval_result.splits)
  have ok: "\<exists>r. daemon_reply E (approve_request cmd) = Ok r \<and> trim r = ''OK:APPROVED''"
    if "request_agent_approval (daemon_reply E) cmd = AApproved" for cmd
    using that by (auto simp: request_agent_approval_def parse_approval_Approved split: result.splits)
  show "\<forall>c. Spawned c \<in> set effs \<longrightarrow> c = cmd_args \<and> (\<exists>cmd r. prepare_agent_command cmd_args = Ok cmd \<and>
      daemon_reply E (approve_request cmd) = Ok r \<and> trim r = ''OK:APPROVED'' \<and> effs = [Asked cmd, Spawned cmd_args])"
    using cases ok unfolding ca by auto
  show "(\<forall>c. Spawned c \<notin> set effs) \<longrightarrow> code \<in> {EXIT_USAGE, EXIT_CONFIG, EXIT_REJECTED, EXIT_GENERIC}"
    using cases by auto
qed

definition answering :: "string \<Rightarrow> imk_env" where
  "answering r = \<lparr> daemon_reply = (\<lambda>_. Ok r), git_remote_url = (\<lambda>_. None), child_status = (\<lambda>_. ChildExited 0) \<rparr>"

lemma sample_run: "cmd_run (answering r) [''--agent'', ''--'', ''ls''] =
    (case parse_approval r of
       AApproved \<Rightarrow> (0, [Asked ''ls'', Spawned [''ls'']])
     | ARejected \<Rightarrow> (EXIT_REJECTED, [Asked ''ls''])
     | AError _ \<Rightarrow> (EXIT_GENERIC, [Asked ''ls'']))"
proof -
  have "prepare_agent_command [''ls''] = Ok ''ls''"
    by (simp add: prepare_agent_command_def escaped_command_def escape_char_def APPROVE_OVERHEAD_def MAX_REQUEST_BYTES_def)
  then show ?thesis
    by (simp add: cmd_run_def answering_def ssh_preflight_failure_def path_file_name_def
        request_agent_approval_def spawn_command_def child_exit_def split: approval_result.split)
qed

theorem agent_runs_only_approved_witness:
  "\<forall>c. Spawned c \<notin> set (snd (cmd_run (answering ''DENY:REJECTED'') [''--agent'', ''--'', ''ls'']))"
proof -
  have t: "trim ''DENY:REJECTED'' = ''DENY:REJECTED''" by (rule trim_graphic) (simp_all add: graphic_def)
  have "cmd_run (answering ''DENY:REJECTED'') [''--agent'', ''--'', ''ls''] = (EXIT_REJECTED, [Asked ''ls''])"
    unfolding sample_run by (simp add: parse_approval_def t)
  note r = this
  show ?thesis using agent_runs_only_approved [OF _ r] unfolding r by auto
qed

section \<open>Lists and values\<close>

lemma split_lines_concat:
  "\<forall>l\<in>set ls. LF \<notin> set l \<Longrightarrow> split_on LF (concat (map (\<lambda>l. l @ [LF]) ls) @ t) = ls @ split_on LF t"
  by (induction ls) simp_all

text \<open>
  Fact: \<open>imk list\<close> prints the names the daemon has, in its order: for one-time passwords and API values
  every cached name of the category appears as one line, provided no name is empty or has a line end.
\<close>

theorem imk_list_complete:
  assumes "cat = ''otp'' \<or> cat = ''api''" "daemon_reply E (''LIST:'' @ cat @ [LF]) = Ok (handle_list_keys cd kc cat)"
    "\<forall>e\<in>set (key_names kc). entry_name e \<noteq> [] \<and> LF \<notin> set (entry_name e)"
    "length (key_names kc) < 2 ^ 64"
  shows "cmd_list E [cat] = (0, map Printed (map entry_name (filter (\<lambda>e. category e = cat) (key_names kc))))"
proof -
  let ?ns = "map entry_name (filter (\<lambda>e. category e = cat) (key_names kc))"
  let ?hd = "''OK:'' @ show_nat (length ?ns)"
  have tc: "trim cat = cat" using assms(1) by (auto intro!: trim_graphic simp: graphic_def)
  have d: "CHR 0x0A \<notin> set (show_nat n)" for n by (auto dest!: show_nat_digits simp: is_digit_def)
  have "handle_list_keys cd kc cat = concat (map (\<lambda>l. l @ [LF]) (?hd # ?ns @ [[]])) @ []"
    using assms(1) tc by (auto simp: handle_list_keys_def Let_def comp_def)
  moreover have "\<forall>l\<in>set (?hd # ?ns @ [[]]). LF \<notin> set l" using assms(3) d by auto
  ultimately have sp: "split_on LF (handle_list_keys cd kc cat) = ?hd # ?ns @ [[], []]"
    using split_lines_concat [of "?hd # ?ns @ [[]]" "[]"] by simp
  have tr: "trim (show_nat n) = show_nat n" for n
    using show_nat_graphic [of _ n] by (intro trim_graphic) (simp_all add: show_nat_last_graphic)
  have "length ?ns \<le> length (key_names kc)" unfolding length_map by (rule length_filter_le)
  moreover have "(2 :: nat) ^ 64 = 18446744073709551616" by simp
  ultimately have "length ?ns \<le> 18446744073709551615" using assms(4) by linarith
  then have n: "parse_usize (trim (show_nat (length ?ns))) = Ok (length ?ns)"
    unfolding tr parse_usize_def parse_u64_def by (rule parse_uint_show)
  have f: "filter (\<lambda>l. l \<noteq> []) ?ns = ?ns" using assms(3) by (auto simp: filter_id_conv)
  have nerr: "\<not> starts_with ''ERROR:'' ?hd" by simp
  show ?thesis
    using assms(1,2) sp n f nerr by (auto simp: cmd_list_def Let_def)
qed

theorem imk_list_complete_witness:
  "cmd_list (answering (handle_list_keys sample_codecs otp_cache ''otp'')) [''otp''] = (0, [Printed ''mail''])"
  using imk_list_complete [of "''otp''" "answering (handle_list_keys sample_codecs otp_cache ''otp'')" sample_codecs otp_cache]
  by (simp add: answering_def otp_cache_def empty_cache_def)

end
