(* ===== verification/Pam_Config.thy ===== *)
theory Pam_Config
  imports Client_Parse
begin

text \<open>
  The PAM configuration as the clients see and repair it (\<open>immurok-common/src/pam.rs\<close>,
  \<open>immurok-client/src/pam.rs\<close>, \<open>immurok-cli/src/commands/pam.rs\<close>): which services carry the
  line, which ones a repair adds, and the run of the privileged helper. A directory maps file names to
  files; the helper under \<open>pkexec\<close> is a function with an exit code, an output and a new directory.
\<close>

datatype pam_file = PamText string | PamUnreadable

type_synonym pam_dir = "string \<Rightarrow> pam_file option"

definition pam_line_present_in :: "pam_dir \<Rightarrow> string \<Rightarrow> bool" where
  "pam_line_present_in dir svc = (case dir svc of
     Some (PamText contents) \<Rightarrow> utf8_valid contents \<and> contains_str ''pam_immurok.so'' contents
   | _ \<Rightarrow> False)"

record pam_service =
  svc_label :: string
  svc_name :: string
  svc_path :: string

definition PAM_SERVICES :: "pam_service list" where
  "PAM_SERVICES =
     [\<lparr> svc_label = ''sudo'', svc_name = ''sudo'', svc_path = ''/etc/pam.d/sudo'' \<rparr>,
      \<lparr> svc_label = ''System authorization (polkit)'', svc_name = ''polkit-1'', svc_path = ''/etc/pam.d/polkit-1'' \<rparr>,
      \<lparr> svc_label = ''Login screen (gdm)'', svc_name = ''gdm-password'', svc_path = ''/etc/pam.d/gdm-password'' \<rparr>]"

definition is_known_service :: "string \<Rightarrow> bool" where
  "is_known_service s = list_ex (\<lambda>p. svc_name p = s) PAM_SERVICES"

definition service_status_in :: "pam_dir \<Rightarrow> (pam_service \<times> bool) list" where
  "service_status_in dir = map (\<lambda>s. (s, pam_line_present_in dir (svc_name s))) PAM_SERVICES"

definition desired_services :: "bool \<Rightarrow> bool \<Rightarrow> string list" where
  "desired_services sudo_on polkit_on =
     (if sudo_on then [''sudo''] else []) @ (if polkit_on then [''polkit-1''] else [])"

definition services_to_repair_in :: "pam_dir \<Rightarrow> bool \<Rightarrow> bool \<Rightarrow> string list" where
  "services_to_repair_in dir sudo_on polkit_on =
     filter (\<lambda>s. \<not> pam_line_present_in dir s) (desired_services sudo_on polkit_on) @
     (if dir ''gdm-password'' \<noteq> None \<and> \<not> pam_line_present_in dir ''gdm-password''
      then [''gdm-password''] else [])"

section \<open>The privileged helper\<close>

definition helper_output_has_error :: "string \<Rightarrow> bool" where
  "helper_output_has_error output = list_ex (\<lambda>l. starts_with ''ERROR:'' (trim_start l)) (lines output)"

datatype pam_error =
    HelperNotFound | NoPolkitAgent | AuthCancelled | HelperFailed int "string list" | PamSpawn string

definition trimmed_lines :: "string \<Rightarrow> string list" where
  "trimmed_lines stdout = filter (\<lambda>l. l \<noteq> []) (map trim (lines stdout))"

definition classify_exit :: "int option \<Rightarrow> string \<Rightarrow> (string list, pam_error) result" where
  "classify_exit code stdout = (let ls = trimmed_lines stdout in case code of
     None \<Rightarrow> Err (HelperFailed (- 1) ls)
   | Some c \<Rightarrow>
       if c = 0 then (if helper_output_has_error stdout then Err (HelperFailed 0 ls) else Ok ls)
       else if c = 126 then Err AuthCancelled
       else if c = 127 then Err NoPolkitAgent
       else Err (HelperFailed c ls))"

record pam_env =
  helper_found :: bool
  pkexec :: "string \<Rightarrow> string list \<Rightarrow> pam_dir \<Rightarrow> (int option \<times> string, string) result \<times> pam_dir"

definition run_helper :: "pam_env \<Rightarrow> string \<Rightarrow> string list \<Rightarrow> pam_dir \<Rightarrow> (string list, pam_error) result \<times> pam_dir" where
  "run_helper E action svcs dir =
     (if \<not> ((action = ''add'' \<or> action = ''remove'') \<and> svcs \<noteq> [] \<and> list_all is_known_service svcs)
      then (Err (PamSpawn ''invalid request''), dir)
      else if \<not> helper_found E then (Err HelperNotFound, dir)
      else case pkexec E action svcs dir of
        (Err e, d) \<Rightarrow> (Err (PamSpawn e), d)
      | (Ok (code, out), d) \<Rightarrow> (classify_exit code (from_utf8_lossy out), d))"

section \<open>The commands of the command line\<close>

text \<open>Only the two switches are read; any other answer counts as both on.\<close>

definition toggle_field :: "string \<Rightarrow> bool \<times> bool \<Rightarrow> bool \<times> bool" where
  "toggle_field p st = (case split_once CHR ''='' p of
     None \<Rightarrow> st
   | Some (k, v) \<Rightarrow>
       if k = ''sudo'' then (v = ''1'', snd st)
       else if k = ''polkit'' then (fst st, v = ''1'')
       else st)"

definition fetch_toggles :: "(string, string) result \<Rightarrow> bool \<times> bool" where
  "fetch_toggles reply = (case reply of
     Err _ \<Rightarrow> (True, True)
   | Ok rsp \<Rightarrow> (let parts = split_on CHR '':'' rsp in
       if hd parts \<noteq> ''OK'' then (True, True) else fold toggle_field (tl parts) (True, True)))"

text \<open>The services reported missing, and the exit code.\<close>

definition pam_check :: "(string, string) result \<Rightarrow> pam_dir \<Rightarrow> string list \<times> nat" where
  "pam_check reply dir = (case fetch_toggles reply of (sudo_on, polkit_on) \<Rightarrow>
     (let missing = filter (\<lambda>s. \<not> pam_line_present_in dir s) (desired_services sudo_on polkit_on)
      in (missing, if missing = [] then 0 else 1)))"

definition cli_run_helper :: "pam_env \<Rightarrow> string \<Rightarrow> string list \<Rightarrow> pam_dir \<Rightarrow> nat \<times> pam_dir" where
  "cli_run_helper E action svcs dir =
     (if \<not> helper_found E then (1, dir)
      else case run_helper E action svcs dir of (Ok _, d) \<Rightarrow> (0, d) | (Err _, d) \<Rightarrow> (1, d))"

definition pam_repair :: "pam_env \<Rightarrow> (string, string) result \<Rightarrow> pam_dir \<Rightarrow> nat \<times> pam_dir" where
  "pam_repair E reply dir = (case fetch_toggles reply of (sudo_on, polkit_on) \<Rightarrow>
     (let to_fix = services_to_repair_in dir sudo_on polkit_on
      in if to_fix = [] then (0, dir) else cli_run_helper E ''add'' to_fix dir))"

section \<open>A repair, and the check after it\<close>

lemma known_services: "is_known_service s \<longleftrightarrow> s \<in> {''sudo'', ''polkit-1'', ''gdm-password''}"
  by (auto simp: is_known_service_def PAM_SERVICES_def)

lemma repair_services_known: "list_all is_known_service (services_to_repair_in dir a b)"
  by (auto simp: services_to_repair_in_def desired_services_def list_all_iff known_services)

lemma classify_exit_Ok: "is_ok (classify_exit code out) \<longleftrightarrow> code = Some 0 \<and> \<not> helper_output_has_error out"
  by (auto simp: classify_exit_def Let_def split: option.split)

text \<open>
  What the code relies on of the helper: when it ends with exit code 0 and no error line, the services
  it was asked to add carry the line, and no service lost it. (It may still have been run by a user who
  cancelled, in which case it changes nothing it does not report.)
\<close>

definition helper_adds :: "pam_env \<Rightarrow> bool" where
  "helper_adds E \<longleftrightarrow> (\<forall>svcs dir out d. pkexec E ''add'' svcs dir = (Ok (Some 0, out), d) \<longrightarrow>
     \<not> helper_output_has_error (from_utf8_lossy out) \<longrightarrow>
     (\<forall>s. pam_line_present_in d s \<longleftrightarrow> s \<in> set svcs \<or> pam_line_present_in dir s))"

text \<open>
  Fact: a repair that reports success leaves nothing to repair: the check after it exits with 0, with
  the same answer of the daemon about the switches, the login screen carries the line if its file
  was there, and no other service was touched.
\<close>

theorem repair_then_check:
  assumes "helper_adds E" "pam_repair E reply dir = (0, dir')"
  shows "pam_check reply dir' = ([], 0) \<and>
    (dir ''gdm-password'' \<noteq> None \<longrightarrow> pam_line_present_in dir' ''gdm-password'') \<and>
    (\<forall>s. pam_line_present_in dir s \<longrightarrow> pam_line_present_in dir' s) \<and>
    (\<forall>s. pam_line_present_in dir' s \<and> \<not> pam_line_present_in dir s \<longrightarrow>
       s \<in> set (case fetch_toggles reply of (a, b) \<Rightarrow> services_to_repair_in dir a b))"
proof -
  obtain a b where t: "fetch_toggles reply = (a, b)" by (cases "fetch_toggles reply")
  let ?fix = "services_to_repair_in dir a b"
  have p: "pam_line_present_in dir' s \<longleftrightarrow> s \<in> set ?fix \<or> pam_line_present_in dir s" for s
  proof (cases "?fix = []")
    case True
    then show ?thesis using assms(2) by (simp add: pam_repair_def t)
  next
    case False
    then obtain ls where run: "run_helper E ''add'' ?fix dir = (Ok ls, dir')"
      using assms(2)
      by (auto simp: pam_repair_def t Let_def cli_run_helper_def split: prod.splits result.splits if_splits)
    then obtain code out where e: "pkexec E ''add'' ?fix dir = (Ok (code, out), dir')"
      and c: "classify_exit code (from_utf8_lossy out) = Ok ls"
      by (auto simp: run_helper_def split: prod.splits result.splits if_splits)
    from c have "code = Some 0" "\<not> helper_output_has_error (from_utf8_lossy out)"
      using classify_exit_Ok [of code "from_utf8_lossy out"] by (simp_all add: is_ok_iff)
    then show ?thesis using assms(1) e unfolding helper_adds_def by blast
  qed
  have "pam_line_present_in dir' s" if "s \<in> set (desired_services a b)" for s
    unfolding p using that by (auto simp: services_to_repair_in_def)
  then have "pam_check reply dir' = ([], 0)" by (auto simp: pam_check_def t Let_def filter_empty_conv)
  moreover have "dir ''gdm-password'' \<noteq> None \<longrightarrow> pam_line_present_in dir' ''gdm-password''"
    unfolding p by (auto simp: services_to_repair_in_def)
  ultimately show ?thesis using p by (auto simp: t)
qed

text \<open>A helper that writes the line into each file it is asked for.\<close>

definition adding_helper :: pam_env where
  "adding_helper = \<lparr> helper_found = True, pkexec = (\<lambda>action svcs dir.
     (Ok (Some 0, ''OK''), \<lambda>s. if s \<in> set svcs then Some (PamText ''auth sufficient pam_immurok.so'') else dir s)) \<rparr>"

lemma adding_helper_adds: "helper_adds adding_helper"
  by (auto simp: helper_adds_def adding_helper_def pam_line_present_in_def utf8_valid_ascii)

theorem repair_then_check_witness:
  "pam_check (Err []) (snd (pam_repair adding_helper (Err []) Map.empty)) = ([], 0)"
proof -
  have "from_utf8_lossy ''OK'' = ''OK''" by simp
  moreover have "\<not> helper_output_has_error ''OK''" by (simp add: helper_output_has_error_def lines_def chop_cr_def)
  ultimately have "fst (pam_repair adding_helper (Err []) Map.empty) = 0"
    by (simp add: pam_repair_def fetch_toggles_def services_to_repair_in_def desired_services_def
        pam_line_present_in_def cli_run_helper_def run_helper_def known_services adding_helper_def
        classify_exit_def Let_def)
  then show ?thesis
    using repair_then_check [OF adding_helper_adds, of "Err []" Map.empty "snd (pam_repair adding_helper (Err []) Map.empty)"]
    by (simp add: prod_eq_iff)
qed

text \<open>A commented-out line counts as the line: the service is neither reported nor repaired.\<close>

lemma commented_line_counts:
  assumes "dir ''sudo'' = Some (PamText ''#auth sufficient pam_immurok.so'')"
  shows "''sudo'' \<notin> set (services_to_repair_in dir a b)"
  using assms by (auto simp: services_to_repair_in_def desired_services_def pam_line_present_in_def utf8_valid_ascii)

end
