(* ===== verification/Tui_State.thy ===== *)
theory Tui_State
  imports Complex_Main Keys_Import Fw_Update Pam_Config
begin

text \<open>
  The state of the terminal UI (\<open>immurok-cli/src/tui/app.rs\<close>): pages, modes, the application record,
  messages and the event feed, the results of background actions, and the refresh from the daemon.
  The channel and the threads are in \<open>Tui_Actions\<close> and \<open>Tui_Loop\<close>; the time stamps of the event feed
  are left out, and the answers of the daemon come from an environment.
\<close>

section \<open>Pages, modes and actions\<close>

definition LOG_BUFFER_CAP :: nat where "LOG_BUFFER_CAP = 1000"
definition LOG_PAGE_STEP :: nat where "LOG_PAGE_STEP = 20"
definition EVENT_BUFFER_CAP :: nat where "EVENT_BUFFER_CAP = 200"
definition SLOT_POLL_EVERY :: byte where "SLOT_POLL_EVERY = 5"

datatype tab = TabDashboard | TabKeys | TabPam | TabLogs | TabFirmware

datatype mode =
    ModeNormal
  | ModeDeleteSelect
  | ModeKeyInput
  | ModeKeyDeleteConfirm
  | ModeHelp
  | ModeEnrollKindSelect
  | ModeHostMenu
  | ModeHostConfirm

datatype host_action = UnpairSelf | UnpairSlot byte | FactoryReset | EnrollSwitch

definition host_prompt :: "host_action \<Rightarrow> byte option \<Rightarrow> string" where
  "host_prompt act mine = (case act of
     UnpairSelf \<Rightarrow> ''Unpair THIS computer? Fingerprints and keys are kept. (y/n)''
   | UnpairSlot s \<Rightarrow> (case mine of
       Some m \<Rightarrow>
         if m = s then ''Clear host slot '' @ show_word s @ '' '' @ em_dash @ '' THIS computer's own pairing? (y/n)''
         else ''Clear host slot '' @ show_word s @ '' '' @ em_dash @ '' the OTHER computer? Needs a fingerprint. (y/n)''
     | None \<Rightarrow> ''Clear host slot '' @ show_word s @ ''? Cannot tell whether it is this computer's '' @ em_dash @
         '' needs a fingerprint. (y/n)'')
   | FactoryReset \<Rightarrow> ''WIPE the device: all fingerprints, ALL SSH keys, both hosts? (y/n)''
   | EnrollSwitch \<Rightarrow> ''Enroll the host-switch finger in slot 5? (y/n)'')"

datatype fw_state =
    FwIdle | FwChecking | FwUpToDate | FwReady
  | FwUpdating (fw_stage: string) (fw_fraction: rat) (fw_hop: nat) (fw_hops: nat)
  | FwSuccess string
  | FwFailed string

datatype key_tab = KSsh | KOtp | KApi

definition tab_label :: "key_tab \<Rightarrow> string" where
  "tab_label t = (case t of KSsh \<Rightarrow> ''SSH'' | KOtp \<Rightarrow> ''OTP'' | KApi \<Rightarrow> ''API'')"

definition cat_byte :: "key_tab \<Rightarrow> byte" where
  "cat_byte t = (case t of KSsh \<Rightarrow> 0 | KOtp \<Rightarrow> 1 | KApi \<Rightarrow> 2)"

definition next_tab :: "key_tab \<Rightarrow> key_tab" where
  "next_tab t = (case t of KSsh \<Rightarrow> KOtp | KOtp \<Rightarrow> KApi | KApi \<Rightarrow> KSsh)"

definition prev_tab :: "key_tab \<Rightarrow> key_tab" where
  "prev_tab t = (case t of KSsh \<Rightarrow> KApi | KOtp \<Rightarrow> KSsh | KApi \<Rightarrow> KOtp)"

record key_add_flow =
  flow_cat :: key_tab
  flow_name :: "string option"
  flow_service :: "string option"

datatype key_input_stage = StageName | StageService | StageSecret

definition flow_stage :: "key_add_flow \<Rightarrow> key_input_stage" where
  "flow_stage f =
     (if flow_name f = None then StageName
      else if flow_cat f = KOtp \<and> flow_service f = None then StageService
      else StageSecret)"

datatype message_style = Dim | Green | Red | Yellow

record event_entry =
  event_text :: string
  event_style :: message_style

record ssh_key_row =
  row_index :: byte
  row_name :: string
  row_fingerprint :: string
  row_blob :: string

record name_key_row =
  nrow_index :: byte
  nrow_name :: string
  nrow_service :: string

section \<open>The application\<close>

record app =
  app_connected :: bool
  app_device_name :: string
  app_battery :: byte
  app_fw_version :: string
  app_paired :: bool
  app_fp_bitmap :: byte
  app_daemon_ok :: bool
  app_dual_host :: bool
  app_slot_bitmap :: byte
  app_slot_active :: byte
  app_slot_mine :: "byte option"
  app_slot_poll_tick :: byte
  app_fw_available :: "string option"
  app_fw_state :: fw_state
  app_fw_prepared :: "prepared_update option"
  app_settings :: client_settings
  app_pam_sudo :: bool
  app_pam_polkit :: bool
  app_pam_screen :: bool
  app_tab :: tab
  app_mode :: mode
  app_busy :: bool
  app_message :: string
  app_style :: message_style
  app_events :: "event_entry list"
  app_enroll_active :: bool
  app_enroll_gate :: bool
  app_enroll_slot :: byte
  app_enroll_current :: byte
  app_enroll_total :: byte
  app_key_tab :: key_tab
  app_key_cursor :: nat
  app_ssh_keys :: "ssh_key_row list"
  app_otp_keys :: "name_key_row list"
  app_api_keys :: "name_key_row list"
  app_input :: string
  app_flow :: "key_add_flow option"
  app_pending_delete :: "(key_tab \<times> byte) option"
  app_pending_host :: "host_action option"
  app_pam_cursor :: nat
  app_log_lines :: "string list"
  app_log_scroll :: nat
  app_device_unpaired :: bool
  app_isolated :: "bool option"
  app_log_open :: bool

definition app_new :: app where
  "app_new = \<lparr> app_connected = False, app_device_name = [], app_battery = 0, app_fw_version = [],
     app_paired = False, app_fp_bitmap = 0, app_daemon_ok = False, app_dual_host = False,
     app_slot_bitmap = 0, app_slot_active = 0, app_slot_mine = None, app_slot_poll_tick = 0,
     app_fw_available = None, app_fw_state = FwIdle, app_fw_prepared = None,
     app_settings = \<lparr> cst_unlock_sudo = True, cst_unlock_polkit = True, cst_unlock_screen = True,
       cst_lock_screen = False, cst_ssh_takeover = False \<rparr>,
     app_pam_sudo = False, app_pam_polkit = False, app_pam_screen = False, app_tab = TabDashboard,
     app_mode = ModeNormal, app_busy = False, app_message = ''Ready'', app_style = Dim,
     app_events = [], app_enroll_active = False, app_enroll_gate = False, app_enroll_slot = 0,
     app_enroll_current = 0, app_enroll_total = 0, app_key_tab = KSsh, app_key_cursor = 0,
     app_ssh_keys = [], app_otp_keys = [], app_api_keys = [], app_input = [], app_flow = None,
     app_pending_delete = None, app_pending_host = None, app_pam_cursor = 0, app_log_lines = [],
     app_log_scroll = 0, app_device_unpaired = False, app_isolated = None, app_log_open = False \<rparr>"

section \<open>Messages and the event feed\<close>

definition push_capped :: "nat \<Rightarrow> 'a \<Rightarrow> 'a list \<Rightarrow> 'a list" where
  "push_capped cap x xs = (if cap \<le> length xs then tl xs else xs) @ [x]"

definition set_msg_prompt :: "string \<Rightarrow> message_style \<Rightarrow> app \<Rightarrow> app" where
  "set_msg_prompt msg st a = a\<lparr> app_message := msg, app_style := st \<rparr>"

definition set_msg :: "string \<Rightarrow> message_style \<Rightarrow> app \<Rightarrow> app" where
  "set_msg msg st a0 =
     (let a = a0\<lparr> app_message := msg, app_style := st \<rparr> in
      if msg = [] \<or> msg = ''Ready'' \<or> st = Dim then a
      else if app_events a \<noteq> [] \<and> event_text (List.last (app_events a)) = msg then a
      else a\<lparr> app_events := push_capped EVENT_BUFFER_CAP \<lparr> event_text = msg, event_style = st \<rparr> (app_events a) \<rparr>)"

definition set_msg_dim :: "string \<Rightarrow> app \<Rightarrow> app" where
  "set_msg_dim msg = set_msg msg Dim"

definition guard_paired :: "app \<Rightarrow> bool \<times> app" where
  "guard_paired a =
     (if app_paired a then (True, a) else (False, set_msg ''Pair the device first (press p).'' Yellow a))"

section \<open>Results of background actions\<close>

datatype action_result =
    ARefresh
  | AMessage string message_style
  | ASecretMessage string
  | AEnrollStarted
  | AEnrollProgress byte byte
  | ALogLine string
  | ALogEnded
  | AFwSilentCheck "string option"
  | AFwPrepared "(prepared_update option, string) result"
  | AFwProgress string rat nat nat
  | AFwFinished "(string, string) result"
  | ADone

definition apply_result :: "action_result \<Rightarrow> app \<times> bool \<Rightarrow> app \<times> bool" where
  "apply_result r s = (case s of (a, needs_refresh) \<Rightarrow> (case r of
     AMessage msg st \<Rightarrow> (set_msg msg st a, needs_refresh)
   | ASecretMessage msg \<Rightarrow> (set_msg_prompt msg Green a, needs_refresh)
   | ARefresh \<Rightarrow> (a, True)
   | AEnrollStarted \<Rightarrow> (a\<lparr> app_enroll_gate := False \<rparr>, needs_refresh)
   | AEnrollProgress current tot \<Rightarrow>
       (a\<lparr> app_enroll_current := current, app_enroll_total := tot \<rparr>, needs_refresh)
   | ALogLine line \<Rightarrow> (a\<lparr> app_log_lines := push_capped LOG_BUFFER_CAP line (app_log_lines a) \<rparr>, needs_refresh)
   | ALogEnded \<Rightarrow>
       (if app_tab a = TabLogs
        then a\<lparr> app_log_lines := push_capped LOG_BUFFER_CAP ''[log stream ended]'' (app_log_lines a) \<rparr>
        else a, needs_refresh)
   | ADone \<Rightarrow> (a\<lparr> app_busy := False, app_enroll_active := False, app_enroll_gate := False \<rparr>, needs_refresh)
   | AFwSilentCheck v \<Rightarrow> (a\<lparr> app_fw_available := v \<rparr>, needs_refresh)
   | AFwPrepared p \<Rightarrow> (case p of
       Ok (Some prep) \<Rightarrow> (a\<lparr> app_fw_available := Some (prep_target prep), app_fw_prepared := Some prep,
         app_fw_state := FwReady \<rparr>, needs_refresh)
     | Ok None \<Rightarrow> (a\<lparr> app_fw_available := None, app_fw_state := FwUpToDate \<rparr>, needs_refresh)
     | Err e \<Rightarrow> (a\<lparr> app_fw_state := FwFailed e \<rparr>, needs_refresh))
   | AFwProgress stage part h hs \<Rightarrow> (a\<lparr> app_fw_state := FwUpdating stage part h hs \<rparr>, needs_refresh)
   | AFwFinished p \<Rightarrow> (case p of
       Ok v \<Rightarrow> (a\<lparr> app_busy := False, app_fw_state := FwSuccess v, app_fw_available := None \<rparr>, True)
     | Err e \<Rightarrow> (a\<lparr> app_busy := False, app_fw_state := FwFailed e \<rparr>, needs_refresh))))"

definition drain_actions :: "action_result list \<Rightarrow> app \<Rightarrow> app \<times> bool" where
  "drain_actions q a = fold apply_result q (a, False)"

section \<open>The environment of a refresh\<close>

text \<open>
  One answer for each request of a round (a round asks each of them once), the JSON reader, the user
  id, the PAM directory and whether the log stream could be opened.
\<close>

record 'j ui_env =
  ue_send :: "string \<Rightarrow> (string, string) result"
  ue_json :: "'j json_reader"
  ue_uid :: "32 word"
  ue_pam :: pam_dir
  ue_log :: "(unit, string) result"

definition fetch_key_cache :: "'j ui_env \<Rightarrow> string \<Rightarrow> 'j list" where
  "fetch_key_cache E kind = (case ue_send E (''KEY:CACHE:'' @ kind) of
     Err _ \<Rightarrow> []
   | Ok reply \<Rightarrow> unwrap_or [] (Option.bind (strip_prefix ''OK:'' reply) (\<lambda>j. json_array (ue_json E) (trim j))))"

definition isolation_field :: "string \<Rightarrow> 32 word option \<times> string \<Rightarrow> 32 word option \<times> string" where
  "isolation_field field st = (case split_once CHR ''='' field of
     None \<Rightarrow> st
   | Some (k, v) \<Rightarrow>
       if k = ''uid'' then (ok (parse_u32 (trim v)), snd st)
       else if k = ''sock'' then (fst st, trim v)
       else st)"

definition probe_isolation :: "'j ui_env \<Rightarrow> bool option" where
  "probe_isolation E = (case ue_send E ''GET:INFO'' of
     Err _ \<Rightarrow> None
   | Ok rsp \<Rightarrow> map_option (\<lambda>body.
       (let (uid, sock) = fold isolation_field (split_on CHR '':'' body) (None, [])
        in (case uid of Some u \<Rightarrow> u \<noteq> ue_uid E \<and> u \<noteq> 0 | None \<Rightarrow> False) \<and> starts_with SYSTEM_RUNTIME_DIR sock))
       (strip_prefix ''OK:'' rsp))"

section \<open>Refresh\<close>

definition ssh_row :: "'j json_reader \<Rightarrow> 'j \<Rightarrow> ssh_key_row" where
  "ssh_row J e = \<lparr> row_index = of_nat (unwrap_or 0 (get_u64 J e ''index'')),
     row_name = unwrap_or ''-'' (get_str J e ''name''),
     row_fingerprint = unwrap_or [] (get_str J e ''fingerprint''),
     row_blob = unwrap_or [] (get_str J e ''public_key_blob'') \<rparr>"

definition name_row :: "'j json_reader \<Rightarrow> 'j \<Rightarrow> name_key_row" where
  "name_row J e = \<lparr> nrow_index = of_nat (unwrap_or 0 (get_u64 J e ''index'')),
     nrow_name = unwrap_or ''-'' (get_str J e ''name''),
     nrow_service = unwrap_or [] (get_str J e ''service'') \<rparr>"

definition rows_of_cat :: "'j json_reader \<Rightarrow> string \<Rightarrow> 'j list \<Rightarrow> name_key_row list" where
  "rows_of_cat J cat es = map (name_row J) (filter (\<lambda>e. unwrap_or [] (get_str J e ''category'') = cat) es)"

definition current_key_len :: "app \<Rightarrow> nat" where
  "current_key_len a = (case app_key_tab a of
     KSsh \<Rightarrow> length (app_ssh_keys a) | KOtp \<Rightarrow> length (app_otp_keys a) | KApi \<Rightarrow> length (app_api_keys a))"

definition current_key_index :: "app \<Rightarrow> byte option" where
  "current_key_index a = (case app_key_tab a of
     KSsh \<Rightarrow> map_option row_index (get_at (app_ssh_keys a) (app_key_cursor a))
   | KOtp \<Rightarrow> map_option nrow_index (get_at (app_otp_keys a) (app_key_cursor a))
   | KApi \<Rightarrow> map_option nrow_index (get_at (app_api_keys a) (app_key_cursor a)))"

definition current_key_name :: "app \<Rightarrow> string option" where
  "current_key_name a = (case app_key_tab a of
     KSsh \<Rightarrow> map_option row_name (get_at (app_ssh_keys a) (app_key_cursor a))
   | KOtp \<Rightarrow> map_option nrow_name (get_at (app_otp_keys a) (app_key_cursor a))
   | KApi \<Rightarrow> map_option nrow_name (get_at (app_api_keys a) (app_key_cursor a)))"

definition clamp_key_cursor :: "app \<Rightarrow> app" where
  "clamp_key_cursor a =
     (let n = current_key_len a in
      if n = 0 then a\<lparr> app_key_cursor := 0 \<rparr>
      else if n \<le> app_key_cursor a then a\<lparr> app_key_cursor := n - 1 \<rparr>
      else a)"

definition refresh_keys :: "'j ui_env \<Rightarrow> app \<Rightarrow> app" where
  "refresh_keys E a =
     (let J = ue_json E; names = fetch_key_cache E ''names'' in
      clamp_key_cursor (a\<lparr> app_ssh_keys := map (ssh_row J) (fetch_key_cache E ''ssh''),
        app_otp_keys := rows_of_cat J ''otp'' names, app_api_keys := rows_of_cat J ''api'' names \<rparr>))"

text \<open>The parts of the refresh, one for each request.\<close>

definition take_status :: "string \<Rightarrow> app \<Rightarrow> app" where
  "take_status rsp a =
     (let parts = split_on CHR '':'' rsp in
      if get_at parts 0 = Some ''STATUS'' \<and> 5 \<le> length parts
      then a\<lparr> app_connected := (parts ! 1 = ''1''), app_device_name := parts ! 2,
             app_battery := unwrap_or 0 (ok (parse_u8 (parts ! 3))), app_fw_version := parts ! 4,
             app_device_unpaired := (get_at parts 5 = Some ''1'') \<rparr>
      else a)"

definition take_pair_status :: "(string, string) result \<Rightarrow> app \<Rightarrow> app" where
  "take_pair_status reply a = (case reply of
     Ok rsp \<Rightarrow> a\<lparr> app_paired := (contains_str ''PAIRED'' rsp \<and> \<not> contains_str ''UNPAIRED'' rsp) \<rparr>
   | Err _ \<Rightarrow> a)"

definition take_bitmap :: "(string, string) result \<Rightarrow> app \<Rightarrow> app" where
  "take_bitmap reply a =
     (if app_connected a then (case reply of
        Ok rsp \<Rightarrow> (let parts = split_on CHR '':'' rsp in
          if get_at parts 0 = Some ''OK'' \<and> 1 < length parts
          then a\<lparr> app_fp_bitmap := unwrap_or 0 (ok (parse_u8 (parts ! 1))) \<rparr> else a)
      | Err _ \<Rightarrow> a)
      else a\<lparr> app_fp_bitmap := 0 \<rparr>)"

definition take_slots :: "(string, string) result \<Rightarrow> app \<Rightarrow> app" where
  "take_slots reply a0 =
     (let a = a0\<lparr> app_slot_poll_tick := app_slot_poll_tick a0 + 1 \<rparr>;
          poll_slots = (app_slot_poll_tick a mod SLOT_POLL_EVERY = 1)
      in if app_connected a \<and> poll_slots then
           (case Option.bind (ok reply) parse_slot_status_line of
              Some (Supported bitmap active) \<Rightarrow> a\<lparr> app_dual_host := True, app_slot_bitmap := bitmap,
                app_slot_active := active, app_slot_mine := Option.bind (ok reply) parse_slot_owner \<rparr>
            | Some Unsupported \<Rightarrow> a\<lparr> app_dual_host := False, app_slot_bitmap := 0, app_slot_active := 0,
                app_slot_mine := None \<rparr>
            | None \<Rightarrow> a)
         else a\<lparr> app_slot_active := 0 \<rparr>)"

definition take_settings :: "(string, string) result \<Rightarrow> app \<Rightarrow> app" where
  "take_settings reply a = (case reply of
     Ok rsp \<Rightarrow> (case split_on CHR '':'' rsp of
       p # parts \<Rightarrow> if p = ''OK'' then a\<lparr> app_settings := fold settings_field parts (app_settings a) \<rparr> else a
     | [] \<Rightarrow> a)
   | Err _ \<Rightarrow> a)"

definition take_pam :: "pam_dir \<Rightarrow> app \<Rightarrow> app" where
  "take_pam dir a = a\<lparr> app_pam_sudo := pam_line_present_in dir ''sudo'',
     app_pam_polkit := pam_line_present_in dir ''polkit-1'',
     app_pam_screen := pam_line_present_in dir ''gdm-password'' \<rparr>"

text \<open>The queue \<open>q\<close> holds the results that arrived since the loop drained the channel.\<close>

definition refresh :: "'j ui_env \<Rightarrow> action_result list \<Rightarrow> app \<Rightarrow> app" where
  "refresh E q a0 =
     (let a = fst (drain_actions q a0) in case ue_send E ''STATUS'' of
        Err _ \<Rightarrow> a\<lparr> app_daemon_ok := False, app_connected := False \<rparr>
      | Ok rsp \<Rightarrow>
          (let a1 = take_status rsp (a\<lparr> app_daemon_ok := True \<rparr>);
               a2 = take_bitmap (ue_send E ''FP:LIST'') (take_pair_status (ue_send E ''PAIR:STATUS'') a1);
               a3 = take_settings (ue_send E ''GET:SETTINGS'') (take_slots (ue_send E ''SLOT:STATUS'') a2);
               a4 = refresh_keys E (take_pam (ue_pam E) a3)
           in a4\<lparr> app_isolated := probe_isolation E \<rparr>))"

end
