(* ===== verification/Tui_Actions.thy ===== *)
theory Tui_Actions
  imports Tui_State Ssh_Import
begin

text \<open>
  The actions of the terminal UI (\<open>immurok-cli/src/tui/app.rs\<close>). An action changes the application
  and starts background jobs; a job is a value, and \<open>job_trace\<close> is the sequence of results its thread
  sends, given the answers it gets. The threads only meet the application through these results.
\<close>

section \<open>Jobs\<close>

datatype job =
    JSlotClear byte
  | JFactoryReset
  | JPair
  | JPairPoller bool
  | JUnpair
  | JEnroll byte
  | JEnrollCancel
  | JDelete byte
  | JVerify
  | JSetting string string bool "string option"
  | JKeyAdd key_add_cat string string bytes
  | JShowApi string
  | JKeyGenerate string
  | JKeyDelete key_tab byte
  | JKeyOtp string
  | JFwSilentCheck
  | JFwPrepare
  | JFwPush prepared_update
  | JLogReader

text \<open>Progress events of a firmware update: the hop, the number of hops, and the stage or fraction.\<close>

datatype fw_event = FwStageEvent nat nat string | FwTransfer nat nat rat | FwReconnect nat nat

text \<open>
  What a job meets: the answer to a request in its \<open>i\<close>-th round, the rounds of the pairing poller
  before the pairing ends, the results of the update check, and the lines of the log.
\<close>

record job_env =
  je_hex :: "bytes \<Rightarrow> string"
  je_reply :: "nat \<Rightarrow> string \<Rightarrow> (string, string) result"
  je_polls :: nat
  je_silent :: "string option"
  je_prepare :: "(prepared_update option, string) result"
  je_push :: "fw_event list \<times> (unit, string) result"
  je_lines :: "string list"

abbreviation je_once :: "job_env \<Rightarrow> string \<Rightarrow> (string, string) result" where
  "je_once E \<equiv> je_reply E 0"

section \<open>Host actions\<close>

definition slot_clear_report :: "(string, string) result \<Rightarrow> action_result" where
  "slot_clear_report reply = (case reply of
     Ok rsp \<Rightarrow> (case classify_unpair_response rsp of
       UnpairCleared \<Rightarrow> AMessage ''Host slot cleared.'' Green
     | UnpairUnconfirmed \<Rightarrow> AMessage (''The device's active slot changed '' @ em_dash @
         '' the request was re-routed to THIS computer's own slot, which is now unpaired. The other slot was NOT touched.'') Yellow
     | UnpairLocalOnly \<Rightarrow> AMessage (''The device's active slot changed '' @ em_dash @
         '' the request was re-routed to THIS computer's own slot, which is now unpaired. The other slot was NOT touched.'') Yellow
     | UnpairSlotUnpaired \<Rightarrow> AMessage ''The device is on an empty slot and refused the command. No slot was cleared; the local pairing record was dropped. Touch the host-switch finger to bring it back to a paired slot.'' Yellow
     | UnpairRefused \<Rightarrow> AMessage ''The device refused to clear that slot. Nothing changed.'' Red
     | UnpairFailed \<Rightarrow> AMessage (''Clear failed: '' @ rsp) Red)
   | Err e \<Rightarrow> AMessage (''Clear error: '' @ e) Red)"

definition factory_reset_report :: "(string, string) result \<Rightarrow> action_result" where
  "factory_reset_report reply = (case reply of
     Ok rsp \<Rightarrow>
       if rsp = ''OK:RESET'' then AMessage ''Device wiped and pairing cleared.'' Green
       else AMessage (''Factory reset failed: '' @ rsp @ ''. Device was NOT wiped '' @ em_dash @
         '' this computer is still paired.'') Red
   | Err e \<Rightarrow> AMessage (''Factory reset error: '' @ e @ ''. Device was NOT wiped '' @ em_dash @
         '' this computer is still paired.'') Red)"

definition pair_report :: "(string, string) result \<Rightarrow> action_result" where
  "pair_report reply = (case reply of
     Ok rsp \<Rightarrow>
       if rsp = ''OK:PAIRED'' then AMessage ''Pairing successful.'' Green
       else if rsp = ''ERROR:PAIRING_IN_PROGRESS'' then AMessage
         (''Another pairing attempt is already in progress '' @ em_dash @ '' wait for it to finish or time out.'') Yellow
       else AMessage (''Pairing failed: '' @ rsp) Red
   | Err e \<Rightarrow> AMessage (''Pairing error: '' @ e) Red)"

definition pair_stage_msg :: "bool \<Rightarrow> string \<Rightarrow> string option" where
  "pair_stage_msg second_host stage =
     (if stage = ''WAIT_FP'' then Some (''(1/2) Waiting for your fingerprint on the device'' @ ellipsis)
      else if stage = ''WAIT_BUTTON'' \<and> second_host then
        Some (''(1/2) '' @ check_mark @ '' fingerprint accepted '' @ em_dash @ '' (2/2) now press the device button'')
      else if stage = ''WAIT_BUTTON'' then Some (''Press the device button'' @ ellipsis)
      else if stage = ''ECDH'' then Some (''Button pressed '' @ em_dash @ '' exchanging keys'' @ ellipsis)
      else None)"

text \<open>One round of the poller: a stage is reported when it differs from the last one seen.\<close>

definition poller_round ::
    "bool \<Rightarrow> (string, string) result \<Rightarrow> string \<times> action_result list \<Rightarrow> string \<times> action_result list" where
  "poller_round second_host reply st = (case (reply, st) of
     (Err _, _) \<Rightarrow> st
   | (Ok line, (last_stage, out)) \<Rightarrow>
       (let stage = unwrap_or [] (get_at (split_on CHR '':'' line) 1) in
        if stage = last_stage then st
        else (stage, case pair_stage_msg second_host stage of
          None \<Rightarrow> out | Some msg \<Rightarrow> out @ [AMessage msg Yellow])))"

definition unpair_report :: "(string, string) result \<Rightarrow> action_result" where
  "unpair_report reply = (case reply of
     Ok rsp \<Rightarrow> (case classify_unpair_response rsp of
       UnpairCleared \<Rightarrow> AMessage ''This computer unpaired.'' Green
     | UnpairUnconfirmed \<Rightarrow> AMessage (''This computer unpaired (device likely rebooted after clearing; on firmware < 1.6.12 it may still hold this slot '' @ em_dash @ '' check slot status).'') Yellow
     | UnpairLocalOnly \<Rightarrow> AMessage (''Local pairing cleared, but the device was unreachable '' @ em_dash @
         '' its slot still holds this host's key. Re-run this while connected.'') Yellow
     | UnpairSlotUnpaired \<Rightarrow> AMessage (''Local pairing cleared '' @ em_dash @
         '' nothing on the device changed. It is sitting on an empty slot and refuses every command; if this host's key is in the other slot it is still there. Touch the host-switch finger to bring the device back to it.'') Yellow
     | UnpairRefused \<Rightarrow> AMessage (''The device refused to clear this slot. Nothing cleared '' @ em_dash @
         '' this computer is still paired.'') Red
     | UnpairFailed \<Rightarrow> AMessage (''Unpair failed: '' @ rsp) Red)
   | Err e \<Rightarrow> AMessage (''Unpair error: '' @ e) Red)"

section \<open>Enrollment\<close>

text \<open>The variables of the poll loop, and one poll: the results sent, and how the loop goes on.\<close>

record enroll_vars =
  last_event :: byte
  last_current :: byte
  bitmap_polls :: nat

datatype poll_end = PollAgain | PollEnrolled | PollFailed

definition enroll_event_msg :: "byte \<Rightarrow> byte \<Rightarrow> byte \<Rightarrow> action_result list" where
  "enroll_event_msg event current tot =
     (if event = 0 then [AMessage (''Place finger on sensor'' @ ellipsis) Yellow]
      else if event = 1 then
        [AMessage (if current < tot
           then ''Captured ['' @ show_word current @ ''/'' @ show_word tot @ ''] '' @ em_dash @ '' lift and press again''
           else ''Captured ['' @ show_word current @ ''/'' @ show_word tot @ '']'') Yellow]
      else if event = 2 then [AMessage (''Processing'' @ ellipsis) Yellow]
      else [])"

definition bitmap_has :: "byte \<Rightarrow> (string, string) result \<Rightarrow> bool" where
  "bitmap_has slot reply = (case reply of
     Ok rsp \<Rightarrow> (let lp = split_on CHR '':'' rsp in
       get_at lp 0 = Some ''OK'' \<and> (case Option.bind (get_at lp 1) (\<lambda>f. ok (parse_u8 f)) of
         Some bm \<Rightarrow> bm AND push_bit (unat slot) 1 \<noteq> 0 | None \<Rightarrow> False))
   | Err _ \<Rightarrow> False)"

definition enrolled_msg :: "byte \<Rightarrow> action_result" where
  "enrolled_msg slot = AMessage (''Slot '' @ show_word slot @ '' enrolled.'') Green"

definition enroll_poll ::
    "byte \<Rightarrow> (string \<Rightarrow> (string, string) result) \<Rightarrow> enroll_vars \<Rightarrow> action_result list \<times> poll_end \<times> enroll_vars" where
  "enroll_poll slot ask_d v = (case ask_d ''FP:STATUS'' of
     Err _ \<Rightarrow> ([], PollAgain, v)
   | Ok rsp \<Rightarrow> (case split_on CHR '':'' rsp of
       p # second # parts \<Rightarrow>
         if p \<noteq> ''OK'' then ([], PollAgain, v)
         else if second = ''IDLE'' then
           (let v1 = v\<lparr> bitmap_polls := bitmap_polls v + 1 \<rparr> in
            if bitmap_polls v1 mod 20 = 0 \<and> bitmap_has slot (ask_d ''FP:LIST'')
            then ([enrolled_msg slot], PollEnrolled, v1) else ([], PollAgain, v1))
         else (case parse_u8 second of
           Err _ \<Rightarrow> ([], PollAgain, v)
         | Ok event \<Rightarrow>
             (let current = unwrap_or 0 (Option.bind (get_at parts 0) (\<lambda>f. ok (parse_u8 f)));
                  tot = unwrap_or 6 (Option.bind (get_at parts 1) (\<lambda>f. ok (parse_u8 f)));
                  prog = AEnrollProgress current tot
              in if event = last_event v \<and> current = last_current v then ([prog], PollAgain, v)
                 else let v1 = v\<lparr> last_event := event, last_current := current \<rparr> in
                   if event = 4 then ([prog, enrolled_msg slot], PollEnrolled, v1)
                   else if event = 0xFF then ([prog], PollFailed, v1)
                   else (prog # enroll_event_msg event current tot, PollAgain, v1)))
     | _ \<Rightarrow> ([], PollAgain, v)))"

definition job_end :: "action_result list" where
  "job_end = [ARefresh, ADone]"

definition enroll_error :: "string \<Rightarrow> action_result list" where
  "enroll_error e = AMessage (''Enroll error: '' @ e) Red # job_end"

text \<open>The remaining polls, at 150 ms each; poll \<open>i\<close> gets the answers of round \<open>i\<close>.\<close>

fun enroll_polls :: "byte \<Rightarrow> (nat \<Rightarrow> string \<Rightarrow> (string, string) result) \<Rightarrow> nat list \<Rightarrow> enroll_vars \<Rightarrow> action_result list" where
  "enroll_polls slot reply [] v = enroll_error ''Enrollment timed out''"
| "enroll_polls slot reply (i # is) v = (case enroll_poll slot (reply i) v of
     (out, PollAgain, v1) \<Rightarrow> out @ enroll_polls slot reply is v1
   | (out, PollEnrolled, _) \<Rightarrow> out @ job_end
   | (out, PollFailed, _) \<Rightarrow> out @ enroll_error ''Enrollment failed'')"

definition enroll_trace :: "job_env \<Rightarrow> byte \<Rightarrow> action_result list" where
  "enroll_trace E slot = (case je_once E (''FP:ENROLL:'' @ show_word slot) of
     Err e \<Rightarrow> enroll_error e
   | Ok rsp \<Rightarrow>
       if \<not> contains_str ''ENROLL_STARTED'' rsp then enroll_error (''Start failed: '' @ rsp)
       else [AEnrollStarted, AMessage (''Enrollment started '' @ em_dash @ '' place finger'' @ ellipsis) Yellow] @
         enroll_polls slot (je_reply E) [0..<2400] \<lparr> last_event = 255, last_current = 255, bitmap_polls = 0 \<rparr>)"

section \<open>Fingerprints, settings and keys\<close>

definition delete_report :: "byte \<Rightarrow> (string, string) result \<Rightarrow> action_result" where
  "delete_report slot reply = (case reply of
     Ok rsp \<Rightarrow>
       if contains_str ''DELETED'' rsp then AMessage (''Slot '' @ show_word slot @ '' deleted.'') Green
       else AMessage (''Delete failed: '' @ rsp) Red
   | Err e \<Rightarrow> AMessage (''Delete error: '' @ e) Red)"

definition verify_report :: "(string, string) result \<Rightarrow> action_result" where
  "verify_report reply = (case reply of
     Ok rsp \<Rightarrow>
       if contains_str ''MATCH'' rsp \<and> \<not> contains_str ''NO_MATCH'' rsp then AMessage ''Fingerprint verified.'' Green
       else if contains_str ''NO_MATCH'' rsp then AMessage ''Fingerprint did not match.'' Red
       else AMessage (''Verify: '' @ rsp) Red
   | Err e \<Rightarrow> AMessage (''Verify error: '' @ e) Red)"

definition setting_report :: "string \<Rightarrow> bool \<Rightarrow> string option \<Rightarrow> (string, string) result \<Rightarrow> action_result" where
  "setting_report nm enabling note_text reply = (let state = (if enabling then ''ON'' else ''OFF'') in case reply of
     Ok rsp \<Rightarrow>
       if starts_with ''OK'' rsp then AMessage (nm @ '' '' @ right_arrow @ '' '' @ state @
         (case note_text of Some n \<Rightarrow> '' '' @ em_dash @ '' '' @ n | None \<Rightarrow> [])) Green
       else AMessage (''Setting '' @ nm @ '' failed: '' @ rsp) Red
   | Err e \<Rightarrow> AMessage (''Setting '' @ nm @ '' error: '' @ e) Red)"

definition add_label :: "key_add_cat \<Rightarrow> string" where
  "add_label cat = (case cat of AddOtp \<Rightarrow> tab_label KOtp | AddApi \<Rightarrow> tab_label KApi)"

definition key_add_report :: "key_add_cat \<Rightarrow> string \<Rightarrow> (string, string) result \<Rightarrow> action_result" where
  "key_add_report cat nm reply = (case reply of
     Ok rsp \<Rightarrow>
       if starts_with ''OK'' rsp then AMessage (add_label cat @ '' key '' @ [CHR 0x27] @ nm @ [CHR 0x27] @ '' added.'') Green
       else AMessage (''Add failed: '' @ rsp) Red
   | Err e \<Rightarrow> AMessage (''Add error: '' @ e) Red)"

definition show_api_report :: "string \<Rightarrow> (string, string) result \<Rightarrow> action_result" where
  "show_api_report nm reply = (case reply of
     Ok rsp \<Rightarrow> (case strip_prefix ''OK:'' (trim rsp) of
       Some val \<Rightarrow> ASecretMessage (''API key '' @ [CHR 0x27] @ nm @ [CHR 0x27] @ '': '' @ val)
     | None \<Rightarrow> AMessage (''Fetch failed: '' @ trim rsp) Red)
   | Err e \<Rightarrow> AMessage (''Fetch error: '' @ e) Red)"

definition otp_report :: "string \<Rightarrow> (string, string) result \<Rightarrow> action_result" where
  "otp_report nm reply = (case reply of
     Ok rsp \<Rightarrow> (case strip_prefix ''OK:'' (trim rsp) of
       Some code \<Rightarrow> ASecretMessage (''OTP code for '' @ [CHR 0x27] @ nm @ [CHR 0x27] @ '': '' @ code)
     | None \<Rightarrow> AMessage (''OTP failed: '' @ trim rsp) Red)
   | Err e \<Rightarrow> AMessage (''OTP error: '' @ e) Red)"

definition generate_report :: "string \<Rightarrow> (string, string) result \<Rightarrow> action_result" where
  "generate_report nm reply = (case and_then reply parse_write_reply of
     Ok _ \<Rightarrow> AMessage (''SSH keypair '' @ [CHR 0x27] @ nm @ [CHR 0x27] @ '' generated.'') Green
   | Err e \<Rightarrow> AMessage (''Generate failed: '' @ e) Red)"

definition key_delete_report :: "key_tab \<Rightarrow> byte \<Rightarrow> (string, string) result \<Rightarrow> action_result" where
  "key_delete_report t idx reply = (case reply of
     Ok rsp \<Rightarrow>
       if starts_with ''OK'' rsp then AMessage (tab_label t @ '' key ['' @ show_word idx @ ''] deleted.'') Green
       else AMessage (''Delete failed: '' @ rsp) Red
   | Err e \<Rightarrow> AMessage (''Delete error: '' @ e) Red)"

section \<open>Firmware\<close>

definition stage_label :: "string \<Rightarrow> string" where
  "stage_label nm =
     (if nm = ''info'' then ''querying device''
      else if nm = ''erase'' then ''erasing Image B''
      else if nm = ''header'' then ''sending header''
      else if nm = ''write'' then ''writing firmware''
      else if nm = ''end'' then ''verifying + rebooting''
      else if nm = ''retry'' then ''retrying after transfer error''
      else ''working'')"

definition event_hop :: "fw_event \<Rightarrow> nat" where
  "event_hop ev = (case ev of FwStageEvent h _ _ \<Rightarrow> h | FwTransfer h _ _ \<Rightarrow> h | FwReconnect h _ \<Rightarrow> h)"

text \<open>
  The closure that receives the progress events: the fraction reached in the current hop, the hop of
  the last event, and the results sent. Fractions are rationals.
\<close>

definition push_event_step ::
    "fw_event \<Rightarrow> rat \<times> nat option \<times> action_result list \<Rightarrow> rat \<times> nat option \<times> action_result list" where
  "push_event_step ev st = (case st of (last_frac0, last_hop, out) \<Rightarrow>
     (let last_frac = (if Some (event_hop ev) \<noteq> last_hop then 0 else last_frac0);
          (new_frac, stage, part, h, hs) = (case ev of
             FwStageEvent h hs nm \<Rightarrow>
               (let f = (if nm = ''retry'' then 0 else last_frac) in (f, stage_label nm, f, h, hs))
           | FwTransfer h hs f \<Rightarrow> (f, ''writing firmware'', f, h, hs)
           | FwReconnect h hs \<Rightarrow> (1, ''waiting for device reboot'', 1, h, hs))
      in (new_frac, Some (event_hop ev),
          out @ [AFwProgress stage ((of_nat h + part) / of_nat hs) (h + 1) hs])))"

definition push_trace :: "job_env \<Rightarrow> prepared_update \<Rightarrow> action_result list" where
  "push_trace E prep =
     snd (snd (fold push_event_step (fst (je_push E)) (0, None, []))) @
     [AFwFinished (case snd (je_push E) of Ok _ \<Rightarrow> Ok (prep_target prep) | Err e \<Rightarrow> Err e)]"

section \<open>The results of a job\<close>

text \<open>The request a job sends first.\<close>

definition job_request :: "job_env \<Rightarrow> job \<Rightarrow> string option" where
  "job_request E j = (case j of
     JSlotClear slot \<Rightarrow> Some (''SLOT:CLEAR:'' @ show_word slot)
   | JFactoryReset \<Rightarrow> Some ''PAIR:FACTORY_RESET''
   | JPair \<Rightarrow> Some ''PAIR:START''
   | JPairPoller _ \<Rightarrow> Some ''PAIR:PROGRESS''
   | JUnpair \<Rightarrow> Some ''SLOT:CLEAR''
   | JEnroll slot \<Rightarrow> Some (''FP:ENROLL:'' @ show_word slot)
   | JEnrollCancel \<Rightarrow> Some ''FP:ENROLL_CANCEL''
   | JDelete slot \<Rightarrow> Some (''FP:DELETE:'' @ show_word slot)
   | JVerify \<Rightarrow> Some ''FP:VERIFY''
   | JSetting _ key enabling _ \<Rightarrow> Some (''SET:'' @ key @ '':'' @ (if enabling then ''1'' else ''0''))
   | JKeyAdd cat nm svc secret \<Rightarrow> Some (build_key_add_cmd (je_hex E) cat nm svc secret)
   | JShowApi nm \<Rightarrow> Some (''GET:api:'' @ nm)
   | JKeyGenerate nm \<Rightarrow> Some (generate_ssh_cmd (je_hex E) nm)
   | JKeyDelete t idx \<Rightarrow> Some (''KEY:DELETE:'' @ show_word (cat_byte t) @ '':'' @ show_word idx)
   | JKeyOtp nm \<Rightarrow> Some (''GET:otp:'' @ nm)
   | _ \<Rightarrow> None)"

definition job_trace :: "job_env \<Rightarrow> job \<Rightarrow> action_result list" where
  "job_trace E j = (let reply = je_once E (the (job_request E j)) in case j of
     JSlotClear _ \<Rightarrow> slot_clear_report reply # job_end
   | JFactoryReset \<Rightarrow> factory_reset_report reply # job_end
   | JPair \<Rightarrow> pair_report reply # job_end
   | JPairPoller second_host \<Rightarrow> snd (fold (\<lambda>i. poller_round second_host (je_reply E i ''PAIR:PROGRESS''))
       [0..<je_polls E] ([], []))
   | JUnpair \<Rightarrow> unpair_report reply # job_end
   | JEnroll slot \<Rightarrow> enroll_trace E slot
   | JEnrollCancel \<Rightarrow> []
   | JDelete slot \<Rightarrow> delete_report slot reply # job_end
   | JVerify \<Rightarrow> [verify_report reply, ADone]
   | JSetting nm _ enabling note_text \<Rightarrow> setting_report nm enabling note_text reply # job_end
   | JKeyAdd cat nm _ _ \<Rightarrow> key_add_report cat nm reply # job_end
   | JShowApi nm \<Rightarrow> [show_api_report nm reply, ADone]
   | JKeyGenerate nm \<Rightarrow> generate_report nm reply # job_end
   | JKeyDelete t idx \<Rightarrow> key_delete_report t idx reply # job_end
   | JKeyOtp nm \<Rightarrow> [otp_report nm reply, ADone]
   | JFwSilentCheck \<Rightarrow> [AFwSilentCheck (je_silent E)]
   | JFwPrepare \<Rightarrow> [AFwPrepared (je_prepare E)]
   | JFwPush prep \<Rightarrow> push_trace E prep
   | JLogReader \<Rightarrow> map ALogLine (je_lines E) @ [ALogEnded])"

text \<open>The device actions: those that end with \<open>ADone\<close>.\<close>

definition is_action :: "job \<Rightarrow> bool" where
  "is_action j = (case j of
     JPairPoller _ \<Rightarrow> False | JEnrollCancel \<Rightarrow> False | JFwSilentCheck \<Rightarrow> False | JFwPrepare \<Rightarrow> False
   | JFwPush _ \<Rightarrow> False | JLogReader \<Rightarrow> False | _ \<Rightarrow> True)"

section \<open>Actions of the pages\<close>

text \<open>An action yields the new application and the jobs it starts.\<close>

definition with_paired :: "(app \<Rightarrow> app \<times> job list) \<Rightarrow> app \<Rightarrow> app \<times> job list" where
  "with_paired act a = (case guard_paired a of (True, a1) \<Rightarrow> act a1 | (False, a1) \<Rightarrow> (a1, []))"

definition not_connected :: "app \<Rightarrow> app \<times> job list" where
  "not_connected a = (set_msg ''Device not connected'' Red a, [])"

definition switch_finger_available :: "app \<Rightarrow> bool" where
  "switch_finger_available a \<longleftrightarrow>
     app_dual_host a \<and> app_fp_bitmap a AND push_bit (unat SWITCH_FINGER_SLOT) 1 = 0"

definition action_enroll :: "byte \<Rightarrow> app \<Rightarrow> app \<times> job list" where
  "action_enroll slot a =
     (if app_busy a then (a, [])
      else let gate = (app_fp_bitmap a \<noteq> 0);
             a1 = a\<lparr> app_mode := ModeNormal, app_busy := True, app_enroll_active := True,
               app_enroll_gate := gate, app_enroll_slot := slot, app_enroll_current := 0,
               app_enroll_total := 6 \<rparr>
        in (set_msg (if gate
              then ''Enrolling slot '' @ show_word slot @ '' '' @ em_dash @ '' verify with an enrolled finger to authorize'' @ ellipsis
              else ''Enrolling slot '' @ show_word slot @ '' '' @ em_dash @ '' place finger on sensor'' @ ellipsis) Yellow a1,
            [JEnroll slot]))"

definition enroll_auth_finger :: "app \<Rightarrow> app \<times> job list" where
  "enroll_auth_finger a =
     (case List.find (\<lambda>i. app_fp_bitmap a AND push_bit (unat i) 1 = 0) (u8_range MAX_FINGERPRINT_SLOTS) of
        Some s \<Rightarrow> action_enroll s a
      | None \<Rightarrow> (set_msg ''All authentication slots are full'' Red (a\<lparr> app_mode := ModeNormal \<rparr>), []))"

definition auto_enroll :: "app \<Rightarrow> app \<times> job list" where
  "auto_enroll = with_paired (\<lambda>a.
     if \<not> app_connected a then not_connected a
     else if app_busy a then (a, [])
     else if switch_finger_available a then
       (set_msg (''Enroll:  a = authentication finger  '' @ mid_dot @ ''  s = host-switch finger (slot 5)  '' @
          mid_dot @ ''  Esc'') Yellow (a\<lparr> app_mode := ModeEnrollKindSelect \<rparr>), [])
     else enroll_auth_finger a)"

definition enroll_kind_pick :: "string \<Rightarrow> app \<Rightarrow> app \<times> job list" where
  "enroll_kind_pick c a =
     (if c = ''a'' \<or> c = ''A'' then enroll_auth_finger (a\<lparr> app_mode := ModeNormal \<rparr>)
      else if c = ''s'' \<or> c = ''S'' then action_enroll SWITCH_FINGER_SLOT (a\<lparr> app_mode := ModeNormal \<rparr>)
      else (a, []))"

definition back_to_normal :: "app \<Rightarrow> app" where
  "back_to_normal a = set_msg ''Ready'' Dim (a\<lparr> app_mode := ModeNormal \<rparr>)"

definition enter_delete_select :: "app \<Rightarrow> app \<times> job list" where
  "enter_delete_select = with_paired (\<lambda>a.
     if \<not> app_connected a then not_connected a
     else (set_msg (''Press 0-'' @ show_word SWITCH_FINGER_SLOT @ '' to choose slot to delete ('' @
             show_word SWITCH_FINGER_SLOT @ '' = host-switch finger, Esc to cancel)'') Yellow
             (a\<lparr> app_mode := ModeDeleteSelect \<rparr>), []))"

definition action_delete :: "byte \<Rightarrow> app \<Rightarrow> app \<times> job list" where
  "action_delete slot a =
     (if app_busy a then (a, [])
      else (set_msg (''Deleting slot '' @ show_word slot @ '' '' @ em_dash @ '' touch sensor to confirm'') Yellow
              (a\<lparr> app_mode := ModeNormal, app_busy := True \<rparr>), [JDelete slot]))"

definition action_verify :: "app \<Rightarrow> app \<times> job list" where
  "action_verify = with_paired (\<lambda>a.
     if app_busy a then (a, [])
     else if \<not> app_connected a then not_connected a
     else (set_msg (''Touch sensor to verify'' @ ellipsis) Yellow (a\<lparr> app_busy := True \<rparr>), [JVerify]))"

definition action_enroll_cancel :: "app \<Rightarrow> app \<times> job list" where
  "action_enroll_cancel a =
     (if \<not> app_enroll_active a then (a, [])
      else (set_msg ''Enrollment cancelled.'' Yellow a, [JEnrollCancel]))"

section \<open>The two hosts\<close>

definition enter_host_menu :: "app \<Rightarrow> app" where
  "enter_host_menu a =
     (if app_busy a then a
      else if \<not> app_dual_host a then set_msg ''This device's firmware has no dual-host support.'' Yellow a
      else set_msg (''Hosts:  1 / 2 unpair that host  '' @ mid_dot @ ''  s enroll switch finger  '' @ mid_dot @
             ''  R factory reset  '' @ mid_dot @ ''  Esc'') Yellow (a\<lparr> app_mode := ModeHostMenu \<rparr>))"

text \<open>The shift by \<open>slot_active - 1\<close> is only reached for an active slot other than 0.\<close>

definition unpair_self_prompt :: "app \<Rightarrow> string" where
  "unpair_self_prompt a =
     (if app_connected a \<and> \<not> app_dual_host a then
        ''Unpair? This firmware predates dual-host support: if fingerprints remain enrolled, re-pairing afterward will need a factory reset (erases ALL keys). Delete fingerprints first to avoid that. (y/n)''
      else let only_us = (app_dual_host a \<and> app_slot_active a \<noteq> 0 \<and>
                 app_slot_bitmap a = push_bit (unat (app_slot_active a - 1)) 1)
        in if only_us \<and> app_fp_bitmap a \<noteq> 0 then
             ''Unpair? This is the ONLY paired host and fingerprints remain '' @ em_dash @
             '' re-pairing will be refused and only a 3s button hold (erases ALL keys) recovers. Delete fingerprints first. (y/n)''
           else host_prompt UnpairSelf (app_slot_mine a))"

definition prompt_for :: "host_action \<Rightarrow> app \<Rightarrow> string" where
  "prompt_for act a = (case act of UnpairSelf \<Rightarrow> unpair_self_prompt a | _ \<Rightarrow> host_prompt act (app_slot_mine a))"

definition stage_host_action :: "host_action \<Rightarrow> app \<Rightarrow> app" where
  "stage_host_action act a =
     (let a1 = a\<lparr> app_pending_host := Some act, app_mode := ModeHostConfirm \<rparr>
      in set_msg (prompt_for act a1) Red a1)"

definition host_menu_action :: "string \<Rightarrow> host_action option" where
  "host_menu_action c =
     (if c = ''1'' then Some (UnpairSlot 1) else if c = ''2'' then Some (UnpairSlot 2)
      else if c = ''s'' then Some EnrollSwitch else if c = ''R'' then Some FactoryReset else None)"

definition host_menu_pick :: "string \<Rightarrow> app \<Rightarrow> app" where
  "host_menu_pick c a = (case host_menu_action c of
     None \<Rightarrow> a
   | Some act \<Rightarrow>
       (let normal = a\<lparr> app_mode := ModeNormal \<rparr> in case act of
          UnpairSlot slot \<Rightarrow>
            if app_slot_bitmap a AND push_bit (unat (slot - 1)) 1 = 0
            then set_msg (''Host slot '' @ show_word slot @ '' is already empty.'') Yellow normal
            else stage_host_action act a
        | EnrollSwitch \<Rightarrow> (case guard_paired a of
            (False, a1) \<Rightarrow> a1\<lparr> app_mode := ModeNormal \<rparr>
          | (True, _) \<Rightarrow>
              if \<not> app_connected a then set_msg ''Device not connected'' Red normal
              else if app_fp_bitmap a AND push_bit (unat SWITCH_FINGER_SLOT) 1 \<noteq> 0
              then set_msg (''Host-switch finger (slot 5) is already enrolled '' @ em_dash @ '' delete it first.'') Yellow normal
              else stage_host_action act a)
        | _ \<Rightarrow> stage_host_action act a))"

definition request_unpair_self :: "app \<Rightarrow> app" where
  "request_unpair_self a = (if app_busy a then a else stage_host_action UnpairSelf a)"

definition cancel_host_action :: "app \<Rightarrow> app" where
  "cancel_host_action a = back_to_normal (a\<lparr> app_pending_host := None \<rparr>)"

definition action_slot_clear :: "byte \<Rightarrow> app \<Rightarrow> app \<times> job list" where
  "action_slot_clear slot a =
     (if app_busy a then (a, [])
      else (set_msg (''Clearing host slot '' @ show_word slot @ '' '' @ em_dash @ '' touch an enrolled finger'' @ ellipsis)
              Yellow (a\<lparr> app_busy := True \<rparr>), [JSlotClear slot]))"

definition action_factory_reset :: "app \<Rightarrow> app \<times> job list" where
  "action_factory_reset a =
     (if app_busy a then (a, [])
      else (set_msg (''Wiping device '' @ em_dash @ '' touch an enrolled finger to authorize'' @ ellipsis) Red
              (a\<lparr> app_busy := True \<rparr>), [JFactoryReset]))"

definition action_unpair :: "app \<Rightarrow> app \<times> job list" where
  "action_unpair a =
     (if app_busy a then (a, [])
      else (set_msg (''Unpairing this computer'' @ ellipsis) Yellow (a\<lparr> app_busy := True \<rparr>), [JUnpair]))"

definition confirm_host_action :: "app \<Rightarrow> app \<times> job list" where
  "confirm_host_action a0 =
     (let a = a0\<lparr> app_pending_host := None, app_mode := ModeNormal \<rparr> in case app_pending_host a0 of
        None \<Rightarrow> (a, [])
      | Some act \<Rightarrow> (case act of
          UnpairSelf \<Rightarrow> action_unpair a
        | UnpairSlot slot \<Rightarrow>
            if Some slot = app_slot_mine a then action_unpair a else action_slot_clear slot a
        | FactoryReset \<Rightarrow> action_factory_reset a
        | EnrollSwitch \<Rightarrow> action_enroll SWITCH_FINGER_SLOT a))"

text \<open>
  \<open>is_second_host\<close> shifts by \<open>active - 1\<close>. The TUI sets the active slot to 0 on
  every refresh that does not ask for the slots, and \<open>p\<close> then reaches the subtraction: a release build
  wraps it and takes the shift modulo 8, which misses both slot bits as the model's shift by 255 does;
  a build with overflow checks panics there.
\<close>

definition pairs_as_second_host :: "app \<Rightarrow> bool" where
  "pairs_as_second_host a \<longleftrightarrow>
     app_dual_host a \<and> is_second_host (Supported (app_slot_bitmap a) (app_slot_active a))"

definition action_pair :: "app \<Rightarrow> app \<times> job list" where
  "action_pair a =
     (if app_busy a then (a, [])
      else if app_paired a then (set_msg (''Already paired '' @ em_dash @ '' unpair first.'') Yellow a, [])
      else if \<not> app_connected a then not_connected a
      else let second_host = pairs_as_second_host a
        in (set_msg (if second_host
              then ''Pairing as second host '' @ em_dash @ '' (1/2) touch an enrolled finger, (2/2) press the device button''
              else ''Pairing'' @ ellipsis @ '' press the device button within 30s'') Yellow (a\<lparr> app_busy := True \<rparr>),
            [JPairPoller second_host, JPair]))"

section \<open>Switches and device information\<close>

definition toggle_setting_with_note ::
    "string \<Rightarrow> string \<Rightarrow> bool \<Rightarrow> string option \<Rightarrow> app \<Rightarrow> app \<times> job list" where
  "toggle_setting_with_note nm key current note_text a =
     (if app_busy a then (a, [])
      else let enabling = (\<not> current)
        in (set_msg (''Setting '' @ nm @ '' '' @ (if enabling then ''ON'' else ''OFF'') @ ellipsis) Yellow
              (a\<lparr> app_busy := True \<rparr>), [JSetting nm key enabling note_text]))"

definition action_toggle :: "setting_key \<Rightarrow> app \<Rightarrow> app \<times> job list" where
  "action_toggle k = with_paired (\<lambda>a. let s = app_settings a in case k of
     UnlockSudo \<Rightarrow> toggle_setting_with_note ''sudo'' (setting_wire k) (cst_unlock_sudo s) None a
   | UnlockPolkit \<Rightarrow> toggle_setting_with_note ''polkit'' (setting_wire k) (cst_unlock_polkit s) None a
   | UnlockScreen \<Rightarrow> toggle_setting_with_note ''screen'' (setting_wire k) (cst_unlock_screen s) None a
   | LockScreen \<Rightarrow> toggle_setting_with_note ''lock'' (setting_wire k) (cst_lock_screen s) None a
   | SshTakeover \<Rightarrow> toggle_setting_with_note ''ssh'' (setting_wire k) (cst_ssh_takeover s)
       (Some (if \<not> cst_ssh_takeover s
          then ''routing all SSH through the device key; on-disk keys stay as fallback''
          else ''reverting SSH to your system keys/agent'')) a)"

definition info_line :: "string \<Rightarrow> string option" where
  "info_line part = map_option (\<lambda>(k, v).
     (if k = ''model'' then ''Model'' else if k = ''fw'' then ''Firmware''
      else if k = ''battery'' then ''Battery'' else if k = ''connected'' then ''Connected'' else k) @ '': '' @
     (if k = ''battery'' \<and> v \<noteq> ''-1'' then v @ ''%''
      else if k = ''connected'' then (if v = ''1'' then ''Yes'' else ''No'') else v)) (split_once CHR ''='' part)"

definition action_info :: "'j ui_env \<Rightarrow> app \<Rightarrow> app" where
  "action_info E a0 = (case guard_paired a0 of
     (False, a) \<Rightarrow> a
   | (True, a) \<Rightarrow> (case ue_send E ''GET:INFO'' of
       Err e \<Rightarrow> set_msg (''Info error: '' @ e) Red a
     | Ok rsp \<Rightarrow> (let parts = split_on CHR '':'' rsp in
         if get_at parts 0 = Some ''OK''
         then set_msg (join ('' '' @ light_bar @ '' '') (List.map_filter info_line (tl parts))) Dim a
         else set_msg (''Info: '' @ rsp) Red a)))"

definition toggle_help :: "app \<Rightarrow> app" where
  "toggle_help a = a\<lparr> app_mode := (if app_mode a = ModeHelp then ModeNormal else ModeHelp) \<rparr>"

section \<open>Logs, tabs and the PAM page\<close>

definition start_log_stream :: "'j ui_env \<Rightarrow> app \<Rightarrow> app \<times> job list" where
  "start_log_stream E a =
     (if app_log_open a then (a, [])
      else case ue_log E of
        Err e \<Rightarrow> (set_msg (''Log stream failed: '' @ e) Red a, [])
      | Ok _ \<Rightarrow> (a\<lparr> app_log_lines := [], app_log_scroll := 0, app_log_open := True \<rparr>, [JLogReader]))"

definition stop_log_stream :: "app \<Rightarrow> app" where
  "stop_log_stream a = a\<lparr> app_log_open := False, app_log_lines := [], app_log_scroll := 0 \<rparr>"

definition log_scroll_up :: "app \<Rightarrow> app" where
  "log_scroll_up a =
     (if app_log_scroll a < length (app_log_lines a) then a\<lparr> app_log_scroll := app_log_scroll a + 1 \<rparr> else a)"

definition log_scroll_down :: "app \<Rightarrow> app" where
  "log_scroll_down a = (if 0 < app_log_scroll a then a\<lparr> app_log_scroll := app_log_scroll a - 1 \<rparr> else a)"

definition log_page_up :: "app \<Rightarrow> app" where
  "log_page_up a = a\<lparr> app_log_scroll := min (app_log_scroll a + LOG_PAGE_STEP) (length (app_log_lines a)) \<rparr>"

definition log_page_down :: "app \<Rightarrow> app" where
  "log_page_down a = a\<lparr> app_log_scroll := app_log_scroll a - LOG_PAGE_STEP \<rparr>"

definition log_jump_top :: "app \<Rightarrow> app" where
  "log_jump_top a = a\<lparr> app_log_scroll := length (app_log_lines a) \<rparr>"

definition log_jump_bottom :: "app \<Rightarrow> app" where
  "log_jump_bottom a = a\<lparr> app_log_scroll := 0 \<rparr>"

text \<open>The PAM services of the panel, in the order of the cursor.\<close>

definition TUI_PAM_SERVICES :: "string list" where
  "TUI_PAM_SERVICES = [''sudo'', ''polkit-1'', ''gdm-password'']"

definition set_tab :: "'j ui_env \<Rightarrow> tab \<Rightarrow> app \<Rightarrow> app \<times> job list" where
  "set_tab E t a0 =
     (if app_tab a0 = t then (a0, [])
      else let a1 = (if app_tab a0 = TabLogs then stop_log_stream a0 else a0)\<lparr> app_tab := t, app_mode := ModeNormal \<rparr>;
             (a2, jobs) = (case t of
                TabKeys \<Rightarrow> (let b = refresh_keys E a1 in
                  if max (current_key_len b) 1 \<le> app_key_cursor b then b\<lparr> app_key_cursor := 0 \<rparr> else b, [])
              | TabPam \<Rightarrow> (if length TUI_PAM_SERVICES \<le> app_pam_cursor a1 then a1\<lparr> app_pam_cursor := 0 \<rparr> else a1, [])
              | TabLogs \<Rightarrow> start_log_stream E a1
              | _ \<Rightarrow> (a1, []))
        in (set_msg_dim ''Ready'' a2, jobs))"

definition pam_cursor_up :: "app \<Rightarrow> app" where
  "pam_cursor_up a = (if 0 < app_pam_cursor a then a\<lparr> app_pam_cursor := app_pam_cursor a - 1 \<rparr> else a)"

definition pam_cursor_down :: "app \<Rightarrow> app" where
  "pam_cursor_down a =
     (if app_pam_cursor a + 1 < length TUI_PAM_SERVICES then a\<lparr> app_pam_cursor := app_pam_cursor a + 1 \<rparr> else a)"

definition pam_is_installed :: "app \<Rightarrow> nat \<Rightarrow> bool" where
  "pam_is_installed a idx = (case get_at TUI_PAM_SERVICES idx of
     None \<Rightarrow> False
   | Some s \<Rightarrow> if s = ''sudo'' then app_pam_sudo a else if s = ''polkit-1'' then app_pam_polkit a
       else if s = ''gdm-password'' then app_pam_screen a else False)"

record pam_request =
  pam_action :: string
  pam_services :: "string list"

definition request_pam_action :: "bool \<Rightarrow> app \<Rightarrow> pam_request option" where
  "request_pam_action install a = map_option
     (\<lambda>svc. \<lparr> pam_action = (if install then ''add'' else ''remove''), pam_services = [svc] \<rparr>)
     (get_at TUI_PAM_SERVICES (app_pam_cursor a))"

definition request_pam_repair :: "'j ui_env \<Rightarrow> app \<Rightarrow> pam_request option" where
  "request_pam_repair E a =
     (let svcs = services_to_repair_in (ue_pam E) (cst_unlock_sudo (app_settings a)) (cst_unlock_polkit (app_settings a))
      in if svcs = [] then None else Some \<lparr> pam_action = ''add'', pam_services = svcs \<rparr>)"

definition after_pam_action :: "pam_request \<Rightarrow> bool \<Rightarrow> app \<Rightarrow> app" where
  "after_pam_action req success a =
     (let verb = (if pam_action req = ''add'' then ''installed'' else ''removed'');
          svc_list = join '', '' (pam_services req)
      in if success then set_msg (''PAM '' @ verb @ '' done: '' @ svc_list) Green a
         else set_msg (''PAM '' @ verb @ '' for '' @ svc_list @ '' failed (see terminal output above).'') Red a)"

section \<open>The keys page\<close>

definition keys_set_tab :: "key_tab \<Rightarrow> app \<Rightarrow> app" where
  "keys_set_tab t a = a\<lparr> app_key_tab := t, app_key_cursor := 0 \<rparr>"

definition keys_next_tab :: "app \<Rightarrow> app" where
  "keys_next_tab a = a\<lparr> app_key_tab := next_tab (app_key_tab a), app_key_cursor := 0 \<rparr>"

definition keys_cursor_up :: "app \<Rightarrow> app" where
  "keys_cursor_up a = (if 0 < app_key_cursor a then a\<lparr> app_key_cursor := app_key_cursor a - 1 \<rparr> else a)"

definition keys_cursor_down :: "app \<Rightarrow> app" where
  "keys_cursor_down a = (let n = current_key_len a in
     if 0 < n \<and> app_key_cursor a + 1 < n then a\<lparr> app_key_cursor := app_key_cursor a + 1 \<rparr> else a)"

definition action_key_show_pubkey :: "app \<Rightarrow> app \<times> job list" where
  "action_key_show_pubkey = with_paired (\<lambda>a.
     if app_key_tab a \<noteq> KSsh then (set_msg ''Public key view is SSH-only.'' Yellow a, [])
     else case get_at (app_ssh_keys a) (app_key_cursor a) of
       None \<Rightarrow> (set_msg ''No SSH key selected.'' Yellow a, [])
     | Some row \<Rightarrow>
         if row_blob row = [] then (set_msg ''No public key data cached for this entry.'' Red a, [])
         else (set_msg (''ecdsa-sha2-nistp256 '' @ row_blob row @ '' '' @ row_name row) Green a, []))"

definition tab_capacity :: "key_tab \<Rightarrow> byte" where
  "tab_capacity t = (case t of KSsh \<Rightarrow> KEY_MAX_SSH | KOtp \<Rightarrow> KEY_MAX_OTP | KApi \<Rightarrow> KEY_MAX_API)"

definition enter_key_add :: "app \<Rightarrow> app \<times> job list" where
  "enter_key_add = with_paired (\<lambda>a.
     if \<not> app_connected a then not_connected a
     else let count = current_key_len a; mx = unat (tab_capacity (app_key_tab a)) in
       if mx \<le> count then
         (set_msg (tab_label (app_key_tab a) @ '' keystore full ('' @ show_nat count @ ''/'' @ show_nat mx @ '') '' @
            em_dash @ '' delete an entry first.'') Red a, [])
       else (set_msg_prompt (case app_key_tab a of
               KSsh \<Rightarrow> ''Name the new SSH keypair (generated on-device).''
             | KOtp \<Rightarrow> ''Name the OTP entry (secret comes next).''
             | KApi \<Rightarrow> ''Name the API key (value comes next).'') Yellow
             (a\<lparr> app_input := [], app_mode := ModeKeyInput,
                app_flow := Some \<lparr> flow_cat = app_key_tab a, flow_name = None, flow_service = None \<rparr> \<rparr>), []))"

definition input_max :: "app \<Rightarrow> nat" where
  "input_max a = (case app_flow a of
     None \<Rightarrow> 15
   | Some f \<Rightarrow> (case flow_stage f of
       StageName \<Rightarrow> (case flow_cat f of
         KSsh \<Rightarrow> NAME_LEN_SSH - 1 | KOtp \<Rightarrow> NAME_LEN_OTP - 1 | KApi \<Rightarrow> NAME_LEN_API - 1)
     | StageService \<Rightarrow> SERVICE_LEN_OTP - 1
     | StageSecret \<Rightarrow> 256))"

text \<open>
  A typed character is the UTF-8 string of one character; the number of characters is that of the
  bytes that do not continue one, and \<open>String::pop\<close> drops the last character.
\<close>

definition char_count :: "string \<Rightarrow> nat" where
  "char_count s = length (filter (\<lambda>c. \<not> cont_byte c) s)"

definition is_control :: "string \<Rightarrow> bool" where
  "is_control c = (case c of
     [b] \<Rightarrow> cp b < 32 \<or> cp b = 127
   | [b1, b2] \<Rightarrow> cp b1 = 0xC2 \<and> cp b2 < 0xA0
   | _ \<Rightarrow> False)"

definition input_push_char :: "string \<Rightarrow> app \<Rightarrow> app" where
  "input_push_char c a =
     (if char_count (app_input a) < input_max a \<and> \<not> is_control c
      then a\<lparr> app_input := app_input a @ c \<rparr> else a)"

definition pop_char :: "string \<Rightarrow> string" where
  "pop_char s = rev (drop 1 (dropWhile cont_byte (rev s)))"

definition input_pop_char :: "app \<Rightarrow> app" where
  "input_pop_char a = a\<lparr> app_input := pop_char (app_input a) \<rparr>"

definition input_cancel :: "app \<Rightarrow> app" where
  "input_cancel a = set_msg ''Cancelled.'' Dim (a\<lparr> app_input := [], app_flow := None, app_mode := ModeNormal \<rparr>)"

definition action_key_generate :: "string \<Rightarrow> app \<Rightarrow> app \<times> job list" where
  "action_key_generate nm a =
     (if app_busy a then (a, [])
      else (set_msg (''Generating SSH keypair '' @ [CHR 0x27] @ nm @ [CHR 0x27] @ '' '' @ em_dash @
              '' touch sensor to authorize'' @ ellipsis) Yellow (a\<lparr> app_busy := True \<rparr>), [JKeyGenerate nm]))"

definition add_cat_of :: "key_tab \<Rightarrow> key_add_cat option" where
  "add_cat_of t = (case t of KOtp \<Rightarrow> Some AddOtp | KApi \<Rightarrow> Some AddApi | KSsh \<Rightarrow> None)"

text \<open>The value \<open>None\<close> is the panic of an \<open>unreachable!\<close> arm.\<close>

definition action_key_add :: "key_tab \<Rightarrow> string \<Rightarrow> string \<Rightarrow> bytes \<Rightarrow> app \<Rightarrow> (app \<times> job list) option" where
  "action_key_add cat nm svc secret a =
     (if app_busy a then Some (a, [])
      else map_option (\<lambda>add_cat.
        (set_msg (''Adding '' @ tab_label cat @ '' key '' @ [CHR 0x27] @ nm @ [CHR 0x27] @ '' '' @ em_dash @
           '' touch sensor to authorize'' @ ellipsis) Yellow (a\<lparr> app_busy := True \<rparr>),
         [JKeyAdd add_cat nm svc secret])) (add_cat_of cat))"

text \<open>The secret of the entered text, the message that refuses it, or the panic.\<close>

definition entered_secret :: "key_tab \<Rightarrow> string \<Rightarrow> (bytes, string) result option" where
  "entered_secret cat txt = (case cat of
     KOtp \<Rightarrow> Some (case base32_decode txt of
       None \<Rightarrow> Err (''Invalid base32 secret '' @ em_dash @ '' check for typos.'')
     | Some b \<Rightarrow>
         if b = [] then Err (''Invalid base32 secret '' @ em_dash @ '' check for typos.'')
         else if SECRET_LEN_OTP < length b
         then Err (''Secret too long: '' @ show_nat (length b) @ '' bytes decoded (limit '' @ show_nat SECRET_LEN_OTP @ '').'')
         else Ok b)
   | KApi \<Rightarrow> Some (if VALUE_LEN_API < length txt
       then Err (''Value too long: '' @ show_nat (length txt) @ '' bytes (limit '' @ show_nat VALUE_LEN_API @ '').'')
       else Ok (as_bytes txt))
   | KSsh \<Rightarrow> None)"

definition input_submit_key :: "app \<Rightarrow> (app \<times> job list) option" where
  "input_submit_key a = (case app_flow a of
     None \<Rightarrow> Some (a\<lparr> app_mode := ModeNormal \<rparr>, [])
   | Some flow \<Rightarrow>
       (let txt = trim (app_input a);
            closed = a\<lparr> app_input := [], app_flow := None, app_mode := ModeNormal \<rparr>
        in case flow_stage flow of
          StageName \<Rightarrow>
            if txt = [] then Some (set_msg_prompt ''Name cannot be empty.'' Red a, [])
            else if flow_cat flow = KSsh then Some (action_key_generate txt closed)
            else Some (set_msg_prompt (if flow_cat flow = KOtp
                then ''Service / issuer '' @ em_dash @ '' Enter alone to skip.'' else ''Paste the API key value.'') Yellow
              (a\<lparr> app_flow := Some (flow\<lparr> flow_name := Some txt \<rparr>), app_input := [] \<rparr>), [])
        | StageService \<Rightarrow> Some (set_msg_prompt ''Paste the TOTP secret (base32).'' Yellow
              (a\<lparr> app_flow := Some (flow\<lparr> flow_service := Some txt \<rparr>), app_input := [] \<rparr>), [])
        | StageSecret \<Rightarrow>
            if txt = [] then Some (set_msg_prompt ''Secret cannot be empty.'' Red a, [])
            else (case entered_secret (flow_cat flow) txt of
              None \<Rightarrow> None
            | Some (Err e) \<Rightarrow> Some (set_msg_prompt e Red a, [])
            | Some (Ok secret) \<Rightarrow> action_key_add (flow_cat flow) (unwrap_or [] (flow_name flow))
                (unwrap_or [] (flow_service flow)) secret closed)))"

text \<open>The values of an API key and of a one-time password: the same guards, another page and job.\<close>

definition fetch_secret :: "key_tab \<Rightarrow> string \<Rightarrow> string \<Rightarrow> (string \<Rightarrow> string) \<Rightarrow> (string \<Rightarrow> job) \<Rightarrow> app \<Rightarrow> app \<times> job list" where
  "fetch_secret t wrong_tab none_msg hint mk_job = with_paired (\<lambda>a.
     if app_busy a then (a, [])
     else if app_key_tab a \<noteq> t then (set_msg wrong_tab Yellow a, [])
     else if \<not> app_connected a then not_connected a
     else case current_key_name a of
       None \<Rightarrow> (set_msg none_msg Yellow a, [])
     | Some nm \<Rightarrow> (set_msg (hint nm) Yellow (a\<lparr> app_busy := True \<rparr>), [mk_job nm]))"

definition action_key_show_api :: "app \<Rightarrow> app \<times> job list" where
  "action_key_show_api = fetch_secret KApi ''Show value is only available on the API tab.'' ''No API key selected.''
     (\<lambda>nm. ''Fetching '' @ [CHR 0x27] @ nm @ [CHR 0x27] @ '' '' @ em_dash @ '' touch sensor to authorize'' @ ellipsis) JShowApi"

definition action_key_otp :: "app \<Rightarrow> app \<times> job list" where
  "action_key_otp = fetch_secret KOtp ''OTP code is only available on the OTP tab.'' ''No OTP key selected.''
     (\<lambda>nm. ''Fetching OTP for '' @ [CHR 0x27] @ nm @ [CHR 0x27] @ '' '' @ em_dash @ '' touch sensor to authorize'' @ ellipsis) JKeyOtp"

definition enter_key_delete_confirm :: "app \<Rightarrow> app \<times> job list" where
  "enter_key_delete_confirm = with_paired (\<lambda>a.
     if app_busy a then (a, [])
     else if \<not> app_connected a then not_connected a
     else case current_key_index a of
       None \<Rightarrow> (set_msg ''No key selected.'' Yellow a, [])
     | Some idx \<Rightarrow> (set_msg (''Delete '' @ tab_label (app_key_tab a) @ '' key ['' @ show_word idx @ ''] '' @ [CHR 0x27] @
           unwrap_or ''-'' (current_key_name a) @ [CHR 0x27] @ ''? [y] confirm  [n/Esc] cancel'') Yellow
         (a\<lparr> app_pending_delete := Some (app_key_tab a, idx), app_mode := ModeKeyDeleteConfirm \<rparr>), []))"

definition cancel_key_delete :: "app \<Rightarrow> app" where
  "cancel_key_delete a = set_msg ''Cancelled.'' Dim (a\<lparr> app_pending_delete := None, app_mode := ModeNormal \<rparr>)"

definition confirm_key_delete :: "app \<Rightarrow> app \<times> job list" where
  "confirm_key_delete a0 =
     (let a = a0\<lparr> app_pending_delete := None, app_mode := ModeNormal \<rparr> in case app_pending_delete a0 of
        None \<Rightarrow> (a, [])
      | Some (t, idx) \<Rightarrow>
          if app_busy a then (a, [])
          else (set_msg (''Deleting '' @ tab_label t @ '' key ['' @ show_word idx @ ''] '' @ em_dash @
                  '' touch sensor to authorize'' @ ellipsis) Yellow (a\<lparr> app_busy := True \<rparr>), [JKeyDelete t idx]))"

section \<open>The firmware page\<close>

definition fw_updating :: "app \<Rightarrow> bool" where
  "fw_updating a = (case app_fw_state a of FwUpdating _ _ _ _ \<Rightarrow> True | _ \<Rightarrow> False)"

definition fw_recheck :: "app \<Rightarrow> app \<times> job list" where
  "fw_recheck a =
     (if fw_updating a \<or> app_fw_state a = FwChecking then (a, [])
      else (a\<lparr> app_fw_state := FwChecking, app_fw_prepared := None \<rparr>, [JFwPrepare]))"

definition fw_enter :: "'j ui_env \<Rightarrow> app \<Rightarrow> app \<times> job list" where
  "fw_enter E a0 = (case set_tab E TabFirmware a0 of (a, jobs) \<Rightarrow>
     (case app_fw_state a of
        FwIdle \<Rightarrow> apsnd ((@) jobs) (fw_recheck a)
      | FwSuccess _ \<Rightarrow> apsnd ((@) jobs) (fw_recheck a)
      | FwFailed _ \<Rightarrow> apsnd ((@) jobs) (fw_recheck a)
      | _ \<Rightarrow> (a, jobs)))"

definition fw_start_update :: "app \<Rightarrow> app \<times> job list" where
  "fw_start_update a =
     (if app_fw_state a \<noteq> FwReady then (a, [])
      else case app_fw_prepared a of
        None \<Rightarrow> (a, [])
      | Some prep \<Rightarrow> (a\<lparr> app_fw_state := FwUpdating ''starting'' 0 1 (length (prep_hops prep)), app_busy := True \<rparr>,
          [JFwPush prep]))"

definition fw_outdated :: "app \<Rightarrow> bool" where
  "fw_outdated a \<longleftrightarrow> app_connected a \<and> app_fw_version a \<noteq> [] \<and>
     (case (fv_parse (normalize_semver (app_fw_version a)), fv_parse ''1.6.0'') of
        (Some v, Some mn) \<Rightarrow> v < mn | _ \<Rightarrow> False)"

end
