(* ===== verification/Tui_Loop.thy ===== *)
theory Tui_Loop
  imports Tui_Actions
begin

text \<open>
  The event loop of the terminal UI (\<open>immurok-cli/src/tui/mod.rs\<close>): the dispatch of a key, one round
  of the loop, and the whole program as a state machine of the loop, the worker threads and the channel
  between them. Drawing is in \<open>Tui_View\<close>; terminal modes are left out.
\<close>

section \<open>Keys\<close>

datatype key =
    KChar string
  | KEsc | KEnter | KBackspace | KTab | KBackTab | KLeft | KRight | KUp | KDown
  | KPageUp | KPageDown | KHome | KEnd
  | KOtherKey
  | KCtrlC

definition still_updating :: "app \<Rightarrow> app" where
  "still_updating = set_msg (''Firmware update in progress '' @ em_dash @ '' please wait.'') Yellow"

text \<open>What a key does: the application, the jobs it starts, a PAM request, and whether the loop ends.\<close>

record key_out =
  ko_app :: app
  ko_jobs :: "job list"
  ko_pam :: "pam_request option"
  ko_quit :: bool

definition does :: "app \<times> job list \<Rightarrow> key_out" where
  "does r = \<lparr> ko_app = fst r, ko_jobs = snd r, ko_pam = None, ko_quit = False \<rparr>"

definition only :: "app \<Rightarrow> key_out" where
  "only a = does (a, [])"

definition asks_pam :: "(app \<Rightarrow> pam_request option \<times> app) \<Rightarrow> app \<Rightarrow> key_out" where
  "asks_pam req a = (case guard_paired a of
     (False, a1) \<Rightarrow> only a1
   | (True, a1) \<Rightarrow> (case req a1 of (r, a2) \<Rightarrow> (only a2)\<lparr> ko_pam := r \<rparr>))"

definition dashboard_key :: "'j ui_env \<Rightarrow> key \<Rightarrow> app \<Rightarrow> key_out" where
  "dashboard_key E k a =
     (if k = KChar ''p'' then does (action_pair a)
      else if k = KChar ''u'' then only (request_unpair_self a)
      else if k = KChar ''e'' \<or> k = KChar ''E'' then does (auto_enroll a)
      else if k = KChar ''d'' then does (enter_delete_select a)
      else if k = KChar ''v'' then does (action_verify a)
      else if k = KChar ''s'' then does (action_toggle UnlockSudo a)
      else if k = KChar ''o'' then does (action_toggle UnlockPolkit a)
      else if k = KChar ''k'' then does (action_toggle UnlockScreen a)
      else if k = KChar ''L'' then does (action_toggle LockScreen a)
      else if k = KChar ''h'' then does (action_toggle SshTakeover a)
      else if k = KChar ''i'' then only (action_info E a)
      else if k = KChar ''H'' then only (enter_host_menu a)
      else if k = KChar ''U'' then does (fw_enter E a)
      else if k = KEsc then does (if app_enroll_active a then action_enroll_cancel a else (a, []))
      else only a)"

definition keys_key :: "'j ui_env \<Rightarrow> key \<Rightarrow> app \<Rightarrow> key_out" where
  "keys_key E k a =
     (if k = KEsc then does (set_tab E TabDashboard a)
      else if k = KTab \<or> k = KRight \<or> k = KChar ''l'' then only (keys_next_tab a)
      else if k = KBackTab \<or> k = KLeft \<or> k = KChar ''h'' then only (keys_set_tab (prev_tab (app_key_tab a)) a)
      else if k = KChar ''S'' then only (keys_set_tab KSsh a)
      else if k = KChar ''O'' then only (keys_set_tab KOtp a)
      else if k = KChar ''A'' then only (keys_set_tab KApi a)
      else if k = KUp \<or> k = KChar ''k'' then only (keys_cursor_up a)
      else if k = KDown \<or> k = KChar ''j'' then only (keys_cursor_down a)
      else if k = KChar ''r'' then only (set_msg_dim ''Key cache reloaded.'' (refresh_keys E a))
      else if k = KChar ''a'' \<or> k = KChar ''g'' then does (enter_key_add a)
      else if k = KChar ''d'' then does (enter_key_delete_confirm a)
      else if k = KChar ''o'' then does (action_key_otp a)
      else if k = KChar ''c'' then does (action_key_show_pubkey a)
      else if k = KChar ''s'' then does (action_key_show_api a)
      else only a)"

definition pam_repair_request :: "'j ui_env \<Rightarrow> app \<Rightarrow> pam_request option \<times> app" where
  "pam_repair_request E a = (case request_pam_repair E a of
     Some r \<Rightarrow> (Some r, a)
   | None \<Rightarrow> (None, set_msg (''PAM already configured '' @ em_dash @ '' nothing to repair.'') Green a))"

definition pam_key :: "'j ui_env \<Rightarrow> key \<Rightarrow> app \<Rightarrow> key_out" where
  "pam_key E k a =
     (if k = KEsc then does (set_tab E TabDashboard a)
      else if k = KUp \<or> k = KChar ''k'' then only (pam_cursor_up a)
      else if k = KDown \<or> k = KChar ''j'' then only (pam_cursor_down a)
      else if k = KChar ''i'' then asks_pam (\<lambda>b. (request_pam_action True b, b)) a
      else if k = KChar ''r'' then asks_pam (\<lambda>b. (request_pam_action False b, b)) a
      else if k = KChar ''R'' then asks_pam (pam_repair_request E) a
      else only a)"

definition logs_key :: "'j ui_env \<Rightarrow> key \<Rightarrow> app \<Rightarrow> key_out" where
  "logs_key E k a =
     (if k = KEsc then does (set_tab E TabDashboard a)
      else if k = KUp \<or> k = KChar ''k'' then only (log_scroll_up a)
      else if k = KDown \<or> k = KChar ''j'' then only (log_scroll_down a)
      else if k = KPageUp then only (log_page_up a)
      else if k = KPageDown then only (log_page_down a)
      else if k = KHome then only (log_jump_top a)
      else if k = KEnd then only (log_jump_bottom a)
      else only a)"

definition firmware_key :: "'j ui_env \<Rightarrow> key \<Rightarrow> app \<Rightarrow> key_out" where
  "firmware_key E k a =
     (if k = KEsc then (if fw_updating a then only a else does (set_tab E TabDashboard a))
      else if k = KChar ''r'' then does (fw_recheck a)
      else if k = KEnter then does (fw_start_update a)
      else only a)"

definition normal_key :: "'j ui_env \<Rightarrow> key \<Rightarrow> app \<Rightarrow> key_out" where
  "normal_key E k a =
     (if k = KChar ''q'' then (if fw_updating a then only (still_updating a) else (only a)\<lparr> ko_quit := True \<rparr>)
      else if k = KChar ''?'' then only (toggle_help a)
      else if k = KChar ''1'' then does (set_tab E TabDashboard a)
      else if k = KChar ''2'' then does (set_tab E TabKeys a)
      else if k = KChar ''3'' then does (set_tab E TabPam a)
      else if k = KChar ''4'' then does (set_tab E TabLogs a)
      else if k = KChar ''5'' then does (fw_enter E a)
      else case app_tab a of
        TabDashboard \<Rightarrow> dashboard_key E k a
      | TabKeys \<Rightarrow> keys_key E k a
      | TabPam \<Rightarrow> pam_key E k a
      | TabLogs \<Rightarrow> logs_key E k a
      | TabFirmware \<Rightarrow> firmware_key E k a)"

definition delete_select_key :: "key \<Rightarrow> app \<Rightarrow> key_out" where
  "delete_select_key k a = (case k of
     KEsc \<Rightarrow> only (back_to_normal a)
   | KChar [c] \<Rightarrow> (if is_digit c \<and> of_nat (digit_val c) \<le> SWITCH_FINGER_SLOT
       then does (action_delete (of_nat (digit_val c)) a) else only a)
   | _ \<Rightarrow> only a)"

definition enroll_kind_key :: "key \<Rightarrow> app \<Rightarrow> key_out" where
  "enroll_kind_key k a = (case k of
     KEsc \<Rightarrow> only (back_to_normal a) | KChar c \<Rightarrow> does (enroll_kind_pick c a) | _ \<Rightarrow> only a)"

definition key_input_key :: "key \<Rightarrow> app \<Rightarrow> key_out option" where
  "key_input_key k a = (case k of
     KEsc \<Rightarrow> Some (only (input_cancel a))
   | KEnter \<Rightarrow> map_option does (input_submit_key a)
   | KBackspace \<Rightarrow> Some (only (input_pop_char a))
   | KChar c \<Rightarrow> Some (only (input_push_char c a))
   | _ \<Rightarrow> Some (only a))"

definition key_delete_key :: "key \<Rightarrow> app \<Rightarrow> key_out" where
  "key_delete_key k a =
     (if k = KChar ''y'' \<or> k = KChar ''Y'' \<or> k = KEnter then does (confirm_key_delete a)
      else if k = KEsc \<or> k = KChar ''n'' \<or> k = KChar ''N'' then only (cancel_key_delete a)
      else only a)"

definition host_menu_key :: "key \<Rightarrow> app \<Rightarrow> key_out" where
  "host_menu_key k a = (case k of
     KEsc \<Rightarrow> only (cancel_host_action a) | KChar c \<Rightarrow> only (host_menu_pick c a) | _ \<Rightarrow> only a)"

definition host_confirm_key :: "key \<Rightarrow> app \<Rightarrow> key_out" where
  "host_confirm_key k a =
     (if k = KChar ''y'' \<or> k = KChar ''Y'' then does (confirm_host_action a)
      else if k = KEsc \<or> k = KChar ''n'' \<or> k = KChar ''N'' then only (cancel_host_action a)
      else only a)"

definition help_key :: "key \<Rightarrow> app \<Rightarrow> key_out" where
  "help_key k a = (if k = KEsc \<or> k = KChar ''?'' \<or> k = KChar ''q'' then only (toggle_help a) else only a)"

text \<open>The value \<open>None\<close> is a panic.\<close>

definition handle_key :: "'j ui_env \<Rightarrow> key \<Rightarrow> app \<Rightarrow> key_out option" where
  "handle_key E k a =
     (if k = KCtrlC then Some (if fw_updating a then only (still_updating a) else (only a)\<lparr> ko_quit := True \<rparr>)
      else case app_mode a of
        ModeNormal \<Rightarrow> Some (normal_key E k a)
      | ModeHelp \<Rightarrow> Some (help_key k a)
      | ModeDeleteSelect \<Rightarrow> Some (delete_select_key k a)
      | ModeEnrollKindSelect \<Rightarrow> Some (enroll_kind_key k a)
      | ModeKeyInput \<Rightarrow> key_input_key k a
      | ModeKeyDeleteConfirm \<Rightarrow> Some (key_delete_key k a)
      | ModeHostMenu \<Rightarrow> Some (host_menu_key k a)
      | ModeHostConfirm \<Rightarrow> Some (host_confirm_key k a))"

section \<open>The loop, the threads and the channel\<close>

text \<open>
  \<open>t_workers\<close> are the threads with what each still has to send, \<open>t_queue\<close> is the channel,
  \<open>t_started\<close> the jobs started so far, each with the state of the application when its key was
  pressed and the key.
\<close>

record tui =
  t_app :: app
  t_queue :: "action_result list"
  t_workers :: "(job \<times> action_result list) list"
  t_started :: "(app \<times> key \<times> job) list"
  t_quit :: bool
  t_panic :: bool

text \<open>
  One round: a key (or none), a PAM request run through the helper with success \<open>pam_ok\<close> and followed
  by a refresh, the drain of the first \<open>n\<close> results that arrived, and the refresh, which takes the rest.
\<close>

record 'j round_env =
  re_ui :: "'j ui_env"
  re_jobs :: job_env
  re_pam_ok :: bool
  re_taken :: nat
  re_poll_due :: bool

definition start_jobs :: "'j round_env \<Rightarrow> app \<Rightarrow> key \<Rightarrow> job list \<Rightarrow> tui \<Rightarrow> tui" where
  "start_jobs R before k jobs t =
     t\<lparr> t_workers := t_workers t @ map (\<lambda>j. (j, job_trace (re_jobs R) j)) jobs,
       t_started := t_started t @ map (\<lambda>j. (before, k, j)) jobs \<rparr>"

definition after_pam :: "'j round_env \<Rightarrow> pam_request option \<Rightarrow> tui \<Rightarrow> tui" where
  "after_pam R req t = (case req of
     None \<Rightarrow> t
   | Some r \<Rightarrow> t\<lparr> t_app := refresh (re_ui R) (t_queue t) (after_pam_action r (re_pam_ok R) (t_app t)), t_queue := [] \<rparr>)"

definition round_end :: "'j round_env \<Rightarrow> tui \<Rightarrow> tui" where
  "round_end R t =
     (case drain_actions (take (re_taken R) (t_queue t)) (t_app t) of (a, needs_refresh) \<Rightarrow>
        let left = drop (re_taken R) (t_queue t) in
        if needs_refresh \<or> (re_poll_due R \<and> \<not> app_busy a)
        then t\<lparr> t_app := refresh (re_ui R) left a, t_queue := [] \<rparr>
        else t\<lparr> t_app := a, t_queue := left \<rparr>)"

text \<open>The end of the program: a request is sent when an action is running, and the log is closed.\<close>

definition shutdown :: "tui \<Rightarrow> tui" where
  "shutdown t = t\<lparr> t_app := (t_app t)\<lparr> app_log_open := False \<rparr>, t_quit := True \<rparr>"

definition exit_request :: "app \<Rightarrow> string option" where
  "exit_request a = (if app_busy a then Some ''FP:ENROLL_CANCEL'' else None)"

definition ui_round :: "'j round_env \<Rightarrow> key option \<Rightarrow> tui \<Rightarrow> tui" where
  "ui_round R ko t = (case ko of
     None \<Rightarrow> round_end R t
   | Some k \<Rightarrow> (case handle_key (re_ui R) k (t_app t) of
       None \<Rightarrow> t\<lparr> t_panic := True \<rparr>
     | Some out \<Rightarrow>
         (let t1 = start_jobs R (t_app t) k (ko_jobs out) (t\<lparr> t_app := ko_app out \<rparr>) in
          if ko_quit out then shutdown t1
          else if k = KCtrlC then t1
          else round_end R (after_pam R (ko_pam out) t1))))"

definition worker_sends :: "nat \<Rightarrow> tui \<Rightarrow> tui" where
  "worker_sends i t = (case get_at (t_workers t) i of
     Some (j, r # rs) \<Rightarrow> t\<lparr> t_workers := (t_workers t)[i := (j, rs)], t_queue := t_queue t @ [r] \<rparr>
   | _ \<Rightarrow> t)"

datatype 'j tui_event = UiRound "'j round_env" "key option" | WorkerSends nat

definition tui_step :: "'j tui_event \<Rightarrow> tui \<Rightarrow> tui" where
  "tui_step e t =
     (if t_quit t \<or> t_panic t then t
      else case e of UiRound R ko \<Rightarrow> ui_round R ko t | WorkerSends i \<Rightarrow> worker_sends i t)"

definition tui_start :: "'j ui_env \<Rightarrow> job_env \<Rightarrow> tui" where
  "tui_start E JE = \<lparr> t_app = refresh E [] app_new, t_queue = [],
     t_workers = [(JFwSilentCheck, job_trace JE JFwSilentCheck)], t_started = [], t_quit = False, t_panic = False \<rparr>"

end
