(* ===== verification/Tui_Safety.thy ===== *)
theory Tui_Safety
  imports Tui_Loop
begin

text \<open>
  What holds in every state the terminal UI can reach, whatever keys are pressed, whatever the daemon
  and the device answer, and however the threads interleave with the loop: the well-formedness of the
  application, the absence of panics, the confirmation before every destructive request, and the end
  of every action.
\<close>

section \<open>Messages touch only the message and the feed\<close>

lemma set_msg_fields [simp]:
  "app_connected (set_msg m st a) = app_connected a" "app_device_name (set_msg m st a) = app_device_name a"
  "app_battery (set_msg m st a) = app_battery a" "app_fw_version (set_msg m st a) = app_fw_version a"
  "app_paired (set_msg m st a) = app_paired a" "app_fp_bitmap (set_msg m st a) = app_fp_bitmap a"
  "app_daemon_ok (set_msg m st a) = app_daemon_ok a" "app_dual_host (set_msg m st a) = app_dual_host a"
  "app_slot_bitmap (set_msg m st a) = app_slot_bitmap a"
  "app_slot_active (set_msg m st a) = app_slot_active a" "app_slot_mine (set_msg m st a) = app_slot_mine a"
  "app_slot_poll_tick (set_msg m st a) = app_slot_poll_tick a"
  "app_fw_available (set_msg m st a) = app_fw_available a" "app_fw_state (set_msg m st a) = app_fw_state a"
  "app_fw_prepared (set_msg m st a) = app_fw_prepared a" "app_settings (set_msg m st a) = app_settings a"
  "app_pam_sudo (set_msg m st a) = app_pam_sudo a" "app_pam_polkit (set_msg m st a) = app_pam_polkit a"
  "app_pam_screen (set_msg m st a) = app_pam_screen a" "app_tab (set_msg m st a) = app_tab a"
  "app_mode (set_msg m st a) = app_mode a" "app_busy (set_msg m st a) = app_busy a"
  "app_enroll_active (set_msg m st a) = app_enroll_active a"
  "app_enroll_gate (set_msg m st a) = app_enroll_gate a"
  "app_enroll_slot (set_msg m st a) = app_enroll_slot a"
  "app_enroll_current (set_msg m st a) = app_enroll_current a"
  "app_enroll_total (set_msg m st a) = app_enroll_total a" "app_key_tab (set_msg m st a) = app_key_tab a"
  "app_key_cursor (set_msg m st a) = app_key_cursor a" "app_ssh_keys (set_msg m st a) = app_ssh_keys a"
  "app_otp_keys (set_msg m st a) = app_otp_keys a" "app_api_keys (set_msg m st a) = app_api_keys a"
  "app_input (set_msg m st a) = app_input a" "app_flow (set_msg m st a) = app_flow a"
  "app_pending_delete (set_msg m st a) = app_pending_delete a"
  "app_pending_host (set_msg m st a) = app_pending_host a"
  "app_pam_cursor (set_msg m st a) = app_pam_cursor a" "app_log_lines (set_msg m st a) = app_log_lines a"
  "app_log_scroll (set_msg m st a) = app_log_scroll a"
  "app_device_unpaired (set_msg m st a) = app_device_unpaired a"
  "app_isolated (set_msg m st a) = app_isolated a" "app_log_open (set_msg m st a) = app_log_open a"
  by (simp_all add: set_msg_def Let_def)

lemma set_msg_message [simp]: "app_message (set_msg m st a) = m" "app_style (set_msg m st a) = st"
  by (simp_all add: set_msg_def Let_def)

lemma push_capped_length: "length xs \<le> cap \<Longrightarrow> 0 < cap \<Longrightarrow> length (push_capped cap x xs) \<le> cap \<and> length xs \<le> length (push_capped cap x xs)"
  by (auto simp: push_capped_def)

lemma set_msg_events: "length (app_events a) \<le> EVENT_BUFFER_CAP \<Longrightarrow> length (app_events (set_msg m st a)) \<le> EVENT_BUFFER_CAP"
  using push_capped_length [of "app_events a" EVENT_BUFFER_CAP]
  by (simp add: set_msg_def Let_def EVENT_BUFFER_CAP_def)

section \<open>The well-formed application\<close>

text \<open>
  A mode has what its keys act on, and a pending addition of an SSH key has no name yet (which keeps the
  \<open>unreachable!\<close> arms of the code unreachable).
\<close>

definition wf_mode :: "mode \<Rightarrow> host_action option \<Rightarrow> (key_tab \<times> byte) option \<Rightarrow> key_add_flow option \<Rightarrow> bool" where
  "wf_mode m ph pd fl \<longleftrightarrow>
     (m = ModeHostConfirm \<longrightarrow> ph \<noteq> None) \<and> (m = ModeKeyDeleteConfirm \<longrightarrow> pd \<noteq> None) \<and>
     (m = ModeKeyInput \<longrightarrow> fl \<noteq> None) \<and>
     (\<forall>f. fl = Some f \<and> flow_cat f = KSsh \<longrightarrow> flow_name f = None) \<and>
     (\<forall>s. ph = Some (UnpairSlot s) \<longrightarrow> s = 1 \<or> s = 2)"

definition len_of :: "key_tab \<Rightarrow> 'a list \<Rightarrow> 'b list \<Rightarrow> 'c list \<Rightarrow> nat" where
  "len_of t xs ys zs = (case t of KSsh \<Rightarrow> length xs | KOtp \<Rightarrow> length ys | KApi \<Rightarrow> length zs)"

lemma current_key_len: "current_key_len a = len_of (app_key_tab a) (app_ssh_keys a) (app_otp_keys a) (app_api_keys a)"
  by (simp add: current_key_len_def len_of_def)

definition wf_cursor :: "nat \<Rightarrow> nat \<Rightarrow> bool" where
  "wf_cursor n len \<longleftrightarrow> n = 0 \<or> n < len"

definition wf_log :: "string list \<Rightarrow> nat \<Rightarrow> bool" where
  "wf_log ls scroll \<longleftrightarrow> length ls \<le> LOG_BUFFER_CAP \<and> scroll \<le> length ls"

definition wf_feed :: "event_entry list \<Rightarrow> bool" where
  "wf_feed evs \<longleftrightarrow> length evs \<le> EVENT_BUFFER_CAP"

definition wf_fw :: "fw_state \<Rightarrow> prepared_update option \<Rightarrow> bool" where
  "wf_fw st p \<longleftrightarrow> (st = FwReady \<longrightarrow> p \<noteq> None)"

definition wf_slots :: "byte \<Rightarrow> byte \<Rightarrow> byte option \<Rightarrow> bool" where
  "wf_slots bitmap active mine \<longleftrightarrow> bitmap AND 3 = bitmap \<and> (active = 0 \<or> active = 1 \<or> active = 2) \<and>
     (case mine of None \<Rightarrow> True | Some m \<Rightarrow> m = 1 \<or> m = 2)"

definition wf_app :: "app \<Rightarrow> bool" where
  "wf_app a \<longleftrightarrow>
     wf_mode (app_mode a) (app_pending_host a) (app_pending_delete a) (app_flow a) \<and>
     wf_cursor (app_key_cursor a) (len_of (app_key_tab a) (app_ssh_keys a) (app_otp_keys a) (app_api_keys a)) \<and>
     wf_cursor (app_pam_cursor a) (length TUI_PAM_SERVICES) \<and>
     wf_feed (app_events a) \<and> wf_log (app_log_lines a) (app_log_scroll a) \<and>
     wf_fw (app_fw_state a) (app_fw_prepared a) \<and>
     wf_slots (app_slot_bitmap a) (app_slot_active a) (app_slot_mine a)"

lemma wf_simple [simp]:
  "wf_cursor 0 n" "wf_log [] 0" "wf_mode ModeNormal None None None"
  "wf_fw FwIdle p" "wf_fw FwChecking p" "wf_fw FwUpToDate p" "wf_fw (FwUpdating s f h n) p"
  "wf_fw (FwSuccess s) p" "wf_fw (FwFailed s) p" "wf_fw FwReady (Some q)"
  by (simp_all add: wf_cursor_def wf_log_def wf_mode_def wf_fw_def)

lemma wf_mode_changes:
  "wf_mode m ph pd fl \<Longrightarrow> wf_mode ModeNormal ph pd fl"
  "wf_mode m ph pd fl \<Longrightarrow> wf_mode ModeHelp ph pd fl"
  "wf_mode m ph pd fl \<Longrightarrow> wf_mode ModeHostMenu ph pd fl"
  "wf_mode m ph pd fl \<Longrightarrow> wf_mode ModeDeleteSelect ph pd fl"
  "wf_mode m ph pd fl \<Longrightarrow> wf_mode ModeEnrollKindSelect ph pd fl"
  "wf_mode m ph pd fl \<Longrightarrow> wf_mode ModeNormal None pd fl"
  "wf_mode m ph pd fl \<Longrightarrow> wf_mode ModeNormal ph None fl"
  "wf_mode m ph pd fl \<Longrightarrow> wf_mode ModeNormal ph pd None"
  "wf_mode m ph pd fl \<Longrightarrow> wf_mode ModeKeyDeleteConfirm ph (Some x) fl"
  by (auto simp: wf_mode_def)

lemma wf_app_new: "wf_app app_new"
  by (simp add: wf_app_def app_new_def wf_feed_def wf_slots_def)

lemma wf_feed_msg: "wf_feed (app_events a) \<Longrightarrow> wf_feed (app_events (set_msg m st a))"
  by (simp add: wf_feed_def set_msg_events)

lemma wf_set_msg: "wf_app a \<Longrightarrow> wf_app (set_msg m st a)"
  by (simp add: wf_app_def wf_feed_msg)

lemma wf_set_msg_dim: "wf_app a \<Longrightarrow> wf_app (set_msg_dim m a)"
  by (simp add: set_msg_dim_def wf_set_msg)

lemma wf_set_msg_prompt: "wf_app a \<Longrightarrow> wf_app (set_msg_prompt m st a)"
  by (simp add: wf_app_def set_msg_prompt_def)

lemmas wf_msgs = wf_set_msg wf_set_msg_dim wf_set_msg_prompt

section \<open>Results and refreshes\<close>

lemma wf_log_push: "wf_log ls n \<Longrightarrow> wf_log (push_capped LOG_BUFFER_CAP l ls) n"
  using push_capped_length [of ls LOG_BUFFER_CAP l] by (simp add: wf_log_def LOG_BUFFER_CAP_def)

lemma wf_apply_result: "wf_app a \<Longrightarrow> wf_app (fst (apply_result r (a, b)))"
  by (cases r) (simp_all add: apply_result_def wf_msgs, simp_all add: wf_app_def wf_log_push split: result.split option.split)

lemma wf_drain: "wf_app a \<Longrightarrow> wf_app (fst (drain_actions q a))"
proof -
  have "wf_app (fst s) \<Longrightarrow> wf_app (fst (fold apply_result q s))" for s
  proof (induction q arbitrary: s)
    case (Cons r q)
    then show ?case using wf_apply_result [of "fst s" r "snd s"] by simp
  qed simp
  then show "wf_app a \<Longrightarrow> wf_app (fst (drain_actions q a))" by (simp add: drain_actions_def)
qed

lemma parse_slot_status_line_bounds:
  assumes "parse_slot_status_line line = Some (Supported b act)"
  shows "b AND 3 = b" "act = 1 \<or> act = 2"
  using assms
  by (auto simp: parse_slot_status_line_def Let_def and.assoc split: option.splits if_splits bind_splits)

lemma parse_slot_owner_bounds: "parse_slot_owner line = Some m \<Longrightarrow> m = 1 \<or> m = 2"
  by (auto simp: parse_slot_owner_def split: bind_splits if_splits)

lemma wf_take_slots: "wf_app a \<Longrightarrow> wf_app (take_slots reply a)"
proof -
  assume w: "wf_app a"
  have "wf_slots b act mine" if "Option.bind (ok reply) parse_slot_status_line = Some (Supported b act)"
    "mine = Option.bind (ok reply) parse_slot_owner" for b act mine
    using that parse_slot_status_line_bounds [of "the (ok reply)"] parse_slot_owner_bounds [of "the (ok reply)"]
    by (cases "ok reply") (auto simp: wf_slots_def split: option.split)
  then show ?thesis using w
    by (auto simp: take_slots_def Let_def wf_app_def split: option.split slot_status.split)
      (auto simp: wf_slots_def)
qed

lemma wf_take:
  "wf_app a \<Longrightarrow> wf_app (take_status rsp a)"
  "wf_app a \<Longrightarrow> wf_app (take_pair_status reply a)"
  "wf_app a \<Longrightarrow> wf_app (take_bitmap reply a)"
  "wf_app a \<Longrightarrow> wf_app (take_settings reply a)"
  "wf_app a \<Longrightarrow> wf_app (take_pam dir a)"
  by (simp_all add: take_status_def take_pair_status_def take_bitmap_def take_settings_def take_pam_def
      Let_def wf_app_def split: result.split list.split)

lemma wf_clamp:
  assumes "wf_mode (app_mode a) (app_pending_host a) (app_pending_delete a) (app_flow a)"
    "wf_cursor (app_pam_cursor a) (length TUI_PAM_SERVICES)" "wf_feed (app_events a)"
    "wf_log (app_log_lines a) (app_log_scroll a)" "wf_fw (app_fw_state a) (app_fw_prepared a)"
    "wf_slots (app_slot_bitmap a) (app_slot_active a) (app_slot_mine a)"
  shows "wf_app (clamp_key_cursor a)"
  using assms by (auto simp: clamp_key_cursor_def Let_def wf_app_def current_key_len wf_cursor_def)

lemma wf_refresh_keys: "wf_app a \<Longrightarrow> wf_app (refresh_keys E a)"
  unfolding refresh_keys_def Let_def by (rule wf_clamp) (simp_all add: wf_app_def)

lemma wf_daemon_gone: "wf_app a \<Longrightarrow> wf_app (a\<lparr> app_daemon_ok := False, app_connected := False \<rparr>)"
  "wf_app a \<Longrightarrow> wf_app (a\<lparr> app_daemon_ok := True \<rparr>)" "wf_app a \<Longrightarrow> wf_app (a\<lparr> app_isolated := i \<rparr>)"
  by (simp_all add: wf_app_def)

lemma wf_refresh: "wf_app a \<Longrightarrow> wf_app (refresh E q a)"
  by (simp add: refresh_def Let_def wf_drain wf_daemon_gone wf_take wf_take_slots wf_refresh_keys split: result.split)

section \<open>Actions\<close>

lemma wf_with_paired:
  "(\<And>b. wf_app b \<Longrightarrow> wf_app (fst (act b))) \<Longrightarrow> wf_app a \<Longrightarrow> wf_app (fst (with_paired act a))"
  by (simp add: with_paired_def guard_paired_def wf_msgs)

lemma wf_busy: "wf_app a \<Longrightarrow> wf_app (a\<lparr> app_busy := b \<rparr>)"
  by (simp add: wf_app_def)

lemma wf_mode_normal: "wf_app a \<Longrightarrow> wf_app (a\<lparr> app_mode := ModeNormal \<rparr>)"
  "wf_app a \<Longrightarrow> wf_app (a\<lparr> app_mode := ModeNormal, app_busy := b \<rparr>)"
  "wf_app a \<Longrightarrow> wf_app (a\<lparr> app_pending_host := None, app_mode := ModeNormal \<rparr>)"
  "wf_app a \<Longrightarrow> wf_app (a\<lparr> app_pending_delete := None, app_mode := ModeNormal \<rparr>)"
  by (simp_all add: wf_app_def) (blast intro: wf_mode_changes)+

lemma wf_modes: "wf_app a \<Longrightarrow> wf_app (a\<lparr> app_mode := ModeEnrollKindSelect \<rparr>)"
  "wf_app a \<Longrightarrow> wf_app (a\<lparr> app_mode := ModeDeleteSelect \<rparr>)"
  "wf_app a \<Longrightarrow> wf_app (a\<lparr> app_mode := ModeHostMenu \<rparr>)"
  "wf_app a \<Longrightarrow> wf_app (a\<lparr> app_mode := ModeHelp \<rparr>)"
  by (simp_all add: wf_app_def) (blast intro: wf_mode_changes)+

lemmas wf_intro = wf_msgs wf_busy wf_mode_normal wf_modes

lemma wf_action_enroll: "wf_app a \<Longrightarrow> wf_app (fst (action_enroll slot a))"
  by (auto simp: action_enroll_def Let_def intro!: wf_msgs) (auto simp: wf_app_def intro: wf_mode_changes)

lemma wf_enroll_auth_finger: "wf_app a \<Longrightarrow> wf_app (fst (enroll_auth_finger a))"
  by (simp add: enroll_auth_finger_def wf_action_enroll wf_intro split: option.split)

lemma wf_enroll:
  "wf_app a \<Longrightarrow> wf_app (fst (auto_enroll a))"
  "wf_app a \<Longrightarrow> wf_app (fst (enroll_kind_pick c a))"
  "wf_app a \<Longrightarrow> wf_app (fst (action_enroll_cancel a))"
  by (auto simp: auto_enroll_def enroll_kind_pick_def action_enroll_cancel_def not_connected_def
      intro!: wf_with_paired wf_intro wf_enroll_auth_finger wf_action_enroll)

lemma wf_fingers:
  "wf_app a \<Longrightarrow> wf_app (back_to_normal a)"
  "wf_app a \<Longrightarrow> wf_app (fst (enter_delete_select a))"
  "wf_app a \<Longrightarrow> wf_app (fst (action_delete slot a))"
  "wf_app a \<Longrightarrow> wf_app (fst (action_verify a))"
  by (auto simp: back_to_normal_def enter_delete_select_def action_delete_def action_verify_def
      not_connected_def intro!: wf_with_paired wf_intro)

lemma wf_stage_host_action:
  "wf_app a \<Longrightarrow> (\<And>s. act = UnpairSlot s \<Longrightarrow> s = 1 \<or> s = 2) \<Longrightarrow> wf_app (stage_host_action act a)"
  unfolding stage_host_action_def Let_def by (rule wf_msgs) (auto simp: wf_app_def wf_mode_def)

lemma wf_hosts:
  "wf_app a \<Longrightarrow> wf_app (enter_host_menu a)"
  "wf_app a \<Longrightarrow> wf_app (request_unpair_self a)"
  "wf_app a \<Longrightarrow> wf_app (cancel_host_action a)"
  "wf_app a \<Longrightarrow> wf_app (fst (action_slot_clear s a))"
  "wf_app a \<Longrightarrow> wf_app (fst (action_factory_reset a))"
  "wf_app a \<Longrightarrow> wf_app (fst (action_unpair a))"
  "wf_app a \<Longrightarrow> wf_app (fst (action_pair a))"
  by (auto simp: enter_host_menu_def request_unpair_self_def cancel_host_action_def back_to_normal_def
      action_slot_clear_def action_factory_reset_def action_unpair_def action_pair_def not_connected_def Let_def
      intro!: wf_intro wf_stage_host_action)

lemma wf_host_menu_pick: "wf_app a \<Longrightarrow> wf_app (host_menu_pick c a)"
  by (auto simp: host_menu_pick_def host_menu_action_def Let_def guard_paired_def split: host_action.split
      intro!: wf_intro wf_stage_host_action)

lemma wf_confirm_host_action: "wf_app a \<Longrightarrow> wf_app (fst (confirm_host_action a))"
  by (auto simp: confirm_host_action_def Let_def split: option.split host_action.split
      intro!: wf_intro wf_hosts wf_action_enroll)

lemma wf_switches:
  "wf_app a \<Longrightarrow> wf_app (fst (action_toggle k a))"
  "wf_app a \<Longrightarrow> wf_app (action_info E a)"
  by (auto simp: action_toggle_def toggle_setting_with_note_def Let_def action_info_def guard_paired_def
      split: setting_key.split result.split intro!: wf_with_paired wf_intro)

lemma wf_toggle_help: "wf_app a \<Longrightarrow> wf_app (toggle_help a)"
  by (simp add: toggle_help_def wf_intro)

lemma wf_logs:
  "wf_app a \<Longrightarrow> wf_app (log_scroll_up a)" "wf_app a \<Longrightarrow> wf_app (log_scroll_down a)"
  "wf_app a \<Longrightarrow> wf_app (log_page_up a)" "wf_app a \<Longrightarrow> wf_app (log_page_down a)"
  "wf_app a \<Longrightarrow> wf_app (log_jump_top a)" "wf_app a \<Longrightarrow> wf_app (log_jump_bottom a)"
  "wf_app a \<Longrightarrow> wf_app (stop_log_stream a)" "wf_app a \<Longrightarrow> wf_app (fst (start_log_stream E a))"
  by (auto simp: log_scroll_up_def log_scroll_down_def log_page_up_def log_page_down_def log_jump_top_def
      log_jump_bottom_def stop_log_stream_def start_log_stream_def wf_app_def wf_log_def wf_feed_msg split: result.split)

lemma wf_pam_cursor:
  "wf_app a \<Longrightarrow> wf_app (pam_cursor_up a)" "wf_app a \<Longrightarrow> wf_app (pam_cursor_down a)"
  by (auto simp: pam_cursor_up_def pam_cursor_down_def wf_app_def wf_cursor_def)

lemma wf_after_pam_action: "wf_app a \<Longrightarrow> wf_app (after_pam_action req b a)"
  by (simp add: after_pam_action_def Let_def wf_intro)

lemma wf_zero_cursor: "wf_app a \<Longrightarrow> wf_app (a\<lparr> app_key_cursor := 0 \<rparr>)"
  "wf_app a \<Longrightarrow> wf_app (a\<lparr> app_pam_cursor := 0 \<rparr>)" "wf_app a \<Longrightarrow> wf_app (a\<lparr> app_tab := t, app_mode := ModeNormal \<rparr>)"
  by (simp_all add: wf_app_def) (blast intro: wf_mode_changes)

lemma wf_set_tab: "wf_app a \<Longrightarrow> wf_app (fst (set_tab E t a))"
  by (auto simp: set_tab_def Let_def split: tab.split prod.split
      intro!: wf_msgs wf_zero_cursor wf_logs wf_refresh_keys dest!: arg_cong [of _ _ fst])

lemma wf_cursors:
  "wf_app a \<Longrightarrow> wf_app (keys_set_tab t a)" "wf_app a \<Longrightarrow> wf_app (keys_next_tab a)"
  "wf_app a \<Longrightarrow> wf_app (keys_cursor_up a)" "wf_app a \<Longrightarrow> wf_app (keys_cursor_down a)"
  by (auto simp: keys_set_tab_def keys_next_tab_def keys_cursor_up_def keys_cursor_down_def Let_def
      wf_app_def current_key_len wf_cursor_def)

lemma wf_key_pages:
  "wf_app a \<Longrightarrow> wf_app (fst (action_key_show_pubkey a))"
  "wf_app a \<Longrightarrow> wf_app (fst (fetch_secret t m1 m2 h mk a))"
  "wf_app a \<Longrightarrow> wf_app (fst (action_key_generate nm a))"
  by (auto simp: action_key_show_pubkey_def fetch_secret_def action_key_generate_def not_connected_def
      split: option.split intro!: wf_with_paired wf_intro)

lemma wf_enter_key_add: "wf_app a \<Longrightarrow> wf_app (fst (enter_key_add a))"
  by (auto simp: enter_key_add_def not_connected_def Let_def intro!: wf_with_paired wf_intro)
    (simp add: wf_app_def wf_mode_def)

lemma wf_key_delete:
  "wf_app a \<Longrightarrow> wf_app (fst (enter_key_delete_confirm a))"
  "wf_app a \<Longrightarrow> wf_app (cancel_key_delete a)"
  by (auto simp: enter_key_delete_confirm_def cancel_key_delete_def not_connected_def
      split: option.split intro!: wf_with_paired wf_intro)
    (auto simp: wf_app_def intro: wf_mode_changes)

lemma wf_confirm_key_delete: "wf_app a \<Longrightarrow> wf_app (fst (confirm_key_delete a))"
  by (auto simp: confirm_key_delete_def Let_def split: option.split intro!: wf_msgs)
    (auto simp: wf_app_def intro: wf_mode_changes)

lemma wf_typing:
  "wf_app a \<Longrightarrow> wf_app (input_push_char c a)" "wf_app a \<Longrightarrow> wf_app (input_pop_char a)"
  "wf_app a \<Longrightarrow> wf_app (a\<lparr> app_input := [] \<rparr>)"
  by (simp_all add: input_push_char_def input_pop_char_def wf_app_def)

lemma wf_close_input: "wf_app a \<Longrightarrow> wf_app (a\<lparr> app_input := [], app_flow := None, app_mode := ModeNormal \<rparr>)"
  by (simp add: wf_app_def) (blast intro: wf_mode_changes)

lemma wf_input_cancel: "wf_app a \<Longrightarrow> wf_app (input_cancel a)"
  unfolding input_cancel_def by (intro wf_msgs wf_close_input)

lemma wf_flow_step:
  assumes "wf_app a" "app_flow a = Some f" "flow_cat f' \<noteq> KSsh" "app_mode a = ModeKeyInput"
  shows "wf_app (a\<lparr> app_flow := Some f', app_input := [] \<rparr>)"
  using assms by (auto simp: wf_app_def wf_mode_def)

lemma flow_stage_SSH: "wf_app a \<Longrightarrow> app_flow a = Some f \<Longrightarrow> flow_cat f = KSsh \<Longrightarrow> flow_stage f = StageName"
  by (auto simp: wf_app_def wf_mode_def flow_stage_def)

lemma wf_action_key_add:
  assumes "wf_app a" "cat \<noteq> KSsh"
  shows "\<exists>b jobs. action_key_add cat nm svc sec a = Some (b, jobs) \<and> wf_app b"
  using assms by (cases cat) (auto simp: action_key_add_def add_cat_of_def intro!: wf_intro)

lemma entered_secret_total: "cat \<noteq> KSsh \<Longrightarrow> entered_secret cat txt \<noteq> None"
  by (cases cat) (simp_all add: entered_secret_def)

lemma wf_input_submit_key:
  assumes "wf_app a" "app_mode a = ModeKeyInput"
  shows "\<exists>b jobs. input_submit_key a = Some (b, jobs) \<and> wf_app b"
proof (cases "app_flow a")
  case None
  then show ?thesis using assms by (simp add: wf_app_def wf_mode_def)
next
  case (Some f)
  let ?closed = "a\<lparr> app_input := [], app_flow := None, app_mode := ModeNormal \<rparr>"
  have c: "wf_app ?closed" by (rule wf_close_input [OF assms(1)])
  have g: "wf_app (fst (action_key_generate nm ?closed))" for nm by (rule wf_key_pages(3) [OF c])
  have n: "flow_cat f \<noteq> KSsh" if "flow_stage f \<noteq> StageName"
    using that flow_stage_SSH [OF assms(1) Some] by blast
  show ?thesis
  proof (cases "flow_stage f")
    case StageName
    then show ?thesis
      using g [of "trim (app_input a)"] assms wf_flow_step [OF assms(1) Some _ assms(2), of "f\<lparr> flow_name := Some (trim (app_input a)) \<rparr>"]
      by (cases "action_key_generate (trim (app_input a)) ?closed")
        (auto simp: input_submit_key_def Some Let_def intro!: wf_msgs)
  next
    case StageService
    then show ?thesis
      using n assms wf_flow_step [OF assms(1) Some _ assms(2), of "f\<lparr> flow_service := Some (trim (app_input a)) \<rparr>"]
      by (auto simp: input_submit_key_def Some Let_def intro!: wf_msgs)
  next
    case StageSecret
    then have cat: "flow_cat f \<noteq> KSsh" using n by simp
    obtain r where r: "entered_secret (flow_cat f) (trim (app_input a)) = Some r"
      using entered_secret_total [OF cat] by blast
    show ?thesis
      using StageSecret assms(1) r wf_action_key_add [OF c cat]
      by (cases r) (auto simp: input_submit_key_def Some Let_def intro!: wf_msgs)
  qed
qed

lemma wf_firmware:
  "wf_app a \<Longrightarrow> wf_app (fst (fw_recheck a))"
  "wf_app a \<Longrightarrow> wf_app (fst (fw_start_update a))"
  by (auto simp: fw_recheck_def fw_start_update_def wf_app_def split: option.split)

lemma wf_fw_enter:
  assumes "wf_app a"
  shows "wf_app (fst (fw_enter E a))"
proof (cases "set_tab E TabFirmware a")
  case (Pair b jobs)
  then have "wf_app b" using wf_set_tab [OF assms, of E TabFirmware] by simp
  then show ?thesis by (simp add: fw_enter_def Pair wf_firmware(1) split: fw_state.split)
qed

section \<open>Keys\<close>

lemma wf_does [simp]: "wf_app (ko_app (does r)) = wf_app (fst r)" "wf_app (ko_app (only a)) = wf_app a"
  by (simp_all add: does_def only_def)

lemma ko_simps [simp]:
  "ko_jobs (does r) = snd r" "ko_pam (does r) = None" "ko_quit (does r) = False" "ko_app (does r) = fst r"
  "ko_jobs (only a) = []" "ko_pam (only a) = None" "ko_quit (only a) = False" "ko_app (only a) = a"
  by (simp_all add: does_def only_def)

lemma wf_asks_pam:
  assumes "\<And>b. wf_app b \<Longrightarrow> wf_app (snd (req b))" "wf_app a"
  shows "wf_app (ko_app (asks_pam req a))"
proof (cases "req a")
  case (Pair r b)
  then show ?thesis using assms(1) [OF assms(2)] assms(2) by (simp add: asks_pam_def guard_paired_def wf_msgs only_def does_def)
qed

lemma wf_if: "wf_app (ko_app x) \<Longrightarrow> wf_app (ko_app y) \<Longrightarrow> wf_app (ko_app (if c then x else y))"
  by simp

lemma wf_page_keys:
  "wf_app a \<Longrightarrow> wf_app (ko_app (dashboard_key E k a))"
  "wf_app a \<Longrightarrow> wf_app (ko_app (keys_key E k a))"
  "wf_app a \<Longrightarrow> wf_app (ko_app (logs_key E k a))"
  "wf_app a \<Longrightarrow> wf_app (ko_app (firmware_key E k a))"
  unfolding dashboard_key_def keys_key_def logs_key_def firmware_key_def
  by (intro wf_if; simp add: wf_hosts wf_enroll wf_fingers wf_switches wf_fw_enter wf_set_tab wf_cursors
      wf_refresh_keys wf_set_msg_dim wf_enter_key_add wf_key_delete wf_key_pages wf_logs wf_firmware
      action_key_otp_def action_key_show_api_def)+

lemma wf_pam_key: "wf_app a \<Longrightarrow> wf_app (ko_app (pam_key E k a))"
  unfolding pam_key_def
  by (intro wf_if; (rule wf_asks_pam)?; simp add: pam_repair_request_def wf_set_tab wf_pam_cursor wf_msgs
      split: option.split)

lemma wf_normal_key: "wf_app a \<Longrightarrow> wf_app (ko_app (normal_key E k a))"
  unfolding normal_key_def
  by (intro wf_if; simp add: still_updating_def wf_msgs wf_toggle_help wf_set_tab wf_fw_enter
      wf_page_keys wf_pam_key split: tab.split)

lemma wf_mode_keys:
  "wf_app a \<Longrightarrow> wf_app (ko_app (help_key k a))"
  "wf_app a \<Longrightarrow> wf_app (ko_app (delete_select_key k a))"
  "wf_app a \<Longrightarrow> wf_app (ko_app (enroll_kind_key k a))"
  "wf_app a \<Longrightarrow> wf_app (ko_app (key_delete_key k a))"
  "wf_app a \<Longrightarrow> wf_app (ko_app (host_menu_key k a))"
  "wf_app a \<Longrightarrow> wf_app (ko_app (host_confirm_key k a))"
  by (simp_all add: help_key_def delete_select_key_def enroll_kind_key_def key_delete_key_def host_menu_key_def
      host_confirm_key_def wf_toggle_help wf_fingers wf_enroll wf_key_delete wf_confirm_key_delete wf_hosts wf_host_menu_pick
      wf_confirm_host_action split: key.split list.split)

lemma wf_handle_key:
  assumes "wf_app a"
  shows "\<exists>out. handle_key E k a = Some out \<and> wf_app (ko_app out)"
proof (cases "app_mode a = ModeKeyInput \<and> k \<noteq> KCtrlC")
  case True
  then show ?thesis
    using wf_input_submit_key [OF assms] assms
    by (cases k) (auto simp: handle_key_def key_input_key_def wf_input_cancel wf_typing)
next
  case False
  then show ?thesis
    using wf_normal_key [OF assms, of E k] wf_mode_keys [OF assms, of k] assms
    by (cases "app_mode a") (auto simp: handle_key_def still_updating_def wf_msgs)
qed

section \<open>Every reachable state\<close>

definition tui_inv :: "tui \<Rightarrow> bool" where
  "tui_inv t \<longleftrightarrow> wf_app (t_app t) \<and> \<not> t_panic t"

lemma wf_round_end: "tui_inv t \<Longrightarrow> tui_inv (round_end R t)"
  using wf_drain [of "t_app t" "take (re_taken R) (t_queue t)"]
  by (auto simp: tui_inv_def round_end_def Let_def wf_refresh split: prod.split)

lemma wf_after_pam: "tui_inv t \<Longrightarrow> tui_inv (after_pam R req t)"
  by (simp add: tui_inv_def after_pam_def wf_refresh wf_after_pam_action split: option.split)

lemma wf_shutdown: "wf_app a \<Longrightarrow> wf_app (a\<lparr> app_log_open := False \<rparr>)"
  by (simp add: wf_app_def)

text \<open>A round with a key that does not panic ends in one of three ways.\<close>

lemma ui_round_key:
  assumes "handle_key (re_ui R) k (t_app t) = Some out"
  defines "t1 \<equiv> start_jobs R (t_app t) k (ko_jobs out) (t\<lparr> t_app := ko_app out \<rparr>)"
  shows "ui_round R (Some k) t \<in> {shutdown t1, t1, round_end R (after_pam R (ko_pam out) t1)}"
  by (simp add: ui_round_def assms Let_def)

lemma tui_inv_round: "tui_inv t \<Longrightarrow> tui_inv (ui_round R ko t)"
proof (cases ko)
  case None
  assume "tui_inv t"
  then show ?thesis unfolding None by (simp add: ui_round_def wf_round_end)
next
  case (Some k)
  assume t: "tui_inv t"
  obtain out where out: "handle_key (re_ui R) k (t_app t) = Some out" and w: "wf_app (ko_app out)"
    using wf_handle_key [of "t_app t" "re_ui R" k] t by (auto simp: tui_inv_def)
  let ?t1 = "start_jobs R (t_app t) k (ko_jobs out) (t\<lparr> t_app := ko_app out \<rparr>)"
  have t1: "tui_inv ?t1" using t w by (simp add: tui_inv_def start_jobs_def)
  then have "tui_inv (shutdown ?t1)" by (simp add: tui_inv_def shutdown_def wf_shutdown)
  moreover have "tui_inv (round_end R (after_pam R (ko_pam out) ?t1))" by (intro wf_round_end wf_after_pam t1)
  moreover note ui_round_key [OF out, folded Some]
  ultimately show ?thesis using t1 by (elim insertE emptyE) simp_all
qed

interpretation tui_wf: event_machine tui_step tui_inv
proof unfold_locales
  fix t e
  assume t: "tui_inv t"
  show "tui_inv (tui_step e t)"
  proof (cases e)
    case (WorkerSends i)
    then show ?thesis using t
      by (auto simp: tui_step_def worker_sends_def tui_inv_def split: option.split list.split)
  qed (use t in \<open>simp add: tui_step_def tui_inv_round\<close>)
qed

lemma tui_inv_start: "tui_inv (tui_start E JE)"
  by (simp add: tui_inv_def tui_start_def wf_refresh wf_app_new)

text \<open>
  C32: in every state the terminal UI can reach the application is well-formed: every mode has what its
  keys act on, the cursors are inside their lists, the feed, the log and the scroll position are within
  their bounds, a firmware update that can be started has been prepared, and the slot numbers are
  those of the two hosts; and none of the three \<open>unreachable!\<close> arms is ever reached. The arithmetic is
  that of a build without overflow checks: a build with them can panic in \<open>is_second_host\<close> on the active
  slot 0, see \<open>pairs_as_second_host\<close>.
\<close>

theorem tui_stays_well_formed:
  "wf_app (t_app (fold tui_step es (tui_start E JE))) \<and> \<not> t_panic (fold tui_step es (tui_start E JE))"
  using tui_wf.run_inv [OF tui_inv_start, of es E JE] by (simp add: tui_inv_def)

end
