(* ===== verification/Tui_Runs.thy ===== *)
theory Tui_Runs
  imports Tui_Safety
begin

text \<open>
  The actions of the terminal UI over whole runs: which key starts which job, that every destructive
  request was confirmed, that an action ends whatever the daemon answers, and how a firmware update
  breaks the rule of one action at a time.
\<close>

section \<open>The jobs a key starts\<close>

text \<open>A quiet job never ends an action.\<close>

definition quiet :: "job \<Rightarrow> bool" where
  "quiet j \<longleftrightarrow> \<not> is_action j \<and> (\<forall>p. j \<noteq> JFwPush p)"

definition same_act :: "app \<Rightarrow> app \<Rightarrow> bool" where
  "same_act a b \<longleftrightarrow> app_busy b = app_busy a \<and> app_enroll_active b = app_enroll_active a"

text \<open>
  An operation starts nothing but quiet jobs, or one action when none is running, or the push of a
  prepared update, which does not ask whether an action is running.
\<close>

definition starts :: "app \<Rightarrow> app \<times> job list \<Rightarrow> bool" where
  "starts a r \<longleftrightarrow>
     (list_all quiet (snd r) \<and> same_act a (fst r)) \<or>
     (\<exists>j js. snd r = js @ [j] \<and> list_all quiet js \<and> is_action j \<and> \<not> app_busy a \<and> app_busy (fst r) \<and>
        app_enroll_active (fst r) = (app_enroll_active a \<or> (\<exists>s. j = JEnroll s))) \<or>
     (\<exists>p. snd r = [JFwPush p] \<and> app_fw_state a = FwReady \<and> fw_updating (fst r) \<and> app_busy (fst r) \<and>
        app_enroll_active (fst r) = app_enroll_active a)"

lemma quiet_jobs [simp]:
  "quiet (JPairPoller b)" "quiet JEnrollCancel" "quiet JFwSilentCheck" "quiet JFwPrepare" "quiet JLogReader"
  by (simp_all add: quiet_def is_action_def)

lemma same_act_refl [simp]: "same_act a a"
  by (simp add: same_act_def)

lemma same_act_trans: "same_act a b \<Longrightarrow> same_act b d \<Longrightarrow> same_act a d"
  by (simp add: same_act_def)

lemma same_act_msgs [simp]:
  "same_act a (set_msg m st b) = same_act a b" "same_act a (set_msg_dim m b) = same_act a b"
  "same_act a (set_msg_prompt m st b) = same_act a b"
  by (simp_all add: same_act_def set_msg_dim_def set_msg_prompt_def)

lemma starts_quiet: "list_all quiet js \<Longrightarrow> same_act a b \<Longrightarrow> starts a (b, js)"
  by (simp add: starts_def)

lemma starts_none: "same_act a b \<Longrightarrow> starts a (b, [])"
  by (simp add: starts_quiet)

lemma starts_action:
  "is_action j \<Longrightarrow> \<not> app_busy a \<Longrightarrow> app_busy b \<Longrightarrow> list_all quiet js \<Longrightarrow>
     app_enroll_active b = (app_enroll_active a \<or> (\<exists>s. j = JEnroll s)) \<Longrightarrow> starts a (b, js @ [j])"
  by (simp add: starts_def)

lemma starts_one:
  "is_action j \<Longrightarrow> \<not> app_busy a \<Longrightarrow> app_busy b \<Longrightarrow>
     app_enroll_active b = (app_enroll_active a \<or> (\<exists>s. j = JEnroll s)) \<Longrightarrow> starts a (b, [j])"
  using starts_action [of j a b "[]"] by simp

lemma starts_from: "starts b r \<Longrightarrow> same_act a b \<Longrightarrow> app_fw_state b = app_fw_state a \<Longrightarrow> starts a r"
  by (simp add: starts_def same_act_def)

lemma starts_with_paired: "(\<And>b. starts b (act b)) \<Longrightarrow> starts a (with_paired act a)"
  by (simp add: with_paired_def guard_paired_def starts_quiet)

lemma starts_nothing: "starts a (a, [])" "starts a (not_connected a)"
  by (simp_all add: starts_quiet not_connected_def)

lemma starts_action_enroll: "starts a (action_enroll slot a)"
  by (auto simp: action_enroll_def Let_def starts_nothing is_action_def intro!: starts_one)

lemma starts_enroll_auth_finger: "starts a (enroll_auth_finger a)"
  by (auto simp: enroll_auth_finger_def starts_action_enroll same_act_def split: option.split intro!: starts_quiet)

lemma starts_enroll:
  "starts a (auto_enroll a)" "starts a (enroll_kind_pick c a)" "starts a (action_enroll_cancel a)"
proof -
  have s: "starts a r" if "starts (a\<lparr> app_mode := ModeNormal \<rparr>) r" for r
    using starts_from [OF that] by (simp add: same_act_def)
  show "starts a (auto_enroll a)"
    unfolding auto_enroll_def
    by (rule starts_with_paired) (auto simp: starts_nothing starts_enroll_auth_finger same_act_def intro!: starts_quiet)
  show "starts a (enroll_kind_pick c a)"
    by (auto simp: enroll_kind_pick_def starts_nothing intro!: s starts_enroll_auth_finger starts_action_enroll)
  show "starts a (action_enroll_cancel a)"
    by (auto simp: action_enroll_cancel_def intro!: starts_quiet)
qed

lemma starts_fingers:
  "starts a (enter_delete_select a)" "starts a (action_delete slot a)" "starts a (action_verify a)"
  by (auto simp: enter_delete_select_def action_delete_def action_verify_def starts_nothing same_act_def is_action_def
      intro!: starts_with_paired starts_one starts_none)

lemma starts_hosts:
  "starts a (action_slot_clear slot a)" "starts a (action_factory_reset a)" "starts a (action_unpair a)"
  by (auto simp: action_slot_clear_def action_factory_reset_def action_unpair_def starts_nothing is_action_def
      intro!: starts_one)

lemma starts_pair: "starts a (action_pair a)"
proof -
  have "starts a (b, [JPairPoller s, JPair])" if "\<not> app_busy a" "app_busy b" "app_enroll_active b = app_enroll_active a" for s b
    using starts_action [of JPair a b "[JPairPoller s]"] that by (simp add: is_action_def)
  then show ?thesis
    by (auto simp: action_pair_def starts_nothing Let_def intro!: starts_quiet)
qed

lemma starts_confirm_host_action: "starts a (confirm_host_action a)"
proof -
  let ?b = "a\<lparr> app_pending_host := None, app_mode := ModeNormal \<rparr>"
  have s: "starts a r" if "starts ?b r" for r
    using starts_from [OF that] by (simp add: same_act_def)
  show ?thesis
    by (auto simp: confirm_host_action_def Let_def starts_nothing split: option.split host_action.split
        intro!: s starts_hosts starts_action_enroll)
qed

lemma starts_toggle: "starts a (action_toggle k a)"
  by (auto simp: action_toggle_def toggle_setting_with_note_def Let_def starts_nothing is_action_def
      split: setting_key.split intro!: starts_with_paired starts_one)

section \<open>Operations without actions\<close>

lemma same_act_pages [simp]:
  "same_act a (log_scroll_up a)" "same_act a (log_scroll_down a)" "same_act a (log_page_up a)"
  "same_act a (log_page_down a)" "same_act a (log_jump_top a)" "same_act a (log_jump_bottom a)"
  "same_act a (pam_cursor_up a)" "same_act a (pam_cursor_down a)" "same_act a (toggle_help a)"
  "same_act a (keys_set_tab t a)" "same_act a (keys_next_tab a)" "same_act a (keys_cursor_up a)"
  "same_act a (keys_cursor_down a)" "same_act a (input_push_char c a)" "same_act a (input_pop_char a)"
  "same_act a (clamp_key_cursor a)" "same_act a (stop_log_stream a)"
  by (simp_all add: same_act_def log_scroll_up_def log_scroll_down_def log_page_up_def log_page_down_def
      log_jump_top_def log_jump_bottom_def pam_cursor_up_def pam_cursor_down_def toggle_help_def keys_set_tab_def
      keys_next_tab_def keys_cursor_up_def keys_cursor_down_def Let_def input_push_char_def input_pop_char_def
      clamp_key_cursor_def stop_log_stream_def)

lemma same_act_takes [simp]:
  "same_act a (take_status rsp b) = same_act a b" "same_act a (take_pair_status rp b) = same_act a b"
  "same_act a (take_bitmap rp b) = same_act a b" "same_act a (take_slots rp b) = same_act a b"
  "same_act a (take_settings rp b) = same_act a b" "same_act a (take_pam dir b) = same_act a b"
  "same_act a (refresh_keys E b) = same_act a b"
  by (simp_all add: same_act_def take_status_def take_pair_status_def take_bitmap_def take_slots_def
      take_settings_def take_pam_def refresh_keys_def clamp_key_cursor_def Let_def
      split: result.split list.split option.split slot_status.split)

lemma same_act_refresh: "same_act a (fst (drain_actions q b)) \<Longrightarrow> same_act a (refresh E q b)"
proof -
  assume s: "same_act a (fst (drain_actions q b))"
  have f: "same_act a (c\<lparr> app_isolated := i \<rparr>) = same_act a c"
    "same_act a (c\<lparr> app_daemon_ok := x, app_connected := y \<rparr>) = same_act a c"
    "same_act a (c\<lparr> app_daemon_ok := x \<rparr>) = same_act a c" for c i x y
    by (simp_all add: same_act_def)
  from s show ?thesis by (simp add: refresh_def Let_def f split: result.split)
qed

lemma same_act_others [simp]:
  "same_act a (back_to_normal a)" "same_act a (enter_host_menu a)" "same_act a (request_unpair_self a)"
  "same_act a (cancel_host_action a)" "same_act a (host_menu_pick c a)" "same_act a (input_cancel a)"
  "same_act a (cancel_key_delete a)" "same_act a (action_info E a)" "same_act a (still_updating a)"
  "same_act a (after_pam_action r success a)"
  by (simp_all add: same_act_def back_to_normal_def enter_host_menu_def request_unpair_self_def
      stage_host_action_def Let_def cancel_host_action_def host_menu_pick_def guard_paired_def input_cancel_def
      cancel_key_delete_def action_info_def still_updating_def after_pam_action_def
      split: option.split host_action.split result.split)

lemma starts_log_stream: "starts a (start_log_stream E a)"
  by (auto simp: start_log_stream_def starts_nothing same_act_def split: result.split intro!: starts_quiet)

lemma starts_quiet_iff: "list_all quiet (snd r) \<Longrightarrow> starts a r \<longleftrightarrow> same_act a (fst r)"
proof
  assume q: "list_all quiet (snd r)" and s: "starts a r"
  have "\<not> is_action j" if "snd r = js @ [j]" for js j using q that by (simp add: quiet_def)
  moreover have "snd r \<noteq> [JFwPush p]" for p using q by (auto simp: quiet_def)
  ultimately show "same_act a (fst r)" using s unfolding starts_def by blast
qed (simp add: starts_def)

lemma set_tab_quiet: "list_all quiet (snd (set_tab E t a)) \<and> same_act a (fst (set_tab E t a))"
proof -
  have l: "list_all quiet (snd (start_log_stream E b)) \<and> same_act b (fst (start_log_stream E b))" for b
    by (auto simp: start_log_stream_def same_act_def split: result.split)
  let ?b = "(if app_tab a = TabLogs then stop_log_stream a else a)\<lparr> app_tab := t, app_mode := ModeNormal \<rparr>"
  have b: "same_act a ?b" by (simp add: same_act_def stop_log_stream_def)
  have u: "same_act a (c\<lparr> app_key_cursor := n \<rparr>) = same_act a c"
    "same_act a (c\<lparr> app_pam_cursor := n \<rparr>) = same_act a c" for c n by (simp_all add: same_act_def)
  show ?thesis
    using l [of ?b] b same_act_trans [OF b, of "fst (start_log_stream E ?b)"]
    by (cases t) (auto simp: set_tab_def Let_def u simp del: if_split split: prod.split if_splits)
qed

lemma starts_set_tab: "starts a (set_tab E t a)"
  using set_tab_quiet [of E t a] by (simp add: starts_def)

section \<open>Keys\<close>

lemma starts_firmware:
  "starts a (fw_recheck a)" "starts a (fw_start_update a)"
  by (auto simp: fw_recheck_def starts_nothing same_act_def intro!: starts_quiet)
    (auto simp: fw_start_update_def starts_def fw_updating_def same_act_def split: option.split)

lemma starts_fw_enter: "starts a (fw_enter E a)"
proof -
  obtain b js where t: "set_tab E TabFirmware a = (b, js)" by (cases "set_tab E TabFirmware a")
  have q: "list_all quiet js" "same_act a b" using set_tab_quiet [of E TabFirmware a] t by simp_all
  have "list_all quiet (snd (fw_recheck b)) \<and> same_act b (fst (fw_recheck b))"
    by (auto simp: fw_recheck_def same_act_def)
  then have "starts a (apsnd ((@) js) (fw_recheck b))"
    using q same_act_trans [OF q(2)] by (cases "fw_recheck b") (auto intro!: starts_quiet)
  then show ?thesis using q by (auto simp: fw_enter_def t starts_quiet split: fw_state.split)
qed

lemma starts_key_pages:
  "starts a (action_key_show_pubkey a)" "starts a (enter_key_add a)"
  "starts a (enter_key_delete_confirm a)"
  by (auto simp: action_key_show_pubkey_def enter_key_add_def enter_key_delete_confirm_def starts_nothing
      same_act_def Let_def set_msg_prompt_def split: option.split intro!: starts_with_paired starts_none)

lemma starts_fetch: "(\<And>nm. is_action (mk nm) \<and> (\<forall>s. mk nm \<noteq> JEnroll s)) \<Longrightarrow> starts a (fetch_secret t m1 m2 h mk a)"
  by (auto simp: fetch_secret_def starts_nothing same_act_def split: option.split
      intro!: starts_with_paired starts_one starts_none)

lemma starts_fetches: "starts a (action_key_show_api a)" "starts a (action_key_otp a)"
  by (simp_all add: action_key_show_api_def action_key_otp_def starts_fetch is_action_def)

lemma starts_confirm_key_delete: "starts a (confirm_key_delete a)"
  by (auto simp: confirm_key_delete_def Let_def same_act_def is_action_def split: option.split
      intro!: starts_one starts_none)

lemma starts_close:
  "starts (a\<lparr> app_input := [], app_flow := None, app_mode := ModeNormal \<rparr>) r \<Longrightarrow> starts a r"
  by (erule starts_from) (simp_all add: same_act_def)

lemma starts_generate: "starts a (action_key_generate nm a)"
  by (auto simp: action_key_generate_def starts_nothing is_action_def intro!: starts_one)

lemma starts_key_add: "action_key_add cat nm svc sec a = Some r \<Longrightarrow> starts a r"
  by (auto simp: action_key_add_def starts_nothing is_action_def split: if_splits intro!: starts_one)

lemma starts_submit: "input_submit_key a = Some r \<Longrightarrow> starts a r"
proof -
  assume r: "input_submit_key a = Some r"
  have m: "starts a (a\<lparr> app_mode := ModeNormal \<rparr>, [])" "starts a (set_msg_prompt m st a, [])"
    "starts a (set_msg_prompt m st (a\<lparr> app_flow := fl, app_input := [] \<rparr>), [])" for m st fl
    by (simp_all add: starts_def same_act_def set_msg_prompt_def)
  show ?thesis
    using r starts_close [OF starts_generate] starts_close [OF starts_key_add]
    by (auto simp: input_submit_key_def Let_def m split: option.splits key_input_stage.splits if_splits result.splits)
qed

definition key_starts :: "app \<Rightarrow> key_out \<Rightarrow> bool" where
  "key_starts a out \<longleftrightarrow> starts a (ko_app out, ko_jobs out)"

lemma key_starts_does: "starts a r \<Longrightarrow> key_starts a (does r)"
  by (cases r) (simp add: key_starts_def)

lemma key_starts_only: "same_act a b \<Longrightarrow> key_starts a (only b)" "same_act a b \<Longrightarrow> key_starts a ((only b)\<lparr> ko_pam := p \<rparr>)"
  "same_act a b \<Longrightarrow> key_starts a ((only b)\<lparr> ko_quit := q \<rparr>)"
  by (simp_all add: key_starts_def starts_def only_def does_def)

lemma key_starts_if: "key_starts a x \<Longrightarrow> key_starts a y \<Longrightarrow> key_starts a (if c then x else y)"
  by simp

lemmas key_starts_facts = key_starts_does key_starts_only starts_fw_enter starts_firmware starts_key_pages
  starts_fetches starts_confirm_key_delete starts_set_tab starts_toggle starts_pair starts_hosts starts_fingers
  starts_enroll starts_nothing starts_confirm_host_action

lemma key_starts_asks_pam: "(\<And>b. same_act b (snd (req b))) \<Longrightarrow> key_starts a (asks_pam req a)"
proof -
  assume r: "\<And>b. same_act b (snd (req b))"
  obtain p b where b: "req a = (p, b)" by (cases "req a")
  then show ?thesis using r [of a] by (simp add: asks_pam_def guard_paired_def key_starts_only)
qed

lemma key_starts_pages:
  "key_starts a (dashboard_key E k a)" "key_starts a (keys_key E k a)" "key_starts a (logs_key E k a)"
  "key_starts a (firmware_key E k a)"
  unfolding dashboard_key_def keys_key_def logs_key_def firmware_key_def
  by (intro key_starts_if; simp add: key_starts_facts)+

lemma key_starts_pam: "key_starts a (pam_key E k a)"
  unfolding pam_key_def
  by (intro key_starts_if; (rule key_starts_asks_pam)?; simp add: key_starts_facts pam_repair_request_def split: option.split)

lemma key_starts_normal: "key_starts a (normal_key E k a)"
  unfolding normal_key_def
  by (intro key_starts_if; simp add: key_starts_facts key_starts_pages key_starts_pam split: tab.split)

lemma key_starts_modes:
  "key_starts a (help_key k a)" "key_starts a (delete_select_key k a)" "key_starts a (enroll_kind_key k a)"
  "key_starts a (key_delete_key k a)" "key_starts a (host_menu_key k a)" "key_starts a (host_confirm_key k a)"
  by (simp_all add: help_key_def delete_select_key_def enroll_kind_key_def key_delete_key_def host_menu_key_def
      host_confirm_key_def key_starts_facts split: key.split list.split)

lemma key_starts_handle: "handle_key E k a = Some out \<Longrightarrow> key_starts a out"
  by (auto simp: handle_key_def key_input_key_def key_starts_normal key_starts_modes key_starts_facts starts_submit
      split: mode.splits key.splits if_splits)

section \<open>The end of an action\<close>

definition is_ender :: "action_result \<Rightarrow> bool" where
  "is_ender r = (case r of ADone \<Rightarrow> True | AFwFinished _ \<Rightarrow> True | _ \<Rightarrow> False)"

definition enders :: "action_result list \<Rightarrow> nat" where
  "enders rs = length (filter is_ender rs)"

lemma enders_simps [simp]:
  "enders [] = 0" "enders (r # rs) = (if is_ender r then 1 else 0) + enders rs" "enders (rs @ rs') = enders rs + enders rs'"
  by (simp_all add: enders_def)

lemma is_ender_simps [simp]:
  "is_ender ADone" "is_ender (AFwFinished p)" "\<not> is_ender (AMessage m st)" "\<not> is_ender ARefresh"
  "\<not> is_ender (ASecretMessage m)" "\<not> is_ender AEnrollStarted" "\<not> is_ender (AEnrollProgress x y)"
  "\<not> is_ender (ALogLine l)" "\<not> is_ender ALogEnded" "\<not> is_ender (AFwSilentCheck v)"
  "\<not> is_ender (AFwPrepared q)" "\<not> is_ender (AFwProgress s f h n)"
  by (simp_all add: is_ender_def)

text \<open>How the results of an enrollment end: with the end of the job, and only there.\<close>

lemma enroll_poll_no_end: "enroll_poll slot ask_d v = (out, e, v1) \<Longrightarrow> filter is_ender out = []"
  by (auto simp: enroll_poll_def enrolled_msg_def enroll_event_msg_def Let_def
      split: result.splits list.splits if_splits)

lemma enroll_error_end: "filter is_ender (enroll_error e) = [ADone]"
  by (simp add: enroll_error_def job_end_def)

lemma enroll_polls_end: "filter is_ender (enroll_polls slot reply is v) = [ADone]"
proof (induction "is" arbitrary: v)
  case (Cons i "is")
  obtain out e v1 where p: "enroll_poll slot (reply i) v = (out, e, v1)" by (cases "enroll_poll slot (reply i) v")
  then show ?case using enroll_poll_no_end [OF p] Cons
    by (cases e) (simp_all add: enroll_error_end job_end_def)
qed (simp add: enroll_error_end)

lemma enroll_trace_end: "filter is_ender (enroll_trace E slot) = [ADone]"
  by (simp add: enroll_trace_def enroll_error_end enroll_polls_end split: result.split)

lemma poller_no_end:
  "filter is_ender (snd (fold (\<lambda>i. poller_round b (rp i)) is (l, out))) = filter is_ender out"
proof (induction "is" arbitrary: l out)
  case (Cons i "is")
  obtain l1 out1 where p: "poller_round b (rp i) (l, out) = (l1, out1)" by (cases "poller_round b (rp i) (l, out)")
  then have "filter is_ender out1 = filter is_ender out"
    by (auto simp: poller_round_def Let_def split: result.splits option.splits if_splits)
  then show ?case using Cons p by simp
qed simp

lemma push_events_no_end:
  "filter is_ender (snd (snd (fold push_event_step evs (f, h, out)))) = filter is_ender out"
proof (induction evs arbitrary: f h out)
  case (Cons ev evs)
  obtain f1 h1 out1 where p: "push_event_step ev (f, h, out) = (f1, h1, out1)"
    by (cases "push_event_step ev (f, h, out)")
  then have "filter is_ender out1 = filter is_ender out"
    by (auto simp: push_event_step_def Let_def split: prod.splits)
  then show ?case using Cons p by simp
qed simp

lemma report_no_end [simp]:
  "\<not> is_ender (slot_clear_report r)" "\<not> is_ender (factory_reset_report r)" "\<not> is_ender (pair_report r)"
  "\<not> is_ender (unpair_report r)" "\<not> is_ender (delete_report s r)" "\<not> is_ender (verify_report r)"
  "\<not> is_ender (setting_report nm b nt r)" "\<not> is_ender (key_add_report cat nm r)" "\<not> is_ender (show_api_report nm r)"
  "\<not> is_ender (generate_report nm r)" "\<not> is_ender (key_delete_report t i r)" "\<not> is_ender (otp_report nm r)"
  by (simp_all add: slot_clear_report_def factory_reset_report_def pair_report_def unpair_report_def delete_report_def
      verify_report_def setting_report_def key_add_report_def show_api_report_def generate_report_def
      key_delete_report_def otp_report_def Let_def split: result.split unpair_outcome.split option.split)

lemma log_lines_no_end: "filter is_ender (map ALogLine ls) = []"
  by (induction ls) simp_all

lemma trace_ends:
  "filter is_ender (job_trace E j) =
     (if is_action j then [ADone]
      else case j of JFwPush p \<Rightarrow> [AFwFinished (case snd (je_push E) of Ok _ \<Rightarrow> Ok (prep_target p) | Err e \<Rightarrow> Err e)]
           | _ \<Rightarrow> [])"
  using poller_no_end [where out = "[]" and l = "[]"] push_events_no_end [where out = "[]"]
  by (cases j) (simp_all add: job_trace_def is_action_def job_end_def enroll_trace_end push_trace_def log_lines_no_end)

lemma enders_trace: "enders (job_trace E j) = (if quiet j then 0 else 1)"
  unfolding enders_def trace_ends by (cases j) (simp_all add: quiet_def is_action_def)

text \<open>Draining: an end clears the busy flag, and nothing that arrives sets it.\<close>

lemma apply_result_busy:
  "app_busy (fst (apply_result r s)) = (app_busy (fst s) \<and> \<not> is_ender r)"
  "r \<noteq> AFwFinished p \<Longrightarrow> is_ender r = (r = ADone) \<Longrightarrow>
     app_enroll_active (fst (apply_result r s)) = (app_enroll_active (fst s) \<and> \<not> is_ender r)"
  by (cases s; cases r; simp add: apply_result_def set_msg_prompt_def split: result.split option.split)+

lemma drain_busy: "app_busy (fst (drain_actions q a)) = (app_busy a \<and> enders q = 0)"
proof -
  have "app_busy (fst (fold apply_result q s)) = (app_busy (fst s) \<and> enders q = 0)" for s
    by (induction q arbitrary: s) (auto simp: apply_result_busy(1))
  then show ?thesis by (simp add: drain_actions_def)
qed

lemma drain_enroll:
  assumes "\<forall>p. AFwFinished p \<notin> set q"
  shows "app_enroll_active (fst (drain_actions q a)) = (app_enroll_active a \<and> enders q = 0)"
proof -
  have "app_enroll_active (fst (fold apply_result q s)) = (app_enroll_active (fst s) \<and> enders q = 0)" for s
    using assms
  proof (induction q arbitrary: s)
    case (Cons r q)
    have "is_ender r = (r = ADone)" using Cons.prems by (cases r) auto
    moreover have "r \<noteq> AFwFinished undefined" using Cons.prems by auto
    ultimately show ?case using Cons by (auto simp: apply_result_busy(2))
  qed simp
  then show ?thesis by (simp add: drain_actions_def)
qed

section \<open>The actions that have not ended\<close>

text \<open>The number of ends on their way, in the channel and in the threads.\<close>

definition pend :: "tui \<Rightarrow> nat" where
  "pend t = enders (t_queue t) + sum_list (map (\<lambda>w. enders (snd w)) (t_workers t))"

definition no_push :: "tui \<Rightarrow> bool" where
  "no_push t \<longleftrightarrow> (\<forall>x\<in>set (t_started t). \<forall>p. snd (snd x) \<noteq> JFwPush p)"

definition no_fw_end :: "tui \<Rightarrow> bool" where
  "no_fw_end t \<longleftrightarrow> (\<forall>p. AFwFinished p \<notin> set (t_queue t) \<and> (\<forall>w\<in>set (t_workers t). AFwFinished p \<notin> set (snd w)))"

text \<open>
  A busy application has an end on its way; and as long as no firmware update was started there is
  at most one, exactly when the application is busy.
\<close>

definition busy_inv :: "tui \<Rightarrow> bool" where
  "busy_inv t \<longleftrightarrow> (app_busy (t_app t) \<longrightarrow> 0 < pend t) \<and>
     (no_push t \<longrightarrow> no_fw_end t \<and> pend t = (if app_busy (t_app t) then 1 else 0) \<and>
       (app_enroll_active (t_app t) \<longrightarrow> app_busy (t_app t)))"

lemma fw_end_trace: "AFwFinished q \<in> set (job_trace E j) \<Longrightarrow> \<exists>p. j = JFwPush p"
proof -
  assume "AFwFinished q \<in> set (job_trace E j)"
  then have "AFwFinished q \<in> set (filter is_ender (job_trace E j))" by simp
  then show ?thesis unfolding trace_ends by (cases j) (simp_all add: is_action_def)
qed

lemma pend_start_jobs: "pend (start_jobs R a k js t) = pend t + length (filter (\<lambda>j. \<not> quiet j) js)"
proof -
  have "sum_list (map (\<lambda>w. enders (snd w)) (map (\<lambda>j. (j, job_trace E j)) js)) = length (filter (\<lambda>j. \<not> quiet j) js)" for E
    by (induction js) (simp_all add: enders_trace)
  then show ?thesis by (simp add: pend_def start_jobs_def)
qed

lemma quiet_none: "list_all quiet js \<Longrightarrow> filter (\<lambda>j. \<not> quiet j) js = []"
  by (induction js) simp_all

lemma busy_inv_start_jobs:
  assumes "busy_inv t" "starts (t_app t) (a, js)"
  shows "busy_inv (start_jobs R b k js (t\<lparr> t_app := a \<rparr>))"
proof -
  let ?t = "start_jobs R b k js (t\<lparr> t_app := a \<rparr>)"
  have p: "pend ?t = pend t + length (filter (\<lambda>j. \<not> quiet j) js)"
    unfolding pend_start_jobs by (simp add: pend_def)
  have app: "t_app ?t = a" by (simp add: start_jobs_def)
  have np: "no_push ?t \<longleftrightarrow> no_push t \<and> (\<forall>j\<in>set js. \<forall>p. j \<noteq> JFwPush p)"
    by (auto simp: no_push_def start_jobs_def ball_Un)
  have fw: "no_push ?t \<Longrightarrow> no_fw_end t \<Longrightarrow> no_fw_end ?t"
    using fw_end_trace unfolding np by (fastforce simp: no_fw_end_def start_jobs_def)
  from assms(2) show ?thesis unfolding starts_def
  proof (elim disjE exE conjE)
    assume "list_all quiet (snd (a, js))" "same_act (t_app t) (fst (a, js))"
    then show ?thesis using assms(1) fw by (auto simp: busy_inv_def p app np quiet_none same_act_def)
  next
    fix j qs
    assume j: "snd (a, js) = qs @ [j]" "list_all quiet qs" "is_action j" "\<not> app_busy (t_app t)" "app_busy (fst (a, js))"
    then have l: "length (filter (\<lambda>j. \<not> quiet j) js) = 1" by (simp add: quiet_none) (simp add: quiet_def)
    show ?thesis using assms(1) fw j(4,5) unfolding busy_inv_def p app l by (auto simp: np)
  next
    fix q
    assume "snd (a, js) = [JFwPush q]"
    then have "JFwPush q \<in> set js" "length (filter (\<lambda>j. \<not> quiet j) js) = 1" by (simp_all add: quiet_def)
    then show ?thesis unfolding busy_inv_def p app np by auto
  qed
qed

text \<open>Taking a prefix of the channel, and the rest with a refresh.\<close>

lemma enders_take_drop: "enders (take n q) + enders (drop n q) = enders q"
  by (metis append_take_drop_id enders_simps(3))

lemma busy_inv_drain:
  assumes "busy_inv t" "same_act (fst (drain_actions (take n (t_queue t)) (t_app t))) a"
  shows "busy_inv (t\<lparr> t_app := a, t_queue := drop n (t_queue t) \<rparr>)"
proof -
  let ?q = "take n (t_queue t)"
  note e = enders_take_drop [of n "t_queue t"]
  have b: "app_busy a = (app_busy (t_app t) \<and> enders ?q = 0)"
    using assms(2) by (simp add: same_act_def drain_busy)
  have "app_enroll_active a = (app_enroll_active (t_app t) \<and> enders ?q = 0)" if "no_fw_end t"
    using assms(2) that drain_enroll [of ?q "t_app t"] by (auto simp: same_act_def no_fw_end_def dest: in_set_takeD)
  then show ?thesis
    using assms(1) b e by (auto simp: busy_inv_def pend_def no_push_def no_fw_end_def
        simp del: sum_list_eq_0_iff dest: in_set_dropD split: if_splits)
qed

lemma busy_inv_refresh:
  assumes "busy_inv t" "same_act (t_app t) b"
  shows "busy_inv (t\<lparr> t_app := refresh E (t_queue t) b, t_queue := [] \<rparr>)"
proof -
  let ?t = "t\<lparr> t_app := b \<rparr>"
  have i: "busy_inv ?t" using assms by (simp add: busy_inv_def pend_def no_push_def no_fw_end_def same_act_def)
  have "same_act (fst (drain_actions (take (length (t_queue ?t)) (t_queue ?t)) (t_app ?t))) (refresh E (t_queue t) b)"
    by (simp add: same_act_refresh)
  from busy_inv_drain [OF i this] show ?thesis by simp
qed

lemma busy_inv_round_end:
  assumes "busy_inv t"
  shows "busy_inv (round_end R t)"
proof -
  obtain a f where d: "drain_actions (take (re_taken R) (t_queue t)) (t_app t) = (a, f)"
    by (cases "drain_actions (take (re_taken R) (t_queue t)) (t_app t)")
  let ?t = "t\<lparr> t_app := a, t_queue := drop (re_taken R) (t_queue t) \<rparr>"
  have i: "busy_inv ?t" by (rule busy_inv_drain [OF assms]) (simp add: d)
  then show ?thesis using busy_inv_refresh [OF i, of a "re_ui R"] by (simp add: round_end_def d Let_def)
qed

lemma busy_inv_after_pam: "busy_inv t \<Longrightarrow> busy_inv (after_pam R req t)"
  by (auto simp: after_pam_def split: option.split intro!: busy_inv_refresh)

lemma busy_inv_worker: "busy_inv t \<Longrightarrow> busy_inv (worker_sends i t)"
proof (cases "get_at (t_workers t) i")
  case (Some w)
  assume t: "busy_inv t"
  show ?thesis
  proof (cases w)
    case (Pair j rs)
    show ?thesis
    proof (cases rs)
      case (Cons r rs')
      have i: "i < length (t_workers t)" "t_workers t ! i = (j, r # rs')"
        using Some Pair Cons by (auto simp: get_at_def split: if_splits)
      then have m: "(j, r # rs') \<in> set (t_workers t)" by (metis nth_mem)
      have "sum_list (map (\<lambda>w. enders (snd w)) ((t_workers t)[i := (j, rs')])) + (if is_ender r then 1 else 0) =
          sum_list (map (\<lambda>w. enders (snd w)) (t_workers t))"
        using i elem_le_sum_list [of i "map (\<lambda>w. enders (snd w)) (t_workers t)"]
        by (simp add: map_update sum_list_update)
      then have p: "pend (worker_sends i t) = pend t"
        by (cases "is_ender r") (simp_all add: pend_def worker_sends_def Some Pair Cons)
      have s: "t_app (worker_sends i t) = t_app t" "no_push (worker_sends i t) = no_push t"
        by (simp_all add: worker_sends_def Some Pair Cons no_push_def)
      have "no_fw_end (worker_sends i t)" if "no_fw_end t"
        using that m by (fastforce simp: no_fw_end_def worker_sends_def Some Pair Cons dest!: set_update_subset_insert [THEN subsetD])
      then show ?thesis using t by (auto simp: busy_inv_def p s)
    qed (use t in \<open>simp add: worker_sends_def Some Pair\<close>)
  qed
qed (simp add: worker_sends_def)

lemma busy_inv_round:
  assumes "busy_inv t"
  shows "busy_inv (ui_round R ko t)"
proof (cases ko)
  case None
  then show ?thesis by (simp add: ui_round_def busy_inv_round_end [OF assms])
next
  case (Some k)
  show ?thesis
  proof (cases "handle_key (re_ui R) k (t_app t)")
    case None
    then show ?thesis using assms
      by (simp add: ui_round_def Some busy_inv_def pend_def no_push_def no_fw_end_def)
  next
    case out: (Some out)
    let ?t = "start_jobs R (t_app t) k (ko_jobs out) (t\<lparr> t_app := ko_app out \<rparr>)"
    have i: "busy_inv ?t"
      using busy_inv_start_jobs [OF assms] key_starts_handle [OF out] by (simp add: key_starts_def)
    then have "busy_inv (shutdown ?t)"
      by (simp add: busy_inv_def shutdown_def pend_def no_push_def no_fw_end_def)
    moreover have "busy_inv (round_end R (after_pam R (ko_pam out) ?t))"
      by (intro busy_inv_round_end busy_inv_after_pam i)
    ultimately show ?thesis using ui_round_key [OF out, folded Some] i by auto
  qed
qed

interpretation tui_busy: event_machine tui_step busy_inv
proof unfold_locales
  fix t e
  assume "busy_inv t"
  then show "busy_inv (tui_step e t)"
    by (cases e) (simp_all add: tui_step_def busy_inv_round busy_inv_worker)
qed

lemma refresh_app_new: "same_act app_new (refresh E [] app_new)"
  by (rule same_act_refresh) (simp add: drain_actions_def)

lemma busy_inv_start: "busy_inv (tui_start E JE)"
  using refresh_app_new [of E]
  by (auto simp: busy_inv_def tui_start_def pend_def no_push_def no_fw_end_def same_act_def app_new_def job_trace_def)

section \<open>One action at a time, until a firmware update\<close>

text \<open>
  C33: as long as no firmware update was started the terminal UI runs one device action at a time, over all
  keys, answers and interleavings: the ends that are still on their way number at most one, there is
  one exactly when the application is busy, and an enrollment shown as running is running.
\<close>

theorem one_action_at_a_time:
  assumes "no_push (fold tui_step es (tui_start E JE))"
  shows "pend (fold tui_step es (tui_start E JE)) =
      (if app_busy (t_app (fold tui_step es (tui_start E JE))) then 1 else 0) \<and>
    (app_enroll_active (t_app (fold tui_step es (tui_start E JE))) \<longrightarrow> app_busy (t_app (fold tui_step es (tui_start E JE))))"
  using tui_busy.run_inv [OF busy_inv_start, of es E JE] assms by (simp add: busy_inv_def)

text \<open>The threads can always send what they have.\<close>

lemma deliver_all:
  "\<not> t_quit t \<Longrightarrow> \<not> t_panic t \<Longrightarrow> \<exists>is. let t' = fold tui_step (map WorkerSends is :: 'j tui_event list) t in
     (\<forall>w\<in>set (t_workers t'). snd w = []) \<and> t_app t' = t_app t \<and> \<not> t_quit t' \<and> \<not> t_panic t'"
proof (induction "sum_list (map (\<lambda>w. length (snd w)) (t_workers t))" arbitrary: t rule: less_induct)
  case less
  show ?case
  proof (cases "\<forall>w\<in>set (t_workers t). snd w = []")
    case True
    then show ?thesis using less.prems by (intro exI [of _ "[]"]) (simp add: Let_def)
  next
    case False
    then obtain i where i: "i < length (t_workers t)" "snd (t_workers t ! i) \<noteq> []" by (auto simp: in_set_conv_nth)
    then obtain j r rs where w: "t_workers t ! i = (j, r # rs)" by (cases "t_workers t ! i"; cases "snd (t_workers t ! i)") auto
    let ?t = "tui_step (WorkerSends i :: 'j tui_event) t"
    have s: "?t = t\<lparr> t_workers := (t_workers t)[i := (j, rs)], t_queue := t_queue t @ [r] \<rparr>"
      using i less.prems by (simp add: tui_step_def worker_sends_def get_at_def w)
    have "sum_list (map (\<lambda>w. length (snd w)) (t_workers ?t)) < sum_list (map (\<lambda>w. length (snd w)) (t_workers t))"
      using i w elem_le_sum_list [of i "map (\<lambda>w. length (snd w)) (t_workers t)"]
      by (simp add: s map_update sum_list_update)
    from less.hyps [OF this] obtain "is" where
      h: "let t' = fold tui_step (map WorkerSends is :: 'j tui_event list) ?t in
        (\<forall>w\<in>set (t_workers t'). snd w = []) \<and> t_app t' = t_app ?t \<and> \<not> t_quit t' \<and> \<not> t_panic t'"
      using less.prems by (auto simp: s)
    have "t_app ?t = t_app t" by (simp add: s)
    then show ?thesis using h by (intro exI [of _ "i # is"]) (simp add: Let_def)
  qed
qed

lemma pend_delivered: "\<forall>w\<in>set (t_workers t). snd w = [] \<Longrightarrow> pend t = enders (t_queue t)"
  by (simp add: pend_def)

text \<open>
  C34: no action locks the terminal UI for ever: from every state it can reach, also in the middle of
  a firmware update, once the threads have sent their results a single round of the loop without any
  key clears the busy flag.
\<close>

theorem actions_end:
  fixes es :: "'a tui_event list" and R :: "'a round_env"
  assumes "\<not> t_quit (fold tui_step es (tui_start E JE))"
  shows "\<exists>is n. \<not> app_busy (t_app (fold tui_step (map WorkerSends is @ [UiRound (R\<lparr> re_taken := n \<rparr>) None])
     (fold tui_step es (tui_start E JE))))"
proof -
  let ?t = "fold tui_step es (tui_start E JE)"
  have p: "\<not> t_panic ?t" using tui_wf.run_inv [OF tui_inv_start, of es E JE] by (simp add: tui_inv_def)
  obtain "is" where
    d: "\<forall>w\<in>set (t_workers (fold tui_step (map WorkerSends is :: 'a tui_event list) ?t)). snd w = []"
      "\<not> t_quit (fold tui_step (map WorkerSends is :: 'a tui_event list) ?t)"
      "\<not> t_panic (fold tui_step (map WorkerSends is :: 'a tui_event list) ?t)"
    using deliver_all [OF assms p, where 'j = 'a] by (auto simp: Let_def)
  let ?u = "fold tui_step (map WorkerSends is :: 'a tui_event list) ?t" and
    ?n = "length (t_queue (fold tui_step (map WorkerSends is :: 'a tui_event list) ?t))"
  let ?v = "ui_round (R\<lparr> re_taken := ?n \<rparr>) None ?u"
  have "busy_inv ?u" using tui_busy.run_inv [OF tui_busy.run_inv [OF busy_inv_start]] .
  then have b: "app_busy (t_app ?u) \<longrightarrow> enders (t_queue ?u) \<noteq> 0"
    by (simp add: busy_inv_def pend_delivered [OF d(1)])
  obtain a f where r: "drain_actions (t_queue ?u) (t_app ?u) = (a, f)" by (cases "drain_actions (t_queue ?u) (t_app ?u)")
  have "\<not> app_busy a" using b drain_busy [of "t_queue ?u" "t_app ?u"] r by auto
  moreover have "same_act a (refresh E' [] a)" for E' :: "'a ui_env"
    by (rule same_act_refresh) (simp add: drain_actions_def)
  ultimately have "\<not> app_busy (t_app ?v)"
    by (simp add: ui_round_def round_end_def r Let_def same_act_def)
  then show ?thesis using d(2,3) by (intro exI [of _ "is"] exI [of _ ?n]) (simp add: tui_step_def)
qed

section \<open>Nothing is cleared without a confirmation\<close>

definition destructive :: "job \<Rightarrow> bool" where
  "destructive j = (case j of
     JFactoryReset \<Rightarrow> True | JUnpair \<Rightarrow> True | JSlotClear _ \<Rightarrow> True | JKeyDelete _ _ \<Rightarrow> True | JDelete _ \<Rightarrow> True
   | _ \<Rightarrow> False)"

text \<open>
  What the user has seen and pressed when such a job starts: the prompt of the host action with a \<open>y\<close>,
  that of the key with a \<open>y\<close> or Enter, or the choice of the finger with its digit.
\<close>

definition confirmed :: "app \<Rightarrow> key \<Rightarrow> job \<Rightarrow> bool" where
  "confirmed a k j =
     (let yes = (k = KChar ''y'' \<or> k = KChar ''Y'') in case j of
        JFactoryReset \<Rightarrow> yes \<and> app_mode a = ModeHostConfirm \<and> app_pending_host a = Some FactoryReset
      | JSlotClear slot \<Rightarrow> yes \<and> app_mode a = ModeHostConfirm \<and> app_pending_host a = Some (UnpairSlot slot) \<and>
          app_slot_mine a \<noteq> Some slot
      | JUnpair \<Rightarrow> yes \<and> app_mode a = ModeHostConfirm \<and> (app_pending_host a = Some UnpairSelf \<or>
          (\<exists>slot. app_pending_host a = Some (UnpairSlot slot) \<and> app_slot_mine a = Some slot))
      | JKeyDelete t idx \<Rightarrow> (yes \<or> k = KEnter) \<and> app_mode a = ModeKeyDeleteConfirm \<and> app_pending_delete a = Some (t, idx)
      | JDelete slot \<Rightarrow> app_mode a = ModeDeleteSelect \<and> slot \<le> SWITCH_FINGER_SLOT \<and>
          (\<exists>c. k = KChar [c] \<and> is_digit c \<and> slot = of_nat (digit_val c))
      | _ \<Rightarrow> True)"

definition harmless :: "job list \<Rightarrow> bool" where
  "harmless js \<longleftrightarrow> list_all (\<lambda>j. \<not> destructive j) js"

lemma harmless_simps [simp]:
  "harmless []" "harmless (j # js) \<longleftrightarrow> \<not> destructive j \<and> harmless js" "harmless (js @ js') \<longleftrightarrow> harmless js \<and> harmless js'"
  by (simp_all add: harmless_def)

lemma destructive_simps [simp]:
  "\<not> destructive JPair" "\<not> destructive (JPairPoller b)" "\<not> destructive (JEnroll s)" "\<not> destructive JEnrollCancel"
  "\<not> destructive JVerify" "\<not> destructive (JSetting nm ky en nt)" "\<not> destructive (JKeyAdd cat nm sv sec)"
  "\<not> destructive (JShowApi nm)" "\<not> destructive (JKeyGenerate nm)" "\<not> destructive (JKeyOtp nm)"
  "\<not> destructive JFwPrepare" "\<not> destructive (JFwPush p)" "\<not> destructive JLogReader" "\<not> destructive JFwSilentCheck"
  by (simp_all add: destructive_def)

lemma harmless_with_paired: "(\<And>b. harmless (snd (act b))) \<Longrightarrow> harmless (snd (with_paired act a))"
  by (simp add: with_paired_def guard_paired_def)

lemma harmless_enroll:
  "harmless (snd (action_enroll slot a))" "harmless (snd (enroll_auth_finger a))" "harmless (snd (auto_enroll a))"
  "harmless (snd (enroll_kind_pick c a))" "harmless (snd (action_enroll_cancel a))"
proof -
  show e: "harmless (snd (action_enroll slot a))" for slot a by (simp add: action_enroll_def Let_def)
  show f: "harmless (snd (enroll_auth_finger a))" for a by (simp add: enroll_auth_finger_def e split: option.split)
  show "harmless (snd (auto_enroll a))"
    unfolding auto_enroll_def by (rule harmless_with_paired) (simp add: not_connected_def f)
  show "harmless (snd (enroll_kind_pick c a))" by (simp add: enroll_kind_pick_def e f)
  show "harmless (snd (action_enroll_cancel a))" by (simp add: action_enroll_cancel_def)
qed

lemma harmless_pages:
  "harmless (snd (action_pair a))" "harmless (snd (enter_delete_select a))" "harmless (snd (action_verify a))"
  "harmless (snd (action_toggle sk a))" "harmless (snd (enter_key_add a))" "harmless (snd (enter_key_delete_confirm a))"
  "harmless (snd (action_key_show_pubkey a))" "harmless (snd (action_key_generate nm a))"
  "harmless (snd (fw_recheck a))" "harmless (snd (fw_start_update a))"
  by (auto simp: action_pair_def enter_delete_select_def action_verify_def action_toggle_def Let_def
      toggle_setting_with_note_def enter_key_add_def enter_key_delete_confirm_def action_key_show_pubkey_def
      action_key_generate_def fw_recheck_def fw_start_update_def not_connected_def
      split: setting_key.split option.split intro!: harmless_with_paired)

lemma harmless_fetch: "(\<And>nm. \<not> destructive (mk nm)) \<Longrightarrow> harmless (snd (fetch_secret t m1 m2 h mk a))"
  unfolding fetch_secret_def by (rule harmless_with_paired) (simp add: not_connected_def split: option.split)

lemma harmless_tabs: "harmless (snd (set_tab E t a))" "harmless (snd (fw_enter E a))"
proof -
  have l: "harmless (snd (start_log_stream E b))" for b by (simp add: start_log_stream_def split: result.split)
  show s: "harmless (snd (set_tab E t a))" for t
  proof (cases t)
    case TabLogs
    then show ?thesis using l [of "(if app_tab a = TabLogs then stop_log_stream a else a)\<lparr> app_tab := t, app_mode := ModeNormal \<rparr>"]
      by (auto simp: set_tab_def Let_def simp del: if_split split: prod.split if_splits)
  qed (simp_all add: set_tab_def Let_def)
  show "harmless (snd (fw_enter E a))"
    using s [of TabFirmware] harmless_pages(9)
    by (cases "set_tab E TabFirmware a") (simp add: fw_enter_def split: fw_state.split)
qed

lemma harmless_submit: "input_submit_key a = Some r \<Longrightarrow> harmless (snd r)"
  by (auto simp: input_submit_key_def Let_def action_key_add_def harmless_pages
      split: option.splits key_input_stage.splits if_splits result.splits)

lemma harmless_if: "harmless (ko_jobs x) \<Longrightarrow> harmless (ko_jobs y) \<Longrightarrow> harmless (ko_jobs (if c then x else y))"
  by simp

lemma harmless_asks_pam: "harmless (ko_jobs (asks_pam req a))"
  by (simp add: asks_pam_def guard_paired_def split: prod.split)

lemmas harmless_facts = harmless_enroll harmless_pages harmless_fetch harmless_tabs harmless_asks_pam
  action_key_otp_def action_key_show_api_def

lemma harmless_page_keys:
  "harmless (ko_jobs (dashboard_key E k a))" "harmless (ko_jobs (keys_key E k a))" "harmless (ko_jobs (pam_key E k a))"
  "harmless (ko_jobs (logs_key E k a))" "harmless (ko_jobs (firmware_key E k a))"
  unfolding dashboard_key_def keys_key_def pam_key_def logs_key_def firmware_key_def
  by (intro harmless_if; simp add: harmless_facts)+

lemma harmless_normal: "harmless (ko_jobs (normal_key E k a))"
  unfolding normal_key_def
  by (intro harmless_if; simp add: harmless_facts harmless_page_keys split: tab.split)

lemma harmless_confirmed: "harmless js \<Longrightarrow> j \<in> set js \<Longrightarrow> confirmed a k j"
  by (cases j) (auto simp: harmless_def list_all_iff destructive_def confirmed_def)

lemma confirm_host_jobs:
  assumes "j \<in> set (snd (confirm_host_action a))" "app_mode a = ModeHostConfirm" "k = KChar ''y'' \<or> k = KChar ''Y''"
  shows "confirmed a k j"
  using assms
  by (auto simp: confirm_host_action_def Let_def action_unpair_def action_slot_clear_def action_factory_reset_def
      action_enroll_def confirmed_def split: option.splits host_action.splits if_splits)

lemma confirmed_key:
  assumes "handle_key E k a = Some out" "j \<in> set (ko_jobs out)"
  shows "confirmed a k j"
proof (cases "app_mode a")
  case ModeNormal
  then show ?thesis using assms harmless_confirmed [OF harmless_normal]
    by (auto simp: handle_key_def split: if_splits)
next
  case ModeKeyInput
  then show ?thesis using assms harmless_confirmed [OF harmless_submit]
    by (auto simp: handle_key_def key_input_key_def split: if_splits key.splits)
next
  case ModeKeyDeleteConfirm
  then show ?thesis using assms
    by (auto simp: handle_key_def key_delete_key_def confirm_key_delete_def Let_def confirmed_def
        split: if_splits option.splits)
next
  case ModeEnrollKindSelect
  then show ?thesis using assms harmless_confirmed [OF harmless_enroll(4)]
    by (auto simp: handle_key_def enroll_kind_key_def split: if_splits key.splits)
next
  case ModeDeleteSelect
  then show ?thesis using assms
    by (auto simp: handle_key_def delete_select_key_def action_delete_def confirmed_def
        split: if_splits key.splits list.splits)
next
  case ModeHostConfirm
  then show ?thesis using assms confirm_host_jobs [OF _ ModeHostConfirm]
    by (auto simp: handle_key_def host_confirm_key_def split: if_splits)
next
  case ModeHelp
  then show ?thesis using assms by (auto simp: handle_key_def help_key_def split: if_splits)
next
  case ModeHostMenu
  then show ?thesis using assms by (auto simp: handle_key_def host_menu_key_def split: if_splits key.splits)
qed

definition all_confirmed :: "tui \<Rightarrow> bool" where
  "all_confirmed t \<longleftrightarrow> (\<forall>(a, k, j)\<in>set (t_started t). confirmed a k j)"

lemma started_kept [simp]:
  "t_started (round_end R t) = t_started t" "t_started (after_pam R req t) = t_started t"
  "t_started (shutdown t) = t_started t" "t_started (worker_sends i t) = t_started t"
  by (simp_all add: round_end_def after_pam_def shutdown_def worker_sends_def Let_def
      split: prod.split option.split list.split)

interpretation tui_confirm: event_machine tui_step all_confirmed
proof unfold_locales
  fix t e
  assume t: "all_confirmed t"
  show "all_confirmed (tui_step e t)"
  proof (cases e)
    case (UiRound R ko)
    show ?thesis
    proof (cases "Option.bind ko (\<lambda>k. handle_key (re_ui R) k (t_app t))")
      case None
      then show ?thesis using t UiRound
        by (cases ko) (auto simp: tui_step_def ui_round_def all_confirmed_def)
    next
      case (Some out)
      then obtain k where k: "ko = Some k" "handle_key (re_ui R) k (t_app t) = Some out" by (cases ko) auto
      have "all_confirmed (start_jobs R (t_app t) k (ko_jobs out) (t\<lparr> t_app := ko_app out \<rparr>))"
        using t confirmed_key [OF k(2)] by (auto simp: all_confirmed_def start_jobs_def)
      then show ?thesis using ui_round_key [OF k(2)] t UiRound k(1)
        by (auto simp: tui_step_def all_confirmed_def)
    qed
  qed (use t in \<open>simp add: tui_step_def all_confirmed_def\<close>)
qed

text \<open>
  C31: whatever keys are pressed and whatever the daemon answers, a request that clears a host slot, resets
  the device, or deletes a key or a finger is only sent when exactly that action was staged and the
  key that confirms it was pressed in its prompt; Enter never confirms a host action.
\<close>

theorem destructive_jobs_confirmed:
  "list_all (\<lambda>(a, k, j). confirmed a k j) (t_started (fold tui_step es (tui_start E JE)))"
  using tui_confirm.run_inv [of "tui_start E JE" es] by (simp add: all_confirmed_def tui_start_def list_all_iff)

end
