(* ===== verification/Tui_Behaviour.thy ===== *)
theory Tui_Behaviour
  imports Tui_Runs
begin

text \<open>
  Behaviour of the terminal UI against the daemon and the device: what a refresh shows, and the runs in
  which the UI does not do what its comments say.
\<close>

section \<open>A firmware update during another action\<close>

text \<open>A daemon that is down, and an update check that finds an update.\<close>

definition daemon_down :: "unit ui_env" where
  "daemon_down = \<lparr> ue_send = (\<lambda>_. Err []), ue_json = no_json, ue_uid = 1000, ue_pam = Map.empty, ue_log = Err [] \<rparr>"

definition some_update :: prepared_update where
  "some_update = \<lparr> prep_device = ''1.6.0'', prep_target = ''1.7.0'', prep_notes = None, prep_hops = [], prep_resumed = False \<rparr>"

definition update_jobs :: job_env where
  "update_jobs = \<lparr> je_hex = (\<lambda>_. []), je_reply = (\<lambda>_ _. Err []), je_polls = 0, je_silent = None,
     je_prepare = Ok (Some some_update), je_push = ([], Ok ()), je_lines = [] \<rparr>"

definition plain_round :: "nat \<Rightarrow> unit round_env" where
  "plain_round n = \<lparr> re_ui = daemon_down, re_jobs = update_jobs, re_pam_ok = True, re_taken = n, re_poll_due = False \<rparr>"

abbreviation press :: "key \<Rightarrow> unit tui_event" where
  "press k \<equiv> UiRound (plain_round 0) (Some k)"

definition overlap_run :: "unit tui_event list" where
  "overlap_run = [press (KChar ''u''), press (KChar ''y''), press (KChar ''5''), WorkerSends 2,
     UiRound (plain_round 1) None]"

lemma press_step:
  assumes "handle_key daemon_down k (t_app t) = Some (does (a, js))" "\<not> t_quit t" "\<not> t_panic t" "k \<noteq> KCtrlC"
  shows "tui_step (press k) t = start_jobs (plain_round 0) (t_app t) k js (t\<lparr> t_app := a \<rparr>)"
  using assms
  by (simp add: tui_step_def ui_round_def plain_round_def after_pam_def round_end_def drain_actions_def start_jobs_def
      does_def Let_def)

lemma down_refresh [simp]: "refresh daemon_down q a = (fst (drain_actions q a))\<lparr> app_daemon_ok := False, app_connected := False \<rparr>"
  by (simp add: refresh_def daemon_down_def)

lemma does_inject [simp]: "does r = does q \<longleftrightarrow> r = q"
  by (auto simp: does_def prod_eq_iff)

text \<open>The fields these runs depend on.\<close>

definition calm :: "mode \<Rightarrow> host_action option \<Rightarrow> tab \<Rightarrow> bool \<Rightarrow> fw_state \<Rightarrow> prepared_update option \<Rightarrow> app \<Rightarrow> bool" where
  "calm m h tb bz fw prep a \<longleftrightarrow> app_mode a = m \<and> app_pending_host a = h \<and> app_tab a = tb \<and> app_busy a = bz \<and>
     app_fw_state a = fw \<and> app_fw_prepared a = prep \<and> \<not> app_log_open a"

lemma calm_unpair_key:
  assumes "calm ModeNormal h TabDashboard False fw prep a"
  shows "handle_key E (KChar ''u'') a = Some (does (request_unpair_self a, [])) \<and>
    calm ModeHostConfirm (Some UnpairSelf) TabDashboard False fw prep (request_unpair_self a)"
  using assms by (simp add: calm_def handle_key_def normal_key_def dashboard_key_def only_def request_unpair_self_def
      stage_host_action_def Let_def)

lemma calm_confirm_key:
  assumes "calm ModeHostConfirm (Some UnpairSelf) TabDashboard False fw prep a"
  shows "\<exists>b. handle_key E (KChar ''y'') a = Some (does (b, [JUnpair])) \<and> calm ModeNormal None TabDashboard True fw prep b"
  using assms by (simp add: calm_def handle_key_def host_confirm_key_def confirm_host_action_def action_unpair_def)

lemma calm_firmware_key:
  assumes "calm ModeNormal None TabDashboard True FwIdle None a"
  shows "\<exists>b. handle_key E (KChar ''5'') a = Some (does (b, [JFwPrepare])) \<and> calm ModeNormal None TabFirmware True FwChecking None b"
  using assms by (simp add: calm_def handle_key_def normal_key_def fw_enter_def set_tab_def Let_def fw_recheck_def
      fw_updating_def stop_log_stream_def set_msg_dim_def)

lemma calm_results:
  "calm m h tb bz fw prep a \<Longrightarrow>
   calm m h tb bz FwReady (Some p) (fst (drain_actions [AFwPrepared (Ok (Some p))] a)) \<and>
   \<not> snd (drain_actions [AFwPrepared (Ok (Some p))] a)"
  by (simp add: calm_def drain_actions_def apply_result_def)

lemma calm_start: "calm ModeNormal None TabDashboard False FwIdle None (t_app (tui_start daemon_down JE))"
  by (simp add: tui_start_def calm_def drain_actions_def app_new_def)

text \<open>After two keys an unpairing is under way.\<close>

lemma unpair_started:
  "let t = fold tui_step [press (KChar ''u''), press (KChar ''y'')] (tui_start daemon_down update_jobs) in
     app_busy (t_app t) \<and> map (\<lambda>(_, _, j). j) (t_started t) = [JUnpair] \<and> \<not> t_quit t \<and> \<not> t_panic t"
proof -
  let ?t0 = "tui_start daemon_down update_jobs"
  define t1 where "t1 = tui_step (press (KChar ''u'')) ?t0"
  have t1: "t1 = ?t0\<lparr> t_app := request_unpair_self (t_app ?t0) \<rparr>"
    and c1: "calm ModeHostConfirm (Some UnpairSelf) TabDashboard False FwIdle None (t_app t1)"
    using calm_unpair_key [OF calm_start, of daemon_down] by (simp_all add: t1_def press_step start_jobs_def tui_start_def)
  obtain a2 where h2: "handle_key daemon_down (KChar ''y'') (t_app t1) = Some (does (a2, [JUnpair]))"
    and c2: "calm ModeNormal None TabDashboard True FwIdle None a2" using calm_confirm_key [OF c1] by blast
  have "fold tui_step [press (KChar ''u''), press (KChar ''y'')] ?t0 = tui_step (press (KChar ''y'')) t1"
    by (simp add: t1_def)
  then show ?thesis using h2 c2 by (simp add: press_step t1 start_jobs_def tui_start_def calm_def)
qed

theorem one_action_at_a_time_witness:
  "pend (fold tui_step [press (KChar ''u''), press (KChar ''y'')] (tui_start daemon_down update_jobs)) = 1"
  using one_action_at_a_time [of "[press (KChar ''u''), press (KChar ''y'')]" daemon_down update_jobs] unpair_started
  by (auto simp: no_push_def Let_def dest: arg_cong [where f = set])

theorem actions_end_witness:
  "\<exists>is n. \<not> app_busy (t_app (fold tui_step (map WorkerSends is @ [UiRound ((plain_round 0)\<lparr> re_taken := n \<rparr>) None])
     (fold tui_step [press (KChar ''u''), press (KChar ''y'')] (tui_start daemon_down update_jobs))))"
  by (rule actions_end) (use unpair_started in \<open>unfold Let_def, blast\<close>)

text \<open>The results of a worker that is left alone arrive in their order.\<close>

lemma worker_sends_all:
  fixes t :: tui
  assumes "\<not> t_quit t" "\<not> t_panic t" "i < length (t_workers t)" "t_workers t ! i = (j, rs @ rest)"
  shows "fold tui_step (replicate (length rs) (WorkerSends i :: 'j tui_event)) t =
    t\<lparr> t_workers := (t_workers t)[i := (j, rest)], t_queue := t_queue t @ rs \<rparr>"
  using assms
proof (induction rs arbitrary: t)
  case Nil
  then have "(t_workers t)[i := (j, rest)] = t_workers t" by (metis append_Nil list_update_id)
  then show ?case by simp
next
  case (Cons r rs)
  let ?t = "tui_step (WorkerSends i :: 'j tui_event) t"
  have "?t = t\<lparr> t_workers := (t_workers t)[i := (j, rs @ rest)], t_queue := t_queue t @ [r] \<rparr>"
    using Cons.prems by (simp add: tui_step_def worker_sends_def get_at_def)
  then show ?case using Cons.IH [of ?t] Cons.prems by simp
qed

lemma take_fw_state [simp]:
  "app_fw_state (take_status rsp a) = app_fw_state a" "app_fw_state (take_pair_status r a) = app_fw_state a"
  "app_fw_state (take_bitmap r a) = app_fw_state a" "app_fw_state (take_slots r a) = app_fw_state a"
  "app_fw_state (take_settings r a) = app_fw_state a" "app_fw_state (take_pam dir a) = app_fw_state a"
  "app_fw_state (refresh_keys E a) = app_fw_state a"
  by (simp_all add: take_status_def take_pair_status_def take_bitmap_def take_slots_def take_settings_def take_pam_def
      refresh_keys_def clamp_key_cursor_def Let_def split: result.split list.split option.split slot_status.split)

lemma refresh_fw_state: "app_fw_state (refresh E [] a) = app_fw_state a"
  by (simp add: refresh_def drain_actions_def Let_def split: result.split)

lemma refresh_busy: "app_busy (refresh E [] a) = app_busy a"
  using same_act_refresh [of a "[]" a E] by (simp add: drain_actions_def same_act_def)

definition leaves_update :: "action_result \<Rightarrow> bool" where
  "leaves_update r \<longleftrightarrow> (case r of AFwPrepared _ \<Rightarrow> False | AFwProgress _ _ _ _ \<Rightarrow> False | AFwFinished _ \<Rightarrow> False | _ \<Rightarrow> True)"

lemma leaves_update_step: "leaves_update r \<Longrightarrow> app_fw_state (fst (apply_result r s)) = app_fw_state (fst s)"
  by (cases s; cases r) (simp_all add: leaves_update_def apply_result_def set_msg_prompt_def)

lemma leaves_update_fw_state: "list_all leaves_update rs \<Longrightarrow> app_fw_state (fst (fold apply_result rs s)) = app_fw_state (fst s)"
  by (induction rs arbitrary: s) (simp_all add: leaves_update_step)

lemma drain_action_end:
  assumes "list_all leaves_update rs"
  shows "\<not> app_busy (fst (drain_actions (rs @ [ADone]) a)) \<and>
    app_fw_state (fst (drain_actions (rs @ [ADone]) a)) = app_fw_state a"
proof -
  obtain b f where r: "fold apply_result rs (a, False) = (b, f)" by (metis surj_pair)
  then show ?thesis
    using leaves_update_fw_state [OF assms, of "(a, False)"] by (simp add: drain_actions_def apply_result_def)
qed

text \<open>
  C35: the firmware page does not look at \<open>busy\<close>: on that page, with an update prepared and whatever
  action is running in a thread, Enter starts the push of the update beside it; and when the action has
  sent the rest of its results, the last of which is \<open>Done\<close>, the next round marks the UI as idle although
  the update is still being pushed.
\<close>

theorem update_overlaps_action:
  fixes R R' :: "'j round_env"
  assumes "\<not> t_quit t" "\<not> t_panic t" "t_queue t = []"
    "app_mode (t_app t) = ModeNormal" "app_tab (t_app t) = TabFirmware" "app_fw_state (t_app t) = FwReady"
    "app_fw_prepared (t_app t) = Some p" "i < length (t_workers t)" "t_workers t ! i = (j, rs @ [ADone])"
    "list_all leaves_update rs" "length rs < re_taken R'"
  shows "let t1 = tui_step (UiRound R (Some KEnter)) t;
      t2 = fold tui_step (replicate (length rs + 1) (WorkerSends i) @ [UiRound R' None]) t1;
      push = (JFwPush p, job_trace (re_jobs R) (JFwPush p)) in
    t_workers t1 = t_workers t @ [push] \<and> app_busy (t_app t1) \<and> fw_updating (t_app t1) \<and>
    t_workers t2 = (t_workers t)[i := (j, [])] @ [push] \<and> \<not> app_busy (t_app t2) \<and> fw_updating (t_app t2)"
proof -
  let ?t1 = "tui_step (UiRound R (Some KEnter)) t" and ?push = "(JFwPush p, job_trace (re_jobs R) (JFwPush p))"
  obtain b where h: "handle_key (re_ui R) KEnter (t_app t) = Some (does (b, [JFwPush p]))"
    and b: "app_busy b" "fw_updating b"
    using assms(4-7) by (simp add: handle_key_def normal_key_def firmware_key_def fw_start_update_def fw_updating_def)
  have t1: "t_app ?t1 = b" "t_queue ?t1 = []" "t_workers ?t1 = t_workers t @ [?push]" "\<not> t_quit ?t1" "\<not> t_panic ?t1"
    using assms(1-3) h b by (simp_all add: tui_step_def ui_round_def after_pam_def round_end_def drain_actions_def
        start_jobs_def does_def Let_def)
  let ?u = "fold tui_step (replicate (length rs + 1) (WorkerSends i :: 'j tui_event)) ?t1"
  have u: "?u = ?t1\<lparr> t_workers := (t_workers ?t1)[i := (j, [])], t_queue := rs @ [ADone] \<rparr>"
    using worker_sends_all [of ?t1 i j "rs @ [ADone]" "[]"] t1 assms(8,9) by (simp add: nth_append)
  obtain a f where d: "drain_actions (rs @ [ADone]) b = (a, f)" by (metis surj_pair)
  have a: "\<not> app_busy a" "fw_updating a"
    using drain_action_end [OF assms(10), of b] b by (simp_all add: d fw_updating_def)
  have "fold tui_step (replicate (length rs + 1) (WorkerSends i) @ [UiRound R' None]) ?t1 = round_end R' ?u"
    using t1 u by (simp add: tui_step_def ui_round_def)
  moreover have "t_workers (round_end R' ?u) = (t_workers t)[i := (j, [])] @ [?push]"
    using t1 assms(8,11) unfolding u by (simp add: round_end_def d list_update_append Let_def)
  moreover have "\<not> app_busy (t_app (round_end R' ?u)) \<and> fw_updating (t_app (round_end R' ?u))"
    using t1 a assms(11) unfolding u by (simp add: round_end_def d Let_def refresh_busy refresh_fw_state fw_updating_def)
  ultimately show ?thesis using t1 b by (simp add: Let_def)
qed

text \<open>The run of the witness: an unpairing, started and confirmed, with an update found meanwhile.\<close>

theorem update_overlaps_action_witness:
  "\<exists>es. let t = fold tui_step (es @ [press KEnter]) (tui_start daemon_down update_jobs);
      u = fold tui_step (replicate 3 (WorkerSends 1) @ [UiRound (plain_round 3) None]) t in
    map fst (t_workers t) = [JFwSilentCheck, JUnpair, JFwPrepare, JFwPush some_update] \<and> app_busy (t_app t) \<and>
    \<not> app_busy (t_app u) \<and> fw_updating (t_app u)"
proof -
  let ?t0 = "tui_start daemon_down update_jobs"
  let ?tr = "job_trace update_jobs"
  define t1 where "t1 = tui_step (press (KChar ''u'')) ?t0"
  define t2 where "t2 = tui_step (press (KChar ''y'')) t1"
  define t3 where "t3 = tui_step (press (KChar ''5'')) t2"
  define t4 where "t4 = tui_step (WorkerSends 2 :: unit tui_event) t3"
  define t5 where "t5 = tui_step (UiRound (plain_round 1) None) t4"
  note st = start_jobs_def
  have jobs: "re_jobs (plain_round n) = update_jobs" "re_ui (plain_round n) = daemon_down" "re_taken (plain_round n) = n"
    "\<not> re_poll_due (plain_round n)" for n by (simp_all add: plain_round_def)
  obtain q1 where t1: "t1 = ?t0\<lparr> t_app := request_unpair_self (t_app ?t0), t_started := q1 \<rparr>"
    and c1: "calm ModeHostConfirm (Some UnpairSelf) TabDashboard False FwIdle None (t_app t1)"
    using calm_unpair_key [OF calm_start, of daemon_down] by (simp add: t1_def press_step st tui_start_def)
  obtain a2 where h2: "handle_key daemon_down (KChar ''y'') (t_app t1) = Some (does (a2, [JUnpair]))"
    and c2: "calm ModeNormal None TabDashboard True FwIdle None a2" using calm_confirm_key [OF c1] by blast
  have t2: "t_app t2 = a2" "t_queue t2 = []" "t_workers t2 = t_workers ?t0 @ [(JUnpair, ?tr JUnpair)]" "\<not> t_quit t2" "\<not> t_panic t2"
    using h2 by (simp_all add: t2_def press_step t1 st jobs tui_start_def)
  obtain a3 where h3: "handle_key daemon_down (KChar ''5'') (t_app t2) = Some (does (a3, [JFwPrepare]))"
    and c3: "calm ModeNormal None TabFirmware True FwChecking None a3" using calm_firmware_key [OF c2] t2 by auto
  have t3: "t_app t3 = a3" "t_queue t3 = []" "t_workers t3 = t_workers t2 @ [(JFwPrepare, ?tr JFwPrepare)]" "\<not> t_quit t3" "\<not> t_panic t3"
    using h3 t2 by (simp_all add: t3_def press_step st jobs)
  have prep: "?tr JFwPrepare = [AFwPrepared (Ok (Some some_update))]" by (simp add: job_trace_def update_jobs_def)
  have w0: "t_workers ?t0 = [(JFwSilentCheck, ?tr JFwSilentCheck)]" by (simp add: tui_start_def)
  have t4: "t_app t4 = a3" "t_queue t4 = [AFwPrepared (Ok (Some some_update))]"
    "t_workers t4 = t_workers t2 @ [(JFwPrepare, [])]" "\<not> t_quit t4" "\<not> t_panic t4"
    using t3 t2 w0 prep by (simp_all add: t4_def tui_step_def worker_sends_def get_at_def)
  obtain a5 where d5: "drain_actions [AFwPrepared (Ok (Some some_update))] a3 = (a5, False)"
    and c5: "calm ModeNormal None TabFirmware True FwReady (Some some_update) a5"
    using calm_results [OF c3, of some_update] by (metis prod.collapse)
  have t5: "t_app t5 = a5" "t_queue t5 = []" "t_workers t5 = t_workers t4" "\<not> t_quit t5" "\<not> t_panic t5"
    using t4 d5 by (simp_all add: t5_def tui_step_def ui_round_def round_end_def jobs)
  have un: "?tr JUnpair = [unpair_report (Err []), ARefresh] @ [ADone]"
    by (simp add: job_trace_def update_jobs_def job_end_def)
  have q: "list_all leaves_update [unpair_report (Err []), ARefresh]" by (simp add: leaves_update_def unpair_report_def)
  have w: "t_workers t5 = [(JFwSilentCheck, ?tr JFwSilentCheck), (JUnpair, ?tr JUnpair), (JFwPrepare, [])]"
    using t5 t4 t2 w0 by simp
  have t: "fold tui_step overlap_run ?t0 = t5"
    by (simp add: overlap_run_def t1_def t2_def t3_def t4_def t5_def)
  have c: "app_mode (t_app t5) = ModeNormal" "app_tab (t_app t5) = TabFirmware" "app_fw_state (t_app t5) = FwReady"
    "app_fw_prepared (t_app t5) = Some some_update" using c5 t5 by (simp_all add: calm_def)
  have i: "1 < length (t_workers t5)" "t_workers t5 ! 1 = (JUnpair, [unpair_report (Err []), ARefresh] @ [ADone])"
    "length [unpair_report (Err []), ARefresh] < re_taken (plain_round 3)"
    using w un by (simp_all add: plain_round_def)
  show ?thesis
    using update_overlaps_action [OF t5(4,5,2) c i(1,2) q i(3), of "plain_round 0"] w
    by (intro exI [of _ overlap_run]) (simp add: t Let_def numeral_3_eq_3)
qed

section \<open>What a refresh shows\<close>

lemma drained_key_fields [simp]:
  "app_connected (refresh_keys E a) = app_connected a" "app_battery (refresh_keys E a) = app_battery a"
  "app_fw_version (refresh_keys E a) = app_fw_version a" "app_paired (refresh_keys E a) = app_paired a"
  "app_fp_bitmap (refresh_keys E a) = app_fp_bitmap a" "app_settings (refresh_keys E a) = app_settings a"
  "app_slot_active (refresh_keys E a) = app_slot_active a" "app_device_unpaired (refresh_keys E a) = app_device_unpaired a"
  "app_dual_host (refresh_keys E a) = app_dual_host a" "app_slot_bitmap (refresh_keys E a) = app_slot_bitmap a"
  "app_slot_mine (refresh_keys E a) = app_slot_mine a" "app_daemon_ok (refresh_keys E a) = app_daemon_ok a"
  by (simp_all add: refresh_keys_def Let_def clamp_key_cursor_def)

lemma take_slots_fields [simp]:
  "app_connected (take_slots r a) = app_connected a" "app_battery (take_slots r a) = app_battery a"
  "app_fw_version (take_slots r a) = app_fw_version a" "app_paired (take_slots r a) = app_paired a"
  "app_fp_bitmap (take_slots r a) = app_fp_bitmap a" "app_settings (take_slots r a) = app_settings a"
  "app_device_unpaired (take_slots r a) = app_device_unpaired a" "app_daemon_ok (take_slots r a) = app_daemon_ok a"
  by (simp_all add: take_slots_def Let_def split: option.split slot_status.split)

lemma take_settings_fields [simp]:
  "app_connected (take_settings r a) = app_connected a" "app_battery (take_settings r a) = app_battery a"
  "app_fw_version (take_settings r a) = app_fw_version a" "app_paired (take_settings r a) = app_paired a"
  "app_fp_bitmap (take_settings r a) = app_fp_bitmap a" "app_slot_active (take_settings r a) = app_slot_active a"
  "app_device_unpaired (take_settings r a) = app_device_unpaired a" "app_dual_host (take_settings r a) = app_dual_host a"
  "app_slot_bitmap (take_settings r a) = app_slot_bitmap a" "app_slot_mine (take_settings r a) = app_slot_mine a"
  "app_daemon_ok (take_settings r a) = app_daemon_ok a"
  by (simp_all add: take_settings_def split: result.split list.split)

lemma take_bitmap_fields [simp]:
  "app_connected (take_bitmap r a) = app_connected a" "app_battery (take_bitmap r a) = app_battery a"
  "app_fw_version (take_bitmap r a) = app_fw_version a" "app_paired (take_bitmap r a) = app_paired a"
  "app_settings (take_bitmap r a) = app_settings a" "app_device_unpaired (take_bitmap r a) = app_device_unpaired a"
  "app_daemon_ok (take_bitmap r a) = app_daemon_ok a" "app_slot_poll_tick (take_bitmap r a) = app_slot_poll_tick a"
  by (simp_all add: take_bitmap_def Let_def split: result.split)

lemma take_pair_fields [simp]:
  "app_connected (take_pair_status r a) = app_connected a" "app_battery (take_pair_status r a) = app_battery a"
  "app_fw_version (take_pair_status r a) = app_fw_version a" "app_settings (take_pair_status r a) = app_settings a"
  "app_device_unpaired (take_pair_status r a) = app_device_unpaired a" "app_daemon_ok (take_pair_status r a) = app_daemon_ok a"
  "app_slot_poll_tick (take_pair_status r a) = app_slot_poll_tick a"
  by (simp_all add: take_pair_status_def split: result.split)

lemma shown_status:
  assumes "CHR '':'' \<notin> set (case device_status c of Some s \<Rightarrow> fw_version s | None \<Rightarrow> [])"
  shows "take_status (trim (serialize_response (handle_status c))) a =
    a\<lparr> app_connected := is_connected c,
       app_device_name := (case device_status c of Some _ \<Rightarrow> ''immurok'' | None \<Rightarrow> []),
       app_battery := (case device_status c of Some s \<Rightarrow> battery s | None \<Rightarrow> 0),
       app_fw_version := (case device_status c of Some s \<Rightarrow> fw_version s | None \<Rightarrow> []),
       app_device_unpaired := device_reports_unpaired c \<rparr>"
proof -
  have "parse_u8 (show_nat 0) = Ok 0" using parse_u8_show [of 0] by simp
  then show ?thesis
    using assms
    by (auto simp: shown_line_def handle_status_def take_status_def status_line_parts get_at_def split: option.split)
qed

lemma shown_pairing: "app_paired (take_pair_status (shown_line (handle_pair_status c)) a) = (pairing c \<noteq> None)"
proof -
  have "trim ''OK:PAIRED'' = ''OK:PAIRED''" "trim ''OK:UNPAIRED'' = ''OK:UNPAIRED''"
    by (rule trim_graphic; simp add: graphic_def)+
  then show ?thesis
    by (simp add: take_pair_status_def shown_line_def handle_pair_status_def serialize_response_def
        starts_with_def split: option.split)
qed

lemma shown_bitmap: "app_fp_bitmap (take_bitmap (shown_line (ROk (show_word b))) a) = (if app_connected a then b else 0)"
proof -
  have "trim (''OK:'' @ show_word b) = ''OK:'' @ show_word b"
    using trim_ok_line [of "show_word b"] show_nat_last_graphic [of "unat b"] by simp
  moreover have "split_on CHR '':'' (''OK:'' @ show_word b) = [''OK'', show_word b]"
    using split_on_join [of "[''OK'', show_word b]" "CHR '':''"] by (simp add: join_Cons)
  ultimately show ?thesis
    by (simp add: take_bitmap_def shown_line_def serialize_response_def get_at_def)
qed

lemma shown_settings: "app_settings (take_settings (shown_line (handle_get_settings c)) a) = settings_view (settings c)"
  by (simp add: take_settings_def shown_line_def settings_line_parts setting_parts_def settings_field_def settings_view_def)

text \<open>
  C36: a refresh shows the daemon: whatever the application showed before and whatever results wait,
  after a refresh against a daemon in state \<open>c\<close> the connection, the battery, the firmware version, the
  pairing, the fingerprints and the settings on the screen are those of the daemon.
\<close>

theorem refresh_shows_daemon:
  assumes "CHR '':'' \<notin> set (case device_status c of Some s \<Rightarrow> fw_version s | None \<Rightarrow> [])"
    and "ue_send E ''STATUS'' = shown_line (handle_status c)"
    and "ue_send E ''PAIR:STATUS'' = shown_line (handle_pair_status c)"
    and "ue_send E ''FP:LIST'' = shown_line (ROk (show_word b))"
    and "ue_send E ''GET:SETTINGS'' = shown_line (handle_get_settings c)"
  shows "let a' = refresh E q a in
    app_daemon_ok a' \<and> app_connected a' = is_connected c \<and>
    app_battery a' = (case device_status c of Some s \<Rightarrow> battery s | None \<Rightarrow> 0) \<and>
    app_fw_version a' = (case device_status c of Some s \<Rightarrow> fw_version s | None \<Rightarrow> []) \<and>
    app_device_unpaired a' = device_reports_unpaired c \<and>
    app_paired a' = (pairing c \<noteq> None) \<and>
    app_fp_bitmap a' = (if is_connected c then b else 0) \<and>
    app_settings a' = settings_view (settings c)"
proof -
  let ?line = "trim (serialize_response (handle_status c))"
  define x where "x = (fst (drain_actions q a))\<lparr> app_daemon_ok := True \<rparr>"
  define y where "y = take_status ?line x"
  define z where "z = take_settings (shown_line (handle_get_settings c)) (take_slots (ue_send E ''SLOT:STATUS'')
    (take_bitmap (shown_line (ROk (show_word b))) (take_pair_status (shown_line (handle_pair_status c)) y)))"
  have y: "app_daemon_ok y" "app_connected y = is_connected c" "app_device_unpaired y = device_reports_unpaired c"
    "app_battery y = (case device_status c of Some s \<Rightarrow> battery s | None \<Rightarrow> 0)"
    "app_fw_version y = (case device_status c of Some s \<Rightarrow> fw_version s | None \<Rightarrow> [])"
    by (simp_all add: y_def shown_status [OF assms(1)] x_def)
  have z: "app_daemon_ok z = app_daemon_ok y" "app_connected z = app_connected y" "app_battery z = app_battery y"
    "app_fw_version z = app_fw_version y" "app_device_unpaired z = app_device_unpaired y"
    "app_paired z = (pairing c \<noteq> None)" "app_fp_bitmap z = (if app_connected y then b else 0)"
    "app_settings z = settings_view (settings c)"
    by (simp_all add: z_def shown_pairing shown_bitmap shown_settings)
  have r: "refresh E q a = (refresh_keys E (take_pam (ue_pam E) z))\<lparr> app_isolated := probe_isolation E \<rparr>"
    by (simp add: refresh_def assms(2-5) shown_line_def [of "handle_status c"] Let_def z_def y_def x_def)
  show ?thesis unfolding r Let_def by (simp add: take_pam_def y z)
qed

section \<open>The other refreshes\<close>

text \<open>
  Only every fifth refresh asks for the slots; the branch written for a device that is gone is taken in
  the other four as well.
\<close>

lemma drain_tick:
  "app_slot_poll_tick (fst (drain_actions q a)) = app_slot_poll_tick a"
proof -
  have "app_slot_poll_tick (fst (fold apply_result q s)) = app_slot_poll_tick (fst s)" for s
    by (induction q arbitrary: s)
      (auto simp: apply_result_def set_msg_prompt_def split: action_result.splits result.splits option.splits)
  then show ?thesis by (simp add: drain_actions_def)
qed

lemma take_status_tick [simp]: "app_slot_poll_tick (take_status r a) = app_slot_poll_tick a"
  by (simp add: take_status_def Let_def)

text \<open>
  Fact: in four of five refreshes of a connected device the active slot is forgotten, so that unpairing
  the only paired host is offered without the warning that it can only be undone by wiping the device.
\<close>

theorem refresh_forgets_slot:
  assumes "(app_slot_poll_tick a + 1) mod SLOT_POLL_EVERY \<noteq> 1" "ue_send E ''STATUS'' = Ok line"
  shows "app_slot_active (refresh E q a) = 0 \<and>
    (app_dual_host (refresh E q a) \<longrightarrow>
       unpair_self_prompt (refresh E q a) = host_prompt UnpairSelf (app_slot_mine (refresh E q a)))"
proof -
  have "app_slot_active (refresh E q a) = 0"
    using assms by (simp add: refresh_def Let_def take_pam_def take_slots_def drain_tick)
  then show ?thesis by (simp add: unpair_self_prompt_def Let_def)
qed

text \<open>A daemon that answers as the coordinator \<open>c\<close> does, with the fingerprints \<open>b\<close>.\<close>

definition answering_daemon :: "coordinator \<Rightarrow> byte \<Rightarrow> unit ui_env" where
  "answering_daemon c b = daemon_down\<lparr> ue_send := (\<lambda>r.
     if r = ''STATUS'' then shown_line (handle_status c)
     else if r = ''PAIR:STATUS'' then shown_line (handle_pair_status c)
     else if r = ''FP:LIST'' then shown_line (ROk (show_word b))
     else if r = ''GET:SETTINGS'' then shown_line (handle_get_settings c)
     else Err []) \<rparr>"

theorem refresh_shows_daemon_witness:
  "app_connected (refresh (answering_daemon online 3) [] app_new) \<and>
   app_fp_bitmap (refresh (answering_daemon online 3) [] app_new) = 3"
  using refresh_shows_daemon [of online "answering_daemon online 3" 3 "[]" app_new]
  by (simp add: answering_daemon_def online_def coordinator_new_def Let_def)

theorem refresh_forgets_slot_witness:
  "app_slot_active (refresh (answering_daemon online 3) [] (app_new\<lparr> app_slot_poll_tick := 1, app_slot_active := 1 \<rparr>)) = 0"
  using refresh_forgets_slot [of "app_new\<lparr> app_slot_poll_tick := 1, app_slot_active := 1 \<rparr>" "answering_daemon online 3" _ "[]"]
  by (simp add: SLOT_POLL_EVERY_def answering_daemon_def shown_line_def)

section \<open>Enrollment and secrets\<close>

lemma idle_poll:
  assumes "ask_d ''FP:STATUS'' = Ok ''OK:IDLE''" "\<not> bitmap_has slot (ask_d ''FP:LIST'')"
  shows "\<exists>v1. enroll_poll slot ask_d v = ([], PollAgain, v1)"
proof -
  have "split_on CHR '':'' ''OK:IDLE'' = [''OK'', ''IDLE'']" by simp
  then show ?thesis using assms by (simp add: enroll_poll_def Let_def)
qed

lemma idle_polls:
  assumes "\<And>i. reply i ''FP:STATUS'' = Ok ''OK:IDLE''" "\<And>i. \<not> bitmap_has slot (reply i ''FP:LIST'')"
  shows "enroll_polls slot reply is v = enroll_error ''Enrollment timed out''"
proof (induction "is" arbitrary: v)
  case (Cons i js)
  obtain v1 where "enroll_poll slot (reply i) v = ([], PollAgain, v1)" using idle_poll assms by metis
  then show ?case using Cons by simp
qed simp

text \<open>
  Fact: an enrollment that the device has ended (because it was cancelled, say) is not noticed: the thread
  sees the status IDLE in every poll, sends nothing until all 2400 polls are used up, and then reports
  a time-out.
\<close>

theorem cancelled_enrollment_times_out:
  assumes "je_once E (''FP:ENROLL:'' @ show_word slot) = Ok ''OK:ENROLL_STARTED''"
    and "\<And>i. je_reply E i ''FP:STATUS'' = Ok ''OK:IDLE''" "\<And>i. \<not> bitmap_has slot (je_reply E i ''FP:LIST'')"
  shows "job_trace E (JEnroll slot) =
    [AEnrollStarted, AMessage (''Enrollment started '' @ em_dash @ '' place finger'' @ ellipsis) Yellow,
     AMessage ''Enroll error: Enrollment timed out'' Red, ARefresh, ADone]"
  using assms idle_polls [of "je_reply E" slot "[0..<2400]"]
  by (simp add: job_trace_def enroll_trace_def starts_with_def enroll_error_def job_end_def del: upt_Suc)

lemma in_tl: "x \<in> set (tl xs) \<Longrightarrow> x \<in> set xs"
  by (cases xs) simp_all

lemma feed_grows_by_messages:
  "set (app_events (fst (drain_actions q a))) \<subseteq>
   set (app_events a) \<union> {e. AMessage (event_text e) (event_style e) \<in> set q}"
proof -
  have step: "set (app_events (fst (apply_result r s))) \<subseteq>
      set (app_events (fst s)) \<union> {e. AMessage (event_text e) (event_style e) = r}" for r s
    by (cases s) (auto simp: apply_result_def set_msg_def set_msg_prompt_def push_capped_def Let_def
        split: action_result.splits result.splits option.splits if_splits dest: in_tl)
  have "set (app_events (fst (fold apply_result q s))) \<subseteq>
      set (app_events (fst s)) \<union> {e. AMessage (event_text e) (event_style e) \<in> set q}" for s
  proof (induction q arbitrary: s)
    case (Cons r q)
    show ?case using Cons [of "apply_result r s"] step [of r s] by auto
  qed simp
  from this [of "(a, False)"] show ?thesis by (simp add: drain_actions_def)
qed

text \<open>
  Fact: a secret shown on the screen never enters the event feed: the results of showing an API key or a
  one-time password leave the feed as it was when the daemon answers with the value, which is then in
  the message line.
\<close>

theorem secrets_stay_out_of_feed:
  assumes "je_once E (''GET:api:'' @ nm) = Ok (''OK:'' @ val)" "trim (''OK:'' @ val) = ''OK:'' @ val"
  shows "let a' = fst (drain_actions (job_trace E (JShowApi nm)) a) in
    app_message a' = ''API key '' @ [CHR 0x27] @ nm @ [CHR 0x27] @ '': '' @ val \<and>
    app_events a' = app_events a"
  using assms
  by (simp add: job_trace_def job_request_def show_api_report_def drain_actions_def apply_result_def
      set_msg_prompt_def)

theorem cancelled_enrollment_times_out_witness:
  "AMessage ''Enroll error: Enrollment timed out'' Red \<in> set (job_trace (update_jobs\<lparr> je_reply := (\<lambda>_ r.
     if r = ''FP:STATUS'' then Ok ''OK:IDLE'' else if r = ''FP:LIST'' then Err [] else Ok ''OK:ENROLL_STARTED'') \<rparr>) (JEnroll 0))"
  using cancelled_enrollment_times_out [of "update_jobs\<lparr> je_reply := (\<lambda>_ r.
     if r = ''FP:STATUS'' then Ok ''OK:IDLE'' else if r = ''FP:LIST'' then Err [] else Ok ''OK:ENROLL_STARTED'') \<rparr>" 0]
  by (simp add: bitmap_has_def)

text \<open>
  An entry is lost: the form for a new key opens while an action is running, and when its last field is
  submitted the form is closed, but no job is started and nothing is said.
\<close>

lemma entry_lost_when_busy:
  assumes "app_busy a" "app_flow a = Some f" "flow_stage f = StageSecret" "trim (app_input a) \<noteq> []"
    "entered_secret (flow_cat f) (trim (app_input a)) = Some (Ok secret)"
  shows "input_submit_key a = Some (a\<lparr> app_input := [], app_flow := None, app_mode := ModeNormal \<rparr>, [])"
  using assms by (simp add: input_submit_key_def action_key_add_def Let_def)

text \<open>
  The progress shown in one hop never goes back, unless the transfer starts anew: the fractions of the
  results lie in the part of the bar that belongs to the hop.
\<close>

lemma push_fraction_in_hop:
  assumes "0 \<le> l" "l \<le> 1" "\<And>h hs f. ev = FwTransfer h hs f \<Longrightarrow> 0 \<le> f \<and> f \<le> 1"
    "push_event_step ev (l, lh, out) = (l', lh', out')" "0 < hs" "\<exists>st. ev = FwStageEvent h hs st \<or> (\<exists>f. ev = FwTransfer h hs f) \<or> ev = FwReconnect h hs"
  shows "0 \<le> l' \<and> l' \<le> 1 \<and> (\<exists>stage. out' = out @ [AFwProgress stage ((of_nat h + l') / of_nat hs) (h + 1) hs])"
  using assms by (auto simp: push_event_step_def Let_def split: if_splits)

end
