(* ===== verification/Cli_Process.thy ===== *)
theory Cli_Process
  imports Client_Parse Ssh_Import Pam_Config Fw_Update
begin

text \<open>
  A command of \<open>immurok-cli\<close> as a process: what it prints, what it reads, what it asks the daemon, and how
  it ends. A process is a value; \<open>run\<close> runs it in a world, which answers it, and records what happened.
  The commands themselves are in \<open>Cli_Pairing\<close> and \<open>Cli_Commands\<close>.
\<close>

section \<open>Processes\<close>

text \<open>
  \<open>Finish\<close> is the return from \<open>main\<close> (exit code 0) and \<open>Exit\<close> is \<open>process::exit\<close>. \<open>Say\<close> and \<open>Warn\<close> print
  a line to the two outputs, \<open>Ask\<close> prints a question and reads a line (or fails to). A connection to the
  daemon is a number. \<open>Background\<close> is a request sent by a thread beside the process: its answer comes
  with the number of waits of the process that end before it.
\<close>

datatype cli_process =
    Finish
  | Exit nat
  | Say string cli_process
  | Warn string cli_process
  | Ask string "string option \<Rightarrow> cli_process"
  | Connect "(nat, string) result \<Rightarrow> cli_process"
  | Send nat string "(string, string) result \<Rightarrow> cli_process"
  | Background string "nat \<times> (string, string) result \<Rightarrow> cli_process"
  | ReadFile string "(string, string) result \<Rightarrow> cli_process"
  | ReadPam "pam_dir \<Rightarrow> cli_process"
  | PamHelper string "string list" "nat \<Rightarrow> cli_process"
  | Systemctl "(int option \<times> string, string) result \<Rightarrow> cli_process"
  | StreamLogs "(string list, string) result \<Rightarrow> cli_process"
  | RunTui "(unit, string) result \<Rightarrow> cli_process"
  | OpenStore "(unit, fw_update_error) result \<Rightarrow> cli_process"
  | FetchManifest bool "(manifest, fw_update_error) result \<Rightarrow> cli_process"
  | PrepareUpdate "(prepared_update option, fw_update_error) result \<Rightarrow> cli_process"
  | ExecuteUpdate prepared_update "(unit, fw_update_error) result \<Rightarrow> cli_process"
  | ReadStore "last_check option \<times> pending_hop option \<times> 64 word \<Rightarrow> cli_process"

definition say_all :: "string list \<Rightarrow> cli_process \<Rightarrow> cli_process" where
  "say_all ls k = foldr Say ls k"

definition error_exit :: "string \<Rightarrow> cli_process" where
  "error_exit msg = Warn (''Error: '' @ msg) (Exit 1)"

text \<open>A connection that is a condition to go on, and a request on a connection of its own.\<close>

definition connected_then :: "(nat \<Rightarrow> cli_process) \<Rightarrow> cli_process" where
  "connected_then k = Connect (\<lambda>c. case c of Ok h \<Rightarrow> k h | Err e \<Rightarrow> error_exit e)"

definition ask_daemon :: "string \<Rightarrow> ((string, string) result \<Rightarrow> cli_process) \<Rightarrow> cli_process" where
  "ask_daemon req k = Connect (\<lambda>c. case c of Ok h \<Rightarrow> Send h req k | Err e \<Rightarrow> k (Err e))"

text \<open>A request whose failure ends the process with a message.\<close>

definition send_or_exit :: "nat \<Rightarrow> string \<Rightarrow> string \<Rightarrow> (string \<Rightarrow> cli_process) \<Rightarrow> cli_process" where
  "send_or_exit h req what k = Send h req (\<lambda>r. case r of Ok rsp \<Rightarrow> k rsp | Err e \<Rightarrow> error_exit (what @ e))"

text \<open>
  \<open>to_lowercase\<close> of an answer: only comparisons with words of ASCII letters other than \<open>k\<close> are made with
  it, and no character outside ASCII becomes such a letter, so the ASCII letters are enough.
\<close>

definition lowered :: "string \<Rightarrow> string" where
  "lowered s = map ascii_lower s"

definition says_yes :: "string option \<Rightarrow> bool" where
  "says_yes l = (case l of Some s \<Rightarrow> lowered (trim s) \<in> {''y'', ''yes''} | None \<Rightarrow> False)"

definition says_literal_yes :: "string option \<Rightarrow> bool" where
  "says_literal_yes l = (case l of Some s \<Rightarrow> trim s = ''yes'' | None \<Rightarrow> False)"

definition confirm :: "string \<Rightarrow> (bool \<Rightarrow> cli_process) \<Rightarrow> cli_process" where
  "confirm question k = Ask (question @ '' [y/N] '') (\<lambda>l. k (says_yes l))"

definition confirm_literal_yes :: "string \<Rightarrow> (bool \<Rightarrow> cli_process) \<Rightarrow> cli_process" where
  "confirm_literal_yes prompt k = Ask (prompt @ nl) (\<lambda>l. k (says_literal_yes l))"

section \<open>Worlds and runs\<close>

record 'w world =
  w_connect :: "'w \<Rightarrow> (nat, string) result \<times> 'w"
  w_send :: "nat \<Rightarrow> string \<Rightarrow> 'w \<Rightarrow> (string, string) result \<times> 'w"
  w_background :: "string \<Rightarrow> 'w \<Rightarrow> (nat \<times> (string, string) result) \<times> 'w"
  w_line :: "'w \<Rightarrow> string option \<times> 'w"
  w_file :: "string \<Rightarrow> (string, string) result"
  w_pam :: "'w \<Rightarrow> pam_dir"
  w_helper :: "string \<Rightarrow> string list \<Rightarrow> 'w \<Rightarrow> nat \<times> 'w"
  w_systemctl :: "(int option \<times> string, string) result"
  w_logs :: "(string list, string) result"
  w_tui :: "(unit, string) result"
  w_store :: "(unit, fw_update_error) result"
  w_manifest :: "bool \<Rightarrow> 'w \<Rightarrow> (manifest, fw_update_error) result \<times> 'w"
  w_prepare :: "'w \<Rightarrow> (prepared_update option, fw_update_error) result \<times> 'w"
  w_execute :: "prepared_update \<Rightarrow> 'w \<Rightarrow> (unit, fw_update_error) result \<times> 'w"
  w_saved :: "'w \<Rightarrow> last_check option \<times> pending_hop option \<times> 64 word"

datatype cli_event =
    Said string
  | Warned string
  | Answered string "string option"
  | Sent string "(string, string) result"
  | Helped string "string list" nat
  | Updated prepared_update "(unit, fw_update_error) result"

record 'w finished =
  exit_code :: nat
  happened :: "cli_event list"
  world_after :: 'w

definition after_event :: "cli_event \<Rightarrow> 'w finished \<Rightarrow> 'w finished" where
  "after_event e f = f\<lparr> happened := e # happened f \<rparr>"

primrec run :: "'w world \<Rightarrow> cli_process \<Rightarrow> 'w \<Rightarrow> 'w finished" where
  "run W Finish w = \<lparr> exit_code = 0, happened = [], world_after = w \<rparr>"
| "run W (Exit n) w = \<lparr> exit_code = n, happened = [], world_after = w \<rparr>"
| "run W (Say s p) w = after_event (Said s) (run W p w)"
| "run W (Warn s p) w = after_event (Warned s) (run W p w)"
| "run W (Ask q k) w = (let x = w_line W w in after_event (Answered q (fst x)) (run W (k (fst x)) (snd x)))"
| "run W (Connect k) w = (let x = w_connect W w in run W (k (fst x)) (snd x))"
| "run W (Send h r k) w = (let x = w_send W h r w in after_event (Sent r (fst x)) (run W (k (fst x)) (snd x)))"
| "run W (Background r k) w =
     (let x = w_background W r w in after_event (Sent r (snd (fst x))) (run W (k (fst x)) (snd x)))"
| "run W (ReadFile f k) w = run W (k (w_file W f)) w"
| "run W (ReadPam k) w = run W (k (w_pam W w)) w"
| "run W (PamHelper a ss k) w =
     (let x = w_helper W a ss w in after_event (Helped a ss (fst x)) (run W (k (fst x)) (snd x)))"
| "run W (Systemctl k) w = run W (k (w_systemctl W)) w"
| "run W (StreamLogs k) w = run W (k (w_logs W)) w"
| "run W (RunTui k) w = run W (k (w_tui W)) w"
| "run W (OpenStore k) w = run W (k (w_store W)) w"
| "run W (FetchManifest f k) w = (let x = w_manifest W f w in run W (k (fst x)) (snd x))"
| "run W (PrepareUpdate k) w = (let x = w_prepare W w in run W (k (fst x)) (snd x))"
| "run W (ExecuteUpdate u k) w =
     (let x = w_execute W u w in after_event (Updated u (fst x)) (run W (k (fst x)) (snd x)))"
| "run W (ReadStore k) w = run W (k (w_saved W w)) w"

section \<open>What a process may do\<close>

text \<open>Whatever it is answered, every request of the process satisfies \<open>P\<close>.\<close>

primrec sends_only :: "(string \<Rightarrow> bool) \<Rightarrow> cli_process \<Rightarrow> bool" where
  "sends_only P Finish \<longleftrightarrow> True"
| "sends_only P (Exit n) \<longleftrightarrow> True"
| "sends_only P (Say s p) \<longleftrightarrow> sends_only P p"
| "sends_only P (Warn s p) \<longleftrightarrow> sends_only P p"
| "sends_only P (Ask q k) \<longleftrightarrow> (\<forall>l. sends_only P (k l))"
| "sends_only P (Connect k) \<longleftrightarrow> (\<forall>c. sends_only P (k c))"
| "sends_only P (Send h r k) \<longleftrightarrow> P r \<and> (\<forall>x. sends_only P (k x))"
| "sends_only P (Background r k) \<longleftrightarrow> P r \<and> (\<forall>x. sends_only P (k x))"
| "sends_only P (ReadFile f k) \<longleftrightarrow> (\<forall>x. sends_only P (k x))"
| "sends_only P (ReadPam k) \<longleftrightarrow> (\<forall>x. sends_only P (k x))"
| "sends_only P (PamHelper a ss k) \<longleftrightarrow> (\<forall>x. sends_only P (k x))"
| "sends_only P (Systemctl k) \<longleftrightarrow> (\<forall>x. sends_only P (k x))"
| "sends_only P (StreamLogs k) \<longleftrightarrow> (\<forall>x. sends_only P (k x))"
| "sends_only P (RunTui k) \<longleftrightarrow> (\<forall>x. sends_only P (k x))"
| "sends_only P (OpenStore k) \<longleftrightarrow> (\<forall>x. sends_only P (k x))"
| "sends_only P (FetchManifest b k) \<longleftrightarrow> (\<forall>x. sends_only P (k x))"
| "sends_only P (PrepareUpdate k) \<longleftrightarrow> (\<forall>x. sends_only P (k x))"
| "sends_only P (ExecuteUpdate u k) \<longleftrightarrow> (\<forall>x. sends_only P (k x))"
| "sends_only P (ReadStore k) \<longleftrightarrow> (\<forall>x. sends_only P (k x))"

text \<open>
  Whatever it is answered, the process sends a request of \<open>D\<close> only after a question was answered as \<open>A\<close>
  demands.
\<close>

primrec guarded :: "(string \<Rightarrow> bool) \<Rightarrow> (string option \<Rightarrow> bool) \<Rightarrow> cli_process \<Rightarrow> bool" where
  "guarded D A Finish \<longleftrightarrow> True"
| "guarded D A (Exit n) \<longleftrightarrow> True"
| "guarded D A (Say s p) \<longleftrightarrow> guarded D A p"
| "guarded D A (Warn s p) \<longleftrightarrow> guarded D A p"
| "guarded D A (Ask q k) \<longleftrightarrow> (\<forall>l. A l \<or> guarded D A (k l))"
| "guarded D A (Connect k) \<longleftrightarrow> (\<forall>c. guarded D A (k c))"
| "guarded D A (Send h r k) \<longleftrightarrow> \<not> D r \<and> (\<forall>x. guarded D A (k x))"
| "guarded D A (Background r k) \<longleftrightarrow> \<not> D r \<and> (\<forall>x. guarded D A (k x))"
| "guarded D A (ReadFile f k) \<longleftrightarrow> (\<forall>x. guarded D A (k x))"
| "guarded D A (ReadPam k) \<longleftrightarrow> (\<forall>x. guarded D A (k x))"
| "guarded D A (PamHelper a ss k) \<longleftrightarrow> (\<forall>x. guarded D A (k x))"
| "guarded D A (Systemctl k) \<longleftrightarrow> (\<forall>x. guarded D A (k x))"
| "guarded D A (StreamLogs k) \<longleftrightarrow> (\<forall>x. guarded D A (k x))"
| "guarded D A (RunTui k) \<longleftrightarrow> (\<forall>x. guarded D A (k x))"
| "guarded D A (OpenStore k) \<longleftrightarrow> (\<forall>x. guarded D A (k x))"
| "guarded D A (FetchManifest b k) \<longleftrightarrow> (\<forall>x. guarded D A (k x))"
| "guarded D A (PrepareUpdate k) \<longleftrightarrow> (\<forall>x. guarded D A (k x))"
| "guarded D A (ExecuteUpdate u k) \<longleftrightarrow> (\<forall>x. guarded D A (k x))"
| "guarded D A (ReadStore k) \<longleftrightarrow> (\<forall>x. guarded D A (k x))"

lemma sends_only_say_all [simp]: "sends_only P (say_all ls k) = sends_only P k"
  by (induction ls) (simp_all add: say_all_def)

lemma guarded_say_all [simp]: "guarded D A (say_all ls k) = guarded D A k"
  by (induction ls) (simp_all add: say_all_def)

lemma error_exit_sends [simp]: "sends_only P (error_exit m)" "guarded D A (error_exit m)"
  by (simp_all add: error_exit_def)

lemma guarded_if_silent: "sends_only (\<lambda>r. \<not> D r) p \<Longrightarrow> guarded D A p"
  by (induction p) auto

lemma after_event_fields [simp]:
  "happened (after_event e f) = e # happened f" "exit_code (after_event e f) = exit_code f"
  "world_after (after_event e f) = world_after f"
  by (simp_all add: after_event_def)

lemma run_sends_only: "sends_only P p \<Longrightarrow> Sent r x \<in> set (happened (run W p w)) \<Longrightarrow> P r"
  by (induction p arbitrary: w) (auto simp: Let_def simp del: split_paired_All)

text \<open>An event list in which a request of \<open>D\<close> comes only after an answer of \<open>A\<close>.\<close>

fun confirmed_before :: "(string \<Rightarrow> bool) \<Rightarrow> (string option \<Rightarrow> bool) \<Rightarrow> cli_event list \<Rightarrow> bool" where
  "confirmed_before D A [] \<longleftrightarrow> True"
| "confirmed_before D A (Answered q l # es) \<longleftrightarrow> A l \<or> confirmed_before D A es"
| "confirmed_before D A (Sent r x # es) \<longleftrightarrow> \<not> D r \<and> confirmed_before D A es"
| "confirmed_before D A (_ # es) \<longleftrightarrow> confirmed_before D A es"

lemma run_guarded: "guarded D A p \<Longrightarrow> confirmed_before D A (happened (run W p w))"
  by (induction p arbitrary: w) (auto simp: Let_def simp del: split_paired_All)

lemma confirmed_before_iff:
  "confirmed_before D A es \<longleftrightarrow> (\<forall>pre r x post. es = pre @ Sent r x # post \<and> D r \<longrightarrow>
     (\<exists>q l. Answered q l \<in> set pre \<and> A l))"
proof (induction es)
  case (Cons e es)
  show ?case
  proof
    assume c: "confirmed_before D A (e # es)"
    show "\<forall>pre r x post. e # es = pre @ Sent r x # post \<and> D r \<longrightarrow> (\<exists>q l. Answered q l \<in> set pre \<and> A l)"
    proof (intro allI impI)
      fix pre r x post assume s: "e # es = pre @ Sent r x # post \<and> D r"
      show "\<exists>q l. Answered q l \<in> set pre \<and> A l"
      proof (cases pre)
        case Nil
        then show ?thesis using s c by simp
      next
        case (Cons f fs)
        show ?thesis
        proof (cases "\<exists>q l. e = Answered q l \<and> A l")
          case True
          then show ?thesis using s Cons by auto
        next
          case False
          then have "confirmed_before D A es" using c by (cases e) auto
          then show ?thesis using s Cons Cons.IH by fastforce
        qed
      qed
    qed
  next
    assume h: "\<forall>pre r x post. e # es = pre @ Sent r x # post \<and> D r \<longrightarrow> (\<exists>q l. Answered q l \<in> set pre \<and> A l)"
    show "confirmed_before D A (e # es)"
    proof (cases "\<exists>q l. e = Answered q l \<and> A l")
      case True
      then show ?thesis by auto
    next
      case False
      have "confirmed_before D A es"
        unfolding Cons.IH
      proof (intro allI impI)
        fix pre r x post assume s: "es = pre @ Sent r x # post \<and> D r"
        then have "\<exists>q l. Answered q l \<in> set (e # pre) \<and> A l" using h by (metis append_Cons)
        then show "\<exists>q l. Answered q l \<in> set pre \<and> A l" using False by auto
      qed
      moreover have "\<not> (\<exists>r x. e = Sent r x \<and> D r)" using h by (metis append_Nil empty_iff list.set(1))
      ultimately show ?thesis by (cases e) auto
    qed
  qed
qed simp

end
