(* ===== verification/Cli_Pairing.thy ===== *)
theory Cli_Pairing
  imports Cli_Process
begin

text \<open>
  Pairing, unpairing and the wipe (\<open>commands/pair.rs\<close>), and the inspection of the host slots
  (\<open>commands/slot.rs\<close>).
\<close>

section \<open>Pairing\<close>

text \<open>
  \<open>pair\<close> waits for the answer of a request that runs beside it, and asks for the progress whenever 200 ms
  pass without an answer; the number of these waits is bounded by the read timeout of the request.
\<close>

definition stage_lines :: "string \<Rightarrow> bool \<Rightarrow> string list" where
  "stage_lines stage second_host =
     (let step1 = (if second_host then ''(1/2) '' else []); step2 = (if second_host then ''(2/2) '' else []) in
      if stage = ''WAIT_FP'' then [''  '' @ step1 @ right_arrow @ '' waiting for your fingerprint...'']
      else if stage = ''WAIT_BUTTON'' then
        (if second_host then [''  '' @ step1 @ green check_mark @ '' fingerprint accepted''] else []) @
        [''  '' @ step2 @ right_arrow @ '' now press the device button...'']
      else if stage = ''ECDH'' then [''  '' @ green check_mark @ '' button pressed '' @ em_dash @ '' exchanging keys...'']
      else [])"

definition pair_outcome :: "(string, string) result \<Rightarrow> cli_process" where
  "pair_outcome outcome = (case outcome of
     Ok rsp \<Rightarrow>
       if rsp = ''OK:PAIRED'' then Say (green ''Pairing successful!'') Finish
       else if rsp = ''ERROR:PAIRING_IN_PROGRESS'' then
         Warn (red ''Another pairing attempt is already in progress on this device.'')
           (Warn ''Wait for it to finish or time out, then try again.'' (Exit 1))
       else Warn (red (''Pairing failed: '' @ rsp)) (Exit 1)
   | Err e \<Rightarrow> Warn (red (''Pairing failed: '' @ e)) (Exit 1))"

fun pair_wait :: "bool \<Rightarrow> nat \<Rightarrow> string \<Rightarrow> cli_process \<Rightarrow> cli_process" where
  "pair_wait second_host 0 last_stage k = k"
| "pair_wait second_host (Suc n) last_stage k = ask_daemon ''PAIR:PROGRESS'' (\<lambda>r. case r of
     Err _ \<Rightarrow> pair_wait second_host n last_stage k
   | Ok line \<Rightarrow>
       (let stage = unwrap_or [] (get_at (split_on CHR '':'' line) 1) in
        if stage = last_stage then pair_wait second_host n last_stage k
        else say_all (stage_lines stage second_host) (pair_wait second_host n stage k)))"

definition query_second_host :: "(bool \<Rightarrow> cli_process) \<Rightarrow> cli_process" where
  "query_second_host k = ask_daemon ''SLOT:STATUS'' (\<lambda>r.
     k (case Option.bind (ok r) parse_slot_status_line of Some s \<Rightarrow> is_second_host s | None \<Rightarrow> False))"

definition start_pairing :: cli_process where
  "start_pairing = query_second_host (\<lambda>second_host.
     say_all (if second_host then
         [''This device is already bound to another computer.'', ''Binding this one as the second host:'',
          ''  (1/2) Touch an enrolled fingerprint on the device'', ''  (2/2) Then press the device button'']
       else [''Starting pairing... Press the device button within 30s to confirm.''])
     (Background ''PAIR:START'' (\<lambda>(rounds, outcome). pair_wait second_host rounds [] (pair_outcome outcome))))"

definition run_pair :: cli_process where
  "run_pair = connected_then (\<lambda>h. Send h ''PAIR:STATUS'' (\<lambda>r. ask_daemon ''STATUS'' (\<lambda>s.
     (let pair_rsp = unwrap_or [] (ok r);
          device_unpaired = (case s of Ok line \<Rightarrow> get_at (split_on CHR '':'' line) 5 = Some ''1'' | Err _ \<Rightarrow> False)
      in if pair_rsp = ''OK:PAIRED'' \<and> device_unpaired then
           Warn (''Local pairing exists but the device says it is not paired with this computer '' @ em_dash @
             '' replacing the stale record.'') start_pairing
         else if pair_rsp = ''OK:PAIRED'' then
           Warn ''Already paired. Unpair first with: immurok-cli unpair'' (Exit 1)
         else start_pairing))))"

section \<open>What unpairing would cost\<close>

datatype unpair_risk = Reversible | OldFirmware | OneWayDoor | DeviceOffline | UnknownRisk

definition own_slot_only :: "slot_status option \<Rightarrow> bool" where
  "own_slot_only st = (case st of
     Some (Supported bitmap active) \<Rightarrow> bitmap = push_bit (unat (active - 1)) 1 | _ \<Rightarrow> False)"

definition classify_unpair_risk :: "string \<Rightarrow> string option \<Rightarrow> unpair_risk" where
  "classify_unpair_risk slot_line fp_line =
     (if trim slot_line = ''ERROR:NOT_CONNECTED'' then DeviceOffline
      else case parse_slot_status_line slot_line of
        Some Unsupported \<Rightarrow> OldFirmware
      | None \<Rightarrow> UnknownRisk
      | Some (Supported bitmap active) \<Rightarrow>
          if bitmap \<noteq> push_bit (unat (active - 1)) 1 then Reversible
          else (case fp_line of
            None \<Rightarrow> UnknownRisk
          | Some line \<Rightarrow> (let parts = split_on CHR '':'' (trim line) in
              case (get_at parts 0, map_option parse_u8 (get_at parts 1)) of
                (Some p, Some (Ok b)) \<Rightarrow>
                  if p \<noteq> ''OK'' then UnknownRisk else if b = 0 then Reversible else OneWayDoor
              | _ \<Rightarrow> UnknownRisk)))"

definition assess_unpair_risk :: "(unpair_risk \<Rightarrow> cli_process) \<Rightarrow> cli_process" where
  "assess_unpair_risk k = ask_daemon ''SLOT:STATUS'' (\<lambda>r. case r of
     Err _ \<Rightarrow> k UnknownRisk
   | Ok slot_line \<Rightarrow>
       if own_slot_only (parse_slot_status_line slot_line)
       then ask_daemon ''FP:LIST'' (\<lambda>f. k (classify_unpair_risk slot_line (ok f)))
       else k (classify_unpair_risk slot_line None))"

definition delete_first_lines :: "string \<Rightarrow> string list" where
  "delete_first_lines last_step =
     [''  1. immurok-cli fp list             # see which slots are enrolled'',
      ''  2. immurok-cli fp delete <slot>    # delete each one, while still paired'',
      ''  3. immurok-cli unpair              # then unpair; '' @ last_step, []]"

definition consent_lines :: "unpair_risk \<Rightarrow> string list" where
  "consent_lines risk = (case risk of
     Reversible \<Rightarrow>
       [''This clears THIS computer's pairing slot on the device.'',
        ''Fingerprints and stored SSH / OTP / API keys are kept.'']
   | OldFirmware \<Rightarrow>
       [''This device's firmware predates dual-host support (older than 1.6.12).'',
        ''Unpairing only clears this computer's local pairing record '' @ em_dash @ '' the'',
        ''device's own slot stays occupied. If fingerprints are still enrolled,'',
        ''re-pairing afterward will need a factory reset '' @ em_dash @ '' which erases every'',
        ''fingerprint and every SSH / OTP / API key on the device.'', [],
        yellow ''Avoid that by deleting fingerprints first, while still paired:''] @
       delete_first_lines ''re-pairing stays plain''
   | DeviceOffline \<Rightarrow>
       [''The device is not connected.'',
        ''This clears only this computer's LOCAL pairing record '' @ em_dash @ '' the device's own'',
        ''slot is left exactly as it is now, and nothing is lost on it.'', [],
        ''Re-pairing later will still require clearing that slot on the device'',
        ''(re-run this command while connected) or a factory reset while'',
        ''fingerprints remain enrolled.'']
   | OneWayDoor \<Rightarrow>
       [red ''This computer is the ONLY host paired to this device, and fingerprints are still enrolled.'', [],
        ''Unpairing now cannot be undone from software:'',
        ''  '' @ mid_dot @ '' the device refuses a new pairing while any fingerprint is enrolled'',
        ''  '' @ mid_dot @ '' once no slot is paired it also refuses factory reset and fingerprint'',
        ''    deletion '' @ em_dash @ '' those commands are not accepted before pairing'',
        ''  '' @ mid_dot @ '' the only way back would be holding the device button for 3 seconds,'',
        ''    which erases every fingerprint AND every SSH, OTP and API key stored'',
        ''    on the device. Those private keys exist nowhere else.'', [],
        yellow (''Do this instead '' @ em_dash @ '' it keeps the keys:'')] @
       delete_first_lines ''pairing still works''
   | UnknownRisk \<Rightarrow>
       [yellow ''Could not check the device's slot and fingerprint state.'', [],
        ''That state is what decides whether this is safely reversible. It COULD be'',
        ''the one-way-door case: this computer the only paired host, with'',
        ''fingerprints still enrolled. If so, unpairing now cannot be undone from'',
        ''software '' @ em_dash @ '' the device would refuse pairing, factory reset and fingerprint'',
        ''deletion alike, leaving only the 3-second button hold, which erases every'',
        ''SSH, OTP and API key. Nothing here confirms that IS the state '' @ em_dash @ '' only that'',
        ''it could not be ruled out.'', [],
        ''Check with '' @ quoted ''immurok-cli slot status'' @ '' and '' @ quoted ''immurok-cli fp list'' @ '' while the'',
        ''device is connected. If this is the only paired host, delete the enrolled'',
        ''fingerprints with '' @ quoted ''immurok-cli fp delete <slot>'' @ '' before unpairing.'', []])"

section \<open>Unpairing this computer\<close>

definition unpair_answer :: "string \<Rightarrow> cli_process" where
  "unpair_answer rsp = (case classify_unpair_response rsp of
     UnpairCleared \<Rightarrow> Say (green ''Unpaired.'') Finish
   | UnpairUnconfirmed \<Rightarrow> say_all
       [green ''Local pairing cleared.'',
        ''This is normally because the device rebooted right after clearing its slot.'',
        ''If its firmware is older than 1.6.12, it may not have understood the command'',
        ''at all and could still hold this computer's slot '' @ em_dash @ '' run '' @ quoted ''immurok-cli slot status'',
        ''(or re-pair) to check.''] Finish
   | UnpairLocalOnly \<Rightarrow> say_all
       [yellow ''Local pairing cleared, but the device was not reachable.'',
        ''Its slot still holds this computer's key. Re-run this while connected,'',
        ''or hold the device button for 3 seconds to wipe it '' @ em_dash @ '' that also erases'',
        ''every fingerprint and every SSH / OTP / API key on the device.''] Finish
   | UnpairSlotUnpaired \<Rightarrow> say_all
       [yellow (''Local pairing cleared '' @ em_dash @ '' but nothing on the device changed.''),
        ''The device is connected while sitting on a host slot that is empty, so it'',
        ''refuses every command until that slot is paired. If this computer's key'',
        ''lives in the OTHER slot, that pairing is still there and was NOT removed '' @ em_dash,
        ''touch the host-switch finger to bring the device back to it.'', [],
        ''Run '' @ quoted ''immurok-cli slot status'' @ '' to see which slot the device is on.''] Finish
   | UnpairRefused \<Rightarrow> Warn (red ''The device refused to clear this slot.'')
       (Warn ''This computer is still paired. Try again.'' (Exit 1))
   | UnpairFailed \<Rightarrow> Warn (red (''Unpair failed: '' @ rsp)) (Exit 1))"

definition unpair_consented :: "bool \<Rightarrow> cli_process" where
  "unpair_consented confirmed =
     (if \<not> confirmed then Say ''Cancelled.'' Finish
      else connected_then (\<lambda>h. send_or_exit h ''SLOT:CLEAR'' ''Unpair failed: '' unpair_answer))"

definition unpair_with_risk :: "unpair_risk \<Rightarrow> cli_process" where
  "unpair_with_risk risk = say_all (consent_lines risk)
     (if risk \<in> {OneWayDoor, UnknownRisk}
      then confirm_literal_yes (''Type '' @ quoted ''yes'' @ '' to unpair anyway:'') unpair_consented
      else confirm ''Unpair this computer?'' unpair_consented)"

definition unpair_own :: cli_process where
  "unpair_own = assess_unpair_risk unpair_with_risk"

section \<open>Unpairing the other computer\<close>

definition see_both :: string where
  "see_both = ''Slot must be 1 or 2. Run '' @ quoted ''immurok-cli slot status'' @ '' to see both.''"

definition clear_answer :: "byte \<Rightarrow> string \<Rightarrow> cli_process" where
  "clear_answer slot rsp =
     (let moved = say_all
        [yellow ''The device's active slot changed while this ran.'',
         ''Host slot '' @ show_word slot @ '' turned out to be THIS computer's own slot '' @ em_dash @ '' it was cleared,'',
         ''and this computer's local pairing was dropped with it. The OTHER host's'',
         ''slot was not touched.'',
         ''Run '' @ quoted ''immurok-cli slot status'' @ '' to see the current picture.''] Finish
      in case classify_unpair_response rsp of
        UnpairCleared \<Rightarrow> Say (green (''Host slot '' @ show_word slot @ '' cleared.'')) Finish
      | UnpairUnconfirmed \<Rightarrow> moved
      | UnpairLocalOnly \<Rightarrow> moved
      | UnpairSlotUnpaired \<Rightarrow> say_all
          [yellow ''The device is sitting on an empty slot and refused the command.'',
           ''Host slot '' @ show_word slot @ '' was NOT cleared, and nothing else on the device changed.'',
           ''This computer's local pairing record was dropped, though '' @ em_dash @ '' touch the'',
           ''host-switch finger to bring the device back to a paired slot first.''] (Exit 1)
      | UnpairRefused \<Rightarrow> Warn (red ''The device refused to clear that slot.'')
          (Warn (''Nothing changed. Run '' @ quoted ''immurok-cli slot status'' @ '' to check.'') (Exit 1))
      | UnpairFailed \<Rightarrow> Warn (red (''Clear failed: '' @ rsp)) (Exit 1))"

definition unpair_other :: "byte \<Rightarrow> cli_process" where
  "unpair_other slot =
     (if slot \<noteq> 1 \<and> slot \<noteq> 2 then error_exit see_both
      else say_all
        [''This clears host slot '' @ show_word slot @ '' '' @ em_dash @ '' the OTHER computer's pairing.'',
         ''That computer loses access to the device. This one is unaffected,'',
         ''and no fingerprints or keys are deleted.'']
        (confirm (''Clear host slot '' @ show_word slot @ ''?'') (\<lambda>confirmed.
          if \<not> confirmed then Say ''Cancelled.'' Finish
          else connected_then (\<lambda>h.
            Say (''Touch an enrolled fingerprint on the device to authorize'' @ ellipsis)
              (send_or_exit h (''SLOT:CLEAR:'' @ show_word slot) ''Clear failed: '' (clear_answer slot))))))"

definition run_unpair_target :: "byte \<Rightarrow> cli_process" where
  "run_unpair_target slot =
     (if slot \<noteq> 1 \<and> slot \<noteq> 2 then error_exit see_both
      else connected_then (\<lambda>h. send_or_exit h ''SLOT:STATUS'' ''Failed to read slot status: '' (\<lambda>rsp.
        case parse_slot_status_line rsp of
          None \<Rightarrow> error_exit (''Failed to read slot status: '' @ rsp @ ''. If you meant to detach this computer, run '' @
            quoted ''immurok-cli unpair'' @ '' with no --slot.'')
        | Some Unsupported \<Rightarrow> error_exit (''This device's firmware has no dual-host support, so there is no other host slot to name. Run '' @
            quoted ''immurok-cli unpair'' @ '' (no --slot) to detach this computer.'')
        | Some (Supported bitmap active) \<Rightarrow>
            if slot = active then
              Say (''Host slot '' @ show_word slot @ '' is THIS computer's own slot.'') unpair_own
            else if bitmap AND push_bit (unat (slot - 1)) 1 = 0 then
              Say (''Host slot '' @ show_word slot @ '' is already empty. Nothing to do.'') Finish
            else unpair_other slot)))"

definition run_unpair :: "byte option \<Rightarrow> cli_process" where
  "run_unpair slot = (case slot of None \<Rightarrow> unpair_own | Some s \<Rightarrow> run_unpair_target s)"

section \<open>The wipe\<close>

definition run_factory_reset :: cli_process where
  "run_factory_reset = say_all
     [red ''Factory reset destroys everything stored on the device:'',
      ''  '' @ mid_dot @ '' all fingerprints, including the host-switch finger'',
      ''  '' @ mid_dot @ '' all SSH private keys '' @ em_dash @ '' they exist ONLY on the device'',
      ''  '' @ mid_dot @ '' all OTP secrets and API keys'',
      ''  '' @ mid_dot @ '' both host pairings (this computer and the other one)'', []]
     (confirm_literal_yes (''This cannot be undone. Type '' @ quoted ''yes'' @ '' to confirm:'') (\<lambda>confirmed.
        if \<not> confirmed then Say ''Cancelled.'' Finish
        else connected_then (\<lambda>h.
          Say (''Touch an enrolled fingerprint on the device to authorize the wipe'' @ ellipsis)
            (send_or_exit h ''PAIR:FACTORY_RESET'' ''Factory reset failed: '' (\<lambda>rsp.
               if rsp = ''OK:RESET'' then Say (green ''Device wiped and pairing cleared.'') Finish
               else Warn (red (''Factory reset failed: '' @ rsp))
                 (Warn ''The device was NOT wiped. This computer is still paired.'' (Exit 1)))))))"

section \<open>The host slots\<close>

definition host_line :: "byte \<Rightarrow> byte \<Rightarrow> byte \<Rightarrow> string" where
  "host_line bitmap active slot =
     (let occupied = (bitmap AND push_bit (unat (slot - 1)) 1 \<noteq> 0);
          suffix = (if slot = active \<and> occupied then '' '' @ mid_dot @ '' active (this computer)''
            else if slot = active then '' '' @ mid_dot @ '' active '' @ em_dash @ '' the device is presenting this empty slot''
            else [])
      in ''  '' @ (if occupied then green full_dot else open_dot) @ '' Host '' @ show_word slot @ ''   '' @
         (if occupied then ''bound'' else ''empty'') @ suffix)"

definition print_hosts :: "byte \<Rightarrow> byte \<Rightarrow> string list" where
  "print_hosts bitmap active =
     [''Hosts'', host_line bitmap active 1, host_line bitmap active 2, []] @
     (if bitmap AND push_bit (unat (active - 1)) 1 = 0 \<and> bitmap AND 3 \<noteq> 0
      then [yellow ''The device is on an empty slot, so it refuses fingerprint, key and'',
            yellow ''unpair commands. Touch the host-switch finger to return it to the'',
            yellow ''bound slot, or pair this computer into the empty one.'', []]
      else []) @
     (if bitmap AND 3 = 3
      then [''Both slots are taken. Free one with '' @ quoted ''immurok-cli unpair'' @ '' (this computer)'',
            ''or '' @ quoted ''immurok-cli unpair --slot N'' @ '' (the other one, needs a fingerprint).'']
      else [''A free slot can be claimed by running '' @ quoted ''immurok-cli pair'' @ '' on another computer.'']) @
     [''Switch between hosts by touching the host-switch finger (slot 5) on the device.'']"

definition run_slot_status :: cli_process where
  "run_slot_status = connected_then (\<lambda>h. send_or_exit h ''SLOT:STATUS'' ''Failed to read slot status: '' (\<lambda>rsp.
     case parse_slot_status_line rsp of
       Some (Supported bitmap active) \<Rightarrow> say_all (print_hosts bitmap active) Finish
     | Some Unsupported \<Rightarrow> say_all
         [''This device's firmware has no dual-host support (needs 1.6.12 or newer).'',
          ''Run '' @ quoted ''immurok-cli fw check'' @ '' to see whether an update is available.''] Finish
     | None \<Rightarrow> error_exit (''Failed to read slot status: '' @ rsp)))"

end
