(* ===== verification/Cli_Commands.thy ===== *)
theory Cli_Commands
  imports Cli_Pairing
begin

text \<open>
  The commands of \<open>immurok-cli\<close> other than pairing: \<open>status.rs\<close>, \<open>info.rs\<close>, \<open>fingerprint.rs\<close>, \<open>settings.rs\<close>,
  \<open>keys.rs\<close>, \<open>daemon.rs\<close>, \<open>fw.rs\<close>, \<open>ota.rs\<close>, and the dispatch of \<open>main.rs\<close> with its pairing gate. Progress bars
  are left out. The reading of JSON, the base64 and hex codecs and the elliptic curve are parameters.
\<close>

section \<open>Status and device information\<close>

definition MANDATORY_MIN_VERSION :: string where
  "MANDATORY_MIN_VERSION = ''1.6.0''"

definition old_firmware :: "string \<Rightarrow> bool" where
  "old_firmware vers \<longleftrightarrow> vers \<noteq> [] \<and>
     (case (fv_parse (normalize_semver vers), fv_parse MANDATORY_MIN_VERSION) of
        (Some v, Some mn) \<Rightarrow> v < mn | _ \<Rightarrow> False)"

definition status_lines :: "string list \<Rightarrow> string list" where
  "status_lines parts =
     (let connected = (parts ! 1 = ''1''); name = parts ! 2; battery_field = parts ! 3; vers = parts ! 4 in
      [''Device:     '' @ (if name = [] then ''-'' else name),
       ''Status:     '' @ (if connected then green ''Connected'' else red ''Disconnected''),
       ''Battery:    '' @ (if battery_field = ''0'' \<and> \<not> connected then ''-'' else battery_field @ ''%''),
       ''Firmware:   '' @ (if vers = [] then ''-'' else vers)] @
      (if old_firmware vers
       then [yellow (''Warning: firmware outdated (old signing era) '' @ em_dash @ '' run `immurok-cli fw update`'')] else []))"

definition paired_lines :: "bool \<Rightarrow> bool \<Rightarrow> string list" where
  "paired_lines dev_unpaired paired =
     (''Paired:     '' @ (if dev_unpaired then red ''No (device says so)''
        else if paired then green ''Yes'' else yellow ''No'')) #
     (if dev_unpaired then
        [red (warning_sign @ '' The device is no longer paired with this computer.''),
         ''  It was probably factory-reset, or this computer's slot was cleared'',
         ''  from the other host. Fingerprint auth will keep falling back to your'',
         ''  password until you run: '' @ bold ''immurok-cli pair'']
      else [])"

definition finger_lines :: "string \<Rightarrow> string list" where
  "finger_lines fp_rsp = (let fp_parts = split_on CHR '':'' fp_rsp in
     if get_at fp_parts 0 = Some ''OK'' \<and> 1 < length fp_parts
     then (case parse_u8 (fp_parts ! 1) of
       Ok bitmap \<Rightarrow> [''Fingers:    '' @ fp_bitmap_display bitmap] | Err _ \<Rightarrow> [])
     else [])"

definition run_status :: cli_process where
  "run_status = Connect (\<lambda>c. case c of
     Err e \<Rightarrow> Warn e (Exit 1)
   | Ok h \<Rightarrow> Send h ''STATUS'' (\<lambda>r. case r of
       Err e \<Rightarrow> Warn (''Failed to query status: '' @ e) (Exit 1)
     | Ok status_rsp \<Rightarrow>
         (let parts = split_on CHR '':'' status_rsp; is_status = (get_at parts 0 = Some ''STATUS'') in
          say_all (if is_status \<and> 5 \<le> length parts then status_lines parts else [''Status:     '' @ status_rsp])
            (ask_daemon ''PAIR:STATUS'' (\<lambda>p.
               let pair_parts = split_on CHR '':'' (unwrap_or [] (ok p)) in
               say_all (paired_lines (get_at parts 5 = Some ''1'') (get_at pair_parts 1 = Some ''PAIRED''))
                 (if is_status \<and> 2 \<le> length parts \<and> parts ! 1 = ''1''
                  then Send h ''FP:LIST'' (\<lambda>f. say_all (finger_lines (unwrap_or [] (ok f))) Finish)
                  else Finish))))))"

text \<open>The last field of a name counts.\<close>

definition info_field :: "string \<Rightarrow> string list \<Rightarrow> string option" where
  "info_field key parts = map_of (rev (List.map_filter (split_once CHR ''='') parts)) key"

definition run_info :: cli_process where
  "run_info = connected_then (\<lambda>h. send_or_exit h ''GET:INFO'' ''Failed to query info: '' (\<lambda>rsp.
     (let parts = split_on CHR '':'' rsp; info = (\<lambda>k. info_field k (tl parts)) in
      if get_at parts 0 \<noteq> Some ''OK'' then error_exit (''Unexpected response: '' @ rsp)
      else say_all
        [''Model:      '' @ unwrap_or ''-'' (info ''model''),
         ''Firmware:   '' @ unwrap_or ''-'' (info ''fw''),
         ''Connected:  '' @ (if info ''connected'' = Some ''1'' then ''Yes'' else ''No''),
         (let b = unwrap_or ''-1'' (info ''battery'') in
          if b \<noteq> ''-1'' then ''Battery:    '' @ b @ ''%'' else ''Battery:    -'')] Finish)))"

section \<open>Fingerprints\<close>

definition step_hint :: "byte \<Rightarrow> string" where
  "step_hint step =
     (if step = 1 then ''Press finger pad on center''
      else if step = 2 then ''Tilt slightly left 5'' @ en_dash @ ''10'' @ degree_sign
      else if step = 3 then ''Tilt slightly right 5'' @ en_dash @ ''10'' @ degree_sign
      else if step = 4 then ''Shift slightly toward fingertip''
      else if step = 5 then ''Shift slightly toward wrist''
      else if step = 6 then ''Back to center, press once more''
      else ''Hold steady'')"

definition list_lines :: "byte \<Rightarrow> string list" where
  "list_lines bitmap =
     (let auth = filter (\<lambda>s. s < MAX_FINGERPRINT_SLOTS) (fp_bitmap_slots bitmap); switch = show_word SWITCH_FINGER_SLOT in
      [''Fingerprints: '' @ fp_bitmap_display bitmap,
       (if auth = [] then ''No authentication fingerprints enrolled.''
        else ''Authentication slots: ['' @ join '', '' (map show_word auth) @ '']''),
       (if bitmap AND push_bit (unat SWITCH_FINGER_SLOT) 1 \<noteq> 0
        then ''Host-switch finger (slot '' @ switch @ ''): enrolled''
        else ''Host-switch finger (slot '' @ switch @ ''): not enrolled '' @ em_dash @ '' '' @
          quoted (''immurok-cli fp enroll '' @ switch))])"

definition run_fp_list :: cli_process where
  "run_fp_list = connected_then (\<lambda>h. send_or_exit h ''FP:LIST'' ''Failed to query fingerprints: '' (\<lambda>rsp.
     (let parts = split_on CHR '':'' rsp in
      if get_at parts 0 = Some ''OK'' \<and> 1 < length parts
      then (case parse_u8 (parts ! 1) of
        Ok bitmap \<Rightarrow> say_all (list_lines bitmap) Finish | Err _ \<Rightarrow> Say (''Response: '' @ rsp) Finish)
      else Warn (''Error: '' @ rsp) Finish)))"

definition invalid_slot :: "byte \<Rightarrow> cli_process" where
  "invalid_slot slot = error_exit (''Invalid slot '' @ show_word slot @ ''. Use 0-'' @
     show_word (MAX_FINGERPRINT_SLOTS - 1) @ '' for authentication, or '' @ show_word SWITCH_FINGER_SLOT @
     '' for the host-switch finger.'')"

definition captured_hint :: "byte \<Rightarrow> byte \<Rightarrow> byte \<Rightarrow> string list" where
  "captured_hint event current tot =
     (let next_step = min (if current = 255 then 255 else current + 1) (max tot 1) in
      if event = 0 then [''  Press the sensor '' @ em_dash @ '' next: '' @ step_hint next_step]
      else if event = 1 then
        [if current < tot
         then ''  Captured ['' @ show_word current @ ''/'' @ show_word tot @ ''] '' @ em_dash @ '' lift your finger. Next: '' @
           step_hint next_step
         else ''  Captured ['' @ show_word current @ ''/'' @ show_word tot @ '']'']
      else if event = 2 then [''  Processing...'']
      else if event = 3 then []
      else [''  Status: 0x'' @ hex2 event])"

text \<open>The polls of the progress that are left, and the event and capture seen last.\<close>

fun fp_enroll_polls :: "nat \<Rightarrow> byte \<Rightarrow> byte \<Rightarrow> cli_process" where
  "fp_enroll_polls 0 last_event last_current = Warn (red ''Enrollment timed out.'') (Exit 1)"
| "fp_enroll_polls (Suc n) last_event last_current = ask_daemon ''FP:STATUS'' (\<lambda>r. case r of
     Err _ \<Rightarrow> fp_enroll_polls n last_event last_current
   | Ok rsp \<Rightarrow> (case split_on CHR '':'' rsp of
       p # second # rest \<Rightarrow>
         if p \<noteq> ''OK'' \<or> second = ''IDLE'' then fp_enroll_polls n last_event last_current
         else (case parse_u8 second of
           Err _ \<Rightarrow> fp_enroll_polls n last_event last_current
         | Ok event \<Rightarrow>
             (let current = unwrap_or 0 (Option.bind (get_at rest 0) (\<lambda>f. ok (parse_u8 f)));
                  tot = unwrap_or 6 (Option.bind (get_at rest 1) (\<lambda>f. ok (parse_u8 f)))
              in if event = last_event \<and> current = last_current then fp_enroll_polls n last_event last_current
                 else if event = 4 then Say (green ''Fingerprint enrolled!'') Finish
                 else if event = 0xFF then Warn (red ''Enrollment failed.'') (Exit 1)
                 else say_all (captured_hint event current tot) (fp_enroll_polls n event current)))
     | _ \<Rightarrow> fp_enroll_polls n last_event last_current))"

definition has_fingerprints :: "(string, string) result \<Rightarrow> bool" where
  "has_fingerprints reply = (case reply of
     Err _ \<Rightarrow> False
   | Ok rsp \<Rightarrow> (let parts = split_on CHR '':'' rsp in
       get_at parts 0 = Some ''OK'' \<and>
       (case Option.bind (get_at parts 1) (\<lambda>f. ok (parse_u8 f)) of Some b \<Rightarrow> b \<noteq> 0 | None \<Rightarrow> False)))"

definition run_fp_enroll :: "byte \<Rightarrow> cli_process" where
  "run_fp_enroll slot =
     (if SWITCH_FINGER_SLOT < slot then invalid_slot slot
      else ask_daemon ''FP:LIST'' (\<lambda>f.
        say_all ((if has_fingerprints f then [''Verify with an enrolled finger to authorize enrollment'' @ ellipsis] else []) @
            (if slot = SWITCH_FINGER_SLOT
             then [''Slot '' @ show_word slot @ '' is the host-switch finger: touching it switches the device'',
                   ''between its two paired hosts. It never authenticates anything.''] else []))
          (connected_then (\<lambda>h. send_or_exit h (''FP:ENROLL:'' @ show_word slot) ''Failed to start enrollment: '' (\<lambda>rsp.
             if \<not> contains_str ''ENROLL_STARTED'' rsp then error_exit (''Enrollment failed to start: '' @ rsp)
             else say_all
               [''Enrolling fingerprint slot '' @ show_word slot @ '' (6 captures '' @ em_dash @ '' adjust finger position as prompted)'',
                ''  Next: '' @ step_hint 1]
               (fp_enroll_polls 2400 255 255))))))"

definition run_fp_delete :: "byte \<Rightarrow> cli_process" where
  "run_fp_delete slot =
     (if SWITCH_FINGER_SLOT < slot then invalid_slot slot
      else connected_then (\<lambda>h.
        send_or_exit h (''FP:DELETE:'' @ show_word slot) ''Failed to delete fingerprint: '' (\<lambda>rsp.
          if contains_str ''DELETED'' rsp then Say (green (''Fingerprint slot '' @ show_word slot @ '' deleted.'')) Finish
          else Warn (red (''Delete failed: '' @ rsp)) (Exit 1))))"

definition run_fp_verify :: cli_process where
  "run_fp_verify = connected_then (\<lambda>h. Say ''Touch the fingerprint sensor to verify...''
     (send_or_exit h ''FP:VERIFY'' ''Verification failed: '' (\<lambda>rsp.
        if contains_str ''MATCH'' rsp \<and> \<not> contains_str ''NO_MATCH'' rsp then Say (green ''Fingerprint verified!'') Finish
        else if contains_str ''NO_MATCH'' rsp then Say (red ''Fingerprint does not match.'') Finish
        else Warn (''Verification result: '' @ rsp) Finish)))"

section \<open>Settings\<close>

definition setting_label :: "string \<Rightarrow> string" where
  "setting_label k =
     (if k = ''sudo'' then ''sudo auth'' else if k = ''polkit'' then ''polkit auth''
      else if k = ''screen'' then ''screen unlock'' else if k = ''lock'' then ''long-press lock'' else k)"

definition setting_line :: "string \<Rightarrow> string option" where
  "setting_line part = map_option (\<lambda>(k, v). ''  '' @ pad_right 16 (setting_label k) @ '' '' @
     (if v = ''1'' then green ''ON'' else red ''OFF'')) (split_once CHR ''='' part)"

definition isolation_of :: "32 word \<Rightarrow> (string, string) result \<Rightarrow> (bool \<times> 32 word option \<times> string) option" where
  "isolation_of uid reply = (case reply of
     Err _ \<Rightarrow> None
   | Ok rsp \<Rightarrow> map_option (\<lambda>body.
       (let (du, sock) = fold (\<lambda>field st. case split_once CHR ''='' field of
              None \<Rightarrow> st
            | Some (k, v) \<Rightarrow> if k = ''uid'' then (ok (parse_u32 (trim v)), snd st)
                else if k = ''sock'' then (fst st, trim v) else st) (split_on CHR '':'' body) (None, [])
        in ((case du of Some u \<Rightarrow> u \<noteq> uid \<and> u \<noteq> 0 | None \<Rightarrow> False) \<and> starts_with SYSTEM_RUNTIME_DIR sock, du, sock)))
       (strip_prefix ''OK:'' rsp))"

definition privileges_line :: "(bool \<times> 32 word option \<times> string) option \<Rightarrow> string" where
  "privileges_line isolation = ''  '' @ pad_right 16 ''privileges'' @ '' '' @ (case isolation of
     None \<Rightarrow> ''unknown (daemon not reachable)''
   | Some (True, du, sock) \<Rightarrow> green ''isolated'' @ '' (uid '' @ show_word (unwrap_or 0 du) @ '', '' @ sock @ '')''
   | Some (False, _, _) \<Rightarrow> red ''NOT isolated'' @ '' '' @ em_dash @
       '' running as your user; any of your processes can pass sudo. Run '' @ quoted ''make install'' @ '' to migrate.'')"

definition pam_status_line :: "pam_dir \<Rightarrow> string \<times> string \<Rightarrow> string" where
  "pam_status_line dir e = ''  '' @ pad_right 16 (snd e) @ '' '' @
     (if pam_line_present_in dir (fst e) then green ''installed'' else yellow ''not installed'')"

definition run_show :: "32 word \<Rightarrow> cli_process" where
  "run_show uid = connected_then (\<lambda>h. send_or_exit h ''GET:SETTINGS'' ''Failed to query settings: '' (\<lambda>rsp.
     (let parts = split_on CHR '':'' rsp in
      if get_at parts 0 \<noteq> Some ''OK'' then error_exit (''Unexpected response: '' @ rsp)
      else say_all (''Settings:'' # List.map_filter setting_line (tl parts) @ [[], ''Daemon:''])
        (ask_daemon ''GET:INFO'' (\<lambda>i. Say (privileges_line (isolation_of uid i)) (say_all [[], ''PAM status:'']
          (ReadPam (\<lambda>dir. say_all (map (pam_status_line dir)
             [(''sudo'', ''sudo''), (''polkit-1'', ''polkit''), (''gdm-password'', ''screen'')]) Finish))))))))"

definition parse_on_off :: "string \<Rightarrow> string option" where
  "parse_on_off s = (let l = lowered s in
     if l = ''on'' \<or> l = ''1'' \<or> l = ''true'' then Some ''1''
     else if l = ''off'' \<or> l = ''0'' \<or> l = ''false'' then Some ''0'' else None)"

definition set_command :: "string \<Rightarrow> string \<Rightarrow> string option" where
  "set_command key val =
     (if key = ''sudo'' then Some (''SET:UNLOCK_SUDO:'' @ val) else if key = ''polkit'' then Some (''SET:UNLOCK_POLKIT:'' @ val)
      else if key = ''screen'' then Some (''SET:UNLOCK_SCREEN:'' @ val) else if key = ''lock'' then Some (''SET:LOCK_SCREEN:'' @ val)
      else None)"

definition run_set :: "string \<Rightarrow> string \<Rightarrow> cli_process" where
  "run_set key value = (case parse_on_off value of
     None \<Rightarrow> error_exit (''Value must be '' @ quoted ''on'' @ '' or '' @ quoted ''off'' @ ''.'')
   | Some val \<Rightarrow> (case set_command key val of
       None \<Rightarrow> error_exit (''Unknown setting: '' @ key)
     | Some cmd \<Rightarrow> connected_then (\<lambda>h. send_or_exit h cmd (''Failed to set '' @ key @ '': '') (\<lambda>rsp.
         if starts_with ''OK'' rsp
         then Say (green (key @ '' set to '' @ (if val = ''1'' then ''ON'' else ''OFF'') @ ''.'')) Finish
         else Warn (red (''Failed to set '' @ key @ '': '' @ rsp)) (Exit 1)))))"

section \<open>Keys\<close>

text \<open>The libraries the commands use: readers of JSON and codecs.\<close>

record 'j cli_libs =
  cl_json :: "'j json_reader"
  cl_hex :: "bytes \<Rightarrow> string"
  cl_b64 :: "bytes \<Rightarrow> string"
  cl_b64d :: "string \<Rightarrow> (bytes, string) result"
  cl_point :: "bytes \<Rightarrow> (bytes, string) result"
  cl_lcase :: "string \<Rightarrow> string"
  cl_ucase :: "string \<Rightarrow> string"
  cl_uid :: "32 word"
  cl_update :: update_json

datatype cli_category = CatSsh | CatOtp | CatApi

definition cat_wire :: "cli_category \<Rightarrow> string" where
  "cat_wire c = (case c of CatSsh \<Rightarrow> ''ssh'' | CatOtp \<Rightarrow> ''otp'' | CatApi \<Rightarrow> ''api'')"

definition cat_upper :: "cli_category \<Rightarrow> string" where
  "cat_upper c = (case c of CatSsh \<Rightarrow> ''SSH'' | CatOtp \<Rightarrow> ''OTP'' | CatApi \<Rightarrow> ''API'')"

definition category_byte :: "cli_category \<Rightarrow> byte" where
  "category_byte c = (case c of CatSsh \<Rightarrow> 0 | CatOtp \<Rightarrow> 1 | CatApi \<Rightarrow> 2)"

definition read_to_string :: "string \<Rightarrow> ((string, string) result \<Rightarrow> cli_process) \<Rightarrow> cli_process" where
  "read_to_string path k = ReadFile path (\<lambda>r. k (and_then r (\<lambda>s.
     if utf8_valid s then Ok s else Err ''stream did not contain valid UTF-8'')))"

definition parse_category :: "string \<Rightarrow> (cli_category \<Rightarrow> cli_process) \<Rightarrow> cli_process" where
  "parse_category cat k = (let c = lowered cat in
     if c = ''ssh'' then k CatSsh else if c = ''otp'' then k CatOtp else if c = ''api'' then k CatApi
     else error_exit ''Invalid category. Must be: ssh, otp, api'')"

definition key_cache_then :: "'j json_reader \<Rightarrow> string \<Rightarrow> ('j list \<Rightarrow> cli_process) \<Rightarrow> cli_process" where
  "key_cache_then J kind k = ask_daemon (''KEY:CACHE:'' @ kind) (\<lambda>r. k (case r of
     Err _ \<Rightarrow> []
   | Ok reply \<Rightarrow> unwrap_or [] (Option.bind (strip_prefix ''OK:'' reply) (\<lambda>j. json_array J (trim j)))))"

definition run_key_list :: "'j json_reader \<Rightarrow> string \<Rightarrow> cli_process" where
  "run_key_list J catg = parse_category catg (\<lambda>cat. case cat of
     CatSsh \<Rightarrow> key_cache_then J ''ssh'' (\<lambda>entries.
       if entries = [] then Say ''No SSH keys cached. Connect device to sync.'' Finish
       else say_all (''SSH keys:'' # map (\<lambda>e. ''  ['' @ show_nat (unwrap_or 0 (get_u64 J e ''index'')) @ ''] '' @
         unwrap_or ''-'' (get_str J e ''name'') @ '' ('' @ unwrap_or ''-'' (get_str J e ''fingerprint'') @ '')'') entries) Finish)
   | _ \<Rightarrow> key_cache_then J ''names'' (\<lambda>entries.
       (let filtered = filter (\<lambda>e. get_str J e ''category'' = Some (cat_wire cat)) entries in
        if filtered = [] then Say (''No '' @ cat_upper cat @ '' keys cached. Connect device to sync.'') Finish
        else say_all ((cat_upper cat @ '' keys:'') # map (\<lambda>e. ''  ['' @ show_nat (unwrap_or 0 (get_u64 J e ''index'')) @ ''] '' @
          unwrap_or ''-'' (get_str J e ''name'')) filtered) Finish)))"

definition cached_count :: "'j json_reader \<Rightarrow> cli_category \<Rightarrow> (nat \<Rightarrow> cli_process) \<Rightarrow> cli_process" where
  "cached_count J cat k = (case cat of
     CatSsh \<Rightarrow> key_cache_then J ''ssh'' (\<lambda>es. k (length es))
   | _ \<Rightarrow> key_cache_then J ''names'' (\<lambda>es. k (length (filter (\<lambda>e. get_str J e ''category'' = Some (cat_wire cat)) es))))"

definition category_capacity :: "cli_category \<Rightarrow> nat" where
  "category_capacity cat = unat (case cat of CatSsh \<Rightarrow> KEY_MAX_SSH | CatOtp \<Rightarrow> KEY_MAX_OTP | CatApi \<Rightarrow> KEY_MAX_API)"

definition check_capacity_or_exit :: "'j json_reader \<Rightarrow> cli_category \<Rightarrow> cli_process \<Rightarrow> cli_process" where
  "check_capacity_or_exit J cat k = cached_count J cat (\<lambda>current.
     if category_capacity cat \<le> current
     then error_exit (cat_upper cat @ '' keystore is full ('' @ show_nat current @ ''/'' @ show_nat (category_capacity cat) @
       ''). Delete an entry first: `immurok-cli key delete '' @ cat_wire cat @ '' <index>`.'')
     else k)"

text \<open>A line of the standard input whose read error is a panic (exit code 101).\<close>

definition read_trimmed :: "string \<Rightarrow> (string \<Rightarrow> cli_process) \<Rightarrow> cli_process" where
  "read_trimmed prompt k = Ask prompt (\<lambda>l. case l of Some s \<Rightarrow> k (trim s) | None \<Rightarrow> Exit 101)"

definition send_add :: "cli_category \<Rightarrow> string \<Rightarrow> string \<Rightarrow> cli_process" where
  "send_add cat nm cmd = connected_then (\<lambda>h. Say (''Touch the sensor to authorize the write'' @ ellipsis)
     (send_or_exit h cmd ''Failed to add key: '' (\<lambda>rsp.
        if starts_with ''OK'' rsp then Say (green (cat_upper cat @ '' key '' @ quoted nm @ '' added.'')) Finish
        else Warn (''Add key failed: '' @ rsp) Finish)))"

definition add_secret :: "(bytes \<Rightarrow> string) \<Rightarrow> cli_category \<Rightarrow> string \<Rightarrow> string \<Rightarrow> string \<Rightarrow> cli_process" where
  "add_secret hx cat nm svc txt = (case cat of
     CatOtp \<Rightarrow> (case base32_decode txt of
       None \<Rightarrow> error_exit ''Invalid base32 secret.''
     | Some b \<Rightarrow>
         if b = [] then error_exit ''Invalid base32 secret.''
         else if SECRET_LEN_OTP < length b then error_exit (''Secret too long: '' @ show_nat (length b) @
           '' bytes decoded (device limit '' @ show_nat SECRET_LEN_OTP @ '').'')
         else send_add cat nm (build_key_add_cmd hx AddOtp nm svc b))
   | _ \<Rightarrow>
       if VALUE_LEN_API < length txt then error_exit (''Value too long: '' @ show_nat (length txt) @
         '' bytes (device limit '' @ show_nat VALUE_LEN_API @ '').'')
       else send_add cat nm (build_key_add_cmd hx AddApi nm [] (as_bytes txt)))"

definition run_key_add :: "'j cli_libs \<Rightarrow> string \<Rightarrow> cli_process" where
  "run_key_add L catg = parse_category catg (\<lambda>cat.
     if cat = CatSsh then error_exit ''SSH keys are generated on-device: use `immurok-cli key generate <name>` or `immurok-cli key import <name> <file>`.''
     else check_capacity_or_exit (cl_json L) cat (Say (''Adding '' @ cat_upper cat @ '' key (interactive).'')
       (read_trimmed ''Key name: '' (\<lambda>nm.
          if nm = [] then error_exit ''Name cannot be empty.''
          else (let secret = (\<lambda>svc. read_trimmed (if cat = CatOtp then ''TOTP secret (base32): '' else ''API key value: '') (\<lambda>s.
                  if s = [] then error_exit ''Secret cannot be empty.'' else add_secret (cl_hex L) cat nm svc s))
                in if cat = CatOtp then read_trimmed ''Service / issuer (optional): '' secret else secret [])))))"

definition run_key_delete :: "string \<Rightarrow> byte \<Rightarrow> cli_process" where
  "run_key_delete catg idx = parse_category catg (\<lambda>cat. connected_then (\<lambda>h.
     send_or_exit h (''KEY:DELETE:'' @ show_word (category_byte cat) @ '':'' @ show_word idx) ''Failed to delete key: '' (\<lambda>rsp.
       if starts_with ''OK'' rsp then Say (green (cat_upper cat @ '' key ['' @ show_word idx @ ''] deleted.'')) Finish
       else Warn (''Delete failed: '' @ rsp) Finish)))"

definition run_export_ssh :: "'j json_reader \<Rightarrow> byte \<Rightarrow> cli_process" where
  "run_export_ssh J idx = key_cache_then J ''ssh'' (\<lambda>entries.
     if entries = [] then error_exit ''No SSH keys cached. Connect device to sync.''
     else case List.find (\<lambda>e. get_u64 J e ''index'' = Some (unat idx)) entries of
       None \<Rightarrow> error_exit (''SSH key index '' @ show_word idx @ '' not found.'')
     | Some e \<Rightarrow> (let blob = unwrap_or [] (get_str J e ''public_key_blob'') in
         if blob = [] then error_exit ''No public key data for this entry.''
         else Say (''ecdsa-sha2-nistp256 '' @ blob @ '' '' @ unwrap_or ''immurok'' (get_str J e ''name'')) Finish))"

text \<open>The write requests of the client library: a request on a connection of its own.\<close>

definition send_write :: "string \<Rightarrow> ((unit, string) result \<Rightarrow> cli_process) \<Rightarrow> cli_process" where
  "send_write cmd k = ask_daemon cmd (\<lambda>r. k (and_then r parse_write_reply))"

definition run_generate_ssh :: "'j cli_libs \<Rightarrow> string \<Rightarrow> cli_process" where
  "run_generate_ssh L nm = check_capacity_or_exit (cl_json L) CatSsh
     (Say (''Generating SSH keypair '' @ quoted nm @ '' on device...'')
       (send_write (generate_ssh_cmd (cl_hex L) nm) (\<lambda>r. case r of
          Ok _ \<Rightarrow> say_all [green (''SSH keypair '' @ quoted nm @ '' generated.''),
            ''Use '' @ quoted ''immurok-cli key list ssh'' @ '' to see the new key.''] Finish
        | Err e \<Rightarrow> Warn (''Generate failed: '' @ e) Finish)))"

definition run_import_ssh :: "'j cli_libs \<Rightarrow> string \<Rightarrow> string \<Rightarrow> cli_process" where
  "run_import_ssh L nm keyfile = check_capacity_or_exit (cl_json L) CatSsh
     (read_to_string keyfile (\<lambda>f. case f of
        Err e \<Rightarrow> error_exit (''Cannot read key file '' @ quoted keyfile @ '': '' @ e)
      | Ok pem \<Rightarrow> Say (''Importing SSH key '' @ quoted nm @ '' to device...'')
          ((case import_ssh_cmd (cl_hex L) (cl_b64d L) (cl_point L) nm pem of
             Err e \<Rightarrow> (\<lambda>k. k (Err e)) | Ok cmd \<Rightarrow> send_write cmd) (\<lambda>r. case r of
               Ok _ \<Rightarrow> say_all [green (''SSH key '' @ quoted nm @ '' imported successfully.''),
                 ''Use '' @ quoted ''immurok-cli key list ssh'' @ '' to see the imported key.''] Finish
             | Err e \<Rightarrow> Warn (''Import failed: '' @ e) (Exit 1)))))"

definition import_mark :: "nat \<Rightarrow> nat \<Rightarrow> string \<Rightarrow> string" where
  "import_mark i n nm = ''  ['' @ pad_left 3 (show_nat i) @ ''/'' @ show_nat n @ ''] '' @ nm @ '' '' @ right_arrow @ '' ''"

text \<open>The entries that are left, the number of the next one, and how many were imported.\<close>

fun import_entries :: "(bytes \<Rightarrow> string) \<Rightarrow> nat \<Rightarrow> nat \<Rightarrow> nat \<Rightarrow> otp_entry list \<Rightarrow> (nat \<Rightarrow> cli_process) \<Rightarrow> cli_process" where
  "import_entries hx n i imported [] k = k imported"
| "import_entries hx n i imported (e # es) k =
     (let go = (\<lambda>r. case r of
            Ok _ \<Rightarrow> Say (import_mark i n (otp_name e) @ ''OK'') (import_entries hx n (i + 1) (imported + 1) es k)
          | Err m \<Rightarrow> Warn (import_mark i n (otp_name e) @ ''FAILED: '' @ m)
              (Warn ''Aborting (remaining entries not imported).'' (k imported)))
      in case add_otp_cmd hx e of Err m \<Rightarrow> go (Err m) | Ok cmd \<Rightarrow> send_write cmd go)"

definition run_import_otp :: "'j cli_libs \<Rightarrow> string \<Rightarrow> cli_process" where
  "run_import_otp L path = read_to_string path (\<lambda>f. case f of
     Err e \<Rightarrow> error_exit (''Cannot read '' @ quoted path @ '': '' @ e)
   | Ok content \<Rightarrow> (case parse_otp_import_file (cl_json L) (cl_lcase L) (cl_ucase L) path content of
       Err e \<Rightarrow> error_exit e
     | Ok (entries, skipped) \<Rightarrow> cached_count (cl_json L) CatOtp (\<lambda>cached.
         (let mx = unat KEY_MAX_OTP; remaining = mx - cached; n = length entries;
              skip_note = (if 0 < skipped then '' ('' @ show_nat skipped @
                '' skipped: only standard TOTP / HMAC-SHA1 / 6-digit / 30-second supported)'' else [])
          in if remaining < n then error_exit (''Cannot import '' @ show_nat n @ '' entries: only '' @ show_nat remaining @
                 '' OTP slots remaining (max '' @ show_nat mx @ ''). Delete some entries first.'')
             else Ask (''Import '' @ show_nat n @ '' OTP entr'' @ (if n = 1 then ''y'' else ''ies'') @ skip_note @ '' '' @ em_dash @
                 '' touch the sensor when prompted. Continue? [y/N] '') (\<lambda>l. case l of
               None \<Rightarrow> Finish
             | Some _ \<Rightarrow>
                 if \<not> says_yes l then Say ''Cancelled.'' Finish
                 else import_entries (cl_hex L) n 1 0 entries (\<lambda>imported.
                   Say (green (''Imported '' @ show_nat imported @ ''/'' @ show_nat n @ '' OTP entries.'') @ skip_note) Finish))))))"

definition run_otp :: "byte \<Rightarrow> cli_process" where
  "run_otp idx = connected_then (\<lambda>h. send_or_exit h (''KEY:OTP:'' @ show_word idx) ''Failed to get OTP: '' (\<lambda>rsp.
     case strip_prefix ''OK:'' rsp of
       Some code \<Rightarrow> Say code Finish | None \<Rightarrow> Warn (''OTP failed: '' @ rsp) (Exit 1)))"

section \<open>The daemon service\<close>

fun restart_polls :: "nat \<Rightarrow> cli_process" where
  "restart_polls 0 = error_exit (''Daemon restarted but socket not up after 10s '' @ em_dash @ '' check logs (immurok-cli logs).'')"
| "restart_polls (Suc n) = ask_daemon ''STATUS'' (\<lambda>r. case r of
     Ok _ \<Rightarrow> Say (green ''Daemon restarted and back online.'') Finish
   | Err _ \<Rightarrow> restart_polls n)"

definition run_restart :: cli_process where
  "run_restart = Say ''Restarting immurok-daemon...'' (Systemctl (\<lambda>r. case r of
     Err e \<Rightarrow> error_exit (''Failed to run systemctl: '' @ e @ '' (is this a systemd system?)'')
   | Ok (code, stderr) \<Rightarrow>
       if code \<noteq> Some 0
       then error_exit (''systemctl --user restart immurok-daemon failed (exit '' @
         (case code of Some c \<Rightarrow> (if c < 0 then ''-'' else []) @ show_nat (nat \<bar>c\<bar>) | None \<Rightarrow> ''-1'') @ ''):'' @ nl @ trim stderr)
       else restart_polls 20))"

section \<open>Firmware\<close>

definition fw_error_str :: "fw_update_error \<Rightarrow> string" where
  "fw_error_str e = (case e of
     ManifestFetch s \<Rightarrow> ''failed to fetch update manifest: '' @ s
   | ManifestSchema s \<Rightarrow> ''unsupported manifest: '' @ s
   | Download s \<Rightarrow> ''download failed: '' @ s
   | Sha256Mismatch \<Rightarrow> ''downloaded file is corrupt (sha256 mismatch)''
   | PackageInvalid s \<Rightarrow> ''invalid firmware package: '' @ s
   | Preflight s \<Rightarrow> ''preflight failed: '' @ s
   | Transfer st d \<Rightarrow> ''transfer failed at '' @ st @ '': '' @ d
   | HeaderRejected s \<Rightarrow> ''device rejected firmware header: '' @ s
   | SignatureRejected \<Rightarrow> ''device rejected firmware signature (unofficial build?)''
   | ReconnectTimeout v \<Rightarrow> ''device did not report version '' @ v @ '' within 60s '' @ em_dash @
       '' it may still be verifying; run `immurok-cli fw check` in a minute''
   | LowBattery \<Rightarrow> ''device battery too low '' @ em_dash @ '' charge to at least 30% and retry''
   | Store s \<Rightarrow> ''storage error: '' @ s)"

definition open_store :: "cli_process \<Rightarrow> cli_process" where
  "open_store k = OpenStore (\<lambda>r. case r of Ok _ \<Rightarrow> k | Err e \<Rightarrow> error_exit (fw_error_str e))"

definition plan_lines :: "update_plan \<Rightarrow> string option \<Rightarrow> string list" where
  "plan_lines plan notes =
     [yellow (''Update available'' @ (case plan of TwoHops \<Rightarrow> '' (2 hops via bridge)'' | _ \<Rightarrow> []))] @
     (case notes of Some n \<Rightarrow> [''Notes: '' @ n] | None \<Rightarrow> []) @ [''Run `immurok-cli fw update` to install.'']"

definition run_fw_check :: "bool \<Rightarrow> cli_process" where
  "run_fw_check force = open_store (ask_daemon ''STATUS'' (\<lambda>r. case query_device_status r of
     Err e \<Rightarrow> error_exit (fw_error_str e)
   | Ok st \<Rightarrow>
       if \<not> cs_connected st then error_exit ''Device not connected.''
       else FetchManifest force (\<lambda>m. case m of
         Err e \<Rightarrow> error_exit (fw_error_str e)
       | Ok m \<Rightarrow>
           (let device = normalize_semver (cs_version st);
                plan = update_plan_of device (version (latest m)) (asset_min_direct (latest m)) in
            say_all [''Device firmware: '' @ device, ''Latest version:  '' @ version (latest m)]
              (case plan of
                 UpToDate \<Rightarrow> Say (green ''Firmware is up to date.'') Finish
               | UnknownPlan \<Rightarrow> error_exit (''Cannot parse device version '' @ quoted (cs_version st) @ ''. Reconnect and retry.'')
               | _ \<Rightarrow> say_all (plan_lines plan (asset_notes (latest m))) Finish)))))"

definition update_lines :: "prepared_update \<Rightarrow> string list" where
  "update_lines prep =
     (if prep_resumed prep
      then [''Resuming interrupted update: '' @ prep_device prep @ '' '' @ right_arrow @ '' '' @ prep_target prep]
      else [''Update: '' @ prep_device prep @ '' '' @ right_arrow @ '' '' @ prep_target prep] @
        (case prep_hops prep of
           [a, b] \<Rightarrow> [''Plan: 2 hops (bridge '' @ hop_version a @ '' '' @ right_arrow @ '' '' @ hop_version b @ '')'']
         | _ \<Rightarrow> []) @
        (case prep_notes prep of Some n \<Rightarrow> [''Notes: '' @ n] | None \<Rightarrow> []))"

definition install_update :: "prepared_update \<Rightarrow> cli_process" where
  "install_update prep = Say [] (ExecuteUpdate prep (\<lambda>r. case r of
     Ok _ \<Rightarrow> Say (green (''Update complete '' @ em_dash @ '' device is now on '' @ prep_target prep @ ''.'')) Finish
   | Err e \<Rightarrow> error_exit (fw_error_str e)))"

definition run_fw_update :: "bool \<Rightarrow> cli_process" where
  "run_fw_update yes = open_store (PrepareUpdate (\<lambda>r. case r of
     Ok None \<Rightarrow> Say (green ''Firmware is up to date.'') Finish
   | Err e \<Rightarrow> error_exit (fw_error_str e)
   | Ok (Some prep) \<Rightarrow> say_all (update_lines prep)
       (if yes then install_update prep
        else Ask ''Proceed with the update? [y/N] '' (\<lambda>l.
          if says_yes l then install_update prep else Say ''Aborted.'' Finish))))"

definition run_fw_status :: "update_json \<Rightarrow> cli_process" where
  "run_fw_status J = open_store (ReadStore (\<lambda>(lc, pending, unix). say_all
     ((case lc of
         None \<Rightarrow> [''Last check: never'']
       | Some c \<Rightarrow>
           [''Last check: '' @ show_nat ((unat unix - unat (checked_at c)) div 3600) @ ''h ago'',
            (case manifest_decode (manifest_dec J) (manifest_json c) of
               Ok m \<Rightarrow> ''Cached latest: '' @ version (latest m) | Err _ \<Rightarrow> ''Cached manifest: (unreadable)'')]) @
      [case pending of
         Some p \<Rightarrow> yellow (''Pending resume: '' @ right_arrow @ '' '' @ target_version p @ '' (bridge '' @ bridge_version p @
           '' done). Run `immurok-cli fw update`.'')
       | None \<Rightarrow> ''Pending resume: none'']) Finish))"

section \<open>A package pushed by hand\<close>

text \<open>The format \<open>{:.1}\<close> of a number of bytes in units of 1024, rounding half to even.\<close>

definition show_kb :: "nat \<Rightarrow> string" where
  "show_kb n =
     (let q = n * 10 div 1024; r = n * 10 mod 1024; t = (if 512 < r \<or> (r = 512 \<and> odd q) then q + 1 else q)
      in show_nat (t div 10) @ ''.'' @ show_nat (t mod 10))"

definition hex_upper :: "nat \<Rightarrow> 32 word \<Rightarrow> string" where
  "hex_upper n w = (let s = map ascii_upper (show_hex (unat w)) in replicate (n - length s) CHR ''0'' @ s)"

definition package_lines :: "string \<Rightarrow> imfw_package \<Rightarrow> string list" where
  "package_lines path pkg =
     [''Firmware: '' @ path,
      ''  Format version: '' @ show_word (format_version pkg),
      ''  Hardware ID:    0x'' @ hex_upper 4 (ucast (hw_id pkg)),
      ''  Plaintext size: '' @ show_word (fw_size pkg) @ '' bytes ('' @ show_kb (unat (fw_size pkg)) @ '' KB)'',
      ''  Encrypted size: '' @ show_nat (length (firmware pkg)) @ '' bytes ('' @ show_kb (length (firmware pkg)) @ '' KB)'']"

definition radix16 :: "string \<Rightarrow> 32 word" where
  "radix16 s = unwrap_or 0 (ok (parse_hex_u32 s))"

definition device_lines :: "string \<Rightarrow> string list" where
  "device_lines payload = (case split_on CHR '':'' payload of
     f # s # b # c # _ \<Rightarrow>
       [''  Image Flag: 0x'' @ hex_upper 2 (radix16 f),
        ''  Image Size: '' @ show_word (radix16 s) @ '' bytes ('' @ show_word (radix16 s div 1024) @ '' KB)'',
        ''  Block Size: '' @ show_word (radix16 b) @ '' bytes'',
        ''  Chip ID:    0x'' @ hex_upper 4 (radix16 c)]
   | _ \<Rightarrow> [])"

text \<open>The commands of a push, each with the lines printed before it.\<close>

definition push_steps :: "(bytes \<Rightarrow> string) \<Rightarrow> imfw_package \<Rightarrow> (string list \<times> string) list" where
  "push_steps enc pkg =
     (let n = (length (firmware pkg) + CHUNK_SIZE - 1) div CHUNK_SIZE in
      [([nl @ ''[1/5] Querying device info...''], ''OTA:INFO''),
       ([nl @ ''[2/5] Erasing Image B (~3-5 seconds)...''], ''OTA:ERASE''),
       ([nl @ ''[3/5] Sending encrypted header...''], ''OTA:HEADER:'' @ enc (header pkg))] @
      map (\<lambda>i. (if i = 0 then [nl @ ''[4/5] Writing encrypted data ('' @ show_nat n @ '' chunks)...''] else [],
                write_cmd enc (firmware pkg) i)) [0..<n] @
      [([nl @ ''[5/5] Verifying signature and rebooting...''], ''OTA:END'')])"

fun push_process :: "nat \<Rightarrow> (string list \<times> string) list \<Rightarrow> (fw_update_error option \<Rightarrow> cli_process) \<Rightarrow> cli_process" where
  "push_process h [] k = k None"
| "push_process h ((ls, cmd) # steps) k = say_all ls (Send h cmd (\<lambda>r.
     if acked r then
       say_all (if cmd = ''OTA:INFO'' then (case Option.bind (ok r) (\<lambda>t. strip_prefix ''OK:'' (trim t)) of
           Some p \<Rightarrow> device_lines p | None \<Rightarrow> []) else [])
         (push_process h steps k)
     else k (Some (push_error cmd r))))"

definition run_ota :: "'j cli_libs \<Rightarrow> string \<Rightarrow> cli_process" where
  "run_ota L path = ReadFile path (\<lambda>f. case f of
     Err e \<Rightarrow> error_exit (''Cannot read '' @ quoted path @ '': '' @ e)
   | Ok d \<Rightarrow> (case imfw_parse (as_bytes d) of
       Err e \<Rightarrow> error_exit (''Not a valid .imfw file ('' @ imfw_error_str e @ '').'' @ nl @
         ''Hint: build via `ota/build-ota.sh release` or run `ota/ota-package.py` on a .bin'')
     | Ok pkg \<Rightarrow> say_all (package_lines path pkg) (connected_then (\<lambda>h. Say []
         (Send h ''OTA:VERSION'' (\<lambda>v. say_all (case Option.bind (ok v) (strip_prefix ''OK:'') of
             Some cur \<Rightarrow> [''  Current version: '' @ trim cur] | None \<Rightarrow> [])
           (push_process h (push_steps (cl_b64 L) pkg) (\<lambda>e. case e of
              None \<Rightarrow> say_all [''  Device rebooting'', nl @ green ''Update complete!'',
                ''Device is rebooting, IAP will copy the new firmware automatically.'',
                ''Reconnection takes ~20 seconds.''] Finish
            | Some err \<Rightarrow> error_exit (if err = LowBattery
                then ''Device battery too low for OTA (<5%). Charge and retry.'' else fw_error_str err)))))))))"

section \<open>The command line\<close>

datatype fp_command = FpList | FpEnroll byte | FpDelete byte | FpVerify

datatype key_command =
    KeyList string | KeyAdd string | KeyDelete string byte | KeyExportSsh byte | KeyGenerateSsh string
  | KeyImportSsh string string | KeyOtp byte | KeyImportOtp string

datatype set_command_line = SetSudo string | SetPolkit string | SetScreen string | SetLock string

datatype pam_command = PamInstall string | PamRemove string | PamCheck | PamRepair

datatype fw_command = FwCheck bool | FwUpdate bool | FwStatus

datatype cli_command =
    CmdStatus | CmdInfo | CmdPair | CmdUnpair "byte option" | CmdSlotStatus | CmdFactoryReset
  | CmdFp fp_command | CmdKey key_command | CmdSet set_command_line | CmdSettings | CmdDaemonRestart
  | CmdFw fw_command | CmdOta string | CmdPam pam_command | CmdLogs | CmdTui

definition requires_pairing :: "cli_command \<Rightarrow> bool" where
  "requires_pairing c = (case c of
     CmdStatus \<Rightarrow> False | CmdPair \<Rightarrow> False | CmdLogs \<Rightarrow> False | CmdTui \<Rightarrow> False | CmdOta _ \<Rightarrow> False | CmdFw _ \<Rightarrow> False
   | CmdSlotStatus \<Rightarrow> False | CmdSettings \<Rightarrow> False | CmdUnpair _ \<Rightarrow> False | CmdFactoryReset \<Rightarrow> False
   | CmdDaemonRestart \<Rightarrow> False
   | CmdInfo \<Rightarrow> True | CmdFp _ \<Rightarrow> True | CmdKey _ \<Rightarrow> True | CmdSet _ \<Rightarrow> True | CmdPam _ \<Rightarrow> True)"

definition ensure_paired :: "cli_process \<Rightarrow> cli_process" where
  "ensure_paired k = ask_daemon ''PAIR:STATUS'' (\<lambda>r. case r of
     Err e \<Rightarrow> error_exit e
   | Ok rsp \<Rightarrow>
       if get_at (split_on CHR '':'' rsp) 1 = Some ''PAIRED'' then k
       else error_exit (''Device not paired. Run '' @ quoted ''immurok-cli pair'' @
         '' first. (Before pairing only fw/ota, daemon restart, status and logs are available.)''))"

definition fp_main :: "fp_command \<Rightarrow> cli_process" where
  "fp_main c = (case c of FpList \<Rightarrow> run_fp_list | FpEnroll s \<Rightarrow> run_fp_enroll s | FpDelete s \<Rightarrow> run_fp_delete s
     | FpVerify \<Rightarrow> run_fp_verify)"

definition key_main :: "'j cli_libs \<Rightarrow> key_command \<Rightarrow> cli_process" where
  "key_main L c = (case c of
     KeyList cat \<Rightarrow> run_key_list (cl_json L) cat | KeyAdd cat \<Rightarrow> run_key_add L cat
   | KeyDelete cat i \<Rightarrow> run_key_delete cat i | KeyExportSsh i \<Rightarrow> run_export_ssh (cl_json L) i
   | KeyGenerateSsh nm \<Rightarrow> run_generate_ssh L nm | KeyImportSsh nm f \<Rightarrow> run_import_ssh L nm f
   | KeyOtp i \<Rightarrow> run_otp i | KeyImportOtp f \<Rightarrow> run_import_otp L f)"

definition set_main :: "set_command_line \<Rightarrow> cli_process" where
  "set_main c = (case c of SetSudo v \<Rightarrow> run_set ''sudo'' v | SetPolkit v \<Rightarrow> run_set ''polkit'' v
     | SetScreen v \<Rightarrow> run_set ''screen'' v | SetLock v \<Rightarrow> run_set ''lock'' v)"

definition pam_check_process :: cli_process where
  "pam_check_process = ask_daemon ''GET:SETTINGS'' (\<lambda>r. ReadPam (\<lambda>dir. case fetch_toggles r of (sudo_on, polkit_on) \<Rightarrow>
     (let wanted = desired_services sudo_on polkit_on; missing = filter (\<lambda>s. \<not> pam_line_present_in dir s) wanted in
      say_all
        (''PAM status (by enabled features):'' #
         map (\<lambda>s. ''  '' @ pad_right 10 s @ '' '' @
           (if pam_line_present_in dir s then green ''OK'' else yellow ''MISSING'')) wanted @
         (if dir ''gdm-password'' \<noteq> None \<and> \<not> pam_line_present_in dir ''gdm-password''
          then [''  '' @ pad_right 14 ''gdm-password'' @ '' '' @ yellow ''MISSING (login screen, optional)''] else []) @
         (if wanted = [] then [styled ''90'' ''No PAM-dependent features are enabled.''] else []))
        (if missing = [] then Say (green ''All configured.'') Finish
         else Warn (yellow (show_nat (length missing) @ '' missing '' @ em_dash @ '' run '' @ quoted ''immurok-cli pam repair'' @
           '' to fix.'')) (Exit 1)))))"

text \<open>The run of the helper with its messages is a step of the world; its result is an exit code.\<close>

definition helper_process :: "string \<Rightarrow> string list \<Rightarrow> cli_process" where
  "helper_process action svcs = PamHelper action svcs (\<lambda>code. if code = 0 then Finish else Exit code)"

definition pam_repair_process :: cli_process where
  "pam_repair_process = ask_daemon ''GET:SETTINGS'' (\<lambda>r. ReadPam (\<lambda>dir. case fetch_toggles r of (sudo_on, polkit_on) \<Rightarrow>
     (let to_fix = services_to_repair_in dir sudo_on polkit_on in
      if to_fix = [] then Say (green (''Nothing to repair '' @ em_dash @ '' all configured.'')) Finish
      else Say (''Will repair: '' @ join '', '' to_fix) (helper_process ''add'' to_fix))))"

definition pam_main :: "pam_command \<Rightarrow> cli_process" where
  "pam_main c = (case c of
     PamInstall s \<Rightarrow> helper_process ''add'' [s]
   | PamRemove s \<Rightarrow> helper_process ''remove'' [s]
   | PamCheck \<Rightarrow> pam_check_process
   | PamRepair \<Rightarrow> pam_repair_process)"

definition fw_main :: "update_json \<Rightarrow> fw_command \<Rightarrow> cli_process" where
  "fw_main J c = (case c of FwCheck force \<Rightarrow> run_fw_check force | FwUpdate yes \<Rightarrow> run_fw_update yes | FwStatus \<Rightarrow> run_fw_status J)"

definition command_main :: "'j cli_libs \<Rightarrow> cli_command \<Rightarrow> cli_process" where
  "command_main L c = (case c of
     CmdStatus \<Rightarrow> run_status
   | CmdInfo \<Rightarrow> run_info
   | CmdPair \<Rightarrow> run_pair
   | CmdUnpair slot \<Rightarrow> run_unpair slot
   | CmdSlotStatus \<Rightarrow> run_slot_status
   | CmdFactoryReset \<Rightarrow> run_factory_reset
   | CmdFp f \<Rightarrow> fp_main f
   | CmdKey k \<Rightarrow> key_main L k
   | CmdSet s \<Rightarrow> set_main s
   | CmdSettings \<Rightarrow> run_show (cl_uid L)
   | CmdDaemonRestart \<Rightarrow> run_restart
   | CmdFw f \<Rightarrow> fw_main (cl_update L) f
   | CmdOta path \<Rightarrow> run_ota L path
   | CmdPam p \<Rightarrow> pam_main p
   | CmdLogs \<Rightarrow> StreamLogs (\<lambda>r. case r of Ok ls \<Rightarrow> say_all ls Finish | Err e \<Rightarrow> Warn e Finish)
   | CmdTui \<Rightarrow> RunTui (\<lambda>r. case r of Ok _ \<Rightarrow> Finish | Err e \<Rightarrow> Warn (''TUI error: '' @ e) (Exit 1)))"

definition cli_main :: "'j cli_libs \<Rightarrow> cli_command \<Rightarrow> cli_process" where
  "cli_main L c = (if requires_pairing c then ensure_paired (command_main L c) else command_main L c)"

end
