(* ===== verification/Cli_Safety.thy ===== *)
theory Cli_Safety
  imports Cli_Commands
begin

text \<open>
  What the commands of \<open>immurok-cli\<close> do and do not do, in every world: nothing is destroyed without the right
  confirmation, an unpaired device is not spoken to, a package pushed by hand is pushed as an update
  is, and the places where the answer of a command is not what its text promises.
\<close>

section \<open>Commands that destroy nothing\<close>

definition wipes :: "string \<Rightarrow> bool" where
  "wipes r \<longleftrightarrow> r = ''PAIR:FACTORY_RESET''"

definition clears_slot :: "string \<Rightarrow> bool" where
  "clears_slot r \<longleftrightarrow> starts_with ''SLOT:CLEAR'' r"

definition tame :: "string \<Rightarrow> bool" where
  "tame r \<longleftrightarrow> \<not> wipes r \<and> \<not> clears_slot r"

lemma starts_with_Cons_iff [simp]:
  "starts_with (p # ps) (c # s) \<longleftrightarrow> p = c \<and> starts_with ps s" "starts_with [] s" "\<not> starts_with (p # ps) []"
  by (auto simp: starts_with_def)

lemma tame_simps [simp]:
  "tame ''STATUS''" "tame ''PAIR:STATUS''" "tame ''PAIR:PROGRESS''" "tame ''PAIR:START''" "tame ''SLOT:STATUS''"
  "tame (CHR ''F'' # s)" "tame (CHR ''G'' # s)" "tame (CHR ''K'' # s)" "tame (CHR ''O'' # s)" "tame (CHR ''S'' # CHR ''E'' # s)"
  by (simp_all add: tame_def wipes_def clears_slot_def)

lemma sends_only_ask [simp]: "sends_only P (ask_daemon r k) \<longleftrightarrow> (\<forall>x. sends_only P (k x)) \<and> P r"
proof
  assume a: "sends_only P (ask_daemon r k)"
  then have p: "\<And>h. P r" and s: "\<And>x. sends_only P (k x)"
    unfolding ask_daemon_def by (auto dest: spec [of _ "Ok 0"] split: result.splits)
  show "(\<forall>x. sends_only P (k x)) \<and> P r" using p s by blast
qed (auto simp: ask_daemon_def split: result.split)

lemma sends_only_connected [simp]: "sends_only P (connected_then k) \<longleftrightarrow> (\<forall>h. sends_only P (k h))"
  by (auto simp: connected_then_def split: result.split dest: spec [of _ "Ok _"])

lemma sends_only_send_or_exit [simp]:
  "sends_only P (send_or_exit h r m k) \<longleftrightarrow> P r \<and> (\<forall>x. sends_only P (k x))"
  by (auto simp: send_or_exit_def split: result.split dest: spec [of _ "Ok _"])

lemma sends_only_confirm [simp]:
  "(\<forall>b. sends_only P (k b)) \<Longrightarrow> sends_only P (confirm q k)"
  "(\<forall>b. sends_only P (k b)) \<Longrightarrow> sends_only P (confirm_literal_yes q k)"
  by (simp_all add: confirm_def confirm_literal_yes_def)

abbreviation harmless_process :: "cli_process \<Rightarrow> bool" where
  "harmless_process \<equiv> sends_only tame"

lemma harmless_device_info:
  "harmless_process run_status" "harmless_process run_info" "harmless_process run_slot_status"
  by (simp_all add: run_status_def run_info_def run_slot_status_def Let_def split: result.split option.split slot_status.split)

lemma harmless_polls: "harmless_process (fp_enroll_polls n e c)"
  by (induction n e c rule: fp_enroll_polls.induct)
    (simp_all add: Let_def split: result.split list.split)

lemma harmless_fp: "harmless_process (fp_main f)"
  by (simp add: fp_main_def run_fp_list_def run_fp_enroll_def run_fp_delete_def run_fp_verify_def invalid_slot_def
      harmless_polls Let_def split: fp_command.split result.split)

lemma harmless_settings: "harmless_process (run_show uid)" "harmless_process (run_set k v)"
  by (auto simp: run_show_def run_set_def set_command_def Let_def split: option.split if_splits)

lemma harmless_category: "(\<And>c. harmless_process (k c)) \<Longrightarrow> harmless_process (parse_category cat k)"
  by (simp add: parse_category_def Let_def)

lemma harmless_cache: "(\<And>es. harmless_process (k es)) \<Longrightarrow> harmless_process (key_cache_then J kind k)"
  by (simp add: key_cache_then_def)

lemma harmless_count: "(\<And>n. harmless_process (k n)) \<Longrightarrow> harmless_process (cached_count J c k)"
  by (simp add: cached_count_def harmless_cache split: cli_category.split)

lemma harmless_capacity: "harmless_process k \<Longrightarrow> harmless_process (check_capacity_or_exit J c k)"
  by (simp add: check_capacity_or_exit_def harmless_count)

lemma harmless_read: "(\<And>s. harmless_process (k s)) \<Longrightarrow> harmless_process (read_trimmed q k)"
  "(\<And>r. harmless_process (g r)) \<Longrightarrow> harmless_process (read_to_string f g)"
  by (simp_all add: read_trimmed_def read_to_string_def split: option.split)

lemma harmless_write: "tame cmd \<Longrightarrow> (\<And>r. harmless_process (k r)) \<Longrightarrow> harmless_process (send_write cmd k)"
  by (simp add: send_write_def)

lemma harmless_entries: "(\<And>n. harmless_process (k n)) \<Longrightarrow> harmless_process (import_entries hx n i m es k)"
proof (induction hx n i m es k rule: import_entries.induct)
  case (2 hx n i m e es k)
  have "tame cmd" if "add_otp_cmd hx e = Ok cmd" for cmd
    using that by (auto simp: add_otp_cmd_def split: if_splits)
  then show ?case using 2 by (auto simp: Let_def intro!: harmless_write split: result.split)
qed simp

lemma harmless_add_secret: "harmless_process (add_secret hx c nm svc txt)"
  by (auto simp: add_secret_def send_add_def build_key_add_cmd_def split: cli_category.split option.split)

lemma harmless_keys: "harmless_process (key_main L c)"
proof (cases c)
  case (KeyImportSsh nm f)
  have "tame cmd" if "import_ssh_cmd hx b64d pt nm pem = Ok cmd" for cmd hx b64d pt pem
    using that by (cases "build_ssh_import_payload b64d pt nm pem") (auto simp: import_ssh_cmd_def)
  then show ?thesis
    by (auto simp: KeyImportSsh key_main_def run_import_ssh_def intro!: harmless_capacity harmless_read harmless_write
        split: result.split)
qed (auto simp: key_main_def run_key_list_def run_key_add_def run_key_delete_def run_export_ssh_def run_generate_ssh_def
    run_otp_def run_import_otp_def generate_ssh_cmd_def Let_def
    intro!: harmless_category harmless_cache harmless_capacity harmless_read harmless_write harmless_count
      harmless_entries harmless_add_secret
    split: cli_category.split option.split result.split)

lemma harmless_restart: "harmless_process run_restart"
proof -
  have "harmless_process (restart_polls n)" for n by (induction n) (simp_all split: result.split)
  then show ?thesis by (simp add: run_restart_def split: result.split)
qed

lemma harmless_firmware: "harmless_process (fw_main J c)"
  by (auto simp: fw_main_def run_fw_check_def run_fw_update_def run_fw_status_def open_store_def install_update_def Let_def
      split: fw_command.split result.split option.split update_plan.split)

lemma harmless_push: "list_all (\<lambda>(_, cmd). tame cmd) steps \<Longrightarrow> (\<And>e. harmless_process (k e)) \<Longrightarrow>
   harmless_process (push_process h steps k)"
  by (induction h steps k rule: push_process.induct) auto

lemma harmless_ota: "harmless_process (run_ota L path)"
proof -
  have "list_all (\<lambda>(_, cmd). tame cmd) (push_steps enc pkg)" for enc pkg
    by (simp add: push_steps_def Let_def list_all_iff write_cmd_def)
  then show ?thesis
    by (auto simp: run_ota_def Let_def intro!: harmless_push split: result.split option.split)
qed

lemma harmless_pam: "harmless_process (pam_main c)"
  by (simp add: pam_main_def helper_process_def pam_check_process_def pam_repair_process_def Let_def split: pam_command.split prod.split)

section \<open>Nothing is wiped or cleared without a confirmation\<close>

lemma guarded_ask [simp]: "guarded D A (ask_daemon r k) \<longleftrightarrow> \<not> D r \<and> (\<forall>x. guarded D A (k x))"
proof
  assume a: "guarded D A (ask_daemon r k)"
  then have p: "\<not> D r" and s: "\<And>x. guarded D A (k x)"
    unfolding ask_daemon_def by (auto dest: spec [of _ "Ok 0"] split: result.splits)
  show "\<not> D r \<and> (\<forall>x. guarded D A (k x))" using p s by blast
qed (auto simp: ask_daemon_def split: result.split)

lemma guarded_connected [simp]: "guarded D A (connected_then k) \<longleftrightarrow> (\<forall>h. guarded D A (k h))"
  by (auto simp: connected_then_def split: result.split dest: spec [of _ "Ok _"])

lemma guarded_send_or_exit [simp]:
  "guarded D A (send_or_exit h r m k) \<longleftrightarrow> \<not> D r \<and> (\<forall>x. guarded D A (k x))"
  by (auto simp: send_or_exit_def split: result.split dest: spec [of _ "Ok _"])

lemma harmless_guarded: "harmless_process p \<Longrightarrow> guarded wipes A p" "harmless_process p \<Longrightarrow> guarded clears_slot A p"
proof -
  assume "harmless_process p"
  then have "sends_only (\<lambda>r. \<not> wipes r) p" "sends_only (\<lambda>r. \<not> clears_slot r) p"
    by (induction p) (simp_all add: tame_def)
  then show "guarded wipes A p" "guarded clears_slot A p" by (simp_all add: guarded_if_silent)
qed

lemma harmless_answers [simp]:
  "sends_only P (unpair_answer rsp)" "sends_only P (clear_answer slot rsp)" "sends_only P (pair_outcome r)"
  by (simp_all add: unpair_answer_def clear_answer_def pair_outcome_def Let_def split: unpair_outcome.split result.split)

lemma harmless_pair: "harmless_process run_pair"
proof -
  have w: "harmless_process k \<Longrightarrow> harmless_process (pair_wait b n l k)" for b n l k
    by (induction b n l k rule: pair_wait.induct) (simp_all add: Let_def split: result.split)
  have "harmless_process start_pairing"
    by (auto simp: start_pairing_def query_second_host_def intro: w)
  then show ?thesis by (simp add: run_pair_def Let_def)
qed

lemma unpair_clears_after_yes: "guarded clears_slot says_yes (run_unpair slot)"
proof -
  have yes: "says_literal_yes l \<Longrightarrow> says_yes l" for l
    by (auto simp: says_literal_yes_def says_yes_def lowered_def ascii_lower_def split: option.splits)
  have risk: "guarded clears_slot says_yes (unpair_with_risk r)" for r
    using yes by (auto simp: unpair_with_risk_def confirm_def confirm_literal_yes_def unpair_consented_def)
  have own: "guarded clears_slot says_yes unpair_own"
    by (auto simp: unpair_own_def assess_unpair_risk_def risk clears_slot_def split: result.split)
  have other: "guarded clears_slot says_yes (unpair_other s)" for s
    by (auto simp: unpair_other_def confirm_def)
  show ?thesis
    by (auto simp: run_unpair_def run_unpair_target_def own other clears_slot_def split: option.split slot_status.split)
qed

lemma wipes_simps [simp]: "\<not> wipes (CHR ''S'' # s)" "\<not> wipes (CHR ''F'' # s)"
  by (simp_all add: wipes_def)

lemma unpair_never_wipes: "sends_only (\<lambda>r. \<not> wipes r) (run_unpair slot)"
proof -
  have risk: "sends_only (\<lambda>r. \<not> wipes r) (unpair_with_risk r)" for r
    by (auto simp: unpair_with_risk_def confirm_def confirm_literal_yes_def unpair_consented_def)
  have own: "sends_only (\<lambda>r. \<not> wipes r) unpair_own"
    by (auto simp: unpair_own_def assess_unpair_risk_def risk split: result.split)
  have other: "sends_only (\<lambda>r. \<not> wipes r) (unpair_other s)" for s
    by (auto simp: unpair_other_def confirm_def)
  show ?thesis
    by (auto simp: run_unpair_def run_unpair_target_def own other split: option.split slot_status.split)
qed

lemma reset_wipes_after_yes: "guarded wipes says_literal_yes run_factory_reset" "guarded clears_slot A run_factory_reset"
  by (auto simp: run_factory_reset_def confirm_literal_yes_def wipes_def clears_slot_def)

lemma command_guarded:
  "guarded wipes says_literal_yes (command_main L c) \<and> guarded clears_slot says_yes (command_main L c)"
proof (cases c)
  case (CmdUnpair slot)
  then show ?thesis by (simp add: command_main_def unpair_clears_after_yes guarded_if_silent unpair_never_wipes)
next
  case CmdFactoryReset
  then show ?thesis by (simp add: command_main_def reset_wipes_after_yes)
qed (auto simp: command_main_def intro!: harmless_guarded harmless_device_info harmless_fp harmless_keys harmless_settings
    harmless_restart harmless_firmware harmless_ota harmless_pam harmless_pair split: result.split set_command_line.split
    simp: set_main_def)

text \<open>
  C37: whatever the command (other than \<open>tui\<close>, which starts the terminal UI and is modelled apart), and
  whatever the daemon and the user answer: the device is wiped only after the literal word yes was typed,
  a host slot is cleared only after a question was answered with y or yes, and no other command does
  either.
\<close>

theorem cli_destroys_only_confirmed:
  assumes "c \<noteq> CmdTui"
  shows "confirmed_before wipes says_literal_yes (happened (run W (cli_main L c) w)) \<and>
    confirmed_before clears_slot says_yes (happened (run W (cli_main L c) w))"
proof -
  have "guarded wipes says_literal_yes (cli_main L c)" "guarded clears_slot says_yes (cli_main L c)"
    using command_guarded [of L c]
    by (auto simp: cli_main_def ensure_paired_def wipes_def clears_slot_def split: result.split)
  then show ?thesis by (simp add: run_guarded)
qed

section \<open>The one way door\<close>

text \<open>
  The answers that rule the dead end out: the device is away, or too old to know host slots, or something
  else than this computer's slot alone is bound; or no finger is enrolled.
\<close>

definition rules_out_sole_host :: "string \<Rightarrow> bool" where
  "rules_out_sole_host line \<longleftrightarrow> trim line = ''ERROR:NOT_CONNECTED'' \<or> parse_slot_status_line line = Some Unsupported \<or>
     (\<exists>bm a. parse_slot_status_line line = Some (Supported bm a) \<and> (bm, a) \<notin> {(1, 1), (2, 2)})"

definition rules_out_fingers :: "string \<Rightarrow> bool" where
  "rules_out_fingers line \<longleftrightarrow> (case split_on CHR '':'' (trim line) of
     p # n # _ \<Rightarrow> p = ''OK'' \<and> parse_u8 n = Ok 0 | _ \<Rightarrow> False)"

lemma dead_end_risk:
  assumes "\<not> rules_out_sole_host sl" "\<And>l. f = Some l \<Longrightarrow> \<not> rules_out_fingers l"
  shows "classify_unpair_risk sl f \<in> {OneWayDoor, UnknownRisk}"
proof (cases "parse_slot_status_line sl")
  case None
  then show ?thesis using assms(1) by (simp add: classify_unpair_risk_def rules_out_sole_host_def)
next
  case (Some st)
  then obtain bm a where st: "parse_slot_status_line sl = Some (Supported bm a)" and own: "(bm, a) \<in> {(1, 1), (2, 2)}"
    and n: "trim sl \<noteq> ''ERROR:NOT_CONNECTED''"
    using assms(1) by (cases st) (auto simp: rules_out_sole_host_def)
  have bm: "bm = push_bit (unat (a - 1)) 1" using own by auto
  show ?thesis
  proof (cases f)
    case None
    then show ?thesis using st n bm by (simp add: classify_unpair_risk_def)
  next
    case (Some l)
    then have "\<not> rules_out_fingers l" by (rule assms(2))
    then show ?thesis
      using st n bm Some
      by (cases "split_on CHR '':'' (trim l)"; cases "tl (split_on CHR '':'' (trim l))")
        (auto simp: classify_unpair_risk_def rules_out_fingers_def get_at_def Let_def split: result.split)
  qed
qed

lemma run_ask_daemon:
  "run W (ask_daemon r k) w = (case w_connect W w of
     (Err e, w1) \<Rightarrow> run W (k (Err e)) w1
   | (Ok h, w1) \<Rightarrow> (case w_send W h r w1 of (x, w2) \<Rightarrow> after_event (Sent r x) (run W (k x) w2)))"
  by (simp add: ask_daemon_def Let_def split: prod.split result.split)

lemma literal_consent: "r \<in> {OneWayDoor, UnknownRisk} \<Longrightarrow> guarded clears_slot says_literal_yes (unpair_with_risk r)"
  by (auto simp: unpair_with_risk_def confirm_literal_yes_def unpair_consented_def)

text \<open>
  C38: as long as no answer of the daemon rules it out that this computer is the only paired host of a
  device with enrolled fingers - the answers may say so, be malformed or not come at all - \<open>unpair\<close>, with
  or without \<open>--slot\<close>, clears nothing without the literal word yes.
\<close>

theorem one_way_door_needs_literal_yes:
  assumes "\<And>h v line. fst (w_send W h ''SLOT:STATUS'' v) = Ok line \<Longrightarrow> \<not> rules_out_sole_host line"
    and "\<And>h v line. fst (w_send W h ''FP:LIST'' v) = Ok line \<Longrightarrow> \<not> rules_out_fingers line"
  shows "confirmed_before clears_slot says_literal_yes (happened (run W (cli_main L (CmdUnpair slot)) w))"
proof -
  have slots: "\<not> rules_out_sole_host line" if "w_send W h ''SLOT:STATUS'' v = (Ok line, v')" for h v line v'
    using assms(1) [of h v line] that by simp
  have fingers: "\<not> rules_out_fingers line" if "w_send W h ''FP:LIST'' v = (Ok line, v')" for h v line v'
    using assms(2) [of h v line] that by simp
  have lit: "confirmed_before clears_slot says_literal_yes (happened (run W (unpair_with_risk r) v))"
    if "r \<in> {OneWayDoor, UnknownRisk}" for r v
    using run_guarded [OF literal_consent [OF that]] .
  have fp: "confirmed_before clears_slot says_literal_yes (happened
      (run W (ask_daemon ''FP:LIST'' (\<lambda>f. unpair_with_risk (classify_unpair_risk sl (ok f)))) v))"
    if "\<not> rules_out_sole_host sl" for sl v
  proof -
    have none: "classify_unpair_risk sl None \<in> {OneWayDoor, UnknownRisk}" by (rule dead_end_risk [OF that]) simp
    have "classify_unpair_risk sl (ok x) \<in> {OneWayDoor, UnknownRisk}" if "w_send W h ''FP:LIST'' u = (x, u')" for h u x u'
      using that fingers by (intro dead_end_risk [OF \<open>\<not> rules_out_sole_host sl\<close>]) (cases x, auto)
    then show ?thesis
      using none by (auto simp: run_ask_daemon clears_slot_def intro!: lit simp del: insert_iff split: prod.split result.split)
  qed
  have own: "confirmed_before clears_slot says_literal_yes (happened (run W unpair_own v))" for v
  proof -
    have none: "confirmed_before clears_slot says_literal_yes (happened (run W (unpair_with_risk (classify_unpair_risk sl None)) u))"
      if "\<not> rules_out_sole_host sl" for sl u by (rule lit [OF dead_end_risk [OF that]]) simp
    have unknown: "confirmed_before clears_slot says_literal_yes (happened (run W (unpair_with_risk UnknownRisk) u))" for u
      by (rule lit) simp
    show ?thesis
      unfolding unpair_own_def assess_unpair_risk_def
      by (subst run_ask_daemon) (use slots none unknown fp in \<open>auto simp: clears_slot_def split: prod.split result.split\<close>)
  qed
  show ?thesis
  proof (cases slot)
    case None
    then show ?thesis using own by (simp add: cli_main_def requires_pairing_def command_main_def run_unpair_def)
  next
    case (Some t)
    have target: "confirmed_before clears_slot says_literal_yes (happened (run W
        (case parse_slot_status_line line of
          None \<Rightarrow> error_exit m | Some Unsupported \<Rightarrow> error_exit m'
        | Some (Supported bm active) \<Rightarrow>
            if t = active then Say o1 unpair_own
            else if bm AND push_bit (unat (t - 1)) 1 = 0 then Say o2 Finish else unpair_other t) v))"
      if "\<not> rules_out_sole_host line" "t = 1 \<or> t = 2" for line v m m' o1 o2
      using that own by (auto simp: rules_out_sole_host_def error_exit_def split: option.split slot_status.split)
    have top: "cli_main L (CmdUnpair slot) = run_unpair_target t"
      by (simp add: Some cli_main_def requires_pairing_def command_main_def run_unpair_def)
    obtain c w1 where c: "w_connect W w = (c, w1)" by (cases "w_connect W w")
    show ?thesis
    proof (cases "(t = 1 \<or> t = 2) \<and> is_ok c")
      case False
      then show ?thesis
        unfolding top by (auto simp: run_unpair_target_def connected_then_def error_exit_def c is_ok_iff split: result.split)
    next
      case True
      then obtain h where h: "c = Ok h" by (auto simp: is_ok_iff)
      obtain x w2 where x: "w_send W h ''SLOT:STATUS'' w1 = (x, w2)" by (cases "w_send W h ''SLOT:STATUS'' w1")
      have n: "\<not> clears_slot ''SLOT:STATUS''" by (simp add: clears_slot_def)
      have t: "\<not> (t \<noteq> 1 \<and> t \<noteq> 2)" "t = 1 \<or> t = 2" using True by auto
      show ?thesis
      proof (cases x)
        case (Ok line)
        then have "\<not> rules_out_sole_host line" using slots x by blast
        from target [OF this t(2)] show ?thesis
          unfolding top run_unpair_target_def if_not_P [OF t(1)] by (simp add: connected_then_def send_or_exit_def c h x n Ok)
      next
        case (Err e)
        then show ?thesis
          unfolding top run_unpair_target_def if_not_P [OF t(1)]
          by (simp add: connected_then_def send_or_exit_def error_exit_def c h x n)
      qed
    qed
  qed
qed

text \<open>A world with a fixed answer to every request, and the lines the user types.\<close>

definition steady_world :: "(string \<Rightarrow> (string, string) result) \<Rightarrow> string list world" where
  "steady_world f = \<lparr> w_connect = (\<lambda>w. (Ok 0, w)), w_send = (\<lambda>_ r w. (f r, w)), w_background = (\<lambda>r w. ((0, f r), w)),
     w_line = (\<lambda>w. case w of [] \<Rightarrow> (Some [], []) | l # ls \<Rightarrow> (Some l, ls)), w_file = (\<lambda>_. Err []), w_pam = (\<lambda>_. Map.empty),
     w_helper = (\<lambda>_ _ w. (0, w)), w_systemctl = Ok (Some 0, []), w_logs = Ok [], w_tui = Ok (), w_store = Ok (),
     w_manifest = (\<lambda>_ w. (Err LowBattery, w)), w_prepare = (\<lambda>w. (Ok None, w)), w_execute = (\<lambda>_ w. (Ok (), w)),
     w_saved = (\<lambda>_. (None, None, 0)) \<rparr>"

lemma steady_world_simps [simp]:
  "w_connect (steady_world f) w = (Ok 0, w)" "w_send (steady_world f) h r w = (f r, w)"
  "w_line (steady_world f) (l # ls) = (Some l, ls)"
  by (simp_all add: steady_world_def)

definition sample_libs :: "unit cli_libs" where
  "sample_libs = \<lparr> cl_json = no_json, cl_hex = hex_bytes, cl_b64 = hex_bytes, cl_b64d = (\<lambda>_. Err []), cl_point = (\<lambda>_. Err []),
     cl_lcase = lowered, cl_ucase = lowered, cl_uid = 1000, cl_update = sample_json \<rparr>"

definition only_host :: "string \<Rightarrow> (string, string) result" where
  "only_host r =
     (if r = ''SLOT:STATUS'' then Ok (slot_status_line (Supported 1 1) None)
      else if r = ''FP:LIST'' then shown_line (ROk (show_word (1 :: byte)))
      else if r = ''SLOT:CLEAR'' then Ok ''OK:CLEARED'' else Err [])"

lemma sole_finger_shown: "shown_line (ROk (show_word (1 :: byte))) = Ok l \<Longrightarrow> \<not> rules_out_fingers l"
proof -
  have t: "trim (''OK:'' @ show_word (1 :: byte)) = ''OK:'' @ show_word (1 :: byte)"
    using trim_ok_line [of "show_word (1 :: byte)"] show_nat_last_graphic [of "unat (1 :: byte)"] by simp
  moreover have "split_on CHR '':'' (''OK:'' @ show_word (1 :: byte)) = [''OK'', show_word (1 :: byte)]"
    using split_on_join [of "[''OK'', show_word (1 :: byte)]" "CHR '':''"] by (simp add: join_Cons)
  moreover have "parse_u8 (show_word (1 :: byte)) = Ok 1" by (rule parse_u8_show)
  ultimately show "shown_line (ROk (show_word (1 :: byte))) = Ok l \<Longrightarrow> \<not> rules_out_fingers l"
    by (auto simp: shown_line_def serialize_response_def rules_out_fingers_def)
qed

theorem one_way_door_needs_literal_yes_witness:
  "confirmed_before clears_slot says_literal_yes
     (happened (run (steady_world only_host) (cli_main sample_libs (CmdUnpair None)) [''y''])) \<and>
   confirmed_before clears_slot says_literal_yes
     (happened (run (steady_world (\<lambda>_. Ok ''BUSY'')) (cli_main sample_libs (CmdUnpair None)) [''y'']))"
proof
  have "parse_slot_status_line (slot_status_line (Supported 1 1) None) = Some (Supported 1 1)"
    by (rule slot_status_line_roundtrip) (simp add: wf_slot_status_def)
  moreover have "trim (slot_status_line (Supported 1 1) None) \<noteq> ''ERROR:NOT_CONNECTED''"
    using calculation by (auto simp: parse_slot_status_line_def)
  moreover have "\<not> rules_out_fingers l" if "shown_line (ROk (show_word (1 :: byte))) = Ok l" for l
    using that sole_finger_shown by simp
  ultimately show "confirmed_before clears_slot says_literal_yes
      (happened (run (steady_world only_host) (cli_main sample_libs (CmdUnpair None)) [''y'']))"
    using one_way_door_needs_literal_yes [of "steady_world only_host" sample_libs None "[''y'']"]
    by (simp add: only_host_def rules_out_sole_host_def)
next
  have t: "trim ''BUSY'' = ''BUSY''" by (rule trim_graphic; simp add: graphic_def)
  then have "\<not> rules_out_sole_host ''BUSY''" by (simp add: rules_out_sole_host_def parse_slot_status_line_def get_at_def)
  moreover have "\<not> rules_out_fingers ''BUSY''" by (simp add: rules_out_fingers_def t)
  ultimately show "confirmed_before clears_slot says_literal_yes
      (happened (run (steady_world (\<lambda>_. Ok ''BUSY'')) (cli_main sample_libs (CmdUnpair None)) [''y'']))"
    using one_way_door_needs_literal_yes [of "steady_world (\<lambda>_. Ok ''BUSY'')" sample_libs None "[''y'']"] by simp
qed

theorem cli_destroys_only_confirmed_witness:
  "confirmed_before wipes says_literal_yes
     (happened (run (steady_world (\<lambda>_. Ok ''OK:PAIRED'')) (cli_main sample_libs CmdFactoryReset) [''yes'']))"
  using cli_destroys_only_confirmed [of CmdFactoryReset "steady_world (\<lambda>_. Ok ''OK:PAIRED'')" sample_libs "[''yes'']"] by simp

section \<open>The pairing gate\<close>

text \<open>
  C39: before the device is paired a gated command asks for nothing but the pairing state, and fails.
\<close>

theorem unpaired_only_asks:
  assumes "requires_pairing c"
    and "\<And>h v rsp. fst (w_send W h ''PAIR:STATUS'' v) = Ok rsp \<Longrightarrow> get_at (split_on CHR '':'' rsp) 1 \<noteq> Some ''PAIRED''"
  shows "exit_code (run W (cli_main L c) w) = 1 \<and>
    list_all (\<lambda>e. case e of Sent r x \<Rightarrow> r = ''PAIR:STATUS'' | Warned m \<Rightarrow> starts_with ''Error: '' m | _ \<Rightarrow> False)
      (happened (run W (cli_main L c) w))"
proof -
  have x: "get_at (split_on CHR '':'' rsp) 1 \<noteq> Some ''PAIRED''" if "w_send W h ''PAIR:STATUS'' v = (Ok rsp, v')" for h v rsp v'
    using assms(2) [of h v rsp] that by simp
  have e: "exit_code (run W (error_exit m) v) = 1 \<and> happened (run W (error_exit m) v) = [Warned (''Error: '' @ m)]" for m v
    by (simp add: error_exit_def)
  show ?thesis
    using assms(1) e x by (auto simp: cli_main_def ensure_paired_def run_ask_daemon split: prod.split result.split)
qed

theorem unpaired_only_asks_witness:
  "exit_code (run (steady_world (\<lambda>_. Ok ''OK:UNPAIRED'')) (cli_main sample_libs CmdInfo) []) = 1"
proof -
  have "split_on CHR '':'' ''OK:UNPAIRED'' = [''OK'', ''UNPAIRED'']" by simp
  then show ?thesis
    using unpaired_only_asks [of CmdInfo "steady_world (\<lambda>_. Ok ''OK:UNPAIRED'')" sample_libs "[]"]
    by (simp add: requires_pairing_def get_at_def)
qed

section \<open>One request for each connection\<close>

text \<open>
  The daemon closes a connection after the answer (except for the sessions of updates, logs and the
  agent): a second request on it reads the end of the stream, which is an empty answer.
\<close>

definition serving_world ::
    "(string \<Rightarrow> 's \<Rightarrow> (string, string) result \<times> 's) \<Rightarrow> (nat \<times> nat list \<times> 's) world" where
  "serving_world serve = \<lparr>
     w_connect = (\<lambda>(n, used, s). (Ok n, (n + 1, used, s))),
     w_send = (\<lambda>h r (n, used, s). if h \<in> set used then (Ok [], (n, used, s))
       else case serve r s of (x, s') \<Rightarrow> (x, (n, h # used, s'))),
     w_background = (\<lambda>r (n, used, s). case serve r s of (x, s') \<Rightarrow> ((0, x), (n, used, s'))),
     w_line = (\<lambda>w. (Some [], w)), w_file = (\<lambda>_. Err []), w_pam = (\<lambda>_. Map.empty),
     w_helper = (\<lambda>_ _ w. (0, w)), w_systemctl = Ok (Some 0, []), w_logs = Ok [], w_tui = Ok (), w_store = Ok (),
     w_manifest = (\<lambda>_ w. (Err LowBattery, w)), w_prepare = (\<lambda>w. (Ok None, w)), w_execute = (\<lambda>_ w. (Ok (), w)),
     w_saved = (\<lambda>_. (None, None, 0)) \<rparr>"

lemma happened_say_all [simp]: "happened (run W (say_all ls k) w) = map Said ls @ happened (run W k w)"
  by (induction ls) (simp_all add: say_all_def)

lemma exit_code_say_all [simp]: "exit_code (run W (say_all ls k) w) = exit_code (run W k w)"
  by (induction ls) (simp_all add: say_all_def)

lemma world_after_say_all [simp]: "world_after (run W (say_all ls k) w) = world_after (run W k w)"
  by (induction ls) (simp_all add: say_all_def)

text \<open>
  C40: \<open>status\<close> never shows the fingers: it asks for them on the connection that has already answered
  \<open>STATUS\<close>, so against a daemon that serves one request for each connection the list is always empty,
  whatever the daemon would answer.
\<close>

theorem status_never_shows_fingers:
  "Said (''Fingers:    '' @ x) \<notin> set (happened (run (serving_world serve) (cli_main L CmdStatus) (n, [], s)))"
proof -
  have e: "finger_lines [] = []" by (simp add: finger_lines_def get_at_def)
  have s: "(''Fingers:    '' @ x) \<notin> set (status_lines p)" for p by (simp add: status_lines_def Let_def styled_def)
  have p: "(''Fingers:    '' @ x) \<notin> set (paired_lines a b)" for a b by (simp add: paired_lines_def Let_def styled_def)
  show ?thesis
    using s p e
    by (auto simp: cli_main_def requires_pairing_def command_main_def run_status_def serving_world_def run_ask_daemon Let_def
        split: prod.split result.split)
qed

section \<open>Exit codes\<close>

text \<open>
  Fact: the exit code of a refused deletion depends on the command: \<open>fp delete\<close> ends with 0 exactly when the
  daemon says that the finger was deleted, \<open>key delete\<close> ends with 0 whatever the daemon answers.
\<close>

theorem key_delete_always_succeeds:
  assumes "f ''PAIR:STATUS'' = Ok ''OK:PAIRED''" "f (''KEY:DELETE:0:'' @ show_word i) = Ok rsp"
    "f (''FP:DELETE:'' @ show_word i) = Ok rsp" "i \<le> SWITCH_FINGER_SLOT"
  shows "exit_code (run (steady_world f) (cli_main L (CmdKey (KeyDelete ''ssh'' i))) ls) = 0 \<and>
    exit_code (run (steady_world f) (cli_main L (CmdFp (FpDelete i))) ls) = (if contains_str ''DELETED'' rsp then 0 else 1)"
proof -
  have "split_on CHR '':'' ''OK:PAIRED'' = [''OK'', ''PAIRED'']" by simp
  then have paired: "get_at (split_on CHR '':'' ''OK:PAIRED'') 1 = Some ''PAIRED''" by (simp add: get_at_def)
  have l: "lowered ''ssh'' = ''ssh''" by (simp add: lowered_def ascii_lower_def)
  have z: "show_nat 0 = ''0''" by (simp add: show_nat.simps digit_char_def char_of_def bit_Suc_0_iff)
  have i: "\<not> 5 < i" using assms(4) by (simp add: SWITCH_FINGER_SLOT_def not_less)
  show ?thesis
    using assms paired l z i
    by (simp add: cli_main_def requires_pairing_def ensure_paired_def run_ask_daemon command_main_def key_main_def fp_main_def
        run_key_delete_def run_fp_delete_def parse_category_def connected_then_def send_or_exit_def category_byte_def Let_def)
qed

theorem key_delete_always_succeeds_witness:
  "exit_code (run (steady_world (\<lambda>r. if r = ''PAIR:STATUS'' then Ok ''OK:PAIRED'' else Ok ''ERROR:KEY_DELETE_FAILED''))
     (cli_main sample_libs (CmdKey (KeyDelete ''ssh'' 0))) []) = 0"
  using key_delete_always_succeeds [of "\<lambda>r. if r = ''PAIR:STATUS'' then Ok ''OK:PAIRED'' else Ok ''ERROR:KEY_DELETE_FAILED''"
      0 "''ERROR:KEY_DELETE_FAILED''" sample_libs "[]"]
  by (simp add: SWITCH_FINGER_SLOT_def)

section \<open>A package pushed by hand\<close>

lemma push_steps_commands: "map snd (push_steps enc pkg) = push_commands enc pkg"
  by (simp add: push_steps_def push_commands_def Let_def comp_def)

lemma run_say_all: "run W (say_all ls p) v = foldr after_event (map Said ls) (run W p v)"
  by (induction ls) (simp_all add: say_all_def)

lemma run_push_process:
  assumes "send_all (w_send W h) (map snd steps) w = (l, w')"
  shows "\<exists>es. run W (push_process h steps k) w = foldr after_event es
    (run W (k (if \<forall>(x, r)\<in>set l. acked r then None else Some (push_error (fst (last l)) (snd (last l))))) w')"
  using assms
proof (induction steps arbitrary: w l)
  case Nil
  then show ?case by (intro exI [of _ "[]"]) simp
next
  case (Cons s steps)
  obtain ls cmd where s: "s = (ls, cmd)" by (cases s)
  obtain r w1 where r: "w_send W h cmd w = (r, w1)" by (cases "w_send W h cmd w")
  show ?case
  proof (cases "acked r")
    case True
    let ?more = "if cmd = ''OTA:INFO'' then (case Option.bind (ok r) (\<lambda>t. strip_prefix ''OK:'' (trim t)) of
        Some p \<Rightarrow> device_lines p | None \<Rightarrow> []) else []"
    obtain l2 where l2: "send_all (w_send W h) (map snd steps) w1 = (l2, w')" "l = (cmd, r) # l2"
      using Cons.prems r True by (auto simp: s split: prod.splits)
    obtain es where es: "run W (push_process h steps k) w1 = foldr after_event es
        (run W (k (if \<forall>(x, r)\<in>set l2. acked r then None else Some (push_error (fst (last l2)) (snd (last l2))))) w')"
      using Cons.IH [OF l2(1)] by blast
    have "run W (push_process h (s # steps) k) w = foldr after_event (map Said ls)
        (after_event (Sent cmd r) (run W (say_all ?more (push_process h steps k)) w1))"
      using r True by (simp add: s run_say_all)
    moreover have "run W (say_all ?more (push_process h steps k)) w1 =
        foldr after_event (map Said ?more) (run W (push_process h steps k) w1)" by (rule run_say_all)
    ultimately have "run W (push_process h (s # steps) k) w = foldr after_event (map Said ls @ [Sent cmd r] @ map Said ?more @ es)
        (run W (k (if \<forall>(x, r)\<in>set l2. acked r then None else Some (push_error (fst (last l2)) (snd (last l2))))) w')"
      unfolding es by (simp only: foldr_append foldr.simps comp_apply id_apply list.map)
    moreover have "(if \<forall>(x, r)\<in>set l. acked r then None else Some (push_error (fst (last l)) (snd (last l)))) =
        (if \<forall>(x, r)\<in>set l2. acked r then None else Some (push_error (fst (last l2)) (snd (last l2))))"
      using l2(2) True by (cases "l2 = []") auto
    ultimately show ?thesis by (intro exI) (simp only:)
  next
    case False
    then have l: "l = [(cmd, r)]" "w' = w1" using Cons.prems r by (auto simp: s)
    have "run W (push_process h (s # steps) k) w =
        foldr after_event (map Said ls @ [Sent cmd r]) (run W (k (Some (push_error cmd r))) w1)"
      using r False by (simp add: s run_say_all)
    then show ?thesis using False by (intro exI [of _ "map Said ls @ [Sent cmd r]"]) (simp add: l)
  qed
qed

text \<open>
  Fact: the command \<open>ota\<close> pushes a package as an update does: over the same connection it ends in the same
  state and with the same result as \<open>push_once\<close>, after printing and sending.
\<close>

theorem push_process_is_push_once:
  "\<exists>res w' evs es. push_once enc (w_send W h) pkg (w, []) = (res, (w', evs)) \<and>
     run W (push_process h (push_steps enc pkg) k) w =
       foldr after_event es (run W (k (case res of Ok _ \<Rightarrow> None | Err e \<Rightarrow> Some e)) w')"
proof -
  let ?ch = "w_send W h"
  have sn: "sends ?ch (push_commands enc pkg) (push_once enc ?ch pkg)"
    unfolding push_commands_def push_once_def by (intro sends_append sends_push)
  obtain l w' where l: "send_all ?ch (push_commands enc pkg) w = (l, w')" by (rule prod.exhaust)
  obtain evs where p: "push_once enc ?ch pkg (w, []) = (verdict l, (w', evs))" using sendsD [OF sn l] by blast
  have v: "(case verdict l of Ok _ \<Rightarrow> None | Err e \<Rightarrow> Some e) =
      (if \<forall>(x, r)\<in>set l. acked r then None else Some (push_error (fst (last l)) (snd (last l))))"
    by (simp add: verdict_def)
  obtain es where "run W (push_process h (push_steps enc pkg) k) w = foldr after_event es
      (run W (k (case verdict l of Ok _ \<Rightarrow> None | Err e \<Rightarrow> Some e)) w')"
    using run_push_process [of W h "push_steps enc pkg" w l w' k] l unfolding push_steps_commands v by blast
  then show ?thesis using p by blast
qed

end
