(* ===== verification/Log_Stream.thy ===== *)
theory Log_Stream
  imports Utf8
begin

text \<open>
  The tail of the daemon's log (\<open>immurok-daemon/src/logbuf.rs\<close>) and its stream to a viewer
  (\<open>serve_log_stream\<close> of \<open>socket.rs\<close>): the ring of the last lines, the threads that log at the same time,
  a viewer that subscribes and then takes the snapshot, and what is written to it.
\<close>

section \<open>The sink\<close>

definition RING_CAPACITY :: nat where
  "RING_CAPACITY = 500"

definition ring_push :: "string list \<Rightarrow> string \<Rightarrow> string list" where
  "ring_push ring l = (if length ring = RING_CAPACITY then tl ring else ring) @ [l]"

text \<open>One event of the logger is the text of several writes; it is taken apart when its writer is dropped.\<close>

definition event_text :: "string list \<Rightarrow> string" where
  "event_text pieces = fold (\<lambda>p buf. buf @ p) pieces []"

definition emit_lines :: "string \<Rightarrow> string list" where
  "emit_lines buf = filter (\<lambda>l. l \<noteq> []) (lines (from_utf8_lossy buf))"

section \<open>Threads that log, and a viewer\<close>

text \<open>
  A thread that emits has lines left; the first one is pushed to the ring and then sent to the viewers,
  two steps between which other threads run. \<open>pushed\<close> is the log so far and gives every line a number:
  the thread keeps the number of a line it has pushed but not sent. A viewer has the lines sent since it
  subscribed and, once it took the snapshot, the ring of that moment and the length of the log then.
\<close>

datatype viewer =
    Absent
  | Subscribed "(nat \<times> string) list"
  | Streaming "string list" "(nat \<times> string) list" nat

record log_world =
  log_file :: "string option"
  ring :: "string list"
  pushed :: "string list"
  emitting :: "nat \<Rightarrow> string list \<times> nat option"
  log_viewer :: viewer

datatype log_event =
    LogEmit nat "string list" nat
  | LogPush nat
  | LogSend nat
  | LogSubscribe
  | LogSnapshot

definition log_start :: "string option \<Rightarrow> log_world" where
  "log_start f = \<lparr> log_file = f, ring = [], pushed = [], emitting = (\<lambda>_. ([], None)), log_viewer = Absent \<rparr>"

fun offer :: "nat \<times> string \<Rightarrow> viewer \<Rightarrow> viewer" where
  "offer x Absent = Absent"
| "offer x (Subscribed q) = Subscribed (q @ [x])"
| "offer x (Streaming snap q n) = Streaming snap (q @ [x]) n"

text \<open>The file takes the first \<open>n\<close> bytes of an event, all of them unless the write fails.\<close>

fun log_step :: "log_event \<Rightarrow> log_world \<Rightarrow> log_world" where
  "log_step (LogEmit t pieces n) w =
     (if emitting w t \<noteq> ([], None) then w
      else w\<lparr> log_file := map_option (\<lambda>f. f @ take n (event_text pieces)) (log_file w),
              emitting := (emitting w)(t := (emit_lines (event_text pieces), None)) \<rparr>)"
| "log_step (LogPush t) w = (case emitting w t of
     (l # ls, None) \<Rightarrow> w\<lparr> ring := ring_push (ring w) l, pushed := pushed w @ [l],
        emitting := (emitting w)(t := (l # ls, Some (length (pushed w)))) \<rparr>
   | _ \<Rightarrow> w)"
| "log_step (LogSend t) w = (case emitting w t of
     (l # ls, Some i) \<Rightarrow> w\<lparr> emitting := (emitting w)(t := (ls, None)), log_viewer := offer (i, l) (log_viewer w) \<rparr>
   | _ \<Rightarrow> w)"
| "log_step LogSubscribe w = (case log_viewer w of Absent \<Rightarrow> w\<lparr> log_viewer := Subscribed [] \<rparr> | _ \<Rightarrow> w)"
| "log_step LogSnapshot w = (case log_viewer w of
     Subscribed q \<Rightarrow> w\<lparr> log_viewer := Streaming (ring w) q (length (pushed w)) \<rparr> | _ \<Rightarrow> w)"

section \<open>What the viewer is sent\<close>

text \<open>
  The events of the loop: what the channel delivers (a line, or how many were dropped because the viewer
  was too slow), and what reading the viewer's socket shows. The writes are accepted up to a first failure.
\<close>

datatype stream_event = LiveLine string | LiveLagged nat | LiveClosed | ProbeGone | ProbeData

definition dropped_note :: "nat \<Rightarrow> string" where
  "dropped_note n = ellipsis @ '' '' @ show_nat n @ '' log lines dropped (viewer too slow)'' @ [CHR 0x0A]"

fun live_writes :: "stream_event list \<Rightarrow> string list" where
  "live_writes [] = []"
| "live_writes (LiveLine l # es) = (l @ [CHR 0x0A]) # live_writes es"
| "live_writes (LiveLagged n # es) = dropped_note n # live_writes es"
| "live_writes (LiveClosed # es) = []"
| "live_writes (ProbeGone # es) = []"
| "live_writes (ProbeData # es) = live_writes es"

definition serve_log_stream :: "string list option \<Rightarrow> stream_event list \<Rightarrow> nat \<Rightarrow> string list" where
  "serve_log_stream sink es accepted = take accepted (case sink of
     None \<Rightarrow> [''ERROR:NO_LOG_SINK'' @ [CHR 0x0A]]
   | Some snap \<Rightarrow> map (\<lambda>l. l @ [CHR 0x0A]) snap @ live_writes es)"

text \<open>
  The contract of the broadcast channel: what it delivers is what was sent, in order, where a run of lines
  may be replaced by their number.
\<close>

fun delivers :: "stream_event list \<Rightarrow> string list \<Rightarrow> bool" where
  "delivers [] ls \<longleftrightarrow> ls = []"
| "delivers (LiveLine l # es) ls \<longleftrightarrow> (case ls of [] \<Rightarrow> False | x # xs \<Rightarrow> l = x \<and> delivers es xs)"
| "delivers (LiveLagged n # es) ls \<longleftrightarrow> 0 < n \<and> n \<le> length ls \<and> delivers es (drop n ls)"
| "delivers (ProbeData # es) ls \<longleftrightarrow> delivers es ls"
| "delivers (LiveClosed # es) ls \<longleftrightarrow> False"
| "delivers (ProbeGone # es) ls \<longleftrightarrow> False"

fun dropped :: "stream_event list \<Rightarrow> nat" where
  "dropped [] = 0"
| "dropped (LiveLagged n # es) = n + dropped es"
| "dropped (_ # es) = dropped es"

lemma delivers_all: "delivers es ls \<Longrightarrow> dropped es = 0 \<Longrightarrow> live_writes es = map (\<lambda>l. l @ [CHR 0x0A]) ls"
  by (induction es ls rule: delivers.induct) (auto split: list.splits)

fun shown_live :: "stream_event list \<Rightarrow> nat" where
  "shown_live [] = 0"
| "shown_live (LiveLine l # es) = Suc (shown_live es)"
| "shown_live (_ # es) = shown_live es"

lemma delivers_count: "delivers es ls \<Longrightarrow> shown_live es + dropped es = length ls"
  by (induction es ls rule: delivers.induct) (auto split: list.splits)

section \<open>Invariants\<close>

definition last_lines :: "string list \<Rightarrow> string list" where
  "last_lines ls = drop (length ls - RING_CAPACITY) ls"

lemma ring_push_last: "ring_push (last_lines ls) l = last_lines (ls @ [l])"
proof (cases "length ls < RING_CAPACITY")
  case True
  then show ?thesis by (simp add: ring_push_def last_lines_def)
next
  case False
  then have "tl (drop (length ls - RING_CAPACITY) ls) = drop (Suc (length ls) - RING_CAPACITY) ls"
    by (simp add: Suc_diff_le drop_Suc tl_drop)
  moreover have "length (last_lines ls) = RING_CAPACITY" using False by (simp add: last_lines_def)
  moreover have "0 < RING_CAPACITY" by (simp add: RING_CAPACITY_def)
  ultimately show ?thesis using False by (simp add: ring_push_def last_lines_def)
qed

fun viewer_ok :: "log_world \<Rightarrow> viewer \<Rightarrow> bool" where
  "viewer_ok w Absent \<longleftrightarrow> True"
| "viewer_ok w (Subscribed q) \<longleftrightarrow> True"
| "viewer_ok w (Streaming snap q n) \<longleftrightarrow> n \<le> length (pushed w) \<and> snap = last_lines (take n (pushed w)) \<and>
     (\<forall>i. n \<le> i \<and> i < length (pushed w) \<longrightarrow> i \<in> fst ` set q \<or> (\<exists>t. snd (emitting w t) = Some i))"

fun queue_of :: "viewer \<Rightarrow> (nat \<times> string) list" where
  "queue_of Absent = []"
| "queue_of (Subscribed q) = q"
| "queue_of (Streaming snap q n) = q"

text \<open>The numbers of the lines in flight are those of the log, each with one thread, and none was sent.\<close>

definition in_flight :: "log_world \<Rightarrow> bool" where
  "in_flight w \<longleftrightarrow>
     (\<forall>t i. snd (emitting w t) = Some i \<longrightarrow> i < length (pushed w) \<and> (\<exists>ls. fst (emitting w t) = pushed w ! i # ls)) \<and>
     (\<forall>t u i. snd (emitting w t) = Some i \<and> snd (emitting w u) = Some i \<longrightarrow> t = u)"

definition queue_ok :: "log_world \<Rightarrow> (nat \<times> string) list \<Rightarrow> bool" where
  "queue_ok w q \<longleftrightarrow> distinct (map fst q) \<and> (\<forall>x \<in> set q. fst x < length (pushed w) \<and> snd x = pushed w ! fst x) \<and>
     (\<forall>t i. snd (emitting w t) = Some i \<longrightarrow> i \<notin> fst ` set q)"

definition log_inv :: "log_world \<Rightarrow> bool" where
  "log_inv w \<longleftrightarrow> ring w = last_lines (pushed w) \<and> viewer_ok w (log_viewer w) \<and> in_flight w \<and>
     queue_ok w (queue_of (log_viewer w))"

lemma log_start_inv: "log_inv (log_start f)"
  by (simp add: log_inv_def in_flight_def queue_ok_def log_start_def last_lines_def)

lemma queue_offer: "queue_of (offer x v) = (case v of Absent \<Rightarrow> [] | _ \<Rightarrow> queue_of v @ [x])"
  by (cases v) simp_all

lemma viewer_ok_kept:
  assumes "viewer_ok w v" "pushed w' = pushed w"
    and "\<And>t i. snd (emitting w t) = Some i \<Longrightarrow> \<exists>u. snd (emitting w' u) = Some i"
  shows "viewer_ok w' v"
proof (cases v)
  case (Streaming snap q n)
  then show ?thesis using assms by simp blast
qed (use assms in simp_all)

lemma log_emit_inv:
  assumes "log_inv w"
  shows "log_inv (log_step (LogEmit t pieces n) w)"
proof (cases "emitting w t = ([], None)")
  case True
  have "viewer_ok (log_step (LogEmit t pieces n) w) (log_viewer w)"
  proof (rule viewer_ok_kept)
    show "\<exists>v. snd (emitting (log_step (LogEmit t pieces n) w) v) = Some i" if "snd (emitting w u) = Some i" for u i
      using that True by (intro exI [of _ u]) auto
  qed (use assms True in \<open>simp_all add: log_inv_def\<close>)
  then show ?thesis using assms True by (auto simp: log_inv_def in_flight_def queue_ok_def)
qed (use assms in simp)

lemma log_push_inv:
  assumes "log_inv w"
  shows "log_inv (log_step (LogPush t) w)"
proof (cases "\<exists>l ls. emitting w t = (l # ls, None)")
  case True
  then obtain l ls where e: "emitting w t = (l # ls, None)" by blast
  define w' where "w' = w\<lparr> ring := ring_push (ring w) l, pushed := pushed w @ [l],
      emitting := (emitting w)(t := (l # ls, Some (length (pushed w)))) \<rparr>"
  have step: "log_step (LogPush t) w = w'" by (simp add: e w'_def)
  have kept: "snd (emitting w' u) = Some i" if "snd (emitting w u) = Some i" for u i
    using that e by (auto simp: w'_def)
  have "viewer_ok w' (log_viewer w)"
  proof (cases "log_viewer w")
    case (Streaming snap q n)
    then have old: "viewer_ok w (Streaming snap q n)" using assms by (simp add: log_inv_def)
    have "i \<in> fst ` set q \<or> (\<exists>u. snd (emitting w' u) = Some i)" if i: "n \<le> i" "i < length (pushed w')" for i
    proof (cases "i = length (pushed w)")
      case True
      then have "snd (emitting w' t) = Some i" by (simp add: w'_def)
      then show ?thesis by blast
    next
      case False
      then have "i < length (pushed w)" using i(2) by (simp add: w'_def)
      then show ?thesis using old i(1) kept by (simp only: viewer_ok.simps) blast
    qed
    moreover have "n \<le> length (pushed w') \<and> snap = last_lines (take n (pushed w'))" using old by (simp add: w'_def)
    ultimately show ?thesis by (simp add: Streaming)
  qed simp_all
  moreover have "ring w' = last_lines (pushed w')"
    using assms by (simp add: w'_def log_inv_def ring_push_last)
  moreover have "in_flight w'"
  proof -
    have "i < length (pushed w') \<and> (\<exists>ls. fst (emitting w' u) = pushed w' ! i # ls)" if "snd (emitting w' u) = Some i" for u i
      using that assms by (cases "u = t") (auto simp: w'_def log_inv_def in_flight_def nth_append less_SucI)
    moreover have "u = v" if "snd (emitting w' u) = Some i" "snd (emitting w' v) = Some i" for u v i
      using that assms by (cases "u = t"; cases "v = t") (auto simp: w'_def log_inv_def in_flight_def)
    ultimately show ?thesis by (auto simp: in_flight_def)
  qed
  moreover have "queue_ok w' (queue_of (log_viewer w))"
  proof -
    have "i \<notin> fst ` set (queue_of (log_viewer w))" if "snd (emitting w' u) = Some i" for u i
      using that assms by (cases "u = t") (auto simp: w'_def log_inv_def queue_ok_def)
    then show ?thesis using assms by (auto simp: w'_def log_inv_def queue_ok_def nth_append)
  qed
  ultimately show ?thesis unfolding log_inv_def step by (simp add: w'_def)
next
  case False
  then have "log_step (LogPush t) w = w" by (auto split: prod.split list.split option.split)
  then show ?thesis using assms by simp
qed

lemma log_send_inv:
  assumes "log_inv w"
  shows "log_inv (log_step (LogSend t) w)"
proof (cases "\<exists>l ls i. emitting w t = (l # ls, Some i)")
  case True
  then obtain l ls i where e: "emitting w t = (l # ls, Some i)" by blast
  define w' where "w' = w\<lparr> emitting := (emitting w)(t := (ls, None)), log_viewer := offer (i, l) (log_viewer w) \<rparr>"
  have step: "log_step (LogSend t) w = w'" by (simp add: e w'_def)
  have i: "i < length (pushed w)" "l = pushed w ! i" "i \<notin> fst ` set (queue_of (log_viewer w))"
  proof -
    have "snd (emitting w t) = Some i" using e by simp
    then have "i < length (pushed w) \<and> (\<exists>xs. fst (emitting w t) = pushed w ! i # xs) \<and> i \<notin> fst ` set (queue_of (log_viewer w))"
      using assms unfolding log_inv_def in_flight_def queue_ok_def by blast
    then show "i < length (pushed w)" "l = pushed w ! i" "i \<notin> fst ` set (queue_of (log_viewer w))" using e by auto
  qed
  have other: "snd (emitting w' u) = Some j \<Longrightarrow> snd (emitting w u) = Some j \<and> u \<noteq> t" for u j
    by (auto simp: w'_def split: if_splits)
  have "viewer_ok w' (log_viewer w')"
  proof (cases "log_viewer w")
    case (Streaming snap q n)
    then have old: "viewer_ok w (Streaming snap q n)" using assms by (simp add: log_inv_def)
    have "j \<in> fst ` set (q @ [(i, l)]) \<or> (\<exists>u. snd (emitting w' u) = Some j)" if j: "n \<le> j" "j < length (pushed w)" for j
    proof (cases "j = i")
      case False
      have "j \<in> fst ` set q \<or> (\<exists>u. snd (emitting w u) = Some j)" using old j by simp
      moreover have "snd (emitting w' u) = Some j" if "snd (emitting w u) = Some j" for u
        using that False e by (auto simp: w'_def)
      ultimately show ?thesis by auto
    qed simp
    then show ?thesis using old by (simp add: Streaming w'_def)
  qed (simp_all add: w'_def)
  moreover have "in_flight w'"
  proof -
    have "j < length (pushed w') \<and> (\<exists>xs. fst (emitting w' u) = pushed w' ! j # xs)" if "snd (emitting w' u) = Some j" for u j
      using other [OF that] assms by (auto simp: w'_def log_inv_def in_flight_def)
    moreover have "u = v" if "snd (emitting w' u) = Some j" "snd (emitting w' v) = Some j" for u v j
      using other [OF that(1)] other [OF that(2)] assms unfolding log_inv_def in_flight_def by blast
    ultimately show ?thesis by (auto simp: in_flight_def)
  qed
  moreover have "queue_ok w' (queue_of (log_viewer w'))"
  proof -
    have "j \<noteq> i \<and> j \<notin> fst ` set (queue_of (log_viewer w))" if "snd (emitting w' u) = Some j" for u j
      using other [OF that] assms e unfolding log_inv_def in_flight_def queue_ok_def by (metis snd_conv)
    then show ?thesis
      using assms i by (cases "log_viewer w") (auto simp: w'_def log_inv_def queue_ok_def)
  qed
  moreover have "ring w' = last_lines (pushed w')" using assms by (simp add: w'_def log_inv_def)
  ultimately show ?thesis unfolding log_inv_def step by simp
next
  case False
  then have "log_step (LogSend t) w = w" by (auto split: prod.split list.split option.split)
  then show ?thesis using assms by simp
qed

lemma log_step_inv: "log_inv w \<Longrightarrow> log_inv (log_step e w)"
proof (cases e)
  case LogSnapshot
  moreover assume "log_inv w"
  ultimately show ?thesis
    by (cases "log_viewer w") (auto simp: log_inv_def in_flight_def queue_ok_def)
next
  case LogSubscribe
  moreover assume "log_inv w"
  ultimately show ?thesis
    by (cases "log_viewer w") (auto simp: log_inv_def in_flight_def queue_ok_def)
qed (simp_all only: log_emit_inv log_push_inv log_send_inv)

interpretation logging: event_machine log_step log_inv
  by unfold_locales (rule log_step_inv)

lemma log_reachable: "log_inv (fold log_step es (log_start f))"
  by (rule logging.run_inv) (rule log_start_inv)

section \<open>What a viewer sees\<close>

text \<open>
  Fact: a viewer misses no line of the log. After any interleaving of logging threads with its subscription
  and its snapshot, once no line is between the ring and the channel, and the channel dropped nothing, the
  viewer has been written the last 500 lines of the log up to the snapshot and then, each at most once,
  lines of the log that include every line pushed since.
\<close>

theorem log_viewer_misses_nothing:
  assumes "log_viewer (fold log_step es (log_start f)) = Streaming snap q n"
    and "\<And>t. snd (emitting (fold log_step es (log_start f)) t) = None"
    and "delivers rs (map snd q)" "dropped rs = 0"
  shows "\<exists>ix. distinct ix \<and> set [n..<length (pushed (fold log_step es (log_start f)))] \<subseteq> set ix \<and>
    serve_log_stream (Some snap) rs k = take k (map (\<lambda>l. l @ [CHR 0x0A])
      (last_lines (take n (pushed (fold log_step es (log_start f)))) @
       map (\<lambda>i. pushed (fold log_step es (log_start f)) ! i) ix))"
proof -
  let ?w = "fold log_step es (log_start f)"
  have inv: "viewer_ok ?w (Streaming snap q n)" "queue_ok ?w q"
    using log_reachable [of es f] assms(1) by (simp_all add: log_inv_def)
  have "map snd q = map (\<lambda>i. pushed ?w ! i) (map fst q)"
    using inv(2) by (auto simp: queue_ok_def)
  moreover have "set [n..<length (pushed ?w)] \<subseteq> set (map fst q)"
    using inv(1) assms(2) by auto
  moreover have "distinct (map fst q)" using inv(2) by (simp add: queue_ok_def)
  moreover have "snap = last_lines (take n (pushed ?w))" using inv(1) by simp
  ultimately show ?thesis
    using delivers_all [OF assms(3,4)]
    by (intro exI [of _ "map fst q"]) (simp add: serve_log_stream_def del: map_map)
qed

text \<open>A run in which a line is logged between the subscription and the snapshot: it is shown twice.\<close>

definition shown_twice :: "log_event list" where
  "shown_twice = [LogEmit 0 [''a'', [CHR 0x0A]] 9, LogSubscribe, LogPush 0, LogSnapshot, LogSend 0]"

lemma emit_lines_a: "emit_lines (event_text [''a'', [CHR 0x0A]]) = [''a'']"
  by (simp add: emit_lines_def event_text_def lines_def chop_cr_def)

lemma shown_twice_run:
  "log_viewer (fold log_step shown_twice (log_start None)) = Streaming [''a''] [(0, ''a'')] 1"
  "pushed (fold log_step shown_twice (log_start None)) = [''a'']"
  "emitting (fold log_step shown_twice (log_start None)) t = ([], None)"
  by (simp_all add: shown_twice_def log_start_def emit_lines_a ring_push_def RING_CAPACITY_def)

theorem log_viewer_misses_nothing_witness:
  "\<exists>ix. distinct ix \<and> set [1..<1] \<subseteq> set ix \<and>
    serve_log_stream (Some [''a'']) [LiveLine ''a''] 2 = take 2 (map (\<lambda>l. l @ [CHR 0x0A])
      (last_lines (take 1 [''a'']) @ map (\<lambda>i. [''a''] ! i) ix))"
  using log_viewer_misses_nothing [of shown_twice None "[''a'']" "[(0, ''a'')]" 1 "[LiveLine ''a'']" 2]
  by (simp only: shown_twice_run snd_conv simp_thms list.map delivers.simps dropped.simps list.case list.size One_nat_def)
    simp

lemma viewer_sees_twice: "serve_log_stream (Some [''a'']) [LiveLine ''a''] 2 = [''a'' @ [CHR 0x0A], ''a'' @ [CHR 0x0A]]"
  by (simp add: serve_log_stream_def)

text \<open>Fact: the ring is the last 500 lines of the log, whatever the threads do.\<close>

theorem log_ring_is_tail:
  "ring (fold log_step es (log_start f)) =
     drop (length (pushed (fold log_step es (log_start f))) - 500) (pushed (fold log_step es (log_start f)))"
  using log_reachable [of es f] by (simp add: log_inv_def last_lines_def RING_CAPACITY_def)

end
