(* ===== verification/Session_Agent.thy ===== *)
theory Session_Agent
  imports Socket_Device Imk
begin

text \<open>
  The session agent (\<open>immurok-session-agent/src/main.rs\<close>), which shows the daemon's dialogs in the user's
  session, and the daemon's side of its connection (\<open>serve_session_agent\<close> of \<open>socket.rs\<close>): who is
  registered, what reaches it, which processes are open, and when a cancel is sent. The spawning of
  processes is an argument; the handling of a line, the loop and the reconnection are as in the code.
\<close>

section \<open>The agent\<close>

text \<open>
  The dialog is the process held by the loop. The log holds what was done to the outside: a process is
  known by its number, a spawn that failed has none.
\<close>

datatype agent_effect =
    SpawnDialog "string list" "nat option"
  | Terminate nat
  | Exited nat "int option"
  | SendCancel
  | Notify string
  | Reconcile bool bool
  | Complain string

record agent_state =
  sa_dialog :: "nat option"
  sa_next :: nat
  sa_home :: ssh_home
  sa_log :: "agent_effect list"

definition log_effect :: "agent_effect \<Rightarrow> agent_state \<Rightarrow> agent_state" where
  "log_effect e s = s\<lparr> sa_log := sa_log s @ [e] \<rparr>"

text \<open>A spawn succeeds or not; a new process has a number that no other had.\<close>

definition spawn_dialog :: "bool \<Rightarrow> string list \<Rightarrow> agent_state \<Rightarrow> nat option \<times> agent_state" where
  "spawn_dialog spawns args s =
     (if spawns then (Some (sa_next s), log_effect (SpawnDialog args (Some (sa_next s))) (s\<lparr> sa_next := Suc (sa_next s) \<rparr>))
      else (None, log_effect (Complain ''cannot spawn dialog'') (log_effect (SpawnDialog args None) s)))"

definition take_down :: "nat option \<Rightarrow> agent_state \<Rightarrow> agent_state" where
  "take_down child s = (case child of Some p \<Rightarrow> log_effect (Terminate p) s | None \<Rightarrow> s)"

text \<open>The new dialog is there before the old one is taken down.\<close>

definition replace_dialog :: "nat option \<Rightarrow> agent_state \<Rightarrow> agent_state" where
  "replace_dialog next s = (take_down (sa_dialog s) (s\<lparr> sa_dialog := None \<rparr>))\<lparr> sa_dialog := next \<rparr>"

text \<open>What the session gives the agent: whether a process spawns, the files, and the agent socket.\<close>

record agent_env =
  ae_spawns :: bool
  ae_files :: cfg_io
  ae_socket :: string

definition show_dialog :: "agent_env \<Rightarrow> string list \<Rightarrow> agent_state \<Rightarrow> agent_state" where
  "show_dialog E args s = (case spawn_dialog (ae_spawns E) args s of (child, s1) \<Rightarrow> replace_dialog child s1)"

definition agent_dialog_args :: "string \<Rightarrow> string list" where
  "agent_dialog_args rest = (case unwrap_or (''30'', rest) (split_once CHR '':'' rest) of
     (secs, cmd) \<Rightarrow> [''--agent'', ''--command'', cmd, ''--timeout'', secs])"

definition handle_line :: "agent_env \<Rightarrow> string \<Rightarrow> agent_state \<Rightarrow> agent_state" where
  "handle_line E line s =
     (if line = ''UI:DIALOG:AUTH'' then show_dialog E [] s
      else case strip_prefix ''UI:DIALOG:AGENT:'' line of
        Some rest \<Rightarrow> show_dialog E (agent_dialog_args rest) s
      | None \<Rightarrow>
          if line = ''UI:DISMISS'' then take_down (sa_dialog s) (s\<lparr> sa_dialog := None \<rparr>)
          else case strip_prefix ''NOTIFY:'' line of
            Some text \<Rightarrow> log_effect (Notify text) s
          | None \<Rightarrow> (case strip_prefix ''SSH_TAKEOVER:'' line of
              Some st \<Rightarrow> (case apply_toggle (ae_files E) (ae_socket E) (st = ''ON'') (sa_home s) of
                (done_ok, home) \<Rightarrow> log_effect (Reconcile (st = ''ON'') done_ok) (s\<lparr> sa_home := home \<rparr>))
            | None \<Rightarrow> if line \<noteq> [] then log_effect (Complain (''unknown line: '' @ line)) s else s))"

text \<open>One round of the loop: a line, the end or an error of the stream, or the exit of the dialog.\<close>

datatype agent_event =
    AgentLine agent_env string
  | AgentEof
  | AgentReadError string
  | DialogExit "int option" bool

datatype agent_outcome = Running | Closed | Failed string

definition agent_round :: "agent_event \<Rightarrow> agent_state \<Rightarrow> agent_outcome \<times> agent_state" where
  "agent_round ev s = (case ev of
     AgentLine E line \<Rightarrow> (Running, handle_line E (trim line) s)
   | AgentEof \<Rightarrow> (Closed, s)
   | AgentReadError e \<Rightarrow> (Failed (''read failed: '' @ e), s)
   | DialogExit code written \<Rightarrow> (case sa_dialog s of
       None \<Rightarrow> (Running, s)
     | Some p \<Rightarrow>
         (let s1 = log_effect (Exited p code) (s\<lparr> sa_dialog := None \<rparr>) in
          if code = Some 0 then (Running, s1)
          else if written then (Running, log_effect SendCancel s1) else (Failed ''cancel write failed'', s1))))"

text \<open>A run of one connection starts without a dialog and ends with the first round that ends it.\<close>

fun agent_rounds :: "agent_event list \<Rightarrow> agent_state \<Rightarrow> agent_outcome \<times> agent_state" where
  "agent_rounds [] s = (Running, s)"
| "agent_rounds (ev # evs) s = (case agent_round ev s of
     (Running, s1) \<Rightarrow> agent_rounds evs s1 | (out, s1) \<Rightarrow> (out, s1))"

definition agent_run :: "agent_event list \<Rightarrow> agent_state \<Rightarrow> agent_outcome \<times> agent_state" where
  "agent_run evs s = agent_rounds evs (s\<lparr> sa_dialog := None \<rparr>)"

section \<open>Reconnecting\<close>

definition RECONNECT_MIN :: nat where "RECONNECT_MIN = 1"
definition RECONNECT_MAX :: nat where "RECONNECT_MAX = 30"

text \<open>The waits in seconds after each run; a connection that could not be made is a run that fails.\<close>

fun reconnect_waits :: "nat \<Rightarrow> (unit, string) result list \<Rightarrow> nat list" where
  "reconnect_waits backoff [] = []"
| "reconnect_waits backoff (r # rs) =
     (let b = (case r of Ok _ \<Rightarrow> RECONNECT_MIN | Err _ \<Rightarrow> backoff) in b # reconnect_waits (min (b * 2) RECONNECT_MAX) rs)"

section \<open>The daemon's side\<close>

text \<open>
  The connections of agents: the lines not yet written to each, those written, and which are open. The
  coordinator knows the registered one. A line pushed by an operation of the daemon goes to it.
\<close>

record ui_server =
  ui_coord :: coordinator
  ui_box :: "nat \<Rightarrow> string list"
  ui_written :: "nat \<Rightarrow> string list"
  ui_alive :: "nat list"
  ui_fresh :: nat

definition pushed_lines :: "coordinator \<Rightarrow> coordinator \<Rightarrow> string list" where
  "pushed_lines c c' = List.map_filter (\<lambda>e. case e of UiLine l \<Rightarrow> Some l | _ \<Rightarrow> None) (drop (length (effects c)) (effects c'))"

definition serve_op :: "(coordinator \<Rightarrow> coordinator) \<Rightarrow> ui_server \<Rightarrow> ui_server" where
  "serve_op f s = (let c = ui_coord s; c' = f c in
     s\<lparr> ui_coord := c', ui_box := (case ui_out c of
          Some n \<Rightarrow> (ui_box s)(n := ui_box s n @ pushed_lines c c') | None \<Rightarrow> ui_box s) \<rparr>)"

definition subscribe_agent :: "ui_server \<Rightarrow> ui_server" where
  "subscribe_agent s =
     serve_op push_ssh_takeover
       (s\<lparr> ui_coord := (ui_coord s)\<lparr> ui_out := Some (ui_fresh s) \<rparr>, ui_alive := ui_fresh s # ui_alive s,
          ui_fresh := Suc (ui_fresh s) \<rparr>)"

text \<open>The end of a connection: it is deregistered if it is still the registered one.\<close>

definition close_agent :: "nat \<Rightarrow> ui_server \<Rightarrow> ui_server" where
  "close_agent n s =
     s\<lparr> ui_alive := removeAll n (ui_alive s),
        ui_coord := (if ui_out (ui_coord s) = Some n then (ui_coord s)\<lparr> ui_out := None \<rparr> else ui_coord s) \<rparr>"

definition session_line :: "string \<Rightarrow> coordinator \<Rightarrow> coordinator" where
  "session_line l c = (if trim l = ''UI:CANCEL'' then emit UiCancel c else c)"

datatype ui_event =
    UiSubscribe
  | UiOp "coordinator \<Rightarrow> coordinator"
  | UiWrite nat bool
  | UiRead nat "string option"

fun ui_step :: "ui_event \<Rightarrow> ui_server \<Rightarrow> ui_server" where
  "ui_step UiSubscribe s = subscribe_agent s"
| "ui_step (UiOp f) s = serve_op f s"
| "ui_step (UiWrite n good) s = (case ui_box s n of
     [] \<Rightarrow> s
   | l # ls \<Rightarrow>
       if n \<notin> set (ui_alive s) then s
       else if good then s\<lparr> ui_box := (ui_box s)(n := ls), ui_written := (ui_written s)(n := ui_written s n @ [l]) \<rparr>
       else close_agent n s)"
| "ui_step (UiRead n chunk) s =
     (if n \<notin> set (ui_alive s) then s
      else case chunk of
        None \<Rightarrow> close_agent n s
      | Some bs \<Rightarrow> s\<lparr> ui_coord := fold session_line (lines (from_utf8_lossy bs)) (ui_coord s) \<rparr>)"

section \<open>The windows of the agent\<close>

text \<open>The dialog processes that were spawned and neither ended nor were told to end.\<close>

definition window_after :: "agent_effect \<Rightarrow> nat list \<Rightarrow> nat list" where
  "window_after e ws = (case e of
     SpawnDialog args (Some p) \<Rightarrow> p # ws | Terminate p \<Rightarrow> removeAll p ws | Exited p c \<Rightarrow> removeAll p ws | _ \<Rightarrow> ws)"

definition open_windows :: "agent_effect list \<Rightarrow> nat list" where
  "open_windows es = fold window_after es []"

text \<open>A cancel follows the exit of an open window with a code other than 0.\<close>

definition user_cancelled :: "agent_effect list \<Rightarrow> bool" where
  "user_cancelled es \<longleftrightarrow> (\<exists>zs p c. es = zs @ [Exited p c] \<and> c \<noteq> Some 0 \<and> p \<in> set (open_windows zs))"

definition cancels_ok :: "agent_effect list \<Rightarrow> bool" where
  "cancels_ok es \<longleftrightarrow> (\<forall>xs ys. es = xs @ SendCancel # ys \<longrightarrow> user_cancelled xs)"

definition agent_inv :: "agent_state \<Rightarrow> bool" where
  "agent_inv s \<longleftrightarrow> open_windows (sa_log s) = (case sa_dialog s of Some p \<Rightarrow> [p] | None \<Rightarrow> []) \<and>
     (\<forall>p. sa_dialog s = Some p \<longrightarrow> p < sa_next s) \<and> cancels_ok (sa_log s)"

definition agent_start :: "ssh_home \<Rightarrow> agent_state" where
  "agent_start home = \<lparr> sa_dialog = None, sa_next = 0, sa_home = home, sa_log = [] \<rparr>"

lemma log_effect_fields [simp]:
  "sa_log (log_effect e s) = sa_log s @ [e]" "sa_dialog (log_effect e s) = sa_dialog s"
  "sa_next (log_effect e s) = sa_next s" "sa_home (log_effect e s) = sa_home s"
  by (simp_all add: log_effect_def)

lemma open_windows_snoc [simp]:
  "open_windows [] = []" "open_windows (es @ [e]) = window_after e (open_windows es)"
  by (simp_all add: open_windows_def)

lemma window_after_simps [simp]:
  "window_after (SpawnDialog args (Some p)) ws = p # ws" "window_after (SpawnDialog args None) ws = ws"
  "window_after (Terminate p) ws = removeAll p ws" "window_after (Exited p c) ws = removeAll p ws"
  "window_after SendCancel ws = ws" "window_after (Notify t) ws = ws"
  "window_after (Reconcile b d) ws = ws" "window_after (Complain t) ws = ws"
  by (simp_all add: window_after_def)

lemma cancels_ok_snoc: "cancels_ok (es @ [e]) \<longleftrightarrow> cancels_ok es \<and> (e = SendCancel \<longrightarrow> user_cancelled es)"
proof
  assume *: "cancels_ok (es @ [e])"
  have "user_cancelled xs" if "es = xs @ SendCancel # ys" for xs ys
    using * that unfolding cancels_ok_def by (auto dest: spec [of _ xs] spec [of _ "ys @ [e]"])
  moreover have "e = SendCancel \<longrightarrow> user_cancelled es" using * unfolding cancels_ok_def by blast
  ultimately show "cancels_ok es \<and> (e = SendCancel \<longrightarrow> user_cancelled es)" by (simp add: cancels_ok_def)
next
  assume *: "cancels_ok es \<and> (e = SendCancel \<longrightarrow> user_cancelled es)"
  have "user_cancelled xs" if "es @ [e] = xs @ SendCancel # ys" for xs ys
    using * that by (cases ys rule: rev_cases) (auto simp: cancels_ok_def)
  then show "cancels_ok (es @ [e])" by (simp add: cancels_ok_def)
qed

lemma two_effects:
  "open_windows (es @ [d, e]) = window_after e (window_after d (open_windows es))"
  "cancels_ok (es @ [d, e]) \<longleftrightarrow> cancels_ok es \<and> (d = SendCancel \<longrightarrow> user_cancelled es) \<and>
     (e = SendCancel \<longrightarrow> user_cancelled (es @ [d]))"
  using open_windows_snoc(2) [of "es @ [d]" e] cancels_ok_snoc [of "es @ [d]" e] by (simp_all add: cancels_ok_snoc)

lemma three_effects:
  "open_windows (es @ [d, e, f]) = window_after f (window_after e (window_after d (open_windows es)))"
  "cancels_ok (es @ [d, e, f]) \<longleftrightarrow> cancels_ok (es @ [d, e]) \<and> (f = SendCancel \<longrightarrow> user_cancelled (es @ [d, e]))"
  using open_windows_snoc(2) [of "es @ [d, e]" f] cancels_ok_snoc [of "es @ [d, e]" f] by (simp_all add: two_effects)

lemma cancels_ok_Nil [simp]: "cancels_ok []"
  by (simp add: cancels_ok_def)

lemma show_dialog_inv: "agent_inv s \<Longrightarrow> agent_inv (show_dialog E args s)"
  by (cases "sa_dialog s")
    (auto simp: agent_inv_def show_dialog_def spawn_dialog_def replace_dialog_def take_down_def cancels_ok_snoc
      two_effects three_effects)

lemma dismiss_inv: "agent_inv s \<Longrightarrow> agent_inv (take_down (sa_dialog s) (s\<lparr> sa_dialog := None \<rparr>))"
  by (cases "sa_dialog s") (auto simp: agent_inv_def take_down_def cancels_ok_snoc)

lemma log_effect_inv:
  assumes "agent_inv s" "window_after e = id" "e \<noteq> SendCancel"
  shows "agent_inv (log_effect e s)"
  using assms by (auto simp: agent_inv_def cancels_ok_snoc)

lemma handle_line_inv:
  assumes "agent_inv s"
  shows "agent_inv (handle_line E line s)"
proof -
  have quiet: "window_after (Notify t) = id" "window_after (Reconcile b d) = id" "window_after (Complain t) = id" for t b d
    by (simp_all add: fun_eq_iff)
  have home: "agent_inv (s\<lparr> sa_home := home \<rparr>)" for home using assms by (simp add: agent_inv_def)
  show ?thesis
    using assms home quiet show_dialog_inv dismiss_inv
    by (auto simp: handle_line_def log_effect_inv split: option.split prod.split)
qed

lemma exit_inv:
  assumes "agent_inv s" "sa_dialog s = Some p"
  shows "agent_inv (log_effect (Exited p c) (s\<lparr> sa_dialog := None \<rparr>))"
    and "c \<noteq> Some 0 \<Longrightarrow> agent_inv (log_effect SendCancel (log_effect (Exited p c) (s\<lparr> sa_dialog := None \<rparr>)))"
proof -
  have "user_cancelled (sa_log s @ [Exited p c])" if "c \<noteq> Some 0"
    using assms that by (auto simp: user_cancelled_def agent_inv_def)
  then show "agent_inv (log_effect (Exited p c) (s\<lparr> sa_dialog := None \<rparr>))"
    "c \<noteq> Some 0 \<Longrightarrow> agent_inv (log_effect SendCancel (log_effect (Exited p c) (s\<lparr> sa_dialog := None \<rparr>)))"
    using assms by (auto simp: agent_inv_def cancels_ok_snoc two_effects)
qed

lemma agent_round_inv: "agent_inv s \<Longrightarrow> agent_inv (snd (agent_round ev s))"
  by (auto simp: agent_round_def handle_line_inv exit_inv Let_def split: agent_event.split option.split)

interpretation agent_loop: event_machine "\<lambda>ev s. snd (agent_round ev s)" agent_inv
  by unfold_locales (rule agent_round_inv)

lemma agent_rounds_prefix: "\<exists>n. snd (agent_rounds evs s) = fold (\<lambda>ev s. snd (agent_round ev s)) (take n evs) s"
proof (induction evs arbitrary: s)
  case (Cons ev evs)
  obtain out s1 where r: "agent_round ev s = (out, s1)" by (cases "agent_round ev s")
  obtain n where n: "snd (agent_rounds evs s1) = fold (\<lambda>ev s. snd (agent_round ev s)) (take n evs) s1"
    using Cons.IH by blast
  show ?case
  proof (cases "out = Running")
    case True
    then show ?thesis using r n by (intro exI [of _ "Suc n"]) simp
  next
    case False
    then show ?thesis using r by (intro exI [of _ 1]) (cases out; simp)
  qed
qed simp

lemma agent_run_inv: "agent_inv (snd (agent_run evs (agent_start home)))"
proof -
  have start: "agent_inv ((agent_start home)\<lparr> sa_dialog := None \<rparr>)" by (simp add: agent_inv_def agent_start_def)
  obtain n where "snd (agent_run evs (agent_start home)) =
      fold (\<lambda>ev s. snd (agent_round ev s)) (take n evs) ((agent_start home)\<lparr> sa_dialog := None \<rparr>)"
    using agent_rounds_prefix unfolding agent_run_def by blast
  then show ?thesis using agent_loop.run_inv [OF start] by simp
qed

text \<open>
  Fact: the agent never leaves an orphan window. Over any run of a connection, whatever is asked and
  whichever spawns fail, the dialog processes that are open and were not told to end are exactly the one
  the agent still holds.
\<close>

theorem one_window:
  "open_windows (sa_log (snd (agent_run evs (agent_start home)))) =
     (case sa_dialog (snd (agent_run evs (agent_start home))) of Some p \<Rightarrow> [p] | None \<Rightarrow> [])"
  using agent_run_inv [of evs home] unfolding agent_inv_def by blast

text \<open>
  Fact: the agent sends a cancel only for its user: just before it, a dialog that was open, and that the agent
  had not taken down, ended with a code other than 0. A dialog that the daemon dismissed or that a newer
  one replaced never cancels anything.
\<close>

theorem cancel_only_by_user:
  assumes "sa_log (snd (agent_run evs (agent_start home))) = xs @ SendCancel # ys"
  shows "\<exists>zs p c. xs = zs @ [Exited p c] \<and> c \<noteq> Some 0 \<and> p \<in> set (open_windows zs)"
  using agent_run_inv [of evs home] assms unfolding agent_inv_def cancels_ok_def user_cancelled_def by blast

definition sample_session :: agent_env where
  "sample_session = \<lparr> ae_spawns = True,
     ae_files = \<lparr> mkdir_ok = True, dir_chmod_ok = True, readable = True, tmp_write_ok = True, tmp_chmod_ok = True, rename_ok = True \<rparr>,
     ae_socket = ''/run/immurok/agent.sock'' \<rparr>"

lemma trim_ui_lines [simp]:
  "trim ''UI:DIALOG:AUTH'' = ''UI:DIALOG:AUTH''" "trim ''UI:DISMISS'' = ''UI:DISMISS''"
  by (rule trim_graphic; simp)+

lemma handle_auth_dialog [simp]: "handle_line E ''UI:DIALOG:AUTH'' s = show_dialog E [] s"
  by (simp add: handle_line_def)

lemma handle_dismiss [simp]: "handle_line E ''UI:DISMISS'' s = take_down (sa_dialog s) (s\<lparr> sa_dialog := None \<rparr>)"
  by (simp add: handle_line_def str_simps)

theorem cancel_only_by_user_witness:
  "\<exists>zs p c. [SpawnDialog [] (Some 0), Exited 0 (Some 1)] = zs @ [Exited p c] \<and> c \<noteq> Some 0 \<and> p \<in> set (open_windows zs)"
  using cancel_only_by_user [of "[AgentLine sample_session ''UI:DIALOG:AUTH'', DialogExit (Some 1) True]" home
      "[SpawnDialog [] (Some 0), Exited 0 (Some 1)]" "[]"]
  by (simp add: agent_run_def agent_start_def agent_round_def show_dialog_def spawn_dialog_def replace_dialog_def take_down_def
      sample_session_def)

text \<open>
  Fact: the window does not survive a replacement but it does survive the connection: the loop drops its
  hold of the process without ending it, and no later line reaches it.
\<close>

theorem window_outlives_connection:
  "agent_run [AgentLine sample_session ''UI:DIALOG:AUTH'', AgentEof] (agent_start home) = (Closed, s) \<Longrightarrow>
    open_windows (sa_log s) = [0] \<and>
    open_windows (sa_log (snd (agent_run [AgentLine E ''UI:DISMISS''] s))) = [0]"
  by (auto simp: agent_run_def agent_start_def agent_round_def show_dialog_def spawn_dialog_def replace_dialog_def take_down_def
      sample_session_def open_windows_def)

section \<open>Reconnection\<close>

lemma waits_bounds:
  "RECONNECT_MIN \<le> b \<Longrightarrow> b \<le> RECONNECT_MAX \<Longrightarrow>
    list_all (\<lambda>w. RECONNECT_MIN \<le> w \<and> w \<le> RECONNECT_MAX) (reconnect_waits b rs)"
  by (induction b rs rule: reconnect_waits.induct)
    (auto simp: Let_def RECONNECT_MIN_def RECONNECT_MAX_def split: result.splits)

text \<open>Fact: the agent waits between 1 and 30 seconds before every new connection.\<close>

theorem reconnect_waits_bounds:
  "list_all (\<lambda>w. RECONNECT_MIN \<le> w \<and> w \<le> RECONNECT_MAX) (reconnect_waits RECONNECT_MIN rs)"
  by (rule waits_bounds) (simp_all add: RECONNECT_MIN_def RECONNECT_MAX_def)

lemma doubled_again: "min (min (b * 2) m * 2 ^ k) m = min (b * 2 ^ Suc k) (m :: nat)"
proof (cases "b * 2 \<le> m")
  case True
  then show ?thesis by (simp add: mult.assoc)
next
  case False
  have "m * 1 \<le> m * 2 ^ k" by (intro mult_le_mono2) simp
  moreover have "b * 2 * 1 \<le> b * 2 * 2 ^ k" by (intro mult_le_mono2) simp
  then have "m \<le> b * 2 * 2 ^ k" using False by linarith
  then have "m \<le> b * 2 ^ Suc k" by (simp only: power_Suc mult.assoc)
  ultimately show ?thesis using False by (simp only: min_absorb1 min_absorb2 mult_1_right linear not_le less_imp_le)
qed

lemma failing_waits:
  assumes "b \<le> RECONNECT_MAX"
  shows "reconnect_waits b (replicate n (Err e)) = map (\<lambda>k. min (b * 2 ^ k) RECONNECT_MAX) [0..<n]"
  using assms
proof (induction n arbitrary: b)
  case (Suc n)
  then show ?case by (simp add: Let_def map_upt_Suc doubled_again del: upt_Suc power_Suc)
qed simp

section \<open>The daemon's connections\<close>

text \<open>An operation of the daemon neither registers an agent nor takes back an effect.\<close>

definition ui_op :: "(coordinator \<Rightarrow> coordinator) \<Rightarrow> bool" where
  "ui_op f \<longleftrightarrow> (\<forall>c. ui_out (f c) = ui_out c)"

fun ui_event_ok :: "ui_event \<Rightarrow> bool" where
  "ui_event_ok (UiOp f) \<longleftrightarrow> ui_op f"
| "ui_event_ok _ \<longleftrightarrow> True"

definition ui_start :: "coordinator \<Rightarrow> ui_server" where
  "ui_start c = \<lparr> ui_coord = c\<lparr> ui_out := None \<rparr>, ui_box = (\<lambda>_. []), ui_written = (\<lambda>_. []), ui_alive = [], ui_fresh = 0 \<rparr>"

definition ui_inv :: "ui_server \<Rightarrow> bool" where
  "ui_inv s \<longleftrightarrow> (\<forall>n. ui_out (ui_coord s) = Some n \<longrightarrow> n \<in> set (ui_alive s) \<and> Suc n = ui_fresh s) \<and>
     (\<forall>n \<in> set (ui_alive s). n < ui_fresh s)"

lemma push_takeover_out [simp]: "ui_out (push_ssh_takeover c) = ui_out c"
  by (simp add: push_ssh_takeover_def push_ui_def emit_def split: option.split)

lemma serve_op_fields [simp]:
  "ui_coord (serve_op f s) = f (ui_coord s)" "ui_alive (serve_op f s) = ui_alive s"
  "ui_fresh (serve_op f s) = ui_fresh s" "ui_written (serve_op f s) = ui_written s"
  by (simp_all add: serve_op_def Let_def)

lemma session_lines_out [simp]: "ui_out (fold session_line ls c) = ui_out c"
  by (induction ls arbitrary: c) (simp_all add: session_line_def emit_def)

lemma ui_step_inv: "ui_inv s \<Longrightarrow> ui_event_ok e \<Longrightarrow> ui_inv (ui_step e s)"
  by (cases e) (auto simp: ui_inv_def subscribe_agent_def close_agent_def ui_op_def split: list.split option.split)

lemma ui_run_inv: "ui_inv s \<Longrightarrow> list_all ui_event_ok es \<Longrightarrow> ui_inv (fold ui_step es s)"
  by (induction es arbitrary: s) (simp_all add: ui_step_inv)

text \<open>
  Fact: the registered agent is always the newest one and its connection is open: an older connection that
  ends, however late, never deregisters the agent that replaced it.
\<close>

theorem newest_agent_serves:
  assumes "list_all ui_event_ok es" "ui_out (ui_coord (fold ui_step es (ui_start c))) = Some n"
  shows "n \<in> set (ui_alive (fold ui_step es (ui_start c))) \<and> Suc n = ui_fresh (fold ui_step es (ui_start c))"
proof -
  have "ui_inv (ui_start c)" by (simp add: ui_inv_def ui_start_def)
  then have "ui_inv (fold ui_step es (ui_start c))" using ui_run_inv assms(1) by blast
  then show ?thesis using assms(2) by (simp add: ui_inv_def)
qed

theorem newest_agent_serves_witness:
  "(1 :: nat) \<in> set (ui_alive (fold ui_step [UiSubscribe, UiSubscribe, UiRead 0 None] (ui_start coordinator_new)))"
  using newest_agent_serves [of "[UiSubscribe, UiSubscribe, UiRead 0 None]" coordinator_new 1]
  by (simp add: subscribe_agent_def close_agent_def ui_start_def)

lemma displaced_step:
  assumes "ui_out (ui_coord s) \<noteq> Some n" "n < ui_fresh s" "ui_event_ok e"
  shows "ui_out (ui_coord (ui_step e s)) \<noteq> Some n \<and> n < ui_fresh (ui_step e s) \<and>
    ui_written (ui_step e s) n @ ui_box (ui_step e s) n = ui_written s n @ ui_box s n"
  using assms
  by (cases e) (auto simp: subscribe_agent_def serve_op_def close_agent_def ui_op_def Let_def split: list.split option.split)

text \<open>
  Fact: an agent that was replaced gets nothing any more. Whatever happens afterwards, also when the newer
  agent ends and nobody is registered, the old connection stays open and is written only the lines that
  were already queued for it: the first of two sessions has no dialogs until its agent reconnects.
\<close>

theorem displaced_agent_is_deaf:
  assumes "ui_out (ui_coord s) \<noteq> Some n" "n < ui_fresh s" "list_all ui_event_ok es"
  shows "ui_out (ui_coord (fold ui_step es s)) \<noteq> Some n \<and>
    ui_written (fold ui_step es s) n @ ui_box (fold ui_step es s) n = ui_written s n @ ui_box s n"
proof -
  have "ui_out (ui_coord (fold ui_step es s)) \<noteq> Some n \<and> n < ui_fresh (fold ui_step es s) \<and>
      ui_written (fold ui_step es s) n @ ui_box (fold ui_step es s) n = ui_written s n @ ui_box s n"
    using assms
  proof (induction es arbitrary: s)
    case (Cons e es)
    then show ?case using displaced_step [of s n e] by simp
  qed simp
  then show ?thesis by blast
qed

definition two_sessions :: ui_server where
  "two_sessions = fold ui_step [UiSubscribe, UiSubscribe, UiRead 1 None] (ui_start coordinator_new)"

lemma two_sessions_fields [simp]:
  "ui_alive two_sessions = [0]" "ui_out (ui_coord two_sessions) = None" "ui_fresh two_sessions = 2"
  by (simp_all add: two_sessions_def subscribe_agent_def close_agent_def ui_start_def)

theorem displaced_agent_is_deaf_witness:
  "ui_alive two_sessions = [0] \<and> ui_out (ui_coord two_sessions) = None \<and>
   ui_written (serve_op (\<lambda>c. snd (push_ui ''UI:DIALOG:AUTH'' c)) two_sessions) 0 @
     ui_box (serve_op (\<lambda>c. snd (push_ui ''UI:DIALOG:AUTH'' c)) two_sessions) 0 = ui_written two_sessions 0 @ ui_box two_sessions 0"
proof -
  have "ui_op (\<lambda>c. snd (push_ui ''UI:DIALOG:AUTH'' c))"
    by (simp add: ui_op_def push_ui_def emit_def split: option.split)
  then show ?thesis
    using displaced_agent_is_deaf [of two_sessions 0 "[UiOp (\<lambda>c. snd (push_ui ''UI:DIALOG:AUTH'' c))]"] by simp
qed

section \<open>From a request to the window\<close>

text \<open>The lines written to the stream of an agent are the lines it reads.\<close>

lemma agent_reads_lines:
  assumes "\<forall>l \<in> set ls. LF \<notin> set l \<and> CHR 0x0D \<notin> set l"
  shows "lines (concat (map (\<lambda>l. l @ [LF]) ls)) = ls"
  using assms by (induction ls) (simp_all add: lines_Cons_line chop_cr_free, simp add: lines_def)

lemma pushed_nothing [simp]: "effects c' = effects c \<Longrightarrow> pushed_lines c c' = []"
  by (simp add: pushed_lines_def map_filter_simps)

lemma pushed_one: "effects c' = effects c @ [UiLine l] \<Longrightarrow> pushed_lines c c' = [l]"
  by (simp add: pushed_lines_def map_filter_simps)

lemma pushed_two: "effects c' = effects c @ [UiLine l, UiLine m] \<Longrightarrow> pushed_lines c c' = [l, m]"
  by (simp add: pushed_lines_def map_filter_simps)

lemma session_line_trim: "trim (''UI:DIALOG:AGENT:30:'' @ cmd) = ''UI:DIALOG:AGENT:30:'' @ trim_end cmd"
  using trim_barrier [of "CHR '':''" "''UI:DIALOG:AGENT:30''" cmd] by simp

lemma handle_agent_dialog:
  "handle_line E (''UI:DIALOG:AGENT:30:'' @ cmd) s = show_dialog E [''--agent'', ''--command'', cmd, ''--timeout'', ''30''] s"
proof -
  have "strip_prefix ''UI:DIALOG:AGENT:'' (''UI:DIALOG:AGENT:30:'' @ cmd) = Some (''30:'' @ cmd)"
    by (simp add: strip_prefix_Some)
  moreover have "split_once CHR '':'' (''30:'' @ cmd) = Some (''30'', cmd)" by (simp add: split_once_Some)
  ultimately show ?thesis by (simp add: handle_line_def agent_dialog_args_def)
qed

lemma show_dialog_log:
  "\<exists>r es. sa_log (show_dialog E args s) = sa_log s @ SpawnDialog args r # es"
  by (cases "sa_dialog s") (auto simp: show_dialog_def spawn_dialog_def replace_dialog_def take_down_def)

text \<open>
  Fact: what the user is asked to approve is what was requested: when an agent approval begins to wait with a
  window, exactly one line was pushed, and the agent that reads it opens a dialog whose command is the
  command of the request, whatever colons it has, without white space at its end.
\<close>

theorem approval_dialog_shows_command:
  assumes "agent_begin h ch peer cmd c = (Ok True, c')"
  shows "\<exists>l r es. pushed_lines c c' = [l] \<and> sa_log (handle_line E (trim l) s) =
    sa_log s @ SpawnDialog [''--agent'', ''--command'', trim_end cmd, ''--timeout'', ''30''] r # es"
proof -
  have "effects c' = effects c @ [UiLine (''UI:DIALOG:AGENT:30:'' @ cmd)]"
    using assms
    by (auto simp: agent_begin_def record_agent_claim_def try_set_pending_pam_def push_ui_def emit_def Let_def
        split: option.splits if_splits)
  then have "pushed_lines c c' = [''UI:DIALOG:AGENT:30:'' @ cmd]" by (rule pushed_one)
  moreover have "\<exists>r es. sa_log (handle_line E (trim (''UI:DIALOG:AGENT:30:'' @ cmd)) s) =
      sa_log s @ SpawnDialog [''--agent'', ''--command'', trim_end cmd, ''--timeout'', ''30''] r # es"
    unfolding session_line_trim handle_agent_dialog by (rule show_dialog_log)
  ultimately show ?thesis by blast
qed

text \<open>
  Fact: a second graphical login closes the window of the request that is waiting. It pushes its dialog
  before it finds the slot taken, and then a dismissal: the agent replaces the window of the waiting
  request and takes the new one down, while that request goes on waiting without a window.
\<close>

theorem busy_login_closes_dialog:
  assumes "auth_begin h ch user svc c = (Err (RError ''BUSY''), c')" "is_graphical h svc" "ui_out c = Some n"
    and "sa_dialog s = Some p"
  shows "pending_pam c' = pending_pam c \<and> pending_pam c \<noteq> None \<and>
    pushed_lines c c' = [''UI:DIALOG:AUTH'', ''UI:DISMISS''] \<and>
    sa_dialog (fold (\<lambda>l. handle_line E (trim l)) (pushed_lines c c') s) = None \<and>
    Terminate p \<in> set (sa_log (fold (\<lambda>l. handle_line E (trim l)) (pushed_lines c c') s))"
proof -
  have c: "effects c' = effects c @ [UiLine ''UI:DIALOG:AUTH'', UiLine ''UI:DISMISS'']"
    "pending_pam c' = pending_pam c" "pending_pam c \<noteq> None"
    using assms(1-3)
    by (auto simp: auth_begin_def try_set_pending_pam_def push_ui_def emit_def Let_def split: option.splits if_splits)
  then have "pushed_lines c c' = [''UI:DIALOG:AUTH'', ''UI:DISMISS'']" by (simp add: pushed_two)
  then show ?thesis
    using c assms(4)
    by (auto simp: show_dialog_def spawn_dialog_def replace_dialog_def take_down_def)
qed

definition busy_coordinator :: coordinator where
  "busy_coordinator = ready_coordinator\<lparr> pending_pam := Some 7, ui_out := Some 0,
     settings := default_settings\<lparr> unlock_screen := True \<rparr> \<rparr>"

lemma busy_login_run:
  "auth_begin sample_host 8 ''alice'' ''login'' busy_coordinator = (Err (RError ''BUSY''),
     emit (UiLine ''UI:DISMISS'') (emit (UiLine ''UI:DIALOG:AUTH'') busy_coordinator))"
proof -
  have "lower sample_host = map ascii_lower" by (simp add: sample_host_def)
  then show ?thesis
    by (simp add: auth_begin_def uid_of_user_def is_service_allowed_def is_graphical_def consume_pre_auth_def
        busy_coordinator_def ready_coordinator_def coordinator_new_def default_settings_def try_set_pending_pam_def
        push_ui_def emit_def ascii_lower_def)
qed

theorem busy_login_closes_dialog_witness:
  "Terminate 5 \<in> set (sa_log (fold (\<lambda>l. handle_line sample_session (trim l)) [''UI:DIALOG:AUTH'', ''UI:DISMISS'']
     \<lparr> sa_dialog = Some 5, sa_next = 6, sa_home = home, sa_log = [] \<rparr>))"
proof -
  have "is_graphical sample_host ''login''" by (simp add: is_graphical_def sample_host_def ascii_lower_def)
  moreover have "ui_out busy_coordinator = Some 0" by (simp add: busy_coordinator_def)
  ultimately have "pushed_lines busy_coordinator
        (emit (UiLine ''UI:DISMISS'') (emit (UiLine ''UI:DIALOG:AUTH'') busy_coordinator)) = [''UI:DIALOG:AUTH'', ''UI:DISMISS''] \<and>
      Terminate 5 \<in> set (sa_log (fold (\<lambda>l. handle_line sample_session (trim l)) (pushed_lines busy_coordinator
        (emit (UiLine ''UI:DISMISS'') (emit (UiLine ''UI:DIALOG:AUTH'') busy_coordinator))) s))"
    if "sa_dialog s = Some 5" for s
    using busy_login_closes_dialog [OF busy_login_run, of 0 s 5 sample_session] that by blast
  from this [of "\<lparr> sa_dialog = Some 5, sa_next = 6, sa_home = home, sa_log = [] \<rparr>"] show ?thesis
    by (metis agent_state.select_convs(1))
qed

lemma approval_run:
  "agent_begin sample_host 8 None ''sudo -n'' (ready_coordinator\<lparr> ui_out := Some 0 \<rparr>) =
     (Ok True, emit (UiLine ''UI:DIALOG:AGENT:30:sudo -n'') (ready_coordinator\<lparr> ui_out := Some 0, pending_pam := Some 8 \<rparr>))"
  by (simp add: agent_begin_def ready_coordinator_def coordinator_new_def try_set_pending_pam_def push_ui_def emit_def)

theorem approval_dialog_shows_command_witness:
  "\<exists>l r es. pushed_lines (ready_coordinator\<lparr> ui_out := Some 0 \<rparr>) (snd (agent_begin sample_host 8 None ''sudo -n''
       (ready_coordinator\<lparr> ui_out := Some 0 \<rparr>))) = [l] \<and>
     sa_log (handle_line sample_session (trim l) (agent_start home)) =
       SpawnDialog [''--agent'', ''--command'', ''sudo -n'', ''--timeout'', ''30''] r # es"
proof -
  have "trim_end ''sudo -n'' = ''sudo -n''" using trim_end_graphic [of "CHR ''n''" "''sudo -''"] by simp
  then show ?thesis
    using approval_dialog_shows_command [OF approval_run, of sample_session "agent_start home"]
    by (simp add: approval_run agent_start_def)
qed

end
