(* ===== verification/Client_Keys.thy ===== *)
theory Client_Keys
  imports Client_Parse Keys_Import Socket_Keys
begin

text \<open>
  The key list of the clients (\<open>immurok-client/src/keys.rs\<close>, \<open>fetch_key_cache\<close> of \<open>daemon.rs\<close>): what they
  read from the daemon's cache, the gated reads by name, and the filter of the quick-fill panel
  (\<open>immurok-gui/src/filter.rs\<close>), with what the daemon does with the requests.
\<close>

section \<open>Entries\<close>

definition category_label :: "key_category \<Rightarrow> string" where
  "category_label cat = (case cat of Ssh \<Rightarrow> ''SSH'' | Otp \<Rightarrow> ''OTP'' | Api \<Rightarrow> ''API'')"

record key_entry =
  ke_index :: byte
  ke_category :: key_category
  ke_name :: string
  ke_service :: string
  ke_blob :: string

definition cached_values :: "'j json_reader \<Rightarrow> (string, string) result \<Rightarrow> 'j list" where
  "cached_values J reply = (case reply of
     Err _ \<Rightarrow> []
   | Ok r \<Rightarrow> unwrap_or [] (Option.bind (strip_prefix ''OK:'' r) (\<lambda>j. json_array J (trim j))))"

definition named_entry :: "'j json_reader \<Rightarrow> key_category \<Rightarrow> 'j \<Rightarrow> key_entry" where
  "named_entry J cat e =
     \<lparr> ke_index = of_nat (unwrap_or 0 (get_u64 J e ''index'')), ke_category = cat,
       ke_name = unwrap_or ''-'' (get_str J e ''name''), ke_service = unwrap_or [] (get_str J e ''service''), ke_blob = [] \<rparr>"

definition ssh_entry :: "'j json_reader \<Rightarrow> 'j \<Rightarrow> key_entry" where
  "ssh_entry J e =
     \<lparr> ke_index = of_nat (unwrap_or 0 (get_u64 J e ''index'')), ke_category = Ssh,
       ke_name = unwrap_or ''-'' (get_str J e ''name''), ke_service = [],
       ke_blob = unwrap_or [] (get_str J e ''public_key_blob'') \<rparr>"

text \<open>One-time passwords, then API keys, then SSH keys, each by index; entries of the same index keep their order.\<close>

definition parse_key_cache :: "'j json_reader \<Rightarrow> 'j list \<Rightarrow> 'j list \<Rightarrow> key_entry list" where
  "parse_key_cache J ssh names =
     (let of_cat = (\<lambda>w cat. sort_key ke_index
            (map (named_entry J cat) (filter (\<lambda>e. get_str J e ''category'' = Some w) names)))
      in of_cat ''otp'' Otp @ of_cat ''api'' Api @ sort_key ke_index (map (ssh_entry J) ssh))"

definition list_keys :: "'j json_reader \<Rightarrow> (string \<Rightarrow> (string, string) result) \<Rightarrow> key_entry list" where
  "list_keys J srv = parse_key_cache J (cached_values J (srv ''KEY:CACHE:ssh'')) (cached_values J (srv ''KEY:CACHE:names''))"

definition get_gated_cmd :: "key_category \<Rightarrow> string \<Rightarrow> string" where
  "get_gated_cmd cat nm = ''GET:'' @ category_wire cat @ '':'' @ nm"

definition get_gated :: "(string \<Rightarrow> (string, string) result) \<Rightarrow> key_category \<Rightarrow> string \<Rightarrow> (string, string) result" where
  "get_gated srv cat nm = and_then (srv (get_gated_cmd cat nm)) parse_secret_reply"

definition ssh_public_key_line :: "key_entry \<Rightarrow> string" where
  "ssh_public_key_line e = ''ecdsa-sha2-nistp256 '' @ ke_blob e @ '' '' @ ke_name e"

definition delete_key :: "(string \<Rightarrow> (string, string) result) \<Rightarrow> key_category \<Rightarrow> byte \<Rightarrow> (unit, string) result" where
  "delete_key srv cat i = and_then (srv (delete_key_cmd cat i)) (\<lambda>rsp. if starts_with ''OK'' rsp then Ok () else Err rsp)"

text \<open>The lower case of a text is an argument (\<open>to_lowercase\<close> of the whole of Unicode).\<close>

definition filter_entries :: "(string \<Rightarrow> string) \<Rightarrow> key_entry list \<Rightarrow> string \<Rightarrow> key_entry list" where
  "filter_entries lcase entries query =
     (let q = lcase (trim query) in
      if q = [] then entries
      else filter (\<lambda>e. contains_str q (lcase (ke_name e)) \<or> contains_str q (lcase (ke_service e))) entries)"

section \<open>The list is the cache\<close>

text \<open>
  What the code relies on of \<open>serde_json\<close>, for one cache: the text of an array has no space around it, and
  reading it gives the values that were written.
\<close>

definition reads_back :: "codecs \<Rightarrow> 'j json_reader \<Rightarrow> key_cache \<Rightarrow> bool" where
  "reads_back cd J kc \<longleftrightarrow>
     (\<exists>j vs. names_json cd (key_names kc) = Ok j \<and> trim j = j \<and> trim (''OK:'' @ j) = ''OK:'' @ j \<and> json_array J j = Some vs \<and>
        list_all2 (\<lambda>e v. get_u64 J v ''index'' = Some (unat (entry_index e)) \<and> get_str J v ''category'' = Some (category e) \<and>
          get_str J v ''name'' = Some (entry_name e) \<and> get_str J v ''service'' = Some (service e)) (key_names kc) vs) \<and>
     (\<exists>j vs. ssh_json cd (ssh_keys kc) = Ok j \<and> trim j = j \<and> trim (''OK:'' @ j) = ''OK:'' @ j \<and> json_array J j = Some vs \<and>
        list_all2 (\<lambda>e v. get_u64 J v ''index'' = Some (unat (key_index e)) \<and> get_str J v ''name'' = Some (key_name e) \<and>
          get_str J v ''public_key_blob'' = Some (b64 cd (public_key_blob e))) (ssh_keys kc) vs)"

definition entry_of_name :: "key_category \<Rightarrow> key_name_entry \<Rightarrow> key_entry" where
  "entry_of_name cat e =
     \<lparr> ke_index = entry_index e, ke_category = cat, ke_name = entry_name e, ke_service = service e, ke_blob = [] \<rparr>"

definition entry_of_ssh :: "codecs \<Rightarrow> ssh_key \<Rightarrow> key_entry" where
  "entry_of_ssh cd e =
     \<lparr> ke_index = key_index e, ke_category = Ssh, ke_name = key_name e, ke_service = [], ke_blob = b64 cd (public_key_blob e) \<rparr>"

lemma key_cache_request:
  assumes "k = ''ssh'' \<or> k = ''names''"
  shows "fst (handle_key_command ch cd kc L (''KEY:CACHE:'' @ k) s) = key_cache_json cd kc k"
proof -
  have "splitn 4 CHR '':'' (''KEY:CACHE:'' @ k) = [''KEY'', ''CACHE'', k]"
    using assms by (auto simp: str_simps)
  then show ?thesis by (simp add: handle_key_command_def)
qed

lemma cached_names:
  assumes "reads_back cd J kc" "reply = Ok (trim (key_cache_json cd kc ''names''))"
  shows "list_all2 (\<lambda>e v. get_u64 J v ''index'' = Some (unat (entry_index e)) \<and> get_str J v ''category'' = Some (category e) \<and>
      get_str J v ''name'' = Some (entry_name e) \<and> get_str J v ''service'' = Some (service e)) (key_names kc) (cached_values J reply)"
proof -
  have t: "trim ''names'' = ''names''" by (rule trim_graphic; simp)
  obtain j vs where "names_json cd (key_names kc) = Ok j" "trim j = j" "trim (''OK:'' @ j) = ''OK:'' @ j" "json_array J j = Some vs"
    and vs: "list_all2 (\<lambda>e v. get_u64 J v ''index'' = Some (unat (entry_index e)) \<and> get_str J v ''category'' = Some (category e) \<and>
      get_str J v ''name'' = Some (entry_name e) \<and> get_str J v ''service'' = Some (service e)) (key_names kc) vs"
    using assms(1) unfolding reads_back_def by blast
  then have "cached_values J reply = vs"
    using assms(2) t by (simp add: cached_values_def key_cache_json_def)
  then show ?thesis using vs by simp
qed

lemma cached_ssh:
  assumes "reads_back cd J kc" "reply = Ok (trim (key_cache_json cd kc ''ssh''))"
  shows "list_all2 (\<lambda>e v. get_u64 J v ''index'' = Some (unat (key_index e)) \<and> get_str J v ''name'' = Some (key_name e) \<and>
      get_str J v ''public_key_blob'' = Some (b64 cd (public_key_blob e))) (ssh_keys kc) (cached_values J reply)"
proof -
  have t: "trim ''ssh'' = ''ssh''" by (rule trim_graphic; simp)
  obtain j vs where "ssh_json cd (ssh_keys kc) = Ok j" "trim j = j" "trim (''OK:'' @ j) = ''OK:'' @ j" "json_array J j = Some vs"
    and vs: "list_all2 (\<lambda>e v. get_u64 J v ''index'' = Some (unat (key_index e)) \<and> get_str J v ''name'' = Some (key_name e) \<and>
      get_str J v ''public_key_blob'' = Some (b64 cd (public_key_blob e))) (ssh_keys kc) vs"
    using assms(1) unfolding reads_back_def by blast
  then have "cached_values J reply = vs"
    using assms(2) t by (simp add: cached_values_def key_cache_json_def)
  then show ?thesis using vs by simp
qed

lemma named_entries_read:
  assumes "list_all2 (\<lambda>e v. get_u64 J v ''index'' = Some (unat (entry_index e)) \<and> get_str J v ''category'' = Some (category e) \<and>
      get_str J v ''name'' = Some (entry_name e) \<and> get_str J v ''service'' = Some (service e)) es vs"
  shows "map (named_entry J cat) (filter (\<lambda>v. get_str J v ''category'' = Some w) vs) =
    map (entry_of_name cat) (filter (\<lambda>e. category e = w) es)"
  using assms by (induction rule: list_all2_induct) (simp_all add: named_entry_def entry_of_name_def)

lemma ssh_entries_read:
  assumes "list_all2 (\<lambda>e v. get_u64 J v ''index'' = Some (unat (key_index e)) \<and> get_str J v ''name'' = Some (key_name e) \<and>
      get_str J v ''public_key_blob'' = Some (b64 cd (public_key_blob e))) es vs"
  shows "map (ssh_entry J) vs = map (entry_of_ssh cd) es"
  using assms by (induction rule: list_all2_induct) (simp_all add: ssh_entry_def entry_of_ssh_def)

text \<open>
  Fact: the list a client shows is the daemon's cache: through the request, the JSON and back, every cached
  one-time password, API key and SSH key is in it once, in that order and each group by index, with its
  index, name, service and public key.
\<close>

theorem listed_keys_are_cached:
  assumes "reads_back cd J kc"
    and "srv ''KEY:CACHE:ssh'' = Ok (trim (fst (handle_key_command ch cd kc L ''KEY:CACHE:ssh'' s)))"
    and "srv ''KEY:CACHE:names'' = Ok (trim (fst (handle_key_command ch cd kc L ''KEY:CACHE:names'' s)))"
  shows "list_keys J srv =
    sort_key ke_index (map (entry_of_name Otp) (filter (\<lambda>e. category e = ''otp'') (key_names kc))) @
    sort_key ke_index (map (entry_of_name Api) (filter (\<lambda>e. category e = ''api'') (key_names kc))) @
    sort_key ke_index (map (entry_of_ssh cd) (ssh_keys kc))"
proof -
  have "srv ''KEY:CACHE:ssh'' = Ok (trim (key_cache_json cd kc ''ssh''))"
    using assms(2) key_cache_request [of "''ssh''" ch cd kc L s] by simp
  moreover have "srv ''KEY:CACHE:names'' = Ok (trim (key_cache_json cd kc ''names''))"
    using assms(3) key_cache_request [of "''names''" ch cd kc L s] by simp
  ultimately show ?thesis
    using named_entries_read [OF cached_names [OF assms(1)]] ssh_entries_read [OF cached_ssh [OF assms(1)]]
    by (simp add: list_keys_def parse_key_cache_def)
qed

section \<open>Reading an entry\<close>

lemma find_first_named:
  "distinct (map entry_name (filter (\<lambda>e. category e = w) es)) \<Longrightarrow> e \<in> set es \<Longrightarrow> category e = w \<Longrightarrow>
    find (\<lambda>x. category x = w \<and> entry_name x = entry_name e) es = Some e"
  by (induction es) (auto simp: image_iff split: if_splits)

lemma get_key_otp:
  assumes "nm \<noteq> []" "is_connected (fst s)"
  shows "handle_get_key ch cd kc L (''otp:'' @ nm) s = Some (handle_get_otp ch cd kc L nm s)"
proof -
  have "splitn 2 CHR '':'' (''otp:'' @ nm) = [''otp'', nm]" by (simp add: str_simps)
  then show ?thesis using assms by (simp add: handle_get_key_def)
qed

text \<open>
  Fact: the touch reads the entry the user chose: for a one-time password of the client's list whose name no
  other one has, the request of the client asks the device for the index the list shows.
\<close>

theorem chosen_entry_is_read:
  assumes "reads_back cd J kc"
    and "srv ''KEY:CACHE:ssh'' = Ok (trim (fst (handle_key_command ch cd kc L ''KEY:CACHE:ssh'' s)))"
    and "srv ''KEY:CACHE:names'' = Ok (trim (fst (handle_key_command ch cd kc L ''KEY:CACHE:names'' s)))"
    and "e \<in> set (list_keys J srv)" "ke_category e = Otp" "ke_name e \<noteq> []" "is_connected (fst s)"
    and "distinct (map entry_name (filter (\<lambda>x. category x = ''otp'') (key_names kc)))"
  shows "get_gated_cmd Otp (ke_name e) = ''GET:otp:'' @ ke_name e \<and>
    handle_get_key ch cd kc L (''otp:'' @ ke_name e) s =
      Some (reply_or_busy (with_pending ch (''ERROR:BUSY'' @ nl) (otp_get_inner cd L (ke_index e)) s))"
proof -
  have "e \<in> set (map (entry_of_name Otp) (filter (\<lambda>x. category x = ''otp'') (key_names kc)))"
    using assms(4,5) listed_keys_are_cached [OF assms(1-3)] by (auto simp: entry_of_name_def entry_of_ssh_def)
  then obtain x where x: "x \<in> set (key_names kc)" "category x = ''otp''" "e = entry_of_name Otp x" by auto
  then have "find_key_index kc ''otp'' (ke_name e) = Some (ke_index e)"
    using find_first_named [OF assms(8) x(1,2)] by (simp add: find_key_index_def entry_of_name_def)
  then show ?thesis
    using get_key_otp [OF assms(6,7)] by (simp add: handle_get_otp_def get_gated_cmd_def category_wire_def)
qed

text \<open>
  Fact: two entries of the same name are one to the requests: choosing the second reads the first, whatever
  row of the panel was activated.
\<close>

theorem same_name_reads_first:
  assumes "key_names kc = xs @ a # ys" "b \<in> set ys" "category a = ''otp''" "category b = ''otp''"
    and "entry_name b = entry_name a" "\<forall>x \<in> set xs. \<not> (category x = ''otp'' \<and> entry_name x = entry_name a)"
    and "entry_name b \<noteq> []" "is_connected (fst s)"
  shows "handle_get_key ch cd kc L (''otp:'' @ entry_name b) s =
    Some (reply_or_busy (with_pending ch (''ERROR:BUSY'' @ nl) (otp_get_inner cd L (entry_index a)) s))"
proof -
  have "find (\<lambda>x. category x = ''otp'' \<and> entry_name x = entry_name a) (xs @ a # ys) = Some a"
    using assms(3,6) by (induction xs) auto
  then have "find_key_index kc ''otp'' (entry_name b) = Some (entry_index a)"
    using assms(1,5) by (simp add: find_key_index_def)
  then show ?thesis using get_key_otp [OF assms(7,8)] by (simp add: handle_get_otp_def)
qed

text \<open>The list filtered by a query keeps the order, and an empty query keeps everything.\<close>

lemma filter_entries_blank: "lcase (trim q) = [] \<Longrightarrow> filter_entries lcase es q = es"
  by (simp add: filter_entries_def)

lemma filter_entries_subset: "set (filter_entries lcase es q) \<subseteq> set es"
  by (auto simp: filter_entries_def Let_def)

section \<open>A cache to try it on\<close>

datatype sample_value = SshValue ssh_key | NameValue key_name_entry

definition sample_reader :: "sample_value json_reader" where
  "sample_reader = \<lparr>
     json_array = (\<lambda>t. if t = ''[names]'' then Some (map NameValue (key_names otp_cache)) else Some []),
     get_str = (\<lambda>v f. case v of
        NameValue e \<Rightarrow> if f = ''category'' then Some (category e) else if f = ''name'' then Some (entry_name e)
          else if f = ''service'' then Some (service e) else None
      | SshValue e \<Rightarrow> None),
     get_u64 = (\<lambda>v f. case v of NameValue e \<Rightarrow> Some (unat (entry_index e)) | SshValue e \<Rightarrow> None) \<rparr>"

definition json_codecs :: codecs where
  "json_codecs = sample_codecs\<lparr> ssh_json := (\<lambda>_. Ok ''[]''), names_json := (\<lambda>_. Ok ''[names]'') \<rparr>"

lemma json_trims [simp]:
  "trim ''[]'' = ''[]''" "trim ''[names]'' = ''[names]''" "trim ''OK:[]'' = ''OK:[]''" "trim ''OK:[names]'' = ''OK:[names]''"
  by (rule trim_graphic; simp)+

lemma sample_reads_back: "reads_back json_codecs sample_reader otp_cache"
  by (simp add: reads_back_def json_codecs_def sample_reader_def otp_cache_def empty_cache_def)

definition cache_server :: "string \<Rightarrow> (string, string) result" where
  "cache_server r = Ok (trim (fst (handle_key_command 0 json_codecs otp_cache (recorder 3) r
     (ready_coordinator, []))))"

lemma cache_server_lists:
  "list_keys sample_reader cache_server =
    sort_key ke_index (map (entry_of_name Otp) (filter (\<lambda>e. category e = ''otp'') (key_names otp_cache))) @
    sort_key ke_index (map (entry_of_name Api) (filter (\<lambda>e. category e = ''api'') (key_names otp_cache))) @
    sort_key ke_index (map (entry_of_ssh json_codecs) (ssh_keys otp_cache)) \<Longrightarrow>
   list_keys sample_reader cache_server = [\<lparr> ke_index = 0, ke_category = Otp, ke_name = ''mail'', ke_service = [], ke_blob = [] \<rparr>]"
  by (simp add: otp_cache_def empty_cache_def entry_of_name_def)

theorem listed_keys_are_cached_witness:
  "list_keys sample_reader cache_server = [\<lparr> ke_index = 0, ke_category = Otp, ke_name = ''mail'', ke_service = [], ke_blob = [] \<rparr>]"
  by (rule cache_server_lists, rule listed_keys_are_cached [OF sample_reads_back]) (simp_all add: cache_server_def)

theorem chosen_entry_is_read_witness:
  "handle_get_key 0 json_codecs otp_cache (recorder 3) (''otp:'' @ ''mail'') (ready_coordinator, []) =
     Some (reply_or_busy (with_pending 0 (''ERROR:BUSY'' @ nl) (otp_get_inner json_codecs (recorder 3) 0) (ready_coordinator, [])))"
proof -
  let ?e = "\<lparr> ke_index = 0, ke_category = Otp, ke_name = ''mail'', ke_service = [], ke_blob = [] \<rparr>"
  have v: "cached_values sample_reader (cache_server ''KEY:CACHE:names'') = map NameValue (key_names otp_cache)"
    using key_cache_request [of "''names''" 0 json_codecs otp_cache "recorder 3" "(ready_coordinator, [])"] trim_graphic [of "''names''"]
    by (simp add: cached_values_def cache_server_def key_cache_json_def json_codecs_def sample_reader_def str_simps)
  have "?e \<in> set (list_keys sample_reader cache_server)"
    unfolding list_keys_def v
    by (simp add: parse_key_cache_def otp_cache_def named_entry_def sample_reader_def empty_cache_def)
  then show ?thesis
    using chosen_entry_is_read [OF sample_reads_back, of cache_server 0 "recorder 3" "(ready_coordinator, [])" ?e]
    by (simp add: cache_server_def ready_coordinator_def) (simp add: otp_cache_def empty_cache_def)
qed

theorem same_name_reads_first_witness:
  "handle_get_key 0 json_codecs (otp_cache\<lparr> key_names := key_names otp_cache @ [\<lparr> entry_index = 4, category = ''otp'',
       entry_name = ''mail'', service = ''work'' \<rparr>] \<rparr>) (recorder 3) (''otp:'' @ ''mail'') (ready_coordinator, []) =
     Some (reply_or_busy (with_pending 0 (''ERROR:BUSY'' @ nl) (otp_get_inner json_codecs (recorder 3) 0) (ready_coordinator, [])))"
  using same_name_reads_first [of "otp_cache\<lparr> key_names := key_names otp_cache @ [\<lparr> entry_index = 4, category = ''otp'',
       entry_name = ''mail'', service = ''work'' \<rparr>] \<rparr>" "[]" "\<lparr> entry_index = 0, category = ''otp'', entry_name = ''mail'', service = [] \<rparr>"
      "[\<lparr> entry_index = 4, category = ''otp'', entry_name = ''mail'', service = ''work'' \<rparr>]"
      "\<lparr> entry_index = 4, category = ''otp'', entry_name = ''mail'', service = ''work'' \<rparr>" "(ready_coordinator, [])" 0 json_codecs "recorder 3"]
  by (simp add: otp_cache_def ready_coordinator_def)

end
