(* ===== verification/Gui_Panel.thy ===== *)
theory Gui_Panel
  imports Client_Keys Cli_Commands
begin

text \<open>
  The parts of \<open>immurok-gui\<close> around the quick-fill panel: how it was launched (\<open>cli.rs\<close>), the text of an
  error (\<open>errors.rs\<close>), the clipboard (\<open>output.rs\<close>), the settings of the user (\<open>settings_store.rs\<close>) and the
  panel itself (\<open>quickfill.rs\<close>), whose widgets are the fields that its handlers read and set.
\<close>

section \<open>Launching\<close>

datatype launch = LaunchMain | LaunchQuickFill | LaunchService

fun launch_args :: "launch \<Rightarrow> string list \<Rightarrow> launch" where
  "launch_args l [] = l"
| "launch_args l (a # as) =
     (if a = ''--quick-fill'' then LaunchQuickFill
      else launch_args (if a = ''--gapplication-service'' then LaunchService else l) as)"

definition parse_launch :: "string list \<Rightarrow> launch" where
  "parse_launch args = launch_args LaunchMain (drop 1 args)"

section \<open>Error texts\<close>

definition error_table :: "(string list \<times> string) list" where
  "error_table =
     [([''FP-gate timeout'', ''Read failed''], ''Timed out waiting for a fingerprint touch.''),
      ([''FP-gate cancelled''], ''Cancelled''),
      ([''FP-gate failed''], ''Fingerprint didn't match after multiple attempts.''),
      ([''NOT_CONNECTED''], ''Device not connected''),
      ([''NOT_VERIFIED''], ''Device not verified with this computer''),
      ([''BUSY''], ''Device busy, try again''),
      ([''INVALID_SLOT''], ''Invalid slot''),
      ([''DUAL_HOST_UNSUPPORTED''], ''This firmware does not support two hosts''),
      ([''SLOT_CLEAR_REFUSED''], ''The device refused to clear the slot''),
      ([''PAIRING_IN_PROGRESS''], ''Pairing is already in progress'')]"

text \<open>\<open>map\<close>: the first row one of whose texts is in the string.\<close>

definition error_text :: "string \<Rightarrow> string option" where
  "error_text s = map_option snd (List.find (\<lambda>(ps, _). \<exists>p \<in> set ps. contains_str p s) error_table)"

definition WRAPPERS :: "string list" where
  "WRAPPERS = [''ERROR:ENROLL_FAILED:'', ''ERROR:DELETE_FAILED:'', ''ERROR:SLOT_CLEAR_FAILED:'', ''ERROR:OTP_FAILED:'',
     ''ERROR:READ_FAILED:'', ''ERROR:VERIFY_FAILED:'', ''ERROR:FACTORY_RESET_FAILED:'']"

fun unwrapped_text :: "string list \<Rightarrow> string \<Rightarrow> string option" where
  "unwrapped_text [] raw = None"
| "unwrapped_text (w # ws) raw = (case Option.bind (strip_prefix w raw) error_text of
     Some m \<Rightarrow> Some m | None \<Rightarrow> unwrapped_text ws raw)"

definition friendly :: "string \<Rightarrow> string" where
  "friendly raw = (case error_text raw of Some m \<Rightarrow> m | None \<Rightarrow> unwrap_or raw (unwrapped_text WRAPPERS raw))"

definition fw_friendly :: "fw_update_error \<Rightarrow> string" where
  "fw_friendly e = (case e of
     LowBattery \<Rightarrow> ''Battery below 30 % '' @ em_dash @ '' charge the device first''
   | ReconnectTimeout _ \<Rightarrow> ''Device did not come back after the update; power-cycle it and check again''
   | ManifestFetch _ \<Rightarrow> ''Could not reach the update server''
   | Download _ \<Rightarrow> ''Could not reach the update server''
   | ManifestSchema _ \<Rightarrow> ''Update server returned an invalid manifest''
   | Sha256Mismatch \<Rightarrow> ''Firmware package rejected: '' @ fw_error_str e
   | PackageInvalid _ \<Rightarrow> ''Firmware package rejected: '' @ fw_error_str e
   | HeaderRejected _ \<Rightarrow> ''Firmware package rejected: '' @ fw_error_str e
   | SignatureRejected \<Rightarrow> ''Firmware package rejected: '' @ fw_error_str e
   | Preflight msg \<Rightarrow> if contains_str ''not connected'' msg then ''Device not connected'' else fw_error_str e
   | _ \<Rightarrow> fw_error_str e)"

section \<open>The settings of the user\<close>

datatype output_choice = OutAuto | OutClipboard | OutPortal | OutXdotool | OutWtype

record gui_settings =
  gs_output :: output_choice
  gs_portal_token :: "string option"
  gs_x11_hotkey :: string
  gs_names :: "byte \<Rightarrow> string option"

definition default_gui_settings :: gui_settings where
  "default_gui_settings = \<lparr> gs_output = OutAuto, gs_portal_token = None, gs_x11_hotkey = ''ctrl+backslash'', gs_names = Map.empty \<rparr>"

definition fingerprint_name :: "gui_settings \<Rightarrow> byte \<Rightarrow> string" where
  "fingerprint_name s slot =
     (if slot = SWITCH_SLOT then ''Switch Host'' else unwrap_or (''Finger '' @ show_word (slot + 1)) (gs_names s slot))"

definition set_fingerprint_name :: "byte \<Rightarrow> string \<Rightarrow> gui_settings \<Rightarrow> gui_settings" where
  "set_fingerprint_name slot nm s =
     (if slot = SWITCH_SLOT then s
      else s\<lparr> gs_names := (gs_names s)(slot := (if trim nm = [] then None else Some (trim nm))) \<rparr>)"

definition clear_fingerprint_names :: "gui_settings \<Rightarrow> gui_settings" where
  "clear_fingerprint_names s = s\<lparr> gs_names := Map.empty \<rparr>"

definition gui_settings_path :: "(string \<Rightarrow> string option) \<Rightarrow> string" where
  "gui_settings_path env =
     (let home = join_path (unwrap_or ''.'' (env ''HOME'')) ''.config'';
          base = (case env ''XDG_CONFIG_HOME'' of Some p \<Rightarrow> if starts_with ''/'' p then p else home | None \<Rightarrow> home)
      in join_path (join_path base ''immurok'') ''gui.json'')"

text \<open>
  The file is its content, if it exists. Reading and writing JSON are arguments; each step of the write may
  fail: the directory, the temporary file, its content, its permissions and the rename.
\<close>

record gui_json =
  gj_read :: "string \<Rightarrow> gui_settings option"
  gj_write :: "gui_settings \<Rightarrow> (string, string) result"

definition load_settings :: "gui_json \<Rightarrow> string option \<Rightarrow> gui_settings" where
  "load_settings J f = unwrap_or default_gui_settings (Option.bind f (gj_read J))"

definition save_settings :: "gui_json \<Rightarrow> (nat \<Rightarrow> (unit, string) result) \<Rightarrow> gui_settings \<Rightarrow> string option \<Rightarrow>
    (unit, string) result \<times> string option" where
  "save_settings J io s f = (case io 0 of Err e \<Rightarrow> (Err e, f)
   | Ok _ \<Rightarrow> (case gj_write J s of Err e \<Rightarrow> (Err e, f)
   | Ok j \<Rightarrow> (case io 1 of Err e \<Rightarrow> (Err e, f)
   | Ok _ \<Rightarrow> (case io 2 of Err e \<Rightarrow> (Err e, f)
   | Ok _ \<Rightarrow> (case io 3 of Err e \<Rightarrow> (Err e, f)
   | Ok _ \<Rightarrow> (case io 4 of Err e \<Rightarrow> (Err e, f) | Ok _ \<Rightarrow> (Ok (), Some j)))))))"

section \<open>The clipboard\<close>

text \<open>
  A text put on the clipboard starts a timer that clears it if it is still there. \<open>clip_ours\<close> says whether
  the present text was put there by the panel.
\<close>

record clipboard =
  clip_text :: string
  clip_ours :: bool
  clip_timers :: "string list"

datatype clip_event = ClipInject string | ClipUser string | ClipTimer nat

definition CLIPBOARD_CLEAR_AFTER :: nat where "CLIPBOARD_CLEAR_AFTER = from_secs 30"

fun clip_step :: "clip_event \<Rightarrow> clipboard \<Rightarrow> clipboard" where
  "clip_step (ClipInject t) c = \<lparr> clip_text = t, clip_ours = True, clip_timers = clip_timers c @ [t] \<rparr>"
| "clip_step (ClipUser t) c = c\<lparr> clip_text := t, clip_ours := False \<rparr>"
| "clip_step (ClipTimer i) c = (case get_at (clip_timers c) i of
     None \<Rightarrow> c
   | Some t \<Rightarrow> (let c1 = c\<lparr> clip_timers := take i (clip_timers c) @ drop (Suc i) (clip_timers c) \<rparr> in
       if clip_text c = t then c1\<lparr> clip_text := [], clip_ours := False \<rparr> else c1))"

section \<open>The panel\<close>

datatype panel_phase = PhListing | PhWaiting | PhDelivering

datatype panel_effect =
    GateAsked key_category string
  | GateAnswered "(string, string) result"
  | GateCancelled
  | Copied string

text \<open>
  \<open>pn_open\<close> says whether the window is there; the request that waits for a touch and the delivery that was
  started are the fields \<open>pn_asked\<close> and \<open>pn_delivery\<close>, because they outlive the window.
\<close>

record panel =
  pn_open :: bool
  pn_all :: "key_entry list"
  pn_shown :: "key_entry list"
  pn_query :: string
  pn_selected :: "nat option"
  pn_sensitive :: bool
  pn_phase :: panel_phase
  pn_was_active :: bool
  pn_hint :: "string option"
  pn_asked :: bool
  pn_delivery :: "string option"
  pn_effects :: "panel_effect list"

definition panel_new :: panel where
  "panel_new = \<lparr> pn_open = True, pn_all = [], pn_shown = [], pn_query = [], pn_selected = None, pn_sensitive = True,
     pn_phase = PhListing, pn_was_active = False, pn_hint = None, pn_asked = False, pn_delivery = None, pn_effects = [] \<rparr>"

definition panel_effect :: "panel_effect \<Rightarrow> panel \<Rightarrow> panel" where
  "panel_effect e p = p\<lparr> pn_effects := pn_effects p @ [e] \<rparr>"

definition refill :: "(string \<Rightarrow> string) \<Rightarrow> panel \<Rightarrow> panel" where
  "refill lcase p = (let shown = filter_entries lcase (pn_all p) (pn_query p) in
     p\<lparr> pn_shown := shown, pn_selected := (if shown = [] then None else Some 0) \<rparr>)"

definition move_selection :: "int \<Rightarrow> panel \<Rightarrow> panel" where
  "move_selection delta p = (let n = int (length (pn_shown p)) in
     if n = 0 then p
     else p\<lparr> pn_selected := Some (nat (min (n - 1) (max 0 (int (unwrap_or 0 (pn_selected p)) + delta)))) \<rparr>)"

text \<open>Closing a panel that waits cancels the gate; the request and a delivery go on.\<close>

definition panel_close :: "panel \<Rightarrow> panel" where
  "panel_close p =
     (if \<not> pn_open p then p
      else (if pn_phase p = PhWaiting then panel_effect GateCancelled p else p)\<lparr> pn_open := False \<rparr>)"

definition panel_deliver :: "string \<Rightarrow> panel \<Rightarrow> panel" where
  "panel_deliver v p = p\<lparr> pn_phase := PhDelivering, pn_delivery := Some v \<rparr>"

definition wait_for_touch :: "key_entry \<Rightarrow> panel \<Rightarrow> panel" where
  "wait_for_touch e p = panel_effect (GateAsked (ke_category e) (ke_name e))
     (p\<lparr> pn_phase := PhWaiting, pn_sensitive := False, pn_hint := None, pn_asked := True \<rparr>)"

definition activate_selected :: "panel \<Rightarrow> panel" where
  "activate_selected p =
     (if pn_phase p \<noteq> PhListing then p
      else case Option.bind (pn_selected p) (get_at (pn_shown p)) of
        None \<Rightarrow> p
      | Some e \<Rightarrow> if ke_category e = Ssh then panel_deliver (ssh_public_key_line e) p else wait_for_touch e p)"

definition back_to_listing :: "string \<Rightarrow> panel \<Rightarrow> panel" where
  "back_to_listing msg p = p\<lparr> pn_phase := PhListing, pn_sensitive := True, pn_hint := Some msg \<rparr>"

datatype panel_event =
    PnLoaded "key_entry list"
  | PnSearch string
  | PnActivate
  | PnRow nat
  | PnUp
  | PnDown
  | PnEscape
  | PnActive bool
  | PnCloseRequest
  | PnAnswer "(string, string) result"
  | PnDeliver bool
  | PnHintOver

text \<open>
  A handler runs only while the panel is there: it holds the panel weakly. The delivery holds the window
  and the clipboard itself. The answer of the request arrives once.
\<close>

fun panel_step :: "(string \<Rightarrow> string) \<Rightarrow> panel_event \<Rightarrow> panel \<Rightarrow> panel" where
  "panel_step lcase (PnLoaded es) p = (if pn_open p then refill lcase (p\<lparr> pn_all := es \<rparr>) else p)"
| "panel_step lcase (PnSearch q) p = (if pn_open p \<and> pn_sensitive p then refill lcase (p\<lparr> pn_query := q \<rparr>) else p)"
| "panel_step lcase PnActivate p = (if pn_open p \<and> pn_sensitive p then activate_selected p else p)"
| "panel_step lcase (PnRow i) p =
     (if pn_open p \<and> pn_sensitive p \<and> i < length (pn_shown p) then activate_selected (p\<lparr> pn_selected := Some i \<rparr>) else p)"
| "panel_step lcase PnUp p = (if pn_open p then move_selection (- 1) p else p)"
| "panel_step lcase PnDown p = (if pn_open p then move_selection 1 p else p)"
| "panel_step lcase PnEscape p = panel_close p"
| "panel_step lcase (PnActive b) p =
     (if \<not> pn_open p then p
      else if b then p\<lparr> pn_was_active := True \<rparr>
      else if pn_was_active p \<and> pn_phase p = PhListing then panel_close p else p)"
| "panel_step lcase PnCloseRequest p = panel_close p"
| "panel_step lcase (PnAnswer r) p =
     (if \<not> pn_asked p then p
      else let p1 = p\<lparr> pn_asked := False \<rparr> in
        if \<not> pn_open p then p1
        else (case r of
            Ok v \<Rightarrow> panel_deliver v (panel_effect (GateAnswered r) p1)
          | Err e \<Rightarrow> back_to_listing (friendly e) (panel_effect (GateAnswered r) p1)))"
| "panel_step lcase (PnDeliver good) p = (case pn_delivery p of
     None \<Rightarrow> p
   | Some v \<Rightarrow> panel_close ((if good then panel_effect (Copied v) else id) (p\<lparr> pn_delivery := None \<rparr>)))"
| "panel_step lcase PnHintOver p = (if pn_open p then p\<lparr> pn_hint := None \<rparr> else p)"

section \<open>What the panel guarantees\<close>

fun cancels :: "panel_effect list \<Rightarrow> nat" where
  "cancels [] = 0"
| "cancels (GateCancelled # es) = Suc (cancels es)"
| "cancels (_ # es) = cancels es"

lemma cancels_append [simp]: "cancels (es @ fs) = cancels es + cancels fs"
  by (induction es rule: cancels.induct) simp_all

text \<open>A text that may be copied: the line of an SSH key, or the answer of the gate.\<close>

definition copy_ok :: "panel_event list \<Rightarrow> string \<Rightarrow> bool" where
  "copy_ok es v \<longleftrightarrow> PnAnswer (Ok v) \<in> set es \<or>
     (\<exists>ks e. PnLoaded ks \<in> set es \<and> e \<in> set ks \<and> ke_category e = Ssh \<and> v = ssh_public_key_line e)"

definition copies_inv :: "panel_event list \<Rightarrow> panel \<Rightarrow> bool" where
  "copies_inv es p \<longleftrightarrow>
     (\<forall>v. Copied v \<in> set (pn_effects p) \<longrightarrow> copy_ok es v) \<and>
     (\<forall>v. pn_delivery p = Some v \<longrightarrow> copy_ok es v) \<and>
     set (pn_shown p) \<subseteq> set (pn_all p) \<and> (\<forall>e \<in> set (pn_all p). \<exists>ks. PnLoaded ks \<in> set es \<and> e \<in> set ks)"

definition gate_inv :: "panel \<Rightarrow> bool" where
  "gate_inv p \<longleftrightarrow>
     (pn_open p \<longrightarrow> pn_asked p = (pn_phase p = PhWaiting)) \<and>
     cancels (pn_effects p) = (if \<not> pn_open p \<and> pn_phase p = PhWaiting then 1 else 0)"

lemma panel_effect_fields [simp]:
  "pn_effects (panel_effect e p) = pn_effects p @ [e]" "pn_open (panel_effect e p) = pn_open p"
  "pn_phase (panel_effect e p) = pn_phase p" "pn_asked (panel_effect e p) = pn_asked p"
  "pn_delivery (panel_effect e p) = pn_delivery p" "pn_shown (panel_effect e p) = pn_shown p"
  "pn_all (panel_effect e p) = pn_all p"
  by (simp_all add: panel_effect_def)

lemma copy_ok_mono: "copy_ok es v \<Longrightarrow> copy_ok (es @ [e]) v"
  by (auto simp: copy_ok_def)

lemma copies_inv_more: "copies_inv es p \<Longrightarrow> copies_inv (es @ [e]) p"
  unfolding copies_inv_def by (auto intro: copy_ok_mono)

text \<open>A step that keeps the entries and gives nothing to the clipboard keeps the invariant on copies.\<close>

lemma copies_inv_quiet:
  assumes "copies_inv es p" "set (pn_shown q) \<subseteq> set (pn_all q)" "pn_all q = pn_all p" "pn_delivery q = pn_delivery p"
    and "\<And>v. Copied v \<in> set (pn_effects q) \<Longrightarrow> Copied v \<in> set (pn_effects p)"
  shows "copies_inv es q"
  using assms unfolding copies_inv_def by metis

lemma close_quiet [simp]:
  "pn_shown (panel_close p) = pn_shown p" "pn_all (panel_close p) = pn_all p" "pn_delivery (panel_close p) = pn_delivery p"
  "Copied v \<in> set (pn_effects (panel_close p)) \<longleftrightarrow> Copied v \<in> set (pn_effects p)"
  by (auto simp: panel_close_def)

lemma copies_inv_shown: "copies_inv es p \<Longrightarrow> set (pn_shown p) \<subseteq> set (pn_all p)"
  by (simp add: copies_inv_def)

lemma panel_close_copies: "copies_inv es p \<Longrightarrow> copies_inv es (panel_close p)"
  by (rule copies_inv_quiet) (auto dest: copies_inv_shown)

lemma refill_copies: "copies_inv es p \<Longrightarrow> copies_inv es (refill lcase p)"
  using filter_entries_subset [of lcase "pn_all p" "pn_query p"]
  by (auto simp: copies_inv_def refill_def Let_def)

lemma chosen_in_shown:
  assumes "Option.bind sel (get_at xs) = Some e"
  shows "e \<in> set xs"
  using assms by (cases sel) (auto simp: get_at_def split: if_splits)

lemma activate_copies:
  assumes "copies_inv es p"
  shows "copies_inv es (activate_selected p)"
proof (cases "Option.bind (pn_selected p) (get_at (pn_shown p))")
  case (Some e)
  have "e \<in> set (pn_all p)" using chosen_in_shown [OF Some] copies_inv_shown [OF assms] by blast
  then obtain ks where "PnLoaded ks \<in> set es" "e \<in> set ks" using assms unfolding copies_inv_def by blast
  then have "ke_category e = Ssh \<Longrightarrow> copy_ok es (ssh_public_key_line e)" unfolding copy_ok_def by blast
  then show ?thesis
    using assms Some by (auto simp: copies_inv_def activate_selected_def panel_deliver_def wait_for_touch_def)
qed (use assms in \<open>simp add: activate_selected_def\<close>)

lemma panel_step_copies:
  assumes "copies_inv es p"
  shows "copies_inv (es @ [e]) (panel_step lcase e p)"
proof -
  note more = copies_inv_more [OF assms, of e]
  show ?thesis
  proof (cases e)
    case (PnLoaded ks)
    have "copies_inv (es @ [e]) (p\<lparr> pn_all := ks, pn_shown := [] \<rparr>)"
      using more PnLoaded by (auto simp: copies_inv_def)
    then have "copies_inv (es @ [e]) (refill lcase (p\<lparr> pn_all := ks, pn_shown := [] \<rparr>))" by (rule refill_copies)
    then show ?thesis using PnLoaded more by (simp add: refill_def Let_def)
  next
    case (PnSearch q)
    have "copies_inv (es @ [e]) (p\<lparr> pn_query := q \<rparr>)" using more by (simp add: copies_inv_def)
    then show ?thesis using PnSearch more refill_copies by simp
  next
    case (PnRow i)
    have "copies_inv (es @ [e]) (p\<lparr> pn_selected := Some i \<rparr>)" using more by (simp add: copies_inv_def)
    then show ?thesis using PnRow more activate_copies by simp
  next
    case (PnAnswer r)
    have "copy_ok (es @ [e]) v" if "r = Ok v" for v using PnAnswer that by (simp add: copy_ok_def)
    then show ?thesis
      using more PnAnswer
      by (cases r) (auto simp: copies_inv_def panel_deliver_def back_to_listing_def Let_def)
  next
    case (PnDeliver good)
    show ?thesis
    proof (cases "pn_delivery p")
      case (Some v)
      have "copies_inv (es @ [e]) ((if good then panel_effect (Copied v) else id) (p\<lparr> pn_delivery := None \<rparr>))"
        using more Some by (auto simp: copies_inv_def)
      then show ?thesis using PnDeliver Some panel_close_copies by simp
    qed (use PnDeliver more in simp)
  next
    case PnUp
    then show ?thesis using more by (simp add: copies_inv_def move_selection_def Let_def)
  next
    case PnDown
    then show ?thesis using more by (simp add: copies_inv_def move_selection_def Let_def)
  next
    case (PnActive b)
    have "copies_inv (es @ [e]) (p\<lparr> pn_was_active := True \<rparr>)" using more by (simp add: copies_inv_def)
    then show ?thesis using PnActive more panel_close_copies [OF more] by (cases b) simp_all
  next
    case PnHintOver
    then show ?thesis using more by (simp add: copies_inv_def)
  qed (use more panel_close_copies [OF more] activate_copies [OF more] in simp_all)
qed

lemma panel_close_gate: "gate_inv p \<Longrightarrow> gate_inv (panel_close p)"
  by (simp add: gate_inv_def panel_close_def)

lemma activate_gate: "gate_inv p \<Longrightarrow> pn_open p \<Longrightarrow> gate_inv (activate_selected p)"
  by (auto simp: gate_inv_def activate_selected_def panel_deliver_def wait_for_touch_def split: option.split)

lemma panel_step_gate:
  assumes "gate_inv p"
  shows "gate_inv (panel_step lcase e p)"
proof (cases e)
  case (PnRow i)
  have "gate_inv (p\<lparr> pn_selected := Some i \<rparr>)" using assms by (simp add: gate_inv_def)
  then show ?thesis using PnRow assms activate_gate by simp
next
  case (PnAnswer r)
  then show ?thesis
    using assms by (cases r) (auto simp: gate_inv_def panel_deliver_def back_to_listing_def Let_def)
next
  case (PnDeliver good)
  have "gate_inv ((if good then panel_effect (Copied v) else id) (p\<lparr> pn_delivery := None \<rparr>))" for v
    using assms by (simp add: gate_inv_def)
  then show ?thesis using PnDeliver assms panel_close_gate by (simp split: option.split)
next
  case (PnActive b)
  have "gate_inv (p\<lparr> pn_was_active := True \<rparr>)" using assms by (simp add: gate_inv_def)
  then show ?thesis using PnActive assms panel_close_gate by simp
qed (use assms panel_close_gate activate_gate in
    \<open>auto simp: gate_inv_def refill_def move_selection_def Let_def\<close>)

interpretation panel_gate: event_machine "panel_step lcase" gate_inv
  by unfold_locales (rule panel_step_gate)

lemma panel_run_gate: "gate_inv (fold (panel_step lcase) es panel_new)"
  by (rule panel_gate.run_inv) (simp add: gate_inv_def panel_new_def)

lemma panel_run_copies: "copies_inv es (fold (panel_step lcase) es panel_new)"
proof (induction es rule: rev_induct)
  case Nil
  then show ?case by (simp add: copies_inv_def panel_new_def)
next
  case (snoc e es)
  then show ?case using panel_step_copies [of es "fold (panel_step lcase) es panel_new" e lcase] by simp
qed

text \<open>
  Fact: nothing gets to the clipboard but what the user may have: over all events, in any order and also
  after the panel is closed, a copied text is the positive answer of the fingerprint gate or the public
  line of an SSH key of the list.
\<close>

theorem panel_copies_only_released:
  assumes "Copied v \<in> set (pn_effects (fold (panel_step lcase) es panel_new))"
  shows "PnAnswer (Ok v) \<in> set es \<or>
    (\<exists>ks e. PnLoaded ks \<in> set es \<and> e \<in> set ks \<and> ke_category e = Ssh \<and> v = ssh_public_key_line e)"
  using panel_run_copies [of es lcase] assms unfolding copies_inv_def copy_ok_def by blast

text \<open>
  Fact: the gate is cancelled exactly when its panel is closed before the answer: over all events, one cancel
  was sent if the panel is closed and was waiting, and none otherwise.
\<close>

theorem panel_cancels_own_gate:
  "cancels (pn_effects (fold (panel_step lcase) es panel_new)) =
     (if \<not> pn_open (fold (panel_step lcase) es panel_new) \<and> pn_phase (fold (panel_step lcase) es panel_new) = PhWaiting
      then 1 else 0)"
  using panel_run_gate [of lcase es] unfolding gate_inv_def by blast

definition mail_entry :: key_entry where
  "mail_entry = \<lparr> ke_index = 0, ke_category = Otp, ke_name = ''mail'', ke_service = [], ke_blob = [] \<rparr>"

definition mail_waiting :: panel where
  "mail_waiting = panel_new\<lparr> pn_all := [mail_entry], pn_shown := [mail_entry], pn_selected := Some 0, pn_phase := PhWaiting,
     pn_sensitive := False, pn_asked := True, pn_effects := [GateAsked Otp ''mail''] \<rparr>"

lemma mail_waiting_run: "fold (panel_step (\<lambda>s. s)) [PnLoaded [mail_entry], PnActivate] panel_new = mail_waiting"
  by (simp add: panel_new_def refill_def filter_entries_def Let_def activate_selected_def wait_for_touch_def panel_effect_def
      get_at_def mail_entry_def mail_waiting_def)

theorem panel_copies_only_released_witness:
  "PnAnswer (Ok ''123456'') \<in> set [PnLoaded [mail_entry], PnActivate, PnAnswer (Ok ''123456''), PnDeliver True]"
proof -
  have "fold (panel_step (\<lambda>s. s)) ([PnLoaded [mail_entry], PnActivate] @ [PnAnswer (Ok ''123456''), PnDeliver True]) panel_new =
      fold (panel_step (\<lambda>s. s)) [PnAnswer (Ok ''123456''), PnDeliver True] mail_waiting"
    by (simp only: fold_append comp_apply mail_waiting_run)
  moreover have "Copied ''123456'' \<in> set (pn_effects (fold (panel_step (\<lambda>s. s)) [PnAnswer (Ok ''123456''), PnDeliver True] mail_waiting))"
    by (simp add: mail_waiting_def panel_new_def panel_deliver_def Let_def)
  ultimately show ?thesis
    using panel_copies_only_released [of "''123456''" "\<lambda>s. s" "[PnLoaded [mail_entry], PnActivate, PnAnswer (Ok ''123456''), PnDeliver True]"]
    by (simp add: mail_entry_def)
qed

text \<open>A panel closed while it waits: the answer that comes later copies nothing.\<close>

lemma closed_panel_copies_nothing:
  "pn_effects (fold (panel_step (\<lambda>s. s)) [PnEscape, PnAnswer (Ok ''123456''), PnDeliver True] mail_waiting) =
     [GateAsked Otp ''mail'', GateCancelled]"
  by (simp add: mail_waiting_def panel_new_def panel_close_def panel_effect_def Let_def)

section \<open>Errors, names and the clipboard\<close>

lemma contains_in_suffix: "contains_str p s \<Longrightarrow> contains_str p (w @ s)"
  by (induction w) simp_all

lemma error_text_suffix:
  assumes "error_text s = Some m"
  shows "error_text (w @ s) \<noteq> None"
proof -
  obtain row where "row \<in> set error_table" "\<exists>p \<in> set (fst row). contains_str p s"
    using assms by (auto simp: error_text_def find_Some_iff) (metis fst_conv nth_mem)
  then have "List.find (\<lambda>(ps, _). \<exists>p \<in> set ps. contains_str p (w @ s)) error_table \<noteq> None"
    using contains_in_suffix unfolding find_None_iff split_beta by blast
  then show ?thesis by (simp add: error_text_def)
qed

lemma unwrapped_text_known: "unwrapped_text ws raw = Some m \<Longrightarrow> error_text raw \<noteq> None"
proof (induction ws)
  case (Cons w ws)
  show ?case
  proof (cases "Option.bind (strip_prefix w raw) error_text")
    case (Some k)
    then obtain s where "strip_prefix w raw = Some s" "error_text s = Some k" by (cases "strip_prefix w raw") auto
    then show ?thesis using error_text_suffix [of s k w] by (simp add: strip_prefix_Some)
  qed (use Cons in simp)
qed simp

text \<open>
  Fact: the removal of the wrappers in \<open>friendly\<close> never does anything: a text that is recognised under a
  wrapper is recognised with it.
\<close>

theorem friendly_wrappers_idle: "friendly raw = unwrap_or raw (error_text raw)"
proof (cases "error_text raw")
  case None
  then have "unwrapped_text WRAPPERS raw = None" using unwrapped_text_known [of WRAPPERS raw] by (cases "unwrapped_text WRAPPERS raw") auto
  then show ?thesis using None by (simp add: friendly_def)
qed (simp add: friendly_def)

lemma parse_launch_quick: "parse_launch args = LaunchQuickFill \<longleftrightarrow> ''--quick-fill'' \<in> set (drop 1 args)"
proof -
  have "launch_args l as = LaunchQuickFill \<longleftrightarrow> ''--quick-fill'' \<in> set as" if "l \<noteq> LaunchQuickFill" for l as
    using that by (induction as arbitrary: l) auto
  then show ?thesis by (simp add: parse_launch_def)
qed

text \<open>Fact: the switch finger keeps its name, and renaming a finger is shown as typed, without the spaces around it.\<close>

theorem rename_shown:
  "fingerprint_name (set_fingerprint_name slot nm s) k =
     (if k = slot \<and> slot \<noteq> SWITCH_SLOT then (if trim nm = [] then ''Finger '' @ show_word (slot + 1) else trim nm)
      else fingerprint_name s k)"
  by (auto simp: fingerprint_name_def set_fingerprint_name_def)

text \<open>
  Fact: saving the settings leaves the old file or the new settings: whatever step fails, what is loaded
  afterwards is what was there or what was saved.
\<close>

theorem gui_settings_atomic:
  assumes "gj_write J s = Ok j" "gj_read J j = Some s"
  shows "(case save_settings J io s f of (Ok _, f') \<Rightarrow> load_settings J f' = s | (Err _, f') \<Rightarrow> f' = f)"
  using assms by (auto simp: save_settings_def load_settings_def split: result.splits)

definition plain_json :: gui_json where
  "plain_json = \<lparr> gj_read = (\<lambda>t. if t = ''{}'' then Some default_gui_settings else None), gj_write = (\<lambda>_. Ok ''{}'') \<rparr>"

theorem gui_settings_atomic_witness:
  "load_settings plain_json (snd (save_settings plain_json (\<lambda>_. Ok ()) default_gui_settings None)) = default_gui_settings"
  using gui_settings_atomic [of plain_json default_gui_settings "''{}''" None "\<lambda>_. Ok ()"]
  by (simp add: plain_json_def save_settings_def)

definition clip_inv :: "clipboard \<Rightarrow> bool" where
  "clip_inv c \<longleftrightarrow> (clip_ours c \<longrightarrow> clip_text c \<in> set (clip_timers c))"

lemma without_nth: "t \<in> set ts \<Longrightarrow> i < length ts \<Longrightarrow> t \<noteq> ts ! i \<Longrightarrow> t \<in> set (take i ts @ drop (Suc i) ts)"
  using id_take_nth_drop [of i ts] by (metis Un_iff insertE list.set(2) set_append)

lemma clip_step_inv: "clip_inv c \<Longrightarrow> clip_inv (clip_step e c)"
proof (cases e)
  case (ClipTimer i)
  moreover assume "clip_inv c"
  ultimately show ?thesis
    using without_nth [of "clip_text c" "clip_timers c" i]
    by (auto simp: clip_inv_def get_at_def Let_def simp del: set_append)
qed (simp_all add: clip_inv_def)

interpretation clip: event_machine clip_step clip_inv
  by unfold_locales (rule clip_step_inv)

text \<open>
  Fact: a secret does not stay on the clipboard: whatever the user copies in between and in whatever order
  the timers fire, a text that was put there by the panel is there only while a timer to clear it is
  pending.
\<close>

theorem clipboard_is_cleared:
  assumes "clip_ours (fold clip_step es \<lparr> clip_text = t, clip_ours = False, clip_timers = [] \<rparr>)"
  shows "clip_text (fold clip_step es \<lparr> clip_text = t, clip_ours = False, clip_timers = [] \<rparr>)
    \<in> set (clip_timers (fold clip_step es \<lparr> clip_text = t, clip_ours = False, clip_timers = [] \<rparr>))"
  using clip.run_inv [of "\<lparr> clip_text = t, clip_ours = False, clip_timers = [] \<rparr>" es] assms by (simp add: clip_inv_def)

theorem clipboard_is_cleared_witness:
  "''123456'' \<in> set (clip_timers (fold clip_step [ClipUser ''a'', ClipInject ''123456'']
     \<lparr> clip_text = [], clip_ours = False, clip_timers = [] \<rparr>))"
  using clipboard_is_cleared [of "[ClipUser ''a'', ClipInject ''123456'']" "[]"] by simp

end
