(* ===== verification/Gui_Gate.thy ===== *)
theory Gui_Gate
  imports Enroll_Session Gui_Panel Socket_Device
begin

text \<open>
  The two modal dialogs of \<open>immurok-gui\<close> that wait for a finger: the touch dialog
  (\<open>gate_dialog.rs\<close>) and the enrollment dialog (\<open>enroll_dialog.rs\<close>). Each is a machine of the events its
  main loop handles; a request to the daemon that a handler starts is counted where it is started.
  Closing a window runs its close handler at once, and a window that is closed has no further handler.
  Drawing (the ring, the shake of a rejected frame) is left out.
\<close>

section \<open>The touch dialog\<close>

text \<open>
  \<open>GWaiting\<close>: the request runs. \<open>GHolding\<close>: its answer is shown for a moment. \<open>GDone\<close>: the call has returned.
\<close>

datatype 'a gate_phase =
    GWaiting
  | GHolding "('a, string) result"
  | GDone "('a, string) result option"

record 'a gate_dialog =
  gd_open :: bool
  gd_cancelled :: bool
  gd_sensitive :: bool
  gd_ring :: bool
  gd_hint :: string
  gd_hold :: nat
  gd_sent :: nat
  gd_phase :: "'a gate_phase"

definition gate_open :: "string \<Rightarrow> 'a gate_dialog" where
  "gate_open hint = \<lparr> gd_open = True, gd_cancelled = False, gd_sensitive = True, gd_ring = True, gd_hint = hint,
     gd_hold = 0, gd_sent = 0, gd_phase = GWaiting \<rparr>"

text \<open>\<open>gd_sent\<close> counts the \<open>GATE:CANCEL\<close> requests.\<close>

definition gate_send_cancel :: "'a gate_dialog \<Rightarrow> 'a gate_dialog" where
  "gate_send_cancel d = d\<lparr> gd_cancelled := True, gd_sent := Suc (gd_sent d) \<rparr>"

definition gate_window_close :: "'a gate_dialog \<Rightarrow> 'a gate_dialog" where
  "gate_window_close d =
     (if \<not> gd_open d then d
      else (if gd_cancelled d then d else gate_send_cancel d)\<lparr> gd_open := False \<rparr>)"

definition gate_hold_of :: "('a, string) result option \<Rightarrow> string \<times> nat" where
  "gate_hold_of r = (case r of
     Some (Ok _) \<Rightarrow> (''Verified, processing'' @ ellipsis, from_millis 300)
   | Some (Err e) \<Rightarrow> (friendly e, from_millis 1500)
   | None \<Rightarrow> (''Something went wrong.'', from_millis 1500))"

text \<open>A request whose thread panicked has no answer.\<close>

definition gate_answer :: "('a, string) result option \<Rightarrow> 'a gate_dialog \<Rightarrow> 'a gate_dialog" where
  "gate_answer r d =
     (if gd_cancelled d then d\<lparr> gd_phase := GDone None \<rparr>
      else d\<lparr> gd_ring := False, gd_hint := fst (gate_hold_of r), gd_hold := snd (gate_hold_of r),
              gd_sensitive := False, gd_phase := GHolding (unwrap_or (Err ''worker panicked'') r) \<rparr>)"

definition gate_hold_over :: "('a, string) result \<Rightarrow> 'a gate_dialog \<Rightarrow> 'a gate_dialog" where
  "gate_hold_over r d = (gate_window_close (d\<lparr> gd_cancelled := True \<rparr>))\<lparr> gd_phase := GDone (Some r) \<rparr>"

datatype 'a gate_event = GCancel | GClose | GWork "('a, string) result option" | GHoldOver

fun gate_step :: "'a gate_event \<Rightarrow> 'a gate_dialog \<Rightarrow> 'a gate_dialog" where
  "gate_step GCancel d =
     (if gd_open d \<and> gd_sensitive d then gate_window_close (gate_send_cancel d) else d)"
| "gate_step GClose d = gate_window_close d"
| "gate_step (GWork r) d = (if gd_phase d = GWaiting then gate_answer r d else d)"
| "gate_step GHoldOver d = (case gd_phase d of GHolding r \<Rightarrow> gate_hold_over r d | _ \<Rightarrow> d)"

definition gate_run :: "'a gate_event list \<Rightarrow> 'a gate_dialog \<Rightarrow> 'a gate_dialog" where
  "gate_run es d = fold gate_step es d"

section \<open>The enrollment dialog\<close>

definition step_arrow :: "byte \<Rightarrow> string" where
  "step_arrow step =
     (if step = 2 then [CHR 0xE2, CHR 0x86, CHR 0x90]
      else if step = 3 then [CHR 0xE2, CHR 0x86, CHR 0x92]
      else if step = 4 then [CHR 0xE2, CHR 0x86, CHR 0x91]
      else if step = 5 then [CHR 0xE2, CHR 0x86, CHR 0x93]
      else [CHR 0xC2, CHR 0xB7])"

datatype enroll_outcome = Enrolled | EnrollFailed | EnrollCancelled

datatype enroll_page = GatePage | GuidePage

record enroll_guide =
  eg_title :: string
  eg_arrow :: string
  eg_arrow_shown :: bool
  eg_fraction :: "byte \<times> byte"
  eg_captured :: string
  eg_subtext :: string
  eg_error :: "string option"

definition guide_build :: enroll_guide where
  "guide_build = \<lparr> eg_title = [], eg_arrow = step_arrow 0, eg_arrow_shown = True, eg_fraction = (0, 1), eg_captured = [],
     eg_subtext = [], eg_error = None \<rparr>"

definition set_step :: "byte \<Rightarrow> byte \<Rightarrow> byte \<Rightarrow> enroll_guide \<Rightarrow> enroll_guide" where
  "set_step nxt cap tot g = (let tot1 = max tot 1 in
     g\<lparr> eg_title := step_hint nxt, eg_arrow := step_arrow nxt, eg_arrow_shown := (2 \<le> nxt \<and> nxt \<le> 5),
        eg_fraction := (cap, tot1),
        eg_captured := ''Captured ('' @ show_word cap @ ''/'' @ show_word tot1 @ '')'' \<rparr>)"

text \<open>\<open>EdFailed\<close>: the reason is shown until the user closes the dialog. \<open>EdOver\<close>: the call has returned.\<close>

datatype enroll_phase = EdRunning | EdFailed | EdOver

record enroll_dialog =
  ed_open :: bool
  ed_user_cancelled :: bool
  ed_flag :: bool
  ed_finished :: bool
  ed_sent :: nat
  ed_page :: enroll_page
  ed_ring :: bool
  ed_guide :: enroll_guide
  ed_cancel_shown :: bool
  ed_close_shown :: bool
  ed_outcome :: enroll_outcome
  ed_phase :: enroll_phase

definition enroll_open :: enroll_dialog where
  "enroll_open = \<lparr> ed_open = True, ed_user_cancelled = False, ed_flag = False, ed_finished = False, ed_sent = 0,
     ed_page = GatePage, ed_ring = False, ed_guide = guide_build, ed_cancel_shown = True, ed_close_shown = False,
     ed_outcome = EnrollCancelled, ed_phase = EdRunning \<rparr>"

text \<open>\<open>ed_sent\<close> counts the \<open>FP:ENROLL_CANCEL\<close> requests of the dialog; \<open>ed_flag\<close> is what the worker polls.\<close>

definition enroll_send_cancel :: "enroll_dialog \<Rightarrow> enroll_dialog" where
  "enroll_send_cancel d = d\<lparr> ed_user_cancelled := True, ed_flag := True, ed_sent := Suc (ed_sent d) \<rparr>"

definition enroll_window_close :: "enroll_dialog \<Rightarrow> enroll_dialog" where
  "enroll_window_close d =
     (if \<not> ed_open d then d
      else (if \<not> ed_finished d \<and> \<not> ed_user_cancelled d then enroll_send_cancel d else d)\<lparr> ed_open := False \<rparr>)"

definition enroll_leave :: "enroll_dialog \<Rightarrow> enroll_dialog" where
  "enroll_leave d = (enroll_window_close (d\<lparr> ed_finished := True \<rparr>))\<lparr> ed_phase := EdOver \<rparr>"

definition failure_text :: "string \<Rightarrow> string" where
  "failure_text reason =
     (if contains_str ''disconnected'' reason \<or> contains_str ''NOT_CONNECTED'' reason
      then ''Device disconnected before enrollment finished. Reconnect the device and try again.''
      else if contains_str ''FP-gate'' reason then friendly reason
      else ''Enrollment failed. Please try again.'')"

definition lift_text :: string where "lift_text = ''Lift your finger, then press again...''"
definition place_text :: string where "place_text = ''Place your finger on the sensor...''"

definition subtext :: "string \<Rightarrow> enroll_dialog \<Rightarrow> enroll_dialog" where
  "subtext t d = d\<lparr> ed_guide := (ed_guide d)\<lparr> eg_subtext := t \<rparr> \<rparr>"

fun enroll_show :: "enroll_progress \<Rightarrow> enroll_dialog \<Rightarrow> enroll_dialog" where
  "enroll_show GateWaiting d = d\<lparr> ed_page := GatePage, ed_ring := True \<rparr>"
| "enroll_show Started d =
     subtext place_text (d\<lparr> ed_ring := False, ed_page := GuidePage, ed_guide := set_step 1 0 6 (ed_guide d) \<rparr>)"
| "enroll_show (Step nxt cap tot) d =
     subtext (if cap = 0 then place_text else lift_text) (d\<lparr> ed_guide := set_step nxt cap tot (ed_guide d) \<rparr>)"
| "enroll_show LiftFinger d = subtext lift_text d"
| "enroll_show Overlap d = subtext (''Too similar '' @ em_dash @ '' shift your finger and press again'') d"
| "enroll_show Processing d = subtext ''Processing...'' d"
| "enroll_show Complete d = enroll_leave (d\<lparr> ed_outcome := Enrolled \<rparr>)"
| "enroll_show (Failed reason) d =
     (if contains_str ''FP-gate cancelled'' reason then enroll_leave (d\<lparr> ed_outcome := EnrollCancelled \<rparr>)
      else d\<lparr> ed_outcome := EnrollFailed, ed_finished := True, ed_ring := False, ed_page := GuidePage,
              ed_guide := (ed_guide d)\<lparr> eg_error := Some (failure_text reason) \<rparr>,
              ed_cancel_shown := False, ed_close_shown := True, ed_phase := EdFailed \<rparr>)"

datatype enroll_dialog_event =
    EdCancel
  | EdClose
  | EdCloseButton
  | EdEvent enroll_progress
  | EdWorkerGone

text \<open>A close request while the reason is shown also ends the wait for the user.\<close>

definition enroll_close_request :: "enroll_dialog \<Rightarrow> enroll_dialog" where
  "enroll_close_request d =
     (if \<not> ed_open d then d
      else if ed_phase d = EdFailed then enroll_leave (enroll_window_close d) else enroll_window_close d)"

fun enroll_dialog_step :: "enroll_dialog_event \<Rightarrow> enroll_dialog \<Rightarrow> enroll_dialog" where
  "enroll_dialog_step EdCancel d =
     (if ed_open d \<and> ed_cancel_shown d then enroll_close_request (enroll_send_cancel d) else d)"
| "enroll_dialog_step EdClose d = enroll_close_request d"
| "enroll_dialog_step EdCloseButton d = (if ed_close_shown d then enroll_close_request d else d)"
| "enroll_dialog_step (EdEvent ev) d =
     (if ed_phase d \<noteq> EdRunning then d
      else if ed_user_cancelled d then enroll_leave d else enroll_show ev d)"
| "enroll_dialog_step EdWorkerGone d = (if ed_phase d = EdRunning then enroll_leave d else d)"

definition enroll_dialog_run :: "enroll_dialog_event list \<Rightarrow> enroll_dialog \<Rightarrow> enroll_dialog" where
  "enroll_dialog_run es d = fold enroll_dialog_step es d"

section \<open>What the touch dialog guarantees\<close>

text \<open>The requests that ended, the close events, and the invariant that ties them to the fields.\<close>

definition gate_inv :: "'a gate_event list \<Rightarrow> 'a gate_dialog \<Rightarrow> bool" where
  "gate_inv es d \<longleftrightarrow> (gd_sent d = 0 \<or> gd_sent d = 1 \<and> (GCancel \<in> set es \<or> GClose \<in> set es)) \<and>
     (case gd_phase d of
        GWaiting \<Rightarrow> gd_open d = (\<not> gd_cancelled d) \<and> gd_sent d = (if gd_cancelled d then 1 else 0)
      | GHolding r \<Rightarrow> \<not> gd_sensitive d \<and> gd_open d = (\<not> gd_cancelled d) \<and>
          gd_sent d = (if gd_cancelled d then 1 else 0) \<and>
          (\<exists>w. GWork w \<in> set es \<and> r = unwrap_or (Err ''worker panicked'') w)
      | GDone None \<Rightarrow> \<not> gd_open d \<and> gd_sent d = 1
      | GDone (Some r) \<Rightarrow> \<not> gd_open d \<and> (\<exists>w. GWork w \<in> set es \<and> r = unwrap_or (Err ''worker panicked'') w))"

lemmas gate_step_defs = gate_window_close_def gate_send_cancel_def gate_answer_def gate_hold_over_def

lemma gate_inv_open: "gate_inv [] (gate_open h)"
  by (simp add: gate_inv_def gate_open_def)

lemma gate_inv_step: "gate_inv es d \<Longrightarrow> gate_inv (es @ [e]) (gate_step e d)"
  by (cases e; cases "gd_phase d")
    (auto simp: gate_inv_def gate_step_defs split: if_splits option.splits)

lemma gate_inv_run: "gate_inv es (gate_run es (gate_open h))"
proof (induction es rule: rev_induct)
  case Nil
  then show ?case by (simp add: gate_run_def gate_inv_open)
next
  case (snoc e es)
  then show ?case using gate_inv_step [of es _ e] by (simp add: gate_run_def)
qed

text \<open>Once the call has returned it stays returned, and an answer leaves the wait.\<close>

lemma gate_step_done: "gd_phase d = GDone r \<Longrightarrow> gd_phase (gate_step e d) = GDone r"
  by (cases e) (auto simp: gate_step_defs)

lemma gate_run_done: "gd_phase d = GDone r \<Longrightarrow> gd_phase (gate_run es d) = GDone r"
  unfolding gate_run_def by (induction es arbitrary: d) (simp_all add: gate_step_done)

lemma gate_step_answered: "gd_phase d \<noteq> GWaiting \<Longrightarrow> gd_phase (gate_step e d) \<noteq> GWaiting"
  by (cases e; cases "gd_phase d") (auto simp: gate_step_defs)

lemma gate_run_answered: "gd_phase d \<noteq> GWaiting \<Longrightarrow> gd_phase (gate_run es d) \<noteq> GWaiting"
  unfolding gate_run_def by (induction es arbitrary: d) (simp_all add: gate_step_answered)

lemma gate_work_answers: "gd_phase (gate_step (GWork w) d) \<noteq> GWaiting"
  by (simp add: gate_answer_def)

lemma gate_hold_ends: "gd_phase d \<noteq> GWaiting \<Longrightarrow> \<exists>r. gd_phase (gate_step GHoldOver d) = GDone r"
  by (cases "gd_phase d") (auto simp: gate_hold_over_def)

text \<open>
  Fact: Whatever the user and the daemon do, and in whatever order, the touch dialog asks the daemon to
  cancel the gate at most once and only if the user cancelled or closed it; it reports a cancel only
  when it sent one, and otherwise the answer of the request itself.
\<close>

theorem touch_dialog_answer:
  "let d = gate_run es (gate_open h) in
     gd_sent d \<le> 1 \<and> (gd_sent d = 1 \<longrightarrow> GCancel \<in> set es \<or> GClose \<in> set es) \<and>
     (gd_phase d = GDone None \<longrightarrow> gd_sent d = 1) \<and>
     (\<forall>r. gd_phase d = GDone (Some r) \<longrightarrow>
        (\<exists>w. GWork w \<in> set es \<and> r = unwrap_or (Err ''worker panicked'') w))"
  using gate_inv_run [of es h] unfolding gate_inv_def Let_def by auto

theorem touch_dialog_answer_witness:
  "gd_phase (gate_run [GWork (Some (Ok ())), GHoldOver] (gate_open [])) = GDone (Some (Ok ())) \<and>
   (\<exists>w. GWork w \<in> set [GWork (Some (Ok ())), GHoldOver] \<and> Ok () = unwrap_or (Err ''worker panicked'') w) \<and>
   gd_phase (gate_run [GCancel, GWork (Some (Ok ()))] (gate_open [])) = GDone None \<and>
   gd_sent (gate_run [GCancel, GWork (Some (Ok ()))] (gate_open [])) = 1"
proof -
  have "gd_phase (gate_run [GWork (Some (Ok ())), GHoldOver] (gate_open [])) = GDone (Some (Ok ()))"
    "gd_phase (gate_run [GCancel, GWork (Some (Ok ()))] (gate_open [])) = GDone None"
    by (simp_all add: gate_run_def gate_open_def gate_step_defs)
  then show ?thesis
    using touch_dialog_answer [of "[GWork (Some (Ok ())), GHoldOver]" "[]"]
      touch_dialog_answer [of "[GCancel, GWork (Some (Ok ()))]" "[]"]
    unfolding Let_def by blast
qed

text \<open>
  Fact: The touch dialog returns: once the request has ended and the time of the hint is over, whatever
  else happened before, between and after, the call has an answer and the window is closed.
\<close>

theorem touch_dialog_returns:
  "\<exists>r. gd_phase (gate_run (es @ [GWork w] @ fs @ [GHoldOver] @ gs) (gate_open h)) = GDone r \<and>
     \<not> gd_open (gate_run (es @ [GWork w] @ fs @ [GHoldOver] @ gs) (gate_open h))"
proof -
  let ?d = "gate_step (GWork w) (gate_run es (gate_open h))"
  have run: "gate_run (es @ [GWork w] @ fs @ [GHoldOver] @ gs) (gate_open h) =
      gate_run gs (gate_step GHoldOver (gate_run fs ?d))"
    by (simp add: gate_run_def)
  obtain r where r: "gd_phase (gate_step GHoldOver (gate_run fs ?d)) = GDone r"
    using gate_hold_ends [OF gate_run_answered [OF gate_work_answers]] by blast
  then have "gd_phase (gate_run (es @ [GWork w] @ fs @ [GHoldOver] @ gs) (gate_open h)) = GDone r"
    unfolding run by (rule gate_run_done)
  then show ?thesis
    using gate_inv_run [of "es @ [GWork w] @ fs @ [GHoldOver] @ gs" h]
    by (cases r) (auto simp: gate_inv_def)
qed

text \<open>
  Fact: closing the dialog while it shows the answer of a gate that already finished still sends a
  \<open>GATE:CANCEL\<close>, and a daemon that runs another gate by then cancels that one.
\<close>

theorem closed_hint_cancels_another_gate:
  assumes "is_connected c" "gate_active c"
  shows "let d = gate_run [GWork w, GClose, GHoldOver] (gate_open h); s = snd (handle_gate_cancel L (c, dev)) in
     gd_sent d = 1 \<and> gd_phase d = GDone (Some (unwrap_or (Err ''worker panicked'') w)) \<and> gate_cancel (fst s)"
  using assms
  by (simp add: gate_run_def gate_open_def gate_step_defs handle_gate_cancel_def cancel_active_gate_def on_coord_def)

theorem closed_hint_cancels_another_gate_witness:
  "let d = gate_run [GWork (Some (Ok ())), GClose, GHoldOver] (gate_open []);
       s = snd (handle_gate_cancel (\<lambda>cmd s. (ChannelClosed, s)) (coordinator_new\<lparr> is_connected := True, gate_active := True \<rparr>, ())) in
     gd_sent d = 1 \<and> gd_phase d = GDone (Some (Ok ())) \<and> gate_cancel (fst s)"
  using closed_hint_cancels_another_gate
    [of "coordinator_new\<lparr> is_connected := True, gate_active := True \<rparr>" "Some (Ok ())" "[]" "\<lambda>cmd s. (ChannelClosed, s)" "()"]
  by simp

section \<open>What the enrollment dialog guarantees\<close>

definition enroll_inv :: "enroll_dialog_event list \<Rightarrow> enroll_dialog \<Rightarrow> bool" where
  "enroll_inv es d \<longleftrightarrow>
     ed_sent d = (if ed_user_cancelled d then 1 else 0) \<and> ed_flag d = ed_user_cancelled d \<and>
     (ed_user_cancelled d \<longrightarrow> EdCancel \<in> set es \<or> EdClose \<in> set es) \<and>
     (ed_outcome d = Enrolled \<longrightarrow> EdEvent Complete \<in> set es \<and> \<not> ed_user_cancelled d) \<and>
     (ed_outcome d = EnrollFailed \<longrightarrow>
        (\<exists>reason. EdEvent (Failed reason) \<in> set es \<and> eg_error (ed_guide d) = Some (failure_text reason)) \<and>
        \<not> ed_user_cancelled d) \<and>
     (case ed_phase d of
        EdRunning \<Rightarrow> ed_open d = (\<not> ed_user_cancelled d) \<and> \<not> ed_finished d \<and> ed_outcome d = EnrollCancelled \<and>
          ed_cancel_shown d \<and> \<not> ed_close_shown d
      | EdFailed \<Rightarrow> ed_open d \<and> ed_finished d \<and> \<not> ed_cancel_shown d \<and> ed_close_shown d \<and> ed_outcome d = EnrollFailed
      | EdOver \<Rightarrow> \<not> ed_open d \<and> ed_finished d)"

lemmas enroll_step_defs = enroll_window_close_def enroll_send_cancel_def enroll_leave_def enroll_close_request_def
  subtext_def

lemma enroll_inv_open: "enroll_inv [] enroll_open"
  by (simp add: enroll_inv_def enroll_open_def)

lemma enroll_inv_more: "enroll_inv es d \<Longrightarrow> enroll_inv (es @ [e]) d"
  unfolding enroll_inv_def by auto

lemma enroll_inv_show:
  assumes "enroll_inv es d" "ed_phase d = EdRunning" "\<not> ed_user_cancelled d"
  shows "enroll_inv (es @ [EdEvent ev]) (enroll_show ev d)"
  using assms by (cases ev) (auto simp: enroll_inv_def enroll_step_defs)

lemma enroll_inv_leave: "enroll_inv es d \<Longrightarrow> enroll_inv es (enroll_leave d)"
  by (cases "ed_phase d") (auto simp: enroll_inv_def enroll_step_defs)

lemma enroll_inv_step: "enroll_inv es d \<Longrightarrow> enroll_inv (es @ [e]) (enroll_dialog_step e d)"
proof (cases e)
  case EdCancel
  then show "enroll_inv es d \<Longrightarrow> ?thesis"
    by (cases "ed_phase d") (auto simp: enroll_inv_def enroll_step_defs)
next
  case EdClose
  then show "enroll_inv es d \<Longrightarrow> ?thesis"
    by (cases "ed_phase d") (auto simp: enroll_inv_def enroll_step_defs)
next
  case EdCloseButton
  then show "enroll_inv es d \<Longrightarrow> ?thesis"
    by (cases "ed_phase d") (auto simp: enroll_inv_def enroll_step_defs)
next
  case (EdEvent ev)
  then show "enroll_inv es d \<Longrightarrow> ?thesis"
    using enroll_inv_show [of es d ev] enroll_inv_more [of es d "EdEvent ev"]
      enroll_inv_leave [of "es @ [EdEvent ev]" d] by simp
next
  case EdWorkerGone
  then show "enroll_inv es d \<Longrightarrow> ?thesis"
    using enroll_inv_more [of es d EdWorkerGone] enroll_inv_leave [of "es @ [EdWorkerGone]" d] by simp
qed

lemma enroll_inv_run: "enroll_inv es (enroll_dialog_run es enroll_open)"
proof (induction es rule: rev_induct)
  case Nil
  then show ?case by (simp add: enroll_dialog_run_def enroll_inv_open)
next
  case (snoc e es)
  then show ?case using enroll_inv_step [of es _ e] by (simp add: enroll_dialog_run_def)
qed

text \<open>
  Fact: Whatever the user and the worker do, and in whatever order, the enrollment dialog sends
  \<open>FP:ENROLL_CANCEL\<close> exactly when the user cancelled a running enrollment, at most once, and tells the
  worker to stop then; it reports a finger as enrolled only after the worker said so and without a
  cancel, and a failure only with its text on the screen.
\<close>

theorem enroll_dialog_contract:
  "let d = enroll_dialog_run es enroll_open in
     ed_sent d = (if ed_user_cancelled d then 1 else 0) \<and> ed_flag d = ed_user_cancelled d \<and>
     (ed_user_cancelled d \<longrightarrow> (EdCancel \<in> set es \<or> EdClose \<in> set es) \<and> ed_outcome d = EnrollCancelled) \<and>
     (ed_outcome d = Enrolled \<longrightarrow> EdEvent Complete \<in> set es) \<and>
     (ed_outcome d = EnrollFailed \<longrightarrow>
        (\<exists>reason. EdEvent (Failed reason) \<in> set es \<and> eg_error (ed_guide d) = Some (failure_text reason))) \<and>
     (ed_phase d = EdOver \<longrightarrow> \<not> ed_open d)"
  using enroll_inv_run [of es] unfolding enroll_inv_def Let_def
  by (cases "ed_outcome (enroll_dialog_run es enroll_open)") auto

theorem enroll_dialog_contract_witness:
  "(let d = enroll_dialog_run [EdEvent GateWaiting, EdEvent Started, EdEvent Complete] enroll_open in
      ed_outcome d = Enrolled \<and> ed_sent d = 0 \<and> \<not> ed_open d) \<and>
   (let d = enroll_dialog_run [EdEvent GateWaiting, EdCancel, EdEvent Complete] enroll_open in
      ed_outcome d = EnrollCancelled \<and> ed_sent d = 1)"
proof -
  let ?d = "enroll_dialog_run [EdEvent GateWaiting, EdEvent Started, EdEvent Complete] enroll_open"
  let ?e = "enroll_dialog_run [EdEvent GateWaiting, EdCancel, EdEvent Complete] enroll_open"
  have "ed_outcome ?d = Enrolled" "\<not> ed_user_cancelled ?d" "ed_phase ?d = EdOver" "ed_user_cancelled ?e"
    by (simp_all add: enroll_dialog_run_def enroll_open_def enroll_step_defs)
  then show ?thesis
    using enroll_dialog_contract [of "[EdEvent GateWaiting, EdEvent Started, EdEvent Complete]"]
      enroll_dialog_contract [of "[EdEvent GateWaiting, EdCancel, EdEvent Complete]"]
    unfolding Let_def by simp
qed

text \<open>
  A dialog that nobody touches shows how its worker ended: the first final event decides, and a worker
  that goes away without one counts as a cancel.
\<close>

fun ending :: "enroll_progress list \<Rightarrow> enroll_outcome" where
  "ending [] = EnrollCancelled"
| "ending (Complete # evs) = Enrolled"
| "ending (Failed reason # evs) = (if contains_str ''FP-gate cancelled'' reason then EnrollCancelled else EnrollFailed)"
| "ending (_ # evs) = ending evs"

definition untouched :: "enroll_dialog \<Rightarrow> bool" where
  "untouched d \<longleftrightarrow> ed_phase d = EdRunning \<and> \<not> ed_user_cancelled d \<and> ed_open d \<and> ed_sent d = 0 \<and>
     ed_outcome d = EnrollCancelled"

lemma not_running_stays:
  "ed_phase d \<noteq> EdRunning \<Longrightarrow> fold enroll_dialog_step (map EdEvent evs @ [EdWorkerGone]) d = d"
  by (induction evs) simp_all

lemma ending_shown:
  "untouched d \<Longrightarrow> let e = fold enroll_dialog_step (map EdEvent evs @ [EdWorkerGone]) d in
     ed_outcome e = ending evs \<and> ed_sent e = 0 \<and> ed_phase e = (if ending evs = EnrollFailed then EdFailed else EdOver)"
proof (induction evs arbitrary: d)
  case Nil
  then show ?case by (simp add: untouched_def enroll_step_defs Let_def)
next
  case (Cons ev evs)
  let ?d = "enroll_show ev d"
  have step: "fold enroll_dialog_step (map EdEvent (ev # evs) @ [EdWorkerGone]) d =
      fold enroll_dialog_step (map EdEvent evs @ [EdWorkerGone]) ?d"
    using Cons.prems by (simp add: untouched_def)
  show ?case
  proof (cases "ed_phase ?d = EdRunning")
    case True
    then have "untouched ?d" "ending (ev # evs) = ending evs"
      using Cons.prems by (cases ev; auto simp: untouched_def enroll_step_defs split: if_splits)+
    then show ?thesis unfolding step using Cons.IH by simp
  next
    case False
    then show ?thesis
      unfolding step not_running_stays [OF False]
      using Cons.prems by (cases ev) (auto simp: untouched_def enroll_step_defs Let_def)
  qed
qed

lemma arrow_for_tilts: "step_arrow n \<noteq> mid_dot \<longleftrightarrow> eg_arrow_shown (set_step n c t g)"
proof -
  have "2 \<le> n \<and> n \<le> 5 \<longleftrightarrow> n = 2 \<or> n = 3 \<or> n = 4 \<or> n = (5::byte)"
    by unat_arith
  then show ?thesis by (auto simp: step_arrow_def set_step_def Let_def)
qed

end
