(* ===== verification/Gui_Hosts.thy ===== *)
theory Gui_Hosts
  imports Gui_Gate
begin

text \<open>
  The \<open>Two Hosts\<close> group of the GUI's device page (\<open>pages/hosts.rs\<close>): what it shows for the poll results of
  the dashboard, and its three actions. An action is a task that waits for the question, for the
  answer of the daemon or for the touch dialog; the group is a machine of these events and the clicks.
  The dialogs are modal: they take the clicks while they are open. The escaping of markup of glib is an
  argument. Icons and style classes are left out.
\<close>

datatype gui_host_action = GPair | GUnpair | GUnbind byte

definition EMPTY_SLOT_HINT :: string where
  "EMPTY_SLOT_HINT = ''To fill this slot, open immurok on that computer and click Pair.''"

definition FOREIGN_SLOT_HINT :: string where
  "FOREIGN_SLOT_HINT = ''Bound to another computer. Pair this computer first to manage this slot.''"

section \<open>One card\<close>

record host_card =
  hc_badge :: bool
  hc_bound :: bool
  hc_pending :: "gui_host_action option"
  hc_label :: string
  hc_hint :: string
  hc_hint_shown :: bool

text \<open>The button of a card is visible exactly when it has a pending action.\<close>

definition card_build :: host_card where
  "card_build = \<lparr> hc_badge = False, hc_bound = False, hc_pending = None, hc_label = [],
     hc_hint = EMPTY_SLOT_HINT, hc_hint_shown = False \<rparr>"

definition state_text :: "bool \<Rightarrow> string" where
  "state_text bound = (if bound then full_dot @ '' Bound'' else open_dot @ '' Empty'')"

definition action_label :: "gui_host_action \<Rightarrow> string" where
  "action_label a = (case a of GPair \<Rightarrow> ''Pair'' | GUnpair \<Rightarrow> ''Unpair'' | GUnbind _ \<Rightarrow> ''Unbind'')"

definition card_show :: "bool \<Rightarrow> bool \<Rightarrow> bool \<Rightarrow> host_card \<Rightarrow> host_card" where
  "card_show bound mine this_computer c =
     (let act = (if mine then Some (if bound then GUnpair else GPair) else None) in
      c\<lparr> hc_badge := this_computer, hc_bound := bound, hc_pending := act, hc_hint := EMPTY_SLOT_HINT,
         hc_hint_shown := (\<not> mine \<and> \<not> bound),
         hc_label := (case act of Some a \<Rightarrow> action_label a | None \<Rightarrow> hc_label c) \<rparr>)"

definition show_foreign :: "host_card \<Rightarrow> host_card" where
  "show_foreign c = c\<lparr> hc_pending := None, hc_hint := FOREIGN_SLOT_HINT, hc_hint_shown := True \<rparr>"

definition show_unbind :: "byte \<Rightarrow> host_card \<Rightarrow> host_card" where
  "show_unbind n c = c\<lparr> hc_pending := Some (GUnbind n), hc_label := ''Unbind'', hc_hint_shown := False \<rparr>"

section \<open>The group\<close>

text \<open>
  \<open>hg_pending\<close> is the action of the single button while that is visible; a button that is hidden has none.
  The progress poll of a pairing that has ended changes a hidden label only, and is left out.
\<close>

datatype host_task =
    HtIdle
  | HtConfirm gui_host_action
  | HtUnpairing
  | HtPairing "pair_progress option"
  | HtUnbinding byte "unit gate_dialog"

datatype host_effect = HostAsked string | HostToast string

record hosts_group =
  hg_cards_shown :: bool
  hg_label :: string
  hg_button :: string
  hg_pending :: "gui_host_action option"
  hg_cards :: "host_card list"
  hg_hint :: string
  hg_progress :: "string option"
  hg_paired :: bool
  hg_connected :: bool
  hg_slots :: "host_slots option"
  hg_busy :: bool
  hg_task :: host_task
  hg_names :: gui_settings
  hg_effects :: "host_effect list"

definition hosts_new :: "gui_settings \<Rightarrow> hosts_group" where
  "hosts_new st = \<lparr> hg_cards_shown = False, hg_label = ''Connecting to daemon'' @ ellipsis, hg_button = ''Pair'',
     hg_pending = None, hg_cards = [card_build, card_build], hg_hint = [], hg_progress = None, hg_paired = False,
     hg_connected = False, hg_slots = None, hg_busy = False, hg_task = HtIdle, hg_names = st, hg_effects = [] \<rparr>"

definition simple_mode :: "string \<Rightarrow> gui_host_action option \<Rightarrow> hosts_group \<Rightarrow> hosts_group" where
  "simple_mode label act g = g\<lparr> hg_cards_shown := False, hg_label := label, hg_pending := act,
     hg_button := (if act = Some GUnpair then ''Unpair'' else ''Pair''), hg_hint := [] \<rparr>"

definition render_card :: "bool \<Rightarrow> host_slots \<Rightarrow> byte \<Rightarrow> host_card \<Rightarrow> host_card" where
  "render_card paired h n c =
     (let mine = (n = unwrap_or (hs_active h) (hs_mine h)); bound = slot_bound h n;
          c1 = card_show bound mine (hs_mine h = Some n) c
      in if \<not> mine \<and> bound then (if paired then show_unbind n c1 else show_foreign c1) else c1)"

definition render :: "hosts_group \<Rightarrow> hosts_group" where
  "render g =
     (if \<not> hg_connected g
      then simple_mode ''Device not connected. Host binding status will appear once connected.''
             (if hg_paired g then Some GUnpair else None) g
      else case hg_slots g of
        None \<Rightarrow> simple_mode ''Host status unavailable.'' (Some (if hg_paired g then GUnpair else GPair)) g
      | Some h \<Rightarrow>
          if \<not> hs_supported h
          then simple_mode ''This firmware does not support two hosts.'' (Some (if hg_paired g then GUnpair else GPair)) g
          else if hg_paired g \<and> hs_mine h = None
          then simple_mode ''Could not verify which host slot belongs to this computer.'' (Some GUnpair) g
          else g\<lparr> hg_cards_shown := True,
                  hg_cards := map2 (render_card (hg_paired g) h) [1, 2] (hg_cards g),
                  hg_hint := (if both_bound h
                    then ''Both host slots are in use. To swap one out, unbind it on that computer first.''
                    else ''This device can be bound to up to two computers. Touch the switch fingerprint to move between them.'') \<rparr>)"

definition hosts_apply :: "bool \<Rightarrow> bool \<Rightarrow> host_slots option \<Rightarrow> hosts_group \<Rightarrow> hosts_group" where
  "hosts_apply up paired slots g =
     (let g1 = g\<lparr> hg_paired := paired, hg_connected := up, hg_slots := slots \<rparr>
      in if hg_busy g1 then g1 else render g1)"

definition hosts_daemon_down :: "hosts_group \<Rightarrow> hosts_group" where
  "hosts_daemon_down g =
     (let g1 = g\<lparr> hg_connected := False, hg_slots := None \<rparr>
      in if hg_busy g1 then g1
         else g1\<lparr> hg_cards_shown := False, hg_label := ''Daemon unavailable.'', hg_pending := None, hg_hint := [] \<rparr>)"

definition hosts_set_busy :: "bool \<Rightarrow> hosts_group \<Rightarrow> hosts_group" where
  "hosts_set_busy b g = (let g1 = g\<lparr> hg_busy := b \<rparr> in if b then g1 else render g1)"

definition host_effect :: "host_effect \<Rightarrow> hosts_group \<Rightarrow> hosts_group" where
  "host_effect e g = g\<lparr> hg_effects := hg_effects g @ [e] \<rparr>"

section \<open>The actions\<close>

definition clear_other_request :: "byte \<Rightarrow> string" where
  "clear_other_request n = ''SLOT:CLEAR:'' @ show_word n"

definition hosts_run :: "gui_host_action \<Rightarrow> hosts_group \<Rightarrow> hosts_group" where
  "hosts_run a g =
     (if hg_busy g then g
      else if a = GPair
      then host_effect (HostAsked ''PAIR:START'') (host_effect (HostToast ''Confirm pairing on the device (up to 150 s)'')
             ((hosts_set_busy True g)\<lparr> hg_task := HtPairing None, hg_progress := Some (''Waiting for the device'' @ ellipsis) \<rparr>))
      else g\<lparr> hg_task := HtConfirm a \<rparr>)"

definition unbind_hint :: string where
  "unbind_hint = ''Touch a registered fingerprint on the device to confirm unbinding the other host.''"

definition hosts_confirmed :: "gui_host_action \<Rightarrow> hosts_group \<Rightarrow> hosts_group" where
  "hosts_confirmed a g = (case a of
     GUnpair \<Rightarrow> host_effect (HostAsked ''SLOT:CLEAR'') ((hosts_set_busy True g)\<lparr> hg_task := HtUnpairing \<rparr>)
   | GUnbind n \<Rightarrow> host_effect (HostAsked (clear_other_request n))
       ((hosts_set_busy True g)\<lparr> hg_task := HtUnbinding n (gate_open unbind_hint) \<rparr>)
   | GPair \<Rightarrow> g\<lparr> hg_task := HtIdle \<rparr>)"

definition hosts_end :: "hosts_group \<Rightarrow> hosts_group" where
  "hosts_end g = (hosts_set_busy False g)\<lparr> hg_task := HtIdle \<rparr>"

definition failed_toast :: "(string \<Rightarrow> string) \<Rightarrow> string \<Rightarrow> string \<Rightarrow> host_effect" where
  "failed_toast esc what e = HostToast (what @ '' failed: '' @ esc (friendly e))"

text \<open>A save of the settings that fails is ignored; \<open>stored\<close> says whether it succeeded.\<close>

definition unpair_finish :: "(string \<Rightarrow> string) \<Rightarrow> (unit, string) result option \<Rightarrow> bool \<Rightarrow> hosts_group \<Rightarrow> hosts_group" where
  "unpair_finish esc r stored g = hosts_end (case r of
     Some (Ok _) \<Rightarrow> (let g1 = host_effect (HostToast ''Unpaired'') g in
       if stored then g1\<lparr> hg_names := clear_fingerprint_names (hg_names g1) \<rparr> else g1)
   | Some (Err e) \<Rightarrow> host_effect (failed_toast esc ''Unpair'' e) g
   | None \<Rightarrow> g)"

definition pair_finish :: "(string \<Rightarrow> string) \<Rightarrow> (unit, string) result option \<Rightarrow> hosts_group \<Rightarrow> hosts_group" where
  "pair_finish esc r g = hosts_end ((case r of
     Some (Ok _) \<Rightarrow> host_effect (HostToast ''Paired'') g
   | Some (Err e) \<Rightarrow> host_effect (failed_toast esc ''Pairing'' e) g
   | None \<Rightarrow> g)\<lparr> hg_progress := None \<rparr>)"

definition unbind_finish :: "(string \<Rightarrow> string) \<Rightarrow> byte \<Rightarrow> (unit, string) result option \<Rightarrow> hosts_group \<Rightarrow> hosts_group" where
  "unbind_finish esc n r g = hosts_end (case r of
     Some (Ok _) \<Rightarrow> host_effect (HostToast (''Host '' @ show_word n @ '' unbound'')) g
   | Some (Err e) \<Rightarrow> host_effect (failed_toast esc ''Unbind'' e) g
   | None \<Rightarrow> g)"

definition progress_text :: "pair_progress \<Rightarrow> string" where
  "progress_text p = (case p of
     PIdle \<Rightarrow> ''Waiting for the device'' @ ellipsis
   | PWaitFp \<Rightarrow> ''Touch an enrolled finger on the device''
   | PWaitButton \<Rightarrow> ''Press the button on the device''
   | PEcdh \<Rightarrow> ''Exchanging keys'' @ ellipsis
   | PDone \<Rightarrow> ''Paired''
   | PFailed \<Rightarrow> ''Pairing failed'')"

text \<open>
  \<open>HeAnswer\<close>: the daemon's line for the request of the task, nothing when its thread panicked.
  \<open>HeDialog\<close>: what the user and the clock do to the touch dialog.
\<close>

datatype host_event =
    HeApply bool bool "host_slots option"
  | HeDaemonDown
  | HeCard nat
  | HeButton
  | HeConfirm bool
  | HeAnswer "(string, string) result option" bool
  | HeProgress "(string, string) result option"
  | HeDialog "unit gate_event"

definition hosts_dialog :: "(string \<Rightarrow> string) \<Rightarrow> byte \<Rightarrow> unit gate_dialog \<Rightarrow> unit gate_event \<Rightarrow> hosts_group \<Rightarrow> hosts_group" where
  "hosts_dialog esc n d e g = (let d1 = gate_step e d in case gd_phase d1 of
     GDone r \<Rightarrow> unbind_finish esc n r g
   | _ \<Rightarrow> g\<lparr> hg_task := HtUnbinding n d1 \<rparr>)"

definition hosts_answer :: "(string \<Rightarrow> string) \<Rightarrow> (string, string) result option \<Rightarrow> bool \<Rightarrow> hosts_group \<Rightarrow> hosts_group" where
  "hosts_answer esc r stored g = (case hg_task g of
     HtUnpairing \<Rightarrow> unpair_finish esc (map_option (\<lambda>reply. and_then reply ok_if_ok) r) stored g
   | HtPairing _ \<Rightarrow> pair_finish esc (map_option pair_start_reply r) g
   | HtUnbinding n d \<Rightarrow> hosts_dialog esc n d (GWork (map_option (\<lambda>reply. and_then reply ok_if_ok) r)) g
   | _ \<Rightarrow> g)"

definition hosts_progress :: "(string, string) result option \<Rightarrow> hosts_group \<Rightarrow> hosts_group" where
  "hosts_progress r g = (case (hg_task g, r) of
     (HtPairing last_shown, Some (Ok line)) \<Rightarrow> (case parse_pair_progress line of
        Some p \<Rightarrow> if last_shown = Some p then g
          else g\<lparr> hg_task := HtPairing (Some p), hg_progress := Some (progress_text p) \<rparr>
      | None \<Rightarrow> g)
   | _ \<Rightarrow> g)"

definition modal_open :: "hosts_group \<Rightarrow> bool" where
  "modal_open g = (case hg_task g of HtConfirm _ \<Rightarrow> True | HtUnbinding _ d \<Rightarrow> gd_open d | _ \<Rightarrow> False)"

definition hosts_click :: "gui_host_action option \<Rightarrow> hosts_group \<Rightarrow> hosts_group" where
  "hosts_click act g = (if modal_open g then g else case act of Some a \<Rightarrow> hosts_run a g | None \<Rightarrow> g)"

fun hosts_step :: "(string \<Rightarrow> string) \<Rightarrow> host_event \<Rightarrow> hosts_group \<Rightarrow> hosts_group" where
  "hosts_step esc (HeApply up paired slots) g = hosts_apply up paired slots g"
| "hosts_step esc HeDaemonDown g = hosts_daemon_down g"
| "hosts_step esc (HeCard i) g =
     hosts_click (if hg_cards_shown g then Option.bind (get_at (hg_cards g) i) hc_pending else None) g"
| "hosts_step esc HeButton g = hosts_click (if hg_cards_shown g then None else hg_pending g) g"
| "hosts_step esc (HeConfirm yes) g = (case hg_task g of
     HtConfirm a \<Rightarrow> if yes then hosts_confirmed a g else g\<lparr> hg_task := HtIdle \<rparr>
   | _ \<Rightarrow> g)"
| "hosts_step esc (HeAnswer r stored) g = hosts_answer esc r stored g"
| "hosts_step esc (HeProgress r) g = hosts_progress r g"
| "hosts_step esc (HeDialog e) g = (case (hg_task g, e) of
     (HtUnbinding n d, GWork _) \<Rightarrow> g
   | (HtUnbinding n d, e) \<Rightarrow> hosts_dialog esc n d e g
   | _ \<Rightarrow> g)"

definition hosts_run_events :: "(string \<Rightarrow> string) \<Rightarrow> host_event list \<Rightarrow> gui_settings \<Rightarrow> hosts_group" where
  "hosts_run_events esc es st = fold (hosts_step esc) es (hosts_new st)"

section \<open>What the group shows\<close>

text \<open>\<open>n\<close> is the slot of another host, by the word of a daemon that has proved which slot is its own.\<close>

definition proven_foreign :: "hosts_group \<Rightarrow> byte \<Rightarrow> bool" where
  "proven_foreign g n \<longleftrightarrow> hg_paired g \<and> hg_connected g \<and>
     (\<exists>h m. hg_slots g = Some h \<and> hs_supported h \<and> hs_mine h = Some m \<and> m \<noteq> n \<and> slot_bound h n)"

lemma render_cards:
  assumes "length (hg_cards g) = 2" "hg_cards_shown (render g)"
  obtains h where "hg_slots g = Some h" "hg_connected g" "hs_supported h" "hg_paired g \<longrightarrow> hs_mine h \<noteq> None"
    "hg_cards (render g) = [render_card (hg_paired g) h 1 (hg_cards g ! 0), render_card (hg_paired g) h 2 (hg_cards g ! 1)]"
proof -
  obtain a b where "hg_cards g = [a, b]"
    using assms(1) by (metis length_0_conv length_Suc_conv numeral_2_eq_2)
  then show ?thesis
    using assms(2) that by (auto simp: render_def simple_mode_def split: if_splits option.splits)
qed

lemma render_length [simp]: "length (hg_cards g) = 2 \<Longrightarrow> length (hg_cards (render g)) = 2"
  by (auto simp: render_def simple_mode_def split: option.split)

lemma render_keeps [simp]:
  "hg_paired (render g) = hg_paired g" "hg_connected (render g) = hg_connected g" "hg_slots (render g) = hg_slots g"
  "hg_busy (render g) = hg_busy g" "hg_task (render g) = hg_task g" "hg_effects (render g) = hg_effects g"
  "hg_names (render g) = hg_names g" "hg_progress (render g) = hg_progress g"
  by (simp_all add: render_def simple_mode_def split: option.split)

lemma card_unbind:
  "hc_pending (render_card paired h n c) = Some (GUnbind k) \<longleftrightarrow>
     k = n \<and> paired \<and> slot_bound h n \<and> n \<noteq> unwrap_or (hs_active h) (hs_mine h)"
  by (auto simp: render_card_def card_show_def show_unbind_def show_foreign_def Let_def)

lemma render_unbind:
  assumes "length (hg_cards g) = 2" "hg_cards_shown (render g)" "c \<in> set (hg_cards (render g))"
    "hc_pending c = Some (GUnbind n)"
  shows "proven_foreign g n"
  using assms by (elim render_cards) (auto simp: card_unbind proven_foreign_def)

lemma simple_no_unbind: "\<not> hg_cards_shown (render g) \<Longrightarrow> hg_pending (render g) \<noteq> Some (GUnbind n)"
  by (auto simp: render_def simple_mode_def split: option.splits if_splits)

text \<open>
  What is on the screen while no action runs: the buttons belong to the last poll. The cards are
  drawn for it, or the daemon is down and there is no button.
\<close>

definition drawn :: "hosts_group \<Rightarrow> bool" where
  "drawn g \<longleftrightarrow> length (hg_cards g) = 2 \<and>
     (hg_cards_shown g \<longrightarrow> (\<forall>c \<in> set (hg_cards g). \<forall>n. hc_pending c = Some (GUnbind n) \<longrightarrow> proven_foreign g n) \<or> hg_busy g) \<and>
     (\<not> hg_cards_shown g \<longrightarrow> (\<forall>n. hg_pending g \<noteq> Some (GUnbind n)) \<or> hg_busy g)"

lemma drawn_render: "length (hg_cards g) = 2 \<Longrightarrow> drawn (render g)"
  using render_unbind [of g] simple_no_unbind [of g]
  by (auto simp: drawn_def proven_foreign_def)

lemma host_effect_fields [simp]:
  "hg_cards_shown (host_effect e g) = hg_cards_shown g" "hg_cards (host_effect e g) = hg_cards g"
  "hg_pending (host_effect e g) = hg_pending g" "hg_busy (host_effect e g) = hg_busy g"
  "hg_paired (host_effect e g) = hg_paired g" "hg_connected (host_effect e g) = hg_connected g"
  "hg_slots (host_effect e g) = hg_slots g" "hg_task (host_effect e g) = hg_task g"
  "hg_effects (host_effect e g) = hg_effects g @ [e]" "hg_names (host_effect e g) = hg_names g"
  by (simp_all add: host_effect_def)

text \<open>The requests that clear a slot, and the invariant on all runs.\<close>

fun asked :: "host_effect list \<Rightarrow> string list" where
  "asked [] = []"
| "asked (HostAsked r # es) = r # asked es"
| "asked (HostToast t # es) = asked es"

lemma asked_append [simp]: "asked (es @ fs) = asked es @ asked fs"
  by (induction es rule: asked.induct) simp_all

definition clears :: "hosts_group \<Rightarrow> nat" where
  "clears g = length (filter (starts_with ''SLOT:CLEAR'') (asked (hg_effects g)))"

definition confirms :: "host_event list \<Rightarrow> nat" where
  "confirms es = count_list es (HeConfirm True)"

definition foreign_in :: "hosts_group set \<Rightarrow> byte \<Rightarrow> bool" where
  "foreign_in past n \<longleftrightarrow> (\<exists>g \<in> past. proven_foreign g n)"

definition unbinds_foreign :: "hosts_group set \<Rightarrow> hosts_group \<Rightarrow> bool" where
  "unbinds_foreign past g \<longleftrightarrow>
     (\<forall>n. HostAsked (clear_other_request n) \<in> set (hg_effects g) \<longrightarrow> foreign_in past n) \<and>
     (\<forall>n. hg_task g = HtConfirm (GUnbind n) \<longrightarrow> foreign_in past n)"

lemma drawn_fields [simp]:
  "drawn (g\<lparr> hg_task := t \<rparr>) = drawn g" "drawn (g\<lparr> hg_progress := p \<rparr>) = drawn g"
  "drawn (g\<lparr> hg_names := ns \<rparr>) = drawn g" "drawn (host_effect e g) = drawn g"
  by (simp_all add: drawn_def proven_foreign_def)

lemma drawn_busy: "drawn g \<Longrightarrow> drawn (hosts_set_busy b g)"
  using drawn_render [of "g\<lparr> hg_busy := False \<rparr>"]
  by (auto simp: hosts_set_busy_def Let_def drawn_def [of "g\<lparr> hg_busy := True \<rparr>"]) (simp add: drawn_def)+

lemma drawn_end: "drawn g \<Longrightarrow> drawn (hosts_end g)"
  by (simp add: hosts_end_def drawn_busy)

lemma drawn_finish:
  "drawn g \<Longrightarrow> drawn (unpair_finish esc r stored g)" "drawn g \<Longrightarrow> drawn (pair_finish esc q g)"
  "drawn g \<Longrightarrow> drawn (unbind_finish esc n q g)"
  by (auto simp: unpair_finish_def pair_finish_def unbind_finish_def Let_def intro!: drawn_end
      split: option.split result.split)

lemma drawn_apply: "drawn g \<Longrightarrow> drawn (hosts_apply up paired slots g)"
  using drawn_render [of "g\<lparr> hg_paired := paired, hg_connected := up, hg_slots := slots \<rparr>"]
  by (auto simp: hosts_apply_def Let_def drawn_def)

lemma drawn_down: "drawn g \<Longrightarrow> drawn (hosts_daemon_down g)"
  by (auto simp: hosts_daemon_down_def Let_def drawn_def)

lemma drawn_click: "drawn g \<Longrightarrow> drawn (hosts_click act g)"
  by (auto simp: hosts_click_def hosts_run_def drawn_busy split: option.split)

lemma drawn_dialog: "drawn g \<Longrightarrow> drawn (hosts_dialog esc n d e g)"
  by (auto simp: hosts_dialog_def Let_def drawn_finish split: gate_phase.split)

lemma drawn_answer: "drawn g \<Longrightarrow> drawn (hosts_answer esc r stored g)"
  by (auto simp: hosts_answer_def drawn_finish drawn_dialog split: host_task.split)

lemma drawn_progress: "drawn g \<Longrightarrow> drawn (hosts_progress r g)"
  by (auto simp: hosts_progress_def split: host_task.split option.split result.split)

lemma drawn_confirmed: "drawn g \<Longrightarrow> drawn (hosts_confirmed a g)"
  by (auto simp: hosts_confirmed_def drawn_busy split: gui_host_action.split)

lemma drawn_step: "drawn g \<Longrightarrow> drawn (hosts_step esc e g)"
  by (cases e) (auto simp: drawn_apply drawn_down drawn_click drawn_answer drawn_progress drawn_confirmed drawn_dialog
      split: host_task.split gate_event.split)

text \<open>The effects and the task of a step.\<close>

lemma busy_keeps [simp]:
  "hg_task (hosts_set_busy b g) = hg_task g" "hg_effects (hosts_set_busy b g) = hg_effects g"
  "hg_busy (hosts_set_busy b g) = b"
  by (simp_all add: hosts_set_busy_def Let_def)

lemma end_keeps [simp]: "hg_effects (hosts_end g) = hg_effects g" "hg_task (hosts_end g) = HtIdle" "\<not> hg_busy (hosts_end g)"
  by (simp_all add: hosts_end_def)

lemma finish_effects:
  "asked (hg_effects (unpair_finish esc r stored g)) = asked (hg_effects g)" "hg_task (unpair_finish esc r stored g) = HtIdle"
  "asked (hg_effects (pair_finish esc q g)) = asked (hg_effects g)" "hg_task (pair_finish esc q g) = HtIdle"
  "asked (hg_effects (unbind_finish esc n q g)) = asked (hg_effects g)" "hg_task (unbind_finish esc n q g) = HtIdle"
  by (auto simp: unpair_finish_def pair_finish_def unbind_finish_def failed_toast_def Let_def
      split: option.split result.split)

lemma dialog_effects:
  "asked (hg_effects (hosts_dialog esc n d e g)) = asked (hg_effects g)"
  "hg_task (hosts_dialog esc n d e g) \<noteq> HtConfirm a"
  by (auto simp: hosts_dialog_def Let_def finish_effects split: gate_phase.split)

lemma answer_effects:
  "asked (hg_effects (hosts_answer esc r stored g)) = asked (hg_effects g)"
  "hg_task (hosts_answer esc r stored g) = HtConfirm a \<Longrightarrow> hg_task g = HtConfirm a"
  by (auto simp: hosts_answer_def finish_effects dialog_effects split: host_task.splits)

lemma progress_effects:
  "hg_effects (hosts_progress r g) = hg_effects g"
  "hg_task (hosts_progress r g) = HtConfirm a \<Longrightarrow> hg_task g = HtConfirm a"
  by (auto simp: hosts_progress_def split: host_task.splits option.splits result.splits if_splits)

lemma poll_effects:
  "hg_effects (hosts_apply up p s g) = hg_effects g" "hg_task (hosts_apply up p s g) = hg_task g"
  "hg_effects (hosts_daemon_down g) = hg_effects g" "hg_task (hosts_daemon_down g) = hg_task g"
  by (simp_all add: hosts_apply_def hosts_daemon_down_def Let_def)

lemma click_effects:
  "filter (starts_with ''SLOT:CLEAR'') (asked (hg_effects (hosts_click act g))) =
     filter (starts_with ''SLOT:CLEAR'') (asked (hg_effects g))"
  "HostAsked (clear_other_request n) \<in> set (hg_effects (hosts_click act g)) \<Longrightarrow>
     HostAsked (clear_other_request n) \<in> set (hg_effects g)"
  "hg_task (hosts_click act g) = HtConfirm (GUnbind n) \<Longrightarrow>
     hg_task g = HtConfirm (GUnbind n) \<or> act = Some (GUnbind n) \<and> \<not> hg_busy g"
  by (auto simp: hosts_click_def hosts_run_def clear_other_request_def modal_open_def split: option.splits if_splits)

lemma asked_mem: "HostAsked r \<in> set es \<longleftrightarrow> r \<in> set (asked es)"
  by (induction es rule: asked.induct) auto

lemma clear_requests_differ: "clear_other_request n \<noteq> ''SLOT:CLEAR''" "clear_other_request n = clear_other_request m \<longleftrightarrow> n = m"
  by (auto simp: clear_other_request_def) (metis parse_u8_show result.inject(1))

lemma confirmed_effects:
  "asked (hg_effects (hosts_confirmed a g)) = asked (hg_effects g) @
     (case a of GUnpair \<Rightarrow> [''SLOT:CLEAR''] | GUnbind n \<Rightarrow> [clear_other_request n] | GPair \<Rightarrow> [])"
  "hg_task (hosts_confirmed a g) \<noteq> HtConfirm b"
  by (simp_all add: hosts_confirmed_def split: gui_host_action.split)

text \<open>The requests of a step.\<close>

definition new_requests :: "host_event \<Rightarrow> hosts_group \<Rightarrow> string list \<Rightarrow> bool" where
  "new_requests e g new \<longleftrightarrow> new = [] \<or> new = [''PAIR:START''] \<or>
     (e = HeConfirm True \<and> (\<exists>a. hg_task g = HtConfirm a \<and>
        (a = GUnpair \<and> new = [''SLOT:CLEAR''] \<or> (\<exists>n. a = GUnbind n \<and> new = [clear_other_request n]))))"

lemma new_requests_none [simp]: "new_requests e g []"
  by (simp add: new_requests_def)

lemma click_asks: "\<exists>new. asked (hg_effects (hosts_click act g)) = asked (hg_effects g) @ new \<and> new_requests e g new"
  by (auto simp: hosts_click_def hosts_run_def new_requests_def split: option.split)

lemma confirm_asks:
  "\<exists>new. asked (hg_effects (hosts_step esc (HeConfirm yes) g)) = asked (hg_effects g) @ new \<and>
     new_requests (HeConfirm yes) g new"
  by (cases "hg_task g") (auto simp: confirmed_effects new_requests_def split: gui_host_action.split)

lemma dialog_step_effects:
  "asked (hg_effects (hosts_step esc (HeDialog ge) g)) = asked (hg_effects g)"
  "hg_task (hosts_step esc (HeDialog ge) g) = HtConfirm a \<Longrightarrow> hg_task g = HtConfirm a"
  by (cases "hg_task g"; cases ge; simp add: dialog_effects)+

lemma step_asks: "\<exists>new. asked (hg_effects (hosts_step esc e g)) = asked (hg_effects g) @ new \<and> new_requests e g new"
proof (cases e)
  case (HeConfirm yes)
  then show ?thesis using confirm_asks [of esc yes g] by simp
next
  case (HeDialog ge)
  then show ?thesis using dialog_step_effects(1) [of esc ge g] by (auto simp: new_requests_def)
qed (use click_asks in \<open>auto simp: poll_effects answer_effects progress_effects\<close>)

lemma clear_starts:
  "\<not> starts_with ''SLOT:CLEAR'' ''PAIR:START''" "starts_with ''SLOT:CLEAR'' ''SLOT:CLEAR''"
  "starts_with ''SLOT:CLEAR'' (clear_other_request n)"
  by (simp_all add: clear_other_request_def)

text \<open>Every clearing request costs one confirmed question.\<close>

lemma clears_step: "clears (hosts_step esc e g) \<le> clears g + (if e = HeConfirm True then 1 else 0)"
proof -
  obtain new where "asked (hg_effects (hosts_step esc e g)) = asked (hg_effects g) @ new" "new_requests e g new"
    using step_asks by blast
  then show ?thesis unfolding new_requests_def clears_def by (elim disjE) (auto simp: clear_starts)
qed

lemma hosts_run_snoc: "hosts_run_events esc (es @ [e]) st = hosts_step esc e (hosts_run_events esc es st)"
  by (simp add: hosts_run_events_def)

lemma clears_confirmed: "clears (hosts_run_events esc es st) \<le> confirms es"
proof (induction es rule: rev_induct)
  case Nil
  then show ?case by (simp add: hosts_run_events_def hosts_new_def clears_def)
next
  case (snoc e es)
  then show ?case
    using clears_step [of esc e "hosts_run_events esc es st"] by (simp add: hosts_run_snoc confirms_def split: if_splits)
qed

lemma drawn_run: "drawn (hosts_run_events esc es st)"
proof (induction es rule: rev_induct)
  case Nil
  then show ?case by (simp add: hosts_run_events_def hosts_new_def drawn_def)
next
  case (snoc e es)
  then show ?case by (simp add: hosts_run_snoc drawn_step)
qed

text \<open>A click on \<open>Unbind\<close> names a slot that is proven foreign at that moment.\<close>

lemma click_foreign:
  assumes "drawn g" "\<not> hg_busy g" "Option.bind (get_at (hg_cards g) i) hc_pending = Some (GUnbind n)" "hg_cards_shown g"
  shows "proven_foreign g n"
proof -
  obtain c where c: "get_at (hg_cards g) i = Some c" "hc_pending c = Some (GUnbind n)"
    using assms(3) by (cases "get_at (hg_cards g) i") auto
  then have "c \<in> set (hg_cards g)" by (auto simp: get_at_def split: if_splits)
  then show ?thesis using assms c(2) by (auto simp: drawn_def)
qed

lemma step_confirm:
  assumes "hg_task (hosts_step esc e g) = HtConfirm (GUnbind n)" "drawn g"
  shows "hg_task g = HtConfirm (GUnbind n) \<or> proven_foreign g n"
proof (cases e)
  case (HeCard i)
  then show ?thesis
    using assms(1) click_foreign [OF assms(2), of i] click_effects(3) by (auto split: if_splits)
next
  case HeButton
  then show ?thesis
    using assms click_effects(3) by (auto simp: drawn_def split: if_splits)
next
  case (HeConfirm yes)
  then show ?thesis using assms(1) by (cases "hg_task g") (auto simp: confirmed_effects split: if_splits)
next
  case (HeDialog ge)
  then show ?thesis using assms(1) dialog_step_effects(2) by blast
qed (use assms(1) in \<open>auto simp: poll_effects dest: answer_effects(2) progress_effects(2)\<close>)

lemma unbinds_foreign_step:
  assumes "unbinds_foreign past g" "drawn g" "g \<in> past"
  shows "unbinds_foreign past (hosts_step esc e g)"
proof -
  obtain new where new: "asked (hg_effects (hosts_step esc e g)) = asked (hg_effects g) @ new" "new_requests e g new"
    using step_asks by blast
  have "foreign_in past n" if "HostAsked (clear_other_request n) \<in> set (hg_effects (hosts_step esc e g))" for n
  proof (cases "HostAsked (clear_other_request n) \<in> set (hg_effects g)")
    case True
    then show ?thesis using assms(1) by (simp add: unbinds_foreign_def)
  next
    case False
    then have "clear_other_request n \<in> set new" using that new(1) by (simp add: asked_mem)
    then have "hg_task g = HtConfirm (GUnbind n)"
      using new(2) clear_requests_differ clear_starts(1) clear_starts(3) [of n]
      unfolding new_requests_def by (elim disjE) (auto simp: clear_requests_differ(2) dest: sym)
    then show ?thesis using assms(1) by (simp add: unbinds_foreign_def)
  qed
  moreover have "foreign_in past n" if "hg_task (hosts_step esc e g) = HtConfirm (GUnbind n)" for n
    using step_confirm [OF that assms(2)] assms(1,3) by (auto simp: unbinds_foreign_def foreign_in_def)
  ultimately show ?thesis by (simp add: unbinds_foreign_def)
qed

definition hosts_past :: "(string \<Rightarrow> string) \<Rightarrow> host_event list \<Rightarrow> gui_settings \<Rightarrow> hosts_group set" where
  "hosts_past esc es st = {g. \<exists>fs gs. es = fs @ gs \<and> g = hosts_run_events esc fs st}"

lemma unbinds_foreign_mono: "unbinds_foreign A g \<Longrightarrow> A \<subseteq> B \<Longrightarrow> unbinds_foreign B g"
  unfolding unbinds_foreign_def foreign_in_def by blast

lemma unbinds_foreign_run: "unbinds_foreign (hosts_past esc es st) (hosts_run_events esc es st)"
proof (induction es rule: rev_induct)
  case Nil
  then show ?case by (simp add: hosts_run_events_def hosts_new_def unbinds_foreign_def)
next
  case (snoc e es)
  have past: "hosts_past esc es st \<subseteq> hosts_past esc (es @ [e]) st"
  proof
    fix g
    assume "g \<in> hosts_past esc es st"
    then obtain fs gs where "es = fs @ gs" "g = hosts_run_events esc fs st" by (auto simp: hosts_past_def)
    then have "es @ [e] = fs @ (gs @ [e]) \<and> g = hosts_run_events esc fs st" by simp
    then show "g \<in> hosts_past esc (es @ [e]) st" unfolding hosts_past_def by blast
  qed
  have here: "hosts_run_events esc es st \<in> hosts_past esc (es @ [e]) st" unfolding hosts_past_def by blast
  show ?case
    unfolding hosts_run_snoc
    by (rule unbinds_foreign_step [OF unbinds_foreign_mono [OF snoc.IH past] drawn_run here])
qed

text \<open>
  Fact: Over all polls, clicks, answers and dialogs, the device page of the GUI sends a request that
  clears a host slot only after a question of its own was confirmed, and \<open>SLOT:CLEAR:n\<close> only for a slot
  that was, at some moment before, the occupied slot of another host by the word of a daemon that had
  proved its own slot.
\<close>

theorem gui_clears_only_confirmed:
  "clears (hosts_run_events esc es st) \<le> confirms es \<and>
   (\<forall>n. HostAsked (clear_other_request n) \<in> set (hg_effects (hosts_run_events esc es st)) \<longrightarrow>
      (\<exists>fs gs. es = fs @ gs \<and> proven_foreign (hosts_run_events esc fs st) n))"
proof (intro conjI allI impI)
  show "clears (hosts_run_events esc es st) \<le> confirms es" by (rule clears_confirmed)
  fix n
  assume "HostAsked (clear_other_request n) \<in> set (hg_effects (hosts_run_events esc es st))"
  then have "foreign_in (hosts_past esc es st) n"
    using unbinds_foreign_run [of esc es st] by (simp only: unbinds_foreign_def)
  then show "\<exists>fs gs. es = fs @ gs \<and> proven_foreign (hosts_run_events esc fs st) n"
    by (auto simp: foreign_in_def hosts_past_def)
qed

definition two_hosts :: host_slots where
  "two_hosts = \<lparr> hs_supported = True, slot1 = True, slot2 = True, hs_active = 1, hs_mine = Some 1 \<rparr>"

definition unbind_events :: "host_event list" where
  "unbind_events = [HeApply True True (Some two_hosts), HeCard 1, HeConfirm True]"

lemma unbind_events_run:
  "hg_effects (hosts_run_events esc unbind_events st) = [HostAsked ''SLOT:CLEAR:2'']"
  "hg_task (hosts_run_events esc unbind_events st) = HtUnbinding 2 (gate_open unbind_hint)"
  by (simp_all add: hosts_run_events_def unbind_events_def hosts_new_def hosts_apply_def render_def two_hosts_def
      render_card_def card_show_def show_unbind_def slot_bound_def hosts_click_def modal_open_def hosts_run_def
      hosts_confirmed_def hosts_set_busy_def host_effect_def clear_other_request_def Let_def
      show_nat.simps digit_char_def char_of_def bit_Suc_0_iff get_at_def card_build_def)

theorem gui_clears_only_confirmed_witness:
  "\<exists>fs gs. unbind_events = fs @ gs \<and> proven_foreign (hosts_run_events (\<lambda>s. s) fs default_gui_settings) 2"
proof -
  have "clear_other_request 2 = ''SLOT:CLEAR:2''"
    by (simp add: clear_other_request_def show_nat.simps digit_char_def char_of_def bit_Suc_0_iff)
  then have "HostAsked (clear_other_request 2) \<in> set (hg_effects (hosts_run_events (\<lambda>s. s) unbind_events default_gui_settings))"
    by (simp add: unbind_events_run)
  then show ?thesis
    using gui_clears_only_confirmed [of "\<lambda>s. s" unbind_events default_gui_settings] by blast
qed

text \<open>
  Fact: Only a slot that the daemon has proved to be its own carries the badge of this computer, and the
  page never offers to unbind the slot on which it shows that badge.
\<close>

theorem badge_only_on_proven_slot:
  assumes "hg_cards_shown (render g)" "length (hg_cards g) = 2" "i < 2"
    "hc_badge (hg_cards (render g) ! i)"
  shows "(\<exists>h. hg_slots g = Some h \<and> hs_mine h = Some (of_nat (i + 1))) \<and>
    (\<forall>n. hc_pending (hg_cards (render g) ! i) \<noteq> Some (GUnbind n))"
  using assms(2,1)
proof (rule render_cards)
  fix h
  assume h: "hg_slots g = Some h" "hg_cards (render g) =
      [render_card (hg_paired g) h 1 (hg_cards g ! 0), render_card (hg_paired g) h 2 (hg_cards g ! 1)]"
  have badge: "hc_badge (render_card p h n c) \<longleftrightarrow> hs_mine h = Some n" for p n c
    by (simp add: render_card_def card_show_def show_unbind_def show_foreign_def Let_def)
  have i: "i = 0 \<or> i = 1" using assms(3) by auto
  then have "hs_mine h = Some (of_nat (i + 1))" using assms(4) h(2) badge by auto
  moreover have "hc_pending (hg_cards (render g) ! i) \<noteq> Some (GUnbind n)" for n
    using i h(2) calculation by (auto simp: card_unbind)
  ultimately show ?thesis using h(1) by blast
qed

theorem badge_only_on_proven_slot_witness:
  "let g = (hosts_new default_gui_settings)\<lparr> hg_paired := True, hg_connected := True, hg_slots := Some two_hosts \<rparr> in
     (\<exists>h. hg_slots g = Some h \<and> hs_mine h = Some 1) \<and> (\<forall>n. hc_pending (hg_cards (render g) ! 0) \<noteq> Some (GUnbind n))"
proof -
  let ?g = "(hosts_new default_gui_settings)\<lparr> hg_paired := True, hg_connected := True, hg_slots := Some two_hosts \<rparr>"
  have "hg_cards_shown (render ?g)" "hc_badge (hg_cards (render ?g) ! 0)" "length (hg_cards ?g) = 2"
    by (simp_all add: render_def hosts_new_def two_hosts_def render_card_def card_show_def show_unbind_def slot_bound_def Let_def)
  then show ?thesis using badge_only_on_proven_slot [of ?g 0] by (simp add: Let_def)
qed

text \<open>
  Fact: the page takes any answer that begins with \<open>OK\<close> for the removal of the other host. When the device
  has switched slots since the poll, the daemon clears its own pairing instead, and the user reads that
  the other host was unbound.
\<close>

theorem own_loss_shown_as_unbound:
  assumes "is_connected (fst s)" "clear_path_of L (Some n) s = (Ok Own, s1)"
    "handle_slot_clear L (Some n) s = (ROk t, s2)" "hg_task g = HtUnbinding n (gate_open hint)"
    "graphic (last (''OK:'' @ t))"
  shows "pairing (fst s2) = None \<and>
    HostToast (''Host '' @ show_word n @ '' unbound'') \<in>
      set (hg_effects (fold (hosts_step esc) [HeAnswer (Some (shown_line (ROk t))) True, HeDialog GHoldOver] g))"
proof
  have "clear_own_slot L (Some n) s1 = (ROk t, s2)"
    using assms(1-3) by (simp add: handle_slot_clear_def)
  then show "pairing (fst s2) = None"
    by (auto simp: clear_own_slot_def on_coord_def clear_local_pairing_def split: prod.splits result.splits slot_clear_ack.splits)
  have "trim (''OK:'' @ t) = ''OK:'' @ t"
    using assms(5) by (intro trim_graphic) (simp_all add: graphic_def)
  then show "HostToast (''Host '' @ show_word n @ '' unbound'') \<in>
      set (hg_effects (fold (hosts_step esc) [HeAnswer (Some (shown_line (ROk t))) True, HeDialog GHoldOver] g))"
    using assms(4)
    by (simp add: hosts_answer_def hosts_dialog_def gate_open_def gate_answer_def gate_hold_over_def gate_window_close_def
        shown_line_def serialize_response_def ok_if_ok_def unbind_finish_def Let_def)
qed

text \<open>A device that presents slot 2 by now, and acknowledges what it is sent.\<close>

definition switched_link :: "unit link" where
  "switched_link cmd s = (case cmd of
     SendCommand c p \<Rightarrow> (Replied (BleReply (Ok (c, if c = CMD_SLOT_STATUS then [0, 3, 2] else [0]))), s)
   | _ \<Rightarrow> (ChannelClosed, s))"

definition switched_page :: hosts_group where
  "switched_page = (hosts_new default_gui_settings)\<lparr> hg_task := HtUnbinding 2 (gate_open unbind_hint) \<rparr>"

theorem own_loss_shown_as_unbound_witness:
  "pairing (fst (snd (handle_slot_clear switched_link (Some 2) (coordinator_new\<lparr> is_connected := True \<rparr>, ())))) = None \<and>
   HostToast (''Host '' @ show_word (2 :: byte) @ '' unbound'') \<in> set (hg_effects (fold (hosts_step (\<lambda>s. s))
     [HeAnswer (Some (shown_line (fst (handle_slot_clear switched_link (Some 2) (coordinator_new\<lparr> is_connected := True \<rparr>, ()))))) True,
      HeDialog GHoldOver] switched_page))"
proof -
  let ?s = "(coordinator_new\<lparr> is_connected := True \<rparr>, ())"
  have path: "clear_path_of switched_link (Some 2) ?s = (Ok Own, ?s)"
    by (simp add: clear_path_of_def query_slot_status_def ble_send_def switched_link_def delivered_def pick_ble_def
        parse_slot_status_def resolve_clear_path_def)
  obtain s2 where clr: "handle_slot_clear switched_link (Some 2) ?s = (ROk ''CLEARED'', s2)"
    using path by (simp add: handle_slot_clear_def clear_own_slot_def ble_send_def switched_link_def delivered_def
        pick_ble_def classify_slot_clear_ack_def)
  have task: "hg_task switched_page = HtUnbinding 2 (gate_open unbind_hint)"
    by (simp add: switched_page_def)
  show ?thesis
    using own_loss_shown_as_unbound [OF _ path clr task, of "\<lambda>s. s"] clr
    by (simp add: graphic_def)
qed

end
