(* ===== verification/Gui_Fingers.thy ===== *)
theory Gui_Fingers
  imports Gui_Gate
begin

text \<open>
  The fingerprints page of the GUI (\<open>pages/fingerprints.rs\<close>): the cards of the enrolled fingers with
  their local names, the buttons, the loading of the list, the poll of the connection, and the three
  actions with their questions and dialogs. Dialogs are modal; widgets, hover and focus are left out.
\<close>

datatype finger_stack = FLoading | FDisconnected | FContent

datatype finger_task =
    FtIdle
  | FtConfirmAdd byte
  | FtEnrolling byte enroll_dialog
  | FtConfirmDelete byte string
  | FtDeleting byte "unit gate_dialog"
  | FtTesting "bool gate_dialog"

datatype finger_effect = FingerAsked string | FingerToast string

record fingers_page =
  fg_stack :: finger_stack
  fg_cards :: "(byte \<times> string) list"
  fg_populated :: bool
  fg_switch_shown :: bool
  fg_switch_on :: bool
  fg_test_on :: bool
  fg_refresh_on :: bool
  fg_add_on :: bool
  fg_slots :: fp_slots
  fg_hosts :: bool
  fg_connected :: bool
  fg_busy :: bool
  fg_loading :: bool
  fg_have_data :: bool
  fg_task :: finger_task
  fg_polls :: nat
  fg_names :: gui_settings
  fg_effects :: "finger_effect list"

definition fingers_new :: "gui_settings \<Rightarrow> fingers_page" where
  "fingers_new st = \<lparr> fg_stack = FLoading, fg_cards = [], fg_populated = False, fg_switch_shown = False, fg_switch_on = True,
     fg_test_on = True, fg_refresh_on = True, fg_add_on = True, fg_slots = 0, fg_hosts = False, fg_connected = False,
     fg_busy = False, fg_loading = False, fg_have_data = False, fg_task = FtIdle, fg_polls = 0, fg_names = st, fg_effects = [] \<rparr>"

definition finger_effect :: "finger_effect \<Rightarrow> fingers_page \<Rightarrow> fingers_page" where
  "finger_effect e p = p\<lparr> fg_effects := fg_effects p @ [e] \<rparr>"

definition update_buttons :: "fingers_page \<Rightarrow> fingers_page" where
  "update_buttons p = (let free = (fg_connected p \<and> \<not> fg_busy p \<and> \<not> fg_loading p) in
     p\<lparr> fg_switch_shown := (fg_hosts p \<and> \<not> switch_enrolled (fg_slots p)), fg_switch_on := free,
        fg_test_on := (free \<and> any_finger (fg_slots p)), fg_refresh_on := (\<not> fg_busy p \<and> \<not> fg_loading p),
        fg_add_on := (if fg_populated p then free \<and> first_free_auth_slot (fg_slots p) \<noteq> None else fg_add_on p) \<rparr>)"

definition fingers_set_busy :: "bool \<Rightarrow> fingers_page \<Rightarrow> fingers_page" where
  "fingers_set_busy b p = update_buttons (p\<lparr> fg_busy := b \<rparr>)"

section \<open>The list\<close>

text \<open>A load that is asked for while one runs is dropped.\<close>

definition fingers_load :: "fingers_page \<Rightarrow> fingers_page" where
  "fingers_load p =
     (if fg_loading p then p
      else update_buttons ((if fg_have_data p then p else p\<lparr> fg_stack := FLoading \<rparr>)\<lparr> fg_loading := True \<rparr>))"

definition finger_cards :: "gui_settings \<Rightarrow> fp_slots \<Rightarrow> (byte \<times> string) list" where
  "finger_cards st b = map (\<lambda>s. (s, fingerprint_name st s)) (auth_slots b) @
     (if switch_enrolled b then [(SWITCH_SLOT, ''Switch Host'')] else [])"

definition populate :: "fingers_page \<Rightarrow> fingers_page" where
  "populate p = update_buttons (p\<lparr> fg_cards := finger_cards (fg_names p) (fg_slots p), fg_populated := True \<rparr>)"

definition fingers_loaded ::
    "(string \<Rightarrow> string) \<Rightarrow> ((fp_slots, string) result \<times> bool) option \<Rightarrow> fingers_page \<Rightarrow> fingers_page" where
  "fingers_loaded esc r p0 =
     (if \<not> fg_loading p0 then p0
      else let p = p0\<lparr> fg_loading := False \<rparr> in
       update_buttons (case r of
         Some (Ok slots, hosts) \<Rightarrow>
           (populate (p\<lparr> fg_connected := True, fg_have_data := True, fg_slots := slots, fg_hosts := hosts \<rparr>))\<lparr> fg_stack := FContent \<rparr>
       | Some (Err e, _) \<Rightarrow>
           (let p1 = p\<lparr> fg_connected := False, fg_have_data := False \<rparr> in
            (if contains_str ''NOT_CONNECTED'' e then p1
             else finger_effect (FingerToast (''Daemon unavailable: '' @ esc e)) p1)\<lparr> fg_stack := FDisconnected \<rparr>)
       | None \<Rightarrow> p))"

text \<open>
  The poll asks for the status only while the page is visible and free; its answer may come when that
  is no longer so.
\<close>

definition fingers_tick :: "bool \<Rightarrow> fingers_page \<Rightarrow> fingers_page" where
  "fingers_tick visible p =
     (if visible \<and> \<not> fg_busy p \<and> \<not> fg_loading p then p\<lparr> fg_polls := Suc (fg_polls p) \<rparr> else p)"

definition fingers_polled :: "(client_device_status, string) result option \<Rightarrow> fingers_page \<Rightarrow> fingers_page" where
  "fingers_polled r p0 =
     (if fg_polls p0 = 0 then p0
      else let p = p0\<lparr> fg_polls := fg_polls p0 - 1 \<rparr> in case r of
        Some (Ok st) \<Rightarrow> if cds_connected st \<noteq> fg_connected p then fingers_load p else p
      | Some (Err _) \<Rightarrow> if fg_connected p then fingers_load p else p
      | None \<Rightarrow> p)"

section \<open>The actions\<close>

text \<open>
  Renaming a finger: the card shows the new name even if it could not be stored.
\<close>

definition finger_rename :: "(string \<Rightarrow> string) \<Rightarrow> byte \<Rightarrow> string \<Rightarrow> (unit, string) result \<Rightarrow> fingers_page \<Rightarrow> fingers_page" where
  "finger_rename esc slot text stored p =
     (let st = set_fingerprint_name slot text (fg_names p);
          p1 = (case stored of
             Ok _ \<Rightarrow> p\<lparr> fg_names := st \<rparr>
           | Err e \<Rightarrow> finger_effect (FingerToast (''Could not save the name: '' @ esc e)) p)
      in p1\<lparr> fg_cards := map (\<lambda>(s, nm). if s = slot then (s, fingerprint_name st slot) else (s, nm)) (fg_cards p1) \<rparr>)"

definition start_enroll :: "byte \<Rightarrow> fingers_page \<Rightarrow> fingers_page" where
  "start_enroll slot p = finger_effect (FingerAsked (''FP:ENROLL:'' @ show_word slot))
     ((fingers_set_busy True p)\<lparr> fg_task := FtEnrolling slot enroll_open \<rparr>)"

definition finger_add :: "byte \<Rightarrow> fingers_page \<Rightarrow> fingers_page" where
  "finger_add slot p =
     (if fg_busy p then p
      else if any_finger (fg_slots p) then p\<lparr> fg_task := FtConfirmAdd slot \<rparr> else start_enroll slot p)"

definition finger_added :: "enroll_outcome \<Rightarrow> fingers_page \<Rightarrow> fingers_page" where
  "finger_added r p = (let p1 = (fingers_set_busy False p)\<lparr> fg_task := FtIdle \<rparr> in case r of
     Enrolled \<Rightarrow> fingers_load (finger_effect (FingerToast ''Fingerprint enrolled successfully!'') p1)
   | EnrollFailed \<Rightarrow> fingers_load p1
   | EnrollCancelled \<Rightarrow> p1)"

definition finger_delete :: "byte \<Rightarrow> string \<Rightarrow> fingers_page \<Rightarrow> fingers_page" where
  "finger_delete slot nm p = (if fg_busy p then p else p\<lparr> fg_task := FtConfirmDelete slot nm \<rparr>)"

definition verify_hint :: string where "verify_hint = ''Verify with an enrolled finger''"

definition start_delete :: "byte \<Rightarrow> fingers_page \<Rightarrow> fingers_page" where
  "start_delete slot p = finger_effect (FingerAsked (''FP:DELETE:'' @ show_word slot))
     ((fingers_set_busy True p)\<lparr> fg_task := FtDeleting slot (gate_open verify_hint) \<rparr>)"

definition finger_deleted ::
    "(string \<Rightarrow> string) \<Rightarrow> byte \<Rightarrow> (unit, string) result option \<Rightarrow> bool \<Rightarrow> fingers_page \<Rightarrow> fingers_page" where
  "finger_deleted esc slot r stored p = (let p1 = (fingers_set_busy False p)\<lparr> fg_task := FtIdle \<rparr> in case r of
     Some (Ok _) \<Rightarrow> (let p2 = finger_effect (FingerToast ''Deleted'') p1 in
       fingers_load (if stored then p2\<lparr> fg_names := set_fingerprint_name slot [] (fg_names p2) \<rparr> else p2))
   | Some (Err e) \<Rightarrow> finger_effect (FingerToast (esc (friendly e))) p1
   | None \<Rightarrow> p1)"

definition finger_test :: "fingers_page \<Rightarrow> fingers_page" where
  "finger_test p = (if fg_busy p then p
     else finger_effect (FingerAsked ''FP:VERIFY'')
       ((fingers_set_busy True p)\<lparr> fg_task := FtTesting (gate_open ''Touch the sensor with an enrolled finger'') \<rparr>))"

definition finger_tested :: "(string \<Rightarrow> string) \<Rightarrow> (bool, string) result option \<Rightarrow> fingers_page \<Rightarrow> fingers_page" where
  "finger_tested esc r p = (let p1 = (fingers_set_busy False p)\<lparr> fg_task := FtIdle \<rparr> in case r of
     Some (Ok True) \<Rightarrow> finger_effect (FingerToast ''Fingerprint matched'') p1
   | Some (Ok False) \<Rightarrow> finger_effect (FingerToast ''No match'') p1
   | Some (Err e) \<Rightarrow> finger_effect (FingerToast (esc (friendly e))) p1
   | None \<Rightarrow> p1)"

section \<open>Events\<close>

text \<open>
  \<open>FeDialog\<close> and \<open>FeEnroll\<close> are the events of the two dialogs; \<open>FeAnswer\<close> is the daemon's line for the
  request of a touch dialog. A settings file that cannot be stored after a deletion is ignored.
\<close>

datatype finger_event =
    FeLoaded "((fp_slots, string) result \<times> bool) option"
  | FeTick bool
  | FePolled "(client_device_status, string) result option"
  | FeAddSwitch
  | FeAdd
  | FeTest
  | FeRefresh
  | FeTrash nat
  | FeRename nat string "(unit, string) result"
  | FeConfirm bool
  | FeDialog "unit gate_event" bool
  | FeAnswer "(string, string) result option" bool
  | FeEnroll enroll_dialog_event

definition delete_dialog ::
    "(string \<Rightarrow> string) \<Rightarrow> byte \<Rightarrow> unit gate_event \<Rightarrow> bool \<Rightarrow> unit gate_dialog \<Rightarrow> fingers_page \<Rightarrow> fingers_page" where
  "delete_dialog esc slot e stored d p = (let d1 = gate_step e d in case gd_phase d1 of
     GDone r \<Rightarrow> finger_deleted esc slot r stored p | _ \<Rightarrow> p\<lparr> fg_task := FtDeleting slot d1 \<rparr>)"

definition test_dialog :: "(string \<Rightarrow> string) \<Rightarrow> bool gate_event \<Rightarrow> bool gate_dialog \<Rightarrow> fingers_page \<Rightarrow> fingers_page" where
  "test_dialog esc e d p = (let d1 = gate_step e d in case gd_phase d1 of
     GDone r \<Rightarrow> finger_tested esc r p | _ \<Rightarrow> p\<lparr> fg_task := FtTesting d1 \<rparr>)"

definition user_event :: "unit gate_event \<Rightarrow> 'a gate_event option" where
  "user_event e = (case e of GCancel \<Rightarrow> Some GCancel | GClose \<Rightarrow> Some GClose | GHoldOver \<Rightarrow> Some GHoldOver | GWork _ \<Rightarrow> None)"

definition finger_dialog :: "(string \<Rightarrow> string) \<Rightarrow> unit gate_event \<Rightarrow> bool \<Rightarrow> fingers_page \<Rightarrow> fingers_page" where
  "finger_dialog esc e stored p = (case fg_task p of
     FtDeleting slot d \<Rightarrow> (case user_event e of Some e1 \<Rightarrow> delete_dialog esc slot e1 stored d p | None \<Rightarrow> p)
   | FtTesting d \<Rightarrow> (case user_event e of Some e1 \<Rightarrow> test_dialog esc e1 d p | None \<Rightarrow> p)
   | _ \<Rightarrow> p)"

definition finger_answer :: "(string \<Rightarrow> string) \<Rightarrow> (string, string) result option \<Rightarrow> bool \<Rightarrow> fingers_page \<Rightarrow> fingers_page" where
  "finger_answer esc r stored p = (case fg_task p of
     FtDeleting slot d \<Rightarrow> delete_dialog esc slot (GWork (map_option fp_delete r)) stored d p
   | FtTesting d \<Rightarrow> test_dialog esc (GWork (map_option fp_verify r)) d p
   | _ \<Rightarrow> p)"

definition finger_enroll :: "enroll_dialog_event \<Rightarrow> fingers_page \<Rightarrow> fingers_page" where
  "finger_enroll e p = (case fg_task p of
     FtEnrolling slot d \<Rightarrow> (let d1 = enroll_dialog_step e d in
       if ed_phase d1 = EdOver then finger_added (ed_outcome d1) p else p\<lparr> fg_task := FtEnrolling slot d1 \<rparr>)
   | _ \<Rightarrow> p)"

definition fingers_modal :: "fingers_page \<Rightarrow> bool" where
  "fingers_modal p = (case fg_task p of
     FtIdle \<Rightarrow> False | FtDeleting _ d \<Rightarrow> gd_open d | FtTesting d \<Rightarrow> gd_open d | FtEnrolling _ d \<Rightarrow> ed_open d | _ \<Rightarrow> True)"

definition fingers_click :: "bool \<Rightarrow> (fingers_page \<Rightarrow> fingers_page) \<Rightarrow> fingers_page \<Rightarrow> fingers_page" where
  "fingers_click usable act p = (if fg_stack p = FContent \<and> usable \<and> \<not> fingers_modal p then act p else p)"

fun fingers_step :: "(string \<Rightarrow> string) \<Rightarrow> finger_event \<Rightarrow> fingers_page \<Rightarrow> fingers_page" where
  "fingers_step esc (FeLoaded r) p = fingers_loaded esc r p"
| "fingers_step esc (FeTick visible) p = fingers_tick visible p"
| "fingers_step esc (FePolled r) p = fingers_polled r p"
| "fingers_step esc FeAddSwitch p = fingers_click (fg_switch_shown p \<and> fg_switch_on p) (finger_add SWITCH_SLOT) p"
| "fingers_step esc FeAdd p = fingers_click (fg_populated p \<and> fg_add_on p)
     (case first_free_auth_slot (fg_slots p) of Some slot \<Rightarrow> finger_add slot | None \<Rightarrow> id) p"
| "fingers_step esc FeTest p = fingers_click (fg_test_on p) finger_test p"
| "fingers_step esc FeRefresh p = fingers_click (fg_refresh_on p) fingers_load p"
| "fingers_step esc (FeTrash i) p = (case get_at (fg_cards p) i of
     Some (slot, nm) \<Rightarrow> fingers_click True (finger_delete slot nm) p | None \<Rightarrow> p)"
| "fingers_step esc (FeRename i text stored) p = (case get_at (fg_cards p) i of
     Some (slot, nm) \<Rightarrow> fingers_click (slot \<noteq> SWITCH_SLOT) (finger_rename esc slot text stored) p | None \<Rightarrow> p)"
| "fingers_step esc (FeConfirm yes) p = (case fg_task p of
     FtConfirmAdd slot \<Rightarrow> if yes then start_enroll slot p else p\<lparr> fg_task := FtIdle \<rparr>
   | FtConfirmDelete slot nm \<Rightarrow> if yes then start_delete slot p else p\<lparr> fg_task := FtIdle \<rparr>
   | _ \<Rightarrow> p)"
| "fingers_step esc (FeDialog e stored) p = finger_dialog esc e stored p"
| "fingers_step esc (FeAnswer r stored) p = finger_answer esc r stored p"
| "fingers_step esc (FeEnroll e) p = finger_enroll e p"

text \<open>The page loads the list when it is started.\<close>

definition fingers_run :: "(string \<Rightarrow> string) \<Rightarrow> finger_event list \<Rightarrow> gui_settings \<Rightarrow> fingers_page" where
  "fingers_run esc es st = fold (fingers_step esc) es (fingers_load (fingers_new st))"

section \<open>The state of the page\<close>

definition device_task :: "finger_task \<Rightarrow> bool" where
  "device_task t = (case t of FtEnrolling _ _ \<Rightarrow> True | FtDeleting _ _ \<Rightarrow> True | FtTesting _ \<Rightarrow> True | _ \<Rightarrow> False)"

definition card_slots :: "fp_slots \<Rightarrow> byte list" where
  "card_slots b = auth_slots b @ (if switch_enrolled b then [SWITCH_SLOT] else [])"

definition page_ok :: "fingers_page \<Rightarrow> bool" where
  "page_ok p \<longleftrightarrow> update_buttons p = p \<and> fg_busy p = device_task (fg_task p) \<and>
     (fg_populated p \<longrightarrow> map fst (fg_cards p) = card_slots (fg_slots p)) \<and> (fg_stack p = FContent \<longrightarrow> fg_populated p)"

lemma update_keeps [simp]:
  "fg_stack (update_buttons p) = fg_stack p" "fg_cards (update_buttons p) = fg_cards p"
  "fg_populated (update_buttons p) = fg_populated p" "fg_slots (update_buttons p) = fg_slots p"
  "fg_busy (update_buttons p) = fg_busy p" "fg_loading (update_buttons p) = fg_loading p"
  "fg_task (update_buttons p) = fg_task p" "fg_effects (update_buttons p) = fg_effects p"
  "fg_connected (update_buttons p) = fg_connected p" "fg_have_data (update_buttons p) = fg_have_data p"
  "fg_names (update_buttons p) = fg_names p" "fg_polls (update_buttons p) = fg_polls p"
  by (simp_all add: update_buttons_def Let_def)

lemma update_idem [simp]: "update_buttons (update_buttons p) = update_buttons p"
  by (simp add: update_buttons_def Let_def)

text \<open>The fields that the buttons do not depend on.\<close>

lemma update_commutes:
  "update_buttons (p\<lparr> fg_task := t \<rparr>) = (update_buttons p)\<lparr> fg_task := t \<rparr>"
  "update_buttons (p\<lparr> fg_effects := es \<rparr>) = (update_buttons p)\<lparr> fg_effects := es \<rparr>"
  "update_buttons (p\<lparr> fg_names := ns \<rparr>) = (update_buttons p)\<lparr> fg_names := ns \<rparr>"
  "update_buttons (p\<lparr> fg_cards := cs \<rparr>) = (update_buttons p)\<lparr> fg_cards := cs \<rparr>"
  "update_buttons (p\<lparr> fg_stack := k \<rparr>) = (update_buttons p)\<lparr> fg_stack := k \<rparr>"
  "update_buttons (p\<lparr> fg_polls := n \<rparr>) = (update_buttons p)\<lparr> fg_polls := n \<rparr>"
  "update_buttons (finger_effect e p) = finger_effect e (update_buttons p)"
  by (simp_all add: update_buttons_def finger_effect_def Let_def)

lemma finger_effect_fields [simp]:
  "fg_stack (finger_effect e p) = fg_stack p" "fg_cards (finger_effect e p) = fg_cards p"
  "fg_populated (finger_effect e p) = fg_populated p" "fg_slots (finger_effect e p) = fg_slots p"
  "fg_busy (finger_effect e p) = fg_busy p" "fg_task (finger_effect e p) = fg_task p"
  "fg_effects (finger_effect e p) = fg_effects p @ [e]" "fg_names (finger_effect e p) = fg_names p"
  "fg_loading (finger_effect e p) = fg_loading p" "fg_have_data (finger_effect e p) = fg_have_data p"
  by (simp_all add: finger_effect_def)

lemma page_ok_effect: "page_ok p \<Longrightarrow> page_ok (finger_effect e p)"
  by (simp add: page_ok_def update_commutes)

lemma page_ok_names: "page_ok p \<Longrightarrow> page_ok (p\<lparr> fg_names := ns \<rparr>)"
  by (simp add: page_ok_def update_commutes)

lemma page_ok_polls: "page_ok p \<Longrightarrow> page_ok (p\<lparr> fg_polls := n \<rparr>)"
  by (simp add: page_ok_def update_commutes)

lemma page_ok_task: "page_ok p \<Longrightarrow> device_task t = device_task (fg_task p) \<Longrightarrow> page_ok (p\<lparr> fg_task := t \<rparr>)"
  by (simp add: page_ok_def update_commutes)

lemma page_ok_load: "page_ok p \<Longrightarrow> page_ok (fingers_load p)"
  by (auto simp: page_ok_def fingers_load_def)

lemma page_ok_busy: "page_ok p \<Longrightarrow> b = device_task t \<Longrightarrow> page_ok ((fingers_set_busy b p)\<lparr> fg_task := t \<rparr>)"
  by (auto simp: page_ok_def fingers_set_busy_def update_commutes)

lemma page_ok_free: "page_ok p \<Longrightarrow> page_ok ((fingers_set_busy False p)\<lparr> fg_task := FtIdle \<rparr>)"
  by (rule page_ok_busy) (simp_all add: device_task_def)

lemma cards_of_list: "map fst (finger_cards st b) = card_slots b"
  by (simp add: finger_cards_def card_slots_def comp_def)

lemma page_ok_loaded: "page_ok p \<Longrightarrow> page_ok (fingers_loaded esc r p)"
  by (auto simp: page_ok_def fingers_loaded_def populate_def Let_def cards_of_list split: option.split result.split)

lemma page_ok_polled: "page_ok p \<Longrightarrow> page_ok (fingers_polled r p)"
  using page_ok_load [OF page_ok_polls [of p "fg_polls p - 1"]] page_ok_polls [of p "fg_polls p - 1"]
  by (simp add: fingers_polled_def Let_def split: option.split result.split)

lemma page_ok_rename: "page_ok p \<Longrightarrow> page_ok (finger_rename esc slot text stored p)"
  by (cases stored) (auto simp: page_ok_def finger_rename_def Let_def update_commutes comp_def case_prod_beta
      if_distrib [of fst] cong: if_cong)

lemma page_ok_started:
  "page_ok p \<Longrightarrow> page_ok (start_enroll slot p)" "page_ok p \<Longrightarrow> page_ok (start_delete slot p)"
  by (auto simp: start_enroll_def start_delete_def device_task_def intro!: page_ok_effect page_ok_busy)

lemma page_ok_ended:
  "page_ok p \<Longrightarrow> page_ok (finger_added r p)" "page_ok p \<Longrightarrow> page_ok (finger_deleted esc slot q stored p)"
  "page_ok p \<Longrightarrow> page_ok (finger_tested esc v p)"
  by (auto simp: finger_added_def finger_deleted_def finger_tested_def Let_def
      intro!: page_ok_load page_ok_effect page_ok_names page_ok_free
      split: enroll_outcome.split option.split result.split bool.split)

lemma page_ok_click: "page_ok p \<Longrightarrow> (\<And>q. page_ok q \<Longrightarrow> \<not> fg_busy q \<Longrightarrow> page_ok (act q)) \<Longrightarrow>
    (fg_busy p \<Longrightarrow> page_ok (act p)) \<Longrightarrow> page_ok (fingers_click u act p)"
  by (cases "fg_busy p") (auto simp: fingers_click_def)

lemma page_ok_actions:
  "page_ok p \<Longrightarrow> page_ok (finger_add slot p)" "page_ok p \<Longrightarrow> page_ok (finger_delete slot nm p)"
  "page_ok p \<Longrightarrow> page_ok (finger_test p)"
  by (auto simp: finger_add_def finger_delete_def finger_test_def page_ok_started device_task_def
      intro!: page_ok_task page_ok_effect page_ok_busy)
     (auto simp: page_ok_def device_task_def)

lemma page_ok_dialogs:
  "page_ok p \<Longrightarrow> device_task (fg_task p) \<Longrightarrow> page_ok (delete_dialog esc slot e stored d p)"
  "page_ok p \<Longrightarrow> device_task (fg_task p) \<Longrightarrow> page_ok (test_dialog esc f d' p)"
  "page_ok p \<Longrightarrow> page_ok (finger_enroll g p)"
  by (auto simp: delete_dialog_def test_dialog_def finger_enroll_def Let_def page_ok_ended device_task_def
      intro!: page_ok_task split: gate_phase.split finger_task.splits)

lemma page_ok_step: "page_ok p \<Longrightarrow> page_ok (fingers_step esc e p)"
proof (cases e)
  case (FeConfirm yes)
  then show "page_ok p \<Longrightarrow> ?thesis"
    by (auto simp: page_ok_started device_task_def intro!: page_ok_task split: finger_task.split)
next
  case (FeDialog g stored)
  then show "page_ok p \<Longrightarrow> ?thesis"
    by (auto simp: finger_dialog_def device_task_def intro!: page_ok_dialogs split: finger_task.split option.split)
next
  case (FeAnswer r stored)
  then show "page_ok p \<Longrightarrow> ?thesis"
    by (auto simp: finger_answer_def device_task_def intro!: page_ok_dialogs split: finger_task.split)
qed (auto simp: page_ok_loaded page_ok_polled fingers_tick_def page_ok_polls page_ok_dialogs fingers_click_def
    page_ok_actions page_ok_load page_ok_rename split: option.split)

lemma page_ok_start: "page_ok (fingers_load (fingers_new st))"
  by (simp add: page_ok_def fingers_load_def fingers_new_def device_task_def)

lemma fingers_run_snoc: "fingers_run esc (es @ [e]) st = fingers_step esc e (fingers_run esc es st)"
  by (simp add: fingers_run_def)

lemma page_ok_run: "page_ok (fingers_run esc es st)"
proof (induction es rule: rev_induct)
  case Nil
  then show ?case using page_ok_start by (simp add: fingers_run_def)
next
  case (snoc e es)
  then show ?case by (simp add: fingers_run_snoc page_ok_step)
qed

text \<open>
  Fact: In every state that clicks, polls, answers and dialogs can lead to, the fingerprints page is busy
  exactly while one of its actions waits for the device, its buttons are those of its flags, and the
  cards on it are the fingers of the last list of the daemon.
\<close>

theorem fingers_page_consistent:
  "let p = fingers_run esc es st in
     fg_busy p = device_task (fg_task p) \<and> update_buttons p = p \<and>
     (fg_stack p = FContent \<longrightarrow> map fst (fg_cards p) = card_slots (fg_slots p))"
  using page_ok_run [of esc es st] by (auto simp: page_ok_def Let_def)

section \<open>The requests of the page\<close>

fun fasked :: "finger_effect list \<Rightarrow> string list" where
  "fasked [] = []"
| "fasked (FingerAsked r # es) = r # fasked es"
| "fasked (FingerToast t # es) = fasked es"

lemma fasked_append [simp]: "fasked (es @ fs) = fasked es @ fasked fs"
  by (induction es rule: fasked.induct) simp_all

lemma fasked_mem: "FingerAsked r \<in> set es \<longleftrightarrow> r \<in> set (fasked es)"
  by (induction es rule: fasked.induct) auto

definition delete_request :: "byte \<Rightarrow> string" where "delete_request slot = ''FP:DELETE:'' @ show_word slot"
definition enroll_request :: "byte \<Rightarrow> string" where "enroll_request slot = ''FP:ENROLL:'' @ show_word slot"

lemma requests_differ:
  "delete_request n \<noteq> enroll_request m" "delete_request n \<noteq> ''FP:VERIFY''" "enroll_request n \<noteq> ''FP:VERIFY''"
  "delete_request n = delete_request m \<longleftrightarrow> n = m" "enroll_request n = enroll_request m \<longleftrightarrow> n = m"
  by (auto simp: delete_request_def enroll_request_def) (metis parse_u8_show result.inject(1))+

text \<open>A slot the page offers to fill, and a finger it offers to delete.\<close>

definition offers_slot :: "fingers_page \<Rightarrow> byte \<Rightarrow> bool" where
  "offers_slot p slot \<longleftrightarrow> first_free_auth_slot (fg_slots p) = Some slot \<or>
     slot = SWITCH_SLOT \<and> fg_hosts p \<and> \<not> switch_enrolled (fg_slots p)"

definition shows_finger :: "fingers_page \<Rightarrow> byte \<Rightarrow> bool" where
  "shows_finger p slot \<longleftrightarrow> fg_stack p = FContent \<and> slot \<in> set (card_slots (fg_slots p))"

text \<open>What a step asks of the daemon, and what the question it opens is about.\<close>

definition finger_requests :: "finger_event \<Rightarrow> fingers_page \<Rightarrow> string list \<Rightarrow> bool" where
  "finger_requests e p new \<longleftrightarrow> new = [] \<or> new = [''FP:VERIFY''] \<or>
     (\<exists>slot. new = [enroll_request slot] \<and> (offers_slot p slot \<or> fg_task p = FtConfirmAdd slot)) \<or>
     e = FeConfirm True \<and> (\<exists>slot nm. new = [delete_request slot] \<and> fg_task p = FtConfirmDelete slot nm)"

lemma finger_requests_none [simp]: "finger_requests e p []"
  by (simp add: finger_requests_def)

lemma load_effects [simp]: "fg_effects (fingers_load p) = fg_effects p" "fg_task (fingers_load p) = fg_task p"
  by (simp_all add: fingers_load_def)

lemma fbusy_effects [simp]: "fg_effects (fingers_set_busy b p) = fg_effects p" "fg_task (fingers_set_busy b p) = fg_task p"
  by (simp_all add: fingers_set_busy_def)

lemma loaded_asks [simp]:
  "fasked (fg_effects (fingers_loaded esc r p)) = fasked (fg_effects p)" "fg_task (fingers_loaded esc r p) = fg_task p"
  by (auto simp: fingers_loaded_def populate_def Let_def split: option.split result.split)

lemma polled_asks [simp]: "fg_effects (fingers_polled r p) = fg_effects p" "fg_task (fingers_polled r p) = fg_task p"
  by (auto simp: fingers_polled_def Let_def split: option.split result.split)

lemma rename_asks [simp]:
  "fasked (fg_effects (finger_rename esc slot t r p)) = fasked (fg_effects p)" "fg_task (finger_rename esc slot t r p) = fg_task p"
  by (auto simp: finger_rename_def Let_def split: result.split)

lemma ended_asks [simp]:
  "fasked (fg_effects (finger_added o' p)) = fasked (fg_effects p)" "fg_task (finger_added o' p) = FtIdle"
  "fasked (fg_effects (finger_deleted esc slot r stored p)) = fasked (fg_effects p)"
  "fg_task (finger_deleted esc slot r stored p) = FtIdle"
  "fasked (fg_effects (finger_tested esc v p)) = fasked (fg_effects p)" "fg_task (finger_tested esc v p) = FtIdle"
  by (auto simp: finger_added_def finger_deleted_def finger_tested_def Let_def
      split: enroll_outcome.split option.split result.split bool.split)

lemma dialog_asks [simp]:
  "fasked (fg_effects (delete_dialog esc slot e stored d p)) = fasked (fg_effects p)"
  "fasked (fg_effects (test_dialog esc f d' p)) = fasked (fg_effects p)"
  "fg_task (delete_dialog esc slot e stored d p) \<noteq> FtConfirmAdd s" "fg_task (delete_dialog esc slot e stored d p) \<noteq> FtConfirmDelete s nm"
  "fg_task (test_dialog esc f d' p) \<noteq> FtConfirmAdd s" "fg_task (test_dialog esc f d' p) \<noteq> FtConfirmDelete s nm"
  by (auto simp: delete_dialog_def test_dialog_def Let_def split: gate_phase.split)

lemma tasks_ask:
  "fasked (fg_effects (finger_dialog esc g stored p)) = fasked (fg_effects p)"
  "fasked (fg_effects (finger_answer esc r stored p)) = fasked (fg_effects p)"
  "fasked (fg_effects (finger_enroll h p)) = fasked (fg_effects p)"
  by (auto simp: finger_dialog_def finger_answer_def finger_enroll_def Let_def split: finger_task.split option.split)

lemma tasks_no_question:
  "fg_task (finger_dialog esc g stored p) = t \<Longrightarrow> \<not> device_task t \<Longrightarrow> t = FtIdle \<or> t = fg_task p"
  "fg_task (finger_answer esc r stored p) = t \<Longrightarrow> \<not> device_task t \<Longrightarrow> t = FtIdle \<or> t = fg_task p"
  "fg_task (finger_enroll h p) = t \<Longrightarrow> \<not> device_task t \<Longrightarrow> t = FtIdle \<or> t = fg_task p"
  by (cases t; auto simp: finger_dialog_def finger_answer_def finger_enroll_def device_task_def Let_def
      split: finger_task.splits option.splits if_splits)+

lemma start_asks:
  "fasked (fg_effects (start_enroll slot p)) = fasked (fg_effects p) @ [enroll_request slot]"
  "fasked (fg_effects (start_delete slot p)) = fasked (fg_effects p) @ [delete_request slot]"
  "fg_task (start_enroll slot p) = FtEnrolling slot enroll_open"
  "fg_task (start_delete slot p) = FtDeleting slot (gate_open verify_hint)"
  by (simp_all add: start_enroll_def start_delete_def enroll_request_def delete_request_def)

lemma add_asks:
  assumes "offers_slot p slot"
  shows "\<exists>new. fasked (fg_effects (fingers_click u (finger_add slot) p)) = fasked (fg_effects p) @ new \<and> finger_requests e p new"
  using assms by (auto simp: fingers_click_def finger_add_def start_asks finger_requests_def)

lemma shown_by_update: "fg_switch_shown (update_buttons p) = (fg_hosts p \<and> \<not> switch_enrolled (fg_slots p))"
  by (simp add: update_buttons_def Let_def)

lemma finger_step_asks:
  assumes "page_ok p"
  shows "\<exists>new. fasked (fg_effects (fingers_step esc e p)) = fasked (fg_effects p) @ new \<and> finger_requests e p new"
proof (cases e)
  case FeAddSwitch
  have "fg_switch_shown p = (fg_hosts p \<and> \<not> switch_enrolled (fg_slots p))"
    using assms shown_by_update [of p] by (simp add: page_ok_def)
  then show ?thesis
    using FeAddSwitch add_asks [of p SWITCH_SLOT "fg_switch_shown p \<and> fg_switch_on p" e]
    by (cases "fg_switch_shown p") (auto simp: offers_slot_def fingers_click_def)
next
  case FeAdd
  show ?thesis
  proof (cases "first_free_auth_slot (fg_slots p)")
    case (Some slot)
    then show ?thesis using FeAdd add_asks [of p slot _ e] by (simp add: offers_slot_def)
  qed (simp add: FeAdd fingers_click_def)
next
  case (FeConfirm yes)
  then show ?thesis by (cases "fg_task p") (auto simp: start_asks finger_requests_def)
next
  case (FeRename i nm stored)
  then show ?thesis by (auto simp: fingers_click_def split: option.split)
next
  case (FeTrash i)
  then show ?thesis by (auto simp: fingers_click_def finger_delete_def split: option.split)
next
  case FeTest
  then show ?thesis by (auto simp: fingers_click_def finger_test_def finger_requests_def)
qed (auto simp: fingers_tick_def tasks_ask fingers_click_def)

text \<open>A question is about a slot the page offered, or a finger it showed, when it was clicked.\<close>

lemma step_question:
  assumes "page_ok p"
  shows "fg_task (fingers_step esc e p) = FtConfirmAdd slot \<Longrightarrow> fg_task p = FtConfirmAdd slot \<or> offers_slot p slot"
    "fg_task (fingers_step esc e p) = FtConfirmDelete slot nm \<Longrightarrow> fg_task p = FtConfirmDelete slot nm \<or> shows_finger p slot"
proof -
  have shown: "fg_switch_shown p = (fg_hosts p \<and> \<not> switch_enrolled (fg_slots p))"
    using assms shown_by_update [of p] by (simp add: page_ok_def)
  have cards: "slot \<in> set (card_slots (fg_slots p))"
    if "get_at (fg_cards p) i = Some (slot, nm)" "fg_stack p = FContent" for i slot nm
  proof -
    have "(slot, nm) \<in> set (fg_cards p)" using that(1) by (auto simp: get_at_def split: if_splits intro: nth_mem dest: sym)
    then have "slot \<in> set (map fst (fg_cards p))" by force
    moreover have "map fst (fg_cards p) = card_slots (fg_slots p)"
      using assms that(2) by (simp only: page_ok_def simp_thms)
    ultimately show ?thesis by (simp only:)
  qed
  show "fg_task (fingers_step esc e p) = FtConfirmAdd slot \<Longrightarrow> fg_task p = FtConfirmAdd slot \<or> offers_slot p slot"
    using shown
    by (cases e)
      (auto simp: fingers_tick_def fingers_click_def finger_add_def finger_test_def finger_delete_def start_asks offers_slot_def
        device_task_def dest: tasks_no_question split: if_splits option.splits finger_task.splits)
  show "fg_task (fingers_step esc e p) = FtConfirmDelete slot nm \<Longrightarrow> fg_task p = FtConfirmDelete slot nm \<or> shows_finger p slot"
    using cards
    by (cases e)
      (auto simp: fingers_tick_def fingers_click_def finger_add_def finger_test_def finger_delete_def start_asks shows_finger_def
        device_task_def dest: tasks_no_question split: if_splits option.splits finger_task.splits)
qed

definition backed :: "fingers_page set \<Rightarrow> fingers_page \<Rightarrow> bool" where
  "backed past p \<longleftrightarrow>
     (\<forall>n. enroll_request n \<in> set (fasked (fg_effects p)) \<or> fg_task p = FtConfirmAdd n \<longrightarrow> (\<exists>q \<in> past. offers_slot q n)) \<and>
     (\<forall>n nm. delete_request n \<in> set (fasked (fg_effects p)) \<or> fg_task p = FtConfirmDelete n nm \<longrightarrow> (\<exists>q \<in> past. shows_finger q n))"

lemma backed_step:
  assumes "backed past p" "page_ok p" "p \<in> past"
  shows "backed past (fingers_step esc e p)"
proof -
  obtain new where new: "fasked (fg_effects (fingers_step esc e p)) = fasked (fg_effects p) @ new" "finger_requests e p new"
    using finger_step_asks [OF assms(2)] by blast
  have B: "enroll_request n \<in> set (fasked (fg_effects p)) \<Longrightarrow> \<exists>q \<in> past. offers_slot q n"
    "fg_task p = FtConfirmAdd n \<Longrightarrow> \<exists>q \<in> past. offers_slot q n"
    "delete_request n \<in> set (fasked (fg_effects p)) \<Longrightarrow> \<exists>q \<in> past. shows_finger q n"
    "fg_task p = FtConfirmDelete n nm \<Longrightarrow> \<exists>q \<in> past. shows_finger q n" for n nm
    using assms(1) by (auto simp: backed_def)
  have add: "\<exists>q \<in> past. offers_slot q n" if "enroll_request n \<in> set new" for n
    using that new(2) requests_differ B(2) assms(3) unfolding finger_requests_def
    by (elim disjE) (auto simp: requests_differ requests_differ(1) [THEN not_sym])
  have del: "\<exists>q \<in> past. shows_finger q n" if "delete_request n \<in> set new" for n
    using that new(2) B(4) unfolding finger_requests_def
    by (elim disjE) (auto simp: requests_differ dest: sym)
  have q1: "\<exists>q \<in> past. offers_slot q n" if "fg_task (fingers_step esc e p) = FtConfirmAdd n" for n
    using step_question(1) [OF assms(2) that] B(2) assms(3) by blast
  have q2: "\<exists>q \<in> past. shows_finger q n" if "fg_task (fingers_step esc e p) = FtConfirmDelete n nm" for n nm
    using step_question(2) [OF assms(2) that] B(4) assms(3) by blast
  show ?thesis
    unfolding backed_def new(1) set_append Un_iff
    using add del B(1,3) q1 q2 by blast
qed

definition deletions :: "fingers_page \<Rightarrow> nat" where
  "deletions p = length (filter (starts_with ''FP:DELETE:'') (fasked (fg_effects p)))"

lemma deletion_starts:
  "starts_with ''FP:DELETE:'' (delete_request n)" "\<not> starts_with ''FP:DELETE:'' (enroll_request n)"
  "\<not> starts_with ''FP:DELETE:'' ''FP:VERIFY''"
  by (simp_all add: delete_request_def enroll_request_def)

lemma deletions_step:
  assumes "page_ok p"
  shows "deletions (fingers_step esc e p) \<le> deletions p + (if e = FeConfirm True then 1 else 0)"
proof -
  obtain new where "fasked (fg_effects (fingers_step esc e p)) = fasked (fg_effects p) @ new" "finger_requests e p new"
    using finger_step_asks [OF assms] by blast
  then show ?thesis unfolding finger_requests_def deletions_def by (elim disjE) (auto simp: deletion_starts)
qed

definition fingers_past :: "(string \<Rightarrow> string) \<Rightarrow> finger_event list \<Rightarrow> gui_settings \<Rightarrow> fingers_page set" where
  "fingers_past esc es st = {p. \<exists>fs gs. es = fs @ gs \<and> p = fingers_run esc fs st}"

lemma fingers_past_snoc: "fingers_past esc es st \<subseteq> fingers_past esc (es @ [e]) st"
proof
  fix p
  assume "p \<in> fingers_past esc es st"
  then obtain fs gs where "es @ [e] = fs @ (gs @ [e])" "p = fingers_run esc fs st" by (auto simp: fingers_past_def)
  then show "p \<in> fingers_past esc (es @ [e]) st" unfolding fingers_past_def by blast
qed

lemma backed_mono: "backed A p \<Longrightarrow> A \<subseteq> B \<Longrightarrow> backed B p"
  unfolding backed_def by (meson subsetD)

lemma backed_run: "backed (fingers_past esc es st) (fingers_run esc es st)"
proof (induction es rule: rev_induct)
  case Nil
  then show ?case by (simp add: fingers_run_def fingers_new_def backed_def)
next
  case (snoc e es)
  have "fingers_run esc es st \<in> fingers_past esc (es @ [e]) st" unfolding fingers_past_def by blast
  then show ?case
    unfolding fingers_run_snoc
    by (rule backed_step [OF backed_mono [OF snoc.IH fingers_past_snoc] page_ok_run])
qed

lemma deletions_confirmed: "deletions (fingers_run esc es st) \<le> count_list es (FeConfirm True)"
proof (induction es rule: rev_induct)
  case Nil
  then show ?case by (simp add: fingers_run_def fingers_new_def deletions_def)
next
  case (snoc e es)
  then show ?case
    using deletions_step [OF page_ok_run, of esc e esc es st] by (simp add: fingers_run_snoc split: if_splits)
qed

text \<open>
  Fact: Over all clicks, polls, answers and dialogs, the fingerprints page deletes at most as many fingers as
  questions were confirmed, only fingers it showed before, and enrolls only into a slot that was free in
  the list it had.
\<close>

theorem gui_fingers_only_offered:
  "deletions (fingers_run esc es st) \<le> count_list es (FeConfirm True) \<and>
   (\<forall>n. FingerAsked (delete_request n) \<in> set (fg_effects (fingers_run esc es st)) \<longrightarrow>
      (\<exists>fs gs. es = fs @ gs \<and> shows_finger (fingers_run esc fs st) n)) \<and>
   (\<forall>n. FingerAsked (enroll_request n) \<in> set (fg_effects (fingers_run esc es st)) \<longrightarrow>
      (\<exists>fs gs. es = fs @ gs \<and> offers_slot (fingers_run esc fs st) n))"
proof (intro conjI allI impI)
  show "deletions (fingers_run esc es st) \<le> count_list es (FeConfirm True)" by (rule deletions_confirmed)
  fix n
  note B = backed_run [of esc es st, unfolded backed_def fingers_past_def]
  show "\<exists>fs gs. es = fs @ gs \<and> shows_finger (fingers_run esc fs st) n"
    if "FingerAsked (delete_request n) \<in> set (fg_effects (fingers_run esc es st))"
  proof -
    have "delete_request n \<in> set (fasked (fg_effects (fingers_run esc es st)))" using that by (simp only: fasked_mem)
    then have "\<exists>q \<in> {p. \<exists>fs gs. es = fs @ gs \<and> p = fingers_run esc fs st}. shows_finger q n" using B by blast
    then show ?thesis by blast
  qed
  show "\<exists>fs gs. es = fs @ gs \<and> offers_slot (fingers_run esc fs st) n"
    if "FingerAsked (enroll_request n) \<in> set (fg_effects (fingers_run esc es st))"
  proof -
    have "enroll_request n \<in> set (fasked (fg_effects (fingers_run esc es st)))" using that by (simp only: fasked_mem)
    then have "\<exists>q \<in> {p. \<exists>fs gs. es = fs @ gs \<and> p = fingers_run esc fs st}. offers_slot q n" using B by blast
    then show ?thesis by blast
  qed
qed

definition one_finger_events :: "finger_event list" where
  "one_finger_events = [FeLoaded (Some (Ok 1, False)), FeTrash 0, FeConfirm True]"

lemma one_finger: "auth_slots 1 = [0]" "\<not> switch_enrolled 1" "any_finger 1" "first_free_auth_slot 1 = Some 1"
  by code_simp+

lemma one_finger_run:
  "fg_effects (fingers_run esc one_finger_events st) = [FingerAsked (''FP:DELETE:'' @ show_word (0 :: byte))]"
  "fg_task (fingers_run esc one_finger_events st) = FtDeleting 0 (gate_open verify_hint)"
  "fg_cards (fingers_run esc one_finger_events st) = [(0, fingerprint_name st 0)]"
  "fg_stack (fingers_run esc one_finger_events st) = FContent" "fg_loading (fingers_run esc one_finger_events st) = False"
  by (simp_all add: fingers_run_def one_finger_events_def fingers_new_def fingers_load_def fingers_loaded_def populate_def
      finger_cards_def one_finger finger_delete_def start_delete_def finger_effect_def fingers_set_busy_def
      fingers_click_def fingers_modal_def update_buttons_def Let_def)

theorem gui_fingers_only_offered_witness:
  "\<exists>fs gs. one_finger_events = fs @ gs \<and> shows_finger (fingers_run (\<lambda>s. s) fs default_gui_settings) 0"
proof -
  have "FingerAsked (delete_request 0) \<in> set (fg_effects (fingers_run (\<lambda>s. s) one_finger_events default_gui_settings))"
    by (simp add: one_finger_run delete_request_def)
  then show ?thesis
    using gui_fingers_only_offered [of "\<lambda>s. s" one_finger_events default_gui_settings] by blast
qed

theorem fingers_page_consistent_witness:
  "map fst (fg_cards (fingers_run (\<lambda>s. s) one_finger_events default_gui_settings)) =
     card_slots (fg_slots (fingers_run (\<lambda>s. s) one_finger_events default_gui_settings))"
  using fingers_page_consistent [of "\<lambda>s. s" one_finger_events default_gui_settings]
  by (simp add: one_finger_run(4) Let_def)

text \<open>
  Fact: a cancel that crosses the daemon's answer leaves the card of a finger that was deleted: the
  dialog reports a cancel, the page does not load the list, and no poll will, as the connection has not
  changed.
\<close>

theorem cancelled_delete_keeps_card:
  "let p = fold (fingers_step esc) [FeDialog GCancel True, FeAnswer (Some (Ok ''OK:DELETED'')) True,
       FeTick True, FePolled (Some (Ok st))] (fingers_run esc one_finger_events names) in
   cds_connected st \<longrightarrow> fg_cards p = [(0, fingerprint_name names 0)] \<and> \<not> fg_loading p \<and> \<not> fg_busy p"
  by (simp add: fingers_run_def one_finger_events_def fingers_new_def fingers_load_def fingers_loaded_def populate_def
      finger_cards_def one_finger finger_delete_def start_delete_def finger_effect_def fingers_set_busy_def
      fingers_click_def fingers_modal_def update_buttons_def Let_def finger_dialog_def user_event_def delete_dialog_def
      gate_open_def gate_send_cancel_def gate_window_close_def gate_answer_def finger_answer_def finger_deleted_def
      fingers_tick_def fingers_polled_def)

theorem cancelled_delete_keeps_card_witness:
  "fg_cards (fold (fingers_step (\<lambda>s. s)) [FeDialog GCancel True, FeAnswer (Some (Ok ''OK:DELETED'')) True,
     FeTick True, FePolled (Some (Ok \<lparr> cds_connected = True, cds_name = [], cds_battery = 80, cds_fw_version = [],
       cds_device_unpaired = False \<rparr>))] (fingers_run (\<lambda>s. s) one_finger_events default_gui_settings)) =
   [(0, fingerprint_name default_gui_settings 0)]"
  using cancelled_delete_keeps_card [of "\<lambda>s. s" "\<lparr> cds_connected = True, cds_name = [], cds_battery = 80,
      cds_fw_version = [], cds_device_unpaired = False \<rparr>" default_gui_settings]
  by (simp add: Let_def)

text \<open>Fact: a name that cannot be stored is on the card all the same, until the list is drawn again.\<close>

theorem unsaved_name_is_shown:
  assumes "slot \<noteq> SWITCH_SLOT" "trim nm \<noteq> []" "fg_cards p = [(slot, old)]"
  shows "let q = finger_rename esc slot nm (Err e) p in
    fg_cards q = [(slot, trim nm)] \<and> fg_cards (populate q) = finger_cards (fg_names p) (fg_slots p)"
  using assms by (simp add: finger_rename_def set_fingerprint_name_def fingerprint_name_def populate_def finger_effect_def Let_def)

theorem unsaved_name_is_shown_witness:
  "fg_cards (finger_rename (\<lambda>s. s) 0 ''Thumb'' (Err ''disk full'')
     ((fingers_new default_gui_settings)\<lparr> fg_cards := [(0, ''Finger 1'')] \<rparr>)) = [(0, ''Thumb'')]"
proof -
  have "trim ''Thumb'' = ''Thumb''" by (rule trim_graphic) (simp_all add: graphic_def)
  then show ?thesis
    using unsaved_name_is_shown [of 0 "''Thumb''" "(fingers_new default_gui_settings)\<lparr> fg_cards := [(0, ''Finger 1'')] \<rparr>"
        "''Finger 1''" "\<lambda>s. s" "''disk full''"]
    by (simp add: Let_def)
qed

end
