(* ===== verification/Gui_Keys.thy ===== *)
theory Gui_Keys
  imports Gui_Panel
begin

text \<open>
  The keys page of the GUI (\<open>pages/keys.rs\<close>): the rows of the cached keys, the one-time codes that are
  shown on a row for a while, the add buttons, and the reading and deleting of an entry. A row that was
  taken off the page is found no more by a task that still holds it. The escaping of markup of glib is
  an argument; icons and style classes are left out.
\<close>

record key_row =
  kr_id :: nat
  kr_cat :: key_category
  kr_entry :: "key_entry option"
  kr_title :: string
  kr_subtitle :: string
  kr_copy :: "string option"
  kr_label :: string
  kr_primary_on :: bool
  kr_delete_on :: bool

datatype keys_modal = KmNone | KmAdd key_category | KmConfirm nat key_entry

datatype keys_effect = KeysAsked string | KeysToast string nat | KeysCopied string

text \<open>
  \<open>kp_reads\<close> and \<open>kp_deletes\<close> are the requests that wait for the device, \<open>kp_loads\<close> the lists that are
  being read, \<open>kp_pauses\<close> the half seconds before a reload, \<open>kp_timers\<close> the 30 second timers with the
  generation each was started for.
\<close>

record keys_page =
  kp_titles :: "(key_category \<times> string) list"
  kp_adds :: "(key_category \<times> bool \<times> string) list"
  kp_rows :: "key_row list"
  kp_counts :: "key_category \<Rightarrow> nat"
  kp_connected :: bool
  kp_shown :: "(nat \<times> string) list"
  kp_gen :: "32 word"
  kp_timers :: "32 word list"
  kp_modal :: keys_modal
  kp_reads :: "(nat \<times> key_entry \<times> string) list"
  kp_deletes :: "(nat \<times> key_entry) list"
  kp_loads :: nat
  kp_pauses :: nat
  kp_fresh :: nat
  kp_crashed :: bool
  kp_effects :: "keys_effect list"

definition keys_groups :: "key_category list" where "keys_groups = [Otp, Api, Ssh]"

definition empty_hint :: "key_category \<Rightarrow> string \<times> string" where
  "empty_hint cat = (case cat of
     Otp \<Rightarrow> (''Add your first OTP entry'', ''Generates a 6-digit code after you touch the device'')
   | Api \<Rightarrow> (''Add your first API key'', ''Shows the stored value after you touch the device'')
   | Ssh \<Rightarrow> (''Add your first SSH key'', ''Public key can be copied; signing goes through the SSH agent''))"

definition group_title :: "key_category \<Rightarrow> nat \<Rightarrow> string" where
  "group_title cat n = category_label cat @ '' ('' @ show_nat n @ ''/'' @ show_word (capacity cat) @ '')''"

definition keys_effect :: "keys_effect \<Rightarrow> keys_page \<Rightarrow> keys_page" where
  "keys_effect e p = p\<lparr> kp_effects := kp_effects p @ [e] \<rparr>"

definition keys_toast :: "string \<Rightarrow> nat \<Rightarrow> keys_page \<Rightarrow> keys_page" where
  "keys_toast t secs = keys_effect (KeysToast t secs)"

definition add_button :: "bool \<Rightarrow> nat \<Rightarrow> key_category \<Rightarrow> bool \<times> string" where
  "add_button conn n cat =
     (if \<not> conn then (False, ''Device not connected'')
      else if unat (capacity cat) \<le> n then (False, ''Keystore full '' @ em_dash @ '' delete an entry first'')
      else (True, ''Add '' @ category_label cat @ '' entry''))"

definition refresh_add_buttons :: "keys_page \<Rightarrow> keys_page" where
  "refresh_add_buttons p = p\<lparr> kp_adds := map (\<lambda>cat. (cat, add_button (kp_connected p) (kp_counts p cat) cat)) keys_groups \<rparr>"

definition keys_reload :: "keys_page \<Rightarrow> keys_page" where
  "keys_reload p = p\<lparr> kp_loads := Suc (kp_loads p) \<rparr>"

definition keys_new :: keys_page where
  "keys_new = keys_reload (refresh_add_buttons
     \<lparr> kp_titles = map (\<lambda>cat. (cat, group_title cat 0)) keys_groups, kp_adds = [], kp_rows = [], kp_counts = (\<lambda>_. 0),
       kp_connected = False, kp_shown = [], kp_gen = 0, kp_timers = [], kp_modal = KmNone, kp_reads = [], kp_deletes = [],
       kp_loads = 0, kp_pauses = 0, kp_fresh = 0, kp_crashed = False, kp_effects = [] \<rparr>)"

section \<open>Codes on a row\<close>

definition update_row :: "nat \<Rightarrow> (key_row \<Rightarrow> key_row) \<Rightarrow> keys_page \<Rightarrow> keys_page" where
  "update_row i f p = p\<lparr> kp_rows := map (\<lambda>r. if kr_id r = i then f r else r) (kp_rows p) \<rparr>"

definition restore_row :: "nat \<times> string \<Rightarrow> keys_page \<Rightarrow> keys_page" where
  "restore_row s = update_row (fst s) (\<lambda>r. r\<lparr> kr_subtitle := snd s, kr_copy := None \<rparr>)"

definition clear_codes :: "keys_page \<Rightarrow> keys_page" where
  "clear_codes p = (fold restore_row (kp_shown p) (p\<lparr> kp_gen := kp_gen p + 1 \<rparr>))\<lparr> kp_shown := [] \<rparr>"

text \<open>The slices of a code of six bytes panic when they do not fall on a character.\<close>

definition pretty_code :: "string \<Rightarrow> string option" where
  "pretty_code code =
     (if length code = 6
      then if is_char_boundary code 3 then Some (take 3 code @ '' '' @ drop 3 code) else None
      else Some code)"

definition code_markup :: "(string \<Rightarrow> string) \<Rightarrow> string \<Rightarrow> string" where
  "code_markup esc pretty =
     ''<span font_family=\"monospace\" size=\"x-large\" weight=\"bold\">'' @ esc pretty @ ''</span>''"

definition subtitle_of :: "nat \<Rightarrow> keys_page \<Rightarrow> string" where
  "subtitle_of i p = (case find (\<lambda>r. kr_id r = i) (kp_rows p) of Some r \<Rightarrow> kr_subtitle r | None \<Rightarrow> [])"

definition show_code :: "(string \<Rightarrow> string) \<Rightarrow> nat \<Rightarrow> string \<Rightarrow> keys_page \<Rightarrow> keys_page" where
  "show_code esc i code p0 =
     (let p = clear_codes p0; orig = subtitle_of i p in case pretty_code code of
        None \<Rightarrow> p\<lparr> kp_crashed := True \<rparr>
      | Some pretty \<Rightarrow>
          (update_row i (\<lambda>r. r\<lparr> kr_subtitle := code_markup esc pretty, kr_copy := Some code \<rparr>) p)
            \<lparr> kp_timers := kp_timers p @ [kp_gen p], kp_shown := kp_shown p @ [(i, orig)] \<rparr>)"

text \<open>A timer clears only what was shown when it was started.\<close>

definition code_timer :: "nat \<Rightarrow> keys_page \<Rightarrow> keys_page" where
  "code_timer n p = (case get_at (kp_timers p) n of
     None \<Rightarrow> p
   | Some g \<Rightarrow>
       (let p1 = p\<lparr> kp_timers := take n (kp_timers p) @ drop (Suc n) (kp_timers p) \<rparr>
        in if kp_gen p1 = g then clear_codes p1 else p1))"

section \<open>The list\<close>

definition entry_subtitle :: "key_entry \<Rightarrow> string" where
  "entry_subtitle e = (case ke_category e of Otp \<Rightarrow> ke_service e | Api \<Rightarrow> [] | Ssh \<Rightarrow> ''ecdsa-sha2-nistp256'')"

definition primary_label :: "key_category \<Rightarrow> string" where
  "primary_label cat = (case cat of Otp \<Rightarrow> ''Get code'' | Api \<Rightarrow> ''Show'' | Ssh \<Rightarrow> ''Copy public key'')"

definition hint_row :: "nat \<Rightarrow> key_category \<Rightarrow> key_row" where
  "hint_row i cat = \<lparr> kr_id = i, kr_cat = cat, kr_entry = None, kr_title = fst (empty_hint cat),
     kr_subtitle = snd (empty_hint cat), kr_copy = None, kr_label = [], kr_primary_on = False, kr_delete_on = False \<rparr>"

definition entry_row :: "(string \<Rightarrow> string) \<Rightarrow> nat \<Rightarrow> key_entry \<Rightarrow> key_row" where
  "entry_row esc i e = \<lparr> kr_id = i, kr_cat = ke_category e, kr_entry = Some e, kr_title = esc (ke_name e),
     kr_subtitle = esc (entry_subtitle e), kr_copy = None, kr_label = primary_label (ke_category e),
     kr_primary_on = True, kr_delete_on = True \<rparr>"

definition count_of :: "key_entry list \<Rightarrow> key_category \<Rightarrow> nat" where
  "count_of es cat = length (filter (\<lambda>e. ke_category e = cat) es)"

definition populate_rows :: "(string \<Rightarrow> string) \<Rightarrow> nat \<Rightarrow> key_entry list \<Rightarrow> key_row list" where
  "populate_rows esc n es =
     (let hints = filter (\<lambda>cat. count_of es cat = 0) keys_groups; m = n + length hints
      in map (\<lambda>(i, cat). hint_row i cat) (zip [n..<m] hints) @
         map (\<lambda>(i, e). entry_row esc i e) (zip [m..<m + length es] es))"

definition keys_populate :: "(string \<Rightarrow> string) \<Rightarrow> key_entry list \<Rightarrow> keys_page \<Rightarrow> keys_page" where
  "keys_populate esc es p0 =
     (let p = clear_codes p0; rows = populate_rows esc (kp_fresh p) es
      in refresh_add_buttons (p\<lparr> kp_titles := map (\<lambda>cat. (cat, group_title cat (count_of es cat))) keys_groups,
           kp_counts := count_of es, kp_rows := rows, kp_fresh := kp_fresh p + length rows \<rparr>))"

definition keys_loaded :: "(string \<Rightarrow> string) \<Rightarrow> key_entry list option \<Rightarrow> keys_page \<Rightarrow> keys_page" where
  "keys_loaded esc r p = (if kp_loads p = 0 then p
     else keys_populate esc (unwrap_or [] r) (p\<lparr> kp_loads := kp_loads p - 1 \<rparr>))"

definition keys_connected :: "bool \<Rightarrow> keys_page \<Rightarrow> keys_page" where
  "keys_connected b p = (let p1 = p\<lparr> kp_connected := b \<rparr> in if kp_connected p \<noteq> b then refresh_add_buttons p1 else p1)"

section \<open>The actions\<close>

definition open_add :: "key_category \<Rightarrow> keys_page \<Rightarrow> keys_page" where
  "open_add cat p = (if \<not> kp_connected p then keys_toast ''Device not connected'' 3 p else p\<lparr> kp_modal := KmAdd cat \<rparr>)"

definition keys_pause :: "keys_page \<Rightarrow> keys_page" where
  "keys_pause p = p\<lparr> kp_pauses := Suc (kp_pauses p) \<rparr>"

definition keys_added :: "(string \<Rightarrow> string) \<Rightarrow> key_category \<Rightarrow> string option \<Rightarrow> keys_page \<Rightarrow> keys_page" where
  "keys_added esc cat r p = (let p1 = p\<lparr> kp_modal := KmNone \<rparr> in case r of
     None \<Rightarrow> p1
   | Some nm \<Rightarrow> keys_pause (keys_toast (category_label cat @ '' '' @ [CHR 0x27] @ esc nm @ [CHR 0x27] @ '' added'') 3 p1))"

definition primary_action :: "key_row \<Rightarrow> key_entry \<Rightarrow> keys_page \<Rightarrow> keys_page" where
  "primary_action r e p = (case ke_category e of
     Ssh \<Rightarrow> keys_toast ''Public key copied'' 3 (keys_effect (KeysCopied (ssh_public_key_line e)) p)
   | _ \<Rightarrow> keys_effect (KeysAsked (get_gated_cmd (ke_category e) (ke_name e)))
       ((update_row (kr_id r) (\<lambda>r. r\<lparr> kr_primary_on := False, kr_label := ''Touch the device'' @ ellipsis \<rparr>) p)
          \<lparr> kp_reads := kp_reads p @ [(kr_id r, e, kr_label r)] \<rparr>))"

definition keys_read :: "(string \<Rightarrow> string) \<Rightarrow> nat \<Rightarrow> (string, string) result option \<Rightarrow> keys_page \<Rightarrow> keys_page" where
  "keys_read esc n r p = (case get_at (kp_reads p) n of
     None \<Rightarrow> p
   | Some (i, e, original) \<Rightarrow>
       (let p1 = (update_row i (\<lambda>r. r\<lparr> kr_label := original, kr_primary_on := True \<rparr>) p)
              \<lparr> kp_reads := take n (kp_reads p) @ drop (Suc n) (kp_reads p) \<rparr>
        in case r of
          Some (Ok v) \<Rightarrow>
            if ke_category e = Otp then show_code esc i v p1
            else keys_toast (esc (ke_name e) @ '': '' @ esc v) 30 p1
        | Some (Err x) \<Rightarrow> keys_toast (''Read failed: '' @ esc x) 5 p1
        | None \<Rightarrow> p1))"

definition start_key_delete :: "nat \<Rightarrow> key_entry \<Rightarrow> keys_page \<Rightarrow> keys_page" where
  "start_key_delete i e p =
     keys_effect (KeysAsked (delete_key_cmd (ke_category e) (ke_index e)))
       (keys_toast (''Touch the device to confirm deletion'' @ ellipsis) 30
         ((update_row i (\<lambda>r. r\<lparr> kr_delete_on := False \<rparr>) p)\<lparr> kp_modal := KmNone, kp_deletes := kp_deletes p @ [(i, e)] \<rparr>))"

definition keys_deleted :: "(string \<Rightarrow> string) \<Rightarrow> nat \<Rightarrow> (unit, string) result option \<Rightarrow> keys_page \<Rightarrow> keys_page" where
  "keys_deleted esc n r p = (case get_at (kp_deletes p) n of
     None \<Rightarrow> p
   | Some (i, e) \<Rightarrow>
       (let p1 = (update_row i (\<lambda>r. r\<lparr> kr_delete_on := True \<rparr>) p)
              \<lparr> kp_deletes := take n (kp_deletes p) @ drop (Suc n) (kp_deletes p) \<rparr>
        in case r of
          Some (Ok _) \<Rightarrow> keys_pause (keys_toast ''Deleted'' 3 p1)
        | Some (Err x) \<Rightarrow> keys_toast (''Delete failed: '' @ esc x) 5 p1
        | None \<Rightarrow> p1))"

section \<open>Events\<close>

text \<open>
  The dialogs are modal: while one is open the page takes no click. \<open>KeLeave\<close> is the switch to another
  page, \<open>KeyAdded\<close> the end of the add dialog, \<open>KeyPaused\<close> the end of a half second.
\<close>

datatype keys_event =
    KeyLoaded "key_entry list option"
  | KeyConnected bool
  | KeyLeave
  | KeyTimer nat
  | KeyAdd key_category
  | KeyAdded "string option"
  | KeyPrimary nat
  | KeyCopy nat
  | KeyRead nat "(string, string) result option"
  | KeyDelete nat
  | KeyConfirm bool
  | KeyDeleted nat "(unit, string) result option"
  | KeyPaused

definition keys_click :: "(keys_page \<Rightarrow> keys_page) \<Rightarrow> keys_page \<Rightarrow> keys_page" where
  "keys_click act p = (if kp_modal p = KmNone then act p else p)"

definition add_on :: "key_category \<Rightarrow> keys_page \<Rightarrow> bool" where
  "add_on cat p = (case map_of (kp_adds p) cat of Some (b, _) \<Rightarrow> b | None \<Rightarrow> False)"

definition click_row :: "nat \<Rightarrow> keys_page \<Rightarrow> keys_page" where
  "click_row n p = (case get_at (kp_rows p) n of
     None \<Rightarrow> p
   | Some r \<Rightarrow> (case kr_entry r of
       None \<Rightarrow> open_add (kr_cat r) p
     | Some e \<Rightarrow> if kr_primary_on r then primary_action r e p else p))"

definition click_copy :: "nat \<Rightarrow> keys_page \<Rightarrow> keys_page" where
  "click_copy n p = (case Option.bind (get_at (kp_rows p) n) kr_copy of
     None \<Rightarrow> p
   | Some code \<Rightarrow> keys_toast ''Code copied'' 2 (keys_effect (KeysCopied code) p))"

definition click_delete :: "nat \<Rightarrow> keys_page \<Rightarrow> keys_page" where
  "click_delete n p = (case get_at (kp_rows p) n of
     None \<Rightarrow> p
   | Some r \<Rightarrow> (case kr_entry r of
       None \<Rightarrow> p
     | Some e \<Rightarrow> if kr_delete_on r then p\<lparr> kp_modal := KmConfirm (kr_id r) e \<rparr> else p))"

fun keys_step :: "(string \<Rightarrow> string) \<Rightarrow> keys_event \<Rightarrow> keys_page \<Rightarrow> keys_page" where
  "keys_step esc (KeyLoaded r) p = keys_loaded esc r p"
| "keys_step esc (KeyConnected b) p = keys_connected b p"
| "keys_step esc KeyLeave p = clear_codes p"
| "keys_step esc (KeyTimer n) p = code_timer n p"
| "keys_step esc (KeyAdd cat) p = (if add_on cat p then keys_click (open_add cat) p else p)"
| "keys_step esc (KeyAdded r) p = (case kp_modal p of KmAdd cat \<Rightarrow> keys_added esc cat r p | _ \<Rightarrow> p)"
| "keys_step esc (KeyPrimary n) p = keys_click (click_row n) p"
| "keys_step esc (KeyCopy n) p = keys_click (click_copy n) p"
| "keys_step esc (KeyRead n r) p = keys_read esc n r p"
| "keys_step esc (KeyDelete n) p = keys_click (click_delete n) p"
| "keys_step esc (KeyConfirm yes) p = (case kp_modal p of
     KmConfirm i e \<Rightarrow> if yes then start_key_delete i e p else p\<lparr> kp_modal := KmNone \<rparr> | _ \<Rightarrow> p)"
| "keys_step esc (KeyDeleted n r) p = keys_deleted esc n r p"
| "keys_step esc KeyPaused p = (if kp_pauses p = 0 then p else keys_reload (p\<lparr> kp_pauses := kp_pauses p - 1 \<rparr>))"

definition keys_run :: "(string \<Rightarrow> string) \<Rightarrow> keys_event list \<Rightarrow> keys_page" where
  "keys_run esc es = fold (keys_step esc) es keys_new"

section \<open>A code is on one row, for a while\<close>

definition plain_subtitle :: "(string \<Rightarrow> string) \<Rightarrow> key_row \<Rightarrow> string" where
  "plain_subtitle esc r = (case kr_entry r of None \<Rightarrow> snd (empty_hint (kr_cat r)) | Some e \<Rightarrow> esc (entry_subtitle e))"

definition plain_row :: "(string \<Rightarrow> string) \<Rightarrow> key_row \<Rightarrow> bool" where
  "plain_row esc r \<longleftrightarrow> kr_copy r = None \<and> kr_subtitle r = plain_subtitle esc r"

definition rows_plain :: "(string \<Rightarrow> string) \<Rightarrow> keys_page \<Rightarrow> bool" where
  "rows_plain esc p \<longleftrightarrow> list_all (plain_row esc) (kp_rows p)"

text \<open>
  Ids are given once, and a read holds the entry of its row. Without a code every row has its own text; with
  one, all rows but the one that shows it, and a timer of this generation runs.
\<close>

definition row_keys :: "keys_page \<Rightarrow> (nat \<times> key_entry option) list" where
  "row_keys p = map (\<lambda>r. (kr_id r, kr_entry r)) (kp_rows p)"

definition ids_ok :: "keys_page \<Rightarrow> bool" where
  "ids_ok p \<longleftrightarrow> distinct (map fst (row_keys p)) \<and> (\<forall>i x. (i, x) \<in> set (row_keys p) \<longrightarrow> i < kp_fresh p) \<and>
     (\<forall>i e l. (i, e, l) \<in> set (kp_reads p) \<longrightarrow> i < kp_fresh p \<and> (\<forall>x. (i, x) \<in> set (row_keys p) \<longrightarrow> x = Some e))"

lemma ids_okI:
  "distinct (map fst (row_keys p)) \<Longrightarrow> (\<And>i x. (i, x) \<in> set (row_keys p) \<Longrightarrow> i < kp_fresh p) \<Longrightarrow>
    (\<And>i e l. (i, e, l) \<in> set (kp_reads p) \<Longrightarrow> i < kp_fresh p) \<Longrightarrow>
    (\<And>i e l x. (i, e, l) \<in> set (kp_reads p) \<Longrightarrow> (i, x) \<in> set (row_keys p) \<Longrightarrow> x = Some e) \<Longrightarrow> ids_ok p"
  unfolding ids_ok_def by blast

lemma ids_okD:
  assumes "ids_ok p"
  shows "distinct (map fst (row_keys p))" "(i, x) \<in> set (row_keys p) \<Longrightarrow> i < kp_fresh p"
    "(i, e, l) \<in> set (kp_reads p) \<Longrightarrow> i < kp_fresh p"
    "(i, e, l) \<in> set (kp_reads p) \<Longrightarrow> (i, x) \<in> set (row_keys p) \<Longrightarrow> x = Some e"
  using assms unfolding ids_ok_def by blast+

definition row_under :: "(string \<Rightarrow> string) \<Rightarrow> nat \<Rightarrow> string \<Rightarrow> key_row \<Rightarrow> bool" where
  "row_under esc i orig r \<longleftrightarrow> (kr_id r = i \<longrightarrow> plain_subtitle esc r = orig) \<and> (kr_id r \<noteq> i \<longrightarrow> plain_row esc r)"

definition codes_ok :: "(string \<Rightarrow> string) \<Rightarrow> keys_page \<Rightarrow> bool" where
  "codes_ok esc p \<longleftrightarrow> kp_shown p = [] \<and> rows_plain esc p \<or>
     (\<exists>i orig. kp_shown p = [(i, orig)] \<and> kp_gen p \<in> set (kp_timers p) \<and> list_all (row_under esc i orig) (kp_rows p))"

lemma plain_subtitle_texts [simp]: "plain_subtitle esc (r\<lparr> kr_subtitle := t, kr_copy := c \<rparr>) = plain_subtitle esc r"
  by (simp add: plain_subtitle_def split: option.split)

lemma row_update_fields [simp]:
  "kp_shown (update_row i f p) = kp_shown p" "kp_gen (update_row i f p) = kp_gen p" "kp_timers (update_row i f p) = kp_timers p"
  "kp_reads (update_row i f p) = kp_reads p" "kp_fresh (update_row i f p) = kp_fresh p" "kp_modal (update_row i f p) = kp_modal p"
  "kp_effects (update_row i f p) = kp_effects p" "kp_deletes (update_row i f p) = kp_deletes p"
  "kp_connected (update_row i f p) = kp_connected p" "kp_counts (update_row i f p) = kp_counts p"
  "kp_loads (update_row i f p) = kp_loads p" "kp_adds (update_row i f p) = kp_adds p" "kp_crashed (update_row i f p) = kp_crashed p"
  by (simp_all add: update_row_def)

lemma effect_fields [simp]:
  "kp_shown (keys_effect x p) = kp_shown p" "kp_gen (keys_effect x p) = kp_gen p" "kp_timers (keys_effect x p) = kp_timers p"
  "kp_reads (keys_effect x p) = kp_reads p" "kp_fresh (keys_effect x p) = kp_fresh p" "kp_modal (keys_effect x p) = kp_modal p"
  "kp_rows (keys_effect x p) = kp_rows p" "kp_deletes (keys_effect x p) = kp_deletes p"
  "kp_effects (keys_effect x p) = kp_effects p @ [x]" "kp_crashed (keys_effect x p) = kp_crashed p"
  by (simp_all add: keys_effect_def)

lemma refresh_fields [simp]:
  "kp_shown (refresh_add_buttons p) = kp_shown p" "kp_gen (refresh_add_buttons p) = kp_gen p"
  "kp_timers (refresh_add_buttons p) = kp_timers p" "kp_reads (refresh_add_buttons p) = kp_reads p"
  "kp_fresh (refresh_add_buttons p) = kp_fresh p" "kp_modal (refresh_add_buttons p) = kp_modal p"
  "kp_rows (refresh_add_buttons p) = kp_rows p" "kp_deletes (refresh_add_buttons p) = kp_deletes p"
  "kp_effects (refresh_add_buttons p) = kp_effects p" "kp_crashed (refresh_add_buttons p) = kp_crashed p"
  by (simp_all add: refresh_add_buttons_def)

lemma pause_fields [simp]:
  "kp_shown (keys_pause p) = kp_shown p" "kp_gen (keys_pause p) = kp_gen p" "kp_timers (keys_pause p) = kp_timers p"
  "kp_reads (keys_pause p) = kp_reads p" "kp_fresh (keys_pause p) = kp_fresh p" "kp_modal (keys_pause p) = kp_modal p"
  "kp_rows (keys_pause p) = kp_rows p" "kp_deletes (keys_pause p) = kp_deletes p" "kp_effects (keys_pause p) = kp_effects p"
  "kp_crashed (keys_pause p) = kp_crashed p"
  by (simp_all add: keys_pause_def)

text \<open>What the two parts of the invariant depend on.\<close>

lemma codes_ok_cong:
  "kp_shown q = kp_shown p \<Longrightarrow> kp_gen q = kp_gen p \<Longrightarrow> set (kp_timers p) \<subseteq> set (kp_timers q) \<Longrightarrow> kp_rows q = kp_rows p \<Longrightarrow>
    codes_ok esc p \<Longrightarrow> codes_ok esc q"
  by (fastforce simp: codes_ok_def rows_plain_def)

lemma ids_ok_cong:
  "row_keys q = row_keys p \<Longrightarrow> kp_fresh q = kp_fresh p \<Longrightarrow> set (kp_reads q) \<subseteq> set (kp_reads p) \<Longrightarrow> ids_ok p \<Longrightarrow> ids_ok q"
  by (simp only: ids_ok_def) blast

lemma row_keys_update: "(\<And>r. kr_id (f r) = kr_id r \<and> kr_entry (f r) = kr_entry r) \<Longrightarrow> row_keys (update_row i f p) = row_keys p"
  by (simp add: row_keys_def update_row_def)

definition page_inv :: "(string \<Rightarrow> string) \<Rightarrow> keys_page \<Rightarrow> bool" where
  "page_inv esc p \<longleftrightarrow> ids_ok p \<and> codes_ok esc p"

lemma restored_rows:
  "kp_rows (restore_row (i, t) p) = map (\<lambda>r. if kr_id r = i then r\<lparr> kr_subtitle := t, kr_copy := None \<rparr> else r) (kp_rows p)"
  by (simp add: restore_row_def update_row_def)

lemma restores_rows: "kp_rows (fold restore_row xs p) =
    fold (\<lambda>(i, t). map (\<lambda>r. if kr_id r = i then r\<lparr> kr_subtitle := t, kr_copy := None \<rparr> else r)) xs (kp_rows p)"
  by (induction xs arbitrary: p) (auto simp: restored_rows)

lemma restore_fields:
  "row_keys (restore_row x p) = row_keys p" "kp_reads (restore_row x p) = kp_reads p" "kp_fresh (restore_row x p) = kp_fresh p"
  "kp_timers (restore_row x p) = kp_timers p" "kp_modal (restore_row x p) = kp_modal p"
  "kp_effects (restore_row x p) = kp_effects p" "kp_deletes (restore_row x p) = kp_deletes p" "kp_crashed (restore_row x p) = kp_crashed p"
  by (simp_all add: restore_row_def row_keys_update)

lemma restores_fields:
  "row_keys (fold restore_row xs p) = row_keys p" "kp_reads (fold restore_row xs p) = kp_reads p"
  "kp_fresh (fold restore_row xs p) = kp_fresh p" "kp_timers (fold restore_row xs p) = kp_timers p"
  "kp_modal (fold restore_row xs p) = kp_modal p" "kp_effects (fold restore_row xs p) = kp_effects p"
  "kp_deletes (fold restore_row xs p) = kp_deletes p" "kp_crashed (fold restore_row xs p) = kp_crashed p"
  by (induction xs arbitrary: p) (simp_all add: restore_fields)

lemma clear_fields [simp]:
  "row_keys (clear_codes p) = row_keys p" "kp_reads (clear_codes p) = kp_reads p" "kp_fresh (clear_codes p) = kp_fresh p"
  "kp_timers (clear_codes p) = kp_timers p" "kp_modal (clear_codes p) = kp_modal p" "kp_effects (clear_codes p) = kp_effects p"
  "kp_deletes (clear_codes p) = kp_deletes p" "kp_shown (clear_codes p) = []" "kp_crashed (clear_codes p) = kp_crashed p"
  using restores_fields [of "kp_shown p" "p\<lparr> kp_gen := kp_gen p + 1 \<rparr>"]
  by (simp_all add: clear_codes_def row_keys_def)

lemma cleared_plain: "codes_ok esc p \<Longrightarrow> rows_plain esc (clear_codes p)"
  by (auto simp: codes_ok_def clear_codes_def rows_plain_def restored_rows plain_row_def row_under_def list_all_iff)

lemma page_inv_clear: "page_inv esc p \<Longrightarrow> page_inv esc (clear_codes p)"
  using cleared_plain [of esc p] ids_ok_cong [of "clear_codes p" p] by (simp add: page_inv_def codes_ok_def)

lemma page_inv_cong:
  "row_keys q = row_keys p \<Longrightarrow> kp_fresh q = kp_fresh p \<Longrightarrow> set (kp_reads q) \<subseteq> set (kp_reads p) \<Longrightarrow>
    kp_shown q = kp_shown p \<Longrightarrow> kp_gen q = kp_gen p \<Longrightarrow> kp_timers q = kp_timers p \<Longrightarrow> kp_rows q = kp_rows p \<Longrightarrow>
    page_inv esc p \<Longrightarrow> page_inv esc q"
  using ids_ok_cong [of q p] codes_ok_cong [of q p esc] by (simp add: page_inv_def)

lemma page_inv_effect: "page_inv esc p \<Longrightarrow> page_inv esc (keys_effect x p)"
  by (rule page_inv_cong [of _ p]) (simp_all add: row_keys_def)

text \<open>A change of the buttons of a row changes nothing that is shown on it.\<close>

lemma page_inv_buttons:
  assumes "page_inv esc p"
    and "\<And>r. kr_id (f r) = kr_id r \<and> kr_entry (f r) = kr_entry r \<and> kr_copy (f r) = kr_copy r \<and> kr_subtitle (f r) = kr_subtitle r \<and> kr_cat (f r) = kr_cat r"
  shows "page_inv esc (update_row i f p)"
proof -
  have f: "plain_row esc (f r) = plain_row esc r" "plain_subtitle esc (f r) = plain_subtitle esc r" "kr_id (f r) = kr_id r" for r
    using assms(2) [of r] by (simp_all add: plain_row_def plain_subtitle_def split: option.split)
  have g: "row_under esc j orig (f r) = row_under esc j orig r" for j orig r
    by (simp add: row_under_def f)
  have rows: "list_all Q (kp_rows (update_row i f p)) = list_all Q (kp_rows p)" if "\<And>r. Q (f r) = Q r" for Q
  proof -
    have "Q \<circ> (\<lambda>r. if kr_id r = i then f r else r) = Q" by (rule ext) (simp add: that)
    then show ?thesis by (simp add: update_row_def list.pred_map)
  qed
  have "codes_ok esc p" using assms(1) by (simp add: page_inv_def)
  then have "codes_ok esc (update_row i f p)"
    by (simp add: codes_ok_def rows_plain_def rows f(1) g)
  moreover have "ids_ok (update_row i f p)"
    using assms ids_ok_cong [of "update_row i f p" p] row_keys_update [of f i p] by (simp add: page_inv_def)
  ultimately show ?thesis by (simp add: page_inv_def)
qed


lemma find_row:
  assumes "distinct (map kr_id rows)" "r \<in> set rows"
  shows "find (\<lambda>q. kr_id q = kr_id r) rows = Some r"
  using assms by (induction rows) (auto simp: image_iff)

text \<open>What is shown on a row after the code was put there, and what the timer will put back.\<close>

lemma page_inv_show:
  assumes "page_inv esc p"
  shows "page_inv esc (show_code esc i code p)"
proof -
  let ?p = "clear_codes p" and ?f = "\<lambda>t r. r\<lparr> kr_subtitle := t, kr_copy := Some code \<rparr>"
  have p: "page_inv esc ?p" "rows_plain esc ?p" "ids_ok ?p"
    using page_inv_clear [OF assms] cleared_plain [of esc p] assms by (simp_all add: page_inv_def)
  have d: "distinct (map kr_id (kp_rows ?p))"
    using p(3) by (simp add: ids_ok_def row_keys_def comp_def)
  have orig: "plain_subtitle esc r = subtitle_of (kr_id r) ?p" if "r \<in> set (kp_rows ?p)" for r
    using find_row [OF d that] p(2) that by (auto simp: subtitle_of_def rows_plain_def plain_row_def list_all_iff)
  have "page_inv esc (?p\<lparr> kp_crashed := True \<rparr>)"
    by (rule page_inv_cong [OF _ _ _ _ _ _ _ p(1)]) (simp_all add: row_keys_def)
  moreover have "page_inv esc ((update_row i (?f t) ?p)
      \<lparr> kp_timers := kp_timers ?p @ [kp_gen ?p], kp_shown := kp_shown ?p @ [(i, subtitle_of i ?p)] \<rparr>)" for t
  proof -
    have "row_keys (update_row i (?f t) ?p) = row_keys ?p" by (rule row_keys_update) simp
    then have "ids_ok ((update_row i (?f t) ?p)
        \<lparr> kp_timers := kp_timers ?p @ [kp_gen ?p], kp_shown := kp_shown ?p @ [(i, subtitle_of i ?p)] \<rparr>)"
      using p(3) by (auto simp: ids_ok_def row_keys_def)
    moreover have "codes_ok esc ((update_row i (?f t) ?p)
        \<lparr> kp_timers := kp_timers ?p @ [kp_gen ?p], kp_shown := kp_shown ?p @ [(i, subtitle_of i ?p)] \<rparr>)"
      using p(2) orig by (auto simp: codes_ok_def update_row_def rows_plain_def row_under_def list_all_iff)
    ultimately show ?thesis by (simp add: page_inv_def)
  qed
  ultimately show ?thesis by (simp add: show_code_def Let_def split: option.split)
qed

lemma page_inv_timer: "page_inv esc p \<Longrightarrow> page_inv esc (code_timer n p)"
proof -
  assume inv: "page_inv esc p"
  show ?thesis
  proof (cases "get_at (kp_timers p) n")
    case (Some g)
    let ?ts = "take n (kp_timers p) @ drop (Suc n) (kp_timers p)"
    let ?p = "p\<lparr> kp_timers := ?ts \<rparr>"
    have n: "n < length (kp_timers p)" "kp_timers p ! n = g" using Some by (auto simp: get_at_def split: if_splits)
    have "set (kp_timers p) \<subseteq> insert g (set ?ts)" using id_take_nth_drop [OF n(1)] n(2) by (metis set_eq_subset list.simps(15) set_append Un_insert_right)
    then have keep: "page_inv esc ?p" if "kp_gen p \<noteq> g"
      using inv that by (auto simp: page_inv_def codes_ok_def ids_ok_def row_keys_def rows_plain_def)
    have "rows_plain esc (clear_codes ?p)"
    proof -
      have "kp_rows (clear_codes ?p) = kp_rows (clear_codes p)"
        by (simp add: clear_codes_def restores_rows)
      then show ?thesis using cleared_plain [of esc p] inv by (simp add: page_inv_def rows_plain_def)
    qed
    moreover have "ids_ok ?p" using inv by (simp add: page_inv_def ids_ok_def row_keys_def)
    ultimately have "page_inv esc (clear_codes ?p)"
      using ids_ok_cong [of "clear_codes ?p" ?p] by (simp add: page_inv_def codes_ok_def)
    then show ?thesis using keep Some by (simp add: code_timer_def Let_def)
  qed (simp add: code_timer_def inv)
qed


text \<open>A new list has new ids, and none of its rows shows a code.\<close>

lemma populated_rows:
  "map kr_id (populate_rows esc n es) = [n..<n + length (populate_rows esc n es)]"
  "list_all (plain_row esc) (populate_rows esc n es)"
proof -
  let ?h = "filter (\<lambda>cat. count_of es cat = 0) keys_groups"
  have h: "map kr_id (map (\<lambda>(i, cat). hint_row i cat) zs) = map fst zs" for zs
    by (induction zs) (auto simp: hint_row_def)
  have e: "map kr_id (map (\<lambda>(i, e). entry_row esc i e) zs) = map fst zs" for zs
    by (induction zs) (auto simp: entry_row_def)
  have "map kr_id (populate_rows esc n es) = [n..<n + length ?h] @ [n + length ?h..<n + length ?h + length es]"
    unfolding populate_rows_def Let_def map_append h e by (simp add: map_fst_zip)
  moreover have len: "length (populate_rows esc n es) = length ?h + length es"
    by (simp add: populate_rows_def Let_def)
  ultimately show "map kr_id (populate_rows esc n es) = [n..<n + length (populate_rows esc n es)]"
    using upt_add_eq_append [of n "n + length ?h" "length es"] len by (simp add: add.assoc)
  show "list_all (plain_row esc) (populate_rows esc n es)"
    by (auto simp: populate_rows_def Let_def list_all_iff plain_row_def plain_subtitle_def hint_row_def entry_row_def)
qed

lemma page_inv_populate:
  assumes "page_inv esc p"
  shows "page_inv esc (keys_populate esc es p)"
proof -
  let ?q = "keys_populate esc es p" and ?rows = "populate_rows esc (kp_fresh p) es"
  have q: "kp_rows ?q = ?rows" "kp_fresh ?q = kp_fresh p + length ?rows" "kp_shown ?q = []" "kp_reads ?q = kp_reads p"
    by (simp_all add: keys_populate_def Let_def)
  have ids: "map fst (row_keys ?q) = [kp_fresh p..<kp_fresh p + length ?rows]"
    using populated_rows(1) by (simp add: row_keys_def q comp_def)
  have new: "kp_fresh p \<le> i \<and> i < kp_fresh p + length ?rows" if "(i, x) \<in> set (row_keys ?q)" for i x
  proof -
    have "i \<in> set (map fst (row_keys ?q))" using that by force
    then show ?thesis unfolding ids by simp
  qed
  have old: "i < kp_fresh p" if "(i, e, l) \<in> set (kp_reads p)" for i e l
    using assms that ids_okD(3) unfolding page_inv_def by blast
  have "ids_ok ?q"
  proof (rule ids_okI)
    show "distinct (map fst (row_keys ?q))" by (simp add: ids)
  next
    fix i x
    assume "(i, x) \<in> set (row_keys ?q)"
    then show "i < kp_fresh ?q" using new by (simp add: q)
  next
    fix i e l
    assume "(i, e, l) \<in> set (kp_reads ?q)"
    then show "i < kp_fresh ?q" using old by (fastforce simp: q)
  next
    fix i e l x
    assume "(i, e, l) \<in> set (kp_reads ?q)" "(i, x) \<in> set (row_keys ?q)"
    then show "x = Some e" using old new by (fastforce simp: q)
  qed
  then show ?thesis
    using populated_rows(2) [of esc "kp_fresh p" es] by (simp add: page_inv_def codes_ok_def rows_plain_def q)
qed

lemma page_inv_read_added:
  assumes "page_inv esc p" "r \<in> set (kp_rows p)" "kr_entry r = Some e"
  shows "page_inv esc (p\<lparr> kp_reads := kp_reads p @ [(kr_id r, e, l)] \<rparr>)"
proof -
  let ?q = "p\<lparr> kp_reads := kp_reads p @ [(kr_id r, e, l)] \<rparr>"
  have ok: "ids_ok p" using assms(1) by (simp add: page_inv_def)
  have r: "(kr_id r, Some e) \<in> set (row_keys p)"
    using assms(2,3) by (auto simp: row_keys_def intro: rev_image_eqI)
  have same: "x = Some e" if "(kr_id r, x) \<in> set (row_keys p)" for x
    using ids_okD(1) [OF ok] r that by (metis eq_key_imp_eq_value)
  have keys: "row_keys ?q = row_keys p" by (simp add: row_keys_def)
  have "ids_ok ?q"
    by (rule ids_okI) (use ids_okD [OF ok] same r in \<open>auto simp: keys\<close>)
  then show ?thesis
    using assms(1) by (simp add: page_inv_def codes_ok_def rows_plain_def)
qed

lemma row_at: "get_at (kp_rows p) n = Some r \<Longrightarrow> r \<in> set (kp_rows p)"
  by (auto simp: get_at_def split: if_splits)

lemma page_inv_primary:
  assumes "page_inv esc p" "r \<in> set (kp_rows p)" "kr_entry r = Some e"
  shows "page_inv esc (primary_action r e p)"
proof -
  let ?f = "\<lambda>r. r\<lparr> kr_primary_on := False, kr_label := ''Touch the device'' @ ellipsis \<rparr>"
  have "page_inv esc (update_row (kr_id r) ?f p)" by (rule page_inv_buttons [OF assms(1)]) simp
  moreover have "?f r \<in> set (kp_rows (update_row (kr_id r) ?f p))" using assms(2) by (auto simp: update_row_def intro: rev_image_eqI)
  ultimately have "page_inv esc ((update_row (kr_id r) ?f p)\<lparr> kp_reads := kp_reads p @ [(kr_id r, e, kr_label r)] \<rparr>)"
    using page_inv_read_added [of esc "update_row (kr_id r) ?f p" "?f r" e "kr_label r"] assms(3) by simp
  then show ?thesis
    using page_inv_effect assms(1) by (auto simp: primary_action_def keys_toast_def split: key_category.split)
qed

lemma page_inv_same [simp]:
  "page_inv esc (refresh_add_buttons p) = page_inv esc p" "page_inv esc (keys_pause p) = page_inv esc p"
  "page_inv esc (p\<lparr> kp_modal := m \<rparr>) = page_inv esc p" "page_inv esc (p\<lparr> kp_loads := n \<rparr>) = page_inv esc p"
  "page_inv esc (p\<lparr> kp_connected := b \<rparr>) = page_inv esc p" "page_inv esc (p\<lparr> kp_deletes := ds \<rparr>) = page_inv esc p"
  "page_inv esc (p\<lparr> kp_pauses := n \<rparr>) = page_inv esc p" "page_inv esc (keys_reload p) = page_inv esc p"
  "page_inv esc (keys_effect x p) = page_inv esc p" "page_inv esc (keys_toast t n p) = page_inv esc p"
  by (simp_all add: page_inv_def ids_ok_def codes_ok_def row_keys_def rows_plain_def keys_reload_def keys_toast_def)

lemma page_inv_read:
  assumes "page_inv esc p"
  shows "page_inv esc (keys_read esc n r p)"
proof (cases "get_at (kp_reads p) n")
  case (Some x)
  obtain i e l where x: "x = (i, e, l)" by (cases x)
  let ?f = "\<lambda>r. r\<lparr> kr_label := l, kr_primary_on := True \<rparr>"
  let ?p = "(update_row i ?f p)\<lparr> kp_reads := take n (kp_reads p) @ drop (Suc n) (kp_reads p) \<rparr>"
  have "page_inv esc (update_row i ?f p)" by (rule page_inv_buttons [OF assms]) simp
  then have "page_inv esc ?p"
    by (rule page_inv_cong [rotated -1]) (auto simp: row_keys_def dest: in_set_takeD in_set_dropD)
  then show ?thesis
    using page_inv_show by (auto simp: keys_read_def Some x Let_def split: option.split result.split)
qed (simp add: keys_read_def assms)

lemma page_inv_step: "page_inv esc p \<Longrightarrow> page_inv esc (keys_step esc e p)"
proof (cases e)
  case (KeyConfirm yes)
  then show "page_inv esc p \<Longrightarrow> ?thesis"
    by (auto simp: start_key_delete_def page_inv_buttons split: keys_modal.split)
next
  case (KeyDeleted n r)
  then show "page_inv esc p \<Longrightarrow> ?thesis"
    by (auto simp: keys_deleted_def Let_def page_inv_buttons split: option.split result.split)
next
  case (KeyPrimary n)
  then show "page_inv esc p \<Longrightarrow> ?thesis"
    by (auto simp: keys_click_def click_row_def open_add_def page_inv_primary dest: row_at split: option.split)
qed (auto simp: keys_loaded_def page_inv_populate keys_connected_def Let_def page_inv_clear page_inv_timer
    keys_click_def open_add_def keys_added_def click_copy_def page_inv_read click_delete_def split: option.split keys_modal.split)

interpretation keys_machine: event_machine "keys_step esc" "page_inv esc" for esc
  by unfold_locales (rule page_inv_step)

lemma page_inv_new: "page_inv esc keys_new"
  by (simp add: keys_new_def) (simp add: page_inv_def ids_ok_def codes_ok_def row_keys_def rows_plain_def)

lemma page_inv_run: "page_inv esc (keys_run esc es)"
  unfolding keys_run_def by (rule keys_machine.run_inv [OF page_inv_new])


text \<open>
  Fact: In every state that loads, clicks, answers and timers can lead to, in any order, at most one row shows
  a one-time code, none does once no timer is pending, and switching the page away gives every row its own
  text back at once.
\<close>

theorem codes_are_hidden:
  "let p = keys_run esc es in
     length (filter (\<lambda>r. \<not> plain_row esc r) (kp_rows p)) \<le> 1 \<and>
     (kp_timers p = [] \<longrightarrow> list_all (plain_row esc) (kp_rows p)) \<and>
     list_all (plain_row esc) (kp_rows (keys_step esc KeyLeave p))"
proof -
  define p where "p = keys_run esc es"
  have inv: "ids_ok p" "codes_ok esc p" using page_inv_run [of esc es] by (simp_all add: page_inv_def p_def)
  have d: "distinct (map kr_id (kp_rows p))" using ids_okD(1) [OF inv(1)] by (simp add: row_keys_def comp_def)
  have few: "length (filter (\<lambda>r. \<not> plain_row esc r) rows) \<le> 1"
    if "list_all (row_under esc i orig) rows" "distinct (map kr_id rows)" for i orig rows
  proof -
    have "length (filter (\<lambda>r. \<not> plain_row esc r) rows) \<le> length (filter (\<lambda>r. kr_id r = i) rows)"
      using that(1) by (induction rows) (auto simp: row_under_def)
    also have "\<dots> \<le> 1" using that(2) by (induction rows) (auto simp: image_iff filter_empty_conv)
    finally show ?thesis .
  qed
  have none: "filter (\<lambda>r. \<not> plain_row esc r) (kp_rows p) = []" if "rows_plain esc p"
    using that by (auto simp: rows_plain_def list_all_iff filter_empty_conv)
  have "length (filter (\<lambda>r. \<not> plain_row esc r) (kp_rows p)) \<le> 1"
    using inv(2) few [OF _ d] none unfolding codes_ok_def by fastforce
  moreover have "kp_timers p = [] \<Longrightarrow> list_all (plain_row esc) (kp_rows p)"
    using inv(2) by (auto simp: codes_ok_def rows_plain_def)
  moreover have "list_all (plain_row esc) (kp_rows (clear_codes p))"
    using cleared_plain [OF inv(2)] by (simp add: rows_plain_def)
  ultimately show ?thesis by (simp add: p_def Let_def)
qed

section \<open>Requests\<close>

fun kasked :: "keys_effect list \<Rightarrow> string list" where
  "kasked [] = []"
| "kasked (KeysAsked r # es) = r # kasked es"
| "kasked (KeysToast t n # es) = kasked es"
| "kasked (KeysCopied t # es) = kasked es"

lemma kasked_append [simp]: "kasked (es @ fs) = kasked es @ kasked fs"
  by (induction es rule: kasked.induct) simp_all

lemma kasked_mem: "KeysAsked r \<in> set es \<longleftrightarrow> r \<in> set (kasked es)"
  by (induction es rule: kasked.induct) auto


definition entry_request :: "key_entry \<Rightarrow> string \<Rightarrow> bool" where
  "entry_request e rq \<longleftrightarrow> rq = delete_key_cmd (ke_category e) (ke_index e) \<or>
     ke_category e \<noteq> Ssh \<and> rq = get_gated_cmd (ke_category e) (ke_name e)"

definition on_page :: "keys_page \<Rightarrow> key_entry \<Rightarrow> bool" where
  "on_page p e \<longleftrightarrow> (\<exists>r \<in> set (kp_rows p). kr_entry r = Some e)"

lemma show_code_asks [simp]: "kp_effects (show_code esc i c p) = kp_effects p" "kp_modal (show_code esc i c p) = kp_modal p"
  by (auto simp: show_code_def Let_def split: option.split)

lemma populate_asks [simp]: "kp_effects (keys_populate esc es p) = kp_effects p" "kp_modal (keys_populate esc es p) = kp_modal p"
  by (simp_all add: keys_populate_def Let_def)

lemma timer_asks [simp]: "kp_effects (code_timer n p) = kp_effects p" "kp_modal (code_timer n p) = kp_modal p"
  by (auto simp: code_timer_def Let_def split: option.split)

lemma toast_asks [simp]: "kasked (kp_effects (keys_toast t n p)) = kasked (kp_effects p)" "kp_modal (keys_toast t n p) = kp_modal p"
  by (simp_all add: keys_toast_def)

lemma reload_asks [simp]: "kp_effects (keys_reload p) = kp_effects p" "kp_modal (keys_reload p) = kp_modal p"
  by (simp_all add: keys_reload_def)

lemma read_asks [simp]:
  "kasked (kp_effects (keys_read esc n r p)) = kasked (kp_effects p)" "kp_modal (keys_read esc n r p) = kp_modal p"
  by (auto simp: keys_read_def Let_def split: option.split result.split)

lemma deleted_asks [simp]:
  "kasked (kp_effects (keys_deleted esc n r p)) = kasked (kp_effects p)" "kp_modal (keys_deleted esc n r p) = kp_modal p"
  by (auto simp: keys_deleted_def Let_def split: option.split result.split)

text \<open>What a step asks of the daemon, and what the question it opens is about.\<close>

definition keys_requests :: "keys_event \<Rightarrow> keys_page \<Rightarrow> string list \<Rightarrow> bool" where
  "keys_requests ev p new \<longleftrightarrow> new = [] \<or>
     (\<exists>e. on_page p e \<and> ke_category e \<noteq> Ssh \<and> new = [get_gated_cmd (ke_category e) (ke_name e)]) \<or>
     ev = KeyConfirm True \<and> (\<exists>i e. kp_modal p = KmConfirm i e \<and> new = [delete_key_cmd (ke_category e) (ke_index e)])"

lemma keys_requests_none [simp]: "keys_requests ev p []"
  by (simp add: keys_requests_def)

lemma primary_asks:
  assumes "on_page p e"
  shows "\<exists>new. kasked (kp_effects (primary_action r e p)) = kasked (kp_effects p) @ new \<and> keys_requests ev p new"
  using assms by (cases "ke_category e") (auto simp: primary_action_def keys_requests_def)

lemma keys_step_asks:
  "\<exists>new. kasked (kp_effects (keys_step esc ev p)) = kasked (kp_effects p) @ new \<and> keys_requests ev p new"
proof (cases ev)
  case (KeyPrimary n)
  show ?thesis
  proof (cases "get_at (kp_rows p) n")
    case (Some r)
    show ?thesis
    proof (cases "kr_entry r")
      case (Some e)
      have "on_page p e" using Some row_at [OF \<open>get_at (kp_rows p) n = Some r\<close>] by (auto simp: on_page_def)
      then show ?thesis
        using primary_asks [of p e r ev] Some \<open>get_at (kp_rows p) n = Some r\<close> KeyPrimary
        by (auto simp: keys_click_def click_row_def)
    qed (simp add: KeyPrimary keys_click_def click_row_def Some open_add_def)
  qed (simp add: KeyPrimary keys_click_def click_row_def)
next
  case (KeyConfirm yes)
  then show ?thesis
    by (auto simp: start_key_delete_def keys_requests_def split: keys_modal.split)
qed (auto simp: keys_loaded_def keys_connected_def keys_click_def open_add_def keys_added_def click_copy_def click_delete_def Let_def
    split: option.split keys_modal.split)

lemma keys_step_question:
  assumes "kp_modal (keys_step esc ev p) = KmConfirm i e"
  shows "kp_modal p = KmConfirm i e \<or> on_page p e"
  using assms
  by (cases ev)
    (auto simp: keys_loaded_def keys_connected_def keys_click_def open_add_def keys_added_def click_copy_def click_delete_def
      click_row_def primary_action_def start_key_delete_def on_page_def Let_def dest: row_at
      split: option.splits keys_modal.splits if_splits key_category.splits)

definition was_on_page :: "(string \<Rightarrow> string) \<Rightarrow> keys_event list \<Rightarrow> key_entry \<Rightarrow> bool" where
  "was_on_page esc es e \<longleftrightarrow> (\<exists>fs gs. es = fs @ gs \<and> on_page (keys_run esc fs) e)"

lemma was_on_page_snoc: "was_on_page esc es e \<Longrightarrow> was_on_page esc (es @ [ev]) e"
  unfolding was_on_page_def by (metis append.assoc)

lemma was_on_page_now: "on_page (keys_run esc es) e \<Longrightarrow> was_on_page esc (es @ gs) e"
  unfolding was_on_page_def by blast

lemma keys_run_snoc: "keys_run esc (es @ [ev]) = keys_step esc ev (keys_run esc es)"
  by (simp add: keys_run_def)

lemma keys_questions: "kp_modal (keys_run esc es) = KmConfirm i e \<Longrightarrow> was_on_page esc es e"
proof (induction es rule: rev_induct)
  case Nil
  then show ?case by (simp add: keys_run_def keys_new_def)
next
  case (snoc ev es)
  then show ?case
    using keys_step_question [of esc ev "keys_run esc es" i e] was_on_page_snoc was_on_page_now by (metis keys_run_snoc)
qed

lemma keys_requests_backed:
  "rq \<in> set (kasked (kp_effects (keys_run esc es))) \<Longrightarrow> \<exists>e. was_on_page esc es e \<and> entry_request e rq"
proof (induction es rule: rev_induct)
  case Nil
  then show ?case by (simp add: keys_run_def keys_new_def keys_reload_def)
next
  case (snoc ev es)
  obtain new where new: "kasked (kp_effects (keys_run esc (es @ [ev]))) = kasked (kp_effects (keys_run esc es)) @ new"
    "keys_requests ev (keys_run esc es) new"
    using keys_step_asks [of esc ev "keys_run esc es"] unfolding keys_run_snoc by blast
  show ?case
  proof (cases "rq \<in> set new")
    case True
    then obtain e where "entry_request e rq" "on_page (keys_run esc es) e \<or> (\<exists>i. kp_modal (keys_run esc es) = KmConfirm i e)"
      using new(2) unfolding keys_requests_def by (elim disjE) (fastforce simp: entry_request_def)+
    then show ?thesis using was_on_page_now was_on_page_snoc keys_questions by metis
  next
    case False
    then show ?thesis using snoc new(1) was_on_page_snoc by fastforce
  qed
qed

definition key_deletions :: "keys_page \<Rightarrow> nat" where
  "key_deletions p = length (filter (starts_with ''KEY:DELETE:'') (kasked (kp_effects p)))"

lemma key_deletions_confirmed: "key_deletions (keys_run esc es) \<le> count_list es (KeyConfirm True)"
proof (induction es rule: rev_induct)
  case Nil
  then show ?case by (simp add: keys_run_def keys_new_def keys_reload_def key_deletions_def)
next
  case (snoc ev es)
  obtain new where new: "kasked (kp_effects (keys_run esc (es @ [ev]))) = kasked (kp_effects (keys_run esc es)) @ new"
    "keys_requests ev (keys_run esc es) new"
    using keys_step_asks [of esc ev "keys_run esc es"] unfolding keys_run_snoc by blast
  have "length (filter (starts_with ''KEY:DELETE:'') new) \<le> (if ev = KeyConfirm True then 1 else 0)"
    using new(2) unfolding keys_requests_def by (elim disjE) (auto simp: get_gated_cmd_def starts_with_def)
  then show ?case using snoc new(1) by (simp add: key_deletions_def split: if_splits)
qed

text \<open>
  Fact: Over all loads, clicks, answers and dialogs, the keys page deletes at most as many keys as questions
  were confirmed, and asks the daemon only to read or delete an entry that was on the page.
\<close>

theorem gui_keys_only_listed:
  "key_deletions (keys_run esc es) \<le> count_list es (KeyConfirm True) \<and>
   (\<forall>rq. KeysAsked rq \<in> set (kp_effects (keys_run esc es)) \<longrightarrow> (\<exists>e. was_on_page esc es e \<and> entry_request e rq))"
  using key_deletions_confirmed keys_requests_backed by (simp add: kasked_mem)


definition sample_entry :: key_entry where
  "sample_entry = \<lparr> ke_index = 3, ke_category = Otp, ke_name = ''mail'', ke_service = ''example.org'', ke_blob = [] \<rparr>"

definition sample_events :: "keys_event list" where
  "sample_events = [KeyLoaded (Some [sample_entry]), KeyDelete 2, KeyConfirm True, KeyPrimary 2, KeyRead 0 (Some (Ok ''123456''))]"

lemma sample_keys_run:
  "kp_effects (keys_run (\<lambda>s. s) sample_events) = [KeysToast (''Touch the device to confirm deletion'' @ ellipsis) 30,
     KeysAsked ''KEY:DELETE:otp:3'', KeysAsked ''GET:otp:mail'']"
  "kp_timers (keys_run (\<lambda>s. s) sample_events) = [2]"
  "map kr_copy (kp_rows (keys_run (\<lambda>s. s) sample_events)) = [None, None, Some ''123456'']"
  "map kr_entry (kp_rows (keys_run (\<lambda>s. s) sample_events)) = [None, None, Some sample_entry]"
  by code_simp+

theorem gui_keys_only_listed_witness:
  "\<exists>e. was_on_page (\<lambda>s. s) sample_events e \<and> entry_request e ''KEY:DELETE:otp:3''"
  using gui_keys_only_listed [of "\<lambda>s. s" sample_events] by (simp add: sample_keys_run)

theorem codes_are_hidden_witness:
  "list_all (plain_row (\<lambda>s. s)) (kp_rows (keys_run (\<lambda>s. s) (sample_events @ [KeyTimer 0])))"
proof -
  have "kp_timers (keys_run (\<lambda>s. s) (sample_events @ [KeyTimer 0])) = []" by code_simp
  then show ?thesis
    using codes_are_hidden [of "\<lambda>s. s" "sample_events @ [KeyTimer 0]"] by (simp only: Let_def simp_thms)
qed

section \<open>Whose code is shown\<close>

definition copies_kept :: "key_row list \<Rightarrow> key_row list \<Rightarrow> bool" where
  "copies_kept rows rows' \<longleftrightarrow>
     (\<forall>r c. r \<in> set rows' \<and> kr_copy r = Some c \<longrightarrow> (\<exists>q. q \<in> set rows \<and> kr_copy q = Some c \<and> kr_entry q = kr_entry r))"

lemma copies_kept_refl [simp]: "copies_kept rows rows"
  by (auto simp: copies_kept_def)

lemma copies_kept_trans: "copies_kept a b \<Longrightarrow> copies_kept b c \<Longrightarrow> copies_kept a c"
  unfolding copies_kept_def by metis

lemma copies_kept_map: "(\<And>r. kr_entry (f r) = kr_entry r \<and> (kr_copy (f r) = kr_copy r \<or> kr_copy (f r) = None)) \<Longrightarrow>
    copies_kept rows (map f rows)"
  unfolding copies_kept_def by (smt (verit, best) imageE list.set_map option.distinct(1))

lemma copies_kept_update:
  "(\<And>r. kr_entry (f r) = kr_entry r \<and> kr_copy (f r) = kr_copy r) \<Longrightarrow> copies_kept (kp_rows p) (kp_rows (update_row i f p))"
  by (simp add: update_row_def copies_kept_map)

lemma copies_kept_clear: "copies_kept (kp_rows p) (kp_rows (clear_codes p))"
proof -
  let ?g = "\<lambda>(i, t). map (\<lambda>r. if kr_id r = i then r\<lparr> kr_subtitle := t, kr_copy := None \<rparr> else r)"
  have "copies_kept rows (fold ?g xs rows)" for xs rows
  proof (induction xs arbitrary: rows)
    case (Cons x xs)
    have "copies_kept rows (?g x rows)" by (cases x) (simp add: copies_kept_map)
    then show ?case using copies_kept_trans [OF _ Cons.IH] by simp
  qed simp
  then show ?thesis by (simp add: clear_codes_def restores_rows)
qed

lemma copies_kept_timer: "copies_kept (kp_rows p) (kp_rows (code_timer n p))"
  using copies_kept_clear [of "p\<lparr> kp_timers := take n (kp_timers p) @ drop (Suc n) (kp_timers p) \<rparr>"]
  by (auto simp: code_timer_def Let_def split: option.split)

lemma copies_kept_populate: "copies_kept (kp_rows p) (kp_rows (keys_populate esc es q))"
  using populated_rows(2) [of esc "kp_fresh (clear_codes q)" es]
  by (auto simp: copies_kept_def keys_populate_def Let_def list_all_iff plain_row_def)

lemma shown_rows:
  assumes "r \<in> set (kp_rows (show_code esc i code p))" "kr_copy r = Some c"
  shows "(\<exists>q \<in> set (kp_rows p). kr_copy q = Some c \<and> kr_entry q = kr_entry r) \<or> kr_id r = i \<and> c = code"
proof (cases "kr_id r = i \<and> c = code")
  case False
  then have "r \<in> set (kp_rows (clear_codes p))"
    using assms by (auto simp: show_code_def Let_def update_row_def split: option.splits if_splits)
  then show ?thesis using copies_kept_clear [of p] assms(2) unfolding copies_kept_def by blast
qed simp

lemma show_code_keys: "row_keys (show_code esc i code p) = row_keys p"
proof -
  have "row_keys (update_row i (\<lambda>r. r\<lparr> kr_subtitle := t, kr_copy := Some code \<rparr>) (clear_codes p)) = row_keys p" for t
    using row_keys_update [of "\<lambda>r. r\<lparr> kr_subtitle := t, kr_copy := Some code \<rparr>" i "clear_codes p"] by simp
  moreover have "row_keys ((clear_codes p)\<lparr> kp_crashed := True \<rparr>) = row_keys (clear_codes p)" by (simp add: row_keys_def)
  ultimately show ?thesis
    by (simp add: show_code_def Let_def split: option.split) (simp add: row_keys_def)
qed

text \<open>Where the code of a row comes from: it was there, or the read of the row's own entry answered it.\<close>

lemma read_code:
  assumes "page_inv esc p" "r \<in> set (kp_rows (keys_read esc n res p))" "kr_copy r = Some c"
  shows "(\<exists>q \<in> set (kp_rows p). kr_copy q = Some c \<and> kr_entry q = kr_entry r) \<or>
    res = Some (Ok c) \<and> (\<exists>i e l. get_at (kp_reads p) n = Some (i, e, l) \<and> kr_entry r = Some e)"
proof (cases "get_at (kp_reads p) n")
  case (Some x)
  obtain i e l where x: "x = (i, e, l)" by (cases x)
  let ?f = "\<lambda>r. r\<lparr> kr_label := l, kr_primary_on := True \<rparr>"
  let ?p = "(update_row i ?f p)\<lparr> kp_reads := take n (kp_reads p) @ drop (Suc n) (kp_reads p) \<rparr>"
  have kept: "copies_kept (kp_rows p) (kp_rows ?p)" using copies_kept_update [of ?f p i] by simp
  show ?thesis
  proof (cases "\<exists>v. res = Some (Ok v) \<and> ke_category e = Otp")
    case False
    then have eq: "kp_rows (keys_read esc n res p) = kp_rows ?p"
      by (auto simp: keys_read_def Some x Let_def keys_toast_def split: option.split result.split)
    have "r \<in> set (kp_rows ?p)" using assms(2) by (simp only: eq)
    then show ?thesis using kept assms(3) unfolding copies_kept_def by blast
  next
    case True
    then obtain v where v: "res = Some (Ok v)" "ke_category e = Otp" by blast
    then have shown: "r \<in> set (kp_rows (show_code esc i v ?p))"
      using assms(2) by (simp add: keys_read_def Some x Let_def)
    have mem: "(i, e, l) \<in> set (kp_reads p)" using Some x by (auto simp: get_at_def split: if_splits dest: nth_mem)
    have keys: "row_keys (show_code esc i v ?p) = row_keys p"
      using show_code_keys [of esc i v ?p] row_keys_update [of ?f i p] by (simp add: row_keys_def)
    have "(kr_id r, kr_entry r) \<in> set (row_keys p)" using shown unfolding keys [symmetric] by (auto simp: row_keys_def)
    then have "kr_id r = i \<Longrightarrow> kr_entry r = Some e" using ids_okD(4) [OF _ mem] assms(1) by (auto simp: page_inv_def)
    then have own: "kr_id r = i \<and> c = v \<Longrightarrow> ?thesis" using v(1) Some x by simp
    have "?thesis" if q: "q \<in> set (kp_rows ?p)" "kr_copy q = Some c" "kr_entry q = kr_entry r" for q
    proof -
      obtain q0 where "q0 \<in> set (kp_rows p)" "kr_copy q0 = Some c" "kr_entry q0 = kr_entry q"
        using kept q(1,2) unfolding copies_kept_def by blast
      then show ?thesis using q(3) by auto
    qed
    then show ?thesis using shown_rows [OF shown assms(3)] own by blast
  qed
qed (use assms in \<open>auto simp: keys_read_def\<close>)

lemma row_step_code:
  assumes "page_inv esc p" "r \<in> set (kp_rows (keys_step esc ev p))" "kr_copy r = Some c"
  shows "(\<exists>q \<in> set (kp_rows p). kr_copy q = Some c \<and> kr_entry q = kr_entry r) \<or>
    (\<exists>n i e l. ev = KeyRead n (Some (Ok c)) \<and> get_at (kp_reads p) n = Some (i, e, l) \<and> kr_entry r = Some e)"
proof (cases "\<exists>n res. ev = KeyRead n res")
  case True
  then show ?thesis using read_code [OF assms(1) _ assms(3)] assms(2) by fastforce
next
  case False
  have up: "copies_kept (kp_rows p) (kp_rows (update_row i (\<lambda>r. r\<lparr> kr_primary_on := b, kr_label := t \<rparr>) p))"
    "copies_kept (kp_rows p) (kp_rows (update_row i (\<lambda>r. r\<lparr> kr_delete_on := b \<rparr>) p))" for i b t
    by (rule copies_kept_update, simp)+
  have "copies_kept (kp_rows p) (kp_rows (keys_step esc ev p))"
    using False copies_kept_populate copies_kept_clear copies_kept_timer up
    by (cases ev) (auto simp: keys_loaded_def keys_connected_def keys_click_def open_add_def keys_added_def click_copy_def
      click_delete_def click_row_def primary_action_def start_key_delete_def keys_deleted_def keys_toast_def keys_reload_def Let_def
      split: option.split keys_modal.split result.split key_category.split)
  then show ?thesis using assms(2,3) unfolding copies_kept_def by blast
qed

text \<open>
  Fact: A code on a row is the device's answer for that row's entry: whatever reloads, other reads and
  timers lie between, the answer came to a read that was started for this entry.
\<close>

theorem shown_code_is_its_own:
  assumes "r \<in> set (kp_rows (keys_run esc es))" "kr_copy r = Some c"
  shows "\<exists>fs n gs i e l. es = fs @ KeyRead n (Some (Ok c)) # gs \<and>
    get_at (kp_reads (keys_run esc fs)) n = Some (i, e, l) \<and> kr_entry r = Some e"
  using assms
proof (induction es arbitrary: r rule: rev_induct)
  case Nil
  then show ?case by (simp add: keys_run_def keys_new_def keys_reload_def)
next
  case (snoc ev es)
  from row_step_code [OF page_inv_run snoc.prems [unfolded keys_run_snoc]]
  show ?case
  proof
    assume "\<exists>q \<in> set (kp_rows (keys_run esc es)). kr_copy q = Some c \<and> kr_entry q = kr_entry r"
    then obtain q where q: "q \<in> set (kp_rows (keys_run esc es))" "kr_copy q = Some c" "kr_entry q = kr_entry r" by blast
    obtain fs n gs i e l where "es = fs @ KeyRead n (Some (Ok c)) # gs"
      "get_at (kp_reads (keys_run esc fs)) n = Some (i, e, l)" "kr_entry q = Some e" using snoc.IH [OF q(1,2)] by blast
    then have "es @ [ev] = fs @ KeyRead n (Some (Ok c)) # (gs @ [ev]) \<and>
        get_at (kp_reads (keys_run esc fs)) n = Some (i, e, l) \<and> kr_entry r = Some e" using q(3) by simp
    then show ?thesis by blast
  next
    assume "\<exists>n i e l. ev = KeyRead n (Some (Ok c)) \<and> get_at (kp_reads (keys_run esc es)) n = Some (i, e, l) \<and> kr_entry r = Some e"
    then show ?thesis by blast
  qed
qed

theorem shown_code_is_its_own_witness:
  "\<exists>fs n gs i l. sample_events = fs @ KeyRead n (Some (Ok ''123456'')) # gs \<and>
    get_at (kp_reads (keys_run (\<lambda>s. s) fs)) n = Some (i, sample_entry, l)"
proof -
  let ?rows = "kp_rows (keys_run (\<lambda>s. s) sample_events)"
  have len: "length ?rows = 3" using arg_cong [OF sample_keys_run(3), of length] by simp
  then have r: "?rows ! 2 \<in> set ?rows" by simp
  have "kr_copy (?rows ! 2) = map kr_copy ?rows ! 2" "kr_entry (?rows ! 2) = map kr_entry ?rows ! 2" using len by simp_all
  then have "kr_copy (?rows ! 2) = Some ''123456''" "kr_entry (?rows ! 2) = Some sample_entry"
    unfolding sample_keys_run by simp_all
  then show ?thesis using shown_code_is_its_own [OF r] by fastforce
qed

text \<open>
  Fact: a code of six bytes that are not six characters ends the page: the slices panic. The daemon's own
  answers are six digits.
\<close>

theorem code_slice_panics:
  "length code = 6 \<Longrightarrow> \<not> is_char_boundary code 3 \<Longrightarrow> kp_crashed (show_code esc i code p)"
  by (simp add: show_code_def pretty_code_def Let_def)

theorem code_slice_panics_witness:
  "kp_crashed (show_code (\<lambda>s. s) 0 [CHR ''1'', CHR ''2'', CHR 0xE2, CHR 0x82, CHR 0xAC, CHR ''3''] keys_new)"
  by (rule code_slice_panics) (simp, code_simp)

end
