(* ===== verification/Gui_Keyadd.thy ===== *)
theory Gui_Keyadd
  imports Gui_Keys Ssh_Import
begin

text \<open>
  The dialog that adds a key (\<open>key_add_dialog.rs\<close>): its fields, which are cut to the size of the device's
  fields as they are typed, the paste of an otpauth URI, the writes of the three categories and the import of
  a file. A task the dialog has started is a value; the answers of the daemon, the choice of a file and the
  question come as events. JSON and the case of Unicode are arguments; the layout is left out.
\<close>

datatype add_call =
    CallGenerate string
  | CallImportSsh string string
  | CallAddOtp otp_entry
  | CallAddApi string string

text \<open>
  What the dialog waits for: the choice of a key file or of an import file, the number of entries in use, the
  question, one write with the name it adds and the word its failure is told with, or the import: the
  entries left after the one that is written, how many were written, and how many there are.
\<close>

datatype add_task =
    AtKeyFile string
  | AtOtpFile
  | AtCount "otp_entry list" nat
  | AtConfirm "otp_entry list" string string
  | AtWrite string string
  | AtImport "otp_entry list" nat nat

text \<open>
  \<open>ad_signal\<close> is the message of the closed window to the function \<open>run\<close>, \<open>ad_result\<close> what that has
  returned. The sensitivity of the three buttons is the negation of \<open>ad_busy\<close>.
\<close>

record add_dialog =
  ad_cat :: key_category
  ad_name :: string
  ad_service :: string
  ad_secret :: string
  ad_error :: string
  ad_error_on :: bool
  ad_label :: string
  ad_busy :: bool
  ad_open :: bool
  ad_tasks :: "add_task list"
  ad_written :: "string option"
  ad_signal :: bool
  ad_result :: "string option option"
  ad_calls :: "add_call list"

definition idle_label :: "key_category \<Rightarrow> string" where
  "idle_label cat = (case cat of Ssh \<Rightarrow> ''Generate on device'' | _ \<Rightarrow> ''Add'')"

definition name_limit :: "key_category \<Rightarrow> nat" where
  "name_limit cat = (case cat of Ssh \<Rightarrow> NAME_LEN_SSH - 1 | Otp \<Rightarrow> NAME_LEN_OTP - 1 | Api \<Rightarrow> NAME_LEN_API - 1)"

definition add_new :: "key_category \<Rightarrow> add_dialog" where
  "add_new cat = \<lparr> ad_cat = cat, ad_name = [], ad_service = [], ad_secret = [], ad_error = [], ad_error_on = False,
     ad_label = idle_label cat, ad_busy = False, ad_open = True, ad_tasks = [], ad_written = None, ad_signal = False,
     ad_result = None, ad_calls = [] \<rparr>"

definition show_error :: "string \<Rightarrow> add_dialog \<Rightarrow> add_dialog" where
  "show_error t d = d\<lparr> ad_error := t, ad_error_on := True \<rparr>"

definition set_add_busy :: "bool \<Rightarrow> add_dialog \<Rightarrow> add_dialog" where
  "set_add_busy b d = d\<lparr> ad_busy := b, ad_label := (if b then ''Touch the device'' @ ellipsis else idle_label (ad_cat d)),
     ad_error_on := (ad_error_on d \<and> \<not> b) \<rparr>"

text \<open>The window goes, and the first message is kept.\<close>

definition window_gone :: "add_dialog \<Rightarrow> add_dialog" where
  "window_gone d = d\<lparr> ad_open := False, ad_signal := True \<rparr>"

definition close_request :: "add_dialog \<Rightarrow> add_dialog" where
  "close_request d = (if ad_busy d then d else window_gone d)"

definition finish_dialog :: "add_dialog \<Rightarrow> add_dialog" where
  "finish_dialog d = window_gone (d\<lparr> ad_busy := False \<rparr>)"

section \<open>The fields\<close>

definition clamp_text :: "nat \<Rightarrow> string \<Rightarrow> string" where
  "clamp_text mx t = (if mx < length t then take (cut_back t mx) t else t)"

definition set_name :: "string \<Rightarrow> add_dialog \<Rightarrow> add_dialog" where
  "set_name t d = d\<lparr> ad_name := clamp_text (name_limit (ad_cat d)) t \<rparr>"

definition set_service :: "string \<Rightarrow> add_dialog \<Rightarrow> add_dialog" where
  "set_service t d = d\<lparr> ad_service := clamp_text (SERVICE_LEN_OTP - 1) t \<rparr>"

definition name_of :: "string \<Rightarrow> string" where "name_of t = trim t"

text \<open>
  The secret is put back into its own field, which calls the handler again. That ends: the percent signs and
  question marks of the text become fewer.
\<close>

definition is_mark :: "char \<Rightarrow> bool" where "is_mark c \<longleftrightarrow> c = CHR ''%'' \<or> c = CHR ''?''"

definition marks :: "string \<Rightarrow> nat" where "marks s = length (filter is_mark s)"

lemma marks_simps [simp]:
  "marks [] = 0" "marks (a @ b) = marks a + marks b" "marks (c # s) = (if is_mark c then Suc (marks s) else marks s)"
  by (simp_all add: marks_def)

lemma is_mark_percent [simp]: "is_mark CHR ''%''" "is_mark CHR ''?''"
  by (simp_all add: is_mark_def)

lemma marks_url_bytes: "marks (url_bytes s) \<le> marks s"
proof (induction "length s" arbitrary: s rule: less_induct)
  case less
  show ?case
  proof (cases "\<exists>c a b t. s = c # a # b # t")
    case True
    then obtain c a b t where s: "s = c # a # b # t" by blast
    have "marks (url_bytes t) \<le> marks t" by (rule less) (simp add: s)
    moreover have rest: "marks (url_bytes (a # b # t)) \<le> marks (a # b # t)" by (rule less) (simp add: s)
    ultimately show ?thesis
      by (cases "c = CHR ''%''"; cases "to_hex_digit a"; cases "to_hex_digit b") (simp_all add: s)
  next
    case False
    then have "url_bytes s = s" by (cases s rule: url_bytes.cases) auto
    then show ?thesis by simp
  qed
qed

lemma marks_take_drop: "marks s = marks (take n s) + marks (drop n s)"
  by (metis append_take_drop_id marks_simps(2))

lemma marks_lossy: "marks (from_utf8_lossy s) \<le> marks s"
proof (induction s rule: from_utf8_lossy.induct)
  case (1 s)
  show ?case
  proof (cases "s = []")
    case False
    obtain v n where h: "utf8_head s = (v, n)" by (cases "utf8_head s")
    have "marks (from_utf8_lossy (drop n s)) \<le> marks (drop n s)" using 1 False h by simp
    moreover have "marks replacement = 0" by (simp add: replacement_def is_mark_def)
    ultimately show ?thesis
      using marks_take_drop [of s n] False h by (subst from_utf8_lossy.simps) auto
  qed simp
qed

lemma marks_url_decode: "marks (url_decode s) \<le> marks s"
  unfolding url_decode_def using marks_lossy [of "url_bytes s"] marks_url_bytes [of s] by linarith

lemma marks_split_on: "t \<in> set (split_on c s) \<Longrightarrow> marks t \<le> marks s"
proof (induction s arbitrary: t)
  case (Cons x xs)
  obtain y ys where ys: "split_on c xs = y # ys" by (cases "split_on c xs") simp_all
  have "u = y \<or> u \<in> set ys \<Longrightarrow> marks u \<le> marks xs" for u using Cons.IH [of u] ys by auto
  then show ?case using Cons.prems ys by (fastforce simp: le_Suc_eq split: if_splits)
qed simp

lemma marks_first_secret: "first_secret ps = Some v \<Longrightarrow> list_all (\<lambda>p. marks p \<le> n) ps \<Longrightarrow> marks v \<le> n"
proof (induction ps rule: first_secret.induct)
  case (2 pair ps)
  show ?case
  proof (cases "split_once CHR ''='' pair")
    case (Some kv)
    obtain k w where kv: "kv = (k, w)" by (cases kv)
    have "marks w \<le> marks pair" using Some kv by (auto simp: split_once_Some)
    then show ?thesis using 2 Some kv marks_url_decode [of w] by (auto split: if_splits)
  qed (use 2 in simp)
qed simp

lemma marks_secret_field: "otpauth_secret_field uri = Some v \<Longrightarrow> marks v < marks uri"
proof -
  assume "otpauth_secret_field uri = Some v"
  then obtain a q where q: "split_once CHR ''?'' uri = Some (a, q)" "first_secret (split_on CHR ''&'' q) = Some v"
    by (auto simp: otpauth_secret_field_def bind_eq_Some_conv)
  have "list_all (\<lambda>p. marks p \<le> marks q) (split_on CHR ''&'' q)" using marks_split_on by (auto simp: list_all_iff)
  then have "marks v \<le> marks q" by (rule marks_first_secret [OF q(2)])
  then show ?thesis using q(1) by (auto simp: split_once_Some)
qed


lemma strip_any_marks: "strip_any ps s = Some r \<Longrightarrow> marks r \<le> marks s"
proof (induction ps)
  case (Cons p ps)
  show ?case
  proof (cases "strip_prefix p s")
    case (Some q)
    then have "s = p @ q" by (simp add: strip_prefix_Some)
    then show ?thesis using Cons.prems Some by simp
  qed (use Cons in simp)
qed simp

lemma trim_front_marks: "marks (trim_front ps s) \<le> marks s"
proof (induction ps s rule: trim_front.induct)
  case (1 ps s)
  show ?case
  proof (cases "strip_any ps s")
    case (Some r)
    then show ?thesis using 1 strip_any_marks [OF Some] by (subst trim_front.simps) auto
  qed (simp add: trim_front.simps)
qed

lemma marks_rev [simp]: "marks (rev s) = marks s"
  by (simp add: marks_def rev_filter [symmetric])

lemma marks_trim: "marks (trim s) \<le> marks s"
proof -
  have "marks (trim_end t) \<le> marks t" for t
    using trim_front_marks [of "map rev ws_seqs" "rev t"] by (simp add: trim_end_def)
  then show ?thesis
    using trim_front_marks [of ws_seqs s] unfolding trim_def trim_start_def by (meson le_trans)
qed

definition uri_error :: string where
  "uri_error = ''Unsupported otpauth URI: only TOTP / SHA1 / 6 digits / 30 s.''"

function set_secret :: "(string \<Rightarrow> string) \<Rightarrow> (string \<Rightarrow> string) \<Rightarrow> string \<Rightarrow> add_dialog \<Rightarrow> add_dialog" where
  "set_secret lcase ucase t d =
     (let d1 = d\<lparr> ad_secret := t \<rparr> in
      if ad_cat d \<noteq> Otp \<or> \<not> starts_with ''otpauth://'' (trim_start t) then d1
      else case parse_otpauth_uri lcase ucase (trim t) of
        Some e \<Rightarrow>
          (set_secret lcase ucase (unwrap_or [] (otpauth_secret_field (trim t)))
             (set_service (otp_service e) (set_name (otp_name e) d1)))\<lparr> ad_error_on := False \<rparr>
      | None \<Rightarrow> show_error uri_error d1)"
  by pat_completeness auto
termination
proof (relation "measures [\<lambda>(l, u, t, d). marks t, \<lambda>(l, u, t, d). length t]")
  fix l u :: "string \<Rightarrow> string" and t and d d1 :: add_dialog and e
  assume "\<not> (ad_cat d \<noteq> Otp \<or> \<not> starts_with ''otpauth://'' (trim_start t))"
  then have "t \<noteq> []" by (auto simp: trim_start_def starts_with_def)
  then show "((l, u, unwrap_or [] (otpauth_secret_field (trim t)), set_service (otp_service e) (set_name (otp_name e) d1)), l, u, t, d)
      \<in> measures [\<lambda>(l, u, t, d). marks t, \<lambda>(l, u, t, d). length t]"
    using marks_secret_field [of "trim t"] marks_trim [of t] by (cases "otpauth_secret_field (trim t)") fastforce+
qed simp

declare set_secret.simps [simp del]


section \<open>Writes and tasks\<close>

definition drop_task :: "nat \<Rightarrow> add_dialog \<Rightarrow> add_dialog" where
  "drop_task n d = d\<lparr> ad_tasks := take n (ad_tasks d) @ drop (Suc n) (ad_tasks d) \<rparr>"

definition add_task_of :: "add_task \<Rightarrow> add_dialog \<Rightarrow> add_dialog" where
  "add_task_of t d = d\<lparr> ad_tasks := ad_tasks d @ [t] \<rparr>"

definition start_write :: "add_call \<Rightarrow> string \<Rightarrow> string \<Rightarrow> add_dialog \<Rightarrow> add_dialog" where
  "start_write c nm verb d =
     add_task_of (AtWrite nm verb) ((set_add_busy True d)\<lparr> ad_calls := ad_calls d @ [c] \<rparr>)"

definition no_name :: string where "no_name = ''Name cannot be empty.''"

definition click_generate :: "add_dialog \<Rightarrow> add_dialog" where
  "click_generate d = (let n = name_of (ad_name d) in
     if n = [] then show_error no_name d else start_write (CallGenerate n) n ''Generate'' d)"

definition click_add_otp :: "add_dialog \<Rightarrow> add_dialog" where
  "click_add_otp d = (let n = name_of (ad_name d) in
     if n = [] then show_error no_name d
     else case base32_decode (ad_secret d) of
         Some (b # bs) \<Rightarrow> start_write (CallAddOtp \<lparr> otp_name = n, otp_service = name_of (ad_service d), otp_secret = b # bs \<rparr>) n ''Add'' d
       | _ \<Rightarrow> show_error (''Invalid base32 secret '' @ em_dash @ '' check for typos.'') d)"

definition click_add_api :: "add_dialog \<Rightarrow> add_dialog" where
  "click_add_api d = (let n = name_of (ad_name d) in
     if n = [] then show_error no_name d else start_write (CallAddApi n (ad_secret d)) n ''Add'' d)"

definition click_primary :: "add_dialog \<Rightarrow> add_dialog" where
  "click_primary d = (case ad_cat d of Ssh \<Rightarrow> click_generate d | Otp \<Rightarrow> click_add_otp d | Api \<Rightarrow> click_add_api d)"

lemmas click_primary_defs = click_primary_def click_generate_def click_add_otp_def click_add_api_def

text \<open>There is no second button for an API key.\<close>

definition click_secondary :: "add_dialog \<Rightarrow> add_dialog" where
  "click_secondary d = (case ad_cat d of
     Ssh \<Rightarrow> (let n = name_of (ad_name d) in if n = [] then show_error no_name d else add_task_of (AtKeyFile n) d)
   | Otp \<Rightarrow> add_task_of AtOtpFile d
   | Api \<Rightarrow> d)"

section \<open>The import of a file\<close>

definition import_label :: "nat \<Rightarrow> nat \<Rightarrow> otp_entry \<Rightarrow> string" where
  "import_label i all e = ''Importing '' @ show_nat i @ ''/'' @ show_nat all @ '': '' @ otp_name e"

definition import_end :: "string option \<Rightarrow> nat \<Rightarrow> nat \<Rightarrow> add_dialog \<Rightarrow> add_dialog" where
  "import_end failure imported all d =
     (let d1 = (if 0 < imported then d\<lparr> ad_written := Some (show_nat imported @ '' entries'') \<rparr> else d);
          sofar = ''Imported '' @ show_nat imported @ ''/'' @ show_nat all @ '' entries''
      in case failure of
        None \<Rightarrow> if imported = all then finish_dialog d1 else show_error (sofar @ ''.'') (set_add_busy False d1)
      | Some e \<Rightarrow> show_error (sofar @ ''; stopped at: '' @ e) (set_add_busy False d1))"

definition import_next :: "otp_entry list \<Rightarrow> nat \<Rightarrow> nat \<Rightarrow> add_dialog \<Rightarrow> add_dialog" where
  "import_next rest imported all d = (case rest of
     [] \<Rightarrow> import_end None imported all d
   | e # es \<Rightarrow> add_task_of (AtImport es imported all)
       (d\<lparr> ad_label := import_label (all - length es) all e, ad_calls := ad_calls d @ [CallAddOtp e] \<rparr>))"

definition import_question :: "nat \<Rightarrow> string" where
  "import_question n = ''Import '' @ show_nat n @ '' OTP entr'' @ (if n = 1 then ''y'' else ''ies'') @ ''?''"

definition skip_note :: "nat \<Rightarrow> string" where
  "skip_note k = ''Touch the device when asked.'' @ (if 0 < k
     then '' ('' @ show_nat k @ '' skipped: only TOTP / SHA1 / 6-digit / 30 s supported)'' else [])"

definition counted :: "otp_entry list \<Rightarrow> nat \<Rightarrow> nat option \<Rightarrow> add_dialog \<Rightarrow> add_dialog" where
  "counted es skipped used d =
     (let free = unat (capacity Otp) - unwrap_or 0 used in
      if free < length es
      then show_error (''Cannot import '' @ show_nat (length es) @ '' entries: only '' @ show_nat free @
             '' OTP slots remaining. Delete some entries first.'') d
      else add_task_of (AtConfirm es (import_question (length es)) (skip_note skipped)) d)"

text \<open>The file the user chose, with its path; \<open>None\<close> when none was chosen.\<close>

definition otp_file_chosen ::
    "'j json_reader \<Rightarrow> (string \<Rightarrow> string) \<Rightarrow> (string \<Rightarrow> string) \<Rightarrow> (string \<times> (string, string) result) option \<Rightarrow> add_dialog \<Rightarrow> add_dialog" where
  "otp_file_chosen J lcase ucase f d = (case f of
     None \<Rightarrow> d
   | Some (path, Err e) \<Rightarrow> show_error (''Cannot read file: '' @ e) d
   | Some (path, Ok content) \<Rightarrow> (case parse_otp_import_file J lcase ucase path content of
       Err e \<Rightarrow> show_error e d
     | Ok (es, skipped) \<Rightarrow> add_task_of (AtCount es skipped) d))"

definition key_file_chosen :: "string \<Rightarrow> (string \<times> (string, string) result) option \<Rightarrow> add_dialog \<Rightarrow> add_dialog" where
  "key_file_chosen n f d = (case f of
     None \<Rightarrow> d
   | Some (path, Err e) \<Rightarrow> show_error (''Cannot read file: '' @ e) d
   | Some (path, Ok pem) \<Rightarrow> start_write (CallImportSsh n pem) n ''Import'' d)"

definition write_answered :: "string \<Rightarrow> string \<Rightarrow> (unit, string) result option \<Rightarrow> add_dialog \<Rightarrow> add_dialog" where
  "write_answered nm verb r d = (case r of
     Some (Ok _) \<Rightarrow> finish_dialog (d\<lparr> ad_written := Some nm \<rparr>)
   | Some (Err e) \<Rightarrow> show_error (verb @ '' failed: '' @ e) (set_add_busy False d)
   | None \<Rightarrow> set_add_busy False d)"

definition import_answered :: "otp_entry list \<Rightarrow> nat \<Rightarrow> nat \<Rightarrow> (unit, string) result option \<Rightarrow> add_dialog \<Rightarrow> add_dialog" where
  "import_answered rest imported all r d = (case r of
     Some (Ok _) \<Rightarrow> import_next rest (Suc imported) all d
   | Some (Err e) \<Rightarrow> import_end (Some e) imported all d
   | None \<Rightarrow> import_end None imported all d)"

section \<open>Events\<close>

text \<open>
  \<open>AdFile\<close>, \<open>AdCounted\<close>, \<open>AdConfirm\<close> and \<open>AdAnswer\<close> go to the task they name. The choice of a file and the
  question are modal. \<open>AdParentGone\<close> is the end of the main window; \<open>AdReturn\<close> is the step in which \<open>run\<close>
  sees the message.
\<close>

datatype add_event =
    AdName string
  | AdService string
  | AdSecret string
  | AdPrimary
  | AdSecondary
  | AdClose
  | AdFile nat "(string \<times> (string, string) result) option"
  | AdCounted nat "nat option"
  | AdConfirm nat bool
  | AdAnswer nat "(unit, string) result option"
  | AdParentGone
  | AdReturn

definition modal_task :: "add_task \<Rightarrow> bool" where
  "modal_task t = (case t of AtKeyFile _ \<Rightarrow> True | AtOtpFile \<Rightarrow> True | AtConfirm _ _ _ \<Rightarrow> True | _ \<Rightarrow> False)"

definition add_user :: "(add_dialog \<Rightarrow> add_dialog) \<Rightarrow> add_dialog \<Rightarrow> add_dialog" where
  "add_user act d = (if ad_open d \<and> \<not> list_ex modal_task (ad_tasks d) then act d else d)"

definition task_answer :: "(add_task \<Rightarrow> (add_dialog \<Rightarrow> add_dialog) option) \<Rightarrow> nat \<Rightarrow> add_dialog \<Rightarrow> add_dialog" where
  "task_answer h n d = (case Option.bind (get_at (ad_tasks d) n) h of None \<Rightarrow> d | Some f \<Rightarrow> f (drop_task n d))"

fun add_step :: "'j json_reader \<Rightarrow> (string \<Rightarrow> string) \<Rightarrow> (string \<Rightarrow> string) \<Rightarrow> add_event \<Rightarrow> add_dialog \<Rightarrow> add_dialog" where
  "add_step J l u (AdName t) d = add_user (set_name t) d"
| "add_step J l u (AdService t) d = add_user (if ad_cat d = Otp then set_service t else id) d"
| "add_step J l u (AdSecret t) d = add_user (if ad_cat d = Ssh then id else set_secret l u t) d"
| "add_step J l u AdPrimary d = add_user (if ad_busy d then id else click_primary) d"
| "add_step J l u AdSecondary d = add_user (if ad_busy d then id else click_secondary) d"
| "add_step J l u AdClose d = add_user close_request d"
| "add_step J l u (AdFile n f) d = task_answer (\<lambda>t. case t of
     AtKeyFile nm \<Rightarrow> Some (key_file_chosen nm f) | AtOtpFile \<Rightarrow> Some (otp_file_chosen J l u f) | _ \<Rightarrow> None) n d"
| "add_step J l u (AdCounted n used) d = task_answer (\<lambda>t. case t of AtCount es skipped \<Rightarrow> Some (counted es skipped used) | _ \<Rightarrow> None) n d"
| "add_step J l u (AdConfirm n yes) d = task_answer (\<lambda>t. case t of
     AtConfirm es title note \<Rightarrow> Some (\<lambda>d. if yes then import_next es 0 (length es) (set_add_busy True d) else d) | _ \<Rightarrow> None) n d"
| "add_step J l u (AdAnswer n r) d = task_answer (\<lambda>t. case t of
     AtWrite nm verb \<Rightarrow> Some (write_answered nm verb r)
   | AtImport rest imported all \<Rightarrow> Some (import_answered rest imported all r) | _ \<Rightarrow> None) n d"
| "add_step J l u AdParentGone d = (if ad_open d then window_gone d else d)"
| "add_step J l u AdReturn d =
     (if ad_signal d \<and> ad_result d = None then d\<lparr> ad_result := Some (ad_written d), ad_written := None \<rparr> else d)"

definition add_run :: "'j json_reader \<Rightarrow> (string \<Rightarrow> string) \<Rightarrow> (string \<Rightarrow> string) \<Rightarrow> add_event list \<Rightarrow> key_category \<Rightarrow> add_dialog" where
  "add_run J l u es cat = fold (add_step J l u) es (add_new cat)"


section \<open>What the dialog returns\<close>

text \<open>
  The user is careful when they leave the dialog alone while the entries in use are counted: the window is
  neither busy nor covered by another dialog in that time.
\<close>

definition user_event :: "add_event \<Rightarrow> bool" where
  "user_event e = (case e of AdPrimary \<Rightarrow> True | AdSecondary \<Rightarrow> True | AdClose \<Rightarrow> True | _ \<Rightarrow> False)"

definition counting :: "add_dialog \<Rightarrow> bool" where
  "counting d \<longleftrightarrow> list_ex (\<lambda>t. case t of AtCount _ _ \<Rightarrow> True | _ \<Rightarrow> False) (ad_tasks d)"

fun careful :: "'j json_reader \<Rightarrow> (string \<Rightarrow> string) \<Rightarrow> (string \<Rightarrow> string) \<Rightarrow> add_event list \<Rightarrow> add_dialog \<Rightarrow> bool" where
  "careful J l u [] d = True"
| "careful J l u (e # es) d = (e \<noteq> AdParentGone \<and> (counting d \<longrightarrow> \<not> user_event e) \<and> careful J l u es (add_step J l u e d))"

text \<open>The writes the daemon confirmed.\<close>

definition writing_task :: "add_task \<Rightarrow> bool" where
  "writing_task t = (case t of AtWrite _ _ \<Rightarrow> True | AtImport _ _ _ \<Rightarrow> True | _ \<Rightarrow> False)"

definition stores :: "add_event \<Rightarrow> add_dialog \<Rightarrow> nat" where
  "stores e d = (case e of AdAnswer n (Some (Ok _)) \<Rightarrow>
     (case get_at (ad_tasks d) n of Some t \<Rightarrow> of_bool (writing_task t) | None \<Rightarrow> 0) | _ \<Rightarrow> 0)"

fun stored :: "'j json_reader \<Rightarrow> (string \<Rightarrow> string) \<Rightarrow> (string \<Rightarrow> string) \<Rightarrow> add_event list \<Rightarrow> add_dialog \<Rightarrow> nat" where
  "stored J l u [] d = 0"
| "stored J l u (e # es) d = stores e d + stored J l u es (add_step J l u e d)"

text \<open>
  The state of a dialog that was used with care, with \<open>k\<close> writes confirmed so far: one task at most, busy
  exactly while it writes, and what was written is remembered until it is returned.
\<close>

definition one_task :: "nat \<Rightarrow> add_dialog \<Rightarrow> bool" where
  "one_task k d \<longleftrightarrow> (case ad_tasks d of
     [] \<Rightarrow> \<not> ad_busy d \<and> (ad_signal d \<longleftrightarrow> \<not> ad_open d) \<and>
       (case ad_result d of None \<Rightarrow> ad_written d = None \<longleftrightarrow> k = 0
        | Some r \<Rightarrow> \<not> ad_open d \<and> (r = None \<longleftrightarrow> k = 0))
   | [t] \<Rightarrow> ad_open d \<and> \<not> ad_signal d \<and> ad_result d = None \<and> ad_busy d = writing_task t \<and>
       (case t of
          AtImport rest imported n \<Rightarrow> Suc (imported + length rest) = n \<and> imported \<le> k \<and> (ad_written d = None \<longleftrightarrow> k = imported)
        | _ \<Rightarrow> ad_written d = None \<longleftrightarrow> k = 0)
   | _ \<Rightarrow> False)"

lemma one_task_new: "one_task 0 (add_new cat)"
  by (simp add: one_task_def add_new_def)

lemma set_secret_keeps:
  "ad_tasks (set_secret l u t d) = ad_tasks d \<and> ad_busy (set_secret l u t d) = ad_busy d \<and>
   ad_signal (set_secret l u t d) = ad_signal d \<and> ad_open (set_secret l u t d) = ad_open d \<and>
   ad_result (set_secret l u t d) = ad_result d \<and> ad_written (set_secret l u t d) = ad_written d \<and>
   ad_calls (set_secret l u t d) = ad_calls d \<and> ad_cat (set_secret l u t d) = ad_cat d"
proof (induction l u t d rule: set_secret.induct)
  case (1 l u t d)
  show ?case
  proof (cases "ad_cat d \<noteq> Otp \<or> \<not> starts_with ''otpauth://'' (trim_start t)")
    case True
    then show ?thesis by (subst (1 2 3 4 5 6 7 8) set_secret.simps) simp
  next
    case False
    show ?thesis
    proof (cases "parse_otpauth_uri l u (trim t)")
      case None
      then show ?thesis using False by (subst (1 2 3 4 5 6 7 8) set_secret.simps) (simp add: show_error_def)
    next
      case (Some e)
      then show ?thesis
        using 1 [OF refl _ Some] False
        by (subst (1 2 3 4 5 6 7 8) set_secret.simps) (simp add: set_name_def set_service_def)
    qed
  qed
qed

lemma one_task_same:
  "ad_tasks q = ad_tasks d \<Longrightarrow> ad_busy q = ad_busy d \<Longrightarrow> ad_signal q = ad_signal d \<Longrightarrow> ad_open q = ad_open d \<Longrightarrow>
    ad_result q = ad_result d \<Longrightarrow> ad_written q = ad_written d \<Longrightarrow> one_task k q = one_task k d"
  by (simp add: one_task_def cong: list.case_cong option.case_cong add_task.case_cong)

text \<open>A free dialog: nothing runs, and nothing is forgotten.\<close>

definition free_dialog :: "nat \<Rightarrow> add_dialog \<Rightarrow> bool" where
  "free_dialog k d \<longleftrightarrow> ad_tasks d = [] \<and> ad_open d \<and> \<not> ad_signal d \<and> ad_result d = None \<and> (ad_written d = None \<longleftrightarrow> k = 0)"

lemma free_shown:
  "free_dialog k (show_error t d) = free_dialog k d" "free_dialog k (set_add_busy b d) = free_dialog k d"
  by (simp_all add: free_dialog_def show_error_def set_add_busy_def)

lemma busy_fields [simp]:
  "ad_busy (show_error t d) = ad_busy d" "ad_busy (set_add_busy b d) = b" "ad_cat (show_error t d) = ad_cat d"
  "ad_calls (show_error t d) = ad_calls d" "ad_calls (set_add_busy b d) = ad_calls d"
  "ad_tasks (show_error t d) = ad_tasks d" "ad_tasks (set_add_busy b d) = ad_tasks d" "ad_cat (set_add_busy b d) = ad_cat d"
  by (simp_all add: show_error_def set_add_busy_def)

lemma free_is_ok: "free_dialog k d \<Longrightarrow> \<not> ad_busy d \<Longrightarrow> one_task k d"
  by (simp add: free_dialog_def one_task_def)

lemma free_task:
  assumes "free_dialog k d" "ad_busy d = writing_task t" "case t of AtImport _ _ _ \<Rightarrow> False | _ \<Rightarrow> True"
  shows "one_task k (add_task_of t d)"
  using assms by (cases t) (simp_all add: free_dialog_def one_task_def add_task_of_def writing_task_def)

lemma free_tasks:
  "free_dialog k d \<Longrightarrow> \<not> ad_busy d \<Longrightarrow> one_task k (add_task_of (AtCount es m) d)"
  "free_dialog k d \<Longrightarrow> \<not> ad_busy d \<Longrightarrow> one_task k (add_task_of (AtConfirm es t1 t2) d)"
  by (rule free_task; simp add: writing_task_def)+

lemma free_write: "free_dialog k d \<Longrightarrow> one_task k (start_write c nm verb d)"
  unfolding start_write_def
  by (rule free_task) (simp_all add: free_dialog_def set_add_busy_def writing_task_def)

lemma finished: "ad_tasks d = [] \<Longrightarrow> ad_result d = None \<Longrightarrow> (ad_written d = None \<longleftrightarrow> k = 0) \<Longrightarrow> one_task k (finish_dialog d)"
  by (simp add: finish_dialog_def window_gone_def one_task_def)

lemma free_primary: "free_dialog k d \<Longrightarrow> \<not> ad_busy d \<Longrightarrow> one_task k (click_primary d)"
  by (auto simp: click_primary_defs Let_def free_write free_is_ok free_shown split: key_category.split option.split list.split)

lemma free_secondary: "free_dialog k d \<Longrightarrow> \<not> ad_busy d \<Longrightarrow> one_task k (click_secondary d)"
  by (auto simp: click_secondary_def Let_def free_is_ok free_shown writing_task_def split: key_category.split intro!: free_task)

text \<open>An import of which \<open>i\<close> entries are written ends, or goes on with the next.\<close>

lemma import_end_ok:
  assumes "ad_tasks d = []" "ad_open d" "\<not> ad_signal d" "ad_result d = None" "i \<le> k" "ad_written d = None \<longleftrightarrow> k = i"
    "failure \<noteq> None \<longrightarrow> i < n"
  shows "one_task k (import_end failure i n d)"
proof -
  let ?d = "if 0 < i then d\<lparr> ad_written := Some (show_nat i @ '' entries'') \<rparr> else d"
  have f: "free_dialog k ?d" using assms(1-6) by (auto simp: free_dialog_def)
  then have "one_task k (show_error t (set_add_busy False ?d))" for t
    by (intro free_is_ok) (simp_all add: free_shown)
  moreover have "one_task k (finish_dialog ?d)" using f by (intro finished) (auto simp: free_dialog_def)
  ultimately show ?thesis by (auto simp: import_end_def Let_def split: option.split)
qed

lemma import_next_ok:
  assumes "ad_tasks d = []" "ad_open d" "\<not> ad_signal d" "ad_result d = None" "i \<le> k" "ad_written d = None \<longleftrightarrow> k = i"
    "i + length rest = n" "ad_busy d"
  shows "one_task k (import_next rest i n d)"
proof (cases rest)
  case Nil
  then show ?thesis using import_end_ok [OF assms(1-6), of None n] by (simp add: import_next_def)
next
  case (Cons e es)
  then show ?thesis using assms by (simp add: import_next_def one_task_def add_task_of_def writing_task_def)
qed


lemma free_import: "free_dialog k d \<Longrightarrow> one_task k (import_next es 0 (length es) (set_add_busy True d))"
  by (rule import_next_ok) (auto simp: free_dialog_def set_add_busy_def)

lemma free_answered:
  assumes "free_dialog k d"
  shows "one_task k (write_answered nm verb None d)" "one_task k (write_answered nm verb (Some (Err e)) d)"
    "one_task (Suc k) (write_answered nm verb (Some (Ok u)) d)"
proof -
  show "one_task (Suc k) (write_answered nm verb (Some (Ok u)) d)"
    using assms by (simp add: write_answered_def finished free_dialog_def)
qed (use assms in \<open>simp_all add: write_answered_def free_is_ok free_shown\<close>)

lemma one_task_split:
  assumes "one_task k d"
  obtains (idle) "ad_tasks d = []" "ad_open d" "free_dialog k d" "\<not> ad_busy d"
    | (over) "ad_tasks d = []" "\<not> ad_open d"
    | (task) t where "ad_tasks d = [t]" "ad_open d" "free_dialog k (drop_task 0 d)" "ad_busy d = writing_task t"
        "case t of AtImport _ _ _ \<Rightarrow> False | _ \<Rightarrow> True"
    | (import) rest i n where "ad_tasks d = [AtImport rest i n]" "ad_open d" "\<not> ad_signal d" "ad_result d = None" "ad_busy d"
        "Suc (i + length rest) = n" "i \<le> k" "ad_written d = None \<longleftrightarrow> k = i"
proof (cases "ad_tasks d")
  case Nil
  then show ?thesis using assms idle over by (cases "ad_open d") (auto simp: one_task_def free_dialog_def split: option.splits)
next
  case (Cons t ts)
  then have "ts = []" using assms by (simp add: one_task_def split: list.splits)
  then show ?thesis using assms Cons task import
    by (cases t) (auto simp: one_task_def free_dialog_def drop_task_def writing_task_def)
qed

lemma answer_one:
  "ad_tasks d = [t] \<Longrightarrow> task_answer h n d = (if n = 0 then (case h t of None \<Rightarrow> d | Some f \<Rightarrow> f (drop_task 0 d)) else d)"
  by (cases "n = 0") (simp_all add: task_answer_def get_at_def)

lemma answer_none: "ad_tasks d = [] \<Longrightarrow> task_answer h n d = d"
  by (simp add: task_answer_def get_at_def)

lemma user_same:
  assumes "one_task k d" "\<And>d. ad_tasks (act d) = ad_tasks d \<and> ad_busy (act d) = ad_busy d \<and> ad_signal (act d) = ad_signal d \<and>
    ad_open (act d) = ad_open d \<and> ad_result (act d) = ad_result d \<and> ad_written (act d) = ad_written d"
  shows "one_task k (add_user act d)"
  using assms(1) one_task_same [of "act d" d k] assms(2) [of d] by (simp add: add_user_def)

lemma one_task_typed:
  assumes "one_task k d"
  shows "one_task k (add_user (set_name t) d)" "one_task k (add_user (if c then set_service t else id) d)"
    "one_task k (add_user (if c then id else set_secret l u t) d)"
  using set_secret_keeps by (auto intro!: user_same [OF assms] simp: set_name_def set_service_def)

text \<open>A click of a careful user: nothing runs, or the dialog is busy or covered.\<close>

lemma one_task_click:
  assumes "one_task k d" "\<not> counting d"
    "free_dialog k d \<Longrightarrow> \<not> ad_busy d \<Longrightarrow> one_task k (act d)" "ad_busy d \<Longrightarrow> act d = d"
  shows "one_task k (add_user act d)"
  using assms(1)
proof (cases rule: one_task_split)
  case idle
  then show ?thesis using assms(1,3) by (simp add: add_user_def)
next
  case over
  then show ?thesis using assms(1) by (simp add: add_user_def)
next
  case (task t)
  then have "modal_task t \<or> ad_busy d"
    using assms(2) by (cases t) (simp_all add: counting_def modal_task_def writing_task_def)
  then show ?thesis using assms(1,4) task(1) by (auto simp: add_user_def)
next
  case (import rest i n)
  then show ?thesis using assms(1,4) by (simp add: add_user_def)
qed

lemma one_task_close: "free_dialog k d \<Longrightarrow> \<not> ad_busy d \<Longrightarrow> one_task k (close_request d)"
  by (simp add: close_request_def window_gone_def one_task_def free_dialog_def)

lemma one_task_step:
  assumes "one_task k d" "e \<noteq> AdParentGone" "counting d \<longrightarrow> \<not> user_event e"
  shows "one_task (k + stores e d) (add_step J l u e d)"
proof (cases e)
  case (AdName t)
  then show ?thesis using one_task_typed [OF assms(1)] by (simp add: stores_def)
next
  case (AdService t)
  then show ?thesis using one_task_typed [OF assms(1)] by (simp add: stores_def)
next
  case (AdSecret t)
  then show ?thesis using one_task_typed [OF assms(1)] by (simp add: stores_def)
next
  case AdPrimary
  then show ?thesis
    using one_task_click [OF assms(1), of "if ad_busy d then id else click_primary"] assms(3) free_primary
    by (simp add: stores_def user_event_def)
next
  case AdSecondary
  then show ?thesis
    using one_task_click [OF assms(1), of "if ad_busy d then id else click_secondary"] assms(3) free_secondary
    by (simp add: stores_def user_event_def)
next
  case AdClose
  then show ?thesis
    using one_task_click [OF assms(1), of close_request] assms(3) one_task_close
    by (simp add: stores_def user_event_def close_request_def)
next
  case (AdFile n f)
  from assms(1) show ?thesis
  proof (cases rule: one_task_split)
    case (task t)
    show ?thesis
      using task assms(1) AdFile
      by (cases t) (auto simp: answer_one stores_def key_file_chosen_def otp_file_chosen_def writing_task_def drop_task_def
        free_shown free_write free_tasks intro!: free_is_ok split: option.split prod.split result.split)
  qed (use assms(1) AdFile in \<open>simp_all add: answer_none answer_one stores_def\<close>)
next
  case (AdCounted n used)
  from assms(1) show ?thesis
  proof (cases rule: one_task_split)
    case (task t)
    show ?thesis
      using task assms(1) AdCounted
      by (cases t) (auto simp: answer_one stores_def counted_def writing_task_def drop_task_def Let_def
        free_shown free_tasks intro!: free_is_ok)
  qed (use assms(1) AdCounted in \<open>simp_all add: answer_none answer_one stores_def\<close>)
next
  case (AdConfirm n yes)
  from assms(1) show ?thesis
  proof (cases rule: one_task_split)
    case (task t)
    show ?thesis
      using task assms(1) AdConfirm
      by (cases t) (auto simp: answer_one stores_def writing_task_def drop_task_def free_import intro!: free_is_ok)
  qed (use assms(1) AdConfirm in \<open>simp_all add: answer_none answer_one stores_def\<close>)
next
  case (AdAnswer n r)
  from assms(1) show ?thesis
  proof (cases rule: one_task_split)
    case (task t)
    show ?thesis
      using task assms(1) AdAnswer
      by (cases t) (auto simp: answer_one stores_def writing_task_def drop_task_def get_at_def free_answered
        split: option.splits result.splits)
  next
    case (import rest i m)
    show ?thesis
      using import assms(1) AdAnswer
      by (auto simp: answer_one stores_def writing_task_def drop_task_def get_at_def import_answered_def
        intro!: import_next_ok import_end_ok split: option.split result.split)
  qed (use assms(1) AdAnswer in \<open>simp_all add: answer_none stores_def get_at_def split: option.split result.split\<close>)
next
  case AdReturn
  from assms(1) show ?thesis
    by (cases rule: one_task_split) (use assms(1) AdReturn in \<open>auto simp: stores_def one_task_def free_dialog_def split: option.splits\<close>)
qed (use assms(2) in simp)


lemma one_task_run: "one_task k d \<Longrightarrow> careful J l u es d \<Longrightarrow> one_task (k + stored J l u es d) (fold (add_step J l u) es d)"
proof (induction es arbitrary: k d)
  case (Cons e es)
  then show ?case using one_task_step [of k d e J l u] by (simp add: add.assoc [symmetric])
qed simp

text \<open>
  Fact: For every input, choice of file and answer of the daemon, and for a user who leaves the dialog alone
  while it counts the entries in use, the dialog does one thing at a time; its window stays as long as a
  write may be under way, and when it returns without a result, no write was confirmed, and when it returns
  one, a write was.
\<close>

theorem add_dialog_returns_what_was_written:
  assumes "careful J l u es (add_new cat)"
  shows "let d = add_run J l u es cat; k = stored J l u es (add_new cat) in
     length (ad_tasks d) \<le> 1 \<and> (list_ex writing_task (ad_tasks d) \<longrightarrow> ad_open d \<and> ad_result d = None) \<and>
     (\<forall>r. ad_result d = Some r \<longrightarrow> ad_tasks d = [] \<and> (r = None \<longleftrightarrow> k = 0))"
proof -
  have "one_task (stored J l u es (add_new cat)) (add_run J l u es cat)"
    using one_task_run [OF one_task_new assms] by (simp add: add_run_def)
  then show ?thesis
    by (auto simp: one_task_def Let_def split: list.splits option.splits)
qed

section \<open>The calls\<close>

text \<open>Every call has a name, and its texts fit the fields of the device.\<close>

definition call_fits :: "add_call \<Rightarrow> bool" where
  "call_fits c = (case c of
     CallGenerate n \<Rightarrow> n \<noteq> [] \<and> length n < NAME_LEN_SSH
   | CallImportSsh n pem \<Rightarrow> n \<noteq> [] \<and> length n < NAME_LEN_SSH
   | CallAddOtp e \<Rightarrow> entry_fits e
   | CallAddApi n v \<Rightarrow> n \<noteq> [] \<and> length n < NAME_LEN_API)"


lemma trim_front_is_suffix: "\<exists>a. s = a @ trim_front ps s"
proof (induction ps s rule: trim_front.induct)
  case (1 ps s)
  show ?case
  proof (cases "strip_any ps s")
    case (Some r)
    have "\<exists>p. s = p @ r" using Some
      by (induction ps) (auto simp: strip_prefix_Some split: option.splits)
    then obtain p where p: "s = p @ r" by blast
    show ?thesis
    proof (cases "length r < length s")
      case True
      then obtain a where "r = a @ trim_front ps r" using 1 Some by blast
      then have "s = (p @ a) @ trim_front ps s" using p True Some by (subst trim_front.simps) simp
      then show ?thesis by blast
    qed (simp add: trim_front.simps [of ps s] Some)
  qed (simp add: trim_front.simps [of ps s])
qed

lemma trim_length: "length (trim s) \<le> length s"
proof -
  have f: "length (trim_front ps t) \<le> length t" for ps :: "string list" and t
    using trim_front_is_suffix [of t ps] by (metis le_add2 length_append)
  have "length (trim_end t) \<le> length t" for t
    using f [of "map rev ws_seqs" "rev t"] by (simp add: trim_end_def)
  then show ?thesis unfolding trim_def trim_start_def using f le_trans by blast
qed

lemma clamp_is_truncate: "clamp_text n t = truncate_utf8 t n"
  by (simp add: clamp_text_def truncate_utf8_def)

lemma clamp_length: "length (clamp_text n t) \<le> n"
  by (simp add: clamp_is_truncate truncate_utf8_length)

text \<open>The entries of an accepted file fit.\<close>

lemma import_file_fits: "parse_otp_import_file J l u path content = Ok (es, k) \<Longrightarrow> list_all entry_fits es"
  using parse_otpauth_fits andotp_fits
  by (auto simp: parse_otp_import_file_def parse_csv_otpauth_def parse_andotp_json_def list_all_iff
      set_map_filter bind_eq_Some_conv Let_def split: if_splits option.splits)

definition task_fits :: "key_category \<Rightarrow> add_task \<Rightarrow> bool" where
  "task_fits cat t = (case t of
     AtKeyFile n \<Rightarrow> n \<noteq> [] \<and> length n < NAME_LEN_SSH
   | AtCount es k \<Rightarrow> list_all entry_fits es
   | AtConfirm es t1 t2 \<Rightarrow> list_all entry_fits es
   | AtImport es i n \<Rightarrow> list_all entry_fits es
   | _ \<Rightarrow> True)"

definition dialog_fits :: "add_dialog \<Rightarrow> bool" where
  "dialog_fits d \<longleftrightarrow> length (ad_name d) \<le> name_limit (ad_cat d) \<and> length (ad_service d) < SERVICE_LEN_OTP \<and>
     list_all (task_fits (ad_cat d)) (ad_tasks d) \<and> list_all call_fits (ad_calls d)"

lemma fits_same:
  "ad_name q = ad_name d \<Longrightarrow> ad_service q = ad_service d \<Longrightarrow> ad_cat q = ad_cat d \<Longrightarrow> ad_tasks q = ad_tasks d \<Longrightarrow>
    ad_calls q = ad_calls d \<Longrightarrow> dialog_fits q = dialog_fits d"
  by (simp add: dialog_fits_def)

lemma fits_shown [simp]:
  "dialog_fits (show_error t d) = dialog_fits d" "dialog_fits (set_add_busy b d) = dialog_fits d"
  "dialog_fits (window_gone d) = dialog_fits d" "dialog_fits (finish_dialog d) = dialog_fits d"
  "dialog_fits (d\<lparr> ad_written := w \<rparr>) = dialog_fits d" "dialog_fits (d\<lparr> ad_secret := t \<rparr>) = dialog_fits d"
  "dialog_fits (d\<lparr> ad_error_on := b \<rparr>) = dialog_fits d" "dialog_fits (d\<lparr> ad_result := r \<rparr>) = dialog_fits d"
  "dialog_fits (d\<lparr> ad_label := t \<rparr>) = dialog_fits d"
  by (simp_all add: dialog_fits_def show_error_def set_add_busy_def window_gone_def finish_dialog_def)

lemma fits_name: "dialog_fits d \<Longrightarrow> dialog_fits (set_name t d)"
  by (simp add: dialog_fits_def set_name_def clamp_length)

lemma fits_service: "dialog_fits d \<Longrightarrow> dialog_fits (set_service t d)"
  using clamp_length [of "SERVICE_LEN_OTP - 1" t] by (simp add: dialog_fits_def set_service_def)

lemma fits_secret: "dialog_fits d \<Longrightarrow> dialog_fits (set_secret l u t d)"
proof (induction l u t d rule: set_secret.induct)
  case (1 l u t d)
  show ?case
  proof (cases "ad_cat d \<noteq> Otp \<or> \<not> starts_with ''otpauth://'' (trim_start t)")
    case False
    then show ?thesis
      using 1 by (subst set_secret.simps) (auto simp: Let_def fits_name fits_service split: option.split)
  qed (use 1 in \<open>subst set_secret.simps, simp\<close>)
qed

lemma fits_task: "dialog_fits d \<Longrightarrow> task_fits (ad_cat d) t \<Longrightarrow> dialog_fits (add_task_of t d)"
  by (simp add: dialog_fits_def add_task_of_def)

lemma fits_drop: "dialog_fits d \<Longrightarrow> dialog_fits (drop_task n d)"
  by (auto simp: dialog_fits_def drop_task_def list_all_iff dest: in_set_takeD in_set_dropD)

lemma fits_write: "dialog_fits d \<Longrightarrow> call_fits c \<Longrightarrow> dialog_fits (start_write c nm verb d)"
  unfolding start_write_def
  by (rule fits_task) (simp_all add: dialog_fits_def set_add_busy_def task_fits_def)

lemma fits_primary: "dialog_fits d \<Longrightarrow> dialog_fits (click_primary d)"
proof -
  assume d: "dialog_fits d"
  have n: "length (name_of (ad_name d)) \<le> name_limit (ad_cat d)" "length (name_of (ad_service d)) < SERVICE_LEN_OTP"
    using d trim_length [of "ad_name d"] trim_length [of "ad_service d"] by (simp_all add: name_of_def dialog_fits_def)
  then show ?thesis
    using d by (auto simp: click_primary_defs Let_def name_limit_def call_fits_def entry_fits_def intro!: fits_write
        split: key_category.splits option.split list.split)
qed

lemma fits_secondary: "dialog_fits d \<Longrightarrow> dialog_fits (click_secondary d)"
proof -
  assume d: "dialog_fits d"
  have "length (name_of (ad_name d)) \<le> name_limit (ad_cat d)"
    using d trim_length [of "ad_name d"] by (simp add: name_of_def dialog_fits_def)
  then show ?thesis
    using d by (auto simp: click_secondary_def Let_def name_limit_def task_fits_def intro!: fits_task split: key_category.splits)
qed

lemma fits_import_end: "dialog_fits d \<Longrightarrow> dialog_fits (import_end f i n d)"
  by (simp add: import_end_def Let_def split: option.split)

lemma fits_import_next: "dialog_fits d \<Longrightarrow> list_all entry_fits es \<Longrightarrow> dialog_fits (import_next es i n d)"
  by (auto simp: import_next_def fits_import_end task_fits_def intro!: fits_task split: list.split)
     (auto simp: dialog_fits_def call_fits_def)

lemma fits_step: "dialog_fits d \<Longrightarrow> dialog_fits (add_step J l u e d)"
proof (cases e)
  case (AdFile n f)
  show "dialog_fits d \<Longrightarrow> ?thesis"
  proof (cases "get_at (ad_tasks d) n")
    case (Some t)
    assume d: "dialog_fits d"
    then have "task_fits (ad_cat d) t" using Some by (auto simp: dialog_fits_def get_at_def list_all_length split: if_splits)
    then show ?thesis
      using d Some AdFile import_file_fits fits_drop [OF d, of n]
      by (cases t) (auto simp: task_answer_def key_file_chosen_def otp_file_chosen_def task_fits_def call_fits_def
        intro!: fits_write fits_task split: option.split prod.split result.split)
  qed (simp add: AdFile task_answer_def)
next
  case (AdCounted n used)
  show "dialog_fits d \<Longrightarrow> ?thesis"
  proof (cases "get_at (ad_tasks d) n")
    case (Some t)
    assume d: "dialog_fits d"
    then have "task_fits (ad_cat d) t" using Some by (auto simp: dialog_fits_def get_at_def list_all_length split: if_splits)
    then show ?thesis
      using d Some AdCounted fits_drop [OF d, of n]
      by (cases t) (auto simp: task_answer_def counted_def Let_def task_fits_def intro!: fits_task)
  qed (simp add: AdCounted task_answer_def)
next
  case (AdConfirm n yes)
  show "dialog_fits d \<Longrightarrow> ?thesis"
  proof (cases "get_at (ad_tasks d) n")
    case (Some t)
    assume d: "dialog_fits d"
    then have "task_fits (ad_cat d) t" using Some by (auto simp: dialog_fits_def get_at_def list_all_length split: if_splits)
    then show ?thesis
      using d Some AdConfirm fits_drop [OF d, of n]
      by (cases t) (auto simp: task_answer_def task_fits_def intro!: fits_import_next)
  qed (simp add: AdConfirm task_answer_def)
next
  case (AdAnswer n r)
  show "dialog_fits d \<Longrightarrow> ?thesis"
  proof (cases "get_at (ad_tasks d) n")
    case (Some t)
    assume d: "dialog_fits d"
    then have "task_fits (ad_cat d) t" using Some by (auto simp: dialog_fits_def get_at_def list_all_length split: if_splits)
    then show ?thesis
      using d Some AdAnswer fits_drop [OF d, of n]
      by (cases t) (auto simp: task_answer_def task_fits_def write_answered_def import_answered_def
        intro!: fits_import_next fits_import_end split: option.split result.split)
  qed (simp add: AdAnswer task_answer_def)
qed (auto simp: add_user_def fits_name fits_service fits_secret fits_primary fits_secondary close_request_def)

text \<open>
  Fact: Whatever is typed, pasted, chosen and answered, in any order, every write the dialog asks for has a
  non-empty name, and its texts are short enough for the fields of the device with their terminating NUL.
\<close>

theorem add_dialog_calls_fit: "list_all call_fits (ad_calls (add_run J l u es cat))"
proof -
  have "dialog_fits (add_new cat)" by (simp add: dialog_fits_def add_new_def)
  then have "dialog_fits (fold (add_step J l u) es (add_new cat))"
    by (induction es rule: rev_induct) (simp_all add: fits_step)
  then show ?thesis by (simp add: dialog_fits_def add_run_def)
qed


definition api_events :: "add_event list" where
  "api_events = [AdName '' ai '', AdSecret ''sk-1'', AdPrimary, AdClose, AdAnswer 0 (Some (Err ''ERROR:BUSY'')), AdPrimary,
     AdAnswer 0 (Some (Ok ())), AdReturn]"

lemma api_run:
  "careful no_json id id api_events (add_new Api)"
  "ad_calls (add_run no_json id id api_events Api) = [CallAddApi ''ai'' ''sk-1'', CallAddApi ''ai'' ''sk-1'']"
  "ad_result (add_run no_json id id api_events Api) = Some (Some ''ai'')"
  by code_simp+

theorem add_dialog_returns_what_was_written_witness:
  "stored no_json id id api_events (add_new Api) \<noteq> 0"
  using add_dialog_returns_what_was_written [OF api_run(1)] api_run(3) by (simp add: Let_def)

section \<open>A pasted URI\<close>

text \<open>
  Reading the URI takes the last secret of the query, putting it back into the field the first. They are the
  same when the query has one.
\<close>

definition secret_keys :: "string list \<Rightarrow> string list" where
  "secret_keys ps = List.map_filter (\<lambda>p. case split_once CHR ''='' p of
     Some (k, v) \<Rightarrow> if Keys_Import.eq_ignore_ascii_case k ''secret'' then Some v else None | None \<Rightarrow> None) ps"

definition query_parts :: "string \<Rightarrow> string list" where
  "query_parts uri = (case split_once CHR ''?'' uri of Some (_, q) \<Rightarrow> split_on CHR ''&'' q | None \<Rightarrow> [])"

lemma first_secret_keys: "first_secret ps = (case secret_keys ps of [] \<Rightarrow> None | v # _ \<Rightarrow> Some (url_decode v))"
  by (induction ps rule: first_secret.induct) (auto simp: secret_keys_def List.map_filter_def split: option.split)

lemma query_secret:
  assumes "\<And>k. lcase k = ''secret'' \<longleftrightarrow> Keys_Import.eq_ignore_ascii_case k ''secret''"
  shows "oq_secret (fold (otp_query_pair lcase ucase) ps q) =
    (case rev (secret_keys ps) of [] \<Rightarrow> oq_secret q | v # _ \<Rightarrow> Some (url_decode v))"
proof (induction ps rule: rev_induct)
  case Nil
  then show ?case by (simp add: secret_keys_def List.map_filter_def)
next
  case (snoc p ps)
  have app: "secret_keys (ps @ [p]) = secret_keys ps @ secret_keys [p]"
    by (simp add: secret_keys_def List.map_filter_def)
  show ?case
    using snoc by (auto simp: app otp_query_pair_def secret_keys_def List.map_filter_def Let_def assms split: option.split list.split)
qed


text \<open>What decodes as base32 is no URI, so the field is filled once.\<close>

lemma utf8_chars_ws: "p \<in> set ws_seqs \<Longrightarrow> utf8_chars (p @ s) = p # utf8_chars s"
  by (auto simp: ws_seqs_def utf8_chars.simps [of "_ # _"] utf8_head_def nth_in_def)

lemma strip_any_mem: "strip_any ps s = Some r \<Longrightarrow> \<exists>p \<in> set ps. s = p @ r"
  by (induction ps) (auto simp: strip_prefix_Some split: option.splits)

lemma base32_loop_bad: "c \<in> set cs \<Longrightarrow> base32_val c = None \<Longrightarrow> base32_loop b n cs = None"
  by (induction b n cs rule: base32_loop.induct) (auto simp: Let_def split: option.split)

lemma cleaned_suffix: "set (base32_cleaned (trim_front ws_seqs s)) \<subseteq> set (base32_cleaned s)"
proof (induction "length s" arbitrary: s rule: less_induct)
  case less
  show ?case
  proof (cases "strip_any ws_seqs s")
    case (Some r)
    then obtain p where p: "p \<in> set ws_seqs" "s = p @ r" using strip_any_mem by blast
    show ?thesis
    proof (cases "length r < length s")
      case True
      then have "set (base32_cleaned (trim_front ws_seqs r)) \<subseteq> set (base32_cleaned r)" using less by blast
      moreover have "base32_cleaned s = base32_cleaned r" using p by (simp add: base32_cleaned_def utf8_chars_ws)
      ultimately show ?thesis using Some True by (subst trim_front.simps) simp
    qed (simp add: trim_front.simps [of ws_seqs s] Some)
  qed (simp add: trim_front.simps [of ws_seqs s])
qed

lemma uri_is_no_base32:
  assumes "starts_with ''otpauth://'' (trim_start t)"
  shows "base32_decode t = None"
proof -
  obtain r where "trim_front ws_seqs t = ''otpauth://'' @ r" using assms by (auto simp: starts_with_iff trim_start_def)
  then have "'':'' \<in> set (base32_cleaned (trim_front ws_seqs t))"
    by (simp add: base32_cleaned_def ws_seqs_def ascii_upper_def)
  then have "'':'' \<in> set (base32_cleaned t)" using cleaned_suffix by blast
  then show ?thesis unfolding base32_decode_def by (rule base32_loop_bad) (simp add: base32_val_def)
qed


lemma trim_start_same: "trim t = t \<Longrightarrow> trim_start t = t"
proof -
  assume t: "trim t = t"
  have f: "length (trim_front ps s) \<le> length s" for ps :: "string list" and s
    using trim_front_is_suffix [of s ps] by (metis le_add2 length_append)
  have "length t \<le> length (trim_start t)"
    using f [of "map rev ws_seqs" "rev (trim_start t)"] t by (simp add: trim_def trim_end_def) (metis length_rev)
  moreover obtain a where "t = a @ trim_start t" using trim_front_is_suffix [of t ws_seqs] unfolding trim_start_def by blast
  ultimately show "trim_start t = t" by (metis add_le_same_cancel2 append_Nil le_zero_eq length_0_conv length_append)
qed

lemma parsed_uri:
  assumes "\<And>k. lcase k = ''secret'' \<longleftrightarrow> Keys_Import.eq_ignore_ascii_case k ''secret''"
    "parse_otpauth_uri lcase ucase t = Some e" "trim t = t" "secret_keys (query_parts t) = [v]"
  shows "starts_with ''otpauth://'' t \<and> otpauth_secret_field t = Some (url_decode v) \<and>
    base32_decode (url_decode v) = Some (otp_secret e) \<and> otp_secret e \<noteq> []"
proof -
  obtain rest where rest: "t = ''otpauth://'' @ rest"
    using assms(2,3) by (auto simp: parse_otpauth_uri_def bind_eq_Some_conv strip_prefix_Some)
  obtain hst after where after: "rest = hst @ CHR ''/'' # after" "CHR ''/'' \<notin> set hst"
    and totp: "Keys_Import.eq_ignore_ascii_case hst ''totp''"
    using assms(2,3) rest by (auto simp: parse_otpauth_uri_def bind_eq_Some_conv split_once_Some split: if_splits)
  have hst: "CHR ''?'' \<notin> set hst"
  proof
    assume "CHR ''?'' \<in> set hst"
    then have "ascii_lower CHR ''?'' \<in> ascii_lower ` set hst" by (rule imageI)
    also have "\<dots> = ascii_lower ` set ''totp''"
      using totp unfolding Keys_Import.eq_ignore_ascii_case_def by (metis list.set_map)
    finally show False by (simp add: ascii_lower_def)
  qed
  have ne: "query_parts t \<noteq> []" using assms(4) by (auto simp: secret_keys_def List.map_filter_def)
  then obtain a q where q: "split_once CHR ''?'' t = Some (a, q)" by (auto simp: query_parts_def split: option.splits)
  then have aq: "t = a @ CHR ''?'' # q" "CHR ''?'' \<notin> set a" by (simp_all add: split_once_Some)
  obtain path where path: "after = path @ CHR ''?'' # q" "CHR ''?'' \<notin> set path"
  proof -
    have "CHR ''?'' \<in> set t" using aq(1) by simp
    then have "CHR ''?'' \<in> set after" using hst unfolding rest after(1) by auto
    then obtain path q' where p: "after = path @ CHR ''?'' # q'" "CHR ''?'' \<notin> set path" by (meson split_list_first)
    have "t = (''otpauth://'' @ hst @ CHR ''/'' # path) @ CHR ''?'' # q'" by (simp add: rest after(1) p(1))
    then have "split_once CHR ''?'' t = Some (''otpauth://'' @ hst @ CHR ''/'' # path, q')"
      using hst p(2) by (simp add: split_once_Some)
    then show ?thesis using that p q by simp
  qed
  have parts: "query_parts t = split_on CHR ''&'' q" by (simp add: query_parts_def q)
  have sec: "oq_secret (otp_query_of lcase ucase q) = Some (url_decode v)"
    unfolding otp_query_of_def using query_secret [OF assms(1)] assms(4) parts by simp
  have field: "otpauth_secret_field t = Some (url_decode v)"
    unfolding otpauth_secret_field_def using q first_secret_keys [of "split_on CHR ''&'' q"] assms(4) parts by simp
  have s: "strip_prefix ''otpauth://'' t = Some rest" "split_once CHR ''/'' rest = Some (hst, after)"
    "split_once CHR ''?'' after = Some (path, q)"
    using rest after path by (simp_all add: split_once_Some strip_prefix_Some)
  have "base32_decode (url_decode v) = Some (otp_secret e) \<and> otp_secret e \<noteq> []"
    using assms(2) unfolding parse_otpauth_uri_def assms(3) s Let_def
    by (auto simp: s(2,3) sec bind_eq_Some_conv split: if_splits prod.splits)
  then show ?thesis using rest field by (simp add: starts_with_iff)
qed


text \<open>
  Fact: A pasted otpauth URI is added as the entry an import of the same line would yield: with one secret in
  its query, the fields are filled so that the next click writes exactly that entry, as long as cutting
  the texts to their fields left no blank at an end.
\<close>

theorem pasted_uri_is_its_entry:
  assumes "\<And>k. lcase k = ''secret'' \<longleftrightarrow> Keys_Import.eq_ignore_ascii_case k ''secret''"
    and "parse_otpauth_uri lcase ucase t = Some e" "trim t = t" "length (secret_keys (query_parts t)) = 1"
    and "trim (otp_name e) = otp_name e" "trim (otp_service e) = otp_service e"
    and "ad_cat d = Otp" "ad_open d" "\<not> ad_busy d" "ad_tasks d = []"
  shows "ad_calls (fold (add_step J lcase ucase) [AdSecret t, AdPrimary] d) = ad_calls d @ [CallAddOtp e]"
proof -
  obtain v where v: "secret_keys (query_parts t) = [v]" using assms(4) by (auto simp: length_Suc_conv)
  have P: "starts_with ''otpauth://'' t" "otpauth_secret_field t = Some (url_decode v)"
    "base32_decode (url_decode v) = Some (otp_secret e)" "otp_secret e \<noteq> []"
    using parsed_uri [OF assms(1-3) v] by blast+
  have fits: "entry_fits e" by (rule parse_otpauth_fits [OF assms(2)])
  let ?d = "set_service (otp_service e) (set_name (otp_name e) (d\<lparr> ad_secret := t \<rparr>))"
  have "\<not> starts_with ''otpauth://'' (trim_start (url_decode v))" using uri_is_no_base32 P(3) by fastforce
  then have "set_secret lcase ucase (url_decode v) ?d = ?d\<lparr> ad_secret := url_decode v \<rparr>"
    by (subst set_secret.simps) simp
  then have "set_secret lcase ucase t d = ?d\<lparr> ad_secret := url_decode v, ad_error_on := False \<rparr>"
    using assms(2,3,7) P(1,2) trim_start_same [OF assms(3)] by (subst set_secret.simps) simp
  moreover have "clamp_text 29 (otp_name e) = otp_name e" "clamp_text 29 (otp_service e) = otp_service e"
    using fits by (simp_all add: entry_fits_def clamp_text_def)
  moreover obtain b bs where b: "otp_secret e = b # bs" using P(4) by (cases "otp_secret e") auto
  moreover have "\<lparr> otp_name = otp_name e, otp_service = otp_service e, otp_secret = b # bs \<rparr> = e"
    by (rule otp_entry.equality) (simp_all add: b)
  moreover have "otp_name e \<noteq> []" using fits by (simp add: entry_fits_def)
  ultimately show ?thesis
    using assms(5-10) P(3)
    by (simp add: add_user_def click_primary_defs name_of_def set_name_def set_service_def name_limit_def start_write_def
        add_task_of_def set_add_busy_def Let_def)
qed

definition sample_uri :: string where "sample_uri = ''otpauth://totp/Mail:ann?secret=JBSWY3DP&issuer=Mail''"

theorem pasted_uri_is_its_entry_witness:
  "\<exists>e. ad_calls (fold (add_step no_json (map ascii_lower) (map ascii_upper)) [AdSecret sample_uri, AdPrimary] (add_new Otp)) =
     [CallAddOtp e]"
proof -
  obtain e where e: "parse_otpauth_uri (map ascii_lower) (map ascii_upper) sample_uri = Some e"
    "trim (otp_name e) = otp_name e" "trim (otp_service e) = otp_service e"
  proof -
    have "case parse_otpauth_uri (map ascii_lower) (map ascii_upper) sample_uri of
        Some e \<Rightarrow> trim (otp_name e) = otp_name e \<and> trim (otp_service e) = otp_service e | None \<Rightarrow> False"
      by code_simp
    then show ?thesis using that by (auto split: option.splits)
  qed
  have l: "map ascii_lower k = ''secret'' \<longleftrightarrow> Keys_Import.eq_ignore_ascii_case k ''secret''" for k
    by (simp add: Keys_Import.eq_ignore_ascii_case_def ascii_lower_def)
  have "trim sample_uri = sample_uri" "length (secret_keys (query_parts sample_uri)) = 1" by code_simp+
  then show ?thesis
    using pasted_uri_is_its_entry [OF l e(1) _ _ e(2,3), of "add_new Otp" no_json] by (simp add: add_new_def)
qed

section \<open>The import\<close>

text \<open>Answers that all confirm go through the entries one by one.\<close>

lemma import_confirmed:
  assumes "ad_tasks d = [AtImport es i n]" "k \<le> length es"
  shows "\<exists>lb. fold (add_step J l u) (replicate k (AdAnswer 0 (Some (Ok ())))) d =
    d\<lparr> ad_tasks := [AtImport (drop k es) (i + k) n], ad_label := lb, ad_calls := ad_calls d @ map CallAddOtp (take k es) \<rparr>"
  using assms
proof (induction k arbitrary: d es i)
  case 0
  then show ?case by (intro exI [of _ "ad_label d"]) simp
next
  case (Suc k)
  then obtain e fs where es: "es = e # fs" by (cases es) auto
  let ?d = "d\<lparr> ad_tasks := [AtImport fs (Suc i) n], ad_label := import_label (n - length fs) n e, ad_calls := ad_calls d @ [CallAddOtp e] \<rparr>"
  have step: "add_step J l u (AdAnswer 0 (Some (Ok ()))) d = ?d"
    using Suc.prems(1) es
    by (simp add: task_answer_def get_at_def import_answered_def import_next_def add_task_of_def drop_task_def)
  obtain lb where "fold (add_step J l u) (replicate k (AdAnswer 0 (Some (Ok ())))) ?d =
      ?d\<lparr> ad_tasks := [AtImport (drop k fs) (Suc i + k) n], ad_label := lb, ad_calls := ad_calls ?d @ map CallAddOtp (take k fs) \<rparr>"
    using Suc.IH [of ?d fs "Suc i"] Suc.prems(2) es by auto
  then show ?case unfolding replicate_Suc fold.simps comp_apply step using es by (intro exI [of _ lb]) simp
qed

text \<open>
  Fact: An import writes the entries of the file in their order, one at a time, and stops at the first that is
  refused: what was written before is remembered, the rest is never sent, and the dialog says how far it
  got.
\<close>

theorem import_stops_at_refusal:
  assumes "ad_tasks d = [AtConfirm es title note]" "k < length es"
  shows "let d' = fold (add_step J l u) (AdConfirm 0 True # replicate k (AdAnswer 0 (Some (Ok ()))) @ [AdAnswer 0 (Some (Err x))]) d in
     ad_calls d' = ad_calls d @ map CallAddOtp (take (Suc k) es) \<and> ad_tasks d' = [] \<and> \<not> ad_busy d' \<and> ad_open d' = ad_open d \<and>
     ad_written d' = (if k = 0 then ad_written d else Some (show_nat k @ '' entries'')) \<and>
     ad_error d' = ''Imported '' @ show_nat k @ ''/'' @ show_nat (length es) @ '' entries; stopped at: '' @ x \<and> ad_error_on d'"
proof -
  obtain e fs where es: "es = e # fs" using assms(2) by (cases es) auto
  define d1 where "d1 = add_step J l u (AdConfirm 0 True) d"
  have d1: "ad_tasks d1 = [AtImport fs 0 (length es)]" "ad_calls d1 = ad_calls d @ [CallAddOtp e]"
    "ad_written d1 = ad_written d" "ad_open d1 = ad_open d"
    using assms(1) es
    by (simp_all add: d1_def task_answer_def get_at_def import_next_def add_task_of_def drop_task_def set_add_busy_def)
  obtain lb where run: "fold (add_step J l u) (replicate k (AdAnswer 0 (Some (Ok ())))) d1 =
      d1\<lparr> ad_tasks := [AtImport (drop k fs) (0 + k) (length es)], ad_label := lb, ad_calls := ad_calls d1 @ map CallAddOtp (take k fs) \<rparr>"
    using import_confirmed [OF d1(1), of k J l u] assms(2) es by auto
  show ?thesis
    unfolding fold.simps fold_append comp_apply d1_def [symmetric] run
    using d1 es assms(2)
    by (simp add: task_answer_def get_at_def import_answered_def import_end_def drop_task_def show_error_def set_add_busy_def Let_def)
qed

theorem import_stops_at_refusal_witness:
  "ad_calls (fold (add_step no_json id id) [AdConfirm 0 True, AdAnswer 0 (Some (Ok ())), AdAnswer 0 (Some (Err ''ERROR:FULL''))]
     ((add_new Otp)\<lparr> ad_tasks := [AtConfirm [sample_otp, sample_otp\<lparr> otp_name := ''b'' \<rparr>, sample_otp] [] []] \<rparr>)) =
   [CallAddOtp sample_otp, CallAddOtp (sample_otp\<lparr> otp_name := ''b'' \<rparr>)]"
  using import_stops_at_refusal [of "(add_new Otp)\<lparr> ad_tasks := [AtConfirm [sample_otp, sample_otp\<lparr> otp_name := ''b'' \<rparr>, sample_otp] [] []] \<rparr>"
      "[sample_otp, sample_otp\<lparr> otp_name := ''b'' \<rparr>, sample_otp]" "[]" "[]" 1 no_json id id "''ERROR:FULL''"]
  by (simp add: Let_def add_new_def)


text \<open>
  Fact: the dialog is free while the entries in use are counted. A click on the first button in that time and
  the import's question after it let two writes run side by side: when the first one succeeds the window
  closes over the import, and only its name is reported.
\<close>

definition overlap_events :: "add_event list" where
  "overlap_events = [AdSecondary, AdFile 0 (Some (''x.csv'', Ok ''otpauth://totp/B?secret=JBSWY3DP'')), AdName ''a'',
     AdSecret ''JBSWY3DP'', AdPrimary, AdCounted 0 (Some 0), AdConfirm 1 True, AdAnswer 0 (Some (Ok ())), AdReturn]"

theorem import_overlaps_add:
  "let d = add_run no_json (map ascii_lower) (map ascii_upper) overlap_events Otp in
     ad_tasks d = [AtImport [] 0 1] \<and> \<not> ad_open d \<and> \<not> ad_busy d \<and> ad_result d = Some (Some ''a'')"
  by code_simp

end
