(* ===== verification/Gui_Firmware.thy ===== *)
theory Gui_Firmware
  imports Gui_Panel Tui_Actions
begin

text \<open>
  The firmware group of the GUI (\<open>pages/firmware.rs\<close>): the check, the plan, the update with its merged
  progress, and what the update means for the window: the close guard of \<open>main_window.rs\<close> and the quit
  action of \<open>main.rs\<close>. Fractions are rationals; the text of the percentage, colours and the layout are left
  out. The escaping of markup of glib is an argument.
\<close>

section \<open>Progress\<close>

record merged =
  mg_stage :: string
  mg_fraction :: rat
  mg_hop :: nat
  mg_hops :: nat

text \<open>The fraction reached in the hop, and the hop of the last event.\<close>

type_synonym merger = "rat \<times> nat option"

definition merger_new :: merger where "merger_new = (0, None)"

definition merge :: "fw_event \<Rightarrow> merger \<Rightarrow> merged \<times> merger" where
  "merge ev m =
     (let last = (if Some (event_hop ev) \<noteq> snd m then 0 else fst m);
          (stage, part, hop, hops, last') = (case ev of
             FwStageEvent hop hops nm \<Rightarrow> (let l = if nm = ''retry'' then 0 else last in (stage_label nm, l, hop, hops, l))
           | FwTransfer hop hops f \<Rightarrow> (''writing firmware'', f, hop, hops, f)
           | FwReconnect hop hops \<Rightarrow> (''waiting for device reboot'', 1, hop, hops, 1));
          n = max hops 1
      in (\<lparr> mg_stage = stage, mg_fraction = (of_nat hop + part) / of_nat n, mg_hop = hop + 1, mg_hops = n \<rparr>,
          (last', Some (event_hop ev))))"

fun merge_all :: "fw_event list \<Rightarrow> merger \<Rightarrow> merged list" where
  "merge_all [] m = []"
| "merge_all (ev # evs) m = (case merge ev m of (g, m') \<Rightarrow> g # merge_all evs m')"

definition is_outdated :: "string \<Rightarrow> bool" where
  "is_outdated v = (case (fv_parse (normalize_semver v), fv_parse MANDATORY_MIN_VERSION) of
     (Some a, Some b) \<Rightarrow> a < b | _ \<Rightarrow> False)"

definition arrow_text :: string where "arrow_text = [CHR 0x20, CHR 0xE2, CHR 0x86, CHR 0x92, CHR 0x20]"

definition plan_label :: "nat \<Rightarrow> bool \<Rightarrow> (string \<times> string) option \<Rightarrow> string" where
  "plan_label hops resumed bridge_pair =
     (if resumed then ''Plan: resume interrupted update''
      else case bridge_pair of
        Some (f, t) \<Rightarrow> if hops = 2 then ''Plan: 2 hops (bridge '' @ f @ arrow_text @ t @ '')'' else ''Plan: direct (1 hop)''
      | None \<Rightarrow> ''Plan: direct (1 hop)'')"

section \<open>The page\<close>

datatype page_state =
    GfIdle | GfChecking | GfUpToDate | GfReady prepared_update | GfUpdating | GfSuccess string | GfFailed string

datatype firmware_effect = GfPrepare bool | GfExecute prepared_update | GfToast string

text \<open>
  \<open>gf_checks\<close> counts the checks that run, \<open>gf_runs\<close> holds the updates that run with their mergers;
  \<open>gf_flag\<close> is the flag \<open>FW_UPDATING\<close>.
\<close>

record firmware_page =
  gf_state :: page_state
  gf_device :: string
  gf_title :: string
  gf_notes :: string
  gf_bar :: rat
  gf_bar_shown :: bool
  gf_update_on :: bool
  gf_check_on :: bool
  gf_retry :: bool
  gf_outdated :: bool
  gf_flag :: bool
  gf_checks :: nat
  gf_runs :: "(prepared_update \<times> merger) list"
  gf_effects :: "firmware_effect list"

definition settled_title :: "page_state \<Rightarrow> string" where
  "settled_title s = (case s of
     GfIdle \<Rightarrow> ''Checking for updates'' @ ellipsis
   | GfChecking \<Rightarrow> ''Checking for updates'' @ ellipsis
   | GfUpToDate \<Rightarrow> ''Up to date''
   | GfReady p \<Rightarrow> plan_label (length (prep_hops p)) (prep_resumed p)
       (if prep_hops p = [] then None else Some (hop_version (hd (prep_hops p)), hop_version (last (prep_hops p))))
   | GfUpdating \<Rightarrow> ''Updating'' @ ellipsis
   | GfSuccess v \<Rightarrow> ''Update complete '' @ em_dash @ '' device is now on '' @ v @ ''.''
   | GfFailed e \<Rightarrow> ''Could not check: '' @ e)"

definition outdated_text :: string where
  "outdated_text = ''Firmware outdated (old signing era) '' @ em_dash @ '' update to keep unlocking and key operations working. ''"

definition render_firmware :: "(string \<Rightarrow> string) \<Rightarrow> firmware_page \<Rightarrow> firmware_page" where
  "render_firmware esc p = (let s = gf_state p; updating = (s = GfUpdating) in
     p\<lparr> gf_title := (if updating then gf_title p
          else esc ((if gf_outdated p then outdated_text else []) @ settled_title s)),
        gf_notes := (case s of GfReady u \<Rightarrow> (case prep_notes u of Some n \<Rightarrow> esc n | None \<Rightarrow> []) | _ \<Rightarrow> []),
        gf_bar_shown := updating,
        gf_update_on := (case s of GfReady _ \<Rightarrow> True | _ \<Rightarrow> False),
        gf_check_on := (case s of GfUpToDate \<Rightarrow> True | GfReady _ \<Rightarrow> True | GfSuccess _ \<Rightarrow> True | GfFailed _ \<Rightarrow> True | _ \<Rightarrow> False),
        gf_retry := (case s of GfFailed _ \<Rightarrow> True | _ \<Rightarrow> False) \<rparr>)"

definition set_fw_state :: "(string \<Rightarrow> string) \<Rightarrow> page_state \<Rightarrow> firmware_page \<Rightarrow> firmware_page" where
  "set_fw_state esc s p = render_firmware esc (p\<lparr> gf_state := s \<rparr>)"

definition firmware_new :: "(string \<Rightarrow> string) \<Rightarrow> firmware_page" where
  "firmware_new esc = render_firmware esc \<lparr> gf_state = GfIdle, gf_device = ''-'', gf_title = [], gf_notes = [], gf_bar = 0,
     gf_bar_shown = False, gf_update_on = False, gf_check_on = False, gf_retry = False, gf_outdated = False,
     gf_flag = False, gf_checks = 0, gf_runs = [], gf_effects = [] \<rparr>"

definition fw_effect :: "firmware_effect \<Rightarrow> firmware_page \<Rightarrow> firmware_page" where
  "fw_effect e p = p\<lparr> gf_effects := gf_effects p @ [e] \<rparr>"

section \<open>The check\<close>

definition firmware_check :: "(string \<Rightarrow> string) \<Rightarrow> bool \<Rightarrow> firmware_page \<Rightarrow> firmware_page" where
  "firmware_check esc force p =
     (if gf_state p = GfChecking \<or> gf_state p = GfUpdating then p
      else fw_effect (GfPrepare force) ((set_fw_state esc GfChecking p)\<lparr> gf_checks := Suc (gf_checks p) \<rparr>))"

type_synonym check_result = "((client_status option \<times> prepared_update option), fw_update_error) result option"

definition firmware_checked :: "(string \<Rightarrow> string) \<Rightarrow> check_result \<Rightarrow> firmware_page \<Rightarrow> firmware_page" where
  "firmware_checked esc r p0 =
     (if gf_checks p0 = 0 then p0
      else let p = p0\<lparr> gf_checks := gf_checks p0 - 1 \<rparr>; unknown = p\<lparr> gf_device := ''-'', gf_outdated := False \<rparr> in case r of
        Some (Ok (st, prep)) \<Rightarrow>
          (let live = (case st of Some s \<Rightarrow> if cs_connected s then Some (cs_version s) else None | None \<Rightarrow> None);
               q = p\<lparr> gf_device := esc (unwrap_or ''-'' live),
                      gf_outdated := (case live of Some v \<Rightarrow> is_outdated v | None \<Rightarrow> False) \<rparr>
           in set_fw_state esc (case prep of Some u \<Rightarrow> GfReady u | None \<Rightarrow> GfUpToDate) q)
      | Some (Err e) \<Rightarrow> set_fw_state esc (GfFailed (fw_friendly e)) unknown
      | None \<Rightarrow> set_fw_state esc (GfFailed ''Check failed'') unknown)"

section \<open>The update\<close>

definition firmware_update :: "(string \<Rightarrow> string) \<Rightarrow> firmware_page \<Rightarrow> firmware_page" where
  "firmware_update esc p = (case gf_state p of
     GfReady u \<Rightarrow> fw_effect (GfExecute u)
       ((set_fw_state esc GfUpdating (p\<lparr> gf_flag := True \<rparr>))
          \<lparr> gf_title := esc (''Starting'' @ ellipsis), gf_bar := 0, gf_runs := gf_runs p @ [(u, merger_new)] \<rparr>)
   | _ \<Rightarrow> p)"

definition stage_title :: "merged \<Rightarrow> string" where
  "stage_title m = (if 1 < mg_hops m
     then ''hop '' @ show_nat (mg_hop m) @ ''/'' @ show_nat (mg_hops m) @ '': '' @ mg_stage m else mg_stage m)"

definition firmware_progress :: "(string \<Rightarrow> string) \<Rightarrow> nat \<Rightarrow> fw_event \<Rightarrow> firmware_page \<Rightarrow> firmware_page" where
  "firmware_progress esc n ev p = (case get_at (gf_runs p) n of
     None \<Rightarrow> p
   | Some (u, m) \<Rightarrow> (case merge ev m of (g, m') \<Rightarrow>
       p\<lparr> gf_runs := (gf_runs p)[n := (u, m')], gf_title := esc (stage_title g), gf_bar := max 0 (min 1 (mg_fraction g)) \<rparr>))"

definition firmware_done :: "(string \<Rightarrow> string) \<Rightarrow> nat \<Rightarrow> (unit, fw_update_error) result \<Rightarrow> firmware_page \<Rightarrow> firmware_page" where
  "firmware_done esc n r p = (case get_at (gf_runs p) n of
     None \<Rightarrow> p
   | Some (u, m) \<Rightarrow>
       (let q = p\<lparr> gf_runs := take n (gf_runs p) @ drop (Suc n) (gf_runs p), gf_flag := False \<rparr> in case r of
          Ok _ \<Rightarrow> set_fw_state esc (GfSuccess (prep_target u)) (fw_effect (GfToast ''Firmware updated'')
            (q\<lparr> gf_device := esc (prep_target u), gf_outdated := is_outdated (prep_target u) \<rparr>))
        | Err e \<Rightarrow> set_fw_state esc (GfFailed (fw_friendly e)) q))"

datatype firmware_event =
    GfShown | GfCheck | GfUpdate
  | GfChecked check_result
  | GfProgress nat fw_event
  | GfDone nat "(unit, fw_update_error) result"

definition enters_settled :: "page_state \<Rightarrow> bool" where
  "enters_settled s = (case s of GfIdle \<Rightarrow> True | GfSuccess _ \<Rightarrow> True | GfFailed _ \<Rightarrow> True | _ \<Rightarrow> False)"

fun firmware_step :: "(string \<Rightarrow> string) \<Rightarrow> firmware_event \<Rightarrow> firmware_page \<Rightarrow> firmware_page" where
  "firmware_step esc GfShown p = (if enters_settled (gf_state p) then firmware_check esc False p else p)"
| "firmware_step esc GfCheck p = (if gf_check_on p then firmware_check esc True p else p)"
| "firmware_step esc GfUpdate p = (if gf_update_on p then firmware_update esc p else p)"
| "firmware_step esc (GfChecked r) p = firmware_checked esc r p"
| "firmware_step esc (GfProgress n ev) p = firmware_progress esc n ev p"
| "firmware_step esc (GfDone n r) p = firmware_done esc n r p"

definition firmware_run :: "(string \<Rightarrow> string) \<Rightarrow> firmware_event list \<Rightarrow> firmware_page" where
  "firmware_run esc es = fold (firmware_step esc) es (firmware_new esc)"

section \<open>The window\<close>

text \<open>
  The flag stops a close request of the main window, which then says why; otherwise the log stream is shut
  down and the window goes. \<open>app.quit\<close> closes the windows of a resident instance and of one that updates,
  and ends any other.
\<close>

datatype window_action = WindowStays string | WindowGoes | AppQuits

definition close_main :: "bool \<Rightarrow> window_action" where
  "close_main updating = (if updating then WindowStays (''Firmware update in progress '' @ em_dash @ '' please wait.'') else WindowGoes)"

definition quit_action :: "bool \<Rightarrow> bool \<Rightarrow> window_action" where
  "quit_action resident updating = (if updating then close_main updating else if resident then close_main updating else AppQuits)"


section \<open>The bar\<close>

lemma merge_push:
  assumes "case ev of FwStageEvent _ n _ \<Rightarrow> 0 < n | FwTransfer _ n _ \<Rightarrow> 0 < n | FwReconnect _ n \<Rightarrow> 0 < n"
  shows "push_event_step ev (f, h, out) = (case merge ev (f, h) of (g, m) \<Rightarrow>
    (fst m, snd m, out @ [AFwProgress (mg_stage g) (mg_fraction g) (mg_hop g) (mg_hops g)]))"
  using assms by (cases ev) (simp_all add: push_event_step_def merge_def Let_def max_def)

text \<open>
  Fact: The GUI shows the progress of an update as the terminal UI does: for every sequence of events of
  updates with at least one hop, stage, fraction and hop are the same, event by event.
\<close>

definition has_hops :: "fw_event \<Rightarrow> bool" where
  "has_hops ev = (case ev of FwStageEvent _ n _ \<Rightarrow> 0 < n | FwTransfer _ n _ \<Rightarrow> 0 < n | FwReconnect _ n \<Rightarrow> 0 < n)"

theorem gui_progress_as_in_tui:
  assumes "list_all has_hops evs"
  shows "map (\<lambda>g. AFwProgress (mg_stage g) (mg_fraction g) (mg_hop g) (mg_hops g)) (merge_all evs merger_new) =
    snd (snd (fold push_event_step evs (0, None, [])))"
proof -
  have "snd (snd (fold push_event_step evs (f, h, out))) =
      out @ map (\<lambda>g. AFwProgress (mg_stage g) (mg_fraction g) (mg_hop g) (mg_hops g)) (merge_all evs (f, h))" for f h out
    using assms
  proof (induction evs arbitrary: f h out)
    case (Cons ev evs)
    obtain g f' h' where m: "merge ev (f, h) = (g, (f', h'))" by (metis prod.exhaust)
    have "push_event_step ev (f, h, out) = (f', h', out @ [AFwProgress (mg_stage g) (mg_fraction g) (mg_hop g) (mg_hops g)])"
      using merge_push [of ev f h out] Cons.prems m by (simp add: has_hops_def)
    then show ?case using Cons.IH [of f' h'] Cons.prems m by simp
  qed simp
  then show ?thesis by (simp add: merger_new_def)
qed

theorem gui_progress_as_in_tui_witness:
  "map mg_fraction (merge_all [FwStageEvent 0 2 ''erase'', FwTransfer 0 2 1, FwStageEvent 1 2 ''info''] merger_new) = [0, 1/2, 1/2] \<and>
   length (snd (snd (fold push_event_step [FwStageEvent 0 2 ''erase'', FwTransfer 0 2 1, FwStageEvent 1 2 ''info''] (0, None, [])))) = 3"
  using gui_progress_as_in_tui [of "[FwStageEvent 0 2 ''erase'', FwTransfer 0 2 1, FwStageEvent 1 2 ''info'']", symmetric]
  by (simp add: has_hops_def merge_def merger_new_def event_hop_def)

text \<open>
  The events of an update without a retry: the hops in order, and in a hop fractions that do not fall.
  \<open>h\<close> is the hop that is under way and \<open>l\<close> what was reached in it.
\<close>

fun orderly :: "nat \<Rightarrow> nat \<Rightarrow> rat \<Rightarrow> fw_event list \<Rightarrow> bool" where
  "orderly n h l [] = True"
| "orderly n h l (FwStageEvent h' n' nm # evs) =
     (n' = n \<and> h \<le> h' \<and> h' < n \<and> nm \<noteq> ''retry'' \<and> orderly n h' (if h' = h then l else 0) evs)"
| "orderly n h l (FwTransfer h' n' f # evs) =
     (n' = n \<and> h \<le> h' \<and> h' < n \<and> (if h' = h then l else 0) \<le> f \<and> f \<le> 1 \<and> orderly n h' f evs)"
| "orderly n h l (FwReconnect h' n' # evs) = (n' = n \<and> h \<le> h' \<and> h' < n \<and> orderly n h' 1 evs)"

lemma hop_fraction:
  fixes f l :: rat
  assumes "h \<le> h'" "h' < n" "0 \<le> f" "f \<le> 1" "l \<le> 1" "h' = h \<Longrightarrow> l \<le> f"
  shows "(of_nat h + l) / of_nat n \<le> (of_nat h' + f) / of_nat n" "(of_nat h' + f) / of_nat n \<le> 1"
proof -
  have "of_nat h + l \<le> of_nat h' + f"
  proof (cases "h' = h")
    case False
    then have "of_nat h + 1 \<le> (of_nat h' :: rat)" using assms(1) by (metis Suc_leI le_neq_implies_less of_nat_Suc of_nat_mono add.commute)
    then show ?thesis using assms(3,5) by linarith
  qed (use assms in simp)
  then show "(of_nat h + l) / of_nat n \<le> (of_nat h' + f) / of_nat n" by (simp add: divide_right_mono)
  have "of_nat h' + 1 \<le> (of_nat n :: rat)" using assms(2) by (metis Suc_leI of_nat_Suc of_nat_mono add.commute)
  then show "(of_nat h' + f) / of_nat n \<le> 1" using assms(2,4) by (simp add: divide_le_eq)
qed

lemma orderly_bar:
  assumes "orderly n h l evs" "0 \<le> l" "l \<le> 1" "h < n"
  shows "sorted ((of_nat h + l) / of_nat n # map mg_fraction (merge_all evs (l, Some h))) \<and>
    (\<forall>x \<in> set (map mg_fraction (merge_all evs (l, Some h))). x \<le> 1)"
  using assms
proof (induction evs arbitrary: h l)
  case (Cons ev evs)
  have step: "?case" if ev: "merge ev (l, Some h) = (g, (f, Some h'))" "mg_fraction g = (of_nat h' + f) / of_nat n"
    and o: "orderly n h' f evs" "h \<le> h'" "h' < n" "0 \<le> f" "f \<le> 1" "h' = h \<Longrightarrow> l \<le> f" for g f h'
  proof -
    note IH = Cons.IH [OF o(1,4,5,3)]
    note F = hop_fraction [OF o(2-5) Cons.prems(3) o(6)]
    have "sorted ((of_nat h' + f) / of_nat n # map mg_fraction (merge_all evs (f, Some h')))" using IH by blast
    then have "sorted ((of_nat h + l) / of_nat n # (of_nat h' + f) / of_nat n # map mg_fraction (merge_all evs (f, Some h')))"
      using F(1) by fastforce
    then show ?thesis using IH F(2) ev by simp
  qed
  show ?case
  proof (cases ev)
    case (FwStageEvent h' n' nm)
    then show ?thesis
      using Cons.prems by (intro step [of "fst (merge ev (l, Some h))" "if h' = h then l else 0" h']) (auto simp: merge_def event_hop_def Let_def max_def)
  next
    case (FwTransfer h' n' f)
    then have "0 \<le> f" using Cons.prems by (auto split: if_splits)
    then show ?thesis
      using Cons.prems FwTransfer by (intro step [of "fst (merge ev (l, Some h))" f h']) (auto simp: merge_def event_hop_def Let_def max_def split: if_splits)
  next
    case (FwReconnect h' n')
    then show ?thesis
      using Cons.prems by (intro step [of "fst (merge ev (l, Some h))" 1 h']) (auto simp: merge_def event_hop_def Let_def max_def)
  qed
qed simp

text \<open>
  Fact: Without a retry the bar of an update never falls and never leaves its range, over all hops and stages:
  a stage that begins keeps what the transfer reached, and a new hop starts where the last one ended.
\<close>

theorem progress_never_falls:
  assumes "orderly n 0 0 evs" "0 < n"
  shows "sorted (map mg_fraction (merge_all evs merger_new)) \<and>
    list_all (\<lambda>x. 0 \<le> x \<and> x \<le> 1) (map mg_fraction (merge_all evs merger_new))"
proof (cases evs)
  case (Cons ev evs')
  have same: "merge ev (0, None) = merge ev (0, Some 0)" by (cases ev) (simp_all add: merge_def Let_def)
  then have "merge_all evs merger_new = merge_all evs (0, Some 0)" by (simp add: Cons merger_new_def)
  then show ?thesis using orderly_bar [OF assms(1)] assms(2) by (auto simp: list_all_iff)
qed simp

theorem progress_never_falls_witness:
  "sorted (map mg_fraction (merge_all [FwStageEvent 0 2 ''write'', FwTransfer 0 2 (3/5), FwStageEvent 0 2 ''end'', FwReconnect 0 2,
     FwStageEvent 1 2 ''info'', FwTransfer 1 2 (1/2)] merger_new))"
  using progress_never_falls [of 2 "[FwStageEvent 0 2 ''write'', FwTransfer 0 2 (3/5), FwStageEvent 0 2 ''end'', FwReconnect 0 2,
     FwStageEvent 1 2 ''info'', FwTransfer 1 2 (1/2)]"] by simp


section \<open>The states of the page\<close>

definition firmware_inv :: "firmware_page \<Rightarrow> bool" where
  "firmware_inv p \<longleftrightarrow> gf_flag p = (gf_state p = GfUpdating) \<and> length (gf_runs p) = of_bool (gf_state p = GfUpdating) \<and>
     gf_checks p = of_bool (gf_state p = GfChecking) \<and> gf_update_on p = (\<exists>u. gf_state p = GfReady u) \<and>
     gf_bar_shown p = (gf_state p = GfUpdating) \<and>
     (gf_check_on p \<longrightarrow> gf_state p \<noteq> GfChecking \<and> gf_state p \<noteq> GfUpdating)"

lemma firmware_render_keeps [simp]:
  "gf_state (render_firmware esc p) = gf_state p" "gf_flag (render_firmware esc p) = gf_flag p"
  "gf_runs (render_firmware esc p) = gf_runs p" "gf_checks (render_firmware esc p) = gf_checks p"
  "gf_effects (render_firmware esc p) = gf_effects p" "gf_outdated (render_firmware esc p) = gf_outdated p"
  by (simp_all add: render_firmware_def Let_def)

lemma render_buttons [simp]:
  "gf_update_on (render_firmware esc p) = (\<exists>u. gf_state p = GfReady u)"
  "gf_bar_shown (render_firmware esc p) = (gf_state p = GfUpdating)"
  "gf_check_on (render_firmware esc p) \<longrightarrow> gf_state p \<noteq> GfChecking \<and> gf_state p \<noteq> GfUpdating"
  by (auto simp: render_firmware_def Let_def split: page_state.split)

lemma firmware_inv_set:
  "gf_flag p = (s = GfUpdating) \<Longrightarrow> length (gf_runs p) = of_bool (s = GfUpdating) \<Longrightarrow> gf_checks p = of_bool (s = GfChecking) \<Longrightarrow>
    firmware_inv (set_fw_state esc s p)"
  using render_buttons(3) [of esc "p\<lparr> gf_state := s \<rparr>"] by (simp add: firmware_inv_def set_fw_state_def)

lemma firmware_inv_effect: "firmware_inv (fw_effect e p) = firmware_inv p"
  by (simp add: firmware_inv_def fw_effect_def)

lemma firmware_inv_check: "firmware_inv p \<Longrightarrow> firmware_inv (firmware_check esc force p)"
proof -
  assume p: "firmware_inv p"
  have "firmware_inv ((set_fw_state esc GfChecking p)\<lparr> gf_checks := Suc (gf_checks p) \<rparr>)"
    if "gf_state p \<noteq> GfChecking" "gf_state p \<noteq> GfUpdating"
    using p that render_buttons(3) [of esc "p\<lparr> gf_state := GfChecking \<rparr>"] by (simp add: firmware_inv_def set_fw_state_def)
  then show ?thesis using p by (simp add: firmware_check_def firmware_inv_effect)
qed

lemma firmware_inv_checked: "firmware_inv p \<Longrightarrow> firmware_inv (firmware_checked esc r p)"
  by (auto simp: firmware_checked_def Let_def intro!: firmware_inv_set split: option.split result.split prod.split)
     (auto simp: firmware_inv_def)

lemma firmware_inv_update: "firmware_inv p \<Longrightarrow> firmware_inv (firmware_update esc p)"
proof (cases "gf_state p")
  case (GfReady u)
  assume p: "firmware_inv p"
  have "firmware_inv ((set_fw_state esc GfUpdating (p\<lparr> gf_flag := True \<rparr>))
      \<lparr> gf_title := t, gf_bar := 0, gf_runs := gf_runs p @ [(u, merger_new)] \<rparr>)" for t
    using p GfReady render_buttons(3) [of esc "p\<lparr> gf_flag := True, gf_state := GfUpdating \<rparr>"]
    by (simp add: firmware_inv_def set_fw_state_def)
  then show ?thesis by (simp add: firmware_update_def GfReady firmware_inv_effect)
qed (simp_all add: firmware_update_def)

lemma firmware_inv_progress: "firmware_inv p \<Longrightarrow> firmware_inv (firmware_progress esc n ev p)"
  by (auto simp: firmware_progress_def firmware_inv_def split: option.split prod.split)

lemma firmware_inv_done: "firmware_inv p \<Longrightarrow> firmware_inv (firmware_done esc n r p)"
proof -
  assume p: "firmware_inv p"
  show ?thesis
  proof (cases "get_at (gf_runs p) n")
    case (Some x)
    then have "n < length (gf_runs p)" by (auto simp: get_at_def split: if_splits)
    then have "gf_runs p \<noteq> []" "length (gf_runs p) = 1" "n = 0" "gf_state p = GfUpdating" using p by (auto simp: firmware_inv_def of_bool_def split: if_splits)
    then have runs: "take n (gf_runs p) @ drop (Suc n) (gf_runs p) = []" "gf_checks p = 0" using p by (simp_all add: firmware_inv_def)
    show ?thesis
      unfolding firmware_done_def Some
      by (cases x) (auto simp: Let_def runs fw_effect_def intro!: firmware_inv_set split: result.split)
  qed (simp add: firmware_done_def p)
qed

lemma firmware_inv_step: "firmware_inv p \<Longrightarrow> firmware_inv (firmware_step esc e p)"
  by (cases e) (auto simp: firmware_inv_check firmware_inv_checked firmware_inv_update firmware_inv_progress firmware_inv_done)

interpretation firmware_machine: event_machine "firmware_step esc" firmware_inv for esc
  by unfold_locales (rule firmware_inv_step)

lemma firmware_inv_run: "firmware_inv (firmware_run esc es)"
proof -
  have "firmware_inv (firmware_new esc)"
    using render_buttons(3) by (simp add: firmware_new_def firmware_inv_def)
  then show ?thesis unfolding firmware_run_def by (rule firmware_machine.run_inv)
qed

section \<open>The updates that are started\<close>

fun executed :: "firmware_effect list \<Rightarrow> prepared_update list" where
  "executed [] = []"
| "executed (GfExecute u # es) = u # executed es"
| "executed (e # es) = executed es"

lemma executed_append [simp]: "executed (es @ fs) = executed es @ executed fs"
  by (induction es rule: executed.induct) simp_all

definition offered :: "firmware_event list \<Rightarrow> prepared_update \<Rightarrow> bool" where
  "offered es u \<longleftrightarrow> (\<exists>fs gs st. es = fs @ GfChecked (Some (Ok (st, Some u))) # gs)"

lemma step_executes:
  "executed (gf_effects (firmware_step esc e p)) = executed (gf_effects p) \<or>
    e = GfUpdate \<and> (\<exists>u. gf_state p = GfReady u \<and> executed (gf_effects (firmware_step esc e p)) = executed (gf_effects p) @ [u])"
  by (cases e) (auto simp: firmware_check_def firmware_checked_def firmware_update_def firmware_progress_def firmware_done_def
      set_fw_state_def fw_effect_def Let_def split: option.split result.split prod.split page_state.split)

lemma step_ready:
  "gf_state (firmware_step esc e p) = GfReady u \<Longrightarrow> gf_state p = GfReady u \<or> (\<exists>st. e = GfChecked (Some (Ok (st, Some u))))"
  by (cases e) (auto simp: firmware_check_def firmware_checked_def firmware_update_def firmware_progress_def firmware_done_def
      set_fw_state_def fw_effect_def Let_def split: option.splits result.splits prod.splits page_state.splits if_splits)

lemma offered_snoc: "offered es u \<Longrightarrow> offered (es @ [e]) u"
  unfolding offered_def by (metis append.assoc append_Cons)

lemma firmware_run_snoc: "firmware_run esc (es @ [e]) = firmware_step esc e (firmware_run esc es)"
  by (simp add: firmware_run_def)

lemma ready_offered: "gf_state (firmware_run esc es) = GfReady u \<Longrightarrow> offered es u"
proof (induction es rule: rev_induct)
  case Nil
  then show ?case by (simp add: firmware_run_def firmware_new_def)
next
  case (snoc e es)
  then show ?case
    using step_ready [of esc e "firmware_run esc es" u] offered_snoc unfolding firmware_run_snoc offered_def
    by (metis (no_types, lifting) append_Cons append_Nil2 append.assoc)
qed

lemma executed_offered:
  "list_all (offered es) (executed (gf_effects (firmware_run esc es))) \<and>
   length (executed (gf_effects (firmware_run esc es))) \<le> count_list es GfUpdate"
proof (induction es rule: rev_induct)
  case Nil
  then show ?case by (simp add: firmware_run_def firmware_new_def)
next
  case (snoc e es)
  have "list_all (offered (es @ [e])) (executed (gf_effects (firmware_run esc es)))"
    using snoc offered_snoc by (auto simp: list_all_iff)
  moreover have "gf_state (firmware_run esc es) = GfReady u \<Longrightarrow> offered (es @ [e]) u" for u
    using ready_offered offered_snoc by blast
  ultimately show ?case
    using snoc step_executes [of esc e "firmware_run esc es"] unfolding firmware_run_snoc by (auto split: if_splits)
qed

text \<open>
  Fact: Whatever is clicked and answered, and however often the page is entered, at most one update runs at a
  time; while it runs, and only then, the window refuses to close and the quit action does not end the
  program; and the update that runs is one a check offered, started by a click of its own.
\<close>

theorem one_update_at_a_time:
  "let p = firmware_run esc es in
     length (gf_runs p) \<le> 1 \<and> (gf_runs p \<noteq> [] \<longleftrightarrow> close_main (gf_flag p) \<noteq> WindowGoes) \<and>
     (gf_runs p \<noteq> [] \<longleftrightarrow> quit_action False (gf_flag p) \<noteq> AppQuits) \<and>
     list_all (offered es) (executed (gf_effects p)) \<and> length (executed (gf_effects p)) \<le> count_list es GfUpdate"
  using firmware_inv_run [of esc es] executed_offered [of es esc]
  by (auto simp: firmware_inv_def close_main_def quit_action_def Let_def of_bool_def split: if_splits)

text \<open>Fact: an update that failed is reported as a check that failed.\<close>

theorem failed_update_shown_as_check:
  assumes "gf_runs p = [(u, m)]" "\<not> gf_outdated p"
  shows "gf_title (firmware_step esc (GfDone 0 (Err (ReconnectTimeout t))) p) =
    esc (''Could not check: Device did not come back after the update; power-cycle it and check again'')"
  using assms by (simp add: firmware_done_def get_at_def set_fw_state_def render_firmware_def settled_title_def fw_friendly_def Let_def)

definition sample_update :: prepared_update where
  "sample_update = \<lparr> prep_device = ''1.6.0'', prep_target = ''1.8.2'', prep_notes = None, prep_hops = [], prep_resumed = False \<rparr>"

theorem failed_update_shown_as_check_witness:
  "gf_title (firmware_run (\<lambda>s. s) [GfShown, GfChecked (Some (Ok (None, Some sample_update))), GfUpdate, GfDone 0 (Err (ReconnectTimeout ''1.8.2''))]) =
    ''Could not check: Device did not come back after the update; power-cycle it and check again''"
proof -
  let ?p = "firmware_run (\<lambda>s. s) [GfShown, GfChecked (Some (Ok (None, Some sample_update))), GfUpdate]"
  have "gf_runs ?p = [(sample_update, merger_new)]" "\<not> gf_outdated ?p" by code_simp+
  then show ?thesis
    using failed_update_shown_as_check [of ?p sample_update merger_new "\<lambda>s. s" "''1.8.2''"] by (simp add: firmware_run_def)
qed

end
