(* ===== verification/Gui_Logs.thy ===== *)
theory Gui_Logs
  imports Log_Stream
begin

text \<open>
  The logs page of the GUI (\<open>pages/logs.rs\<close>): the stream it reads, with the generation that keeps an older
  stream out, the lines it keeps, and following and pausing. Opening a stream and reading it are tasks named
  by their generation; where the view is scrolled to comes with the scroll event. Colours are left out.
\<close>

definition LOG_CAP :: nat where "LOG_CAP = 1000"

datatype level = LvError | LvWarn | LvDim | LvPlain

definition classify :: "string \<Rightarrow> level" where
  "classify line =
     (if list_ex (\<lambda>p. contains_str p line) ['' ERROR '', ''ERROR:'', ''[ERROR]'', '' panicked''] then LvError
      else if list_ex (\<lambda>p. contains_str p line) ['' WARN '', ''WARN:'', ''[WARN]'', ''log lines dropped''] then LvWarn
      else if list_ex (\<lambda>p. contains_str p line) ['' DEBUG '', '' TRACE ''] then LvDim
      else LvPlain)"

definition lines_to_drop :: "nat \<Rightarrow> nat \<Rightarrow> nat" where "lines_to_drop count cap = count - cap"

datatype log_state = LsConnecting | LsLive | LsPaused nat | LsClosed

text \<open>
  \<open>lg_stream\<close> is the generation of the stream that is held, \<open>lg_opening\<close> and \<open>lg_tails\<close> are those that are
  being opened and read, \<open>lg_shut\<close> those that were shut down.
\<close>

record log_page =
  lg_state :: log_state
  lg_badge :: string
  lg_jump_on :: bool
  lg_reconnect_on :: bool
  lg_follow :: bool
  lg_lines :: "string list"
  lg_gen :: nat
  lg_stream :: "nat option"
  lg_opening :: "nat list"
  lg_tails :: "nat list"
  lg_shut :: "nat list"
  lg_loaded :: bool

definition bullet :: string where "bullet = [CHR 0xE2, CHR 0x97, CHR 0x8F]"
definition pause_sign :: string where "pause_sign = [CHR 0xE2, CHR 0x8F, CHR 0xB8]"

definition badge_text :: "log_state \<Rightarrow> string" where
  "badge_text s = (case s of
     LsConnecting \<Rightarrow> bullet @ '' Connecting'' @ ellipsis
   | LsLive \<Rightarrow> bullet @ '' Live''
   | LsPaused n \<Rightarrow> pause_sign @ '' Paused ('' @ show_nat n @ '' new lines)''
   | LsClosed \<Rightarrow> bullet @ '' Stream closed'')"

definition log_new :: log_page where
  "log_new = \<lparr> lg_state = LsConnecting, lg_badge = badge_text LsConnecting, lg_jump_on = False, lg_reconnect_on = False,
     lg_follow = True, lg_lines = [], lg_gen = 0, lg_stream = None, lg_opening = [], lg_tails = [], lg_shut = [],
     lg_loaded = False \<rparr>"

definition set_log_state :: "log_state \<Rightarrow> log_page \<Rightarrow> log_page" where
  "set_log_state s p = p\<lparr> lg_state := s, lg_badge := badge_text s, lg_jump_on := (case s of LsPaused _ \<Rightarrow> True | _ \<Rightarrow> False),
     lg_reconnect_on := (s = LsClosed) \<rparr>"

definition log_shutdown :: "log_page \<Rightarrow> log_page" where
  "log_shutdown p = (case lg_stream p of None \<Rightarrow> p | Some g \<Rightarrow> p\<lparr> lg_stream := None, lg_shut := lg_shut p @ [g] \<rparr>)"

definition log_connect :: "log_page \<Rightarrow> log_page" where
  "log_connect p = (let g = lg_gen p + 1; q = set_log_state LsConnecting (log_shutdown (p\<lparr> lg_gen := g \<rparr>))
     in q\<lparr> lg_follow := True, lg_opening := lg_opening q @ [g] \<rparr>)"

text \<open>\<open>got\<close>: the stream was opened and could be cloned for its reader. What is dropped is closed.\<close>

definition log_opened :: "nat \<Rightarrow> bool \<Rightarrow> log_page \<Rightarrow> log_page" where
  "log_opened g got p0 =
     (if g \<notin> set (lg_opening p0) then p0
      else let p = p0\<lparr> lg_opening := removeAll g (lg_opening p0) \<rparr> in
        if lg_gen p \<noteq> g then p\<lparr> lg_shut := lg_shut p @ [g] \<rparr>
        else if \<not> got then set_log_state LsClosed p
        else set_log_state LsLive (p\<lparr> lg_stream := Some g, lg_tails := lg_tails p @ [g] \<rparr>))"

definition log_append :: "string list \<Rightarrow> log_page \<Rightarrow> log_page" where
  "log_append ls p =
     (let all = lg_lines p @ ls; q = p\<lparr> lg_lines := drop (lines_to_drop (length all + 1) (LOG_CAP + 1)) all \<rparr>
      in if lg_follow p then q
      else set_log_state (LsPaused ((case lg_state p of LsPaused n \<Rightarrow> n | _ \<Rightarrow> 0) + length ls)) q)"

definition log_batch :: "nat \<Rightarrow> string list \<Rightarrow> log_page \<Rightarrow> log_page" where
  "log_batch g ls p =
     (if g \<notin> set (lg_tails p) then p
      else if lg_gen p \<noteq> g then p\<lparr> lg_tails := removeAll g (lg_tails p) \<rparr>
      else log_append ls p)"

definition log_ended :: "nat \<Rightarrow> log_page \<Rightarrow> log_page" where
  "log_ended g p0 =
     (if g \<notin> set (lg_tails p0) then p0
      else let p = p0\<lparr> lg_tails := removeAll g (lg_tails p0) \<rparr> in
        if lg_gen p = g then set_log_state LsClosed (p\<lparr> lg_stream := None \<rparr>) else p)"

definition log_scrolled :: "bool \<Rightarrow> log_page \<Rightarrow> log_page" where
  "log_scrolled at_bottom p =
     (if at_bottom then (let q = p\<lparr> lg_follow := True \<rparr> in case lg_state q of LsPaused _ \<Rightarrow> set_log_state LsLive q | _ \<Rightarrow> q)
      else let q = p\<lparr> lg_follow := False \<rparr> in if lg_follow p \<and> lg_state q = LsLive then set_log_state (LsPaused 0) q else q)"

definition log_jump :: "log_page \<Rightarrow> log_page" where
  "log_jump p = set_log_state LsLive (p\<lparr> lg_follow := True \<rparr>)"

datatype log_page_event =
    LgShown | LgReconnect | LgJump | LgShutdown
  | LgScroll bool
  | LgOpened nat bool
  | LgBatch nat "string list"
  | LgEnded nat

fun log_page_step :: "log_page_event \<Rightarrow> log_page \<Rightarrow> log_page" where
  "log_page_step LgShown p = (if lg_loaded p then p else log_connect (p\<lparr> lg_loaded := True \<rparr>))"
| "log_page_step LgReconnect p = (if lg_reconnect_on p then log_connect p else p)"
| "log_page_step LgJump p = (if lg_jump_on p then log_jump p else p)"
| "log_page_step LgShutdown p = log_shutdown p"
| "log_page_step (LgScroll b) p = log_scrolled b p"
| "log_page_step (LgOpened g got) p = log_opened g got p"
| "log_page_step (LgBatch g ls) p = log_batch g ls p"
| "log_page_step (LgEnded g) p = log_ended g p"

definition log_page_run :: "log_page_event list \<Rightarrow> log_page" where
  "log_page_run es = fold log_page_step es log_new"

section \<open>What the page shows\<close>

definition paused :: "log_state \<Rightarrow> bool" where
  "paused s = (case s of LsPaused _ \<Rightarrow> True | _ \<Rightarrow> False)"

definition reads :: "log_state \<Rightarrow> bool" where
  "reads s \<longleftrightarrow> s = LsLive \<or> paused s"

lemma state_simps [simp]:
  "paused LsConnecting = False" "paused LsLive = False" "paused LsClosed = False" "paused (LsPaused n)"
  "reads LsConnecting = False" "reads LsLive" "reads LsClosed = False" "reads (LsPaused n)"
  by (simp_all add: paused_def reads_def)

lemma paused_iff: "paused s \<longleftrightarrow> (\<exists>n. s = LsPaused n)"
  by (cases s) simp_all

text \<open>The badge and the buttons show the state.\<close>

definition log_shown :: "log_page \<Rightarrow> bool" where
  "log_shown p \<longleftrightarrow> lg_badge p = badge_text (lg_state p) \<and> lg_reconnect_on p = (lg_state p = LsClosed) \<and>
     lg_jump_on p = paused (lg_state p) \<and> (paused (lg_state p) \<longrightarrow> \<not> lg_follow p)"

text \<open>
  The state says what the newest stream does: it is being opened, it is read, or there is none. Older streams
  that are still read have been shut down.
\<close>

definition log_fit :: "log_page \<Rightarrow> bool" where
  "log_fit p \<longleftrightarrow> list_all (\<lambda>g. 0 < g \<and> g \<le> lg_gen p) (lg_opening p @ lg_tails p) \<and>
     (lg_gen p = 0 \<longrightarrow> lg_state p = LsConnecting \<and> lg_stream p = None) \<and>
     (0 < lg_gen p \<longrightarrow> (lg_state p = LsConnecting \<longleftrightarrow> lg_gen p \<in> set (lg_opening p))) \<and>
     (reads (lg_state p) \<longleftrightarrow> lg_gen p \<in> set (lg_tails p)) \<and>
     (lg_stream p = None \<or> lg_stream p = Some (lg_gen p) \<and> lg_gen p \<in> set (lg_tails p)) \<and>
     list_all (\<lambda>g. lg_stream p = Some g \<or> g \<in> set (lg_shut p)) (lg_tails p)"

lemma set_state_fit:
  "log_fit (set_log_state s p) = log_fit (p\<lparr> lg_state := s \<rparr>)"
  by (simp add: log_fit_def set_log_state_def)

lemma set_state_sel [simp]:
  "lg_state (set_log_state s p) = s" "lg_gen (set_log_state s p) = lg_gen p" "lg_opening (set_log_state s p) = lg_opening p"
  "lg_tails (set_log_state s p) = lg_tails p" "lg_stream (set_log_state s p) = lg_stream p"
  "lg_shut (set_log_state s p) = lg_shut p" "lg_follow (set_log_state s p) = lg_follow p" "lg_lines (set_log_state s p) = lg_lines p"
  by (simp_all add: set_log_state_def)

lemma set_state_shown: "(paused s \<Longrightarrow> \<not> lg_follow p) \<Longrightarrow> log_shown (set_log_state s p)"
  by (cases s) (auto simp: log_shown_def set_log_state_def)

lemma shown_step: "log_shown p \<Longrightarrow> log_shown (log_page_step e p)"
proof -
  assume p: "log_shown p"
  have keep: "log_shown q" if "lg_badge q = lg_badge p" "lg_state q = lg_state p" "lg_reconnect_on q = lg_reconnect_on p"
    "lg_jump_on q = lg_jump_on p" "lg_follow q = lg_follow p" for q
    using p that by (simp add: log_shown_def)
  have shut: "log_shown (log_shutdown p)"
    by (cases "lg_stream p") (auto intro!: keep simp: log_shutdown_def)
  have conn: "log_shown (log_connect r)" for r
    by (simp add: log_connect_def Let_def log_shown_def set_log_state_def)
  show ?thesis
  proof (cases e)
    case (LgScroll b)
    then show ?thesis
      using p by (cases "lg_state p") (auto simp: log_scrolled_def log_shown_def set_log_state_def Let_def)
  next
    case (LgOpened g got)
    then show ?thesis by (auto simp: log_opened_def Let_def intro!: set_state_shown keep)
  next
    case (LgBatch g ls)
    then show ?thesis by (auto simp: log_batch_def log_append_def Let_def intro!: set_state_shown keep)
  next
    case (LgEnded g)
    then show ?thesis by (auto simp: log_ended_def Let_def intro!: set_state_shown keep)
  qed (auto simp: p shut conn log_jump_def intro!: set_state_shown)
qed

lemma fit_shutdown: "log_fit p \<Longrightarrow> log_fit (log_shutdown p)"
  by (cases "lg_stream p") (auto simp: log_fit_def log_shutdown_def list_all_iff)

lemma fit_connect: "log_fit p \<Longrightarrow> log_fit (log_connect p)"
proof -
  assume p: "log_fit p"
  let ?q = "log_connect p"
  have old: "list_all (\<lambda>g. 0 < g \<and> g \<le> lg_gen p) (lg_opening p @ lg_tails p)" using p by (simp add: log_fit_def)
  then have new: "Suc (lg_gen p) \<notin> set (lg_opening p @ lg_tails p)" unfolding list_all_iff using Suc_n_not_le_n by blast
  have f: "lg_gen ?q = Suc (lg_gen p)" "lg_opening ?q = lg_opening p @ [Suc (lg_gen p)]" "lg_tails ?q = lg_tails p"
    "lg_state ?q = LsConnecting" "lg_stream ?q = None"
    "lg_shut ?q = lg_shut p @ (case lg_stream p of None \<Rightarrow> [] | Some g \<Rightarrow> [g])"
    by (simp_all add: log_connect_def set_log_state_def log_shutdown_def Let_def split: option.split)
  have "list_all (\<lambda>g. lg_stream p = Some g \<or> g \<in> set (lg_shut p)) (lg_tails p)" using p by (simp add: log_fit_def)
  then have "list_all (\<lambda>g. g \<in> set (lg_shut ?q)) (lg_tails p)"
    unfolding f by (auto simp: list_all_iff)
  moreover have "list_all (\<lambda>g. 0 < g \<and> g \<le> Suc (lg_gen p)) (lg_opening p @ lg_tails p)"
    by (rule list.pred_mono_strong [OF old]) simp
  ultimately show ?thesis using new unfolding log_fit_def f by simp
qed

lemma fit_step: "log_shown p \<Longrightarrow> log_fit p \<Longrightarrow> log_fit (log_page_step e p)"
proof -
  assume s: "log_shown p" and p: "log_fit p"
  have pos: "0 < g" "g \<le> lg_gen p" if "g \<in> set (lg_opening p) \<or> g \<in> set (lg_tails p)" for g
    using p that by (auto simp: log_fit_def list_all_iff)
  have alike: "log_fit q" if "lg_gen q = lg_gen p" "lg_opening q = lg_opening p" "lg_tails q = lg_tails p" "lg_stream q = lg_stream p"
    "lg_shut q = lg_shut p" "lg_state q = lg_state p \<or> (reads (lg_state p) \<and> reads (lg_state q))" for q
    using p that by (cases "lg_state p"; cases "lg_state q") (auto simp: log_fit_def)
  have ls: "log_fit (p\<lparr> lg_loaded := True \<rparr>)" by (rule alike) simp_all
  show ?thesis
  proof (cases e)
    case LgShown
    then show ?thesis using p ls by (simp add: fit_connect)
  next
    case LgReconnect
    then show ?thesis using p by (simp add: fit_connect)
  next
    case LgJump
    have "log_fit (log_jump p)" if "lg_jump_on p"
      using that s by (auto simp: log_jump_def set_state_fit log_shown_def paused_iff intro!: alike)
    then show ?thesis using LgJump p by simp
  next
    case LgShutdown
    then show ?thesis using p by (simp add: fit_shutdown)
  next
    case (LgScroll b)
    then show ?thesis
      by (cases "lg_state p") (auto simp: log_scrolled_def set_state_fit Let_def intro!: alike)
  next
    case (LgOpened g got)
    have "log_fit (log_opened g got p)" if g: "g \<in> set (lg_opening p)"
    proof (cases "lg_gen p = g")
      case False
      then show ?thesis using g p pos by (auto simp: log_opened_def Let_def log_fit_def list_all_iff)
    next
      case True
      then have c: "lg_state p = LsConnecting" "g \<notin> set (lg_tails p)" "lg_stream p = None" "0 < g"
        using g p pos by (auto simp: log_fit_def)
      show ?thesis using True c g p by (auto simp: log_opened_def Let_def set_state_fit log_fit_def list_all_iff)
    qed
    then show ?thesis using LgOpened p by (cases "g \<in> set (lg_opening p)") (simp_all add: log_opened_def)
  next
    case (LgBatch g ls)
    have "log_fit (log_append ls p)" if "lg_gen p \<in> set (lg_tails p)"
    proof -
      have "reads (lg_state p)" using p that by (simp add: log_fit_def)
      then show ?thesis by (auto simp: log_append_def set_state_fit Let_def intro!: alike)
    qed
    moreover have "log_fit (p\<lparr> lg_tails := removeAll g (lg_tails p) \<rparr>)" if "lg_gen p \<noteq> g"
      using p that by (auto simp: log_fit_def list_all_iff)
    ultimately show ?thesis using LgBatch p by (auto simp: log_batch_def)
  next
    case (LgEnded g)
    have "log_fit (p\<lparr> lg_tails := removeAll g (lg_tails p) \<rparr>)" if "lg_gen p \<noteq> g"
      using p that by (auto simp: log_fit_def list_all_iff)
    moreover have "log_fit (p\<lparr> lg_tails := removeAll g (lg_tails p), lg_stream := None, lg_state := LsClosed \<rparr>)"
      if "lg_gen p = g" "g \<in> set (lg_tails p)"
    proof -
      have "lg_state p \<noteq> LsConnecting" using p that by (cases "lg_state p") (auto simp: log_fit_def)
      then show ?thesis using p that pos [of g] by (auto simp: log_fit_def list_all_iff)
    qed
    ultimately show ?thesis using LgEnded p by (auto simp: log_ended_def Let_def set_state_fit)
  qed
qed

definition log_ok :: "log_page \<Rightarrow> bool" where
  "log_ok p \<longleftrightarrow> log_shown p \<and> log_fit p"

lemma log_ok_step: "log_ok p \<Longrightarrow> log_ok (log_page_step e p)"
  by (simp add: log_ok_def shown_step fit_step)

interpretation log_page_machine: event_machine log_page_step log_ok
  by unfold_locales (rule log_ok_step)

lemma log_ok_run: "log_ok (log_page_run es)"
proof -
  have "log_ok log_new" by (simp add: log_ok_def log_shown_def log_fit_def log_new_def)
  then show ?thesis unfolding log_page_run_def by (rule log_page_machine.run_inv)
qed

text \<open>
  Fact: Whatever the streams deliver, in whatever order they are opened, read and given up, the page tells the
  truth about the newest one: the badge is that of the state, the state is live or paused exactly while the
  newest stream is read, "Reconnect" can be clicked exactly when there was a stream and none is opened or
  read, and a stream that is read although it is not the newest has been shut down.
\<close>

theorem log_badge_tells_truth:
  "let p = log_page_run es in
     lg_badge p = badge_text (lg_state p) \<and>
     (reads (lg_state p) \<longleftrightarrow> lg_gen p \<in> set (lg_tails p)) \<and>
     (lg_reconnect_on p \<longleftrightarrow> 0 < lg_gen p \<and> lg_gen p \<notin> set (lg_opening p) \<and> lg_gen p \<notin> set (lg_tails p)) \<and>
     list_all (\<lambda>g. g = lg_gen p \<or> g \<in> set (lg_shut p)) (lg_tails p)"
proof -
  let ?p = "log_page_run es"
  have ok: "log_shown ?p" "log_fit ?p" using log_ok_run [of es] by (simp_all add: log_ok_def)
  have "lg_reconnect_on ?p \<longleftrightarrow> 0 < lg_gen ?p \<and> lg_gen ?p \<notin> set (lg_opening ?p) \<and> lg_gen ?p \<notin> set (lg_tails ?p)"
    using ok by (cases "lg_state ?p"; cases "lg_gen ?p = 0") (simp_all add: log_shown_def log_fit_def)
  moreover have "list_all (\<lambda>g. g = lg_gen ?p \<or> g \<in> set (lg_shut ?p)) (lg_tails ?p)"
    using ok(2) by (auto simp: log_fit_def list_all_iff)
  ultimately show ?thesis using ok by (simp add: log_shown_def log_fit_def Let_def)
qed

section \<open>The lines\<close>

text \<open>The lines that the newest stream delivers during a sequence of events.\<close>

fun fed :: "log_page_event list \<Rightarrow> log_page \<Rightarrow> string list" where
  "fed [] p = []"
| "fed (e # es) p =
     (case e of LgBatch g ls \<Rightarrow> if g \<in> set (lg_tails p) \<and> g = lg_gen p then ls else [] | _ \<Rightarrow> []) @ fed es (log_page_step e p)"

definition newest :: "'a list \<Rightarrow> 'a list" where
  "newest xs = drop (length xs - LOG_CAP) xs"

lemma newest_append: "newest (newest xs @ ys) = newest (xs @ ys)"
  by (cases "length xs \<le> LOG_CAP") (simp_all add: newest_def add.commute)

lemma log_connect_lines [simp]: "lg_lines (log_connect p) = lg_lines p"
  by (simp add: log_connect_def log_shutdown_def Let_def split: option.split)

lemma log_append_lines: "lg_lines (log_append ls p) = newest (lg_lines p @ ls)"
  by (simp add: log_append_def newest_def lines_to_drop_def Let_def)

lemma log_step_lines:
  assumes "length (lg_lines p) \<le> LOG_CAP"
  shows "lg_lines (log_page_step e p) = newest (lg_lines p @ fed [e] p)"
proof -
  have same: "newest (lg_lines p) = lg_lines p" using assms by (simp add: newest_def)
  show ?thesis
    by (cases e) (auto simp: same log_append_lines log_jump_def log_shutdown_def log_scrolled_def log_opened_def log_batch_def
        log_ended_def Let_def split: option.split log_state.split)
qed

text \<open>
  Fact: The page shows the last thousand lines of what its streams delivered while they were the newest, in
  order: nothing of an older stream, nothing lost or repeated at the change of streams, paused or not.
\<close>

theorem log_shows_last_lines:
  "lg_lines (log_page_run es) = drop (length (fed es log_new) - LOG_CAP) (fed es log_new)"
proof -
  have "lg_lines (fold log_page_step es p) = newest (lg_lines p @ fed es p)" if "length (lg_lines p) \<le> LOG_CAP" for p
    using that
  proof (induction es arbitrary: p)
    case (Cons e es)
    have l: "lg_lines (log_page_step e p) = newest (lg_lines p @ fed [e] p)" using Cons.prems by (rule log_step_lines)
    then have "length (lg_lines (log_page_step e p)) \<le> LOG_CAP" by (simp add: newest_def)
    from Cons.IH [OF this] show ?case by (simp add: l newest_append)
  qed (simp add: newest_def)
  from this [of log_new] show ?thesis by (simp add: log_page_run_def log_new_def newest_def)
qed

text \<open>
  Fact: a page that is paused counts every line that arrives, and a jump to the end follows again.
\<close>

theorem paused_counts_lines:
  assumes "lg_state p = LsPaused n" "\<not> lg_follow p" "lg_gen p \<in> set (lg_tails p)"
  shows "lg_state (fold (\<lambda>ls. log_page_step (LgBatch (lg_gen p) ls)) lss p) = LsPaused (n + length (concat lss)) \<and>
    lg_state (log_jump p) = LsLive"
proof -
  have "lg_state (fold (\<lambda>ls. log_page_step (LgBatch g ls)) lss q) = LsPaused (m + length (concat lss))"
    if "lg_state q = LsPaused m" "\<not> lg_follow q" "lg_gen q = g" "g \<in> set (lg_tails q)" for q m g
    using that
  proof (induction lss arbitrary: q m)
    case (Cons ls lss)
    have "lg_state (log_page_step (LgBatch g ls) q) = LsPaused (m + length ls)" "\<not> lg_follow (log_page_step (LgBatch g ls) q)"
      "lg_gen (log_page_step (LgBatch g ls) q) = g" "g \<in> set (lg_tails (log_page_step (LgBatch g ls) q))"
      using Cons.prems by (simp_all add: log_batch_def log_append_def Let_def)
    from Cons.IH [OF this] show ?case by (simp add: add.assoc)
  qed simp
  then show ?thesis using assms by (simp add: log_jump_def)
qed

theorem paused_counts_lines_witness:
  "lg_state (log_page_run [LgShown, LgOpened 1 True, LgScroll False, LgBatch 1 [''a'', ''b''], LgBatch 1 [''c'']]) = LsPaused 3"
proof -
  let ?p = "log_page_run [LgShown, LgOpened 1 True, LgScroll False]"
  have "lg_state ?p = LsPaused 0" "\<not> lg_follow ?p" "lg_gen ?p = 1" "lg_gen ?p \<in> set (lg_tails ?p)"
    by code_simp+
  then show ?thesis
    using paused_counts_lines [of ?p 0 "[[''a'', ''b''], [''c'']]"] by (simp add: log_page_run_def)
qed

end
