(* ===== verification/Ble_Discovery.thy ===== *)
theory Ble_Discovery
  imports Ble_Session "HOL-Library.Multiset"
begin

text \<open>
  How the daemon finds its device (\<open>ble.rs\<close>): the questions it asks BlueZ, the active connect, the
  wait that races D-Bus events with the connect driver, the GATT characteristics, and the helper
  process. BlueZ answers freely: a question to it is a node of a process with one continuation per
  answer, and a run of a process is a list of the questions with their answers. A question that fails
  counts as a no, as in the code. The lower case of Unicode is an argument.
\<close>

section \<open>Processes over BlueZ\<close>

datatype bz_property = Paired | Connected | ServicesResolved

datatype connect_answer = Linked | Refused | TimedOut

datatype 'r bz =
    BzDone 'r
  | BzAdapter "(string \<times> string list, string) result \<Rightarrow> 'r bz"
  | BzOpen string "bool \<Rightarrow> 'r bz"
  | BzAsk bz_property string "bool \<Rightarrow> 'r bz"
  | BzName string "string option \<Rightarrow> 'r bz"
  | BzConnect string "connect_answer \<Rightarrow> 'r bz"
  | BzDisconnect string "'r bz"
  | BzSleep nat "'r bz"

datatype bz_event =
    EAdapter "(string \<times> string list, string) result"
  | EOpen string bool
  | EAsk bz_property string bool
  | EName string "string option"
  | EConnect string connect_answer
  | EDisconnect string
  | ESleep nat

inductive bz_run :: "'r bz \<Rightarrow> bz_event list \<Rightarrow> 'r \<Rightarrow> bool" where
  run_done: "bz_run (BzDone r) [] r"
| run_adapter: "bz_run (k a) es r \<Longrightarrow> bz_run (BzAdapter k) (EAdapter a # es) r"
| run_open: "bz_run (k b) es r \<Longrightarrow> bz_run (BzOpen d k) (EOpen d b # es) r"
| run_ask: "bz_run (k b) es r \<Longrightarrow> bz_run (BzAsk p d k) (EAsk p d b # es) r"
| run_name: "bz_run (k n) es r \<Longrightarrow> bz_run (BzName d k) (EName d n # es) r"
| run_connect: "bz_run (k c) es r \<Longrightarrow> bz_run (BzConnect d k) (EConnect d c # es) r"
| run_disconnect: "bz_run q es r \<Longrightarrow> bz_run (BzDisconnect d q) (EDisconnect d # es) r"
| run_sleep: "bz_run q es r \<Longrightarrow> bz_run (BzSleep n q) (ESleep n # es) r"

inductive_cases bz_runE:
  "bz_run (BzAdapter ka) es r" "bz_run (BzOpen d k) es r" "bz_run (BzAsk p d k) es r" "bz_run (BzName d kn) es r"
  "bz_run (BzConnect d kc) es r" "bz_run (BzDisconnect d q) es r" "bz_run (BzSleep n q) es r"

inductive_simps bz_run_done [simp]: "bz_run (BzDone r') es r"

lemma bz_run_simps [simp]:
  "bz_run (BzAdapter ka) (EAdapter a # es) r \<longleftrightarrow> bz_run (ka a) es r"
  "bz_run (BzOpen d k) (EOpen e b # es) r \<longleftrightarrow> e = d \<and> bz_run (k b) es r"
  "bz_run (BzAsk p d k) (EAsk p' e b # es) r \<longleftrightarrow> p' = p \<and> e = d \<and> bz_run (k b) es r"
  "bz_run (BzName d kn) (EName e nm # es) r \<longleftrightarrow> e = d \<and> bz_run (kn nm) es r"
  "bz_run (BzConnect d kc) (EConnect e c # es) r \<longleftrightarrow> e = d \<and> bz_run (kc c) es r"
  "bz_run (BzDisconnect d q) (EDisconnect e # es) r \<longleftrightarrow> e = d \<and> bz_run q es r"
  "bz_run (BzSleep n q) (ESleep m # es) r \<longleftrightarrow> m = n \<and> bz_run q es r"
  by (auto intro: bz_run.intros elim: bz_runE)

section \<open>The questions\<close>

definition is_ours :: "(string \<Rightarrow> string) \<Rightarrow> string option \<Rightarrow> bool" where
  "is_ours lcase nm = (case nm of Some s \<Rightarrow> starts_with DEVICE_NAME_PREFIX (lcase s) | None \<Rightarrow> False)"

text \<open>Up to \<open>n\<close> looks at the services, a tenth of a second apart.\<close>

fun await_services :: "nat \<Rightarrow> string \<Rightarrow> (bool \<Rightarrow> 'r bz) \<Rightarrow> 'r bz" where
  "await_services 0 d k = k False"
| "await_services (Suc n) d k = BzAsk ServicesResolved d (\<lambda>yes.
     if yes then k True else BzSleep (from_millis 100) (await_services n d k))"

fun check_devices :: "(string \<Rightarrow> string) \<Rightarrow> string list \<Rightarrow> bool bz" where
  "check_devices lcase [] = BzDone False"
| "check_devices lcase (d # ds) = BzOpen d (\<lambda>there. if \<not> there then check_devices lcase ds
     else BzAsk Connected d (\<lambda>up. if \<not> up then check_devices lcase ds
     else BzAsk ServicesResolved d (\<lambda>ready. if \<not> ready then check_devices lcase ds
     else BzName d (\<lambda>nm. if is_ours lcase nm then BzDone True else check_devices lcase ds))))"

definition check_immurok_connected :: "(string \<Rightarrow> string) \<Rightarrow> bool bz" where
  "check_immurok_connected lcase = BzAdapter (\<lambda>a. case a of
     Err _ \<Rightarrow> BzDone False | Ok (_, ds) \<Rightarrow> check_devices lcase ds)"

definition device_node :: "string \<Rightarrow> string \<Rightarrow> string" where
  "device_node adapter d = ''/org/bluez/'' @ adapter @ ''/dev_'' @ map (\<lambda>c. if c = CHR '':'' then CHR ''_'' else c) d"

fun find_in :: "(string \<Rightarrow> string) \<Rightarrow> string \<Rightarrow> string list \<Rightarrow> (string option, string) result bz" where
  "find_in lcase adapter [] = BzDone (Ok None)"
| "find_in lcase adapter (d # ds) = BzOpen d (\<lambda>there. if \<not> there then BzDone (Err ''device'')
     else BzAsk Connected d (\<lambda>up. if \<not> up then find_in lcase adapter ds
     else BzName d (\<lambda>nm. if \<not> is_ours lcase nm then find_in lcase adapter ds
     else await_services 50 d (\<lambda>_. BzDone (Ok (Some (device_node adapter d)))))))"

definition find_immurok_device_path :: "(string \<Rightarrow> string) \<Rightarrow> (string option, string) result bz" where
  "find_immurok_device_path lcase = BzAdapter (\<lambda>a. case a of
     Err e \<Rightarrow> BzDone (Err e) | Ok (adapter, ds) \<Rightarrow> find_in lcase adapter ds)"

section \<open>The active connect\<close>

text \<open>A connect that failed is cancelled in BlueZ, unless the link came up meanwhile.\<close>

definition cancel_connect_on :: "string \<Rightarrow> 'r bz \<Rightarrow> 'r bz" where
  "cancel_connect_on d q = BzAsk Connected d (\<lambda>up. if up then q else BzDisconnect d q)"

definition connect_device :: "string \<Rightarrow> bool bz" where
  "connect_device d = BzConnect d (\<lambda>c. case c of
     Linked \<Rightarrow> await_services 50 d (\<lambda>yes. if yes then BzDone True else BzAsk Connected d (\<lambda>up. BzDone up))
   | Refused \<Rightarrow> cancel_connect_on d (BzDone False)
   | TimedOut \<Rightarrow> cancel_connect_on d (BzDone False))"

fun try_devices :: "(string \<Rightarrow> string) \<Rightarrow> string list \<Rightarrow> bool bz" where
  "try_devices lcase [] = BzDone False"
| "try_devices lcase (d # ds) = BzOpen d (\<lambda>there. if \<not> there then try_devices lcase ds
     else BzAsk Paired d (\<lambda>paired. if \<not> paired then try_devices lcase ds
     else BzName d (\<lambda>nm. if \<not> is_ours lcase nm then try_devices lcase ds
     else BzAsk Connected d (\<lambda>up. if \<not> up then connect_device d
     else BzAsk ServicesResolved d (\<lambda>ready. if ready then BzDone True else connect_device d)))))"

definition try_active_connect :: "(string \<Rightarrow> string) \<Rightarrow> bool bz" where
  "try_active_connect lcase = BzAdapter (\<lambda>a. case a of
     Err _ \<Rightarrow> BzDone False | Ok (_, ds) \<Rightarrow> try_devices lcase ds)"

fun cancel_devices :: "(string \<Rightarrow> string) \<Rightarrow> string list \<Rightarrow> unit bz" where
  "cancel_devices lcase [] = BzDone ()"
| "cancel_devices lcase (d # ds) = BzOpen d (\<lambda>there. if \<not> there then cancel_devices lcase ds
     else BzAsk Paired d (\<lambda>paired. if \<not> paired then cancel_devices lcase ds
     else BzName d (\<lambda>nm. if \<not> is_ours lcase nm then cancel_devices lcase ds
     else cancel_connect_on d (cancel_devices lcase ds))))"

definition cancel_pending_connect :: "(string \<Rightarrow> string) \<Rightarrow> unit bz" where
  "cancel_pending_connect lcase = BzAdapter (\<lambda>a. case a of
     Err _ \<Rightarrow> BzDone () | Ok (_, ds) \<Rightarrow> cancel_devices lcase ds)"

section \<open>Waiting for the device\<close>

text \<open>
  The branch that listens for property changes. It ends when the device is there, but also when the
  bus cannot be reached, the match is refused, or the stream ends or fails; the wait ends with it.
  A message says whether it could be read, whether it is about the link, and what the check then says.
\<close>

datatype bus_message = Unreadable | LinkChange bool bool | StreamError

fun event_stream :: "bus_message list \<Rightarrow> bool option" where
  "event_stream [] = None"
| "event_stream (Unreadable # ms) = event_stream ms"
| "event_stream (LinkChange about_link there # ms) = (if about_link \<and> there then Some True else event_stream ms)"
| "event_stream (StreamError # ms) = Some False"

definition event_wait :: "bool \<Rightarrow> bool \<Rightarrow> bus_message list \<Rightarrow> bool option" where
  "event_wait bus matched ms = (if \<not> bus \<or> \<not> matched then Some False else event_stream ms)"

text \<open>The connect driver, at the points where it waits for something.\<close>

datatype driver_point = AtTop | Parked | Checking | Connecting | Waiting nat | Arrived

record driver =
  dr_at :: driver_point
  dr_cadence :: cadence
  dr_begun :: nat
  dr_coord :: coordinator

definition driver_start :: "coordinator \<Rightarrow> driver" where
  "driver_start c = \<lparr> dr_at = AtTop, dr_cadence = cadence_start, dr_begun = 0, dr_coord = c \<rparr>"

datatype driver_event = DvGo | DvChecked bool | DvAttempted bool | DvTimer | DvKick | DvSleepSignal bool

definition take_kick :: "driver \<Rightarrow> driver" where
  "take_kick d = d\<lparr> dr_at := AtTop, dr_cadence := cadence_resume, dr_coord := (dr_coord d)\<lparr> resume_notify := False \<rparr> \<rparr>"

fun driver_step :: "driver_event \<Rightarrow> driver \<Rightarrow> driver" where
  "driver_step DvGo d = (if dr_at d = AtTop
     then d\<lparr> dr_at := (if is_suspending (dr_coord d) then Parked else Checking) \<rparr> else d)"
| "driver_step (DvChecked there) d = (if dr_at d \<noteq> Checking then d
     else if there then d\<lparr> dr_at := Arrived \<rparr>
     else d\<lparr> dr_at := Connecting, dr_begun := Suc (dr_begun d) \<rparr>)"
| "driver_step (DvAttempted good) d = (if dr_at d \<noteq> Connecting then d
     else if good then d\<lparr> dr_at := Arrived \<rparr>
     else d\<lparr> dr_at := Waiting (fst (cadence_wait (dr_cadence d))), dr_cadence := snd (cadence_wait (dr_cadence d)) \<rparr>)"
| "driver_step DvTimer d = (case dr_at d of Waiting _ \<Rightarrow> d\<lparr> dr_at := AtTop \<rparr> | _ \<Rightarrow> d)"
| "driver_step DvKick d = (if \<not> resume_notify (dr_coord d) then d
     else case dr_at d of Parked \<Rightarrow> take_kick d | Waiting _ \<Rightarrow> take_kick d | _ \<Rightarrow> d)"
| "driver_step (DvSleepSignal going) d = d\<lparr> dr_coord := on_prepare_for_sleep going (dr_coord d) \<rparr>"

text \<open>The wait as a whole: a first check, then whichever branch ends first.\<close>

definition wait_over :: "bool \<Rightarrow> bool option \<Rightarrow> driver \<Rightarrow> bool" where
  "wait_over first_check events d \<longleftrightarrow> first_check \<or> events \<noteq> None \<or> dr_at d = Arrived"

section \<open>Characteristics and the helper\<close>

datatype uuid_value = NoUuid | NotText | Uuid string

record gatt_object =
  go_path :: string
  go_char :: "(uuid_value \<times> string list option) option"

record gatt_paths =
  gp_cmd :: string
  gp_rsp :: string
  gp_ota :: "string option"
  gp_chars :: "(string \<times> string list option) list"

record gatt_scan =
  gs_cmd :: "string option"
  gs_rsp :: "string option"
  gs_ota :: "string option"
  gs_chars :: "(string \<times> string list option) list"

definition scan_object :: "(string \<Rightarrow> string) \<Rightarrow> string \<Rightarrow> gatt_object \<Rightarrow> gatt_scan \<Rightarrow> gatt_scan" where
  "scan_object lcase dev obj s =
     (if \<not> starts_with dev (go_path obj) then s
      else case go_char obj of None \<Rightarrow> s
      | Some (uuid, flags) \<Rightarrow>
          (let s1 = s\<lparr> gs_chars := gs_chars s @ [(go_path obj, flags)] \<rparr> in case uuid of
             Uuid u \<Rightarrow> if lcase u = CMD_CHAR_UUID_STR then s1\<lparr> gs_cmd := Some (go_path obj) \<rparr>
               else if lcase u = RSP_CHAR_UUID_STR then s1\<lparr> gs_rsp := Some (go_path obj) \<rparr>
               else if lcase u = OTA_CHAR_UUID_STR then s1\<lparr> gs_ota := Some (go_path obj) \<rparr> else s1
           | _ \<Rightarrow> s1))"

text \<open>The objects come out of a hash map, so their order is any.\<close>

definition discover_gatt_paths :: "(string \<Rightarrow> string) \<Rightarrow> string \<Rightarrow> gatt_object list \<Rightarrow> (gatt_paths, string) result" where
  "discover_gatt_paths lcase dev objs =
     (let s = fold (scan_object lcase dev) objs \<lparr> gs_cmd = None, gs_rsp = None, gs_ota = None, gs_chars = [] \<rparr> in
      case gs_cmd s of None \<Rightarrow> Err ''CMD characteristic not found''
      | Some c \<Rightarrow> (case gs_rsp s of None \<Rightarrow> Err ''RSP characteristic not found''
         | Some r \<Rightarrow> Ok \<lparr> gp_cmd = c, gp_rsp = r, gp_ota = gs_ota s, gp_chars = gs_chars s \<rparr>))"

definition extra_notify :: "gatt_paths \<Rightarrow> string list" where
  "extra_notify g = map fst (filter (\<lambda>(p, f). p \<noteq> gp_rsp g \<and>
     (case f of Some flags \<Rightarrow> ''notify'' \<in> set flags | None \<Rightarrow> False)) (gp_chars g))"

definition helper_args :: "string \<Rightarrow> string \<Rightarrow> gatt_paths \<Rightarrow> string list" where
  "helper_args script dev g = [script, dev, gp_cmd g, gp_rsp g, unwrap_or [] (gp_ota g)] @ extra_notify g"

definition HELPER :: string where "HELPER = ''ble-notify-helper.py''"

definition find_helper_script ::
    "(string \<Rightarrow> string option) \<Rightarrow> (string \<Rightarrow> bool) \<Rightarrow> (string \<Rightarrow> string option) \<Rightarrow> string option \<Rightarrow> string \<Rightarrow> string" where
  "find_helper_script env exists canonical exe_dir manifest_dir =
     (let from_env = (case env ''IMMUROK_HELPER_DIR'' of
            Some dir \<Rightarrow> (if exists (join_path dir HELPER) then Some (join_path dir HELPER) else None) | None \<Rightarrow> None);
          dev_path = manifest_dir @ ''/../../scripts/ble-notify-helper.py''
      in case from_env of Some p \<Rightarrow> p
      | None \<Rightarrow> (case Option.bind exe_dir (\<lambda>dir. let near = join_path dir HELPER;
              up = join_path dir ''../scripts/ble-notify-helper.py'' in
            if exists near then Some near else if exists up then Some (unwrap_or up (canonical up)) else None) of
          Some p \<Rightarrow> p
        | None \<Rightarrow> if exists dev_path then dev_path else HELPER))"

text \<open>
  The first line of the helper opens the session; after any other first line, or none within five
  seconds, there is none. The flag says whether the helper's output ended in that time.
\<close>

datatype helper_start = HelperLine string bool | HelperSilent bool

definition helper_ready :: "helper_start \<Rightarrow> (unit, string) result" where
  "helper_ready h = (let failed = (\<lambda>gone. Err (if gone then ''BLE helper exited before READY''
       else ''BLE helper did not report READY within 5s'')) in
     case h of HelperLine line gone \<Rightarrow> if trim line = ''READY'' then Ok () else failed gone
     | HelperSilent gone \<Rightarrow> failed gone)"

section \<open>What BlueZ is asked to do\<close>

text \<open>The connects that begin in a run, and the runs in which a connect that failed is not left behind.\<close>

definition connects :: "bz_event list \<Rightarrow> (string \<times> connect_answer) list" where
  "connects es = List.map_filter (\<lambda>e. case e of EConnect d c \<Rightarrow> Some (d, c) | _ \<Rightarrow> None) es"

lemma connects_simps [simp]:
  "connects [] = []" "connects (EAdapter a # es) = connects es" "connects (EOpen d b # es) = connects es"
  "connects (EAsk p d b # es) = connects es" "connects (EName d n # es) = connects es"
  "connects (EConnect d c # es) = (d, c) # connects es" "connects (EDisconnect d # es) = connects es"
  "connects (ESleep ms # es) = connects es"
  by (simp_all add: connects_def List.map_filter_simps)

lemma connects_append [simp]: "connects (es @ fs) = connects es @ connects fs"
  by (simp add: connects_def List.map_filter_def)

text \<open>How a connect ends: with the link and its services, or cancelled, or because the link is up.\<close>

definition settled :: "string \<Rightarrow> bz_event list \<Rightarrow> bool \<Rightarrow> bool" where
  "settled d es r \<longleftrightarrow> (\<exists>fs c. es = EConnect d c # fs \<and> connects fs = [] \<and>
     (c = Linked \<longrightarrow> EDisconnect d \<notin> set fs \<and> (r \<longrightarrow> EAsk ServicesResolved d True \<in> set fs \<or> EAsk Connected d True \<in> set fs)) \<and>
     (c \<noteq> Linked \<longrightarrow> \<not> r \<and> (fs = [EAsk Connected d True] \<or> fs = [EAsk Connected d False, EDisconnect d])))"

lemma await_run:
  "bz_run (await_services n d k) es r \<Longrightarrow> \<exists>fs gs b. es = fs @ gs \<and> bz_run (k b) gs r \<and> connects fs = [] \<and>
     (\<forall>x. EDisconnect x \<notin> set fs) \<and> (b \<longrightarrow> EAsk ServicesResolved d True \<in> set fs)"
proof (induction n arbitrary: es)
  case 0
  then have "es = [] @ es \<and> bz_run (k False) es r" by simp
  then show ?case by (metis connects_simps(1) empty_iff empty_set)
next
  case (Suc n)
  then obtain b es1 where es: "es = EAsk ServicesResolved d b # es1"
    "bz_run (if b then k True else BzSleep (from_millis 100) (await_services n d k)) es1 r"
    by (auto elim: bz_runE)
  show ?case
  proof (cases b)
    case True
    then show ?thesis
      using es by (intro exI [of _ "[EAsk ServicesResolved d True]"] exI [of _ es1] exI [of _ True]) simp
  next
    case False
    then obtain es2 where "es1 = ESleep (from_millis 100) # es2" "bz_run (await_services n d k) es2 r"
      using es(2) by (auto elim: bz_runE)
    with Suc.IH [OF this(2)] obtain fs gs c where rest: "es2 = fs @ gs" "bz_run (k c) gs r" "connects fs = []"
        "\<forall>x. EDisconnect x \<notin> set fs" "c \<longrightarrow> EAsk ServicesResolved d True \<in> set fs" "es1 = ESleep (from_millis 100) # es2"
      by blast
    then show ?thesis
      using es(1) False
      by (intro exI [of _ "EAsk ServicesResolved d False # ESleep (from_millis 100) # fs"] exI [of _ gs] exI [of _ c]) simp
  qed
qed

lemma cancel_run:
  "bz_run (cancel_connect_on d q) es r \<Longrightarrow>
     \<exists>fs. (es = EAsk Connected d True # fs \<or> es = EAsk Connected d False # EDisconnect d # fs) \<and> bz_run q fs r"
  by (auto simp: cancel_connect_on_def elim!: bz_runE split: if_splits)

lemma connect_run:
  assumes "bz_run (connect_device d) es r"
  shows "settled d es r"
proof -
  obtain c fs where es: "es = EConnect d c # fs" and run: "bz_run (case c of
       Linked \<Rightarrow> await_services 50 d (\<lambda>yes. if yes then BzDone True else BzAsk Connected d (\<lambda>up. BzDone up))
     | Refused \<Rightarrow> cancel_connect_on d (BzDone False) | TimedOut \<Rightarrow> cancel_connect_on d (BzDone False)) fs r"
    using assms by (auto simp: connect_device_def elim: bz_runE)
  show ?thesis
  proof (cases c)
    case Linked
    then obtain gs hs b where "fs = gs @ hs" "bz_run (if b then BzDone True else BzAsk Connected d (\<lambda>up. BzDone up)) hs r"
        "connects gs = []" "\<forall>x. EDisconnect x \<notin> set gs" "b \<longrightarrow> EAsk ServicesResolved d True \<in> set gs"
      using await_run [of 50 d "\<lambda>yes. if yes then BzDone True else BzAsk Connected d (\<lambda>up. BzDone up)" fs r] run
      by (simp only: connect_answer.case) blast
    then show ?thesis using es Linked by (auto simp: settled_def elim!: bz_runE split: if_splits)
  qed (use run es cancel_run [of d "BzDone False" fs r] in \<open>auto simp: settled_def\<close>)
qed

text \<open>
  A run of the active connect: only questions, or questions up to one device that is paired and ours,
  and then the connect to it.
\<close>

definition ours_and_paired :: "(string \<Rightarrow> string) \<Rightarrow> string \<Rightarrow> bz_event list \<Rightarrow> bool" where
  "ours_and_paired lcase d es \<longleftrightarrow> EAsk Paired d True \<in> set es \<and> (\<exists>nm. EName d nm \<in> set es \<and> is_ours lcase nm)"

definition only_questions :: "bz_event list \<Rightarrow> bool" where
  "only_questions es \<longleftrightarrow> connects es = [] \<and> (\<forall>d. EDisconnect d \<notin> set es)"

definition at_most_one :: "(string \<Rightarrow> string) \<Rightarrow> bz_event list \<Rightarrow> bool \<Rightarrow> bool" where
  "at_most_one lcase es r \<longleftrightarrow> only_questions es \<or>
     (\<exists>fs gs d. es = fs @ gs \<and> only_questions fs \<and> ours_and_paired lcase d fs \<and> settled d gs r)"

lemma only_questions_Cons [simp]:
  "only_questions (EAdapter a # es) = only_questions es" "only_questions (EOpen d b # es) = only_questions es"
  "only_questions (EAsk p d b # es) = only_questions es" "only_questions (EName d n # es) = only_questions es"
  "only_questions []"
  by (auto simp: only_questions_def)

lemma at_most_one_Cons:
  "at_most_one lcase es r \<Longrightarrow> only_questions [e] \<Longrightarrow> at_most_one lcase (e # es) r"
proof -
  assume "at_most_one lcase es r" "only_questions [e]"
  then consider "only_questions es" | fs gs d where "es = fs @ gs" "only_questions fs" "ours_and_paired lcase d fs" "settled d gs r"
    by (auto simp: at_most_one_def)
  then show ?thesis
  proof cases
    case 1
    then show ?thesis using \<open>only_questions [e]\<close> by (cases e) (auto simp: at_most_one_def only_questions_def)
  next
    case 2
    have "only_questions (e # fs)" using 2(2) \<open>only_questions [e]\<close> by (cases e) (auto simp: only_questions_def)
    moreover have "ours_and_paired lcase d (e # fs)" using 2(3) by (auto simp: ours_and_paired_def)
    ultimately show ?thesis using 2(1,4) unfolding at_most_one_def by (metis append_Cons)
  qed
qed

text \<open>
  The questions asked on the way are kept in front, as what is known of the device is in them.
\<close>

lemma try_run_aux:
  "bz_run (try_devices lcase ds) es r \<Longrightarrow>
     only_questions es \<or> (\<exists>fs gs d. es = fs @ gs \<and> only_questions fs \<and> ours_and_paired lcase d fs \<and> d \<in> set ds \<and> settled d gs r)"
proof (induction ds arbitrary: es)
  case Nil
  then show ?case by auto
next
  case (Cons d ds)
  have later: "?case" if "bz_run (try_devices lcase ds) gs r" "es = fs @ gs" "only_questions fs" for fs gs
  proof -
    from Cons.IH [OF that(1)] consider "only_questions gs"
      | hs ks x where "gs = hs @ ks" "only_questions hs" "ours_and_paired lcase x hs" "x \<in> set ds" "settled x ks r"
      by blast
    then show ?thesis
    proof cases
      case 1
      then show ?thesis using that(2,3) by (auto simp: only_questions_def)
    next
      case 2
      have "only_questions (fs @ hs)" "ours_and_paired lcase x (fs @ hs)"
        using that(3) 2(2,3) by (auto simp: only_questions_def ours_and_paired_def)
      moreover have "es = (fs @ hs) @ ks" using that(2) 2(1) by simp
      ultimately show ?thesis using 2(4,5) by (metis list.set_intros(2))
    qed
  qed
  have here: "?case" if "bz_run (connect_device d) gs r" "es = fs @ gs" "only_questions fs" "ours_and_paired lcase d fs" for fs gs
    using that connect_run [OF that(1)] by auto
  obtain b1 e1 where 1: "es = EOpen d b1 # e1" using Cons.prems by (auto elim: bz_runE)
  show ?case
  proof (cases b1)
    case False
    then show ?thesis using Cons.prems 1 by (intro later [of e1 "[EOpen d b1]"]) simp_all
  next
    case b1: True
    then obtain b2 e2 where 2: "e1 = EAsk Paired d b2 # e2" using Cons.prems 1 by (auto elim: bz_runE)
    show ?thesis
    proof (cases b2)
      case False
      then show ?thesis using Cons.prems 1 2 b1 by (intro later [of e2 "[EOpen d b1, EAsk Paired d b2]"]) simp_all
    next
      case b2: True
      then obtain nm e3 where 3: "e2 = EName d nm # e3" using Cons.prems 1 2 b1 by (auto elim: bz_runE)
      let ?q = "[EOpen d b1, EAsk Paired d b2, EName d nm]"
      show ?thesis
      proof (cases "is_ours lcase nm")
        case False
        then show ?thesis using Cons.prems 1 2 3 b1 b2 by (intro later [of e3 ?q]) simp_all
      next
        case ours: True
        then obtain b4 e4 where 4: "e3 = EAsk Connected d b4 # e4" using Cons.prems 1 2 3 b1 b2 by (auto elim: bz_runE)
        show ?thesis
        proof (cases b4)
          case False
          then show ?thesis using Cons.prems 1 2 3 4 b1 b2 ours
            by (intro here [of e4 "?q @ [EAsk Connected d b4]"]) (auto simp: ours_and_paired_def)
        next
          case b4: True
          then obtain b5 e5 where 5: "e4 = EAsk ServicesResolved d b5 # e5" using Cons.prems 1 2 3 4 b1 b2 ours by (auto elim: bz_runE)
          show ?thesis
          proof (cases b5)
            case True
            then show ?thesis using Cons.prems 1 2 3 4 5 b1 b2 b4 ours by simp
          next
            case False
            then show ?thesis using Cons.prems 1 2 3 4 5 b1 b2 b4 ours
              by (intro here [of e5 "?q @ [EAsk Connected d b4, EAsk ServicesResolved d b5]"]) (auto simp: ours_and_paired_def)
          qed
        qed
      qed
    qed
  qed
qed

text \<open>
  Fact: Whatever BlueZ answers, an active connect begins at most one connect, to a device that BlueZ calls
  paired and whose name is ours; when that connect is refused or times out, the pending connect is
  cancelled in BlueZ unless the link is up by then, and the attempt counts as failed.
\<close>

theorem active_connect_never_left_pending:
  assumes "bz_run (try_active_connect lcase) es r"
  shows "at_most_one lcase es r \<and> (connects es = [(d, c)] \<and> c \<noteq> Linked \<longrightarrow>
     \<not> r \<and> (EAsk Connected d True \<in> set es \<or> last es = EDisconnect d))"
proof -
  obtain a es1 where es: "es = EAdapter a # es1"
    "bz_run (case a of Err _ \<Rightarrow> BzDone False | Ok (_, ds) \<Rightarrow> try_devices lcase ds) es1 r"
    using assms by (auto simp: try_active_connect_def elim: bz_runE)
  have "at_most_one lcase es1 r"
    using es(2) try_run_aux [of lcase _ es1 r]
    by (cases a) (auto simp: at_most_one_def split: prod.splits)
  then have one: "at_most_one lcase es r"
    unfolding es(1) by (rule at_most_one_Cons) simp
  moreover have "\<not> r \<and> (EAsk Connected d True \<in> set es \<or> last es = EDisconnect d)"
    if "connects es = [(d, c)]" "c \<noteq> Linked"
  proof -
    have "\<not> only_questions es" using that(1) by (simp add: only_questions_def)
    then obtain fs gs x where x: "es = fs @ gs" "only_questions fs" "settled x gs r"
      using one unfolding at_most_one_def by blast
    then show ?thesis using that by (auto simp: settled_def only_questions_def)
  qed
  ultimately show ?thesis by blast
qed

definition timed_out_run :: "bz_event list" where
  "timed_out_run = [EAdapter (Ok (''hci0'', [''AA:BB''])), EOpen ''AA:BB'' True, EAsk Paired ''AA:BB'' True,
     EName ''AA:BB'' (Some ''immurok''), EAsk Connected ''AA:BB'' False, EConnect ''AA:BB'' TimedOut,
     EAsk Connected ''AA:BB'' False, EDisconnect ''AA:BB'']"

theorem active_connect_never_left_pending_witness:
  "at_most_one (\<lambda>s. s) timed_out_run False \<and> last timed_out_run = EDisconnect ''AA:BB''"
proof -
  have "bz_run (try_active_connect (\<lambda>s. s)) timed_out_run False"
    by (simp add: timed_out_run_def try_active_connect_def connect_device_def cancel_connect_on_def is_ours_def)
  from active_connect_never_left_pending [OF this, of "''AA:BB''" TimedOut] show ?thesis
    by (simp add: timed_out_run_def)
qed

section \<open>The driver and the suspend window\<close>

definition quiet_event :: "driver_event \<Rightarrow> bool" where
  "quiet_event e \<longleftrightarrow> e \<noteq> DvSleepSignal False"

definition held :: "driver \<Rightarrow> bool" where
  "held d \<longleftrightarrow> is_suspending (dr_coord d) \<and> dr_at d \<noteq> Checking \<and> dr_at d \<noteq> Connecting"

lemma held_step: "held d \<Longrightarrow> quiet_event e \<Longrightarrow> held (driver_step e d) \<and> dr_begun (driver_step e d) = dr_begun d"
  by (cases e; cases "dr_at d") (auto simp: held_def quiet_event_def take_kick_def on_prepare_for_sleep_def)

text \<open>
  Fact: While the machine suspends, the driver begins no connect: from every state in which it is not
  between its check and its connect, no sequence of timers, kicks, answers and further sleep signals
  short of the resume makes it start one.
\<close>

theorem no_connect_while_suspended:
  assumes "held d" "list_all quiet_event es"
  shows "dr_begun (fold driver_step es d) = dr_begun d \<and> held (fold driver_step es d)"
  using assms by (induction es arbitrary: d) (auto simp: held_step)

definition asleep :: driver where
  "asleep = fold driver_step [DvSleepSignal True, DvGo] (driver_start coordinator_new)"

theorem no_connect_while_suspended_witness:
  "dr_begun (fold driver_step [DvKick, DvTimer, DvGo, DvChecked False] asleep) = 0"
  using no_connect_while_suspended [of asleep "[DvKick, DvTimer, DvGo, DvChecked False]"]
  by (simp add: asleep_def driver_start_def held_def quiet_event_def on_prepare_for_sleep_def)

text \<open>
  Fact: a sleep signal between the check for the device and the connect is not seen: the connect begins
  although the machine suspends, and after the monitor cancelled the pending ones.
\<close>

theorem sleep_signal_missed:
  "let d = fold driver_step [DvGo, DvSleepSignal True, DvChecked False] (driver_start coordinator_new) in
     dr_at d = Connecting \<and> is_suspending (dr_coord d) \<and> dr_begun d = 1"
  by (simp add: driver_start_def on_prepare_for_sleep_def coordinator_new_def)

text \<open>
  Fact: A resume wakes the driver wherever it waits: the parked driver and the waiting one go back to the
  check with the full burst of attempts, so the next fifteen failed attempts are two seconds apart.
\<close>

theorem resume_starts_burst:
  assumes "dr_at d = Parked \<or> (\<exists>s. dr_at d = Waiting s)"
  shows "let d1 = fold driver_step [DvSleepSignal False, DvKick, DvGo] d in
     dr_at d1 = Checking \<and> dr_cadence d1 = cadence_resume \<and>
     (\<forall>n < 15. fst (cadence_wait (fold cadence_step (replicate n AttemptFailed) (dr_cadence d1))) = BLE_RESUME_BURST_INTERVAL_SECS)"
proof -
  have burst: "fold cadence_step (replicate n AttemptFailed) (b, i) = (b - n, i)" if "n \<le> b" for n b i
    using that by (induction n arbitrary: b) auto
  have "dr_at (fold driver_step [DvSleepSignal False, DvKick, DvGo] d) = Checking"
    "dr_cadence (fold driver_step [DvSleepSignal False, DvKick, DvGo] d) = cadence_resume"
    using assms by (auto simp: on_prepare_for_sleep_def take_kick_def)
  moreover have "fst (cadence_wait (fold cadence_step (replicate n AttemptFailed) cadence_resume)) = BLE_RESUME_BURST_INTERVAL_SECS"
    if "n < 15" for n
    using that burst [of n "unat BLE_RESUME_BURST_ATTEMPTS" BLE_ACTIVE_RECONNECT_INTERVAL_SECS]
    by (simp add: cadence_resume_def)
  ultimately show ?thesis by (simp add: Let_def)
qed

theorem resume_starts_burst_witness:
  "dr_at (fold driver_step [DvSleepSignal False, DvKick, DvGo] asleep) = Checking"
  using resume_starts_burst [of asleep]
  by (simp add: asleep_def driver_start_def on_prepare_for_sleep_def Let_def)

text \<open>
  Fact: the wait ends although no device is there, as soon as the branch of the D-Bus events ends: the
  bus cannot be reached, the match is refused, or the stream fails. The driver is dropped with it.
\<close>

theorem wait_ends_without_device:
  "wait_over False (event_wait False matched ms) d \<and> wait_over False (event_wait True False ms) d \<and>
   wait_over False (event_wait True True [StreamError]) d"
  by (simp add: wait_over_def event_wait_def)

section \<open>The characteristics\<close>

text \<open>The paths of the characteristics with one identifier, in the order of the objects.\<close>

definition paths_of :: "(string \<Rightarrow> string) \<Rightarrow> string \<Rightarrow> string \<Rightarrow> gatt_object list \<Rightarrow> string list" where
  "paths_of lcase dev u objs = map go_path (filter (\<lambda>obj. starts_with dev (go_path obj) \<and>
     (case go_char obj of Some (Uuid v, _) \<Rightarrow> lcase v = u | _ \<Rightarrow> False)) objs)"

definition chars_of :: "string \<Rightarrow> gatt_object list \<Rightarrow> (string \<times> string list option) list" where
  "chars_of dev objs = map (\<lambda>obj. (go_path obj, snd (the (go_char obj))))
     (filter (\<lambda>obj. starts_with dev (go_path obj) \<and> go_char obj \<noteq> None) objs)"

definition last_of :: "'a option \<Rightarrow> 'a list \<Rightarrow> 'a option" where
  "last_of d xs = (if xs = [] then d else Some (last xs))"

lemma uuids_differ:
  "CMD_CHAR_UUID_STR \<noteq> RSP_CHAR_UUID_STR" "CMD_CHAR_UUID_STR \<noteq> OTA_CHAR_UUID_STR" "RSP_CHAR_UUID_STR \<noteq> OTA_CHAR_UUID_STR"
  by simp_all

lemmas uuid_defs = CMD_CHAR_UUID_STR_def RSP_CHAR_UUID_STR_def OTA_CHAR_UUID_STR_def

text \<open>One object adds at most one path to each list.\<close>

lemma paths_of_Cons:
  "paths_of lcase dev u (obj # objs) =
     (if starts_with dev (go_path obj) \<and> (case go_char obj of Some (Uuid v, _) \<Rightarrow> lcase v = u | _ \<Rightarrow> False)
      then [go_path obj] else []) @ paths_of lcase dev u objs"
  by (simp add: paths_of_def)

lemma chars_of_Cons:
  "chars_of dev (obj # objs) =
     (if starts_with dev (go_path obj) then (case go_char obj of Some (_, f) \<Rightarrow> [(go_path obj, f)] | None \<Rightarrow> []) else []) @
     chars_of dev objs"
  by (auto simp: chars_of_def split: option.split)

lemma last_of_Cons [simp]: "last_of d (x # xs) = last_of (Some x) xs"
  by (simp add: last_of_def)

lemma scan_objects:
  "fold (scan_object lcase dev) objs s = \<lparr> gs_cmd = last_of (gs_cmd s) (paths_of lcase dev CMD_CHAR_UUID_STR objs),
     gs_rsp = last_of (gs_rsp s) (paths_of lcase dev RSP_CHAR_UUID_STR objs),
     gs_ota = last_of (gs_ota s) (paths_of lcase dev OTA_CHAR_UUID_STR objs),
     gs_chars = gs_chars s @ chars_of dev objs \<rparr>"
proof (induction objs arbitrary: s)
  case Nil
  then show ?case by (simp add: paths_of_def chars_of_def last_of_def)
next
  case (Cons obj objs)
  note differ = uuids_differ uuids_differ [THEN not_sym]
  show ?case
  proof (cases "go_char obj")
    case None
    then show ?thesis by (simp add: Cons.IH scan_object_def [of lcase dev obj] paths_of_Cons chars_of_Cons del: uuid_defs)
  next
    case (Some uf)
    obtain uuid f where uf: "uf = (uuid, f)" by (cases uf)
    show ?thesis
      by (cases uuid)
        (use Some uf differ in \<open>simp_all add: Cons.IH scan_object_def [of lcase dev obj] paths_of_Cons chars_of_Cons Let_def del: uuid_defs\<close>)
  qed
qed

lemma few_same: "mset xs = mset ys \<Longrightarrow> length xs \<le> 1 \<Longrightarrow> xs = ys"
  by (cases xs; cases ys) auto

text \<open>
  Fact: The characteristics do not depend on the order in which BlueZ lists its objects, as long as no two
  of the device's objects carry the same of the three identifiers; the notifying characteristics are the
  same up to their order.
\<close>

theorem gatt_discovery_order:
  assumes "mset objs = mset objs'"
    and "list_all (\<lambda>u. length (paths_of lcase dev u objs) \<le> 1) [CMD_CHAR_UUID_STR, RSP_CHAR_UUID_STR, OTA_CHAR_UUID_STR]"
  shows "(case (discover_gatt_paths lcase dev objs, discover_gatt_paths lcase dev objs') of
     (Ok g, Ok g') \<Rightarrow> gp_cmd g = gp_cmd g' \<and> gp_rsp g = gp_rsp g' \<and> gp_ota g = gp_ota g' \<and>
       mset (extra_notify g) = mset (extra_notify g') \<and> take 5 (helper_args script dev g) = take 5 (helper_args script dev g')
   | (Err e, Err e') \<Rightarrow> e = e'
   | _ \<Rightarrow> False)"
proof -
  have paths: "paths_of lcase dev u objs = paths_of lcase dev u objs'" if "length (paths_of lcase dev u objs) \<le> 1" for u
    using that assms(1) by (intro few_same) (simp_all add: paths_of_def mset_filter)
  have chars: "mset (chars_of dev objs) = mset (chars_of dev objs')"
    using assms(1) by (simp add: chars_of_def mset_filter)
  have same: "paths_of lcase dev u objs = paths_of lcase dev u objs'" if "u \<in> {CMD_CHAR_UUID_STR, RSP_CHAR_UUID_STR, OTA_CHAR_UUID_STR}" for u
    using that assms(2) paths by (auto simp del: uuid_defs)
  have notify: "mset (extra_notify \<lparr> gp_cmd = c, gp_rsp = r, gp_ota = t, gp_chars = chars_of dev objs \<rparr>) =
      mset (extra_notify \<lparr> gp_cmd = c, gp_rsp = r, gp_ota = t, gp_chars = chars_of dev objs' \<rparr>)" for c r t
    using chars by (simp add: extra_notify_def mset_filter mset_map)
  show ?thesis
    unfolding discover_gatt_paths_def scan_objects Let_def
    using notify same [of CMD_CHAR_UUID_STR] same [of RSP_CHAR_UUID_STR] same [of OTA_CHAR_UUID_STR]
    by (simp add: helper_args_def split: option.split del: uuid_defs)
qed

definition sample_objects :: "gatt_object list" where
  "sample_objects = [\<lparr> go_path = ''/d/c1'', go_char = Some (Uuid CMD_CHAR_UUID_STR, None) \<rparr>,
     \<lparr> go_path = ''/d/c2'', go_char = Some (Uuid RSP_CHAR_UUID_STR, Some [''notify'']) \<rparr>,
     \<lparr> go_path = ''/d/c3'', go_char = Some (NoUuid, Some [''notify'']) \<rparr>]"

lemma sample_paths:
  "paths_of (\<lambda>s. s) ''/d'' CMD_CHAR_UUID_STR sample_objects = [''/d/c1'']"
  "paths_of (\<lambda>s. s) ''/d'' RSP_CHAR_UUID_STR sample_objects = [''/d/c2'']"
  "paths_of (\<lambda>s. s) ''/d'' OTA_CHAR_UUID_STR sample_objects = []"
  using uuids_differ uuids_differ [THEN not_sym]
  by (simp_all add: sample_objects_def paths_of_def del: uuid_defs)

theorem gatt_discovery_order_witness:
  "case (discover_gatt_paths (\<lambda>s. s) ''/d'' sample_objects, discover_gatt_paths (\<lambda>s. s) ''/d'' (rev sample_objects)) of
     (Ok g, Ok g') \<Rightarrow> gp_cmd g = gp_cmd g' \<and> gp_rsp g = gp_rsp g' \<and> gp_ota g = gp_ota g' \<and>
       mset (extra_notify g) = mset (extra_notify g') \<and> take 5 (helper_args HELPER ''/d'' g) = take 5 (helper_args HELPER ''/d'' g')
   | (Err e, Err e') \<Rightarrow> e = e'
   | _ \<Rightarrow> False"
  by (rule gatt_discovery_order) (simp_all add: sample_paths del: uuid_defs)

text \<open>A path is found only for a device that BlueZ calls connected and whose name is ours.\<close>

lemma find_in_ours:
  "bz_run (find_in lcase adapter ds) es (Ok (Some p)) \<Longrightarrow>
     \<exists>d nm. d \<in> set ds \<and> p = device_node adapter d \<and> EAsk Connected d True \<in> set es \<and> EName d nm \<in> set es \<and> is_ours lcase nm"
proof (induction ds arbitrary: es)
  case Nil
  then show ?case by simp
next
  case (Cons d ds)
  have later: ?case if run: "bz_run (find_in lcase adapter ds) gs (Ok (Some p))" and sub: "set gs \<subseteq> set es" for gs
  proof -
    obtain x nm where "x \<in> set ds" "p = device_node adapter x" "EAsk Connected x True \<in> set gs" "EName x nm \<in> set gs"
        "is_ours lcase nm"
      using Cons.IH [OF run] by blast
    then show ?thesis using sub by (intro exI [of _ x] exI [of _ nm]) auto
  qed
  obtain b1 e1 where 1: "es = EOpen d b1 # e1" using Cons.prems by (auto elim: bz_runE)
  then have b1: "b1" using Cons.prems by (cases b1) simp_all
  obtain b2 e2 where 2: "e1 = EAsk Connected d b2 # e2" using Cons.prems 1 b1 by (auto elim: bz_runE)
  show ?case
  proof (cases b2)
    case False
    then show ?thesis using Cons.prems 1 2 b1 by (intro later [of e2]) auto
  next
    case b2: True
    obtain nm e3 where 3: "e2 = EName d nm # e3" using Cons.prems 1 2 b1 b2 by (auto elim: bz_runE)
    show ?thesis
    proof (cases "is_ours lcase nm")
      case False
      then show ?thesis using Cons.prems 1 2 3 b1 b2 by (intro later [of e3]) auto
    next
      case True
      then have "bz_run (await_services 50 d (\<lambda>_. BzDone (Ok (Some (device_node adapter d))))) e3 (Ok (Some p) :: (string option, string) result)"
        using Cons.prems 1 2 3 b1 b2 by simp
      then have "p = device_node adapter d" using await_run by (metis bz_run_done option.inject result.inject(1))
      then show ?thesis using 1 2 3 b2 True by auto
    qed
  qed
qed

text \<open>The check says yes only for a device of ours that is connected with its services.\<close>

lemma check_devices_ours:
  "bz_run (check_devices lcase ds) es True \<Longrightarrow> \<exists>d nm. d \<in> set ds \<and> EAsk Connected d True \<in> set es \<and>
     EAsk ServicesResolved d True \<in> set es \<and> EName d nm \<in> set es \<and> is_ours lcase nm"
proof (induction ds arbitrary: es)
  case Nil
  then show ?case by simp
next
  case (Cons d ds)
  have later: ?case if "bz_run (check_devices lcase ds) gs True" "set gs \<subseteq> set es" for gs
    using Cons.IH [OF that(1)] that(2) by (meson list.set_intros(2) subsetD)
  obtain b1 e1 where 1: "es = EOpen d b1 # e1" using Cons.prems by (auto elim: bz_runE)
  show ?case
  proof (cases b1)
    case False
    then show ?thesis using Cons.prems 1 by (intro later [of e1]) auto
  next
    case b1: True
    obtain b2 e2 where 2: "e1 = EAsk Connected d b2 # e2" using Cons.prems 1 b1 by (auto elim: bz_runE)
    show ?thesis
    proof (cases b2)
      case False
      then show ?thesis using Cons.prems 1 2 b1 by (intro later [of e2]) auto
    next
      case b2: True
      obtain b3 e3 where 3: "e2 = EAsk ServicesResolved d b3 # e3" using Cons.prems 1 2 b1 b2 by (auto elim: bz_runE)
      show ?thesis
      proof (cases b3)
        case False
        then show ?thesis using Cons.prems 1 2 3 b1 b2 by (intro later [of e3]) auto
      next
        case b3: True
        obtain nm e4 where 4: "e3 = EName d nm # e4" using Cons.prems 1 2 3 b1 b2 b3 by (auto elim: bz_runE)
        show ?thesis
        proof (cases "is_ours lcase nm")
          case False
          then show ?thesis using Cons.prems 1 2 3 4 b1 b2 b3 by (intro later [of e4]) auto
        next
          case True
          then show ?thesis using 1 2 3 4 b2 b3 by auto
        qed
      qed
    qed
  qed
qed

text \<open>The helper found is one that exists, or its bare name.\<close>

lemma helper_script_exists:
  "(\<And>p q. canonical p = Some q \<Longrightarrow> exists p \<Longrightarrow> exists q) \<Longrightarrow>
     exists (find_helper_script env exists canonical exe_dir manifest_dir) \<or>
     find_helper_script env exists canonical exe_dir manifest_dir = HELPER"
  unfolding find_helper_script_def Let_def
  by (cases "env ''IMMUROK_HELPER_DIR''"; cases exe_dir;
      cases "canonical (join_path (the exe_dir) ''../scripts/ble-notify-helper.py'')") simp_all

end
