(* ===== verification/Daemon_Start.thy ===== *)
theory Daemon_Start
  imports Ble_Discovery Pam_Config
begin

text \<open>
  The start of the daemon (\<open>main.rs\<close>), where it keeps its files (\<open>immurok-common/src/paths.rs\<close>), its
  settings file (\<open>settings.rs\<close>), the opening of its two sockets, and the two monitors of logind that
  run beside it (\<open>screen.rs\<close>, \<open>suspend.rs\<close>). The environment, the files and the bus are arguments.
\<close>

section \<open>Paths\<close>

definition first_entry :: "string \<Rightarrow> string option" where
  "first_entry v = List.find (\<lambda>s. s \<noteq> []) (map trim (split_on CHR '':'' v))"

definition resolve_dir :: "string option \<Rightarrow> string option \<Rightarrow> string \<Rightarrow> string" where
  "resolve_dir override systemd fallback = (case Option.bind override first_entry of
     Some p \<Rightarrow> p
   | None \<Rightarrow> (case Option.bind systemd first_entry of Some p \<Rightarrow> p | None \<Rightarrow> fallback))"

type_synonym environment = "string \<Rightarrow> string option"

definition runtime_dir :: "environment \<Rightarrow> string" where
  "runtime_dir env = resolve_dir (env ''IMMUROK_RUNTIME_DIR'') (env ''RUNTIME_DIRECTORY'') SYSTEM_RUNTIME_DIR"

definition state_dir :: "environment \<Rightarrow> string" where
  "state_dir env = resolve_dir (env ''IMMUROK_STATE_DIR'') (env ''STATE_DIRECTORY'') SYSTEM_STATE_DIR"

definition log_dir :: "environment \<Rightarrow> string" where
  "log_dir env = resolve_dir (env ''IMMUROK_LOG_DIR'') (env ''LOGS_DIRECTORY'') SYSTEM_LOG_DIR"

definition pam_socket :: "environment \<Rightarrow> string" where
  "pam_socket env = (case Option.bind (env ''IMMUROK_SOCKET'') first_entry of
     Some p \<Rightarrow> p | None \<Rightarrow> join_path (runtime_dir env) PAM_SOCKET_NAME)"

definition agent_socket :: "environment \<Rightarrow> string" where
  "agent_socket env = (case Option.bind (env ''IMMUROK_AGENT_SOCKET'') first_entry of
     Some p \<Rightarrow> p | None \<Rightarrow> join_path (runtime_dir env) AGENT_SOCKET_NAME)"

definition daemon_log :: "environment \<Rightarrow> string" where
  "daemon_log env = join_path (log_dir env) DAEMON_LOG_FILE"

definition user_dir :: "environment \<Rightarrow> string option" where
  "user_dir env = map_option (\<lambda>home. join_path home IMMUROK_DIR) (env ''HOME'')"

section \<open>The settings file\<close>

text \<open>JSON is a pair of functions; a file is its text. A save writes a temporary file and renames it.\<close>

record settings_json =
  sj_parse :: "string \<Rightarrow> settings option"
  sj_print :: "settings \<Rightarrow> (string, string) result"

definition settings_load :: "settings_json \<Rightarrow> string option \<Rightarrow> settings" where
  "settings_load J text = unwrap_or default_settings (Option.bind text (sj_parse J))"

text \<open>The steps of a save: the directory, the text, the temporary file, the rename.\<close>

definition settings_save ::
    "settings_json \<Rightarrow> (nat \<Rightarrow> (unit, string) result) \<Rightarrow> settings \<Rightarrow> string option \<Rightarrow> (unit, string) result \<times> string option" where
  "settings_save J io s old = (case io 0 of Err e \<Rightarrow> (Err e, old)
   | Ok _ \<Rightarrow> (case sj_print J s of Err e \<Rightarrow> (Err e, old)
   | Ok text \<Rightarrow> (case io 1 of Err e \<Rightarrow> (Err e, old)
   | Ok _ \<Rightarrow> (case io 2 of Err e \<Rightarrow> (Err e, old) | Ok _ \<Rightarrow> (Ok (), Some text)))))"

section \<open>Opening a socket\<close>

text \<open>
  Both servers remove a stale socket, bind it and open it to everybody; a bind that fails ends the
  process, a mode that cannot be set only warns.
\<close>

datatype socket_effect = Unlinked string | Bound string | Chmod string nat | Exited nat | Accepting string

definition open_socket :: "bool \<Rightarrow> bool \<Rightarrow> string \<Rightarrow> socket_effect list" where
  "open_socket bound moded path = [Unlinked path] @
     (if \<not> bound then [Exited 1]
      else [Bound path] @ (if moded then [Chmod path 438] else []) @ [Accepting path])"

section \<open>The start\<close>

definition pam_state :: "bool \<Rightarrow> bool \<Rightarrow> string" where
  "pam_state enabled present = (if \<not> enabled then ''off'' else if present then ''OK'' else ''MISSING'')"

definition pam_report :: "pam_dir \<Rightarrow> settings \<Rightarrow> string list" where
  "pam_report dir st =
     [''PAM status: sudo='' @ pam_state (unlock_sudo st) (pam_line_present_in dir ''sudo'') @
      '' polkit='' @ pam_state (unlock_polkit st) (pam_line_present_in dir ''polkit-1'')] @
     (if (unlock_sudo st \<and> \<not> pam_line_present_in dir ''sudo'') \<or> (unlock_polkit st \<and> \<not> pam_line_present_in dir ''polkit-1'')
      then [''PAM config incomplete '' @ em_dash @ '' run '' @ quoted ''immurok-cli pam repair'']
      else [])"

text \<open>
  A start that cannot make its directories panics. A pairing that cannot be read counts as none. What
  is found on disk fills a new coordinator; then the servers, the worker and the monitors run until one
  of them ends or the interrupt comes.
\<close>

datatype start_effect =
    StateMode string nat
  | StartWarned string
  | StartReported string

datatype daemon_start =
    StartPanicked string
  | Started (started_coordinator: coordinator) (started_pam: string) (started_agent: string) (started_effects: "start_effect list")

definition daemon_start ::
    "environment \<Rightarrow> (string \<Rightarrow> (unit, string) result) \<Rightarrow> (unit, string) result \<Rightarrow> pairing_data option \<Rightarrow> settings \<Rightarrow>
      pam_dir \<Rightarrow> daemon_start" where
  "daemon_start env make_dir set_mode found st dir =
     (case make_dir (state_dir env) of
        Err e \<Rightarrow> StartPanicked (''cannot create '' @ state_dir env @ '': '' @ e)
      | Ok _ \<Rightarrow> (case make_dir (runtime_dir env) of
          Err e \<Rightarrow> StartPanicked (''cannot create '' @ runtime_dir env @ '': '' @ e)
        | Ok _ \<Rightarrow> Started (coordinator_new\<lparr> pairing := found, settings := st \<rparr>) (pam_socket env) (agent_socket env)
            ((case set_mode of Ok _ \<Rightarrow> [StateMode (state_dir env) 448]
              | Err e \<Rightarrow> [StartWarned (''cannot chmod 0700 '' @ state_dir env @ '': '' @ e)]) @
             map StartReported (pam_report dir st))))"

definition daemon_stop :: "environment \<Rightarrow> string list" where
  "daemon_stop env = [pam_socket env, agent_socket env]"

section \<open>The monitors of logind\<close>

text \<open>One connection of the screen monitor; every signal and every poll asks logind itself.\<close>

datatype screen_event = ScreenMessage | ScreenPoll | ScreenError | ScreenEnd

fun screen_session :: "(screen_event \<times> host) list \<Rightarrow> coordinator \<Rightarrow> bool \<times> coordinator" where
  "screen_session [] c = (False, c)"
| "screen_session ((e, h) # es) c = (if e = ScreenError \<or> e = ScreenEnd then (True, c) else screen_session es (refresh h c))"

definition screen_monitor :: "bool \<Rightarrow> bool \<Rightarrow> host \<Rightarrow> (screen_event \<times> host) list \<Rightarrow> coordinator \<Rightarrow> bool \<times> coordinator" where
  "screen_monitor bus matched h es c = (if \<not> bus \<or> \<not> matched then (True, c) else screen_session es (refresh h c))"

definition screen_wait :: "nat \<Rightarrow> nat" where
  "screen_wait n = (monitor_backoff ^^ n) (from_secs 5)"

text \<open>One connection of the sleep monitor, and the cancels of pending connects it asked for.\<close>

datatype sleep_message = SleepSignal bool | SleepOther | SleepError

fun sleep_session :: "sleep_message list \<Rightarrow> coordinator \<times> nat \<Rightarrow> bool \<times> coordinator \<times> nat" where
  "sleep_session [] s = (False, s)"
| "sleep_session (SleepOther # ms) s = sleep_session ms s"
| "sleep_session (SleepError # ms) s = (True, s)"
| "sleep_session (SleepSignal going # ms) (c, n) = sleep_session ms (on_prepare_for_sleep going c, if going then Suc n else n)"

definition SLEEP_RETRY :: nat where "SLEEP_RETRY = from_secs 5"

section \<open>What holds of them\<close>

lemma first_entry_some: "first_entry v = Some p \<Longrightarrow> p \<noteq> []"
  unfolding first_entry_def by (auto simp: find_Some_iff)

lemma bind_first_entry: "Option.bind v first_entry = Some p \<Longrightarrow> p \<noteq> []"
  using first_entry_some by (cases v) auto

text \<open>Every directory and socket has a path, whatever the environment.\<close>

lemma resolve_not_empty: "fallback \<noteq> [] \<Longrightarrow> resolve_dir a b fallback \<noteq> []"
  using bind_first_entry by (auto simp: resolve_dir_def split: option.split)

lemma paths_not_empty:
  "runtime_dir env \<noteq> []" "state_dir env \<noteq> []" "log_dir env \<noteq> []" "pam_socket env \<noteq> []" "agent_socket env \<noteq> []"
  using bind_first_entry by (auto simp: runtime_dir_def state_dir_def log_dir_def pam_socket_def agent_socket_def
      resolve_not_empty join_path_def split: option.split)

text \<open>An override wins over systemd, and systemd over the fixed path.\<close>

lemma resolve_order:
  "first_entry v = Some p \<Longrightarrow> resolve_dir (Some v) b fallback = p"
  "Option.bind a first_entry = None \<Longrightarrow> first_entry w = Some q \<Longrightarrow> resolve_dir a (Some w) fallback = q"
  by (simp_all add: resolve_dir_def)

text \<open>
  Fact: saving the settings is atomic, and what was saved is what the next start loads.
\<close>

theorem settings_saved_are_loaded:
  assumes "sj_print J s = Ok t" "sj_parse J t = Some s"
  shows "settings_load J (snd (settings_save J io s old)) =
    (if is_ok (fst (settings_save J io s old)) then s else settings_load J old)"
  by (simp add: settings_save_def settings_load_def assms split: result.split)

theorem settings_saved_are_loaded_witness:
  "settings_load \<lparr> sj_parse = (\<lambda>t. Some default_settings), sj_print = (\<lambda>s. Ok ''{}'') \<rparr>
     (snd (settings_save \<lparr> sj_parse = (\<lambda>t. Some default_settings), sj_print = (\<lambda>s. Ok ''{}'') \<rparr> (\<lambda>_. Ok ()) default_settings None)) =
   default_settings"
  using settings_saved_are_loaded [of "\<lparr> sj_parse = (\<lambda>t. Some default_settings), sj_print = (\<lambda>s. Ok ''{}'') \<rparr>"
      default_settings "''{}''" "\<lambda>_. Ok ()" None]
  by (simp add: settings_save_def)

text \<open>
  Fact: A started daemon trusts nothing of an earlier run: it is not connected, no device is verified, no
  login waits and no sudo window is armed; only the pairing and the settings come from disk, and a
  pairing that could not be read means unpaired.
\<close>

theorem start_trusts_nothing:
  assumes "daemon_start env make_dir set_mode found st dir = Started c pam agent es"
  shows "\<not> is_connected c \<and> \<not> is_device_verified c \<and> \<not> challenge_verified c \<and> pending_pam c = None \<and>
    pre_auth c = None \<and> pairing c = found \<and> settings c = st \<and> pam \<noteq> [] \<and> agent \<noteq> [] \<and>
    make_dir (state_dir env) = Ok () \<and> make_dir (runtime_dir env) = Ok ()"
  using assms paths_not_empty(4,5) [of env]
  by (auto simp: daemon_start_def coordinator_new_def split: result.splits)

theorem start_trusts_nothing_witness:
  "pre_auth (started_coordinator (daemon_start (\<lambda>_. None) (\<lambda>_. Ok ()) (Ok ()) None default_settings (\<lambda>_. None))) = None"
proof -
  obtain c pam agent es where
    "daemon_start (\<lambda>_. None) (\<lambda>_. Ok ()) (Ok ()) None default_settings (\<lambda>_. None) = Started c pam agent es"
    by (simp add: daemon_start_def)
  with start_trusts_nothing [OF this] show ?thesis by simp
qed

text \<open>What logind last said of the screen, when it said anything.\<close>

definition known_lock :: "host \<Rightarrow> bool option" where
  "known_lock h = Option.bind (owner_uid h) (\<lambda>uid. Option.bind (graphical_session_id h uid) (session_locked h))"

lemma refresh_known: "screen_locked (refresh h c) = unwrap_or (screen_locked c) (known_lock h)"
  by (simp add: refresh_def known_lock_def split: option.split)

lemma screen_session_known:
  "list_all (\<lambda>(e, h). e \<noteq> ScreenError \<and> e \<noteq> ScreenEnd) es \<Longrightarrow>
     screen_locked (snd (screen_session es c)) =
       (case List.map_filter (known_lock \<circ> snd) (rev es) of [] \<Rightarrow> screen_locked c | b # _ \<Rightarrow> b)"
proof (induction es arbitrary: c)
  case Nil
  then show ?case by (simp add: List.map_filter_simps)
next
  case (Cons eh es)
  obtain e h where eh: "eh = (e, h)" by (cases eh)
  have app: "List.map_filter f (xs @ [x]) = List.map_filter f xs @ (case f x of Some y \<Rightarrow> [y] | None \<Rightarrow> [])" for f x and xs :: "'c list"
    by (simp add: List.map_filter_def split: option.split)
  show ?case
    using Cons eh by (auto simp: app refresh_known split: list.split option.split)
qed

text \<open>
  Fact: The screen state the coordinator acts on is the last one logind reported; an answer that says
  nothing (no owner, no graphical session, no hint) leaves it as it was, whatever woke the monitor.
\<close>

theorem screen_state_follows_logind:
  assumes "list_all (\<lambda>(e, h). e \<noteq> ScreenError \<and> e \<noteq> ScreenEnd) es"
  shows "screen_locked (snd (screen_monitor True True h es c)) =
    (case List.map_filter (known_lock \<circ> snd) (rev ((ScreenPoll, h) # es)) of [] \<Rightarrow> screen_locked c | b # _ \<Rightarrow> b)"
  using screen_session_known [of "(ScreenPoll, h) # es" c] assms by (simp add: screen_monitor_def)

theorem screen_state_follows_logind_witness:
  "screen_locked (snd (screen_monitor True True sample_host [(ScreenMessage, sample_host)] coordinator_new)) =
    (case List.map_filter (known_lock \<circ> snd) (rev ((ScreenPoll, sample_host) # [(ScreenMessage, sample_host)])) of
       [] \<Rightarrow> screen_locked coordinator_new | b # _ \<Rightarrow> b)"
  by (rule screen_state_follows_logind) simp

text \<open>The monitor reconnects at growing distances, at most five minutes apart.\<close>

lemma screen_wait_bounds: "from_secs 5 \<le> screen_wait n \<and> screen_wait n \<le> from_secs 300"
  by (induction n) (auto simp: screen_wait_def monitor_backoff_def from_secs_def)

text \<open>
  Fact: a resume that falls into the gap after the bus stream failed is lost for good: the suspend flag
  stays set, and the driver that waits on it begins no connect until the next suspend and resume.
\<close>

theorem lost_resume_parks_driver:
  assumes "dr_at d = Parked" "sleep_session [SleepSignal True, SleepError, SleepSignal False] (c, 0) = (True, dr_coord d, n)"
    "list_all quiet_event es"
  shows "is_suspending (dr_coord d) \<and> n = 1 \<and> dr_begun (fold driver_step es d) = dr_begun d"
proof -
  have "dr_coord d = c\<lparr> is_suspending := True \<rparr>" "n = 1" using assms(2) by (auto simp: on_prepare_for_sleep_def)
  then have susp: "is_suspending (dr_coord d)" "n = 1" by simp_all
  have "held (fold driver_step es e) \<and> dr_begun (fold driver_step es e) = dr_begun e" if "held e" for e
    using that assms(3) by (induction es arbitrary: e) (auto simp: held_step)
  then show ?thesis using susp assms(1) by (simp add: held_def)
qed

theorem lost_resume_parks_driver_witness:
  "dr_begun (fold driver_step [DvTimer, DvGo, DvChecked False]
     \<lparr> dr_at = Parked, dr_cadence = cadence_start, dr_begun = 0,
       dr_coord = fst (snd (sleep_session [SleepSignal True, SleepError, SleepSignal False] (coordinator_new, 0))) \<rparr>) = 0"
  using lost_resume_parks_driver [of "\<lparr> dr_at = Parked, dr_cadence = cadence_start, dr_begun = 0,
       dr_coord = fst (snd (sleep_session [SleepSignal True, SleepError, SleepSignal False] (coordinator_new, 0))) \<rparr>"
      coordinator_new 1 "[DvTimer, DvGo, DvChecked False]"]
  by (simp add: quiet_event_def)

end
