(* ===== verification/Tui_View.thy ===== *)
theory Tui_View
  imports Tui_Safety Gui_Gate Gui_Logs
begin

text \<open>
  What the terminal UI shows (\<open>immurok-cli/src/tui/widgets.rs\<close>): the text and the look of every line, as a
  function of the application. Where ratatui puts an area comes as the width or the height it has; a gauge
  is its ratio with its label, and a label that is a percentage is left as the number. The time stamps of
  the events are left out, as in \<open>Tui_State\<close>. \<open>None\<close> is a panic.
\<close>

section \<open>Looks, spans and lines\<close>

datatype colour = CoCyan | CoGreen | CoYellow | CoRed | CoGray | CoBlack

record look =
  lk_fg :: "colour option"
  lk_bg :: "colour option"
  lk_bold :: bool
  lk_underlined :: bool
  lk_blink :: bool

type_synonym span = "look \<times> string"

type_synonym text_line = "span list"

abbreviation PRIMARY :: colour where "PRIMARY \<equiv> CoCyan"
abbreviation HOTKEY :: colour where "HOTKEY \<equiv> CoCyan"
abbreviation OK_COLOUR :: colour where "OK_COLOUR \<equiv> CoGreen"
abbreviation WARN_COLOUR :: colour where "WARN_COLOUR \<equiv> CoYellow"
abbreviation ERR_COLOUR :: colour where "ERR_COLOUR \<equiv> CoRed"
abbreviation DIM_COLOUR :: colour where "DIM_COLOUR \<equiv> CoGray"

definition plain :: look where
  "plain = \<lparr> lk_fg = None, lk_bg = None, lk_bold = False, lk_underlined = False, lk_blink = False \<rparr>"

definition fg :: "colour \<Rightarrow> look" where "fg c = plain\<lparr> lk_fg := Some c \<rparr>"

definition boldly :: "look \<Rightarrow> look" where "boldly l = l\<lparr> lk_bold := True \<rparr>"

definition inverse_look :: look where "inverse_look = boldly ((fg CoBlack)\<lparr> lk_bg := Some PRIMARY \<rparr>)"

definition raw :: "string \<Rightarrow> span" where "raw s = (plain, s)"

definition line_text :: "text_line \<Rightarrow> string" where "line_text l = concat (map snd l)"

text \<open>The formats \<open>{:<n}\<close> and \<open>truncate\<close>, which count characters.\<close>

definition pad_chars :: "nat \<Rightarrow> string \<Rightarrow> string" where
  "pad_chars n s = s @ replicate (n - length (utf8_chars s)) CHR '' ''"

definition truncate_chars :: "string \<Rightarrow> nat \<Rightarrow> string" where
  "truncate_chars s n =
     (if length (utf8_chars s) \<le> n then s else concat (take (n - 1) (utf8_chars s)) @ ellipsis)"

section \<open>The header and the tab bar\<close>

definition battery_render :: "app \<Rightarrow> string \<times> string \<times> look" where
  "battery_render a =
     (if \<not> app_connected a \<or> app_battery a = 0 then (''-'', ([CHR 0xE2, CHR 0x96, CHR 0xB1] @ [CHR 0xE2, CHR 0x96, CHR 0xB1] @ [CHR 0xE2, CHR 0x96, CHR 0xB1] @ [CHR 0xE2, CHR 0x96, CHR 0xB1] @ [CHR 0xE2, CHR 0x96, CHR 0xB1]), fg DIM_COLOUR)
      else let pct = min (unat (app_battery a)) 100; filled = min ((pct * 5 + 50) div 100) 5
        in (show_nat pct @ ''%'',
            concat (replicate filled [CHR 0xE2, CHR 0x96, CHR 0xB0]) @ concat (replicate (5 - filled) [CHR 0xE2, CHR 0x96, CHR 0xB1]),
            boldly (fg (if pct < 15 then ERR_COLOUR else if pct < 30 then WARN_COLOUR else OK_COLOUR))))"

definition dot_sep :: span where "dot_sep = (fg DIM_COLOUR, (''  '' @ mid_dot @ ''  ''))"

definition header_brand :: text_line where
  "header_brand = [raw '' '', (boldly (fg PRIMARY), ''immurok'')]"

definition header_status :: "app \<Rightarrow> text_line" where
  "header_status a =
     (if \<not> app_daemon_ok a then [(boldly (fg ERR_COLOUR), (open_dot @ '' daemon offline''))]
      else if \<not> app_connected a then
        [(fg ERR_COLOUR, (open_dot @ '' Disconnected'')),
         if app_paired a then (fg DIM_COLOUR, (''  '' @ mid_dot @ ''  paired'')) else (fg WARN_COLOUR, (''  '' @ mid_dot @ ''  not paired''))]
      else
        [(boldly (fg OK_COLOUR), (full_dot @ '' Connected''))] @
        (if app_device_name a = [] then [] else [dot_sep, (boldly plain, app_device_name a)]) @
        (if app_device_unpaired a then
           [dot_sep, (boldly (fg ERR_COLOUR), (''DEVICE NOT PAIRED '' @ em_dash @ '' run '' @ [CHR 0x27] @ ''immurok-cli pair'' @ [CHR 0x27]))]
         else if \<not> app_paired a then [dot_sep, (fg WARN_COLOUR, ''not paired'')] else []) @
        (if app_fw_version a = [] then [] else [dot_sep, (fg DIM_COLOUR, ''FW '' @ app_fw_version a)]) @
        (case battery_render a of (label, bar, l) \<Rightarrow> [dot_sep, (l, bar), raw '' '', (l, label)])) @
     [raw '' '']"

definition tab_title :: "tab \<Rightarrow> string" where
  "tab_title t = (case t of TabDashboard \<Rightarrow> ''Dashboard'' | TabKeys \<Rightarrow> ''Keys'' | TabPam \<Rightarrow> ''PAM''
   | TabLogs \<Rightarrow> ''Logs'' | TabFirmware \<Rightarrow> ''Firmware'')"

definition tab_hotkey :: "tab \<Rightarrow> string" where
  "tab_hotkey t = (case t of TabDashboard \<Rightarrow> ''1'' | TabKeys \<Rightarrow> ''2'' | TabPam \<Rightarrow> ''3''
   | TabLogs \<Rightarrow> ''4'' | TabFirmware \<Rightarrow> ''5'')"

definition all_tabs :: "tab list" where
  "all_tabs = [TabDashboard, TabKeys, TabPam, TabLogs, TabFirmware]"

definition tab_spans :: "tab \<Rightarrow> tab \<Rightarrow> text_line" where
  "tab_spans active t =
     (let key_look = (if active = t then boldly (fg PRIMARY) else fg DIM_COLOUR);
          label_look = (if active = t then (boldly (fg PRIMARY))\<lparr> lk_underlined := True \<rparr> else fg DIM_COLOUR)
      in [(key_look, [CHR 0xE2, CHR 0x9D, CHR 0xAC] @ tab_hotkey t @ [CHR 0xE2, CHR 0x9D, CHR 0xAD]), raw '' '', (label_look, tab_title t), raw ''   ''])"

definition tabbar :: "app \<Rightarrow> text_line" where
  "tabbar a = raw '' '' # concat (map (tab_spans (app_tab a)) all_tabs)"

section \<open>The dashboard\<close>

text \<open>A bordered area: its title, its lines, and the gauge below them.\<close>

datatype gauge_label = GlText string | GlPercent rat

record drawn_panel =
  pn_title :: "look \<times> string"
  pn_corner :: "span option"
  pn_lines :: "text_line list"
  pn_gauge :: "(rat \<times> gauge_label) option"

definition content_panel :: "string \<Rightarrow> text_line list \<Rightarrow> drawn_panel" where
  "content_panel title ls = \<lparr> pn_title = (boldly (fg PRIMARY), title), pn_corner = None, pn_lines = ls, pn_gauge = None \<rparr>"

definition fw_hint :: "app \<Rightarrow> text_line" where
  "fw_hint a =
     (if fw_outdated a then
        [(boldly (fg ERR_COLOUR), ('' '' @ warning_sign @ '' Firmware outdated (old signing era) '' @ em_dash @ '' press U to update''))]
      else case app_fw_available a of
        Some v \<Rightarrow> [(fg WARN_COLOUR, ('' '' @ [CHR 0xE2, CHR 0xAC, CHR 0x86] @ '' Firmware update available: v'') @ v @ '' (press U)'')]
      | None \<Rightarrow> [])"

definition host_row :: "app \<Rightarrow> byte \<Rightarrow> text_line" where
  "host_row a slot =
     (let occupied = (app_slot_bitmap a AND push_bit (unat (slot - 1)) 1 \<noteq> 0); is_mine = (app_slot_mine a = Some slot)
      in [(boldly (fg OK_COLOUR), if is_mine then ([CHR 0xE2, CHR 0x96, CHR 0xB6] @ '' '') else ''  ''),
          if occupied then (boldly (fg OK_COLOUR), (''['' @ check_mark @ '']'')) else (fg DIM_COLOUR, ''[ ]''),
          (if is_mine then boldly plain else plain, '' Host '' @ show_word slot @ '': ''),
          (fg (if occupied then OK_COLOUR else DIM_COLOUR), if occupied then ''paired'' else ''empty'')])"

definition hosts_panel :: "app \<Rightarrow> drawn_panel" where
  "hosts_panel a =
     (let elsewhere = (app_slot_active a \<noteq> 0 \<and> Some (app_slot_active a) \<noteq> app_slot_mine a)
      in (content_panel [] (map (host_row a) [1, 2]))
           \<lparr> pn_title := (if elsewhere
                then (boldly (fg WARN_COLOUR), ('' Hosts '' @ mid_dot @ '' H '' @ mid_dot @ '' device on '') @ show_word (app_slot_active a) @ '' '')
                else (boldly (fg PRIMARY), ('' Hosts '' @ mid_dot @ '' H ''))) \<rparr>)"

definition fp_count :: "byte \<Rightarrow> nat" where
  "fp_count b = length (filter (\<lambda>i. bit (b AND 0x1F) i) [0..<8])"

definition finger_span :: "app \<Rightarrow> byte \<Rightarrow> text_line" where
  "finger_span a i =
     (let has = (app_fp_bitmap a AND push_bit (unat i) 1 \<noteq> 0); enrolling = (app_enroll_active a \<and> i = app_enroll_slot a);
          glyph = (if enrolling then [CHR 0xE2, CHR 0x97, CHR 0x8D] else if has then [CHR 0xE2, CHR 0xAC, CHR 0xA4] else open_dot);
          label = (if i = SWITCH_FINGER_SLOT then glyph @ ('' '' @ [CHR 0xE2, CHR 0x87, CHR 0x84]) else glyph @ '' '' @ show_word i);
          l = (if enrolling then boldly (fg WARN_COLOUR) else if has then boldly (fg OK_COLOUR) else fg DIM_COLOUR)
      in [(l, label), raw ''    ''])"

definition fingers_panel :: "app \<Rightarrow> drawn_panel" where
  "fingers_panel a =
     (let slots = raw ''  '' # concat (map (finger_span a) (u8_range TOTAL_FINGERPRINT_SLOTS)) in
      if \<not> app_enroll_active a then
        content_panel (('' Fingerprints '' @ mid_dot @ '' '') @ show_nat (fp_count (app_fp_bitmap a AND 0x1F)) @ ''/'' @
          show_word MAX_FINGERPRINT_SLOTS @ '' '') [slots]
      else
        let p = (content_panel [] [slots])\<lparr> pn_title := (boldly (fg WARN_COLOUR),
              ('' Fingerprints '' @ mid_dot @ '' enrolling slot '') @ show_word (app_enroll_slot a) @ '' '') \<rparr>
        in if app_enroll_gate a then
             p\<lparr> pn_lines := [slots, [(boldly (fg WARN_COLOUR), (''  '' @ [CHR 0xE2, CHR 0x9A, CHR 0xBF] @ '' '')), raw ''Verify with an enrolled finger'']],
                pn_gauge := Some (0, GlText (''awaiting authorization '' @ mid_dot @ '' Esc to cancel'')) \<rparr>
           else
             let n = max (app_enroll_total a) 1;
                 step = min (if app_enroll_current a = 255 then 255 else app_enroll_current a + 1) n;
                 ratio = of_nat (unat (min (app_enroll_current a) (app_enroll_total a))) / of_nat (unat n)
             in p\<lparr> pn_lines := [slots, [(boldly (fg WARN_COLOUR), ''  '' @ step_arrow step @ '' ''), raw (step_hint step)]],
                   pn_gauge := Some (max 0 (min 1 ratio), GlText (show_word (app_enroll_current a) @ ''/'' @
                     show_word (app_enroll_total a) @ ('' '' @ mid_dot @ '' Esc to cancel''))) \<rparr>)"

definition toggle_row :: "string \<Rightarrow> string \<Rightarrow> bool \<Rightarrow> text_line" where
  "toggle_row k label on =
     [raw ''  '', (boldly (fg HOTKEY), k), raw ''  '', raw (pad_right 17 label),
      if on then (boldly (fg OK_COLOUR), (full_dot @ '' on'')) else (fg DIM_COLOUR, (open_dot @ '' off''))]"

definition unlock_panel :: "app \<Rightarrow> drawn_panel" where
  "unlock_panel a = (let s = app_settings a in content_panel '' Unlock ''
     [toggle_row ''s'' ''sudo'' (cst_unlock_sudo s), toggle_row ''o'' ''polkit'' (cst_unlock_polkit s),
      toggle_row ''k'' ''screen unlock'' (cst_unlock_screen s), toggle_row ''L'' ''long-press lock'' (cst_lock_screen s),
      toggle_row ''h'' ''ssh'' (cst_ssh_takeover s)])"

definition pam_chip :: "string \<Rightarrow> bool \<Rightarrow> span" where
  "pam_chip label installed =
     (fg (if installed then OK_COLOUR else DIM_COLOUR), (if installed then check_mark else [CHR 0xE2, CHR 0x9C, CHR 0x97]) @ '' '' @ label)"

definition pam_summary_panel :: "app \<Rightarrow> drawn_panel" where
  "pam_summary_panel a = content_panel '' PAM ''
     [[raw ''  '', pam_chip ''sudo'' (app_pam_sudo a), raw ''   '', pam_chip ''polkit'' (app_pam_polkit a),
       raw ''   '', pam_chip ''gdm'' (app_pam_screen a), (fg DIM_COLOUR, (''      '' @ [CHR 0xE2, CHR 0x9D, CHR 0xAC] @ ''3'' @ [CHR 0xE2, CHR 0x9D, CHR 0xAD] @ '' manage''))]]"

definition style_mark :: "message_style \<Rightarrow> string \<times> colour" where
  "style_mark s = (case s of Green \<Rightarrow> (check_mark, OK_COLOUR) | Red \<Rightarrow> ([CHR 0xE2, CHR 0x9C, CHR 0x97], ERR_COLOUR)
   | Yellow \<Rightarrow> (ellipsis, WARN_COLOUR) | Dim \<Rightarrow> (mid_dot, DIM_COLOUR))"

definition event_row :: "nat \<Rightarrow> event_entry \<Rightarrow> text_line" where
  "event_row width e = (case style_mark (event_style e) of (mark, c) \<Rightarrow>
     [(fg c, mark @ '' ''), raw (truncate_chars (event_entry.event_text e) (width - 13))])"

definition events_panel :: "nat \<times> nat \<Rightarrow> app \<Rightarrow> drawn_panel" where
  "events_panel dims a = (case dims of (width, height) \<Rightarrow>
     content_panel '' Events ''
       (if app_events a = [] then [[(fg DIM_COLOUR, ''  (no events yet)'')]]
        else map (event_row width) (drop (length (app_events a) - height) (app_events a))))"

definition EVENTS_MIN_WIDTH :: nat where "EVENTS_MIN_WIDTH = 84"

text \<open>The hint on the firmware is a line without a border.\<close>

definition dashboard_panels :: "nat \<Rightarrow> nat \<times> nat \<Rightarrow> app \<Rightarrow> drawn_panel list" where
  "dashboard_panels width events a =
     (if \<not> app_daemon_ok a then
        [content_panel '' Dashboard '' [[raw []], [(boldly (fg ERR_COLOUR), ''  daemon not running'')], [raw []],
           [(fg DIM_COLOUR, ''  start it with:  systemctl --user start immurok-daemon'')]]]
      else [fingers_panel a] @ (if app_dual_host a then [hosts_panel a] else []) @ [unlock_panel a, pam_summary_panel a] @
        [content_panel [] [fw_hint a]] @ (if EVENTS_MIN_WIDTH \<le> width then [events_panel events a] else []))"

section \<open>The keys\<close>

definition category_hint :: "key_tab \<Rightarrow> string" where
  "category_hint t = (case t of
     KSsh \<Rightarrow> (''  a generate on-device keypair '' @ mid_dot @ '' c show authorized_keys line '' @ mid_dot @ '' import via CLI `key import`'')
   | KOtp \<Rightarrow> (''  a add entry (name + base32 secret) '' @ mid_dot @ '' o fetch code (FP-gated) '' @ mid_dot @ '' bulk import via CLI `key import-otp`'')
   | KApi \<Rightarrow> (''  a add entry (name + value) '' @ mid_dot @ '' s show value (FP-gated)''))"

definition category_span :: "app \<Rightarrow> key_tab \<Rightarrow> nat \<Rightarrow> byte \<Rightarrow> span" where
  "category_span a t n limit =
     (if app_key_tab a = t then inverse_look else fg DIM_COLOUR,
      '' '' @ tab_label t @ '' '' @ show_nat n @ ''/'' @ show_word limit @ '' '')"

definition category_line :: "app \<Rightarrow> text_line" where
  "category_line a =
     [raw ''  '', category_span a KSsh (length (app_ssh_keys a)) KEY_MAX_SSH,
      raw ''  '', category_span a KOtp (length (app_otp_keys a)) KEY_MAX_OTP,
      raw ''  '', category_span a KApi (length (app_api_keys a)) KEY_MAX_API,
      (fg DIM_COLOUR, (''   '' @ [CHR 0xE2, CHR 0x80, CHR 0xB9] @ ''h  Tab  l'' @ [CHR 0xE2, CHR 0x80, CHR 0xBA]))]"

text \<open>The first entry that is shown, for a list of \<open>n\<close> entries with the cursor at \<open>cur\<close> on \<open>rows\<close> rows.\<close>

definition window_start :: "nat \<Rightarrow> nat \<Rightarrow> nat \<Rightarrow> nat" where
  "window_start n cur rows =
     (if n \<le> rows \<or> cur < rows div 2 then 0
      else if n \<le> cur + rows div 2 then n - rows
      else cur - rows div 2)"

definition key_row_line :: "app \<Rightarrow> nat \<Rightarrow> text_line option" where
  "key_row_line a i =
     (let sel = (i = app_key_cursor a); mark = (if sel then ('' '' @ [CHR 0xE2, CHR 0x96, CHR 0xB6] @ '' '') else ''   ''); l = (if sel then inverse_look else plain)
      in map_option (\<lambda>s. [(l, mark @ s)]) (case app_key_tab a of
        KSsh \<Rightarrow> map_option (\<lambda>r. ''['' @ pad_left 2 (show_word (row_index r)) @ ''] '' @
            pad_chars 18 (truncate_chars (row_name r) 18) @ ''  '' @
            (if row_fingerprint r = [] then ''-'' else row_fingerprint r)) (get_at (app_ssh_keys a) i)
      | KOtp \<Rightarrow> map_option (\<lambda>r. ''['' @ pad_left 2 (show_word (nrow_index r)) @ ''] '' @
            pad_chars 30 (truncate_chars (nrow_name r) 30) @ ''  '' @
            (if nrow_service r = [] then ''-'' else nrow_service r)) (get_at (app_otp_keys a) i)
      | KApi \<Rightarrow> map_option (\<lambda>r. ''['' @ pad_left 2 (show_word (nrow_index r)) @ ''] '' @ nrow_name r)
            (get_at (app_api_keys a) i)))"

fun all_some :: "'a option list \<Rightarrow> 'a list option" where
  "all_some [] = Some []"
| "all_some (x # xs) = (case x of None \<Rightarrow> None | Some y \<Rightarrow> map_option ((#) y) (all_some xs))"

definition key_rows :: "nat \<Rightarrow> app \<Rightarrow> text_line list option" where
  "key_rows rows a =
     (let n = current_key_len a; start = window_start n (app_key_cursor a) rows in
      if n = 0 then Some [[(fg DIM_COLOUR,
        if \<not> app_connected a then (''  (no entries cached '' @ em_dash @ '' connect device to sync)'') else ''  (no entries)'')]]
      else all_some (map (key_row_line a) [start..<min (start + rows) n]))"

definition keys_panel :: "nat \<Rightarrow> app \<Rightarrow> drawn_panel option" where
  "keys_panel rows a = map_option
     (\<lambda>ls. content_panel '' Keys '' ([category_line a, [(fg DIM_COLOUR, category_hint (app_key_tab a))]] @ ls))
     (key_rows rows a)"

section \<open>The PAM services and the log\<close>

definition isolation_line :: "bool option \<Rightarrow> text_line" where
  "isolation_line i = (case i of
     Some True \<Rightarrow> [(fg OK_COLOUR, (''  '' @ check_mark @ '' '')), (boldly (fg OK_COLOUR), ''isolated daemon''),
       (fg DIM_COLOUR, ''   running as its own system user'')]
   | Some False \<Rightarrow> [(fg ERR_COLOUR, (''  '' @ [CHR 0xE2, CHR 0x9C, CHR 0x97] @ '' '')), (boldly (fg ERR_COLOUR), ''NOT isolated''),
       (fg ERR_COLOUR, (''   running as YOUR user '' @ em_dash @ '' any of your processes can pass sudo. Run '' @ [CHR 0x27] @ ''make install'' @ [CHR 0x27] @ ''.''))]
   | None \<Rightarrow> [(fg DIM_COLOUR, ''  ? isolation unknown (daemon not reachable)'')])"

definition pam_display :: "string \<Rightarrow> string" where
  "pam_display s = (if s = ''sudo'' then ''sudo'' else if s = ''polkit-1'' then ''polkit'' else ''screen (gdm)'')"

definition pam_row :: "app \<Rightarrow> nat \<Rightarrow> string \<Rightarrow> text_line" where
  "pam_row a i s =
     (let sel = (i = app_pam_cursor a); inst = pam_is_installed a i; l = (if sel then inverse_look else plain);
          c = (if inst then OK_COLOUR else DIM_COLOUR)
      in [(l, if sel then ('' '' @ [CHR 0xE2, CHR 0x96, CHR 0xB6] @ '' '') else ''   ''), (boldly l, pad_right 14 (pam_display s)),
          (fg c, (if inst then check_mark else [CHR 0xE2, CHR 0x9C, CHR 0x97]) @ '' ''), (fg c, pad_right 14 (if inst then ''installed'' else ''not installed'')),
          (fg DIM_COLOUR, ''  /etc/pam.d/'' @ s)])"

definition pam_panel :: "app \<Rightarrow> drawn_panel" where
  "pam_panel a = content_panel '' PAM services ''
     ([isolation_line (app_isolated a), [raw []],
       [(fg DIM_COLOUR, (''  install/remove needs admin auth '' @ em_dash @ '' pkexec will prompt.''))], [raw []]] @
      map (\<lambda>(i, s). pam_row a i s) (enumerate 0 TUI_PAM_SERVICES))"

definition log_line_style :: "string \<Rightarrow> look" where
  "log_line_style line =
     (if list_ex (\<lambda>p. contains_str p line) ['' ERROR '', ''ERROR:'', ''[ERROR]'', '' panicked''] then boldly (fg ERR_COLOUR)
      else if list_ex (\<lambda>p. contains_str p line) ['' WARN '', ''WARN:'', ''[WARN]''] then fg WARN_COLOUR
      else if list_ex (\<lambda>p. contains_str p line) ['' DEBUG '', '' TRACE ''] then fg DIM_COLOUR
      else plain)"

definition log_window :: "nat \<Rightarrow> app \<Rightarrow> string list" where
  "log_window rows a =
     (let till = length (app_log_lines a) - app_log_scroll a; start = till - rows
      in take (till - start) (drop start (app_log_lines a)))"

definition logs_panel :: "nat \<Rightarrow> app \<Rightarrow> drawn_panel" where
  "logs_panel rows a =
     (content_panel ('' Logs '' @ mid_dot @ '' immurok-daemon '')
        (if app_log_lines a = [] then [[(fg DIM_COLOUR, (''  (waiting for daemon output'' @ ellipsis @ '')''))]]
         else map (\<lambda>s. [(log_line_style s, s)]) (log_window rows a)))
        \<lparr> pn_corner := Some (
            if \<not> app_log_open a then (fg ERR_COLOUR, (full_dot @ '' stream closed ''))
            else if app_log_scroll a = 0 then (boldly (fg OK_COLOUR), (full_dot @ '' live ''))
            else (boldly (fg WARN_COLOUR), ([CHR 0xE2, CHR 0x8F, CHR 0xB8] @ '' -'') @ show_nat (app_log_scroll a) @ '' lines '')) \<rparr>"

section \<open>The firmware page\<close>

definition update_plan_text :: "prepared_update \<Rightarrow> string" where
  "update_plan_text p =
     (if prep_resumed p then '' Plan: resume interrupted update''
      else case prep_hops p of
        [h, h'] \<Rightarrow> '' Plan: 2 hops (bridge '' @ hop_version h @ ('' '' @ right_arrow @ '' '') @ hop_version h' @ '')''
      | _ \<Rightarrow> '' Plan: direct (1 hop)'')"

text \<open>The device and what is offered, the status, the notes, and the hint or the gauge in the last row.\<close>

definition firmware_panel :: "app \<Rightarrow> drawn_panel" where
  "firmware_panel a =
     (let latest_text = (case app_fw_prepared a of Some p \<Rightarrow> prep_target p | None \<Rightarrow> unwrap_or ''-'' (app_fw_available a));
          versions = [(fg DIM_COLOUR, '' Device: ''), raw (if app_fw_version a = [] then ''-'' else app_fw_version a),
                      (fg DIM_COLOUR, ''   Latest: ''), raw latest_text];
          shows = (\<lambda>ls. content_panel '' Firmware Update '' (versions # ls));
          hint = (\<lambda>t. [(fg DIM_COLOUR, t)])
      in case app_fw_state a of
        FwIdle \<Rightarrow> shows [[(fg DIM_COLOUR, ('' Checking for updates'' @ ellipsis))]]
      | FwChecking \<Rightarrow> shows [[(fg DIM_COLOUR, ('' Checking for updates'' @ ellipsis))]]
      | FwUpToDate \<Rightarrow> shows [[(fg OK_COLOUR, ('' '' @ check_mark @ '' Firmware is up to date.''))], [], hint ('' r check again '' @ mid_dot @ '' Esc back'')]
      | FwReady \<Rightarrow> (case app_fw_prepared a of
          None \<Rightarrow> shows []
        | Some p \<Rightarrow> shows [[raw (update_plan_text p)],
            (case prep_notes p of Some n \<Rightarrow> [(fg DIM_COLOUR, '' Notes: '' @ n)] | None \<Rightarrow> []),
            [(boldly (fg HOTKEY), '' Enter''), (fg DIM_COLOUR, ('' start update '' @ mid_dot @ '' '')), (boldly (fg HOTKEY), ''Esc''),
             (fg DIM_COLOUR, '' back'')]])
      | FwUpdating stage part hop hops \<Rightarrow>
          (shows [[raw (if 1 < hops then '' hop '' @ show_nat hop @ ''/'' @ show_nat hops @ '': '' @ stage else '' '' @ stage)],
             [(fg WARN_COLOUR, '' Do not power off the device.'')]])
            \<lparr> pn_gauge := Some (max 0 (min 1 part), GlPercent part) \<rparr>
      | FwSuccess v \<Rightarrow> shows [[(boldly (fg OK_COLOUR), ('' '' @ check_mark @ '' Update complete '' @ em_dash @ '' device is now on '') @ v @ ''.'')], [],
          hint ('' r check again '' @ mid_dot @ '' Esc back'')]
      | FwFailed e \<Rightarrow> shows [[(fg ERR_COLOUR, ('' '' @ [CHR 0xE2, CHR 0x9C, CHR 0x97] @ '' '') @ e)], [], hint ('' r retry check '' @ mid_dot @ '' Esc back'')])"

section \<open>The message and the hotkeys\<close>

definition input_label :: "key_add_flow option \<Rightarrow> string" where
  "input_label fl = (case fl of
     None \<Rightarrow> '' Input: ''
   | Some f \<Rightarrow> (case flow_stage f of
       StageName \<Rightarrow> (case flow_cat f of KSsh \<Rightarrow> '' New SSH key name: '' | KOtp \<Rightarrow> '' Account name: ''
         | KApi \<Rightarrow> '' New API key name: '')
     | StageService \<Rightarrow> '' Service / issuer (optional): ''
     | StageSecret \<Rightarrow> (if flow_cat f = KOtp then '' TOTP secret (base32): '' else '' API key value: '')))"

definition input_tail :: "nat \<Rightarrow> string \<Rightarrow> string" where
  "input_tail avail s =
     (let n = length (utf8_chars s) in
      if avail < n then ellipsis @ concat (drop (n - avail + 1) (utf8_chars s)) else s)"

definition message_line :: "nat \<Rightarrow> app \<Rightarrow> text_line" where
  "message_line width a =
     (if app_mode a = ModeKeyInput then
        (let label = input_label (app_flow a) in
         [(boldly (fg WARN_COLOUR), label), (boldly plain, input_tail (width - (length label + 2)) (app_input a)),
          ((fg PRIMARY)\<lparr> lk_blink := True \<rparr>, [CHR 0xE2, CHR 0x96, CHR 0x8F])])
      else (case style_mark (app_style a) of (mark, c) \<Rightarrow>
        [(if app_style a = Dim then fg c else boldly (fg c), '' '' @ mark @ '' '' @ app_message a)]))"

definition mode_hotkeys :: "mode \<Rightarrow> tab \<Rightarrow> key_tab \<Rightarrow> (string \<times> string) list" where
  "mode_hotkeys m t kt =
     (let pages = (case t of
        TabDashboard \<Rightarrow> [(''p'', ''pair''), (''u'', ''unpair''), (''e'', ''enroll''), (''d'', ''delete''), (''v'', ''verify''),
          (''i'', ''info''), (''H'', ''hosts''), (''?'', ''help''), (''q'', ''quit'')]
      | TabKeys \<Rightarrow> [(''Tab'', ''category''), (''j/k'', ''move'')] @
          (case kt of KSsh \<Rightarrow> [(''a'', ''generate''), (''d'', ''del''), (''c'', ''pubkey'')]
           | KOtp \<Rightarrow> [(''a'', ''add''), (''d'', ''del''), (''o'', ''code'')]
           | KApi \<Rightarrow> [(''a'', ''add''), (''d'', ''del''), (''s'', ''show value'')]) @
          [(''r'', ''refresh''), (''?'', ''help''), (''q'', ''quit'')]
      | TabPam \<Rightarrow> [(''j/k'', ''move''), (''i'', ''install''), (''r'', ''remove''), (''R'', ''repair''), (''?'', ''help''), (''q'', ''quit'')]
      | TabLogs \<Rightarrow> [(''j/k'', ''scroll''), (''PgUp/PgDn'', ''page''), (''Home'', ''top''), (''End'', ''tail''), (''?'', ''help''), (''q'', ''quit'')]
      | TabFirmware \<Rightarrow> [(''Enter'', ''update''), (''r'', ''re-check''), (''Esc'', ''back''), (''q'', ''quit'')])
      in case m of
        ModeDeleteSelect \<Rightarrow> [(''0-5'', ''delete slot''), (''Esc'', ''cancel'')]
      | ModeEnrollKindSelect \<Rightarrow> [(''a'', ''auth finger''), (''s'', ''host-switch finger''), (''Esc'', ''cancel'')]
      | ModeKeyInput \<Rightarrow> [(''Enter'', ''confirm''), (''Esc'', ''cancel'')]
      | ModeKeyDeleteConfirm \<Rightarrow> [(''y/Enter'', ''confirm''), (''n/Esc'', ''cancel'')]
      | ModeHostMenu \<Rightarrow> [(''1/2'', ''unpair that host''), (''s'', ''enroll switch''), (''R'', ''factory reset''), (''Esc'', ''cancel'')]
      | ModeHostConfirm \<Rightarrow> [(''y'', ''confirm''), (''n/Esc'', ''cancel'')]
      | ModeHelp \<Rightarrow> pages
      | ModeNormal \<Rightarrow> pages)"

definition hotkey_spans :: "string \<times> string \<Rightarrow> text_line" where
  "hotkey_spans kl = (case kl of (k, label) \<Rightarrow>
     (if k = [] then [] else [(boldly (fg HOTKEY), k), raw '' '']) @ [(fg DIM_COLOUR, label)])"

fun hotkeys_text :: "(string \<times> string) list \<Rightarrow> text_line" where
  "hotkeys_text [] = []"
| "hotkeys_text [k] = hotkey_spans k"
| "hotkeys_text (k # ks) = hotkey_spans k @ (fg DIM_COLOUR, (''  '' @ mid_dot @ ''  '')) # hotkeys_text ks"

definition hotkeys_line :: "app \<Rightarrow> text_line" where
  "hotkeys_line a =
     (let key_look = boldly (fg HOTKEY) in
      if app_mode a = ModeKeyInput \<and> app_style a = Red then
        [raw '' '', (key_look, ''Enter''), (fg DIM_COLOUR, ('' confirm  '' @ mid_dot @ ''  '')), (key_look, ''Esc''),
         (fg DIM_COLOUR, '' cancel   ''), (boldly (fg ERR_COLOUR), ([CHR 0xE2, CHR 0x9C, CHR 0x97] @ '' '') @ app_message a)]
      else raw '' '' # hotkeys_text (mode_hotkeys (app_mode a) (app_tab a) (app_key_tab a)))"

section \<open>The help and the frame\<close>

definition help_key_line :: "string \<times> string \<Rightarrow> text_line" where
  "help_key_line kt = (case kt of (k, t) \<Rightarrow> [(boldly (fg HOTKEY), ''  '' @ pad_right 10 k), raw t])"

definition help_text :: "(string \<times> (string \<times> string) list) list" where
  "help_text =
     [(''Navigation'', [(''1-4'', (''Switch tab '' @ mid_dot @ '' Esc back to Dashboard '' @ mid_dot @ '' q quit''))]),
      (''Dashboard'',
        [(''p / u'', (''Pair (press device button) '' @ mid_dot @ '' unpair this computer'')),
         (''e'', (''Enroll fingerprint '' @ em_dash @ '' asks auth vs host-switch while slot 5 is free, otherwise lowest empty auth slot'')),
         (''d / v'', (''Delete slot (pick 0-5) '' @ mid_dot @ '' verify fingerprint'')),
         (''s o k L h'', ''Toggle sudo / polkit / screen / long-press lock / ssh''),
         (''i'', ''Show device info''),
         (''H'', ''Dual-host slots: 1/2 unpair that host, s enroll switch finger, R factory reset''),
         (''Esc'', ''Cancel in-flight enrollment'')]),
      (''Keys'',
        [(''Tab / h l'', (''Switch SSH / OTP / API category '' @ mid_dot @ '' j k move'')),
         (''a / d / r'', (''Add (SSH generates on-device) '' @ mid_dot @ '' delete '' @ mid_dot @ '' refresh'')),
         (''c / o / s'', (''SSH pubkey '' @ mid_dot @ '' OTP code '' @ mid_dot @ '' API value (FP-gated)''))]),
      (''PAM'', [(''i / r / R'', (''Install '' @ mid_dot @ '' remove '' @ mid_dot @ '' repair all (pkexec prompts)''))]),
      (''Logs'', [(''j k'', (''Scroll '' @ mid_dot @ '' PgUp/PgDn page '' @ mid_dot @ '' Home top '' @ mid_dot @ '' End follow tail''))])]"

definition help_panel :: drawn_panel where
  "help_panel = content_panel '' Help ''
     (concat (map (\<lambda>(title, ks). [(boldly (fg PRIMARY), title)] # map help_key_line ks @ [[raw []]]) help_text) @
      [[(fg DIM_COLOUR, ''Press ? or Esc to close.'')]])"

text \<open>The sizes that ratatui gives to the areas.\<close>

record geometry =
  ge_width :: nat
  ge_events :: "nat \<times> nat"
  ge_key_rows :: nat
  ge_log_rows :: nat

record drawn_screen =
  sc_brand :: text_line
  sc_status :: text_line
  sc_tabs :: text_line
  sc_body :: "drawn_panel list"
  sc_message :: text_line
  sc_hotkeys :: text_line
  sc_help :: "drawn_panel option"

definition draw_body :: "geometry \<Rightarrow> app \<Rightarrow> drawn_panel list option" where
  "draw_body g a = (case app_tab a of
     TabDashboard \<Rightarrow> Some (dashboard_panels (ge_width g) (ge_events g) a)
   | TabKeys \<Rightarrow> map_option (\<lambda>p. [p]) (keys_panel (ge_key_rows g) a)
   | TabPam \<Rightarrow> Some [pam_panel a]
   | TabLogs \<Rightarrow> Some [logs_panel (ge_log_rows g) a]
   | TabFirmware \<Rightarrow> Some [firmware_panel a])"

text \<open>A gauge panics unless its ratio is between 0 and 1.\<close>

definition gauge_ok :: "drawn_panel \<Rightarrow> bool" where
  "gauge_ok p = (case pn_gauge p of None \<Rightarrow> True | Some (r, _) \<Rightarrow> 0 \<le> r \<and> r \<le> 1)"

definition draw :: "geometry \<Rightarrow> app \<Rightarrow> drawn_screen option" where
  "draw g a = (case draw_body g a of
     None \<Rightarrow> None
   | Some body \<Rightarrow>
       if list_all gauge_ok body then
         Some \<lparr> sc_brand = header_brand, sc_status = header_status a, sc_tabs = tabbar a, sc_body = body,
           sc_message = message_line (ge_width g) a, sc_hotkeys = hotkeys_line a,
           sc_help = (if app_mode a = ModeHelp then Some help_panel else None) \<rparr>
       else None)"

section \<open>Drawing never panics\<close>

lemma all_some_map: "list_all (\<lambda>i. f i \<noteq> None) xs \<Longrightarrow> all_some (map f xs) = Some (map (\<lambda>i. the (f i)) xs)"
  by (induction xs) auto

lemma key_row_line_Some: "i < current_key_len a \<Longrightarrow> key_row_line a i \<noteq> None"
  by (auto simp: key_row_line_def current_key_len_def get_at_def Let_def split: key_tab.splits)

lemma key_rows_Some:
  "key_rows rows a = Some (if current_key_len a = 0 then the (key_rows rows a)
     else map (\<lambda>i. the (key_row_line a i))
       [window_start (current_key_len a) (app_key_cursor a) rows
          ..<min (window_start (current_key_len a) (app_key_cursor a) rows + rows) (current_key_len a)])"
proof (cases "current_key_len a = 0")
  case True
  then show ?thesis by (simp add: key_rows_def Let_def)
next
  case False
  have "list_all (\<lambda>i. key_row_line a i \<noteq> None) [window_start (current_key_len a) (app_key_cursor a) rows
      ..<min (window_start (current_key_len a) (app_key_cursor a) rows + rows) (current_key_len a)]"
    using key_row_line_Some by (auto simp: list_all_iff)
  from all_some_map [OF this] False show ?thesis by (simp add: key_rows_def Let_def)
qed

lemma content_panel_gauge [simp]: "pn_gauge (content_panel t ls) = None"
  by (simp add: content_panel_def)

lemma gauge_plain [simp]:
  "gauge_ok (content_panel t ls)" "gauge_ok ((content_panel t ls)\<lparr> pn_title := u \<rparr>)"
  "gauge_ok ((content_panel t ls)\<lparr> pn_corner := c \<rparr>)"
  by (simp_all add: gauge_ok_def)

lemma gauge_clamped [simp]: "gauge_ok (p\<lparr> pn_gauge := Some (max 0 (min 1 r), l) \<rparr>)"
  by (simp add: gauge_ok_def)

lemma gauge_panels [simp]:
  "gauge_ok (fingers_panel a)" "gauge_ok (hosts_panel a)" "gauge_ok (unlock_panel a)" "gauge_ok (pam_summary_panel a)"
  "gauge_ok (events_panel d a)" "gauge_ok (pam_panel a)" "gauge_ok (logs_panel n a)" "gauge_ok (firmware_panel a)"
proof -
  show "gauge_ok (fingers_panel a)"
    by (simp add: fingers_panel_def Let_def) (simp add: gauge_ok_def)
  show "gauge_ok (firmware_panel a)"
    by (cases "app_fw_state a") (simp_all add: firmware_panel_def Let_def split: option.split)
qed (simp_all add: hosts_panel_def unlock_panel_def pam_summary_panel_def events_panel_def pam_panel_def logs_panel_def Let_def
    split: prod.split)

text \<open>
  Fact: Drawing never panics, whatever the state of the application and the size of the terminal: no index
  leaves its list, also when the cursor does, and every gauge has a ratio between 0 and 1, also when a
  progress report goes beyond it. (A fraction is a rational number here: the NaN of a floating-point one is
  not covered.)
\<close>

theorem draw_never_panics: "draw g a \<noteq> None"
proof -
  have "draw_body g a \<noteq> None \<and> list_all gauge_ok (the (draw_body g a))"
  proof (cases "app_tab a")
    case TabKeys
    have "key_rows (ge_key_rows g) a \<noteq> None" by (subst key_rows_Some) simp
    then show ?thesis using TabKeys by (auto simp: draw_body_def keys_panel_def)
  qed (auto simp: draw_body_def dashboard_panels_def)
  then show ?thesis by (auto simp: draw_def)
qed

section \<open>The list of keys follows the cursor\<close>

lemma window_holds_cursor:
  assumes "cur < n" "0 < rows"
  shows "window_start n cur rows \<le> cur" "cur < min (window_start n cur rows + rows) n"
  using assms by (auto simp: window_start_def)

definition marked :: "text_line \<Rightarrow> bool" where
  "marked l \<longleftrightarrow> (case l of (k, _) # _ \<Rightarrow> k = inverse_look | [] \<Rightarrow> False)"

lemma marked_row: "i < current_key_len a \<Longrightarrow> marked (the (key_row_line a i)) \<longleftrightarrow> i = app_key_cursor a"
  by (cases "app_key_tab a") (auto simp: key_row_line_def current_key_len_def get_at_def marked_def inverse_look_def
      plain_def fg_def boldly_def Let_def)

lemma filter_one: "distinct xs \<Longrightarrow> x \<in> set xs \<Longrightarrow> filter (\<lambda>y. y = x) xs = [x]"
  by (induction xs) (auto simp: filter_empty_conv)

text \<open>
  Fact: In every well-formed state the list of keys shows the entry under the cursor and marks it and no
  other, on any number of rows and for any number of entries, and shows no more entries than it has rows.
\<close>

theorem keys_list_shows_cursor:
  assumes "wf_app a" "0 < current_key_len a" "0 < rows"
  shows "map_option (filter marked) (key_rows rows a) = Some [the (key_row_line a (app_key_cursor a))] \<and>
    app_key_cursor a < current_key_len a \<and> length (the (key_rows rows a)) \<le> rows"
proof -
  let ?n = "current_key_len a" and ?c = "app_key_cursor a"
  let ?is = "[window_start ?n ?c rows..<min (window_start ?n ?c rows + rows) ?n]"
  have c: "?c < ?n"
    using assms(1,2) by (auto simp: wf_app_def wf_cursor_def current_key_len_def len_of_def split: key_tab.splits)
  note w = window_holds_cursor [OF c assms(3)]
  have k: "key_rows rows a = Some (map (\<lambda>i. the (key_row_line a i)) ?is)" using key_rows_Some [of rows a] assms(2) by simp
  have "filter (\<lambda>i. marked (the (key_row_line a i))) ?is = filter (\<lambda>i. i = ?c) ?is"
    by (rule filter_cong) (auto simp: marked_row)
  also have "\<dots> = [?c]" using w by (intro filter_one) auto
  finally have "filter marked (map (\<lambda>i. the (key_row_line a i)) ?is) = [the (key_row_line a ?c)]"
    by (simp add: filter_map comp_def)
  then show ?thesis using k c by simp
qed

definition nine_keys :: app where
  "nine_keys = app_new\<lparr> app_key_tab := KApi, app_key_cursor := 6,
     app_api_keys := map (\<lambda>i. \<lparr> nrow_index = i, nrow_name = ''k'' @ show_word i, nrow_service = [] \<rparr>) (u8_range 9) \<rparr>"

theorem keys_list_shows_cursor_witness:
  "map_option (filter marked) (key_rows 4 nine_keys) = Some [the (key_row_line nine_keys 6)]"
proof -
  have c: "app_key_cursor nine_keys = 6" "current_key_len nine_keys = 9"
    by (simp_all add: nine_keys_def current_key_len_def u8_range_def)
  moreover have "wf_app nine_keys"
    by (simp add: nine_keys_def wf_app_def wf_mode_def wf_cursor_def app_new_def len_of_def u8_range_def wf_feed_def wf_slots_def)
  ultimately show ?thesis using keys_list_shows_cursor [of nine_keys 4] by simp
qed

section \<open>The input line\<close>

lemma utf8_chars_drop: "utf8_chars (concat (drop n (utf8_chars s))) = drop n (utf8_chars s)"
proof (induction s arbitrary: n rule: utf8_chars.induct)
  case (1 s)
  show ?case
  proof (cases "s = [] \<or> n = 0")
    case False
    then obtain m where n: "n = Suc m" by (cases n) auto
    have "utf8_chars s = take (snd (utf8_head s)) s # utf8_chars (drop (snd (utf8_head s)) s)"
      using False by (subst utf8_chars.simps) simp
    then have "drop n (utf8_chars s) = drop m (utf8_chars (drop (snd (utf8_head s)) s))" by (simp only: n drop_Suc_Cons)
    then show ?thesis using "1.IH" False by simp
  qed auto
qed

lemma utf8_chars_ellipsis: "utf8_chars (ellipsis @ s) = ellipsis # utf8_chars s"
  by (subst utf8_chars.simps) (simp add: utf8_head_def Let_def nth_in_def cont_byte_def get_at_def)

text \<open>
  Fact: The end of what is typed stays visible: the input line shows the text itself when it fits, and
  otherwise an ellipsis and the end of the text, in no more characters than there is room for.
\<close>

theorem input_tail_visible:
  "length (utf8_chars (input_tail avail s)) \<le> max 1 avail \<and>
   (if length (utf8_chars s) \<le> avail then input_tail avail s = s
    else \<exists>m. input_tail avail s = ellipsis @ concat (drop m (utf8_chars s)) \<and> length (drop m (utf8_chars s)) = avail - 1)"
proof (cases "length (utf8_chars s) \<le> avail")
  case False
  let ?n = "length (utf8_chars s)"
  have "input_tail avail s = ellipsis @ concat (drop (?n - avail + 1) (utf8_chars s))"
    using False by (simp add: input_tail_def Let_def)
  moreover have "length (utf8_chars (ellipsis @ concat (drop (?n - avail + 1) (utf8_chars s)))) = Suc (avail - 1)"
    using False by (simp only: utf8_chars_ellipsis utf8_chars_drop) auto
  ultimately show ?thesis using False by (auto intro!: exI [of _ "?n - avail + 1"])
qed (simp add: input_tail_def Let_def)

section \<open>Colours of the log\<close>

definition level_look :: "level \<Rightarrow> look" where
  "level_look l = (case l of LvError \<Rightarrow> boldly (fg ERR_COLOUR) | LvWarn \<Rightarrow> fg WARN_COLOUR | LvDim \<Rightarrow> fg DIM_COLOUR | LvPlain \<Rightarrow> plain)"

text \<open>
  Fact: The terminal UI and the GUI colour the lines of the log by the same rules but for one: a line on
  dropped log lines is a warning in the GUI and is coloured like any other line in the terminal UI.
\<close>

theorem log_colours_agree:
  "log_line_style line = level_look (classify line) \<or> contains_str ''log lines dropped'' line \<and> classify line = LvWarn"
  by (simp add: log_line_style_def classify_def level_look_def)

text \<open>Fact: they differ on the line that the daemon sends.\<close>

theorem dropped_lines_not_coloured:
  "log_line_style (dropped_note 3) = plain \<and> classify (dropped_note 3) = LvWarn"
  by code_simp

end
