(* ===== verification/Spec2Isabelle.thy ===== *)
theory Spec2Isabelle
  imports Socket_Auth Ble_Session Socket_Device Socket_Keys Ssh_Agent Fw_Update Auth_Protocol
    Enroll_Session Ssh_Import Imk Tui_Behaviour Cli_Safety Log_Stream Session_Agent Gui_Hosts Gui_Fingers Gui_Keyadd
    Gui_Firmware Gui_Logs Daemon_Start Tui_View
begin

text \<open>
  A model of the immurok host software for Linux: the daemon that talks to the fingerprint key over
  Bluetooth and serves logins, SSH and secrets from a socket, and its clients: the command line and terminal
  UI \<open>immurok-cli\<close>, the agent wrapper \<open>imk\<close>, the session agent and the GTK program \<open>immurok-gui\<close>. Paths below
  are under \<open>src/crates\<close>.

  The daemon is one shared \<open>Coordinator\<close> with tasks around it. The BLE worker owns the device: it routes its
  notifications and runs commands one at a time. The socket server runs one task for each request; the SSH
  agent is a second socket. A request that needs a finger waits for an event of its \<open>select!\<close>: the worker's
  answer, a match routed to it, a cancel, a timeout. The clients send one line of text and read one line of
  answer. The model follows these lines: data as records and datatypes with the source's names, a handler as a
  function from the state to an answer and the new state, a loop of events as a step function, errors as
  \<open>Ok\<close> and \<open>Err\<close> (\<open>Prelude.result\<close>), a \<open>u8\<close> as an \<open>8 word\<close>, a \<open>str\<close> as the list of its UTF-8 bytes.

  \<^bold>\<open>Foundations.\<close> \<open>Prelude\<close>: results, bytes, integers on the wire, and the locales \<open>wire_codec\<close> (an encoder that a
  decoder inverts) and \<open>event_machine\<close> (a step function that keeps an invariant, so that every run does).
  \<open>Rust_Str\<close>, \<open>Utf8\<close>: the operations of \<open>str\<close> the program uses.

  \<^bold>\<open>immurok-common.\<close> \<open>Protocol\<close>, \<open>Types_Common\<close>, \<open>Dual_Host\<close>, \<open>Socket_Proto\<close>: constants, shared types, the answers on
  host slots, requests and responses with their round trips. \<open>Security\<close>: keys, MACs and the pairing file.
  \<open>Ssh_Config\<close>: the managed block in the user's SSH configuration. \<open>Firmware\<close>: versions, plans, packages,
  manifests. \<open>Pam_Config\<close>: the PAM services (also of \<open>immurok-client\<close> and the command).

  \<^bold>\<open>immurok-daemon.\<close>
  \<^item> \<open>Session\<close>, \<open>Coordinator\<close> (\<open>session.rs\<close>, \<open>coordinator.rs\<close>): who may talk to the daemon, and the shared state: the
    slot of the one waiting request (locale \<open>exclusive_slot\<close>), the windows that need no touch, the claims.
  \<^item> \<open>Ble_Router\<close>, \<open>Ble_Worker\<close>, \<open>Ble_Sync\<close>, \<open>Ble_Session\<close> (\<open>ble.rs\<close>): the routing of a notification, the waits of the
    worker, the key synchronisation, a connection with its challenge and commands. A wait takes a list of
    tokens that says which branch of its \<open>select!\<close> is ready next and with what; the theorems hold for every
    list. \<open>Ble_Discovery\<close>: BlueZ, the active connect and the suspend window. \<open>Ble_Link\<close>: the channel between a
    handler and the worker, as the locale \<open>ble_link\<close>, with the worker as its interpretation, so that what is
    proved of a handler over the channel holds of the handler on the worker.
  \<^item> \<open>Socket_Auth\<close>, \<open>Socket_Device\<close>, \<open>Socket_Keys\<close> (\<open>socket.rs\<close>): the front with the tiers, \<open>AUTH\<close> and \<open>AGENT_APPROVE\<close>, the
    handlers of the device and of the keys. \<open>Auth_Protocol\<close>: any number of these requests side by side, as a
    step relation on the coordinator and the tasks, with the invariant of its reachable states.
  \<^item> \<open>Keystore\<close>, \<open>Ssh_Agent\<close> (\<open>keystore.rs\<close>, \<open>ssh_agent.rs\<close>): the key cache, identities and signatures. \<open>Ota\<close> (\<open>ota.rs\<close>): the
    update session. \<open>Log_Stream\<close> (\<open>logbuf.rs\<close>): the ring and a viewer. \<open>Daemon_Start\<close> (\<open>main.rs\<close>, \<open>settings.rs\<close>,
    \<open>screen.rs\<close>, \<open>suspend.rs\<close>): start, files, and the monitors. \<open>Session_Agent\<close>: the agent that shows dialogs.

  \<^bold>\<open>immurok-client.\<close> \<open>Client_Parse\<close>, \<open>Client_Keys\<close>: reading the daemon's answers. \<open>Keys_Import\<close>, \<open>Ssh_Import\<close>: entries and key
  files on their way to the device. \<open>Enroll_Session\<close>: the enrollment driver. \<open>Ota_Push\<close>, \<open>Fw_Update\<close>: the push of a
  package and the update around it.

  \<^bold>\<open>immurok-cli.\<close> \<open>Imk\<close>: the agent wrapper. \<open>Cli_Process\<close>, \<open>Cli_Pairing\<close>, \<open>Cli_Commands\<close>, \<open>Cli_Safety\<close>: a command is a process
  that prints, reads, asks and exits, run in a world that answers; the command \<open>tui\<close> is one opaque step there.
  \<open>Tui_State\<close>, \<open>Tui_Actions\<close>, \<open>Tui_Loop\<close>: the terminal UI as a machine of rounds of its loop and of threads that
  send results; \<open>Tui_Runs\<close>, \<open>Tui_Safety\<close>, \<open>Tui_Behaviour\<close>: what holds in every reachable state, and its runs against
  the daemon; \<open>Tui_View\<close>: what it draws.

  \<^bold>\<open>immurok-gui.\<close> \<open>Gui_Panel\<close>, \<open>Gui_Gate\<close>, \<open>Gui_Hosts\<close>, \<open>Gui_Fingers\<close>, \<open>Gui_Keys\<close>, \<open>Gui_Keyadd\<close>, \<open>Gui_Firmware\<close>, \<open>Gui_Logs\<close>: the quick-fill
  panel, the dialogs and the pages, each a machine of the events its main loop handles: clicks, answers of
  tasks, timers. A task that a handler starts and awaits is a value of the state.

  \<^bold>\<open>What the lemmas show.\<close> (1) Who gets through: only authorised callers are served, an approval needs a finger
  (at most one approval for a match, over all interleavings, apart from the windows that are meant to need
  none), a device answer needs its MAC, a signature needs its gate. (2) What is stored: pairing, slots and
  the wipe change nothing but as the device confirmed, an update pushes checked packages in full. (3) What
  arrives: entries, key files, status and settings are read as they were written. (4) What the user sees and
  confirms: destructive requests come only from the confirmed prompt, the screens show the daemon's state.
  (5) What ends: enrollments, actions, reads. Each property is marked with its number \<open>C\<close>, a result kept beside
  them with \<open>Fact\<close>; several of them state where the program does not do what it says.

  \<^bold>\<open>Loops.\<close> Two loops of the source may run for ever and are \<open>partial_function (option)\<close>: \<open>read_api\<close> of
  \<open>Socket_Keys\<close> (it returns on the worker, and does not for a device that sends empty chunks) and \<open>drive_loop\<close> of
  \<open>Enroll_Session\<close> (it returns within 2404 events on a clock that runs). Every other recursion is proved to
  terminate; the loops of the worker end with their token lists, whose end stands for the timeout or the
  end of the connection. Bounds of the source (one retry of a push, polls of a pairing or a restart) are
  its constants.

  \<^bold>\<open>Parameters and what is left out.\<close> Cryptography, SHA-256, base64, hex, JSON, Unicode case mapping, the markup
  escaping of glib, HTTP, BlueZ and the operating system are arguments; what is needed of them is a
  hypothesis of the theorem or a field's contract, and a witness instantiates them. Not modelled: the C
  module of PAM and the scripts, widgets and layout of the GUI with its window, sidebar, dashboard,
  features and PAM pages, the HTTP transport, logging setup, packaging. Time is what a clock argument says;
  where an event may come at any time the order of events is arbitrary. Arithmetic wraps as in a release
  build; the one place known to underflow is noted at \<open>pairs_as_second_host\<close>.
\<close>

end
